(* ===== verification/Prelude.thy ===== *)
theory Prelude
  imports Main "HOL-Library.Word" "HOL-Library.Monad_Syntax" "HOL-Library.Signed_Division"
begin

text \<open>
  Shared vocabulary of the development.

  \<^item> Machine integers: \<open>u8\<close>, \<open>u16\<close>, \<open>u32\<close> are words; a C \<open>int\<close> that holds an object
    length, an index or a return code is an \<open>int\<close> (the target is a 32 bit MCU with 64 KB of
    memory, so lengths of objects never reach \<open>2 ^ 31\<close>). C division is \<open>sdiv\<close>/\<open>smod\<close>.
  \<^item> Memory: an array of the program is a list. \<open>rd\<close>, \<open>wr\<close>, \<open>blit\<close> and \<open>rd_block\<close> are the loads,
    stores, \<open>memcpy\<close> into an array and block read; each is \<open>None\<close> outside the array. In every
    definition of the development \<open>None\<close> is a run the C language gives no meaning to (an
    access outside an object, a null dereference, a failed \<open>RT_ASSERT\<close>) or, where it says so,
    a run that does not come back; error codes the program returns are ordinary values.
  \<^item> Strings: a \<open>char *\<close> to a NUL terminated string is the list of its bytes; the end of the list
    acts as the terminator, an earlier zero byte ends the string too (\<open>cstr\<close>).
\<close>

unbundle bit_operations_syntax

type_synonym u8 = "8 word"
type_synonym u16 = "16 word"
type_synonym u32 = "32 word"
type_synonym bytes = "u8 list"

named_theorems mem_defs "unfolding rules of the bounds-checked memory accesses"
named_theorems inv_rules "preservation rules of the components' invariants"

section \<open>Bounds-checked arrays\<close>

definition rd :: "'a list \<Rightarrow> nat \<Rightarrow> 'a option" where
  [mem_defs]: "rd xs i = (if i < length xs then Some (xs ! i) else None)"

definition wr :: "'a list \<Rightarrow> nat \<Rightarrow> 'a \<Rightarrow> 'a list option" where
  [mem_defs]: "wr xs i x = (if i < length xs then Some (xs[i := x]) else None)"

definition blit :: "'a list \<Rightarrow> nat \<Rightarrow> 'a list \<Rightarrow> 'a list option" where
  [mem_defs]: "blit buf p xs =
     (if p + length xs \<le> length buf
      then Some (take p buf @ xs @ drop (p + length xs) buf) else None)"

definition rd_block :: "'a list \<Rightarrow> nat \<Rightarrow> nat \<Rightarrow> 'a list option" where
  [mem_defs]: "rd_block xs off n =
     (if off + n \<le> length xs then Some (take n (drop off xs)) else None)"

lemma rd_Some_iff: "rd xs i = Some x \<longleftrightarrow> i < length xs \<and> x = xs ! i"
  by (auto simp: rd_def)

lemma wr_Some_iff: "wr xs i x = Some ys \<longleftrightarrow> i < length xs \<and> ys = xs[i := x]"
  by (auto simp: wr_def)

lemma blit_Some_iff:
  "blit buf p xs = Some ys \<longleftrightarrow>
     p + length xs \<le> length buf \<and> ys = take p buf @ xs @ drop (p + length xs) buf"
  by (auto simp: blit_def)

lemma blit_None_iff: "blit buf p xs = None \<longleftrightarrow> length buf < p + length xs"
  by (auto simp: blit_def)

lemma length_wr: "wr xs i x = Some ys \<Longrightarrow> length ys = length xs"
  by (auto simp: wr_def split: if_splits)

lemma length_blit: "blit buf p xs = Some ys \<Longrightarrow> length ys = length buf"
  by (auto simp: blit_def split: if_splits)

lemma length_rd_block: "rd_block xs off n = Some ys \<Longrightarrow> length ys = n"
  by (auto simp: rd_block_def split: if_splits)

lemma blit_Nil [simp]: "p \<le> length buf \<Longrightarrow> blit buf p [] = Some buf"
  by (simp add: blit_def)

lemma wr_blit: "wr buf p x = blit buf p [x]"
  by (auto simp: wr_def blit_def upd_conv_take_nth_drop)

text \<open>Two adjacent block writes are one.\<close>

lemma blit_blit:
  assumes "blit buf p xs = Some b"
  shows "blit b (p + length xs) ys = blit buf p (xs @ ys)"
  using assms by (auto simp: blit_def split: if_splits) (simp add: add.commute add.left_commute)

lemma blit_prefix:
  "blit buf 0 xs = Some b \<Longrightarrow> take (length xs) b = xs"
  by (auto simp: blit_def split: if_splits)

lemma rd_block_blit:
  "blit buf p xs = Some b \<Longrightarrow> rd_block b p (length xs) = Some xs"
  by (auto simp: blit_def rd_block_def split: if_splits)

section \<open>C strings\<close>

definition cstr :: "bytes \<Rightarrow> bytes" where
  "cstr s = takeWhile (\<lambda>b. b \<noteq> 0) s"

definition c_strlen :: "bytes \<Rightarrow> nat" where
  "c_strlen s = length (cstr s)"

lemma c_strlen_le: "c_strlen s \<le> length s"
  by (simp add: c_strlen_def cstr_def length_takeWhile_le)

lemma cstr_id: "0 \<notin> set s \<Longrightarrow> cstr s = s"
  unfolding cstr_def by (subst takeWhile_eq_all_conv) auto

lemma cstr_append_nul: "0 \<notin> set s \<Longrightarrow> cstr (s @ 0 # xs) = s"
  by (induction s) (simp_all add: cstr_def)

lemma length_cstr [simp]: "length (cstr s) = c_strlen s"
  by (simp add: c_strlen_def)

definition ascii :: "string \<Rightarrow> bytes" where
  "ascii s = map of_char s"

text \<open>\<open>%d\<close> and \<open>%u\<close> of a number that is not negative.\<close>

fun decimal :: "nat \<Rightarrow> bytes" where
  "decimal n = (if n < 10 then [] else decimal (n div 10)) @ [48 + word_of_nat (n mod 10)]"

declare decimal.simps [simp del]

section \<open>Bytes, and C arithmetic on non-negative integers\<close>

lemma sdiv_nonneg: "0 \<le> a \<Longrightarrow> 0 < b \<Longrightarrow> (a::int) sdiv b = a div b"
  by (simp add: signed_divide_int_def sgn_if)

lemma sdiv_pos_imp_pos: "0 < (a::int) sdiv b \<Longrightarrow> 0 < b \<Longrightarrow> 0 < a"
  using pos_imp_zdiv_nonneg_iff [of b "- a"]
  by (cases "0 < a") (auto simp: signed_divide_int_def sgn_if split: if_splits)

lemma smod_nonneg: "0 \<le> a \<Longrightarrow> 0 < b \<Longrightarrow> (a::int) smod b = a mod b"
  by (simp add: signed_modulo_int_def sgn_if)

lemma unat_u8_less: "unat (b :: u8) < 256"
proof -
  have "unat b < 2 ^ LENGTH(8)" by (rule unsigned_less)
  then show ?thesis by simp
qed

lemma uint_u8_less: "uint (b :: u8) < 256"
proof -
  have "uint b < 2 ^ LENGTH(8)" by (rule unsigned_less)
  then show ?thesis by simp
qed

lemma unat_u16_less: "unat (b :: u16) < 65536"
proof -
  have "unat b < 2 ^ LENGTH(16)" by (rule unsigned_less)
  then show ?thesis by simp
qed

lemma unat_of_nat_u8: "n < 256 \<Longrightarrow> unat (word_of_nat n :: u8) = n"
  by (simp add: unat_of_nat take_bit_nat_eq_self)

lemma uint_of_nat_u8: "n < 256 \<Longrightarrow> uint (word_of_nat n :: u8) = int n"
  by (simp only: uint_nat unat_of_nat_u8)

lemma unat_of_nat_u16: "n < 65536 \<Longrightarrow> unat (word_of_nat n :: u16) = n"
  by (simp add: unat_of_nat take_bit_nat_eq_self)

lemma unat_of_nat_u32: "n < 4294967296 \<Longrightarrow> unat (word_of_nat n :: u32) = n"
  by (simp add: unat_of_nat take_bit_nat_eq_self)

lemma unat_of_int_u8: "0 \<le> k \<Longrightarrow> k < 256 \<Longrightarrow> unat (word_of_int k :: u8) = nat k"
  by (simp add: unat_eq_nat_uint word_of_int_inverse)

section \<open>Invariants of labelled steps\<close>

text \<open>A component as a partial step function; a run is a list of labels.\<close>

fun run_steps :: "('l \<Rightarrow> 's \<Rightarrow> 's option) \<Rightarrow> 'l list \<Rightarrow> 's \<Rightarrow> 's option" where
  "run_steps step [] s = Some s"
| "run_steps step (a # as) s = do { s \<leftarrow> step a s; run_steps step as s }"

lemma run_steps_append:
  "run_steps step (as @ bs) s = do { s \<leftarrow> run_steps step as s; run_steps step bs s }"
  by (induction as arbitrary: s) (auto split: bind_splits)

locale step_invariant =
  fixes step :: "'l \<Rightarrow> 's \<Rightarrow> 's option" and I :: "'s \<Rightarrow> bool"
  assumes step_keeps: "step a s = Some s' \<Longrightarrow> I s \<Longrightarrow> I s'"
begin

lemma run_keeps: "run_steps step as s = Some s' \<Longrightarrow> I s \<Longrightarrow> I s'"
  by (induction as arbitrary: s) (auto simp: bind_eq_Some_conv dest: step_keeps)

lemma run_prefix_keeps:
  "run_steps step (as @ bs) s = Some s' \<Longrightarrow> I s \<Longrightarrow> \<exists>s1. run_steps step as s = Some s1 \<and> I s1"
  by (auto simp: run_steps_append bind_eq_Some_conv dest: run_keeps)

end

section \<open>Simulations\<close>

text \<open>
  A component implements a specification when every step the specification takes is one the component
  takes, to related states; when the specification is never stuck, neither is the component.
\<close>

locale simulation =
  fixes rel :: "'c \<Rightarrow> 'a \<Rightarrow> bool" and cstep :: "'l \<Rightarrow> 'c \<Rightarrow> 'c option" and astep :: "'l \<Rightarrow> 'a \<Rightarrow> 'a option"
  assumes simulates: "rel c a \<Longrightarrow> astep l a = Some a' \<Longrightarrow> \<exists>c'. cstep l c = Some c' \<and> rel c' a'"
begin

lemma run_simulates:
  "rel c a \<Longrightarrow> run_steps astep ls a = Some a' \<Longrightarrow> \<exists>c'. run_steps cstep ls c = Some c' \<and> rel c' a'"
proof (induction ls arbitrary: c a)
  case (Cons l ls)
  from Cons.prems(2) obtain a1 where a1: "astep l a = Some a1" "run_steps astep ls a1 = Some a'"
    by (auto simp: bind_eq_Some_conv)
  from simulates [OF Cons.prems(1) a1(1)] obtain c1 where "cstep l c = Some c1" "rel c1 a1" by blast
  with Cons.IH [OF _ a1(2)] show ?case by auto
qed simp

end

locale total_simulation = simulation +
  assumes never_stuck: "rel c a \<Longrightarrow> \<exists>a'. astep l a = Some a'"
begin

lemma run_total: "rel c a \<Longrightarrow> \<exists>c' a'. run_steps cstep ls c = Some c' \<and> run_steps astep ls a = Some a' \<and> rel c' a'"
proof (induction ls arbitrary: c a)
  case (Cons l ls)
  from never_stuck [OF Cons.prems] obtain a1 where a1: "astep l a = Some a1" by blast
  from simulates [OF Cons.prems this] obtain c1 where "cstep l c = Some c1" "rel c1 a1" by blast
  with Cons.IH [of c1 a1] a1 show ?case by auto
qed simp

end

text \<open>When also every step the specification refuses is one the component refuses, the runs are the same.\<close>

locale exact_simulation = simulation +
  assumes refuses: "rel c a \<Longrightarrow> astep l a = None \<Longrightarrow> cstep l c = None"
begin

lemma run_exact:
  "rel c a \<Longrightarrow> (case run_steps astep ls a of None \<Rightarrow> run_steps cstep ls c = None
     | Some a' \<Rightarrow> \<exists>c'. run_steps cstep ls c = Some c' \<and> rel c' a')"
proof (induction ls arbitrary: c a)
  case (Cons l ls)
  show ?case
  proof (cases "astep l a")
    case None
    with refuses [OF Cons.prems this] show ?thesis by simp
  next
    case (Some a1)
    from simulates [OF Cons.prems this] obtain c1 where "cstep l c = Some c1" "rel c1 a1" by blast
    with Cons.IH [of c1 a1] Some show ?thesis by (auto split: option.splits)
  qed
qed simp

end

section \<open>Bounded queues\<close>

text \<open>
  What the users of a queue rely on: a message is put at the end while there is room and dropped
  otherwise, and the first one is taken. \<open>fits\<close> are the messages a queue takes at all.
\<close>

locale bounded_fifo =
  fixes invar :: "'q \<Rightarrow> bool" and contents :: "'q \<Rightarrow> 'm list" and room :: "'q \<Rightarrow> nat"
    and fits :: "'q \<Rightarrow> 'm \<Rightarrow> bool" and enq :: "'m \<Rightarrow> 'q \<Rightarrow> 'q option" and deq :: "'q \<Rightarrow> ('m \<times> 'q) option"
  assumes enq_room: "invar q \<Longrightarrow> fits q m \<Longrightarrow> 0 < room q \<Longrightarrow>
      \<exists>q'. enq m q = Some q' \<and> invar q' \<and> contents q' = contents q @ [m] \<and> room q' = room q - 1 \<and> fits q' = fits q"
    and enq_full: "invar q \<Longrightarrow> fits q m \<Longrightarrow> room q = 0 \<Longrightarrow> enq m q = Some q"
    and deq_first: "invar q \<Longrightarrow> contents q = m # ms \<Longrightarrow>
      \<exists>q'. deq q = Some (m, q') \<and> invar q' \<and> contents q' = ms \<and> room q' = room q + 1 \<and> fits q' = fits q"
begin

fun enq_all :: "'m list \<Rightarrow> 'q \<Rightarrow> 'q option" where
  "enq_all [] q = Some q"
| "enq_all (m # ms) q = Option.bind (enq m q) (enq_all ms)"

fun deq_n :: "nat \<Rightarrow> 'q \<Rightarrow> ('m list \<times> 'q) option" where
  "deq_n 0 q = Some ([], q)"
| "deq_n (Suc n) q = Option.bind (deq q) (\<lambda>(m, q). map_option (\<lambda>(ms, q). (m # ms, q)) (deq_n n q))"

text \<open>As many messages get in as there is room, in order; the others are lost.\<close>

lemma enq_all_contents:
  "invar q \<Longrightarrow> \<forall>m\<in>set ms. fits q m \<Longrightarrow>
     \<exists>q'. enq_all ms q = Some q' \<and> invar q' \<and> contents q' = contents q @ take (room q) ms
       \<and> room q' = room q - length ms \<and> fits q' = fits q"
proof (induction ms arbitrary: q)
  case (Cons m ms)
  show ?case
  proof (cases "room q")
    case 0
    with Cons.IH [of q] Cons.prems enq_full [of q m] show ?thesis by auto
  next
    case (Suc n)
    with enq_room [of q m] Cons.prems obtain q' where q': "enq m q = Some q'" "invar q'"
      "contents q' = contents q @ [m]" "room q' = n" "fits q' = fits q" by auto
    with Cons.IH [of q'] Cons.prems Suc show ?thesis by auto
  qed
qed simp

lemma deq_n_contents:
  "invar q \<Longrightarrow> n \<le> length (contents q) \<Longrightarrow>
     \<exists>q'. deq_n n q = Some (take n (contents q), q') \<and> invar q' \<and> contents q' = drop n (contents q)
       \<and> room q' = room q + n \<and> fits q' = fits q"
proof (induction n arbitrary: q)
  case (Suc n)
  then obtain m ms where c: "contents q = m # ms" by (cases "contents q") auto
  with deq_first [of q m ms] Suc.prems obtain q' where q': "deq q = Some (m, q')" "invar q'" "contents q' = ms"
    "room q' = room q + 1" "fits q' = fits q" by auto
  with Suc.IH [of q'] Suc.prems c show ?case by auto
qed simp

text \<open>Out comes what went in.\<close>

lemma fifo_order:
  assumes "invar q" and "contents q = []" and "\<forall>m\<in>set ms. fits q m" and "length ms \<le> room q"
  shows "\<exists>q1 q2. enq_all ms q = Some q1 \<and> deq_n (length ms) q1 = Some (ms, q2) \<and> invar q2 \<and> contents q2 = []"
proof -
  from enq_all_contents [OF assms(1,3)] assms obtain q1 where
    q1: "enq_all ms q = Some q1" "invar q1" "contents q1 = ms" by auto
  with deq_n_contents [OF q1(2), of "length ms"] show ?thesis by auto
qed

end

end
