(* ===== verification/Mqtt_Types.thy ===== *)
theory Mqtt_Types
  imports Prelude
begin

text \<open>
  Data model of the MQTT client: the enumerations, configuration constants and structures of
  \<open>umqtt.h\<close>, \<open>umqtt_cfg.h\<close>, \<open>umqtt_internal.h\<close> and the \<open>PKG_UMQTT_*\<close> settings of
  \<open>rtconfig.h\<close>.

  Two layout facts the code depends on are explicit. Bit-fields are allocated from the least
  significant bit (GCC, little endian RISC-V), so the fixed header and the connect flags are
  bytes with accessor functions. The members of \<open>union umqtt_pkgs_msg\<close> share their first half
  word: \<open>packet_id\<close> of the acknowledgement, subscribe and unsubscribe structures is the same
  storage as \<open>topic_name_len\<close> of a publish and \<open>protocol_name_len\<close> of a connect, and a
  publish's own \<open>packet_id\<close> is elsewhere. The record \<open>umqtt_msg\<close> keeps that half word once
  (\<open>u_head\<close>); the remaining fields of the members do not overlap in any use the code makes.
\<close>

section \<open>Enumerations and configuration\<close>

datatype umqtt_client_state =
    UMQTT_CS_IDLE | UMQTT_CS_LINKING | UMQTT_CS_LINKED
  | UMQTT_CS_UNLINK | UMQTT_CS_UNLINK_LINKING | UMQTT_CS_DISCONNECT

primrec client_state_code :: "umqtt_client_state \<Rightarrow> int" where
  "client_state_code UMQTT_CS_IDLE = 0x00"
| "client_state_code UMQTT_CS_LINKING = 0x01"
| "client_state_code UMQTT_CS_LINKED = 0x02"
| "client_state_code UMQTT_CS_UNLINK = 0x04"
| "client_state_code UMQTT_CS_UNLINK_LINKING = 0x08"
| "client_state_code UMQTT_CS_DISCONNECT = 0x10"

abbreviation (input) UMQTT_OK :: int where "UMQTT_OK \<equiv> 0"
abbreviation (input) UMQTT_FAILED :: int where "UMQTT_FAILED \<equiv> - 1"
abbreviation (input) UMQTT_MEM_FULL :: int where "UMQTT_MEM_FULL \<equiv> - 2"
abbreviation (input) UMQTT_TIMEOUT :: int where "UMQTT_TIMEOUT \<equiv> - 3"
abbreviation (input) UMQTT_ENCODE_ERROR :: int where "UMQTT_ENCODE_ERROR \<equiv> - 4"
abbreviation (input) UMQTT_DECODE_ERROR :: int where "UMQTT_DECODE_ERROR \<equiv> - 5"
abbreviation (input) UMQTT_SEND_TIMEOUT :: int where "UMQTT_SEND_TIMEOUT \<equiv> - 6"
abbreviation (input) UMQTT_SEND_FAILED :: int where "UMQTT_SEND_FAILED \<equiv> - 7"
abbreviation (input) UMQTT_INPARAMS_NULL :: int where "UMQTT_INPARAMS_NULL \<equiv> - 8"
abbreviation (input) UMQTT_BUFFER_TOO_SHORT :: int where "UMQTT_BUFFER_TOO_SHORT \<equiv> - 9"
abbreviation (input) UMQTT_READ_ERROR :: int where "UMQTT_READ_ERROR \<equiv> - 10"
abbreviation (input) UMQTT_READ_FAILED :: int where "UMQTT_READ_FAILED \<equiv> - 11"
abbreviation (input) UMQTT_READ_TIMEOUT :: int where "UMQTT_READ_TIMEOUT \<equiv> - 12"
abbreviation (input) UMQTT_FIN_ACK :: int where "UMQTT_FIN_ACK \<equiv> - 13"
abbreviation (input) UMQTT_RECONNECT_FAILED :: int where "UMQTT_RECONNECT_FAILED \<equiv> - 14"
abbreviation (input) UMQTT_SOCK_CONNECT_FAILED :: int where "UMQTT_SOCK_CONNECT_FAILED \<equiv> - 15"
abbreviation (input) UMQTT_DISCONNECTED :: int where "UMQTT_DISCONNECTED \<equiv> - 16"

datatype umqtt_evt = UMQTT_EVT_LINK | UMQTT_EVT_ONLINE | UMQTT_EVT_OFFLINE | UMQTT_EVT_HEARTBEAT

abbreviation (input) UMQTT_QOS0 :: u8 where "UMQTT_QOS0 \<equiv> 0"
abbreviation (input) UMQTT_QOS1 :: u8 where "UMQTT_QOS1 \<equiv> 1"
abbreviation (input) UMQTT_QOS2 :: u8 where "UMQTT_QOS2 \<equiv> 2"
abbreviation (input) UMQTT_SUBFAIL :: u8 where "UMQTT_SUBFAIL \<equiv> 0x80"

text \<open>\<open>enum umqtt_type\<close>. Value 15 fits the header's four bits and names no packet.\<close>

datatype umqtt_type =
    UMQTT_TYPE_RESERVED | UMQTT_TYPE_CONNECT | UMQTT_TYPE_CONNACK | UMQTT_TYPE_PUBLISH
  | UMQTT_TYPE_PUBACK | UMQTT_TYPE_PUBREC | UMQTT_TYPE_PUBREL | UMQTT_TYPE_PUBCOMP
  | UMQTT_TYPE_SUBSCRIBE | UMQTT_TYPE_SUBACK | UMQTT_TYPE_UNSUBSCRIBE | UMQTT_TYPE_UNSUBACK
  | UMQTT_TYPE_PINGREQ | UMQTT_TYPE_PINGRESP | UMQTT_TYPE_DISCONNECT

primrec type_code :: "umqtt_type \<Rightarrow> u8" where
  "type_code UMQTT_TYPE_RESERVED = 0"
| "type_code UMQTT_TYPE_CONNECT = 1"
| "type_code UMQTT_TYPE_CONNACK = 2"
| "type_code UMQTT_TYPE_PUBLISH = 3"
| "type_code UMQTT_TYPE_PUBACK = 4"
| "type_code UMQTT_TYPE_PUBREC = 5"
| "type_code UMQTT_TYPE_PUBREL = 6"
| "type_code UMQTT_TYPE_PUBCOMP = 7"
| "type_code UMQTT_TYPE_SUBSCRIBE = 8"
| "type_code UMQTT_TYPE_SUBACK = 9"
| "type_code UMQTT_TYPE_UNSUBSCRIBE = 10"
| "type_code UMQTT_TYPE_UNSUBACK = 11"
| "type_code UMQTT_TYPE_PINGREQ = 12"
| "type_code UMQTT_TYPE_PINGRESP = 13"
| "type_code UMQTT_TYPE_DISCONNECT = 14"

definition all_types :: "umqtt_type list" where
  "all_types =
    [UMQTT_TYPE_RESERVED, UMQTT_TYPE_CONNECT, UMQTT_TYPE_CONNACK, UMQTT_TYPE_PUBLISH,
     UMQTT_TYPE_PUBACK, UMQTT_TYPE_PUBREC, UMQTT_TYPE_PUBREL, UMQTT_TYPE_PUBCOMP,
     UMQTT_TYPE_SUBSCRIBE, UMQTT_TYPE_SUBACK, UMQTT_TYPE_UNSUBSCRIBE, UMQTT_TYPE_UNSUBACK,
     UMQTT_TYPE_PINGREQ, UMQTT_TYPE_PINGRESP, UMQTT_TYPE_DISCONNECT]"

text \<open>The case distinction \<open>switch (type)\<close> makes on the header's four bits.\<close>

definition type_of_code :: "u8 \<Rightarrow> umqtt_type option" where
  "type_of_code c = find (\<lambda>t. type_code t = c) all_types"

lemma type_of_code_code [simp]: "type_of_code (type_code t) = Some t"
  by (cases t) (simp_all add: type_of_code_def all_types_def)

lemma type_code_inject [simp]: "type_code s = type_code t \<longleftrightarrow> s = t"
  by (metis type_of_code_code option.inject)

text \<open>The packet types are finite: statements over all of them are decided by evaluation.\<close>

instantiation umqtt_type :: enum
begin

definition enum_umqtt_type :: "umqtt_type list" where
  "enum_umqtt_type = all_types"

definition enum_all_umqtt_type :: "(umqtt_type \<Rightarrow> bool) \<Rightarrow> bool" where
  "enum_all_umqtt_type P = list_all P all_types"

definition enum_ex_umqtt_type :: "(umqtt_type \<Rightarrow> bool) \<Rightarrow> bool" where
  "enum_ex_umqtt_type P = list_ex P all_types"

instance
proof
  have all: "t \<in> set all_types" for t
    by (cases t) (simp_all add: all_types_def)
  show "(UNIV :: umqtt_type set) = set enum_class.enum"
    using all by (auto simp: enum_umqtt_type_def)
  show "distinct (enum_class.enum :: umqtt_type list)"
    by (simp add: enum_umqtt_type_def all_types_def)
  show "enum_class.enum_all P \<longleftrightarrow> Ball UNIV P" for P :: "umqtt_type \<Rightarrow> bool"
    using all by (auto simp: enum_all_umqtt_type_def list_all_iff)
  show "enum_class.enum_ex P \<longleftrightarrow> Bex UNIV P" for P :: "umqtt_type \<Rightarrow> bool"
    using all by (auto simp: enum_ex_umqtt_type_def list_ex_iff)
qed

end

text \<open>Settings of umqtt_cfg.h and rtconfig.h.\<close>

abbreviation (input) UMQTT_MAX_PACKET_ID :: u16 where "UMQTT_MAX_PACKET_ID \<equiv> 65535"
abbreviation (input) PKG_UMQTT_PROTOCOL_LEVEL :: u8 where "PKG_UMQTT_PROTOCOL_LEVEL \<equiv> 4"
abbreviation (input) PKG_UMQTT_PUBLISH_RECON_MAX :: int where "PKG_UMQTT_PUBLISH_RECON_MAX \<equiv> 3"
abbreviation (input) PKG_UMQTT_QOS2_QUE_MAX :: nat where "PKG_UMQTT_QOS2_QUE_MAX \<equiv> 1"
abbreviation (input) PKG_UMQTT_RECPUBREC_INTERVAL_TIME :: u32
  where "PKG_UMQTT_RECPUBREC_INTERVAL_TIME \<equiv> 2000"
abbreviation (input) PKG_UMQTT_SUBRECV_DEF_LENGTH :: nat where "PKG_UMQTT_SUBRECV_DEF_LENGTH \<equiv> 4"
abbreviation (input) PKG_UMQTT_INFO_DEF_SENDSIZE :: nat where "PKG_UMQTT_INFO_DEF_SENDSIZE \<equiv> 1024"
abbreviation (input) PKG_UMQTT_INFO_DEF_RECVSIZE :: nat where "PKG_UMQTT_INFO_DEF_RECVSIZE \<equiv> 1024"
abbreviation (input) PKG_UMQTT_INFO_DEF_RECONNECT_MAX_NUM :: u8
  where "PKG_UMQTT_INFO_DEF_RECONNECT_MAX_NUM \<equiv> 5"
abbreviation (input) PKG_UMQTT_INFO_DEF_RECONNECT_INTERVAL :: u32
  where "PKG_UMQTT_INFO_DEF_RECONNECT_INTERVAL \<equiv> 60"
abbreviation (input) PKG_UMQTT_INFO_DEF_KEEPALIVE_MAX_NUM :: u8
  where "PKG_UMQTT_INFO_DEF_KEEPALIVE_MAX_NUM \<equiv> 5"
abbreviation (input) PKG_UMQTT_INFO_DEF_HEARTBEAT_INTERVAL :: u32
  where "PKG_UMQTT_INFO_DEF_HEARTBEAT_INTERVAL \<equiv> 30"
abbreviation (input) PKG_UMQTT_INFO_DEF_CONNECT_TIMEOUT :: u32
  where "PKG_UMQTT_INFO_DEF_CONNECT_TIMEOUT \<equiv> 30"
abbreviation (input) PKG_UMQTT_INFO_DEF_RECV_TIMEOUT_MS :: u32
  where "PKG_UMQTT_INFO_DEF_RECV_TIMEOUT_MS \<equiv> 100"
abbreviation (input) PKG_UMQTT_INFO_DEF_SEND_TIMEOUT :: u32
  where "PKG_UMQTT_INFO_DEF_SEND_TIMEOUT \<equiv> 4"
abbreviation (input) PKG_UMQTT_INFO_DEF_THREAD_STACK_SIZE :: u32
  where "PKG_UMQTT_INFO_DEF_THREAD_STACK_SIZE \<equiv> 8192"
abbreviation (input) PKG_UMQTT_INFO_DEF_THREAD_PRIORITY :: u8
  where "PKG_UMQTT_INFO_DEF_THREAD_PRIORITY \<equiv> 8"
abbreviation (input) PKG_UMQTT_MSG_QUEUE_ACK_DEF_SIZE :: nat where "PKG_UMQTT_MSG_QUEUE_ACK_DEF_SIZE \<equiv> 4"
abbreviation (input) PKG_UMQTT_CONNECT_KEEPALIVE_DEF_TIME :: u32
  where "PKG_UMQTT_CONNECT_KEEPALIVE_DEF_TIME \<equiv> 0xffff"

section \<open>The fixed header byte\<close>

definition hdr_type :: "u8 \<Rightarrow> u8" where "hdr_type b = drop_bit 4 b"
definition hdr_dup :: "u8 \<Rightarrow> u8" where "hdr_dup b = drop_bit 3 b AND 1"
definition hdr_qos :: "u8 \<Rightarrow> u8" where "hdr_qos b = drop_bit 1 b AND 3"
definition hdr_retain :: "u8 \<Rightarrow> u8" where "hdr_retain b = b AND 1"

definition set_hdr_type :: "u8 \<Rightarrow> u8 \<Rightarrow> u8" where
  "set_hdr_type t b = (b AND 0x0F) OR push_bit 4 t"

definition set_hdr_dup :: "u8 \<Rightarrow> u8 \<Rightarrow> u8" where
  "set_hdr_dup d b = (b AND 0xF7) OR push_bit 3 (d AND 1)"

definition set_hdr_qos :: "u8 \<Rightarrow> u8 \<Rightarrow> u8" where
  "set_hdr_qos q b = (b AND 0xF9) OR push_bit 1 (q AND 3)"

section \<open>Structures\<close>

text \<open>
  \<open>cptr\<close> is the \<open>const char *\<close> of a publish: null, a string or block of the caller, or an
  offset into the client's receive buffer (what the decoder stores).
\<close>

datatype cptr = PNull | PObj bytes | PRecv nat

record umqtt_pkgs_connect =
  protocol_name :: bytes
  protocol_level :: u8
  connect_flags :: u8
  keepalive_interval_sec :: u16
  cn_client_id :: "bytes option"
  cn_will_topic :: "bytes option"
  cn_will_message :: "bytes option"
  cn_user_name :: "bytes option"
  cn_password_len :: u16
  cn_password :: "bytes option"

text \<open>The bits of \<open>union umqtt_pkgs_connect_sign\<close> the encoder looks at.\<close>

definition clean_session_bit :: "u8 \<Rightarrow> bool" where "clean_session_bit f = bit f 1"
definition will_flag_bit :: "u8 \<Rightarrow> bool" where "will_flag_bit f = bit f 2"
definition password_flag_bit :: "u8 \<Rightarrow> bool" where "password_flag_bit f = bit f 6"
definition username_flag_bit :: "u8 \<Rightarrow> bool" where "username_flag_bit f = bit f 7"

record umqtt_pkgs_connack =
  connack_sign :: u8
  connack_ret_code :: u8

record umqtt_pkgs_publish =
  pb_topic_name :: cptr
  pb_packet_id :: u16
  pb_payload :: cptr
  pb_payload_len :: u32

record sub_topic_filter =
  filter_len :: u16
  topic_filter :: "bytes option"
  request_qos :: u8

record umqtt_pkgs_subscribe =
  sb_topic_filter :: "sub_topic_filter list"
  sb_topic_count :: u8

record umqtt_pkgs_suback =
  sa_ret_qos :: bytes
  sa_topic_count :: u8

record unsub_topic_filter =
  un_filter_len :: u16
  un_topic_filter :: "bytes option"

record umqtt_pkgs_unsubscribe =
  us_topic_filter :: "unsub_topic_filter list"
  us_topic_count :: u8

record umqtt_msg =
  m_header :: u8
  u_head :: u16
  u_connect :: umqtt_pkgs_connect
  u_connack :: umqtt_pkgs_connack
  u_publish :: umqtt_pkgs_publish
  u_subscribe :: umqtt_pkgs_subscribe
  u_suback :: umqtt_pkgs_suback
  u_unsubscribe :: umqtt_pkgs_unsubscribe

text \<open>\<open>struct umqtt_msg m = { 0 }\<close>, and what \<open>rt_memset(&m, 0, sizeof m)\<close> leaves.\<close>

definition zero_msg :: umqtt_msg where
  "zero_msg =
    \<lparr> m_header = 0, u_head = 0,
      u_connect = \<lparr> protocol_name = [], protocol_level = 0, connect_flags = 0,
        keepalive_interval_sec = 0, cn_client_id = None, cn_will_topic = None,
        cn_will_message = None, cn_user_name = None, cn_password_len = 0, cn_password = None \<rparr>,
      u_connack = \<lparr> connack_sign = 0, connack_ret_code = 0 \<rparr>,
      u_publish = \<lparr> pb_topic_name = PNull, pb_packet_id = 0, pb_payload = PNull,
        pb_payload_len = 0 \<rparr>,
      u_subscribe = \<lparr> sb_topic_filter = replicate 4
          \<lparr> filter_len = 0, topic_filter = None, request_qos = 0 \<rparr>, sb_topic_count = 0 \<rparr>,
      u_suback = \<lparr> sa_ret_qos = replicate 4 0, sa_topic_count = 0 \<rparr>,
      u_unsubscribe = \<lparr> us_topic_filter = replicate 4
          \<lparr> un_filter_len = 0, un_topic_filter = None \<rparr>, us_topic_count = 0 \<rparr> \<rparr>"

record umqtt_info =
  send_size :: nat
  recv_size :: nat
  info_uri :: bytes
  info_client_id :: "bytes option"
  lwt_topic :: "bytes option"
  lwt_message :: "bytes option"
  info_user_name :: "bytes option"
  info_password :: "bytes option"
  lwt_qos :: u8
  lwt_cb :: "nat option"
  reconnect_max_num :: u8
  reconnect_interval :: u32
  keepalive_max_num :: u8
  keepalive_interval :: u32
  recv_time_ms :: u32
  connect_time :: u32
  send_timeout :: u32
  thread_stack_size :: u32
  thread_priority :: u8

text \<open>A function pointer (a subscription's callback) is a number the dispatcher knows.\<close>

record subtop_recv_handler =
  st_topicfilter :: "bytes option"
  st_callback :: "nat option"
  st_qos :: u8

section \<open>Header lemmas\<close>

lemmas hdr_defs = hdr_type_def hdr_dup_def hdr_qos_def hdr_retain_def
  set_hdr_type_def set_hdr_dup_def set_hdr_qos_def

lemma bit_u8_F9: "bit (0xF9 :: u8) n \<longleftrightarrow> n < 8 \<and> n \<noteq> 1 \<and> n \<noteq> 2"
  by (cases "n < 8") (auto simp: less_Suc_eq numeral_eq_Suc dest: bit_imp_le_length)

lemma bit_u8_F7: "bit (0xF7 :: u8) n \<longleftrightarrow> n < 8 \<and> n \<noteq> 3"
  by (cases "n < 8") (auto simp: less_Suc_eq numeral_eq_Suc dest: bit_imp_le_length)

lemma bit_u8_0F: "bit (0x0F :: u8) n \<longleftrightarrow> n < 4"
  by (cases "n < 8") (auto simp: less_Suc_eq numeral_eq_Suc dest: bit_imp_le_length)

lemma bit_u8_3: "bit (3 :: u8) n \<longleftrightarrow> n < 2"
  by (cases "n < 8") (auto simp: less_Suc_eq numeral_eq_Suc dest: bit_imp_le_length)

lemmas hdr_bits = bit_simps o_def bit_u8_F9 bit_u8_F7 bit_u8_0F bit_u8_3

lemma hdr_get_set [simp]:
  "hdr_type (set_hdr_type t b) = t AND 0x0F"
  "hdr_dup (set_hdr_dup d b) = d AND 1"
  "hdr_qos (set_hdr_qos q b) = q AND 3"
  unfolding hdr_defs
  by (rule bit_word_eqI, simp only: hdr_bits, (auto dest: bit_imp_le_length)[1])+

lemma hdr_frame [simp]:
  "hdr_type (set_hdr_dup d b) = hdr_type b"
  "hdr_type (set_hdr_qos q b) = hdr_type b"
  "hdr_dup (set_hdr_qos q b) = hdr_dup b"
  "hdr_dup (set_hdr_type t b) = hdr_dup b"
  "hdr_qos (set_hdr_dup d b) = hdr_qos b"
  "hdr_qos (set_hdr_type t b) = hdr_qos b"
  unfolding hdr_defs
  by (rule bit_word_eqI, simp only: hdr_bits, (auto dest: bit_imp_le_length)[1])+

lemma type_code_and_0F [simp]: "type_code t AND 0x0F = type_code t"
  by (cases t) simp_all

lemma hdr_qos_cases: "hdr_qos b = 0 \<or> hdr_qos b = 1 \<or> hdr_qos b = 2 \<or> hdr_qos b = 3"
proof -
  have "hdr_qos b = (if bit b 1 then 1 else 0) + (if bit b 2 then 2 else 0)"
    unfolding hdr_qos_def
    by (auto intro!: bit_word_eqI simp: bit_simps o_def less_Suc_eq numeral_eq_Suc)
  then show ?thesis by auto
qed

end
