(* ===== verification/Mqtt_Wire.thy ===== *)
theory Mqtt_Wire
  imports Mqtt_Types
begin

text \<open>
  The byte-level routines of \<open>umqtt_internal.c\<close>: the writers and readers that move a pointer
  through a buffer, the remaining-length codec and the packet-length estimate.

  A write pointer is a pair \<open>(buf, p)\<close> of the buffer and the offset, a read pointer an offset
  into a buffer. Each store of the code is one \<open>wr\<close> (or one \<open>blit\<close> for \<open>memcpy\<close>), so a write
  past the end of the buffer is \<open>None\<close>. The interface locale \<open>byte_sink\<close> states what the
  serialisers rely on (consecutive writes join); it is interpreted on \<open>emit\<close>, to which every
  writer reduces.
\<close>

type_synonym wptr = "bytes \<times> nat"

section \<open>Writers and readers\<close>

fun umqtt_writeChar :: "u8 \<Rightarrow> wptr \<Rightarrow> wptr option" where
  "umqtt_writeChar c (buf, p) = do { buf \<leftarrow> wr buf p c; Some (buf, p + 1) }"

fun umqtt_readChar :: "bytes \<Rightarrow> nat \<Rightarrow> (u8 \<times> nat) option" where
  "umqtt_readChar buf p = do { c \<leftarrow> rd buf p; Some (c, p + 1) }"

fun umqtt_writeInt :: "int \<Rightarrow> wptr \<Rightarrow> wptr option" where
  "umqtt_writeInt anInt (buf, p) = do {
     buf \<leftarrow> wr buf p (word_of_int (anInt sdiv 256));
     buf \<leftarrow> wr buf (p + 1) (word_of_int (anInt smod 256));
     Some (buf, p + 2) }"

fun umqtt_readInt :: "bytes \<Rightarrow> nat \<Rightarrow> (int \<times> nat) option" where
  "umqtt_readInt buf p = do {
     hi \<leftarrow> rd buf p;
     lo \<leftarrow> rd buf (p + 1);
     Some (256 * uint hi + uint lo, p + 2) }"

declare umqtt_readChar.simps [simp del] umqtt_readInt.simps [simp del]

text \<open>\<open>memcpy(*pptr, s, n); *pptr += n;\<close>\<close>

definition write_block :: "bytes \<Rightarrow> wptr \<Rightarrow> wptr option" where
  "write_block s w = (case w of (buf, p) \<Rightarrow>
     map_option (\<lambda>buf. (buf, p + length s)) (blit buf p s))"

definition umqtt_writeCString :: "bytes option \<Rightarrow> wptr \<Rightarrow> wptr option" where
  "umqtt_writeCString string w = (case string of
     None \<Rightarrow> Some w
   | Some s \<Rightarrow> do { w \<leftarrow> umqtt_writeInt (int (c_strlen s)) w; write_block (cstr s) w })"

definition umqtt_writeMQTTString :: "bytes option \<Rightarrow> wptr \<Rightarrow> wptr option" where
  "umqtt_writeMQTTString string w = (case string of
     Some s \<Rightarrow> do { w \<leftarrow> umqtt_writeInt (int (c_strlen s)) w; write_block (cstr s) w }
   | None \<Rightarrow> umqtt_writeInt 0 w)"

text \<open>
  \<open>umqtt_readlenstring\<close> returns \<open>(rc, str_len, p_string, *pptr)\<close>; \<open>str_len\<close> and \<open>p_string\<close>
  are \<open>None\<close> where the code leaves the caller's variable as it was.
\<close>

definition umqtt_readlenstring ::
    "bytes \<Rightarrow> nat \<Rightarrow> nat \<Rightarrow> (int \<times> int option \<times> nat option \<times> nat) option" where
  "umqtt_readlenstring buf p enddata =
     (if int enddata - int p > 1 then do {
        (str_len, p) \<leftarrow> umqtt_readInt buf p;
        if p + nat str_len \<le> enddata
        then Some (1, Some str_len, Some p, p + nat str_len)
        else Some (0, Some str_len, None, p) }
      else Some (0, None, None, p))"

section \<open>The remaining-length field\<close>

function umqtt_pkgs_encode_loop :: "bytes \<Rightarrow> nat \<Rightarrow> nat \<Rightarrow> int \<Rightarrow> (nat \<times> bytes) option" where
  "umqtt_pkgs_encode_loop buf p rc len =
     (let d = word_of_int (len smod 128) :: u8;
          len' = len sdiv 128;
          d = (if 0 < len' then d OR 0x80 else d)
      in case wr buf (p + rc) d of
           None \<Rightarrow> None
         | Some buf' \<Rightarrow>
             if 0 < len' then umqtt_pkgs_encode_loop buf' p (rc + 1) len'
             else Some (rc + 1, buf'))"
  by pat_completeness auto
termination
proof (relation "measure (\<lambda>(buf, p, rc, len). nat len)", goal_cases)
  case (2 buf p rc len d len' d' buf')
  then have "0 < len" by (auto dest: sdiv_pos_imp_pos)
  with 2 show ?case by (simp add: sdiv_nonneg)
qed auto

declare umqtt_pkgs_encode_loop.simps [simp del]

text \<open>Called as \<open>umqtt_pkgs_encode(ptr, length)\<close>; returns the byte count and the buffer.\<close>

definition umqtt_pkgs_encode :: "bytes \<Rightarrow> nat \<Rightarrow> int \<Rightarrow> (nat \<times> bytes) option" where
  "umqtt_pkgs_encode buf p len = umqtt_pkgs_encode_loop buf p 0 len"

text \<open>\<open>ptr += umqtt_pkgs_encode(ptr, len);\<close> as the serialisers use it.\<close>

fun write_remaining_length :: "int \<Rightarrow> wptr \<Rightarrow> wptr option" where
  "write_remaining_length len (buf, p) = do {
     (rc, buf) \<leftarrow> umqtt_pkgs_encode buf p len;
     Some (buf, p + rc) }"

text \<open>
  \<open>umqtt_pkgs_decode(getcharfn, &value)\<close>: \<open>getcharfn\<close> is any stateful byte source that
  returns its count, the byte and the new state. Result: \<open>(len, value, state)\<close>.
\<close>

function umqtt_pkgs_decode_loop ::
    "('s \<Rightarrow> (int \<times> u8 \<times> 's) option) \<Rightarrow> 's \<Rightarrow> int \<Rightarrow> int \<Rightarrow> int \<Rightarrow> (int \<times> int \<times> 's) option" where
  "umqtt_pkgs_decode_loop getcharfn s len multiplier val =
     (let len = len + 1 in
      if len > 4 then Some (len, val, s)
      else (case getcharfn s of
        None \<Rightarrow> None
      | Some (rc, c, s') \<Rightarrow>
          if rc \<noteq> 1 then Some (len, val, s')
          else (let val = val + uint (c AND 127) * multiplier in
            if c AND 128 \<noteq> 0
            then umqtt_pkgs_decode_loop getcharfn s' len (multiplier * 128) val
            else Some (len, val, s'))))"
  by pat_completeness auto
termination
  by (relation "measure (\<lambda>(g, s, len, m, v). nat (5 - len))") auto

declare umqtt_pkgs_decode_loop.simps [simp del]

definition umqtt_pkgs_decode ::
    "('s \<Rightarrow> (int \<times> u8 \<times> 's) option) \<Rightarrow> 's \<Rightarrow> (int \<times> int \<times> 's) option" where
  "umqtt_pkgs_decode getcharfn s = umqtt_pkgs_decode_loop getcharfn s 0 1 0"

definition umqtt_pkgs_len :: "int \<Rightarrow> int" where
  "umqtt_pkgs_len rem_len =
     (let rem_len = rem_len + 1 in
      if rem_len < 128 then rem_len + 1
      else if rem_len < 16384 then rem_len + 2
      else if rem_len < 2097151 then rem_len + 3
      else rem_len + 4)"

section \<open>Writers are appends\<close>

text \<open>
  What a serialiser needs of its output: two consecutive writes are one write of the joined
  bytes, and both fail together.
\<close>

locale byte_sink =
  fixes put :: "bytes \<Rightarrow> 's \<Rightarrow> 's option"
  assumes put_put: "Option.bind (put xs s) (put ys) = put (xs @ ys) s"
begin

lemma put_put_bind: "Option.bind (put xs s) (\<lambda>t. Option.bind (put ys t) k) = Option.bind (put (xs @ ys) s) k"
proof -
  have "Option.bind (put xs s) (\<lambda>t. Option.bind (put ys t) k)
      = Option.bind (Option.bind (put xs s) (put ys)) k"
    by (cases "put xs s") simp_all
  then show ?thesis by (simp only: put_put)
qed

lemma put_if_bind:
  "Option.bind (put xs s) (\<lambda>t. Option.bind (if c then put ys t else Some t) k)
   = Option.bind (put (xs @ (if c then ys else [])) s) k"
  by (cases c) (simp_all add: put_put_bind)

lemma put_prefix_ok: "put (xs @ ys) s \<noteq> None \<Longrightarrow> put xs s \<noteq> None"
  by (metis bind.bind_lunit put_put bind_eq_None_conv option.distinct(1) option.exhaust)

end

abbreviation emit :: "bytes \<Rightarrow> wptr \<Rightarrow> wptr option" where
  "emit \<equiv> write_block"

lemma emit_emit: "Option.bind (emit xs w) (emit ys) = emit (xs @ ys) w"
proof (cases w)
  case (Pair buf p)
  show ?thesis
  proof (cases "blit buf p xs")
    case None
    then have "blit buf p (xs @ ys) = None" by (auto simp: blit_None_iff)
    with None Pair show ?thesis by (simp add: write_block_def)
  next
    case (Some b)
    then have "blit b (p + length xs) ys = blit buf p (xs @ ys)" by (rule blit_blit)
    with Some Pair show ?thesis
      by (cases "blit buf p (xs @ ys)") (simp_all add: write_block_def add.assoc)
  qed
qed

interpretation sink: byte_sink emit
  by unfold_locales (rule emit_emit)

lemma emit_Some_iff:
  "emit xs (buf, p) = Some (b, q) \<longleftrightarrow> q = p + length xs \<and> blit buf p xs = Some b"
  by (auto simp: write_block_def)

lemma emit_fits: "p + length xs \<le> length buf \<Longrightarrow>
    emit xs (buf, p) = Some (take p buf @ xs @ drop (p + length xs) buf, p + length xs)"
  by (simp add: write_block_def blit_def)

lemma emit_None_iff: "emit xs (buf, p) = None \<longleftrightarrow> length buf < p + length xs"
  by (auto simp: write_block_def blit_def)

definition be16 :: "nat \<Rightarrow> bytes" where
  "be16 n = [word_of_nat (n div 256), word_of_nat (n mod 256)]"

lemma length_be16 [simp]: "length (be16 n) = 2"
  by (simp add: be16_def)

lemma writeChar_emit: "umqtt_writeChar c w = emit [c] w"
  by (cases w) (simp add: write_block_def wr_blit map_option_case split: option.split)

lemma writeInt_emit:
  assumes "0 \<le> n"
  shows "umqtt_writeInt n w = emit (be16 (nat n)) w"
proof (cases w)
  case (Pair buf p)
  from assms obtain m where n: "n = int m" by (rule nonneg_int_cases)
  have "n sdiv 256 = int (m div 256)" and "n smod 256 = int (m mod 256)"
    by (simp_all add: n sdiv_nonneg smod_nonneg zdiv_int zmod_int)
  then have hi: "word_of_int (n sdiv 256) = (word_of_nat (nat n div 256) :: u8)"
    and lo: "word_of_int (n smod 256) = (word_of_nat (nat n mod 256) :: u8)"
    by (simp_all only: of_int_of_nat_eq n nat_int)
  show ?thesis
    using Pair sink.put_put [of "[word_of_nat (nat n div 256)]" w "[word_of_nat (nat n mod 256)]"]
    by (simp add: write_block_def wr_blit be16_def hi lo map_option_case split: option.splits)
qed

text \<open>The body of a length-prefixed MQTT string.\<close>

definition mqtt_string :: "bytes \<Rightarrow> bytes" where
  "mqtt_string s = be16 (c_strlen s) @ cstr s"

lemma length_mqtt_string [simp]: "length (mqtt_string s) = 2 + c_strlen s"
  by (simp add: mqtt_string_def)

lemma writeCString_emit:
  "umqtt_writeCString (Some s) w = emit (mqtt_string s) w"
  by (simp add: umqtt_writeCString_def writeInt_emit mqtt_string_def sink.put_put)

lemma writeMQTTString_emit:
  "umqtt_writeMQTTString string w =
     emit (case string of Some s \<Rightarrow> mqtt_string s | None \<Rightarrow> be16 0) w"
  by (cases string)
     (simp_all add: umqtt_writeMQTTString_def writeInt_emit mqtt_string_def sink.put_put)

section \<open>The remaining-length codec\<close>

text \<open>Reference encoding: little-endian base 128, top bit set on every byte but the last.\<close>

fun rl_bytes :: "nat \<Rightarrow> bytes" where
  "rl_bytes n = (if n < 128 then [word_of_nat n]
                 else (word_of_nat (n mod 128) OR 128) # rl_bytes (n div 128))"

declare rl_bytes.simps [simp del]

lemma rl_bytes_neq_Nil [simp]: "rl_bytes n \<noteq> []"
  by (subst rl_bytes.simps) simp

lemma bit_u8_127: "bit (127 :: u8) n \<longleftrightarrow> n < 7"
  by (cases "n < 8") (auto simp: less_Suc_eq numeral_eq_Suc dest: bit_imp_le_length)

lemma bit_u8_128: "bit (128 :: u8) n \<longleftrightarrow> n = 7"
  by (cases "n < 8") (auto simp: less_Suc_eq numeral_eq_Suc dest: bit_imp_le_length)

lemma low7:
  assumes "x < 128"
  shows "word_of_nat x AND 127 = (word_of_nat x :: u8)"
proof -
  have "word_of_nat x AND 127 = (take_bit 7 (word_of_nat x) :: u8)"
    by (rule bit_word_eqI, simp only: bit_simps bit_u8_127, auto)
  also have "\<dots> = word_of_nat (take_bit 7 x)"
    by (simp add: take_bit_of_nat)
  also have "\<dots> = word_of_nat x"
    using assms by (simp add: take_bit_nat_eq_self)
  finally show ?thesis .
qed

lemma digit_cont:
  assumes "x < 128"
  shows "uint ((word_of_nat x OR 128 :: u8) AND 127) = int x" and "(word_of_nat x OR 128 :: u8) AND 128 \<noteq> 0"
proof -
  have "(word_of_nat x OR 128 :: u8) AND 127 = word_of_nat x AND 127"
    by (rule bit_word_eqI, simp only: bit_simps bit_u8_127 bit_u8_128, auto)
  then show "uint ((word_of_nat x OR 128 :: u8) AND 127) = int x"
    using assms by (simp add: low7 uint_nat unat_of_nat_u8)
  have "bit ((word_of_nat x OR 128 :: u8) AND 128) 7"
    by (simp only: bit_simps bit_u8_128, simp)
  then show "(word_of_nat x OR 128 :: u8) AND 128 \<noteq> 0" by auto
qed

lemma digit_last:
  assumes "x < 128"
  shows "uint ((word_of_nat x :: u8) AND 127) = int x" and "(word_of_nat x :: u8) AND 128 = 0"
proof -
  show "uint ((word_of_nat x :: u8) AND 127) = int x"
    using assms by (simp add: low7 uint_nat unat_of_nat_u8)
  have "(word_of_nat x :: u8) AND 128 = (word_of_nat x AND 127) AND 128"
    using assms by (simp add: low7)
  also have "\<dots> = 0"
    by (rule bit_word_eqI, simp only: bit_simps bit_u8_127 bit_u8_128, auto)
  finally show "(word_of_nat x :: u8) AND 128 = 0" .
qed

lemma encode_loop_blit:
  "umqtt_pkgs_encode_loop buf p rc (int n) =
     map_option (\<lambda>b. (rc + length (rl_bytes n), b)) (blit buf (p + rc) (rl_bytes n))"
proof (induction n arbitrary: buf rc rule: rl_bytes.induct)
  case (1 n)
  have q: "int n sdiv 128 = int (n div 128)" and r: "int n smod 128 = int (n mod 128)"
    by (simp_all add: sdiv_nonneg smod_nonneg zdiv_int zmod_int)
  show ?case
  proof (cases "n < 128")
    case True
    then show ?thesis
      by (simp add: umqtt_pkgs_encode_loop.simps [of _ _ _ "int n"] rl_bytes.simps [of n] q r Let_def
          wr_blit split: option.split)
  next
    case False
    then have pos: "0 < n div 128" by (simp add: div_greater_zero_iff)
    let ?d = "word_of_nat (n mod 128) OR 128 :: u8"
    have rl: "rl_bytes n = ?d # rl_bytes (n div 128)"
      using False by (simp add: rl_bytes.simps [of n])
    show ?thesis
    proof (cases "wr buf (p + rc) ?d")
      case None
      then have "blit buf (p + rc) (rl_bytes n) = None"
        by (auto simp: wr_blit blit_None_iff rl)
      with None pos show ?thesis
        by (simp add: umqtt_pkgs_encode_loop.simps [of _ _ _ "int n"] q r Let_def)
    next
      case (Some b)
      then have j: "blit b (Suc (p + rc)) ys = blit buf (p + rc) (?d # ys)" for ys
        using blit_blit [of buf "p + rc" "[?d]" b ys] by (simp add: wr_blit)
      have "umqtt_pkgs_encode_loop buf p rc (int n)
          = umqtt_pkgs_encode_loop b p (rc + 1) (int (n div 128))"
        using Some pos
        by (subst umqtt_pkgs_encode_loop.simps) (simp add: q r Let_def)
      also have "\<dots> = map_option (\<lambda>b. (rc + 1 + length (rl_bytes (n div 128)), b))
          (blit b (p + rc + 1) (rl_bytes (n div 128)))"
        using "1.IH" False by (simp add: add.assoc)
      finally show ?thesis by (simp add: j rl add.assoc)
    qed
  qed
qed

lemma write_remaining_length_emit:
  assumes "0 \<le> n"
  shows "write_remaining_length n w = emit (rl_bytes (nat n)) w"
proof (cases w)
  case (Pair buf p)
  from assms obtain m where "n = int m" by (rule nonneg_int_cases)
  with Pair show ?thesis
    using encode_loop_blit [of buf p 0 m]
    by (cases "blit buf p (rl_bytes m)")
       (simp_all add: umqtt_pkgs_encode_def write_block_def)
qed

text \<open>\<open>supplies g s xs s'\<close>: the byte source \<open>g\<close> in state \<open>s\<close> yields \<open>xs\<close>, one byte a call.\<close>

primrec supplies :: "('s \<Rightarrow> (int \<times> u8 \<times> 's) option) \<Rightarrow> 's \<Rightarrow> bytes \<Rightarrow> 's \<Rightarrow> bool" where
  "supplies g s [] s' \<longleftrightarrow> s' = s"
| "supplies g s (x # xs) s' \<longleftrightarrow> (\<exists>t. g s = Some (1, x, t) \<and> supplies g t xs s')"

lemma decode_loop_rl_bytes:
  assumes "supplies g s (rl_bytes n) s'" and "len + int (length (rl_bytes n)) \<le> 4"
  shows "umqtt_pkgs_decode_loop g s len m v
    = Some (len + int (length (rl_bytes n)), v + int n * m, s')"
  using assms
proof (induction n arbitrary: s len m v rule: rl_bytes.induct)
  case (1 n)
  show ?case
  proof (cases "n < 128")
    case True
    with 1 show ?thesis
      by (simp add: umqtt_pkgs_decode_loop.simps [of g s] rl_bytes.simps [of n] Let_def
          digit_last)
  next
    case False
    let ?d = "word_of_nat (n mod 128) OR 128 :: u8"
    have rl: "rl_bytes n = ?d # rl_bytes (n div 128)"
      using False by (simp add: rl_bytes.simps [of n])
    with "1.prems" obtain t where g: "g s = Some (1, ?d, t)" and t: "supplies g t (rl_bytes (n div 128)) s'"
      by auto
    have "umqtt_pkgs_decode_loop g t (len + 1) (m * 128) (v + int (n mod 128) * m)
       = Some (len + 1 + int (length (rl_bytes (n div 128))),
           v + int (n mod 128) * m + int (n div 128) * (m * 128), s')"
      using "1.IH" [OF False t, of "len + 1"] "1.prems"(2) by (simp add: rl)
    moreover have "int (n mod 128) * m + int (n div 128) * (m * 128) = int n * m"
    proof -
      have "int n = int (n mod 128) + int (n div 128) * 128"
        by (simp add: zdiv_int zmod_int)
      then show ?thesis by (metis mult.assoc mult.commute distrib_right)
    qed
    moreover have "len + 1 \<le> 4"
      using "1.prems"(2) by (simp add: rl)
    ultimately show ?thesis
      by (subst umqtt_pkgs_decode_loop.simps) (simp add: g Let_def digit_cont rl add.assoc)
  qed
qed

lemma length_rl_bytes_le: "n < 128 ^ k \<Longrightarrow> 0 < k \<Longrightarrow> length (rl_bytes n) \<le> k"
proof (induction n arbitrary: k rule: rl_bytes.induct)
  case (1 n)
  show ?case
  proof (cases "n < 128")
    case True
    with 1 show ?thesis by (simp add: rl_bytes.simps [of n])
  next
    case False
    with "1.prems" obtain j where k: "k = Suc j" "0 < j"
      by (cases k; cases "k - 1") auto
    with "1.prems" have "n div 128 < 128 ^ j"
      by (simp add: less_mult_imp_div_less mult.commute)
    with "1.IH" [OF False] k False show ?thesis
      by (simp add: rl_bytes.simps [of n])
  qed
qed

lemma length_rl_bytes_rec:
  "length (rl_bytes n) = (if n < 128 then 1 else Suc (length (rl_bytes (n div 128))))"
  by (subst rl_bytes.simps) simp

lemma length_rl_bytes:
  assumes "n < 268435456"
  shows "length (rl_bytes n)
    = (if n < 128 then 1 else if n < 16384 then 2 else if n < 2097152 then 3 else 4)"
proof -
  have d: "n div 128 < 128 \<longleftrightarrow> n < 16384" "n div 128 div 128 < 128 \<longleftrightarrow> n < 2097152"
    "n div 128 div 128 div 128 < 128"
    using assms by (simp_all add: div_less_iff_less_mult)
  show ?thesis
    by (simp add: length_rl_bytes_rec [of n] length_rl_bytes_rec [of "n div 128"]
        length_rl_bytes_rec [of "n div 128 div 128"]
        length_rl_bytes_rec [of "n div 128 div 128 div 128"] d)
qed

text \<open>
  \<open>umqtt_pkgs_len\<close>, which decides whether a packet fits the send buffer, is the length of
  header byte, length field and body, except at the four lengths 127, 16383, 2097150 and 2097151,
  where it is one byte too many (its comparisons are made after the header byte was added). It is
  never too small, so the check it feeds is safe.
\<close>

theorem umqtt_pkgs_len_exact:
  assumes "n < 268435456"
  shows "umqtt_pkgs_len (int n) = 1 + int (length (rl_bytes n)) + int n
    + (if n \<in> {127, 16383, 2097150, 2097151} then 1 else 0)"
  using assms by (auto simp: umqtt_pkgs_len_def length_rl_bytes Let_def)

theorem umqtt_pkgs_len_exact_witness:
  "umqtt_pkgs_len (int 16383) = 1 + int (length (rl_bytes 16383)) + int 16383 + 1"
  using umqtt_pkgs_len_exact [of 16383] by simp

lemma umqtt_pkgs_len_ge:
  "n < 268435456 \<Longrightarrow> 1 + int (length (rl_bytes n)) + int n \<le> umqtt_pkgs_len (int n)"
  by (auto simp: umqtt_pkgs_len_def length_rl_bytes Let_def)

end
