(* ===== verification/Mqtt_Encode.thy ===== *)
theory Mqtt_Encode
  imports Mqtt_Wire
begin

text \<open>
  The packet serialisers of \<open>umqtt_pkgs_encode.c\<close>. Each takes the send buffer, the length the
  caller claims for it and the structure, and returns the C return value with the buffer:
  \<open>Some (rc, buf)\<close>, or \<open>None\<close> when a store leaves the buffer or a source array is read past
  its end. The first group of definitions follows the code; the second states the packets as
  byte lists and proves that the serialisers write exactly these.
\<close>

section \<open>Lengths\<close>

definition MQTTStrlen :: "bytes option \<Rightarrow> int" where
  "MQTTStrlen c = (case c of None \<Rightarrow> 0 | Some s \<Rightarrow> int (c_strlen s))"

definition MQTTSerialize_connectLength :: "umqtt_pkgs_connect \<Rightarrow> int" where
  "MQTTSerialize_connectLength options =
     (let len = (if protocol_level options = 3 then 12
                 else if protocol_level options = 4 then 10 else 0);
          len = len + (MQTTStrlen (cn_client_id options) + 2);
          len = (if will_flag_bit (connect_flags options)
                 then len + (MQTTStrlen (cn_will_topic options) + 2
                             + MQTTStrlen (cn_will_message options) + 2) else len)
      in if password_flag_bit (connect_flags options)
         then (let len = len + (MQTTStrlen (cn_password options) + 2)
               in if username_flag_bit (connect_flags options)
                  then len + (MQTTStrlen (cn_user_name options) + 2) else len)
         else len)"

text \<open>The loops over \<open>topic_filter[0 .. topic_count - 1]\<close> of a four-element array.\<close>

definition MQTTSerialize_subscribeLength :: "umqtt_pkgs_subscribe \<Rightarrow> int option" where
  "MQTTSerialize_subscribeLength params =
     (let n = unat (sb_topic_count params) in
      if 0 < n then
        (if n \<le> length (sb_topic_filter params)
         then Some (fold (\<lambda>f len. len + (2 + MQTTStrlen (topic_filter f) + 1))
                      (take n (sb_topic_filter params)) 2)
         else None)
      else Some 0)"

definition MQTTSerialize_unsubscribeLength :: "umqtt_pkgs_unsubscribe \<Rightarrow> int option" where
  "MQTTSerialize_unsubscribeLength params =
     (let n = unat (us_topic_count params) in
      if 0 < n then
        (if n \<le> length (us_topic_filter params)
         then Some (fold (\<lambda>f len. len + (2 + MQTTStrlen (un_topic_filter f)))
                      (take n (us_topic_filter params)) 2)
         else None)
      else Some 0)"

text \<open>\<open>2 + topic_name_len + payload_len\<close> is computed in 32 bit unsigned arithmetic.\<close>

definition MQTTSerialize_publishLength :: "int \<Rightarrow> u16 \<Rightarrow> umqtt_pkgs_publish \<Rightarrow> int" where
  "MQTTSerialize_publishLength qos topic_name_len params =
     (let len = sint (2 + ucast topic_name_len + pb_payload_len params :: u32)
      in if qos > 0 then len + 2 else len)"

section \<open>Serialisers\<close>

text \<open>\<open>rc = ptr - buf\<close>\<close>

fun wptr_result :: "wptr \<Rightarrow> int \<times> bytes" where
  "wptr_result (buf, p) = (int p, buf)"

definition MQTTSerialize_connect ::
    "bytes \<Rightarrow> int \<Rightarrow> umqtt_pkgs_connect \<Rightarrow> (int \<times> bytes) option" where
  "MQTTSerialize_connect buf buflen options =
     (let len = MQTTSerialize_connectLength options in
      if umqtt_pkgs_len len > buflen then Some (UMQTT_BUFFER_TOO_SHORT, buf)
      else do {
        w \<leftarrow> umqtt_writeChar (set_hdr_type (type_code UMQTT_TYPE_CONNECT) 0) (buf, 0);
        w \<leftarrow> write_remaining_length len w;
        w \<leftarrow> (if protocol_level options = 4
              then do { w \<leftarrow> umqtt_writeCString (Some (ascii ''MQTT'')) w; umqtt_writeChar 4 w }
              else do { w \<leftarrow> umqtt_writeCString (Some (ascii ''MQIsdp'')) w; umqtt_writeChar 3 w });
        w \<leftarrow> umqtt_writeChar (connect_flags options) w;
        w \<leftarrow> umqtt_writeInt (uint (keepalive_interval_sec options)) w;
        w \<leftarrow> umqtt_writeMQTTString (cn_client_id options) w;
        w \<leftarrow> (if will_flag_bit (connect_flags options)
              then do { w \<leftarrow> umqtt_writeMQTTString (cn_will_topic options) w;
                        umqtt_writeMQTTString (cn_will_message options) w }
              else Some w);
        w \<leftarrow> (if username_flag_bit (connect_flags options)
              then umqtt_writeMQTTString (cn_user_name options) w else Some w);
        w \<leftarrow> (if password_flag_bit (connect_flags options)
              then umqtt_writeMQTTString (cn_password options) w else Some w);
        Some (wptr_result w) })"

definition MQTTSerialize_zero :: "bytes \<Rightarrow> int \<Rightarrow> umqtt_type \<Rightarrow> (int \<times> bytes) option" where
  "MQTTSerialize_zero buf buflen packettype =
     (if buflen < 2 then Some (UMQTT_BUFFER_TOO_SHORT, buf)
      else do {
        w \<leftarrow> umqtt_writeChar (set_hdr_type (type_code packettype) 0) (buf, 0);
        w \<leftarrow> write_remaining_length 0 w;
        Some (wptr_result w) })"

fun write_sub_topics :: "sub_topic_filter list \<Rightarrow> wptr \<Rightarrow> wptr option" where
  "write_sub_topics [] w = Some w"
| "write_sub_topics (f # fs) w = do {
     w \<leftarrow> umqtt_writeMQTTString (topic_filter f) w;
     w \<leftarrow> umqtt_writeChar (request_qos f) w;
     write_sub_topics fs w }"

definition MQTTSerialize_subscribe ::
    "bytes \<Rightarrow> int \<Rightarrow> u16 \<Rightarrow> umqtt_pkgs_subscribe \<Rightarrow> (int \<times> bytes) option" where
  "MQTTSerialize_subscribe buf buflen packet_id params = do {
     rem_len \<leftarrow> MQTTSerialize_subscribeLength params;
     if umqtt_pkgs_len rem_len > buflen then Some (UMQTT_BUFFER_TOO_SHORT, buf)
     else do {
       w \<leftarrow> umqtt_writeChar
             (set_hdr_qos 1 (set_hdr_dup 0 (set_hdr_type (type_code UMQTT_TYPE_SUBSCRIBE) 0))) (buf, 0);
       w \<leftarrow> write_remaining_length rem_len w;
       w \<leftarrow> umqtt_writeInt (uint packet_id) w;
       w \<leftarrow> write_sub_topics (take (unat (sb_topic_count params)) (sb_topic_filter params)) w;
       Some (wptr_result w) } }"

fun write_unsub_topics :: "unsub_topic_filter list \<Rightarrow> wptr \<Rightarrow> wptr option" where
  "write_unsub_topics [] w = Some w"
| "write_unsub_topics (f # fs) w = do {
     w \<leftarrow> umqtt_writeCString (un_topic_filter f) w;
     write_unsub_topics fs w }"

definition MQTTSerialize_unsubscribe ::
    "bytes \<Rightarrow> int \<Rightarrow> u16 \<Rightarrow> umqtt_pkgs_unsubscribe \<Rightarrow> (int \<times> bytes) option" where
  "MQTTSerialize_unsubscribe buf buflen packet_id params = do {
     rem_len \<leftarrow> MQTTSerialize_unsubscribeLength params;
     if umqtt_pkgs_len rem_len > buflen then Some (UMQTT_BUFFER_TOO_SHORT, buf)
     else do {
       w \<leftarrow> umqtt_writeChar
             (set_hdr_qos 1 (set_hdr_dup 0 (set_hdr_type (type_code UMQTT_TYPE_UNSUBSCRIBE) 0))) (buf, 0);
       w \<leftarrow> write_remaining_length rem_len w;
       w \<leftarrow> umqtt_writeInt (uint packet_id) w;
       w \<leftarrow> write_unsub_topics (take (unat (us_topic_count params)) (us_topic_filter params)) w;
       Some (wptr_result w) } }"

text \<open>
  The publisher's own strings: the encoder is only given caller memory, so a pointer into the
  receive buffer has no meaning here (\<open>None\<close>).
\<close>

definition out_string :: "cptr \<Rightarrow> bytes option option" where
  "out_string p = (case p of PNull \<Rightarrow> Some None | PObj s \<Rightarrow> Some (Some s) | PRecv _ \<Rightarrow> None)"

definition out_block :: "cptr \<Rightarrow> nat \<Rightarrow> bytes option" where
  "out_block p n = (case p of PObj s \<Rightarrow> rd_block s 0 n
                    | PNull \<Rightarrow> (if n = 0 then Some [] else None) | PRecv _ \<Rightarrow> None)"

definition MQTTSerialize_publish ::
    "bytes \<Rightarrow> int \<Rightarrow> u8 \<Rightarrow> u8 \<Rightarrow> u16 \<Rightarrow> umqtt_pkgs_publish \<Rightarrow> (int \<times> bytes) option" where
  "MQTTSerialize_publish buf buflen dup qos topic_name_len message =
     (let rem_len = MQTTSerialize_publishLength (uint qos) topic_name_len message in
      if umqtt_pkgs_len rem_len > buflen then Some (UMQTT_BUFFER_TOO_SHORT, buf)
      else do {
        w \<leftarrow> umqtt_writeChar
              (set_hdr_qos qos (set_hdr_dup dup (set_hdr_type (type_code UMQTT_TYPE_PUBLISH) 0))) (buf, 0);
        w \<leftarrow> write_remaining_length rem_len w;
        topic_name \<leftarrow> out_string (pb_topic_name message);
        w \<leftarrow> umqtt_writeCString topic_name w;
        w \<leftarrow> (if qos > 0 then umqtt_writeInt (uint (pb_packet_id message)) w else Some w);
        pl \<leftarrow> out_block (pb_payload message) (unat (pb_payload_len message));
        w \<leftarrow> write_block pl w;
        Some (wptr_result w) })"

definition MQTTSerialize_ack ::
    "bytes \<Rightarrow> int \<Rightarrow> umqtt_type \<Rightarrow> u8 \<Rightarrow> u16 \<Rightarrow> (int \<times> bytes) option" where
  "MQTTSerialize_ack buf buflen packettype dup packetid =
     (if buflen < 4 then Some (UMQTT_BUFFER_TOO_SHORT, buf)
      else do {
        w \<leftarrow> umqtt_writeChar
              (set_hdr_qos (if packettype = UMQTT_TYPE_PUBREL then 1 else 0)
                 (set_hdr_dup dup (set_hdr_type (type_code packettype) 0))) (buf, 0);
        w \<leftarrow> write_remaining_length 2 w;
        w \<leftarrow> umqtt_writeInt (uint packetid) w;
        Some (wptr_result w) })"

section \<open>The dispatcher\<close>

definition umqtt_connect_encode :: "bytes \<Rightarrow> int \<Rightarrow> umqtt_pkgs_connect \<Rightarrow> (int \<times> bytes) option" where
  "umqtt_connect_encode send_buf send_len params = MQTTSerialize_connect send_buf send_len params"

definition umqtt_disconnect_encode :: "bytes \<Rightarrow> int \<Rightarrow> (int \<times> bytes) option" where
  "umqtt_disconnect_encode send_buf send_len =
     MQTTSerialize_zero send_buf send_len UMQTT_TYPE_DISCONNECT"

definition umqtt_pingreq_encode :: "bytes \<Rightarrow> int \<Rightarrow> (int \<times> bytes) option" where
  "umqtt_pingreq_encode send_buf send_len = MQTTSerialize_zero send_buf send_len UMQTT_TYPE_PINGREQ"

definition umqtt_publish_encode ::
    "bytes \<Rightarrow> int \<Rightarrow> u8 \<Rightarrow> u8 \<Rightarrow> u16 \<Rightarrow> umqtt_pkgs_publish \<Rightarrow> (int \<times> bytes) option" where
  "umqtt_publish_encode buf buflen dup qos topic_name_len message =
     MQTTSerialize_publish buf buflen dup qos topic_name_len message"

definition umqtt_puback_encode :: "bytes \<Rightarrow> int \<Rightarrow> u16 \<Rightarrow> (int \<times> bytes) option" where
  "umqtt_puback_encode buf buflen packetid =
     MQTTSerialize_ack buf buflen UMQTT_TYPE_PUBACK 0 packetid"

definition umqtt_pubrel_encode :: "bytes \<Rightarrow> int \<Rightarrow> u8 \<Rightarrow> u16 \<Rightarrow> (int \<times> bytes) option" where
  "umqtt_pubrel_encode buf buflen dup packetid =
     MQTTSerialize_ack buf buflen UMQTT_TYPE_PUBREL dup packetid"

definition umqtt_pubcomp_encode :: "bytes \<Rightarrow> int \<Rightarrow> u16 \<Rightarrow> (int \<times> bytes) option" where
  "umqtt_pubcomp_encode buf buflen packetid =
     MQTTSerialize_ack buf buflen UMQTT_TYPE_PUBCOMP 0 packetid"

definition umqtt_subscribe_encode ::
    "bytes \<Rightarrow> int \<Rightarrow> u16 \<Rightarrow> umqtt_pkgs_subscribe \<Rightarrow> (int \<times> bytes) option" where
  "umqtt_subscribe_encode send_buf send_len packet_id params =
     MQTTSerialize_subscribe send_buf send_len packet_id params"

definition umqtt_unsubscribe_encode ::
    "bytes \<Rightarrow> int \<Rightarrow> u16 \<Rightarrow> umqtt_pkgs_unsubscribe \<Rightarrow> (int \<times> bytes) option" where
  "umqtt_unsubscribe_encode send_buf send_len packet_id params =
     MQTTSerialize_unsubscribe send_buf send_len packet_id params"

text \<open>
  \<open>umqtt_encode\<close>. The message pointer may be null; the cases that read it then fault. The
  PUBREC case is commented out in the source and leaves the return value 0.
\<close>

definition umqtt_encode ::
    "umqtt_type \<Rightarrow> bytes \<Rightarrow> nat \<Rightarrow> umqtt_msg option \<Rightarrow> (int \<times> bytes) option" where
  "umqtt_encode type send_buf send_len message =
     (let n = int send_len in
      case type of
        UMQTT_TYPE_CONNECT \<Rightarrow> do { m \<leftarrow> message; umqtt_connect_encode send_buf n (u_connect m) }
      | UMQTT_TYPE_PUBLISH \<Rightarrow> do { m \<leftarrow> message;
          umqtt_publish_encode send_buf n (hdr_dup (m_header m)) (hdr_qos (m_header m))
            (u_head m) (u_publish m) }
      | UMQTT_TYPE_PUBACK \<Rightarrow> do { m \<leftarrow> message; umqtt_puback_encode send_buf n (u_head m) }
      | UMQTT_TYPE_PUBREC \<Rightarrow> Some (0, send_buf)
      | UMQTT_TYPE_PUBREL \<Rightarrow> do { m \<leftarrow> message;
          umqtt_pubrel_encode send_buf n (hdr_dup (m_header m)) (u_head m) }
      | UMQTT_TYPE_PUBCOMP \<Rightarrow> do { m \<leftarrow> message; umqtt_pubcomp_encode send_buf n (u_head m) }
      | UMQTT_TYPE_SUBSCRIBE \<Rightarrow> do { m \<leftarrow> message;
          umqtt_subscribe_encode send_buf n (u_head m) (u_subscribe m) }
      | UMQTT_TYPE_UNSUBSCRIBE \<Rightarrow> do { m \<leftarrow> message;
          umqtt_unsubscribe_encode send_buf n (u_head m) (u_unsubscribe m) }
      | UMQTT_TYPE_PINGREQ \<Rightarrow> umqtt_pingreq_encode send_buf n
      | UMQTT_TYPE_DISCONNECT \<Rightarrow> umqtt_disconnect_encode send_buf n
      | _ \<Rightarrow> Some (0, send_buf))"

section \<open>The packets as byte lists\<close>

definition mstr :: "bytes option \<Rightarrow> bytes" where
  "mstr s = (case s of Some s \<Rightarrow> mqtt_string s | None \<Rightarrow> be16 0)"

lemma length_mstr [simp]: "int (length (mstr s)) = MQTTStrlen s + 2"
  by (cases s) (simp_all add: mstr_def MQTTStrlen_def)

lemma MQTTStrlen_nonneg [simp]: "0 \<le> MQTTStrlen s"
  by (cases s) (simp_all add: MQTTStrlen_def)

lemmas writers_emit = writeChar_emit writeInt_emit writeCString_emit writeMQTTString_emit
  write_remaining_length_emit mstr_def [symmetric]

lemmas emit_fuse = sink.put_put_bind sink.put_put sink.put_if_bind

lemma emit_result:
  "Option.bind (emit xs (buf, 0)) (\<lambda>w. Some (wptr_result w))
   = map_option (\<lambda>b. (int (length xs), b)) (blit buf 0 xs)"
  by (cases "blit buf 0 xs") (simp_all add: write_block_def)

definition fixed_header :: "umqtt_type \<Rightarrow> u8 \<Rightarrow> u8 \<Rightarrow> u8" where
  "fixed_header t dup qos = set_hdr_qos qos (set_hdr_dup dup (set_hdr_type (type_code t) 0))"

text \<open>A packet: header byte, remaining length, body.\<close>

definition packet :: "u8 \<Rightarrow> bytes \<Rightarrow> bytes" where
  "packet h body = [h] @ rl_bytes (length body) @ body"

definition connect_body :: "umqtt_pkgs_connect \<Rightarrow> bytes" where
  "connect_body o1 =
     mqtt_string (ascii ''MQTT'') @ [4] @ [connect_flags o1]
     @ be16 (unat (keepalive_interval_sec o1)) @ mstr (cn_client_id o1)
     @ (if will_flag_bit (connect_flags o1)
        then mstr (cn_will_topic o1) @ mstr (cn_will_message o1) else [])
     @ (if username_flag_bit (connect_flags o1) then mstr (cn_user_name o1) else [])
     @ (if password_flag_bit (connect_flags o1) then mstr (cn_password o1) else [])"

definition publish_body :: "u8 \<Rightarrow> u16 \<Rightarrow> bytes \<Rightarrow> bytes \<Rightarrow> bytes" where
  "publish_body qos pid topic payload =
     mqtt_string topic @ (if qos > 0 then be16 (unat pid) else []) @ payload"

definition subscribe_body :: "u16 \<Rightarrow> sub_topic_filter list \<Rightarrow> bytes" where
  "subscribe_body pid fs =
     be16 (unat pid) @ concat (map (\<lambda>f. mstr (topic_filter f) @ [request_qos f]) fs)"

definition unsubscribe_body :: "u16 \<Rightarrow> unsub_topic_filter list \<Rightarrow> bytes" where
  "unsubscribe_body pid fs =
     be16 (unat pid) @ concat (map (\<lambda>f. mstr (un_topic_filter f)) fs)"

text \<open>CONNECT: what is written, against what the length field announces.\<close>

lemma connectLength_nonneg: "0 \<le> MQTTSerialize_connectLength o1"
  by (auto simp: MQTTSerialize_connectLength_def Let_def intro!: add_nonneg_nonneg)

lemma length_connect_body:
  assumes "protocol_level o1 = 4"
  shows "int (length (connect_body o1)) = MQTTSerialize_connectLength o1
    + (if username_flag_bit (connect_flags o1) \<and> \<not> password_flag_bit (connect_flags o1)
       then MQTTStrlen (cn_user_name o1) + 2 else 0)"
proof -
  have "c_strlen (ascii ''MQTT'') = 4"
    by (simp add: c_strlen_def cstr_def ascii_def)
  then show ?thesis
    using assms by (simp add: connect_body_def MQTTSerialize_connectLength_def Let_def)
qed

lemma MQTTSerialize_connect_blit:
  assumes "protocol_level o1 = 4"
    and "umqtt_pkgs_len (MQTTSerialize_connectLength o1) \<le> buflen"
  shows "MQTTSerialize_connect buf buflen o1
    = (let xs = [0x10] @ rl_bytes (nat (MQTTSerialize_connectLength o1)) @ connect_body o1
       in map_option (\<lambda>b. (int (length xs), b)) (blit buf 0 xs))"
proof -
  have h: "set_hdr_type 1 0 = 0x10" by (simp add: set_hdr_type_def)
  have ka: "umqtt_writeInt (uint k) w = emit (be16 (unat k)) w" for k :: u16 and w
    by (simp add: writeInt_emit)
  show ?thesis
    using assms connectLength_nonneg [of o1]
    by (simp add: MQTTSerialize_connect_def Let_def writers_emit ka emit_fuse h
        connect_body_def emit_result del: append_Cons)
qed

text \<open>PUBLISH\<close>

lemma sint_u32_small:
  assumes "unat (w :: u32) < 2147483648"
  shows "sint w = int (unat w)"
proof -
  from assms have "int (unat w) < 2147483648" by linarith
  then have "uint w < 2147483648" by simp
  moreover have "0 \<le> uint w" by simp
  then have "- 2147483648 \<le> uint w" by linarith
  ultimately have "signed_take_bit (LENGTH(32) - 1) (uint w) = uint w"
    by (intro signed_take_bit_int_eq_self) simp_all
  then show ?thesis by (simp add: sint_uint)
qed

lemma publishLength_eq:
  assumes "unat tnl + unat (pb_payload_len m) < 2147483600"
  shows "MQTTSerialize_publishLength qos tnl m
    = 2 + int (unat tnl) + int (unat (pb_payload_len m)) + (if qos > 0 then 2 else 0)"
proof -
  have u: "unat (ucast tnl :: u32) = unat tnl"
    using unat_u16_less [of tnl] by (simp add: unsigned_ucast_eq take_bit_nat_eq_self)
  have a: "unat (2 + ucast tnl :: u32) = 2 + unat tnl"
    using unat_add_lem [of "2 :: u32" "ucast tnl"] unat_u16_less [of tnl] by (simp add: u)
  have "unat (2 + ucast tnl + pb_payload_len m :: u32) = 2 + unat tnl + unat (pb_payload_len m)"
    using unat_add_lem [of "2 + ucast tnl :: u32" "pb_payload_len m"] assms by (simp add: a)
  with assms show ?thesis
    by (simp add: MQTTSerialize_publishLength_def sint_u32_small Let_def)
qed

lemma MQTTSerialize_publish_blit:
  assumes "pb_topic_name m = PObj topic" and "pb_payload m = PObj pl"
    and "unat (pb_payload_len m) \<le> length pl"
    and "umqtt_pkgs_len (MQTTSerialize_publishLength (uint qos) tnl m) \<le> buflen"
    and "0 \<le> MQTTSerialize_publishLength (uint qos) tnl m"
  shows "MQTTSerialize_publish buf buflen dup qos tnl m
    = (let xs = [fixed_header UMQTT_TYPE_PUBLISH dup qos]
             @ rl_bytes (nat (MQTTSerialize_publishLength (uint qos) tnl m))
             @ publish_body qos (pb_packet_id m) topic (take (unat (pb_payload_len m)) pl)
       in map_option (\<lambda>b. (int (length xs), b)) (blit buf 0 xs))"
proof -
  have k: "umqtt_writeInt (uint k) w = emit (be16 (unat k)) w" for k :: u16 and w
    by (simp add: writeInt_emit)
  show ?thesis
    using assms
    by (simp add: MQTTSerialize_publish_def Let_def writers_emit k emit_fuse out_string_def
        out_block_def rd_block_def fixed_header_def publish_body_def emit_result del: append_Cons)
qed

text \<open>SUBSCRIBE and UNSUBSCRIBE\<close>

lemma write_sub_topics_emit:
  "Option.bind (emit xs w) (\<lambda>w. Option.bind (write_sub_topics fs w) k)
   = Option.bind (emit (xs @ concat (map (\<lambda>f. mstr (topic_filter f) @ [request_qos f]) fs)) w) k"
  by (induction fs arbitrary: xs) (simp_all add: writers_emit emit_fuse bind_assoc)

lemma write_unsub_topics_emit:
  assumes "\<forall>f \<in> set fs. un_topic_filter f \<noteq> None"
  shows "Option.bind (emit xs w) (\<lambda>w. Option.bind (write_unsub_topics fs w) k)
   = Option.bind (emit (xs @ concat (map (\<lambda>f. mstr (un_topic_filter f)) fs)) w) k"
  using assms
proof (induction fs arbitrary: xs)
  case Nil
  show ?case by simp
next
  case (Cons f fs)
  then obtain s where f: "un_topic_filter f = Some s" by auto
  have "Option.bind (emit xs w) (\<lambda>w. Option.bind (write_unsub_topics (f # fs) w) k)
      = Option.bind (emit (xs @ mqtt_string s) w) (\<lambda>w. Option.bind (write_unsub_topics fs w) k)"
    by (simp add: f writeCString_emit sink.put_put_bind)
  also have "\<dots> = Option.bind
      (emit ((xs @ mqtt_string s) @ concat (map (\<lambda>f. mstr (un_topic_filter f)) fs)) w) k"
    using Cons by simp
  finally show ?case by (simp add: f mstr_def)
qed

lemma fold_sub_length:
  "fold (\<lambda>f len. len + (2 + MQTTStrlen (topic_filter f) + 1)) fs k
   = k + int (length (concat (map (\<lambda>f. mstr (topic_filter f) @ [request_qos f]) fs)))"
  by (induction fs arbitrary: k) simp_all

lemma fold_unsub_length:
  "fold (\<lambda>f len. len + (2 + MQTTStrlen (un_topic_filter f))) fs k
   = k + int (length (concat (map (\<lambda>f. mstr (un_topic_filter f)) fs)))"
  by (induction fs arbitrary: k) simp_all

lemma MQTTSerialize_subscribe_blit:
  fixes m :: umqtt_pkgs_subscribe
  defines "fs \<equiv> take (unat (sb_topic_count m)) (sb_topic_filter m)"
  assumes "0 < sb_topic_count m" and "unat (sb_topic_count m) \<le> length (sb_topic_filter m)"
    and "umqtt_pkgs_len (int (length (subscribe_body pid fs))) \<le> buflen"
  shows "MQTTSerialize_subscribe buf buflen pid m
    = (let xs = packet (fixed_header UMQTT_TYPE_SUBSCRIBE 0 1) (subscribe_body pid fs)
       in map_option (\<lambda>b. (int (length xs), b)) (blit buf 0 xs))"
proof -
  have k: "umqtt_writeInt (uint k) w = emit (be16 (unat k)) w" for k :: u16 and w
    by (simp add: writeInt_emit)
  have pos: "0 < unat (sb_topic_count m)"
    using assms(2) by (simp add: word_less_nat_alt)
  have len: "MQTTSerialize_subscribeLength m = Some (int (length (subscribe_body pid fs)))"
    unfolding MQTTSerialize_subscribeLength_def fold_sub_length Let_def
    using pos assms(3)
    by (simp add: subscribe_body_def fs_def Let_def)
  have rl: "write_remaining_length (int (length (subscribe_body pid fs))) w
      = emit (rl_bytes (length (subscribe_body pid fs))) w" for w
    by (simp add: write_remaining_length_emit)
  show ?thesis
    unfolding MQTTSerialize_subscribe_def len bind.bind_lunit rl fs_def [symmetric]
    using assms(4)
    by (simp add: writers_emit k emit_fuse write_sub_topics_emit Let_def packet_def
        fixed_header_def subscribe_body_def emit_result del: append_Cons)
qed

lemma MQTTSerialize_unsubscribe_blit:
  fixes m :: umqtt_pkgs_unsubscribe
  defines "fs \<equiv> take (unat (us_topic_count m)) (us_topic_filter m)"
  assumes "0 < us_topic_count m" and "unat (us_topic_count m) \<le> length (us_topic_filter m)"
    and "umqtt_pkgs_len (int (length (unsubscribe_body pid fs))) \<le> buflen"
    and "\<forall>f \<in> set fs. un_topic_filter f \<noteq> None"
  shows "MQTTSerialize_unsubscribe buf buflen pid m
    = (let xs = packet (fixed_header UMQTT_TYPE_UNSUBSCRIBE 0 1) (unsubscribe_body pid fs)
       in map_option (\<lambda>b. (int (length xs), b)) (blit buf 0 xs))"
proof -
  have k: "umqtt_writeInt (uint k) w = emit (be16 (unat k)) w" for k :: u16 and w
    by (simp add: writeInt_emit)
  have pos: "0 < unat (us_topic_count m)"
    using assms(2) by (simp add: word_less_nat_alt)
  have len: "MQTTSerialize_unsubscribeLength m = Some (int (length (unsubscribe_body pid fs)))"
    unfolding MQTTSerialize_unsubscribeLength_def fold_unsub_length Let_def
    using pos assms(3)
    by (simp add: unsubscribe_body_def
        fs_def Let_def)
  have rl: "write_remaining_length (int (length (unsubscribe_body pid fs))) w
      = emit (rl_bytes (length (unsubscribe_body pid fs))) w" for w
    by (simp add: write_remaining_length_emit)
  show ?thesis
    unfolding MQTTSerialize_unsubscribe_def len bind.bind_lunit rl fs_def [symmetric]
    using assms(4,5)
    by (simp add: writers_emit k emit_fuse write_unsub_topics_emit Let_def packet_def
        fixed_header_def unsubscribe_body_def emit_result del: append_Cons)
qed

text \<open>Acknowledgements, PINGREQ and DISCONNECT\<close>

lemma MQTTSerialize_ack_blit:
  assumes "4 \<le> buflen"
  shows "MQTTSerialize_ack buf buflen t dup pid
    = (let xs = packet (fixed_header t dup (if t = UMQTT_TYPE_PUBREL then 1 else 0))
                  (be16 (unat pid))
       in map_option (\<lambda>b. (4, b)) (blit buf 0 xs))"
proof -
  have k: "umqtt_writeInt (uint k) w = emit (be16 (unat k)) w" for k :: u16 and w
    by (simp add: writeInt_emit)
  have rl: "rl_bytes 2 = [2]" by (simp add: rl_bytes.simps [of 2])
  show ?thesis
    using assms
    by (simp add: MQTTSerialize_ack_def writers_emit k emit_fuse Let_def packet_def
        fixed_header_def emit_result rl del: append_Cons)
qed

lemma MQTTSerialize_zero_blit:
  assumes "2 \<le> buflen"
  shows "MQTTSerialize_zero buf buflen t
    = map_option (\<lambda>b. (2, b)) (blit buf 0 [set_hdr_type (type_code t) 0, 0])"
proof -
  have rl: "rl_bytes 0 = [0]" by (simp add: rl_bytes.simps [of 0])
  show ?thesis
    using assms
    by (simp add: MQTTSerialize_zero_def writers_emit emit_fuse emit_result rl)
qed

section \<open>The encoder stays inside the send buffer\<close>

text \<open>
  \<open>encode_ok n buf r\<close>: the encoder came back, with a return value of at most \<open>n\<close>; the buffer
  kept its size; nothing behind the returned length was touched, and nothing at all on an error.
\<close>

definition encode_ok :: "nat \<Rightarrow> bytes \<Rightarrow> (int \<times> bytes) option \<Rightarrow> bool" where
  "encode_ok n buf r = (case r of None \<Rightarrow> False
     | Some (rc, b) \<Rightarrow> rc \<le> int n \<and> length b = length buf
         \<and> drop (nat rc) b = drop (nat rc) buf \<and> (rc < 0 \<longrightarrow> b = buf))"

lemma encode_ok_error: "rc < 0 \<Longrightarrow> encode_ok n buf (Some (rc, buf))"
  by (simp add: encode_ok_def)

lemma encode_ok_blit:
  "length xs \<le> n \<Longrightarrow> n \<le> length buf \<Longrightarrow>
     encode_ok n buf (map_option (\<lambda>b. (int (length xs), b)) (blit buf 0 xs))"
  by (simp add: encode_ok_def blit_def)

text \<open>
  The messages the client builds (see \<open>Mqtt_Client\<close>): a CONNECT of level 4, a PUBLISH whose topic length
  is in \<open>head\<close>, lists of topics that are there. Among the CONNECTs is the one with a user name and no
  password, whose user name the length computation forgets.
\<close>

definition encodable :: "umqtt_type \<Rightarrow> umqtt_msg \<Rightarrow> bool" where
  "encodable t m = (case t of
     UMQTT_TYPE_CONNECT \<Rightarrow> protocol_level (u_connect m) = 4
   | UMQTT_TYPE_PUBLISH \<Rightarrow>
       (case (pb_topic_name (u_publish m), pb_payload (u_publish m)) of
          (PObj topic, PObj pl) \<Rightarrow> unat (u_head m) = c_strlen topic
            \<and> unat (pb_payload_len (u_publish m)) \<le> length pl \<and> length pl < 2000000000
        | _ \<Rightarrow> False)
   | UMQTT_TYPE_SUBSCRIBE \<Rightarrow> 0 < sb_topic_count (u_subscribe m)
       \<and> unat (sb_topic_count (u_subscribe m)) \<le> length (sb_topic_filter (u_subscribe m))
   | UMQTT_TYPE_UNSUBSCRIBE \<Rightarrow> 0 < us_topic_count (u_unsubscribe m)
       \<and> unat (us_topic_count (u_unsubscribe m)) \<le> length (us_topic_filter (u_unsubscribe m))
       \<and> (\<forall>f \<in> set (take (unat (us_topic_count (u_unsubscribe m)))
            (us_topic_filter (u_unsubscribe m))). un_topic_filter f \<noteq> None)
   | _ \<Rightarrow> True)"

definition forgets_user_name :: "umqtt_type \<Rightarrow> umqtt_msg \<Rightarrow> bool" where
  "forgets_user_name t m \<longleftrightarrow> t = UMQTT_TYPE_CONNECT \<and> username_flag_bit (connect_flags (u_connect m))
     \<and> \<not> password_flag_bit (connect_flags (u_connect m))"

text \<open>
  What the encoder does with such a CONNECT: it checks for a packet without the user name and writes one
  with it, which is a fault when the buffer has no room for the rest.
\<close>

definition encodes_too_much :: "nat \<Rightarrow> bytes \<Rightarrow> umqtt_pkgs_connect \<Rightarrow> (int \<times> bytes) option \<Rightarrow> bool" where
  "encodes_too_much n buf o1 r \<longleftrightarrow>
     (let len = MQTTSerialize_connectLength o1; packet = [0x10] @ rl_bytes (nat len) @ connect_body o1 in
      if umqtt_pkgs_len len > int n then r = Some (UMQTT_BUFFER_TOO_SHORT, buf)
      else int (length packet) = 1 + int (length (rl_bytes (nat len))) + len + (2 + MQTTStrlen (cn_user_name o1))
        \<and> r = (if length packet \<le> length buf then Some (int (length packet), packet @ drop (length packet) buf) else None))"

lemma pkgs_len_bound:
  assumes "umqtt_pkgs_len (int n) \<le> int k" and "k < 268435456"
  shows "1 + length (rl_bytes n) + n \<le> k"
proof -
  have "int n < umqtt_pkgs_len (int n)" by (simp add: umqtt_pkgs_len_def Let_def)
  with assms have "n < 268435456" by linarith
  then have "1 + int (length (rl_bytes n)) + int n \<le> umqtt_pkgs_len (int n)"
    by (rule umqtt_pkgs_len_ge)
  with assms show ?thesis by linarith
qed

lemma connect_encode_ok:
  assumes lvl: "protocol_level o1 = 4"
    and flags: "username_flag_bit (connect_flags o1) \<longrightarrow> password_flag_bit (connect_flags o1)"
    and n: "n \<le> length buf" "n < 268435456"
  shows "encode_ok n buf (MQTTSerialize_connect buf (int n) o1)"
proof (cases "umqtt_pkgs_len (MQTTSerialize_connectLength o1) \<le> int n")
  case True
  from connectLength_nonneg obtain k where k: "MQTTSerialize_connectLength o1 = int k"
    by (metis nonneg_int_cases)
  with lvl flags have "length (connect_body o1) = k"
    using length_connect_body [OF lvl] by auto
  with True k n have "length ([0x10] @ rl_bytes k @ connect_body o1) \<le> n"
    using pkgs_len_bound [of k n] by simp
  then show ?thesis
    using encode_ok_blit [of "[0x10] @ rl_bytes k @ connect_body o1" n buf] n True
    by (simp add: MQTTSerialize_connect_blit lvl k Let_def del: append_Cons)
next
  case False
  then show ?thesis by (simp add: MQTTSerialize_connect_def Let_def encode_ok_error)
qed

lemma publish_encode_ok:
  assumes m: "pb_topic_name m = PObj topic" "pb_payload m = PObj pl"
    and tnl: "unat tnl = c_strlen topic"
    and pl: "unat (pb_payload_len m) \<le> length pl" "length pl < 2000000000"
    and n: "n \<le> length buf" "n < 268435456"
  shows "encode_ok n buf (MQTTSerialize_publish buf (int n) dup qos tnl m)"
proof (cases "umqtt_pkgs_len (MQTTSerialize_publishLength (uint qos) tnl m) \<le> int n")
  case True
  have pos: "0 < uint qos \<longleftrightarrow> 0 < qos"
    by (simp add: word_less_def)
  define body where "body = publish_body qos (pb_packet_id m) topic (take (unat (pb_payload_len m)) pl)"
  have len: "MQTTSerialize_publishLength (uint qos) tnl m = int (length body)"
    using pl unat_u16_less [of tnl] tnl
    by (simp add: publishLength_eq body_def publish_body_def pos)
  with True n have "length ([fixed_header UMQTT_TYPE_PUBLISH dup qos] @ rl_bytes (length body) @ body) \<le> n"
    using pkgs_len_bound [of "length body" n] by simp
  then show ?thesis
    using encode_ok_blit [of "[fixed_header UMQTT_TYPE_PUBLISH dup qos] @ rl_bytes (length body) @ body"
        n buf] n True MQTTSerialize_publish_blit [OF m pl(1) True]
    by (simp add: len body_def [symmetric] Let_def del: append_Cons)
next
  case False
  then show ?thesis by (simp add: MQTTSerialize_publish_def Let_def encode_ok_error)
qed

lemma packet_ok:
  assumes "umqtt_pkgs_len (int (length body)) \<le> int n" and "n \<le> length buf" and "n < 268435456"
  shows "encode_ok n buf
    (let xs = packet h body in map_option (\<lambda>b. (int (length xs), b)) (blit buf 0 xs))"
  unfolding Let_def
  by (rule encode_ok_blit) (use assms pkgs_len_bound [of "length body" n] in \<open>simp_all add: packet_def\<close>)

lemma subscribe_encode_ok:
  assumes "0 < sb_topic_count m" "unat (sb_topic_count m) \<le> length (sb_topic_filter m)"
    and n: "n \<le> length buf" "n < 268435456"
  shows "encode_ok n buf (MQTTSerialize_subscribe buf (int n) pid m)"
proof -
  define body where
    "body = subscribe_body pid (take (unat (sb_topic_count m)) (sb_topic_filter m))"
  have len: "MQTTSerialize_subscribeLength m = Some (int (length body))"
    using assms(1,2) unfolding MQTTSerialize_subscribeLength_def fold_sub_length Let_def
    by (simp add: subscribe_body_def body_def word_less_nat_alt)
  show ?thesis
  proof (cases "umqtt_pkgs_len (int (length body)) \<le> int n")
    case True
    then show ?thesis
      using packet_ok [OF True n] MQTTSerialize_subscribe_blit [OF assms(1,2)]
      by (simp add: body_def)
  next
    case False
    then show ?thesis by (simp add: MQTTSerialize_subscribe_def len encode_ok_error)
  qed
qed

lemma unsubscribe_encode_ok:
  assumes "0 < us_topic_count m" "unat (us_topic_count m) \<le> length (us_topic_filter m)"
    and fs: "\<forall>f \<in> set (take (unat (us_topic_count m)) (us_topic_filter m)). un_topic_filter f \<noteq> None"
    and n: "n \<le> length buf" "n < 268435456"
  shows "encode_ok n buf (MQTTSerialize_unsubscribe buf (int n) pid m)"
proof -
  define body where
    "body = unsubscribe_body pid (take (unat (us_topic_count m)) (us_topic_filter m))"
  have len: "MQTTSerialize_unsubscribeLength m = Some (int (length body))"
    using assms(1,2) unfolding MQTTSerialize_unsubscribeLength_def fold_unsub_length Let_def
    by (simp add: unsubscribe_body_def body_def word_less_nat_alt)
  show ?thesis
  proof (cases "umqtt_pkgs_len (int (length body)) \<le> int n")
    case True
    then show ?thesis
      using packet_ok [OF True n] MQTTSerialize_unsubscribe_blit [OF assms(1,2) _ fs]
      by (simp add: body_def)
  next
    case False
    then show ?thesis by (simp add: MQTTSerialize_unsubscribe_def len encode_ok_error)
  qed
qed

lemma ack_encode_ok:
  "n \<le> length buf \<Longrightarrow> encode_ok n buf (MQTTSerialize_ack buf (int n) t dup pid)"
proof (cases "4 \<le> n")
  case True
  assume "n \<le> length buf"
  have "length (packet h (be16 (unat pid))) = 4" for h
    by (simp add: packet_def rl_bytes.simps [of 2])
  then show ?thesis
    using True \<open>n \<le> length buf\<close>
      encode_ok_blit [of "packet (fixed_header t dup (if t = UMQTT_TYPE_PUBREL then 1 else 0))
        (be16 (unat pid))" n buf]
    by (simp add: MQTTSerialize_ack_blit Let_def)
qed (simp add: MQTTSerialize_ack_def encode_ok_error)

lemma zero_encode_ok:
  "n \<le> length buf \<Longrightarrow> encode_ok n buf (MQTTSerialize_zero buf (int n) t)"
proof (cases "2 \<le> n")
  case True
  assume "n \<le> length buf"
  then show ?thesis
    using True encode_ok_blit [of "[set_hdr_type (type_code t) 0, 0]" n buf]
    by (simp add: MQTTSerialize_zero_blit)
qed (simp add: MQTTSerialize_zero_def encode_ok_error)

lemma encode_ok_nothing: "encode_ok n buf (Some (0, buf))"
  by (simp add: encode_ok_def)

lemmas encode_oks = connect_encode_ok publish_encode_ok subscribe_encode_ok unsubscribe_encode_ok
  ack_encode_ok zero_encode_ok encode_ok_nothing

lemmas encode_entry_defs = umqtt_connect_encode_def umqtt_disconnect_encode_def
  umqtt_pingreq_encode_def umqtt_publish_encode_def umqtt_puback_encode_def
  umqtt_pubrel_encode_def umqtt_pubcomp_encode_def umqtt_subscribe_encode_def
  umqtt_unsubscribe_encode_def

lemma connect_encodes_too_much:
  assumes "protocol_level o1 = 4" and "username_flag_bit (connect_flags o1)" and "\<not> password_flag_bit (connect_flags o1)"
  shows "encodes_too_much n buf o1 (MQTTSerialize_connect buf (int n) o1)"
proof (cases "umqtt_pkgs_len (MQTTSerialize_connectLength o1) > int n")
  case True
  then show ?thesis by (simp add: encodes_too_much_def MQTTSerialize_connect_def Let_def)
next
  case False
  then have fits: "umqtt_pkgs_len (MQTTSerialize_connectLength o1) \<le> int n" by simp
  show ?thesis
    using length_connect_body [OF assms(1)] assms(2,3) False connectLength_nonneg [of o1]
    by (simp add: encodes_too_much_def Let_def MQTTSerialize_connect_blit [OF assms(1) fits] blit_def)
qed

text \<open>
  C15: for every packet type and every message the client can build for it, the encoder stores inside
  the send buffer: it returns, the result is at most the length it was given, the bytes behind the packet
  are untouched, and an error leaves the buffer as it was. There is one exception, a CONNECT with a user
  name and no password: the encoder checks for \<open>2 + strlen(user_name)\<close> bytes too few, writes the whole
  packet, and runs past the end of a buffer that has no room for it.
\<close>

theorem umqtt_encode_in_bounds:
  assumes "encodable t m" and "n \<le> length buf" and "n < 268435456"
  shows "if forgets_user_name t m then encodes_too_much n buf (u_connect m) (umqtt_encode t buf n (Some m))
    else encode_ok n buf (umqtt_encode t buf n (Some m))"
proof (cases t)
  case UMQTT_TYPE_PUBLISH
  with assms show ?thesis
    by (auto simp: umqtt_encode_def encode_entry_defs encodable_def forgets_user_name_def intro!: publish_encode_ok
        split: cptr.splits)
next
  case UMQTT_TYPE_CONNECT
  with assms show ?thesis
    by (simp add: umqtt_encode_def encode_entry_defs encodable_def forgets_user_name_def connect_encode_ok
        connect_encodes_too_much)
next
  case UMQTT_TYPE_SUBSCRIBE
  with assms show ?thesis
    by (simp add: umqtt_encode_def encode_entry_defs encodable_def forgets_user_name_def subscribe_encode_ok)
next
  case UMQTT_TYPE_UNSUBSCRIBE
  with assms show ?thesis
    by (simp add: umqtt_encode_def encode_entry_defs encodable_def forgets_user_name_def unsubscribe_encode_ok)
qed (use assms in \<open>simp_all add: umqtt_encode_def encode_entry_defs encode_oks forgets_user_name_def Let_def\<close>)

definition user_only :: umqtt_pkgs_connect where
  "user_only = (u_connect zero_msg)\<lparr>protocol_level := 4, connect_flags := 0x82,
     cn_client_id := Some [0x63], cn_user_name := Some [0x75, 0x73, 0x72]\<rparr>"

theorem umqtt_encode_in_bounds_witness:
  "encode_ok 6 (replicate 8 0)
     (umqtt_encode UMQTT_TYPE_PUBACK (replicate 8 0) 6 (Some (zero_msg\<lparr>u_head := 513\<rparr>)))
   \<and> umqtt_encode UMQTT_TYPE_CONNECT (replicate 16 0) 16 (Some (zero_msg\<lparr>u_connect := user_only\<rparr>)) = None"
proof (rule conjI)
  have "encodable UMQTT_TYPE_PUBACK (zero_msg\<lparr>u_head := 513\<rparr>)" by (simp add: encodable_def)
  from umqtt_encode_in_bounds [OF this, of 6 "replicate 8 0"] show "encode_ok 6 (replicate 8 0)
     (umqtt_encode UMQTT_TYPE_PUBACK (replicate 8 0) 6 (Some (zero_msg\<lparr>u_head := 513\<rparr>)))"
    by (simp add: forgets_user_name_def)
next
  let ?m = "zero_msg\<lparr>u_connect := user_only\<rparr>" and ?r = "umqtt_encode UMQTT_TYPE_CONNECT (replicate 16 0) 16"
  have f: "username_flag_bit 0x82" "\<not> password_flag_bit 0x82" "\<not> will_flag_bit 0x82"
    by (simp_all add: username_flag_bit_def password_flag_bit_def will_flag_bit_def)
  have s: "c_strlen [0x63] = 1" "c_strlen [0x75, 0x73, 0x72] = 3" by (simp_all add: c_strlen_def cstr_def)
  have len: "MQTTSerialize_connectLength user_only = 13"
    by (simp add: MQTTSerialize_connectLength_def user_only_def f s MQTTStrlen_def Let_def)
  have "encodable UMQTT_TYPE_CONNECT ?m" "forgets_user_name UMQTT_TYPE_CONNECT ?m"
    by (simp_all add: encodable_def forgets_user_name_def user_only_def f)
  with umqtt_encode_in_bounds [of UMQTT_TYPE_CONNECT ?m 16 "replicate 16 0"]
  have "encodes_too_much 16 (replicate 16 0) user_only (?r (Some ?m))" by simp
  moreover have "umqtt_pkgs_len 13 = 15" "length (rl_bytes 13) = 1" "MQTTStrlen (cn_user_name user_only) = 3"
    by (simp_all add: umqtt_pkgs_len_def rl_bytes.simps [of 13] user_only_def s MQTTStrlen_def)
  ultimately show "?r (Some ?m) = None"
    unfolding encodes_too_much_def Let_def len by (simp split: if_splits)
qed

text \<open>
  A CONNECT with a user name and no password is built wrongly. The length computation counts
  the user name only under the password flag, so the packet has \<open>2 + strlen(user_name)\<close> more bytes
  than its length field says, and when the buffer holds exactly what was checked for, the user
  name is written past its end.
\<close>

theorem connect_user_name_without_password:
  assumes "protocol_level o1 = 4" and "username_flag_bit (connect_flags o1)"
    and "\<not> password_flag_bit (connect_flags o1)"
    and "umqtt_pkgs_len (MQTTSerialize_connectLength o1) \<le> buflen"
  shows "let len = MQTTSerialize_connectLength o1;
             total = 1 + int (length (rl_bytes (nat len))) + len + (2 + MQTTStrlen (cn_user_name o1))
         in if total \<le> int (length buf)
            then \<exists>b. MQTTSerialize_connect buf buflen o1 = Some (total, b)
                   \<and> take (nat total) b = [0x10] @ rl_bytes (nat len) @ connect_body o1
            else MQTTSerialize_connect buf buflen o1 = None"
proof -
  define xs where "xs = [0x10] @ rl_bytes (nat (MQTTSerialize_connectLength o1)) @ connect_body o1"
  have total: "int (length xs) = 1 + int (length (rl_bytes (nat (MQTTSerialize_connectLength o1))))
      + MQTTSerialize_connectLength o1 + (2 + MQTTStrlen (cn_user_name o1))"
    using length_connect_body [OF assms(1)] assms(2,3) by (simp add: xs_def)
  have "MQTTSerialize_connect buf buflen o1
      = map_option (\<lambda>b. (int (length xs), b)) (blit buf 0 xs)"
    using MQTTSerialize_connect_blit [OF assms(1,4)] by (simp add: xs_def Let_def)
  then have "if int (length xs) \<le> int (length buf)
      then \<exists>b. MQTTSerialize_connect buf buflen o1 = Some (int (length xs), b)
             \<and> take (nat (int (length xs))) b = xs
      else MQTTSerialize_connect buf buflen o1 = None"
    by (simp add: blit_def)
  then show ?thesis by (simp only: total Let_def xs_def [symmetric])
qed

theorem connect_user_name_without_password_witness:
  "MQTTSerialize_connect (replicate 15 0) 15 user_only = None"
proof -
  have f: "username_flag_bit 0x82" "\<not> password_flag_bit 0x82" "\<not> will_flag_bit 0x82"
    by (simp_all add: username_flag_bit_def password_flag_bit_def will_flag_bit_def)
  have s: "c_strlen [0x63] = 1" "c_strlen [0x75, 0x73, 0x72] = 3"
    by (simp_all add: c_strlen_def cstr_def)
  have len: "MQTTSerialize_connectLength user_only = 13"
    by (simp add: MQTTSerialize_connectLength_def user_only_def f s MQTTStrlen_def Let_def)
  show ?thesis
    using connect_user_name_without_password [of user_only 15 "replicate 15 0"]
    by (simp add: len, simp add: user_only_def f s umqtt_pkgs_len_def MQTTStrlen_def
        rl_bytes.simps [of 13] Let_def)
qed

end
