(* ===== verification/Mqtt_Decode.thy ===== *)
theory Mqtt_Decode
  imports Mqtt_Encode
begin

text \<open>
  The packet parsers of \<open>umqtt_pkgs_decode.c\<close>. The raw packet is in \<open>buf\<close> (the client's
  receive buffer, which may be longer than the packet), pointers into it are offsets; a read
  past the end of \<open>buf\<close> is \<open>None\<close>. A parser returns the C return value with the message
  structure it filled in. The static \<open>bufptr\<close> of the source is the state of the byte source
  \<open>bufchar\<close> handed to \<open>umqtt_pkgs_decode\<close>.
\<close>

section \<open>The parsers\<close>

fun bufchar_loop :: "bytes \<Rightarrow> nat \<Rightarrow> u8 \<Rightarrow> nat \<Rightarrow> (u8 \<times> nat) option" where
  "bufchar_loop buf 0 c bufptr = Some (c, bufptr)"
| "bufchar_loop buf (Suc i) c bufptr = do { c \<leftarrow> rd buf bufptr; bufchar_loop buf i c (bufptr + 1) }"

definition bufchar :: "bytes \<Rightarrow> nat \<Rightarrow> u8 \<Rightarrow> nat \<Rightarrow> (int \<times> u8 \<times> nat) option" where
  "bufchar buf count c bufptr = do {
     (c, bufptr) \<leftarrow> bufchar_loop buf count c bufptr;
     Some (int count, c, bufptr) }"

text \<open>Returns \<open>(rc, *value)\<close>; the callers advance their own pointer by \<open>rc\<close>.\<close>

definition umqtt_pkgs_decodeBuf :: "bytes \<Rightarrow> nat \<Rightarrow> (int \<times> int) option" where
  "umqtt_pkgs_decodeBuf buf p = do {
     (rc, val, _) \<leftarrow> umqtt_pkgs_decode (bufchar buf 1 0) p;
     Some (rc, val) }"

definition MQTTDeserialize_publish ::
    "umqtt_msg \<Rightarrow> bytes \<Rightarrow> nat \<Rightarrow> (int \<times> umqtt_msg) option" where
  "MQTTDeserialize_publish pub_msg buf buflen = do {
     (h, curdata) \<leftarrow> umqtt_readChar buf 0;
     let pub_msg = pub_msg\<lparr>m_header := h\<rparr>;
     if hdr_type h \<noteq> type_code UMQTT_TYPE_PUBLISH then Some (UMQTT_DECODE_ERROR, pub_msg)
     else do {
       (rc, mylen) \<leftarrow> umqtt_pkgs_decodeBuf buf curdata;
       let curdata = curdata + nat rc;
       let enddata = curdata + nat mylen;
       (ok, str_len, p_string, curdata) \<leftarrow> umqtt_readlenstring buf curdata enddata;
       let pub_msg = (case str_len of None \<Rightarrow> pub_msg
                      | Some n \<Rightarrow> pub_msg\<lparr>u_head := word_of_int n\<rparr>);
       let pub_msg = (case p_string of None \<Rightarrow> pub_msg
                      | Some o1 \<Rightarrow> pub_msg\<lparr>u_publish := (u_publish pub_msg)\<lparr>pb_topic_name := PRecv o1\<rparr>\<rparr>);
       if ok = 0 \<or> int enddata - int curdata < 0 then Some (UMQTT_DECODE_ERROR, pub_msg)
       else do {
         (pub_msg, curdata) \<leftarrow>
           (if hdr_qos h > 0 then do {
              (pid, curdata) \<leftarrow> umqtt_readInt buf curdata;
              Some (pub_msg\<lparr>u_publish := (u_publish pub_msg)\<lparr>pb_packet_id := word_of_int pid\<rparr>\<rparr>, curdata) }
            else Some (pub_msg, curdata));
         Some (rc, pub_msg\<lparr>u_publish := (u_publish pub_msg)\<lparr>
                     pb_payload_len := word_of_int (int enddata - int curdata),
                     pb_payload := PRecv curdata\<rparr>\<rparr>) } } }"

definition MQTTDeserialize_ack ::
    "umqtt_msg \<Rightarrow> bytes \<Rightarrow> nat \<Rightarrow> (int \<times> umqtt_msg) option" where
  "MQTTDeserialize_ack puback_msg buf buflen = do {
     (h, curdata) \<leftarrow> umqtt_readChar buf 0;
     let puback_msg = puback_msg\<lparr>m_header := h\<rparr>;
     (rc, mylen) \<leftarrow> umqtt_pkgs_decodeBuf buf curdata;
     let curdata = curdata + nat rc;
     let enddata = curdata + nat mylen;
     if int enddata - int curdata < 2 then Some (UMQTT_DECODE_ERROR, puback_msg)
     else do {
       (pid, _) \<leftarrow> umqtt_readInt buf curdata;
       Some (rc, puback_msg\<lparr>u_head := word_of_int pid\<rparr>) } }"

definition umqtt_connack_decode ::
    "umqtt_msg \<Rightarrow> bytes \<Rightarrow> nat \<Rightarrow> (int \<times> umqtt_msg) option" where
  "umqtt_connack_decode msg buf buflen = do {
     (h, curdata) \<leftarrow> umqtt_readChar buf 0;
     if hdr_type h \<noteq> type_code UMQTT_TYPE_CONNACK then Some (UMQTT_FAILED, msg)
     else do {
       (rc, mylen) \<leftarrow> umqtt_pkgs_decodeBuf buf curdata;
       let curdata = curdata + nat rc;
       let enddata = curdata + nat mylen;
       if int enddata - int curdata < 2 then Some (rc, msg)
       else do {
         (flags, curdata) \<leftarrow> umqtt_readChar buf curdata;
         (code, curdata) \<leftarrow> umqtt_readChar buf curdata;
         Some (rc, msg\<lparr>u_connack := \<lparr> connack_sign = flags, connack_ret_code = code \<rparr>\<rparr>) } } }"

definition umqtt_publish_decode :: "umqtt_msg \<Rightarrow> bytes \<Rightarrow> nat \<Rightarrow> (int \<times> umqtt_msg) option" where
  "umqtt_publish_decode publish_msg buf buflen = MQTTDeserialize_publish publish_msg buf buflen"

definition umqtt_puback_decode :: "umqtt_msg \<Rightarrow> bytes \<Rightarrow> nat \<Rightarrow> (int \<times> umqtt_msg) option" where
  "umqtt_puback_decode puback_msg buf buflen = MQTTDeserialize_ack puback_msg buf buflen"

text \<open>The \<open>while (curdata < enddata)\<close> loop; \<open>ret_qos\<close> is a four-element array.\<close>

function suback_loop :: "bytes \<Rightarrow> nat \<Rightarrow> nat \<Rightarrow> umqtt_pkgs_suback \<Rightarrow> (bool \<times> umqtt_pkgs_suback) option" where
  "suback_loop buf curdata enddata sa =
     (if curdata < enddata then
        (if unat (sa_topic_count sa) > PKG_UMQTT_SUBRECV_DEF_LENGTH then Some (False, sa)
         else case rd buf curdata of
           None \<Rightarrow> None
         | Some c \<Rightarrow>
             (case wr (sa_ret_qos sa) (unat (sa_topic_count sa)) c of
                None \<Rightarrow> None
              | Some qs \<Rightarrow> suback_loop buf (curdata + 1) enddata
                  (sa\<lparr>sa_ret_qos := qs, sa_topic_count := sa_topic_count sa + 1\<rparr>)))
      else Some (True, sa))"
  by pat_completeness auto
termination
  by (relation "measure (\<lambda>(buf, curdata, enddata, sa). enddata - curdata)") auto

declare suback_loop.simps [simp del]

definition umqtt_suback_decode ::
    "umqtt_msg \<Rightarrow> bytes \<Rightarrow> nat \<Rightarrow> (int \<times> umqtt_msg) option" where
  "umqtt_suback_decode msg buf buflen = do {
     (h, curdata) \<leftarrow> umqtt_readChar buf 0;
     if hdr_type h \<noteq> type_code UMQTT_TYPE_SUBACK then Some (UMQTT_FAILED, msg)
     else do {
       (rc, mylen) \<leftarrow> umqtt_pkgs_decodeBuf buf curdata;
       let curdata = curdata + nat rc;
       let enddata = curdata + nat mylen;
       if int enddata - int curdata < 2 then Some (UMQTT_DECODE_ERROR, msg)
       else do {
         (pid, curdata) \<leftarrow> umqtt_readInt buf curdata;
         let msg = msg\<lparr>u_head := word_of_int pid\<rparr>;
         (ok, sa) \<leftarrow> suback_loop buf curdata enddata ((u_suback msg)\<lparr>sa_topic_count := 0\<rparr>);
         Some (if ok then rc else UMQTT_FAILED, msg\<lparr>u_suback := sa\<rparr>) } } }"

text \<open>This parser does not skip the header byte before it reads the length field.\<close>

definition umqtt_unsuback_decode ::
    "umqtt_msg \<Rightarrow> bytes \<Rightarrow> nat \<Rightarrow> (int \<times> umqtt_msg) option" where
  "umqtt_unsuback_decode msg buf buflen = do {
     (rc, mylen) \<leftarrow> umqtt_pkgs_decodeBuf buf 0;
     let curdata = nat rc;
     let enddata = curdata + nat mylen;
     if int enddata - int curdata < 2 then Some (UMQTT_DECODE_ERROR, msg)
     else do {
       (pid, _) \<leftarrow> umqtt_readInt buf curdata;
       Some (rc, msg\<lparr>u_head := word_of_int pid\<rparr>) } }"

definition umqtt_decode ::
    "bytes \<Rightarrow> nat \<Rightarrow> umqtt_msg option \<Rightarrow> (int \<times> umqtt_msg option) option" where
  "umqtt_decode recv_buf recv_buf_len message = (case message of
     None \<Rightarrow> Some (UMQTT_INPARAMS_NULL, None)
   | Some m \<Rightarrow> do {
       (h, _) \<leftarrow> umqtt_readChar recv_buf 0;
       let m = m\<lparr>m_header := h\<rparr>;
       (r, m) \<leftarrow> (case type_of_code (hdr_type h) of
           Some UMQTT_TYPE_CONNACK \<Rightarrow> umqtt_connack_decode m recv_buf recv_buf_len
         | Some UMQTT_TYPE_PUBLISH \<Rightarrow> umqtt_publish_decode m recv_buf recv_buf_len
         | Some UMQTT_TYPE_PUBACK \<Rightarrow> umqtt_puback_decode m recv_buf recv_buf_len
         | Some UMQTT_TYPE_SUBACK \<Rightarrow> umqtt_suback_decode m recv_buf recv_buf_len
         | Some UMQTT_TYPE_UNSUBACK \<Rightarrow> umqtt_unsuback_decode m recv_buf recv_buf_len
         | _ \<Rightarrow> Some (0, m));
       Some (r, Some m) })"

section \<open>Reading a length field and a string\<close>

lemma bufchar_1: "bufchar buf (Suc 0) c p = (case rd buf p of None \<Rightarrow> None | Some x \<Rightarrow> Some (1, x, p + 1))"
  by (simp add: bufchar_def split: option.split)

lemma supplies_bufchar:
  "supplies (bufchar buf (Suc 0) c) p xs q \<longleftrightarrow>
     q = p + length xs \<and> (xs = [] \<or> rd_block buf p (length xs) = Some xs)"
proof (induction xs arbitrary: p)
  case Nil
  show ?case by simp
next
  case (Cons x xs)
  have step: "rd_block buf p (Suc n) = Some (x # ys) \<longleftrightarrow>
      rd buf p = Some x \<and> Suc p + n \<le> length buf \<and> take n (drop (Suc p) buf) = ys" for n ys
    by (auto simp: rd_block_def rd_def take_Suc drop_Suc nth_tl hd_drop_conv_nth tl_drop)
  have "supplies (bufchar buf (Suc 0) c) p (x # xs) q
      \<longleftrightarrow> rd buf p = Some x \<and> supplies (bufchar buf (Suc 0) c) (Suc p) xs q"
    by (auto simp: bufchar_1 split: option.splits)
  also have "\<dots> \<longleftrightarrow> rd buf p = Some x \<and> q = Suc p + length xs
      \<and> Suc p + length xs \<le> length buf \<and> take (length xs) (drop (Suc p) buf) = xs"
    using rd_Some_iff [of buf p x] by (auto simp: Cons.IH rd_block_def split: if_splits)
  also have "\<dots> \<longleftrightarrow> q = p + length (x # xs) \<and> rd_block buf p (length (x # xs)) = Some (x # xs)"
    using step [of "length xs" xs] by auto
  finally show ?case by simp
qed

lemma decodeBuf_rl_bytes:
  assumes "rd_block buf p (length (rl_bytes n)) = Some (rl_bytes n)" and "n < 268435456"
  shows "umqtt_pkgs_decodeBuf buf p = Some (int (length (rl_bytes n)), int n)"
proof -
  have "supplies (bufchar buf (Suc 0) 0) p (rl_bytes n) (p + length (rl_bytes n))"
    using assms(1) by (simp add: supplies_bufchar)
  moreover have "length (rl_bytes n) \<le> 4"
    using length_rl_bytes_le [of n 4] assms(2) by simp
  ultimately show ?thesis
    by (simp add: umqtt_pkgs_decodeBuf_def umqtt_pkgs_decode_def decode_loop_rl_bytes)
qed

lemma rd_block_append1: "rd_block (xs @ ys) (length xs) (length ys) = Some ys"
  by (simp add: rd_block_def)

lemma rd_block_mid: "rd_block (xs @ ys @ zs) (length xs) (length ys) = Some ys"
  by (simp add: rd_block_def)

lemma be16_read:
  assumes "rd_block buf p 2 = Some (be16 n)" and "n < 65536"
  shows "umqtt_readInt buf p = Some (int n, p + 2)"
proof -
  from assms(1) have "p + 2 \<le> length buf" "take 2 (drop p buf) = be16 n"
    by (auto simp: rd_block_def split: if_splits)
  then have b: "rd buf p = Some (be16 n ! 0)" "rd buf (p + 1) = Some (be16 n ! 1)"
    by (auto simp: rd_def be16_def numeral_2_eq_2 take_Suc_conv_app_nth)
  have "256 * int (n div 256) + int (n mod 256) = int n"
    by (simp add: zdiv_int zmod_int)
  moreover have "n div 256 < 256" using assms(2) by simp
  ultimately show ?thesis
    using b by (simp add: umqtt_readInt.simps be16_def uint_of_nat_u8)
qed

lemma rd_blockI: "b = xs @ ys @ zs \<Longrightarrow> p = length xs \<Longrightarrow> n = length ys \<Longrightarrow> rd_block b p n = Some ys"
  by (simp add: rd_block_def)

text \<open>The start of every parser, on a packet: header byte and length field.\<close>

lemma packet_header: "umqtt_readChar (packet h body @ rest) 0 = Some (h, 1)"
  by (simp add: packet_def rd_def umqtt_readChar.simps)

lemma packet_length:
  assumes "length body < 268435456"
  shows "umqtt_pkgs_decodeBuf (packet h body @ rest) (Suc 0)
    = Some (int (length (rl_bytes (length body))), int (length body))"
proof (rule decodeBuf_rl_bytes)
  show "rd_block (packet h body @ rest) (Suc 0) (length (rl_bytes (length body)))
      = Some (rl_bytes (length body))"
    by (rule rd_blockI [where xs = "[h]" and zs = "body @ rest"]) (simp_all add: packet_def)
qed (rule assms)

lemma readlenstring_ok:
  assumes "rd_block b p 2 = Some (be16 n)" and "n < 65536" and "p + 2 + n \<le> e"
  shows "umqtt_readlenstring b p e = Some (1, Some (int n), Some (p + 2), p + 2 + n)"
  using assms by (simp add: umqtt_readlenstring_def be16_read)

lemma hdr_qos_pos: "0 < hdr_qos h \<longleftrightarrow> hdr_qos h \<noteq> 0"
  by (simp add: word_neq_0_conv)

lemma MQTTDeserialize_publish_packet:
  fixes topic pl :: bytes and pid :: u16 and q :: u8
  defines "k \<equiv> 1 + length (rl_bytes (length (publish_body q pid topic pl)))"
  assumes h: "hdr_type h = type_code UMQTT_TYPE_PUBLISH" "hdr_qos h = q"
    and len: "length (publish_body q pid topic pl) < 268435456" "c_strlen topic < 65536"
  shows "MQTTDeserialize_publish m (packet h (publish_body q pid topic pl) @ rest) n
    = Some (int (k - 1), m\<lparr>m_header := h, u_head := word_of_nat (c_strlen topic),
        u_publish := (u_publish m)\<lparr>pb_topic_name := PRecv (k + 2),
          pb_packet_id := (if 0 < q then pid else pb_packet_id (u_publish m)),
          pb_payload := PRecv (k + 2 + c_strlen topic + (if 0 < q then 2 else 0)),
          pb_payload_len := word_of_nat (length pl)\<rparr>\<rparr>)"
proof -
  define body where "body = publish_body q pid topic pl"
  define b where "b = packet h body @ rest"
  have k: "Suc (length (rl_bytes (length body))) = k" by (simp add: k_def body_def)
  have lenb: "length body = 2 + c_strlen topic + (if 0 < q then 2 else 0) + length pl"
    by (simp add: publish_body_def body_def)
  have "rd_block b k 2 = Some (be16 (c_strlen topic))"
    by (rule rd_blockI [where xs = "[h] @ rl_bytes (length body)"
          and zs = "cstr topic @ (if 0 < q then be16 (unat pid) else []) @ pl @ rest"])
       (simp_all add: b_def packet_def, simp_all add: k_def publish_body_def mqtt_string_def body_def)
  then have str: "umqtt_readlenstring b k (k + length body)
      = Some (1, Some (int (c_strlen topic)), Some (k + 2), k + 2 + c_strlen topic)"
    by (rule readlenstring_ok) (use len lenb in simp_all)
  have pid: "umqtt_readInt b (k + 2 + c_strlen topic) = Some (int (unat pid), k + 2 + c_strlen topic + 2)"
    if "0 < q"
  proof (rule be16_read)
    show "rd_block b (k + 2 + c_strlen topic) 2 = Some (be16 (unat pid))"
      by (rule rd_blockI [where xs = "[h] @ rl_bytes (length body) @ mqtt_string topic"
            and zs = "pl @ rest"])
         (use that in \<open>simp_all add: b_def packet_def, simp_all add: k_def publish_body_def body_def\<close>)
  qed (rule unat_u16_less)
  have len28: "length body < 268435456" using len by (simp add: body_def)
  define r where "r = length (rl_bytes (length body))"
  have kr: "k = Suc r" using k by (simp add: r_def)
  have buf: "umqtt_pkgs_decodeBuf b (Suc 0) = Some (int r, int (length body))"
    using packet_length [OF len28, of h rest] by (simp add: b_def r_def)
  have hd: "umqtt_readChar b 0 = Some (h, 1)" by (simp add: b_def packet_header)
  have le: "2 + c_strlen topic + (if 0 < q then 2 else 0) \<le> length body"
    by (simp add: lenb)
  show ?thesis
    unfolding body_def [symmetric] b_def [symmetric] MQTTDeserialize_publish_def hd
    using h str pid buf le unfolding kr
    by (cases "0 < q") (simp_all add: Let_def, simp_all add: lenb)
qed

section \<open>What is sent is what is received\<close>

text \<open>The topic and the payload a decoded message points to, in the receive buffer.\<close>

definition received_topic :: "bytes \<Rightarrow> umqtt_msg \<Rightarrow> bytes option" where
  "received_topic buf m = (case pb_topic_name (u_publish m) of
     PRecv off \<Rightarrow> rd_block buf off (unat (u_head m)) | _ \<Rightarrow> None)"

definition received_payload :: "bytes \<Rightarrow> umqtt_msg \<Rightarrow> bytes option" where
  "received_payload buf m = (case pb_payload (u_publish m) of
     PRecv off \<Rightarrow> rd_block buf off (unat (pb_payload_len (u_publish m))) | _ \<Rightarrow> None)"

lemma fixed_header_fields [simp]:
  "hdr_type (fixed_header t dup qos) = type_code t"
  "hdr_dup (fixed_header t dup qos) = dup AND 1"
  "hdr_qos (fixed_header t dup qos) = qos AND 3"
  by (simp_all add: fixed_header_def)

lemma hdr_field_mask [simp]: "hdr_dup b AND 1 = hdr_dup b" "hdr_qos b AND 3 = hdr_qos b"
  by (simp_all add: hdr_dup_def hdr_qos_def ac_simps)

lemma umqtt_decode_type:
  assumes "hdr_type h = type_code t" and "umqtt_readChar b 0 = Some (h, 1)"
  shows "umqtt_decode b n (Some m) = do {
    (r, m) \<leftarrow> (case t of
       UMQTT_TYPE_CONNACK \<Rightarrow> umqtt_connack_decode (m\<lparr>m_header := h\<rparr>) b n
     | UMQTT_TYPE_PUBLISH \<Rightarrow> MQTTDeserialize_publish (m\<lparr>m_header := h\<rparr>) b n
     | UMQTT_TYPE_PUBACK \<Rightarrow> MQTTDeserialize_ack (m\<lparr>m_header := h\<rparr>) b n
     | UMQTT_TYPE_SUBACK \<Rightarrow> umqtt_suback_decode (m\<lparr>m_header := h\<rparr>) b n
     | UMQTT_TYPE_UNSUBACK \<Rightarrow> umqtt_unsuback_decode (m\<lparr>m_header := h\<rparr>) b n
     | _ \<Rightarrow> Some (0, m\<lparr>m_header := h\<rparr>));
    Some (r, Some m) }"
  by (cases t)
     (simp_all only: umqtt_decode_def assms type_of_code_code option.case umqtt_type.case
       umqtt_publish_decode_def umqtt_puback_decode_def bind.bind_lunit prod.case Let_def)

lemmas umqtt_decode_packet = umqtt_decode_type [OF _ packet_header]

lemma length_packet_pos: "0 < length (packet h body)"
  by (simp add: packet_def)

lemma decode_publish_packet:
  fixes topic pl :: bytes and pid :: u16 and h :: u8
  defines "body \<equiv> publish_body (hdr_qos h) pid topic pl"
  assumes h: "hdr_type h = type_code UMQTT_TYPE_PUBLISH"
    and len: "length body < 268435456" "c_strlen topic < 65536"
  shows "\<exists>r m'. umqtt_decode (packet h body @ rest) n (Some m) = Some (r, Some m') \<and> 0 \<le> r
     \<and> m_header m' = h
     \<and> received_topic (packet h body @ rest) m' = Some (cstr topic)
     \<and> received_payload (packet h body @ rest) m' = Some pl
     \<and> unat (pb_payload_len (u_publish m')) = length pl
     \<and> (0 < hdr_qos h \<longrightarrow> pb_packet_id (u_publish m') = pid)"
proof -
  let ?q = "hdr_qos h"
  let ?b = "packet h body @ rest"
  define k where "k = 1 + length (rl_bytes (length body))"
  have pl: "unat (word_of_nat (length pl) :: u32) = length pl"
    using len(1) by (simp add: unat_of_nat_u32 body_def publish_body_def)
  have topic: "unat (word_of_nat (c_strlen topic) :: u16) = c_strlen topic"
    using len(2) by (rule unat_of_nat_u16)
  have t: "rd_block ?b (k + 2) (c_strlen topic) = Some (cstr topic)"
    by (rule rd_blockI [where xs = "[h] @ rl_bytes (length body) @ be16 (c_strlen topic)"
          and zs = "(if 0 < ?q then be16 (unat pid) else []) @ pl @ rest"])
       (simp_all add: packet_def k_def, simp add: body_def publish_body_def mqtt_string_def)
  have p: "rd_block ?b (k + 2 + c_strlen topic + (if 0 < ?q then 2 else 0)) (length pl) = Some pl"
    by (rule rd_blockI [where xs = "[h] @ rl_bytes (length body) @ mqtt_string topic
          @ (if 0 < ?q then be16 (unat pid) else [])" and zs = rest])
       (simp_all add: packet_def k_def, simp add: body_def publish_body_def)
  show ?thesis
    using MQTTDeserialize_publish_packet [OF h refl len [unfolded body_def], of "m\<lparr>m_header := h\<rparr>" rest n]
      t p unfolding k_def
    by (simp add: umqtt_decode_packet [OF h] body_def [symmetric] received_topic_def
        received_payload_def pl topic)
qed

text \<open>
  C12: What one client encodes as a PUBLISH, another decodes to the same message: for every topic,
  payload, quality of service and packet id that fit the send buffer, the encoder succeeds, and
  decoding the bytes it wrote (with anything behind them in the receive buffer, and whatever the
  message structure held before) gives back the duplicate and QoS bits, the topic name, the
  payload with its length and, above QoS 0, the packet id.
\<close>

theorem publish_roundtrip:
  assumes m: "pb_topic_name (u_publish m) = PObj topic" "pb_payload (u_publish m) = PObj pl"
    and len: "unat (u_head m) = c_strlen topic" "unat (pb_payload_len (u_publish m)) = length pl"
    and fits: "umqtt_pkgs_len (MQTTSerialize_publishLength (uint (hdr_qos (m_header m))) (u_head m)
                 (u_publish m)) \<le> int n"
    and n: "n \<le> length buf" "n < 268435456" "length pl < 2000000000"
  shows "\<exists>rc b r m'. umqtt_encode UMQTT_TYPE_PUBLISH buf n (Some m) = Some (rc, b)
     \<and> 0 < rc \<and> rc \<le> int n
     \<and> umqtt_decode (take (nat rc) b @ rest) k (Some m0) = Some (r, Some m')
     \<and> hdr_type (m_header m') = type_code UMQTT_TYPE_PUBLISH
     \<and> hdr_dup (m_header m') = hdr_dup (m_header m)
     \<and> hdr_qos (m_header m') = hdr_qos (m_header m)
     \<and> received_topic (take (nat rc) b @ rest) m' = Some (cstr topic)
     \<and> received_payload (take (nat rc) b @ rest) m' = Some pl
     \<and> (0 < hdr_qos (m_header m) \<longrightarrow> pb_packet_id (u_publish m') = pb_packet_id (u_publish m))"
proof -
  let ?q = "hdr_qos (m_header m)"
  let ?h = "fixed_header UMQTT_TYPE_PUBLISH (hdr_dup (m_header m)) ?q"
  define body where "body = publish_body ?q (pb_packet_id (u_publish m)) topic pl"
  have q: "hdr_qos ?h = ?q" by simp
  have tl: "c_strlen topic < 65536" using len(1) unat_u16_less [of "u_head m"] by simp
  have bl: "MQTTSerialize_publishLength (uint ?q) (u_head m) (u_publish m) = int (length body)"
    using len n(3) tl by (simp add: publishLength_eq body_def publish_body_def word_less_def)
  then have le: "length (packet ?h body) \<le> n"
    using fits n(2) pkgs_len_bound [of "length body" n] by (simp add: packet_def)
  obtain b where b: "blit buf 0 (packet ?h body) = Some b"
    using le n(1) by (cases "blit buf 0 (packet ?h body)") (auto simp: blit_None_iff)
  then have enc: "umqtt_encode UMQTT_TYPE_PUBLISH buf n (Some m)
      = Some (int (length (packet ?h body)), b)"
    using MQTTSerialize_publish_blit [OF m _ fits] len bl
    by (simp add: umqtt_encode_def umqtt_publish_encode_def body_def packet_def Let_def)
  have "length body < 268435456" using le n(2) by (simp add: packet_def)
  then have "length (publish_body (hdr_qos ?h) (pb_packet_id (u_publish m)) topic pl) < 268435456"
    by (simp only: q body_def)
  from decode_publish_packet [OF _ this tl, of rest k m0, unfolded q, folded body_def]
  show ?thesis
    using enc blit_prefix [OF b] le length_packet_pos [of ?h body] by auto
qed

definition sample_publish :: umqtt_msg where
  "sample_publish = zero_msg\<lparr>m_header := 0x32, u_head := 2,
     u_publish := \<lparr> pb_topic_name = PObj [0x61, 0x62], pb_packet_id = 7,
       pb_payload = PObj [1, 2, 3], pb_payload_len = 3 \<rparr>\<rparr>"

theorem publish_roundtrip_witness:
  "\<exists>rc b r m'. umqtt_encode UMQTT_TYPE_PUBLISH (replicate 16 0) 16 (Some sample_publish) = Some (rc, b)
     \<and> 0 < rc \<and> rc \<le> 16
     \<and> umqtt_decode (take (nat rc) b @ [9]) 99 (Some zero_msg) = Some (r, Some m')
     \<and> hdr_qos (m_header m') = 1 \<and> received_topic (take (nat rc) b @ [9]) m' = Some [0x61, 0x62]
     \<and> received_payload (take (nat rc) b @ [9]) m' = Some [1, 2, 3]
     \<and> pb_packet_id (u_publish m') = 7"
proof -
  have s: "c_strlen [0x61, 0x62] = 2" "cstr [0x61, 0x62] = [0x61, 0x62]"
    by (simp_all add: c_strlen_def cstr_def)
  have q: "hdr_qos 0x32 = 1" by (simp add: hdr_qos_def)
  have f: "umqtt_pkgs_len (MQTTSerialize_publishLength 1 2 (u_publish sample_publish)) \<le> 16"
    by (simp add: publishLength_eq sample_publish_def umqtt_pkgs_len_def)
  show ?thesis
    using publish_roundtrip [of sample_publish "[0x61, 0x62]" "[1, 2, 3]" 16 "replicate 16 0"
        "[9]" 99 zero_msg] f
    by (auto simp: sample_publish_def s q)
qed

section \<open>Acknowledgements\<close>

lemma decode_ack_body:
  assumes "length body < 268435456" and "2 \<le> length body"
  shows "MQTTDeserialize_ack m (packet h body @ rest) n
    = Some (int (length (rl_bytes (length body))),
        m\<lparr>m_header := h, u_head := word_of_int (256 * uint (body ! 0) + uint (body ! 1))\<rparr>)"
proof -
  let ?k = "Suc (length (rl_bytes (length body)))"
  have "rd (packet h body @ rest) ?k = Some (body ! 0)"
    "rd (packet h body @ rest) (Suc ?k) = Some (body ! 1)"
    using assms(2) by (cases body, simp_all add: rd_def packet_def nth_append)
  then have "umqtt_readInt (packet h body @ rest) ?k
      = Some (256 * uint (body ! 0) + uint (body ! 1), ?k + 2)"
    by (simp add: umqtt_readInt.simps)
  then show ?thesis
    using assms by (simp add: MQTTDeserialize_ack_def packet_header packet_length Let_def)
qed

text \<open>The UNSUBACK parser reads the length field from the header byte on.\<close>

lemma unsuback_length:
  assumes "hdr_type h = type_code UMQTT_TYPE_UNSUBACK"
  shows "umqtt_pkgs_decodeBuf (h # 2 # xs) 0 = Some (2, uint (h AND 127) + 256)"
proof -
  have "bit h 7"
  proof -
    have "bit (drop_bit 4 h) 3" using assms by (simp add: hdr_type_def)
    then show ?thesis by (simp add: bit_simps)
  qed
  then have "bit (h AND 128) 7" by (simp add: bit_simps bit_u8_128)
  then have "h AND 128 \<noteq> 0" by auto
  moreover have "(2 :: u8) AND 128 = 0" by simp
  ultimately show ?thesis
    by (simp add: umqtt_pkgs_decodeBuf_def umqtt_pkgs_decode_def bufchar_1 rd_def
        umqtt_pkgs_decode_loop.simps [of _ 0] umqtt_pkgs_decode_loop.simps [of _ "Suc 0"] Let_def)
qed

lemma be16_value:
  assumes "n < 65536"
  shows "256 * ucast (be16 n ! 0) + ucast (be16 n ! Suc 0) = (word_of_nat n :: u16)"
proof -
  have "256 * int (n div 256) + int (n mod 256) = int n"
    by (simp add: zdiv_int zmod_int)
  then have "256 * uint (be16 n ! 0) + uint (be16 n ! 1) = int n"
    using assms by (simp add: be16_def uint_of_nat_u8)
  then have "word_of_int (256 * uint (be16 n ! 0) + uint (be16 n ! 1)) = (word_of_int (int n) :: u16)"
    by (simp only:)
  then show ?thesis by simp
qed

text \<open>
  Decoding the four bytes of an acknowledgement the server sends (PUBACK or UNSUBACK) stores
  its packet id in the message and succeeds. For UNSUBACK this holds although the parser forgets
  to skip the header byte: header and length are read as one two-byte length field, which ends at
  the right place.
\<close>

theorem umqtt_decode_ack:
  assumes t: "t = UMQTT_TYPE_PUBACK \<or> t = UMQTT_TYPE_UNSUBACK" and h: "hdr_type h = type_code t"
  shows "\<exists>r. umqtt_decode (packet h (be16 (unat pid)) @ rest) n (Some m)
    = Some (r, Some (m\<lparr>m_header := h, u_head := pid\<rparr>)) \<and> 0 < r"
  using t
proof
  assume "t = UMQTT_TYPE_PUBACK"
  then show ?thesis
    using h decode_ack_body [of "be16 (unat pid)" "m\<lparr>m_header := h\<rparr>" h rest n]
      unat_u16_less [of pid]
    by (simp add: umqtt_decode_packet [of h UMQTT_TYPE_PUBACK] be16_value)
next
  assume [simp]: "t = UMQTT_TYPE_UNSUBACK"
  let ?b = "packet h (be16 (unat pid)) @ rest"
  have b: "?b = h # 2 # be16 (unat pid) @ rest"
    by (simp add: packet_def rl_bytes.simps [of 2])
  have "umqtt_readInt ?b 2 = Some (int (unat pid), 2 + 2)"
  proof (rule be16_read)
    show "rd_block ?b 2 2 = Some (be16 (unat pid))"
      by (rule rd_blockI [where xs = "[h, 2]" and zs = rest]) (simp_all add: b)
  qed (rule unat_u16_less)
  moreover have "0 \<le> uint (h AND 127)" by simp
  then have "\<not> 254 + uint (h AND 127) < 0" by linarith
  ultimately show ?thesis
    using h unsuback_length [of h "be16 (unat pid) @ rest"]
    by (simp add: umqtt_decode_packet [of h UMQTT_TYPE_UNSUBACK] umqtt_unsuback_decode_def Let_def
        b [symmetric])
qed

theorem umqtt_decode_ack_witness:
  "\<exists>r. umqtt_decode (packet 0xB0 (be16 (unat (258 :: u16))) @ [0]) 5 (Some zero_msg)
    = Some (r, Some (zero_msg\<lparr>m_header := 0xB0, u_head := 258\<rparr>)) \<and> 0 < r"
  by (rule umqtt_decode_ack [of UMQTT_TYPE_UNSUBACK]) (simp_all add: hdr_type_def)

text \<open>
  The QoS 2 acknowledgements are not parsed: for PUBREC, PUBREL and PUBCOMP (and the packet
  types a client never receives) the decoder reports 0 and stores nothing but the header byte, so
  the packet id the client then answers with or compares is whatever was in the message before.
\<close>

theorem umqtt_decode_ignores_qos2_acks:
  assumes "hdr_type h = type_code t"
    and "t \<notin> {UMQTT_TYPE_CONNACK, UMQTT_TYPE_PUBLISH, UMQTT_TYPE_PUBACK, UMQTT_TYPE_SUBACK,
               UMQTT_TYPE_UNSUBACK}"
  shows "umqtt_decode (h # rest) n (Some m) = Some (0, Some (m\<lparr>m_header := h\<rparr>))"
proof -
  have hd: "umqtt_readChar (h # rest) 0 = Some (h, 1)"
    by (simp add: umqtt_readChar.simps rd_def)
  show ?thesis
    using assms(2) umqtt_decode_type [OF assms(1) hd] by (cases t) simp_all
qed

theorem umqtt_decode_ignores_qos2_acks_witness:
  "umqtt_decode [0x62, 2, 0, 5] 4 (Some zero_msg) = Some (0, Some (zero_msg\<lparr>m_header := 0x62\<rparr>))"
  by (rule umqtt_decode_ignores_qos2_acks [of _ UMQTT_TYPE_PUBREL]) (simp_all add: hdr_type_def)

section \<open>SUBACK\<close>

lemma suback_loop_codes:
  assumes "rd_block buf p (length codes) = Some codes"
    and "length (sa_ret_qos sa) = 4" and "unat (sa_topic_count sa) \<le> 4"
  shows "suback_loop buf p (p + length codes) sa
    = (if unat (sa_topic_count sa) + length codes \<le> 4
       then Some (True, sa\<lparr>sa_ret_qos := take (unat (sa_topic_count sa)) (sa_ret_qos sa) @ codes
              @ drop (unat (sa_topic_count sa) + length codes) (sa_ret_qos sa),
            sa_topic_count := sa_topic_count sa + word_of_nat (length codes)\<rparr>)
       else None)"
  using assms
proof (induction codes arbitrary: p sa)
  case Nil
  then show ?case by (simp add: suback_loop.simps [of buf p p])
next
  case (Cons c codes)
  let ?k = "unat (sa_topic_count sa)"
  have c: "rd buf p = Some c" and cs: "rd_block buf (p + 1) (length codes) = Some codes"
    using Cons.prems(1)
    by (auto simp: rd_block_def rd_def take_Suc drop_Suc nth_tl hd_drop_conv_nth tl_drop split: if_splits)
  show ?case
  proof (cases "?k < 4")
    case False
    then have k: "?k = 4" using Cons.prems by simp
    show ?thesis
      using Cons.prems k
      by (subst suback_loop.simps) (simp add: c wr_def)
  next
    case True
    define sa1 where "sa1 = sa\<lparr>sa_ret_qos := (sa_ret_qos sa)[?k := c], sa_topic_count := sa_topic_count sa + 1\<rparr>"
    have k1: "unat (sa_topic_count sa1) = Suc ?k"
      using True by (simp add: sa1_def unat_add_lem [THEN iffD1])
    have step: "suback_loop buf p (p + length (c # codes)) sa
        = suback_loop buf (p + 1) (p + 1 + length codes) sa1"
      using True Cons.prems by (subst suback_loop.simps) (simp add: c wr_def sa1_def)
    have ih: "suback_loop buf (p + 1) (p + 1 + length codes) sa1
      = (if unat (sa_topic_count sa1) + length codes \<le> 4
       then Some (True, sa1\<lparr>sa_ret_qos := take (unat (sa_topic_count sa1)) (sa_ret_qos sa1) @ codes
              @ drop (unat (sa_topic_count sa1) + length codes) (sa_ret_qos sa1),
            sa_topic_count := sa_topic_count sa1 + word_of_nat (length codes)\<rparr>)
       else None)"
      by (rule Cons.IH [OF cs]) (use True Cons.prems k1 in \<open>simp_all add: sa1_def\<close>)
    show ?thesis
      unfolding step ih k1
      using True Cons.prems
      by (simp add: sa1_def take_Suc_conv_app_nth drop_update_cancel ac_simps)
  qed
qed

lemma suback_decoded:
  assumes h: "hdr_type h = type_code UMQTT_TYPE_SUBACK" and n: "length codes < 268435454"
    and m: "length (sa_ret_qos (u_suback m)) = 4"
  shows "umqtt_decode (packet h (be16 (unat pid) @ codes) @ rest) k (Some m)
    = (if length codes \<le> 4
       then Some (int (length (rl_bytes (2 + length codes))),
          Some (m\<lparr>m_header := h, u_head := pid,
            u_suback := \<lparr> sa_ret_qos = codes @ drop (length codes) (sa_ret_qos (u_suback m)),
                          sa_topic_count = word_of_nat (length codes) \<rparr>\<rparr>))
       else None)"
proof -
  define b where "b = packet h (be16 (unat pid) @ codes) @ rest"
  define r where "r = length (rl_bytes (2 + length codes))"
  have hd: "umqtt_readChar b 0 = Some (h, 1)" by (simp add: b_def packet_header)
  have len: "umqtt_pkgs_decodeBuf b (Suc 0) = Some (int r, int (length codes) + 2)"
    using packet_length [of "be16 (unat pid) @ codes" h rest] n by (simp add: b_def r_def)
  have "rd_block b (Suc r) 2 = Some (be16 (unat pid))"
    by (rule rd_blockI [where xs = "[h] @ rl_bytes (2 + length codes)" and zs = "codes @ rest"])
       (simp_all add: b_def r_def packet_def)
  then have pid: "umqtt_readInt b (Suc r) = Some (int (unat pid), Suc r + 2)"
    by (rule be16_read) (rule unat_u16_less)
  have "rd_block b (Suc r + 2) (length codes) = Some codes"
    by (rule rd_blockI [where xs = "[h] @ rl_bytes (2 + length codes) @ be16 (unat pid)" and zs = rest])
       (simp_all add: b_def r_def packet_def)
  from suback_loop_codes [OF this, of "(u_suback m)\<lparr>sa_topic_count := 0\<rparr>"] m
  have loop: "suback_loop b (Suc r + 2) (Suc r + 2 + length codes) ((u_suback m)\<lparr>sa_topic_count := 0\<rparr>)
    = (if length codes \<le> 4
       then Some (True, \<lparr> sa_ret_qos = codes @ drop (length codes) (sa_ret_qos (u_suback m)),
                          sa_topic_count = word_of_nat (length codes) \<rparr>)
       else None)"
    by simp
  have e: "Suc (r + nat (int (length codes) + 2)) = Suc r + 2 + length codes" by simp
  show ?thesis
    using h pid loop len unfolding b_def [symmetric] r_def [symmetric] umqtt_decode_type [OF h hd]
    by (simp add: hd umqtt_suback_decode_def Let_def e)
qed

text \<open>
  A SUBACK with up to four return codes is decoded to its packet id and exactly these codes;
  with a fifth code the parser stores behind the four-element array (the test that should stop it
  uses \<open>>\<close> for \<open>\<ge>\<close>), whatever the rest of the packet is.
\<close>

theorem umqtt_suback_decode_codes:
  assumes h: "hdr_type h = type_code UMQTT_TYPE_SUBACK" and n: "length codes < 268435454"
    and m: "length (sa_ret_qos (u_suback m)) = 4"
  shows "umqtt_decode (packet h (be16 (unat pid) @ codes) @ rest) k (Some m)
    = (if length codes \<le> 4
       then Some (int (length (rl_bytes (2 + length codes))),
          Some (m\<lparr>m_header := h, u_head := pid,
            u_suback := \<lparr> sa_ret_qos = codes @ drop (length codes) (sa_ret_qos (u_suback m)),
                          sa_topic_count = word_of_nat (length codes) \<rparr>\<rparr>))
       else None)"
  using assms by (rule suback_decoded)

theorem umqtt_suback_decode_codes_witness:
  "umqtt_decode (packet 0x90 (be16 (unat (9 :: u16)) @ [0, 1, 2, 0, 0x80]) @ []) 9 (Some zero_msg) = None"
  by (subst umqtt_suback_decode_codes) (simp_all add: hdr_type_def zero_msg_def)

section \<open>The decoder reads inside the receive buffer\<close>

lemma readInt_total: "p + 2 \<le> length b \<Longrightarrow> \<exists>v. umqtt_readInt b p = Some (v, p + 2)"
  by (simp add: umqtt_readInt.simps rd_def)

lemma readInt_nonneg: "umqtt_readInt b p = Some (v, q) \<Longrightarrow> 0 \<le> v"
  by (auto simp: umqtt_readInt.simps bind_eq_Some_conv)

lemma readChar_total: "p < length b \<Longrightarrow> \<exists>v. umqtt_readChar b p = Some (v, Suc p)"
  by (simp add: umqtt_readChar.simps rd_def)

lemma connack_total:
  assumes "length body < 268435456"
  shows "umqtt_connack_decode m (packet h body @ rest) n \<noteq> None"
proof -
  let ?b = "packet h body @ rest"
  let ?k = "Suc (length (rl_bytes (length body)))"
  have "\<exists>v. umqtt_readChar ?b ?k = Some (v, Suc ?k)" "\<exists>v. umqtt_readChar ?b (Suc ?k) = Some (v, Suc (Suc ?k))"
    if "2 \<le> length body"
    using that by (auto intro!: readChar_total simp: packet_def)
  then show ?thesis
    by (auto simp: umqtt_connack_decode_def packet_header packet_length [OF assms] Let_def)
qed

lemma ack_total:
  assumes "length body < 268435456"
  shows "MQTTDeserialize_ack m (packet h body @ rest) n \<noteq> None"
  by (cases "2 \<le> length body")
     (simp_all add: assms decode_ack_body, simp add: MQTTDeserialize_ack_def packet_header packet_length assms)

text \<open>
  The two bytes of the packet id are fetched behind the topic name without a look at the length: the
  buffer must have them when the packet has not.
\<close>

definition topic_length :: "bytes \<Rightarrow> nat" where
  "topic_length body = 256 * unat (body ! 0) + unat (body ! 1)"

definition no_room_for_id :: "bytes \<Rightarrow> bytes \<Rightarrow> bool" where
  "no_room_for_id body rest \<longleftrightarrow> 2 \<le> length body \<and> 2 + topic_length body \<le> length body
     \<and> length body + length rest < 2 + topic_length body + 2"

lemma readInt_None: "umqtt_readInt b p = None \<longleftrightarrow> length b < p + 2"
  by (auto simp: umqtt_readInt.simps rd_def bind_eq_None_conv)

lemma publish_faults:
  assumes len: "length body < 268435456"
  shows "MQTTDeserialize_publish m (packet h body @ rest) n = None
    \<longleftrightarrow> hdr_type h = type_code UMQTT_TYPE_PUBLISH \<and> 0 < hdr_qos h \<and> no_room_for_id body rest"
proof -
  define b where "b = packet h body @ rest"
  define r where "r = length (rl_bytes (length body))"
  let ?tl = "topic_length body" and ?e = "Suc (r + length body)"
  have hd: "umqtt_readChar b 0 = Some (h, 1)" by (simp add: b_def packet_header)
  have dl: "umqtt_pkgs_decodeBuf b (Suc 0) = Some (int r, int (length body))"
    using len by (simp add: b_def r_def packet_length)
  have lb: "length b = ?e + length rest" by (simp add: b_def r_def packet_def)
  have at: "b ! (Suc r + k) = body ! k" if "k < length body" for k
    using that by (simp add: b_def r_def packet_def nth_append)
  have str: "umqtt_readlenstring b (Suc r) ?e = (if length body < 2 then Some (0, None, None, Suc r)
      else if 2 + ?tl \<le> length body then Some (1, Some (int ?tl), Some (Suc r + 2), Suc r + 2 + ?tl)
      else Some (0, Some (int ?tl), None, Suc r + 2))"
  proof (cases "length body < 2")
    case False
    then have ne: "0 < length body" "1 < length body" by linarith+
    have "rd b (Suc r) = Some (body ! 0)" "rd b (Suc r + 1) = Some (body ! 1)"
      using at [OF ne(1)] at [OF ne(2)] ne lb by (simp_all add: rd_def)
    then have "umqtt_readInt b (Suc r) = Some (int ?tl, Suc r + 2)"
      by (simp add: umqtt_readInt.simps topic_length_def)
    with False show ?thesis by (simp add: umqtt_readlenstring_def)
  qed (simp add: umqtt_readlenstring_def)
  have id: "umqtt_readInt b (Suc r + 2 + ?tl) = None \<longleftrightarrow> length body + length rest < 2 + ?tl + 2"
    unfolding readInt_None lb by linarith
  show ?thesis
    unfolding b_def [symmetric]
    using id by (auto simp: MQTTDeserialize_publish_def hd dl str no_room_for_id_def Let_def bind_eq_None_conv)
qed

lemma suback_faults:
  assumes h: "hdr_type h = type_code UMQTT_TYPE_SUBACK"
    and len: "length body < 268435456" and m: "length (sa_ret_qos (u_suback m)) = 4"
  shows "umqtt_decode (packet h body @ rest) n (Some m) = None \<longleftrightarrow> 6 < length body"
proof (cases "2 \<le> length body")
  case True
  define pid :: u16 where "pid = word_of_nat (256 * unat (body ! 0) + unat (body ! 1))"
  have "body = be16 (unat pid) @ drop 2 body"
  proof -
    obtain x y ys where body: "body = x # y # ys"
      using True by (cases body; cases "tl body") auto
    have "256 * unat x + unat y < 65536" using unat_u8_less [of x] unat_u8_less [of y] by simp
    then have "unat pid = 256 * unat x + unat y"
      by (simp only: pid_def body nth_Cons_0 nth_Cons_Suc One_nat_def unat_of_nat_u16)
    then show ?thesis using unat_u8_less [of y] by (simp add: be16_def body)
  qed
  moreover have "length (drop 2 body) < 268435454" using len True by simp
  from suback_decoded [OF h this m, of pid rest n]
  have "umqtt_decode (packet h (be16 (unat pid) @ drop 2 body) @ rest) n (Some m) = None \<longleftrightarrow> 4 < length (drop 2 body)"
    by (auto split: if_splits)
  ultimately have "umqtt_decode (packet h body @ rest) n (Some m) = None \<longleftrightarrow> 4 < length (drop 2 body)" by metis
  with True show ?thesis by auto
next
  case False
  have "umqtt_pkgs_decodeBuf (packet h body @ rest) (Suc 0)
      = Some (int (length (rl_bytes (length body))), int (length body))"
    using False by (intro packet_length) simp
  then show ?thesis
    using False by (simp add: umqtt_decode_packet [OF h] umqtt_suback_decode_def packet_header Let_def)
qed

lemma decode_loop_total:
  assumes "int p + (4 - len) \<le> int (length b)" and "0 \<le> len" and "len \<le> 4"
  shows "\<exists>k v' q. umqtt_pkgs_decode_loop (bufchar b (Suc 0) 0) p len m v = Some (k, v', q)
    \<and> 0 \<le> k \<and> k \<le> 5"
  using assms
proof (induction "nat (4 - len)" arbitrary: p len m v)
  case 0
  then show ?case by (subst umqtt_pkgs_decode_loop.simps) (simp add: Let_def)
next
  case (Suc k)
  have p: "p < length b" using Suc by linarith
  have "\<exists>k v' q. umqtt_pkgs_decode_loop (bufchar b (Suc 0) 0) (p + 1) (len + 1) m' w = Some (k, v', q)
    \<and> 0 \<le> k \<and> k \<le> 5" for m' w
    by (rule Suc.hyps(1)) (use Suc in linarith)+
  then show ?case
    using p Suc
    by (subst umqtt_pkgs_decode_loop.simps) (simp add: Let_def bufchar_1 rd_def)
qed

lemma unsuback_total:
  assumes "7 \<le> length b"
  shows "umqtt_unsuback_decode m b n \<noteq> None"
proof -
  obtain k v q where d: "umqtt_pkgs_decodeBuf b 0 = Some (k, v)" and k: "0 \<le> k" "k \<le> 5"
    using decode_loop_total [of 0 0 b 1 0] assms
    by (auto simp: umqtt_pkgs_decodeBuf_def umqtt_pkgs_decode_def)
  have "nat k + 2 \<le> length b" using assms k by linarith
  then obtain w where "umqtt_readInt b (nat k) = Some (w, nat k + 2)"
    using readInt_total by blast
  then show ?thesis by (simp add: umqtt_unsuback_decode_def d Let_def)
qed

text \<open>
  C16: which packets make the decoder read outside the receive buffer or store outside the message.
  For any header byte and any body, well formed or not, it comes back, with two exceptions and no
  other: a SUBACK with more than four return codes, and a PUBLISH above QoS 0 whose topic name leaves
  no room for the packet id, neither in the packet nor in the buffer behind it. (For an UNSUBACK, whose
  parser takes the header byte for the length, the buffer has at least seven bytes.)
\<close>

theorem umqtt_decode_in_bounds:
  assumes "length body < 268435456" and "length (sa_ret_qos (u_suback m)) = 4"
    and "hdr_type h = type_code UMQTT_TYPE_UNSUBACK \<longrightarrow> 7 \<le> length (packet h body @ rest)"
  shows "umqtt_decode (packet h body @ rest) n (Some m) = None
    \<longleftrightarrow> hdr_type h = type_code UMQTT_TYPE_SUBACK \<and> 6 < length body
      \<or> hdr_type h = type_code UMQTT_TYPE_PUBLISH \<and> 0 < hdr_qos h \<and> no_room_for_id body rest"
proof (cases "type_of_code (hdr_type h)")
  case None
  then have "hdr_type h \<noteq> type_code t" for t using type_of_code_code [of t] by auto
  from this [of UMQTT_TYPE_SUBACK] this [of UMQTT_TYPE_PUBLISH] None show ?thesis
    by (simp add: umqtt_decode_def packet_header)
next
  case (Some t)
  then have h: "hdr_type h = type_code t"
    by (auto simp: type_of_code_def find_Some_iff)
  show ?thesis
  proof (cases "t = UMQTT_TYPE_SUBACK")
    case True
    with h show ?thesis using suback_faults [OF _ assms(1,2), of h rest n] by simp
  next
    case False
    then show ?thesis
      using connack_total [OF assms(1), of "m\<lparr>m_header := h\<rparr>" h rest n]
        publish_faults [OF assms(1), of "m\<lparr>m_header := h\<rparr>" h rest n]
        ack_total [OF assms(1), of "m\<lparr>m_header := h\<rparr>" h rest n]
        unsuback_total [of "packet h body @ rest" "m\<lparr>m_header := h\<rparr>" n] assms(3) h
      by (cases t) (auto simp: umqtt_decode_packet [OF h])
  qed
qed

theorem umqtt_decode_in_bounds_witness:
  "umqtt_decode (packet 0x32 [0, 3, 0x61, 0x62] @ []) 6 (Some zero_msg) \<noteq> None
    \<and> umqtt_decode (packet 0x32 [0, 2, 0x61, 0x62] @ [9]) 6 (Some zero_msg) = None"
proof -
  have "umqtt_decode (packet 0x32 [0, b, 0x61, 0x62] @ rest) 6 (Some zero_msg) = None
      \<longleftrightarrow> no_room_for_id [0, b, 0x61, 0x62] rest" for b rest
    by (subst umqtt_decode_in_bounds) (simp_all add: zero_msg_def hdr_type_def hdr_qos_def)
  from this [of 3 "[]"] this [of 2 "[9]"] show ?thesis by (simp add: no_room_for_id_def topic_length_def)
qed

text \<open>
  A PUBLISH above QoS 0 whose body ends with the topic name is accepted: its packet id is the
  two bytes behind the packet, and the payload length becomes \<open>2 ^ 32 - 2\<close>, which the client
  hands to the application's callback.
\<close>

theorem publish_without_packet_id:
  assumes h: "hdr_type h = type_code UMQTT_TYPE_PUBLISH" "0 < hdr_qos h"
    and t: "c_strlen topic < 65536" and rest: "2 \<le> length rest"
  shows "\<exists>r m'. umqtt_decode (packet h (mqtt_string topic) @ rest) n (Some m) = Some (r, Some m')
    \<and> pb_payload_len (u_publish m') = 4294967294
    \<and> uint (pb_packet_id (u_publish m')) = 256 * uint (rest ! 0) + uint (rest ! 1)"
proof -
  define body where "body = mqtt_string topic"
  define b where "b = packet h body @ rest"
  define r where "r = length (rl_bytes (length body))"
  have lb: "length body = c_strlen topic + 2" by (simp add: body_def)
  have hd: "umqtt_readChar b 0 = Some (h, 1)" by (simp add: b_def packet_header)
  have dl: "umqtt_pkgs_decodeBuf b (Suc 0) = Some (int r, int (c_strlen topic) + 2)"
    using t packet_length [of body h rest] by (simp add: b_def r_def lb)
  have "rd_block b (Suc r) 2 = Some (be16 (c_strlen topic))"
    by (rule rd_blockI [where xs = "[h] @ rl_bytes (length body)" and zs = "cstr topic @ rest"])
       (simp_all add: b_def r_def packet_def, simp add: body_def mqtt_string_def)
  then have str: "umqtt_readlenstring b (Suc r) (Suc r + (c_strlen topic + 2))
      = Some (1, Some (int (c_strlen topic)), Some (Suc r + 2), Suc r + 2 + c_strlen topic)"
    by (rule readlenstring_ok) (use t in simp_all)
  obtain x y zs where xy: "rest = x # y # zs"
    using rest by (metis Suc_le_length_iff numeral_2_eq_2)
  have "b = (packet h body) @ x # y # zs" "length (packet h body) = Suc r + 2 + c_strlen topic"
    by (simp_all add: b_def packet_def r_def lb xy)
  then have byte: "rd b (Suc r + 2 + c_strlen topic) = Some x"
    "rd b (Suc r + 2 + c_strlen topic + 1) = Some y"
    by (simp_all add: rd_def nth_append)
  define v where "v = 256 * uint x + uint y"
  have id: "umqtt_readInt b (Suc r + 2 + c_strlen topic) = Some (v, Suc r + 2 + c_strlen topic + 2)"
    unfolding umqtt_readInt.simps byte v_def by simp
  have e: "Suc (r + nat (int (c_strlen topic) + 2)) = Suc r + (c_strlen topic + 2)" by simp
  have "uint x < 256" "uint y < 256" "0 \<le> uint x" "0 \<le> uint y"
    by (simp_all add: uint_u8_less)
  then have "0 \<le> v" "v < 65536" unfolding v_def by linarith+
  then have w: "uint (word_of_int v :: u16) = v"
    by (intro word_of_int_inverse [OF refl]) simp_all
  have rv: "256 * uint (rest ! 0) + uint (rest ! 1) = v" by (simp add: xy v_def)
  show ?thesis
    unfolding body_def [symmetric] b_def [symmetric] umqtt_decode_type [OF h(1) hd] rv
    using h str id by (simp add: MQTTDeserialize_publish_def hd dl Let_def e w)
qed

theorem publish_without_packet_id_witness:
  "\<exists>r m'. umqtt_decode (packet 0x32 (mqtt_string [0x61]) @ [1, 2]) 7 (Some zero_msg) = Some (r, Some m')
    \<and> pb_payload_len (u_publish m') = 4294967294 \<and> uint (pb_packet_id (u_publish m')) = 258"
  using publish_without_packet_id [where h = "0x32" and topic = "[0x61]" and rest = "[1, 2]"]
  by (simp add: hdr_type_def hdr_qos_def c_strlen_def cstr_def)

end
