(* ===== verification/Mqtt_Topic.thy ===== *)
theory Mqtt_Topic
  imports Mqtt_Types
begin

text \<open>
  Topic matching: \<open>topicname_is_matched\<close> of \<open>umqtt.c\<close>, against matching level by level as the
  MQTT standard defines it. The filter is a C string, the topic name the \<open>len\<close> bytes the packet
  carries (not terminated). The two walking pointers are the unread rests of the two strings.
\<close>

abbreviation (input) slash :: u8 where "slash \<equiv> 0x2F"
abbreviation (input) plus_sign :: u8 where "plus_sign \<equiv> 0x2B"
abbreviation (input) hash_sign :: u8 where "hash_sign \<equiv> 0x23"

section \<open>The code\<close>

text \<open>One turn of the loop per call; the inner loop of \<open>+\<close> skips to the end of the level.\<close>

fun topic_loop :: "bytes \<Rightarrow> bytes \<Rightarrow> bool" where
  "topic_loop [] n = (n = [])"
| "topic_loop (f # fs) [] = (f = 0)"
| "topic_loop (f # fs) (c # cs) =
     (if f = 0 then False
      else if c = slash \<and> f \<noteq> slash then False
      else if f \<noteq> plus_sign \<and> f \<noteq> hash_sign \<and> f \<noteq> c then False
      else if f = plus_sign then topic_loop fs (dropWhile (\<lambda>x. x \<noteq> slash) cs)
      else if f = hash_sign then topic_loop fs []
      else topic_loop fs cs)"

definition topicname_is_matched :: "bytes option \<Rightarrow> bytes option \<Rightarrow> bool option" where
  "topicname_is_matched cur_f cur_n =
     (case (cur_f, cur_n) of (Some f, Some n) \<Rightarrow> Some (topic_loop f n) | _ \<Rightarrow> None)"

section \<open>Levels\<close>

text \<open>A topic is a non-empty list of levels, joined by slashes.\<close>

fun levels :: "bytes \<Rightarrow> bytes list" where
  "levels [] = [[]]"
| "levels (c # cs) = (if c = slash then [] # levels cs
     else (case levels cs of [] \<Rightarrow> [[c]] | l # ls \<Rightarrow> (c # l) # ls))"

fun join :: "bytes list \<Rightarrow> bytes" where
  "join [] = []"
| "join [l] = l"
| "join (l # ls) = l @ slash # join ls"

lemma levels_neq_Nil [simp]: "levels t \<noteq> []"
  by (cases t) (simp_all split: list.split)

lemma join_Cons: "join (l # ls) = (if ls = [] then l else l @ slash # join ls)"
  by (cases ls) simp_all

lemma join_levels: "join (levels t) = t"
  by (induction t) (auto simp: join_Cons split: list.split)

lemma slash_notin_levels: "l \<in> set (levels t) \<Longrightarrow> slash \<notin> set l"
proof (induction t arbitrary: l)
  case (Cons c t)
  then show ?case by (cases "levels t") (auto split: if_splits)
qed simp

text \<open>Filters the standard allows: a wildcard fills its level, \<open>#\<close> is the last one; no NUL.\<close>

fun wf_filter :: "bytes list \<Rightarrow> bool" where
  "wf_filter [] \<longleftrightarrow> True"
| "wf_filter (f # fs) \<longleftrightarrow>
     (f = [plus_sign] \<or> f = [hash_sign] \<and> fs = []
      \<or> plus_sign \<notin> set f \<and> hash_sign \<notin> set f \<and> 0 \<notin> set f) \<and> wf_filter fs"

text \<open>Matching as section 4.7 of MQTT 3.1.1 has it; \<open>#\<close> includes the parent level.\<close>

fun mqtt_match :: "bytes list \<Rightarrow> bytes list \<Rightarrow> bool" where
  "mqtt_match [] ls = (ls = [])"
| "mqtt_match (f # fs) ls =
     (if f = [hash_sign] \<and> fs = [] then True
      else case ls of [] \<Rightarrow> False
        | l # ls' \<Rightarrow> (f = [plus_sign] \<or> f = l) \<and> mqtt_match fs ls')"

text \<open>What the code does: a wildcard needs a non-empty level to match.\<close>

fun code_match :: "bytes list \<Rightarrow> bytes list \<Rightarrow> bool" where
  "code_match [] ls = (ls = [])"
| "code_match (f # fs) [] = False"
| "code_match (f # fs) (l # ls) =
     (if f = [hash_sign] then l \<noteq> []
      else if f = [plus_sign] then l \<noteq> [] \<and> code_match fs ls
      else f = l \<and> code_match fs ls)"

section \<open>The code matches level by level\<close>

definition at_level_end :: "bytes \<Rightarrow> bool" where
  "at_level_end t \<longleftrightarrow> t = [] \<or> hd t = slash"

lemma dropWhile_level:
  "slash \<notin> set l \<Longrightarrow> at_level_end N \<Longrightarrow> dropWhile (\<lambda>x. x \<noteq> slash) (l @ N) = N"
  by (induction l) (auto simp: at_level_end_def dropWhile_eq_self_iff)

lemma loop_plus:
  assumes "slash \<notin> set l" and "at_level_end N"
  shows "topic_loop (plus_sign # F) (l @ N) \<longleftrightarrow> l \<noteq> [] \<and> topic_loop F N"
proof (cases l)
  case Nil
  with assms show ?thesis by (cases N) (auto simp: at_level_end_def)
next
  case (Cons c cs)
  with assms show ?thesis by (auto simp: dropWhile_level)
qed

lemma loop_hash:
  assumes "slash \<notin> set l" and "at_level_end N"
  shows "topic_loop [hash_sign] (l @ N) \<longleftrightarrow> l \<noteq> []"
  using assms by (cases l; cases N) (auto simp: at_level_end_def)

lemma loop_literal:
  assumes "slash \<notin> set f" "plus_sign \<notin> set f" "hash_sign \<notin> set f" "0 \<notin> set f"
    and "slash \<notin> set l" and "at_level_end F" and "at_level_end N"
  shows "topic_loop (f @ F) (l @ N) \<longleftrightarrow> f = l \<and> topic_loop F N"
  using assms
proof (induction f arbitrary: l)
  case Nil
  then show ?case
    by (cases l; cases F) (auto simp: at_level_end_def)
next
  case (Cons a f)
  then show ?case
    by (cases l; cases N) (auto simp: at_level_end_def)
qed

lemma loop_slash:
  "topic_loop (slash # F) (slash # N) = topic_loop F N"
  "topic_loop [] (slash # N) = False" "topic_loop (slash # F) [] = False"
  by simp_all

lemma at_level_end_simps [simp]: "at_level_end []" "at_level_end (slash # t)"
  by (simp_all add: at_level_end_def)

lemma topic_loop_levels:
  assumes "wf_filter fs" and "fs \<noteq> []" and "ls \<noteq> []"
    and "\<forall>f\<in>set fs. slash \<notin> set f" and "\<forall>l\<in>set ls. slash \<notin> set l"
  shows "topic_loop (join fs) (join ls) \<longleftrightarrow> code_match fs ls"
  using assms
proof (induction fs arbitrary: ls)
  case (Cons f fs)
  then obtain l ls' where ls: "ls = l # ls'" by (cases ls) auto
  define F where "F = (if fs = [] then [] else slash # join fs)"
  define N where "N = (if ls' = [] then [] else slash # join ls')"
  have split: "join (f # fs) = f @ F" "join ls = l @ N"
    by (simp_all add: F_def N_def ls join_Cons)
  have ends: "at_level_end F" "at_level_end N" by (simp_all add: F_def N_def)
  have l: "slash \<notin> set l" and f: "slash \<notin> set f" using Cons.prems ls by auto
  have rest: "topic_loop F N \<longleftrightarrow> code_match fs ls'"
  proof (cases "fs = [] \<or> ls' = []")
    case True
    then show ?thesis by (cases fs; cases ls') (auto simp: F_def N_def)
  next
    case False
    then show ?thesis using Cons ls by (auto simp: F_def N_def loop_slash)
  qed
  from Cons.prems consider "f = [plus_sign]" | "f = [hash_sign]" "fs = []"
    | "plus_sign \<notin> set f" "hash_sign \<notin> set f" "0 \<notin> set f" by auto
  then show ?case
  proof cases
    case 1
    then show ?thesis unfolding split using loop_plus [OF l ends(2), of F] by (simp add: rest ls)
  next
    case 2
    then show ?thesis unfolding split using loop_hash [OF l ends(2)] by (simp add: ls F_def)
  next
    case 3
    then have "f \<noteq> [plus_sign]" "f \<noteq> [hash_sign]" by auto
    then show ?thesis
      unfolding split loop_literal [OF f 3 l ends] by (simp add: rest ls)
  qed
qed simp

lemma code_match_mqtt: "code_match fs ls \<Longrightarrow> wf_filter fs \<Longrightarrow> mqtt_match fs ls"
  by (induction fs ls rule: code_match.induct) (auto split: if_splits)

lemma mqtt_match_code:
  "mqtt_match fs ls \<Longrightarrow> \<forall>l\<in>set ls. l \<noteq> [] \<Longrightarrow> wf_filter fs \<Longrightarrow> length fs \<le> length ls \<Longrightarrow> code_match fs ls"
  by (induction fs ls rule: code_match.induct) (auto split: if_splits)

lemma matched_levels:
  assumes "wf_filter (levels f)"
  shows "topic_loop f n \<longleftrightarrow> code_match (levels f) (levels n)"
  using topic_loop_levels [of "levels f" "levels n"] assms slash_notin_levels
  by (auto simp: join_levels)

text \<open>
  C31: topic matching is sound: a message is handed to a subscription with a well-formed filter
  only if the topic matches the filter as the standard defines it, level by level.
\<close>

theorem topic_match_sound:
  assumes "wf_filter (levels f)" and "topicname_is_matched (Some f) (Some n) = Some True"
  shows "mqtt_match (levels f) (levels n)"
  using assms by (intro code_match_mqtt) (auto simp: topicname_is_matched_def matched_levels)

theorem topic_match_sound_witness:
  "mqtt_match (levels [0x61, 0x2F, 0x2B]) (levels [0x61, 0x2F, 0x62, 0x63])"
  by (rule topic_match_sound) (simp_all add: topicname_is_matched_def)

text \<open>
  C32: topic matching is complete up to two cases: a topic without empty levels is matched exactly
  when the standard says so, except that a filter ending in \<open>#\<close> does not match the parent level
  itself (\<open>a/#\<close> against \<open>a\<close>, which has one level less than the filter).
\<close>

theorem topic_match_complete:
  assumes "wf_filter (levels f)" and "\<forall>l\<in>set (levels n). l \<noteq> []"
  shows "topicname_is_matched (Some f) (Some n)
    = Some (mqtt_match (levels f) (levels n) \<and> length (levels f) \<le> length (levels n))"
proof -
  have "code_match fs ls \<Longrightarrow> length fs \<le> length ls" if "wf_filter fs" for fs ls
    using that by (induction fs ls rule: code_match.induct) (auto split: if_splits)
  then show ?thesis
    using assms mqtt_match_code [of "levels f" "levels n"] code_match_mqtt [of "levels f" "levels n"]
    by (auto simp: topicname_is_matched_def matched_levels)
qed

theorem topic_match_complete_witness:
  "topicname_is_matched (Some [0x61, 0x2F, 0x23]) (Some [0x61]) = Some False
   \<and> mqtt_match (levels [0x61, 0x2F, 0x23]) (levels [0x61])"
  using topic_match_complete [of "[0x61, 0x2F, 0x23]" "[0x61]"] by simp

end
