(* ===== verification/Mqtt_Transport.thy ===== *)
theory Mqtt_Transport
  imports Mqtt_Types
begin

text \<open>
  The transport of the MQTT client, \<open>umqtt_transport.c\<close>, and what lies below it.

  The socket layer, the heap, the clock and the other threads are outside the code: a
  \<open>platform\<close> is any collection of functions on a world \<open>'w\<close> that answers the calls. The
  documented behaviour a property relies on is a named predicate on the platform
  (\<open>send_contract\<close>, \<open>recv_contract\<close>, ...).
\<close>

section \<open>The platform\<close>

datatype recv_result = Recv_Data bytes | Recv_Error int
datatype send_result = Send_Count nat | Send_Error int

text \<open>Activities that may run while the caller of a client operation is blocked.\<close>

datatype activity = Reader_Turn | Timer_Tick

record 'w platform =
  p_getaddrinfo :: "bytes \<Rightarrow> bytes \<Rightarrow> 'w \<Rightarrow> (int \<times> nat option) \<times> 'w"
  p_socket :: "nat \<Rightarrow> 'w \<Rightarrow> int \<times> 'w"
  p_connect :: "int \<Rightarrow> nat \<Rightarrow> 'w \<Rightarrow> int \<times> 'w"
  p_closesocket :: "int \<Rightarrow> 'w \<Rightarrow> (int \<times> int) \<times> 'w"
  p_send :: "int \<Rightarrow> bytes \<Rightarrow> 'w \<Rightarrow> send_result \<times> 'w"
  p_recv :: "int \<Rightarrow> nat \<Rightarrow> 'w \<Rightarrow> recv_result \<times> 'w"
  p_malloc :: "nat \<Rightarrow> 'w \<Rightarrow> bool \<times> 'w"
  p_tick :: "'w \<Rightarrow> u32 \<times> 'w"
  p_delay :: "nat \<Rightarrow> 'w \<Rightarrow> 'w"
  p_object_create :: "'w \<Rightarrow> bool \<times> 'w"
  p_timer_start :: "'w \<Rightarrow> bool \<times> 'w"
  p_callback :: "nat \<Rightarrow> u16 \<Rightarrow> umqtt_pkgs_publish \<Rightarrow> bytes \<Rightarrow> 'w \<Rightarrow> (bytes \<times> 'w) option"
  p_user_handler :: "nat \<Rightarrow> umqtt_evt \<Rightarrow> 'w \<Rightarrow> 'w"
  p_while_blocked :: "nat \<Rightarrow> 'w \<Rightarrow> activity list \<times> 'w"

section \<open>Resolving the broker address\<close>

text \<open>Offset of the first occurrence of a character, as \<open>strstr\<close> finds it.\<close>

definition c_index :: "u8 \<Rightarrow> bytes \<Rightarrow> nat option" where
  "c_index c s = (if c \<in> set s then Some (length (takeWhile (\<lambda>x. x \<noteq> c) s)) else None)"

definition uri_scheme :: "string \<Rightarrow> bytes" where
  "uri_scheme s = map of_char s"

text \<open>
  The parsing part of \<open>umqtt_resolve_uri\<close>: host and port text, \<open>None\<close> for every
  \<open>rc = UMQTT_INPARAMS_NULL\<close>. \<open>port_str\<close> has six bytes.
\<close>

definition port_of :: "bytes \<Rightarrow> int \<Rightarrow> bytes option" where
  "port_of p port_len = (if port_len \<ge> 6 \<or> port_len < 1 then None else Some (take (nat port_len) p))"

definition parse_uri :: "bytes \<Rightarrow> (bytes \<times> bytes) option" where
  "parse_uri uri =
     (let uri_len = int (length uri) in
      if take 6 uri = uri_scheme ''tcp://'' \<or> take 6 uri = uri_scheme ''ssl://''
      then (let host_addr = drop 6 uri in
        if take 1 host_addr = [0x5B]
        then (let host_addr = drop 1 host_addr in
          case c_index 0x5D host_addr of None \<Rightarrow> None
          | Some host_addr_len \<Rightarrow>
              if host_addr_len < 1 \<or> int host_addr_len > uri_len then None
              else map_option (\<lambda>port. (take host_addr_len host_addr, port))
                (port_of (drop (host_addr_len + 2) host_addr) (uri_len - 6 - int host_addr_len - 3)))
        else (case c_index 0x3A host_addr of None \<Rightarrow> None
          | Some host_addr_len \<Rightarrow>
              if host_addr_len < 1 \<or> int host_addr_len > uri_len then None
              else map_option (\<lambda>port. (take host_addr_len host_addr, port))
                (port_of (drop (host_addr_len + 1) host_addr) (uri_len - 6 - int host_addr_len - 1))))
      else None)"

definition umqtt_resolve_uri ::
    "'w platform \<Rightarrow> bytes \<Rightarrow> 'w \<Rightarrow> int \<times> nat option \<times> 'w" where
  "umqtt_resolve_uri pf umqtt_uri w =
     (case parse_uri (cstr umqtt_uri) of
        None \<Rightarrow> (UMQTT_INPARAMS_NULL, None, w)
      | Some (host, port) \<Rightarrow>
          (case p_malloc pf (length host + 1) w of (ok, w) \<Rightarrow>
             if \<not> ok then (UMQTT_MEM_FULL, None, w)
             else (case p_getaddrinfo pf host port w of ((ret, res), w) \<Rightarrow>
               if ret \<noteq> 0 then (UMQTT_FAILED, res, w) else (0, res, w))))"

section \<open>Connect, send, receive\<close>

text \<open>Result: return code, \<open>*sock\<close>, world.\<close>

definition umqtt_trans_connect :: "'w platform \<Rightarrow> bytes \<Rightarrow> 'w \<Rightarrow> int \<times> int \<times> 'w" where
  "umqtt_trans_connect pf uri w =
     (case umqtt_resolve_uri pf uri w of
        (r, None, w) \<Rightarrow> (UMQTT_FAILED, - 1, w)
      | (r, Some ai, w) \<Rightarrow>
          if r < 0 then (UMQTT_FAILED, - 1, w)
          else (case p_socket pf ai w of (sk, w) \<Rightarrow>
            if sk < 0 then (UMQTT_FAILED, sk, w)
            else (case p_connect pf sk ai w of (r, w) \<Rightarrow>
              if r < 0 then (case p_closesocket pf sk w of (_, w) \<Rightarrow> (UMQTT_FAILED, - 1, w))
              else (r, sk, w))))"

definition umqtt_trans_disconnect :: "'w platform \<Rightarrow> int \<Rightarrow> 'w \<Rightarrow> int \<times> 'w" where
  "umqtt_trans_disconnect pf sk w =
     (case p_closesocket pf sk w of ((r, errno), w) \<Rightarrow> (if r < 0 then (- errno, w) else (r, w)))"

text \<open>
  The send loop has no other way out than an error or the last byte: a \<open>send\<close> that keeps
  returning 0 is a run that does not come back (\<open>None\<close>).
\<close>

partial_function (option) send_loop ::
    "'w platform \<Rightarrow> int \<Rightarrow> bytes \<Rightarrow> nat \<Rightarrow> nat \<Rightarrow> int \<Rightarrow> 'w \<Rightarrow> (int \<times> 'w) option" where
  "send_loop pf sk buf buf_len offset ret w =
     (if offset < buf_len
      then Option.bind (rd_block buf offset (buf_len - offset)) (\<lambda>data.
        case p_send pf sk data w of (r, w) \<Rightarrow>
          (case r of
             Send_Error errno \<Rightarrow> Some (- errno, w)
           | Send_Count n \<Rightarrow> send_loop pf sk buf buf_len (offset + n) (int n) w))
      else Some (ret, w))"

definition umqtt_trans_send ::
    "'w platform \<Rightarrow> int \<Rightarrow> bytes \<Rightarrow> nat \<Rightarrow> 'w \<Rightarrow> (int \<times> 'w) option" where
  "umqtt_trans_send pf sk buf buf_len w = send_loop pf sk buf buf_len 0 0 w"

text \<open>\<open>recv\<close> into \<open>buf\<close> at \<open>off\<close>. Result: return value, \<open>errno\<close>, buffer, world.\<close>

definition umqtt_trans_recv ::
    "'w platform \<Rightarrow> int \<Rightarrow> bytes \<Rightarrow> nat \<Rightarrow> nat \<Rightarrow> 'w \<Rightarrow> (int \<times> int \<times> bytes \<times> 'w) option" where
  "umqtt_trans_recv pf sk buf off n w =
     (case p_recv pf sk n w of (r, w) \<Rightarrow>
        (case r of
           Recv_Error errno \<Rightarrow> Some (- 1, errno, buf, w)
         | Recv_Data d \<Rightarrow> do { buf \<leftarrow> blit buf off d; Some (int (length d), 0, buf, w) }))"

section \<open>Broker addresses\<close>

lemma takeWhile_neq_append: "c \<notin> set h \<Longrightarrow> takeWhile (\<lambda>x. x \<noteq> c) (h @ c # p) = h"
  by (induction h) auto

lemma c_index_append: "c \<notin> set h \<Longrightarrow> c_index c (h @ c # p) = Some (length h)"
  by (simp add: c_index_def takeWhile_neq_append)

lemma c_index_SomeD: "c_index c s = Some k \<Longrightarrow> \<exists>h p. s = h @ c # p \<and> c \<notin> set h \<and> k = length h"
proof -
  assume "c_index c s = Some k"
  then have c: "c \<in> set s" and k: "k = length (takeWhile (\<lambda>x. x \<noteq> c) s)"
    by (auto simp: c_index_def split: if_splits)
  obtain h p where s: "s = h @ c # p" and h: "c \<notin> set h"
    using split_list_first [OF c] by blast
  then have "k = length h" by (simp only: k s takeWhile_neq_append [OF h])
  with s h show ?thesis by blast
qed

lemma scheme_length [simp]: "length (uri_scheme s) = length s"
  by (simp add: uri_scheme_def)

text \<open>
  \<open>umqtt_resolve_uri\<close> accepts exactly the URIs \<open>tcp://host:port\<close> and \<open>ssl://host:port\<close> with
  a port text of one to five characters, and the bracketed form for IPv6 addresses, and passes on
  that host and that port; in the bracketed form the character behind the bracket is not looked at.
  In particular the copy of the port always fits \<open>port_str\<close>.
\<close>

theorem parse_uri_iff:
  "parse_uri uri = Some (host, port) \<longleftrightarrow>
     host \<noteq> [] \<and> port \<noteq> [] \<and> length port \<le> 5
     \<and> (\<exists>s\<in>{uri_scheme ''tcp://'', uri_scheme ''ssl://''}.
          0x3A \<notin> set host \<and> hd host \<noteq> 0x5B \<and> uri = s @ host @ [0x3A] @ port
          \<or> 0x5D \<notin> set host \<and> (\<exists>x. uri = s @ [0x5B] @ host @ [0x5D, x] @ port))"
  (is "?L \<longleftrightarrow> ?R")
proof
  assume L: ?L
  then have s: "take 6 uri \<in> {uri_scheme ''tcp://'', uri_scheme ''ssl://''}"
    by (auto simp: parse_uri_def Let_def split: if_splits)
  have uri: "uri = take 6 uri @ drop 6 uri" by simp
  have l6: "length (take 6 uri) = 6"
    using s by (elim insertE) (simp_all only: scheme_length, simp_all)
  show ?R
  proof (cases "take 1 (drop 6 uri) = [0x5B]")
    case True
    then obtain r where r: "drop 6 uri = 0x5B # r" by (cases "drop 6 uri") auto
    from L s r obtain k where k: "c_index 0x5D r = Some k"
      by (auto simp: parse_uri_def Let_def split: if_splits option.splits)
    from c_index_SomeD [OF this] obtain h p where hp: "r = h @ 0x5D # p" "0x5D \<notin> set h" "k = length h"
      by blast
    have len: "length uri = 6 + (1 + (length h + (1 + length p)))"
      using uri l6 r hp by (metis length_append length_Cons add.commute add.assoc plus_1_eq_Suc)
    from L s r k hp have res: "host = h" "h \<noteq> []"
      and port: "port_of (drop 1 p) (int (length uri) - 6 - int (length h) - 3) = Some port"
      by (auto simp: parse_uri_def Let_def split: if_splits)
    have "int (length uri) - 6 - int (length h) - 3 = int (length p) - 1"
      using len by simp
    with port obtain x where p: "p = x # port" and "port \<noteq> []" "length port \<le> 5"
      by (cases p) (auto simp: port_of_def split: if_splits)
    moreover have "uri = take 6 uri @ [0x5B] @ host @ [0x5D, x] @ port"
      using uri r hp res p by simp
    ultimately show ?thesis using s res hp by blast
  next
    case False
    then have nb: "take 1 (drop 6 uri) \<noteq> [0x5B]" by simp
    from L s nb obtain k where k: "c_index 0x3A (drop 6 uri) = Some k"
      by (auto simp: parse_uri_def Let_def split: if_splits option.splits)
    from c_index_SomeD [OF this] obtain h p where hp: "drop 6 uri = h @ 0x3A # p" "0x3A \<notin> set h" "k = length h"
      by blast
    have len: "length uri = 6 + (length h + (1 + length p))"
      using uri l6 hp(1) by (metis length_append length_Cons add.commute add.assoc plus_1_eq_Suc)
    from L s nb k hp have res: "host = h" "h \<noteq> []"
      and port: "port_of p (int (length uri) - 6 - int (length h) - 1) = Some port"
      by (auto simp: parse_uri_def Let_def split: if_splits)
    have "int (length uri) - 6 - int (length h) - 1 = int (length p)"
      using len by simp
    with port have p: "p = port" and "port \<noteq> []" "length port \<le> 5"
      by (auto simp: port_of_def split: if_splits)
    moreover have "uri = take 6 uri @ host @ [0x3A] @ port"
      using uri hp res p by simp
    moreover have "hd host \<noteq> 0x5B" using nb hp res by (cases h) auto
    ultimately show ?thesis using s res hp by blast
  qed
next
  assume R: ?R
  then obtain s where s: "s \<in> {uri_scheme ''tcp://'', uri_scheme ''ssl://''}"
    and u: "0x3A \<notin> set host \<and> hd host \<noteq> 0x5B \<and> uri = s @ host @ [0x3A] @ port
          \<or> 0x5D \<notin> set host \<and> (\<exists>x. uri = s @ [0x5B] @ host @ [0x5D, x] @ port)"
    and ne: "host \<noteq> []" "port \<noteq> []" "length port \<le> 5" by blast
  have l: "length s = 6" using s by auto
  from u show ?L
  proof
    assume v: "0x3A \<notin> set host \<and> hd host \<noteq> 0x5B \<and> uri = s @ host @ [0x3A] @ port"
    then have "take 1 (drop 6 uri) \<noteq> [0x5B]" using ne l by (cases host) auto
    then show ?thesis
      using v s ne l c_index_append [of "0x3A" host port]
      by (auto simp: parse_uri_def Let_def port_of_def)
  next
    assume "0x5D \<notin> set host \<and> (\<exists>x. uri = s @ [0x5B] @ host @ [0x5D, x] @ port)"
    then obtain x where v: "0x5D \<notin> set host" "uri = s @ [0x5B] @ host @ [0x5D, x] @ port" by blast
    then show ?thesis
      using s ne l c_index_append [of "0x5D" host "x # port"]
      by (auto simp: parse_uri_def Let_def port_of_def)
  qed
qed


theorem parse_uri_iff_witness:
  "parse_uri (uri_scheme ''tcp://'' @ [0x61, 0x2E, 0x62] @ [0x3A] @ [0x31, 0x38])
    = Some ([0x61, 0x2E, 0x62], [0x31, 0x38])"
  by (subst parse_uri_iff) auto

section \<open>Sending\<close>

text \<open>
  What \<open>send\<close> documents: it takes a prefix of what it is offered (\<open>log w\<close>: all bytes taken so
  far) or fails with a positive \<open>errno\<close>. \<open>send_progress\<close>: it takes at least one byte.
\<close>

definition send_contract :: "'w platform \<Rightarrow> ('w \<Rightarrow> bytes) \<Rightarrow> bool" where
  "send_contract pf log \<longleftrightarrow> (\<forall>sk xs w. case p_send pf sk xs w of (r, w') \<Rightarrow>
     (case r of Send_Count n \<Rightarrow> n \<le> length xs \<and> log w' = log w @ take n xs
      | Send_Error errno \<Rightarrow> 0 < errno \<and> log w' = log w))"

definition send_progress :: "'w platform \<Rightarrow> bool" where
  "send_progress pf \<longleftrightarrow> (\<forall>sk xs w w'. p_send pf sk xs w = (Send_Count 0, w') \<longrightarrow> xs = [])"

text \<open>\<open>sent_upto log w w' xs r\<close>: all of \<open>xs\<close> was sent, or a prefix and \<open>r\<close> is an error.\<close>

definition sent_upto :: "('w \<Rightarrow> bytes) \<Rightarrow> 'w \<Rightarrow> 'w \<Rightarrow> bytes \<Rightarrow> int \<Rightarrow> bool" where
  "sent_upto log w w' xs r \<longleftrightarrow>
     (if 0 \<le> r then log w' = log w @ xs else (\<exists>k<length xs. log w' = log w @ take k xs))"

lemma send_loop_sent:
  assumes c: "send_contract pf log" "send_progress pf"
    and "offset \<le> n" and "n \<le> length buf" and "0 \<le> ret"
  shows "\<exists>r w'. send_loop pf sk buf n offset ret w = Some (r, w')
    \<and> sent_upto log w w' (drop offset (take n buf)) r"
  using assms(3-)
proof (induction "n - offset" arbitrary: offset ret w rule: less_induct)
  case less
  show ?case
  proof (cases "offset < n")
    case False
    with less.prems show ?thesis
      by (subst send_loop.simps) (simp add: sent_upto_def)
  next
    case True
    define data where "data = drop offset (take n buf)"
    have rd: "rd_block buf offset (n - offset) = Some data"
      using less.prems True by (simp add: rd_block_def data_def drop_take)
    have len: "length data = n - offset" using less.prems by (simp add: data_def)
    obtain r w1 where s: "p_send pf sk data w = (r, w1)" by fastforce
    show ?thesis
    proof (cases r)
      case (Send_Error errno)
      then have "0 < errno" "log w1 = log w"
        using c(1) s by (auto simp: send_contract_def dest!: spec [of _ sk] spec [of _ data] spec [of _ w])
      then show ?thesis
        using True Send_Error s rd len
        by (subst send_loop.simps) (auto simp: sent_upto_def data_def intro: exI [of _ 0])
    next
      case (Send_Count k)
      then have k: "k \<le> length data" "log w1 = log w @ take k data"
        using c(1) s by (auto simp: send_contract_def dest!: spec [of _ sk] spec [of _ data] spec [of _ w])
      have "data \<noteq> []" using len True by auto
      then have "k \<noteq> 0" using c(2) s Send_Count by (cases k) (auto simp: send_progress_def)
      then have "n - (offset + k) < n - offset" "offset + k \<le> n" "0 \<le> int k"
        using True k len by simp_all
      from less.hyps [OF this(1,2) less.prems(2) this(3), of w1]
      obtain r' w' where ih: "send_loop pf sk buf n (offset + k) (int k) w1 = Some (r', w')"
        and su: "sent_upto log w1 w' (drop (offset + k) (take n buf)) r'"
        by blast
      have split: "data = take k data @ drop (offset + k) (take n buf)"
        by (metis append_take_drop_id drop_drop add.commute data_def)
      have "sent_upto log w w' data r'"
      proof (cases "0 \<le> r'")
        case True
        with su k split show ?thesis by (simp add: sent_upto_def)
      next
        case False
        with su obtain j where j: "j < length (drop (offset + k) (take n buf))"
          "log w' = log w1 @ take j (drop (offset + k) (take n buf))"
          by (auto simp: sent_upto_def)
        have "take (k + j) data = take k data @ take j (drop (offset + k) (take n buf))"
          unfolding data_def take_add drop_drop by (simp add: add.commute)
        moreover have "k + j < length data" using j len less.prems by simp
        ultimately show ?thesis using False j k by (auto simp: sent_upto_def intro: exI [of _ "k + j"])
      qed
      then show ?thesis
        using True Send_Count s rd ih
        by (subst send_loop.simps) (simp add: data_def)
    qed
  qed
qed

text \<open>
  Sending over any socket that takes at least one byte a call comes back, and has sent
  exactly the packet, in order and without repetition, however the socket splits it; on an error
  a proper prefix of it.
\<close>

theorem umqtt_trans_send_all:
  assumes "send_contract pf log" and "send_progress pf" and "n \<le> length buf"
  shows "\<exists>r w'. umqtt_trans_send pf sk buf n w = Some (r, w') \<and> sent_upto log w w' (take n buf) r"
  using send_loop_sent [OF assms(1,2) _ assms(3), of 0 0 sk w] by (simp add: umqtt_trans_send_def)

text \<open>A socket that takes at most two bytes a call and remembers them.\<close>

definition two_byte_socket :: "bytes platform" where
  "two_byte_socket =
    \<lparr> p_getaddrinfo = (\<lambda>_ _ w. ((0, Some 1), w)), p_socket = (\<lambda>_ w. (3, w)),
      p_connect = (\<lambda>_ _ w. (0, w)), p_closesocket = (\<lambda>_ w. ((0, 0), w)),
      p_send = (\<lambda>_ xs w. (Send_Count (min 2 (length xs)), w @ take 2 xs)),
      p_recv = (\<lambda>_ _ w. (Recv_Data [], w)), p_malloc = (\<lambda>_ w. (True, w)),
      p_tick = (\<lambda>w. (0, w)), p_delay = (\<lambda>_ w. w), p_object_create = (\<lambda>w. (True, w)),
      p_timer_start = (\<lambda>w. (True, w)), p_callback = (\<lambda>_ _ _ b w. Some (b, w)),
      p_user_handler = (\<lambda>_ _ w. w), p_while_blocked = (\<lambda>_ w. ([], w)) \<rparr>"

lemma two_byte_socket_contract: "send_contract two_byte_socket id" "send_progress two_byte_socket"
  by (auto simp: send_contract_def send_progress_def two_byte_socket_def min_def split: if_splits)

theorem umqtt_trans_send_all_witness:
  "\<exists>r w'. umqtt_trans_send two_byte_socket 3 [1, 2, 3, 4, 5, 6] 5 [] = Some (r, w')
     \<and> sent_upto id [] w' [1, 2, 3, 4, 5] r"
  using umqtt_trans_send_all [OF two_byte_socket_contract, of 5 "[1, 2, 3, 4, 5, 6]" 3 "[]"] by simp

text \<open>
  A socket that accepts no byte (\<open>send\<close> returning 0) makes \<open>umqtt_trans_send\<close> spin forever:
  the timeout it is given is never looked at.
\<close>

theorem umqtt_trans_send_stuck:
  assumes "\<And>xs. p_send pf sk xs w = (Send_Count 0, w)" and "0 < n"
  shows "umqtt_trans_send pf sk buf n w = None"
proof -
  define Q where "Q = (\<lambda>pf' sk' (buf' :: bytes) n' offset (ret :: int) w' (y :: int \<times> 'a).
    pf' = pf \<and> sk' = sk \<and> w' = w \<longrightarrow> \<not> offset < (n' :: nat))"
  have "Q pf' sk' buf' n' offset ret w' y"
    if run: "send_loop pf' sk' buf' n' offset ret w' = Some y" for pf' sk' buf' n' offset ret w' y
  proof (rule send_loop.raw_induct [OF _ run])
    fix loop pf' sk' buf' n' offset ret w' y
    assume IH: "\<And>pf' sk' buf' n' offset ret w' y.
        loop pf' sk' buf' n' offset ret w' = Some y \<Longrightarrow> Q pf' sk' buf' n' offset ret w' y"
      and body: "(if offset < n' then Option.bind (rd_block buf' offset (n' - offset)) (\<lambda>data.
          case p_send pf' sk' data w' of (r, w) \<Rightarrow> case r of
            Send_Count n \<Rightarrow> loop pf' sk' buf' n' (offset + n) (int n) w
          | Send_Error errno \<Rightarrow> Some (- errno, w)) else Some (ret, w')) = Some y"
    show "Q pf' sk' buf' n' offset ret w' y"
      unfolding Q_def
    proof (intro impI notI)
      assume a: "pf' = pf \<and> sk' = sk \<and> w' = w" and lt: "offset < n'"
      with body have "loop pf sk buf' n' offset 0 w = Some y"
        by (auto simp: assms(1) split: option.splits bind_splits)
      from IH [OF this] lt show False by (simp add: Q_def)
    qed
  qed
  then have "send_loop pf sk buf n 0 0 w \<noteq> Some y" for y
    using assms(2) by (metis (no_types, lifting) Q_def)
  then show ?thesis unfolding umqtt_trans_send_def by (rule not_Some_eq [THEN iffD1, rule_format])
qed

definition deaf_socket :: "bytes platform" where
  "deaf_socket = two_byte_socket\<lparr>p_send := (\<lambda>_ _ w. (Send_Count 0, w))\<rparr>"

theorem umqtt_trans_send_stuck_witness: "umqtt_trans_send deaf_socket 3 [7] 1 [] = None"
  by (rule umqtt_trans_send_stuck) (simp_all add: deaf_socket_def)

end
