(* ===== verification/Mqtt_Client.thy ===== *)
theory Mqtt_Client
  imports Mqtt_Decode Mqtt_Topic Mqtt_Transport
begin

text \<open>
  The client of \<open>umqtt.c\<close> below its public interface: the client structure, packet ids, the
  QoS 2 bookkeeping, message delivery, reading and handling packets, connecting, and the two
  timer callbacks.

  Every operation takes the platform and the client and returns the client (with the C return
  value); the client record carries the world of the platform in \<open>net\<close>. The mutex of the source
  only brackets single assignments and is left out. \<open>None\<close> is a fault or a run that does not
  return. Heap blocks are values: releasing one is not modelled, running out of memory is
  (\<open>p_malloc\<close>).
\<close>

section \<open>The client structure\<close>

record umqtt_msg_ack =
  ack_packet_id :: u16
  ack_msg_type :: u8

record umqtt_qos2_msg =
  q2_topic_name_len :: u16
  q2_topic_name :: cptr
  q2_packet_id :: u16
  q2_payload :: cptr
  q2_payload_len :: u32

record umqtt_pubrec_msg =
  pr_cnt :: int
  pr_packet_id :: int
  pr_next_tick :: int

record 'w umqtt_client =
  sock :: int
  connect_state :: umqtt_client_state
  mqtt_info :: umqtt_info
  reconnect_count :: u8
  keepalive_count :: u8
  pingreq_last_tick :: u32
  uplink_next_tick :: u32
  uplink_last_tick :: u32
  reconnect_next_tick :: u32
  reconnect_last_tick :: u32
  send_buf :: bytes
  recv_buf :: bytes
  send_len :: nat
  recv_len :: nat
  packet_id :: u16
  msg_queue :: "umqtt_msg_ack list"
  uplink_timer :: "bool option"
  sub_recv_list_len :: int
  sub_recv_list :: "subtop_recv_handler list"
  qos2_msg_list :: "umqtt_qos2_msg list"
  pubrec_msg :: "umqtt_pubrec_msg list"
  user_handler :: "nat option"
  task_handle :: bool
  net :: 'w

datatype tick_item = UPLINK_LAST_TICK | UPLINK_NEXT_TICK | RECON_LAST_TICK | RECON_NEXT_TICK

text \<open>\<open>rt_tick_from_millisecond\<close> of \<open>clock.c\<close>, with \<open>RT_TICK_PER_SECOND\<close> 1000.\<close>

definition rt_tick_from_millisecond :: "int \<Rightarrow> u32" where
  "rt_tick_from_millisecond ms =
     (if ms < 0 then - 1
      else word_of_int (1000 * (ms sdiv 1000)) + word_of_int ((1000 * (ms smod 1000) + 999) sdiv 1000))"

definition rt_tick_get :: "'w platform \<Rightarrow> 'w umqtt_client \<Rightarrow> u32 \<times> 'w umqtt_client" where
  "rt_tick_get pf c = (case p_tick pf (net c) of (t, w) \<Rightarrow> (t, c\<lparr>net := w\<rparr>))"

definition malloc :: "'w platform \<Rightarrow> nat \<Rightarrow> 'w umqtt_client \<Rightarrow> bool \<times> 'w umqtt_client" where
  "malloc pf n c = (case p_malloc pf n (net c) of (ok, w) \<Rightarrow> (ok, c\<lparr>net := w\<rparr>))"

section \<open>Packet ids and the QoS 2 lists\<close>

definition get_next_packetID :: "'w umqtt_client \<Rightarrow> u16 \<times> 'w umqtt_client" where
  "get_next_packetID c =
     (let pid = (if packet_id c = UMQTT_MAX_PACKET_ID then 1 else packet_id c + 1)
      in (pid, c\<lparr>packet_id := pid\<rparr>))"

text \<open>The memory a pointer of a message leads to, from there on.\<close>

definition ptr_mem :: "bytes \<Rightarrow> cptr \<Rightarrow> bytes option" where
  "ptr_mem rbuf p = (case p of PNull \<Rightarrow> None | PObj b \<Rightarrow> Some b
     | PRecv off \<Rightarrow> (if off \<le> length rbuf then Some (drop off rbuf) else None))"

text \<open>\<open>rt_strncpy(dst, src, n)\<close>: up to the first NUL, the rest zeros.\<close>

definition rt_strncpy :: "bytes \<Rightarrow> nat \<Rightarrow> bytes option" where
  "rt_strncpy src n =
     (let s = cstr (take n src) in
      if length s < length (take n src) \<or> length src \<ge> n
      then Some (s @ replicate (n - length s) 0) else None)"

text \<open>Copies one string of the message if there is one; the flag says whether memory was there.\<close>

definition dup_string ::
    "'w platform \<Rightarrow> cptr \<Rightarrow> nat \<Rightarrow> 'w umqtt_client \<Rightarrow> (bool \<times> cptr \<times> 'w umqtt_client) option" where
  "dup_string pf p n c =
     (if p \<noteq> PNull \<and> n \<noteq> 0
      then (case malloc pf n c of (ok, c) \<Rightarrow>
        if ok then do {
          src \<leftarrow> ptr_mem (recv_buf c) p;
          s \<leftarrow> rt_strncpy src n;
          Some (True, PObj s, c) }
        else Some (False, PNull, c))
      else Some (True, PNull, c))"

text \<open>When the list is full the code goes on to link a null message: a fault.\<close>

definition add_one_qos2_msg ::
    "'w platform \<Rightarrow> u16 \<Rightarrow> umqtt_pkgs_publish \<Rightarrow> 'w umqtt_client \<Rightarrow> (int \<times> 'w umqtt_client) option" where
  "add_one_qos2_msg pf topic_name_len pdata c =
     (if length (qos2_msg_list c) \<ge> PKG_UMQTT_QOS2_QUE_MAX then None
      else (case malloc pf 1 c of (ok, c) \<Rightarrow>
        if \<not> ok then Some (UMQTT_MEM_FULL, c)
        else do {
          (ok1, topic, c) \<leftarrow> dup_string pf (pb_topic_name pdata) (unat topic_name_len) c;
          (ok2, payload, c) \<leftarrow> dup_string pf (pb_payload pdata) (unat (pb_payload_len pdata)) c;
          let msg = \<lparr> q2_topic_name_len = topic_name_len, q2_topic_name = topic,
                      q2_packet_id = pb_packet_id pdata, q2_payload = payload,
                      q2_payload_len = pb_payload_len pdata \<rparr>;
          if ok1 \<and> ok2 then Some (UMQTT_OK, c\<lparr>qos2_msg_list := msg # qos2_msg_list c\<rparr>)
          else Some (UMQTT_MEM_FULL, c) }))"

text \<open>The first slot of the array that satisfies a test, as the \<open>for\<close> loops find it.\<close>

definition first_slot :: "(umqtt_pubrec_msg \<Rightarrow> bool) \<Rightarrow> umqtt_pubrec_msg list \<Rightarrow> nat option" where
  "first_slot t xs = find (\<lambda>i. t (xs ! i)) [0..<length xs]"

definition add_one_pubrec_msg ::
    "'w platform \<Rightarrow> int \<Rightarrow> 'w umqtt_client \<Rightarrow> int \<times> 'w umqtt_client" where
  "add_one_pubrec_msg pf pid c =
     (case first_slot (\<lambda>m. pr_cnt m = - 1) (pubrec_msg c) of
        None \<Rightarrow> (UMQTT_MEM_FULL, c)
      | Some i \<Rightarrow> (case rt_tick_get pf c of (t, c) \<Rightarrow>
          (UMQTT_OK, c\<lparr>pubrec_msg := (pubrec_msg c)[i :=
             \<lparr> pr_cnt = PKG_UMQTT_PUBLISH_RECON_MAX, pr_packet_id = pid,
               pr_next_tick = sint (t + PKG_UMQTT_RECPUBREC_INTERVAL_TIME) \<rparr>]\<rparr>)))"

definition no_pubrec :: umqtt_pubrec_msg where
  "no_pubrec = \<lparr> pr_cnt = - 1, pr_packet_id = - 1, pr_next_tick = - 1 \<rparr>"

definition clear_one_pubrec_msg :: "int \<Rightarrow> 'w umqtt_client \<Rightarrow> int \<times> 'w umqtt_client" where
  "clear_one_pubrec_msg pid c =
     (case first_slot (\<lambda>m. pr_packet_id m = pid) (pubrec_msg c) of
        None \<Rightarrow> (UMQTT_OK, c)
      | Some i \<Rightarrow> (UMQTT_OK, c\<lparr>pubrec_msg := (pubrec_msg c)[i := no_pubrec]\<rparr>))"

section \<open>Delivering a message\<close>

text \<open>
  Each subscription whose filter matches gets the message; its callback may write to the receive
  buffer, where the topic and the payload are (it cannot change the size of it).
\<close>

fun deliver_loop ::
    "'w platform \<Rightarrow> cptr \<Rightarrow> nat \<Rightarrow> u16 \<Rightarrow> umqtt_pkgs_publish \<Rightarrow> subtop_recv_handler list
     \<Rightarrow> 'w umqtt_client \<Rightarrow> 'w umqtt_client option" where
  "deliver_loop pf topic len tnl msg [] c = Some c"
| "deliver_loop pf topic len tnl msg (h # hs) c = do {
     c \<leftarrow> (case st_topicfilter h of
         None \<Rightarrow> Some c
       | Some f \<Rightarrow> do {
           mem \<leftarrow> ptr_mem (recv_buf c) topic;
           name \<leftarrow> rd_block mem 0 len;
           matched \<leftarrow> topicname_is_matched (Some f) (Some name);
           if matched then
             (case st_callback h of None \<Rightarrow> Some c
              | Some k \<Rightarrow> do {
                  (b, w) \<leftarrow> p_callback pf k tnl msg (recv_buf c) (net c);
                  if length b = length (recv_buf c) then Some (c\<lparr>recv_buf := b, net := w\<rparr>) else None })
           else Some c });
     deliver_loop pf topic len tnl msg hs c }"

definition umqtt_deliver_message ::
    "'w platform \<Rightarrow> cptr \<Rightarrow> nat \<Rightarrow> u16 \<Rightarrow> umqtt_pkgs_publish \<Rightarrow> 'w umqtt_client \<Rightarrow> 'w umqtt_client option" where
  "umqtt_deliver_message pf topic_name len tnl msg c =
     (if topic_name = PNull then None
      else deliver_loop pf topic_name len tnl msg (sub_recv_list c) c)"

text \<open>
  The condition \<open>(tmp_ret == rt_list_isempty(..)) == 0\<close> is written with \<open>tmp_ret = 0\<close>: it holds
  when the list is empty.
\<close>

definition c_bool :: "bool \<Rightarrow> int" where
  "c_bool b = (if b then 1 else 0)"

definition qos2_publish_delete ::
    "'w platform \<Rightarrow> int \<Rightarrow> 'w umqtt_client \<Rightarrow> (int \<times> 'w umqtt_client) option" where
  "qos2_publish_delete pf pid c =
     (let tmp_ret = 0 in
      if c_bool (tmp_ret = c_bool (qos2_msg_list c = [])) = 0
      then (case find (\<lambda>m. uint (q2_packet_id m) = pid) (qos2_msg_list c) of
          None \<Rightarrow> Some (UMQTT_OK, c)
        | Some m \<Rightarrow> do {
            c \<leftarrow> umqtt_deliver_message pf (q2_topic_name m) (unat (q2_topic_name_len m))
                  (q2_topic_name_len m)
                  \<lparr> pb_topic_name = q2_topic_name m, pb_packet_id = q2_packet_id m,
                    pb_payload = q2_payload m, pb_payload_len = q2_payload_len m \<rparr> c;
            Some (UMQTT_OK, c\<lparr>qos2_msg_list := remove1 m (qos2_msg_list c)\<rparr>) })
      else Some (UMQTT_OK, c))"

section \<open>Status, ticks, sending\<close>

definition set_connect_status :: "umqtt_client_state \<Rightarrow> 'w umqtt_client \<Rightarrow> 'w umqtt_client" where
  "set_connect_status status c = c\<lparr>connect_state := status\<rparr>"

definition set_uplink_recon_tick :: "'w platform \<Rightarrow> tick_item \<Rightarrow> 'w umqtt_client \<Rightarrow> 'w umqtt_client" where
  "set_uplink_recon_tick pf item c =
     (case rt_tick_get pf c of (t, c) \<Rightarrow>
        (case item of
           UPLINK_LAST_TICK \<Rightarrow> c\<lparr>uplink_last_tick := t\<rparr>
         | UPLINK_NEXT_TICK \<Rightarrow> c\<lparr>uplink_next_tick := keepalive_interval (mqtt_info c) * 1000 + t\<rparr>
         | RECON_LAST_TICK \<Rightarrow> c\<lparr>reconnect_last_tick := t\<rparr>
         | RECON_NEXT_TICK \<Rightarrow> c\<lparr>reconnect_next_tick := reconnect_interval (mqtt_info c) * 1000 + t\<rparr>))"

text \<open>\<open>umqtt_encode\<close> into the send buffer, \<open>umqtt_trans_send\<close> from it.\<close>

definition encode_msg ::
    "umqtt_type \<Rightarrow> nat \<Rightarrow> umqtt_msg option \<Rightarrow> 'w umqtt_client \<Rightarrow> (int \<times> 'w umqtt_client) option" where
  "encode_msg t n m c = do {
     (r, b) \<leftarrow> umqtt_encode t (send_buf c) n m;
     Some (r, c\<lparr>send_buf := b\<rparr>) }"

definition send_msg :: "'w platform \<Rightarrow> nat \<Rightarrow> 'w umqtt_client \<Rightarrow> (int \<times> 'w umqtt_client) option" where
  "send_msg pf n c = do {
     (r, w) \<leftarrow> umqtt_trans_send pf (sock c) (send_buf c) n (net c);
     Some (r, c\<lparr>net := w\<rparr>) }"

definition trans_disconnect :: "'w platform \<Rightarrow> 'w umqtt_client \<Rightarrow> 'w umqtt_client" where
  "trans_disconnect pf c =
     (case umqtt_trans_disconnect pf (sock c) (net c) of (_, w) \<Rightarrow> c\<lparr>net := w, sock := - 1\<rparr>)"

text \<open>
  Encode and send with the error codes of the callers: \<open>bad r\<close> is the test the caller makes on
  the encoder's result (\<open>< 0\<close> or \<open>\<le> 0\<close>).
\<close>

definition encode_and_send ::
    "'w platform \<Rightarrow> (int \<Rightarrow> bool) \<Rightarrow> umqtt_type \<Rightarrow> umqtt_msg option \<Rightarrow> 'w umqtt_client
     \<Rightarrow> (int \<times> 'w umqtt_client) option" where
  "encode_and_send pf bad t m c = do {
     (r, c) \<leftarrow> encode_msg t (send_size (mqtt_info c)) m c;
     if bad r then Some (UMQTT_ENCODE_ERROR, c)
     else do {
       let c = c\<lparr>send_len := nat r\<rparr>;
       (r, c) \<leftarrow> send_msg pf (send_len c) c;
       if r < 0 then Some (UMQTT_SEND_FAILED, c) else Some (r, c) } }"

fun pubrec_cycle_loop ::
    "'w platform \<Rightarrow> nat list \<Rightarrow> int \<Rightarrow> 'w umqtt_client \<Rightarrow> (int \<times> 'w umqtt_client) option" where
  "pubrec_cycle_loop pf [] ret c = Some (ret, c)"
| "pubrec_cycle_loop pf (i # is) ret c =
     (let m = pubrec_msg c ! i in
      if pr_cnt m \<noteq> - 1 \<and> pr_packet_id m \<noteq> - 1 \<and> pr_next_tick m \<noteq> - 1
      then (case rt_tick_get pf c of (t, c) \<Rightarrow>
        if word_of_int (pr_next_tick m) \<le> t
        then (case rt_tick_get pf c of (t, c) \<Rightarrow>
          let m = m\<lparr>pr_cnt := pr_cnt m - 1,
                    pr_next_tick := sint (t + PKG_UMQTT_RECPUBREC_INTERVAL_TIME)\<rparr>;
              c = c\<lparr>pubrec_msg := (pubrec_msg c)[i := m]\<rparr>
          in if pr_cnt m < 0
             then do {
               (_, c) \<leftarrow> qos2_publish_delete pf (pr_packet_id m) c;
               pubrec_cycle_loop pf is ret (c\<lparr>pubrec_msg := (pubrec_msg c)[i := no_pubrec]\<rparr>) }
             else do {
               let msg = zero_msg\<lparr>m_header := set_hdr_type (type_code UMQTT_TYPE_PUBREC)
                            (set_hdr_dup 0 (set_hdr_qos UMQTT_QOS2 0)),
                          u_head := word_of_int (pr_packet_id m)\<rparr>;
               (r, c) \<leftarrow> encode_and_send pf (\<lambda>r. r < 0) UMQTT_TYPE_PUBREC (Some msg) c;
               if r < 0 then Some (r, c) else pubrec_cycle_loop pf is r c })
        else pubrec_cycle_loop pf is ret c)
      else pubrec_cycle_loop pf is ret c)"

definition pubrec_cycle_callback ::
    "'w platform \<Rightarrow> 'w umqtt_client \<Rightarrow> (int \<times> 'w umqtt_client) option" where
  "pubrec_cycle_callback pf c = pubrec_cycle_loop pf [0..<length (pubrec_msg c)] UMQTT_OK c"

section \<open>Reading a packet\<close>

abbreviation (input) EINTR :: int where "EINTR \<equiv> 4"
abbreviation (input) EAGAIN :: int where "EAGAIN \<equiv> 11"
abbreviation (input) EWOULDBLOCK :: int where "EWOULDBLOCK \<equiv> EAGAIN"

text \<open>
  The receive loop fills \<open>buf\<close> from \<open>off\<close> on. The timeout is looked at after every \<open>recv\<close>, the
  one that completes the block included; as long as the clock stands still, a socket without data
  keeps it going (\<open>None\<close>).
\<close>

partial_function (option) readpacket_loop ::
    "'w platform \<Rightarrow> bytes \<Rightarrow> nat \<Rightarrow> nat \<Rightarrow> nat \<Rightarrow> u32 \<Rightarrow> 'w umqtt_client
     \<Rightarrow> (int \<times> bytes \<times> 'w umqtt_client) option" where
  "readpacket_loop pf buf off len got end_tick c =
     (if got < len
      then Option.bind (umqtt_trans_recv pf (sock c) buf (off + got) (len - got) (net c))
        (\<lambda>(ret, errno, buf, w). let c = c\<lparr>net := w\<rparr> in
          if ret = - 1 \<and> \<not> (errno = EINTR \<or> errno = EWOULDBLOCK \<or> errno = EAGAIN)
          then Some (UMQTT_READ_FAILED, buf, c)
          else if ret = 0 then Some (UMQTT_FIN_ACK, buf, c)
          else (let got = (if ret = - 1 then got else got + nat ret) in
            case rt_tick_get pf c of (t, c) \<Rightarrow>
              if t - end_tick < 0x7FFFFFFF then Some (UMQTT_READ_TIMEOUT, buf, c)
              else readpacket_loop pf buf off len got end_tick c))
      else Some (UMQTT_OK, buf, c))"

definition umqtt_readpacket ::
    "'w platform \<Rightarrow> bytes \<Rightarrow> nat \<Rightarrow> nat \<Rightarrow> u32 \<Rightarrow> 'w umqtt_client
     \<Rightarrow> (int \<times> bytes \<times> 'w umqtt_client) option" where
  "umqtt_readpacket pf buf off len timeout c =
     (let timeout_tick = rt_tick_from_millisecond (sint timeout) AND 0x7FFFFFFF in
      case rt_tick_get pf c of (t, c) \<Rightarrow>
        (let end_tick = t + timeout_tick in
         if len = 0 then Some (UMQTT_OK, buf, c)
         else readpacket_loop pf buf off len 0 end_tick c))"

text \<open>Step 2: the length field, a byte at a time. \<open>Inl\<close> is an early return.\<close>

function read_length ::
    "'w platform \<Rightarrow> nat \<Rightarrow> int \<Rightarrow> int \<Rightarrow> 'w umqtt_client
     \<Rightarrow> ((int + nat \<times> int) \<times> 'w umqtt_client) option" where
  "read_length pf cnt pkt_len multiplier c =
     (let cnt = cnt + 1 in
      if cnt > 4 then Some (Inl UMQTT_FAILED, c)
      else (case umqtt_readpacket pf [0] 0 1 (recv_time_ms (mqtt_info c)) c of
          None \<Rightarrow> None
        | Some (ret, b, c) \<Rightarrow>
            if ret = UMQTT_FIN_ACK then Some (Inl UMQTT_FIN_ACK, c)
            else if ret \<noteq> UMQTT_OK then Some (Inl UMQTT_READ_FAILED, c)
            else (let onedata = hd b in
              case wr (recv_buf c) cnt onedata of
                None \<Rightarrow> None
              | Some rb \<Rightarrow>
                  (let c = c\<lparr>recv_buf := rb\<rparr>; pkt_len = pkt_len + uint (onedata AND 0x7F) * multiplier in
                   if onedata AND 0x80 \<noteq> 0 then read_length pf cnt pkt_len (multiplier * 0x80) c
                   else Some (Inr (cnt, pkt_len), c)))))"
  by pat_completeness auto
termination
  by (relation "measure (\<lambda>(pf, cnt, l, m, c). 5 - cnt)") auto

declare read_length.simps [simp del]

text \<open>A packet that does not fit is read in pieces and dropped.\<close>

fun discard_packet :: "'w platform \<Rightarrow> nat \<Rightarrow> nat \<Rightarrow> 'w umqtt_client \<Rightarrow> 'w umqtt_client option" where
  "discard_packet pf 0 pkt_len c = do {
     (_, rb, c) \<leftarrow> umqtt_readpacket pf (recv_buf c) 0 pkt_len (recv_time_ms (mqtt_info c)) c;
     Some (c\<lparr>recv_buf := rb\<rparr>) }"
| "discard_packet pf (Suc loop_cnt) pkt_len c = do {
     (_, rb, c) \<leftarrow> umqtt_readpacket pf (recv_buf c) 0 (recv_size (mqtt_info c))
                     (recv_time_ms (mqtt_info c)) c;
     discard_packet pf loop_cnt (pkt_len - recv_size (mqtt_info c)) (c\<lparr>recv_buf := rb\<rparr>) }"

section \<open>Handling a packet\<close>

text \<open>\<open>rt_mq_send\<close> on the client's queue: 0, or an error when the four slots are taken.\<close>

definition ack_mq_send :: "umqtt_msg_ack \<Rightarrow> 'w umqtt_client \<Rightarrow> bool \<times> 'w umqtt_client" where
  "ack_mq_send a c =
     (if length (msg_queue c) < PKG_UMQTT_MSG_QUEUE_ACK_DEF_SIZE
      then (True, c\<lparr>msg_queue := msg_queue c @ [a]\<rparr>) else (False, c))"

text \<open>
  The cases that pass an acknowledgement on: \<open>before\<close>/\<open>after\<close> say whether the uplink tick is set
  before or after the queue is used.
\<close>

definition forward_ack ::
    "'w platform \<Rightarrow> umqtt_type \<Rightarrow> bool \<Rightarrow> bool \<Rightarrow> umqtt_msg \<Rightarrow> 'w umqtt_client \<Rightarrow> int \<times> 'w umqtt_client" where
  "forward_ack pf t before after decoded c =
     (let c = (if before then set_uplink_recon_tick pf UPLINK_NEXT_TICK c else c) in
      case ack_mq_send \<lparr> ack_packet_id = u_head decoded, ack_msg_type = type_code t \<rparr> c of
        (False, c) \<Rightarrow> (UMQTT_SEND_FAILED, c)
      | (True, c) \<Rightarrow> (0, if after then set_uplink_recon_tick pf UPLINK_NEXT_TICK c else c))"

definition on_publish ::
    "'w platform \<Rightarrow> int \<Rightarrow> umqtt_msg \<Rightarrow> 'w umqtt_client \<Rightarrow> (int \<times> 'w umqtt_client) option" where
  "on_publish pf ret decoded c = do {
     let c = set_uplink_recon_tick pf UPLINK_NEXT_TICK c;
     let qos = hdr_qos (m_header decoded);
     let dup = hdr_dup (m_header decoded);
     let pub = u_publish decoded;
     c \<leftarrow> (if qos \<noteq> UMQTT_QOS2
           then umqtt_deliver_message pf (pb_topic_name pub) (unat (u_head decoded)) (u_head decoded) pub c
           else Some c);
     if qos = UMQTT_QOS0 then Some (ret, c)
     else do {
       let hdr = set_hdr_dup dup (set_hdr_qos qos 0);
       (t, pid, c) \<leftarrow>
         (if qos = UMQTT_QOS1 then Some (UMQTT_TYPE_PUBACK, pb_packet_id pub, c)
          else if qos = UMQTT_QOS2 then do {
            (_, c) \<leftarrow> add_one_qos2_msg pf (u_head decoded) pub c;
            let c = snd (add_one_pubrec_msg pf (uint (pb_packet_id pub)) c);
            Some (UMQTT_TYPE_PUBREC, pb_packet_id pub, c) }
          else Some (UMQTT_TYPE_RESERVED, 0, c));
       encode_and_send pf (\<lambda>r. r < 0) t
         (Some (zero_msg\<lparr>m_header := set_hdr_type (type_code t) hdr, u_head := pid\<rparr>)) c } }"

definition on_pubrel ::
    "'w platform \<Rightarrow> umqtt_msg \<Rightarrow> 'w umqtt_client \<Rightarrow> (int \<times> 'w umqtt_client) option" where
  "on_pubrel pf decoded c = do {
     let pid = u_head decoded;
     let msg = zero_msg\<lparr>m_header := set_hdr_dup (hdr_dup (m_header decoded))
                  (set_hdr_qos (hdr_qos (m_header decoded))
                    (set_hdr_type (type_code UMQTT_TYPE_PUBCOMP) 0)), u_head := pid\<rparr>;
     (_, c) \<leftarrow> qos2_publish_delete pf (uint pid) c;
     let c = snd (clear_one_pubrec_msg (uint pid) c);
     encode_and_send pf (\<lambda>r. r < 0) UMQTT_TYPE_PUBCOMP (Some msg) c }"

text \<open>The \<open>switch\<close> on the packet type; \<open>ret\<close> is the decoder's result.\<close>

definition handle_packet ::
    "'w platform \<Rightarrow> int \<Rightarrow> umqtt_msg \<Rightarrow> 'w umqtt_client \<Rightarrow> (int \<times> 'w umqtt_client) option" where
  "handle_packet pf ret decoded c = (case type_of_code (hdr_type (m_header decoded)) of
     Some UMQTT_TYPE_CONNACK \<Rightarrow>
       Some (ret, set_connect_status UMQTT_CS_LINKED (set_uplink_recon_tick pf UPLINK_NEXT_TICK c))
   | Some UMQTT_TYPE_PUBLISH \<Rightarrow> on_publish pf ret decoded c
   | Some UMQTT_TYPE_PUBACK \<Rightarrow> Some (forward_ack pf UMQTT_TYPE_PUBACK False True decoded c)
   | Some UMQTT_TYPE_PUBREC \<Rightarrow> Some (forward_ack pf UMQTT_TYPE_PUBREC False True decoded c)
   | Some UMQTT_TYPE_PUBREL \<Rightarrow> on_pubrel pf decoded c
   | Some UMQTT_TYPE_PUBCOMP \<Rightarrow> Some (forward_ack pf UMQTT_TYPE_PUBCOMP False False decoded c)
   | Some UMQTT_TYPE_SUBACK \<Rightarrow> Some (forward_ack pf UMQTT_TYPE_SUBACK True False decoded c)
   | Some UMQTT_TYPE_UNSUBACK \<Rightarrow> Some (forward_ack pf UMQTT_TYPE_UNSUBACK True False decoded c)
   | Some UMQTT_TYPE_PINGRESP \<Rightarrow> Some (ret, set_uplink_recon_tick pf UPLINK_NEXT_TICK c)
   | _ \<Rightarrow> Some (ret, c))"

definition umqtt_handle_readpacket ::
    "'w platform \<Rightarrow> 'w umqtt_client \<Rightarrow> (int \<times> 'w umqtt_client) option" where
  "umqtt_handle_readpacket pf c = do {
     (temp_ret, _, rb, w) \<leftarrow> umqtt_trans_recv pf (sock c) (recv_buf c) 0 1 (net c);
     let c = c\<lparr>recv_buf := rb, net := w\<rparr>;
     if temp_ret \<le> 0 then Some (UMQTT_FIN_ACK, c)
     else do {
       (r, c) \<leftarrow> read_length pf 0 0 1 c;
       (case r of
          Inl ret \<Rightarrow> Some (ret, c)
        | Inr (cnt, pkt_len) \<Rightarrow>
            if pkt_len + 1 + int cnt > int (recv_size (mqtt_info c))
            then do {
              c \<leftarrow> discard_packet pf (nat pkt_len div recv_size (mqtt_info c)) (nat pkt_len) c;
              Some (UMQTT_BUFFER_TOO_SHORT, c) }
            else do {
              (ret, rb, c) \<leftarrow> umqtt_readpacket pf (recv_buf c) (cnt + 1) (nat pkt_len)
                                (recv_time_ms (mqtt_info c)) c;
              let c = c\<lparr>recv_buf := rb\<rparr>;
              if ret = UMQTT_FIN_ACK then Some (UMQTT_FIN_ACK, c)
              else if ret \<noteq> UMQTT_OK then Some (UMQTT_READ_FAILED, c)
              else do {
                (ret, m) \<leftarrow> umqtt_decode (recv_buf c) (nat pkt_len + cnt + 1) (Some zero_msg);
                if ret < 0 then Some (UMQTT_DECODE_ERROR, c)
                else do { decoded \<leftarrow> m; handle_packet pf ret decoded c } } }) } }"

section \<open>Connecting\<close>

definition UMQTT_DEF_CONNECT_FLAGS :: u8 where
  "UMQTT_DEF_CONNECT_FLAGS = push_bit 1 1"

text \<open>The message \<open>umqtt_connect\<close> builds; the encoder writes the protocol name itself.\<close>

definition connect_msg :: "umqtt_info \<Rightarrow> umqtt_msg" where
  "connect_msg info = zero_msg\<lparr>u_connect :=
     \<lparr> protocol_name = ascii ''MQTC'', protocol_level = PKG_UMQTT_PROTOCOL_LEVEL,
       connect_flags = UMQTT_DEF_CONNECT_FLAGS
         OR (if info_user_name info \<noteq> None then 0x80 else 0)
         OR (if info_password info \<noteq> None then 0x40 else 0),
       keepalive_interval_sec = ucast (PKG_UMQTT_CONNECT_KEEPALIVE_DEF_TIME),
       cn_client_id = info_client_id info,
       cn_will_topic = lwt_topic info, cn_will_message = lwt_message info,
       cn_user_name = info_user_name info,
       cn_password_len = (case info_password info of None \<Rightarrow> 0 | Some s \<Rightarrow> word_of_nat (c_strlen s)),
       cn_password = info_password info \<rparr>\<rparr>"

text \<open>The loop that waits for the connected state, half a second a turn.\<close>

fun connect_wait :: "'w platform \<Rightarrow> nat \<Rightarrow> 'w umqtt_client \<Rightarrow> int \<times> 'w umqtt_client" where
  "connect_wait pf 0 c = (UMQTT_TIMEOUT, c)"
| "connect_wait pf (Suc n) c =
     (if connect_state c = UMQTT_CS_LINKED then (UMQTT_OK, c)
      else connect_wait pf n (c\<lparr>net := p_delay pf 500 (net c)\<rparr>))"

text \<open>
  From the encoder to the labels \<open>disconnect\<close>/\<open>exit\<close>; the result UMQTT_FIN_ACK is the jump to
  \<open>disconnect\<close> that reconnects.
\<close>

definition connect_handshake ::
    "'w platform \<Rightarrow> bool \<Rightarrow> 'w umqtt_client \<Rightarrow> (int \<times> 'w umqtt_client) option" where
  "connect_handshake pf block c = do {
     (r, c) \<leftarrow> encode_and_send pf (\<lambda>r. r \<le> 0) UMQTT_TYPE_CONNECT (Some (connect_msg (mqtt_info c))) c;
     if r < 0 then Some (r, c)
     else do {
       let c = set_uplink_recon_tick pf UPLINK_LAST_TICK c;
       if \<not> block then Some (UMQTT_OK, c)
       else do {
         (r, c) \<leftarrow> umqtt_handle_readpacket pf c;
         if r = UMQTT_FIN_ACK then Some (UMQTT_FIN_ACK, c)
         else if r < 0 then Some (UMQTT_READ_ERROR, c)
         else Some (connect_wait pf (unat (push_bit 1 (connect_time (mqtt_info c)))) c) } } }"

text \<open>
  \<open>goto _reconnect\<close> is the recursive call. The attempts are counted in a byte, so with
  \<open>reconnect_max_num = 255\<close> nothing ends them.
\<close>

partial_function (option) umqtt_connect ::
    "'w platform \<Rightarrow> bool \<Rightarrow> 'w umqtt_client \<Rightarrow> (int \<times> 'w umqtt_client) option" where
  "umqtt_connect pf block c =
     (let c = c\<lparr>reconnect_count := reconnect_count c + 1\<rparr> in
      if reconnect_count c > reconnect_max_num (mqtt_info c)
      then Some (UMQTT_RECONNECT_FAILED,
             set_connect_status UMQTT_CS_DISCONNECT (c\<lparr>reconnect_count := 0\<rparr>))
      else (case umqtt_trans_connect pf (info_uri (mqtt_info c)) (net c) of
        (r, sk, w) \<Rightarrow>
          let c = c\<lparr>sock := sk, net := w\<rparr> in
          Option.bind (if r < 0 then Some (UMQTT_FIN_ACK, c) else connect_handshake pf block c)
            (\<lambda>(r, c).
               if r = UMQTT_FIN_ACK
               then (let c = trans_disconnect pf c in
                     umqtt_connect pf block (c\<lparr>net := p_delay pf 5000 (net c)\<rparr>))
               else Some (r, if r < 0 then set_connect_status UMQTT_CS_DISCONNECT c else c))))"

definition umqtt_disconnect ::
    "'w platform \<Rightarrow> 'w umqtt_client \<Rightarrow> (int \<times> 'w umqtt_client) option" where
  "umqtt_disconnect pf c = do {
     (r, c) \<leftarrow> encode_and_send pf (\<lambda>r. r < 0) UMQTT_TYPE_DISCONNECT None c;
     Some (if r < 0 then r else UMQTT_OK, c) }"

section \<open>The receive thread\<close>

text \<open>One turn of \<open>while (1)\<close>; the flag says whether the thread goes on.\<close>

definition umqtt_thread_turn ::
    "'w platform \<Rightarrow> 'w umqtt_client \<Rightarrow> (bool \<times> 'w umqtt_client) option" where
  "umqtt_thread_turn pf c = do {
     (r, c) \<leftarrow> umqtt_handle_readpacket pf c;
     if r = UMQTT_FIN_ACK
     then do {
       let c = c\<lparr>uplink_timer := map_option (\<lambda>_. False) (uplink_timer c)\<rparr>;
       let c = trans_disconnect pf c;
       (r, c) \<leftarrow> umqtt_connect pf True (c\<lparr>net := p_delay pf 5000 (net c)\<rparr>);
       if r = UMQTT_RECONNECT_FAILED then Some (False, c\<lparr>task_handle := False\<rparr>)
       else Some (True, c) }
     else Some (True, c) }"

text \<open>The thread for at most \<open>n\<close> turns.\<close>

fun umqtt_thread :: "nat \<Rightarrow> 'w platform \<Rightarrow> 'w umqtt_client \<Rightarrow> 'w umqtt_client option" where
  "umqtt_thread 0 pf c = Some c"
| "umqtt_thread (Suc n) pf c = do {
     (goes_on, c) \<leftarrow> umqtt_thread_turn pf c;
     if goes_on then umqtt_thread n pf c else Some c }"

section \<open>Defaults and the uplink timer\<close>

definition umqtt_check_def_info :: "umqtt_info \<Rightarrow> umqtt_info" where
  "umqtt_check_def_info info =
     (let info = (if send_size info = 0 then info\<lparr>send_size := PKG_UMQTT_INFO_DEF_SENDSIZE\<rparr> else info);
          info = (if recv_size info = 0 then info\<lparr>recv_size := PKG_UMQTT_INFO_DEF_RECVSIZE\<rparr> else info);
          info = (if reconnect_max_num info = 0
                  then info\<lparr>reconnect_max_num := PKG_UMQTT_INFO_DEF_RECONNECT_MAX_NUM\<rparr> else info);
          info = (if reconnect_interval info = 0
                  then info\<lparr>reconnect_interval := PKG_UMQTT_INFO_DEF_RECONNECT_INTERVAL\<rparr> else info);
          info = (if keepalive_max_num info = 0
                  then info\<lparr>keepalive_max_num := PKG_UMQTT_INFO_DEF_KEEPALIVE_MAX_NUM\<rparr> else info);
          info = (if keepalive_interval info = 0
                  then info\<lparr>keepalive_interval := PKG_UMQTT_INFO_DEF_HEARTBEAT_INTERVAL\<rparr> else info);
          info = (if connect_time info = 0
                  then info\<lparr>connect_time := PKG_UMQTT_INFO_DEF_CONNECT_TIMEOUT\<rparr> else info);
          info = (if recv_time_ms info = 0
                  then info\<lparr>recv_time_ms := PKG_UMQTT_INFO_DEF_RECV_TIMEOUT_MS\<rparr> else info);
          info = (if send_timeout info = 0
                  then info\<lparr>send_timeout := PKG_UMQTT_INFO_DEF_SEND_TIMEOUT\<rparr> else info);
          info = (if thread_stack_size info = 0
                  then info\<lparr>thread_stack_size := PKG_UMQTT_INFO_DEF_THREAD_STACK_SIZE\<rparr> else info);
          info = (if thread_priority info = 0
                  then info\<lparr>thread_priority := PKG_UMQTT_INFO_DEF_THREAD_PRIORITY\<rparr> else info)
      in info)"

definition call_user_handler :: "'w platform \<Rightarrow> umqtt_evt \<Rightarrow> 'w umqtt_client \<Rightarrow> 'w umqtt_client" where
  "call_user_handler pf e c =
     (case user_handler c of None \<Rightarrow> c | Some k \<Rightarrow> c\<lparr>net := p_user_handler pf k e (net c)\<rparr>)"

text \<open>PINGREQ into the first two bytes of the send buffer, sent if it was encoded.\<close>

definition send_ping :: "'w platform \<Rightarrow> 'w umqtt_client \<Rightarrow> 'w umqtt_client option" where
  "send_ping pf c = do {
     (n, c) \<leftarrow> encode_msg UMQTT_TYPE_PINGREQ 2 None c;
     if n = 2 then do { (_, c) \<leftarrow> send_msg pf 2 c; Some c } else Some c }"

text \<open>
  The keep-alive check. The clock is read once per comparison, as the short-circuit operators of
  the source do.
\<close>

definition umqtt_keepalive_callback ::
    "'w platform \<Rightarrow> 'w umqtt_client \<Rightarrow> (int \<times> 'w umqtt_client) option" where
  "umqtt_keepalive_callback pf c =
     (let connect_kp_time = drop_bit 1 PKG_UMQTT_CONNECT_KEEPALIVE_DEF_TIME in
      if connect_state c \<noteq> UMQTT_CS_LINKED then Some (0, c)
      else (case rt_tick_get pf c of (t, c) \<Rightarrow>
        case (if uplink_next_tick c \<le> t \<and> uplink_next_tick c > uplink_last_tick c then (True, c)
              else (case rt_tick_get pf c of (t, c) \<Rightarrow>
                (pingreq_last_tick c + connect_kp_time < t, c))) of
          (True, c) \<Rightarrow> do {
            c \<leftarrow> send_ping pf c;
            let c = call_user_handler pf UMQTT_EVT_HEARTBEAT c;
            let c = set_uplink_recon_tick pf UPLINK_LAST_TICK c;
            (case rt_tick_get pf c of (t, c) \<Rightarrow> Some (0, c\<lparr>pingreq_last_tick := t\<rparr>)) }
        | (False, c) \<Rightarrow>
            if uplink_last_tick c \<ge> uplink_next_tick c
            then (case rt_tick_get pf c of (t, c) \<Rightarrow>
              if uplink_last_tick c + send_timeout (mqtt_info c) * 1000 < t
              then (let c = c\<lparr>keepalive_count := keepalive_count c + 1\<rparr> in
                if keepalive_count c \<ge> keepalive_max_num (mqtt_info c)
                then Some (0, set_connect_status UMQTT_CS_UNLINK c)
                else do {
                  c \<leftarrow> send_ping pf c;
                  let c = call_user_handler pf UMQTT_EVT_HEARTBEAT c;
                  Some (0, set_uplink_recon_tick pf UPLINK_LAST_TICK c) })
              else Some (0, c))
            else Some (0, c)))"

definition umqtt_reconnect_callback ::
    "'w platform \<Rightarrow> 'w umqtt_client \<Rightarrow> (int \<times> 'w umqtt_client) option" where
  "umqtt_reconnect_callback pf c =
     (if connect_state c = UMQTT_CS_UNLINK
      then Some (0, trans_disconnect pf
             (set_connect_status UMQTT_CS_UNLINK_LINKING (call_user_handler pf UMQTT_EVT_OFFLINE c)))
      else if connect_state c = UMQTT_CS_UNLINK_LINKING
      then (case rt_tick_get pf c of (t, c) \<Rightarrow>
        if reconnect_next_tick c \<le> t
        then (if sock c < 0
              then (if reconnect_count c \<ge> reconnect_max_num (mqtt_info c)
                    then Some (0, (set_connect_status UMQTT_CS_DISCONNECT c)
                           \<lparr>task_handle := False, uplink_timer := map_option (\<lambda>_. False) (uplink_timer c)\<rparr>)
                    else do {
                      let c = set_uplink_recon_tick pf RECON_NEXT_TICK (c\<lparr>keepalive_count := 0\<rparr>);
                      (_, c) \<leftarrow> umqtt_connect pf False c;
                      Some (0, call_user_handler pf UMQTT_EVT_LINK c) })
              else Some (0, trans_disconnect pf c))
        else Some (0, c))
      else Some (0, c))"

definition umqtt_uplink_timer_callback ::
    "'w platform \<Rightarrow> 'w umqtt_client \<Rightarrow> 'w umqtt_client option" where
  "umqtt_uplink_timer_callback pf c = do {
     (_, c) \<leftarrow> umqtt_keepalive_callback pf c;
     (_, c) \<leftarrow> umqtt_reconnect_callback pf c;
     (_, c) \<leftarrow> pubrec_cycle_callback pf c;
     Some c }"

section \<open>Waiting for an acknowledgement\<close>

text \<open>
  \<open>rt_mq_recv\<close> with a timeout: the head of the queue, or the calling thread is blocked while the
  receive thread and the timer take turns (\<open>p_while_blocked\<close> says which, up to the timeout) until
  an acknowledgement is there.
\<close>

definition run_activity ::
    "'w platform \<Rightarrow> activity \<Rightarrow> 'w umqtt_client \<Rightarrow> 'w umqtt_client option" where
  "run_activity pf a c = (case a of
     Reader_Turn \<Rightarrow> (if task_handle c then map_option snd (umqtt_thread_turn pf c) else Some c)
   | Timer_Tick \<Rightarrow> (if uplink_timer c = Some True then umqtt_uplink_timer_callback pf c else Some c))"

fun blocked_recv ::
    "'w platform \<Rightarrow> activity list \<Rightarrow> 'w umqtt_client
     \<Rightarrow> (umqtt_msg_ack option \<times> 'w umqtt_client) option" where
  "blocked_recv pf as c = (case msg_queue c of
     a # q \<Rightarrow> Some (Some a, c\<lparr>msg_queue := q\<rparr>)
   | [] \<Rightarrow> (case as of
       [] \<Rightarrow> Some (None, c)
     | x # as \<Rightarrow> do { c \<leftarrow> run_activity pf x c; blocked_recv pf as c }))"

declare blocked_recv.simps [simp del]

definition ack_mq_recv ::
    "'w platform \<Rightarrow> u32 \<Rightarrow> 'w umqtt_client \<Rightarrow> (umqtt_msg_ack option \<times> 'w umqtt_client) option" where
  "ack_mq_recv pf timeout c =
     (if msg_queue c \<noteq> [] then blocked_recv pf [] c
      else (case p_while_blocked pf (unat timeout) (net c) of (as, w) \<Rightarrow>
        blocked_recv pf as (c\<lparr>net := w\<rparr>)))"

end
