(* ===== verification/Mqtt_Api.thy ===== *)
theory Mqtt_Api
  imports Mqtt_Client
begin

text \<open>
  The public operations of \<open>umqtt.h\<close>: create, delete, start, stop, publish, subscribe,
  unsubscribe, publish without waiting, control. A client pointer that may be null is an option.
  The waits for acknowledgements interleave the receive thread and the timer (\<open>ack_mq_recv\<close>), so
  what these do to the shared send buffer is part of the model.
\<close>

section \<open>Create and delete\<close>

text \<open>
  \<open>umqtt_delete\<close> gives back every block of the client; the result is the return value and the
  QoS 2 messages it leaves allocated. \<open>_ret\<close> in the second condition is what the first one
  assigned.
\<close>

definition umqtt_delete :: "'w umqtt_client option \<Rightarrow> int \<times> umqtt_qos2_msg list" where
  "umqtt_delete client = (case client of
     None \<Rightarrow> (0, [])
   | Some c \<Rightarrow>
       (let ret = c_bool (sub_recv_list c = []) in
        if c_bool (ret = c_bool (qos2_msg_list c = [])) = 0
        then (UMQTT_OK, []) else (UMQTT_OK, qos2_msg_list c)))"

definition new_client :: "umqtt_info \<Rightarrow> subtop_recv_handler list \<Rightarrow> 'w \<Rightarrow> 'w umqtt_client" where
  "new_client info subs w =
    \<lparr> sock = 0, connect_state = UMQTT_CS_IDLE, mqtt_info = info, reconnect_count = 0,
      keepalive_count = 0, pingreq_last_tick = 0, uplink_next_tick = 0, uplink_last_tick = 0,
      reconnect_next_tick = 0, reconnect_last_tick = 0,
      send_buf = replicate (send_size info) 0, recv_buf = replicate (recv_size info) 0,
      send_len = 0, recv_len = 0, packet_id = 0, msg_queue = [], uplink_timer = Some False,
      sub_recv_list_len = int PKG_UMQTT_SUBRECV_DEF_LENGTH, sub_recv_list = subs,
      qos2_msg_list = [], pubrec_msg = replicate PKG_UMQTT_QOS2_QUE_MAX no_pubrec,
      user_handler = None, task_handle = True, net = w \<rparr>"

text \<open>The will topic becomes the first subscription; its copy is made without a null check.\<close>

definition lwt_subscription ::
    "'w platform \<Rightarrow> umqtt_info \<Rightarrow> 'w \<Rightarrow> (subtop_recv_handler list \<times> 'w) option" where
  "lwt_subscription pf info w = (case lwt_topic info of
     None \<Rightarrow> Some ([], w)
   | Some t \<Rightarrow> (case p_malloc pf 1 w of (ok, w) \<Rightarrow>
       if \<not> ok then Some ([], w)
       else (case p_malloc pf (c_strlen t + 1) w of (ok, w) \<Rightarrow>
         if \<not> ok then None
         else Some ([\<lparr> st_topicfilter = Some (cstr t), st_callback = lwt_cb info,
                       st_qos = lwt_qos info \<rparr>], w))))"

text \<open>
  The result is the client pointer, null on failure. Five allocations come before \<open>rt_list_init\<close>
  of the client's own list node; when one of them fails, \<open>umqtt_delete\<close> unlinks a zeroed node, a
  null dereference. When the thread cannot be created the client is given back properly.
\<close>

fun must_succeed :: "('w \<Rightarrow> bool \<times> 'w) list \<Rightarrow> 'w \<Rightarrow> 'w option" where
  "must_succeed [] w = Some w"
| "must_succeed (f # fs) w = (case f w of (ok, w) \<Rightarrow> if ok then must_succeed fs w else None)"

definition umqtt_create ::
    "'w platform \<Rightarrow> umqtt_info \<Rightarrow> 'w \<Rightarrow> ('w umqtt_client option \<times> 'w) option" where
  "umqtt_create pf info w = (case p_malloc pf 1 w of (ok, w) \<Rightarrow>
     if \<not> ok then Some (None, w)
     else do {
       let info = umqtt_check_def_info info;
       (subs, w) \<leftarrow> lwt_subscription pf info w;
       w \<leftarrow> must_succeed [p_malloc pf (recv_size info), p_malloc pf (send_size info),
              p_object_create pf, p_object_create pf, p_object_create pf] w;
       (case p_object_create pf w of (ok, w) \<Rightarrow>
          if \<not> ok then Some (None, w) else Some (Some (new_client info subs w), w)) })"

section \<open>Start and stop\<close>

text \<open>\<open>rt_memset(client->send_buf, 0, send_size)\<close>\<close>

definition clear_send_buf :: "'w umqtt_client \<Rightarrow> 'w umqtt_client option" where
  "clear_send_buf c = do {
     b \<leftarrow> blit (send_buf c) 0 (replicate (send_size (mqtt_info c)) 0);
     Some (c\<lparr>send_buf := b\<rparr>) }"

definition subscribe_msg :: "u16 \<Rightarrow> bytes \<Rightarrow> u8 \<Rightarrow> umqtt_msg" where
  "subscribe_msg pid topic qos = zero_msg\<lparr>m_header := set_hdr_qos UMQTT_QOS1 0, u_head := pid,
     u_subscribe := \<lparr> sb_topic_filter = (sb_topic_filter (u_subscribe zero_msg))[0 :=
         \<lparr> filter_len = word_of_nat (c_strlen topic), topic_filter = Some topic, request_qos = qos \<rparr>],
       sb_topic_count = 1 \<rparr>\<rparr>"

definition unsubscribe_msg :: "u16 \<Rightarrow> bytes \<Rightarrow> umqtt_msg" where
  "unsubscribe_msg pid topic = zero_msg\<lparr>m_header := set_hdr_qos UMQTT_QOS1 0, u_head := pid,
     u_unsubscribe := \<lparr> us_topic_filter = (us_topic_filter (u_unsubscribe zero_msg))[0 :=
         \<lparr> un_filter_len = word_of_nat (c_strlen topic), un_topic_filter = Some topic \<rparr>],
       us_topic_count = 1 \<rparr>\<rparr>"

text \<open>\<open>rt_tick_from_millisecond(client->mqtt_info.send_timeout * 1000)\<close>\<close>

definition ack_timeout :: "'w umqtt_client \<Rightarrow> u32" where
  "ack_timeout c = rt_tick_from_millisecond (sint (send_timeout (mqtt_info c) * 1000))"

fun start_subscriptions ::
    "'w platform \<Rightarrow> subtop_recv_handler list \<Rightarrow> int \<Rightarrow> 'w umqtt_client \<Rightarrow> (int \<times> 'w umqtt_client) option" where
  "start_subscriptions pf [] ret c = Some (ret, c)"
| "start_subscriptions pf (h # hs) ret c = do {
     let (pid, c) = get_next_packetID c;
     topic \<leftarrow> st_topicfilter h;
     c \<leftarrow> clear_send_buf c;
     (r, c) \<leftarrow> encode_and_send pf (\<lambda>r. r \<le> 0) UMQTT_TYPE_SUBSCRIBE
                (Some (subscribe_msg pid topic (st_qos h))) c;
     if r < 0 then start_subscriptions pf hs r c
     else do {
       let c = set_uplink_recon_tick pf UPLINK_LAST_TICK c;
       (a, c) \<leftarrow> ack_mq_recv pf (ack_timeout c) c;
       (case a of
          None \<Rightarrow> start_subscriptions pf hs UMQTT_READ_FAILED c
        | Some a \<Rightarrow>
            if ack_msg_type a = type_code UMQTT_TYPE_SUBACK
            then start_subscriptions pf hs UMQTT_OK (set_uplink_recon_tick pf UPLINK_NEXT_TICK c)
            else start_subscriptions pf hs UMQTT_READ_ERROR c) } }"

definition umqtt_start ::
    "'w platform \<Rightarrow> 'w umqtt_client option \<Rightarrow> (int \<times> 'w umqtt_client option) option" where
  "umqtt_start pf client = (case client of
     None \<Rightarrow> Some (UMQTT_INPARAMS_NULL, None)
   | Some c \<Rightarrow> do {
       (r, c) \<leftarrow> umqtt_connect pf True (set_connect_status UMQTT_CS_LINKING c);
       if r < 0 then Some (r, Some c)
       else do {
         let (started, c) = (case uplink_timer c of
             None \<Rightarrow> (True, c)
           | Some _ \<Rightarrow> (case p_timer_start pf (net c) of (ok, w) \<Rightarrow>
               (ok, c\<lparr>net := w, uplink_timer := Some ok\<rparr>)));
         if \<not> started then Some (UMQTT_FAILED, Some c)
         else do {
           (r, c) \<leftarrow> start_subscriptions pf (sub_recv_list c) r c;
           Some (r, Some c) } } })"

definition umqtt_stop ::
    "'w platform \<Rightarrow> 'w umqtt_client option \<Rightarrow> 'w umqtt_client option option" where
  "umqtt_stop pf client = (case client of
     None \<Rightarrow> Some None
   | Some c \<Rightarrow> do {
       let c = c\<lparr>task_handle := False, uplink_timer := map_option (\<lambda>_. False) (uplink_timer c)\<rparr>;
       (_, c) \<leftarrow> umqtt_disconnect pf c;
       Some (Some (if sock c \<noteq> - 1 then trans_disconnect pf c else c)) })"

section \<open>Publish\<close>

text \<open>\<open>publish.packet_id\<close> is not in the first half word of the union.\<close>

definition publish_msg :: "u8 \<Rightarrow> u16 \<Rightarrow> bytes \<Rightarrow> bytes \<Rightarrow> nat \<Rightarrow> umqtt_msg" where
  "publish_msg qos pid topic payload len = zero_msg\<lparr>
     m_header := set_hdr_dup 0 (set_hdr_qos qos 0),
     u_head := word_of_nat (c_strlen topic),
     u_publish := \<lparr> pb_topic_name = PObj topic, pb_packet_id = pid, pb_payload = PObj payload,
                    pb_payload_len = word_of_nat len \<rparr>\<rparr>"

text \<open>
  \<open>_republish\<close>: send what is in the send buffer, wait for the acknowledgement, \<open>tries\<close> times.
  For QoS 2 the PUBREC is waited for in the same way.
\<close>

fun republish ::
    "'w platform \<Rightarrow> nat \<Rightarrow> umqtt_type \<Rightarrow> u32 \<Rightarrow> 'w umqtt_client \<Rightarrow> (int \<times> 'w umqtt_client) option" where
  "republish pf 0 ack timeout c = Some (UMQTT_READ_ERROR, c)"
| "republish pf (Suc tries) ack timeout c = do {
     (r, c) \<leftarrow> send_msg pf (send_len c) c;
     if r < 0 then Some (UMQTT_SEND_FAILED, c)
     else do {
       (a, c) \<leftarrow> ack_mq_recv pf timeout c;
       (case a of
          Some a \<Rightarrow> Some (if ack_msg_type a = type_code ack then UMQTT_OK else UMQTT_READ_ERROR, c)
        | None \<Rightarrow> republish pf tries ack timeout c) } }"

definition pubrel_msg :: "u16 \<Rightarrow> umqtt_msg" where
  "pubrel_msg pid = zero_msg\<lparr>
     m_header := set_hdr_dup 0 (set_hdr_qos UMQTT_QOS2 (set_hdr_type (type_code UMQTT_TYPE_PUBREL) 0)),
     u_publish := (u_publish zero_msg)\<lparr>pb_packet_id := pid\<rparr>\<rparr>"

text \<open>
  \<open>_repubrel\<close>: the counter is cleared at the label, so after a timeout \<open>++_cnt\<close> is 1 and, with
  \<open>PKG_UMQTT_PUBLISH_RECON_MAX\<close> being 3, the loop goes on until something arrives.
\<close>

partial_function (option) repubrel ::
    "'w platform \<Rightarrow> u16 \<Rightarrow> u32 \<Rightarrow> 'w umqtt_client \<Rightarrow> (int \<times> 'w umqtt_client) option" where
  "repubrel pf pid timeout c =
     Option.bind (encode_and_send pf (\<lambda>r. r \<le> 0) UMQTT_TYPE_PUBREL (Some (pubrel_msg pid)) c)
      (\<lambda>(r, c). if r < 0 then Some (r, c)
       else Option.bind (ack_mq_recv pf timeout c)
        (\<lambda>(a, c). case a of
            Some a \<Rightarrow> Some (if ack_msg_type a = type_code UMQTT_TYPE_PUBCOMP
                           then UMQTT_OK else UMQTT_READ_ERROR, c)
          | None \<Rightarrow> (let cnt = 0 + 1 in
              if cnt \<ge> PKG_UMQTT_PUBLISH_RECON_MAX then Some (UMQTT_READ_ERROR, c)
              else repubrel pf pid timeout c)))"

definition umqtt_publish ::
    "'w platform \<Rightarrow> u8 \<Rightarrow> bytes \<Rightarrow> bytes \<Rightarrow> nat \<Rightarrow> int \<Rightarrow> 'w umqtt_client
     \<Rightarrow> (int \<times> 'w umqtt_client) option" where
  "umqtt_publish pf qos topic payload len timeout c =
     (if len = 0 then None
      else do {
        let (pid, c) = (if qos = UMQTT_QOS0 then (0, c) else get_next_packetID c);
        (r, c) \<leftarrow> encode_msg UMQTT_TYPE_PUBLISH (send_size (mqtt_info c))
                   (Some (publish_msg qos pid topic payload len)) c;
        if r \<le> 0 then Some (UMQTT_ENCODE_ERROR, c)
        else do {
          let c = c\<lparr>send_len := nat r\<rparr>;
          let ticks = rt_tick_from_millisecond timeout;
          let tries = nat PKG_UMQTT_PUBLISH_RECON_MAX;
          if qos = UMQTT_QOS1 then republish pf tries UMQTT_TYPE_PUBACK ticks c
          else if qos = UMQTT_QOS2 then do {
            (r, c) \<leftarrow> republish pf tries UMQTT_TYPE_PUBREC ticks c;
            if r < 0 then Some (r, c) else repubrel pf pid ticks c }
          else do {
            (r, c) \<leftarrow> send_msg pf (send_len c) c;
            Some (if r < 0 then UMQTT_SEND_FAILED else UMQTT_OK, c) } } })"

definition umqtt_publish_async ::
    "'w platform \<Rightarrow> u8 \<Rightarrow> bytes \<Rightarrow> bytes \<Rightarrow> nat \<Rightarrow> 'w umqtt_client \<Rightarrow> (int \<times> 'w umqtt_client) option" where
  "umqtt_publish_async pf qos topic payload len c =
     (if len = 0 then None
      else do {
        let (pid, c) = (if qos = UMQTT_QOS0 then (0, c) else get_next_packetID c);
        (r, c) \<leftarrow> encode_and_send pf (\<lambda>r. r \<le> 0) UMQTT_TYPE_PUBLISH
                   (Some (publish_msg qos pid topic payload len)) c;
        if r < 0 then Some (r, c)
        else Some (r, set_uplink_recon_tick pf UPLINK_NEXT_TICK
                        (set_uplink_recon_tick pf UPLINK_LAST_TICK c)) })"

section \<open>Subscribe and unsubscribe\<close>

text \<open>\<open>rt_strcmp(a, b) == 0\<close>, and \<open>rt_strncmp(a, b, strlen(b)) == 0\<close>: \<open>b\<close> is a prefix of \<open>a\<close>.\<close>

definition c_streq :: "bytes \<Rightarrow> bytes \<Rightarrow> bool" where
  "c_streq a b = (cstr a = cstr b)"

definition c_has_prefix :: "bytes \<Rightarrow> bytes \<Rightarrow> bool" where
  "c_has_prefix a b = (take (c_strlen b) (cstr a) = cstr b)"

definition umqtt_subscribe ::
    "'w platform \<Rightarrow> bytes \<Rightarrow> u8 \<Rightarrow> nat option \<Rightarrow> 'w umqtt_client \<Rightarrow> (int \<times> 'w umqtt_client) option" where
  "umqtt_subscribe pf topic qos callback c =
     (if \<exists>h\<in>set (sub_recv_list c). (case st_topicfilter h of Some f \<Rightarrow> c_streq f topic | None \<Rightarrow> False)
      then Some (0, c)
      else if int (length (sub_recv_list c)) > sub_recv_list_len c then Some (UMQTT_MEM_FULL, c)
      else do {
        let (pid, c) = get_next_packetID c;
        c \<leftarrow> clear_send_buf c;
        (r, c) \<leftarrow> encode_and_send pf (\<lambda>r. r \<le> 0) UMQTT_TYPE_SUBSCRIBE (Some (subscribe_msg pid topic qos)) c;
        if r < 0 then Some (r, c)
        else do {
          let c = set_uplink_recon_tick pf UPLINK_LAST_TICK c;
          (a, c) \<leftarrow> ack_mq_recv pf (ack_timeout c) c;
          (case a of
             None \<Rightarrow> Some (UMQTT_READ_FAILED, c)
           | Some a \<Rightarrow>
               if ack_msg_type a \<noteq> type_code UMQTT_TYPE_SUBACK then Some (UMQTT_READ_ERROR, c)
               else (case malloc pf 1 c of (ok, c) \<Rightarrow>
                 if \<not> ok then None
                 else (case malloc pf (c_strlen topic + 1) c of (ok, c) \<Rightarrow>
                   Some (UMQTT_OK, set_uplink_recon_tick pf UPLINK_NEXT_TICK
                     (c\<lparr>sub_recv_list := \<lparr> st_topicfilter = (if ok then Some (cstr topic) else None),
                        st_callback = callback, st_qos = qos \<rparr> # sub_recv_list c\<rparr>))))) } })"

text \<open>The first subscription that starts with the given topic is the one that goes.\<close>

definition umqtt_unsubscribe ::
    "'w platform \<Rightarrow> bytes \<Rightarrow> 'w umqtt_client \<Rightarrow> (int \<times> 'w umqtt_client) option" where
  "umqtt_unsubscribe pf topic c =
     (case find (\<lambda>h. case st_topicfilter h of Some f \<Rightarrow> c_has_prefix f topic | None \<Rightarrow> False)
            (sub_recv_list c) of
        None \<Rightarrow> Some (0, c)
      | Some h \<Rightarrow> do {
          let (pid, c) = get_next_packetID c;
          (r, c) \<leftarrow> encode_and_send pf (\<lambda>r. r \<le> 0) UMQTT_TYPE_UNSUBSCRIBE
                     (Some (unsubscribe_msg pid topic)) c;
          if r < 0 then Some (r, c)
          else do {
            let c = set_uplink_recon_tick pf UPLINK_LAST_TICK c;
            (a, c) \<leftarrow> ack_mq_recv pf (ack_timeout c) c;
            (case a of
               None \<Rightarrow> Some (UMQTT_TIMEOUT, c)
             | Some a \<Rightarrow>
                 if ack_msg_type a \<noteq> type_code UMQTT_TYPE_UNSUBACK then Some (UMQTT_READ_ERROR, c)
                 else Some (UMQTT_OK, set_uplink_recon_tick pf UPLINK_NEXT_TICK
                        (c\<lparr>sub_recv_list := remove1 h (sub_recv_list c)\<rparr>))) } })"

section \<open>Control\<close>

datatype umqtt_cmd =
    UMQTT_CMD_SUB_CB subtop_recv_handler | UMQTT_CMD_EVT_CB "nat option" | UMQTT_CMD_SET_HB u32
  | UMQTT_CMD_GET_CLIENT_STA | UMQTT_CMD_DISCONNECT | UMQTT_CMD_DEL_HANDLE | UMQTT_CMD_OTHER int

definition umqtt_control ::
    "'w platform \<Rightarrow> umqtt_cmd \<Rightarrow> 'w umqtt_client \<Rightarrow> (int \<times> 'w umqtt_client) option" where
  "umqtt_control pf cmd c = (case cmd of
     UMQTT_CMD_SUB_CB h \<Rightarrow>
       (case st_topicfilter h of
          None \<Rightarrow> if \<exists>p\<in>set (sub_recv_list c). st_topicfilter p \<noteq> None then None
                  else Some (UMQTT_OK, c\<lparr>sub_recv_list := h # sub_recv_list c\<rparr>)
        | Some topic \<Rightarrow>
            if \<exists>p\<in>set (sub_recv_list c).
                 (case st_topicfilter p of Some f \<Rightarrow> c_has_prefix f topic | None \<Rightarrow> False)
            then Some (UMQTT_OK, c)
            else Some (UMQTT_OK, c\<lparr>sub_recv_list := h # sub_recv_list c\<rparr>))
   | UMQTT_CMD_EVT_CB k \<Rightarrow> Some (UMQTT_OK, c\<lparr>user_handler := k\<rparr>)
   | UMQTT_CMD_SET_HB n \<Rightarrow> Some (UMQTT_OK, c\<lparr>mqtt_info := (mqtt_info c)\<lparr>keepalive_interval := n\<rparr>\<rparr>)
   | UMQTT_CMD_GET_CLIENT_STA \<Rightarrow> Some (client_state_code (connect_state c), c)
   | UMQTT_CMD_DEL_HANDLE \<Rightarrow>
       (if task_handle c then Some (UMQTT_OK, c\<lparr>task_handle := False\<rparr>) else None)
   | UMQTT_CMD_DISCONNECT \<Rightarrow> do { (_, c) \<leftarrow> umqtt_disconnect pf c; Some (UMQTT_OK, c) }
   | UMQTT_CMD_OTHER _ \<Rightarrow> Some (UMQTT_OK, c))"

end
