(* ===== verification/Mqtt_Invariant.thy ===== *)
theory Mqtt_Invariant
  imports Mqtt_Api
begin

text \<open>
  The invariant of the client structure and its preservation by every operation, the receive
  thread and the timer, in whatever order they run (\<open>client_reach\<close>).
\<close>

section \<open>The encoder keeps the size of the send buffer\<close>

lemma emit_length: "emit xs w = Some w' \<Longrightarrow> length (fst w') = length (fst w)"
  by (cases w) (auto simp: write_block_def dest: length_blit)

declare umqtt_writeChar.simps [simp del] write_remaining_length.simps [simp del]

lemma writeInt_length: "umqtt_writeInt n w = Some w' \<Longrightarrow> length (fst w') = length (fst w)"
  by (cases w) (auto simp: bind_eq_Some_conv dest!: length_wr)

declare umqtt_writeInt.simps [simp del]

lemma writeChar_length: "umqtt_writeChar x w = Some w' \<Longrightarrow> length (fst w') = length (fst w)"
  by (simp add: writeChar_emit emit_length)

lemma writeCString_length: "umqtt_writeCString s w = Some w' \<Longrightarrow> length (fst w') = length (fst w)"
  by (cases s) (auto simp: writeCString_emit umqtt_writeCString_def [of None] dest: emit_length)

lemma writeMQTTString_length:
  "umqtt_writeMQTTString s w = Some w' \<Longrightarrow> length (fst w') = length (fst w)"
  by (simp add: writeMQTTString_emit emit_length)

lemma encode_loop_length:
  "umqtt_pkgs_encode_loop buf p rc n = Some (k, b) \<Longrightarrow> length b = length buf"
proof (induction buf p rc n arbitrary: k b rule: umqtt_pkgs_encode_loop.induct)
  case (1 buf p rc n)
  let ?d = "(if 0 < n sdiv 128 then word_of_int (n smod 128) OR 0x80 else word_of_int (n smod 128)) :: u8"
  obtain b1 where b1: "wr buf (p + rc) ?d = Some b1"
    using "1.prems" by (subst (asm) umqtt_pkgs_encode_loop.simps) (auto simp: Let_def split: option.splits)
  have "length b = length b1"
  proof (cases "0 < n sdiv 128")
    case True
    then have "umqtt_pkgs_encode_loop b1 p (rc + 1) (n sdiv 128) = Some (k, b)"
      using "1.prems" b1 by (subst (asm) umqtt_pkgs_encode_loop.simps) (simp add: Let_def)
    with True b1 show ?thesis by (intro "1.IH") simp_all
  next
    case False
    then show ?thesis
      using "1.prems" b1 by (subst (asm) umqtt_pkgs_encode_loop.simps) (simp add: Let_def)
  qed
  with length_wr [OF b1] show ?case by simp
qed

lemma remaining_length_length:
  "write_remaining_length n w = Some w' \<Longrightarrow> length (fst w') = length (fst w)"
  by (cases w) (auto simp: write_remaining_length.simps umqtt_pkgs_encode_def bind_eq_Some_conv
      dest!: encode_loop_length)

lemma sub_topics_length: "write_sub_topics fs w = Some w' \<Longrightarrow> length (fst w') = length (fst w)"
  by (induction fs arbitrary: w)
     (auto simp: bind_eq_Some_conv dest!: writeMQTTString_length writeChar_length)

lemma unsub_topics_length: "write_unsub_topics fs w = Some w' \<Longrightarrow> length (fst w') = length (fst w)"
  by (induction fs arbitrary: w) (auto simp: bind_eq_Some_conv dest!: writeCString_length)

lemma wptr_result_length: "wptr_result w = (r, b) \<Longrightarrow> length b = length (fst w)"
  by (cases w) auto

lemmas writer_lengths = emit_length writeInt_length writeChar_length writeCString_length
  writeMQTTString_length remaining_length_length sub_topics_length unsub_topics_length
  wptr_result_length

lemmas serialise_unfold = bind_eq_Some_conv Let_def

lemma optional_write_length:
  "(if b then umqtt_writeMQTTString s w else Some w) = Some w' \<Longrightarrow> length (fst w') = length (fst w)"
  "(if b then Option.bind (umqtt_writeMQTTString s w) (umqtt_writeMQTTString s') else Some w) = Some w'
   \<Longrightarrow> length (fst w') = length (fst w)"
  "(if b then Option.bind (umqtt_writeCString p w) (umqtt_writeChar x)
    else Option.bind (umqtt_writeCString p' w) (umqtt_writeChar x')) = Some w'
   \<Longrightarrow> length (fst w') = length (fst w)"
  by (cases b; auto simp: bind_eq_Some_conv dest!: writer_lengths)+

lemma connect_length:
  assumes "MQTTSerialize_connect buf n o1 = Some (r, b)"
  shows "length b = length buf"
proof (cases "umqtt_pkgs_len (MQTTSerialize_connectLength o1) > n")
  case True
  with assms show ?thesis by (simp add: MQTTSerialize_connect_def)
next
  case False
  note steps = assms [unfolded MQTTSerialize_connect_def Let_def if_not_P [OF False]
      bind_eq_Some_conv option.inject]
  from steps show ?thesis
    by - (elim exE conjE, (drule writer_lengths optional_write_length)+, simp)
qed

lemma zero_length: "MQTTSerialize_zero buf n t = Some (r, b) \<Longrightarrow> length b = length buf"
  by (auto simp: MQTTSerialize_zero_def serialise_unfold split: if_splits dest!: writer_lengths)

lemma subscribe_length: "MQTTSerialize_subscribe buf n pid m = Some (r, b) \<Longrightarrow> length b = length buf"
  by (auto simp: MQTTSerialize_subscribe_def serialise_unfold split: if_splits dest!: writer_lengths)

lemma unsubscribe_length: "MQTTSerialize_unsubscribe buf n pid m = Some (r, b) \<Longrightarrow> length b = length buf"
  by (auto simp: MQTTSerialize_unsubscribe_def serialise_unfold split: if_splits dest!: writer_lengths)

lemma publish_length: "MQTTSerialize_publish buf n d q l m = Some (r, b) \<Longrightarrow> length b = length buf"
  by (auto simp: MQTTSerialize_publish_def serialise_unfold split: if_splits dest!: writer_lengths)

lemma ack_length: "MQTTSerialize_ack buf n t d pid = Some (r, b) \<Longrightarrow> length b = length buf"
  by (auto simp: MQTTSerialize_ack_def serialise_unfold split: if_splits dest!: writer_lengths)

lemmas serialise_lengths = connect_length zero_length subscribe_length unsubscribe_length
  publish_length ack_length

lemma umqtt_encode_length: "umqtt_encode t buf n m = Some (r, b) \<Longrightarrow> length b = length buf"
  by (cases t) (auto simp: umqtt_encode_def encode_entry_defs bind_eq_Some_conv Let_def
      dest!: serialise_lengths)

section \<open>The invariant\<close>

text \<open>The buffers have their configured sizes, the queues and arrays their capacities.\<close>

definition client_inv :: "'w umqtt_client \<Rightarrow> bool" where
  "client_inv c \<longleftrightarrow> length (send_buf c) = send_size (mqtt_info c)
     \<and> length (recv_buf c) = recv_size (mqtt_info c)
     \<and> length (msg_queue c) \<le> PKG_UMQTT_MSG_QUEUE_ACK_DEF_SIZE
     \<and> length (qos2_msg_list c) \<le> PKG_UMQTT_QOS2_QUE_MAX
     \<and> length (pubrec_msg c) = PKG_UMQTT_QOS2_QUE_MAX"

text \<open>Updates of other fields do not matter.\<close>

lemma client_inv_update [simp]:
  "client_inv (c\<lparr>net := w\<rparr>) = client_inv c"
  "client_inv (c\<lparr>sock := s\<rparr>) = client_inv c"
  "client_inv (c\<lparr>connect_state := st\<rparr>) = client_inv c"
  "client_inv (c\<lparr>reconnect_count := n8\<rparr>) = client_inv c"
  "client_inv (c\<lparr>keepalive_count := n8\<rparr>) = client_inv c"
  "client_inv (c\<lparr>pingreq_last_tick := t\<rparr>) = client_inv c"
  "client_inv (c\<lparr>uplink_next_tick := t\<rparr>) = client_inv c"
  "client_inv (c\<lparr>uplink_last_tick := t\<rparr>) = client_inv c"
  "client_inv (c\<lparr>reconnect_next_tick := t\<rparr>) = client_inv c"
  "client_inv (c\<lparr>reconnect_last_tick := t\<rparr>) = client_inv c"
  "client_inv (c\<lparr>send_len := n\<rparr>) = client_inv c"
  "client_inv (c\<lparr>packet_id := p\<rparr>) = client_inv c"
  "client_inv (c\<lparr>uplink_timer := b1\<rparr>) = client_inv c"
  "client_inv (c\<lparr>task_handle := b2\<rparr>) = client_inv c"
  "client_inv (c\<lparr>user_handler := h\<rparr>) = client_inv c"
  "client_inv (c\<lparr>sub_recv_list := hs\<rparr>) = client_inv c"
  "client_inv (c\<lparr>mqtt_info := (mqtt_info c)\<lparr>keepalive_interval := t\<rparr>\<rparr>) = client_inv c"
  by (simp_all add: client_inv_def)

lemma client_inv_buffers [simp]:
  "client_inv c \<Longrightarrow> length b = length (recv_buf c) \<Longrightarrow> client_inv (c\<lparr>recv_buf := b\<rparr>)"
  "client_inv c \<Longrightarrow> length b = length (send_buf c) \<Longrightarrow> client_inv (c\<lparr>send_buf := b\<rparr>)"
  "client_inv c \<Longrightarrow> client_inv (c\<lparr>pubrec_msg := (pubrec_msg c)[i := m]\<rparr>)"
  "client_inv c \<Longrightarrow> client_inv (c\<lparr>qos2_msg_list := remove1 q (qos2_msg_list c)\<rparr>)"
  "client_inv c \<Longrightarrow> msg_queue c = a # as \<Longrightarrow> client_inv (c\<lparr>msg_queue := as\<rparr>)"
  by (auto simp: client_inv_def length_remove1)

text \<open>One preservation lemma per operation, bottom up.\<close>

lemma tick_inv [simp]: "rt_tick_get pf c = (t, c') \<Longrightarrow> client_inv c' = client_inv c"
  by (auto simp: rt_tick_get_def split: prod.splits)

lemma malloc_inv [simp]: "malloc pf n c = (t, c') \<Longrightarrow> client_inv c' = client_inv c"
  by (auto simp: malloc_def split: prod.splits)

lemma set_tick_inv [simp]: "client_inv (set_uplink_recon_tick pf i c) = client_inv c"
  by (cases i) (simp_all add: set_uplink_recon_tick_def split: prod.split)

lemma set_status_inv [simp]: "client_inv (set_connect_status s c) = client_inv c"
  by (simp add: set_connect_status_def)

lemma user_handler_inv [simp]: "client_inv (call_user_handler pf e c) = client_inv c"
  by (simp add: call_user_handler_def split: option.split)

lemma trans_disconnect_inv [simp]: "client_inv (trans_disconnect pf c) = client_inv c"
  by (simp add: trans_disconnect_def split: prod.split)

lemma next_id_inv: "get_next_packetID c = (p, c') \<Longrightarrow> client_inv c' = client_inv c"
  by (auto simp: get_next_packetID_def Let_def)

lemma dup_string_inv:
  "dup_string pf p n c = Some (ok, q, c') \<Longrightarrow> client_inv c' = client_inv c \<and> qos2_msg_list c' = qos2_msg_list c"
  by (auto simp: dup_string_def malloc_def bind_eq_Some_conv split: if_splits prod.splits)

lemma add_qos2_inv:
  assumes "add_one_qos2_msg pf tnl m c = Some (r, c')" and "client_inv c"
  shows "client_inv c'"
proof -
  obtain ok c1 where m1: "malloc pf 1 c = (ok, c1)" by fastforce
  then have q: "qos2_msg_list c1 = qos2_msg_list c" by (auto simp: malloc_def split: prod.splits)
  have c1: "client_inv c1" using m1 assms(2) by simp
  show ?thesis
  proof (cases "ok \<and> qos2_msg_list c = []")
    case False
    then have "\<not> ok \<or> PKG_UMQTT_QOS2_QUE_MAX \<le> length (qos2_msg_list c)"
      by (simp add: Suc_le_eq)
    with assms m1 c1 show ?thesis by (auto simp: add_one_qos2_msg_def split: if_splits)
  next
    case True
    then have q0: "qos2_msg_list c1 = []" using q by simp
    from True assms(1) m1 obtain ok1 t1 c2 where
      d1: "dup_string pf (pb_topic_name m) (unat tnl) c1 = Some (ok1, t1, c2)"
      by (cases "dup_string pf (pb_topic_name m) (unat tnl) c1") (auto simp: add_one_qos2_msg_def)
    from True assms(1) m1 d1 obtain ok2 t2 c3 where
      d2: "dup_string pf (pb_payload m) (unat (pb_payload_len m)) c2 = Some (ok2, t2, c3)"
      by (cases "dup_string pf (pb_payload m) (unat (pb_payload_len m)) c2")
         (auto simp: add_one_qos2_msg_def)
    have c3: "client_inv c3" "qos2_msg_list c3 = []"
      using dup_string_inv [OF d1] dup_string_inv [OF d2] c1 q0 by simp_all
    from True assms(1) m1 d1 d2 c3 show ?thesis
      by (simp add: add_one_qos2_msg_def Let_def split: if_splits) (auto simp: client_inv_def)
  qed
qed

lemma add_pubrec_inv [simp]: "client_inv (snd (add_one_pubrec_msg pf pid c)) = client_inv c"
  by (auto simp: add_one_pubrec_msg_def rt_tick_get_def client_inv_def split: option.split prod.split)

lemma clear_pubrec_inv [simp]: "client_inv (snd (clear_one_pubrec_msg pid c)) = client_inv c"
  by (auto simp: clear_one_pubrec_msg_def client_inv_def split: option.split)

lemma deliver_inv:
  "deliver_loop pf topic len tnl m hs c = Some c' \<Longrightarrow> client_inv c \<Longrightarrow> client_inv c'"
proof (induction hs arbitrary: c)
  case (Cons h hs)
  show ?case
    using Cons.prems
    by (auto simp: bind_eq_Some_conv split: option.splits if_splits dest!: Cons.IH)
qed simp

lemma deliver_message_inv:
  "umqtt_deliver_message pf p len tnl m c = Some c' \<Longrightarrow> client_inv c \<Longrightarrow> client_inv c'"
  by (auto simp: umqtt_deliver_message_def split: if_splits intro: deliver_inv)

lemma qos2_delete_noop: "qos2_publish_delete pf pid c = Some (UMQTT_OK, c)"
  by (auto simp: qos2_publish_delete_def c_bool_def)

lemma encode_msg_inv: "encode_msg t n m c = Some (r, c') \<Longrightarrow> client_inv c \<Longrightarrow> client_inv c'"
  by (auto simp: encode_msg_def bind_eq_Some_conv intro!: client_inv_buffers dest: umqtt_encode_length)

lemma send_msg_inv: "send_msg pf n c = Some (r, c') \<Longrightarrow> client_inv c \<Longrightarrow> client_inv c'"
  by (auto simp: send_msg_def bind_eq_Some_conv)

lemma encode_and_send_inv:
  "encode_and_send pf bad t m c = Some (r, c') \<Longrightarrow> client_inv c \<Longrightarrow> client_inv c'"
  by (auto simp: encode_and_send_def bind_eq_Some_conv Let_def split: if_splits
      dest!: encode_msg_inv send_msg_inv)

lemma pubrec_cycle_inv:
  "pubrec_cycle_loop pf is ret c = Some (r, c') \<Longrightarrow> client_inv c \<Longrightarrow> client_inv c'"
proof (induction "is" arbitrary: ret c)
  case (Cons i "is")
  obtain t1 c1 where t1: "rt_tick_get pf c = (t1, c1)" by fastforce
  obtain t2 c2 where t2: "rt_tick_get pf c1 = (t2, c2)" by fastforce
  from Cons.prems t1 t2 show ?case
    by (auto simp: Let_def bind_eq_Some_conv qos2_delete_noop split: if_splits
        dest!: encode_and_send_inv Cons.IH)
qed simp

lemma pubrec_callback_inv:
  "pubrec_cycle_callback pf c = Some (r, c') \<Longrightarrow> client_inv c \<Longrightarrow> client_inv c'"
  unfolding pubrec_cycle_callback_def by (rule pubrec_cycle_inv)

lemma trans_recv_length:
  "umqtt_trans_recv pf sk buf off n w = Some (r, e, b, w') \<Longrightarrow> length b = length buf"
  by (auto simp: umqtt_trans_recv_def bind_eq_Some_conv split: prod.splits recv_result.splits
      dest: length_blit)

lemma tick_only_net: "rt_tick_get pf c = (t, c') \<Longrightarrow> \<exists>w. c' = c\<lparr>net := w\<rparr>"
  by (auto simp: rt_tick_get_def split: prod.splits)

text \<open>Reading changes the buffer it is given and the world, nothing else of the client.\<close>

lemma readpacket_loop_frame:
  fixes c :: "'w umqtt_client"
  assumes "readpacket_loop pf buf off len got end_tick c = Some y"
  shows "length (fst (snd y)) = length buf \<and> (\<exists>w. snd (snd y) = c\<lparr>net := w\<rparr>)"
proof -
  define Q where "Q = (\<lambda>(pf :: 'w platform) (buf :: bytes) (off :: nat) (len :: nat) (got :: nat)
    (end_tick :: u32) (c :: 'w umqtt_client) (y :: int \<times> bytes \<times> 'w umqtt_client).
    length (fst (snd y)) = length buf \<and> (\<exists>w. snd (snd y) = c\<lparr>net := w\<rparr>))"
  have "Q pf buf off len got end_tick c y"
    using assms
  proof (rule readpacket_loop.raw_induct [where P = Q, rotated])
    fix loop and pf :: "'w platform" and buf off len got end_tick c y
    assume IH: "\<And>pf buf off len got end_tick c y.
        loop pf buf off len got end_tick c = Some y \<Longrightarrow> Q pf buf off len got end_tick c y"
      and body: "(if got < len
        then Option.bind (umqtt_trans_recv pf (sock c) buf (off + got) (len - got) (net c))
        (\<lambda>(ret, errno, buf, w). let c = c\<lparr>net := w\<rparr> in
          if ret = - 1 \<and> \<not> (errno = EINTR \<or> errno = EWOULDBLOCK \<or> errno = EAGAIN)
          then Some (UMQTT_READ_FAILED, buf, c)
          else if ret = 0 then Some (UMQTT_FIN_ACK, buf, c)
          else (let got = (if ret = - 1 then got else got + nat ret) in
            case rt_tick_get pf c of (t, c) \<Rightarrow>
              if t - end_tick < 0x7FFFFFFF then Some (UMQTT_READ_TIMEOUT, buf, c)
              else loop pf buf off len got end_tick c))
        else Some (UMQTT_OK, buf, c)) = Some y"
    show "Q pf buf off len got end_tick c y"
    proof (cases "got < len")
      case False
      with body have "y = (UMQTT_OK, buf, c)" by simp
      then show ?thesis by (simp add: Q_def) (metis umqtt_client.surjective umqtt_client.update_convs(24))
    next
      case True
      with body obtain ret e b w where
        recv: "umqtt_trans_recv pf (sock c) buf (off + got) (len - got) (net c) = Some (ret, e, b, w)"
        by (cases "umqtt_trans_recv pf (sock c) buf (off + got) (len - got) (net c)") auto
      obtain t c1 where t: "rt_tick_get pf (c\<lparr>net := w\<rparr>) = (t, c1)" by fastforce
      from tick_only_net [OF this] obtain w1 where c1: "c1 = c\<lparr>net := w1\<rparr>" by auto
      have len: "length b = length buf" using recv by (rule trans_recv_length)
      note body' = body [unfolded if_P [OF True] recv bind.bind_lunit prod.case Let_def t]
      show ?thesis
      proof (cases "ret = 0 \<or> t - end_tick < 0x7FFFFFFF
          \<or> ret = - 1 \<and> \<not> (e = EINTR \<or> e = EWOULDBLOCK \<or> e = EAGAIN)")
        case True
        with body' len c1 show ?thesis by (auto simp: Q_def split: if_splits)
      next
        case False
        then obtain got' where "loop pf b off len got' end_tick c1 = Some y"
          using body' by (auto split: if_splits)
        from IH [OF this] len c1 show ?thesis by (simp add: Q_def)
      qed
    qed
  qed
  then show ?thesis by (simp add: Q_def)
qed

lemma readpacket_frame:
  assumes "umqtt_readpacket pf buf off len timeout c = Some (r, b, c')"
  shows "length b = length buf \<and> (\<exists>w. c' = c\<lparr>net := w\<rparr>)"
proof -
  obtain t c1 where t: "rt_tick_get pf c = (t, c1)" by fastforce
  from tick_only_net [OF t] obtain w where "c1 = c\<lparr>net := w\<rparr>" by auto
  with assms t show ?thesis
    by (auto simp: umqtt_readpacket_def Let_def split: if_splits dest!: readpacket_loop_frame)
qed

lemma readpacket_inv:
  assumes "umqtt_readpacket pf buf off len timeout c = Some (r, b, c')"
  shows "length b = length buf" "client_inv c' = client_inv c" "recv_buf c' = recv_buf c"
  using readpacket_frame [OF assms] by auto

lemma read_length_inv:
  "read_length pf cnt l m c = Some (r, c') \<Longrightarrow> client_inv c \<Longrightarrow> client_inv c'"
proof (induction pf cnt l m c arbitrary: r c' rule: read_length.induct)
  case (1 pf cnt l m c)
  show ?case
  proof (cases "cnt + 1 > 4")
    case True
    with "1.prems" show ?thesis by (subst (asm) read_length.simps) simp
  next
    case False
    then obtain ret b c1 where
      rp: "umqtt_readpacket pf [0] 0 1 (recv_time_ms (mqtt_info c)) c = Some (ret, b, c1)"
      using "1.prems"(1)
      by (subst (asm) read_length.simps) (auto simp: Let_def split: option.splits)
    then have c1: "client_inv c1" using readpacket_inv [OF rp] "1.prems"(2) by simp
    show ?thesis
    proof (cases "ret = UMQTT_OK")
      case ok: False
      with False rp "1.prems"(1) c1 show ?thesis
        by (subst (asm) read_length.simps) (simp add: Let_def split: if_splits)
    next
      case ok: True
      with False rp "1.prems"(1) obtain rb where rb: "wr (recv_buf c1) (cnt + 1) (hd b) = Some rb"
        by (subst (asm) read_length.simps) (auto simp: Let_def split: option.splits)
      then have c2: "client_inv (c1\<lparr>recv_buf := rb\<rparr>)" using c1 by (auto dest: length_wr)
      show ?thesis
      proof (cases "hd b AND 0x80 = 0")
        case True
        with False ok rp rb "1.prems"(1) c2 show ?thesis
          by (subst (asm) read_length.simps) (auto simp: Let_def)
      next
        case more: False
        then have "read_length pf (cnt + 1) (l + uint (hd b AND 0x7F) * m) (m * 0x80)
            (c1\<lparr>recv_buf := rb\<rparr>) = Some (r, c')"
          using False ok rp rb "1.prems"(1)
          by (subst (asm) read_length.simps) (simp add: Let_def)
        with "1.IH" [OF refl] False rp ok rb more c2 show ?thesis by auto
      qed
    qed
  qed
qed

lemma discard_inv: "discard_packet pf n l c = Some c' \<Longrightarrow> client_inv c \<Longrightarrow> client_inv c'"
proof (induction n arbitrary: l c)
  case 0
  then show ?case by (auto simp: bind_eq_Some_conv readpacket_inv)
next
  case (Suc n)
  then obtain r b c1 where
    rp: "umqtt_readpacket pf (recv_buf c) 0 (recv_size (mqtt_info c)) (recv_time_ms (mqtt_info c)) c
      = Some (r, b, c1)"
    and d: "discard_packet pf n (l - recv_size (mqtt_info c1)) (c1\<lparr>recv_buf := b\<rparr>) = Some c'
      \<or> discard_packet pf n (l - recv_size (mqtt_info c)) (c1\<lparr>recv_buf := b\<rparr>) = Some c'"
    by (auto simp: bind_eq_Some_conv)
  have "client_inv (c1\<lparr>recv_buf := b\<rparr>)" using Suc.prems readpacket_inv [OF rp] by simp
  with d show ?case by (auto dest: Suc.IH)
qed

lemma ack_mq_send_inv: "ack_mq_send a c = (ok, c') \<Longrightarrow> client_inv c \<Longrightarrow> client_inv c'"
  by (auto simp: ack_mq_send_def client_inv_def split: if_splits)

lemma forward_ack_inv: "forward_ack pf t b a m c = (r, c') \<Longrightarrow> client_inv c \<Longrightarrow> client_inv c'"
  by (auto simp: forward_ack_def Let_def split: if_splits prod.splits bool.splits dest!: ack_mq_send_inv)

lemma on_publish_inv:
  assumes "on_publish pf ret m c = Some (r, c')" and "client_inv c"
  shows "client_inv c'"
proof -
  define c0 where "c0 = set_uplink_recon_tick pf UPLINK_NEXT_TICK c"
  have c0: "client_inv c0" using assms(2) by (simp add: c0_def)
  let ?q = "hdr_qos (m_header m)"
  from assms(1) obtain c1 where
    del: "(if ?q \<noteq> UMQTT_QOS2
           then umqtt_deliver_message pf (pb_topic_name (u_publish m)) (unat (u_head m)) (u_head m)
                 (u_publish m) c0
           else Some c0) = Some c1"
    by (auto simp: on_publish_def Let_def c0_def bind_eq_Some_conv split: if_splits)
  have c1: "client_inv c1" using del c0 by (auto split: if_splits dest: deliver_message_inv)
  show ?thesis
  proof (cases "?q = UMQTT_QOS0")
    case True
    then show ?thesis using assms(1) del c1 by (simp add: on_publish_def Let_def c0_def [symmetric])
  next
    case False
    then obtain t h pid c2 where
      es: "encode_and_send pf (\<lambda>r. r < 0) t (Some (zero_msg\<lparr>m_header := h, u_head := pid\<rparr>)) c2 = Some (r, c')"
      and c2: "client_inv c2"
      using assms(1) del c1
      by (auto simp: on_publish_def Let_def c0_def [symmetric] bind_eq_Some_conv split: if_splits
          dest!: add_qos2_inv)
    then show ?thesis by (rule encode_and_send_inv)
  qed
qed

lemma on_pubrel_inv: "on_pubrel pf m c = Some (r, c') \<Longrightarrow> client_inv c \<Longrightarrow> client_inv c'"
  by (auto simp: on_pubrel_def Let_def qos2_delete_noop dest!: encode_and_send_inv)

lemma handle_packet_inv:
  assumes "handle_packet pf ret m c = Some (r, c')" and "client_inv c"
  shows "client_inv c'"
  using assms
  by (auto simp: handle_packet_def split: option.splits umqtt_type.splits
      dest: on_publish_inv on_pubrel_inv forward_ack_inv)

lemma recv_turn_inv:
  "umqtt_trans_recv pf sk (recv_buf c) off n w = Some (r, e, b, w') \<Longrightarrow> client_inv c
    \<Longrightarrow> client_inv (c\<lparr>recv_buf := b, net := w'\<rparr>)"
  by (auto dest: trans_recv_length)

lemma handle_readpacket_inv:
  assumes "umqtt_handle_readpacket pf c = Some (r, c')" and "client_inv c"
  shows "client_inv c'"
proof -
  from assms(1) obtain tr e rb w where
    r1: "umqtt_trans_recv pf (sock c) (recv_buf c) 0 1 (net c) = Some (tr, e, rb, w)"
    by (auto simp: umqtt_handle_readpacket_def bind_eq_Some_conv)
  define c1 where "c1 = c\<lparr>recv_buf := rb, net := w\<rparr>"
  have c1: "client_inv c1" unfolding c1_def by (rule recv_turn_inv [OF r1 assms(2)])
  show ?thesis
  proof (cases "tr \<le> 0")
    case True
    then show ?thesis using assms(1) r1 c1
      by (auto simp: umqtt_handle_readpacket_def Let_def c1_def)
  next
    case False
    then obtain res c2 where rl: "read_length pf 0 0 1 c1 = Some (res, c2)"
      using assms(1) r1 by (auto simp: umqtt_handle_readpacket_def Let_def c1_def [symmetric] bind_eq_Some_conv)
    then have c2: "client_inv c2" using c1 by (rule read_length_inv)
    note body = assms(1) [unfolded umqtt_handle_readpacket_def r1 bind.bind_lunit prod.case Let_def
        if_not_P [OF False] c1_def [symmetric] rl]
    show ?thesis
    proof (cases res)
      case (Inl ret)
      with body c2 show ?thesis by simp
    next
      case (Inr p)
      then obtain cnt len where p: "res = Inr (cnt, len)" by (cases p) auto
      show ?thesis
      proof (cases "len + 1 + int cnt > int (recv_size (mqtt_info c2))")
        case True
        with body p c2 show ?thesis by (auto simp: bind_eq_Some_conv dest: discard_inv)
      next
        case fits: False
        then obtain ret rb2 c3 where
          rp: "umqtt_readpacket pf (recv_buf c2) (cnt + 1) (nat len) (recv_time_ms (mqtt_info c2)) c2
            = Some (ret, rb2, c3)"
          using body p by (auto simp: bind_eq_Some_conv)
        define c4 where "c4 = c3\<lparr>recv_buf := rb2\<rparr>"
        have c4: "client_inv c4" using readpacket_inv [OF rp] c2 by (simp add: c4_def)
        from body p fits rp have "c' = c4 \<or> (\<exists>m ret. handle_packet pf ret m c4 = Some (r, c'))"
          by (auto simp: c4_def [symmetric] bind_eq_Some_conv split: if_splits)
        with c4 show ?thesis by (auto dest: handle_packet_inv)
      qed
    qed
  qed
qed

lemma connect_wait_inv: "connect_wait pf n c = (r, c') \<Longrightarrow> client_inv c \<Longrightarrow> client_inv c'"
  by (induction n arbitrary: c) (auto split: if_splits)

lemma handshake_inv:
  assumes "connect_handshake pf block c = Some (r, c')" and "client_inv c"
  shows "client_inv c'"
proof -
  from assms(1) obtain r1 c1 where
    es: "encode_and_send pf (\<lambda>r. r \<le> 0) UMQTT_TYPE_CONNECT (Some (connect_msg (mqtt_info c))) c = Some (r1, c1)"
    by (auto simp: connect_handshake_def bind_eq_Some_conv)
  have c1: "client_inv c1" using es assms(2) by (rule encode_and_send_inv)
  define c2 where "c2 = set_uplink_recon_tick pf UPLINK_LAST_TICK c1"
  have c2: "client_inv c2" using c1 by (simp add: c2_def)
  from assms(1) es consider "c' = c1" | "c' = c2"
    | r3 c3 where "umqtt_handle_readpacket pf c2 = Some (r3, c3)" "c' = c3"
    | r3 c3 n where "umqtt_handle_readpacket pf c2 = Some (r3, c3)" "connect_wait pf n c3 = (r, c')"
    by (auto simp: connect_handshake_def Let_def c2_def [symmetric] bind_eq_Some_conv split: if_splits)
  then show ?thesis
    by cases (use c1 c2 in \<open>auto dest: handle_readpacket_inv connect_wait_inv\<close>)
qed

text \<open>
  The reconnect loop. \<open>connect_body f pf block c\<close> is its body with the recursive call \<open>f\<close>.
\<close>

definition reconnect_body ::
    "('w platform \<Rightarrow> bool \<Rightarrow> 'w umqtt_client \<Rightarrow> (int \<times> 'w umqtt_client) option)
     \<Rightarrow> 'w platform \<Rightarrow> bool \<Rightarrow> 'w umqtt_client \<Rightarrow> (int \<times> 'w umqtt_client) option" where
  "reconnect_body f pf block c =
     (let c = c\<lparr>reconnect_count := reconnect_count c + 1\<rparr> in
      if reconnect_count c > reconnect_max_num (mqtt_info c)
      then Some (UMQTT_RECONNECT_FAILED,
             set_connect_status UMQTT_CS_DISCONNECT (c\<lparr>reconnect_count := 0\<rparr>))
      else (case umqtt_trans_connect pf (info_uri (mqtt_info c)) (net c) of
        (r, sk, w) \<Rightarrow>
          let c = c\<lparr>sock := sk, net := w\<rparr> in
          Option.bind (if r < 0 then Some (UMQTT_FIN_ACK, c) else connect_handshake pf block c)
            (\<lambda>(r, c).
               if r = UMQTT_FIN_ACK
               then (let c = trans_disconnect pf c in
                     f pf block (c\<lparr>net := p_delay pf 5000 (net c)\<rparr>))
               else Some (r, if r < 0 then set_connect_status UMQTT_CS_DISCONNECT c else c))))"

lemma reconnect_body_inv:
  assumes "reconnect_body f pf block c = Some (r, c')" and "client_inv c"
    and "\<And>c1. f pf block c1 = Some (r, c') \<Longrightarrow> client_inv c1 \<Longrightarrow> client_inv c'"
  shows "client_inv c'"
proof -
  define c1 where "c1 = c\<lparr>reconnect_count := reconnect_count c + 1\<rparr>"
  have c1: "client_inv c1" using assms(2) by (simp add: c1_def)
  obtain rt sk w where tc: "umqtt_trans_connect pf (info_uri (mqtt_info c1)) (net c1) = (rt, sk, w)"
    by (metis prod_cases3)
  define c2 where "c2 = c1\<lparr>sock := sk, net := w\<rparr>"
  have c2: "client_inv c2" using c1 by (simp add: c2_def)
  show ?thesis
  proof (cases "reconnect_count c1 > reconnect_max_num (mqtt_info c1)")
    case True
    with assms(1) c1 show ?thesis
      by (auto simp: reconnect_body_def Let_def c1_def [symmetric])
  next
    case False
    note body = assms(1) [unfolded reconnect_body_def Let_def, folded c1_def,
        unfolded if_not_P [OF False] tc prod.case, folded c2_def]
    then obtain r3 c3 where
      hs: "(if rt < 0 then Some (UMQTT_FIN_ACK, c2) else connect_handshake pf block c2) = Some (r3, c3)"
      and rest: "(if r3 = UMQTT_FIN_ACK
        then f pf block ((trans_disconnect pf c3)\<lparr>net := p_delay pf 5000 (net (trans_disconnect pf c3))\<rparr>)
        else Some (r3, if r3 < 0 then set_connect_status UMQTT_CS_DISCONNECT c3 else c3)) = Some (r, c')"
      unfolding bind_eq_Some_conv by auto
    have "client_inv c3" using hs c2 by (auto split: if_splits dest: handshake_inv)
    with rest assms(3) show ?thesis by (auto split: if_splits)
  qed
qed

lemma umqtt_connect_inv:
  fixes c :: "'w umqtt_client"
  assumes "umqtt_connect pf block c = Some (r, c')" and "client_inv c"
  shows "client_inv c'"
proof -
  define Q where "Q = (\<lambda>(pf :: 'w platform) (block :: bool) (c :: 'w umqtt_client)
    (y :: int \<times> 'w umqtt_client). client_inv c \<longrightarrow> client_inv (snd y))"
  have "Q pf block c (r, c')"
    using assms(1)
  proof (rule umqtt_connect.raw_induct [where P = Q, rotated, folded reconnect_body_def])
    fix f and pf :: "'w platform" and block c y
    assume "\<And>pf block c y. f pf block c = Some y \<Longrightarrow> Q pf block c y"
      and "reconnect_body f pf block c = Some y"
    then show "Q pf block c y"
      by (cases y) (auto simp: Q_def intro: reconnect_body_inv)
  qed
  with assms(2) show ?thesis by (simp add: Q_def)
qed

lemma umqtt_disconnect_inv: "umqtt_disconnect pf c = Some (r, c') \<Longrightarrow> client_inv c \<Longrightarrow> client_inv c'"
  by (auto simp: umqtt_disconnect_def bind_eq_Some_conv dest: encode_and_send_inv)

lemma thread_turn_inv:
  assumes "umqtt_thread_turn pf c = Some (g, c')" and "client_inv c"
  shows "client_inv c'"
proof -
  from assms(1) obtain r1 c1 where hr: "umqtt_handle_readpacket pf c = Some (r1, c1)"
    by (auto simp: umqtt_thread_turn_def bind_eq_Some_conv)
  have c1: "client_inv c1" using hr assms(2) by (rule handle_readpacket_inv)
  note body = assms(1) [unfolded umqtt_thread_turn_def hr bind.bind_lunit prod.case Let_def]
  show ?thesis
  proof (cases "r1 = UMQTT_FIN_ACK")
    case False
    with body c1 show ?thesis by simp
  next
    case True
    define c2 where "c2 = c1\<lparr>uplink_timer := map_option (\<lambda>_. False) (uplink_timer c1)\<rparr>"
    define c3 where "c3 = (trans_disconnect pf c2)\<lparr>net := p_delay pf 5000 (net (trans_disconnect pf c2))\<rparr>"
    have c3: "client_inv c3" using c1 by (simp add: c3_def c2_def)
    from body [unfolded if_P [OF True], folded c2_def, folded c3_def]
    obtain r4 c4 where "umqtt_connect pf True c3 = Some (r4, c4)"
      and "c' = c4 \<or> c' = c4\<lparr>task_handle := False\<rparr>"
      unfolding bind_eq_Some_conv by (auto split: if_splits)
    with c3 show ?thesis by (auto dest: umqtt_connect_inv)
  qed
qed

lemma send_ping_inv: "send_ping pf c = Some c' \<Longrightarrow> client_inv c \<Longrightarrow> client_inv c'"
  by (auto simp: send_ping_def bind_eq_Some_conv split: if_splits dest!: encode_msg_inv send_msg_inv)

lemma keepalive_inv:
  assumes "umqtt_keepalive_callback pf c = Some (r, c')" and "client_inv c"
  shows "client_inv c'"
proof (cases "connect_state c = UMQTT_CS_LINKED")
  case False
  with assms show ?thesis by (simp add: umqtt_keepalive_callback_def)
next
  case True
  obtain t1 c1 where t1: "rt_tick_get pf c = (t1, c1)" by fastforce
  obtain t2 c2 where t2: "rt_tick_get pf c1 = (t2, c2)" by fastforce
  obtain due c3 where d: "(if uplink_next_tick c1 \<le> t1 \<and> uplink_next_tick c1 > uplink_last_tick c1
      then (True, c1) else (pingreq_last_tick c2 + drop_bit 1 PKG_UMQTT_CONNECT_KEEPALIVE_DEF_TIME < t2, c2))
      = (due, c3)" by fastforce
  have c3: "client_inv c3" using d t1 t2 assms(2) by (auto split: if_splits)
  obtain t4 c4 where t4: "rt_tick_get pf c3 = (t4, c4)" by fastforce
  have c4: "client_inv c4" using t4 c3 by simp
  define c5 where "c5 = c4\<lparr>keepalive_count := keepalive_count c4 + 1\<rparr>"
  have c5: "client_inv c5" using c4 by (simp add: c5_def)
  have nl: "\<not> connect_state c \<noteq> UMQTT_CS_LINKED" using True by simp
  note body = assms(1) [unfolded umqtt_keepalive_callback_def Let_def if_not_P [OF nl] t1 prod.case
      t2 d, unfolded t4 prod.case, folded c5_def]
  show ?thesis
  proof (cases due)
    case True
    from body [unfolded eqTrueI [OF True] bool.case] obtain c6 where
      p: "send_ping pf c3 = Some c6"
      by (cases "send_ping pf c3") auto
    obtain t7 c7 where t7: "rt_tick_get pf (set_uplink_recon_tick pf UPLINK_LAST_TICK
        (call_user_handler pf UMQTT_EVT_HEARTBEAT c6)) = (t7, c7)" by fastforce
    from body [unfolded eqTrueI [OF True] bool.case p bind.bind_lunit t7 prod.case]
    have "c' = c7\<lparr>pingreq_last_tick := t7\<rparr>" by simp
    with t7 send_ping_inv [OF p c3] show ?thesis by simp
  next
    case False
    then have nd: "due = False" by simp
    from body [unfolded nd bool.case] c3 c4 c5 show ?thesis
      by (auto simp: bind_eq_Some_conv split: if_splits dest!: send_ping_inv)
  qed
qed

lemma reconnect_callback_inv:
  assumes "umqtt_reconnect_callback pf c = Some (r, c')" and "client_inv c"
  shows "client_inv c'"
proof -
  obtain t c1 where t: "rt_tick_get pf c = (t, c1)" by fastforce
  have c1: "client_inv c1" using t assms(2) by simp
  define c2 where "c2 = set_uplink_recon_tick pf RECON_NEXT_TICK (c1\<lparr>keepalive_count := 0\<rparr>)"
  have c2: "client_inv c2" using c1 by (simp add: c2_def)
  note body = assms(1) [unfolded umqtt_reconnect_callback_def t prod.case Let_def, folded c2_def]
  from body c1 c2 assms(2) show ?thesis
    by (auto simp: bind_eq_Some_conv split: if_splits dest!: umqtt_connect_inv)
qed

lemma timer_callback_inv:
  "umqtt_uplink_timer_callback pf c = Some c' \<Longrightarrow> client_inv c \<Longrightarrow> client_inv c'"
  by (auto simp: umqtt_uplink_timer_callback_def bind_eq_Some_conv
      dest!: keepalive_inv reconnect_callback_inv pubrec_callback_inv)

lemma run_activity_inv: "run_activity pf a c = Some c' \<Longrightarrow> client_inv c \<Longrightarrow> client_inv c'"
  by (auto simp: run_activity_def split: activity.splits if_splits
      dest: thread_turn_inv timer_callback_inv)

lemma blocked_recv_inv:
  "blocked_recv pf as c = Some (a, c') \<Longrightarrow> client_inv c \<Longrightarrow> client_inv c'"
proof (induction "as" arbitrary: c)
  case Nil
  then show ?case
    by (subst (asm) blocked_recv.simps) (auto split: list.splits)
next
  case (Cons x as)
  from Cons.prems show ?case
    by (subst (asm) blocked_recv.simps)
       (auto simp: bind_eq_Some_conv split: list.splits dest!: run_activity_inv Cons.IH)
qed

lemma ack_mq_recv_inv: "ack_mq_recv pf t c = Some (a, c') \<Longrightarrow> client_inv c \<Longrightarrow> client_inv c'"
  by (auto simp: ack_mq_recv_def split: if_splits prod.splits dest!: blocked_recv_inv)

section \<open>The public operations keep the invariant\<close>

lemma clear_send_buf_inv: "clear_send_buf c = Some c' \<Longrightarrow> client_inv c \<Longrightarrow> client_inv c'"
  by (auto simp: clear_send_buf_def bind_eq_Some_conv dest: length_blit)

lemma start_subscriptions_inv:
  "start_subscriptions pf hs ret c = Some (r, c') \<Longrightarrow> client_inv c \<Longrightarrow> client_inv c'"
proof (induction hs arbitrary: ret c)
  case (Cons h hs)
  obtain pid c1 where id: "get_next_packetID c = (pid, c1)" by fastforce
  have c1: "client_inv c1" using id Cons.prems(2) by (simp add: next_id_inv)
  from Cons.prems(1) id obtain topic c2 r3 c3 where
    c2: "clear_send_buf c1 = Some c2" and
    es: "encode_and_send pf (\<lambda>r. r \<le> 0) UMQTT_TYPE_SUBSCRIBE
           (Some (subscribe_msg pid topic (st_qos h))) c2 = Some (r3, c3)" and
    topic: "st_topicfilter h = Some topic"
    by (auto simp: Let_def bind_eq_Some_conv)
  have c3: "client_inv c3" using encode_and_send_inv [OF es clear_send_buf_inv [OF c2 c1]] .
  define c4 where "c4 = set_uplink_recon_tick pf UPLINK_LAST_TICK c3"
  have c4: "client_inv c4" using c3 by (simp add: c4_def)
  note body = Cons.prems(1) [unfolded start_subscriptions.simps Let_def id prod.case topic
      bind.bind_lunit c2 es, folded c4_def]
  show ?case
  proof (cases "r3 < 0")
    case True
    with body have "start_subscriptions pf hs r3 c3 = Some (r, c')" by simp
    then show ?thesis using c3 by (rule Cons.IH)
  next
    case False
    from body [unfolded if_not_P [OF False]] obtain a c5 where
      rv: "ack_mq_recv pf (ack_timeout c4) c4 = Some (a, c5)"
      and rest: "(case a of
          None \<Rightarrow> start_subscriptions pf hs UMQTT_READ_FAILED c5
        | Some a \<Rightarrow>
            if ack_msg_type a = type_code UMQTT_TYPE_SUBACK
            then start_subscriptions pf hs UMQTT_OK (set_uplink_recon_tick pf UPLINK_NEXT_TICK c5)
            else start_subscriptions pf hs UMQTT_READ_ERROR c5) = Some (r, c')"
      unfolding bind_eq_Some_conv by auto
    have "client_inv c5" using rv c4 by (rule ack_mq_recv_inv)
    then show ?thesis using rest
      by (auto split: option.splits if_splits dest!: Cons.IH)
  qed
qed simp

lemma republish_inv:
  "republish pf n ack t c = Some (r, c') \<Longrightarrow> client_inv c \<Longrightarrow> client_inv c'"
  by (induction n arbitrary: c)
     (auto simp: bind_eq_Some_conv split: if_splits option.splits dest!: send_msg_inv ack_mq_recv_inv)

definition repubrel_body ::
    "('w platform \<Rightarrow> u16 \<Rightarrow> u32 \<Rightarrow> 'w umqtt_client \<Rightarrow> (int \<times> 'w umqtt_client) option)
     \<Rightarrow> 'w platform \<Rightarrow> u16 \<Rightarrow> u32 \<Rightarrow> 'w umqtt_client \<Rightarrow> (int \<times> 'w umqtt_client) option" where
  "repubrel_body f pf pid timeout c =
     Option.bind (encode_and_send pf (\<lambda>r. r \<le> 0) UMQTT_TYPE_PUBREL (Some (pubrel_msg pid)) c)
      (\<lambda>(r, c). if r < 0 then Some (r, c)
       else Option.bind (ack_mq_recv pf timeout c)
        (\<lambda>(a, c). case a of
            Some a \<Rightarrow> Some (if ack_msg_type a = type_code UMQTT_TYPE_PUBCOMP
                           then UMQTT_OK else UMQTT_READ_ERROR, c)
          | None \<Rightarrow> (let cnt = 0 + 1 in
              if cnt \<ge> PKG_UMQTT_PUBLISH_RECON_MAX then Some (UMQTT_READ_ERROR, c)
              else f pf pid timeout c)))"

lemma repubrel_body_inv:
  assumes "repubrel_body f pf pid t c = Some (r, c')" and "client_inv c"
    and "\<And>c1. f pf pid t c1 = Some (r, c') \<Longrightarrow> client_inv c1 \<Longrightarrow> client_inv c'"
  shows "client_inv c'"
  using assms
  by (auto simp: repubrel_body_def bind_eq_Some_conv split: if_splits option.splits
      dest!: encode_and_send_inv ack_mq_recv_inv)

lemma repubrel_inv:
  fixes c :: "'w umqtt_client"
  assumes "repubrel pf pid t c = Some (r, c')" and "client_inv c"
  shows "client_inv c'"
proof -
  define Q where "Q = (\<lambda>(pf :: 'w platform) (pid :: u16) (t :: u32) (c :: 'w umqtt_client)
    (y :: int \<times> 'w umqtt_client). client_inv c \<longrightarrow> client_inv (snd y))"
  have "Q pf pid t c (r, c')"
    using assms(1)
  proof (rule repubrel.raw_induct [where P = Q, rotated, folded repubrel_body_def])
    fix f and pf :: "'w platform" and pid t c y
    assume "\<And>pf pid t c y. f pf pid t c = Some y \<Longrightarrow> Q pf pid t c y"
      and "repubrel_body f pf pid t c = Some y"
    then show "Q pf pid t c y"
      by (cases y) (auto simp: Q_def intro: repubrel_body_inv)
  qed
  with assms(2) show ?thesis by (simp add: Q_def)
qed

lemma publish_inv:
  assumes "umqtt_publish pf qos topic pl len t c = Some (r, c')" and "client_inv c"
  shows "client_inv c'"
proof -
  obtain pid c1 where id: "(if qos = UMQTT_QOS0 then (0, c) else get_next_packetID c) = (pid, c1)"
    by fastforce
  have c1: "client_inv c1" using id assms(2) by (auto split: if_splits simp: next_id_inv)
  have len: "len \<noteq> 0"
  proof
    assume "len = 0"
    with assms(1) show False by (simp add: umqtt_publish_def)
  qed
  note body = assms(1) [unfolded umqtt_publish_def if_not_P [OF len] Let_def id prod.case]
  from body obtain r2 c2 where
    em: "encode_msg UMQTT_TYPE_PUBLISH (send_size (mqtt_info c1))
      (Some (publish_msg qos pid topic pl len)) c1 = Some (r2, c2)"
    unfolding bind_eq_Some_conv by auto
  define c3 where "c3 = c2\<lparr>send_len := nat r2\<rparr>"
  have c2: "client_inv c2" and c3: "client_inv c3"
    using encode_msg_inv [OF em c1] by (simp_all add: c3_def)
  note body2 = body [unfolded em bind.bind_lunit prod.case, folded c3_def]
  show ?thesis
  proof (cases "r2 \<le> 0")
    case True
    with body2 c2 show ?thesis by simp
  next
    case False
    from body2 [unfolded if_not_P [OF False]] c3 show ?thesis
      by (auto simp: bind_eq_Some_conv split: if_splits dest!: republish_inv repubrel_inv send_msg_inv)
  qed
qed

lemma publish_async_inv:
  assumes "umqtt_publish_async pf qos topic pl len c = Some (r, c')" and "client_inv c"
  shows "client_inv c'"
  using assms
  by (auto simp: umqtt_publish_async_def Let_def bind_eq_Some_conv split: if_splits prod.splits
      dest!: encode_and_send_inv simp: next_id_inv)

lemma subscribe_inv:
  assumes "umqtt_subscribe pf topic qos cb c = Some (r, c')" and "client_inv c"
  shows "client_inv c'"
proof -
  obtain pid c1 where id: "get_next_packetID c = (pid, c1)" by fastforce
  have c1: "client_inv c1" using id assms(2) by (simp add: next_id_inv)
  note body = assms(1) [unfolded umqtt_subscribe_def Let_def id prod.case]
  from body consider "c' = c" | c2 r3 c3 where "clear_send_buf c1 = Some c2"
      "encode_and_send pf (\<lambda>r. r \<le> 0) UMQTT_TYPE_SUBSCRIBE (Some (subscribe_msg pid topic qos)) c2
        = Some (r3, c3)"
    by (auto simp: bind_eq_Some_conv split: if_splits)
  then show ?thesis
  proof cases
    case 1
    with assms(2) show ?thesis by simp
  next
    case 2
    have c3: "client_inv c3" using encode_and_send_inv [OF 2(2) clear_send_buf_inv [OF 2(1) c1]] .
    from body [unfolded 2 bind.bind_lunit prod.case] c3 assms(2) show ?thesis
      by (auto simp: bind_eq_Some_conv split: if_splits option.splits prod.splits
          dest!: ack_mq_recv_inv)
  qed
qed

lemma unsubscribe_inv:
  assumes "umqtt_unsubscribe pf topic c = Some (r, c')" and "client_inv c"
  shows "client_inv c'"
proof -
  obtain pid c1 where id: "get_next_packetID c = (pid, c1)" by fastforce
  have c1: "client_inv c1" using id assms(2) by (simp add: next_id_inv)
  note body = assms(1) [unfolded umqtt_unsubscribe_def Let_def id prod.case]
  from body consider "c' = c" | h r3 c3 where
      "find (\<lambda>h. case st_topicfilter h of Some f \<Rightarrow> c_has_prefix f topic | None \<Rightarrow> False)
        (sub_recv_list c) = Some h"
      "encode_and_send pf (\<lambda>r. r \<le> 0) UMQTT_TYPE_UNSUBSCRIBE (Some (unsubscribe_msg pid topic)) c1
        = Some (r3, c3)"
    by (auto simp: bind_eq_Some_conv split: option.splits)
  then show ?thesis
  proof cases
    case 1
    with assms(2) show ?thesis by simp
  next
    case 2
    have c3: "client_inv c3" using encode_and_send_inv [OF 2(2) c1] .
    define c4 where "c4 = set_uplink_recon_tick pf UPLINK_LAST_TICK c3"
    have c4: "client_inv c4" using c3 by (simp add: c4_def)
    note rest = body [unfolded 2 option.case bind.bind_lunit prod.case, folded c4_def]
    show ?thesis
    proof (cases "r3 < 0")
      case True
      with rest c3 show ?thesis by simp
    next
      case False
      from rest [unfolded if_not_P [OF False]] obtain a c5 where
        rv: "ack_mq_recv pf (ack_timeout c4) c4 = Some (a, c5)"
        unfolding bind_eq_Some_conv by auto
      have "client_inv c5" using rv c4 by (rule ack_mq_recv_inv)
      with rest [unfolded if_not_P [OF False] rv bind.bind_lunit prod.case] show ?thesis
        by (cases a) (auto split: if_splits)
    qed
  qed
qed

lemma control_inv:
  assumes "umqtt_control pf cmd c = Some (r, c')" and "client_inv c"
  shows "client_inv c'"
  using assms
  by (auto simp: umqtt_control_def bind_eq_Some_conv split: umqtt_cmd.splits if_splits option.splits
      dest!: umqtt_disconnect_inv)

lemma new_client_inv: "client_inv (new_client info subs w)"
  by (simp add: client_inv_def new_client_def)

section \<open>Every run keeps the invariant\<close>

text \<open>What can happen to a client between creation and deletion, in any order.\<close>

datatype client_action =
    Do_Activity activity
  | Do_Start | Do_Stop
  | Do_Publish u8 bytes bytes nat int
  | Do_Publish_Async u8 bytes bytes nat
  | Do_Subscribe bytes u8 "nat option"
  | Do_Unsubscribe bytes
  | Do_Control umqtt_cmd

definition client_step ::
    "'w platform \<Rightarrow> client_action \<Rightarrow> 'w umqtt_client \<Rightarrow> 'w umqtt_client option" where
  "client_step pf a c = (case a of
     Do_Activity x \<Rightarrow> run_activity pf x c
   | Do_Start \<Rightarrow> do { (_, r) \<leftarrow> umqtt_start pf (Some c); r }
   | Do_Stop \<Rightarrow> do { r \<leftarrow> umqtt_stop pf (Some c); r }
   | Do_Publish qos topic pl len t \<Rightarrow> map_option snd (umqtt_publish pf qos topic pl len t c)
   | Do_Publish_Async qos topic pl len \<Rightarrow> map_option snd (umqtt_publish_async pf qos topic pl len c)
   | Do_Subscribe topic qos cb \<Rightarrow> map_option snd (umqtt_subscribe pf topic qos cb c)
   | Do_Unsubscribe topic \<Rightarrow> map_option snd (umqtt_unsubscribe pf topic c)
   | Do_Control cmd \<Rightarrow> map_option snd (umqtt_control pf cmd c))"

lemma start_inv:
  assumes "umqtt_start pf (Some c) = Some (r, Some c')" and "client_inv c"
  shows "client_inv c'"
proof -
  from assms(1) obtain r1 c1 where
    cn: "umqtt_connect pf True (set_connect_status UMQTT_CS_LINKING c) = Some (r1, c1)"
    by (auto simp: umqtt_start_def bind_eq_Some_conv)
  have c1: "client_inv c1" using umqtt_connect_inv [OF cn] assms(2) by simp
  obtain started c2 where st: "(case uplink_timer c1 of None \<Rightarrow> (True, c1)
      | Some _ \<Rightarrow> (case p_timer_start pf (net c1) of (ok, w) \<Rightarrow>
          (ok, c1\<lparr>net := w, uplink_timer := Some ok\<rparr>))) = (started, c2)" by fastforce
  have c2: "client_inv c2" using st c1 by (auto split: option.splits prod.splits)
  from assms(1) [unfolded umqtt_start_def option.case Let_def cn bind.bind_lunit prod.case st]
  show ?thesis
    using c1 c2 by (auto simp: bind_eq_Some_conv split: if_splits dest!: start_subscriptions_inv)
qed

lemma client_step_inv:
  assumes "client_step pf a c = Some c'" and "client_inv c"
  shows "client_inv c'"
proof (cases a)
  case Do_Start
  with assms start_inv show ?thesis by (auto simp: client_step_def bind_eq_Some_conv)
next
  case Do_Stop
  with assms show ?thesis
    by (auto simp: client_step_def umqtt_stop_def bind_eq_Some_conv Let_def split: if_splits
        dest!: umqtt_disconnect_inv)
qed (use assms in \<open>auto simp: client_step_def dest: run_activity_inv publish_inv publish_async_inv
       subscribe_inv unsubscribe_inv control_inv\<close>)

interpretation client: step_invariant "client_step pf" client_inv for pf
  by unfold_locales (rule client_step_inv)

lemma umqtt_create_inv:
  assumes "umqtt_create pf info w = Some (Some c, w')"
  shows "client_inv c"
proof -
  from assms obtain info' subs w1 where "c = new_client info' subs w1"
    by (auto simp: umqtt_create_def Let_def bind_eq_Some_conv case_prod_beta
        simp del: must_succeed.simps split: if_splits)
  then show ?thesis by (simp add: new_client_inv)
qed

text \<open>
  Whatever is done with a client after its creation (starting, publishing, subscribing, the
  receive thread handling packets of any content, the timer, reconnects), in any order and on any
  platform, as long as it returns, its buffers keep the sizes in its configuration, at most four
  acknowledgements wait, and the QoS 2 lists keep their capacity. (That it returns is the subject of the
  theorems about its operations.)
\<close>

theorem client_invariant:
  assumes "umqtt_create pf info w = Some (Some c, w')"
    and "run_steps (client_step pf) as c = Some c'"
  shows "client_inv c'"
  using assms(2) umqtt_create_inv [OF assms(1)] by (rule client.run_keeps)

definition sample_info :: umqtt_info where
  "sample_info = \<lparr> send_size = 0, recv_size = 64, info_uri = uri_scheme ''tcp://b:1'',
     info_client_id = None, lwt_topic = None, lwt_message = None, info_user_name = None,
     info_password = None, lwt_qos = 0, lwt_cb = None, reconnect_max_num = 0, reconnect_interval = 0,
     keepalive_max_num = 0, keepalive_interval = 0, recv_time_ms = 0, connect_time = 0,
     send_timeout = 0, thread_stack_size = 0, thread_priority = 0 \<rparr>"

theorem client_invariant_witness:
  "client_inv (new_client (umqtt_check_def_info sample_info) [] ([] :: bytes)
     \<lparr>user_handler := Some 7, mqtt_info := (umqtt_check_def_info sample_info)\<lparr>keepalive_interval := 5\<rparr>\<rparr>)"
proof (rule client_invariant [of two_byte_socket sample_info "[]" _ "[]"
      "[Do_Control (UMQTT_CMD_EVT_CB (Some 7)), Do_Control (UMQTT_CMD_SET_HB 5)]"])
  show "umqtt_create two_byte_socket sample_info []
      = Some (Some (new_client (umqtt_check_def_info sample_info) [] []), [])"
    by (simp add: umqtt_create_def two_byte_socket_def Let_def lwt_subscription_def
        umqtt_check_def_info_def sample_info_def)
qed (simp add: client_step_def umqtt_control_def new_client_def)

end
