(* ===== verification/Mqtt_Session.thy ===== *)
theory Mqtt_Session
  imports Mqtt_Invariant
begin

text \<open>
  The client against a byte stream: reassembly of packets however the socket cuts them, delivery
  to the subscribed callbacks, acknowledgement of QoS 1 messages, and what becomes of QoS 2.

  A platform is observed through functions on its world: \<open>inp\<close> the bytes the socket has yet to
  deliver, \<open>out\<close> the bytes sent, \<open>seen\<close> the messages the callbacks were given (or, where no callback
  runs, whatever else the line and the clock leave alone).
\<close>

section \<open>Observers of a platform\<close>

type_synonym seen_msg = "nat \<times> bytes \<times> bytes"

text \<open>\<open>recv\<close> delivers at least one byte while there are any; nothing else takes from the stream.\<close>

definition recv_contract :: "'w platform \<Rightarrow> ('w \<Rightarrow> bytes) \<Rightarrow> ('w \<Rightarrow> bytes) \<Rightarrow> ('w \<Rightarrow> 's) \<Rightarrow> bool" where
  "recv_contract pf inp out seen \<longleftrightarrow> (\<forall>sk n w. 0 < n \<longrightarrow> inp w \<noteq> [] \<longrightarrow>
     (\<exists>d w'. p_recv pf sk n w = (Recv_Data d, w') \<and> d \<noteq> [] \<and> length d \<le> n
        \<and> inp w = d @ inp w' \<and> out w' = out w \<and> seen w' = seen w))"

text \<open>
  The clock: all readings are in \<open>T\<close>, and no two of them are a timeout apart (\<open>in_time\<close>).
\<close>

definition clock_contract ::
    "'w platform \<Rightarrow> u32 set \<Rightarrow> ('w \<Rightarrow> bytes) \<Rightarrow> ('w \<Rightarrow> bytes) \<Rightarrow> ('w \<Rightarrow> 's) \<Rightarrow> bool" where
  "clock_contract pf T inp out seen \<longleftrightarrow> (\<forall>w t w'. p_tick pf w = (t, w') \<longrightarrow>
     t \<in> T \<and> inp w' = inp w \<and> out w' = out w \<and> seen w' = seen w)"

definition in_time :: "u32 set \<Rightarrow> u32 \<Rightarrow> bool" where
  "in_time T timeout \<longleftrightarrow> (\<forall>t\<in>T. \<forall>t'\<in>T.
     \<not> t - (t' + (rt_tick_from_millisecond (sint timeout) AND 0x7FFFFFFF)) < 0x7FFFFFFF)"

text \<open>\<open>send\<close> as in \<open>send_contract\<close>, and it makes progress.\<close>

definition out_contract ::
    "'w platform \<Rightarrow> ('w \<Rightarrow> bytes) \<Rightarrow> ('w \<Rightarrow> bytes) \<Rightarrow> ('w \<Rightarrow> 's) \<Rightarrow> bool" where
  "out_contract pf inp out seen \<longleftrightarrow> (\<forall>sk xs w. xs \<noteq> [] \<longrightarrow>
     (\<exists>n w'. p_send pf sk xs w = (Send_Count n, w') \<and> 0 < n \<and> n \<le> length xs
        \<and> out w' = out w @ take n xs \<and> inp w' = inp w \<and> seen w' = seen w))"

text \<open>Callbacks that note the topic and the payload they are pointed to.\<close>

definition callback_contract ::
    "'w platform \<Rightarrow> ('w \<Rightarrow> bytes) \<Rightarrow> ('w \<Rightarrow> bytes) \<Rightarrow> ('w \<Rightarrow> seen_msg list) \<Rightarrow> bool" where
  "callback_contract pf inp out seen \<longleftrightarrow> (\<forall>k tnl m b w topic pl.
     received_topic b (zero_msg\<lparr>u_head := tnl, u_publish := m\<rparr>) = Some topic \<longrightarrow>
     received_payload b (zero_msg\<lparr>u_head := tnl, u_publish := m\<rparr>) = Some pl \<longrightarrow>
     (\<exists>w'. p_callback pf k tnl m b w = Some (b, w') \<and> seen w' = seen w @ [(k, topic, pl)]
        \<and> inp w' = inp w \<and> out w' = out w))"

definition well_behaved ::
    "'w platform \<Rightarrow> u32 set \<Rightarrow> ('w \<Rightarrow> bytes) \<Rightarrow> ('w \<Rightarrow> bytes) \<Rightarrow> ('w \<Rightarrow> seen_msg list) \<Rightarrow> bool" where
  "well_behaved pf T inp out seen \<longleftrightarrow> recv_contract pf inp out seen
     \<and> clock_contract pf T inp out seen \<and> out_contract pf inp out seen
     \<and> callback_contract pf inp out seen"

text \<open>The part of it that is about the line and the clock alone.\<close>

definition line_contract ::
    "'w platform \<Rightarrow> u32 set \<Rightarrow> ('w \<Rightarrow> bytes) \<Rightarrow> ('w \<Rightarrow> bytes) \<Rightarrow> ('w \<Rightarrow> 's) \<Rightarrow> bool" where
  "line_contract pf T inp out seen \<longleftrightarrow> recv_contract pf inp out seen
     \<and> clock_contract pf T inp out seen \<and> out_contract pf inp out seen"

lemma well_behaved_line: "well_behaved pf T inp out seen \<Longrightarrow> line_contract pf T inp out seen"
  by (simp add: well_behaved_def line_contract_def)

text \<open>
  A concrete one: the socket delivers up to three bytes a call and takes up to two, the clock
  stands still, and the world is what the observers see.
\<close>

type_synonym lab = "bytes \<times> bytes \<times> seen_msg list"

definition lab_platform :: "lab platform" where
  "lab_platform =
    \<lparr> p_getaddrinfo = (\<lambda>_ _ w. ((0, Some 1), w)), p_socket = (\<lambda>_ w. (3, w)),
      p_connect = (\<lambda>_ _ w. (0, w)), p_closesocket = (\<lambda>_ w. ((0, 0), w)),
      p_send = (\<lambda>_ xs (i, p, s). (Send_Count (min 2 (length xs)), (i, p @ take 2 xs, s))),
      p_recv = (\<lambda>_ n (i, p, s). (Recv_Data (take (min 3 n) i), (drop (min 3 n) i, p, s))),
      p_malloc = (\<lambda>_ w. (True, w)),
      p_tick = (\<lambda>w. (0, w)), p_delay = (\<lambda>_ w. w), p_object_create = (\<lambda>w. (True, w)),
      p_timer_start = (\<lambda>w. (True, w)),
      p_callback = (\<lambda>k tnl m b (i, p, s).
        (case (received_topic b (zero_msg\<lparr>u_head := tnl, u_publish := m\<rparr>),
               received_payload b (zero_msg\<lparr>u_head := tnl, u_publish := m\<rparr>)) of
           (Some t, Some pl) \<Rightarrow> Some (b, (i, p, s @ [(k, t, pl)]))
         | _ \<Rightarrow> None)),
      p_user_handler = (\<lambda>_ _ w. w), p_while_blocked = (\<lambda>_ w. ([], w)) \<rparr>"

abbreviation lab_inp :: "lab \<Rightarrow> bytes" where "lab_inp \<equiv> fst"
abbreviation lab_out :: "lab \<Rightarrow> bytes" where "lab_out \<equiv> \<lambda>w. fst (snd w)"
abbreviation lab_seen :: "lab \<Rightarrow> seen_msg list" where "lab_seen \<equiv> \<lambda>w. snd (snd w)"

lemma lab_well_behaved: "well_behaved lab_platform {0} lab_inp lab_out lab_seen"
  unfolding well_behaved_def
proof (intro conjI)
  show "recv_contract lab_platform lab_inp lab_out lab_seen"
    by (auto simp: recv_contract_def lab_platform_def split: prod.split)
  show "clock_contract lab_platform {0} lab_inp lab_out lab_seen"
    by (simp add: clock_contract_def lab_platform_def)
  show "out_contract lab_platform lab_inp lab_out lab_seen"
    by (auto simp: out_contract_def lab_platform_def min_def split: prod.split)
  show "callback_contract lab_platform lab_inp lab_out lab_seen"
    by (simp add: callback_contract_def lab_platform_def split: prod.split)
qed

section \<open>Packet ids\<close>

primrec next_ids :: "nat \<Rightarrow> 'w umqtt_client \<Rightarrow> u16 list" where
  "next_ids 0 c = []"
| "next_ids (Suc n) c = (case get_next_packetID c of (p, c) \<Rightarrow> p # next_ids n c)"

lemma unat_next_id: "unat (fst (get_next_packetID c)) = unat (packet_id c) mod 65535 + 1"
proof (cases "packet_id c = 65535")
  case True
  then show ?thesis by (simp add: get_next_packetID_def)
next
  case False
  then have "unat (packet_id c) \<noteq> 65535"
    by (simp add: word_unat_eq_iff)
  then have "unat (packet_id c) < 65535" using unat_u16_less [of "packet_id c"] by simp
  then show ?thesis
    using False unat_add_lem [of "packet_id c" 1] by (simp add: get_next_packetID_def Let_def)
qed

lemma nth_next_ids:
  "k < n \<Longrightarrow> unat (next_ids n c ! k) = (unat (packet_id c) + k) mod 65535 + 1"
proof (induction n arbitrary: c k)
  case (Suc n)
  obtain p c1 where id: "get_next_packetID c = (p, c1)" by fastforce
  then have p: "unat p = unat (packet_id c) mod 65535 + 1" using unat_next_id [of c] by simp
  have c1: "packet_id c1 = p" using id by (auto simp: get_next_packetID_def Let_def)
  show ?case
  proof (cases k)
    case 0
    then show ?thesis by (simp add: id p)
  next
    case (Suc j)
    then have "unat (next_ids n c1 ! j) = (unat p + j) mod 65535 + 1"
      using Suc.prems Suc.IH [of j c1] c1 by simp
    also have "(unat p + j) mod 65535 = (unat (packet_id c) mod 65535 + (1 + j)) mod 65535"
      by (simp add: p)
    also have "\<dots> = (unat (packet_id c) + k) mod 65535"
      by (simp only: mod_add_left_eq Suc plus_1_eq_Suc)
    finally show ?thesis by (simp add: id Suc)
  qed
qed simp

lemma mod_add_inj:
  "(a + i) mod m = (a + j) mod m \<Longrightarrow> i < m \<Longrightarrow> j < m \<Longrightarrow> i = (j :: nat)"
proof (induction i j rule: linorder_wlog)
  case (le i j)
  have "a + i \<le> a + j" using le.hyps by simp
  from mod_eq_dvd_iff_nat [OF this, of m] le.prems(1) have "m dvd j - i" by auto
  then have "j - i = 0" using le.prems(3) nat_dvd_not_less [of "j - i" m] by fastforce
  with le.hyps show ?case by simp
next
  case (sym i j)
  then show ?case by metis
qed

lemma length_next_ids [simp]: "length (next_ids n c) = n"
  by (induction n arbitrary: c) (simp_all split: prod.split)

text \<open>
  Packet ids are never 0, and 65535 successive ones are all different, wherever the counter
  starts.
\<close>

theorem packet_ids_distinct:
  assumes "n \<le> 65535"
  shows "distinct (next_ids n c) \<and> 0 \<notin> set (next_ids n c)"
proof
  show "distinct (next_ids n c)"
    unfolding distinct_conv_nth length_next_ids
  proof (intro allI impI)
    fix i j :: nat
    assume i: "i < n" and j: "j < n" and "i \<noteq> j"
    have "(unat (packet_id c) + i) mod 65535 \<noteq> (unat (packet_id c) + j) mod 65535"
      using i j assms \<open>i \<noteq> j\<close> by (auto dest!: mod_add_inj)
    then show "next_ids n c ! i \<noteq> next_ids n c ! j"
      using nth_next_ids [OF i, of c] nth_next_ids [OF j, of c] by auto
  qed
  show "0 \<notin> set (next_ids n c)"
  proof
    assume "0 \<in> set (next_ids n c)"
    then obtain i where "i < n" "next_ids n c ! i = 0" by (auto simp: in_set_conv_nth)
    with nth_next_ids [of i n c] show False by simp
  qed
qed

theorem packet_ids_distinct_witness:
  "distinct (next_ids 300 (new_client sample_info [] ([] :: bytes)\<lparr>packet_id := 65400\<rparr>))
   \<and> 0 \<notin> set (next_ids 300 (new_client sample_info [] ([] :: bytes)\<lparr>packet_id := 65400\<rparr>))"
  by (rule packet_ids_distinct) simp

section \<open>Reading from the stream\<close>

lemma recvD:
  assumes "line_contract pf T inp out seen" and "0 < n" and "inp w \<noteq> []"
  shows "\<exists>d w'. p_recv pf sk n w = (Recv_Data d, w') \<and> d \<noteq> [] \<and> length d \<le> n
        \<and> inp w = d @ inp w' \<and> out w' = out w \<and> seen w' = seen w"
  using assms unfolding line_contract_def recv_contract_def by blast

lemma tickD:
  assumes "line_contract pf T inp out seen" and "rt_tick_get pf c = (t, c')"
  shows "t \<in> T" and "\<exists>w'. c' = c\<lparr>net := w'\<rparr> \<and> inp w' = inp (net c) \<and> out w' = out (net c)
    \<and> seen w' = seen (net c)"
proof -
  obtain w' where p: "p_tick pf (net c) = (t, w')" and c': "c' = c\<lparr>net := w'\<rparr>"
    using assms(2) by (auto simp: rt_tick_get_def split: prod.splits)
  have "t \<in> T \<and> inp w' = inp (net c) \<and> out w' = out (net c) \<and> seen w' = seen (net c)"
    using assms(1) p unfolding line_contract_def clock_contract_def by blast
  with c' show "t \<in> T" and "\<exists>w'. c' = c\<lparr>net := w'\<rparr> \<and> inp w' = inp (net c) \<and> out w' = out (net c)
    \<and> seen w' = seen (net c)" by auto
qed

text \<open>The observers agree on two worlds but for the bytes read.\<close>

definition read_upto ::
    "('w \<Rightarrow> bytes) \<Rightarrow> ('w \<Rightarrow> bytes) \<Rightarrow> ('w \<Rightarrow> 's) \<Rightarrow> bytes \<Rightarrow> 'w \<Rightarrow> 'w \<Rightarrow> bool" where
  "read_upto inp out seen xs w w' \<longleftrightarrow> inp w = xs @ inp w' \<and> out w' = out w \<and> seen w' = seen w"

lemma readpacket_loop_stream:
  assumes wb: "line_contract pf T inp out seen"
    and T: "\<forall>t\<in>T. \<not> t - end_tick < 0x7FFFFFFF"
    and "inp (net c) = xs @ tl1" and "off + got + length xs \<le> length buf" and "len = got + length xs"
  shows "\<exists>w'. readpacket_loop pf buf off len got end_tick c
      = Some (UMQTT_OK, take (off + got) buf @ xs @ drop (off + got + length xs) buf, c\<lparr>net := w'\<rparr>)
    \<and> read_upto inp out seen xs (net c) w' \<and> inp w' = tl1"
  using assms(3-)
proof (induction "length xs" arbitrary: xs got buf c rule: less_induct)
  case less
  show ?case
  proof (cases "xs = []")
    case True
    with less.prems show ?thesis
      by (subst readpacket_loop.simps)
         (auto simp: read_upto_def intro!: exI [of _ "net c"])
  next
    case False
    have n: "0 < len - got" "inp (net c) \<noteq> []" using False less.prems by auto
    from recvD [OF wb n, of "sock c"] obtain d w1 where
      r: "p_recv pf (sock c) (len - got) (net c) = (Recv_Data d, w1)" and
      d: "d \<noteq> []" "length d \<le> length xs" "inp (net c) = d @ inp w1" and
      obs: "out w1 = out (net c)" "seen w1 = seen (net c)"
      using less.prems by auto
    from d less.prems(1) obtain ys where xs: "xs = d @ ys"
      by (metis append_eq_append_conv_if append_take_drop_id)
    with d less.prems(1) have i1: "inp w1 = ys @ tl1" by simp
    obtain t c1 where t: "rt_tick_get pf (c\<lparr>net := w1\<rparr>) = (t, c1)" by fastforce
    from tickD [OF wb t] obtain w2 where tT: "t \<in> T" and c1: "c1 = c\<lparr>net := w2\<rparr>"
      and w2: "inp w2 = inp w1" "out w2 = out w1" "seen w2 = seen w1" by auto
    define buf1 where "buf1 = take (off + got) buf @ d @ drop (off + got + length d) buf"
    have b1: "blit buf (off + got) d = Some buf1"
      using less.prems(2) xs by (simp add: blit_def buf1_def)
    have l1: "length buf1 = length buf" using b1 by (rule length_blit)
    have rd: "umqtt_trans_recv pf (sock c) buf (off + got) (len - got) (net c)
        = Some (int (length d), 0, buf1, w1)"
      by (simp add: umqtt_trans_recv_def r b1)
    have step: "readpacket_loop pf buf off len got end_tick c
        = readpacket_loop pf buf1 off len (got + length d) end_tick c1"
      using n T tT d(1)
      by (subst readpacket_loop.simps) (simp add: rd t Let_def)
    obtain w3 where ih: "readpacket_loop pf buf1 off len (got + length d) end_tick c1
        = Some (UMQTT_OK, take (off + (got + length d)) buf1 @ ys
            @ drop (off + (got + length d) + length ys) buf1, c1\<lparr>net := w3\<rparr>)"
      and ru: "read_upto inp out seen ys (net c1) w3" "inp w3 = tl1"
      using less.hyps [of ys c1 "got + length d" buf1] xs d i1 w2 l1 less.prems c1 by auto
    have e1: "take (off + (got + length d)) buf1 = take (off + got) buf @ d"
      using less.prems(2) xs by (simp add: buf1_def)
    have e2: "drop (off + (got + length d) + length ys) buf1 = drop (off + got + length xs) buf"
      using less.prems(2) xs by (simp add: buf1_def ac_simps)
    have "readpacket_loop pf buf off len got end_tick c
      = Some (UMQTT_OK, take (off + got) buf @ xs @ drop (off + got + length xs) buf, c\<lparr>net := w3\<rparr>)"
      using ih [unfolded e1 e2] step c1 xs by simp
    moreover have "read_upto inp out seen xs (net c) w3"
      using ru(1) w2 obs d(3) xs unfolding c1 read_upto_def by simp
    ultimately show ?thesis using ru(2) by blast
  qed
qed

lemma readpacket_stream:
  assumes wb: "line_contract pf T inp out seen" and T: "in_time T timeout"
    and "inp (net c) = xs @ tl1" and "off + length xs \<le> length buf"
  shows "\<exists>w'. umqtt_readpacket pf buf off (length xs) timeout c
      = Some (UMQTT_OK, take off buf @ xs @ drop (off + length xs) buf, c\<lparr>net := w'\<rparr>)
    \<and> read_upto inp out seen xs (net c) w' \<and> inp w' = tl1"
proof -
  obtain t c1 where t: "rt_tick_get pf c = (t, c1)" by fastforce
  from tickD [OF wb t] obtain w1 where tT: "t \<in> T" and c1: "c1 = c\<lparr>net := w1\<rparr>"
    and w1: "inp w1 = inp (net c)" "out w1 = out (net c)" "seen w1 = seen (net c)" by auto
  define e where "e = t + (rt_tick_from_millisecond (sint timeout) AND 0x7FFFFFFF)"
  have Te: "\<forall>t\<in>T. \<not> t - e < 0x7FFFFFFF" using T tT by (simp add: in_time_def e_def)
  show ?thesis
  proof (cases "xs = []")
    case True
    with t c1 w1 assms(3,4) show ?thesis
      by (auto simp: umqtt_readpacket_def Let_def read_upto_def intro!: exI [of _ w1])
  next
    case False
    have "inp (net c1) = xs @ tl1" "off + 0 + length xs \<le> length buf" "length xs = 0 + length xs"
      using w1 c1 assms(3,4) by simp_all
    from readpacket_loop_stream [OF wb Te this] obtain w2 where
      "readpacket_loop pf buf off (length xs) 0 e c1
        = Some (UMQTT_OK, take (off + 0) buf @ xs @ drop (off + 0 + length xs) buf, c1\<lparr>net := w2\<rparr>)"
      "read_upto inp out seen xs (net c1) w2" "inp w2 = tl1" by blast
    with False t c1 w1 show ?thesis
      by (auto simp: umqtt_readpacket_def Let_def e_def [symmetric] read_upto_def)
  qed
qed

lemma recv_net_swap [simp]:
  fixes c :: "'w umqtt_client"
  shows "c\<lparr>net := w, recv_buf := b\<rparr> = c\<lparr>recv_buf := b, net := w\<rparr>"
  by (cases c) simp

lemma read_byte_stream:
  assumes "line_contract pf T inp out seen" and "in_time T timeout" and "inp (net c) = b # tl1"
  shows "\<exists>w'. umqtt_readpacket pf [0] 0 1 timeout c = Some (UMQTT_OK, [b], c\<lparr>net := w'\<rparr>)
    \<and> read_upto inp out seen [b] (net c) w' \<and> inp w' = tl1"
  using readpacket_stream [OF assms(1,2), of c "[b]" tl1 0 "[0]"] assms(3) by simp

lemma digit_cont7: "x < 128 \<Longrightarrow> uint ((word_of_nat x OR 0x80 :: u8) AND 0x7F) = int x"
  "x < 128 \<Longrightarrow> (word_of_nat x OR 0x80 :: u8) AND 0x80 \<noteq> 0"
  using digit_cont [of x] by simp_all

lemma digit_last7: "x < 128 \<Longrightarrow> uint ((word_of_nat x :: u8) AND 0x7F) = int x"
  "x < 128 \<Longrightarrow> (word_of_nat x :: u8) AND 0x80 = 0"
  using digit_last [of x] by simp_all

lemma read_length_stream:
  assumes wb: "line_contract pf T inp out seen" and T: "in_time T (recv_time_ms (mqtt_info c))"
    and "inp (net c) = rl_bytes n @ tl1" and "cnt + length (rl_bytes n) \<le> 4"
    and "cnt + length (rl_bytes n) < length (recv_buf c)"
  shows "\<exists>w'. read_length pf cnt l m c
      = Some (Inr (cnt + length (rl_bytes n), l + int n * m),
          c\<lparr>recv_buf := take (cnt + 1) (recv_buf c) @ rl_bytes n
                  @ drop (cnt + 1 + length (rl_bytes n)) (recv_buf c), net := w'\<rparr>)
    \<and> read_upto inp out seen (rl_bytes n) (net c) w' \<and> inp w' = tl1"
  using assms(2-)
proof (induction n arbitrary: cnt l m c rule: rl_bytes.induct)
  case (1 n)
  define d where "d = hd (rl_bytes n)"
  define ds where "ds = (if n < 128 then [] else rl_bytes (n div 128))"
  have rl: "rl_bytes n = d # ds" by (auto simp: d_def ds_def rl_bytes.simps [of n])
  have d: "uint (d AND 0x7F) = int (n mod 128)" "d AND 0x80 = 0 \<longleftrightarrow> n < 128"
    by (auto simp: d_def rl_bytes.simps [of n] digit_cont7 digit_last7)
  from "1.prems" rl have i: "inp (net c) = d # (ds @ tl1)" by simp
  from read_byte_stream [OF wb "1.prems"(1) i] obtain w1 where
    rb: "umqtt_readpacket pf [0] 0 1 (recv_time_ms (mqtt_info c)) c = Some (UMQTT_OK, [d], c\<lparr>net := w1\<rparr>)"
    and ru: "read_upto inp out seen [d] (net c) w1" "inp w1 = ds @ tl1" by blast
  have c4: "\<not> 3 < cnt" and lb: "cnt + 1 < length (recv_buf c)"
    using "1.prems"(3,4) rl by simp_all
  define c1 where "c1 = c\<lparr>recv_buf := (recv_buf c)[cnt + 1 := d], net := w1\<rparr>"
  have step: "read_length pf cnt l m c
      = (if n < 128 then Some (Inr (cnt + 1, l + int (n mod 128) * m), c1)
         else read_length pf (cnt + 1) (l + int (n mod 128) * m) (m * 0x80) c1)"
    using c4 lb
    by (subst read_length.simps) (simp add: rb [simplified] Let_def wr_def d c1_def)
  have upd: "(recv_buf c)[cnt + 1 := d] = take (cnt + 1) (recv_buf c) @ d # drop (cnt + 2) (recv_buf c)"
    using lb by (simp add: upd_conv_take_nth_drop)
  show ?case
  proof (cases "n < 128")
    case True
    then show ?thesis
      using step ru upd by (auto simp: rl ds_def c1_def)
  next
    case False
    have ds: "ds = rl_bytes (n div 128)" using False by (simp add: ds_def)
    have p: "in_time T (recv_time_ms (mqtt_info c1))" "inp (net c1) = rl_bytes (n div 128) @ tl1"
      "cnt + 1 + length (rl_bytes (n div 128)) \<le> 4"
      "cnt + 1 + length (rl_bytes (n div 128)) < length (recv_buf c1)"
      using "1.prems" ru ds rl by (simp_all add: c1_def)
    from "1.IH" [OF False p, of "l + int (n mod 128) * m" "m * 0x80"] obtain w2 where
      r2: "read_length pf (cnt + 1) (l + int (n mod 128) * m) (m * 0x80) c1
        = Some (Inr (cnt + 1 + length (rl_bytes (n div 128)),
            l + int (n mod 128) * m + int (n div 128) * (m * 0x80)),
          c1\<lparr>recv_buf := take (cnt + 1 + 1) (recv_buf c1) @ rl_bytes (n div 128)
                  @ drop (cnt + 1 + 1 + length (rl_bytes (n div 128))) (recv_buf c1), net := w2\<rparr>)"
      and ru2: "read_upto inp out seen (rl_bytes (n div 128)) (net c1) w2" "inp w2 = tl1" by blast
    have val: "l + int (n mod 128) * m + int (n div 128) * (m * 0x80) = l + int n * m"
    proof -
      have "int n = int (n mod 128) + int (n div 128) * 128" by (simp add: zdiv_int zmod_int)
      then have "int n * m = int (n mod 128) * m + int (n div 128) * (m * 128)"
        by (metis mult.assoc mult.commute distrib_right)
      then show ?thesis by simp
    qed
    have b1: "take (cnt + 1 + 1) (recv_buf c1) = take (cnt + 1) (recv_buf c) @ [d]"
      using lb by (simp add: c1_def take_Suc_conv_app_nth)
    have b2: "drop (cnt + 1 + 1 + k) (recv_buf c1) = drop (cnt + 1 + (1 + k)) (recv_buf c)" for k
      by (simp add: c1_def)
    have "read_upto inp out seen (rl_bytes n) (net c) w2"
      using ru ru2(1) ds rl by (auto simp: read_upto_def c1_def)
    then show ?thesis
      using step False r2 [unfolded val b1 b2] ru2(2) ds rl
      by (auto simp: c1_def)
  qed
qed

text \<open>
  A whole packet: the client has it at the start of its receive buffer, has consumed exactly its
  bytes, and decodes it.
\<close>

lemma handle_readpacket_stream:
  assumes wb: "line_contract pf T inp out seen" and T: "in_time T (recv_time_ms (mqtt_info c))"
    and i: "inp (net c) = packet h body @ tl1"
    and len: "length body < 268435456"
    and inv: "client_inv c" and fits: "length (packet h body) \<le> recv_size (mqtt_info c)"
  shows "\<exists>w'. read_upto inp out seen (packet h body) (net c) w' \<and> inp w' = tl1 \<and>
    (let buf = packet h body @ drop (length (packet h body)) (recv_buf c);
         c1 = c\<lparr>recv_buf := buf, net := w'\<rparr>
     in umqtt_handle_readpacket pf c = do {
          (ret, m) \<leftarrow> umqtt_decode buf (length (packet h body)) (Some zero_msg);
          if ret < 0 then Some (UMQTT_DECODE_ERROR, c1)
          else do { decoded \<leftarrow> m; handle_packet pf ret decoded c1 } })"
proof -
  define rl where "rl = rl_bytes (length body)"
  define k where "k = length rl"
  define rb where "rb = recv_buf c"
  have pk: "packet h body = h # rl @ body" and lpk: "length (packet h body) = 1 + k + length body"
    by (simp_all add: packet_def rl_def k_def)
  have k4: "k \<le> 4" using length_rl_bytes_le [of "length body" 4] len by (simp add: k_def rl_def)
  have lrb: "length rb = recv_size (mqtt_info c)" using inv by (simp add: client_inv_def rb_def)
  have "0 < (1::nat)" "inp (net c) \<noteq> []" using i pk by simp_all
  from recvD [OF wb this, of "sock c"] obtain w1 d where
    r1: "p_recv pf (sock c) 1 (net c) = (Recv_Data d, w1)" and d: "d \<noteq> []" "length d \<le> 1"
    and i1: "inp (net c) = d @ inp w1" and o1: "out w1 = out (net c)" "seen w1 = seen (net c)" by blast
  from d have "d = [hd d]" by (cases d) auto
  with i i1 pk have d: "d = [h]" and i1: "inp w1 = rl @ body @ tl1" by (auto simp: append_eq_Cons_conv Cons_eq_append_conv)
  define c1 where "c1 = c\<lparr>recv_buf := h # drop 1 rb, net := w1\<rparr>"
  have l1: "0 < length rb" using fits lrb lpk by simp
  have s1: "umqtt_trans_recv pf (sock c) (recv_buf c) 0 1 (net c) = Some (1, 0, h # drop 1 rb, w1)"
    using l1 r1 d by (simp add: umqtt_trans_recv_def blit_def rb_def Suc_le_eq)
  have "inp (net c1) = rl_bytes (length body) @ body @ tl1" "0 + length (rl_bytes (length body)) \<le> 4"
    "0 + length (rl_bytes (length body)) < length (recv_buf c1)" "in_time T (recv_time_ms (mqtt_info c1))"
    using i1 k4 fits lrb lpk l1 T by (simp_all add: c1_def rl_def k_def)
  from read_length_stream [OF wb this(4,1,2,3), of 0 1] obtain w2 where
    s2: "read_length pf 0 0 1 c1 = Some (Inr (k, int (length body)),
        c1\<lparr>recv_buf := take 1 (recv_buf c1) @ rl @ drop (1 + k) (recv_buf c1), net := w2\<rparr>)"
    and ru2: "read_upto inp out seen rl (net c1) w2" and i2: "inp w2 = body @ tl1"
    by (auto simp: k_def rl_def)
  define c2 where "c2 = c\<lparr>recv_buf := h # rl @ drop (1 + k) rb, net := w2\<rparr>"
  have "drop k (drop 1 rb) = drop (1 + k) rb" by simp
  then have s2': "read_length pf 0 0 1 c1 = Some (Inr (k, int (length body)), c2)"
    using s2 by (simp add: c1_def c2_def)
  have "in_time T (recv_time_ms (mqtt_info c2))" "inp (net c2) = body @ tl1"
    "k + 1 + length body \<le> length (recv_buf c2)"
    using T i2 fits lrb lpk by (simp_all add: c2_def k_def [symmetric])
  from readpacket_stream [OF wb this] obtain w3 where
    s3: "umqtt_readpacket pf (recv_buf c2) (k + 1) (length body) (recv_time_ms (mqtt_info c2)) c2
      = Some (UMQTT_OK, take (k + 1) (recv_buf c2) @ body @ drop (k + 1 + length body) (recv_buf c2),
          c2\<lparr>net := w3\<rparr>)"
    and ru3: "read_upto inp out seen body (net c2) w3" and i3: "inp w3 = tl1" by blast
  define buf where "buf = packet h body @ drop (length (packet h body)) (recv_buf c)"
  have "take (k + 1) (recv_buf c2) @ body @ drop (k + 1 + length body) (recv_buf c2) = buf"
    by (simp add: c2_def buf_def pk rb_def k_def add.commute)
  with s3 have s3': "umqtt_readpacket pf (recv_buf c2) (k + 1) (length body) (recv_time_ms (mqtt_info c2)) c2
      = Some (UMQTT_OK, buf, c2\<lparr>net := w3\<rparr>)" by simp
  have fit: "\<not> int (length body) + 1 + int k > int (recv_size (mqtt_info c2))"
    using fits lpk by (simp add: c2_def)
  have nb: "nat (int (length body)) = length body" by simp
  have lb: "Suc (length body + k) = length (packet h body)" using lpk by simp
  have c3: "c2\<lparr>net := w3, recv_buf := buf\<rparr> = c\<lparr>net := w3, recv_buf := buf\<rparr>"
    "c2\<lparr>recv_buf := buf, net := w3\<rparr> = c\<lparr>recv_buf := buf, net := w3\<rparr>" by (simp_all add: c2_def)
  have res: "umqtt_handle_readpacket pf c = do {
          (ret, m) \<leftarrow> umqtt_decode buf (length (packet h body)) (Some zero_msg);
          if ret < 0 then Some (UMQTT_DECODE_ERROR, c\<lparr>recv_buf := buf, net := w3\<rparr>)
          else do { decoded \<leftarrow> m; handle_packet pf ret decoded (c\<lparr>recv_buf := buf, net := w3\<rparr>) } }"
    unfolding umqtt_handle_readpacket_def s1 bind.bind_lunit prod.case Let_def c1_def [symmetric]
    using s2' fit s3'
    by (simp add: nb lb c3 cong: if_cong)
  have "read_upto inp out seen (packet h body) (net c) w3"
    using ru2 ru3 i i3 o1 i1 by (simp add: read_upto_def c1_def c2_def)
  with i3 res show ?thesis unfolding buf_def Let_def by blast
qed

section \<open>Delivery\<close>

text \<open>The callbacks of the subscriptions a topic matches, in the order of the list.\<close>

definition matching :: "subtop_recv_handler list \<Rightarrow> bytes \<Rightarrow> nat list" where
  "matching hs topic = concat (map (\<lambda>h. case (st_topicfilter h, st_callback h) of
     (Some f, Some k) \<Rightarrow> if topic_loop f topic then [k] else [] | _ \<Rightarrow> []) hs)"

lemma keep_recv_buf [simp]:
  fixes c :: "'w umqtt_client"
  shows "c\<lparr>recv_buf := recv_buf c\<rparr> = c" "c\<lparr>net := net c\<rparr> = c"
  by (cases c, simp)+

lemma deliver_loop_seen:
  assumes wb: "well_behaved pf T inp out seen"
    and m: "pb_topic_name m = PRecv off" "rd_block (recv_buf c) off (unat tnl) = Some topic"
      "received_payload (recv_buf c) (zero_msg\<lparr>u_head := tnl, u_publish := m\<rparr>) = Some pl"
  shows "\<exists>w'. deliver_loop pf (PRecv off) (unat tnl) tnl m hs c = Some (c\<lparr>net := w'\<rparr>)
    \<and> seen w' = seen (net c) @ map (\<lambda>k. (k, topic, pl)) (matching hs topic)
    \<and> inp w' = inp (net c) \<and> out w' = out (net c)"
  using m(2,3)
proof (induction hs arbitrary: c)
  case Nil
  show ?case by (rule exI [of _ "net c"]) (simp add: matching_def)
next
  case (Cons h hs)
  have off: "off \<le> length (recv_buf c)" using Cons.prems by (auto simp: rd_block_def split: if_splits)
  have name: "rd_block (drop off (recv_buf c)) 0 (unat tnl) = Some topic"
    using Cons.prems off by (auto simp: rd_block_def split: if_splits)
  have rt: "received_topic (recv_buf c) (zero_msg\<lparr>u_head := tnl, u_publish := m\<rparr>) = Some topic"
    using Cons.prems m(1) by (simp add: received_topic_def)
  show ?case
  proof (cases "\<exists>f k. st_topicfilter h = Some f \<and> st_callback h = Some k \<and> topic_loop f topic")
    case True
    then obtain f k where h: "st_topicfilter h = Some f" "st_callback h = Some k" "topic_loop f topic" by blast
    from wb rt Cons.prems(2) obtain w1 where
      cb: "p_callback pf k tnl m (recv_buf c) (net c) = Some (recv_buf c, w1)"
        "seen w1 = seen (net c) @ [(k, topic, pl)]" "inp w1 = inp (net c)" "out w1 = out (net c)"
      unfolding well_behaved_def callback_contract_def by blast
    have p: "rd_block (recv_buf (c\<lparr>net := w1\<rparr>)) off (unat tnl) = Some topic"
      "received_payload (recv_buf (c\<lparr>net := w1\<rparr>)) (zero_msg\<lparr>u_head := tnl, u_publish := m\<rparr>) = Some pl"
      using Cons.prems by simp_all
    from Cons.IH [OF p] obtain w2 where
      "deliver_loop pf (PRecv off) (unat tnl) tnl m hs (c\<lparr>net := w1\<rparr>) = Some (c\<lparr>net := w2\<rparr>)"
      "seen w2 = seen w1 @ map (\<lambda>k. (k, topic, pl)) (matching hs topic)"
      "inp w2 = inp w1" "out w2 = out w1" by auto
    then show ?thesis
      using h cb off name
      by (auto simp: ptr_mem_def topicname_is_matched_def matching_def)
  next
    case False
    from Cons.IH [OF Cons.prems] obtain w2 where
      "deliver_loop pf (PRecv off) (unat tnl) tnl m hs c = Some (c\<lparr>net := w2\<rparr>)"
      "seen w2 = seen (net c) @ map (\<lambda>k. (k, topic, pl)) (matching hs topic)"
      "inp w2 = inp (net c)" "out w2 = out (net c)" by auto
    then show ?thesis
      using False off name
      by (auto simp: ptr_mem_def topicname_is_matched_def matching_def split: option.splits)
  qed
qed

section \<open>Sending\<close>

lemma well_behaved_out: "well_behaved pf T inp out seen \<Longrightarrow> out_contract pf inp out seen"
  by (simp add: well_behaved_def)

lemma send_loop_out:
  assumes wb: "out_contract pf inp out seen" and "offset \<le> n" and "n \<le> length buf" and "0 \<le> ret"
  shows "\<exists>r w'. send_loop pf sk buf n offset ret w = Some (r, w') \<and> 0 \<le> r
    \<and> out w' = out w @ drop offset (take n buf) \<and> inp w' = inp w \<and> seen w' = seen w"
  using assms(2-)
proof (induction "n - offset" arbitrary: offset ret w rule: less_induct)
  case less
  show ?case
  proof (cases "offset < n")
    case False
    with less.prems show ?thesis by (subst send_loop.simps) simp
  next
    case True
    define data where "data = drop offset (take n buf)"
    have rd: "rd_block buf offset (n - offset) = Some data"
      using less.prems True by (simp add: rd_block_def data_def drop_take)
    have len: "length data = n - offset" using less.prems by (simp add: data_def)
    then have "data \<noteq> []" using True by auto
    with wb obtain k w1 where s: "p_send pf sk data w = (Send_Count k, w1)" and k: "0 < k" "k \<le> length data"
      and o: "out w1 = out w @ take k data" "inp w1 = inp w" "seen w1 = seen w"
      unfolding out_contract_def by blast
    have "n - (offset + k) < n - offset" "offset + k \<le> n" "0 \<le> int k" using True k len by simp_all
    from less.hyps [OF this(1,2) less.prems(2) this(3), of w1] obtain r w' where
      ih: "send_loop pf sk buf n (offset + k) (int k) w1 = Some (r, w')" "0 \<le> r"
        "out w' = out w1 @ drop (offset + k) (take n buf)" "inp w' = inp w1" "seen w' = seen w1" by blast
    have "data = take k data @ drop (offset + k) (take n buf)"
      by (metis append_take_drop_id drop_drop add.commute data_def)
    then have "out w' = out w @ data" using ih(3) o(1) by (metis append.assoc)
    then show ?thesis
      using True s rd ih o by (subst send_loop.simps) (simp add: data_def)
  qed
qed

lemma send_msg_out:
  assumes wb: "out_contract pf inp out seen" and "n \<le> length (send_buf c)"
  shows "\<exists>r w'. send_msg pf n c = Some (r, c\<lparr>net := w'\<rparr>) \<and> 0 \<le> r
    \<and> out w' = out (net c) @ take n (send_buf c) \<and> inp w' = inp (net c) \<and> seen w' = seen (net c)"
proof -
  from send_loop_out [OF wb _ assms(2), of 0 0 "sock c" "net c"] obtain r w' where
    "send_loop pf (sock c) (send_buf c) n 0 0 (net c) = Some (r, w')" "0 \<le> r"
    "out w' = out (net c) @ drop 0 (take n (send_buf c))" "inp w' = inp (net c)" "seen w' = seen (net c)"
    by auto
  then show ?thesis by (auto simp: send_msg_def umqtt_trans_send_def)
qed

text \<open>When the encoder writes \<open>xs\<close> to the front of the buffer, \<open>xs\<close> is what goes out.\<close>

lemma encode_and_send_out:
  assumes wb: "well_behaved pf T inp out seen" and inv: "client_inv c"
    and enc: "umqtt_encode t (send_buf c) (send_size (mqtt_info c)) m = Some (int (length xs), b)"
    and b: "blit (send_buf c) 0 xs = Some b" and bad: "\<not> bad (int (length xs))"
  shows "\<exists>r w'. encode_and_send pf bad t m c
      = Some (r, c\<lparr>send_buf := b, send_len := length xs, net := w'\<rparr>) \<and> 0 \<le> r
    \<and> out w' = out (net c) @ xs \<and> inp w' = inp (net c) \<and> seen w' = seen (net c)"
proof -
  define c1 where "c1 = c\<lparr>send_buf := b, send_len := length xs\<rparr>"
  have "length xs \<le> length (send_buf c1)" and pre: "take (length xs) (send_buf c1) = xs"
    using b length_blit [OF b] blit_prefix [OF b] by (auto simp: c1_def blit_Some_iff)
  from send_msg_out [OF well_behaved_out [OF wb] this(1)] obtain r w' where
    "send_msg pf (length xs) c1 = Some (r, c1\<lparr>net := w'\<rparr>)" "0 \<le> r"
    "out w' = out (net c1) @ xs" "inp w' = inp (net c1)" "seen w' = seen (net c1)"
    using pre by auto
  then show ?thesis
    using enc bad by (auto simp: encode_and_send_def encode_msg_def c1_def Let_def)
qed

section \<open>Messages received\<close>

lemma set_next_tick_obs:
  assumes "line_contract pf T inp out seen"
  shows "\<exists>t w'. set_uplink_recon_tick pf UPLINK_NEXT_TICK c = c\<lparr>uplink_next_tick := t, net := w'\<rparr>
    \<and> inp w' = inp (net c) \<and> out w' = out (net c) \<and> seen w' = seen (net c)"
proof -
  obtain t c1 where t: "rt_tick_get pf c = (t, c1)" by fastforce
  from tickD(2) [OF assms t] obtain w' where w': "c1 = c\<lparr>net := w'\<rparr>"
    "inp w' = inp (net c)" "out w' = out (net c)" "seen w' = seen (net c)" by blast
  then have "set_uplink_recon_tick pf UPLINK_NEXT_TICK c
      = c\<lparr>uplink_next_tick := keepalive_interval (mqtt_info c) * 1000 + t, net := w'\<rparr>"
    using t by (cases c) (simp add: set_uplink_recon_tick_def)
  with w' show ?thesis by blast
qed

text \<open>What a QoS 1 message is answered with: a PUBACK with its packet id; QoS 0 is not answered.\<close>

definition puback_for :: "u8 \<Rightarrow> u16 \<Rightarrow> bytes" where
  "puback_for qos pid =
     (if qos = UMQTT_QOS0 then [] else packet (fixed_header UMQTT_TYPE_PUBACK 0 0) (be16 (unat pid)))"

lemma length_short_packet [simp]: "length (packet h (be16 n)) = 4"
  by (simp add: packet_def rl_bytes.simps [of 2])

lemma send_puback:
  assumes wb: "well_behaved pf T inp out seen" and inv: "client_inv c"
    and four: "4 \<le> send_size (mqtt_info c)" and head: "u_head m = pid"
  shows "\<exists>r b w'. encode_and_send pf (\<lambda>r. r < 0) UMQTT_TYPE_PUBACK (Some m) c
      = Some (r, c\<lparr>send_buf := b, send_len := 4, net := w'\<rparr>) \<and> 0 \<le> r
    \<and> length b = length (send_buf c)
    \<and> out w' = out (net c) @ puback_for UMQTT_QOS1 pid
    \<and> inp w' = inp (net c) \<and> seen w' = seen (net c)"
proof -
  let ?xs = "packet (fixed_header UMQTT_TYPE_PUBACK 0 0) (be16 (unat pid))"
  have lb: "length (send_buf c) = send_size (mqtt_info c)" using inv by (simp add: client_inv_def)
  then obtain b where b: "blit (send_buf c) 0 ?xs = Some b"
    using four by (fastforce simp: blit_def)
  have enc: "umqtt_encode UMQTT_TYPE_PUBACK (send_buf c) (send_size (mqtt_info c)) (Some m)
      = Some (int (length ?xs), b)"
    using four head b
    by (simp add: umqtt_encode_def umqtt_puback_encode_def MQTTSerialize_ack_blit Let_def)
  have bad: "\<not> (\<lambda>r. r < 0) (int (length ?xs))" by simp
  from encode_and_send_out [OF wb inv enc b, of "\<lambda>r. r < 0", OF bad] length_blit [OF b]
  show ?thesis by (auto simp: puback_for_def)
qed

lemma publish_handled:
  assumes wb: "well_behaved pf T inp out seen" and inv: "client_inv c"
    and m: "hdr_type (m_header m) = type_code UMQTT_TYPE_PUBLISH"
    and qos: "hdr_qos (m_header m) \<in> {UMQTT_QOS0, UMQTT_QOS1}"
    and topic: "received_topic (recv_buf c) m = Some topic"
    and pl: "received_payload (recv_buf c) m = Some pl"
    and four: "4 \<le> send_size (mqtt_info c)" and ret: "0 \<le> ret"
  shows "\<exists>r c'. handle_packet pf ret m c = Some (r, c') \<and> 0 \<le> r
    \<and> client_inv c' \<and> mqtt_info c' = mqtt_info c \<and> sub_recv_list c' = sub_recv_list c
    \<and> seen (net c') = seen (net c) @ map (\<lambda>k. (k, topic, pl)) (matching (sub_recv_list c) topic)
    \<and> inp (net c') = inp (net c)
    \<and> out (net c') = out (net c) @ puback_for (hdr_qos (m_header m)) (pb_packet_id (u_publish m))"
proof -
  let ?pub = "u_publish m"
  from set_next_tick_obs [OF well_behaved_line [OF wb], of c] obtain t w1 where
    tick: "set_uplink_recon_tick pf UPLINK_NEXT_TICK c = c\<lparr>uplink_next_tick := t, net := w1\<rparr>"
    and w1: "inp w1 = inp (net c)" "out w1 = out (net c)" "seen w1 = seen (net c)" by blast
  define c1 where "c1 = c\<lparr>uplink_next_tick := t, net := w1\<rparr>"
  from topic obtain off where off: "pb_topic_name ?pub = PRecv off"
    "rd_block (recv_buf c1) off (unat (u_head m)) = Some topic"
    by (auto simp: received_topic_def c1_def split: cptr.splits)
  have pl1: "received_payload (recv_buf c1) (zero_msg\<lparr>u_head := u_head m, u_publish := ?pub\<rparr>) = Some pl"
    using pl by (simp add: received_payload_def c1_def cong: cptr.case_cong)
  from deliver_loop_seen [OF wb off pl1, of "sub_recv_list c1"] obtain w2 where
    d: "deliver_loop pf (PRecv off) (unat (u_head m)) (u_head m) ?pub (sub_recv_list c1) c1
        = Some (c1\<lparr>net := w2\<rparr>)"
    and w2: "seen w2 = seen (net c1) @ map (\<lambda>k. (k, topic, pl)) (matching (sub_recv_list c1) topic)"
      "inp w2 = inp (net c1)" "out w2 = out (net c1)" by blast
  have del: "umqtt_deliver_message pf (pb_topic_name ?pub) (unat (u_head m)) (u_head m) ?pub c1
      = Some (c1\<lparr>net := w2\<rparr>)"
    using d off by (simp add: umqtt_deliver_message_def)
  have hp: "handle_packet pf ret m c = on_publish pf ret m c"
    by (simp only: handle_packet_def m type_of_code_code option.case umqtt_type.case)
  show ?thesis
  proof (cases "hdr_qos (m_header m) = UMQTT_QOS0")
    case True
    then have "on_publish pf ret m c = Some (ret, c1\<lparr>net := w2\<rparr>)"
      using tick del by (simp add: on_publish_def c1_def [symmetric] Let_def)
    then show ?thesis
      using hp ret w1 w2 True inv by (simp add: puback_for_def c1_def)
  next
    case False
    then have q1: "hdr_qos (m_header m) = UMQTT_QOS1" using qos by simp
    define c2 where "c2 = c1\<lparr>net := w2\<rparr>"
    define a where "a = zero_msg\<lparr>m_header := set_hdr_type (type_code UMQTT_TYPE_PUBACK)
       (set_hdr_dup (hdr_dup (m_header m)) (set_hdr_qos UMQTT_QOS1 0)), u_head := pb_packet_id ?pub\<rparr>"
    have "client_inv c2" "4 \<le> send_size (mqtt_info c2)" "u_head a = pb_packet_id ?pub"
      using inv four by (simp_all add: c2_def c1_def a_def)
    from send_puback [OF wb this] obtain r b w3 where
      s: "encode_and_send pf (\<lambda>r. r < 0) UMQTT_TYPE_PUBACK (Some a) c2
          = Some (r, c2\<lparr>send_buf := b, send_len := 4, net := w3\<rparr>)" "0 \<le> r"
        "length b = length (send_buf c2)"
        "out w3 = out (net c2) @ puback_for UMQTT_QOS1 (pb_packet_id ?pub)"
        "inp w3 = inp (net c2)" "seen w3 = seen (net c2)" by blast
    have "on_publish pf ret m c = encode_and_send pf (\<lambda>r. r < 0) UMQTT_TYPE_PUBACK (Some a) c2"
      using tick del q1 by (simp add: on_publish_def c1_def [symmetric] c2_def a_def Let_def)
    moreover have "client_inv (c2\<lparr>send_buf := b, send_len := 4, net := w3\<rparr>)"
      using inv s(3) by (simp add: c2_def c1_def client_inv_def)
    ultimately show ?thesis
      using s hp w1 w2 q1 by (auto simp: c2_def c1_def)
  qed
qed

text \<open>A message on the wire, and what the client owes for it.\<close>

record wire_msg =
  wm_dup :: u8
  wm_qos :: u8
  wm_id :: u16
  wm_topic :: bytes
  wm_payload :: bytes

definition wire :: "wire_msg \<Rightarrow> bytes" where
  "wire m = packet (fixed_header UMQTT_TYPE_PUBLISH (wm_dup m) (wm_qos m))
     (publish_body (wm_qos m) (wm_id m) (wm_topic m) (wm_payload m))"

definition wire_ok :: "umqtt_info \<Rightarrow> wire_msg \<Rightarrow> bool" where
  "wire_ok info m \<longleftrightarrow> wm_qos m \<in> {UMQTT_QOS0, UMQTT_QOS1} \<and> c_strlen (wm_topic m) < 65536
     \<and> length (publish_body (wm_qos m) (wm_id m) (wm_topic m) (wm_payload m)) < 268435456
     \<and> length (wire m) \<le> recv_size info"

definition calls_for :: "subtop_recv_handler list \<Rightarrow> wire_msg \<Rightarrow> seen_msg list" where
  "calls_for hs m =
     map (\<lambda>k. (k, cstr (wm_topic m), wm_payload m)) (matching hs (cstr (wm_topic m)))"

definition answer_for :: "wire_msg \<Rightarrow> bytes" where
  "answer_for m = puback_for (wm_qos m) (wm_id m)"

lemma publish_turn:
  assumes wb: "well_behaved pf T inp out seen" and T: "in_time T (recv_time_ms (mqtt_info c))"
    and inv: "client_inv c" and ok: "wire_ok (mqtt_info c) m" and four: "4 \<le> send_size (mqtt_info c)"
    and i: "inp (net c) = wire m @ rest"
  shows "\<exists>c'. umqtt_thread_turn pf c = Some (True, c') \<and> client_inv c'
    \<and> mqtt_info c' = mqtt_info c \<and> sub_recv_list c' = sub_recv_list c
    \<and> inp (net c') = rest \<and> seen (net c') = seen (net c) @ calls_for (sub_recv_list c) m
    \<and> out (net c') = out (net c) @ answer_for m"
proof -
  let ?h = "fixed_header UMQTT_TYPE_PUBLISH (wm_dup m) (wm_qos m)"
  have q: "hdr_qos ?h = wm_qos m" and q01: "wm_qos m \<in> {UMQTT_QOS0, UMQTT_QOS1}"
    using ok by (auto simp: wire_ok_def)
  have ht: "hdr_type ?h = type_code UMQTT_TYPE_PUBLISH" by simp
  define body where "body = publish_body (wm_qos m) (wm_id m) (wm_topic m) (wm_payload m)"
  define buf where "buf = packet ?h body @ drop (length (packet ?h body)) (recv_buf c)"
  have w: "wire m = packet ?h body" by (simp add: wire_def body_def)
  have len: "length body < 268435456" and fits: "length (packet ?h body) \<le> recv_size (mqtt_info c)"
    and tl: "c_strlen (wm_topic m) < 65536"
    using ok w by (auto simp: wire_ok_def body_def)
  from handle_readpacket_stream [OF well_behaved_line [OF wb] T i [unfolded w] len inv fits] obtain w1 where
    ru: "read_upto inp out seen (packet ?h body) (net c) w1" "inp w1 = rest"
    and hr: "umqtt_handle_readpacket pf c = do {
          (ret, m) \<leftarrow> umqtt_decode buf (length (packet ?h body)) (Some zero_msg);
          if ret < 0 then Some (UMQTT_DECODE_ERROR, c\<lparr>recv_buf := buf, net := w1\<rparr>)
          else do { decoded \<leftarrow> m; handle_packet pf ret decoded (c\<lparr>recv_buf := buf, net := w1\<rparr>) } }"
    unfolding Let_def buf_def by blast
  from decode_publish_packet [OF ht, of "wm_id m" "wm_topic m" "wm_payload m", unfolded q, folded body_def,
      OF len tl, of "drop (length (packet ?h body)) (recv_buf c)" "length (packet ?h body)" zero_msg]
  obtain r m' where dec: "umqtt_decode buf (length (packet ?h body)) (Some zero_msg) = Some (r, Some m')"
    and r: "0 \<le> r" and m': "m_header m' = ?h" "received_topic buf m' = Some (cstr (wm_topic m))"
      "received_payload buf m' = Some (wm_payload m)"
      "0 < wm_qos m \<longrightarrow> pb_packet_id (u_publish m') = wm_id m"
    unfolding buf_def by blast
  define c1 where "c1 = c\<lparr>recv_buf := buf, net := w1\<rparr>"
  have lbuf: "length buf = length (recv_buf c)"
    using fits inv by (simp add: buf_def client_inv_def)
  have inv1: "client_inv c1" using inv lbuf by (simp add: c1_def client_inv_def)
  have "hdr_type (m_header m') = type_code UMQTT_TYPE_PUBLISH"
    "hdr_qos (m_header m') \<in> {UMQTT_QOS0, UMQTT_QOS1}"
    "received_topic (recv_buf c1) m' = Some (cstr (wm_topic m))"
    "received_payload (recv_buf c1) m' = Some (wm_payload m)" "4 \<le> send_size (mqtt_info c1)"
    using m' q q01 four by (auto simp: c1_def)
  from publish_handled [OF wb inv1 this r] obtain r' c2 where
    h: "handle_packet pf r m' c1 = Some (r', c2)" "0 \<le> r'"
    and c2: "client_inv c2" "mqtt_info c2 = mqtt_info c1" "sub_recv_list c2 = sub_recv_list c1"
    and o: "seen (net c2) = seen (net c1)
        @ map (\<lambda>k. (k, cstr (wm_topic m), wm_payload m)) (matching (sub_recv_list c1) (cstr (wm_topic m)))"
      "inp (net c2) = inp (net c1)"
      "out (net c2) = out (net c1) @ puback_for (hdr_qos (m_header m')) (pb_packet_id (u_publish m'))"
    by blast
  have "umqtt_handle_readpacket pf c = Some (r', c2)"
    using hr dec r h by (simp add: c1_def)
  then have turn: "umqtt_thread_turn pf c = Some (True, c2)"
    using h(2) by (simp add: umqtt_thread_turn_def)
  have ans: "puback_for (hdr_qos (m_header m')) (pb_packet_id (u_publish m')) = answer_for m"
    using m'(1,4) q q01 by (auto simp: answer_for_def puback_for_def)
  from turn o c2 ru ans show ?thesis
    by (auto simp: c1_def read_upto_def calls_for_def)
qed

text \<open>As many turns of the receive thread as there are messages in the socket.\<close>

lemma messages_read:
  assumes "well_behaved pf T inp out seen" and "in_time T (recv_time_ms (mqtt_info c))"
    and "client_inv c" and "\<forall>m\<in>set ms. wire_ok (mqtt_info c) m" and "4 \<le> send_size (mqtt_info c)"
    and "inp (net c) = concat (map wire ms) @ rest"
  shows "\<exists>c'. umqtt_thread (length ms) pf c = Some c' \<and> client_inv c' \<and> inp (net c') = rest
    \<and> seen (net c') = seen (net c) @ concat (map (calls_for (sub_recv_list c)) ms)
    \<and> out (net c') = out (net c) @ concat (map answer_for ms)"
  using assms
proof (induction ms arbitrary: c)
  case (Cons m ms)
  then have i: "inp (net c) = wire m @ (concat (map wire ms) @ rest)" by simp
  have "wire_ok (mqtt_info c) m" using Cons.prems by simp
  from publish_turn [OF Cons.prems(1-3) this Cons.prems(5) i] obtain c1 where
    "umqtt_thread_turn pf c = Some (True, c1)" "client_inv c1" "mqtt_info c1 = mqtt_info c"
    "sub_recv_list c1 = sub_recv_list c" "inp (net c1) = concat (map wire ms) @ rest"
    "seen (net c1) = seen (net c) @ calls_for (sub_recv_list c) m"
    "out (net c1) = out (net c) @ answer_for m" by blast
  moreover have "\<exists>c'. umqtt_thread (length ms) pf c1 = Some c' \<and> client_inv c' \<and> inp (net c') = rest
    \<and> seen (net c') = seen (net c1) @ concat (map (calls_for (sub_recv_list c1)) ms)
    \<and> out (net c') = out (net c1) @ concat (map answer_for ms)"
    by (rule Cons.IH) (use Cons.prems calculation in simp_all)
  ultimately show ?case by auto
qed simp

text \<open>
  C2: messages are received as they were sent. When the bytes of any number of QoS 0 and QoS 1
  messages that fit the receive buffer wait in the socket, and however the socket cuts them, as
  many turns of the receive thread read exactly these bytes, call exactly the callbacks whose
  filters match, once per matching subscription, in the order of the messages and of the
  subscription list, with the topic and the payload sent, and answer each QoS 1 message with a
  PUBACK that carries its packet id.
\<close>

theorem messages_delivered:
  assumes "well_behaved pf T inp out seen" and "in_time T (recv_time_ms (mqtt_info c))"
    and "client_inv c" and "\<forall>m\<in>set ms. wire_ok (mqtt_info c) m" and "4 \<le> send_size (mqtt_info c)"
    and "inp (net c) = concat (map wire ms) @ rest"
  shows "\<exists>c'. umqtt_thread (length ms) pf c = Some c' \<and> client_inv c' \<and> inp (net c') = rest
    \<and> seen (net c') = seen (net c) @ concat (map (calls_for (sub_recv_list c)) ms)
    \<and> out (net c') = out (net c) @ concat (map answer_for ms)"
  using assms by (rule messages_read)

definition two_messages :: "wire_msg list" where
  "two_messages =
    [\<lparr> wm_dup = 0, wm_qos = 1, wm_id = 7, wm_topic = ascii ''a/b'', wm_payload = [1, 2] \<rparr>,
     \<lparr> wm_dup = 0, wm_qos = 0, wm_id = 0, wm_topic = ascii ''a/c'', wm_payload = [3] \<rparr>]"

definition lab_client :: "bytes \<Rightarrow> lab umqtt_client" where
  "lab_client xs = (new_client (umqtt_check_def_info sample_info)
     [\<lparr> st_topicfilter = Some (ascii ''a/+''), st_callback = Some 1, st_qos = 1 \<rparr>,
      \<lparr> st_topicfilter = Some (ascii ''a/b''), st_callback = Some 2, st_qos = 1 \<rparr>] (xs, [], []))"

lemma lab_client_inv [simp]: "client_inv (lab_client xs)"
  by (simp add: lab_client_def new_client_inv)

lemma lab_client_fields [simp]:
  "net (lab_client xs) = (xs, [], [])" "recv_time_ms (mqtt_info (lab_client xs)) = 100"
  "send_size (mqtt_info (lab_client xs)) = 1024" "recv_size (mqtt_info (lab_client xs)) = 64"
  by (simp_all add: lab_client_def new_client_def umqtt_check_def_info_def sample_info_def)

lemma lab_in_time: "in_time {0} 100"
  by (simp add: in_time_def rt_tick_from_millisecond_def signed_divide_int_def signed_modulo_int_def)

theorem messages_delivered_witness:
  "\<exists>c'. umqtt_thread (length two_messages) lab_platform (lab_client (concat (map wire two_messages) @ [5]))
      = Some c' \<and> client_inv c' \<and> lab_inp (net c') = [5]
    \<and> lab_seen (net c') = [] @ concat (map (calls_for (sub_recv_list
         (lab_client (concat (map wire two_messages) @ [5])))) two_messages)
    \<and> lab_out (net c') = [] @ concat (map answer_for two_messages)"
proof -
  have ok: "\<forall>m\<in>set two_messages. wire_ok (mqtt_info (lab_client xs)) m" for xs
    by (simp add: two_messages_def wire_ok_def wire_def packet_def publish_body_def c_strlen_def
        cstr_def ascii_def rl_bytes.simps)
  show ?thesis
    using messages_delivered [OF lab_well_behaved, of "lab_client (concat (map wire two_messages) @ [5])"
        two_messages "[5]"] ok lab_in_time
    by simp
qed

lemma two_messages_calls:
  "concat (map (calls_for (sub_recv_list (lab_client xs))) two_messages)
   = [(1, ascii ''a/b'', [1, 2]), (2, ascii ''a/b'', [1, 2]), (1, ascii ''a/c'', [3])]"
  by (simp add: two_messages_def calls_for_def matching_def lab_client_def new_client_def ascii_def cstr_def)

end
