(* ===== verification/Mqtt_Connect.thy ===== *)
theory Mqtt_Connect
  imports Mqtt_Session
begin

text \<open>
  Connecting and reconnecting: what a connect attempt leaves alone, when \<open>umqtt_connect\<close> gives up,
  how many connections the retry counter allows over the life of a client, and what the receive
  thread's reconnect does to the keep-alive timer.
\<close>

section \<open>What the handshake leaves alone\<close>

definition conf ::
    "'w umqtt_client \<Rightarrow> umqtt_info \<times> u8 \<times> bool option \<times> subtop_recv_handler list" where
  "conf c = (mqtt_info c, reconnect_count c, uplink_timer c, sub_recv_list c)"

named_theorems keeps_conf

lemma conf_update [simp]:
  "conf (c\<lparr>net := w\<rparr>) = conf c" "conf (c\<lparr>sock := s\<rparr>) = conf c"
  "conf (c\<lparr>connect_state := st\<rparr>) = conf c" "conf (c\<lparr>send_buf := b\<rparr>) = conf c"
  "conf (c\<lparr>recv_buf := b\<rparr>) = conf c" "conf (c\<lparr>send_len := n\<rparr>) = conf c"
  "conf (c\<lparr>uplink_next_tick := t\<rparr>) = conf c" "conf (c\<lparr>uplink_last_tick := t\<rparr>) = conf c"
  "conf (c\<lparr>reconnect_next_tick := t\<rparr>) = conf c" "conf (c\<lparr>reconnect_last_tick := t\<rparr>) = conf c"
  "conf (c\<lparr>msg_queue := q\<rparr>) = conf c" "conf (c\<lparr>qos2_msg_list := l\<rparr>) = conf c"
  "conf (c\<lparr>pubrec_msg := p\<rparr>) = conf c" "conf (c\<lparr>task_handle := b1\<rparr>) = conf c"
  by (simp_all add: conf_def)

lemma conf_simps [simp]:
  "conf (set_uplink_recon_tick pf i c) = conf c" "conf (set_connect_status s c) = conf c"
  "conf (trans_disconnect pf c) = conf c"
  "conf (snd (add_one_pubrec_msg pf pid c)) = conf c" "conf (snd (clear_one_pubrec_msg pid c)) = conf c"
  by (cases i; auto simp: set_uplink_recon_tick_def rt_tick_get_def split: prod.split)
     (auto simp: set_connect_status_def trans_disconnect_def add_one_pubrec_msg_def
        clear_one_pubrec_msg_def rt_tick_get_def split: prod.split option.split)

lemma tick_conf [keeps_conf]: "rt_tick_get pf c = (t, c') \<Longrightarrow> conf c' = conf c"
  by (auto simp: rt_tick_get_def split: prod.splits)

lemma malloc_conf [keeps_conf]: "malloc pf n c = (t, c') \<Longrightarrow> conf c' = conf c"
  by (auto simp: malloc_def split: prod.splits)

lemma dup_string_conf [keeps_conf]: "dup_string pf p n c = Some (ok, q, c') \<Longrightarrow> conf c' = conf c"
  by (auto simp: dup_string_def malloc_def bind_eq_Some_conv split: if_splits prod.splits)

lemma add_qos2_conf [keeps_conf]: "add_one_qos2_msg pf tnl m c = Some (r, c') \<Longrightarrow> conf c' = conf c"
  by (auto simp: add_one_qos2_msg_def bind_eq_Some_conv Let_def split: if_splits prod.splits
      dest!: keeps_conf)

lemma deliver_conf [keeps_conf]:
  "deliver_loop pf topic len tnl m hs c = Some c' \<Longrightarrow> conf c' = conf c"
proof (induction hs arbitrary: c)
  case (Cons h hs)
  then show ?case
    by (fastforce simp: bind_eq_Some_conv split: option.splits if_splits)
qed simp

lemma encode_msg_conf [keeps_conf]: "encode_msg t n m c = Some (r, c') \<Longrightarrow> conf c' = conf c"
  by (auto simp: encode_msg_def bind_eq_Some_conv)

lemma send_msg_conf [keeps_conf]: "send_msg pf n c = Some (r, c') \<Longrightarrow> conf c' = conf c"
  by (auto simp: send_msg_def bind_eq_Some_conv)

lemma encode_and_send_conf [keeps_conf]:
  "encode_and_send pf bad t m c = Some (r, c') \<Longrightarrow> conf c' = conf c"
  by (auto simp: encode_and_send_def bind_eq_Some_conv Let_def split: if_splits
      dest!: encode_msg_conf send_msg_conf)

lemma readpacket_conf [keeps_conf]:
  "umqtt_readpacket pf buf off len timeout c = Some (r, b, c') \<Longrightarrow> conf c' = conf c"
  by (auto dest: readpacket_frame)

lemma read_length_conf [keeps_conf]: "read_length pf cnt l m c = Some (r, c') \<Longrightarrow> conf c' = conf c"
proof (induction pf cnt l m c arbitrary: r c' rule: read_length.induct)
  case (1 pf cnt l m c)
  show ?case
  proof (cases "cnt + 1 > 4")
    case True
    with "1.prems" show ?thesis by (subst (asm) read_length.simps) simp
  next
    case False
    then obtain ret b c1 where
      rp: "umqtt_readpacket pf [0] 0 1 (recv_time_ms (mqtt_info c)) c = Some (ret, b, c1)"
      using "1.prems"
      by (subst (asm) read_length.simps) (auto simp: Let_def split: option.splits)
    have c1: "conf c1 = conf c" using readpacket_conf [OF rp] .
    show ?thesis
    proof (cases "ret = UMQTT_OK \<and> hd b AND 0x80 \<noteq> 0")
      case stop: False
      with False rp "1.prems" c1 show ?thesis
        by (subst (asm) read_length.simps) (auto simp: Let_def split: if_splits option.splits)
    next
      case more: True
      with False rp "1.prems" obtain rb where rb: "wr (recv_buf c1) (cnt + 1) (hd b) = Some rb"
        by (subst (asm) read_length.simps) (auto simp: Let_def split: option.splits)
      then have "read_length pf (cnt + 1) (l + uint (hd b AND 0x7F) * m) (m * 0x80)
          (c1\<lparr>recv_buf := rb\<rparr>) = Some (r, c')"
        using False more rp "1.prems"
        by (subst (asm) read_length.simps) (simp add: Let_def)
      with "1.IH" [OF refl] False rp more rb c1 show ?thesis by auto
    qed
  qed
qed

lemma discard_conf [keeps_conf]: "discard_packet pf n l c = Some c' \<Longrightarrow> conf c' = conf c"
proof (induction n arbitrary: l c)
  case 0
  then show ?case by (auto simp: bind_eq_Some_conv dest: readpacket_conf)
next
  case (Suc n)
  then obtain r b c1 l1 where
    "umqtt_readpacket pf (recv_buf c) 0 (recv_size (mqtt_info c)) (recv_time_ms (mqtt_info c)) c
      = Some (r, b, c1)"
    and "discard_packet pf n l1 (c1\<lparr>recv_buf := b\<rparr>) = Some c'"
    by (auto simp: bind_eq_Some_conv)
  then show ?case using Suc.IH readpacket_conf by fastforce
qed

lemma forward_ack_conf [keeps_conf]: "forward_ack pf t b a m c = (r, c') \<Longrightarrow> conf c' = conf c"
  by (auto simp: forward_ack_def ack_mq_send_def Let_def split: if_splits)

lemma on_publish_conf [keeps_conf]: "on_publish pf ret m c = Some (r, c') \<Longrightarrow> conf c' = conf c"
  by (auto simp: on_publish_def umqtt_deliver_message_def Let_def bind_eq_Some_conv split: if_splits
      dest!: keeps_conf)

lemma on_pubrel_conf [keeps_conf]: "on_pubrel pf m c = Some (r, c') \<Longrightarrow> conf c' = conf c"
  by (auto simp: on_pubrel_def Let_def qos2_delete_noop dest!: keeps_conf)

lemma handle_packet_conf [keeps_conf]: "handle_packet pf ret m c = Some (r, c') \<Longrightarrow> conf c' = conf c"
  by (auto simp: handle_packet_def split: option.splits umqtt_type.splits dest: keeps_conf)

lemma handle_readpacket_conf [keeps_conf]:
  assumes "umqtt_handle_readpacket pf c = Some (r, c')"
  shows "conf c' = conf c"
proof -
  from assms obtain tr e rb w where
    r1: "umqtt_trans_recv pf (sock c) (recv_buf c) 0 1 (net c) = Some (tr, e, rb, w)"
    by (auto simp: umqtt_handle_readpacket_def bind_eq_Some_conv)
  define c1 where "c1 = c\<lparr>recv_buf := rb, net := w\<rparr>"
  have c1: "conf c1 = conf c" by (simp add: c1_def)
  show ?thesis
  proof (cases "tr \<le> 0")
    case True
    then show ?thesis using assms r1 c1
      by (auto simp: umqtt_handle_readpacket_def Let_def c1_def)
  next
    case False
    then obtain res c2 where rl: "read_length pf 0 0 1 c1 = Some (res, c2)"
      using assms r1 by (auto simp: umqtt_handle_readpacket_def Let_def c1_def [symmetric] bind_eq_Some_conv)
    then have c2: "conf c2 = conf c" using c1 read_length_conf by fastforce
    note body = assms [unfolded umqtt_handle_readpacket_def r1 bind.bind_lunit prod.case Let_def
        if_not_P [OF False] c1_def [symmetric] rl]
    show ?thesis
    proof (cases res)
      case (Inl ret)
      with body c2 show ?thesis by simp
    next
      case (Inr p)
      then obtain cnt len where p: "res = Inr (cnt, len)" by (cases p) auto
      show ?thesis
      proof (cases "len + 1 + int cnt > int (recv_size (mqtt_info c2))")
        case True
        with body p c2 show ?thesis by (auto simp: bind_eq_Some_conv dest: discard_conf)
      next
        case fits: False
        then obtain ret rb2 c3 where
          rp: "umqtt_readpacket pf (recv_buf c2) (cnt + 1) (nat len) (recv_time_ms (mqtt_info c2)) c2
            = Some (ret, rb2, c3)"
          using body p by (auto simp: bind_eq_Some_conv)
        define c4 where "c4 = c3\<lparr>recv_buf := rb2\<rparr>"
        have c4: "conf c4 = conf c" using readpacket_conf [OF rp] c2 by (simp add: c4_def)
        from body p fits rp have "c' = c4 \<or> (\<exists>m ret. handle_packet pf ret m c4 = Some (r, c'))"
          by (auto simp: c4_def [symmetric] bind_eq_Some_conv split: if_splits)
        with c4 show ?thesis by (auto dest: handle_packet_conf)
      qed
    qed
  qed
qed

lemma connect_wait_conf [keeps_conf]: "connect_wait pf n c = (r, c') \<Longrightarrow> conf c' = conf c"
  by (induction n arbitrary: c) (auto split: if_splits)

lemma handshake_conf [keeps_conf]: "connect_handshake pf block c = Some (r, c') \<Longrightarrow> conf c' = conf c"
  by (auto simp: connect_handshake_def bind_eq_Some_conv Let_def split: if_splits dest!: keeps_conf)

section \<open>Giving up\<close>

text \<open>A broker that cannot be reached, and the world after one attempt to reach it.\<close>

definition unreachable :: "'w platform \<Rightarrow> bytes \<Rightarrow> bool" where
  "unreachable pf uri \<longleftrightarrow> (\<forall>w. fst (umqtt_trans_connect pf uri w) < 0)"

definition attempt :: "'w platform \<Rightarrow> bytes \<Rightarrow> 'w \<Rightarrow> 'w" where
  "attempt pf uri w = (case umqtt_trans_connect pf uri w of (_, sk, w) \<Rightarrow>
     p_delay pf 5000 (snd (umqtt_trans_disconnect pf sk w)))"

lemma count_suc:
  fixes n :: u8
  assumes "n \<noteq> 255"
  shows "unat (n + 1) = unat n + 1"
proof -
  have "unat n \<noteq> 255" using assms by (simp add: word_unat_eq_iff)
  then have "unat n < 255" using unat_u8_less [of n] by simp
  then show ?thesis using unat_add_lem [of n 1] by simp
qed

lemma connect_unreachable_step:
  assumes "unreachable pf (info_uri (mqtt_info c))"
    and "\<not> reconnect_count c + 1 > reconnect_max_num (mqtt_info c)"
  shows "umqtt_connect pf block c
    = umqtt_connect pf block (c\<lparr>reconnect_count := reconnect_count c + 1, sock := - 1,
        net := attempt pf (info_uri (mqtt_info c)) (net c)\<rparr>)"
proof -
  obtain r sk w where tc: "umqtt_trans_connect pf (info_uri (mqtt_info c)) (net c) = (r, sk, w)"
    by (metis prod_cases3)
  then have "r < 0" using assms(1) unfolding unreachable_def by (metis fst_conv)
  obtain e w1 where td: "umqtt_trans_disconnect pf sk w = (e, w1)" by fastforce
  have "(trans_disconnect pf (c\<lparr>reconnect_count := reconnect_count c + 1, sock := sk, net := w\<rparr>))
         \<lparr>net := p_delay pf 5000 w1\<rparr>
      = c\<lparr>reconnect_count := reconnect_count c + 1, sock := - 1, net := p_delay pf 5000 w1\<rparr>"
    by (cases c) (simp add: trans_disconnect_def td)
  moreover have "net (trans_disconnect pf (c\<lparr>reconnect_count := n, sock := sk, net := w\<rparr>)) = w1" for n
    by (simp add: trans_disconnect_def td)
  ultimately show ?thesis
    using assms(2) \<open>r < 0\<close> tc td
    by (subst umqtt_connect.simps) (simp add: Let_def attempt_def)
qed

lemma connect_gives_up:
  assumes "unreachable pf (info_uri (mqtt_info c))"
    and "reconnect_max_num (mqtt_info c) \<noteq> 255" and "reconnect_count c \<le> reconnect_max_num (mqtt_info c)"
  shows "\<exists>c'. umqtt_connect pf block c = Some (UMQTT_RECONNECT_FAILED, c')
    \<and> connect_state c' = UMQTT_CS_DISCONNECT \<and> reconnect_count c' = 0
    \<and> net c' = (attempt pf (info_uri (mqtt_info c))
        ^^ (unat (reconnect_max_num (mqtt_info c)) - unat (reconnect_count c))) (net c)"
  using assms
proof (induction "unat (reconnect_max_num (mqtt_info c)) - unat (reconnect_count c)" arbitrary: c)
  case 0
  then have "reconnect_count c = reconnect_max_num (mqtt_info c)"
    by (simp add: word_le_nat_alt word_unat_eq_iff)
  moreover from this have "reconnect_count c + 1 > reconnect_max_num (mqtt_info c)"
    using count_suc [of "reconnect_count c"] 0 by (simp add: word_less_nat_alt)
  ultimately show ?case
    by (subst umqtt_connect.simps) (simp add: Let_def set_connect_status_def)
next
  case (Suc k)
  then have "reconnect_count c \<noteq> 255"
    using unat_u8_less [of "reconnect_max_num (mqtt_info c)"] by auto
  note n = count_suc [OF this]
  then have le: "reconnect_count c + 1 \<le> reconnect_max_num (mqtt_info c)"
    using Suc.hyps(2) by (simp add: word_le_nat_alt)
  define c1 where "c1 = c\<lparr>reconnect_count := reconnect_count c + 1, sock := - 1,
        net := attempt pf (info_uri (mqtt_info c)) (net c)\<rparr>"
  have step: "umqtt_connect pf block c = umqtt_connect pf block c1"
    unfolding c1_def using connect_unreachable_step [OF Suc.prems(1)] le by simp
  have k: "k = unat (reconnect_max_num (mqtt_info c1)) - unat (reconnect_count c1)"
    using Suc.hyps(2) n by (simp add: c1_def)
  have d: "unat (reconnect_max_num (mqtt_info c)) - unat (reconnect_count c) = Suc k"
    using Suc.hyps(2) by simp
  have "unreachable pf (info_uri (mqtt_info c1))" "reconnect_max_num (mqtt_info c1) \<noteq> 255"
    "reconnect_count c1 \<le> reconnect_max_num (mqtt_info c1)"
    using Suc.prems le by (simp_all add: c1_def)
  from Suc.hyps(1) [OF k this] show ?case
    unfolding step d funpow_Suc_right comp_apply k [symmetric] by (auto simp: c1_def)
qed

lemma connect_never_returns:
  fixes c :: "'w umqtt_client"
  assumes "unreachable pf (info_uri (mqtt_info c))" and "reconnect_max_num (mqtt_info c) = 255"
  shows "umqtt_connect pf block c = None"
proof -
  define Q where "Q = (\<lambda>(pf :: 'w platform) (block :: bool) (c :: 'w umqtt_client)
    (y :: int \<times> 'w umqtt_client).
      \<not> (unreachable pf (info_uri (mqtt_info c)) \<and> reconnect_max_num (mqtt_info c) = 255))"
  have "Q pf block c y" if "umqtt_connect pf block c = Some y" for y
    using that
  proof (rule umqtt_connect.raw_induct [where P = Q, rotated, folded reconnect_body_def])
    fix f and pf :: "'w platform" and block c y
    assume IH: "\<And>pf block c y. f pf block c = Some y \<Longrightarrow> Q pf block c y"
      and body: "reconnect_body f pf block c = Some y"
    show "Q pf block c y"
      unfolding Q_def
    proof
      assume u: "unreachable pf (info_uri (mqtt_info c)) \<and> reconnect_max_num (mqtt_info c) = 255"
      obtain r sk w where tc: "umqtt_trans_connect pf (info_uri (mqtt_info c)) (net c) = (r, sk, w)"
        by (metis prod_cases3)
      then have "r < 0" using u unfolding unreachable_def by (metis fst_conv)
      have "\<not> reconnect_count c + 1 > reconnect_max_num (mqtt_info c)"
        using u by (simp add: word_less_nat_alt) (use unat_u8_less [of "reconnect_count c + 1"] in simp)
      with body tc \<open>r < 0\<close> obtain c1 where "f pf block c1 = Some y" and "mqtt_info c1 = mqtt_info c"
        by (simp add: reconnect_body_def Let_def trans_disconnect_def split: prod.splits)
      with IH [OF this(1)] u show False by (simp add: Q_def)
    qed
  qed
  with assms show ?thesis by (cases "umqtt_connect pf block c") (auto simp: Q_def)
qed

text \<open>
  C33: when the broker cannot be reached, \<open>umqtt_connect\<close> tries exactly as often as the retry
  counter still allows, closing the socket and waiting five seconds after each attempt, then
  reports UMQTT_RECONNECT_FAILED with the client disconnected and the counter back at 0. With
  \<open>reconnect_max_num = 255\<close> the byte-wide counter never exceeds the limit and the call never
  returns.
\<close>

theorem connect_retries:
  assumes "unreachable pf (info_uri (mqtt_info c))" and "reconnect_count c \<le> reconnect_max_num (mqtt_info c)"
  shows "if reconnect_max_num (mqtt_info c) = 255 then umqtt_connect pf block c = None
    else \<exists>c'. umqtt_connect pf block c = Some (UMQTT_RECONNECT_FAILED, c')
      \<and> connect_state c' = UMQTT_CS_DISCONNECT \<and> reconnect_count c' = 0
      \<and> net c' = (attempt pf (info_uri (mqtt_info c))
          ^^ (unat (reconnect_max_num (mqtt_info c)) - unat (reconnect_count c))) (net c)"
  using connect_gives_up [OF assms(1) _ assms(2)] connect_never_returns [OF assms(1)] by simp

text \<open>A network without name server, in a world that counts the waits.\<close>

definition no_network :: "nat platform" where
  "no_network =
    \<lparr> p_getaddrinfo = (\<lambda>_ _ w. ((- 1, None), w)), p_socket = (\<lambda>_ w. (- 1, w)),
      p_connect = (\<lambda>_ _ w. (- 1, w)), p_closesocket = (\<lambda>_ w. ((- 1, 9), w)),
      p_send = (\<lambda>_ _ w. (Send_Error 9, w)), p_recv = (\<lambda>_ _ w. (Recv_Error 9, w)),
      p_malloc = (\<lambda>_ w. (True, w)), p_tick = (\<lambda>w. (0, w)), p_delay = (\<lambda>_ w. w + 1),
      p_object_create = (\<lambda>w. (True, w)), p_timer_start = (\<lambda>w. (True, w)),
      p_callback = (\<lambda>_ _ _ b w. Some (b, w)), p_user_handler = (\<lambda>_ _ w. w),
      p_while_blocked = (\<lambda>_ w. ([], w)) \<rparr>"

theorem connect_retries_witness:
  "\<exists>c'. umqtt_connect no_network True (new_client (umqtt_check_def_info sample_info) [] 0)
      = Some (UMQTT_RECONNECT_FAILED, c')
    \<and> connect_state c' = UMQTT_CS_DISCONNECT \<and> reconnect_count c' = 0 \<and> net c' = 5"
proof -
  let ?c = "new_client (umqtt_check_def_info sample_info) [] (0 :: nat)"
  have u: "unreachable no_network uri" for uri
    by (auto simp: unreachable_def umqtt_trans_connect_def umqtt_resolve_uri_def no_network_def
        Let_def split: option.split prod.split)
  have a: "attempt no_network uri w = w + 1" for uri w
    by (auto simp: attempt_def umqtt_trans_connect_def umqtt_resolve_uri_def umqtt_trans_disconnect_def
        no_network_def Let_def split: option.split prod.split)
  have aa: "(attempt no_network uri ^^ k) w = w + k" for uri k w
    by (induction k) (simp_all add: a)
  have f: "reconnect_max_num (mqtt_info ?c) = 5" "reconnect_count ?c = 0" "net ?c = 0"
    by (simp_all add: new_client_def umqtt_check_def_info_def sample_info_def)
  show ?thesis
    using connect_retries [OF u, of ?c True] by (simp add: f aa)
qed

section \<open>The retry counter over the life of a client\<close>

lemma reconnect_body_budget:
  assumes b: "reconnect_body f pf block c = Some (r, c')" and r: "r \<noteq> UMQTT_RECONNECT_FAILED"
    and max: "reconnect_max_num (mqtt_info c) \<noteq> 255" "reconnect_count c \<le> reconnect_max_num (mqtt_info c)"
    and IH: "\<And>c1. f pf block c1 = Some (r, c') \<Longrightarrow> mqtt_info c1 = mqtt_info c \<Longrightarrow> uplink_timer c1 = uplink_timer c
      \<Longrightarrow> reconnect_count c < reconnect_count c1 \<Longrightarrow> reconnect_count c1 \<le> reconnect_max_num (mqtt_info c)
      \<Longrightarrow> mqtt_info c' = mqtt_info c \<and> uplink_timer c' = uplink_timer c
        \<and> reconnect_count c1 < reconnect_count c' \<and> reconnect_count c' \<le> reconnect_max_num (mqtt_info c)"
  shows "mqtt_info c' = mqtt_info c \<and> uplink_timer c' = uplink_timer c
    \<and> reconnect_count c < reconnect_count c' \<and> reconnect_count c' \<le> reconnect_max_num (mqtt_info c)"
proof -
  have n255: "reconnect_count c \<noteq> 255"
    using max unat_u8_less [of "reconnect_max_num (mqtt_info c)"]
    by (auto simp: word_le_nat_alt word_unat_eq_iff)
  define c1 where "c1 = c\<lparr>reconnect_count := reconnect_count c + 1\<rparr>"
  have lt: "reconnect_count c < reconnect_count c1"
    using count_suc [OF n255] by (simp add: c1_def word_less_nat_alt)
  have le: "\<not> reconnect_count c1 > reconnect_max_num (mqtt_info c1)"
    using b r by (auto simp: reconnect_body_def Let_def c1_def)
  obtain rt sk w where tc: "umqtt_trans_connect pf (info_uri (mqtt_info c1)) (net c1) = (rt, sk, w)"
    by (metis prod_cases3)
  define c2 where "c2 = c1\<lparr>sock := sk, net := w\<rparr>"
  note body = b [unfolded reconnect_body_def Let_def, folded c1_def,
      unfolded if_not_P [OF le] tc prod.case, folded c2_def]
  then obtain r3 c3 where
    hs: "(if rt < 0 then Some (UMQTT_FIN_ACK, c2) else connect_handshake pf block c2) = Some (r3, c3)"
    and rest: "(if r3 = UMQTT_FIN_ACK
      then f pf block ((trans_disconnect pf c3)\<lparr>net := p_delay pf 5000 (net (trans_disconnect pf c3))\<rparr>)
      else Some (r3, if r3 < 0 then set_connect_status UMQTT_CS_DISCONNECT c3 else c3)) = Some (r, c')"
    unfolding bind_eq_Some_conv by auto
  have c3: "conf c3 = conf c1"
    using hs by (auto split: if_splits dest!: handshake_conf simp: c2_def)
  show ?thesis
  proof (cases "r3 = UMQTT_FIN_ACK")
    case False
    with rest have "conf c' = conf c1" using c3 by (auto split: if_splits)
    with lt le show ?thesis by (simp add: conf_def c1_def)
  next
    case True
    define c4 where "c4 = (trans_disconnect pf c3)\<lparr>net := p_delay pf 5000 (net (trans_disconnect pf c3))\<rparr>"
    have "conf c4 = conf c1" using c3 by (simp add: c4_def)
    then have c4: "mqtt_info c4 = mqtt_info c" "uplink_timer c4 = uplink_timer c"
      "reconnect_count c4 = reconnect_count c1" by (simp_all add: conf_def c1_def)
    have "f pf block c4 = Some (r, c')" using rest True by (simp add: c4_def)
    moreover have "reconnect_count c < reconnect_count c4" "reconnect_count c4 \<le> reconnect_max_num (mqtt_info c)"
      using lt le c4 by (simp_all add: c1_def)
    ultimately show ?thesis using IH [of c4] c4 by (meson less_trans)
  qed
qed

lemma connect_counts:
  fixes c :: "'w umqtt_client"
  assumes "umqtt_connect pf block c = Some (r, c')" and "r \<noteq> UMQTT_RECONNECT_FAILED"
    and "reconnect_max_num (mqtt_info c) \<noteq> 255" and "reconnect_count c \<le> reconnect_max_num (mqtt_info c)"
  shows "mqtt_info c' = mqtt_info c \<and> uplink_timer c' = uplink_timer c
    \<and> reconnect_count c < reconnect_count c' \<and> reconnect_count c' \<le> reconnect_max_num (mqtt_info c)"
proof -
  define Q where "Q = (\<lambda>(pf :: 'w platform) (block :: bool) (c :: 'w umqtt_client)
    (y :: int \<times> 'w umqtt_client).
      fst y \<noteq> UMQTT_RECONNECT_FAILED \<longrightarrow> reconnect_max_num (mqtt_info c) \<noteq> 255
      \<longrightarrow> reconnect_count c \<le> reconnect_max_num (mqtt_info c)
      \<longrightarrow> mqtt_info (snd y) = mqtt_info c \<and> uplink_timer (snd y) = uplink_timer c
        \<and> reconnect_count c < reconnect_count (snd y)
        \<and> reconnect_count (snd y) \<le> reconnect_max_num (mqtt_info c))"
  have "Q pf block c (r, c')"
    using assms(1)
  proof (rule umqtt_connect.raw_induct [where P = Q, rotated, folded reconnect_body_def])
    fix f and pf :: "'w platform" and block c y
    assume IH: "\<And>pf block c y. f pf block c = Some y \<Longrightarrow> Q pf block c y"
      and body: "reconnect_body f pf block c = Some y"
    obtain r' c' where y: "y = (r', c')" by (cases y)
    show "Q pf block c y"
      unfolding Q_def
    proof (intro impI)
      assume r: "fst y \<noteq> UMQTT_RECONNECT_FAILED"
        and max: "reconnect_max_num (mqtt_info c) \<noteq> 255" "reconnect_count c \<le> reconnect_max_num (mqtt_info c)"
      have "mqtt_info c' = mqtt_info c \<and> uplink_timer c' = uplink_timer c
        \<and> reconnect_count c < reconnect_count c' \<and> reconnect_count c' \<le> reconnect_max_num (mqtt_info c)"
      proof (rule reconnect_body_budget [OF body [unfolded y]])
        fix c1
        assume "f pf block c1 = Some (r', c')" "mqtt_info c1 = mqtt_info c" "uplink_timer c1 = uplink_timer c"
          "reconnect_count c1 \<le> reconnect_max_num (mqtt_info c)"
        then show "mqtt_info c' = mqtt_info c \<and> uplink_timer c' = uplink_timer c
          \<and> reconnect_count c1 < reconnect_count c' \<and> reconnect_count c' \<le> reconnect_max_num (mqtt_info c)"
          using IH [of pf block c1 "(r', c')"] r max y by (simp add: Q_def)
      qed (use r max y in simp_all)
      then show "mqtt_info (snd y) = mqtt_info c \<and> uplink_timer (snd y) = uplink_timer c
        \<and> reconnect_count c < reconnect_count (snd y)
        \<and> reconnect_count (snd y) \<le> reconnect_max_num (mqtt_info c)" using y by simp
    qed
  qed
  with assms(2-) show ?thesis by (simp add: Q_def)
qed

text \<open>\<open>n\<close> further connects in a row, each of which comes back without having given up.\<close>

fun connects :: "'w platform \<Rightarrow> 'w umqtt_client \<Rightarrow> bool list \<Rightarrow> 'w umqtt_client option" where
  "connects pf c [] = Some c"
| "connects pf c (block # bs) = (case umqtt_connect pf block c of
     Some (r, c1) \<Rightarrow> if r = UMQTT_RECONNECT_FAILED then None else connects pf c1 bs | None \<Rightarrow> None)"

text \<open>
  Connections use up the retry counter. Nothing resets \<open>reconnect_count\<close> after a successful
  connect, so a client manages at most \<open>reconnect_max_num\<close> connections (5 by default) in its life;
  when they are used up, the next \<open>umqtt_connect\<close> reports UMQTT_RECONNECT_FAILED without a look at
  the network, however well the broker can be reached.
\<close>

theorem connections_used_up:
  assumes "reconnect_max_num (mqtt_info c) \<noteq> 255" and "reconnect_count c \<le> reconnect_max_num (mqtt_info c)"
    and "connects pf c bs = Some c1"
  shows "length bs \<le> unat (reconnect_max_num (mqtt_info c)) - unat (reconnect_count c)
    \<and> (length bs = unat (reconnect_max_num (mqtt_info c)) - unat (reconnect_count c)
       \<longrightarrow> (\<exists>c2. umqtt_connect pf block c1 = Some (UMQTT_RECONNECT_FAILED, c2) \<and> net c2 = net c1))"
  using assms
proof (induction bs arbitrary: c)
  case Nil
  show ?case
  proof (intro conjI impI)
    assume "length [] = unat (reconnect_max_num (mqtt_info c)) - unat (reconnect_count c)"
    then have eq: "reconnect_count c = reconnect_max_num (mqtt_info c)"
      using Nil.prems(2) by (simp add: word_le_nat_alt word_unat_eq_iff)
    have "reconnect_count c + 1 > reconnect_max_num (mqtt_info c)"
      using count_suc [of "reconnect_count c"] Nil.prems(1) eq by (simp add: word_less_nat_alt)
    then show "\<exists>c2. umqtt_connect pf block c1 = Some (UMQTT_RECONNECT_FAILED, c2) \<and> net c2 = net c1"
      using Nil.prems(3) by (subst umqtt_connect.simps) (auto simp: Let_def set_connect_status_def)
  qed simp
next
  case (Cons b bs)
  then obtain r c0 where u: "umqtt_connect pf b c = Some (r, c0)" "r \<noteq> UMQTT_RECONNECT_FAILED"
    and cs: "connects pf c0 bs = Some c1" by (auto split: option.splits if_splits)
  note k = connect_counts [OF u Cons.prems(1,2)]
  have "length bs \<le> unat (reconnect_max_num (mqtt_info c0)) - unat (reconnect_count c0)
    \<and> (length bs = unat (reconnect_max_num (mqtt_info c0)) - unat (reconnect_count c0)
       \<longrightarrow> (\<exists>c2. umqtt_connect pf block c1 = Some (UMQTT_RECONNECT_FAILED, c2) \<and> net c2 = net c1))"
    by (rule Cons.IH) (use k Cons.prems cs in simp_all)
  moreover have "unat (reconnect_count c) < unat (reconnect_count c0)"
    "unat (reconnect_count c0) \<le> unat (reconnect_max_num (mqtt_info c))"
    using k by (simp_all add: word_less_nat_alt word_le_nat_alt)
  ultimately show ?case using k by auto
qed

section \<open>The handshake\<close>

text \<open>The CONNECT packet a client sends, when it can be built.\<close>

definition connect_packet :: "umqtt_info \<Rightarrow> bytes" where
  "connect_packet info = packet 0x10 (connect_body (u_connect (connect_msg info)))"

definition connect_ok :: "umqtt_info \<Rightarrow> bool" where
  "connect_ok info \<longleftrightarrow> (info_user_name info \<noteq> None \<longrightarrow> info_password info \<noteq> None)
     \<and> umqtt_pkgs_len (MQTTSerialize_connectLength (u_connect (connect_msg info))) \<le> int (send_size info)
     \<and> send_size info < 268435456"

lemma connect_flag_bits:
  "username_flag_bit (connect_flags (u_connect (connect_msg info))) \<longleftrightarrow> info_user_name info \<noteq> None"
  "password_flag_bit (connect_flags (u_connect (connect_msg info))) \<longleftrightarrow> info_password info \<noteq> None"
  by (simp_all add: connect_msg_def UMQTT_DEF_CONNECT_FLAGS_def username_flag_bit_def
      password_flag_bit_def)

lemma connect_encoded:
  assumes inv: "client_inv c" and ok: "connect_ok (mqtt_info c)"
  shows "\<exists>b. blit (send_buf c) 0 (connect_packet (mqtt_info c)) = Some b \<and>
    umqtt_encode UMQTT_TYPE_CONNECT (send_buf c) (send_size (mqtt_info c)) (Some (connect_msg (mqtt_info c)))
      = Some (int (length (connect_packet (mqtt_info c))), b)"
proof -
  let ?o = "u_connect (connect_msg (mqtt_info c))"
  have lvl: "protocol_level ?o = 4" by (simp add: connect_msg_def)
  have fits: "umqtt_pkgs_len (MQTTSerialize_connectLength ?o) \<le> int (send_size (mqtt_info c))"
    using ok by (simp add: connect_ok_def)
  have len: "int (length (connect_body ?o)) = MQTTSerialize_connectLength ?o"
    using length_connect_body [OF lvl] ok by (auto simp: connect_flag_bits connect_ok_def)
  have "length (connect_packet (mqtt_info c)) \<le> send_size (mqtt_info c)"
    using pkgs_len_bound [of "length (connect_body ?o)"] fits ok len
    by (simp add: connect_ok_def connect_packet_def packet_def)
  then obtain b where "blit (send_buf c) 0 (connect_packet (mqtt_info c)) = Some b"
    using inv by (fastforce simp: blit_def client_inv_def)
  then show ?thesis
    using MQTTSerialize_connect_blit [OF lvl fits, of "send_buf c"] len [symmetric]
    by (simp add: umqtt_encode_def umqtt_connect_encode_def connect_packet_def packet_def Let_def)
qed

lemma connect_sent:
  assumes wb: "well_behaved pf T inp out seen" and inv: "client_inv c" and ok: "connect_ok (mqtt_info c)"
  shows "\<exists>r b n w'. encode_and_send pf (\<lambda>r. r \<le> 0) UMQTT_TYPE_CONNECT (Some (connect_msg (mqtt_info c))) c
      = Some (r, c\<lparr>send_buf := b, send_len := n, net := w'\<rparr>) \<and> 0 \<le> r
    \<and> length b = length (send_buf c)
    \<and> out w' = out (net c) @ connect_packet (mqtt_info c) \<and> inp w' = inp (net c) \<and> seen w' = seen (net c)"
proof -
  from connect_encoded [OF inv ok] obtain b where
    b: "blit (send_buf c) 0 (connect_packet (mqtt_info c)) = Some b" and
    enc: "umqtt_encode UMQTT_TYPE_CONNECT (send_buf c) (send_size (mqtt_info c)) (Some (connect_msg (mqtt_info c)))
      = Some (int (length (connect_packet (mqtt_info c))), b)" by blast
  have bad: "\<not> (\<lambda>r. r \<le> 0) (int (length (connect_packet (mqtt_info c))))"
    by (simp add: connect_packet_def packet_def)
  from encode_and_send_out [OF wb inv enc b, of "\<lambda>r. r \<le> 0", OF bad] length_blit [OF b]
  show ?thesis by blast
qed

lemma decode_connack:
  "\<exists>r m. umqtt_decode (packet 0x20 [sp, code] @ rest) n (Some zero_msg) = Some (r, Some m) \<and> 0 \<le> r
    \<and> hdr_type (m_header m) = type_code UMQTT_TYPE_CONNACK"
proof -
  let ?b = "packet 0x20 [sp, code] @ rest"
  have rl: "rl_bytes (Suc (Suc 0)) = [2]" by (simp add: rl_bytes.simps)
  have h: "hdr_type 0x20 = type_code UMQTT_TYPE_CONNACK" by (simp add: hdr_type_def)
  have l: "umqtt_pkgs_decodeBuf ?b (Suc 0) = Some (1, 2)" using packet_length [of "[sp, code]"] rl by simp
  have b: "?b = 0x20 # 2 # sp # code # rest" by (simp add: packet_def rl)
  have rd: "umqtt_readChar ?b (Suc (Suc 0)) = Some (sp, 3)" "umqtt_readChar ?b 3 = Some (code, 4)"
    unfolding b by (simp_all add: umqtt_readChar.simps rd_def)
  show ?thesis
    using h l rd
    by (simp add: umqtt_decode_packet [OF h] umqtt_connack_decode_def packet_header)
qed

lemma connack_handled:
  assumes wb: "well_behaved pf T inp out seen" and T: "in_time T (recv_time_ms (mqtt_info c))"
    and inv: "client_inv c" and fits: "4 \<le> recv_size (mqtt_info c)"
    and i: "inp (net c) = packet 0x20 [sp, code] @ rest"
  shows "\<exists>r c'. umqtt_handle_readpacket pf c = Some (r, c') \<and> 0 \<le> r
    \<and> connect_state c' = UMQTT_CS_LINKED \<and> sock c' = sock c \<and> mqtt_info c' = mqtt_info c
    \<and> inp (net c') = rest \<and> out (net c') = out (net c) \<and> seen (net c') = seen (net c)"
proof -
  have "length (packet 0x20 [sp, code]) \<le> recv_size (mqtt_info c)"
    using fits by (simp add: packet_def rl_bytes.simps)
  from handle_readpacket_stream [OF well_behaved_line [OF wb] T i _ inv this] obtain w1 where
    ru: "read_upto inp out seen (packet 0x20 [sp, code]) (net c) w1" "inp w1 = rest"
    and hr: "let buf = packet 0x20 [sp, code] @ drop (length (packet 0x20 [sp, code])) (recv_buf c);
         c1 = c\<lparr>recv_buf := buf, net := w1\<rparr>
     in umqtt_handle_readpacket pf c = do {
          (ret, m) \<leftarrow> umqtt_decode buf (length (packet 0x20 [sp, code])) (Some zero_msg);
          if ret < 0 then Some (UMQTT_DECODE_ERROR, c1)
          else do { decoded \<leftarrow> m; handle_packet pf ret decoded c1 } }" by auto
  define c1 where "c1 = c\<lparr>recv_buf := packet 0x20 [sp, code] @ drop (length (packet 0x20 [sp, code])) (recv_buf c),
     net := w1\<rparr>"
  from decode_connack obtain r m where
    dec: "umqtt_decode (packet 0x20 [sp, code] @ drop (length (packet 0x20 [sp, code])) (recv_buf c))
        (length (packet 0x20 [sp, code])) (Some zero_msg) = Some (r, Some m)"
    and r: "0 \<le> r" and m: "hdr_type (m_header m) = type_code UMQTT_TYPE_CONNACK" by blast
  have hp: "handle_packet pf r m c1
      = Some (r, set_connect_status UMQTT_CS_LINKED (set_uplink_recon_tick pf UPLINK_NEXT_TICK c1))"
    by (simp only: handle_packet_def m type_of_code_code option.case umqtt_type.case)
  from set_next_tick_obs [OF well_behaved_line [OF wb], of c1] obtain t w2 where
    "set_uplink_recon_tick pf UPLINK_NEXT_TICK c1 = c1\<lparr>uplink_next_tick := t, net := w2\<rparr>"
    "inp w2 = inp (net c1)" "out w2 = out (net c1)" "seen w2 = seen (net c1)" by blast
  moreover have "umqtt_handle_readpacket pf c = handle_packet pf r m c1"
    using hr dec r by (simp add: Let_def c1_def)
  ultimately show ?thesis
    using hp ru r by (auto simp: set_connect_status_def c1_def read_upto_def)
qed

lemma set_last_tick_obs:
  assumes "line_contract pf T inp out seen"
  shows "\<exists>t w'. set_uplink_recon_tick pf UPLINK_LAST_TICK c = c\<lparr>uplink_last_tick := t, net := w'\<rparr>
    \<and> inp w' = inp (net c) \<and> out w' = out (net c) \<and> seen w' = seen (net c)"
proof -
  obtain t c1 where t: "rt_tick_get pf c = (t, c1)" by fastforce
  from tickD(2) [OF assms t] obtain w' where w': "c1 = c\<lparr>net := w'\<rparr>"
    "inp w' = inp (net c)" "out w' = out (net c)" "seen w' = seen (net c)" by blast
  then have "set_uplink_recon_tick pf UPLINK_LAST_TICK c = c\<lparr>uplink_last_tick := t, net := w'\<rparr>"
    using t by (cases c) (simp add: set_uplink_recon_tick_def)
  with w' show ?thesis by blast
qed

lemma handshake_done:
  assumes wb: "well_behaved pf T inp out seen" and T: "in_time T (recv_time_ms (mqtt_info c))"
    and inv: "client_inv c" and ok: "connect_ok (mqtt_info c)"
    and fits: "4 \<le> recv_size (mqtt_info c)" and time: "push_bit 1 (connect_time (mqtt_info c)) \<noteq> 0"
    and i: "inp (net c) = packet 0x20 [sp, code] @ rest"
  shows "\<exists>c'. connect_handshake pf True c = Some (UMQTT_OK, c')
    \<and> connect_state c' = UMQTT_CS_LINKED \<and> sock c' = sock c
    \<and> inp (net c') = rest \<and> out (net c') = out (net c) @ connect_packet (mqtt_info c)
    \<and> seen (net c') = seen (net c)"
proof -
  from connect_sent [OF wb inv ok] obtain r b n w1 where
    s: "encode_and_send pf (\<lambda>r. r \<le> 0) UMQTT_TYPE_CONNECT (Some (connect_msg (mqtt_info c))) c
      = Some (r, c\<lparr>send_buf := b, send_len := n, net := w1\<rparr>)" "0 \<le> r" "length b = length (send_buf c)"
    and o1: "out w1 = out (net c) @ connect_packet (mqtt_info c)" "inp w1 = inp (net c)" "seen w1 = seen (net c)"
    by blast
  define c1 where "c1 = c\<lparr>send_buf := b, send_len := n, net := w1\<rparr>"
  from set_last_tick_obs [OF well_behaved_line [OF wb], of c1] obtain t w2 where
    lt: "set_uplink_recon_tick pf UPLINK_LAST_TICK c1 = c1\<lparr>uplink_last_tick := t, net := w2\<rparr>"
    and o2: "inp w2 = inp (net c1)" "out w2 = out (net c1)" "seen w2 = seen (net c1)" by blast
  define c2 where "c2 = c1\<lparr>uplink_last_tick := t, net := w2\<rparr>"
  have "client_inv c2" using inv s(3) by (simp add: c2_def c1_def client_inv_def)
  moreover have "in_time T (recv_time_ms (mqtt_info c2))" "4 \<le> recv_size (mqtt_info c2)"
    "inp (net c2) = packet 0x20 [sp, code] @ rest"
    using T fits i o1 o2 by (simp_all add: c2_def c1_def)
  ultimately obtain r3 c3 where h: "umqtt_handle_readpacket pf c2 = Some (r3, c3)" "0 \<le> r3"
    and c3: "connect_state c3 = UMQTT_CS_LINKED" "sock c3 = sock c2" "mqtt_info c3 = mqtt_info c2"
      "inp (net c3) = rest" "out (net c3) = out (net c2)" "seen (net c3) = seen (net c2)"
    using connack_handled [OF wb] by blast
  obtain k where k: "unat (push_bit 1 (connect_time (mqtt_info c))) = Suc k"
    using time by (cases "unat (push_bit 1 (connect_time (mqtt_info c)))") (simp_all add: unat_eq_0)
  have "connect_handshake pf True c = Some (connect_wait pf (unat (push_bit 1 (connect_time (mqtt_info c3)))) c3)"
    using s lt h by (simp add: connect_handshake_def c1_def [symmetric] Let_def c2_def [symmetric])
  moreover have "mqtt_info c3 = mqtt_info c" using c3 by (simp add: c2_def c1_def)
  ultimately have "connect_handshake pf True c = Some (UMQTT_OK, c3)" using k c3(1) by simp
  with c3 o1 o2 show ?thesis by (simp add: c2_def c1_def)
qed

text \<open>
  Connecting to a broker that answers. The client opens the socket, sends exactly its CONNECT
  packet, reads exactly the CONNACK and is connected. It does not look at the return code: a broker
  that refuses the connection (bad credentials, identifier rejected, ...) is taken for connected.
\<close>

theorem connect_takes_any_connack:
  assumes "well_behaved pf T inp out seen" and "in_time T (recv_time_ms (mqtt_info c))"
    and "client_inv c" and "connect_ok (mqtt_info c)"
    and "4 \<le> recv_size (mqtt_info c)" and "push_bit 1 (connect_time (mqtt_info c)) \<noteq> 0"
    and count: "reconnect_count c + 1 \<le> reconnect_max_num (mqtt_info c)"
    and tc: "umqtt_trans_connect pf (info_uri (mqtt_info c)) (net c) = (r, sk, w)" "0 \<le> r"
    and i: "inp w = packet 0x20 [sp, code] @ rest"
  shows "\<exists>c'. umqtt_connect pf True c = Some (UMQTT_OK, c')
    \<and> connect_state c' = UMQTT_CS_LINKED \<and> sock c' = sk
    \<and> inp (net c') = rest \<and> out (net c') = out w @ connect_packet (mqtt_info c) \<and> seen (net c') = seen w"
proof -
  define c1 where "c1 = c\<lparr>reconnect_count := reconnect_count c + 1, sock := sk, net := w\<rparr>"
  have "mqtt_info c1 = mqtt_info c" "client_inv c1" "net c1 = w" "sock c1 = sk"
    using assms(3) by (simp_all add: c1_def)
  with handshake_done [of pf T inp out seen c1 sp code rest] assms(1-6) i obtain c' where
    h: "connect_handshake pf True c1 = Some (UMQTT_OK, c')" "connect_state c' = UMQTT_CS_LINKED"
      "sock c' = sk" "inp (net c') = rest" "out (net c') = out w @ connect_packet (mqtt_info c)"
      "seen (net c') = seen w" by auto
  have "umqtt_connect pf True c = Some (UMQTT_OK, c')"
    using tc count h(1) by (subst umqtt_connect.simps) (simp add: Let_def c1_def not_less)
  with h show ?thesis by blast
qed

text \<open>The lab with a broker: every connection gets a CONNACK, here one that refuses.\<close>

definition refusing_lab :: "lab platform" where
  "refusing_lab = lab_platform\<lparr>p_connect := \<lambda>_ _ (i, p, s). (0, (i @ packet 0x20 [0, 5], p, s))\<rparr>"

lemma refusing_well_behaved: "well_behaved refusing_lab {0} lab_inp lab_out lab_seen"
  using lab_well_behaved
  by (simp add: well_behaved_def recv_contract_def clock_contract_def out_contract_def
      callback_contract_def refusing_lab_def)

lemma lab_info [simp]: "mqtt_info (lab_client xs) = umqtt_check_def_info sample_info"
  by (simp add: lab_client_def new_client_def)

lemma sample_defaults [simp]:
  "send_size (umqtt_check_def_info sample_info) = 1024" "recv_size (umqtt_check_def_info sample_info) = 64"
  "recv_time_ms (umqtt_check_def_info sample_info) = 100"
  "reconnect_max_num (umqtt_check_def_info sample_info) = 5"
  "connect_time (umqtt_check_def_info sample_info) = 30"
  "info_uri (umqtt_check_def_info sample_info) = uri_scheme ''tcp://b:1''"
  by (simp_all add: umqtt_check_def_info_def sample_info_def)

lemma sample_connect_ok: "connect_ok (umqtt_check_def_info sample_info)"
proof -
  have "MQTTSerialize_connectLength (u_connect (connect_msg (umqtt_check_def_info sample_info))) = 12"
    by (simp add: MQTTSerialize_connectLength_def connect_msg_def umqtt_check_def_info_def
        sample_info_def UMQTT_DEF_CONNECT_FLAGS_def will_flag_bit_def username_flag_bit_def
        password_flag_bit_def MQTTStrlen_def Let_def)
  moreover have "info_user_name (umqtt_check_def_info sample_info) = None"
    by (simp add: umqtt_check_def_info_def sample_info_def)
  ultimately show ?thesis by (simp add: connect_ok_def umqtt_pkgs_len_def)
qed

lemma sample_uri: "parse_uri (cstr (uri_scheme ''tcp://b:1'')) = Some (uri_scheme ''b'', uri_scheme ''1'')"
proof -
  have u: "cstr (uri_scheme ''tcp://b:1'') = uri_scheme ''tcp://b:1''"
    by (simp add: uri_scheme_def cstr_def)
  then show ?thesis
    unfolding parse_uri_def c_strlen_def u
    by (simp add: uri_scheme_def c_index_def port_of_def)
qed

lemma lab_trans_connect:
  "umqtt_trans_connect lab_platform (uri_scheme ''tcp://b:1'') w = (0, 3, w)"
  "umqtt_trans_connect refusing_lab (uri_scheme ''tcp://b:1'') (i, p, s) = (0, 3, (i @ packet 0x20 [0, 5], p, s))"
  by (simp_all add: umqtt_trans_connect_def umqtt_resolve_uri_def sample_uri refusing_lab_def lab_platform_def)

theorem connect_takes_any_connack_witness:
  "\<exists>c'. umqtt_connect refusing_lab True (lab_client []) = Some (UMQTT_OK, c')
    \<and> connect_state c' = UMQTT_CS_LINKED \<and> sock c' = 3
    \<and> lab_inp (net c') = [] \<and> lab_out (net c') = [] @ connect_packet (umqtt_check_def_info sample_info)
    \<and> lab_seen (net c') = []"
  using connect_takes_any_connack [OF refusing_well_behaved, of "lab_client []" 0 3
      "(packet 0x20 [0, 5], [], [])" 0 5 "[]"] lab_in_time sample_connect_ok
  by (simp add: lab_trans_connect) (simp add: lab_client_def new_client_def)

lemma lab_connects:
  "\<exists>c1. connects lab_platform ((lab_client [])\<lparr>reconnect_count := 4\<rparr>) [False] = Some c1"
proof -
  let ?c = "(lab_client [])\<lparr>reconnect_count := 5, sock := 3, net := ([], [], [])\<rparr>"
  have "client_inv ?c" "connect_ok (mqtt_info ?c)" using sample_connect_ok by simp_all
  from connect_sent [OF lab_well_behaved this] show ?thesis
    by (auto simp: umqtt_connect.simps connect_handshake_def Let_def lab_trans_connect)
qed

theorem connections_used_up_witness:
  "\<exists>c1. connects lab_platform ((lab_client [])\<lparr>reconnect_count := 4\<rparr>) [False] = Some c1
    \<and> (\<exists>c2. umqtt_connect lab_platform True c1 = Some (UMQTT_RECONNECT_FAILED, c2) \<and> net c2 = net c1)"
proof -
  let ?c = "(lab_client [])\<lparr>reconnect_count := 4\<rparr>"
  from lab_connects obtain c1 where "connects lab_platform ?c [False] = Some c1" by blast
  with connections_used_up [OF _ _ this, of True] show ?thesis by simp
qed

section \<open>Reconnecting by the receive thread\<close>

text \<open>
  C34: after the broker has closed the connection the receive thread stops the uplink timer and
  reconnects, and nothing starts the timer again: the reconnected client sends no more keep-alive
  messages, its timer ticks do nothing, and a broken link is no longer noticed by them.
\<close>

theorem reconnect_without_keepalive:
  assumes "umqtt_thread_turn pf c = Some (True, c')"
    and "umqtt_handle_readpacket pf c = Some (UMQTT_FIN_ACK, c1)"
    and "reconnect_max_num (mqtt_info c) \<noteq> 255" and "reconnect_count c \<le> reconnect_max_num (mqtt_info c)"
    and "uplink_timer c = Some True"
  shows "uplink_timer c' = Some False \<and> run_activity pf Timer_Tick c' = Some c'"
proof -
  define c2 where "c2 = trans_disconnect pf (c1\<lparr>uplink_timer := map_option (\<lambda>_. False) (uplink_timer c1)\<rparr>)"
  define c3 where "c3 = c2\<lparr>net := p_delay pf 5000 (net c2)\<rparr>"
  from assms(1,2) obtain r where u: "umqtt_connect pf True c3 = Some (r, c')" "r \<noteq> UMQTT_RECONNECT_FAILED"
    by (auto simp: umqtt_thread_turn_def c2_def c3_def bind_eq_Some_conv Let_def split: if_splits)
  have "conf c1 = conf c" using assms(2) by (rule handle_readpacket_conf)
  then have c1: "mqtt_info c1 = mqtt_info c" "reconnect_count c1 = reconnect_count c"
    "uplink_timer c1 = Some True" using assms(5) by (simp_all add: conf_def)
  have "conf c3 = (mqtt_info c, reconnect_count c, Some False, sub_recv_list c1)"
    by (simp add: c3_def c2_def) (simp add: conf_def c1)
  then have "mqtt_info c3 = mqtt_info c" "reconnect_count c3 = reconnect_count c"
    "uplink_timer c3 = Some False" by (simp_all add: conf_def)
  then have "uplink_timer c' = Some False" using connect_counts [OF u] assms(3,4) by simp
  then show ?thesis by (simp add: run_activity_def)
qed

text \<open>The lab client whose connection has ended.\<close>

definition cut_off :: "lab umqtt_client" where
  "cut_off = (lab_client [])\<lparr>uplink_timer := Some True\<rparr>"

lemma cut_off_read:
  "umqtt_handle_readpacket refusing_lab cut_off = Some (UMQTT_FIN_ACK, cut_off)"
proof -
  have "recv_buf cut_off \<noteq> []" by (simp add: cut_off_def lab_client_def new_client_def)
  then have "umqtt_trans_recv refusing_lab (sock cut_off) (recv_buf cut_off) 0 1 (net cut_off)
      = Some (0, 0, recv_buf cut_off, net cut_off)"
    by (simp add: umqtt_trans_recv_def refusing_lab_def lab_platform_def cut_off_def blit_def Let_def)
  then show ?thesis by (simp add: umqtt_handle_readpacket_def)
qed

lemma cut_off_turn: "\<exists>c'. umqtt_thread_turn refusing_lab cut_off = Some (True, c')"
proof -
  let ?c = "(lab_client [])\<lparr>uplink_timer := Some False, sock := 3, reconnect_count := 1,
     net := (packet 0x20 [0, 5], [], [])\<rparr>"
  have "client_inv ?c" "connect_ok (mqtt_info ?c)" using sample_connect_ok by simp_all
  from handshake_done [OF refusing_well_behaved _ this, of 0 5 "[]"] lab_in_time obtain c' where
    h: "connect_handshake refusing_lab True ?c = Some (UMQTT_OK, c')" by auto
  define c0 where "c0 = (lab_client [])\<lparr>uplink_timer := Some False, sock := - 1\<rparr>"
  have td: "trans_disconnect refusing_lab (cut_off\<lparr>uplink_timer := Some False\<rparr>) = c0"
    by (simp add: trans_disconnect_def umqtt_trans_disconnect_def refusing_lab_def lab_platform_def
        cut_off_def lab_client_def new_client_def c0_def)
  have d: "c0\<lparr>net := p_delay refusing_lab 5000 (net c0)\<rparr> = c0"
    by (simp add: refusing_lab_def lab_platform_def)
  have f: "uplink_timer cut_off = Some True" "reconnect_count c0 = 0" "mqtt_info c0 = umqtt_check_def_info sample_info"
    "net c0 = ([], [], [])"
    by (simp_all add: cut_off_def c0_def) (simp add: lab_client_def new_client_def)
  have c: "c0\<lparr>reconnect_count := 1, sock := 3, net := (packet 0x20 [0, 5], [], [])\<rparr> = ?c"
    by (simp add: c0_def lab_client_def new_client_def)
  have "umqtt_connect refusing_lab True c0 = Some (UMQTT_OK, c')"
    using h by (subst umqtt_connect.simps) (simp add: Let_def f lab_trans_connect c)
  then show ?thesis
    by (simp add: umqtt_thread_turn_def cut_off_read f(1) td d)
qed

theorem reconnect_without_keepalive_witness:
  "\<exists>c'. umqtt_thread_turn refusing_lab cut_off = Some (True, c')
    \<and> uplink_timer c' = Some False \<and> run_activity refusing_lab Timer_Tick c' = Some c'"
proof -
  from cut_off_turn obtain c' where t: "umqtt_thread_turn refusing_lab cut_off = Some (True, c')" by blast
  from reconnect_without_keepalive [OF this cut_off_read] t show ?thesis
    by (auto simp: cut_off_def) (simp_all add: lab_client_def new_client_def)
qed

end
