(* ===== verification/Mqtt_Publish.thy ===== *)
theory Mqtt_Publish
  imports Mqtt_Connect
begin

text \<open>
  Publishing: what goes out for a message, what another client makes of it, how often an
  unanswered QoS 1 message is repeated, which answers are accepted, and the QoS 2 path.
\<close>

section \<open>What a publish sends\<close>

definition sent_msg :: "u8 \<Rightarrow> u16 \<Rightarrow> bytes \<Rightarrow> bytes \<Rightarrow> nat \<Rightarrow> wire_msg" where
  "sent_msg qos pid topic payload len =
    \<lparr> wm_dup = 0, wm_qos = qos, wm_id = pid, wm_topic = topic, wm_payload = take len payload \<rparr>"

definition publishable :: "umqtt_info \<Rightarrow> u8 \<Rightarrow> bytes \<Rightarrow> bytes \<Rightarrow> nat \<Rightarrow> bool" where
  "publishable info qos topic payload len \<longleftrightarrow> qos \<in> {UMQTT_QOS0, UMQTT_QOS1, UMQTT_QOS2}
     \<and> c_strlen topic < 65536 \<and> 0 < len \<and> len \<le> length payload \<and> len < 2000000000
     \<and> umqtt_pkgs_len (int (length (publish_body qos 0 topic (take len payload)))) \<le> int (send_size info)
     \<and> send_size info < 268435456"

text \<open>The packet id of the next message: none for QoS 0.\<close>

definition next_id :: "u8 \<Rightarrow> 'w umqtt_client \<Rightarrow> u16 \<times> 'w umqtt_client" where
  "next_id qos c = (if qos = UMQTT_QOS0 then (0, c) else get_next_packetID c)"

lemma next_id_only:
  "next_id qos c = (pid, c1) \<Longrightarrow> \<exists>p. c1 = c\<lparr>packet_id := p\<rparr>"
  by (auto simp: next_id_def get_next_packetID_def Let_def split: if_splits
      intro: exI [of _ "packet_id c"])

lemma length_publish_body [simp]:
  "length (publish_body qos pid topic pl) = 2 + c_strlen topic + (if 0 < qos then 2 else 0) + length pl"
  by (simp add: publish_body_def)

lemma publishable_small:
  assumes "publishable info qos topic payload len"
  shows "length (publish_body qos pid topic (take len payload)) < 268435456"
proof -
  let ?n = "length (publish_body qos 0 topic (take len payload))"
  have "umqtt_pkgs_len (int ?n) \<le> int (send_size info)" "send_size info < 268435456"
    using assms unfolding publishable_def by blast+
  from pkgs_len_bound [OF this] this(2) have "?n < 268435456" by linarith
  then show ?thesis by simp
qed

lemma qos_bits: "qos \<in> {UMQTT_QOS0, UMQTT_QOS1, UMQTT_QOS2} \<Longrightarrow> qos AND 3 = (qos :: u8)"
  by auto

lemma publish_encoded:
  fixes pid :: u16
  assumes inv: "client_inv c" and ok: "publishable (mqtt_info c) qos topic payload len"
  defines "xs \<equiv> wire (sent_msg qos pid topic payload len)"
  shows "\<exists>b. blit (send_buf c) 0 xs = Some b \<and>
    umqtt_encode UMQTT_TYPE_PUBLISH (send_buf c) (send_size (mqtt_info c))
      (Some (publish_msg qos pid topic payload len)) = Some (int (length xs), b)"
proof -
  let ?m = "publish_msg qos pid topic payload len"
  let ?n = "send_size (mqtt_info c)"
  define body where "body = publish_body qos pid topic (take len payload)"
  have q: "hdr_qos (m_header ?m) = qos" "hdr_dup (m_header ?m) = 0"
    using ok by (auto simp: publish_msg_def publishable_def)
  have tl: "unat (u_head ?m) = c_strlen topic" and pl: "unat (pb_payload_len (u_publish ?m)) = len"
    using ok by (simp_all add: publish_msg_def publishable_def unat_of_nat_u16 unat_of_nat_u32)
  have bl: "MQTTSerialize_publishLength (uint qos) (u_head ?m) (u_publish ?m) = int (length body)"
    using ok tl pl by (simp add: publishLength_eq body_def publishable_def word_less_def)
  have fits: "umqtt_pkgs_len (int (length body)) \<le> int ?n" "?n < 268435456"
    using ok by (auto simp: publishable_def body_def min_absorb2 split: if_splits)
  have xs: "xs = packet (fixed_header UMQTT_TYPE_PUBLISH 0 qos) body"
    by (simp add: xs_def wire_def sent_msg_def body_def)
  have "length xs \<le> ?n" using pkgs_len_bound [OF fits] by (simp add: xs packet_def)
  then obtain b where b: "blit (send_buf c) 0 xs = Some b"
    using inv by (fastforce simp: blit_def client_inv_def)
  moreover have "pb_topic_name (u_publish ?m) = PObj topic" "pb_payload (u_publish ?m) = PObj payload"
    "pb_packet_id (u_publish ?m) = pid" by (simp_all add: publish_msg_def)
  ultimately show ?thesis
    using MQTTSerialize_publish_blit [of "u_publish ?m" topic payload qos "u_head ?m" "int ?n" "send_buf c" 0]
      ok pl bl fits q
    by (simp add: umqtt_encode_def umqtt_publish_encode_def publishable_def xs packet_def
        body_def [symmetric] Let_def)
qed

lemma publish_encoded_client:
  fixes pid :: u16
  assumes inv: "client_inv c" and ok: "publishable (mqtt_info c) qos topic payload len"
  defines "xs \<equiv> wire (sent_msg qos pid topic payload len)"
  shows "\<exists>b. encode_msg UMQTT_TYPE_PUBLISH (send_size (mqtt_info c))
      (Some (publish_msg qos pid topic payload len)) c = Some (int (length xs), c\<lparr>send_buf := b\<rparr>)
    \<and> length b = length (send_buf c) \<and> length xs \<le> length b \<and> take (length xs) b = xs"
proof -
  from publish_encoded [OF inv ok, of pid, folded xs_def] obtain b where
    b: "blit (send_buf c) 0 xs = Some b" and
    "umqtt_encode UMQTT_TYPE_PUBLISH (send_buf c) (send_size (mqtt_info c))
      (Some (publish_msg qos pid topic payload len)) = Some (int (length xs), b)" by blast
  then have "encode_msg UMQTT_TYPE_PUBLISH (send_size (mqtt_info c))
      (Some (publish_msg qos pid topic payload len)) c = Some (int (length xs), c\<lparr>send_buf := b\<rparr>)"
    by (simp add: encode_msg_def)
  moreover have "length xs \<le> length b" using b length_blit [OF b] by (simp add: blit_Some_iff)
  ultimately show ?thesis
    using length_blit [OF b] blit_prefix [OF b] by auto
qed

lemma publish_async_sent:
  assumes wb: "well_behaved pf T inp out seen" and inv: "client_inv c"
    and ok: "publishable (mqtt_info c) qos topic payload len"
  shows "\<exists>r c'. umqtt_publish_async pf qos topic payload len c = Some (r, c') \<and> 0 \<le> r
    \<and> out (net c') = out (net c) @ wire (sent_msg qos (fst (next_id qos c)) topic payload len)
    \<and> inp (net c') = inp (net c) \<and> seen (net c') = seen (net c)"
proof -
  obtain pid c1 where id: "next_id qos c = (pid, c1)" by fastforce
  with next_id_only obtain p where c1: "c1 = c\<lparr>packet_id := p\<rparr>" by blast
  let ?xs = "wire (sent_msg qos pid topic payload len)"
  have inv1: "client_inv c1" and ok1: "publishable (mqtt_info c1) qos topic payload len"
    using inv ok by (simp_all add: c1)
  from publish_encoded [OF inv1 ok1] obtain b where
    b: "blit (send_buf c1) 0 ?xs = Some b" and
    enc: "umqtt_encode UMQTT_TYPE_PUBLISH (send_buf c1) (send_size (mqtt_info c1))
      (Some (publish_msg qos pid topic payload len)) = Some (int (length ?xs), b)" by blast
  have bad: "\<not> (\<lambda>r. r \<le> 0) (int (length ?xs))" by (simp add: wire_def packet_def)
  from encode_and_send_out [OF wb inv1 enc b, of "\<lambda>r. r \<le> 0", OF bad] obtain r w1 where
    s: "encode_and_send pf (\<lambda>r. r \<le> 0) UMQTT_TYPE_PUBLISH (Some (publish_msg qos pid topic payload len)) c1
      = Some (r, c1\<lparr>send_buf := b, send_len := length ?xs, net := w1\<rparr>)" "0 \<le> r"
    and o1: "out w1 = out (net c1) @ ?xs" "inp w1 = inp (net c1)" "seen w1 = seen (net c1)" by blast
  define c2 where "c2 = c1\<lparr>send_buf := b, send_len := length ?xs, net := w1\<rparr>"
  from set_last_tick_obs [OF well_behaved_line [OF wb], of c2] obtain t w2 where
    lt: "set_uplink_recon_tick pf UPLINK_LAST_TICK c2 = c2\<lparr>uplink_last_tick := t, net := w2\<rparr>"
    and o2: "inp w2 = inp (net c2)" "out w2 = out (net c2)" "seen w2 = seen (net c2)" by blast
  define c3 where "c3 = c2\<lparr>uplink_last_tick := t, net := w2\<rparr>"
  from set_next_tick_obs [OF well_behaved_line [OF wb], of c3] obtain t' w3 where
    nt: "set_uplink_recon_tick pf UPLINK_NEXT_TICK c3 = c3\<lparr>uplink_next_tick := t', net := w3\<rparr>"
    and o3: "inp w3 = inp (net c3)" "out w3 = out (net c3)" "seen w3 = seen (net c3)" by blast
  have "umqtt_publish_async pf qos topic payload len c
      = Some (r, c3\<lparr>uplink_next_tick := t', net := w3\<rparr>)"
    using id s lt nt ok
    by (simp add: umqtt_publish_async_def next_id_def [symmetric] publishable_def c2_def c3_def Let_def)
  with s(2) o1 o2 o3 id show ?thesis by (simp add: c3_def c2_def c1)
qed

text \<open>
  C19: from publisher to subscriber. A QoS 0 or QoS 1 message that fits both clients' buffers is
  put on the wire by \<open>umqtt_publish_async\<close>, with the next packet id, so that a client that has
  these bytes next in its socket hands exactly the topic and the payload to exactly its matching
  callbacks in one turn of its receive thread.
\<close>

theorem publish_reaches_subscribers:
  fixes a :: "'a umqtt_client" and b :: "'b umqtt_client"
  assumes A: "well_behaved pfa Ta inpa outa seena" "client_inv a"
    and ok: "publishable (mqtt_info a) qos topic payload len" "qos \<noteq> UMQTT_QOS2"
    and sent: "sent = wire (sent_msg qos (fst (next_id qos a)) topic payload len)"
    and B: "well_behaved pfb Tb inpb outb seenb" "in_time Tb (recv_time_ms (mqtt_info b))" "client_inv b"
      "length sent \<le> recv_size (mqtt_info b)" "4 \<le> send_size (mqtt_info b)" "inpb (net b) = sent @ rest"
  shows "\<exists>r a' b'. umqtt_publish_async pfa qos topic payload len a = Some (r, a') \<and> 0 \<le> r
    \<and> outa (net a') = outa (net a) @ sent
    \<and> umqtt_thread_turn pfb b = Some (True, b') \<and> inpb (net b') = rest
    \<and> seenb (net b') = seenb (net b)
        @ map (\<lambda>k. (k, cstr topic, take len payload)) (matching (sub_recv_list b) (cstr topic))"
proof -
  define m where "m = sent_msg qos (fst (next_id qos a)) topic payload len"
  have "length (publish_body qos (fst (next_id qos a)) topic (take len payload)) < 268435456"
    using ok(1) by (rule publishable_small)
  then have wok: "wire_ok (mqtt_info b) m"
    using ok B(4) sent by (auto simp: wire_ok_def m_def sent_msg_def publishable_def)
  have "inpb (net b) = wire m @ rest" using B(6) sent by (simp add: m_def)
  from publish_turn [OF B(1-3) wok B(5) this] obtain b' where
    "umqtt_thread_turn pfb b = Some (True, b')" "inpb (net b') = rest"
    "seenb (net b') = seenb (net b) @ calls_for (sub_recv_list b) m" by blast
  moreover from publish_async_sent [OF A ok(1)] obtain r a' where
    "umqtt_publish_async pfa qos topic payload len a = Some (r, a')" "0 \<le> r"
    "outa (net a') = outa (net a) @ sent" using sent by auto
  ultimately show ?thesis by (auto simp: m_def calls_for_def sent_msg_def)
qed

lemma ab_publishable: "qos \<in> {UMQTT_QOS0, UMQTT_QOS1, UMQTT_QOS2}
  \<Longrightarrow> publishable (umqtt_check_def_info sample_info) qos (ascii ''a/b'') [1, 2, 3] 2"
  by (auto simp: publishable_def c_strlen_def cstr_def ascii_def umqtt_pkgs_len_def)

theorem publish_reaches_subscribers_witness:
  "\<exists>r a' b'. umqtt_publish_async lab_platform 1 (ascii ''a/b'') [1, 2, 3] 2 (lab_client []) = Some (r, a') \<and> 0 \<le> r
    \<and> lab_out (net a') = [] @ wire (sent_msg 1 1 (ascii ''a/b'') [1, 2, 3] 2)
    \<and> umqtt_thread_turn lab_platform (lab_client (wire (sent_msg 1 1 (ascii ''a/b'') [1, 2, 3] 2) @ [7])) = Some (True, b')
    \<and> lab_inp (net b') = [7]
    \<and> lab_seen (net b') = [(1, ascii ''a/b'', [1, 2]), (2, ascii ''a/b'', [1, 2])]"
proof -
  let ?sent = "wire (sent_msg 1 1 (ascii ''a/b'') [1, 2, 3] 2)"
  have id: "next_id 1 (lab_client []) = (1, (lab_client [])\<lparr>packet_id := 1\<rparr>)"
    by (simp add: next_id_def get_next_packetID_def Let_def) (simp add: lab_client_def new_client_def)
  have len: "length ?sent \<le> 64"
    by (simp add: wire_def packet_def sent_msg_def c_strlen_def cstr_def ascii_def rl_bytes.simps)
  have m: "matching (sub_recv_list (lab_client xs)) (cstr (ascii ''a/b'')) = [1, 2]" for xs
    by (simp add: matching_def lab_client_def new_client_def ascii_def cstr_def)
  have c: "cstr (ascii ''a/b'') = ascii ''a/b''" by (simp add: ascii_def cstr_def)
  show ?thesis
    using publish_reaches_subscribers [OF lab_well_behaved lab_client_inv _ _ _ lab_well_behaved,
        where qos = 1 and topic = "ascii ''a/b''" and payload = "[1, 2, 3]" and len = 2 and sent = ?sent
          and b = "lab_client (?sent @ [7])" and rest = "[7]", of "[]"]
      ab_publishable [of 1] id len lab_in_time m c
    by simp
qed

section \<open>Waiting for an answer\<close>

text \<open>While the publisher waits nothing arrives and no timer fires.\<close>

definition unanswered ::
    "'w platform \<Rightarrow> ('w \<Rightarrow> bytes) \<Rightarrow> ('w \<Rightarrow> bytes) \<Rightarrow> ('w \<Rightarrow> seen_msg list) \<Rightarrow> bool" where
  "unanswered pf inp out seen \<longleftrightarrow> (\<forall>n w. \<exists>w'. p_while_blocked pf n w = ([], w')
     \<and> inp w' = inp w \<and> out w' = out w \<and> seen w' = seen w)"

lemma ack_unanswered:
  assumes "unanswered pf inp out seen" and "msg_queue c = []"
  shows "\<exists>w'. ack_mq_recv pf t c = Some (None, c\<lparr>net := w'\<rparr>)
    \<and> inp w' = inp (net c) \<and> out w' = out (net c) \<and> seen w' = seen (net c)"
proof -
  from assms(1) obtain w' where "p_while_blocked pf (unat t) (net c) = ([], w')"
    "inp w' = inp (net c)" "out w' = out (net c)" "seen w' = seen (net c)"
    unfolding unanswered_def by blast
  then show ?thesis using assms(2) by (auto simp: ack_mq_recv_def blocked_recv.simps)
qed

lemma ack_waiting: "msg_queue c = a # q \<Longrightarrow> ack_mq_recv pf t c = Some (Some a, c\<lparr>msg_queue := q\<rparr>)"
  by (simp add: ack_mq_recv_def blocked_recv.simps)

text \<open>The client's queue of acknowledgements keeps the contract of a queue.\<close>

interpretation ackq: bounded_fifo "\<lambda>c. length (msg_queue c) \<le> PKG_UMQTT_MSG_QUEUE_ACK_DEF_SIZE" msg_queue
    "\<lambda>c. PKG_UMQTT_MSG_QUEUE_ACK_DEF_SIZE - length (msg_queue c)" "\<lambda>_ _. True"
    "\<lambda>a c. Some (snd (ack_mq_send a c))" "\<lambda>c. case ack_mq_recv pf t c of Some (Some a, c) \<Rightarrow> Some (a, c) | _ \<Rightarrow> None"
  for pf t
  by unfold_locales (auto simp: ack_mq_send_def ack_waiting)

lemma republish_unanswered:
  assumes wb: "well_behaved pf T inp out seen" and un: "unanswered pf inp out seen"
  shows "send_len c \<le> length (send_buf c) \<Longrightarrow> msg_queue c = [] \<Longrightarrow>
    \<exists>c'. republish pf n ack t c = Some (UMQTT_READ_ERROR, c')
      \<and> out (net c') = out (net c) @ concat (replicate n (take (send_len c) (send_buf c)))"
proof (induction n arbitrary: c)
  case (Suc n)
  from send_msg_out [OF well_behaved_out [OF wb] Suc.prems(1)] obtain r w1 where
    s: "send_msg pf (send_len c) c = Some (r, c\<lparr>net := w1\<rparr>)" "0 \<le> r"
      "out w1 = out (net c) @ take (send_len c) (send_buf c)" by blast
  from ack_unanswered [OF un, of "c\<lparr>net := w1\<rparr>" t] Suc.prems(2) obtain w2 where
    a: "ack_mq_recv pf t (c\<lparr>net := w1\<rparr>) = Some (None, c\<lparr>net := w2\<rparr>)" "out w2 = out w1" by auto
  from Suc.IH [of "c\<lparr>net := w2\<rparr>"] Suc.prems s a show ?case by auto
qed simp

lemma republish_answered:
  assumes wb: "out_contract pf inp out seen"
    and "send_len c \<le> length (send_buf c)" and "msg_queue c = a # q" and "ack_msg_type a = type_code ack"
  shows "\<exists>w'. republish pf (Suc n) ack t c = Some (UMQTT_OK, c\<lparr>msg_queue := q, net := w'\<rparr>)
    \<and> out w' = out (net c) @ take (send_len c) (send_buf c)"
proof -
  from send_msg_out [OF wb assms(2)] obtain r w1 where
    s: "send_msg pf (send_len c) c = Some (r, c\<lparr>net := w1\<rparr>)" "0 \<le> r"
      "out w1 = out (net c) @ take (send_len c) (send_buf c)" by blast
  have "ack_mq_recv pf t (c\<lparr>net := w1\<rparr>) = Some (Some a, (c\<lparr>net := w1\<rparr>)\<lparr>msg_queue := q\<rparr>)"
    by (rule ack_waiting) (simp add: assms)
  with s assms(4) have "republish pf (Suc n) ack t c = Some (UMQTT_OK, (c\<lparr>net := w1\<rparr>)\<lparr>msg_queue := q\<rparr>)"
    by simp
  moreover have "(c\<lparr>net := w1\<rparr>)\<lparr>msg_queue := q\<rparr> = c\<lparr>msg_queue := q, net := w1\<rparr>" by (cases c) simp
  ultimately show ?thesis using s(3) by (intro exI [of _ w1] conjI) (simp only:, rule s(3))
qed

text \<open>The client as it is when the first copy of a message is about to be sent.\<close>

lemma publish_start:
  assumes inv: "client_inv c" and ok: "publishable (mqtt_info c) qos topic payload len"
    and id: "next_id qos c = (pid, c1)"
  shows "\<exists>c2. umqtt_publish pf qos topic payload len timeout c =
      (let ticks = rt_tick_from_millisecond timeout; tries = nat PKG_UMQTT_PUBLISH_RECON_MAX in
       if qos = UMQTT_QOS1 then republish pf tries UMQTT_TYPE_PUBACK ticks c2
       else if qos = UMQTT_QOS2 then do {
         (r, c) \<leftarrow> republish pf tries UMQTT_TYPE_PUBREC ticks c2;
         if r < 0 then Some (r, c) else repubrel pf pid ticks c }
       else do {
         (r, c) \<leftarrow> send_msg pf (send_len c2) c2;
         Some (if r < 0 then UMQTT_SEND_FAILED else UMQTT_OK, c) })
    \<and> send_len c2 \<le> length (send_buf c2)
    \<and> take (send_len c2) (send_buf c2) = wire (sent_msg qos pid topic payload len)
    \<and> client_inv c2 \<and> mqtt_info c2 = mqtt_info c \<and> msg_queue c2 = msg_queue c \<and> net c2 = net c
    \<and> task_handle c2 = task_handle c"
proof -
  from next_id_only [OF id] obtain p where c1: "c1 = c\<lparr>packet_id := p\<rparr>" by blast
  have inv1: "client_inv c1" and ok1: "publishable (mqtt_info c1) qos topic payload len"
    using inv ok by (simp_all add: c1)
  let ?xs = "wire (sent_msg qos pid topic payload len)"
  from publish_encoded_client [OF inv1 ok1, of pid] obtain b where
    e: "encode_msg UMQTT_TYPE_PUBLISH (send_size (mqtt_info c1)) (Some (publish_msg qos pid topic payload len)) c1
      = Some (int (length ?xs), c1\<lparr>send_buf := b\<rparr>)"
    and b: "length b = length (send_buf c1)" "length ?xs \<le> length b" "take (length ?xs) b = ?xs" by blast
  define c2 where "c2 = c1\<lparr>send_buf := b, send_len := length ?xs\<rparr>"
  have pos: "?xs \<noteq> []" by (simp add: wire_def packet_def)
  have c2: "client_inv c2" "send_len c2 = length ?xs" "send_buf c2 = b" "mqtt_info c2 = mqtt_info c"
    "msg_queue c2 = msg_queue c" "net c2 = net c" "task_handle c2 = task_handle c"
    using inv1 b(1) by (simp_all add: c2_def c1)
  have len: "len \<noteq> 0" and r: "\<not> int (length ?xs) \<le> 0" "nat (int (length ?xs)) = length ?xs"
    using ok pos by (simp_all add: publishable_def)
  have c2': "(c1\<lparr>send_buf := b\<rparr>)\<lparr>send_len := length ?xs\<rparr> = c2" by (simp add: c2_def)
  have "mqtt_info c1 = mqtt_info c" by (simp add: c1)
  with e have e': "encode_msg UMQTT_TYPE_PUBLISH (send_size (mqtt_info c1)) (Some (publish_msg qos pid topic payload len)) c1
      = Some (int (length ?xs), c1\<lparr>send_buf := b\<rparr>)" by simp
  have "umqtt_publish pf qos topic payload len timeout c =
      (let ticks = rt_tick_from_millisecond timeout; tries = nat PKG_UMQTT_PUBLISH_RECON_MAX in
       if qos = UMQTT_QOS1 then republish pf tries UMQTT_TYPE_PUBACK ticks c2
       else if qos = UMQTT_QOS2 then do {
         (r, c) \<leftarrow> republish pf tries UMQTT_TYPE_PUBREC ticks c2;
         if r < 0 then Some (r, c) else repubrel pf pid ticks c }
       else do {
         (r, c) \<leftarrow> send_msg pf (send_len c2) c2;
         Some (if r < 0 then UMQTT_SEND_FAILED else UMQTT_OK, c) })"
    by (unfold umqtt_publish_def next_id_def [symmetric] id Let_def prod.case e' bind.bind_lunit
      if_not_P [OF len] if_not_P [OF r(1)] r(2) c2', rule refl)
  with c2 b show ?thesis by (intro exI [of _ c2]) simp
qed

text \<open>
  A QoS 1 message nobody answers is sent three times, the same bytes each time (the duplicate
  flag stays 0 in the repetitions), then \<open>umqtt_publish\<close> returns UMQTT_READ_ERROR.
\<close>

theorem publish_unanswered:
  assumes "well_behaved pf T inp out seen" and "unanswered pf inp out seen"
    and "client_inv c" and "publishable (mqtt_info c) UMQTT_QOS1 topic payload len" and "msg_queue c = []"
  shows "\<exists>c'. umqtt_publish pf UMQTT_QOS1 topic payload len timeout c = Some (UMQTT_READ_ERROR, c')
    \<and> out (net c') = out (net c)
        @ concat (replicate 3 (wire (sent_msg UMQTT_QOS1 (fst (get_next_packetID c)) topic payload len)))"
proof -
  obtain pid c1 where id: "next_id UMQTT_QOS1 c = (pid, c1)" by fastforce
  then have pid: "pid = fst (get_next_packetID c)" by (simp add: next_id_def)
  from publish_start [OF assms(3,4) id, of pf timeout] obtain c2 where
    p: "umqtt_publish pf UMQTT_QOS1 topic payload len timeout c
      = republish pf 3 UMQTT_TYPE_PUBACK (rt_tick_from_millisecond timeout) c2"
    and c2: "send_len c2 \<le> length (send_buf c2)"
      "take (send_len c2) (send_buf c2) = wire (sent_msg UMQTT_QOS1 pid topic payload len)"
      "msg_queue c2 = []" "net c2 = net c" using assms(5) by (auto simp: Let_def)
  from republish_unanswered [OF assms(1,2) c2(1,3), of 3] show ?thesis
    unfolding p c2(2,4) pid by blast
qed

lemma lab_unanswered: "unanswered lab_platform lab_inp lab_out lab_seen"
  by (simp add: unanswered_def lab_platform_def)

lemma lab_queue [simp]: "msg_queue (lab_client xs) = []"
  by (simp add: lab_client_def new_client_def)

theorem publish_unanswered_witness:
  "\<exists>c'. umqtt_publish lab_platform UMQTT_QOS1 (ascii ''a/b'') [1, 2, 3] 2 1000 (lab_client []) = Some (UMQTT_READ_ERROR, c')
    \<and> lab_out (net c') = []
        @ concat (replicate 3 (wire (sent_msg UMQTT_QOS1 (fst (get_next_packetID (lab_client []))) (ascii ''a/b'') [1, 2, 3] 2)))"
  using publish_unanswered [OF lab_well_behaved lab_unanswered lab_client_inv, of "[]" "ascii ''a/b''" "[1, 2, 3]" 2 1000]
    ab_publishable [of 1] by simp

text \<open>
  What counts as an answer. If an acknowledgement of type PUBACK lies in the queue, a QoS 1
  publish sends its message once, takes it from the queue and reports success: the packet id of the
  acknowledgement is not compared with the message's, so a late PUBACK of an earlier message will
  do.
\<close>

theorem publish_takes_any_puback:
  assumes "well_behaved pf T inp out seen" and "client_inv c"
    and "publishable (mqtt_info c) UMQTT_QOS1 topic payload len"
    and "msg_queue c = \<lparr> ack_packet_id = other_id, ack_msg_type = type_code UMQTT_TYPE_PUBACK \<rparr> # q"
  shows "\<exists>c'. umqtt_publish pf UMQTT_QOS1 topic payload len timeout c = Some (UMQTT_OK, c') \<and> msg_queue c' = q
    \<and> out (net c') = out (net c)
        @ wire (sent_msg UMQTT_QOS1 (fst (get_next_packetID c)) topic payload len)"
proof -
  obtain pid c1 where id: "next_id UMQTT_QOS1 c = (pid, c1)" by fastforce
  then have pid: "pid = fst (get_next_packetID c)" by (simp add: next_id_def)
  from publish_start [OF assms(2,3) id, of pf timeout] obtain c2 where
    p: "umqtt_publish pf UMQTT_QOS1 topic payload len timeout c
      = republish pf 3 UMQTT_TYPE_PUBACK (rt_tick_from_millisecond timeout) c2"
    and c2: "send_len c2 \<le> length (send_buf c2)"
      "take (send_len c2) (send_buf c2) = wire (sent_msg UMQTT_QOS1 pid topic payload len)"
      "msg_queue c2 = \<lparr> ack_packet_id = other_id, ack_msg_type = type_code UMQTT_TYPE_PUBACK \<rparr> # q"
      "net c2 = net c" using assms(4) by (auto simp: Let_def)
  from republish_answered [OF well_behaved_out [OF assms(1)] c2(1,3), of UMQTT_TYPE_PUBACK 2] obtain w where
    "republish pf 3 UMQTT_TYPE_PUBACK (rt_tick_from_millisecond timeout) c2
      = Some (UMQTT_OK, c2\<lparr>msg_queue := q, net := w\<rparr>)"
    "out w = out (net c2) @ take (send_len c2) (send_buf c2)"
    by (auto simp: numeral_3_eq_3)
  then show ?thesis unfolding p c2(2,4) pid by simp
qed

text \<open>The lab client with one acknowledgement waiting, of the given type.\<close>

definition waiting :: "u16 \<Rightarrow> umqtt_type list \<Rightarrow> lab umqtt_client" where
  "waiting pid ts = (lab_client [])\<lparr>msg_queue := map (\<lambda>t. \<lparr> ack_packet_id = pid, ack_msg_type = type_code t \<rparr>) ts\<rparr>"

lemma waiting_simps [simp]:
  "length ts \<le> 4 \<Longrightarrow> client_inv (waiting pid ts)" "mqtt_info (waiting pid ts) = umqtt_check_def_info sample_info"
  "net (waiting pid ts) = ([], [], [])"
  using lab_client_inv [of "[]", unfolded client_inv_def] by (simp_all add: waiting_def client_inv_def)

theorem publish_takes_any_puback_witness:
  "\<exists>c'. umqtt_publish lab_platform UMQTT_QOS1 (ascii ''a/b'') [1, 2, 3] 2 1000 (waiting 999 [UMQTT_TYPE_PUBACK])
      = Some (UMQTT_OK, c') \<and> msg_queue c' = []
    \<and> lab_out (net c') = []
        @ wire (sent_msg UMQTT_QOS1 (fst (get_next_packetID (waiting 999 [UMQTT_TYPE_PUBACK]))) (ascii ''a/b'') [1, 2, 3] 2)"
  using publish_takes_any_puback [OF lab_well_behaved, of "waiting 999 [UMQTT_TYPE_PUBACK]" "ascii ''a/b''"
      "[1, 2, 3]" 2 999 "[]" 1000]
    ab_publishable [of 1] by simp (simp add: waiting_def)

section \<open>QoS 2\<close>

text \<open>PUBREL as it goes out: the encoder reads the packet id where none was put.\<close>

definition pubrel_packet :: bytes where
  "pubrel_packet = packet (fixed_header UMQTT_TYPE_PUBREL 0 1) (be16 0)"

lemma pubrel_sent:
  assumes wb: "well_behaved pf T inp out seen" and inv: "client_inv c" and four: "4 \<le> send_size (mqtt_info c)"
  shows "\<exists>r b w'. encode_and_send pf (\<lambda>r. r \<le> 0) UMQTT_TYPE_PUBREL (Some (pubrel_msg pid)) c
      = Some (r, c\<lparr>send_buf := b, send_len := 4, net := w'\<rparr>) \<and> 0 \<le> r
    \<and> length b = length (send_buf c) \<and> out w' = out (net c) @ pubrel_packet"
proof -
  have lb: "length (send_buf c) = send_size (mqtt_info c)" using inv by (simp add: client_inv_def)
  then obtain b where b: "blit (send_buf c) 0 pubrel_packet = Some b"
    using four by (fastforce simp: blit_def pubrel_packet_def)
  have enc: "umqtt_encode UMQTT_TYPE_PUBREL (send_buf c) (send_size (mqtt_info c)) (Some (pubrel_msg pid))
      = Some (int (length pubrel_packet), b)"
    using four b
    by (simp add: umqtt_encode_def umqtt_pubrel_encode_def MQTTSerialize_ack_blit pubrel_packet_def
        pubrel_msg_def zero_msg_def Let_def)
  have bad: "\<not> (\<lambda>r. r \<le> 0) (int (length pubrel_packet))" by (simp add: pubrel_packet_def)
  from encode_and_send_out [OF wb inv enc b, of "\<lambda>r. r \<le> 0", OF bad] length_blit [OF b]
  show ?thesis by (auto simp: pubrel_packet_def)
qed

lemma repubrel_answered:
  assumes wb: "well_behaved pf T inp out seen" and inv: "client_inv c" and four: "4 \<le> send_size (mqtt_info c)"
    and q: "msg_queue c = a # q" "ack_msg_type a = type_code UMQTT_TYPE_PUBCOMP"
  shows "\<exists>c'. repubrel pf pid t c = Some (UMQTT_OK, c') \<and> out (net c') = out (net c) @ pubrel_packet"
proof -
  from pubrel_sent [OF wb inv four] obtain r b w1 where
    s: "encode_and_send pf (\<lambda>r. r \<le> 0) UMQTT_TYPE_PUBREL (Some (pubrel_msg pid)) c
      = Some (r, c\<lparr>send_buf := b, send_len := 4, net := w1\<rparr>)" "0 \<le> r"
      "out w1 = out (net c) @ pubrel_packet" by blast
  define c1 where "c1 = c\<lparr>send_buf := b, send_len := 4, net := w1\<rparr>"
  have "ack_mq_recv pf t c1 = Some (Some a, c1\<lparr>msg_queue := q\<rparr>)"
    by (rule ack_waiting) (simp add: c1_def q)
  then have "repubrel pf pid t c = Some (UMQTT_OK, c1\<lparr>msg_queue := q\<rparr>)"
    using s q(2) by (subst repubrel.simps) (simp add: c1_def [symmetric])
  then show ?thesis using s(3) by (simp add: c1_def)
qed

lemma repubrel_unanswered:
  fixes pf :: "'w platform" and inp out :: "'w \<Rightarrow> bytes" and seen :: "'w \<Rightarrow> seen_msg list"
  assumes wb: "well_behaved pf T inp out seen" and un: "unanswered pf inp out seen"
    and inv: "client_inv c" and four: "4 \<le> send_size (mqtt_info c)" and q: "msg_queue c = []"
  shows "repubrel pf pid t c = None"
proof -
  define Q where "Q = (\<lambda>(pf' :: 'w platform) (pid :: u16) (t :: u32) (c :: 'w umqtt_client)
    (y :: int \<times> 'w umqtt_client).
      \<not> (pf' = pf \<and> client_inv c \<and> 4 \<le> send_size (mqtt_info c) \<and> msg_queue c = []))"
  have "Q pf pid t c y" if "repubrel pf pid t c = Some y" for y
    using that
  proof (rule repubrel.raw_induct [where P = Q, rotated, folded repubrel_body_def])
    fix f and pf' :: "'w platform" and pid t c y
    assume IH: "\<And>pf pid t c y. f pf pid t c = Some y \<Longrightarrow> Q pf pid t c y"
      and body: "repubrel_body f pf' pid t c = Some y"
    show "Q pf' pid t c y"
      unfolding Q_def
    proof
      assume c: "pf' = pf \<and> client_inv c \<and> 4 \<le> send_size (mqtt_info c) \<and> msg_queue c = []"
      then obtain r b w1 where
        s: "encode_and_send pf (\<lambda>r. r \<le> 0) UMQTT_TYPE_PUBREL (Some (pubrel_msg pid)) c
          = Some (r, c\<lparr>send_buf := b, send_len := 4, net := w1\<rparr>)" "0 \<le> r" "length b = length (send_buf c)"
        using pubrel_sent [OF wb] by blast
      define c1 where "c1 = c\<lparr>send_buf := b, send_len := 4, net := w1\<rparr>"
      from c have "msg_queue c1 = []" by (simp add: c1_def)
      from ack_unanswered [OF un this] obtain w2 where
        a: "ack_mq_recv pf t c1 = Some (None, c1\<lparr>net := w2\<rparr>)" by blast
      have "f pf pid t (c1\<lparr>net := w2\<rparr>) = Some y"
        using body c s(1,2) a
        by (simp add: repubrel_body_def c1_def [symmetric])
      from IH [OF this] show False
        using c s(3) by (simp add: Q_def c1_def client_inv_def)
    qed
  qed
  with assms show ?thesis by (cases "repubrel pf pid t c") (auto simp: Q_def)
qed

text \<open>
  Publishing with QoS 2. When PUBREC and PUBCOMP come in turn, the message goes out once,
  followed by one PUBREL; that PUBREL names packet id 0 whatever id the message has, because the
  id is stored in a member of the message that the PUBREL encoder does not read.
\<close>

theorem publish_qos2_pubrel_zero:
  assumes wb: "well_behaved pf T inp out seen" and "client_inv c"
    and ok: "publishable (mqtt_info c) UMQTT_QOS2 topic payload len" "4 \<le> send_size (mqtt_info c)"
    and q: "msg_queue c = a # b # q" "ack_msg_type a = type_code UMQTT_TYPE_PUBREC"
      "ack_msg_type b = type_code UMQTT_TYPE_PUBCOMP"
  shows "\<exists>c'. umqtt_publish pf UMQTT_QOS2 topic payload len timeout c = Some (UMQTT_OK, c')
    \<and> out (net c') = out (net c)
        @ wire (sent_msg UMQTT_QOS2 (fst (get_next_packetID c)) topic payload len)
        @ packet (fixed_header UMQTT_TYPE_PUBREL 0 1) (be16 0)"
proof -
  obtain pid c1 where id: "next_id UMQTT_QOS2 c = (pid, c1)" by fastforce
  then have pid: "pid = fst (get_next_packetID c)" by (simp add: next_id_def)
  let ?t = "rt_tick_from_millisecond timeout"
  from publish_start [OF assms(2) ok(1) id, of pf timeout] obtain c2 where
    p: "umqtt_publish pf UMQTT_QOS2 topic payload len timeout c = do {
         (r, c) \<leftarrow> republish pf 3 UMQTT_TYPE_PUBREC ?t c2;
         if r < 0 then Some (r, c) else repubrel pf pid ?t c }"
    and c2: "send_len c2 \<le> length (send_buf c2)"
      "take (send_len c2) (send_buf c2) = wire (sent_msg UMQTT_QOS2 pid topic payload len)"
      "msg_queue c2 = a # b # q" "net c2 = net c" "client_inv c2" "mqtt_info c2 = mqtt_info c"
    using q(1) by (auto simp: Let_def)
  from republish_answered [OF well_behaved_out [OF wb] c2(1,3) q(2), of 2] obtain w where
    r: "republish pf 3 UMQTT_TYPE_PUBREC ?t c2 = Some (UMQTT_OK, c2\<lparr>msg_queue := b # q, net := w\<rparr>)"
    and o1: "out w = out (net c2) @ take (send_len c2) (send_buf c2)"
    by (auto simp: numeral_3_eq_3)
  define c3 where "c3 = c2\<lparr>msg_queue := b # q, net := w\<rparr>"
  have "client_inv c3" "4 \<le> send_size (mqtt_info c3)" "msg_queue c3 = b # q"
    using c2 ok(2) by (simp_all add: c3_def client_inv_def)
  from repubrel_answered [OF wb this q(3)] obtain c4 where
    "repubrel pf pid ?t c3 = Some (UMQTT_OK, c4)" "out (net c4) = out (net c3) @ pubrel_packet" by blast
  then show ?thesis
    using r o1 c2 pid by (auto simp: p c3_def pubrel_packet_def)
qed

theorem publish_qos2_pubrel_zero_witness:
  "\<exists>c'. umqtt_publish lab_platform UMQTT_QOS2 (ascii ''a/b'') [1, 2, 3] 2 1000
      (waiting 1 [UMQTT_TYPE_PUBREC, UMQTT_TYPE_PUBCOMP]) = Some (UMQTT_OK, c')
    \<and> lab_out (net c') = []
        @ wire (sent_msg UMQTT_QOS2 (fst (get_next_packetID (waiting 1 [UMQTT_TYPE_PUBREC, UMQTT_TYPE_PUBCOMP])))
            (ascii ''a/b'') [1, 2, 3] 2)
        @ packet (fixed_header UMQTT_TYPE_PUBREL 0 1) (be16 0)"
proof -
  let ?c = "waiting 1 [UMQTT_TYPE_PUBREC, UMQTT_TYPE_PUBCOMP]"
  have q: "msg_queue ?c = [\<lparr> ack_packet_id = 1, ack_msg_type = type_code UMQTT_TYPE_PUBREC \<rparr>,
      \<lparr> ack_packet_id = 1, ack_msg_type = type_code UMQTT_TYPE_PUBCOMP \<rparr>]"
    by (simp add: waiting_def)
  show ?thesis
    using publish_qos2_pubrel_zero [OF lab_well_behaved _ _ _ q, of "ascii ''a/b''" "[1, 2, 3]" 2 1000]
      ab_publishable [of 2] by simp
qed

text \<open>
  C35: a QoS 2 publish whose PUBREL stays unanswered never returns. The retry counter is cleared at
  the label the loop jumps back to, so the limit of PKG_UMQTT_PUBLISH_RECON_MAX is not reached and
  the timeout given by the caller has no effect.
\<close>

theorem publish_qos2_hangs:
  assumes wb: "well_behaved pf T inp out seen" and un: "unanswered pf inp out seen" and "client_inv c"
    and ok: "publishable (mqtt_info c) UMQTT_QOS2 topic payload len" "4 \<le> send_size (mqtt_info c)"
    and q: "msg_queue c = [a]" "ack_msg_type a = type_code UMQTT_TYPE_PUBREC"
  shows "umqtt_publish pf UMQTT_QOS2 topic payload len timeout c = None"
proof -
  obtain pid c1 where id: "next_id UMQTT_QOS2 c = (pid, c1)" by fastforce
  let ?t = "rt_tick_from_millisecond timeout"
  from publish_start [OF assms(3) ok(1) id, of pf timeout] obtain c2 where
    p: "umqtt_publish pf UMQTT_QOS2 topic payload len timeout c = do {
         (r, c) \<leftarrow> republish pf 3 UMQTT_TYPE_PUBREC ?t c2;
         if r < 0 then Some (r, c) else repubrel pf pid ?t c }"
    and c2: "send_len c2 \<le> length (send_buf c2)" "msg_queue c2 = [a]" "client_inv c2"
      "mqtt_info c2 = mqtt_info c"
    using q(1) by (auto simp: Let_def)
  from republish_answered [OF well_behaved_out [OF wb] c2(1,2) q(2), of 2] obtain w where
    r: "republish pf 3 UMQTT_TYPE_PUBREC ?t c2 = Some (UMQTT_OK, c2\<lparr>msg_queue := [], net := w\<rparr>)"
    by (auto simp: numeral_3_eq_3)
  have "client_inv (c2\<lparr>msg_queue := [], net := w\<rparr>)" using c2(3) by (simp add: client_inv_def)
  from repubrel_unanswered [OF wb un this] c2(4) ok(2) show ?thesis by (simp add: p r)
qed

theorem publish_qos2_hangs_witness:
  "umqtt_publish lab_platform UMQTT_QOS2 (ascii ''a/b'') [1, 2, 3] 2 1000 (waiting 1 [UMQTT_TYPE_PUBREC]) = None"
proof -
  have q: "msg_queue (waiting 1 [UMQTT_TYPE_PUBREC])
      = [\<lparr> ack_packet_id = 1, ack_msg_type = type_code UMQTT_TYPE_PUBREC \<rparr>]"
    by (simp add: waiting_def)
  show ?thesis
    using publish_qos2_hangs [OF lab_well_behaved lab_unanswered _ _ _ q, of "ascii ''a/b''" "[1, 2, 3]" 2 1000]
      ab_publishable [of 2] by simp
qed

end
