(* ===== verification/Mqtt_Behaviour.thy ===== *)
theory Mqtt_Behaviour
  imports Mqtt_Publish
begin

text \<open>
  The remaining behaviour of the client: QoS 2 messages received, subscribing and unsubscribing,
  and the keep-alive decision.
\<close>

section \<open>QoS 2 messages received\<close>

text \<open>
  A platform with other callbacks. An operation that gives the same result on it does not call
  them.
\<close>

definition with_callbacks ::
    "(nat \<Rightarrow> u16 \<Rightarrow> umqtt_pkgs_publish \<Rightarrow> bytes \<Rightarrow> 'w \<Rightarrow> (bytes \<times> 'w) option)
     \<Rightarrow> 'w platform \<Rightarrow> 'w platform" where
  "with_callbacks cb pf = pf\<lparr>p_callback := cb\<rparr>"

named_theorems silent

lemma with_callbacks_fields [silent]:
  "p_send (with_callbacks cb pf) = p_send pf" "p_tick (with_callbacks cb pf) = p_tick pf"
  "p_malloc (with_callbacks cb pf) = p_malloc pf"
  by (simp_all add: with_callbacks_def)

lemma with_callbacks_back: "with_callbacks (p_callback pf) (with_callbacks cb pf) = pf"
  by (simp add: with_callbacks_def)

lemma send_loop_silent_le:
  fixes pf :: "'w platform"
  assumes "send_loop pf sk buf n offset ret w = Some y"
  shows "send_loop (with_callbacks cb pf) sk buf n offset ret w = Some y"
proof -
  define Q where "Q = (\<lambda>(pf :: 'w platform) (sk :: int) (buf :: bytes) (n :: nat) (offset :: nat)
    (ret :: int) (w :: 'w) (y :: int \<times> 'w). send_loop (with_callbacks cb pf) sk buf n offset ret w = Some y)"
  have "Q pf sk buf n offset ret w y"
    using assms
  proof (rule send_loop.raw_induct [where P = Q, rotated])
    fix loop and pf :: "'w platform" and sk buf n offset ret w y
    assume IH: "\<And>pf sk buf n offset ret w y. loop pf sk buf n offset ret w = Some y \<Longrightarrow> Q pf sk buf n offset ret w y"
      and body: "(if offset < n
      then Option.bind (rd_block buf offset (n - offset)) (\<lambda>data.
        case p_send pf sk data w of (r, w) \<Rightarrow>
          (case r of
             Send_Error errno \<Rightarrow> Some (- errno, w)
           | Send_Count k \<Rightarrow> loop pf sk buf n (offset + k) (int k) w))
      else Some (ret, w)) = Some y"
    show "Q pf sk buf n offset ret w y"
    proof (cases "offset < n")
      case False
      with body show ?thesis by (simp add: Q_def send_loop.simps)
    next
      case True
      with body obtain data where d: "rd_block buf offset (n - offset) = Some data" by (auto simp: bind_eq_Some_conv)
      obtain r w1 where p: "p_send pf sk data w = (r, w1)" by fastforce
      show ?thesis
        using body True d p
        by (cases r) (auto simp: Q_def send_loop.simps [of _ _ _ _ offset] silent dest!: IH [unfolded Q_def])
    qed
  qed
  then show ?thesis by (simp add: Q_def)
qed

lemma send_loop_silent [silent]: "send_loop (with_callbacks cb pf) = send_loop pf"
proof (intro ext)
  fix sk buf n offset ret w
  show "send_loop (with_callbacks cb pf) sk buf n offset ret w = send_loop pf sk buf n offset ret w"
    using send_loop_silent_le [of pf sk buf n offset ret w]
      send_loop_silent_le [of "with_callbacks cb pf" sk buf n offset ret w _ "p_callback pf"]
    by (cases "send_loop pf sk buf n offset ret w";
        cases "send_loop (with_callbacks cb pf) sk buf n offset ret w")
       (auto simp: with_callbacks_back)
qed

lemma ticks_silent [silent]:
  "rt_tick_get (with_callbacks cb pf) = rt_tick_get pf"
  "set_uplink_recon_tick (with_callbacks cb pf) = set_uplink_recon_tick pf"
  "malloc (with_callbacks cb pf) = malloc pf"
  by (intro ext, simp add: rt_tick_get_def set_uplink_recon_tick_def malloc_def silent)+

lemma encode_and_send_silent [silent]: "encode_and_send (with_callbacks cb pf) = encode_and_send pf"
proof -
  have s: "send_msg (with_callbacks cb pf) = send_msg pf"
    by (intro ext) (simp add: send_msg_def umqtt_trans_send_def silent)
  show ?thesis by (intro ext) (unfold encode_and_send_def s, rule refl)
qed

lemma qos2_lists_silent [silent]:
  "add_one_qos2_msg (with_callbacks cb pf) = add_one_qos2_msg pf"
  "add_one_pubrec_msg (with_callbacks cb pf) = add_one_pubrec_msg pf"
  "qos2_publish_delete (with_callbacks cb pf) = qos2_publish_delete pf"
proof -
  have d: "dup_string (with_callbacks cb pf) = dup_string pf"
    by (intro ext) (unfold dup_string_def silent, rule refl)
  show "add_one_qos2_msg (with_callbacks cb pf) = add_one_qos2_msg pf"
    by (intro ext) (unfold add_one_qos2_msg_def d silent, rule refl)
  show "add_one_pubrec_msg (with_callbacks cb pf) = add_one_pubrec_msg pf"
    by (intro ext) (unfold add_one_pubrec_msg_def silent, rule refl)
  show "qos2_publish_delete (with_callbacks cb pf) = qos2_publish_delete pf"
    by (intro ext) (simp add: qos2_delete_noop)
qed

lemma pubrec_cycle_silent:
  "pubrec_cycle_loop (with_callbacks cb pf) is ret c = pubrec_cycle_loop pf is ret c"
proof (induction "is" arbitrary: ret c)
  case (Cons i "is")
  then have eq: "pubrec_cycle_loop (with_callbacks cb pf) is = pubrec_cycle_loop pf is" by (intro ext)
  show ?case unfolding pubrec_cycle_loop.simps silent eq by (rule refl)
qed simp

lemma forward_ack_silent [silent]: "forward_ack (with_callbacks cb pf) = forward_ack pf"
  by (intro ext) (unfold forward_ack_def silent, rule refl)

lemma on_pubrel_silent [silent]: "on_pubrel (with_callbacks cb pf) = on_pubrel pf"
  by (intro ext) (unfold on_pubrel_def silent, rule refl)

lemma on_publish_silent:
  assumes "hdr_qos (m_header m) = UMQTT_QOS2"
  shows "on_publish (with_callbacks cb pf) ret m c = on_publish pf ret m c"
proof -
  have "on_publish pf ret m c = do {
     let c = set_uplink_recon_tick pf UPLINK_NEXT_TICK c;
     (_, c) \<leftarrow> add_one_qos2_msg pf (u_head m) (u_publish m) c;
     let c = snd (add_one_pubrec_msg pf (uint (pb_packet_id (u_publish m))) c);
     encode_and_send pf (\<lambda>r. r < 0) UMQTT_TYPE_PUBREC
       (Some (zero_msg\<lparr>m_header := set_hdr_type (type_code UMQTT_TYPE_PUBREC)
          (set_hdr_dup (hdr_dup (m_header m)) (set_hdr_qos UMQTT_QOS2 0)),
          u_head := pb_packet_id (u_publish m)\<rparr>)) c }" for pf :: "'a platform"
    using assms by (simp add: on_publish_def Let_def bind_assoc split_def)
  then show ?thesis by (simp add: silent)
qed

lemma handle_packet_silent:
  assumes "hdr_type (m_header m) \<noteq> type_code UMQTT_TYPE_PUBLISH \<or> hdr_qos (m_header m) = UMQTT_QOS2"
  shows "handle_packet (with_callbacks cb pf) ret m c = handle_packet pf ret m c"
proof (cases "hdr_qos (m_header m) = UMQTT_QOS2")
  case True
  show ?thesis unfolding handle_packet_def silent on_publish_silent [OF True] by (rule refl)
next
  case False
  with assms have "type_of_code (hdr_type (m_header m)) \<noteq> Some UMQTT_TYPE_PUBLISH"
    by (auto simp: type_of_code_def find_Some_iff)
  then show ?thesis
    unfolding handle_packet_def silent by (auto split: option.split umqtt_type.split)
qed

lemma encode_msg_list: "encode_msg t n m c = Some (r, c') \<Longrightarrow> qos2_msg_list c' = qos2_msg_list c"
  by (auto simp: encode_msg_def bind_eq_Some_conv)

lemma send_msg_list: "send_msg pf n c = Some (r, c') \<Longrightarrow> qos2_msg_list c' = qos2_msg_list c"
  by (auto simp: send_msg_def bind_eq_Some_conv)

lemma encode_and_send_list:
  "encode_and_send pf bad t m c = Some (r, c') \<Longrightarrow> qos2_msg_list c' = qos2_msg_list c"
  by (auto simp: encode_and_send_def bind_eq_Some_conv Let_def split: if_splits
      dest!: encode_msg_list send_msg_list)

lemma on_pubrel_list:
  assumes "on_pubrel pf m c = Some (r, c')"
  shows "qos2_msg_list c' = qos2_msg_list c"
proof -
  have s: "qos2_msg_list (snd (clear_one_pubrec_msg pid c)) = qos2_msg_list c" for pid
    by (simp add: clear_one_pubrec_msg_def split: option.split)
  show ?thesis
    using assms by (auto simp: on_pubrel_def Let_def qos2_delete_noop s dest!: encode_and_send_list)
qed

text \<open>
  C36: what becomes of a QoS 2 message. Handling it, handling the PUBREL that should release it, and
  the timer that repeats PUBREC never call a subscription's callback, so it is never delivered; the
  PUBREL leaves it in the list; and because the list has one place, the next QoS 2 message makes the
  client dereference a null pointer.
\<close>

theorem qos2_never_delivered:
  "(hdr_type (m_header m) \<noteq> type_code UMQTT_TYPE_PUBLISH \<or> hdr_qos (m_header m) = UMQTT_QOS2
      \<longrightarrow> handle_packet (with_callbacks cb pf) ret m c = handle_packet pf ret m c)
   \<and> pubrec_cycle_callback (with_callbacks cb pf) c = pubrec_cycle_callback pf c
   \<and> (hdr_type (m_header m) = type_code UMQTT_TYPE_PUBREL \<longrightarrow> handle_packet pf ret m c = Some (r, c')
      \<longrightarrow> qos2_msg_list c' = qos2_msg_list c)
   \<and> (hdr_type (m_header m) = type_code UMQTT_TYPE_PUBLISH \<longrightarrow> hdr_qos (m_header m) = UMQTT_QOS2
      \<longrightarrow> qos2_msg_list c \<noteq> [] \<longrightarrow> handle_packet pf ret m c = None)"
proof (intro conjI impI)
  assume "hdr_type (m_header m) \<noteq> type_code UMQTT_TYPE_PUBLISH \<or> hdr_qos (m_header m) = UMQTT_QOS2"
  then show "handle_packet (with_callbacks cb pf) ret m c = handle_packet pf ret m c"
    by (rule handle_packet_silent)
next
  show "pubrec_cycle_callback (with_callbacks cb pf) c = pubrec_cycle_callback pf c"
    by (simp add: pubrec_cycle_callback_def pubrec_cycle_silent)
next
  assume t: "hdr_type (m_header m) = type_code UMQTT_TYPE_PUBREL" and h: "handle_packet pf ret m c = Some (r, c')"
  have "handle_packet pf ret m c = on_pubrel pf m c"
    by (simp only: handle_packet_def t type_of_code_code option.case umqtt_type.case)
  with h show "qos2_msg_list c' = qos2_msg_list c" by (simp add: on_pubrel_list)
next
  assume t: "hdr_type (m_header m) = type_code UMQTT_TYPE_PUBLISH" and q: "hdr_qos (m_header m) = UMQTT_QOS2"
    and l: "qos2_msg_list c \<noteq> []"
  have "handle_packet pf ret m c = on_publish pf ret m c"
    by (simp only: handle_packet_def t type_of_code_code option.case umqtt_type.case)
  moreover have "qos2_msg_list (set_uplink_recon_tick pf UPLINK_NEXT_TICK c) \<noteq> []"
    using l by (simp add: set_uplink_recon_tick_def rt_tick_get_def split: prod.split)
  then have "add_one_qos2_msg pf tnl pub (set_uplink_recon_tick pf UPLINK_NEXT_TICK c) = None" for tnl pub
    by (simp add: add_one_qos2_msg_def Suc_le_eq)
  ultimately show "handle_packet pf ret m c = None"
    using q by (simp add: on_publish_def Let_def)
qed

definition qos2_message :: umqtt_msg where
  "qos2_message = zero_msg\<lparr>m_header := 0x34\<rparr>"

theorem qos2_never_delivered_witness:
  "handle_packet (with_callbacks (\<lambda>_ _ _ _ _. None) lab_platform) 0 qos2_message (lab_client [])
     = handle_packet lab_platform 0 qos2_message (lab_client [])
   \<and> handle_packet lab_platform 0 qos2_message
       ((lab_client [])\<lparr>qos2_msg_list := [\<lparr> q2_topic_name_len = 0, q2_topic_name = PNull,
          q2_packet_id = 7, q2_payload = PNull, q2_payload_len = 0 \<rparr>]\<rparr>) = None"
  using qos2_never_delivered [of qos2_message "\<lambda>_ _ _ _ _. None" lab_platform 0 "lab_client []"]
    qos2_never_delivered [of qos2_message "\<lambda>_ _ _ _ _. None" lab_platform 0
      "(lab_client [])\<lparr>qos2_msg_list := [\<lparr> q2_topic_name_len = 0, q2_topic_name = PNull,
          q2_packet_id = 7, q2_payload = PNull, q2_payload_len = 0 \<rparr>]\<rparr>"]
  by (simp add: qos2_message_def hdr_type_def hdr_qos_def)

section \<open>Subscribing\<close>

text \<open>While the caller waits the receive thread runs once; memory is there.\<close>

definition reader_runs ::
    "'w platform \<Rightarrow> ('w \<Rightarrow> bytes) \<Rightarrow> ('w \<Rightarrow> bytes) \<Rightarrow> ('w \<Rightarrow> seen_msg list) \<Rightarrow> bool" where
  "reader_runs pf inp out seen \<longleftrightarrow> (\<forall>n w. \<exists>w'. p_while_blocked pf n w = ([Reader_Turn], w')
     \<and> inp w' = inp w \<and> out w' = out w \<and> seen w' = seen w)"

definition enough_memory ::
    "'w platform \<Rightarrow> ('w \<Rightarrow> bytes) \<Rightarrow> ('w \<Rightarrow> bytes) \<Rightarrow> ('w \<Rightarrow> seen_msg list) \<Rightarrow> bool" where
  "enough_memory pf inp out seen \<longleftrightarrow> (\<forall>n w. \<exists>w'. p_malloc pf n w = (True, w')
     \<and> inp w' = inp w \<and> out w' = out w \<and> seen w' = seen w)"

definition the_filter :: "bytes \<Rightarrow> u8 \<Rightarrow> sub_topic_filter" where
  "the_filter topic qos =
    \<lparr> filter_len = word_of_nat (c_strlen topic), topic_filter = Some topic, request_qos = qos \<rparr>"

definition subscribe_packet :: "u16 \<Rightarrow> bytes \<Rightarrow> u8 \<Rightarrow> bytes" where
  "subscribe_packet pid topic qos =
     packet (fixed_header UMQTT_TYPE_SUBSCRIBE 0 1) (subscribe_body pid [the_filter topic qos])"

definition subscribable :: "umqtt_info \<Rightarrow> bytes \<Rightarrow> bool" where
  "subscribable info topic \<longleftrightarrow> umqtt_pkgs_len (int (5 + c_strlen topic)) \<le> int (send_size info)
     \<and> send_size info < 268435456"

lemma subscribe_encoded:
  assumes inv: "client_inv c" and ok: "subscribable (mqtt_info c) topic"
  shows "\<exists>b. blit (send_buf c) 0 (subscribe_packet pid topic qos) = Some b \<and>
    umqtt_encode UMQTT_TYPE_SUBSCRIBE (send_buf c) (send_size (mqtt_info c)) (Some (subscribe_msg pid topic qos))
      = Some (int (length (subscribe_packet pid topic qos)), b)"
proof -
  let ?m = "u_subscribe (subscribe_msg pid topic qos)"
  have fs: "take (unat (sb_topic_count ?m)) (sb_topic_filter ?m) = [the_filter topic qos]"
    "0 < sb_topic_count ?m" "unat (sb_topic_count ?m) \<le> length (sb_topic_filter ?m)"
    by (simp_all add: subscribe_msg_def zero_msg_def the_filter_def word_less_nat_alt eval_nat_numeral)
  have len: "length (subscribe_body pid [the_filter topic qos]) = 5 + c_strlen topic"
    by (simp add: subscribe_body_def the_filter_def mstr_def)
  have fits: "umqtt_pkgs_len (int (length (subscribe_body pid [the_filter topic qos]))) \<le> int (send_size (mqtt_info c))"
    and small: "send_size (mqtt_info c) < 268435456"
    using ok unfolding subscribable_def len by simp_all
  have "length (subscribe_packet pid topic qos) \<le> send_size (mqtt_info c)"
    using pkgs_len_bound [OF fits small] by (simp add: subscribe_packet_def packet_def)
  then obtain b where "blit (send_buf c) 0 (subscribe_packet pid topic qos) = Some b"
    using inv by (fastforce simp: blit_def client_inv_def)
  moreover have "u_head (subscribe_msg pid topic qos) = pid" by (simp add: subscribe_msg_def)
  ultimately show ?thesis
    using MQTTSerialize_subscribe_blit [OF fs(2,3), of pid "int (send_size (mqtt_info c))" "send_buf c", unfolded fs(1)]
      fits
    by (simp add: umqtt_encode_def umqtt_subscribe_encode_def subscribe_packet_def Let_def)
qed

lemma clear_send_buf_ok:
  assumes "client_inv c"
  shows "\<exists>b. clear_send_buf c = Some (c\<lparr>send_buf := b\<rparr>) \<and> length b = length (send_buf c)"
proof -
  obtain b where b: "blit (send_buf c) 0 (replicate (send_size (mqtt_info c)) 0) = Some b"
    using assms by (fastforce simp: blit_def client_inv_def)
  then show ?thesis using length_blit [OF b] by (auto simp: clear_send_buf_def)
qed

text \<open>The caller that waits with an empty queue while the receive thread's turn brings an acknowledgement.\<close>

lemma turn_wakes:
  assumes "p_while_blocked pf (unat n) (net c) = ([Reader_Turn], w)" and "msg_queue c = []" and "task_handle c"
    and "umqtt_thread_turn pf (c\<lparr>net := w\<rparr>) = Some (r, c')" and "msg_queue c' = [a]"
  shows "ack_mq_recv pf n c = Some (Some a, c'\<lparr>msg_queue := []\<rparr>)"
proof -
  have "blocked_recv pf [Reader_Turn] (c\<lparr>net := w\<rparr>) = blocked_recv pf [] c'"
    using assms by (subst blocked_recv.simps) (simp add: run_activity_def)
  also have "\<dots> = Some (Some a, c'\<lparr>msg_queue := []\<rparr>)" using assms(5) by (subst blocked_recv.simps) simp
  finally show ?thesis using assms(1,2) by (simp add: ack_mq_recv_def)
qed

text \<open>The receive thread's turn that takes a SUBACK.\<close>

lemma suback_turn:
  assumes wb: "well_behaved pf T inp out seen" and T: "in_time T (recv_time_ms (mqtt_info c))"
    and inv: "client_inv c" and q: "msg_queue c = []" and fits: "5 \<le> recv_size (mqtt_info c)"
    and i: "inp (net c) = packet 0x90 (be16 (unat (k :: u16)) @ [code]) @ rest"
  shows "\<exists>t b w'. umqtt_thread_turn pf c = Some (True, c\<lparr>recv_buf := b, uplink_next_tick := t,
      msg_queue := [\<lparr> ack_packet_id = k, ack_msg_type = type_code UMQTT_TYPE_SUBACK \<rparr>], net := w'\<rparr>)
    \<and> inp w' = rest \<and> out w' = out (net c) \<and> seen w' = seen (net c)"
proof -
  let ?p = "packet 0x90 (be16 (unat k) @ [code])"
  have lp: "length ?p = 5" by (simp add: packet_def rl_bytes.simps)
  then have fit: "length ?p \<le> recv_size (mqtt_info c)" using fits by simp
  from handle_readpacket_stream [OF well_behaved_line [OF wb] T i _ inv fit] obtain w1 where
    ru: "read_upto inp out seen ?p (net c) w1" "inp w1 = rest"
    and hr: "let buf = ?p @ drop (length ?p) (recv_buf c); c1 = c\<lparr>recv_buf := buf, net := w1\<rparr>
     in umqtt_handle_readpacket pf c = do {
          (ret, m) \<leftarrow> umqtt_decode buf (length ?p) (Some zero_msg);
          if ret < 0 then Some (UMQTT_DECODE_ERROR, c1)
          else do { decoded \<leftarrow> m; handle_packet pf ret decoded c1 } }" by auto
  define buf where "buf = ?p @ drop (length ?p) (recv_buf c)"
  define c1 where "c1 = c\<lparr>recv_buf := buf, net := w1\<rparr>"
  have h90: "hdr_type 0x90 = type_code UMQTT_TYPE_SUBACK" by (simp add: hdr_type_def)
  have z: "length (sa_ret_qos (u_suback zero_msg)) = 4" by (simp add: zero_msg_def)
  from suback_decoded [OF h90 _ z, of "[code]" k "drop (length ?p) (recv_buf c)" "length ?p"] obtain m where
    dec: "umqtt_decode buf (length ?p) (Some zero_msg) = Some (int (length (rl_bytes 3)), Some m)"
    and m: "hdr_type (m_header m) = type_code UMQTT_TYPE_SUBACK" "u_head m = k"
    using h90 by (auto simp: buf_def numeral_3_eq_3)
  from set_next_tick_obs [OF well_behaved_line [OF wb], of c1] obtain t w2 where
    nt: "set_uplink_recon_tick pf UPLINK_NEXT_TICK c1 = c1\<lparr>uplink_next_tick := t, net := w2\<rparr>"
    and w2: "inp w2 = inp (net c1)" "out w2 = out (net c1)" "seen w2 = seen (net c1)" by blast
  define c2 where "c2 = c\<lparr>recv_buf := buf, uplink_next_tick := t,
      msg_queue := [\<lparr> ack_packet_id = k, ack_msg_type = type_code UMQTT_TYPE_SUBACK \<rparr>], net := w2\<rparr>"
  have "msg_queue c1 = []" using q by (simp add: c1_def)
  then have "forward_ack pf UMQTT_TYPE_SUBACK True False m c1 = (0, (c1\<lparr>uplink_next_tick := t, net := w2\<rparr>)
      \<lparr>msg_queue := [\<lparr> ack_packet_id = k, ack_msg_type = type_code UMQTT_TYPE_SUBACK \<rparr>]\<rparr>)"
    using m(2) by (simp add: forward_ack_def nt ack_mq_send_def Let_def)
  also have "\<dots> = (0, c2)" by (cases c) (simp add: c1_def c2_def)
  finally have "forward_ack pf UMQTT_TYPE_SUBACK True False m c1 = (0, c2)" .
  moreover have "handle_packet pf ret m c1 = Some (forward_ack pf UMQTT_TYPE_SUBACK True False m c1)" for ret
    by (simp only: handle_packet_def m type_of_code_code option.case umqtt_type.case)
  ultimately have "umqtt_handle_readpacket pf c = Some (0, c2)"
    using hr dec by (simp add: buf_def [symmetric] c1_def [symmetric] Let_def)
  then have turn: "umqtt_thread_turn pf c = Some (True, c2)" by (simp add: umqtt_thread_turn_def)
  have obs: "inp w2 = rest" "out w2 = out (net c)" "seen w2 = seen (net c)"
    using ru w2 by (simp_all add: c1_def read_upto_def)
  show ?thesis
    by (rule exI [of _ t], rule exI [of _ buf], rule exI [of _ w2]) (use turn obs in \<open>simp add: c2_def\<close>)
qed

lemma suback_received:
  assumes wb: "well_behaved pf T inp out seen" and rr: "reader_runs pf inp out seen"
    and T: "in_time T (recv_time_ms (mqtt_info c))"
    and inv: "client_inv c" and q: "msg_queue c = []" "task_handle c" and fits: "5 \<le> recv_size (mqtt_info c)"
    and i: "inp (net c) = packet 0x90 (be16 (unat (k :: u16)) @ [code]) @ rest"
  shows "\<exists>c'. ack_mq_recv pf n c
      = Some (Some \<lparr> ack_packet_id = k, ack_msg_type = type_code UMQTT_TYPE_SUBACK \<rparr>, c')
    \<and> msg_queue c' = [] \<and> sub_recv_list c' = sub_recv_list c
    \<and> inp (net c') = rest \<and> out (net c') = out (net c) \<and> seen (net c') = seen (net c)"
proof -
  from rr obtain w1 where p: "p_while_blocked pf (unat n) (net c) = ([Reader_Turn], w1)"
    and w1: "inp w1 = inp (net c)" "out w1 = out (net c)" "seen w1 = seen (net c)"
    unfolding reader_runs_def by blast
  define c1 where "c1 = c\<lparr>net := w1\<rparr>"
  have "in_time T (recv_time_ms (mqtt_info c1))" "client_inv c1" "msg_queue c1 = []" "5 \<le> recv_size (mqtt_info c1)"
    "inp (net c1) = packet 0x90 (be16 (unat k) @ [code]) @ rest"
    using T inv q fits i w1 by (simp_all add: c1_def)
  from suback_turn [OF wb this] obtain t b w2 where
    u: "umqtt_thread_turn pf c1 = Some (True, c1\<lparr>recv_buf := b, uplink_next_tick := t,
      msg_queue := [\<lparr> ack_packet_id = k, ack_msg_type = type_code UMQTT_TYPE_SUBACK \<rparr>], net := w2\<rparr>)"
    and w2: "inp w2 = rest" "out w2 = out (net c1)" "seen w2 = seen (net c1)" by blast
  define c2 where "c2 = c1\<lparr>recv_buf := b, uplink_next_tick := t,
      msg_queue := [\<lparr> ack_packet_id = k, ack_msg_type = type_code UMQTT_TYPE_SUBACK \<rparr>], net := w2\<rparr>"
  have "msg_queue c2 = [\<lparr> ack_packet_id = k, ack_msg_type = type_code UMQTT_TYPE_SUBACK \<rparr>]" by (simp add: c2_def)
  from turn_wakes [OF p q u [folded c2_def, unfolded c1_def] this]
  have "ack_mq_recv pf n c = Some (Some \<lparr> ack_packet_id = k, ack_msg_type = type_code UMQTT_TYPE_SUBACK \<rparr>,
      c2\<lparr>msg_queue := []\<rparr>)" .
  moreover have "sub_recv_list (c2\<lparr>msg_queue := []\<rparr>) = sub_recv_list c" "net (c2\<lparr>msg_queue := []\<rparr>) = w2"
    by (simp_all add: c2_def c1_def)
  moreover have "out (net c1) = out (net c)" "seen (net c1) = seen (net c)" using w1 by (simp_all add: c1_def)
  ultimately show ?thesis using w2 by (intro exI [of _ "c2\<lparr>msg_queue := []\<rparr>"]) simp
qed

lemma malloc_enough:
  assumes "enough_memory pf inp out seen"
  shows "\<exists>w'. malloc pf n c = (True, c\<lparr>net := w'\<rparr>) \<and> inp w' = inp (net c) \<and> out w' = out (net c)
    \<and> seen w' = seen (net c)"
proof -
  from assms obtain w' where "p_malloc pf n (net c) = (True, w')" "inp w' = inp (net c)"
    "out w' = out (net c)" "seen w' = seen (net c)" unfolding enough_memory_def by blast
  then show ?thesis by (auto simp: malloc_def)
qed

text \<open>
  C10: Subscribing. For a filter the client does not have yet, with memory left and no more than
  \<open>sub_recv_list_len\<close> subscriptions in the list (so a list of length 4 takes a fifth),
  \<open>umqtt_subscribe\<close> sends exactly the SUBSCRIBE packet with the next packet id; when the receive
  thread finds a SUBACK the filter is added in front of the list with its callback. Neither the
  packet id nor the return code of the SUBACK is looked at: a subscription the broker refused
  (code 0x80) is entered and reported as a success.
\<close>

theorem subscribe_confirmed:
  assumes wb: "well_behaved pf T inp out seen" and rr: "reader_runs pf inp out seen"
    and mem: "enough_memory pf inp out seen" and T: "in_time T (recv_time_ms (mqtt_info c))"
    and inv: "client_inv c" and q: "msg_queue c = []" "task_handle c"
    and new: "\<forall>h\<in>set (sub_recv_list c). \<forall>f. st_topicfilter h = Some f \<longrightarrow> cstr f \<noteq> cstr topic"
    and room: "int (length (sub_recv_list c)) \<le> sub_recv_list_len c"
    and ok: "subscribable (mqtt_info c) topic" "5 \<le> recv_size (mqtt_info c)"
    and i: "inp (net c) = packet 0x90 (be16 (unat (k :: u16)) @ [code]) @ rest"
  shows "\<exists>c'. umqtt_subscribe pf topic qos callback c = Some (UMQTT_OK, c')
    \<and> sub_recv_list c'
        = \<lparr> st_topicfilter = Some (cstr topic), st_callback = callback, st_qos = qos \<rparr> # sub_recv_list c
    \<and> out (net c') = out (net c) @ subscribe_packet (fst (get_next_packetID c)) topic qos
    \<and> inp (net c') = rest \<and> msg_queue c' = []"
proof -
  obtain pid c1 where id: "get_next_packetID c = (pid, c1)" by fastforce
  then obtain p where c1: "c1 = c\<lparr>packet_id := p\<rparr>" by (auto simp: get_next_packetID_def Let_def)
  have "client_inv c1" using inv by (simp add: c1)
  from clear_send_buf_ok [OF this] obtain b0 where
    cl: "clear_send_buf c1 = Some (c1\<lparr>send_buf := b0\<rparr>)" "length b0 = length (send_buf c1)" by blast
  define c2 where "c2 = c1\<lparr>send_buf := b0\<rparr>"
  have inv2: "client_inv c2" "subscribable (mqtt_info c2) topic"
    using inv cl(2) ok by (simp_all add: c2_def c1)
  from subscribe_encoded [OF this] obtain b where
    b: "blit (send_buf c2) 0 (subscribe_packet pid topic qos) = Some b" and
    enc: "umqtt_encode UMQTT_TYPE_SUBSCRIBE (send_buf c2) (send_size (mqtt_info c2)) (Some (subscribe_msg pid topic qos))
      = Some (int (length (subscribe_packet pid topic qos)), b)" by blast
  have bad: "\<not> (\<lambda>r. r \<le> 0) (int (length (subscribe_packet pid topic qos)))"
    by (simp add: subscribe_packet_def packet_def)
  from encode_and_send_out [OF wb inv2(1) enc b, of "\<lambda>r. r \<le> 0", OF bad] obtain r w1 where
    s: "encode_and_send pf (\<lambda>r. r \<le> 0) UMQTT_TYPE_SUBSCRIBE (Some (subscribe_msg pid topic qos)) c2
      = Some (r, c2\<lparr>send_buf := b, send_len := length (subscribe_packet pid topic qos), net := w1\<rparr>)" "0 \<le> r"
    and o1: "out w1 = out (net c2) @ subscribe_packet pid topic qos" "inp w1 = inp (net c2)" by blast
  define c3 where "c3 = c2\<lparr>send_buf := b, send_len := length (subscribe_packet pid topic qos), net := w1\<rparr>"
  from set_last_tick_obs [OF well_behaved_line [OF wb], of c3] obtain t w2 where
    lt: "set_uplink_recon_tick pf UPLINK_LAST_TICK c3 = c3\<lparr>uplink_last_tick := t, net := w2\<rparr>"
    and o2: "inp w2 = inp (net c3)" "out w2 = out (net c3)" by blast
  define c4 where "c4 = c3\<lparr>uplink_last_tick := t, net := w2\<rparr>"
  have "length b = length (send_buf c)" using length_blit [OF b] cl(2) by (simp add: c2_def c1)
  then have inv4: "client_inv c4" using inv by (simp add: c4_def c3_def c2_def c1 client_inv_def)
  have c4: "in_time T (recv_time_ms (mqtt_info c4))" "client_inv c4" "msg_queue c4 = []" "task_handle c4"
    "5 \<le> recv_size (mqtt_info c4)" "inp (net c4) = packet 0x90 (be16 (unat k) @ [code]) @ rest"
    using T q ok i o1 o2 inv4 by (simp_all add: c4_def c3_def c2_def c1)
  from suback_received [OF wb rr this] obtain c5 where
    a: "ack_mq_recv pf (ack_timeout c4) c4
      = Some (Some \<lparr> ack_packet_id = k, ack_msg_type = type_code UMQTT_TYPE_SUBACK \<rparr>, c5)"
    and c5: "msg_queue c5 = []" "sub_recv_list c5 = sub_recv_list c4" "inp (net c5) = rest" "out (net c5) = out (net c4)"
    by blast
  from malloc_enough [OF mem, of 1 c5] obtain w3 where
    m1: "malloc pf 1 c5 = (True, c5\<lparr>net := w3\<rparr>)" "inp w3 = inp (net c5)" "out w3 = out (net c5)" by blast
  from malloc_enough [OF mem, of "c_strlen topic + 1" "c5\<lparr>net := w3\<rparr>"] obtain w4 where
    m2: "malloc pf (c_strlen topic + 1) (c5\<lparr>net := w3\<rparr>) = (True, c5\<lparr>net := w4\<rparr>)" "inp w4 = inp w3" "out w4 = out w3"
    by auto
  define new where "new = \<lparr> st_topicfilter = Some (cstr topic), st_callback = callback, st_qos = qos \<rparr>"
  define c6 where "c6 = c5\<lparr>sub_recv_list := new # sub_recv_list c5, net := w4\<rparr>"
  from set_next_tick_obs [OF well_behaved_line [OF wb], of c6] obtain t' w5 where
    nt: "set_uplink_recon_tick pf UPLINK_NEXT_TICK c6 = c6\<lparr>uplink_next_tick := t', net := w5\<rparr>"
    and o5: "inp w5 = inp (net c6)" "out w5 = out (net c6)" by blast
  have dup: "\<not> (\<exists>h\<in>set (sub_recv_list c). (case st_topicfilter h of Some f \<Rightarrow> c_streq f topic | None \<Rightarrow> False))"
    using new by (auto simp: c_streq_def split: option.splits)
  have full: "\<not> int (length (sub_recv_list c)) > sub_recv_list_len c" using room by simp
  have nn: "\<not> ack_msg_type \<lparr> ack_packet_id = k, ack_msg_type = type_code UMQTT_TYPE_SUBACK \<rparr> \<noteq> type_code UMQTT_TYPE_SUBACK"
    by simp
  have nr: "\<not> r < 0" using s(2) by simp
  have c6': "(c5\<lparr>net := w4\<rparr>)\<lparr>sub_recv_list := new # sub_recv_list (c5\<lparr>net := w4\<rparr>)\<rparr> = c6"
    unfolding c6_def by (cases c5) simp
  have "umqtt_subscribe pf topic qos callback c = Some (UMQTT_OK, c6\<lparr>uplink_next_tick := t', net := w5\<rparr>)"
    unfolding umqtt_subscribe_def if_not_P [OF dup] if_not_P [OF full] id Let_def prod.case cl(1)
      bind.bind_lunit c2_def [symmetric] s(1) c3_def [symmetric] if_not_P [OF nr] lt c4_def [symmetric] a
      option.case if_not_P [OF nn] m1(1) m2(1) not_True_eq_False if_False if_True new_def [symmetric] c6' nt
    by (rule refl)
  then show ?thesis
    using c5 m1 m2 o1 o2 o5 id by (simp add: c6_def new_def c4_def c3_def c2_def c1)
qed

text \<open>The lab with a receive thread that gets its turn while others wait.\<close>

definition busy_lab :: "lab platform" where
  "busy_lab = lab_platform\<lparr>p_while_blocked := \<lambda>_ w. ([Reader_Turn], w)\<rparr>"

lemma busy_lab_contracts:
  "well_behaved busy_lab {0} lab_inp lab_out lab_seen" "reader_runs busy_lab lab_inp lab_out lab_seen"
  "enough_memory busy_lab lab_inp lab_out lab_seen"
  using lab_well_behaved
  by (simp_all add: well_behaved_def recv_contract_def clock_contract_def out_contract_def
      callback_contract_def busy_lab_def reader_runs_def enough_memory_def lab_platform_def)

lemma lab_client_state [simp]:
  "task_handle (lab_client xs)" "sub_recv_list_len (lab_client xs) = 4"
  by (simp_all add: lab_client_def new_client_def)

theorem subscribe_confirmed_witness:
  "\<exists>c'. umqtt_subscribe busy_lab (ascii ''x'') 1 (Some 3) (lab_client (packet 0x90 (be16 (unat (77 :: u16)) @ [0x80]) @ []))
      = Some (UMQTT_OK, c')
    \<and> sub_recv_list c' = \<lparr> st_topicfilter = Some (cstr (ascii ''x'')), st_callback = Some 3, st_qos = 1 \<rparr>
        # sub_recv_list (lab_client (packet 0x90 (be16 (unat (77 :: u16)) @ [0x80]) @ []))
    \<and> lab_out (net c') = [] @ subscribe_packet (fst (get_next_packetID
         (lab_client (packet 0x90 (be16 (unat (77 :: u16)) @ [0x80]) @ [])))) (ascii ''x'') 1
    \<and> lab_inp (net c') = [] \<and> msg_queue c' = []"
proof -
  define c where "c = lab_client (packet 0x90 (be16 (unat (77 :: u16)) @ [0x80]) @ [])"
  have subs: "length (sub_recv_list c) = 2"
    "\<forall>h\<in>set (sub_recv_list c). \<forall>f. st_topicfilter h = Some f \<longrightarrow> cstr f \<noteq> cstr (ascii ''x'')"
    by (simp_all add: c_def lab_client_def new_client_def cstr_def ascii_def)
  have ok: "subscribable (mqtt_info c) (ascii ''x'')"
    by (simp add: c_def subscribable_def c_strlen_def cstr_def ascii_def umqtt_pkgs_len_def)
  have "in_time {0} (recv_time_ms (mqtt_info c))" "client_inv c" "msg_queue c = []" "task_handle c"
    "int (length (sub_recv_list c)) \<le> sub_recv_list_len c" "5 \<le> recv_size (mqtt_info c)"
    "lab_inp (net c) = packet 0x90 (be16 (unat (77 :: u16)) @ [0x80]) @ []" "lab_out (net c) = []"
    using lab_in_time subs by (simp_all add: c_def)
  from subscribe_confirmed [OF busy_lab_contracts this(1-4) subs(2) this(5) ok this(6,7), of 1 "Some 3"] this(8)
  show ?thesis unfolding c_def [symmetric] by simp
qed

section \<open>Unsubscribing\<close>

definition unsubscribe_packet :: "u16 \<Rightarrow> bytes \<Rightarrow> bytes" where
  "unsubscribe_packet pid topic = packet (fixed_header UMQTT_TYPE_UNSUBSCRIBE 0 1)
     (unsubscribe_body pid [\<lparr> un_filter_len = word_of_nat (c_strlen topic), un_topic_filter = Some topic \<rparr>])"

lemma unsubscribe_encoded:
  assumes inv: "client_inv c" and ok: "subscribable (mqtt_info c) topic"
  shows "\<exists>b. blit (send_buf c) 0 (unsubscribe_packet pid topic) = Some b \<and>
    umqtt_encode UMQTT_TYPE_UNSUBSCRIBE (send_buf c) (send_size (mqtt_info c)) (Some (unsubscribe_msg pid topic))
      = Some (int (length (unsubscribe_packet pid topic)), b)"
proof -
  let ?f = "\<lparr> un_filter_len = word_of_nat (c_strlen topic), un_topic_filter = Some topic \<rparr>"
  let ?m = "u_unsubscribe (unsubscribe_msg pid topic)"
  have fs: "take (unat (us_topic_count ?m)) (us_topic_filter ?m) = [?f]"
    "0 < us_topic_count ?m" "unat (us_topic_count ?m) \<le> length (us_topic_filter ?m)"
    by (simp_all add: unsubscribe_msg_def zero_msg_def word_less_nat_alt eval_nat_numeral)
  have len: "length (unsubscribe_body pid [?f]) = 4 + c_strlen topic"
    by (simp add: unsubscribe_body_def mstr_def)
  have "umqtt_pkgs_len (int (4 + k)) \<le> umqtt_pkgs_len (int (5 + k))" for k
    by (simp add: umqtt_pkgs_len_def Let_def)
  then have fits: "umqtt_pkgs_len (int (length (unsubscribe_body pid [?f]))) \<le> int (send_size (mqtt_info c))"
    and small: "send_size (mqtt_info c) < 268435456"
    using ok order_trans unfolding subscribable_def len by blast+
  have "length (unsubscribe_packet pid topic) \<le> send_size (mqtt_info c)"
    using pkgs_len_bound [OF fits small] by (simp add: unsubscribe_packet_def packet_def)
  then obtain b where "blit (send_buf c) 0 (unsubscribe_packet pid topic) = Some b"
    using inv by (fastforce simp: blit_def client_inv_def)
  moreover have "u_head (unsubscribe_msg pid topic) = pid" by (simp add: unsubscribe_msg_def)
  ultimately show ?thesis
    using MQTTSerialize_unsubscribe_blit [OF fs(2,3), of pid "int (send_size (mqtt_info c))" "send_buf c", unfolded fs(1)]
      fits
    by (simp add: umqtt_encode_def umqtt_unsubscribe_encode_def unsubscribe_packet_def Let_def)
qed

text \<open>
  Unsubscribing removes the first subscription whose filter starts with the given topic, which
  need not be the one asked for: \<open>a\<close> removes \<open>a/b\<close> when that comes first in the list. The broker is
  told to drop the topic given.
\<close>

theorem unsubscribe_first_prefix:
  assumes wb: "well_behaved pf T inp out seen" and inv: "client_inv c"
    and ok: "subscribable (mqtt_info c) topic"
    and subs: "sub_recv_list c = hs1 @ h # hs2"
      "\<forall>g\<in>set hs1. \<forall>f. st_topicfilter g = Some f \<longrightarrow> \<not> c_has_prefix f topic"
      "st_topicfilter h = Some f" "c_has_prefix f topic"
    and q: "msg_queue c = \<lparr> ack_packet_id = k, ack_msg_type = type_code UMQTT_TYPE_UNSUBACK \<rparr> # q"
  shows "\<exists>c'. umqtt_unsubscribe pf topic c = Some (UMQTT_OK, c') \<and> sub_recv_list c' = hs1 @ hs2
    \<and> out (net c') = out (net c) @ unsubscribe_packet (fst (get_next_packetID c)) topic \<and> msg_queue c' = q"
proof -
  let ?t = "\<lambda>h. case st_topicfilter h of Some f \<Rightarrow> c_has_prefix f topic | None \<Rightarrow> False"
  have hs1: "\<forall>g\<in>set hs1. \<not> ?t g" using subs(2) by (auto split: option.splits)
  have "find ?t (sub_recv_list c) = Some h"
    unfolding subs(1) using hs1 subs(3,4) by (induction hs1) auto
  note found = this
  have "h \<notin> set hs1" using hs1 subs(3,4) by auto
  then have rem: "remove1 h (sub_recv_list c) = hs1 @ hs2" by (simp add: subs(1) remove1_append)
  obtain pid c1 where id: "get_next_packetID c = (pid, c1)" by fastforce
  then obtain p where c1: "c1 = c\<lparr>packet_id := p\<rparr>" by (auto simp: get_next_packetID_def Let_def)
  have inv1: "client_inv c1" "subscribable (mqtt_info c1) topic" using inv ok by (simp_all add: c1)
  from unsubscribe_encoded [OF this] obtain b where
    b: "blit (send_buf c1) 0 (unsubscribe_packet pid topic) = Some b" and
    enc: "umqtt_encode UMQTT_TYPE_UNSUBSCRIBE (send_buf c1) (send_size (mqtt_info c1)) (Some (unsubscribe_msg pid topic))
      = Some (int (length (unsubscribe_packet pid topic)), b)" by blast
  have bad: "\<not> (\<lambda>r. r \<le> 0) (int (length (unsubscribe_packet pid topic)))"
    by (simp add: unsubscribe_packet_def packet_def)
  from encode_and_send_out [OF wb inv1(1) enc b, of "\<lambda>r. r \<le> 0", OF bad] obtain r w1 where
    s: "encode_and_send pf (\<lambda>r. r \<le> 0) UMQTT_TYPE_UNSUBSCRIBE (Some (unsubscribe_msg pid topic)) c1
      = Some (r, c1\<lparr>send_buf := b, send_len := length (unsubscribe_packet pid topic), net := w1\<rparr>)" "0 \<le> r"
    and o1: "out w1 = out (net c1) @ unsubscribe_packet pid topic" by blast
  define c2 where "c2 = c1\<lparr>send_buf := b, send_len := length (unsubscribe_packet pid topic), net := w1\<rparr>"
  from set_last_tick_obs [OF well_behaved_line [OF wb], of c2] obtain t w2 where
    lt: "set_uplink_recon_tick pf UPLINK_LAST_TICK c2 = c2\<lparr>uplink_last_tick := t, net := w2\<rparr>"
    and o2: "out w2 = out (net c2)" by blast
  define c3 where "c3 = c2\<lparr>uplink_last_tick := t, net := w2\<rparr>"
  let ?a = "\<lparr> ack_packet_id = k, ack_msg_type = type_code UMQTT_TYPE_UNSUBACK \<rparr>"
  define c4 where "c4 = c3\<lparr>msg_queue := q\<rparr>"
  have a: "ack_mq_recv pf (ack_timeout c3) c3 = Some (Some ?a, c4)"
    unfolding c4_def by (rule ack_waiting) (simp add: c3_def c2_def c1 q)
  define c5 where "c5 = c4\<lparr>sub_recv_list := remove1 h (sub_recv_list c4)\<rparr>"
  from set_next_tick_obs [OF well_behaved_line [OF wb], of c5] obtain t' w5 where
    nt: "set_uplink_recon_tick pf UPLINK_NEXT_TICK c5 = c5\<lparr>uplink_next_tick := t', net := w5\<rparr>"
    and o5: "out w5 = out (net c5)" by blast
  have nr: "\<not> r < 0" using s(2) by simp
  have nn: "\<not> ack_msg_type ?a \<noteq> type_code UMQTT_TYPE_UNSUBACK" by simp
  have "umqtt_unsubscribe pf topic c = Some (UMQTT_OK, c5\<lparr>uplink_next_tick := t', net := w5\<rparr>)"
    unfolding umqtt_unsubscribe_def found option.case id Let_def prod.case s(1) bind.bind_lunit
      c2_def [symmetric] if_not_P [OF nr] lt c3_def [symmetric] a if_not_P [OF nn] c5_def [symmetric] nt
    by (rule refl)
  moreover have "sub_recv_list c4 = sub_recv_list c" by (simp add: c4_def c3_def c2_def c1)
  ultimately show ?thesis
    using rem o1 o2 o5 id by (simp add: c5_def c4_def c3_def c2_def c1)
qed

theorem unsubscribe_first_prefix_witness:
  "\<exists>c'. umqtt_unsubscribe lab_platform (ascii ''a/'') (waiting 5 [UMQTT_TYPE_UNSUBACK]) = Some (UMQTT_OK, c')
    \<and> sub_recv_list c' = [\<lparr> st_topicfilter = Some (ascii ''a/b''), st_callback = Some 2, st_qos = 1 \<rparr>]
    \<and> lab_out (net c') = [] @ unsubscribe_packet (fst (get_next_packetID (waiting 5 [UMQTT_TYPE_UNSUBACK]))) (ascii ''a/'')
    \<and> msg_queue c' = []"
proof -
  let ?c = "waiting 5 [UMQTT_TYPE_UNSUBACK]"
  let ?h = "\<lparr> st_topicfilter = Some (ascii ''a/+''), st_callback = Some (1 :: nat), st_qos = (1 :: u8) \<rparr>"
  let ?g = "\<lparr> st_topicfilter = Some (ascii ''a/b''), st_callback = Some (2 :: nat), st_qos = (1 :: u8) \<rparr>"
  have subs: "sub_recv_list ?c = [] @ ?h # [?g]"
    by (simp add: waiting_def) (simp add: lab_client_def new_client_def)
  have pre: "c_has_prefix (ascii ''a/+'') (ascii ''a/'')"
    by (simp add: c_has_prefix_def c_strlen_def cstr_def ascii_def)
  have ok: "subscribable (mqtt_info ?c) (ascii ''a/'')"
    by (simp add: subscribable_def c_strlen_def cstr_def ascii_def umqtt_pkgs_len_def)
  have q: "msg_queue ?c = \<lparr> ack_packet_id = 5, ack_msg_type = type_code UMQTT_TYPE_UNSUBACK \<rparr> # []"
    by (simp add: waiting_def)
  show ?thesis
    using unsubscribe_first_prefix [OF lab_well_behaved _ ok subs _ _ pre q] by simp
qed

section \<open>Keep-alive\<close>

lemma send_ping_out:
  assumes wb: "well_behaved pf T inp out seen" and inv: "client_inv c" and two: "2 \<le> send_size (mqtt_info c)"
  shows "\<exists>b w'. send_ping pf c = Some (c\<lparr>send_buf := b, net := w'\<rparr>)
    \<and> out w' = out (net c) @ [0xC0, 0] \<and> inp w' = inp (net c) \<and> seen w' = seen (net c)"
proof -
  obtain b where b: "blit (send_buf c) 0 [0xC0, 0] = Some b"
    using inv two by (fastforce simp: blit_def client_inv_def)
  have h: "set_hdr_type (type_code UMQTT_TYPE_PINGREQ) 0 = 0xC0" by (simp add: set_hdr_type_def)
  have e: "encode_msg UMQTT_TYPE_PINGREQ 2 None c = Some (2, c\<lparr>send_buf := b\<rparr>)"
    using b h
    by (simp add: encode_msg_def umqtt_encode_def umqtt_pingreq_encode_def MQTTSerialize_zero_blit)
  have "2 \<le> length (send_buf (c\<lparr>send_buf := b\<rparr>))" "take 2 (send_buf (c\<lparr>send_buf := b\<rparr>)) = [0xC0, 0]"
    using b length_blit [OF b] blit_prefix [OF b] by (auto simp: blit_Some_iff)
  with send_msg_out [OF well_behaved_out [OF wb] this(1)] obtain r w' where
    "send_msg pf 2 (c\<lparr>send_buf := b\<rparr>) = Some (r, c\<lparr>send_buf := b, net := w'\<rparr>)"
    "out w' = out (net c) @ [0xC0, 0]" "inp w' = inp (net c)" "seen w' = seen (net c)" by auto
  then show ?thesis using e by (auto simp: send_ping_def)
qed

text \<open>A user handler that does nothing the observers see.\<close>

definition quiet_handler :: "'w platform \<Rightarrow> ('w \<Rightarrow> bytes) \<Rightarrow> bool" where
  "quiet_handler pf out \<longleftrightarrow> (\<forall>k e w. out (p_user_handler pf k e w) = out w)"

lemma call_user_handler_out:
  "quiet_handler pf out \<Longrightarrow> \<exists>w. call_user_handler pf e c = c\<lparr>net := w\<rparr> \<and> out w = out (net c)"
proof (cases "user_handler c")
  case None
  then show ?thesis by (intro exI [of _ "net c"]) (simp add: call_user_handler_def)
next
  case (Some k)
  assume "quiet_handler pf out"
  with Some show ?thesis
    by (intro exI [of _ "p_user_handler pf k e (net c)"]) (simp add: call_user_handler_def quiet_handler_def)
qed

text \<open>
  The keep-alive decision of a connected client, for any reading the clock may give. When the
  next uplink time has passed and no uplink was sent since it was set, one PINGREQ goes out and the
  connection is kept. When the last PINGREQ has not been answered within the send timeout and this
  was the last try allowed, the client is marked as unlinked and nothing is sent. (The other reason
  for a ping compares half the keep-alive time, in seconds, with ticks; it is excluded here.)
\<close>

theorem keepalive_decision:
  assumes wb: "well_behaved pf T inp out seen" and inv: "client_inv c" and two: "2 \<le> send_size (mqtt_info c)"
    and handler: "quiet_handler pf out" and linked: "connect_state c = UMQTT_CS_LINKED"
  shows "((\<forall>t\<in>T. uplink_next_tick c \<le> t) \<and> uplink_next_tick c > uplink_last_tick c
      \<longrightarrow> (\<exists>c'. umqtt_keepalive_callback pf c = Some (0, c') \<and> out (net c') = out (net c) @ [0xC0, 0]
          \<and> connect_state c' = UMQTT_CS_LINKED \<and> keepalive_count c' = keepalive_count c))
    \<and> (uplink_last_tick c \<ge> uplink_next_tick c
      \<and> (\<forall>t\<in>T. \<not> pingreq_last_tick c + drop_bit 1 PKG_UMQTT_CONNECT_KEEPALIVE_DEF_TIME < t)
      \<and> (\<forall>t\<in>T. uplink_last_tick c + send_timeout (mqtt_info c) * 1000 < t)
      \<and> keepalive_max_num (mqtt_info c) \<le> keepalive_count c + 1
      \<longrightarrow> (\<exists>c'. umqtt_keepalive_callback pf c = Some (0, c') \<and> out (net c') = out (net c)
          \<and> connect_state c' = UMQTT_CS_UNLINK))"
proof -
  obtain t1 c1 where t1: "rt_tick_get pf c = (t1, c1)" by fastforce
  from tickD [OF well_behaved_line [OF wb] t1] obtain w1 where T1: "t1 \<in> T" and c1: "c1 = c\<lparr>net := w1\<rparr>"
    and w1: "out w1 = out (net c)" by auto
  obtain t2 c2 where t2: "rt_tick_get pf c1 = (t2, c2)" by fastforce
  from tickD [OF well_behaved_line [OF wb] t2] obtain w2 where T2: "t2 \<in> T" and c2: "c2 = c\<lparr>net := w2\<rparr>"
    and w2: "out w2 = out (net c)" using w1 by (auto simp: c1)
  obtain t3 c3 where t3: "rt_tick_get pf c2 = (t3, c3)" by fastforce
  from tickD [OF well_behaved_line [OF wb] t3] obtain w3 where T3: "t3 \<in> T" and c3: "c3 = c\<lparr>net := w3\<rparr>"
    and w3: "out w3 = out (net c)" using w2 by (auto simp: c2)
  have ping: "(\<forall>t\<in>T. uplink_next_tick c \<le> t) \<and> uplink_next_tick c > uplink_last_tick c
      \<longrightarrow> (\<exists>c'. umqtt_keepalive_callback pf c = Some (0, c') \<and> out (net c') = out (net c) @ [0xC0, 0]
          \<and> connect_state c' = UMQTT_CS_LINKED \<and> keepalive_count c' = keepalive_count c)"
  proof
    assume due: "(\<forall>t\<in>T. uplink_next_tick c \<le> t) \<and> uplink_next_tick c > uplink_last_tick c"
    have "client_inv c1" "2 \<le> send_size (mqtt_info c1)" using inv two by (simp_all add: c1)
    from send_ping_out [OF wb this] obtain b w4 where
      p: "send_ping pf c1 = Some (c1\<lparr>send_buf := b, net := w4\<rparr>)" and w4: "out w4 = out (net c) @ [0xC0, 0]"
      using w1 by (auto simp: c1)
    define c4 where "c4 = c1\<lparr>send_buf := b, net := w4\<rparr>"
    from call_user_handler_out [OF handler] obtain w5 where
      h: "call_user_handler pf UMQTT_EVT_HEARTBEAT c4 = c4\<lparr>net := w5\<rparr>" and w5: "out w5 = out (net c4)" by blast
    from set_last_tick_obs [OF well_behaved_line [OF wb], of "c4\<lparr>net := w5\<rparr>"] obtain t w6 where
      l: "set_uplink_recon_tick pf UPLINK_LAST_TICK (c4\<lparr>net := w5\<rparr>) = c4\<lparr>net := w5, uplink_last_tick := t, net := w6\<rparr>"
      and w6: "out w6 = out w5" by auto
    define c6 where "c6 = c4\<lparr>net := w5, uplink_last_tick := t, net := w6\<rparr>"
    obtain t7 c7 where t7: "rt_tick_get pf c6 = (t7, c7)" by fastforce
    from tickD [OF well_behaved_line [OF wb] t7] obtain w7 where c7: "c7 = c6\<lparr>net := w7\<rparr>" and w7: "out w7 = out (net c6)" by auto
    have "uplink_next_tick c \<le> t1 \<and> uplink_next_tick c > uplink_last_tick c" using due T1 by blast
    then have "umqtt_keepalive_callback pf c = Some (0, c7\<lparr>pingreq_last_tick := t7\<rparr>)"
      using linked t1 p h l t7 unfolding c4_def [symmetric] c6_def [symmetric]
      by (simp add: umqtt_keepalive_callback_def c1 Let_def)
    then show "\<exists>c'. umqtt_keepalive_callback pf c = Some (0, c') \<and> out (net c') = out (net c) @ [0xC0, 0]
        \<and> connect_state c' = UMQTT_CS_LINKED \<and> keepalive_count c' = keepalive_count c"
      using w4 w5 w6 w7 linked by (simp add: c7 c6_def c4_def c1)
  qed
  have unlink: "uplink_last_tick c \<ge> uplink_next_tick c
      \<and> (\<forall>t\<in>T. \<not> pingreq_last_tick c + drop_bit 1 PKG_UMQTT_CONNECT_KEEPALIVE_DEF_TIME < t)
      \<and> (\<forall>t\<in>T. uplink_last_tick c + send_timeout (mqtt_info c) * 1000 < t)
      \<and> keepalive_max_num (mqtt_info c) \<le> keepalive_count c + 1
      \<longrightarrow> (\<exists>c'. umqtt_keepalive_callback pf c = Some (0, c') \<and> out (net c') = out (net c)
          \<and> connect_state c' = UMQTT_CS_UNLINK)"
  proof
    assume a: "uplink_last_tick c \<ge> uplink_next_tick c
      \<and> (\<forall>t\<in>T. \<not> pingreq_last_tick c + drop_bit 1 PKG_UMQTT_CONNECT_KEEPALIVE_DEF_TIME < t)
      \<and> (\<forall>t\<in>T. uplink_last_tick c + send_timeout (mqtt_info c) * 1000 < t)
      \<and> keepalive_max_num (mqtt_info c) \<le> keepalive_count c + 1"
    then have "\<not> uplink_last_tick c < uplink_next_tick c" by (simp add: not_less)
    with a have "umqtt_keepalive_callback pf c = Some (0, set_connect_status UMQTT_CS_UNLINK
        (c3\<lparr>keepalive_count := keepalive_count c + 1\<rparr>))"
      using linked t1 t2 t3 T2 T3 by (simp add: umqtt_keepalive_callback_def Let_def c1 c2 c3)
    then show "\<exists>c'. umqtt_keepalive_callback pf c = Some (0, c') \<and> out (net c') = out (net c)
        \<and> connect_state c' = UMQTT_CS_UNLINK"
      using w3 by (simp add: set_connect_status_def c3)
  qed
  from ping unlink show ?thesis by blast
qed

definition late_lab :: "lab platform" where
  "late_lab = lab_platform\<lparr>p_tick := \<lambda>w. (90000, w)\<rparr>"

lemma late_lab_contracts:
  "well_behaved late_lab {90000} lab_inp lab_out lab_seen" "quiet_handler late_lab lab_out"
  using lab_well_behaved
  by (simp_all add: well_behaved_def recv_contract_def clock_contract_def out_contract_def
      callback_contract_def late_lab_def quiet_handler_def lab_platform_def)

definition linked :: "u32 \<Rightarrow> u32 \<Rightarrow> lab umqtt_client" where
  "linked last_tick next_tick = (lab_client [])\<lparr>connect_state := UMQTT_CS_LINKED, keepalive_count := 4,
     pingreq_last_tick := 80000, uplink_next_tick := next_tick, uplink_last_tick := last_tick\<rparr>"

theorem keepalive_decision_witness:
  "(\<exists>c'. umqtt_keepalive_callback late_lab (linked 70000 80000) = Some (0, c')
      \<and> lab_out (net c') = [] @ [0xC0, 0] \<and> connect_state c' = UMQTT_CS_LINKED \<and> keepalive_count c' = 4)
   \<and> (\<exists>c'. umqtt_keepalive_callback late_lab (linked 80000 70000) = Some (0, c') \<and> lab_out (net c') = []
      \<and> connect_state c' = UMQTT_CS_UNLINK)"
proof -
  have l: "client_inv (linked a b)" "2 \<le> send_size (mqtt_info (linked a b))"
    "connect_state (linked a b) = UMQTT_CS_LINKED" for a b
    by (simp_all add: linked_def)
  have i: "send_timeout (umqtt_check_def_info sample_info) = 4"
    "keepalive_max_num (umqtt_check_def_info sample_info) = 5"
    by (simp_all add: umqtt_check_def_info_def sample_info_def)
  show ?thesis
    using keepalive_decision [OF late_lab_contracts(1) l(1,2) late_lab_contracts(2) l(3), of 70000 80000]
      keepalive_decision [OF late_lab_contracts(1) l(1,2) late_lab_contracts(2) l(3), of 80000 70000]
    by (simp add: linked_def i)
qed

section \<open>How often a QoS 1 message is sent\<close>

text \<open>
  While the publisher waits nothing happens, \<open>left\<close> times; in the wait after these the receive thread gets its
  turn. \<open>others\<close> is what the wait leaves alone.
\<close>

definition turn_after_waits ::
    "'w platform \<Rightarrow> ('w \<Rightarrow> nat) \<Rightarrow> ('w \<Rightarrow> bytes) \<Rightarrow> ('w \<Rightarrow> bytes) \<Rightarrow> ('w \<Rightarrow> 's) \<Rightarrow> bool" where
  "turn_after_waits pf left inp out others \<longleftrightarrow> (\<forall>n w. \<exists>w'.
     p_while_blocked pf n w = (if left w = 0 then [Reader_Turn] else [], w') \<and> left w' = left w - 1
     \<and> inp w' = inp w \<and> out w' = out w \<and> others w' = others w)"

text \<open>What the receive thread needs to take a PUBACK.\<close>

definition puback_ahead :: "u32 set \<Rightarrow> ('w \<Rightarrow> bytes) \<Rightarrow> 'w umqtt_client \<Rightarrow> bool" where
  "puback_ahead T inp c \<longleftrightarrow> task_handle c \<and> in_time T (recv_time_ms (mqtt_info c)) \<and> 4 \<le> recv_size (mqtt_info c)
     \<and> take 2 (inp (net c)) = [0x40, 2] \<and> 4 \<le> length (inp (net c))"

lemma puback_turn:
  assumes lc: "line_contract pf T inp out others" and inv: "client_inv c" and q: "msg_queue c = []" and a: "puback_ahead T inp c"
  shows "\<exists>k c'. umqtt_thread_turn pf c = Some (True, c') \<and> msg_queue c' = [\<lparr> ack_packet_id = k, ack_msg_type = type_code UMQTT_TYPE_PUBACK \<rparr>]
    \<and> out (net c') = out (net c) \<and> others (net c') = others (net c)"
proof -
  have two: "take 2 (inp (net c)) = [0x40, 2]" "4 \<le> length (inp (net c))" using a by (simp_all add: puback_ahead_def)
  obtain b0 b1 b2 b3 rest where i4: "inp (net c) = b0 # b1 # b2 # b3 # rest"
    using two(2) by (auto simp: Suc_le_length_iff eval_nat_numeral)
  define k :: u16 where "k = word_of_nat (256 * unat b2 + unat b3)"
  have "256 * unat b2 + unat b3 < 65536" using unat_u8_less [of b2] unat_u8_less [of b3] by simp
  then have "unat k = 256 * unat b2 + unat b3" by (simp only: k_def unat_of_nat_u16)
  then have "be16 (unat k) = [b2, b3]" using unat_u8_less [of b3] by (simp add: be16_def)
  then have i: "inp (net c) = packet 0x40 (be16 (unat k)) @ rest"
    using two(1) i4 by (simp add: packet_def rl_bytes.simps)
  let ?p = "packet 0x40 (be16 (unat k))"
  have fit: "length ?p \<le> recv_size (mqtt_info c)" and T: "in_time T (recv_time_ms (mqtt_info c))"
    using a by (simp_all add: packet_def rl_bytes.simps puback_ahead_def)
  from handle_readpacket_stream [OF lc T i _ inv fit] obtain w1 where
    ru: "read_upto inp out others ?p (net c) w1"
    and hr: "let buf = ?p @ drop (length ?p) (recv_buf c); c1 = c\<lparr>recv_buf := buf, net := w1\<rparr>
     in umqtt_handle_readpacket pf c = do {
          (ret, m) \<leftarrow> umqtt_decode buf (length ?p) (Some zero_msg);
          if ret < 0 then Some (UMQTT_DECODE_ERROR, c1)
          else do { decoded \<leftarrow> m; handle_packet pf ret decoded c1 } }" by auto
  define c1 where "c1 = c\<lparr>recv_buf := ?p @ drop (length ?p) (recv_buf c), net := w1\<rparr>"
  have h40: "hdr_type 0x40 = type_code UMQTT_TYPE_PUBACK" by (simp add: hdr_type_def)
  from umqtt_decode_ack [OF disjI1 [OF refl] h40, of k "drop (length ?p) (recv_buf c)" "length ?p" zero_msg] obtain ret where
    dec: "umqtt_decode (recv_buf c1) (length ?p) (Some zero_msg) = Some (ret, Some (zero_msg\<lparr>m_header := 0x40, u_head := k\<rparr>))" "0 < ret"
    by (auto simp: c1_def)
  let ?a = "\<lparr> ack_packet_id = k, ack_msg_type = type_code UMQTT_TYPE_PUBACK \<rparr>"
  define c2 where "c2 = c1\<lparr>msg_queue := [?a]\<rparr>"
  have sent: "ack_mq_send ?a c1 = (True, c2)" using q by (simp add: ack_mq_send_def c1_def c2_def)
  from set_next_tick_obs [OF lc, of c2] obtain t w2 where
    nt: "set_uplink_recon_tick pf UPLINK_NEXT_TICK c2 = c2\<lparr>uplink_next_tick := t, net := w2\<rparr>"
    and w2: "out w2 = out (net c2)" "others w2 = others (net c2)" by blast
  have uh: "u_head (zero_msg\<lparr>m_header := 0x40, u_head := k\<rparr>) = k" by simp
  have "forward_ack pf UMQTT_TYPE_PUBACK False True (zero_msg\<lparr>m_header := 0x40, u_head := k\<rparr>) c1 = (0, c2\<lparr>uplink_next_tick := t, net := w2\<rparr>)"
    by (simp only: forward_ack_def Let_def uh sent nt prod.case bool.case if_True if_False)
  moreover have "handle_packet pf ret m c = Some (forward_ack pf UMQTT_TYPE_PUBACK False True m c)"
    if "hdr_type (m_header m) = type_code UMQTT_TYPE_PUBACK" for ret m c
    by (simp only: handle_packet_def that type_of_code_code option.case umqtt_type.case)
  ultimately have "umqtt_handle_readpacket pf c = Some (0, c2\<lparr>uplink_next_tick := t, net := w2\<rparr>)"
    using hr dec h40 by (simp add: c1_def Let_def)
  then show ?thesis using ru w2 by (simp add: umqtt_thread_turn_def c1_def c2_def read_upto_def)
qed

text \<open>
  The message goes out once for each wait without an answer and once before the one that brings it, up to the
  number of tries.
\<close>

lemma republish_count:
  assumes lc: "line_contract pf T inp out (\<lambda>w. (left w, others w))" and wt: "turn_after_waits pf left inp out others"
  shows "send_len c \<le> length (send_buf c) \<Longrightarrow> msg_queue c = [] \<Longrightarrow> client_inv c \<Longrightarrow>
    left (net c) < n \<longrightarrow> puback_ahead T inp c \<Longrightarrow>
    \<exists>r c'. republish pf n UMQTT_TYPE_PUBACK t c = Some (r, c') \<and> others (net c') = others (net c)
      \<and> out (net c') = out (net c) @ concat (replicate (min n (left (net c) + 1)) (take (send_len c) (send_buf c)))"
proof (induction n arbitrary: c)
  case (Suc n)
  have "out_contract pf inp out (\<lambda>w. (left w, others w))" using lc by (simp add: line_contract_def)
  from send_msg_out [OF this Suc.prems(1)] obtain r w1 where
    s: "send_msg pf (send_len c) c = Some (r, c\<lparr>net := w1\<rparr>)" "0 \<le> r"
      "out w1 = out (net c) @ take (send_len c) (send_buf c)" "inp w1 = inp (net c)" "left w1 = left (net c)" "others w1 = others (net c)"
    by auto
  from wt obtain w2 where p: "p_while_blocked pf (unat t) w1 = (if left w1 = 0 then [Reader_Turn] else [], w2)"
    and w2: "left w2 = left w1 - 1" "inp w2 = inp w1" "out w2 = out w1" "others w2 = others w1"
    unfolding turn_after_waits_def by blast
  show ?case
  proof (cases "left w1 = 0")
    case True
    have ahead: "puback_ahead T inp (c\<lparr>net := w2\<rparr>)" and th: "task_handle c"
      using Suc.prems(4) True s w2 by (simp_all add: puback_ahead_def)
    have "client_inv (c\<lparr>net := w2\<rparr>)" "msg_queue (c\<lparr>net := w2\<rparr>) = []" using Suc.prems by (simp_all add: client_inv_def)
    from puback_turn [OF lc this ahead] obtain k c' where
      u: "umqtt_thread_turn pf (c\<lparr>net := w2\<rparr>) = Some (True, c')"
        "msg_queue c' = [\<lparr> ack_packet_id = k, ack_msg_type = type_code UMQTT_TYPE_PUBACK \<rparr>]"
      and c': "out (net c') = out w2" "others (net c') = others w2" by auto
    have "ack_mq_recv pf t (c\<lparr>net := w1\<rparr>)
        = Some (Some \<lparr> ack_packet_id = k, ack_msg_type = type_code UMQTT_TYPE_PUBACK \<rparr>, c'\<lparr>msg_queue := []\<rparr>)"
      by (rule turn_wakes [of pf t _ w2 True c']) (use p True Suc.prems(2) th u in simp_all)
    with s c' w2 True show ?thesis by simp
  next
    case False
    have "ack_mq_recv pf t (c\<lparr>net := w1\<rparr>) = Some (None, c\<lparr>net := w2\<rparr>)"
      using p False Suc.prems(2) by (simp add: ack_mq_recv_def blocked_recv.simps)
    moreover from Suc.IH [of "c\<lparr>net := w2\<rparr>"] Suc.prems False s w2 obtain r' c' where
      "republish pf n UMQTT_TYPE_PUBACK t (c\<lparr>net := w2\<rparr>) = Some (r', c')" "others (net c') = others w2"
      "out (net c') = out w2 @ concat (replicate (min n (left w2 + 1)) (take (send_len c) (send_buf c)))"
      by (auto simp: puback_ahead_def client_inv_def)
    moreover have "min (Suc n) (left (net c) + 1) = Suc (min n (left w2 + 1))" using False s(5) w2(1) by simp
    ultimately show ?thesis using s w2 by simp
  qed
qed simp

text \<open>With an acknowledgement in the queue already, whatever it is, the message goes out once.\<close>

lemma republish_queued:
  assumes wb: "out_contract pf inp out others" and "send_len c \<le> length (send_buf c)" and "msg_queue c = a # q"
  shows "\<exists>r c'. republish pf (Suc n) ack t c = Some (r, c') \<and> others (net c') = others (net c)
    \<and> out (net c') = out (net c) @ take (send_len c) (send_buf c)"
proof -
  from send_msg_out [OF wb assms(2)] obtain r w1 where
    s: "send_msg pf (send_len c) c = Some (r, c\<lparr>net := w1\<rparr>)" "0 \<le> r"
      "out w1 = out (net c) @ take (send_len c) (send_buf c)" "others w1 = others (net c)" by blast
  have "ack_mq_recv pf t (c\<lparr>net := w1\<rparr>) = Some (Some a, (c\<lparr>net := w1\<rparr>)\<lparr>msg_queue := q\<rparr>)"
    by (rule ack_waiting) (simp add: assms)
  with s show ?thesis by simp
qed

definition copies :: "('w \<Rightarrow> nat) \<Rightarrow> 'w umqtt_client \<Rightarrow> nat" where
  "copies left c = (if msg_queue c \<noteq> [] then 1 else min 3 (left (net c) + 1))"

lemma republish_copies:
  assumes "line_contract pf T inp out (\<lambda>w. (left w, others w))" and "turn_after_waits pf left inp out others"
    and "send_len c \<le> length (send_buf c)" and "client_inv c"
    and "msg_queue c = [] \<and> left (net c) < 3 \<longrightarrow> puback_ahead T inp c"
  shows "\<exists>r c'. republish pf 3 UMQTT_TYPE_PUBACK t c = Some (r, c') \<and> others (net c') = others (net c)
      \<and> out (net c') = out (net c) @ concat (replicate (copies left c) (take (send_len c) (send_buf c)))"
proof (cases "msg_queue c")
  case Nil
  with republish_count [OF assms(1-3) Nil assms(4), of 3 t] assms(5) show ?thesis by (simp add: copies_def)
next
  case (Cons a q)
  have "out_contract pf inp out (\<lambda>w. (left w, others w))" using assms(1) by (simp add: line_contract_def)
  from republish_queued [OF this assms(3) Cons, of 2 UMQTT_TYPE_PUBACK t] obtain r c' where
    "republish pf 3 UMQTT_TYPE_PUBACK t c = Some (r, c')" "others (net c') = others (net c)"
    "out (net c') = out (net c) @ take (send_len c) (send_buf c)"
    by (auto simp: numeral_3_eq_3 simp del: republish.simps)
  with Cons show ?thesis by (simp add: copies_def)
qed

end
