(* ===== verification/Jsmn.thy ===== *)
theory Jsmn
  imports Prelude
begin

text \<open>
  The JSON tokenizer \<open>jsmn.c\<close>, as it is built here: non-strict and without parent links. The text
  is a byte array of which the first \<open>len\<close> bytes count, the token array is an option (\<open>NULL\<close> only
  counts). Loads and stores are bounds-checked; return codes are the source's.
\<close>

section \<open>Data\<close>

datatype jsmntype_t = JSMN_UNDEFINED | JSMN_OBJECT | JSMN_ARRAY | JSMN_STRING | JSMN_PRIMITIVE

abbreviation (input) JSMN_ERROR_NOMEM :: int where "JSMN_ERROR_NOMEM \<equiv> - 1"
abbreviation (input) JSMN_ERROR_INVAL :: int where "JSMN_ERROR_INVAL \<equiv> - 2"
abbreviation (input) JSMN_ERROR_PART :: int where "JSMN_ERROR_PART \<equiv> - 3"

record jsmntok_t =
  tok_type :: jsmntype_t
  tok_start :: int
  tok_end :: int
  tok_size :: int

record jsmn_parser =
  pos :: nat
  toknext :: nat
  toksuper :: int

type_synonym jsmn_state = "jsmn_parser \<times> jsmntok_t list option"

definition jsmn_init :: jsmn_parser where
  "jsmn_init = \<lparr> pos = 0, toknext = 0, toksuper = - 1 \<rparr>"

section \<open>Tokens\<close>

text \<open>\<open>NULL\<close> is \<open>Some None\<close>; otherwise the index of the token comes back.\<close>

definition jsmn_alloc_token ::
    "jsmn_parser \<Rightarrow> jsmntok_t list \<Rightarrow> nat \<Rightarrow> (nat \<times> jsmn_parser \<times> jsmntok_t list) option option" where
  "jsmn_alloc_token parser tokens num_tokens =
     (if toknext parser \<ge> num_tokens then Some None
      else do {
        tok \<leftarrow> rd tokens (toknext parser);
        Some (Some (toknext parser, parser\<lparr>toknext := toknext parser + 1\<rparr>,
          tokens[toknext parser := tok\<lparr>tok_start := - 1, tok_end := - 1, tok_size := 0\<rparr>])) })"

definition jsmn_fill_token :: "jsmntok_t \<Rightarrow> jsmntype_t \<Rightarrow> int \<Rightarrow> int \<Rightarrow> jsmntok_t" where
  "jsmn_fill_token token type start end =
     token\<lparr>tok_type := type, tok_start := start, tok_end := end, tok_size := 0\<rparr>"

text \<open>Allocate and fill, or put the position back to \<open>start\<close> and report NOMEM.\<close>

definition add_token ::
    "jsmn_parser \<Rightarrow> jsmntok_t list \<Rightarrow> nat \<Rightarrow> jsmntype_t \<Rightarrow> int \<Rightarrow> int \<Rightarrow> nat
     \<Rightarrow> (int \<times> jsmn_state) option" where
  "add_token parser tokens num_tokens type start end back = do {
     r \<leftarrow> jsmn_alloc_token parser tokens num_tokens;
     (case r of
        None \<Rightarrow> Some (JSMN_ERROR_NOMEM, parser\<lparr>pos := back\<rparr>, Some tokens)
      | Some (i, parser, tokens) \<Rightarrow> do {
          tok \<leftarrow> rd tokens i;
          Some (0, parser, Some (tokens[i := jsmn_fill_token tok type start end])) }) }"

section \<open>Primitives and strings\<close>

definition primitive_end :: "u8 \<Rightarrow> bool" where
  "primitive_end c \<longleftrightarrow> c \<in> {0x3A, 9, 13, 10, 32, 0x2C, 0x5D, 0x7D}"

text \<open>\<open>None\<close> inside is an invalid character; a \<open>char\<close> above 127 is one whether it is signed or not.\<close>

function primitive_scan :: "bytes \<Rightarrow> nat \<Rightarrow> nat \<Rightarrow> nat option option" where
  "primitive_scan js len p =
     (if p < len
      then Option.bind (rd js p) (\<lambda>c.
        if c = 0 \<or> primitive_end c then Some (Some p)
        else if c < 32 \<or> c \<ge> 127 then Some None
        else primitive_scan js len (p + 1))
      else Some (Some p))"
  by pat_completeness auto
termination by (relation "measure (\<lambda>(js, len, p). len - p)") auto

declare primitive_scan.simps [simp del]

definition jsmn_parse_primitive ::
    "jsmn_parser \<Rightarrow> bytes \<Rightarrow> nat \<Rightarrow> jsmntok_t list option \<Rightarrow> nat \<Rightarrow> (int \<times> jsmn_state) option" where
  "jsmn_parse_primitive parser js len tokens num_tokens = do {
     let start = pos parser;
     r \<leftarrow> primitive_scan js len start;
     (case r of
        None \<Rightarrow> Some (JSMN_ERROR_INVAL, parser\<lparr>pos := start\<rparr>, tokens)
      | Some p \<Rightarrow>
          (case tokens of
             None \<Rightarrow> Some (0, parser\<lparr>pos := p - 1\<rparr>, None)
           | Some ts \<Rightarrow> do {
               (r, parser, ts) \<leftarrow> add_token (parser\<lparr>pos := p\<rparr>) ts num_tokens JSMN_PRIMITIVE
                                   (int start) (int p) start;
               Some (r, if r < 0 then parser else parser\<lparr>pos := pos parser - 1\<rparr>, ts) })) }"

definition hex_digit :: "u8 \<Rightarrow> bool" where
  "hex_digit c \<longleftrightarrow> 48 \<le> c \<and> c \<le> 57 \<or> 65 \<le> c \<and> c \<le> 70 \<or> 97 \<le> c \<and> c \<le> 102"

text \<open>At most \<open>n\<close> hexadecimal digits; \<open>None\<close> inside is another character.\<close>

fun hex_scan :: "bytes \<Rightarrow> nat \<Rightarrow> nat \<Rightarrow> nat \<Rightarrow> nat option option" where
  "hex_scan js len 0 p = Some (Some p)"
| "hex_scan js len (Suc n) p =
     (if p < len
      then Option.bind (rd js p) (\<lambda>c.
        if c = 0 then Some (Some p)
        else if \<not> hex_digit c then Some None
        else hex_scan js len n (p + 1))
      else Some (Some p))"

lemma hex_scan_mono: "hex_scan js len n p = Some (Some q) \<Longrightarrow> p \<le> q"
  by (induction n arbitrary: p) (fastforce split: if_splits simp: bind_eq_Some_conv)+

datatype string_end = Quote nat | Bad int

definition simple_escape :: "u8 \<Rightarrow> bool" where
  "simple_escape c \<longleftrightarrow> c \<in> {0x22, 0x2F, 0x5C, 0x62, 0x66, 0x72, 0x6E, 0x74}"

function string_scan :: "bytes \<Rightarrow> nat \<Rightarrow> nat \<Rightarrow> string_end option" where
  "string_scan js len p =
     (if p < len
      then (case rd js p of None \<Rightarrow> None
       | Some c \<Rightarrow>
          if c = 0 then Some (Bad JSMN_ERROR_PART)
          else if c = 0x22 then Some (Quote p)
          else if c = 0x5C \<and> p + 1 < len
          then (case rd js (p + 1) of None \<Rightarrow> None
           | Some d \<Rightarrow>
              if simple_escape d then string_scan js len (p + 2)
              else if d = 0x75
              then (case hex_scan js len 4 (p + 2) of
                 None \<Rightarrow> None
               | Some None \<Rightarrow> Some (Bad JSMN_ERROR_INVAL)
               | Some (Some q) \<Rightarrow> string_scan js len q)
              else Some (Bad JSMN_ERROR_INVAL))
          else string_scan js len (p + 1))
      else Some (Bad JSMN_ERROR_PART))"
  by pat_completeness auto
termination
  by (relation "measure (\<lambda>(js, len, p). len - p)") (auto dest!: hex_scan_mono)

declare string_scan.simps [simp del]

definition jsmn_parse_string ::
    "jsmn_parser \<Rightarrow> bytes \<Rightarrow> nat \<Rightarrow> jsmntok_t list option \<Rightarrow> nat \<Rightarrow> (int \<times> jsmn_state) option" where
  "jsmn_parse_string parser js len tokens num_tokens = do {
     let start = pos parser;
     r \<leftarrow> string_scan js len (start + 1);
     (case r of
        Bad e \<Rightarrow> Some (e, parser\<lparr>pos := start\<rparr>, tokens)
      | Quote p \<Rightarrow>
          (case tokens of
             None \<Rightarrow> Some (0, parser\<lparr>pos := p\<rparr>, None)
           | Some ts \<Rightarrow> add_token (parser\<lparr>pos := p\<rparr>) ts num_tokens JSMN_STRING
                          (int start + 1) (int p) start)) }"

section \<open>The parser\<close>

definition tok_open :: "jsmntok_t \<Rightarrow> bool" where
  "tok_open t \<longleftrightarrow> tok_start t \<noteq> - 1 \<and> tok_end t = - 1"

definition tok_container :: "jsmntok_t \<Rightarrow> bool" where
  "tok_container t \<longleftrightarrow> tok_type t = JSMN_ARRAY \<or> tok_type t = JSMN_OBJECT"

text \<open>The loops \<open>for (i = toknext - 1; i >= 0; i--)\<close>: the last token below \<open>n\<close> with a property.\<close>

fun last_token :: "(jsmntok_t \<Rightarrow> bool) \<Rightarrow> jsmntok_t list \<Rightarrow> nat \<Rightarrow> nat option option" where
  "last_token q ts 0 = Some None"
| "last_token q ts (Suc i) = do {
     t \<leftarrow> rd ts i;
     if q t then Some (Some i) else last_token q ts i }"

text \<open>\<open>if (toksuper != -1) tokens[toksuper].size++\<close>\<close>

definition grow_super :: "jsmn_parser \<Rightarrow> jsmntok_t list \<Rightarrow> jsmntok_t list option" where
  "grow_super parser ts =
     (if toksuper parser \<noteq> - 1
      then do {
        t \<leftarrow> rd ts (nat (toksuper parser));
        Some (ts[nat (toksuper parser) := t\<lparr>tok_size := tok_size t + 1\<rparr>]) }
      else Some ts)"

text \<open>
  The cases of the \<open>switch\<close>. The first component is the value the parser returns, if the case
  returns.
\<close>

type_synonym jsmn_result = "int option \<times> jsmn_state"

definition open_container ::
    "jsmn_parser \<Rightarrow> jsmntok_t list \<Rightarrow> nat \<Rightarrow> u8 \<Rightarrow> jsmn_result option" where
  "open_container parser ts num_tokens c = do {
     r \<leftarrow> jsmn_alloc_token parser ts num_tokens;
     (case r of
        None \<Rightarrow> Some (Some JSMN_ERROR_NOMEM, parser, Some ts)
      | Some (i, parser, ts) \<Rightarrow> do {
          ts \<leftarrow> grow_super parser ts;
          tok \<leftarrow> rd ts i;
          Some (None, parser\<lparr>toksuper := int (toknext parser) - 1\<rparr>,
            Some (ts[i := tok\<lparr>tok_type := (if c = 0x7B then JSMN_OBJECT else JSMN_ARRAY),
                             tok_start := int (pos parser)\<rparr>])) }) }"

definition close_container :: "jsmn_parser \<Rightarrow> jsmntok_t list \<Rightarrow> u8 \<Rightarrow> jsmn_result option" where
  "close_container parser ts c = do {
     let type = (if c = 0x7D then JSMN_OBJECT else JSMN_ARRAY);
     r \<leftarrow> last_token tok_open ts (toknext parser);
     (case r of
        None \<Rightarrow> Some (Some JSMN_ERROR_INVAL, parser, Some ts)
      | Some i \<Rightarrow> do {
          tok \<leftarrow> rd ts i;
          if tok_type tok \<noteq> type then Some (Some JSMN_ERROR_INVAL, parser, Some ts)
          else do {
            let ts = ts[i := tok\<lparr>tok_end := int (pos parser) + 1\<rparr>];
            j \<leftarrow> last_token tok_open ts (i + 1);
            Some (None, parser\<lparr>toksuper := (case j of None \<Rightarrow> - 1 | Some j \<Rightarrow> int j)\<rparr>, Some ts) } }) }"

definition on_comma :: "jsmn_parser \<Rightarrow> jsmntok_t list \<Rightarrow> jsmn_result option" where
  "on_comma parser ts =
     (if toksuper parser = - 1 then Some (None, parser, Some ts)
      else do {
        t \<leftarrow> rd ts (nat (toksuper parser));
        if tok_container t then Some (None, parser, Some ts)
        else do {
          j \<leftarrow> last_token (\<lambda>t. tok_container t \<and> tok_open t) ts (toknext parser);
          Some (None, (case j of None \<Rightarrow> parser | Some j \<Rightarrow> parser\<lparr>toksuper := int j\<rparr>), Some ts) } })"

text \<open>A string or a primitive: parse it, count it, let the superior token grow.\<close>

definition after_value ::
    "(int \<times> jsmn_state) option \<Rightarrow> int \<Rightarrow> (jsmn_result \<times> int) option" where
  "after_value parsed count = do {
     (r, parser, tokens) \<leftarrow> parsed;
     if r < 0 then Some ((Some r, parser, tokens), count)
     else (case tokens of
         None \<Rightarrow> Some ((None, parser, None), count + 1)
       | Some ts \<Rightarrow> do { ts \<leftarrow> grow_super parser ts; Some ((None, parser, Some ts), count + 1) }) }"

definition jsmn_switch ::
    "bytes \<Rightarrow> nat \<Rightarrow> nat \<Rightarrow> u8 \<Rightarrow> jsmn_parser \<Rightarrow> jsmntok_t list option \<Rightarrow> int
     \<Rightarrow> (jsmn_result \<times> int) option" where
  "jsmn_switch js len num_tokens c parser tokens count =
     (if c = 0x7B \<or> c = 0x5B
      then (case tokens of
          None \<Rightarrow> Some ((None, parser, None), count + 1)
        | Some ts \<Rightarrow> do { r \<leftarrow> open_container parser ts num_tokens c; Some (r, count + 1) })
      else if c = 0x7D \<or> c = 0x5D
      then (case tokens of
          None \<Rightarrow> Some ((None, parser, None), count)
        | Some ts \<Rightarrow> do { r \<leftarrow> close_container parser ts c; Some (r, count) })
      else if c = 0x22 then after_value (jsmn_parse_string parser js len tokens num_tokens) count
      else if c \<in> {9, 13, 10, 32} then Some ((None, parser, tokens), count)
      else if c = 0x3A then Some ((None, parser\<lparr>toksuper := int (toknext parser) - 1\<rparr>, tokens), count)
      else if c = 0x2C
      then (case tokens of
          None \<Rightarrow> Some ((None, parser, None), count)
        | Some ts \<Rightarrow> do { r \<leftarrow> on_comma parser ts; Some (r, count) })
      else after_value (jsmn_parse_primitive parser js len tokens num_tokens) count)"

text \<open>The position never moves back, so the loop ends.\<close>

lemma primitive_scan_mono: "primitive_scan js len p = Some (Some q) \<Longrightarrow> p \<le> q"
proof (induction js len p rule: primitive_scan.induct)
  case (1 js len p)
  then show ?case
    by (subst (asm) (2) primitive_scan.simps) (fastforce split: if_splits simp: bind_eq_Some_conv)
qed

lemma primitive_scan_step:
  assumes "primitive_scan js len p = Some (Some q)" and "p < len" and "rd js p = Some c"
    and "c \<noteq> 0" and "\<not> primitive_end c"
  shows "p < q"
proof -
  have "primitive_scan js len (p + 1) = Some (Some q)"
    using assms by (subst (asm) primitive_scan.simps) (simp split: if_splits)
  then show ?thesis by (auto dest: primitive_scan_mono)
qed

lemma string_scan_mono: "string_scan js len p = Some (Quote q) \<Longrightarrow> p \<le> q"
proof (induction js len p rule: string_scan.induct)
  case (1 js len p)
  note step = "1.prems" [unfolded string_scan.simps [of js len p]]
  show ?case
  proof (cases "p < len")
    case True
    with step obtain c where c: "rd js p = Some c" by (auto split: option.splits)
    show ?thesis
      using step True c "1.IH"(1) [OF True c] "1.IH"(2) [OF True c] "1.IH"(3) [OF True c]
      by (auto split: if_splits option.splits dest!: hex_scan_mono) (fastforce dest: hex_scan_mono)+
  qed (use step in simp)
qed

text \<open>What \<open>add_token\<close>, the string and the primitive parser come to.\<close>

lemma add_token_eq:
  "add_token parser ts num type s e back =
     (if num \<le> toknext parser then Some (JSMN_ERROR_NOMEM, parser\<lparr>pos := back\<rparr>, Some ts)
      else if toknext parser < length ts
      then Some (0, parser\<lparr>toknext := toknext parser + 1\<rparr>, Some (ts[toknext parser :=
        \<lparr> tok_type = type, tok_start = s, tok_end = e, tok_size = 0 \<rparr>]))
      else None)"
  by (cases "ts ! toknext parser") (simp add: add_token_def jsmn_alloc_token_def rd_def jsmn_fill_token_def)

lemma add_token_pos:
  "add_token parser ts num type s e back = Some (r, parser', tokens') \<Longrightarrow>
     pos parser' = (if r < 0 then back else pos parser)"
  by (auto simp: add_token_eq split: if_splits)

lemma jsmn_parse_string_cases:
  assumes "jsmn_parse_string parser js len tokens num = Some (r, parser', tokens')"
  obtains (bad) "string_scan js len (pos parser + 1) = Some (Bad r)" "parser' = parser" "tokens' = tokens"
  | (count) p where "string_scan js len (pos parser + 1) = Some (Quote p)" "tokens = None" "tokens' = None"
      "r = 0" "parser' = parser\<lparr>pos := p\<rparr>"
  | (token) p ts where "string_scan js len (pos parser + 1) = Some (Quote p)" "tokens = Some ts"
      "add_token (parser\<lparr>pos := p\<rparr>) ts num JSMN_STRING (int (pos parser) + 1) (int p) (pos parser)
         = Some (r, parser', tokens')"
proof -
  from assms obtain e where e: "string_scan js len (pos parser + 1) = Some e"
    by (cases "string_scan js len (pos parser + 1)") (simp_all add: jsmn_parse_string_def)
  note run = assms [unfolded jsmn_parse_string_def Let_def e bind.bind_lunit]
  show ?thesis
  proof (cases e)
    case (Bad k)
    with run e show ?thesis by (intro bad) simp_all
  next
    case (Quote p)
    with run e show ?thesis by (cases tokens) (auto intro: count token)
  qed
qed

lemma jsmn_parse_primitive_cases:
  assumes "jsmn_parse_primitive parser js len tokens num = Some (r, parser', tokens')"
  obtains (bad) "primitive_scan js len (pos parser) = Some None" "r = JSMN_ERROR_INVAL" "parser' = parser"
      "tokens' = tokens"
  | (count) p where "primitive_scan js len (pos parser) = Some (Some p)" "tokens = None" "tokens' = None"
      "r = 0" "parser' = parser\<lparr>pos := p - 1\<rparr>"
  | (token) p ts q where "primitive_scan js len (pos parser) = Some (Some p)" "tokens = Some ts"
      "add_token (parser\<lparr>pos := p\<rparr>) ts num JSMN_PRIMITIVE (int (pos parser)) (int p) (pos parser)
         = Some (r, q, tokens')" "parser' = (if r < 0 then q else q\<lparr>pos := pos q - 1\<rparr>)"
proof -
  from assms obtain e where e: "primitive_scan js len (pos parser) = Some e"
    by (cases "primitive_scan js len (pos parser)") (simp_all add: jsmn_parse_primitive_def)
  note run = assms [unfolded jsmn_parse_primitive_def Let_def e bind.bind_lunit]
  show ?thesis
  proof (cases e)
    case None
    with run e show ?thesis by (intro bad) simp_all
  next
    case (Some p)
    show ?thesis
    proof (cases tokens)
      case None
      with run e Some show ?thesis by (intro count) (simp_all del: One_nat_def, auto)
    next
      case (Some ts)
      with run e \<open>e = Some p\<close> show ?thesis
        by (auto simp: bind_eq_Some_conv intro: token)
    qed
  qed
qed

lemma jsmn_parse_string_mono:
  "jsmn_parse_string parser js len tokens num = Some (r, parser', tokens') \<Longrightarrow> pos parser \<le> pos parser'"
  by (erule jsmn_parse_string_cases) (auto dest!: string_scan_mono add_token_pos)

lemma jsmn_parse_primitive_mono:
  assumes "jsmn_parse_primitive parser js len tokens num = Some (r, parser', tokens')"
    and "pos parser < len" and "rd js (pos parser) = Some c" and "c \<noteq> 0" and "\<not> primitive_end c"
  shows "pos parser \<le> pos parser'"
  using assms by (auto elim!: jsmn_parse_primitive_cases dest!: primitive_scan_step add_token_pos)

lemma after_value_eq:
  "after_value (Some (r, parser, tokens)) count =
     (if r < 0 then Some ((Some r, parser, tokens), count)
      else (case tokens of
          None \<Rightarrow> Some ((None, parser, None), count + 1)
        | Some ts \<Rightarrow> Option.bind (grow_super parser ts) (\<lambda>ts. Some ((None, parser, Some ts), count + 1))))"
  by (simp add: after_value_def)

lemma after_value_None:
  assumes "after_value parsed count = Some ((None, parser', tokens'), count')"
  shows "\<exists>r tokens. parsed = Some (r, parser', tokens) \<and> 0 \<le> r"
proof -
  from assms obtain r parser tokens where p: "parsed = Some (r, parser, tokens)"
    by (cases parsed) (auto simp: after_value_def)
  show ?thesis
    using assms unfolding p after_value_eq
    by (cases "r < 0"; cases tokens) (auto simp: bind_eq_Some_conv)
qed

lemma open_container_pos:
  "open_container parser ts num c = Some (e, parser', tokens') \<Longrightarrow> pos parser' = pos parser"
  by (auto simp: open_container_def jsmn_alloc_token_def bind_eq_Some_conv split: option.splits if_splits)

lemma close_container_pos:
  "close_container parser ts c = Some (e, parser', tokens') \<Longrightarrow> pos parser' = pos parser"
  by (auto simp: close_container_def Let_def split: option.splits if_splits Option.bind_splits)

lemma on_comma_pos: "on_comma parser ts = Some (e, parser', tokens') \<Longrightarrow> pos parser' = pos parser"
  by (auto simp: on_comma_def split: option.splits if_splits Option.bind_splits)

text \<open>What the \<open>switch\<close> does for each kind of character.\<close>

lemma jsmn_switch_open:
  "c = 0x7B \<or> c = 0x5B \<Longrightarrow> jsmn_switch js len num c parser tokens count =
     (case tokens of None \<Rightarrow> Some ((None, parser, None), count + 1)
      | Some ts \<Rightarrow> Option.bind (open_container parser ts num c) (\<lambda>r. Some (r, count + 1)))"
  unfolding jsmn_switch_def by simp

lemma jsmn_switch_close:
  "c = 0x7D \<or> c = 0x5D \<Longrightarrow> jsmn_switch js len num c parser tokens count =
     (case tokens of None \<Rightarrow> Some ((None, parser, None), count)
      | Some ts \<Rightarrow> Option.bind (close_container parser ts c) (\<lambda>r. Some (r, count)))"
  unfolding jsmn_switch_def by (elim disjE) simp_all

lemma jsmn_switch_quote:
  "jsmn_switch js len num 0x22 parser tokens count =
     after_value (jsmn_parse_string parser js len tokens num) count"
  unfolding jsmn_switch_def by simp

lemma jsmn_switch_space:
  "c \<in> {9, 13, 10, 32} \<Longrightarrow>
     jsmn_switch js len num c parser tokens count = Some ((None, parser, tokens), count)"
  unfolding jsmn_switch_def by auto

lemma jsmn_switch_colon:
  "jsmn_switch js len num 0x3A parser tokens count =
     Some ((None, parser\<lparr>toksuper := int (toknext parser) - 1\<rparr>, tokens), count)"
  unfolding jsmn_switch_def by simp

lemma jsmn_switch_comma:
  "jsmn_switch js len num 0x2C parser tokens count =
     (case tokens of None \<Rightarrow> Some ((None, parser, None), count)
      | Some ts \<Rightarrow> Option.bind (on_comma parser ts) (\<lambda>r. Some (r, count)))"
  unfolding jsmn_switch_def by simp

lemma jsmn_switch_primitive:
  "c \<noteq> 0x7B \<and> c \<noteq> 0x5B \<and> c \<noteq> 0x22 \<and> \<not> primitive_end c \<Longrightarrow> jsmn_switch js len num c parser tokens count =
     after_value (jsmn_parse_primitive parser js len tokens num) count"
  unfolding jsmn_switch_def primitive_end_def by auto

lemma char_kinds:
  obtains "c = 0x7B \<or> c = 0x5B" | "c = 0x7D \<or> c = 0x5D" | "c = 0x22" | "c \<in> {9, 13, 10, 32}"
    | "c = 0x3A" | "c = 0x2C" | "c \<noteq> 0x7B \<and> c \<noteq> 0x5B \<and> c \<noteq> 0x22 \<and> \<not> primitive_end c"
  unfolding primitive_end_def by blast

lemmas jsmn_switch_simps = jsmn_switch_open jsmn_switch_close jsmn_switch_quote jsmn_switch_space
  jsmn_switch_colon jsmn_switch_comma jsmn_switch_primitive

lemma jsmn_switch_mono:
  assumes run: "jsmn_switch js len num c parser tokens count = Some ((None, parser', tokens'), count')"
    and p: "pos parser < len" "rd js (pos parser) = Some c" "c \<noteq> 0"
  shows "pos parser \<le> pos parser'"
proof (cases c rule: char_kinds)
  case 1
  show ?thesis
    using run unfolding jsmn_switch_open [OF 1]
    by (cases tokens) (auto simp: bind_eq_Some_conv dest!: open_container_pos)
next
  case 2
  show ?thesis
    using run unfolding jsmn_switch_close [OF 2]
    by (cases tokens) (auto simp: bind_eq_Some_conv dest!: close_container_pos)
next
  case 3
  show ?thesis
    using run unfolding 3 jsmn_switch_quote
    by (auto dest!: after_value_None jsmn_parse_string_mono)
next
  case 4
  show ?thesis using run unfolding jsmn_switch_space [OF 4] by simp
next
  case 5
  show ?thesis using run unfolding 5 jsmn_switch_colon by auto
next
  case 6
  show ?thesis
    using run unfolding 6 jsmn_switch_comma
    by (cases tokens) (auto simp: bind_eq_Some_conv dest!: on_comma_pos)
next
  case 7
  with run p show ?thesis
    unfolding jsmn_switch_primitive [OF 7]
    by (auto dest!: after_value_None jsmn_parse_primitive_mono)
qed

function jsmn_loop ::
    "bytes \<Rightarrow> nat \<Rightarrow> nat \<Rightarrow> jsmn_parser \<Rightarrow> jsmntok_t list option \<Rightarrow> int \<Rightarrow> (jsmn_result \<times> int) option" where
  "jsmn_loop js len num_tokens parser tokens count =
     (if pos parser < len
      then (case rd js (pos parser) of None \<Rightarrow> None
       | Some c \<Rightarrow>
          if c = 0 then Some ((None, parser, tokens), count)
          else (case jsmn_switch js len num_tokens c parser tokens count of None \<Rightarrow> None
           | Some ((None, parser, tokens), count) \<Rightarrow>
               jsmn_loop js len num_tokens (parser\<lparr>pos := pos parser + 1\<rparr>) tokens count
           | Some ((Some e, parser, tokens), count) \<Rightarrow> Some ((Some e, parser, tokens), count)))
      else Some ((None, parser, tokens), count))"
  by pat_completeness auto
termination
  by (relation "measure (\<lambda>(js, len, num, parser, tokens, count). len - pos parser)")
     (auto dest!: jsmn_switch_mono)

declare jsmn_loop.simps [simp del]

definition jsmn_parse ::
    "jsmn_parser \<Rightarrow> bytes \<Rightarrow> nat \<Rightarrow> jsmntok_t list option \<Rightarrow> nat \<Rightarrow> (int \<times> jsmn_state) option" where
  "jsmn_parse parser js len tokens num_tokens = do {
     ((e, parser, tokens), count) \<leftarrow> jsmn_loop js len num_tokens parser tokens (int (toknext parser));
     (case e of
        Some r \<Rightarrow> Some (r, parser, tokens)
      | None \<Rightarrow>
          (case tokens of
             None \<Rightarrow> Some (count, parser, None)
           | Some ts \<Rightarrow> do {
               j \<leftarrow> last_token tok_open ts (toknext parser);
               Some (if j \<noteq> None then JSMN_ERROR_PART else count, parser, Some ts) })) }"

end
