(* ===== verification/Msg_Queue.thy ===== *)
theory Msg_Queue
  imports Prelude
begin

text \<open>
  The message queue of the kernel (\<open>rt-thread/src/ipc.c\<close>): a pool of nodes, each on the chain of
  messages, on the chain of free nodes, or in the hands of the thread that copies into or out of it.
  Interrupts are disabled only in short sections, so every operation is split into them here: a
  definition per section and per unprotected piece between two sections, composed as the code
  composes them. A pointer to a node is its index in the pool; \<open>RT_NULL\<close> is \<open>None\<close>.
\<close>

section \<open>Data\<close>

abbreviation (input) RT_EOK :: int where "RT_EOK \<equiv> 0"
abbreviation (input) RT_ERROR :: int where "RT_ERROR \<equiv> 1"
abbreviation (input) RT_ETIMEOUT :: int where "RT_ETIMEOUT \<equiv> 2"
abbreviation (input) RT_EFULL :: int where "RT_EFULL \<equiv> 3"
abbreviation (input) RT_MQ_ENTRY_MAX :: u16 where "RT_MQ_ENTRY_MAX \<equiv> 0xFFFF"
abbreviation (input) RT_ALIGN_SIZE :: nat where "RT_ALIGN_SIZE \<equiv> 8"

text \<open>A node: the header \<open>struct rt_mq_message\<close> and the bytes behind it.\<close>

record rt_mq_message =
  node_next :: "nat option"
  node_length :: nat
  node_bytes :: bytes

type_synonym thread_id = nat

record rt_messagequeue =
  suspend_thread :: "thread_id list"
  msg_pool :: "rt_mq_message list"
  msg_size :: u16
  max_msgs :: u16
  entry :: u16
  msg_queue_head :: "nat option"
  msg_queue_tail :: "nat option"
  msg_queue_free :: "nat option"
  suspend_sender_thread :: "thread_id list"

definition RT_ALIGN :: "nat \<Rightarrow> nat \<Rightarrow> nat" where
  "RT_ALIGN n align = (n + align - 1) div align * align"

section \<open>Creation\<close>

text \<open>The loop pushes the nodes on the free list, so the last one comes first.\<close>

fun link_free :: "nat \<Rightarrow> nat \<Rightarrow> rt_messagequeue \<Rightarrow> rt_messagequeue option" where
  "link_free temp 0 mq = Some mq"
| "link_free temp (Suc n) mq = do {
     node \<leftarrow> rd (msg_pool mq) temp;
     link_free (temp + 1) n (mq\<lparr>msg_pool := (msg_pool mq)[temp := node\<lparr>node_next := msg_queue_free mq\<rparr>],
                               msg_queue_free := Some temp\<rparr>) }"

text \<open>
  \<open>heap\<close> is the pool the kernel's allocator returned (of any contents), \<open>None\<close> when there is no
  memory; a message size and count above 16 bits are cut off by the assignments.
\<close>

definition rt_mq_create ::
    "nat \<Rightarrow> nat \<Rightarrow> (nat \<Rightarrow> nat \<Rightarrow> rt_mq_message list option) \<Rightarrow> rt_messagequeue option option" where
  "rt_mq_create sz msgs heap =
     (let n = unat (word_of_nat msgs :: u16) in
      case heap (RT_ALIGN sz RT_ALIGN_SIZE) n of
        None \<Rightarrow> Some None
      | Some pool \<Rightarrow> do {
          mq \<leftarrow> link_free 0 n
            \<lparr> suspend_thread = [], msg_pool = pool, msg_size = word_of_nat sz, max_msgs = word_of_nat msgs,
              entry = 0, msg_queue_head = None, msg_queue_tail = None, msg_queue_free = None,
              suspend_sender_thread = [] \<rparr>;
          Some (Some mq) })"

section \<open>Sending\<close>

text \<open>The first section: take a node off the free list, if there is one.\<close>

definition mq_take_free :: "rt_messagequeue \<Rightarrow> (nat option \<times> rt_messagequeue) option" where
  "mq_take_free mq = (case msg_queue_free mq of
     None \<Rightarrow> Some (None, mq)
   | Some msg \<Rightarrow> do {
       node \<leftarrow> rd (msg_pool mq) msg;
       Some (Some msg, mq\<lparr>msg_queue_free := node_next node\<rparr>) })"

text \<open>With interrupts enabled: fill the node (\<open>rt_mq_urgent\<close> leaves its link alone).\<close>

definition mq_fill :: "bool \<Rightarrow> nat \<Rightarrow> bytes \<Rightarrow> rt_messagequeue \<Rightarrow> rt_messagequeue option" where
  "mq_fill urgent msg buffer mq = do {
     node \<leftarrow> rd (msg_pool mq) msg;
     b \<leftarrow> blit (node_bytes node) 0 buffer;
     Some (mq\<lparr>msg_pool := (msg_pool mq)[msg :=
       \<lparr> node_next = (if urgent then node_next node else None), node_length = length buffer, node_bytes = b \<rparr>]\<rparr>) }"

text \<open>The end of the second section: count the message, let a waiting receiver run.\<close>

definition ipc_list_resume :: "thread_id list \<Rightarrow> thread_id list" where
  "ipc_list_resume ts = (case ts of [] \<Rightarrow> [] | t # ts \<Rightarrow> ts)"

definition mq_count :: "rt_messagequeue \<Rightarrow> int \<times> rt_messagequeue" where
  "mq_count mq =
     (if entry mq < RT_MQ_ENTRY_MAX
      then (RT_EOK, mq\<lparr>entry := entry mq + 1, suspend_thread := ipc_list_resume (suspend_thread mq)\<rparr>)
      else (- RT_EFULL, mq))"

definition mq_link :: "nat \<Rightarrow> rt_messagequeue \<Rightarrow> (int \<times> rt_messagequeue) option" where
  "mq_link msg mq = do {
     pool \<leftarrow> (case msg_queue_tail mq of
        None \<Rightarrow> Some (msg_pool mq)
      | Some t \<Rightarrow> do {
          node \<leftarrow> rd (msg_pool mq) t;
          Some ((msg_pool mq)[t := node\<lparr>node_next := Some msg\<rparr>]) });
     let mq = mq\<lparr>msg_pool := pool, msg_queue_tail := Some msg,
                msg_queue_head := (if msg_queue_head mq = None then Some msg else msg_queue_head mq)\<rparr>;
     Some (mq_count mq) }"

definition mq_link_head :: "nat \<Rightarrow> rt_messagequeue \<Rightarrow> (int \<times> rt_messagequeue) option" where
  "mq_link_head msg mq = do {
     node \<leftarrow> rd (msg_pool mq) msg;
     let mq = mq\<lparr>msg_pool := (msg_pool mq)[msg := node\<lparr>node_next := msg_queue_head mq\<rparr>],
                msg_queue_head := Some msg,
                msg_queue_tail := (if msg_queue_tail mq = None then Some msg else msg_queue_tail mq)\<rparr>;
     Some (mq_count mq) }"

text \<open>
  What a thread finds when it runs again after waiting: its error code, the queue as the others left
  it, and the ticks that passed. A wait that is not in the list does not end (\<open>None\<close>).
\<close>

type_synonym wakeup = "int \<times> rt_messagequeue \<times> u32"

definition less_time :: "int \<Rightarrow> u32 \<Rightarrow> int" where
  "less_time timeout passed =
     (if timeout > 0
      then (let t = sint (word_of_int (timeout - uint passed) :: u32) in if t < 0 then 0 else t)
      else timeout)"

text \<open>\<open>Inr msg\<close> is a node, \<open>Inl e\<close> the code the call returns.\<close>

fun mq_wait_free ::
    "thread_id \<Rightarrow> wakeup list \<Rightarrow> int \<Rightarrow> rt_messagequeue \<Rightarrow> ((int + nat) \<times> wakeup list \<times> rt_messagequeue) option"
where
  "mq_wait_free self ws timeout mq = do {
     (msg, mq) \<leftarrow> mq_take_free mq;
     (case msg of
        Some msg \<Rightarrow> Some (Inr msg, ws, mq)
      | None \<Rightarrow>
          if timeout = 0 then Some (Inl (- RT_EFULL), ws, mq)
          else (case ws of
              [] \<Rightarrow> None
            | (e, mq, passed) # ws \<Rightarrow>
                if e \<noteq> RT_EOK then Some (Inl e, ws, mq)
                else mq_wait_free self ws (less_time timeout passed) mq)) }"

definition rt_mq_send_wait ::
    "thread_id \<Rightarrow> wakeup list \<Rightarrow> bytes \<Rightarrow> int \<Rightarrow> rt_messagequeue \<Rightarrow> (int \<times> rt_messagequeue) option" where
  "rt_mq_send_wait self ws buffer timeout mq =
     (if length buffer = 0 then None
      else if length buffer > unat (msg_size mq) then Some (- RT_ERROR, mq)
      else do {
        (msg, ws, mq) \<leftarrow> mq_wait_free self ws timeout mq;
        (case msg of
           Inl e \<Rightarrow> Some (e, mq)
         | Inr msg \<Rightarrow> do { mq \<leftarrow> mq_fill False msg buffer mq; mq_link msg mq }) })"

definition rt_mq_send :: "bytes \<Rightarrow> rt_messagequeue \<Rightarrow> (int \<times> rt_messagequeue) option" where
  "rt_mq_send buffer mq = rt_mq_send_wait 0 [] buffer 0 mq"

definition rt_mq_urgent :: "bytes \<Rightarrow> rt_messagequeue \<Rightarrow> (int \<times> rt_messagequeue) option" where
  "rt_mq_urgent buffer mq =
     (if length buffer = 0 then None
      else if length buffer > unat (msg_size mq) then Some (- RT_ERROR, mq)
      else do {
        (msg, mq) \<leftarrow> mq_take_free mq;
        (case msg of
           None \<Rightarrow> Some (- RT_EFULL, mq)
         | Some msg \<Rightarrow> do { mq \<leftarrow> mq_fill True msg buffer mq; mq_link_head msg mq }) })"

section \<open>Receiving\<close>

definition mq_take_head :: "rt_messagequeue \<Rightarrow> (nat \<times> rt_messagequeue) option" where
  "mq_take_head mq = (case msg_queue_head mq of
     None \<Rightarrow> None
   | Some msg \<Rightarrow> do {
       node \<leftarrow> rd (msg_pool mq) msg;
       Some (msg, mq\<lparr>msg_queue_head := node_next node,
         msg_queue_tail := (if msg_queue_tail mq = Some msg then None else msg_queue_tail mq),
         entry := (if entry mq > 0 then entry mq - 1 else entry mq)\<rparr>) })"

text \<open>With interrupts enabled: copy the message, cut to the size of the caller's buffer.\<close>

definition mq_read :: "nat \<Rightarrow> nat \<Rightarrow> rt_messagequeue \<Rightarrow> bytes option" where
  "mq_read msg sz mq = do {
     node \<leftarrow> rd (msg_pool mq) msg;
     rd_block (node_bytes node) 0 (if node_length node > sz then sz else node_length node) }"

definition mq_put_free :: "nat \<Rightarrow> rt_messagequeue \<Rightarrow> rt_messagequeue option" where
  "mq_put_free msg mq = do {
     node \<leftarrow> rd (msg_pool mq) msg;
     Some (mq\<lparr>msg_pool := (msg_pool mq)[msg := node\<lparr>node_next := msg_queue_free mq\<rparr>],
             msg_queue_free := Some msg,
             suspend_sender_thread := ipc_list_resume (suspend_sender_thread mq)\<rparr>) }"

fun mq_wait_entry ::
    "thread_id \<Rightarrow> wakeup list \<Rightarrow> int \<Rightarrow> rt_messagequeue \<Rightarrow> (int option \<times> wakeup list \<times> rt_messagequeue) option"
where
  "mq_wait_entry self ws timeout mq =
     (if entry mq \<noteq> 0 then Some (None, ws, mq)
      else if timeout = 0 then Some (Some (- RT_ETIMEOUT), ws, mq)
      else (case ws of
          [] \<Rightarrow> None
        | (e, mq, passed) # ws \<Rightarrow>
            if e \<noteq> RT_EOK then Some (Some e, ws, mq)
            else mq_wait_entry self ws (less_time timeout passed) mq))"

text \<open>The result is the length of the message or a negative code, and the bytes stored in the buffer.\<close>

definition rt_mq_recv ::
    "thread_id \<Rightarrow> wakeup list \<Rightarrow> nat \<Rightarrow> int \<Rightarrow> rt_messagequeue \<Rightarrow> (int \<times> bytes \<times> rt_messagequeue) option" where
  "rt_mq_recv self ws sz timeout mq =
     (if sz = 0 then None
      else do {
        (e, ws, mq) \<leftarrow> mq_wait_entry self ws timeout mq;
        (case e of
           Some e \<Rightarrow> Some (e, [], mq)
         | None \<Rightarrow> do {
             (msg, mq) \<leftarrow> mq_take_head mq;
             b \<leftarrow> mq_read msg sz mq;
             mq \<leftarrow> mq_put_free msg mq;
             Some (int (length b), b, mq) }) })"

section \<open>Reset\<close>

text \<open>\<open>n\<close> bounds the turns of the loop; the chain of messages has no more nodes than the pool.\<close>

fun mq_release :: "nat \<Rightarrow> rt_messagequeue \<Rightarrow> rt_messagequeue option" where
  "mq_release n mq = (case msg_queue_head mq of
     None \<Rightarrow> Some mq
   | Some msg \<Rightarrow> (case n of
       0 \<Rightarrow> None
     | Suc n \<Rightarrow> do {
         node \<leftarrow> rd (msg_pool mq) msg;
         mq_release n (mq\<lparr>msg_queue_head := node_next node,
           msg_queue_tail := (if msg_queue_tail mq = Some msg then None else msg_queue_tail mq),
           msg_pool := (msg_pool mq)[msg := node\<lparr>node_next := msg_queue_free mq\<rparr>],
           msg_queue_free := Some msg\<rparr>) }))"

declare mq_release.simps [simp del] mq_wait_entry.simps [simp del] mq_wait_free.simps [simp del]

definition mq_reset :: "rt_messagequeue \<Rightarrow> rt_messagequeue option" where
  "mq_reset mq = do {
     mq \<leftarrow> mq_release (length (msg_pool mq)) (mq\<lparr>suspend_thread := [], suspend_sender_thread := []\<rparr>);
     Some (mq\<lparr>entry := 0\<rparr>) }"

abbreviation (input) RT_IPC_CMD_RESET :: int where "RT_IPC_CMD_RESET \<equiv> 1"

definition rt_mq_control :: "int \<Rightarrow> rt_messagequeue \<Rightarrow> (int \<times> rt_messagequeue) option" where
  "rt_mq_control cmd mq =
     (if cmd = RT_IPC_CMD_RESET then do { mq \<leftarrow> mq_reset mq; Some (RT_EOK, mq) }
      else Some (- RT_ERROR, mq))"

end
