(* ===== verification/Msg_Queue_Fifo.thy ===== *)
theory Msg_Queue_Fifo
  imports Msg_Queue
begin

text \<open>
  The message queue is a bounded FIFO: the invariant of the pool (two chains and the nodes held by
  threads, each node in one place), what every critical section does to it, and the simulation of the
  interleaved sections by a queue of messages.
\<close>

section \<open>Chains of nodes\<close>

fun linked :: "rt_mq_message list \<Rightarrow> nat option \<Rightarrow> nat list \<Rightarrow> bool" where
  "linked pool p [] \<longleftrightarrow> p = None"
| "linked pool p (m # ms) \<longleftrightarrow> p = Some m \<and> m < length pool \<and> linked pool (node_next (pool ! m)) ms"

lemma linked_upd: "i \<notin> set ms \<Longrightarrow> linked (pool[i := n]) p ms \<longleftrightarrow> linked pool p ms"
  by (induction ms arbitrary: p) auto

lemma linked_bound: "linked pool p ms \<Longrightarrow> m \<in> set ms \<Longrightarrow> m < length pool"
  by (induction ms arbitrary: p) auto

lemma linked_snoc:
  assumes "linked pool p ms" and "ms \<noteq> []" and "distinct ms" and "m \<notin> set ms" and "m < length pool"
    and "node_next (pool ! m) = None"
  shows "linked (pool[last ms := (pool ! last ms)\<lparr>node_next := Some m\<rparr>]) p (ms @ [m])"
  using assms
proof (induction ms arbitrary: p)
  case (Cons a ms)
  show ?case
  proof (cases "ms = []")
    case True
    with Cons.prems show ?thesis by auto
  next
    case False
    moreover from False have "last ms \<noteq> a" using Cons.prems(3) last_in_set by fastforce
    ultimately show ?thesis using Cons by auto
  qed
qed simp

lemma linked_Some: "linked pool (Some m) ms \<Longrightarrow> \<exists>ms'. ms = m # ms' \<and> linked pool (node_next (pool ! m)) ms'"
  by (cases ms) auto

lemma linked_None: "linked pool None ms \<Longrightarrow> ms = []"
  by (cases ms) auto

section \<open>The invariant\<close>

text \<open>The message a node carries, and nodes that carry one.\<close>

definition message :: "rt_messagequeue \<Rightarrow> nat \<Rightarrow> bytes" where
  "message mq m = take (node_length (msg_pool mq ! m)) (node_bytes (msg_pool mq ! m))"

definition carries :: "rt_messagequeue \<Rightarrow> nat \<Rightarrow> bool" where
  "carries mq m \<longleftrightarrow> 0 < node_length (msg_pool mq ! m)
     \<and> node_length (msg_pool mq ! m) \<le> length (node_bytes (msg_pool mq ! m))"

text \<open>\<open>qs\<close> is the chain of messages, \<open>fs\<close> the free chain, \<open>H\<close> the nodes in the hands of threads.\<close>

definition mq_inv :: "rt_messagequeue \<Rightarrow> nat list \<Rightarrow> nat list \<Rightarrow> nat set \<Rightarrow> bool" where
  "mq_inv mq qs fs H \<longleftrightarrow>
     linked (msg_pool mq) (msg_queue_head mq) qs \<and> linked (msg_pool mq) (msg_queue_free mq) fs
     \<and> msg_queue_tail mq = (if qs = [] then None else Some (last qs))
     \<and> distinct (qs @ fs) \<and> H \<inter> set (qs @ fs) = {} \<and> set qs \<union> set fs \<union> H = {..<length (msg_pool mq)}
     \<and> length (msg_pool mq) = unat (max_msgs mq) \<and> entry mq = word_of_nat (length qs)
     \<and> (\<forall>i<length (msg_pool mq). unat (msg_size mq) \<le> length (node_bytes (msg_pool mq ! i)))
     \<and> (\<forall>m\<in>set qs. carries mq m)"

lemma mq_inv_bounds:
  assumes "mq_inv mq qs fs H"
  shows "length qs + length fs \<le> unat (max_msgs mq)" and "unat (max_msgs mq) < 65536"
    and "unat (entry mq) = length qs" and "m \<in> H \<Longrightarrow> length qs + length fs < unat (max_msgs mq)"
proof -
  from assms have "H \<subseteq> {..<length (msg_pool mq)}" unfolding mq_inv_def by blast
  then have fin: "finite H" by (rule finite_subset) simp
  have "card (set (qs @ fs) \<union> H) = unat (max_msgs mq)"
    using assms by (simp add: mq_inv_def)
  moreover have "card (set (qs @ fs) \<union> H) = length (qs @ fs) + card H"
    using assms fin distinct_card [of "qs @ fs"] by (subst card_Un_disjoint) (auto simp: mq_inv_def)
  ultimately have n: "length qs + length fs + card H = unat (max_msgs mq)" by simp
  then show "length qs + length fs \<le> unat (max_msgs mq)" by simp
  show lt: "unat (max_msgs mq) < 65536" by (rule unat_u16_less)
  show "unat (entry mq) = length qs" using assms n lt by (simp add: mq_inv_def unat_of_nat_u16)
  show "m \<in> H \<Longrightarrow> length qs + length fs < unat (max_msgs mq)"
    using n fin by (metis card_gt_0_iff add_less_cancel_left add.right_neutral empty_iff)
qed

lemma entry_zero: "mq_inv mq qs fs H \<Longrightarrow> entry mq = 0 \<longleftrightarrow> qs = []"
  using mq_inv_bounds(3) [of mq qs fs H] by (auto simp: unat_eq_0 mq_inv_def)

section \<open>The critical sections keep it\<close>

lemma take_free_empty: "mq_inv mq qs [] H \<Longrightarrow> mq_take_free mq = Some (None, mq)"
  by (simp add: mq_inv_def mq_take_free_def)

lemma take_free:
  assumes "mq_inv mq qs (m # fs) H"
  shows "\<exists>mq'. mq_take_free mq = Some (Some m, mq') \<and> mq_inv mq' qs fs (insert m H)
    \<and> msg_pool mq' = msg_pool mq \<and> msg_size mq' = msg_size mq \<and> max_msgs mq' = max_msgs mq"
  using assms unfolding mq_inv_def
  by (intro exI [of _ "mq\<lparr>msg_queue_free := node_next (msg_pool mq ! m)\<rparr>"])
     (auto simp: mq_take_free_def rd_def carries_def)

lemma fill:
  assumes inv: "mq_inv mq qs fs H" and m: "m \<in> H" and b: "b \<noteq> []" "length b \<le> unat (msg_size mq)"
  shows "\<exists>mq'. mq_fill u m b mq = Some mq' \<and> mq_inv mq' qs fs H \<and> message mq' m = b \<and> carries mq' m
    \<and> (\<not> u \<longrightarrow> node_next (msg_pool mq' ! m) = None) \<and> (\<forall>i. i \<noteq> m \<longrightarrow> msg_pool mq' ! i = msg_pool mq ! i)
    \<and> msg_size mq' = msg_size mq \<and> max_msgs mq' = max_msgs mq"
proof -
  let ?n = "msg_pool mq ! m"
  let ?b = "b @ drop (length b) (node_bytes ?n)"
  let ?pool = "(msg_pool mq)[m := \<lparr> node_next = (if u then node_next ?n else None),
    node_length = length b, node_bytes = ?b \<rparr>]"
  from inv m have i: "m < length (msg_pool mq)" "m \<notin> set qs" "m \<notin> set fs"
    by (auto simp: mq_inv_def)
  with inv b have le: "length b \<le> length (node_bytes ?n)" by (force simp: mq_inv_def)
  then have run: "mq_fill u m b mq = Some (mq\<lparr>msg_pool := ?pool\<rparr>)"
    using i by (simp add: mq_fill_def rd_def blit_def)
  have "mq_inv (mq\<lparr>msg_pool := ?pool\<rparr>) qs fs H"
    using inv i le unfolding mq_inv_def
    by (auto simp: linked_upd nth_list_update carries_def)
  with run i le b show ?thesis by (auto simp: message_def carries_def)
qed

lemma mq_count_eq:
  "unat (entry mq) < 65535 \<Longrightarrow>
     mq_count mq = (RT_EOK, mq\<lparr>entry := entry mq + 1, suspend_thread := ipc_list_resume (suspend_thread mq)\<rparr>)"
  by (simp add: mq_count_def word_less_nat_alt)

lemma link:
  assumes inv: "mq_inv mq qs fs H" and m: "m \<in> H" "carries mq m" "node_next (msg_pool mq ! m) = None"
  shows "\<exists>mq'. mq_link m mq = Some (RT_EOK, mq') \<and> mq_inv mq' (qs @ [m]) fs (H - {m})
    \<and> (\<forall>i. i \<notin> set qs \<longrightarrow> msg_pool mq' ! i = msg_pool mq ! i)
    \<and> message mq' = message mq \<and> msg_size mq' = msg_size mq \<and> max_msgs mq' = max_msgs mq"
proof -
  note bnd = mq_inv_bounds [OF inv]
  from inv m have i: "m < length (msg_pool mq)" "m \<notin> set qs" "m \<notin> set fs"
    by (auto simp: mq_inv_def)
  let ?pool = "if qs = [] then msg_pool mq
    else (msg_pool mq)[last qs := (msg_pool mq ! last qs)\<lparr>node_next := Some m\<rparr>]"
  let ?mq = "mq\<lparr>msg_pool := ?pool, msg_queue_tail := Some m,
    msg_queue_head := (if qs = [] then Some m else msg_queue_head mq), entry := entry mq + 1,
    suspend_thread := ipc_list_resume (suspend_thread mq)\<rparr>"
  have last: "qs \<noteq> [] \<Longrightarrow> last qs \<in> set qs \<and> last qs < length (msg_pool mq)"
    using inv linked_bound last_in_set unfolding mq_inv_def by blast
  have head: "qs = [] \<longleftrightarrow> msg_queue_head mq = None"
    using inv by (cases qs) (auto simp: mq_inv_def)
  have "unat (entry mq) < 65535" using bnd(2,3) bnd(4) [OF m(1)] by linarith
  note count = mq_count_eq [of "mq\<lparr>msg_pool := p, msg_queue_tail := t, msg_queue_head := h\<rparr>" for p t h, simplified, OF this]
  have tail: "msg_queue_tail mq = (if qs = [] then None else Some (last qs))" using inv by (simp add: mq_inv_def)
  have run: "mq_link m mq = Some (RT_EOK, ?mq)"
    using last head by (cases "qs = []") (auto simp: mq_link_def tail rd_def count)
  have links: "linked ?pool (if qs = [] then Some m else msg_queue_head mq) (qs @ [m])"
    using inv i m linked_snoc [of "msg_pool mq" "msg_queue_head mq" qs m]
    by (cases "qs = []") (auto simp: mq_inv_def)
  have free: "linked ?pool (msg_queue_free mq) fs"
  proof (cases "qs = []")
    case False
    have "set qs \<inter> set fs = {}" using inv by (simp add: mq_inv_def)
    with last False have "last qs \<notin> set fs" by blast
    with inv False show ?thesis by (simp add: mq_inv_def linked_upd)
  qed (use inv in \<open>simp add: mq_inv_def\<close>)
  have car: "carries ?mq = carries mq"
    using last by (cases "qs = []") (auto simp: carries_def nth_list_update fun_eq_iff)
  have msg: "message ?mq = message mq"
    using last by (cases "qs = []") (auto simp: message_def nth_list_update fun_eq_iff)
  have "node_bytes (?pool ! k) = node_bytes (msg_pool mq ! k)" for k
    using last by (cases "qs = []") (auto simp: nth_list_update)
  then have "mq_inv ?mq (qs @ [m]) fs (H - {m})"
    using inv i m links free
    unfolding mq_inv_def car
    by (auto simp del: list_update.simps)
  then show ?thesis using run msg last by (auto simp: nth_list_update)
qed

lemma link_head:
  assumes inv: "mq_inv mq qs fs H" and m: "m \<in> H" "carries mq m"
  shows "\<exists>mq'. mq_link_head m mq = Some (RT_EOK, mq') \<and> mq_inv mq' (m # qs) fs (H - {m})
    \<and> (\<forall>i. i \<noteq> m \<longrightarrow> msg_pool mq' ! i = msg_pool mq ! i)
    \<and> message mq' = message mq \<and> msg_size mq' = msg_size mq \<and> max_msgs mq' = max_msgs mq"
proof -
  note bnd = mq_inv_bounds [OF inv]
  from inv m have i: "m < length (msg_pool mq)" "m \<notin> set qs" "m \<notin> set fs"
    by (auto simp: mq_inv_def)
  let ?pool = "(msg_pool mq)[m := (msg_pool mq ! m)\<lparr>node_next := msg_queue_head mq\<rparr>]"
  let ?mq = "mq\<lparr>msg_pool := ?pool, msg_queue_head := Some m,
    msg_queue_tail := (if qs = [] then Some m else msg_queue_tail mq), entry := entry mq + 1,
    suspend_thread := ipc_list_resume (suspend_thread mq)\<rparr>"
  have "unat (entry mq) < 65535" using bnd(2,3) bnd(4) [OF m(1)] by linarith
  note count = mq_count_eq [of "mq\<lparr>msg_pool := p, msg_queue_head := h, msg_queue_tail := t\<rparr>" for p t h, simplified, OF this]
  have tail: "msg_queue_tail mq = (if qs = [] then None else Some (last qs))" using inv by (simp add: mq_inv_def)
  have run: "mq_link_head m mq = Some (RT_EOK, ?mq)"
    using i by (simp add: mq_link_head_def tail rd_def count)
  have car: "carries ?mq = carries mq" and msg: "message ?mq = message mq"
    using i by (auto simp: carries_def message_def nth_list_update fun_eq_iff)
  have "mq_inv ?mq (m # qs) fs (H - {m})"
    using inv i m unfolding mq_inv_def car by (auto simp: nth_list_update linked_upd)
  then show ?thesis using run msg i by (auto simp: nth_list_update)
qed

lemma take_head:
  assumes inv: "mq_inv mq (m # qs) fs H"
  shows "\<exists>mq'. mq_take_head mq = Some (m, mq') \<and> mq_inv mq' qs fs (insert m H)
    \<and> msg_pool mq' = msg_pool mq \<and> msg_size mq' = msg_size mq \<and> max_msgs mq' = max_msgs mq"
proof -
  let ?mq = "mq\<lparr>msg_queue_head := node_next (msg_pool mq ! m),
    msg_queue_tail := (if msg_queue_tail mq = Some m then None else msg_queue_tail mq), entry := entry mq - 1\<rparr>"
  have "entry mq \<noteq> 0" using entry_zero [OF inv] by simp
  then have run: "mq_take_head mq = Some (m, ?mq)"
    using inv by (simp add: mq_take_head_def mq_inv_def rd_def word_neq_0_conv)
  have car: "carries ?mq = carries mq" by (simp add: carries_def fun_eq_iff)
  have "mq_inv ?mq qs fs (insert m H)"
    using inv unfolding mq_inv_def car by (auto split: if_splits)
  with run show ?thesis by auto
qed

lemma read_message:
  assumes "mq_inv mq qs fs H" and "m \<in> H" and "carries mq m"
  shows "mq_read m sz mq = Some (take sz (message mq m))"
proof -
  from assms have "m < length (msg_pool mq)" by (auto simp: mq_inv_def)
  with assms(3) show ?thesis
    by (auto simp: mq_read_def rd_def rd_block_def message_def carries_def min_def)
qed

lemma put_free:
  assumes inv: "mq_inv mq qs fs H" and m: "m \<in> H"
  shows "\<exists>mq'. mq_put_free m mq = Some mq' \<and> mq_inv mq' qs (m # fs) (H - {m})
    \<and> (\<forall>i. i \<noteq> m \<longrightarrow> msg_pool mq' ! i = msg_pool mq ! i)
    \<and> message mq' = message mq \<and> msg_size mq' = msg_size mq \<and> max_msgs mq' = max_msgs mq"
proof -
  from inv m have i: "m < length (msg_pool mq)" "m \<notin> set qs" "m \<notin> set fs"
    by (auto simp: mq_inv_def)
  let ?mq = "mq\<lparr>msg_pool := (msg_pool mq)[m := (msg_pool mq ! m)\<lparr>node_next := msg_queue_free mq\<rparr>],
    msg_queue_free := Some m, suspend_sender_thread := ipc_list_resume (suspend_sender_thread mq)\<rparr>"
  have run: "mq_put_free m mq = Some ?mq" using i by (simp add: mq_put_free_def rd_def)
  have car: "carries ?mq = carries mq" and msg: "message ?mq = message mq"
    using i by (auto simp: carries_def message_def nth_list_update fun_eq_iff)
  have "mq_inv ?mq qs (m # fs) (H - {m})"
    using inv i m unfolding mq_inv_def car by (auto simp: nth_list_update linked_upd)
  then show ?thesis using run msg i by (auto simp: nth_list_update)
qed

text \<open>The reset empties the chain of messages onto the free chain.\<close>

lemma release:
  "linked (msg_pool mq) (msg_queue_head mq) qs \<Longrightarrow> linked (msg_pool mq) (msg_queue_free mq) fs \<Longrightarrow>
   distinct (qs @ fs) \<Longrightarrow> msg_queue_tail mq = (if qs = [] then None else Some (last qs)) \<Longrightarrow> length qs \<le> n \<Longrightarrow>
   \<exists>pool f. mq_release n mq = Some (mq\<lparr>msg_queue_head := None, msg_queue_tail := None, msg_pool := pool, msg_queue_free := f\<rparr>)
     \<and> linked pool f (rev qs @ fs) \<and> length pool = length (msg_pool mq)
     \<and> (\<forall>i. i \<notin> set qs \<longrightarrow> pool ! i = msg_pool mq ! i)
     \<and> (\<forall>i. node_bytes (pool ! i) = node_bytes (msg_pool mq ! i) \<and> node_length (pool ! i) = node_length (msg_pool mq ! i))"
proof (induction qs arbitrary: mq fs n)
  case Nil
  then show ?case by (cases mq) (auto simp: mq_release.simps)
next
  case (Cons m qs)
  from Cons.prems obtain k where n: "n = Suc k" by (cases n) auto
  from Cons.prems have m: "m < length (msg_pool mq)" "m \<notin> set qs" "m \<notin> set fs" by auto
  let ?mq = "mq\<lparr>msg_queue_head := node_next (msg_pool mq ! m),
    msg_queue_tail := (if msg_queue_tail mq = Some m then None else msg_queue_tail mq),
    msg_pool := (msg_pool mq)[m := (msg_pool mq ! m)\<lparr>node_next := msg_queue_free mq\<rparr>], msg_queue_free := Some m\<rparr>"
  have step: "mq_release n mq = mq_release k ?mq"
    using Cons.prems(1) n by (subst mq_release.simps) (auto simp: rd_def)
  have "\<exists>pool f. mq_release k ?mq = Some (?mq\<lparr>msg_queue_head := None, msg_queue_tail := None, msg_pool := pool,
          msg_queue_free := f\<rparr>)
     \<and> linked pool f (rev qs @ m # fs) \<and> length pool = length (msg_pool ?mq)
     \<and> (\<forall>i. i \<notin> set qs \<longrightarrow> pool ! i = msg_pool ?mq ! i)
     \<and> (\<forall>i. node_bytes (pool ! i) = node_bytes (msg_pool ?mq ! i)
         \<and> node_length (pool ! i) = node_length (msg_pool ?mq ! i))"
    by (rule Cons.IH) (use Cons.prems m n last_in_set [of qs] in \<open>auto simp: linked_upd\<close>)
  then obtain pool f where r: "mq_release k ?mq = Some (?mq\<lparr>msg_queue_head := None, msg_queue_tail := None,
      msg_pool := pool, msg_queue_free := f\<rparr>)"
    "linked pool f (rev qs @ m # fs)" "length pool = length (msg_pool ?mq)"
    "\<forall>i. i \<notin> set qs \<longrightarrow> pool ! i = msg_pool ?mq ! i"
    "\<forall>i. node_bytes (pool ! i) = node_bytes (msg_pool ?mq ! i) \<and> node_length (pool ! i) = node_length (msg_pool ?mq ! i)"
    by blast
  show ?case
    by (intro exI [of _ pool] exI [of _ f]) (use r step m in \<open>auto simp: nth_list_update\<close>)
qed

lemma reset:
  assumes inv: "mq_inv mq qs fs H"
  shows "\<exists>mq'. mq_reset mq = Some mq' \<and> mq_inv mq' [] (rev qs @ fs) H
    \<and> (\<forall>i. i \<notin> set qs \<longrightarrow> msg_pool mq' ! i = msg_pool mq ! i) \<and> message mq' = message mq
    \<and> carries mq' = carries mq \<and> msg_size mq' = msg_size mq \<and> max_msgs mq' = max_msgs mq"
proof -
  let ?mq = "mq\<lparr>suspend_thread := [], suspend_sender_thread := []\<rparr>"
  have len: "length qs \<le> length (msg_pool ?mq)"
    using mq_inv_bounds(1) [OF inv] inv by (simp add: mq_inv_def)
  from inv have "linked (msg_pool ?mq) (msg_queue_head ?mq) qs" "linked (msg_pool ?mq) (msg_queue_free ?mq) fs"
    "distinct (qs @ fs)" "msg_queue_tail ?mq = (if qs = [] then None else Some (last qs))"
    by (simp_all add: mq_inv_def)
  from release [OF this len] obtain pool f where r:
    "mq_release (length (msg_pool mq)) ?mq = Some (?mq\<lparr>msg_queue_head := None, msg_queue_tail := None,
        msg_pool := pool, msg_queue_free := f\<rparr>)"
    "linked pool f (rev qs @ fs)" "length pool = length (msg_pool mq)"
    "\<forall>i. i \<notin> set qs \<longrightarrow> pool ! i = msg_pool mq ! i"
    "\<forall>i. node_bytes (pool ! i) = node_bytes (msg_pool mq ! i) \<and> node_length (pool ! i) = node_length (msg_pool mq ! i)"
    by auto
  let ?mq' = "?mq\<lparr>msg_queue_head := None, msg_queue_tail := None, msg_pool := pool, msg_queue_free := f, entry := 0\<rparr>"
  from r have run: "mq_reset mq = Some ?mq'" by (simp add: mq_reset_def)
  have "mq_inv ?mq' [] (rev qs @ fs) H"
    using inv r(2,3,5) by (auto simp: mq_inv_def)
  moreover have "message ?mq' = message mq" "carries ?mq' = carries mq"
    using r(5) by (simp_all add: message_def carries_def fun_eq_iff)
  ultimately show ?thesis using run r(4) by auto
qed

section \<open>Interleaved threads\<close>

text \<open>
  Where a thread stands: between the sections of a call it holds a node; \<open>Done\<close> keeps what the call
  returns until the thread goes on. In the specification a thread holds the message itself.
\<close>

datatype 'n stage =
  Idle
| Slot bool 'n bytes
| Filled bool 'n bytes
| Took nat 'n bytes
| Copied 'n bytes
| Done int bytes

datatype action = Begin_Send bool bytes | Fill | Link | Begin_Recv nat | Copy | Put | Return | Reset

record mq_system =
  queue :: rt_messagequeue
  stages :: "thread_id \<Rightarrow> nat stage"

text \<open>
  One section of one thread's call; an action that does not fit the thread's stage does nothing, and
  a send of nothing or of more than a node takes, or a receive from an empty queue, returns at once.
\<close>

fun mq_step :: "thread_id \<times> action \<Rightarrow> mq_system \<Rightarrow> mq_system option" where
  "mq_step (t, Begin_Send u b) s =
     (if stages s t \<noteq> Idle \<or> b = [] then Some s
      else if length b > unat (msg_size (queue s)) then Some (s\<lparr>stages := (stages s)(t := Done (- RT_ERROR) [])\<rparr>)
      else do {
        (msg, mq) \<leftarrow> mq_take_free (queue s);
        Some (s\<lparr>queue := mq, stages := (stages s)(t :=
          (case msg of None \<Rightarrow> Done (- RT_EFULL) [] | Some m \<Rightarrow> Slot u m b))\<rparr>) })"
| "mq_step (t, Fill) s = (case stages s t of
     Slot u m b \<Rightarrow> do {
       mq \<leftarrow> mq_fill u m b (queue s);
       Some (s\<lparr>queue := mq, stages := (stages s)(t := Filled u m b)\<rparr>) }
   | _ \<Rightarrow> Some s)"
| "mq_step (t, Link) s = (case stages s t of
     Filled u m b \<Rightarrow> do {
       (r, mq) \<leftarrow> (if u then mq_link_head m (queue s) else mq_link m (queue s));
       Some (s\<lparr>queue := mq, stages := (stages s)(t := Done r [])\<rparr>) }
   | _ \<Rightarrow> Some s)"
| "mq_step (t, Begin_Recv sz) s =
     (if stages s t \<noteq> Idle \<or> sz = 0 then Some s
      else if entry (queue s) = 0 then Some (s\<lparr>stages := (stages s)(t := Done (- RT_ETIMEOUT) [])\<rparr>)
      else do {
        (m, mq) \<leftarrow> mq_take_head (queue s);
        Some (s\<lparr>queue := mq, stages := (stages s)(t := Took sz m [])\<rparr>) })"
| "mq_step (t, Copy) s = (case stages s t of
     Took sz m _ \<Rightarrow> do {
       b \<leftarrow> mq_read m sz (queue s);
       Some (s\<lparr>stages := (stages s)(t := Copied m b)\<rparr>) }
   | _ \<Rightarrow> Some s)"
| "mq_step (t, Put) s = (case stages s t of
     Copied m b \<Rightarrow> do {
       mq \<leftarrow> mq_put_free m (queue s);
       Some (s\<lparr>queue := mq, stages := (stages s)(t := Done (int (length b)) b)\<rparr>) }
   | _ \<Rightarrow> Some s)"
| "mq_step (t, Return) s = (case stages s t of
     Done r b \<Rightarrow> Some (s\<lparr>stages := (stages s)(t := Idle)\<rparr>)
   | _ \<Rightarrow> Some s)"
| "mq_step (t, Reset) s =
     (if stages s t \<noteq> Idle then Some s
      else do {
        mq \<leftarrow> mq_reset (queue s);
        Some (s\<lparr>queue := mq, stages := (stages s)(t := Done RT_EOK [])\<rparr>) })"

text \<open>The specification: a queue of messages and a number of free places.\<close>

record fifo_system =
  items :: "bytes list"
  places :: nat
  limit :: nat
  fstages :: "thread_id \<Rightarrow> unit stage"

fun fifo_step :: "thread_id \<times> action \<Rightarrow> fifo_system \<Rightarrow> fifo_system option" where
  "fifo_step (t, Begin_Send u b) s =
     Some (if fstages s t \<noteq> Idle \<or> b = [] then s
      else if length b > limit s then s\<lparr>fstages := (fstages s)(t := Done (- RT_ERROR) [])\<rparr>
      else if places s = 0 then s\<lparr>fstages := (fstages s)(t := Done (- RT_EFULL) [])\<rparr>
      else s\<lparr>places := places s - 1, fstages := (fstages s)(t := Slot u () b)\<rparr>)"
| "fifo_step (t, Fill) s = Some (case fstages s t of
     Slot u _ b \<Rightarrow> s\<lparr>fstages := (fstages s)(t := Filled u () b)\<rparr> | _ \<Rightarrow> s)"
| "fifo_step (t, Link) s = Some (case fstages s t of
     Filled u _ b \<Rightarrow> s\<lparr>items := (if u then b # items s else items s @ [b]),
                       fstages := (fstages s)(t := Done RT_EOK [])\<rparr>
   | _ \<Rightarrow> s)"
| "fifo_step (t, Begin_Recv sz) s =
     Some (if fstages s t \<noteq> Idle \<or> sz = 0 then s
      else if items s = [] then s\<lparr>fstages := (fstages s)(t := Done (- RT_ETIMEOUT) [])\<rparr>
      else s\<lparr>items := tl (items s), fstages := (fstages s)(t := Took sz () (hd (items s)))\<rparr>)"
| "fifo_step (t, Copy) s = Some (case fstages s t of
     Took sz _ b \<Rightarrow> s\<lparr>fstages := (fstages s)(t := Copied () (take sz b))\<rparr> | _ \<Rightarrow> s)"
| "fifo_step (t, Put) s = Some (case fstages s t of
     Copied _ b \<Rightarrow> s\<lparr>places := places s + 1, fstages := (fstages s)(t := Done (int (length b)) b)\<rparr> | _ \<Rightarrow> s)"
| "fifo_step (t, Return) s = Some (case fstages s t of
     Done r b \<Rightarrow> s\<lparr>fstages := (fstages s)(t := Idle)\<rparr> | _ \<Rightarrow> s)"
| "fifo_step (t, Reset) s =
     Some (if fstages s t \<noteq> Idle then s
      else s\<lparr>items := [], places := places s + length (items s), fstages := (fstages s)(t := Done RT_EOK [])\<rparr>)"

section \<open>Simulation\<close>

primrec stage_node :: "'n stage \<Rightarrow> 'n option" where
  "stage_node Idle = None"
| "stage_node (Slot u n b) = Some n"
| "stage_node (Filled u n b) = Some n"
| "stage_node (Took sz n b) = Some n"
| "stage_node (Copied n b) = Some n"
| "stage_node (Done r b) = None"

text \<open>A thread and its specification: the node it holds carries the message.\<close>

fun stage_rel :: "rt_messagequeue \<Rightarrow> nat stage \<Rightarrow> unit stage \<Rightarrow> bool" where
  "stage_rel mq Idle Idle = True"
| "stage_rel mq (Slot u n b) (Slot u' _ b') = (u = u' \<and> b = b' \<and> b \<noteq> [] \<and> length b \<le> unat (msg_size mq))"
| "stage_rel mq (Filled u n b) (Filled u' _ b') =
     (u = u' \<and> message mq n = b' \<and> carries mq n \<and> (\<not> u \<longrightarrow> node_next (msg_pool mq ! n) = None))"
| "stage_rel mq (Took sz n b) (Took sz' _ b') = (sz = sz' \<and> message mq n = b' \<and> carries mq n)"
| "stage_rel mq (Copied n b) (Copied _ b') = (b = b')"
| "stage_rel mq (Done r b) (Done r' b') = (r = r' \<and> b = b')"
| "stage_rel mq _ _ = False"

definition held :: "(thread_id \<Rightarrow> nat stage) \<Rightarrow> nat set" where
  "held f = {m. \<exists>t. stage_node (f t) = Some m}"

definition sim :: "mq_system \<Rightarrow> fifo_system \<Rightarrow> bool" where
  "sim c a \<longleftrightarrow> (\<exists>qs fs. mq_inv (queue c) qs fs (held (stages c))
     \<and> items a = map (message (queue c)) qs \<and> places a = length fs \<and> limit a = unat (msg_size (queue c))
     \<and> (\<forall>t. stage_rel (queue c) (stages c t) (fstages a t))
     \<and> (\<forall>t t' m. stage_node (stages c t) = Some m \<longrightarrow> stage_node (stages c t') = Some m \<longrightarrow> t = t'))"

lemma held_start: "stage_node (f t) = None \<Longrightarrow> stage_node st = Some m \<Longrightarrow> held (f(t := st)) = insert m (held f)"
  by (auto simp: held_def) (metis option.distinct(1))

lemma held_keep: "stage_node (f t) = stage_node st \<Longrightarrow> held (f(t := st)) = held f"
  by (auto simp: held_def) metis+

lemma held_end:
  assumes "\<forall>t t' m. stage_node (f t) = Some m \<longrightarrow> stage_node (f t') = Some m \<longrightarrow> t = t'"
    and "stage_node (f t) = Some m" and "stage_node st = None"
  shows "held (f(t := st)) = held f - {m}"
  using assms by (auto simp: held_def) (metis option.inject)

lemma stage_rel_cong:
  "(\<And>n. stage_node st = Some n \<Longrightarrow> msg_pool mq' ! n = msg_pool mq ! n) \<Longrightarrow> msg_size mq' = msg_size mq \<Longrightarrow>
     stage_rel mq' st ast = stage_rel mq st ast"
  by (cases st; cases ast) (auto simp: message_def carries_def)

text \<open>A step of thread \<open>t\<close>: what is to be shown about its own stage, and about the nodes of the others.\<close>

lemma sim_thread:
  assumes rels: "\<forall>t. stage_rel (queue c) (stages c t) (fstages a t)"
    and inj: "\<forall>t t' m. stage_node (stages c t) = Some m \<longrightarrow> stage_node (stages c t') = Some m \<longrightarrow> t = t'"
    and lim: "limit a = unat (msg_size (queue c))"
    and inv: "mq_inv mq' qs fs (held ((stages c)(t := st)))" and sz: "msg_size mq' = msg_size (queue c)"
    and own: "stage_rel mq' st ast"
    and others: "\<And>t' n. t' \<noteq> t \<Longrightarrow> stage_node (stages c t') = Some n \<Longrightarrow>
      msg_pool mq' ! n = msg_pool (queue c) ! n \<and> stage_node st \<noteq> Some n"
  shows "sim (c\<lparr>queue := mq', stages := (stages c)(t := st)\<rparr>)
    (a\<lparr>items := map (message mq') qs, places := length fs, fstages := (fstages a)(t := ast)\<rparr>)"
proof -
  let ?f = "(stages c)(t := st)"
  have rels': "stage_rel mq' (?f t') (((fstages a)(t := ast)) t')" for t'
  proof (cases "t' = t")
    case False
    with rels others [OF False] sz stage_rel_cong [of "stages c t'" mq' "queue c"] show ?thesis by simp
  qed (use own in simp)
  have inj': "t1 = t2" if "stage_node (?f t1) = Some m" "stage_node (?f t2) = Some m" for t1 t2 m
  proof (rule ccontr)
    assume ne: "t1 \<noteq> t2"
    show False
      using that ne others [of t1 m] others [of t2 m] inj [rule_format, of t1 m t2]
      by (cases "t1 = t"; cases "t2 = t") simp_all
  qed
  from inj' have inj': "\<forall>t1 t2 m. stage_node (?f t1) = Some m \<longrightarrow> stage_node (?f t2) = Some m \<longrightarrow> t1 = t2"
    by blast
  show ?thesis
    unfolding sim_def
    by (rule exI [of _ qs], rule exI [of _ fs])
       (use inv lim sz rels' inj' in \<open>simp del: fun_upd_apply\<close>)
qed

lemma simE:
  assumes "sim c a"
  obtains qs fs where "mq_inv (queue c) qs fs (held (stages c))" and "items a = map (message (queue c)) qs"
    and "places a = length fs" and "limit a = unat (msg_size (queue c))"
    and "\<forall>t. stage_rel (queue c) (stages c t) (fstages a t)"
    and "\<forall>t t' m. stage_node (stages c t) = Some m \<longrightarrow> stage_node (stages c t') = Some m \<longrightarrow> t = t'"
  using assms unfolding sim_def by blast

text \<open>Calls that return at once leave the queue as it is.\<close>

lemma sim_return:
  assumes "sim c a" and "stage_node (stages c t) = None" and "stage_node st = None" and "stage_rel (queue c) st ast"
  shows "sim (c\<lparr>stages := (stages c)(t := st)\<rparr>) (a\<lparr>fstages := (fstages a)(t := ast)\<rparr>)"
proof -
  from assms(1) obtain qs fs where S: "mq_inv (queue c) qs fs (held (stages c))" "items a = map (message (queue c)) qs"
      "places a = length fs" "limit a = unat (msg_size (queue c))"
      "\<forall>t. stage_rel (queue c) (stages c t) (fstages a t)"
      "\<forall>t t' m. stage_node (stages c t) = Some m \<longrightarrow> stage_node (stages c t') = Some m \<longrightarrow> t = t'"
    by (rule simE)
  have "held ((stages c)(t := st)) = held (stages c)" using assms by (intro held_keep) simp
  with sim_thread [OF S(5,6,4), of "queue c" qs fs t st ast] S assms show ?thesis by (cases a) simp
qed

lemma idle_rel: "stage_rel mq st ast \<Longrightarrow> st = Idle \<longleftrightarrow> ast = Idle"
  by (cases st; cases ast) auto

lemma sim_begin_send:
  assumes S: "sim c a"
  shows "\<exists>c' a'. mq_step (t, Begin_Send u b) c = Some c' \<and> fifo_step (t, Begin_Send u b) a = Some a' \<and> sim c' a'"
proof -
  from S obtain qs fs where inv: "mq_inv (queue c) qs fs (held (stages c))" and it: "items a = map (message (queue c)) qs"
      and pl: "places a = length fs" and lim: "limit a = unat (msg_size (queue c))"
      and rels: "\<forall>t. stage_rel (queue c) (stages c t) (fstages a t)"
      and inj: "\<forall>t t' m. stage_node (stages c t) = Some m \<longrightarrow> stage_node (stages c t') = Some m \<longrightarrow> t = t'"
    by (rule simE)
  from rels idle_rel have idle: "stages c t = Idle \<longleftrightarrow> fstages a t = Idle" by blast
  show ?thesis
  proof (cases "stages c t = Idle \<and> b \<noteq> []")
    case False
    with S idle show ?thesis by auto
  next
    case True
    show ?thesis
    proof (cases "length b > unat (msg_size (queue c)) \<or> fs = []")
      case early: True
      have "sim (c\<lparr>stages := (stages c)(t := Done r [])\<rparr>) (a\<lparr>fstages := (fstages a)(t := Done r [])\<rparr>)" for r
        using sim_return [OF S] True by simp
      with early True idle lim pl inv take_free_empty [of "queue c" qs] show ?thesis by auto
    next
      case False
      then obtain m fs' where fs: "fs = m # fs'" by (cases fs) auto
      from take_free [OF inv [unfolded fs]] obtain mq' where r: "mq_take_free (queue c) = Some (Some m, mq')"
        "mq_inv mq' qs fs' (insert m (held (stages c)))" "msg_pool mq' = msg_pool (queue c)"
        "msg_size mq' = msg_size (queue c)" by blast
      from inv fs have new: "m \<notin> held (stages c)" by (auto simp: mq_inv_def)
      have "held ((stages c)(t := Slot u m b)) = insert m (held (stages c))" using True by (simp add: held_start)
      with sim_thread [OF rels inj lim, of mq' qs fs' t "Slot u m b" "Slot u () b"] r new True False
      have "sim (c\<lparr>queue := mq', stages := (stages c)(t := Slot u m b)\<rparr>)
          (a\<lparr>items := map (message mq') qs, places := length fs', fstages := (fstages a)(t := Slot u () b)\<rparr>)"
        by (auto simp: held_def)
      moreover have "map (message mq') qs = items a" using it r by (simp add: message_def)
      ultimately show ?thesis using True False idle lim pl r fs by (cases a) auto
    qed
  qed
qed

lemma held_disjoint: "mq_inv mq qs fs H \<Longrightarrow> m \<in> H \<Longrightarrow> m \<notin> set qs \<and> m \<notin> set fs \<and> m < length (msg_pool mq)"
  by (auto simp: mq_inv_def)

lemma sim_fill:
  assumes S: "sim c a"
  shows "\<exists>c' a'. mq_step (t, Fill) c = Some c' \<and> fifo_step (t, Fill) a = Some a' \<and> sim c' a'"
proof -
  from S obtain qs fs where inv: "mq_inv (queue c) qs fs (held (stages c))" and it: "items a = map (message (queue c)) qs"
      and pl: "places a = length fs" and lim: "limit a = unat (msg_size (queue c))"
      and rels: "\<forall>t. stage_rel (queue c) (stages c t) (fstages a t)"
      and inj: "\<forall>t t' m. stage_node (stages c t) = Some m \<longrightarrow> stage_node (stages c t') = Some m \<longrightarrow> t = t'"
    by (rule simE)
  show ?thesis
  proof (cases "stages c t")
    case st: (Slot u m b)
    with rels [rule_format, of t] have ast: "fstages a t = Slot u () b"
      and b: "b \<noteq> []" "length b \<le> unat (msg_size (queue c))"
      by (cases "fstages a t"; auto)+
    from st have m: "m \<in> held (stages c)" by (auto simp: held_def intro!: exI [of _ t])
    from fill [OF inv m b] obtain mq' where r: "mq_fill u m b (queue c) = Some mq'"
      "mq_inv mq' qs fs (held (stages c))" "message mq' m = b" "carries mq' m"
      "\<not> u \<longrightarrow> node_next (msg_pool mq' ! m) = None" "\<forall>i. i \<noteq> m \<longrightarrow> msg_pool mq' ! i = msg_pool (queue c) ! i"
      "msg_size mq' = msg_size (queue c)" by blast
    have "held ((stages c)(t := Filled u m b)) = held (stages c)" using st by (simp add: held_keep)
    moreover have "n \<noteq> m" if "t' \<noteq> t" "stage_node (stages c t') = Some n" for t' n
      using that inj [rule_format, of t' n t] st by auto
    ultimately have "sim (c\<lparr>queue := mq', stages := (stages c)(t := Filled u m b)\<rparr>)
        (a\<lparr>items := map (message mq') qs, places := length fs, fstages := (fstages a)(t := Filled u () b)\<rparr>)"
      using r by (intro sim_thread [OF rels inj lim]) auto
    moreover have "map (message mq') qs = items a"
      using it r held_disjoint [OF inv m] by (auto simp: message_def)
    ultimately show ?thesis using st ast r pl by (cases a) auto
  qed (use S rels [rule_format, of t] in \<open>cases "fstages a t"; auto\<close>)+
qed

lemma sim_link:
  assumes S: "sim c a"
  shows "\<exists>c' a'. mq_step (t, Link) c = Some c' \<and> fifo_step (t, Link) a = Some a' \<and> sim c' a'"
proof -
  from S obtain qs fs where inv: "mq_inv (queue c) qs fs (held (stages c))" and it: "items a = map (message (queue c)) qs"
      and pl: "places a = length fs" and lim: "limit a = unat (msg_size (queue c))"
      and rels: "\<forall>t. stage_rel (queue c) (stages c t) (fstages a t)"
      and inj: "\<forall>t t' m. stage_node (stages c t) = Some m \<longrightarrow> stage_node (stages c t') = Some m \<longrightarrow> t = t'"
    by (rule simE)
  show ?thesis
  proof (cases "stages c t")
    case st: (Filled u m b)
    with rels [rule_format, of t] obtain b' where ast: "fstages a t = Filled u () b'" and
      b: "message (queue c) m = b'" "carries (queue c) m" "\<not> u \<longrightarrow> node_next (msg_pool (queue c) ! m) = None"
      by (cases "fstages a t") auto
    from st have m: "m \<in> held (stages c)" by (auto simp: held_def intro!: exI [of _ t])
    let ?qs = "if u then m # qs else qs @ [m]"
    have "\<exists>mq'. (if u then mq_link_head m (queue c) else mq_link m (queue c)) = Some (RT_EOK, mq')
        \<and> mq_inv mq' ?qs fs (held (stages c) - {m})
        \<and> (\<forall>i. i \<noteq> m \<and> i \<notin> set qs \<longrightarrow> msg_pool mq' ! i = msg_pool (queue c) ! i)
        \<and> message mq' = message (queue c) \<and> msg_size mq' = msg_size (queue c)"
      using link_head [OF inv m b(2)] link [OF inv m b(2)] b(3) by (cases u) auto
    then obtain mq' where r: "(if u then mq_link_head m (queue c) else mq_link m (queue c)) = Some (RT_EOK, mq')"
      "mq_inv mq' ?qs fs (held (stages c) - {m})"
      "\<forall>i. i \<noteq> m \<and> i \<notin> set qs \<longrightarrow> msg_pool mq' ! i = msg_pool (queue c) ! i"
      "message mq' = message (queue c)" "msg_size mq' = msg_size (queue c)" by blast
    have "msg_pool mq' ! n = msg_pool (queue c) ! n" if "t' \<noteq> t" "stage_node (stages c t') = Some n" for t' n
    proof -
      from that have "n \<in> held (stages c)" by (auto simp: held_def)
      with held_disjoint [OF inv] have "n \<notin> set qs" by blast
      moreover have "n \<noteq> m" using that inj [rule_format, of t' n t] st by auto
      ultimately show ?thesis using r by blast
    qed
    moreover have "held ((stages c)(t := Done RT_EOK [])) = held (stages c) - {m}"
      using st by (intro held_end [OF inj]) simp_all
    ultimately have "sim (c\<lparr>queue := mq', stages := (stages c)(t := Done RT_EOK [])\<rparr>)
        (a\<lparr>items := map (message mq') ?qs, places := length fs, fstages := (fstages a)(t := Done RT_EOK [])\<rparr>)"
      using r by (intro sim_thread [OF rels inj lim]) auto
    then show ?thesis using st ast r pl it b by (cases a; cases u) auto
  qed (use S rels [rule_format, of t] in \<open>cases "fstages a t"; auto\<close>)+
qed

lemma sim_begin_recv:
  assumes S: "sim c a"
  shows "\<exists>c' a'. mq_step (t, Begin_Recv sz) c = Some c' \<and> fifo_step (t, Begin_Recv sz) a = Some a' \<and> sim c' a'"
proof -
  from S obtain qs fs where inv: "mq_inv (queue c) qs fs (held (stages c))" and it: "items a = map (message (queue c)) qs"
      and pl: "places a = length fs" and lim: "limit a = unat (msg_size (queue c))"
      and rels: "\<forall>t. stage_rel (queue c) (stages c t) (fstages a t)"
      and inj: "\<forall>t t' m. stage_node (stages c t) = Some m \<longrightarrow> stage_node (stages c t') = Some m \<longrightarrow> t = t'"
    by (rule simE)
  from rels idle_rel have idle: "stages c t = Idle \<longleftrightarrow> fstages a t = Idle" by blast
  show ?thesis
  proof (cases "stages c t = Idle \<and> sz \<noteq> 0")
    case False
    with S idle show ?thesis by auto
  next
    case True
    show ?thesis
    proof (cases qs)
      case Nil
      have "sim (c\<lparr>stages := (stages c)(t := Done r [])\<rparr>) (a\<lparr>fstages := (fstages a)(t := Done r [])\<rparr>)" for r
        using sim_return [OF S] True by simp
      with Nil True idle it entry_zero [OF inv] show ?thesis by auto
    next
      case (Cons m qs')
      from take_head [OF inv [unfolded Cons]] obtain mq' where r: "mq_take_head (queue c) = Some (m, mq')"
        "mq_inv mq' qs' fs (insert m (held (stages c)))" "msg_pool mq' = msg_pool (queue c)"
        "msg_size mq' = msg_size (queue c)" by blast
      from inv Cons have new: "m \<notin> held (stages c)" and car: "carries (queue c) m" by (auto simp: mq_inv_def)
      from r(3) have msg: "message mq' = message (queue c)" "carries mq' = carries (queue c)"
        by (simp_all add: message_def carries_def fun_eq_iff)
      have "held ((stages c)(t := Took sz m [])) = insert m (held (stages c))" using True by (simp add: held_start)
      with r new car msg have "sim (c\<lparr>queue := mq', stages := (stages c)(t := Took sz m [])\<rparr>)
          (a\<lparr>items := map (message mq') qs', places := length fs,
             fstages := (fstages a)(t := Took sz () (message (queue c) m))\<rparr>)"
        by (intro sim_thread [OF rels inj lim]) (auto simp: held_def)
      then show ?thesis
        using True idle it pl r msg Cons entry_zero [OF inv] by (cases a) auto
    qed
  qed
qed

lemma sim_copy:
  assumes S: "sim c a"
  shows "\<exists>c' a'. mq_step (t, Copy) c = Some c' \<and> fifo_step (t, Copy) a = Some a' \<and> sim c' a'"
proof -
  from S obtain qs fs where inv: "mq_inv (queue c) qs fs (held (stages c))" and it: "items a = map (message (queue c)) qs"
      and pl: "places a = length fs" and lim: "limit a = unat (msg_size (queue c))"
      and rels: "\<forall>t. stage_rel (queue c) (stages c t) (fstages a t)"
      and inj: "\<forall>t t' m. stage_node (stages c t) = Some m \<longrightarrow> stage_node (stages c t') = Some m \<longrightarrow> t = t'"
    by (rule simE)
  show ?thesis
  proof (cases "stages c t")
    case st: (Took sz m b)
    with rels [rule_format, of t] obtain b' where ast: "fstages a t = Took sz () b'"
      and b: "message (queue c) m = b'" "carries (queue c) m"
      by (cases "fstages a t") auto
    from st have m: "m \<in> held (stages c)" by (auto simp: held_def intro!: exI [of _ t])
    note read = read_message [OF inv m b(2), of sz]
    have "held ((stages c)(t := Copied m (take sz b'))) = held (stages c)" using st by (simp add: held_keep)
    moreover have "n \<noteq> m" if "t' \<noteq> t" "stage_node (stages c t') = Some n" for t' n
      using that inj [rule_format, of t' n t] st by auto
    ultimately have "sim (c\<lparr>queue := queue c, stages := (stages c)(t := Copied m (take sz b'))\<rparr>)
        (a\<lparr>items := map (message (queue c)) qs, places := length fs,
           fstages := (fstages a)(t := Copied () (take sz b'))\<rparr>)"
      using inv by (intro sim_thread [OF rels inj lim]) auto
    then show ?thesis using st ast read b pl it by (cases a; cases c) auto
  qed (use S rels [rule_format, of t] in \<open>cases "fstages a t"; auto\<close>)+
qed

lemma sim_put:
  assumes S: "sim c a"
  shows "\<exists>c' a'. mq_step (t, Put) c = Some c' \<and> fifo_step (t, Put) a = Some a' \<and> sim c' a'"
proof -
  from S obtain qs fs where inv: "mq_inv (queue c) qs fs (held (stages c))" and it: "items a = map (message (queue c)) qs"
      and pl: "places a = length fs" and lim: "limit a = unat (msg_size (queue c))"
      and rels: "\<forall>t. stage_rel (queue c) (stages c t) (fstages a t)"
      and inj: "\<forall>t t' m. stage_node (stages c t) = Some m \<longrightarrow> stage_node (stages c t') = Some m \<longrightarrow> t = t'"
    by (rule simE)
  show ?thesis
  proof (cases "stages c t")
    case st: (Copied m b)
    with rels [rule_format, of t] have ast: "fstages a t = Copied () b" by (cases "fstages a t") auto
    from st have m: "m \<in> held (stages c)" by (auto simp: held_def intro!: exI [of _ t])
    from put_free [OF inv m] obtain mq' where r: "mq_put_free m (queue c) = Some mq'"
      "mq_inv mq' qs (m # fs) (held (stages c) - {m})" "\<forall>i. i \<noteq> m \<longrightarrow> msg_pool mq' ! i = msg_pool (queue c) ! i"
      "message mq' = message (queue c)" "msg_size mq' = msg_size (queue c)" by blast
    have "held ((stages c)(t := Done (int (length b)) b)) = held (stages c) - {m}"
      using st by (intro held_end [OF inj]) simp_all
    moreover have "n \<noteq> m" if "t' \<noteq> t" "stage_node (stages c t') = Some n" for t' n
      using that inj [rule_format, of t' n t] st by auto
    ultimately have "sim (c\<lparr>queue := mq', stages := (stages c)(t := Done (int (length b)) b)\<rparr>)
        (a\<lparr>items := map (message mq') qs, places := length (m # fs),
           fstages := (fstages a)(t := Done (int (length b)) b)\<rparr>)"
      using r by (intro sim_thread [OF rels inj lim]) auto
    then show ?thesis using st ast r pl it by (cases a) auto
  qed (use S rels [rule_format, of t] in \<open>cases "fstages a t"; auto\<close>)+
qed

lemma sim_back:
  assumes S: "sim c a"
  shows "\<exists>c' a'. mq_step (t, Return) c = Some c' \<and> fifo_step (t, Return) a = Some a' \<and> sim c' a'"
proof -
  from S obtain qs fs where inv: "mq_inv (queue c) qs fs (held (stages c))" and it: "items a = map (message (queue c)) qs"
      and pl: "places a = length fs" and lim: "limit a = unat (msg_size (queue c))"
      and rels: "\<forall>t. stage_rel (queue c) (stages c t) (fstages a t)"
      and inj: "\<forall>t t' m. stage_node (stages c t) = Some m \<longrightarrow> stage_node (stages c t') = Some m \<longrightarrow> t = t'"
    by (rule simE)
  show ?thesis
  proof (cases "stages c t")
    case st: (Done r b)
    with rels [rule_format, of t] have "fstages a t = Done r b" by (cases "fstages a t") auto
    with sim_return [OF S, of t Idle Idle] st show ?thesis by auto
  qed (use S rels [rule_format, of t] in \<open>cases "fstages a t"; auto\<close>)+
qed

lemma sim_reset:
  assumes S: "sim c a"
  shows "\<exists>c' a'. mq_step (t, Reset) c = Some c' \<and> fifo_step (t, Reset) a = Some a' \<and> sim c' a'"
proof -
  from S obtain qs fs where inv: "mq_inv (queue c) qs fs (held (stages c))" and it: "items a = map (message (queue c)) qs"
      and pl: "places a = length fs" and lim: "limit a = unat (msg_size (queue c))"
      and rels: "\<forall>t. stage_rel (queue c) (stages c t) (fstages a t)"
      and inj: "\<forall>t t' m. stage_node (stages c t) = Some m \<longrightarrow> stage_node (stages c t') = Some m \<longrightarrow> t = t'"
    by (rule simE)
  from rels idle_rel have idle: "stages c t = Idle \<longleftrightarrow> fstages a t = Idle" by blast
  show ?thesis
  proof (cases "stages c t = Idle")
    case False
    with S idle show ?thesis by auto
  next
    case True
    from reset [OF inv] obtain mq' where r: "mq_reset (queue c) = Some mq'"
      "mq_inv mq' [] (rev qs @ fs) (held (stages c))" "\<forall>i. i \<notin> set qs \<longrightarrow> msg_pool mq' ! i = msg_pool (queue c) ! i"
      "msg_size mq' = msg_size (queue c)" by blast
    have "held ((stages c)(t := Done RT_EOK [])) = held (stages c)" using True by (intro held_keep) simp
    moreover have "n \<notin> set qs" if "stage_node (stages c t') = Some n" for t' n
      using that held_disjoint [OF inv, of n] by (auto simp: held_def)
    ultimately have "sim (c\<lparr>queue := mq', stages := (stages c)(t := Done RT_EOK [])\<rparr>)
        (a\<lparr>items := map (message mq') [], places := length (rev qs @ fs), fstages := (fstages a)(t := Done RT_EOK [])\<rparr>)"
      using r by (intro sim_thread [OF rels inj lim]) auto
    then show ?thesis using True idle r pl it by (cases a) (auto simp: add.commute)
  qed
qed

lemma sim_step:
  assumes "sim c a"
  shows "\<exists>c' a'. mq_step l c = Some c' \<and> fifo_step l a = Some a' \<and> sim c' a'"
proof -
  obtain t x where "l = (t, x)" by force
  with assms show ?thesis
    by (cases x) (simp_all only: sim_begin_send sim_fill sim_link sim_begin_recv sim_copy sim_put sim_back sim_reset)
qed

interpretation mq_sim: total_simulation sim mq_step fifo_step
proof unfold_locales
  fix c l and a a' :: fifo_system
  assume "sim c a"
  from sim_step [OF this, of l] show "\<exists>a'. fifo_step l a = Some a'" by blast
  assume "fifo_step l a = Some a'"
  with sim_step [OF \<open>sim c a\<close>, of l] show "\<exists>c'. mq_step l c = Some c' \<and> sim c' a'" by auto
qed

section \<open>Creation\<close>

text \<open>What the allocator of the kernel gives: nodes with room for an aligned message, contents unknown.\<close>

definition good_heap :: "(nat \<Rightarrow> nat \<Rightarrow> rt_mq_message list option) \<Rightarrow> bool" where
  "good_heap heap \<longleftrightarrow> (\<forall>al n pool. heap al n = Some pool \<longrightarrow>
     length pool = n \<and> (\<forall>node\<in>set pool. length (node_bytes node) = al))"

lemma align_le: "n \<le> RT_ALIGN n 8"
  unfolding RT_ALIGN_def by linarith

lemma link_free_chain:
  "linked (msg_pool mq) (msg_queue_free mq) fs \<Longrightarrow> set fs = {..<temp} \<Longrightarrow> temp + n \<le> length (msg_pool mq) \<Longrightarrow>
   \<exists>pool f. link_free temp n mq = Some (mq\<lparr>msg_pool := pool, msg_queue_free := f\<rparr>)
     \<and> linked pool f (rev [temp..<temp + n] @ fs) \<and> length pool = length (msg_pool mq)
     \<and> (\<forall>i. node_bytes (pool ! i) = node_bytes (msg_pool mq ! i))"
proof (induction n arbitrary: temp mq fs)
  case 0
  then show ?case by (cases mq) auto
next
  case (Suc n)
  let ?mq = "mq\<lparr>msg_pool := (msg_pool mq)[temp := (msg_pool mq ! temp)\<lparr>node_next := msg_queue_free mq\<rparr>],
    msg_queue_free := Some temp\<rparr>"
  have "linked (msg_pool ?mq) (msg_queue_free ?mq) (temp # fs)" using Suc.prems by (simp add: linked_upd)
  moreover have "set (temp # fs) = {..<temp + 1}" using Suc.prems(2) by (simp add: lessThan_Suc)
  moreover have "temp + 1 + n \<le> length (msg_pool ?mq)" using Suc.prems(3) by simp
  ultimately have "\<exists>pool f. link_free (temp + 1) n ?mq = Some (?mq\<lparr>msg_pool := pool, msg_queue_free := f\<rparr>)
    \<and> linked pool f (rev [temp + 1..<temp + 1 + n] @ temp # fs) \<and> length pool = length (msg_pool ?mq)
    \<and> (\<forall>i. node_bytes (pool ! i) = node_bytes (msg_pool ?mq ! i))"
    by (rule Suc.IH)
  then obtain pool f where r: "link_free (temp + 1) n ?mq = Some (?mq\<lparr>msg_pool := pool, msg_queue_free := f\<rparr>)"
    "linked pool f (rev [temp + 1..<temp + 1 + n] @ temp # fs)" "length pool = length (msg_pool ?mq)"
    "\<forall>i. node_bytes (pool ! i) = node_bytes (msg_pool ?mq ! i)" by blast
  have "rev [temp..<temp + Suc n] = rev [temp + 1..<temp + 1 + n] @ [temp]"
    by (simp add: upt_conv_Cons del: upt_Suc)
  with r(2) have chain: "linked pool f (rev [temp..<temp + Suc n] @ fs)" by simp
  have step: "link_free temp (Suc n) mq = link_free (temp + 1) n ?mq"
    using Suc.prems(3) by (simp add: rd_def)
  have "node_bytes (pool ! i) = node_bytes (msg_pool mq ! i)" for i
    using r(4) [rule_format, of i] by (cases "i = temp"; cases "temp < length (msg_pool mq)") (simp_all add: list_update_beyond)
  then show ?case
    unfolding step r(1) using chain r(3) by (intro exI [of _ pool] exI [of _ f]) simp
qed

lemma create_inv:
  assumes "rt_mq_create sz n heap = Some (Some mq)" and heap: "good_heap heap"
  shows "\<exists>fs. mq_inv mq [] fs {} \<and> length fs = unat (word_of_nat n :: u16)
    \<and> max_msgs mq = word_of_nat n \<and> msg_size mq = word_of_nat sz"
proof -
  let ?n = "unat (word_of_nat n :: u16)"
  from assms(1) obtain pool where pool: "heap (RT_ALIGN sz 8) ?n = Some pool"
    by (auto simp: rt_mq_create_def Let_def split: option.splits)
  with heap have len: "length pool = ?n" and sizes: "\<forall>node\<in>set pool. length (node_bytes node) = RT_ALIGN sz 8"
    by (auto simp: good_heap_def)
  let ?mq = "\<lparr> suspend_thread = [], msg_pool = pool, msg_size = word_of_nat sz, max_msgs = word_of_nat n,
    entry = 0, msg_queue_head = None, msg_queue_tail = None, msg_queue_free = None, suspend_sender_thread = [] \<rparr>"
  from link_free_chain [of ?mq "[]" 0 ?n] len obtain pool' f where
    r: "link_free 0 ?n ?mq = Some (?mq\<lparr>msg_pool := pool', msg_queue_free := f\<rparr>)" "linked pool' f (rev [0..<?n])"
      "length pool' = ?n" "\<forall>i. node_bytes (pool' ! i) = node_bytes (pool ! i)" by auto
  from r assms(1) pool have mq: "mq = ?mq\<lparr>msg_pool := pool', msg_queue_free := f\<rparr>"
    by (simp add: rt_mq_create_def)
  have "unat (word_of_nat sz :: u16) \<le> sz" by (simp add: unat_of_nat)
  then have fit: "unat (word_of_nat sz :: u16) \<le> RT_ALIGN sz 8" using align_le [of sz] by linarith
  have "mq_inv mq [] (rev [0..<?n]) {}"
    using r len sizes fit by (auto simp: mq mq_inv_def)
  then show ?thesis by (intro exI [of _ "rev [0..<?n]"]) (auto simp: mq)
qed

text \<open>
  C6: the kernel's message queue under any interleaving. Threads send, send urgently, receive and
  reset, and may be interrupted between any two critical sections of their calls. No section faults,
  and every call returns the same code and the same bytes as in the specification: a sequence of
  messages to which a send appends (an urgent send puts in front) when the node is linked, from which a
  receive takes the first message (cut to the buffer of the receiver), and a number of free places.
  A node is never lost or used twice: messages and free places never exceed the size given at
  creation, and \<open>entry\<close> is the number of messages.
\<close>

theorem mq_refines_fifo:
  assumes "rt_mq_create sz n heap = Some (Some mq)" and "good_heap heap"
  shows "\<exists>c a. run_steps mq_step ls \<lparr> queue = mq, stages = (\<lambda>_. Idle) \<rparr> = Some c
    \<and> run_steps fifo_step ls \<lparr> items = [], places = unat (word_of_nat n :: u16),
        limit = unat (word_of_nat sz :: u16), fstages = (\<lambda>_. Idle) \<rparr> = Some a
    \<and> (\<forall>t r b. stages c t = Done r b \<longleftrightarrow> fstages a t = Done r b)
    \<and> unat (entry (queue c)) = length (items a)
    \<and> length (items a) + places a \<le> unat (max_msgs (queue c))"
proof -
  let ?c = "\<lparr> queue = mq, stages = (\<lambda>_. Idle) \<rparr>"
  let ?a = "\<lparr> items = [], places = unat (word_of_nat n :: u16), limit = unat (word_of_nat sz :: u16),
    fstages = (\<lambda>_. Idle) \<rparr>"
  from create_inv [OF assms] obtain fs where inv0: "mq_inv mq [] fs {}"
    "length fs = unat (word_of_nat n :: u16)" "msg_size mq = word_of_nat sz" by blast
  have "held (\<lambda>_. Idle) = {}" by (simp add: held_def)
  with inv0 have "sim ?c ?a"
    unfolding sim_def by - (rule exI [of _ "[]"], rule exI [of _ fs], simp)
  from mq_sim.run_total [OF this] obtain c a where run: "run_steps mq_step ls ?c = Some c"
    "run_steps fifo_step ls ?a = Some a" and S: "sim c a" by blast
  from S obtain qs fs where inv: "mq_inv (queue c) qs fs (held (stages c))" "items a = map (message (queue c)) qs"
    "places a = length fs" and rels: "\<forall>t. stage_rel (queue c) (stages c t) (fstages a t)" by (rule simE)
  have "stages c t = Done r b \<longleftrightarrow> fstages a t = Done r b" for t r b
    using rels [rule_format, of t] by (cases "stages c t"; cases "fstages a t") auto
  with run inv mq_inv_bounds [OF inv(1)] show ?thesis by auto
qed

text \<open>A heap that is never short, and two threads that send while a third has half received.\<close>

definition plain_heap :: "nat \<Rightarrow> nat \<Rightarrow> rt_mq_message list option" where
  "plain_heap al n = Some (replicate n \<lparr> node_next = None, node_length = 0, node_bytes = replicate al 0 \<rparr>)"

lemma plain_heap_good: "good_heap plain_heap"
  by (auto simp: good_heap_def plain_heap_def)

lemma create_plain: "\<exists>mq. rt_mq_create sz n plain_heap = Some (Some mq)"
proof -
  let ?n = "unat (word_of_nat n :: u16)"
  let ?mq = "\<lparr> suspend_thread = [], msg_pool = replicate ?n \<lparr> node_next = None, node_length = 0,
    node_bytes = replicate (RT_ALIGN sz 8) 0 \<rparr>, msg_size = word_of_nat sz, max_msgs = word_of_nat n,
    entry = 0, msg_queue_head = None, msg_queue_tail = None, msg_queue_free = None, suspend_sender_thread = [] \<rparr>"
  from link_free_chain [of ?mq "[]" 0 ?n] show ?thesis
    by (auto simp: rt_mq_create_def plain_heap_def Let_def)
qed

theorem mq_refines_fifo_witness:
  "\<exists>mq c. rt_mq_create 2 2 plain_heap = Some (Some mq)
    \<and> run_steps mq_step [(0, Begin_Send False [7]), (1, Begin_Send False [8, 9]), (1, Fill), (1, Link), (2, Begin_Recv 5),
        (0, Fill), (2, Copy), (0, Link), (2, Put)] \<lparr> queue = mq, stages = (\<lambda>_. Idle) \<rparr> = Some c
    \<and> stages c 2 = Done 2 [8, 9] \<and> unat (entry (queue c)) = 1"
proof -
  let ?ls = "[(0, Begin_Send False [7]), (1, Begin_Send False [8, 9]), (1, Fill), (1, Link), (2, Begin_Recv 5),
        (0, Fill), (2, Copy), (0, Link), (2, Put)]"
  from create_plain [of 2 2] obtain mq where mq: "rt_mq_create 2 2 plain_heap = Some (Some mq)" by blast
  from mq_refines_fifo [OF mq plain_heap_good, of ?ls] obtain c a where
    c: "run_steps mq_step ?ls \<lparr> queue = mq, stages = (\<lambda>_. Idle) \<rparr> = Some c"
    and a: "run_steps fifo_step ?ls \<lparr> items = [], places = unat (word_of_nat 2 :: u16),
        limit = unat (word_of_nat 2 :: u16), fstages = (\<lambda>_. Idle) \<rparr> = Some a"
    and fin: "stages c 2 = Done 2 [8, 9] \<longleftrightarrow> fstages a 2 = Done 2 [8, 9]"
    and n: "unat (entry (queue c)) = length (items a)" by blast
  have two: "unat (word_of_nat 2 :: u16) = 2" by (simp add: unat_of_nat_u16)
  from a have "fstages a 2 = Done 2 [8, 9] \<and> length (items a) = 1" unfolding two by auto
  with fin n have "stages c 2 = Done 2 [8, 9] \<and> unat (entry (queue c)) = 1" by simp
  with mq c have "rt_mq_create 2 2 plain_heap = Some (Some mq)
    \<and> run_steps mq_step ?ls \<lparr> queue = mq, stages = (\<lambda>_. Idle) \<rparr> = Some c
    \<and> stages c 2 = Done 2 [8, 9] \<and> unat (entry (queue c)) = 1" by simp
  then show ?thesis by (intro exI)
qed

section \<open>Calls that are not interrupted\<close>

text \<open>The messages of a queue, read off its chain.\<close>

fun chain_messages :: "rt_messagequeue \<Rightarrow> nat \<Rightarrow> nat option \<Rightarrow> bytes list" where
  "chain_messages mq (Suc n) (Some m) = message mq m # chain_messages mq n (node_next (msg_pool mq ! m))"
| "chain_messages mq n p = []"

definition mq_contents :: "rt_messagequeue \<Rightarrow> bytes list" where
  "mq_contents mq = chain_messages mq (length (msg_pool mq)) (msg_queue_head mq)"

definition mq_ok :: "rt_messagequeue \<Rightarrow> bool" where
  "mq_ok mq \<longleftrightarrow> (\<exists>qs fs. mq_inv mq qs fs {})"

definition mq_room :: "rt_messagequeue \<Rightarrow> nat" where
  "mq_room mq = unat (max_msgs mq) - unat (entry mq)"

definition mq_fits :: "rt_messagequeue \<Rightarrow> bytes \<Rightarrow> bool" where
  "mq_fits mq b \<longleftrightarrow> b \<noteq> [] \<and> length b \<le> unat (msg_size mq)"

definition mq_enq :: "bytes \<Rightarrow> rt_messagequeue \<Rightarrow> rt_messagequeue option" where
  "mq_enq b mq = map_option snd (rt_mq_send b mq)"

text \<open>A receive that does not wait, with a buffer of the size of a message.\<close>

definition mq_deq :: "rt_messagequeue \<Rightarrow> (bytes \<times> rt_messagequeue) option" where
  "mq_deq mq = map_option snd (rt_mq_recv 0 [] (unat (msg_size mq)) 0 mq)"

lemma chain_messages_linked:
  "linked (msg_pool mq) p qs \<Longrightarrow> length qs \<le> n \<Longrightarrow> chain_messages mq n p = map (message mq) qs"
proof (induction qs arbitrary: p n)
  case Nil
  then show ?case by (cases n) auto
next
  case (Cons m qs)
  then show ?case by (cases n) auto
qed

lemma mq_contents_inv: "mq_inv mq qs fs H \<Longrightarrow> mq_contents mq = map (message mq) qs"
  using mq_inv_bounds(1) [of mq qs fs H]
  by (simp add: mq_contents_def chain_messages_linked mq_inv_def)

lemma mq_room_inv: "mq_inv mq qs fs {} \<Longrightarrow> mq_room mq = length fs"
proof -
  assume inv: "mq_inv mq qs fs {}"
  then have "card (set (qs @ fs)) = unat (max_msgs mq)" by (simp add: mq_inv_def)
  moreover have "card (set (qs @ fs)) = length (qs @ fs)"
    using inv by (intro distinct_card) (simp add: mq_inv_def)
  ultimately show ?thesis using mq_inv_bounds(3) [OF inv] by (simp add: mq_room_def)
qed

lemma send_room:
  assumes inv: "mq_inv mq qs (m # fs) {}" and b: "mq_fits mq b"
  shows "\<exists>mq'. rt_mq_send b mq = Some (RT_EOK, mq') \<and> mq_inv mq' (qs @ [m]) fs {}
    \<and> mq_contents mq' = mq_contents mq @ [b] \<and> msg_size mq' = msg_size mq"
proof -
  from b have b: "b \<noteq> []" "length b \<le> unat (msg_size mq)" by (simp_all add: mq_fits_def)
  from take_free [OF inv] obtain m1 where r1: "mq_take_free mq = Some (Some m, m1)" "mq_inv m1 qs fs {m}"
    "msg_pool m1 = msg_pool mq" "msg_size m1 = msg_size mq" by auto
  from fill [OF r1(2), of m b False] b r1 obtain m2 where r2: "mq_fill False m b m1 = Some m2" "mq_inv m2 qs fs {m}"
    "message m2 m = b" "carries m2 m" "node_next (msg_pool m2 ! m) = None"
    "\<forall>i. i \<noteq> m \<longrightarrow> msg_pool m2 ! i = msg_pool m1 ! i" "msg_size m2 = msg_size mq" by auto
  from link [OF r2(2) _ r2(4,5)] r2 obtain m3 where r3: "mq_link m m2 = Some (RT_EOK, m3)" "mq_inv m3 (qs @ [m]) fs {}"
    "message m3 = message m2" "msg_size m3 = msg_size mq" by auto
  have "map (message m2) qs = map (message mq) qs"
    using held_disjoint [OF r1(2), of m] r2(6) r1(3) by (auto simp: message_def)
  with r3 r2 inv have "mq_contents m3 = mq_contents mq @ [b]"
    by (simp add: mq_contents_inv [OF r3(2)] mq_contents_inv [OF inv])
  moreover have "rt_mq_send b mq = Some (RT_EOK, m3)"
    using b r1 r2 r3 by (simp add: rt_mq_send_def rt_mq_send_wait_def mq_wait_free.simps not_less)
  ultimately show ?thesis using r3 by blast
qed

lemma send_full:
  assumes "mq_inv mq qs [] {}" and "mq_fits mq b"
  shows "rt_mq_send b mq = Some (- RT_EFULL, mq)"
  using assms take_free_empty [OF assms(1)]
  by (auto simp: rt_mq_send_def rt_mq_send_wait_def mq_wait_free.simps mq_fits_def)

lemma recv_first:
  assumes inv: "mq_inv mq (m # qs) fs {}" and sz: "sz \<noteq> 0"
  shows "\<exists>mq'. rt_mq_recv self ws sz timeout mq = Some (int (length (take sz (message mq m))), take sz (message mq m), mq')
    \<and> mq_inv mq' qs (m # fs) {} \<and> mq_contents mq' = tl (mq_contents mq) \<and> msg_size mq' = msg_size mq"
proof -
  from take_head [OF inv] obtain m1 where r1: "mq_take_head mq = Some (m, m1)" "mq_inv m1 qs fs {m}"
    "msg_pool m1 = msg_pool mq" "msg_size m1 = msg_size mq" by auto
  have same: "message m1 = message mq" "carries m1 = carries mq"
    using r1(3) by (simp_all add: message_def carries_def fun_eq_iff)
  have "carries m1 m" using inv same by (simp add: mq_inv_def)
  from read_message [OF r1(2) _ this] have r2: "mq_read m sz m1 = Some (take sz (message mq m))" by (simp add: same)
  from put_free [OF r1(2), of m] obtain m3 where r3: "mq_put_free m m1 = Some m3" "mq_inv m3 qs (m # fs) {}"
    "message m3 = message m1" "msg_size m3 = msg_size mq" using r1 by auto
  have "entry mq \<noteq> 0" using entry_zero [OF inv] by simp
  then have "rt_mq_recv self ws sz timeout mq
      = Some (int (length (take sz (message mq m))), take sz (message mq m), m3)"
    using sz r1 r2 r3 by (simp add: rt_mq_recv_def mq_wait_entry.simps)
  then show ?thesis
    using r3 same by (auto simp: mq_contents_inv [OF r3(2)] mq_contents_inv [OF inv])
qed

lemma message_fits:
  assumes "mq_inv mq (m # qs) fs H" shows "message mq m \<noteq> []"
  using assms by (auto simp: mq_inv_def carries_def message_def)

text \<open>Messages never outgrow the queue's size; it is part of the invariant of uninterrupted use.\<close>

definition mq_ok_sized :: "rt_messagequeue \<Rightarrow> bool" where
  "mq_ok_sized mq \<longleftrightarrow> mq_ok mq \<and> (\<forall>b\<in>set (mq_contents mq). mq_fits mq b)"

interpretation kq: bounded_fifo mq_ok_sized mq_contents mq_room mq_fits mq_enq mq_deq
proof unfold_locales
  fix q and b :: bytes
  assume ok: "mq_ok_sized q" and b: "mq_fits q b"
  from ok obtain qs fs where inv: "mq_inv q qs fs {}" by (auto simp: mq_ok_sized_def mq_ok_def)
  note room = mq_room_inv [OF inv]
  show "\<exists>q'. mq_enq b q = Some q' \<and> mq_ok_sized q' \<and> mq_contents q' = mq_contents q @ [b]
      \<and> mq_room q' = mq_room q - 1 \<and> mq_fits q' = mq_fits q" if "0 < mq_room q"
  proof -
    from that room obtain m fs' where fs: "fs = m # fs'" by (cases fs) auto
    from send_room [OF inv [unfolded fs] b] obtain q' where q': "rt_mq_send b q = Some (RT_EOK, q')"
      "mq_inv q' (qs @ [m]) fs' {}" "mq_contents q' = mq_contents q @ [b]" "msg_size q' = msg_size q" by blast
    have "mq_fits q' = mq_fits q" using q'(4) by (simp add: mq_fits_def fun_eq_iff)
    with q' ok b room fs mq_room_inv [OF q'(2)] show ?thesis
      by (auto simp: mq_enq_def mq_ok_sized_def mq_ok_def)
  qed
  show "mq_enq b q = Some q" if "mq_room q = 0"
    using send_full [of q qs b] inv room that b by (simp add: mq_enq_def)
next
  fix q b bs
  assume ok: "mq_ok_sized q" and c: "mq_contents q = b # bs"
  from ok obtain qs fs where inv: "mq_inv q qs fs {}" by (auto simp: mq_ok_sized_def mq_ok_def)
  from c mq_contents_inv [OF inv] obtain m qs' where qs: "qs = m # qs'" "b = message q m" by (cases qs) auto
  from ok c have fit: "mq_fits q b" by (simp add: mq_ok_sized_def)
  then have "unat (msg_size q) \<noteq> 0" unfolding mq_fits_def by (metis le_zero_eq length_0_conv)
  from recv_first [OF inv [unfolded qs(1)] this, of 0 "[]" 0] obtain q' where q':
    "rt_mq_recv 0 [] (unat (msg_size q)) 0 q = Some (int (length b), b, q')" "mq_inv q' qs' (m # fs) {}"
    "mq_contents q' = bs" "msg_size q' = msg_size q"
    using fit c qs(2) by (auto simp: mq_fits_def)
  have "mq_fits q' = mq_fits q" using q'(4) by (simp add: mq_fits_def fun_eq_iff)
  with q' ok c mq_room_inv [OF inv] mq_room_inv [OF q'(2)]
  show "\<exists>q'. mq_deq q = Some (b, q') \<and> mq_ok_sized q' \<and> mq_contents q' = bs \<and> mq_room q' = mq_room q + 1
      \<and> mq_fits q' = mq_fits q"
    by (auto simp: mq_deq_def mq_ok_sized_def mq_ok_def)
qed

end
