(* ===== verification/Event_Queue.thy ===== *)
theory Event_Queue
  imports Msg_Queue_Fifo
begin

text \<open>
  The events of the application (\<open>event.h\<close>) and the queue between its threads
  (\<open>event_handler.c\<close>). An event travels as the bytes of \<open>event_t\<close>: the tag, then the union, laid out
  for the target (little endian, 4 byte enumerations and \<open>rt_bool_t\<close>, natural alignment); bytes no one
  sets are those of the sender's stack.
\<close>

section \<open>Structures as bytes\<close>

definition le_bytes :: "nat \<Rightarrow> nat \<Rightarrow> bytes" where
  "le_bytes n k = map (\<lambda>i. word_of_nat (k div 256 ^ i)) [0..<n]"

primrec le_value :: "bytes \<Rightarrow> nat" where
  "le_value [] = 0"
| "le_value (b # bs) = unat b + 256 * le_value bs"

lemma length_le_bytes [simp]: "length (le_bytes n k) = n"
  by (simp add: le_bytes_def)

lemma le_bytes_Suc: "le_bytes (Suc n) k = word_of_nat k # le_bytes n (k div 256)"
  unfolding le_bytes_def by (simp add: upt_conv_Cons div_mult2_eq map_Suc_upt [symmetric] del: upt_Suc)

lemma le_value_bytes: "k < 256 ^ n \<Longrightarrow> le_value (le_bytes n k) = k"
proof (induction n arbitrary: k)
  case 0
  then show ?case by (simp add: le_bytes_def)
next
  case (Suc n)
  then have "k div 256 < 256 ^ n" by (simp add: less_mult_imp_div_less mult.commute)
  moreover have "unat (word_of_nat k :: u8) = k mod 256" by (simp add: unat_of_nat take_bit_eq_mod)
  ultimately show ?case using Suc.IH by (simp add: le_bytes_Suc)
qed

section \<open>Events\<close>

datatype event_type_t = event_type_undefined_e | event_type_config_e | event_type_credit_e
  | event_type_enable_e | event_type_mqtt_e | event_type_card_e

fun event_type_code :: "event_type_t \<Rightarrow> nat" where
  "event_type_code event_type_undefined_e = 0"
| "event_type_code event_type_config_e = 1"
| "event_type_code event_type_credit_e = 2"
| "event_type_code event_type_enable_e = 3"
| "event_type_code event_type_mqtt_e = 4"
| "event_type_code event_type_card_e = 5"

abbreviation (input) MAX_DEVICE_NAME_LEN :: nat where "MAX_DEVICE_NAME_LEN \<equiv> 16"

record config_evt_t =
  cfg_name :: bytes
  cfg_price :: u32
  cfg_pulses_per_credit :: u16

record credit_evt_t =
  credit_count :: u16
  credit_balance :: u32

record enable_evt_t =
  enable_flag :: u32

datatype mqtt_event_t = mqtt_event_undefined_e | mqtt_event_connecting_e | mqtt_event_conn_failed_e
  | mqtt_event_conn_success_e

fun mqtt_event_code :: "mqtt_event_t \<Rightarrow> nat" where
  "mqtt_event_code mqtt_event_undefined_e = 0"
| "mqtt_event_code mqtt_event_connecting_e = 1"
| "mqtt_event_code mqtt_event_conn_failed_e = 2"
| "mqtt_event_code mqtt_event_conn_success_e = 3"

text \<open>The members of the union.\<close>

definition config_bytes :: "config_evt_t \<Rightarrow> bytes" where
  "config_bytes e = cfg_name e @ le_bytes 4 (unat (cfg_price e)) @ le_bytes 2 (unat (cfg_pulses_per_credit e)) @ [0, 0]"

definition credit_bytes :: "credit_evt_t \<Rightarrow> bytes" where
  "credit_bytes e = le_bytes 2 (unat (credit_count e)) @ [0, 0] @ le_bytes 4 (unat (credit_balance e))"

definition enable_bytes :: "enable_evt_t \<Rightarrow> bytes" where
  "enable_bytes e = le_bytes 4 (unat (enable_flag e))"

definition mqtt_event_bytes :: "mqtt_event_t \<Rightarrow> bytes" where
  "mqtt_event_bytes e = le_bytes 4 (mqtt_event_code e)"

text \<open>\<open>sizeof(event_t)\<close> is 40, the union (36 bytes, for the card event) begins at 4.\<close>

abbreviation (input) event_size :: nat where "event_size \<equiv> 40"
abbreviation (input) union_size :: nat where "union_size \<equiv> 36"

text \<open>Reading the members of the union \<open>data\<close> of a received event.\<close>

definition event_code :: "bytes \<Rightarrow> nat" where
  "event_code evt = le_value (take 4 evt)"

definition event_union :: "bytes \<Rightarrow> bytes" where
  "event_union evt = drop 4 evt"

definition read_config :: "bytes \<Rightarrow> config_evt_t" where
  "read_config u = \<lparr> cfg_name = take 16 u, cfg_price = word_of_nat (le_value (take 4 (drop 16 u))),
     cfg_pulses_per_credit = word_of_nat (le_value (take 2 (drop 20 u))) \<rparr>"

definition read_credit :: "bytes \<Rightarrow> credit_evt_t" where
  "read_credit u = \<lparr> credit_count = word_of_nat (le_value (take 2 u)),
     credit_balance = word_of_nat (le_value (take 4 (drop 4 u))) \<rparr>"

definition read_enable :: "bytes \<Rightarrow> enable_evt_t" where
  "read_enable u = \<lparr> enable_flag = word_of_nat (le_value (take 4 u)) \<rparr>"

definition read_mqtt_event :: "bytes \<Rightarrow> nat" where
  "read_mqtt_event u = le_value (take 4 u)"

lemma le_word [simp]:
  "word_of_nat (le_value (le_bytes 2 (unat (w :: u16)))) = w"
  "word_of_nat (le_value (le_bytes 4 (unat (v :: u32)))) = v"
proof -
  have "unat w < 256 ^ 2" "unat v < 256 ^ 4"
    using unsigned_less [of w, where 'a = nat] unsigned_less [of v, where 'a = nat] by simp_all
  then show "word_of_nat (le_value (le_bytes 2 (unat w))) = w" "word_of_nat (le_value (le_bytes 4 (unat v))) = v"
    by (simp_all del: power_numeral add: le_value_bytes)
qed

lemma read_config_bytes:
  "length (cfg_name e) = 16 \<Longrightarrow> read_config (config_bytes e @ rest) = e"
  by (cases e) (simp add: read_config_def config_bytes_def)

lemma read_credit_bytes: "read_credit (credit_bytes e @ rest) = e"
  by (cases e) (simp add: read_credit_def credit_bytes_def)

lemma read_enable_bytes: "read_enable (enable_bytes e @ rest) = e"
  by (cases e) (simp add: read_enable_def enable_bytes_def)

lemma read_mqtt_event_bytes: "read_mqtt_event (mqtt_event_bytes e @ rest) = mqtt_event_code e"
  by (cases e) (simp_all add: read_mqtt_event_def mqtt_event_bytes_def le_value_bytes)

section \<open>The event queue\<close>

abbreviation (input) EVT_QUEUE_LEN :: nat where "EVT_QUEUE_LEN \<equiv> 4"
abbreviation (input) RT_TICK_MAX :: u32 where "RT_TICK_MAX \<equiv> 0xFFFFFFFF"

text \<open>\<open>None\<close> inside is a null queue, on which the assertion fails.\<close>

definition event_handler_init ::
    "(nat \<Rightarrow> nat \<Rightarrow> rt_mq_message list option) \<Rightarrow> rt_messagequeue option" where
  "event_handler_init heap = do {
     q \<leftarrow> rt_mq_create event_size EVT_QUEUE_LEN heap;
     q }"

text \<open>\<open>junk\<close> is what the stack has where \<open>evt\<close> is; the result of \<open>rt_mq_send\<close> is dropped.\<close>

definition event_handler_push_event ::
    "bytes \<Rightarrow> event_type_t \<Rightarrow> bytes \<Rightarrow> rt_messagequeue \<Rightarrow> rt_messagequeue option" where
  "event_handler_push_event junk type data q = do {
     evt \<leftarrow> blit junk 0 (le_bytes 4 (event_type_code type));
     evt \<leftarrow> (if length data \<le> union_size then blit evt 4 data else None);
     (_, q) \<leftarrow> rt_mq_send evt q;
     Some q }"

text \<open>RT_TICK_MAX is -1 as the signed timeout, so the call waits until there is an event.\<close>

definition event_handler_read_event ::
    "thread_id \<Rightarrow> wakeup list \<Rightarrow> rt_messagequeue \<Rightarrow> (bool \<times> bytes \<times> rt_messagequeue) option" where
  "event_handler_read_event self ws q = do {
     (n, b, q) \<leftarrow> rt_mq_recv self ws event_size (sint RT_TICK_MAX) q;
     Some (n > 0, b, q) }"

section \<open>Pushing and reading\<close>

definition event_queue_ok :: "rt_messagequeue \<Rightarrow> bool" where
  "event_queue_ok q \<longleftrightarrow> mq_ok_sized q \<and> mq_fits q = (\<lambda>b. b \<noteq> [] \<and> length b \<le> event_size)
     \<and> mq_room q + length (mq_contents q) = EVT_QUEUE_LEN"

lemma init_ok:
  assumes "event_handler_init heap = Some q" and "good_heap heap"
  shows "event_queue_ok q \<and> mq_contents q = []"
proof -
  from assms(1) have "rt_mq_create event_size EVT_QUEUE_LEN heap = Some (Some q)"
    by (auto simp: event_handler_init_def bind_eq_Some_conv)
  from create_inv [OF this assms(2)] obtain fs where inv: "mq_inv q [] fs {}" "length fs = 4" "unat (msg_size q) = 40"
    by (auto simp: unat_of_nat_u16)
  then have "mq_contents q = []" by (simp add: mq_contents_inv)
  with inv show ?thesis
    by (auto simp: event_queue_ok_def mq_ok_sized_def mq_ok_def mq_fits_def mq_room_inv fun_eq_iff)
qed

text \<open>The bytes of an event of a type and with the given data, whatever the stack held.\<close>

definition is_event :: "event_type_t \<Rightarrow> bytes \<Rightarrow> bytes \<Rightarrow> bool" where
  "is_event type data b \<longleftrightarrow> length b = event_size \<and> event_code b = event_type_code type
     \<and> (\<exists>rest. event_union b = data @ rest)"

lemma type_code_bytes: "le_value (le_bytes 4 (event_type_code type)) = event_type_code type"
  by (rule le_value_bytes) (cases type; simp)

lemma push_event:
  assumes q: "event_queue_ok q" and len: "length junk = event_size" "length data \<le> union_size"
  shows "\<exists>q' b. event_handler_push_event junk type data q = Some q' \<and> event_queue_ok q' \<and> is_event type data b
    \<and> mq_contents q' = (if length (mq_contents q) < EVT_QUEUE_LEN then mq_contents q @ [b] else mq_contents q)"
proof -
  let ?t = "le_bytes 4 (event_type_code type)"
  let ?b = "?t @ data @ drop (4 + length data) junk"
  from len have run: "event_handler_push_event junk type data q = Option.bind (rt_mq_send ?b q) (\<lambda>(_, q). Some q)"
    by (simp add: event_handler_push_event_def blit_def add.commute)
  have ev: "is_event type data ?b"
    using len by (simp add: is_event_def event_code_def event_union_def type_code_bytes)
  have fits: "mq_fits q ?b" using q len by (auto simp: event_queue_ok_def)
  from q have ok: "mq_ok_sized q" by (simp add: event_queue_ok_def)
  have enq: "Option.bind (rt_mq_send ?b q) (\<lambda>(_, q). Some q) = mq_enq ?b q"
    by (cases "rt_mq_send ?b q") (auto simp: mq_enq_def)
  show ?thesis
  proof (cases "mq_room q = 0")
    case True
    with q kq.enq_full [OF ok fits True] show ?thesis
      using ev by (intro exI [of _ q] exI [of _ ?b]) (auto simp: run enq event_queue_ok_def)
  next
    case False
    with kq.enq_room [OF ok fits] obtain q' where "mq_enq ?b q = Some q'" "mq_ok_sized q'"
      "mq_contents q' = mq_contents q @ [?b]" "mq_room q' = mq_room q - 1" "mq_fits q' = mq_fits q" by auto
    with q False ev show ?thesis
      by (intro exI [of _ q'] exI [of _ ?b]) (auto simp: run enq event_queue_ok_def)
  qed
qed

lemma read_event:
  assumes q: "event_queue_ok q" and c: "mq_contents q = b # bs"
  shows "\<exists>q'. event_handler_read_event self ws q = Some (True, b, q') \<and> event_queue_ok q' \<and> mq_contents q' = bs"
proof -
  from q obtain qs fs where inv: "mq_inv q qs fs {}" by (auto simp: event_queue_ok_def mq_ok_sized_def mq_ok_def)
  from c mq_contents_inv [OF inv] obtain m qs' where qs: "qs = m # qs'" "b = message q m" by (cases qs) auto
  have b: "b \<noteq> []" "length b \<le> event_size" using q c by (auto simp: event_queue_ok_def mq_ok_sized_def)
  from recv_first [OF inv [unfolded qs(1)], of event_size self ws "sint RT_TICK_MAX"] obtain q' where q':
    "rt_mq_recv self ws event_size (sint RT_TICK_MAX) q = Some (int (length b), b, q')"
    "mq_inv q' qs' (m # fs) {}" "mq_contents q' = bs" "msg_size q' = msg_size q"
    using b(2) c qs(2) by auto
  have "mq_fits q' = mq_fits q" using q'(4) by (simp add: mq_fits_def fun_eq_iff)
  then have "event_queue_ok q'"
    using q q' c mq_room_inv [OF inv] mq_room_inv [OF q'(2)]
    by (auto simp: event_queue_ok_def mq_ok_sized_def mq_ok_def)
  with q' b show ?thesis by (auto simp: event_handler_read_event_def)
qed

text \<open>An empty queue keeps the reader waiting.\<close>

lemma read_blocks:
  assumes "event_queue_ok q" and "mq_contents q = []"
  shows "event_handler_read_event self [] q = None"
proof -
  from assms(1) obtain qs fs where inv: "mq_inv q qs fs {}" by (auto simp: event_queue_ok_def mq_ok_sized_def mq_ok_def)
  with assms(2) mq_contents_inv [OF inv] entry_zero [OF inv] have "entry q = 0" by simp
  then show ?thesis
    by (simp add: event_handler_read_event_def rt_mq_recv_def mq_wait_entry.simps)
qed

end
