(* ===== verification/Lcd.thy ===== *)
theory Lcd
  imports Prelude
begin

text \<open>
  The display driver \<open>lcd.c\<close>: an HD44780 in 4 bit mode behind an 8 bit I/O expander on the I2C bus.
  What the driver does to the outside is a trace of effects: the bytes it hands to the bus, the reads
  that follow them, and the delays. The bus is a parameter: whether the device is found and whether
  a transfer (after a given trace) succeeds.
\<close>

section \<open>State\<close>

datatype effect = I2C_Write u8 | I2C_Read | Delay_us nat | Delay_ms nat | Pin_Write int bool

record i2c_bus =
  bus_found :: bool
  bus_transfer :: "effect list \<Rightarrow> bool"

record lcd =
  dev :: bool
  port_value :: u8
  DisplayControl :: u8
  DisplayFunction :: u8
  DisplayMode :: u8
  currentX :: u8
  currentY :: u8
  trace :: "effect list"

text \<open>The statics before \<open>main\<close> runs.\<close>

definition lcd_reset :: lcd where
  "lcd_reset = \<lparr> dev = False, port_value = 0xFF, DisplayControl = 0, DisplayFunction = 0, DisplayMode = 0,
     currentX = 0, currentY = 0, trace = [] \<rparr>"

abbreviation (input) LCD_D7_PIN :: nat where "LCD_D7_PIN \<equiv> 7"
abbreviation (input) LCD_D6_PIN :: nat where "LCD_D6_PIN \<equiv> 6"
abbreviation (input) LCD_D5_PIN :: nat where "LCD_D5_PIN \<equiv> 5"
abbreviation (input) LCD_D4_PIN :: nat where "LCD_D4_PIN \<equiv> 4"
abbreviation (input) LCD_E_PIN :: nat where "LCD_E_PIN \<equiv> 2"
abbreviation (input) LCD_RW_PIN :: nat where "LCD_RW_PIN \<equiv> 1"
abbreviation (input) LCD_RS_PIN :: nat where "LCD_RS_PIN \<equiv> 0"
abbreviation (input) LCD_COLS :: u8 where "LCD_COLS \<equiv> 16"
abbreviation (input) LCD_ROWS :: u8 where "LCD_ROWS \<equiv> 2"

abbreviation (input) LCD_CLEARDISPLAY :: u8 where "LCD_CLEARDISPLAY \<equiv> 0x01"
abbreviation (input) LCD_ENTRYMODESET :: u8 where "LCD_ENTRYMODESET \<equiv> 0x04"
abbreviation (input) LCD_DISPLAYCONTROL :: u8 where "LCD_DISPLAYCONTROL \<equiv> 0x08"
abbreviation (input) LCD_CURSORSHIFT :: u8 where "LCD_CURSORSHIFT \<equiv> 0x10"
abbreviation (input) LCD_FUNCTIONSET :: u8 where "LCD_FUNCTIONSET \<equiv> 0x20"
abbreviation (input) LCD_SETCGRAMADDR :: u8 where "LCD_SETCGRAMADDR \<equiv> 0x40"
abbreviation (input) LCD_SETDDRAMADDR :: u8 where "LCD_SETDDRAMADDR \<equiv> 0x80"
abbreviation (input) LCD_ENTRYLEFT :: u8 where "LCD_ENTRYLEFT \<equiv> 0x02"
abbreviation (input) LCD_DISPLAYON_FLAG :: u8 where "LCD_DISPLAYON_FLAG \<equiv> 0x04"
abbreviation (input) LCD_CURSORON_FLAG :: u8 where "LCD_CURSORON_FLAG \<equiv> 0x02"
abbreviation (input) LCD_BLINKON_FLAG :: u8 where "LCD_BLINKON_FLAG \<equiv> 0x01"
abbreviation (input) LCD_DISPLAYMOVE :: u8 where "LCD_DISPLAYMOVE \<equiv> 0x08"
abbreviation (input) LCD_MOVERIGHT :: u8 where "LCD_MOVERIGHT \<equiv> 0x04"
abbreviation (input) LCD_2LINE :: u8 where "LCD_2LINE \<equiv> 0x08"

section \<open>Pins\<close>

definition emit :: "effect \<Rightarrow> lcd \<Rightarrow> lcd" where
  "emit e s = s\<lparr>trace := trace s @ [e]\<rparr>"

definition lcd_pin_write :: "i2c_bus \<Rightarrow> nat \<Rightarrow> bool \<Rightarrow> lcd \<Rightarrow> int \<times> lcd" where
  "lcd_pin_write bus pin value s =
     (let s = (if dev s then s else s\<lparr>dev := bus_found bus\<rparr>) in
      if \<not> dev s then (- 1, s)
      else
        let s = s\<lparr>port_value := (if value then port_value s OR push_bit pin 1
                                 else port_value s AND NOT (push_bit pin 1))\<rparr>;
            ok = bus_transfer bus (trace s);
            s = emit (I2C_Write (port_value s)) s in
        if \<not> ok then (- 1, s)
        else
          let ok = bus_transfer bus (trace s); s = emit I2C_Read s in
          (if ok then 0 else - 1, s))"

text \<open>The driver never looks at the result.\<close>

definition pin :: "i2c_bus \<Rightarrow> nat \<Rightarrow> bool \<Rightarrow> lcd \<Rightarrow> lcd" where
  "pin bus p v s = snd (lcd_pin_write bus p v s)"

definition LCD_Delay_us :: "nat \<Rightarrow> lcd \<Rightarrow> lcd" where
  "LCD_Delay_us us s = emit (Delay_us us) s"

definition LCD_Delay_ms :: "nat \<Rightarrow> lcd \<Rightarrow> lcd" where
  "LCD_Delay_ms ms s = emit (Delay_ms ms) s"

section \<open>Commands and data\<close>

definition LCD_Cmd4bit :: "i2c_bus \<Rightarrow> u8 \<Rightarrow> lcd \<Rightarrow> lcd" where
  "LCD_Cmd4bit bus cmd s =
     (let s = pin bus LCD_D7_PIN (cmd AND 0x08 \<noteq> 0) s;
          s = pin bus LCD_D6_PIN (cmd AND 0x04 \<noteq> 0) s;
          s = pin bus LCD_D5_PIN (cmd AND 0x02 \<noteq> 0) s;
          s = pin bus LCD_D4_PIN (cmd AND 0x01 \<noteq> 0) s;
          s = pin bus LCD_E_PIN False s;
          s = LCD_Delay_us 100 s;
          s = pin bus LCD_E_PIN True s;
          s = LCD_Delay_us 100 s
      in pin bus LCD_E_PIN False s)"

definition LCD_Cmd :: "i2c_bus \<Rightarrow> u8 \<Rightarrow> lcd \<Rightarrow> lcd" where
  "LCD_Cmd bus cmd s =
     (let s = pin bus LCD_RS_PIN False s;
          s = LCD_Cmd4bit bus (drop_bit 4 cmd) s
      in LCD_Cmd4bit bus (cmd AND 0x0F) s)"

definition LCD_Data :: "i2c_bus \<Rightarrow> u8 \<Rightarrow> lcd \<Rightarrow> lcd" where
  "LCD_Data bus data s =
     (let s = pin bus LCD_RS_PIN True s;
          s = LCD_Cmd4bit bus (drop_bit 4 data) s
      in LCD_Cmd4bit bus (data AND 0x0F) s)"

definition row_offset :: "u8 \<Rightarrow> u8" where
  "row_offset row = (if row = 0 then 0x00 else if row = 1 then 0x40 else if row = 2 then 0x14 else 0x54)"

definition LCD_CursorSet :: "i2c_bus \<Rightarrow> u8 \<Rightarrow> u8 \<Rightarrow> lcd \<Rightarrow> lcd" where
  "LCD_CursorSet bus col row s =
     (let row = (if row \<ge> LCD_ROWS then 0 else row);
          s = s\<lparr>currentX := col, currentY := row\<rparr>
      in LCD_Cmd bus (LCD_SETDDRAMADDR OR (col + row_offset row)) s)"

definition LCD_Clear :: "i2c_bus \<Rightarrow> lcd \<Rightarrow> lcd" where
  "LCD_Clear bus s = LCD_Delay_ms 5 (LCD_Cmd bus LCD_CLEARDISPLAY s)"

definition LCD_DisplayOn :: "i2c_bus \<Rightarrow> lcd \<Rightarrow> lcd" where
  "LCD_DisplayOn bus s =
     (let s = s\<lparr>DisplayControl := DisplayControl s OR LCD_DISPLAYON_FLAG\<rparr>
      in LCD_Cmd bus (LCD_DISPLAYCONTROL OR DisplayControl s) s)"

definition LCD_DisplayOff :: "i2c_bus \<Rightarrow> lcd \<Rightarrow> lcd" where
  "LCD_DisplayOff bus s =
     (let s = s\<lparr>DisplayControl := DisplayControl s AND NOT LCD_DISPLAYON_FLAG\<rparr>
      in LCD_Cmd bus (LCD_DISPLAYCONTROL OR DisplayControl s) s)"

definition LCD_BlinkOn :: "i2c_bus \<Rightarrow> lcd \<Rightarrow> lcd" where
  "LCD_BlinkOn bus s =
     (let s = s\<lparr>DisplayControl := DisplayControl s OR LCD_BLINKON_FLAG\<rparr>
      in LCD_Cmd bus (LCD_DISPLAYCONTROL OR DisplayControl s) s)"

definition LCD_BlinkOff :: "i2c_bus \<Rightarrow> lcd \<Rightarrow> lcd" where
  "LCD_BlinkOff bus s =
     (let s = s\<lparr>DisplayControl := DisplayControl s AND NOT LCD_BLINKON_FLAG\<rparr>
      in LCD_Cmd bus (LCD_DISPLAYCONTROL OR DisplayControl s) s)"

definition LCD_CursorOn :: "i2c_bus \<Rightarrow> lcd \<Rightarrow> lcd" where
  "LCD_CursorOn bus s =
     (let s = s\<lparr>DisplayControl := DisplayControl s OR LCD_CURSORON_FLAG\<rparr>
      in LCD_Cmd bus (LCD_DISPLAYCONTROL OR DisplayControl s) s)"

definition LCD_CursorOff :: "i2c_bus \<Rightarrow> lcd \<Rightarrow> lcd" where
  "LCD_CursorOff bus s =
     (let s = s\<lparr>DisplayControl := DisplayControl s AND NOT LCD_CURSORON_FLAG\<rparr>
      in LCD_Cmd bus (LCD_DISPLAYCONTROL OR DisplayControl s) s)"

definition LCD_ScrollLeft :: "i2c_bus \<Rightarrow> lcd \<Rightarrow> lcd" where
  "LCD_ScrollLeft bus s = LCD_Cmd bus (LCD_CURSORSHIFT OR LCD_DISPLAYMOVE) s"

definition LCD_ScrollRight :: "i2c_bus \<Rightarrow> lcd \<Rightarrow> lcd" where
  "LCD_ScrollRight bus s = LCD_Cmd bus (LCD_CURSORSHIFT OR LCD_DISPLAYMOVE OR LCD_MOVERIGHT) s"

text \<open>The eight bytes of a character; \<open>None\<close> when the caller's array is shorter.\<close>

definition LCD_CreateChar :: "i2c_bus \<Rightarrow> u8 \<Rightarrow> bytes \<Rightarrow> lcd \<Rightarrow> lcd option" where
  "LCD_CreateChar bus location data s = do {
     let s = LCD_Cmd bus (LCD_SETCGRAMADDR OR push_bit 3 (location AND 0x07)) s;
     b \<leftarrow> rd_block data 0 8;
     Some (fold (LCD_Data bus) b s) }"

definition LCD_PutCustom :: "i2c_bus \<Rightarrow> u8 \<Rightarrow> u8 \<Rightarrow> u8 \<Rightarrow> lcd \<Rightarrow> lcd" where
  "LCD_PutCustom bus x y location s = LCD_Data bus location (LCD_CursorSet bus x y s)"

definition LCD_Put :: "i2c_bus \<Rightarrow> u8 \<Rightarrow> lcd \<Rightarrow> lcd" where
  "LCD_Put bus data s = LCD_Data bus data s"

text \<open>The loop over the characters of a string; the list ends where the string does.\<close>

fun puts_loop :: "i2c_bus \<Rightarrow> bytes \<Rightarrow> lcd \<Rightarrow> lcd" where
  "puts_loop bus [] s = s"
| "puts_loop bus (c # cs) s =
     (if c = 0 then s
      else
        let s = (if currentX s \<ge> LCD_COLS
                 then (let s = s\<lparr>currentX := 0, currentY := currentY s + 1\<rparr>
                       in LCD_CursorSet bus (currentX s) (currentY s) s)
                 else s);
            s = (if c = 10
                 then (let s = s\<lparr>currentY := currentY s + 1\<rparr> in LCD_CursorSet bus (currentX s) (currentY s) s)
                 else if c = 13 then LCD_CursorSet bus 0 (currentY s) s
                 else (let s = LCD_Data bus c s in s\<lparr>currentX := currentX s + 1\<rparr>))
        in puts_loop bus cs s)"

definition LCD_Puts :: "i2c_bus \<Rightarrow> u8 \<Rightarrow> u8 \<Rightarrow> bytes \<Rightarrow> lcd \<Rightarrow> lcd" where
  "LCD_Puts bus x y str s = puts_loop bus str (LCD_CursorSet bus x y s)"

text \<open>The wait of 40 ms, the pins low, three times 3 and a 2 to get into 4 bit mode, then the set-up.\<close>

definition LCD_Init :: "i2c_bus \<Rightarrow> lcd \<Rightarrow> lcd" where
  "LCD_Init bus s =
     (let s = LCD_Delay_ms 40 s;
          s = pin bus LCD_D4_PIN False s; s = pin bus LCD_D5_PIN False s;
          s = pin bus LCD_D6_PIN False s; s = pin bus LCD_D7_PIN False s;
          s = pin bus LCD_RW_PIN False s; s = pin bus LCD_RS_PIN False s; s = pin bus LCD_E_PIN False s;
          s = LCD_Delay_ms 1 s;
          s = s\<lparr>currentX := 0, currentY := 0, DisplayFunction := LCD_2LINE\<rparr>;
          s = LCD_Delay_ms 5 (LCD_Cmd4bit bus 0x03 s);
          s = LCD_Delay_ms 5 (LCD_Cmd4bit bus 0x03 s);
          s = LCD_Delay_ms 5 (LCD_Cmd4bit bus 0x03 s);
          s = LCD_Delay_ms 5 (LCD_Cmd4bit bus 0x02 s);
          s = LCD_Cmd bus (LCD_FUNCTIONSET OR DisplayFunction s) s;
          s = s\<lparr>DisplayControl := LCD_DISPLAYON_FLAG\<rparr>;
          s = LCD_Delay_ms 5 (LCD_DisplayOn bus s);
          s = LCD_Delay_ms 5 (LCD_Clear bus s);
          s = s\<lparr>DisplayMode := LCD_ENTRYLEFT\<rparr>;
          s = LCD_Cmd bus (LCD_ENTRYMODESET OR DisplayMode s) s
      in LCD_Delay_ms 5 s)"

end
