(* ===== verification/Lcd_Panel.thy ===== *)
theory Lcd_Panel
  imports Lcd
begin

text \<open>
  What the display shows: the panel as its data sheet describes it (it latches a nibble, or a byte's
  upper half in 8 bit mode, when E falls), run over the bytes the driver puts on the expander, and the
  driver's functions seen through it. Every byte written to the expander arrives (\<open>I2c_Display\<close> shows that the
  transfers on the wires succeed). The panel is its memory and its cursor: the controls that only change
  how the memory is displayed - on and off, the number of lines, the window - have no effect here.
\<close>

section \<open>The panel\<close>

record panel =
  lines_in :: u8
  eight_bit :: bool
  half :: "u8 option"
  increment :: bool
  in_cgram :: bool
  address :: nat
  ddram :: "nat \<Rightarrow> u8"

definition power_on :: panel where
  "power_on = \<lparr> lines_in = 0xFF, eight_bit = True, half = None, increment = True, in_cgram = False,
     address = 0, ddram = (\<lambda>_. 32) \<rparr>"

text \<open>Both lines have 40 places; the address runs from the end of one to the start of the other.\<close>

definition next_address :: "nat \<Rightarrow> nat" where
  "next_address a = (if a = 0x27 then 0x40 else if a = 0x67 then 0 else a + 1)"

definition prev_address :: "nat \<Rightarrow> nat" where
  "prev_address a = (if a = 0x40 then 0x27 else if a = 0 then 0x67 else a - 1)"

definition move :: "panel \<Rightarrow> panel" where
  "move p = p\<lparr>address := (if increment p then next_address (address p) else prev_address (address p))\<rparr>"

definition command :: "u8 \<Rightarrow> panel \<Rightarrow> panel" where
  "command b p =
     (if b \<ge> 0x80 then p\<lparr>address := unat (b AND 0x7F), in_cgram := False\<rparr>
      else if b \<ge> 0x40 then p\<lparr>in_cgram := True\<rparr>
      else if b \<ge> 0x20 then p\<lparr>eight_bit := bit b 4\<rparr>
      else if b \<ge> 0x08 then p
      else if b \<ge> 0x04 then p\<lparr>increment := bit b 1\<rparr>
      else if b \<ge> 0x02 then p\<lparr>address := 0, in_cgram := False\<rparr>
      else if b = 0x01 then p\<lparr>ddram := (\<lambda>_. 32), address := 0, increment := True, in_cgram := False\<rparr>
      else p)"

definition receive :: "bool \<Rightarrow> u8 \<Rightarrow> panel \<Rightarrow> panel" where
  "receive rs b p =
     (if \<not> rs then command b p
      else move (if in_cgram p then p else p\<lparr>ddram := (ddram p)(address p := b)\<rparr>))"

definition latch :: "bool \<Rightarrow> u8 \<Rightarrow> panel \<Rightarrow> panel" where
  "latch rs nibble p =
     (if eight_bit p then receive rs (push_bit 4 nibble) p
      else (case half p of
          None \<Rightarrow> p\<lparr>half := Some nibble\<rparr>
        | Some h \<Rightarrow> receive rs (push_bit 4 h OR nibble) (p\<lparr>half := None\<rparr>)))"

fun panel_step :: "effect \<Rightarrow> panel \<Rightarrow> panel" where
  "panel_step (I2C_Write b) p =
     (if bit (lines_in p) LCD_E_PIN \<and> \<not> bit b LCD_E_PIN \<and> \<not> bit b LCD_RW_PIN
      then latch (bit b LCD_RS_PIN) (drop_bit 4 b) (p\<lparr>lines_in := b\<rparr>)
      else p\<lparr>lines_in := b\<rparr>)"
| "panel_step e p = p"

definition screen :: "lcd \<Rightarrow> panel" where
  "screen s = fold panel_step (trace s) power_on"

section \<open>The driver through the panel\<close>

lemma screen_emit: "screen (emit e s) = panel_step e (screen s)"
  by (simp add: screen_def emit_def)

definition set_pin :: "nat \<Rightarrow> bool \<Rightarrow> u8 \<Rightarrow> u8" where
  "set_pin k v w = (if v then w OR push_bit k 1 else w AND NOT (push_bit k 1))"

lemma bit_set_pin: "k < 8 \<Longrightarrow> n < 8 \<Longrightarrow> bit (set_pin k v w) n \<longleftrightarrow> (if n = k then v else bit w n)"
  by (auto simp: set_pin_def bit_simps)

lemma pin_screen:
  "dev s \<Longrightarrow> screen (pin bus k v s) = panel_step (I2C_Write (set_pin k v (port_value s))) (screen s)"
  by (simp add: pin_def lcd_pin_write_def Let_def set_pin_def screen_def emit_def)

lemma pin_fields [simp]:
  "dev s \<Longrightarrow> dev (pin bus k v s)"
  "dev s \<Longrightarrow> port_value (pin bus k v s) = set_pin k v (port_value s)"
  "currentX (pin bus k v s) = currentX s" "currentY (pin bus k v s) = currentY s"
  "DisplayControl (pin bus k v s) = DisplayControl s"
  by (simp_all add: pin_def lcd_pin_write_def Let_def set_pin_def emit_def)

lemma delay_fields [simp]:
  "screen (LCD_Delay_us n s) = screen s" "screen (LCD_Delay_ms n s) = screen s"
  "dev (LCD_Delay_us n s) = dev s" "dev (LCD_Delay_ms n s) = dev s"
  "port_value (LCD_Delay_us n s) = port_value s" "port_value (LCD_Delay_ms n s) = port_value s"
  "currentX (LCD_Delay_us n s) = currentX s" "currentX (LCD_Delay_ms n s) = currentX s"
  "currentY (LCD_Delay_us n s) = currentY s" "currentY (LCD_Delay_ms n s) = currentY s"
  by (simp_all add: LCD_Delay_us_def LCD_Delay_ms_def screen_emit) (simp_all add: emit_def)

text \<open>The expander and the panel agree, E and RW are low.\<close>

definition wired :: "lcd \<Rightarrow> bool" where
  "wired s \<longleftrightarrow> dev s \<and> lines_in (screen s) = port_value s \<and> \<not> bit (port_value s) LCD_E_PIN
     \<and> \<not> bit (port_value s) LCD_RW_PIN"

lemma and_bit: "(w :: u8) AND 0x08 \<noteq> 0 \<longleftrightarrow> bit w 3" "w AND 0x04 \<noteq> 0 \<longleftrightarrow> bit w 2"
  "w AND 0x02 \<noteq> 0 \<longleftrightarrow> bit w 1" "w AND 0x01 \<noteq> 0 \<longleftrightarrow> bit w 0"
  using bit_iff_and_push_bit_not_eq_0 [of w 3] bit_iff_and_push_bit_not_eq_0 [of w 2]
    bit_iff_and_push_bit_not_eq_0 [of w 1] bit_iff_and_push_bit_not_eq_0 [of w 0]
  by simp_all

lemma latch_lines: "lines_in (latch rs n p) = lines_in p" "latch rs n (p\<lparr>lines_in := l\<rparr>) = (latch rs n p)\<lparr>lines_in := l\<rparr>"
  by (simp_all add: latch_def receive_def command_def move_def split: option.split)

text \<open>One call, one nibble.\<close>

lemma cmd4bit:
  assumes "wired s"
  shows "wired (LCD_Cmd4bit bus cmd s)
    \<and> screen (LCD_Cmd4bit bus cmd s)
        = (latch (bit (port_value s) 0) (cmd AND 0x0F) (screen s))\<lparr>lines_in := port_value (LCD_Cmd4bit bus cmd s)\<rparr>
    \<and> bit (port_value (LCD_Cmd4bit bus cmd s)) 0 = bit (port_value s) 0
    \<and> currentX (LCD_Cmd4bit bus cmd s) = currentX s \<and> currentY (LCD_Cmd4bit bus cmd s) = currentY s"
proof -
  let ?w = "set_pin 4 (bit cmd 0) (set_pin 5 (bit cmd (Suc 0)) (set_pin 6 (bit cmd 2) (set_pin 7 (bit cmd 3) (port_value s))))"
  have nibble: "drop_bit 4 (set_pin 2 False (set_pin 2 True (set_pin 2 False ?w))) = cmd AND 0x0F"
  proof (rule bit_eqI)
    fix n :: nat
    have "n < 4 \<Longrightarrow> n = 0 \<or> n = 1 \<or> n = 2 \<or> n = 3" by linarith
    moreover have mask: "bit (0x0F :: u8) n \<longleftrightarrow> n < 4"
      using bit_mask_iff [where ?'a = u8, of 4 n] by (auto simp: mask_eq_exp_minus_1)
    ultimately show "bit (drop_bit 4 (set_pin 2 False (set_pin 2 True (set_pin 2 False ?w)))) n = bit (cmd AND 0x0F) n"
      by (cases "n < 4") (auto simp: bit_drop_bit_eq bit_and_iff bit_set_pin dest: bit_imp_le_length)
  qed
  show ?thesis
    using assms
    by (simp add: wired_def LCD_Cmd4bit_def Let_def pin_screen and_bit bit_set_pin nibble latch_lines)
qed

text \<open>Two calls, one byte: in 4 bit mode, with no half byte pending.\<close>

definition ready :: "lcd \<Rightarrow> bool" where
  "ready s \<longleftrightarrow> wired s \<and> \<not> eight_bit (screen s) \<and> half (screen s) = None \<and> increment (screen s)"

lemma low_mask: "(0x0F :: u8) = mask 4"
  by (simp add: mask_eq_exp_minus_1)

lemma nibbles: "push_bit 4 (drop_bit 4 (w :: u8) AND 0x0F) OR (w AND 0x0F) = w"
  unfolding low_mask take_bit_eq_mask [symmetric]
proof (rule bit_eqI)
  fix n :: nat
  assume "possible_bit TYPE(u8) n"
  then have "n < 8" by simp
  then show "bit (push_bit 4 (take_bit 4 (drop_bit 4 w)) OR take_bit 4 w) n = bit w n"
    by (cases "n < 4") (auto simp: bit_simps)
qed

lemma wired_rs:
  "wired s \<Longrightarrow> wired (pin bus LCD_RS_PIN v s) \<and> screen (pin bus LCD_RS_PIN v s)
     = (screen s)\<lparr>lines_in := set_pin LCD_RS_PIN v (port_value s)\<rparr>"
  by (simp add: wired_def pin_screen bit_set_pin)

lemma two_nibbles:
  fixes bus b
  assumes w: "wired s" and m: "\<not> eight_bit (screen s)" "half (screen s) = None"
  defines "s' \<equiv> LCD_Cmd4bit bus (b AND 0x0F) (LCD_Cmd4bit bus (drop_bit 4 b) s)"
  shows "wired s' \<and> screen s' = (receive (bit (port_value s) 0) b (screen s))\<lparr>lines_in := port_value s'\<rparr>
    \<and> currentX s' = currentX s \<and> currentY s' = currentY s"
proof -
  let ?s1 = "LCD_Cmd4bit bus (drop_bit 4 b) s"
  note c1 = cmd4bit [OF w, of bus "drop_bit 4 b"]
  from c1 have w1: "wired ?s1" by simp
  note c2 = cmd4bit [OF w1, of bus "b AND 0x0F"]
  have idem: "(b AND 0x0F) AND 0x0F = b AND (0x0F :: u8)" by (simp add: and.assoc)
  have l1: "latch r n (screen s) = (screen s)\<lparr>half := Some n\<rparr>" for r n
    using m by (simp add: latch_def)
  have l2: "latch r n (p\<lparr>half := Some h, lines_in := l\<rparr>) = receive r (push_bit 4 h OR n) (p\<lparr>half := None, lines_in := l\<rparr>)"
    if "\<not> eight_bit p" for r n h l p
    using that by (cases p) (simp add: latch_def)
  have rl: "(receive r n (p\<lparr>lines_in := l\<rparr>))\<lparr>lines_in := l'\<rparr> = (receive r n p)\<lparr>lines_in := l'\<rparr>" for r n p l l'
    by (simp add: receive_def command_def move_def)
  have same: "(screen s)\<lparr>half := None\<rparr> = screen s" using m(2) by (cases "screen s") simp
  have s1: "screen ?s1 = (screen s)\<lparr>half := Some (drop_bit 4 b AND 0x0F), lines_in := port_value ?s1\<rparr>"
    using c1 by (simp only: l1)
  have "screen s' = (receive (bit (port_value s) 0) b (screen s))\<lparr>lines_in := port_value s'\<rparr>"
  proof -
    have "screen s' = (latch (bit (port_value s) 0) (b AND 0x0F) (screen ?s1))\<lparr>lines_in := port_value s'\<rparr>"
      using c1 c2 unfolding s'_def by (simp only: idem)
    also have "\<dots> = (receive (bit (port_value s) 0) b (screen s))\<lparr>lines_in := port_value s'\<rparr>"
      by (simp only: s1 l2 [OF m(1)] nibbles rl same)
    finally show ?thesis .
  qed
  with c1 c2 show ?thesis unfolding s'_def by simp
qed

lemma data_screen:
  assumes "wired s" and "\<not> eight_bit (screen s)" and "half (screen s) = None"
  shows "wired (LCD_Data bus d s)
    \<and> screen (LCD_Data bus d s) = (receive True d (screen s))\<lparr>lines_in := port_value (LCD_Data bus d s)\<rparr>
    \<and> currentX (LCD_Data bus d s) = currentX s \<and> currentY (LCD_Data bus d s) = currentY s"
proof -
  let ?s = "pin bus LCD_RS_PIN True s"
  from assms wired_rs [of s bus True] have "wired ?s" "\<not> eight_bit (screen ?s)" "half (screen ?s) = None"
    "bit (port_value ?s) 0" "dev s" by (auto simp: bit_set_pin wired_def)
  from two_nibbles [OF this(1-3), of bus d] this(4,5) wired_rs [OF assms(1), of bus True] show ?thesis
    by (simp add: LCD_Data_def Let_def receive_def move_def)
qed

lemma cmd_screen:
  assumes "wired s" and "\<not> eight_bit (screen s)" and "half (screen s) = None"
  shows "wired (LCD_Cmd bus c s)
    \<and> screen (LCD_Cmd bus c s) = (command c (screen s))\<lparr>lines_in := port_value (LCD_Cmd bus c s)\<rparr>
    \<and> currentX (LCD_Cmd bus c s) = currentX s \<and> currentY (LCD_Cmd bus c s) = currentY s"
proof -
  let ?s = "pin bus LCD_RS_PIN False s"
  from assms wired_rs [of s bus False] have "wired ?s" "\<not> eight_bit (screen ?s)" "half (screen ?s) = None"
    "\<not> bit (port_value ?s) 0" "dev s" by (auto simp: bit_set_pin wired_def)
  from two_nibbles [OF this(1-3), of bus c] this(4,5) wired_rs [OF assms(1), of bus False] show ?thesis
    by (simp add: LCD_Cmd_def Let_def receive_def command_def)
qed

section \<open>Text on the display\<close>

text \<open>The cursor is at a place of the two visible lines, where the driver thinks it is.\<close>

definition cursor_at :: "nat \<Rightarrow> nat \<Rightarrow> lcd \<Rightarrow> bool" where
  "cursor_at x y s \<longleftrightarrow> ready s \<and> \<not> in_cgram (screen s) \<and> address (screen s) = 64 * y + x \<and> y < 2
     \<and> unat (currentX s) = x \<and> unat (currentY s) = y"

lemma command_address:
  assumes "unat (a :: u8) < 128"
  shows "command (0x80 OR a) p = p\<lparr>address := unat a, in_cgram := False\<rparr>"
proof -
  have "unat (drop_bit 7 a) = 0" using assms by (simp only: unat_drop_bit_eq) (simp add: drop_bit_eq_div)
  then have top: "\<not> bit a 7" by (simp add: bit_iff_odd_drop_bit unat_eq_0)
  have m: "(0x80 :: u8) = push_bit 7 1" "(0x7F :: u8) = mask 7" by (simp_all add: mask_eq_exp_minus_1)
  have eq: "(0x80 OR a) AND 0x7F = a"
    unfolding m
  proof (rule bit_eqI)
    fix n :: nat
    assume "possible_bit TYPE(u8) n"
    then have "n < 7 \<or> n = 7" by auto
    with top show "bit ((push_bit 7 1 OR a) AND mask 7) n = bit a n"
      by (elim disjE) (simp_all only: bit_or_iff bit_push_bit_iff bit_and_iff bit_mask_iff bit_1_iff, auto)
  qed
  have top: "\<not> bit a n" if "7 \<le> n" for n
    using top that by (cases "n = 7") (auto dest: bit_imp_le_length)
  have "0x80 OR a = 0x80 + a"
    unfolding m(1) by (rule disjunctive_add [symmetric], use top in \<open>simp only: bit_push_bit_iff bit_1_iff\<close>) auto
  with assms have "unat (0x80 OR a) = 128 + unat a" by (simp add: unat_word_ariths)
  then have "(0x80 :: u8) \<le> 0x80 OR a" by (simp add: word_le_nat_alt)
  with eq show ?thesis by (simp add: command_def)
qed

lemma cursor_set:
  assumes "ready s" and "unat x \<le> 16" and "unat y < 2"
  shows "cursor_at (unat x) (unat y) (LCD_CursorSet bus x y s)
    \<and> ddram (screen (LCD_CursorSet bus x y s)) = ddram (screen s)"
proof -
  let ?s = "s\<lparr>currentX := x, currentY := y\<rparr>"
  let ?a = "x + row_offset y"
  have scr: "screen ?s = screen s" by (simp add: screen_def)
  have "unat y = unat (0 :: u8) \<or> unat y = unat (1 :: u8)" using assms(3) by auto
  then have y: "y = 0 \<or> y = 1" by (simp only: unat_eq_0 word_unat_eq_iff [symmetric])
  have a: "unat ?a = 64 * unat y + unat x"
    using y assms(2) by (auto simp: row_offset_def unat_word_ariths)
  then have lt: "unat ?a < 128" using assms by simp
  have row: "\<not> 2 \<le> y" using y by (auto simp: word_le_nat_alt)
  have "wired ?s" "\<not> eight_bit (screen ?s)" "half (screen ?s) = None"
    using assms(1) by (simp_all add: ready_def wired_def scr)
  note c = cmd_screen [OF this, of bus "0x80 OR ?a", unfolded scr command_address [OF lt]]
  have "LCD_CursorSet bus x y s = LCD_Cmd bus (0x80 OR ?a) ?s"
    using row by (simp add: LCD_CursorSet_def)
  with c assms a show ?thesis by (simp add: cursor_at_def ready_def)
qed

text \<open>Characters that are shown as they are.\<close>

definition printable :: "bytes \<Rightarrow> bool" where
  "printable s \<longleftrightarrow> (\<forall>c\<in>set s. c \<noteq> 0 \<and> c \<noteq> 10 \<and> c \<noteq> 13)"

lemma receive_data:
  "\<not> in_cgram p \<Longrightarrow> increment p \<Longrightarrow> receive True d p
     = p\<lparr>ddram := (ddram p)(address p := d), address := next_address (address p)\<rparr>"
  by (simp add: receive_def move_def)

lemma put_char:
  fixes bus d
  assumes c: "cursor_at x y s" and x: "x < 16"
  defines "s' \<equiv> (LCD_Data bus d s)\<lparr>currentX := currentX (LCD_Data bus d s) + 1\<rparr>"
  shows "cursor_at (x + 1) y s' \<and> ddram (screen s') = (ddram (screen s))(64 * y + x := d)"
proof -
  from c have r: "wired s" "\<not> eight_bit (screen s)" "half (screen s) = None" "increment (screen s)"
    "\<not> in_cgram (screen s)" "address (screen s) = 64 * y + x" "y < 2" "unat (currentX s) = x" "unat (currentY s) = y"
    by (auto simp: cursor_at_def ready_def)
  note d = data_screen [OF r(1-3), of bus d, unfolded receive_data [OF r(5,4)]]
  have scr: "screen s' = screen (LCD_Data bus d s)" by (simp add: s'_def screen_def)
  have "next_address (64 * y + x) = 64 * y + (x + 1)" using x less_2_cases [OF r(7)] by (auto simp: next_address_def)
  moreover have "unat (currentX s + 1) = x + 1" using r(8) x by (simp add: unat_word_ariths)
  moreover have "wired s'" using d by (simp add: wired_def scr) (simp add: s'_def)
  ultimately show ?thesis
    using d r by (simp add: cursor_at_def ready_def scr) (simp add: s'_def)
qed

text \<open>A text that ends within the line.\<close>

lemma put_text:
  "cursor_at x y s \<Longrightarrow> printable cs \<Longrightarrow> x + length cs \<le> 16 \<Longrightarrow>
     cursor_at (x + length cs) y (puts_loop bus cs s)
     \<and> (\<forall>k. ddram (screen (puts_loop bus cs s)) k
          = (if 64 * y + x \<le> k \<and> k < 64 * y + x + length cs then cs ! (k - (64 * y + x)) else ddram (screen s) k))"
proof (induction cs arbitrary: x s)
  case (Cons c cs)
  let ?s = "(LCD_Data bus c s)\<lparr>currentX := currentX (LCD_Data bus c s) + 1\<rparr>"
  from Cons.prems have x: "x < 16" and p: "c \<noteq> 0" "c \<noteq> 10" "c \<noteq> 13" "printable cs" by (auto simp: printable_def)
  have "\<not> 16 \<le> currentX s" using Cons.prems x by (simp add: cursor_at_def word_le_nat_alt)
  then have step: "puts_loop bus (c # cs) s = puts_loop bus cs ?s" using p by (simp add: Let_def)
  note put = put_char [OF Cons.prems(1) x, of bus c]
  from Cons.IH [of "x + 1" ?s] put Cons.prems p show ?case
    unfolding step by (auto simp: nth_Cons' Suc_diff_Suc)
qed auto

text \<open>The text of a line.\<close>

definition line_text :: "nat \<Rightarrow> lcd \<Rightarrow> bytes" where
  "line_text y s = map (\<lambda>i. ddram (screen s) (64 * y + i)) [0..<16]"

lemma length_line_text [simp]: "length (line_text y s) = 16"
  by (simp add: line_text_def)

lemma puts_line:
  assumes s: "ready s" and y: "unat y < 2" and cs: "printable cs" "length cs \<le> 16"
  shows "ready (LCD_Puts bus 0 y cs s) \<and> cursor_at (length cs) (unat y) (LCD_Puts bus 0 y cs s)
    \<and> line_text (unat y) (LCD_Puts bus 0 y cs s) = cs @ drop (length cs) (line_text (unat y) s)
    \<and> (\<forall>z<2. z \<noteq> unat y \<longrightarrow> line_text z (LCD_Puts bus 0 y cs s) = line_text z s)"
proof -
  let ?s = "LCD_CursorSet bus 0 y s"
  from cursor_set [OF s, of 0 y bus] y have c: "cursor_at 0 (unat y) ?s" "ddram (screen ?s) = ddram (screen s)"
    by auto
  note put = put_text [OF c(1) cs(1), of bus]
  have at: "cursor_at (length cs) (unat y) (LCD_Puts bus 0 y cs s)"
    and mem: "ddram (screen (LCD_Puts bus 0 y cs s)) k = (if 64 * unat y \<le> k \<and> k < 64 * unat y + length cs
      then cs ! (k - 64 * unat y) else ddram (screen s) k)" for k
    using put cs(2) c(2) by (simp_all add: LCD_Puts_def)
  have own: "line_text (unat y) (LCD_Puts bus 0 y cs s) = cs @ drop (length cs) (line_text (unat y) s)"
    by (rule nth_equalityI) (use cs(2) in \<open>auto simp: line_text_def mem nth_append\<close>)
  have "line_text z (LCD_Puts bus 0 y cs s) = line_text z s" if "z < 2" "z \<noteq> unat y" for z
    using that y cs(2) less_2_cases [OF that(1)] less_2_cases [OF y] by (auto simp: line_text_def mem)
  with at own show ?thesis by (simp add: cursor_at_def)
qed

section \<open>Initialisation\<close>

lemma pin_first: "bus_found bus \<Longrightarrow> pin bus k v s = pin bus k v (s\<lparr>dev := True\<rparr>)"
  by (cases s) (simp add: pin_def lcd_pin_write_def Let_def)

text \<open>From power-on (pins high, 8 bit mode) to 4 bit mode with an empty display.\<close>

lemma upd_screen [simp]:
  "screen (s\<lparr>currentX := x, currentY := y, DisplayFunction := f\<rparr>) = screen s"
  "screen (s\<lparr>DisplayControl := d\<rparr>) = screen s" "screen (s\<lparr>DisplayMode := m\<rparr>) = screen s"
  "screen (s\<lparr>dev := b\<rparr>) = screen s"
  by (simp_all add: screen_def)

lemma wired_upd [simp]:
  "wired (s\<lparr>currentX := x, currentY := y, DisplayFunction := f\<rparr>) = wired s"
  "wired (s\<lparr>DisplayControl := d\<rparr>) = wired s" "wired (s\<lparr>DisplayMode := m\<rparr>) = wired s"
  "wired (LCD_Delay_ms n s) = wired s" "wired (LCD_Delay_us n s) = wired s"
  by (simp_all add: wired_def)

text \<open>A command nibble in 8 bit mode is the upper half of a command.\<close>

lemma cmd4bit_eight:
  assumes "wired s" and "eight_bit (screen s)" and "\<not> bit (port_value s) 0"
  shows "wired (LCD_Cmd4bit bus c s) \<and> \<not> bit (port_value (LCD_Cmd4bit bus c s)) 0
    \<and> screen (LCD_Cmd4bit bus c s)
      = (command (push_bit 4 (c AND 0x0F)) (screen s))\<lparr>lines_in := port_value (LCD_Cmd4bit bus c s)\<rparr>"
  using cmd4bit [OF assms(1), of bus c] assms(2,3) by (simp add: latch_def receive_def)

lemma init_pins:
  assumes bus: "bus_found bus" and p: "port_value s = 0xFF" "screen s = power_on"
  defines "s' \<equiv> pin bus LCD_E_PIN False (pin bus LCD_RS_PIN False (pin bus LCD_RW_PIN False
    (pin bus LCD_D7_PIN False (pin bus LCD_D6_PIN False (pin bus LCD_D5_PIN False (pin bus LCD_D4_PIN False s))))))"
  shows "wired s' \<and> \<not> bit (port_value s') 0 \<and> screen s' = power_on\<lparr>lines_in := port_value s'\<rparr>"
proof -
  have m1: "bit (0xFF :: u8) 2" by simp
  have "drop_bit 4 (set_pin 2 False (set_pin 0 False (set_pin 1 False (set_pin 7 False (set_pin 6 False
      (set_pin 5 False (set_pin 4 False (0xFF :: u8)))))))) = 0"
    by (simp add: set_pin_def)
  then show ?thesis
    unfolding s'_def pin_first [OF bus, of _ _ s]
    by (simp add: wired_def pin_screen bit_set_pin p m1 power_on_def latch_def receive_def command_def)
qed

text \<open>The panel without its input lines, which the expander sets.\<close>

definition shown :: "lcd \<Rightarrow> panel" where
  "shown s = (screen s)\<lparr>lines_in := 0\<rparr>"

lemma shown_fields [simp]:
  "shown (LCD_Delay_ms n s) = shown s" "shown (s\<lparr>DisplayControl := d\<rparr>) = shown s"
  "shown (s\<lparr>DisplayMode := m\<rparr>) = shown s"
  "shown (s\<lparr>currentX := x, currentY := y, DisplayFunction := f\<rparr>) = shown s"
  "eight_bit (screen s) = eight_bit (shown s)" "half (screen s) = half (shown s)"
  "increment (screen s) = increment (shown s)" "ddram (screen s) = ddram (shown s)"
  by (simp_all add: shown_def)

lemma command_shown: "(command c p)\<lparr>lines_in := l\<rparr> = command c (p\<lparr>lines_in := l\<rparr>)"
  by (simp add: command_def)

text \<open>In 8 bit mode with RS low a nibble is the upper half of a command.\<close>

definition booting :: "lcd \<Rightarrow> panel \<Rightarrow> bool" where
  "booting s p \<longleftrightarrow> wired s \<and> \<not> bit (port_value s) 0 \<and> shown s = p"

lemma boot_nibble:
  assumes "booting s p" and "eight_bit p"
  shows "booting (LCD_Cmd4bit bus c s) (command (push_bit 4 (c AND 0x0F)) p)"
  using cmd4bit_eight [of s bus c] assms command_shown [where c = "push_bit 4 (c AND 0x0F)" and p = "screen s" and l = 0]
  by (simp add: booting_def) (simp add: shown_def)

lemma boot_delay: "booting s p \<Longrightarrow> booting (LCD_Delay_ms n s) p"
  by (simp add: booting_def)

definition operating :: "lcd \<Rightarrow> panel \<Rightarrow> bool" where
  "operating s p \<longleftrightarrow> wired s \<and> shown s = p \<and> \<not> eight_bit p \<and> half p = None"

lemma operating_cmd:
  assumes "operating s p" and "\<not> eight_bit (command c p)" and "half (command c p) = None"
  shows "operating (LCD_Cmd bus c s) (command c p)"
  using cmd_screen [of s bus c] assms command_shown [where c = c and p = "screen s" and l = 0]
  by (simp add: operating_def) (simp add: shown_def)

lemma operating_delay: "operating s p \<Longrightarrow> operating (LCD_Delay_ms n s) p"
  by (simp add: operating_def)

lemma init_commands:
  "command 0x30 p = p\<lparr>eight_bit := True\<rparr>" "command 0x20 p = p\<lparr>eight_bit := False\<rparr>"
  "command 0x28 p = p\<lparr>eight_bit := False\<rparr>" "command 0x0C p = p"
  "command 0x01 p = p\<lparr>ddram := (\<lambda>_. 32), address := 0, increment := True, in_cgram := False\<rparr>"
  "command 0x06 p = p\<lparr>increment := True\<rparr>"
  by (simp_all add: command_def word_le_nat_alt)

lemma display_function:
  "DisplayFunction (LCD_Delay_ms n s) = DisplayFunction s" "DisplayFunction (LCD_Delay_us n s) = DisplayFunction s"
  "DisplayFunction (pin bus k v s) = DisplayFunction s"
  by (simp_all add: pin_def lcd_pin_write_def Let_def LCD_Delay_us_def LCD_Delay_ms_def emit_def)

lemma display_function_nibble: "DisplayFunction (LCD_Cmd4bit bus c s) = DisplayFunction s"
  by (simp add: LCD_Cmd4bit_def Let_def display_function)

lemma init_screen:
  assumes bus: "bus_found bus" and p: "port_value s = 0xFF" "screen s = power_on"
  shows "ready (LCD_Init bus s) \<and> (\<forall>y. line_text y (LCD_Init bus s) = replicate 16 32)"
proof -
  let ?off = "power_on\<lparr>lines_in := 0\<rparr>" and ?on = "power_on\<lparr>lines_in := 0, eight_bit := False\<rparr>"
  let ?s1 = "pin bus LCD_E_PIN False (pin bus LCD_RS_PIN False (pin bus LCD_RW_PIN False
    (pin bus LCD_D7_PIN False (pin bus LCD_D6_PIN False (pin bus LCD_D5_PIN False (pin bus LCD_D4_PIN False
      (LCD_Delay_ms 40 s)))))))"
  let ?s2 = "(LCD_Delay_ms 1 ?s1)\<lparr>currentX := 0, currentY := 0, DisplayFunction := LCD_2LINE\<rparr>"
  have "wired ?s1 \<and> \<not> bit (port_value ?s1) 0 \<and> screen ?s1 = power_on\<lparr>lines_in := port_value ?s1\<rparr>"
    by (rule init_pins) (use assms in simp_all)
  then have boot: "booting ?s2 ?off" by (simp add: booting_def) (simp add: shown_def)
  have three: "booting (LCD_Delay_ms 5 (LCD_Cmd4bit bus 0x03 u)) ?off" if "booting u ?off" for u
    using boot_delay [OF boot_nibble [OF that, of bus 3], of 5] by (simp add: init_commands power_on_def)
  have two: "operating (LCD_Delay_ms 5 (LCD_Cmd4bit bus 0x02 u)) ?on" if "booting u ?off" for u
    using boot_delay [OF boot_nibble [OF that, of bus 2], of 5]
    by (simp add: init_commands power_on_def booting_def operating_def)
  let ?s3 = "LCD_Delay_ms 5 (LCD_Cmd4bit bus 0x02 (LCD_Delay_ms 5 (LCD_Cmd4bit bus 0x03 (LCD_Delay_ms 5
    (LCD_Cmd4bit bus 0x03 (LCD_Delay_ms 5 (LCD_Cmd4bit bus 0x03 ?s2)))))))"
  have s3: "operating ?s3 ?on" by (rule two, rule three, rule three, rule three, rule boot)
  have cmd: "operating (LCD_Cmd bus c u) ?on" if "operating u ?on" "command c ?on = ?on" for c u
    using operating_cmd [OF that(1), of c bus] that(2) by (simp add: power_on_def)
  have fixed: "command 0x28 ?on = ?on" "command 0x0C ?on = ?on" "command 0x01 ?on = ?on" "command 0x06 ?on = ?on"
    by (simp_all add: init_commands) (simp_all add: power_on_def)
  have upd: "operating (u\<lparr>DisplayControl := d\<rparr>) ?on" "operating (u\<lparr>DisplayMode := m\<rparr>) ?on"
    if "operating u ?on" for u d m using that by (simp_all add: operating_def)
  have "LCD_Init bus s = LCD_Delay_ms 5 (LCD_Cmd bus 0x06 ((LCD_Delay_ms 5 (LCD_Delay_ms 5 (LCD_Cmd bus 0x01
      (LCD_Delay_ms 5 (LCD_Cmd bus 0x0C ((LCD_Cmd bus 0x28 ?s3)\<lparr>DisplayControl := 4\<rparr>))))))\<lparr>DisplayMode := 2\<rparr>))"
    by (simp add: LCD_Init_def Let_def LCD_DisplayOn_def LCD_Clear_def display_function display_function_nibble)
  moreover have "operating \<dots> ?on"
    by (rule operating_delay, rule cmd [OF _ fixed(4)], rule upd(2), rule operating_delay, rule operating_delay,
        rule cmd [OF _ fixed(3)], rule operating_delay, rule cmd [OF _ fixed(2)], rule upd(1),
        rule cmd [OF s3 fixed(1)])
  ultimately have "operating (LCD_Init bus s) ?on" by simp
  then show ?thesis
    by (simp add: ready_def operating_def line_text_def) (auto simp: power_on_def intro!: nth_equalityI)
qed

text \<open>
  C22: the display shows the text. From power-on, \<open>LCD_Init\<close> leaves the panel in 4 bit mode with both
  lines blank; and from then on \<open>LCD_Puts\<close> of at most 16 printable characters at the start of a line
  puts exactly this text there, leaves the rest of the line and the other line as they were, and leaves
  the panel ready for the next text.
\<close>

theorem lcd_shows_text:
  assumes "bus_found bus"
  shows "ready (LCD_Init bus lcd_reset) \<and> (\<forall>y. line_text y (LCD_Init bus lcd_reset) = replicate 16 32)
    \<and> (ready s \<and> unat y < 2 \<and> printable str \<and> length str \<le> 16
      \<longrightarrow> ready (LCD_Puts bus 0 y str s)
        \<and> line_text (unat y) (LCD_Puts bus 0 y str s) = str @ drop (length str) (line_text (unat y) s)
        \<and> (\<forall>z<2. z \<noteq> unat y \<longrightarrow> line_text z (LCD_Puts bus 0 y str s) = line_text z s))"
  using init_screen [OF assms, of lcd_reset] puts_line [of s y str bus]
  by (auto simp: lcd_reset_def screen_def power_on_def)

theorem lcd_shows_text_witness:
  "line_text 1 (LCD_Puts \<lparr> bus_found = True, bus_transfer = (\<lambda>_. True) \<rparr> 0 1 (ascii ''ok'')
      (LCD_Init \<lparr> bus_found = True, bus_transfer = (\<lambda>_. True) \<rparr> lcd_reset))
    = ascii ''ok'' @ replicate 14 32"
proof -
  let ?bus = "\<lparr> bus_found = True, bus_transfer = (\<lambda>_. True) \<rparr>"
  have "bus_found ?bus" by simp
  note main = lcd_shows_text [OF this, of "LCD_Init ?bus lcd_reset" 1 "ascii ''ok''"]
  have "printable (ascii ''ok'')" "length (ascii ''ok'') = 2" by (simp_all add: ascii_def printable_def)
  with main show ?thesis by simp
qed

end
