(* ===== verification/App.thy ===== *)
theory App
  imports Event_Queue Lcd_Panel
begin

text \<open>
  The application thread \<open>app.c\<close>: it takes events from the queue, keeps the terminal's settings,
  gives out credit as pulses on a pin and writes the display. Pin writes and delays go to the trace of
  the display driver, so that the trace has everything the terminal does, in order.
\<close>

section \<open>Settings and messages\<close>

record system_config_t =
  sys_name :: bytes
  sys_price :: u32
  sys_pulses_per_credit :: u32
  sys_enabled :: u32
  sys_pulse_high_time :: u32
  sys_pulse_low_time :: u32
  sys_pulse_pin :: int

record app =
  sys_cfg :: system_config_t
  display :: lcd
  evt_queue :: rt_messagequeue

text \<open>\<open>%02d\<close> of a number, and \<open>snprintf\<close> into a line of 17 bytes.\<close>

definition decimal2 :: "nat \<Rightarrow> bytes" where
  "decimal2 n = (if n < 10 then 48 # decimal n else decimal n)"

definition in_line :: "bytes \<Rightarrow> bytes" where
  "in_line s = take 16 s"

definition start_message :: "i2c_bus \<Rightarrow> app \<Rightarrow> app" where
  "start_message bus a =
     (let d = LCD_Puts bus 0 0 (ascii '' Booting system '') (display a);
          d = LCD_Puts bus 0 1 (ascii ''   Please wait  '') d
      in a\<lparr>display := d\<rparr>)"

definition idle_message :: "i2c_bus \<Rightarrow> app \<Rightarrow> app" where
  "idle_message bus a =
     (let price = unat (sys_price (sys_cfg a));
          line = in_line (ascii ''Price $'' @ decimal2 (price div 100) @ ascii ''.'' @ decimal2 (price mod 100));
          d = LCD_Puts bus 0 0 (ascii ''                 '') (display a);
          d = LCD_Puts bus 0 0 line d;
          d = LCD_Puts bus 0 1 (ascii ''swipe or scan QR'') d
      in a\<lparr>display := d\<rparr>)"

definition credit_message :: "i2c_bus \<Rightarrow> u32 \<Rightarrow> app \<Rightarrow> app" where
  "credit_message bus balance a =
     (let line = in_line (ascii ''Balance $'' @ decimal2 (unat balance div 100) @ ascii ''.''
            @ decimal2 (unat balance mod 100));
          d = LCD_Puts bus 0 0 (ascii ''  Thank you!!!  '') (display a);
          d = LCD_Puts bus 0 1 (ascii ''                '') d;
          d = LCD_Puts bus 0 1 line d
      in a\<lparr>display := d\<rparr>)"

definition out_of_service_message :: "i2c_bus \<Rightarrow> bytes \<Rightarrow> app \<Rightarrow> app" where
  "out_of_service_message bus reason a =
     (let d = LCD_Puts bus 0 0 (ascii '' Out of service '') (display a);
          d = LCD_Puts bus 0 1 reason d
      in a\<lparr>display := d\<rparr>)"

definition connecting_message :: "i2c_bus \<Rightarrow> app \<Rightarrow> app" where
  "connecting_message bus a =
     (let d = LCD_Puts bus 0 0 (ascii ''   connecting   '') (display a);
          d = LCD_Puts bus 0 1 (ascii ''   to  server   '') d
      in a\<lparr>display := d\<rparr>)"

section \<open>Event handlers\<close>

definition on_enable_event :: "i2c_bus \<Rightarrow> enable_evt_t \<Rightarrow> app \<Rightarrow> app" where
  "on_enable_event bus evt a =
     (if enable_flag evt \<noteq> sys_enabled (sys_cfg a)
      then
        let a = a\<lparr>sys_cfg := (sys_cfg a)\<lparr>sys_enabled := enable_flag evt\<rparr>\<rparr>
        in if enable_flag evt \<noteq> 0 then idle_message bus a
           else out_of_service_message bus (ascii ''disabled by ownr'') a
      else a)"

text \<open>
  \<open>strncpy\<close> of at most \<open>n\<close> bytes over the start of an array: the characters before the first NUL,
  then NULs.
\<close>

definition c_strncpy :: "bytes \<Rightarrow> bytes \<Rightarrow> nat \<Rightarrow> bytes option" where
  "c_strncpy dst src n = (let s = take n (cstr src) in blit dst 0 (s @ replicate (n - length s) 0))"

text \<open>\<open>evt->name[0] =! '\n'\<close> assigns \<open>!'\n'\<close> to the first byte and tests it.\<close>

definition on_config_event :: "i2c_bus \<Rightarrow> config_evt_t \<Rightarrow> app \<Rightarrow> app option" where
  "on_config_event bus evt a = do {
     let a = a\<lparr>sys_cfg := (sys_cfg a)\<lparr>sys_price := cfg_price evt,
                                     sys_pulses_per_credit := ucast (cfg_pulses_per_credit evt)\<rparr>\<rparr>;
     let c = (if (10 :: u8) = 0 then 1 else 0 :: u8);
     name \<leftarrow> wr (cfg_name evt) 0 c;
     name' \<leftarrow> (if c \<noteq> 0 then c_strncpy (sys_name (sys_cfg a)) name MAX_DEVICE_NAME_LEN
              else Some (sys_name (sys_cfg a)));
     let a = a\<lparr>sys_cfg := (sys_cfg a)\<lparr>sys_name := name'\<rparr>\<rparr>;
     Some (if sys_enabled (sys_cfg a) \<noteq> 0 then idle_message bus a else a) }"

definition act :: "effect \<Rightarrow> app \<Rightarrow> app" where
  "act e a = a\<lparr>display := emit e (display a)\<rparr>"

text \<open>Both delays of a pulse are \<open>pulse_high_time\<close>.\<close>

definition pulse :: "app \<Rightarrow> app" where
  "pulse a =
     (let a = act (Delay_ms (unat (sys_pulse_high_time (sys_cfg a)))) a;
          a = act (Pin_Write (sys_pulse_pin (sys_cfg a)) False) a
      in act (Delay_ms (unat (sys_pulse_high_time (sys_cfg a)))) a)"

definition add_credit :: "app \<Rightarrow> app" where
  "add_credit a =
     (let a = act (Pin_Write (sys_pulse_pin (sys_cfg a)) True) a;
          a = (pulse ^^ unat (sys_pulses_per_credit (sys_cfg a))) a
      in act (Pin_Write (sys_pulse_pin (sys_cfg a)) True) a)"

definition on_credit_event :: "i2c_bus \<Rightarrow> credit_evt_t \<Rightarrow> app \<Rightarrow> app" where
  "on_credit_event bus evt a =
     (if sys_enabled (sys_cfg a) = 0 then a
      else
        let a = (add_credit ^^ unat (credit_count evt)) a;
            a = credit_message bus (credit_balance evt) a;
            a = act (Delay_ms 1500) a
        in idle_message bus a)"

definition on_mqtt_event :: "i2c_bus \<Rightarrow> nat \<Rightarrow> app \<Rightarrow> app" where
  "on_mqtt_event bus evt a =
     (if evt = mqtt_event_code mqtt_event_connecting_e then connecting_message bus a
      else if evt = mqtt_event_code mqtt_event_conn_failed_e
      then out_of_service_message bus (ascii ''connection error'') a
      else if evt = mqtt_event_code mqtt_event_conn_success_e
      then (if sys_enabled (sys_cfg a) \<noteq> 0 then idle_message bus a
            else out_of_service_message bus (ascii ''disabled by ownr'') a)
      else a)"

section \<open>The thread\<close>

text \<open>One event of the loop: the tag says which member of the union is read.\<close>

definition on_event :: "i2c_bus \<Rightarrow> bytes \<Rightarrow> app \<Rightarrow> app option" where
  "on_event bus evt a =
     (if event_code evt = event_type_code event_type_enable_e
      then Some (on_enable_event bus (read_enable (event_union evt)) a)
      else if event_code evt = event_type_code event_type_config_e
      then on_config_event bus (read_config (event_union evt)) a
      else if event_code evt = event_type_code event_type_credit_e
      then Some (on_credit_event bus (read_credit (event_union evt)) a)
      else if event_code evt = event_type_code event_type_mqtt_e
      then Some (on_mqtt_event bus (read_mqtt_event (event_union evt)) a)
      else Some a)"

definition app_turn :: "i2c_bus \<Rightarrow> thread_id \<Rightarrow> wakeup list \<Rightarrow> app \<Rightarrow> app option" where
  "app_turn bus self ws a = do {
     (ok, evt, q) \<leftarrow> event_handler_read_event self ws (evt_queue a);
     let a = a\<lparr>evt_queue := q\<rparr>;
     if ok then on_event bus evt a else Some a }"

text \<open>\<open>pin\<close> is the number \<open>rt_pin_get\<close> finds for RB0, \<open>q\<close> the queue made before.\<close>

definition app_init :: "i2c_bus \<Rightarrow> int \<Rightarrow> lcd \<Rightarrow> rt_messagequeue \<Rightarrow> app option" where
  "app_init bus pin_number d q = do {
     name \<leftarrow> c_strncpy (replicate MAX_DEVICE_NAME_LEN 0) (ascii ''rt-pay'') MAX_DEVICE_NAME_LEN;
     Some \<lparr> sys_cfg = \<lparr> sys_name = name, sys_price = 100, sys_pulses_per_credit = 1, sys_enabled = 0,
              sys_pulse_high_time = 100, sys_pulse_low_time = 100, sys_pulse_pin = pin_number \<rparr>,
            display = LCD_Init bus d, evt_queue = q \<rparr> }"

end
