(* ===== verification/Mqtt_Link.thy ===== *)
theory Mqtt_Link
  imports Mqtt_Api Jsmn App
begin

text \<open>
  The link between the broker and the application (\<open>mqtt_link.c\<close>): the callbacks that turn the JSON
  messages of the broker into events, the connection with its events, and the message of a swiped
  card. The callbacks write into the client's receive buffer, where the payload is.
\<close>

section \<open>Library functions\<close>

text \<open>\<open>strncmp(a, b, n) == 0\<close>.\<close>

definition strncmp_eq :: "bytes \<Rightarrow> bytes \<Rightarrow> nat \<Rightarrow> bool" where
  "strncmp_eq a b n = (cstr (take n a) = cstr (take n b))"

text \<open>
  \<open>atoi\<close>: white space, a sign, digits. A value that is no \<open>int\<close> is undefined in C; newlib's
  \<open>strtol\<close>, which it is made of, gives the nearest one.
\<close>

definition is_space :: "u8 \<Rightarrow> bool" where
  "is_space c \<longleftrightarrow> c \<in> {32, 9, 10, 11, 12, 13}"

definition is_digit :: "u8 \<Rightarrow> bool" where
  "is_digit c \<longleftrightarrow> 48 \<le> c \<and> c \<le> 57"

fun digits_value :: "int \<Rightarrow> bytes \<Rightarrow> int" where
  "digits_value n [] = n"
| "digits_value n (c # cs) = (if is_digit c then digits_value (10 * n + (uint c - 48)) cs else n)"

definition atoi :: "bytes \<Rightarrow> int" where
  "atoi s = (let s = dropWhile is_space (cstr s);
                 n = (case s of
                        [] \<Rightarrow> 0
                      | c # cs \<Rightarrow> if c = 45 then - digits_value 0 cs
                                 else if c = 43 then digits_value 0 cs else digits_value 0 s)
             in max (- 2147483648) (min 2147483647 n))"

section \<open>The messages of the broker\<close>

abbreviation (input) MQTT_MAX_JSON_TOKENS :: nat where "MQTT_MAX_JSON_TOKENS \<equiv> 16"

text \<open>A pointer into the payload, and an \<open>int\<close> as a \<open>size_t\<close>.\<close>

definition from_ptr :: "bytes \<Rightarrow> int \<Rightarrow> bytes option" where
  "from_ptr m i = (if 0 \<le> i \<and> i \<le> int (length m) then Some (drop (nat i) m) else None)"

definition store_nul :: "bytes \<Rightarrow> int \<Rightarrow> bytes option" where
  "store_nul m i = (if 0 \<le> i then wr m (nat i) 0 else None)"

definition size_of_int :: "int \<Rightarrow> nat" where
  "size_of_int i = unat (word_of_int i :: u32)"

text \<open>
  The loop the three callbacks share, over \<open>n\<close> tokens from \<open>i\<close> on: a key's value is terminated in
  place, then \<open>store\<close> compares the key and stores the value.
\<close>

type_synonym 'e key_store = "bytes \<Rightarrow> nat \<Rightarrow> bytes \<Rightarrow> nat \<Rightarrow> 'e \<Rightarrow> 'e option"

fun key_loop :: "'e key_store \<Rightarrow> jsmntok_t list \<Rightarrow> nat \<Rightarrow> nat \<Rightarrow> bytes \<Rightarrow> 'e \<Rightarrow> (bytes \<times> 'e) option" where
  "key_loop store tokens i 0 m e = Some (m, e)"
| "key_loop store tokens i (Suc n) m e = do {
     tok \<leftarrow> rd tokens i;
     if \<not> (tok_type tok = JSMN_STRING \<and> tok_size tok > 0) then key_loop store tokens (i + 1) n m e
     else do {
       val \<leftarrow> rd tokens (i + 1);
       let key_len = tok_end tok - tok_start tok;
       let value_len = tok_end val - tok_start val;
       m \<leftarrow> store_nul m (tok_start val + value_len);
       key \<leftarrow> from_ptr m (tok_start tok);
       value \<leftarrow> from_ptr m (tok_start val);
       e \<leftarrow> store key (size_of_int key_len) value (size_of_int value_len) e;
       key_loop store tokens (i + 1) n m e } }"

definition config_store :: "config_evt_t key_store" where
  "config_store key key_len value value_len config =
     (if strncmp_eq key (ascii ''name'') key_len
      then do { name \<leftarrow> c_strncpy (cfg_name config) value value_len; Some (config\<lparr>cfg_name := name\<rparr>) }
      else if strncmp_eq key (ascii ''price'') key_len
      then Some (config\<lparr>cfg_price := word_of_int (atoi value)\<rparr>)
      else if strncmp_eq key (ascii ''pulses'') key_len
      then Some (config\<lparr>cfg_pulses_per_credit := word_of_int (atoi value)\<rparr>)
      else Some config)"

definition credit_store :: "credit_evt_t key_store" where
  "credit_store key key_len value value_len credit =
     (if strncmp_eq key (ascii ''balance'') key_len
      then Some (credit\<lparr>credit_balance := word_of_int (atoi value)\<rparr>)
      else if strncmp_eq key (ascii ''count'') key_len
      then Some (credit\<lparr>credit_count := word_of_int (atoi value)\<rparr>)
      else Some credit)"

definition enable_store :: "enable_evt_t key_store" where
  "enable_store key key_len value value_len enable_msg =
     (if strncmp_eq key (ascii ''enable'') key_len
      then Some (enable_msg\<lparr>enable_flag := word_of_int (atoi value)\<rparr>)
      else Some enable_msg)"

text \<open>The structures cleared by \<open>rt_memset\<close>.\<close>

definition no_config :: config_evt_t where
  "no_config = \<lparr> cfg_name = replicate MAX_DEVICE_NAME_LEN 0, cfg_price = 0, cfg_pulses_per_credit = 0 \<rparr>"

definition no_credit :: credit_evt_t where
  "no_credit = \<lparr> credit_count = 0, credit_balance = 0 \<rparr>"

definition no_enable :: enable_evt_t where
  "no_enable = \<lparr> enable_flag = 0 \<rparr>"

text \<open>The memory the payload pointer leads to; stores there go back to where it lies.\<close>

definition payload_mem :: "umqtt_pkgs_publish \<Rightarrow> bytes \<Rightarrow> bytes option" where
  "payload_mem msg buf = (case pb_payload msg of PNull \<Rightarrow> Some [] | p \<Rightarrow> ptr_mem buf p)"

definition payload_put :: "umqtt_pkgs_publish \<Rightarrow> bytes \<Rightarrow> bytes \<Rightarrow> bytes" where
  "payload_put msg buf m = (case pb_payload msg of PRecv off \<Rightarrow> take off buf @ m | _ \<Rightarrow> buf)"

text \<open>
  Parse the payload and walk over the keys; \<open>toks\<close> is what the stack holds where the tokens are.
  An event comes out unless the text does not parse.
\<close>

definition json_message ::
    "'e key_store \<Rightarrow> 'e \<Rightarrow> jsmntok_t list \<Rightarrow> umqtt_pkgs_publish \<Rightarrow> bytes \<Rightarrow> (bytes \<times> 'e option) option" where
  "json_message store e toks msg buf = do {
     m \<leftarrow> payload_mem msg buf;
     (root_keys, _, tokens) \<leftarrow> jsmn_parse jsmn_init m (unat (pb_payload_len msg)) (Some toks) MQTT_MAX_JSON_TOKENS;
     if root_keys < 0 then Some (buf, None)
     else do {
       tokens \<leftarrow> tokens;
       (m, e) \<leftarrow> key_loop store tokens 0 (nat root_keys) m e;
       Some (payload_put msg buf m, Some e) } }"

text \<open>What the stack holds in the callbacks before anything is stored there.\<close>

record stack =
  stack_tokens :: "jsmntok_t list"
  stack_event :: bytes

definition json_event ::
    "'e key_store \<Rightarrow> 'e \<Rightarrow> event_type_t \<Rightarrow> ('e \<Rightarrow> bytes) \<Rightarrow> stack \<Rightarrow> umqtt_pkgs_publish \<Rightarrow> bytes
     \<Rightarrow> rt_messagequeue \<Rightarrow> (bytes \<times> rt_messagequeue) option" where
  "json_event store e type to_bytes stk msg buf q = do {
     (buf, r) \<leftarrow> json_message store e (stack_tokens stk) msg buf;
     (case r of
        None \<Rightarrow> Some (buf, q)
      | Some e \<Rightarrow> do {
          q \<leftarrow> event_handler_push_event (stack_event stk) type (to_bytes e) q;
          Some (buf, q) }) }"

definition mqtt_config_callback ::
    "stack \<Rightarrow> umqtt_pkgs_publish \<Rightarrow> bytes \<Rightarrow> rt_messagequeue \<Rightarrow> (bytes \<times> rt_messagequeue) option" where
  "mqtt_config_callback = json_event config_store no_config event_type_config_e config_bytes"

definition mqtt_add_coins_callback ::
    "stack \<Rightarrow> umqtt_pkgs_publish \<Rightarrow> bytes \<Rightarrow> rt_messagequeue \<Rightarrow> (bytes \<times> rt_messagequeue) option" where
  "mqtt_add_coins_callback = json_event credit_store no_credit event_type_credit_e credit_bytes"

definition mqtt_enable_callback ::
    "stack \<Rightarrow> umqtt_pkgs_publish \<Rightarrow> bytes \<Rightarrow> rt_messagequeue \<Rightarrow> (bytes \<times> rt_messagequeue) option" where
  "mqtt_enable_callback = json_event enable_store no_enable event_type_enable_e enable_bytes"

section \<open>The client with these callbacks\<close>

text \<open>
  The world of the platform holds the event queue: \<open>queue_of\<close> and \<open>queue_put\<close> reach it. The callbacks
  have the numbers 1 to 3, the event callback 1; it only prints.
\<close>

record 'w link =
  queue_of :: "'w \<Rightarrow> rt_messagequeue"
  queue_put :: "rt_messagequeue \<Rightarrow> 'w \<Rightarrow> 'w"
  link_stack :: stack

abbreviation (input) config_cb :: nat where "config_cb \<equiv> 1"
abbreviation (input) enable_cb :: nat where "enable_cb \<equiv> 2"
abbreviation (input) add_coins_cb :: nat where "add_coins_cb \<equiv> 3"

definition link_callback ::
    "'w link \<Rightarrow> nat \<Rightarrow> u16 \<Rightarrow> umqtt_pkgs_publish \<Rightarrow> bytes \<Rightarrow> 'w \<Rightarrow> (bytes \<times> 'w) option" where
  "link_callback lk k topic_len msg buf w = do {
     (buf, q) \<leftarrow> (if k = config_cb then mqtt_config_callback (link_stack lk) msg buf (queue_of lk w)
                 else if k = enable_cb then mqtt_enable_callback (link_stack lk) msg buf (queue_of lk w)
                 else if k = add_coins_cb then mqtt_add_coins_callback (link_stack lk) msg buf (queue_of lk w)
                 else None);
     Some (buf, queue_put lk q w) }"

definition mqtt_event_callback :: "nat \<Rightarrow> umqtt_evt \<Rightarrow> 'w \<Rightarrow> 'w" where
  "mqtt_event_callback k event w = w"

definition link_platform :: "'w link \<Rightarrow> 'w platform \<Rightarrow> 'w platform" where
  "link_platform lk pf = pf\<lparr>p_callback := link_callback lk, p_user_handler := mqtt_event_callback\<rparr>"

section \<open>Connecting\<close>

definition MQTT_BROKER_URI :: bytes where
  "MQTT_BROKER_URI = ascii ''tcp://mqtt.eclipseprojects.io:1883''"

text \<open>\<open>snprintf(topic, 128, "%s/%s/%s", MQTT_TOPIC_ROOT, DEVICE_UUID, name)\<close>\<close>

definition topic_of :: "string \<Rightarrow> bytes" where
  "topic_of name = take 127 (ascii ''rt-pay'' @ ascii ''/'' @ ascii ''00000000'' @ ascii ''/'' @ ascii name)"

definition link_info :: umqtt_info where
  "link_info = \<lparr> send_size = 0, recv_size = 0, info_uri = MQTT_BROKER_URI, info_client_id = None,
     lwt_topic = None, lwt_message = None, info_user_name = None, info_password = None, lwt_qos = 0,
     lwt_cb = None, reconnect_max_num = 0, reconnect_interval = 0, keepalive_max_num = 0,
     keepalive_interval = 0, recv_time_ms = 0, connect_time = 0, send_timeout = 0, thread_stack_size = 0,
     thread_priority = 0 \<rparr>"

text \<open>The result is the client, if it is running, and the world.\<close>

definition mqtt_start_client :: "'w platform \<Rightarrow> 'w \<Rightarrow> ('w umqtt_client option \<times> 'w) option" where
  "mqtt_start_client pf w = do {
     (client, w) \<leftarrow> umqtt_create pf link_info w;
     (case client of
        None \<Rightarrow> Some (None, w)
      | Some c \<Rightarrow> do {
          (_, c) \<leftarrow> umqtt_control pf (UMQTT_CMD_EVT_CB (Some 1)) c;
          (r, client) \<leftarrow> umqtt_start pf (Some c);
          (case client of
             None \<Rightarrow> None
           | Some c \<Rightarrow> Some (if r < 0 then (None, net c) else (Some c, net c))) }) }"

definition mqtt_subscribe_topics :: "'w platform \<Rightarrow> 'w umqtt_client \<Rightarrow> (int \<times> 'w umqtt_client) option" where
  "mqtt_subscribe_topics pf c = do {
     (_, c) \<leftarrow> umqtt_subscribe pf (topic_of ''config'') UMQTT_QOS1 (Some config_cb) c;
     (_, c) \<leftarrow> umqtt_subscribe pf (topic_of ''enable'') UMQTT_QOS1 (Some enable_cb) c;
     (_, c) \<leftarrow> umqtt_subscribe pf (topic_of ''add-credit'') UMQTT_QOS2 (Some add_coins_cb) c;
     Some (0, c) }"

definition push_mqtt :: "'w link \<Rightarrow> mqtt_event_t \<Rightarrow> 'w \<Rightarrow> 'w option" where
  "push_mqtt lk evt w = do {
     q \<leftarrow> event_handler_push_event (stack_event (link_stack lk)) event_type_mqtt_e (mqtt_event_bytes evt) (queue_of lk w);
     Some (queue_put lk q w) }"

definition mqtt_link_connect ::
    "'w link \<Rightarrow> 'w platform \<Rightarrow> 'w \<Rightarrow> (bool \<times> 'w umqtt_client option \<times> 'w) option" where
  "mqtt_link_connect lk pf w = do {
     w \<leftarrow> push_mqtt lk mqtt_event_connecting_e w;
     (client, w) \<leftarrow> mqtt_start_client (link_platform lk pf) w;
     (case client of
        None \<Rightarrow> do {
          w \<leftarrow> push_mqtt lk mqtt_event_conn_failed_e w;
          Some (False, None, w) }
      | Some c \<Rightarrow> do {
          (_, c) \<leftarrow> mqtt_subscribe_topics (link_platform lk pf) c;
          w \<leftarrow> push_mqtt lk mqtt_event_conn_success_e (net c);
          Some (True, Some (c\<lparr>net := w\<rparr>), w) }) }"

section \<open>Sending\<close>

datatype mqtt_link_msg_type_t = mqtt_link_mt_undefined_e | mqtt_link_mt_card_swipe_e

text \<open>The function has no \<open>return\<close>, so there is no result to use.\<close>

definition mqtt_link_send ::
    "'w platform \<Rightarrow> mqtt_link_msg_type_t \<Rightarrow> bytes \<Rightarrow> nat \<Rightarrow> 'w umqtt_client option \<Rightarrow> 'w umqtt_client option option" where
  "mqtt_link_send pf type data n client =
     (let topic = (if type = mqtt_link_mt_card_swipe_e then topic_of ''card-swipe'' else []) in
      case client of
        None \<Rightarrow> Some None
      | Some c \<Rightarrow>
          if c_strlen topic > 0
          then do { (_, c) \<leftarrow> umqtt_publish pf UMQTT_QOS1 topic data n 100 c; Some (Some c) }
          else Some (Some c))"

end
