(* ===== verification/Jsmn_Safety.thy ===== *)
theory Jsmn_Safety
  imports Jsmn
begin

text \<open>
  The tokenizer never leaves its arrays, always comes back, and on success the tokens are ranges of
  the text; a token that has children has one behind it.
\<close>

section \<open>The scans end inside the text\<close>

lemma hex_scan_total:
  "len \<le> length js \<Longrightarrow> p \<le> len \<Longrightarrow> \<exists>r. hex_scan js len n p = Some r \<and> (\<forall>q. r = Some q \<longrightarrow> q \<le> len)"
  by (induction n arbitrary: p) (auto simp: rd_def)

lemma primitive_scan_total:
  "len \<le> length js \<Longrightarrow> p \<le> len \<Longrightarrow>
     \<exists>r. primitive_scan js len p = Some r \<and> (\<forall>q. r = Some q \<longrightarrow> q \<le> len)"
proof (induction js len p rule: primitive_scan.induct)
  case (1 js len p)
  show ?case
  proof (cases "p < len")
    case True
    with "1.prems" have c: "rd js p = Some (js ! p)" by (simp add: rd_def)
    note eq = primitive_scan.simps [of js len p, unfolded if_P [OF True] c bind.bind_lunit]
    show ?thesis
      using "1.IH" [OF True c] "1.prems" True unfolding eq by auto
  next
    case False
    with "1.prems" show ?thesis by (simp add: primitive_scan.simps)
  qed
qed

lemma string_scan_total:
  "len \<le> length js \<Longrightarrow> \<exists>r. string_scan js len p = Some r
     \<and> (case r of Quote q \<Rightarrow> q < len | Bad e \<Rightarrow> e \<in> {JSMN_ERROR_INVAL, JSMN_ERROR_PART})"
proof (induction js len p rule: string_scan.induct)
  case (1 js len p)
  note IH = "1.IH" and len = "1.prems"
  show ?case
  proof (cases "p < len")
    case True
    with len have c: "rd js p = Some (js ! p)" by (simp add: rd_def)
    note eq = string_scan.simps [of js len p, unfolded if_P [OF True] c option.case]
    show ?thesis
    proof (cases "js ! p = 0x5C \<and> p + 1 < len")
      case esc: True
      with len have d: "rd js (p + 1) = Some (js ! (p + 1))" by (simp add: rd_def)
      from esc hex_scan_total [OF len, of "p + 2" 4] obtain h where h: "hex_scan js len 4 (p + 2) = Some h" by auto
      show ?thesis
        using esc IH(1,2) [OF True c, of "js ! (p + 1)"] len d h
        unfolding eq by (cases h) (auto simp: d)
    next
      case False
      with IH(3) [OF True c] len True show ?thesis unfolding eq by auto
    qed
  qed (simp add: string_scan.simps)
qed

lemma last_token_total:
  "n \<le> length ts \<Longrightarrow> \<exists>r. last_token q ts n = Some r \<and>
     (case r of None \<Rightarrow> \<forall>i<n. \<not> q (ts ! i) | Some i \<Rightarrow> i < n \<and> q (ts ! i))"
  by (induction n) (auto simp: rd_def less_Suc_eq split: option.splits)

section \<open>The invariant of the tokens\<close>

text \<open>
  A token covers bytes below \<open>n\<close>; only containers are open. The superior token is an allocated one,
  and a token with children is not the last.
\<close>

definition tok_wf :: "nat \<Rightarrow> jsmntok_t \<Rightarrow> bool" where
  "tok_wf n t \<longleftrightarrow> 0 \<le> tok_start t \<and> tok_start t \<le> int n \<and> 0 \<le> tok_size t \<and> tok_type t \<noteq> JSMN_UNDEFINED
     \<and> (if tok_end t = - 1 then tok_container t else tok_start t \<le> tok_end t \<and> tok_end t \<le> int n)"

definition toks_inv :: "nat \<Rightarrow> nat \<Rightarrow> jsmn_parser \<Rightarrow> jsmntok_t list \<Rightarrow> bool" where
  "toks_inv n num parser ts \<longleftrightarrow>
     toknext parser \<le> num \<and> num \<le> length ts \<and> - 1 \<le> toksuper parser \<and> toksuper parser < int (toknext parser)
     \<and> (\<forall>i<toknext parser. tok_wf n (ts ! i) \<and> (0 < tok_size (ts ! i) \<longrightarrow> i + 1 < toknext parser))"

lemma toks_inv_init: "num \<le> length ts \<Longrightarrow> toks_inv 0 num jsmn_init ts"
  by (simp add: toks_inv_def jsmn_init_def)

lemma toks_inv_pos [simp]: "toks_inv n num (parser\<lparr>pos := p\<rparr>) ts = toks_inv n num parser ts"
  by (simp add: toks_inv_def)

lemma tok_wf_mono: "tok_wf n t \<Longrightarrow> n \<le> n' \<Longrightarrow> tok_wf n' t"
  by (auto simp: tok_wf_def split: if_splits)

lemma toks_inv_mono: "toks_inv n num parser ts \<Longrightarrow> n \<le> n' \<Longrightarrow> toks_inv n' num parser ts"
  by (auto simp: toks_inv_def intro: tok_wf_mono)

lemma grow_super_upd [simp]:
  "grow_super (parser\<lparr>pos := p\<rparr>) ts = grow_super parser ts"
  "grow_super (parser\<lparr>toknext := n\<rparr>) ts = grow_super parser ts"
  by (auto simp: grow_super_def cong: if_cong)

text \<open>A new token, and one child more for the superior token.\<close>

lemma grow_after_alloc:
  assumes inv: "toks_inv n num parser ts" and room: "toknext parser < num"
    and t: "tok_wf n t" "tok_size t = 0"
  shows "\<exists>ts'. grow_super (parser\<lparr>toknext := toknext parser + 1\<rparr>) (ts[toknext parser := t]) = Some ts'
    \<and> length ts' = length ts \<and> ts' ! toknext parser = t
    \<and> toks_inv n num (parser\<lparr>toknext := toknext parser + 1\<rparr>) ts'"
proof -
  let ?s = "nat (toksuper parser)" and ?p = "parser\<lparr>toknext := toknext parser + 1\<rparr>"
    and ?u = "ts[toknext parser := t]"
  have u: "toks_inv n num ?p ?u"
    using inv room t by (auto simp: toks_inv_def less_Suc_eq nth_list_update)
  show ?thesis
  proof (cases "toksuper parser = - 1")
    case True
    with u inv room show ?thesis by (simp add: grow_super_def toks_inv_def)
  next
    case False
    then have s: "?s < toknext parser" using inv by (auto simp: toks_inv_def)
    with u room inv have "toks_inv n num ?p (?u[?s := (ts ! ?s)\<lparr>tok_size := tok_size (ts ! ?s) + 1\<rparr>])"
      by (auto simp: toks_inv_def nth_list_update tok_wf_def tok_container_def)
    with False s inv room show ?thesis by (auto simp: grow_super_def rd_def toks_inv_def)
  qed
qed

text \<open>What a case of the \<open>switch\<close> has to keep.\<close>

definition switch_ok :: "nat \<Rightarrow> nat \<Rightarrow> jsmn_parser \<Rightarrow> jsmntok_t list \<Rightarrow> int \<Rightarrow> jsmn_result \<times> int \<Rightarrow> bool" where
  "switch_ok len num parser ts count res \<longleftrightarrow> (case res of ((e, parser', tokens'), count') \<Rightarrow>
     \<exists>ts'. tokens' = Some ts' \<and> length ts' = length ts \<and>
       (case e of Some r \<Rightarrow> r \<in> {JSMN_ERROR_NOMEM, JSMN_ERROR_INVAL, JSMN_ERROR_PART}
        | None \<Rightarrow> pos parser' < len \<and> toks_inv (pos parser' + 1) num parser' ts'
            \<and> count' - int (toknext parser') = count - int (toknext parser)))"

lemma add_value_ok:
  assumes inv: "toks_inv n num parser ts" and p: "q < len" "n \<le> q + 1" "back \<le> len" "e \<le> q + 1" "s \<le> e"
    and run: "add_token (parser\<lparr>pos := p\<rparr>) ts num type (int s) (int e) back = Some (r, parser', tokens')"
    and type: "type = JSMN_STRING \<or> type = JSMN_PRIMITIVE"
    and res: "0 \<le> r \<Longrightarrow> parser'' = parser'\<lparr>pos := q\<rparr>"
  shows "\<exists>res. after_value (Some (r, parser'', tokens')) count = Some res
    \<and> switch_ok len num parser ts count res"
proof (cases "num \<le> toknext parser")
  case True
  with run show ?thesis by (auto simp: add_token_eq after_value_eq switch_ok_def)
next
  case False
  let ?t = "\<lparr> tok_type = type, tok_start = int s, tok_end = int e, tok_size = 0 \<rparr>"
  from False inv have "toknext parser < length ts" by (simp add: toks_inv_def)
  with False run have r: "r = 0" "parser' = parser\<lparr>pos := p, toknext := toknext parser + 1\<rparr>"
    "tokens' = Some (ts[toknext parser := ?t])" by (auto simp: add_token_eq)
  have "tok_wf (q + 1) ?t" using p type by (auto simp: tok_wf_def)
  with grow_after_alloc [OF toks_inv_mono [OF inv p(2)], of ?t] False obtain ts' where
    g: "grow_super (parser\<lparr>toknext := toknext parser + 1\<rparr>) (ts[toknext parser := ?t]) = Some ts'"
      "length ts' = length ts" "toks_inv (q + 1) num (parser\<lparr>toknext := toknext parser + 1\<rparr>) ts'" by auto
  from g(1) have "grow_super parser'' (ts[toknext parser := ?t]) = Some ts'"
    using r res by simp
  moreover have "toks_inv (q + 1) num parser'' ts'"
    using g(3) r res by (simp add: toks_inv_def)
  ultimately show ?thesis
    using g r res p by (simp add: after_value_eq switch_ok_def)
qed

lemma jsmn_parse_string_ok:
  assumes inv: "toks_inv (pos parser) num parser ts" and len: "len \<le> length js" and p: "pos parser < len"
  shows "\<exists>res. after_value (jsmn_parse_string parser js len (Some ts) num) count = Some res
    \<and> switch_ok len num parser ts count res"
proof -
  from string_scan_total [OF len, of "pos parser + 1"] obtain e where
    e: "string_scan js len (pos parser + 1) = Some e"
      "case e of Quote q \<Rightarrow> q < len | Bad e \<Rightarrow> e \<in> {JSMN_ERROR_INVAL, JSMN_ERROR_PART}" by auto
  show ?thesis
  proof (cases e)
    case (Bad k)
    with e show ?thesis
      by (auto simp: jsmn_parse_string_def Let_def after_value_eq switch_ok_def)
  next
    case (Quote q)
    with e string_scan_mono have q: "pos parser + 1 \<le> q" "q < len" by auto
    have "toknext (parser\<lparr>pos := q\<rparr>) < num \<Longrightarrow> toknext parser < length ts"
      using inv by (simp add: toks_inv_def)
    then obtain r parser' tokens' where
      a: "add_token (parser\<lparr>pos := q\<rparr>) ts num JSMN_STRING (int (pos parser + 1)) (int q) (pos parser)
        = Some (r, parser', tokens')" "0 \<le> r \<longrightarrow> parser' = parser'\<lparr>pos := q\<rparr>"
      by (cases "num \<le> toknext parser") (auto simp: add_token_eq)
    then have "jsmn_parse_string parser js len (Some ts) num = Some (r, parser', tokens')"
      using e Quote by (simp add: jsmn_parse_string_def Let_def add.commute)
    with add_value_ok [OF inv q(2) _ _ _ q(1) a(1)] a(2) q p show ?thesis by simp
  qed
qed

lemma jsmn_parse_primitive_ok:
  assumes inv: "toks_inv (pos parser) num parser ts" and len: "len \<le> length js" and p: "pos parser < len"
    and c: "rd js (pos parser) = Some c" "c \<noteq> 0" "\<not> primitive_end c"
  shows "\<exists>res. after_value (jsmn_parse_primitive parser js len (Some ts) num) count = Some res
    \<and> switch_ok len num parser ts count res"
proof -
  from primitive_scan_total [OF len, of "pos parser"] p obtain e where
    e: "primitive_scan js len (pos parser) = Some e" "\<forall>q. e = Some q \<longrightarrow> q \<le> len" by auto
  show ?thesis
  proof (cases e)
    case None
    with e show ?thesis
      by (auto simp: jsmn_parse_primitive_def Let_def after_value_eq switch_ok_def)
  next
    case (Some q)
    with e primitive_scan_step [OF _ p c] have q: "pos parser < q" "q \<le> len" by auto
    have "toknext (parser\<lparr>pos := q\<rparr>) < num \<Longrightarrow> toknext parser < length ts"
      using inv by (simp add: toks_inv_def)
    then obtain r parser' tokens' where
      a: "add_token (parser\<lparr>pos := q\<rparr>) ts num JSMN_PRIMITIVE (int (pos parser)) (int q) (pos parser)
        = Some (r, parser', tokens')" "0 \<le> r \<longrightarrow> pos parser' = q"
      by (cases "num \<le> toknext parser") (auto simp: add_token_eq)
    then have "jsmn_parse_primitive parser js len (Some ts) num
        = Some (r, if r < 0 then parser' else parser'\<lparr>pos := pos parser' - 1\<rparr>, tokens')"
      using e Some by (simp add: jsmn_parse_primitive_def Let_def)
    with add_value_ok [OF inv, of "q - 1" len "pos parser" q "pos parser" q] a q p show ?thesis by auto
  qed
qed

lemma open_container_ok:
  assumes inv: "toks_inv (pos parser) num parser ts" and p: "pos parser < len"
  shows "\<exists>r. open_container parser ts num c = Some r \<and> switch_ok len num parser ts count (r, count + 1)"
proof (cases "num \<le> toknext parser")
  case True
  then show ?thesis by (simp add: open_container_def jsmn_alloc_token_def switch_ok_def)
next
  case False
  let ?i = "toknext parser" and ?ty = "if c = 0x7B then JSMN_OBJECT else JSMN_ARRAY"
  let ?p = "parser\<lparr>toknext := ?i + 1\<rparr>"
  let ?fresh = "(ts ! ?i)\<lparr>tok_start := - 1, tok_end := - 1, tok_size := 0\<rparr>"
  let ?t = "?fresh\<lparr>tok_type := ?ty, tok_start := int (pos parser)\<rparr>"
  from False inv have i: "?i < length ts" by (simp add: toks_inv_def)
  have "tok_wf (pos parser) ?t" by (simp add: tok_wf_def tok_container_def)
  with grow_after_alloc [OF inv, of ?t] False obtain ts' where
    g: "grow_super ?p (ts[?i := ?t]) = Some ts'" "length ts' = length ts" "ts' ! ?i = ?t"
      "toks_inv (pos parser) num ?p ts'" by auto
  have ne: "nat (toksuper parser) \<noteq> ?i" if "toksuper parser \<noteq> - 1"
    using inv that by (auto simp: toks_inv_def)
  from g(1) i ne have "\<exists>u. grow_super ?p (ts[?i := ?fresh]) = Some u \<and> length u = length ts
      \<and> u ! ?i = ?fresh \<and> u[?i := ?t] = ts'"
    using inv by (auto simp: grow_super_def rd_def toks_inv_def list_update_swap split: if_splits)
  then obtain u where u: "grow_super ?p (ts[?i := ?fresh]) = Some u" "length u = length ts"
    "u ! ?i = ?fresh" "u[?i := ?t] = ts'" by blast
  have "open_container parser ts num c = Some (None, ?p\<lparr>toksuper := int ?i\<rparr>, Some ts')"
    using False i u by (simp add: open_container_def jsmn_alloc_token_def rd_def)
  moreover have "toks_inv (pos parser + 1) num (?p\<lparr>toksuper := int ?i\<rparr>) ts'"
    using toks_inv_mono [OF g(4), of "pos parser + 1"] by (simp add: toks_inv_def)
  ultimately show ?thesis using p g by (simp add: switch_ok_def)
qed

lemma close_container_ok:
  assumes inv: "toks_inv (pos parser) num parser ts" and p: "pos parser < len"
  shows "\<exists>r. close_container parser ts c = Some r \<and> switch_ok len num parser ts count (r, count)"
proof -
  let ?ty = "if c = 0x7D then JSMN_OBJECT else JSMN_ARRAY"
  have n: "toknext parser \<le> length ts" using inv by (simp add: toks_inv_def)
  from last_token_total [OF n, of tok_open] obtain r where r: "last_token tok_open ts (toknext parser) = Some r"
    "case r of None \<Rightarrow> True | Some i \<Rightarrow> i < toknext parser \<and> tok_open (ts ! i)"
    by (auto split: option.splits)
  show ?thesis
  proof (cases r)
    case None
    with r show ?thesis by (simp add: close_container_def Let_def switch_ok_def)
  next
    case (Some i)
    with r n have i: "i < toknext parser" "i < length ts" "tok_open (ts ! i)" by auto
    show ?thesis
    proof (cases "tok_type (ts ! i) = ?ty")
      case False
      with r Some i show ?thesis by (simp add: close_container_def rd_def switch_ok_def)
    next
      case True
      let ?u = "ts[i := (ts ! i)\<lparr>tok_end := int (pos parser) + 1\<rparr>]"
      from i have "i + 1 \<le> length ?u" by simp
      from last_token_total [OF this, of tok_open] obtain j where
        j: "last_token tok_open ?u (i + 1) = Some j" "case j of None \<Rightarrow> True | Some j \<Rightarrow> j < i + 1"
        by (auto split: option.splits)
      let ?p = "parser\<lparr>toksuper := (case j of None \<Rightarrow> - 1 | Some j \<Rightarrow> int j)\<rparr>"
      have "close_container parser ts c = Some (None, ?p, Some ?u)"
        using r Some i True j by (simp add: close_container_def rd_def)
      moreover have "toks_inv (pos parser + 1) num ?p ?u"
        using toks_inv_mono [OF inv, of "pos parser + 1"] i j inv
        by (auto simp: toks_inv_def nth_list_update tok_wf_def split: option.splits)
      ultimately show ?thesis using p by (simp add: switch_ok_def)
    qed
  qed
qed

lemma on_comma_ok:
  assumes inv: "toks_inv (pos parser) num parser ts" and p: "pos parser < len"
  shows "\<exists>r. on_comma parser ts = Some r \<and> switch_ok len num parser ts count (r, count)"
proof -
  have n: "toknext parser \<le> length ts" using inv by (simp add: toks_inv_def)
  note inv1 = toks_inv_mono [OF inv, of "pos parser + 1"]
  from last_token_total [OF n, of "\<lambda>t. tok_container t \<and> tok_open t"] obtain r where
    r: "last_token (\<lambda>t. tok_container t \<and> tok_open t) ts (toknext parser) = Some r"
    "case r of None \<Rightarrow> True | Some i \<Rightarrow> i < toknext parser" by (auto split: option.splits)
  show ?thesis
  proof (cases "toksuper parser = - 1")
    case True
    with inv1 p show ?thesis by (simp add: on_comma_def switch_ok_def)
  next
    case False
    with inv have "rd ts (nat (toksuper parser)) = Some (ts ! nat (toksuper parser))"
      by (auto simp: rd_def toks_inv_def)
    moreover have "toks_inv (pos parser + 1) num (parser\<lparr>toksuper := int j\<rparr>) ts" if "r = Some j" for j
      using inv1 r that by (simp add: toks_inv_def)
    ultimately show ?thesis
      using False r inv1 p by (cases r) (auto simp: on_comma_def switch_ok_def)
  qed
qed

lemma jsmn_switch_ok:
  assumes inv: "toks_inv (pos parser) num parser ts" and len: "len \<le> length js" and p: "pos parser < len"
    and c: "rd js (pos parser) = Some c" "c \<noteq> 0"
  shows "\<exists>res. jsmn_switch js len num c parser (Some ts) count = Some res \<and> switch_ok len num parser ts count res"
proof (cases c rule: char_kinds)
  case 1
  with open_container_ok [OF inv p, of c count] show ?thesis by (auto simp: jsmn_switch_open)
next
  case 2
  with close_container_ok [OF inv p, of c count] show ?thesis by (auto simp: jsmn_switch_close)
next
  case 3
  with jsmn_parse_string_ok [OF inv len p] show ?thesis by (simp add: jsmn_switch_quote)
next
  case 4
  with toks_inv_mono [OF inv, of "pos parser + 1"] p show ?thesis
    by (simp add: jsmn_switch_space switch_ok_def)
next
  case 5
  with toks_inv_mono [OF inv, of "pos parser + 1"] p show ?thesis
    by (simp add: jsmn_switch_colon switch_ok_def toks_inv_def)
next
  case 6
  with on_comma_ok [OF inv p, of count] show ?thesis by (auto simp: jsmn_switch_comma)
next
  case 7
  with jsmn_parse_primitive_ok [OF inv len p c] show ?thesis by (simp add: jsmn_switch_primitive)
qed

section \<open>The whole parser\<close>

lemma jsmn_loop_ok:
  "toks_inv (pos parser) num parser ts \<Longrightarrow> pos parser \<le> len \<Longrightarrow> len \<le> length js \<Longrightarrow>
     \<exists>e parser' ts' count'. jsmn_loop js len num parser (Some ts) count = Some ((e, parser', Some ts'), count')
       \<and> length ts' = length ts
       \<and> (case e of Some r \<Rightarrow> r \<in> {JSMN_ERROR_NOMEM, JSMN_ERROR_INVAL, JSMN_ERROR_PART}
          | None \<Rightarrow> pos parser' \<le> len \<and> toks_inv (pos parser') num parser' ts'
              \<and> count' - int (toknext parser') = count - int (toknext parser))"
proof (induction js len num parser "Some ts" count arbitrary: ts rule: jsmn_loop.induct)
  case (1 js len num parser count)
  show ?case
  proof (cases "pos parser < len \<and> js ! pos parser \<noteq> 0")
    case False
    with 1 show ?thesis by (subst jsmn_loop.simps) (auto simp: rd_def)
  next
    case True
    with "1.prems" have c: "rd js (pos parser) = Some (js ! pos parser)" by (simp add: rd_def)
    from jsmn_switch_ok [OF "1.prems"(1,3) _ c, of count] True obtain e parser' ts' count' where
      sw: "jsmn_switch js len num (js ! pos parser) parser (Some ts) count = Some ((e, parser', Some ts'), count')"
      and ok: "switch_ok len num parser ts count ((e, parser', Some ts'), count')"
      by (auto simp: switch_ok_def)
    show ?thesis
    proof (cases e)
      case None
      with ok have sok: "length ts' = length ts" "pos parser' < len" "toks_inv (pos parser' + 1) num parser' ts'"
        "count' - int (toknext parser') = count - int (toknext parser)" by (simp_all add: switch_ok_def)
      have "\<exists>e q us n. jsmn_loop js len num (parser'\<lparr>pos := pos parser' + 1\<rparr>) (Some ts') count'
            = Some ((e, q, Some us), n) \<and> length us = length ts'
          \<and> (case e of Some r \<Rightarrow> r \<in> {JSMN_ERROR_NOMEM, JSMN_ERROR_INVAL, JSMN_ERROR_PART}
             | None \<Rightarrow> pos q \<le> len \<and> toks_inv (pos q) num q us
                 \<and> n - int (toknext q) = count' - int (toknext (parser'\<lparr>pos := pos parser' + 1\<rparr>)))"
        using True sok "1.prems" None
        by (intro "1.hyps" [OF _ c _ sw]) simp_all
      with sok None True show ?thesis by (subst jsmn_loop.simps) (simp add: c sw cong: option.case_cong)
    next
      case (Some r)
      with ok True show ?thesis
        by (subst jsmn_loop.simps) (auto simp: c sw switch_ok_def)
    qed
  qed
qed

lemma not_open_wf:
  "tok_wf n t \<Longrightarrow> \<not> tok_open t \<Longrightarrow> tok_type t \<noteq> JSMN_UNDEFINED \<and> 0 \<le> tok_start t \<and> tok_start t \<le> tok_end t \<and> tok_end t \<le> int n"
  by (auto simp: tok_wf_def tok_open_def split: if_splits)

lemma parse_total:
  assumes "len \<le> length js" and "num \<le> length ts"
  shows "\<exists>r parser ts'. jsmn_parse jsmn_init js len (Some ts) num = Some (r, parser, Some ts')
    \<and> length ts' = length ts
    \<and> (r < 0 \<longrightarrow> r \<in> {JSMN_ERROR_NOMEM, JSMN_ERROR_INVAL, JSMN_ERROR_PART})
    \<and> (0 \<le> r \<longrightarrow> r \<le> int num \<and> (\<forall>i<nat r. tok_type (ts' ! i) \<noteq> JSMN_UNDEFINED
        \<and> 0 \<le> tok_start (ts' ! i) \<and> tok_start (ts' ! i) \<le> tok_end (ts' ! i) \<and> tok_end (ts' ! i) \<le> int len
        \<and> (0 < tok_size (ts' ! i) \<longrightarrow> i + 1 < nat r)))"
proof -
  from assms toks_inv_init have "toks_inv (pos jsmn_init) num jsmn_init ts" "pos jsmn_init \<le> len"
    by (simp_all add: jsmn_init_def)
  from jsmn_loop_ok [OF this assms(1), of 0] obtain e parser ts' count where
    run: "jsmn_loop js len num jsmn_init (Some ts) 0 = Some ((e, parser, Some ts'), count)"
    and len: "length ts' = length ts"
    and ok: "case e of Some r \<Rightarrow> r \<in> {JSMN_ERROR_NOMEM, JSMN_ERROR_INVAL, JSMN_ERROR_PART}
      | None \<Rightarrow> pos parser \<le> len \<and> toks_inv (pos parser) num parser ts' \<and> count = int (toknext parser)"
    by (auto simp: jsmn_init_def cong: option.case_cong)
  note step = jsmn_parse_def [of jsmn_init js len "Some ts" num]
  show ?thesis
  proof (cases e)
    case (Some r)
    with run ok len show ?thesis unfolding step by (auto simp: jsmn_init_def)
  next
    case None
    with ok have inv: "toks_inv (pos parser) num parser ts'" "pos parser \<le> len"
      and n: "count = int (toknext parser)" by auto
    from inv have "toknext parser \<le> length ts'" by (simp add: toks_inv_def)
    from last_token_total [OF this, of tok_open] obtain j where
      j: "last_token tok_open ts' (toknext parser) = Some j"
      "j = None \<longrightarrow> (\<forall>i<toknext parser. \<not> tok_open (ts' ! i))" by (auto split: option.splits)
    have wf: "\<forall>i<toknext parser. tok_wf len (ts' ! i) \<and> (0 < tok_size (ts' ! i) \<longrightarrow> i + 1 < toknext parser)"
      using toks_inv_mono [OF inv] by (simp add: toks_inv_def)
    have "jsmn_parse jsmn_init js len (Some ts) num
        = Some (if j \<noteq> None then JSMN_ERROR_PART else count, parser, Some ts')"
      using run None j unfolding step by (simp add: jsmn_init_def [THEN arg_cong [where f = toknext]])
    moreover have "toknext parser \<le> num" using inv by (simp add: toks_inv_def)
    ultimately show ?thesis
      using len n j wf by (cases j) (auto dest: not_open_wf)
  qed
qed

text \<open>
  C9: the tokenizer on any text. Started fresh, it always returns, without a load or store outside
  the text, the first \<open>num\<close> tokens and itself. An error is one of NOMEM, INVAL and PART. Otherwise
  the result is the number of tokens used, at most \<open>num\<close>; each of these has a type other than
  UNDEFINED and a range \<open>0 \<le> start \<le> end \<le> len\<close>, and a token that has children is followed by
  another one, so that a caller may look at the token behind a key.
\<close>

theorem jsmn_parse_safe:
  assumes "len \<le> length js" and "num \<le> length ts"
  shows "\<exists>r parser ts'. jsmn_parse jsmn_init js len (Some ts) num = Some (r, parser, Some ts')
    \<and> length ts' = length ts
    \<and> (r < 0 \<longrightarrow> r \<in> {JSMN_ERROR_NOMEM, JSMN_ERROR_INVAL, JSMN_ERROR_PART})
    \<and> (0 \<le> r \<longrightarrow> r \<le> int num \<and> (\<forall>i<nat r. tok_type (ts' ! i) \<noteq> JSMN_UNDEFINED
        \<and> 0 \<le> tok_start (ts' ! i) \<and> tok_start (ts' ! i) \<le> tok_end (ts' ! i) \<and> tok_end (ts' ! i) \<le> int len
        \<and> (0 < tok_size (ts' ! i) \<longrightarrow> i + 1 < nat r)))"
  using assms by (rule parse_total)

theorem jsmn_parse_safe_witness:
  "let js = [0x7B, 0x22, 0x61, 0x22, 0x3A, 0x31, 0x7D] :: bytes;
       ts = replicate 16 \<lparr> tok_type = JSMN_UNDEFINED, tok_start = 0, tok_end = 0, tok_size = 0 \<rparr> in
   \<exists>r parser ts'. jsmn_parse jsmn_init js 7 (Some ts) 16 = Some (r, parser, Some ts') \<and> length ts' = 16
     \<and> (0 \<le> r \<longrightarrow> r \<le> 16)"
  using jsmn_parse_safe [of 7 "[0x7B, 0x22, 0x61, 0x22, 0x3A, 0x31, 0x7D]" 16
      "replicate 16 \<lparr> tok_type = JSMN_UNDEFINED, tok_start = 0, tok_end = 0, tok_size = 0 \<rparr>"]
  unfolding Let_def length_replicate by fastforce

end
