(* ===== verification/Jsmn_Roundtrip.thy ===== *)
theory Jsmn_Roundtrip
  imports Jsmn_Safety
begin

text \<open>
  Flat JSON objects, the messages the terminal is sent, and the tokens they must give: a specification
  by the text of an object, and the proof that the tokenizer reads it back.
\<close>

section \<open>Flat objects and their tokens\<close>

datatype jvalue = JString bytes | JPrimitive bytes

definition plain_string :: "bytes \<Rightarrow> bool" where
  "plain_string s \<longleftrightarrow> (\<forall>b\<in>set s. b \<noteq> 0 \<and> b \<noteq> 0x22 \<and> b \<noteq> 0x5C)"

definition primitive_char :: "u8 \<Rightarrow> bool" where
  "primitive_char b \<longleftrightarrow> \<not> primitive_end b \<and> 32 \<le> b \<and> b < 127"

definition plain_primitive :: "bytes \<Rightarrow> bool" where
  "plain_primitive s \<longleftrightarrow> s \<noteq> [] \<and> list_all primitive_char s \<and> hd s \<notin> {0x7B, 0x5B, 0x22}"

primrec value_text :: "jvalue \<Rightarrow> bytes" where
  "value_text (JString s) = 0x22 # s @ [0x22]"
| "value_text (JPrimitive s) = s"

primrec plain_value :: "jvalue \<Rightarrow> bool" where
  "plain_value (JString s) = plain_string s"
| "plain_value (JPrimitive s) = plain_primitive s"

type_synonym jpair = "bytes \<times> jvalue"

fun plain_pair :: "jpair \<Rightarrow> bool" where
  "plain_pair (k, v) = (plain_string k \<and> plain_value v)"

fun pair_text :: "jpair \<Rightarrow> bytes" where
  "pair_text (k, v) = 0x22 # k @ 0x22 # 0x3A # value_text v"

fun body_text :: "jpair list \<Rightarrow> bytes" where
  "body_text [] = []"
| "body_text [p] = pair_text p"
| "body_text (p # ps) = pair_text p @ 0x2C # body_text ps"

definition object_text :: "jpair list \<Rightarrow> bytes" where
  "object_text ps = 0x7B # body_text ps @ [0x7D]"

definition value_token :: "nat \<Rightarrow> jvalue \<Rightarrow> jsmntok_t" where
  "value_token at v = (case v of
     JString s \<Rightarrow> \<lparr> tok_type = JSMN_STRING, tok_start = int at + 1, tok_end = int (at + 1 + length s), tok_size = 0 \<rparr>
   | JPrimitive s \<Rightarrow> \<lparr> tok_type = JSMN_PRIMITIVE, tok_start = int at, tok_end = int (at + length s), tok_size = 0 \<rparr>)"

definition key_token :: "nat \<Rightarrow> bytes \<Rightarrow> int \<Rightarrow> jsmntok_t" where
  "key_token at k n =
     \<lparr> tok_type = JSMN_STRING, tok_start = int at + 1, tok_end = int (at + 1 + length k), tok_size = n \<rparr>"

fun body_tokens :: "nat \<Rightarrow> jpair list \<Rightarrow> jsmntok_t list" where
  "body_tokens at [] = []"
| "body_tokens at ((k, v) # ps) =
     key_token at k 1 # value_token (at + length k + 3) v
       # body_tokens (at + length (pair_text (k, v)) + 1) ps"

definition object_token :: "int \<Rightarrow> int \<Rightarrow> jsmntok_t" where
  "object_token e n = \<lparr> tok_type = JSMN_OBJECT, tok_start = 0, tok_end = e, tok_size = n \<rparr>"

lemma length_body_tokens [simp]: "length (body_tokens at ps) = 2 * length ps"
  by (induction at ps rule: body_tokens.induct) auto

section \<open>Scanning\<close>

lemma rd_middle [simp]: "rd (pre @ c # post) (length pre) = Some c"
  by (simp add: rd_def)

lemma string_scan_plain:
  "plain_string s \<Longrightarrow> length pre + length s < len \<Longrightarrow>
     string_scan (pre @ s @ 0x22 # post) len (length pre) = Some (Quote (length pre + length s))"
proof (induction s arbitrary: pre)
  case Nil
  then show ?case by (simp add: string_scan.simps)
next
  case (Cons c s)
  from Cons.prems Cons.IH [of "pre @ [c]"] show ?case
    by (subst string_scan.simps) (simp add: plain_string_def)
qed

lemma primitive_scan_plain:
  "list_all primitive_char s \<Longrightarrow> primitive_end d \<Longrightarrow> length pre + length s < len \<Longrightarrow>
     primitive_scan (pre @ s @ d # post) len (length pre) = Some (Some (length pre + length s))"
proof (induction s arbitrary: pre)
  case Nil
  then show ?case by (simp add: primitive_scan.simps)
next
  case (Cons c s)
  from Cons.prems Cons.IH [of "pre @ [c]"] show ?case
    by (subst primitive_scan.simps) (auto simp: primitive_char_def)
qed

section \<open>Steps of the loop\<close>

abbreviation at_state :: "nat \<Rightarrow> nat \<Rightarrow> nat \<Rightarrow> jsmn_parser" where
  "at_state p n s \<equiv> \<lparr> pos = p, toknext = n, toksuper = int s \<rparr>"

definition grown :: "nat \<Rightarrow> jsmntok_t list \<Rightarrow> jsmntok_t list" where
  "grown i ts = ts[i := (ts ! i)\<lparr>tok_size := tok_size (ts ! i) + 1\<rparr>]"

lemma loop_step:
  assumes "pos parser = length pre" and "length pre < len" and "c \<noteq> 0"
    and "jsmn_switch (pre @ c # post) len num c parser tokens count = Some ((None, parser', tokens'), count')"
  shows "jsmn_loop (pre @ c # post) len num parser tokens count
    = jsmn_loop (pre @ c # post) len num (parser'\<lparr>pos := pos parser' + 1\<rparr>) tokens' count'"
  using assms by (subst jsmn_loop.simps) simp

lemma add_value:
  assumes "length A = n" and "n < num" and "s < n"
  shows "\<exists>q. add_token (at_state p n s) (A @ x # B) num type b e back = Some (0, at_state p (n + 1) s, Some q)
    \<and> grow_super (at_state p' (n + 1) s) q
      = Some (grown s A @ \<lparr> tok_type = type, tok_start = b, tok_end = e, tok_size = 0 \<rparr> # B)"
  using assms
  by (auto simp: add_token_eq grow_super_def rd_def grown_def nth_append list_update_append)

lemma string_step:
  assumes "plain_string k" and "length pre + length k + 1 < len" and "length A = n" and "n < num" and "s < n"
  shows "jsmn_loop (pre @ 0x22 # k @ 0x22 # post) len num (at_state (length pre) n s) (Some (A @ x # B)) count
    = jsmn_loop (pre @ 0x22 # k @ 0x22 # post) len num (at_state (length pre + length k + 2) (n + 1) s)
        (Some (grown s A @ key_token (length pre) k 0 # B)) (count + 1)"
proof -
  let ?js = "pre @ 0x22 # k @ 0x22 # post"
  from string_scan_plain [OF assms(1), of "pre @ [0x22]" len post] assms(2)
  have scan: "string_scan ?js len (length pre + 1) = Some (Quote (length pre + length k + 1))" by simp
  from add_value [OF assms(3-5), of "length pre + length k + 1" x B JSMN_STRING "int (length pre) + 1"
      "int (length pre + length k + 1)" "length pre" "length pre + length k + 1"]
  have "jsmn_switch ?js len num 0x22 (at_state (length pre) n s) (Some (A @ x # B)) count
    = Some ((None, at_state (length pre + length k + 1) (n + 1) s,
        Some (grown s A @ key_token (length pre) k 0 # B)), count + 1)"
    using scan
    by (auto simp: jsmn_switch_quote jsmn_parse_string_def Let_def after_value_eq key_token_def add.commute)
  from loop_step [OF _ _ _ this] assms(2) show ?thesis by simp
qed

lemma primitive_step:
  assumes v: "plain_primitive v" and d: "primitive_end d" and len: "length pre + length v < len"
    and A: "length A = n" "n < num" "s < n"
  shows "jsmn_loop (pre @ v @ d # post) len num (at_state (length pre) n s) (Some (A @ x # B)) count
    = jsmn_loop (pre @ v @ d # post) len num (at_state (length pre + length v) (n + 1) s)
        (Some (grown s A @ value_token (length pre) (JPrimitive v) # B)) (count + 1)"
proof -
  from v obtain c w where w: "v = c # w" and c: "primitive_char c" "c \<notin> {0x7B, 0x5B, 0x22}"
    by (cases v) (auto simp: plain_primitive_def)
  let ?js = "pre @ c # w @ d # post"
  from v w have "list_all primitive_char (c # w)" by (simp add: plain_primitive_def)
  from primitive_scan_plain [OF this d, of pre len post] len w
  have scan: "primitive_scan ?js len (length pre) = Some (Some (length pre + length v))" by simp
  from add_value [OF A, of "length pre + length v" x B JSMN_PRIMITIVE "int (length pre)"
      "int (length pre + length v)" "length pre" "length pre + length v - 1"]
  have "jsmn_switch ?js len num c (at_state (length pre) n s) (Some (A @ x # B)) count
    = Some ((None, at_state (length pre + length v - 1) (n + 1) s,
        Some (grown s A @ value_token (length pre) (JPrimitive v) # B)), count + 1)"
    using scan c
    by (subst jsmn_switch_primitive)
       (auto simp: primitive_char_def jsmn_parse_primitive_def after_value_eq value_token_def)
  moreover have "c \<noteq> 0" using c by (auto simp: primitive_char_def)
  ultimately show ?thesis using loop_step [of "at_state (length pre) n s" pre len c] len w by simp
qed

lemma value_step:
  assumes v: "plain_value v" and d: "primitive_end d" and len: "length pre + length (value_text v) < len"
    and A: "length A = n" "n < num" "s < n"
  shows "jsmn_loop (pre @ value_text v @ d # post) len num (at_state (length pre) n s) (Some (A @ x # B)) count
    = jsmn_loop (pre @ value_text v @ d # post) len num (at_state (length pre + length (value_text v)) (n + 1) s)
        (Some (grown s A @ value_token (length pre) v # B)) (count + 1)"
proof (cases v)
  case (JPrimitive w)
  with primitive_step [OF _ d _ A] v len show ?thesis by simp
next
  case (JString w)
  with string_step [OF _ _ A, of w pre len "d # post" x B count] v len show ?thesis
    by (simp add: key_token_def value_token_def add.commute)
qed

text \<open>Key, colon and value; the superior token is first the object, then the key.\<close>

lemma pair_step:
  assumes p: "plain_pair (k, v)" and d: "primitive_end d" and len: "length pre + length (pair_text (k, v)) < len"
    and D: "length D + 1 = n" "n + 1 < num"
  shows "jsmn_loop (pre @ pair_text (k, v) @ d # post) len num (at_state (length pre) n 0)
      (Some ((object_token e m # D) @ x # y # B)) count
    = jsmn_loop (pre @ pair_text (k, v) @ d # post) len num
        (at_state (length pre + length (pair_text (k, v))) (n + 2) n)
        (Some (object_token e (m + 1) # D @ key_token (length pre) k 1
          # value_token (length pre + length k + 3) v # B)) (count + 2)"
proof -
  let ?js = "pre @ pair_text (k, v) @ d # post"
  let ?pre = "pre @ 0x22 # k @ [0x22]"
  let ?A = "object_token e (m + 1) # D @ [key_token (length pre) k 0]"
  have "jsmn_loop ?js len num (at_state (length pre) n 0) (Some ((object_token e m # D) @ x # y # B)) count
      = jsmn_loop ?js len num (at_state (length ?pre) (n + 1) 0) (Some (?A @ y # B)) (count + 1)"
    using string_step [of k pre len "object_token e m # D" n num 0 "0x3A # value_text v @ d # post" x "y # B" count]
      p len D by (simp add: grown_def object_token_def)
  also have "\<dots> = jsmn_loop ?js len num (at_state (length ?pre + 1) (n + 1) n) (Some (?A @ y # B)) (count + 1)"
    using loop_step [where parser = "at_state (length ?pre) (n + 1) 0" and pre = ?pre and len = len
        and c = "0x3A" and post = "value_text v @ d # post" and num = num
        and tokens = "Some (?A @ y # B)" and count = "count + 1"] len
    by (simp add: jsmn_switch_colon)
  also have "\<dots> = jsmn_loop ?js len num (at_state (length pre + length (pair_text (k, v))) (n + 2) n)
        (Some (grown n ?A @ value_token (length pre + length k + 3) v # B)) (count + 2)"
    using value_step [of v d "?pre @ [0x3A]" len ?A "n + 1" num n post y B "count + 1"] p d len D
    by (simp add: numeral_eq_Suc add.assoc)
  also have "grown n ?A = object_token e (m + 1) # D @ [key_token (length pre) k 1]"
    using D by (auto simp: grown_def nth_append list_update_append key_token_def nth_Cons split: nat.splits)
  finally show ?thesis by simp
qed

text \<open>A comma finds the object again: it is the only container that is open.\<close>

lemma last_token_head:
  "q t \<Longrightarrow> list_all (\<lambda>u. \<not> q u) D \<Longrightarrow> last_token q (t # D @ B) (Suc (length D)) = Some (Some 0)"
proof (induction D arbitrary: B rule: rev_induct)
  case (snoc u D)
  then show ?case by (simp add: rd_def)
qed (simp add: rd_def)

definition closed_value :: "jsmntok_t \<Rightarrow> bool" where
  "closed_value t \<longleftrightarrow> \<not> tok_container t \<and> \<not> tok_open t"

lemma closed_tokens: "list_all closed_value (body_tokens at ps)"
  by (induction at ps rule: body_tokens.induct)
     (auto simp: closed_value_def key_token_def value_token_def tok_container_def tok_open_def split: jvalue.splits)

lemma object_open: "tok_open (object_token (- 1) m)" "tok_container (object_token e m)"
  by (simp_all add: object_token_def tok_open_def tok_container_def)

lemma comma_step:
  assumes "list_all closed_value D" and "s < n" and "length D + 1 = n" and "0 < s" and "length pre < len"
  shows "jsmn_loop (pre @ 0x2C # post) len num (at_state (length pre) n s)
      (Some (object_token (- 1) m # D @ B)) count
    = jsmn_loop (pre @ 0x2C # post) len num (at_state (length pre + 1) n 0)
      (Some (object_token (- 1) m # D @ B)) count"
proof -
  from assms have "closed_value (D ! (s - 1))" by (auto simp: list_all_length)
  moreover have "rd (object_token (- 1) m # D @ B) s = Some (D ! (s - 1))"
    using assms by (cases s) (auto simp: rd_def nth_append)
  moreover have "last_token (\<lambda>t. tok_container t \<and> tok_open t) (object_token (- 1) m # D @ B) n = Some (Some 0)"
    using assms(1,3) last_token_head [of "\<lambda>t. tok_container t \<and> tok_open t" "object_token (- 1) m" D B]
    by (auto simp: object_open closed_value_def list_all_iff)
  ultimately have "jsmn_switch (pre @ 0x2C # post) len num 0x2C (at_state (length pre) n s)
      (Some (object_token (- 1) m # D @ B)) count
    = Some ((None, at_state (length pre) n 0, Some (object_token (- 1) m # D @ B)), count)"
    by (simp add: jsmn_switch_comma on_comma_def closed_value_def)
  from loop_step [OF _ assms(5) _ this] show ?thesis by simp
qed

text \<open>The pairs of the object, one after the other.\<close>

lemma body_steps:
  assumes "list_all plain_pair ps" and "ps \<noteq> []" and "length pre + length (body_text ps) < len"
    and "list_all closed_value D" and "length D + 1 = n" and "n + 2 * length ps \<le> num"
    and "2 * length ps \<le> length B"
  shows "\<exists>s. jsmn_loop (pre @ body_text ps @ 0x7D # post) len num (at_state (length pre) n 0)
      (Some (object_token (- 1) m # D @ B)) count
    = jsmn_loop (pre @ body_text ps @ 0x7D # post) len num
        (at_state (length pre + length (body_text ps)) (n + 2 * length ps) s)
        (Some (object_token (- 1) (m + int (length ps)) # D @ body_tokens (length pre) ps @ drop (2 * length ps) B))
        (count + 2 * int (length ps))"
  using assms
proof (induction ps arbitrary: pre D n B m count rule: body_text.induct)
  case 1
  then show ?case by simp
next
  case (2 p)
  obtain k v where p: "p = (k, v)" by force
  from 2 obtain x y C where B: "B = x # y # C" by (cases B; cases "tl B") auto
  from pair_step [of k v "0x7D" pre len D n num post "- 1" m x y C count] 2 p B
  show ?case by (auto simp: primitive_end_def intro!: exI [of _ n])
next
  case (3 p q ps)
  obtain k v where p: "p = (k, v)" by force
  from 3 obtain x y C where B: "B = x # y # C" by (cases B; cases "tl B") auto
  let ?rest = "body_text (q # ps) @ 0x7D # post"
  let ?js = "pre @ pair_text p @ 0x2C # ?rest" and ?pre = "pre @ pair_text p"
  let ?D = "D @ [key_token (length pre) k 1, value_token (length pre + length k + 3) v]"
  have D: "list_all closed_value ?D"
    using "3.prems"(4) closed_tokens [of "length pre" "[(k, v)]"] by simp
  have "jsmn_loop ?js len num (at_state (length pre) n 0) (Some (object_token (- 1) m # D @ B)) count
      = jsmn_loop ?js len num (at_state (length ?pre) (n + 2) n) (Some (object_token (- 1) (m + 1) # ?D @ C))
          (count + 2)"
    using pair_step [of k v "0x2C" pre len D n num ?rest "- 1" m x y C count] "3.prems" p B
    by (simp add: primitive_end_def)
  also have "\<dots> = jsmn_loop ?js len num (at_state (length (?pre @ [0x2C])) (n + 2) 0)
        (Some (object_token (- 1) (m + 1) # ?D @ C)) (count + 2)"
    using comma_step [OF D, of n "n + 2" ?pre len ?rest num "m + 1" C "count + 2"] "3.prems" by simp
  finally have first: "jsmn_loop ?js len num (at_state (length pre) n 0) (Some (object_token (- 1) m # D @ B)) count
      = jsmn_loop ((?pre @ [0x2C]) @ ?rest) len num (at_state (length (?pre @ [0x2C])) (n + 2) 0)
        (Some (object_token (- 1) (m + 1) # ?D @ C)) (count + 2)" by simp
  have "\<exists>s. jsmn_loop ((?pre @ [0x2C]) @ ?rest) len num (at_state (length (?pre @ [0x2C])) (n + 2) 0)
        (Some (object_token (- 1) (m + 1) # ?D @ C)) (count + 2)
      = jsmn_loop ((?pre @ [0x2C]) @ ?rest) len num
        (at_state (length (?pre @ [0x2C]) + length (body_text (q # ps))) (n + 2 + 2 * length (q # ps)) s)
        (Some (object_token (- 1) (m + 1 + int (length (q # ps))) # ?D
          @ body_tokens (length (?pre @ [0x2C])) (q # ps) @ drop (2 * length (q # ps)) C))
        (count + 2 + 2 * int (length (q # ps)))"
    by (rule "3.IH") (use "3.prems" D B in simp_all)
  with first show ?case by (simp add: p B add.assoc)
qed

lemma close_step:
  assumes "list_all closed_value D" and "length D + 1 = n" and "length pre < len" 
  shows "jsmn_loop (pre @ 0x7D # post) len num (at_state (length pre) n s)
      (Some (object_token (- 1) m # D @ B)) count
    = jsmn_loop (pre @ 0x7D # post) len num \<lparr> pos = length pre + 1, toknext = n, toksuper = - 1 \<rparr>
      (Some (object_token (int (length pre) + 1) m # D @ B)) count"
proof -
  have "last_token tok_open (object_token (- 1) m # D @ B) n = Some (Some 0)"
    using assms(1,2) last_token_head [of tok_open "object_token (- 1) m" D B]
    by (auto simp: object_open closed_value_def list_all_iff)
  then have "jsmn_switch (pre @ 0x7D # post) len num 0x7D (at_state (length pre) n s)
      (Some (object_token (- 1) m # D @ B)) count
    = Some ((None, \<lparr> pos = length pre, toknext = n, toksuper = - 1 \<rparr>,
        Some (object_token (int (length pre) + 1) m # D @ B)), count)"
    by (simp add: jsmn_switch_close close_container_def rd_def object_token_def tok_open_def)
  from loop_step [OF _ assms(3) _ this] show ?thesis by simp
qed

lemma none_open:
  "list_all closed_value D \<Longrightarrow> 0 \<le> e \<Longrightarrow> n = Suc (length D) \<Longrightarrow> last_token tok_open (object_token e m # D @ B) n = Some None"
proof -
  assume D: "list_all closed_value D" and e: "0 \<le> e" and n: "n = Suc (length D)"
  have "\<not> tok_open ((object_token e m # D @ B) ! i)" if "i < n" for i
    using D e n that
    by (cases i) (auto simp: object_token_def tok_open_def closed_value_def nth_append list_all_length)
  with last_token_total [of n "object_token e m # D @ B" tok_open] n show ?thesis
    by (auto split: option.splits)
qed

text \<open>The object as a whole, with whatever behind it that the length leaves out.\<close>

lemma parse_object:
  assumes ps: "list_all plain_pair ps" and room: "1 + 2 * length ps \<le> num" "num \<le> length ts"
  shows "jsmn_parse jsmn_init (object_text ps @ rest) (length (object_text ps)) (Some ts) num
    = Some (1 + 2 * int (length ps),
        \<lparr> pos = length (object_text ps), toknext = 1 + 2 * length ps, toksuper = - 1 \<rparr>,
        Some (object_token (int (length (object_text ps))) (int (length ps)) # body_tokens 1 ps
          @ drop (1 + 2 * length ps) ts))"
proof -
  let ?len = "length (object_text ps)" and ?n = "1 + 2 * length ps"
  let ?js = "object_text ps @ rest"
  from room obtain t B where ts: "ts = t # B" by (cases ts) auto
  have js: "?js = [] @ 0x7B # body_text ps @ 0x7D # rest" by (simp add: object_text_def)
  have "jsmn_switch ?js ?len num 0x7B jsmn_init (Some ts) 0
      = Some ((None, at_state 0 1 0, Some (object_token (- 1) 0 # B)), 1)"
    using room by (simp add: jsmn_switch_open open_container_def jsmn_alloc_token_def jsmn_init_def rd_def
        grow_super_def ts object_token_def)
  from loop_step [OF _ _ _ this [unfolded js]]
  have "jsmn_loop ?js ?len num jsmn_init (Some ts) 0
      = jsmn_loop ?js ?len num (at_state (length [0x7B :: u8]) 1 0) (Some (object_token (- 1) 0 # [] @ B)) 1"
    by (simp add: jsmn_init_def object_text_def)
  also have "\<exists>s. \<dots> = jsmn_loop ?js ?len num (at_state (?len - 1) ?n s)
      (Some (object_token (- 1) (int (length ps)) # body_tokens 1 ps @ drop (2 * length ps) B)) (int ?n)"
  proof (cases "ps = []")
    case True
    then show ?thesis by (auto simp: object_text_def intro!: exI [of _ 0])
  next
    case False
    from body_steps [of ps "[0x7B]" ?len "[]" 1 num B rest 0 1] False ps room ts show ?thesis
      by (simp add: object_text_def add.commute)
  qed
  then obtain s where "jsmn_loop ?js ?len num (at_state (length [0x7B :: u8]) 1 0)
      (Some (object_token (- 1) 0 # [] @ B)) 1
    = jsmn_loop ?js ?len num (at_state (?len - 1) ?n s)
      (Some (object_token (- 1) (int (length ps)) # body_tokens 1 ps @ drop (2 * length ps) B)) (int ?n)" by blast
  also have "\<dots> = jsmn_loop ?js ?len num \<lparr> pos = ?len, toknext = ?n, toksuper = - 1 \<rparr>
      (Some (object_token (int ?len) (int (length ps)) # body_tokens 1 ps @ drop (2 * length ps) B)) (int ?n)"
    using close_step [OF closed_tokens, of 1 ps ?n "0x7B # body_text ps" ?len rest num s]
    by (simp add: object_text_def)
  also have "\<dots> = Some ((None, \<lparr> pos = ?len, toknext = ?n, toksuper = - 1 \<rparr>,
      Some (object_token (int ?len) (int (length ps)) # body_tokens 1 ps @ drop (2 * length ps) B)), int ?n)"
    by (simp add: jsmn_loop.simps)
  finally have "jsmn_loop ?js ?len num jsmn_init (Some ts) 0 = \<dots>" .
  moreover have "toknext jsmn_init = 0" by (simp add: jsmn_init_def)
  ultimately show ?thesis
    using none_open [OF closed_tokens, of "int ?len" ?n 1 ps] by (simp add: jsmn_parse_def ts)
qed

text \<open>
  C23: the tokens of a flat object. For an object of pairs of a key and a plain string or primitive,
  and with one token and two more for each pair at hand, the parser returns the number of
  tokens; they are the object with its number of pairs, and for each pair the key, holding one value,
  and the value, with exactly the ranges these texts have in the message. The tokens left are not
  touched, and what follows the message in memory does not matter.
\<close>

theorem jsmn_parse_roundtrip:
  assumes "list_all plain_pair ps" and "1 + 2 * length ps \<le> num" and "num \<le> length ts"
  shows "\<exists>parser. jsmn_parse jsmn_init (object_text ps @ rest) (length (object_text ps)) (Some ts) num
    = Some (1 + 2 * int (length ps), parser,
        Some (object_token (int (length (object_text ps))) (int (length ps)) # body_tokens 1 ps
          @ drop (1 + 2 * length ps) ts))"
  using parse_object [OF assms] by blast

theorem jsmn_parse_roundtrip_witness:
  "\<exists>parser. jsmn_parse jsmn_init [0x7B, 0x22, 0x61, 0x22, 0x3A, 0x31, 0x7D] 7
      (Some (replicate 3 \<lparr> tok_type = JSMN_UNDEFINED, tok_start = 0, tok_end = 0, tok_size = 0 \<rparr>)) 3
    = Some (3, parser, Some [
        \<lparr> tok_type = JSMN_OBJECT, tok_start = 0, tok_end = 7, tok_size = 1 \<rparr>,
        \<lparr> tok_type = JSMN_STRING, tok_start = 2, tok_end = 3, tok_size = 1 \<rparr>,
        \<lparr> tok_type = JSMN_PRIMITIVE, tok_start = 5, tok_end = 6, tok_size = 0 \<rparr>])"
proof -
  have seven: "(7 :: nat) = Suc (Suc (Suc (Suc (Suc (Suc (Suc 0))))))" by simp
  show ?thesis
    unfolding seven
    using jsmn_parse_roundtrip [of "[([0x61], JPrimitive [0x31])]" 3
      "replicate 3 \<lparr> tok_type = JSMN_UNDEFINED, tok_start = 0, tok_end = 0, tok_size = 0 \<rparr>" "[]"]
    by (simp add: plain_string_def plain_primitive_def primitive_char_def primitive_end_def object_text_def
        object_token_def key_token_def value_token_def numeral_3_eq_3)
qed

end
