(* ===== verification/App_Behaviour.thy ===== *)
theory App_Behaviour
  imports App
begin

text \<open>
  What the application thread does: the screens of its states, the pulses of a credit, and that every
  event that got into the queue is handled, in order.
\<close>

section \<open>Screens\<close>

definition padded :: "bytes \<Rightarrow> bytes" where
  "padded s = s @ replicate (16 - length s) 32"

lemma puts_append: "0 \<notin> set xs \<Longrightarrow> puts_loop bus (xs @ ys) s = puts_loop bus ys (puts_loop bus xs s)"
  by (induction xs arbitrary: s) (simp_all add: Let_def)

lemma blank_printable: "printable (replicate n 32)"
  by (simp add: printable_def)

text \<open>Seventeen blanks on the first line: the last one goes to the second line.\<close>

lemma puts_17_blanks:
  assumes "ready s"
  shows "ready (LCD_Puts bus 0 0 (replicate 17 32) s)
    \<and> line_text 0 (LCD_Puts bus 0 0 (replicate 17 32) s) = replicate 16 32"
proof -
  let ?s = "LCD_Puts bus 0 0 (replicate 16 32) s"
  from puts_line [OF assms, of 0 "replicate 16 32" bus] blank_printable
  have s: "ready ?s" "cursor_at 16 0 ?s" "line_text 0 ?s = replicate 16 32" by auto
  have "replicate 17 (32 :: u8) = replicate 16 32 @ [32]" by (simp add: replicate_append_same eval_nat_numeral)
  then have "LCD_Puts bus 0 0 (replicate 17 32) s = puts_loop bus [32] ?s"
    by (simp only: LCD_Puts_def) (rule puts_append, simp)
  moreover have x: "16 \<le> currentX ?s" "currentY ?s + 1 = 1"
  proof -
    from s(2) have "unat (currentX ?s) = 16" "unat (currentY ?s) = 0" by (simp_all add: cursor_at_def)
    then show "16 \<le> currentX ?s" "currentY ?s + 1 = 1" by (simp_all add: word_le_nat_alt unat_eq_0)
  qed
  let ?u = "?s\<lparr>currentX := 0, currentY := 1\<rparr>"
  let ?v = "LCD_CursorSet bus 0 1 ?u"
  let ?w = "(LCD_Data bus 32 ?v)\<lparr>currentX := currentX (LCD_Data bus 32 ?v) + 1\<rparr>"
  have u: "ready ?u" "ddram (screen ?u) = ddram (screen ?s)"
    using s(1) by (simp_all add: ready_def wired_def screen_def)
  from cursor_set [OF u(1), of 0 1 bus] u(2) have v: "cursor_at 0 1 ?v" "ddram (screen ?v) = ddram (screen ?s)" by auto
  from put_char [OF v(1), of bus 32] v(2) have w: "cursor_at 1 1 ?w" "ddram (screen ?w) = (ddram (screen ?s))(64 := 32)"
    by simp_all
  moreover have "puts_loop bus [32] ?s = ?w" using x by (simp add: Let_def)
  moreover have "line_text 0 ?w = line_text 0 ?s"
    unfolding line_text_def w(2) by (rule map_cong) simp_all
  moreover have "ready ?w" using w(1) by (simp add: cursor_at_def)
  ultimately show ?thesis using s(3) by (simp only: simp_thms)
qed

lemma decimal_printable: "printable (decimal n)"
proof (induction n rule: decimal.induct)
  case (1 n)
  have "n mod 10 < 10" by simp
  then have "unat (48 + word_of_nat (n mod 10) :: u8) = 48 + n mod 10"
    by (simp add: unat_word_ariths unat_of_nat_u8)
  then have "48 + word_of_nat (n mod 10) \<noteq> (0 :: u8) \<and> 48 + word_of_nat (n mod 10) \<noteq> (10 :: u8)
      \<and> 48 + word_of_nat (n mod 10) \<noteq> (13 :: u8)" by fastforce
  with 1 show ?case by (subst decimal.simps) (auto simp: printable_def)
qed

lemma printable_append [simp]: "printable (xs @ ys) \<longleftrightarrow> printable xs \<and> printable ys"
  by (auto simp: printable_def)

lemma decimal2_printable: "printable (decimal2 n)"
  using decimal_printable [of n] by (simp add: decimal2_def printable_def)

lemma in_line_printable: "printable s \<Longrightarrow> printable (in_line s)"
  by (auto simp: printable_def in_line_def dest: in_set_takeD)

lemma in_line_length: "length (in_line s) \<le> 16"
  unfolding in_line_def by (rule order_trans [OF eq_refl [OF length_take]]) simp

definition price_text :: "u32 \<Rightarrow> bytes" where
  "price_text p = in_line (ascii ''Price $'' @ decimal2 (unat p div 100) @ ascii ''.'' @ decimal2 (unat p mod 100))"

definition shows_idle :: "app \<Rightarrow> bool" where
  "shows_idle a \<longleftrightarrow> ready (display a) \<and> line_text 0 (display a) = padded (price_text (sys_price (sys_cfg a)))
     \<and> line_text 1 (display a) = ascii ''swipe or scan QR''"

lemma idle_screen:
  assumes "ready (display a)"
  shows "shows_idle (idle_message bus a) \<and> sys_cfg (idle_message bus a) = sys_cfg a
    \<and> evt_queue (idle_message bus a) = evt_queue a"
proof -
  let ?line = "price_text (sys_price (sys_cfg a))"
  let ?d1 = "LCD_Puts bus 0 0 (replicate 17 32) (display a)"
  let ?d2 = "LCD_Puts bus 0 0 ?line ?d1" and ?t = "ascii ''swipe or scan QR''"
  have blanks: "ascii ''                 '' = replicate 17 32" by (simp add: ascii_def eval_nat_numeral)
  have "printable (ascii ''Price $'')" "printable (ascii ''.'')" by (simp_all add: ascii_def printable_def)
  then have line: "printable ?line"
    unfolding price_text_def by (intro in_line_printable) (simp add: decimal2_printable)
  have "length ?line \<le> 16" unfolding price_text_def by (rule in_line_length)
  note line = line this
  have t: "printable ?t" "length ?t = 16" by (simp_all add: ascii_def printable_def)
  note d1 = puts_17_blanks [OF assms, of bus]
  then have "ready ?d1" by simp
  note d2 = puts_line [OF this, of 0 ?line bus]
  then have "ready ?d2" using line by simp
  note d3 = puts_line [OF this, of 1 ?t bus]
  have "idle_message bus a = a\<lparr>display := LCD_Puts bus 0 1 ?t ?d2\<rparr>"
    by (simp add: idle_message_def Let_def blanks price_text_def)
  then show ?thesis using d1 d2 d3 line t by (simp add: shows_idle_def padded_def)
qed

text \<open>The other screens are two full lines.\<close>

lemma two_lines:
  assumes "ready d" and "printable t" "length t = 16" and "printable u" "length u \<le> 16"
  shows "ready (LCD_Puts bus 0 1 u (LCD_Puts bus 0 0 t d)) \<and> line_text 0 (LCD_Puts bus 0 1 u (LCD_Puts bus 0 0 t d)) = t
    \<and> line_text 1 (LCD_Puts bus 0 1 u (LCD_Puts bus 0 0 t d)) = u @ drop (length u) (line_text 1 d)"
  using puts_line [OF assms(1), of 0 t bus] puts_line [of "LCD_Puts bus 0 0 t d" 1 u bus] assms by simp

definition balance_text :: "u32 \<Rightarrow> bytes" where
  "balance_text b = in_line (ascii ''Balance $'' @ decimal2 (unat b div 100) @ ascii ''.'' @ decimal2 (unat b mod 100))"

lemma credit_screen:
  assumes "ready (display a)"
  shows "ready (display (credit_message bus b a)) \<and> sys_cfg (credit_message bus b a) = sys_cfg a
    \<and> line_text 0 (display (credit_message bus b a)) = ascii ''  Thank you!!!  ''
    \<and> line_text 1 (display (credit_message bus b a)) = padded (balance_text b)"
proof -
  have "printable (ascii ''Balance $'')" "printable (ascii ''.'')" by (simp_all add: ascii_def printable_def)
  then have l: "printable (balance_text b)" "length (balance_text b) \<le> 16"
    unfolding balance_text_def by (simp_all add: in_line_printable decimal2_printable in_line_length del: length_append)
  have t: "printable (ascii ''  Thank you!!!  '')" "length (ascii ''  Thank you!!!  '') = 16"
    "printable (ascii ''                '')" "length (ascii ''                '') = 16"
    by (simp_all add: ascii_def printable_def)
  let ?d = "LCD_Puts bus 0 1 (ascii ''                '') (LCD_Puts bus 0 0 (ascii ''  Thank you!!!  '') (display a))"
  from two_lines [OF assms, of "ascii ''  Thank you!!!  ''" "ascii ''                ''" bus] t
  have d: "ready ?d" "line_text 0 ?d = ascii ''  Thank you!!!  ''" "line_text 1 ?d = ascii ''                ''" by simp_all
  have blanks: "ascii ''                '' = replicate 16 32" by (simp add: ascii_def eval_nat_numeral)
  have "credit_message bus b a = a\<lparr>display := LCD_Puts bus 0 1 (balance_text b) ?d\<rparr>"
    by (simp add: credit_message_def Let_def balance_text_def)
  with puts_line [OF d(1), of 1 "balance_text b" bus] l d(2,3) show ?thesis by (simp add: padded_def blanks)
qed

section \<open>What is seen of the terminal\<close>

text \<open>
  The trace as somebody in front of the machine sees it, in order: a level written to a pin, and a pause
  of some milliseconds together with the two lines the panel shows during it.
\<close>

datatype sight = Pin_Level int bool | Held nat "bytes \<times> bytes"

definition both_lines :: "panel \<Rightarrow> bytes \<times> bytes" where
  "both_lines p = (map (\<lambda>i. ddram p i) [0..<16], map (\<lambda>i. ddram p (64 + i)) [0..<16])"

fun sight_of :: "effect \<Rightarrow> panel \<Rightarrow> sight list" where
  "sight_of (Pin_Write k v) p = [Pin_Level k v]"
| "sight_of (Delay_ms n) p = [Held n (both_lines p)]"
| "sight_of e p = []"

primrec sights :: "panel \<Rightarrow> effect list \<Rightarrow> sight list" where
  "sights p [] = []"
| "sights p (e # es) = sight_of e p @ sights (panel_step e p) es"

definition lcd_sights :: "lcd \<Rightarrow> sight list" where
  "lcd_sights s = sights power_on (trace s)"

lemma both_lines_screen: "both_lines (screen s) = (line_text 0 s, line_text 1 s)"
  by (simp add: both_lines_def line_text_def)

lemma sights_append: "sights p (xs @ ys) = sights p xs @ sights (fold panel_step xs p) ys"
  by (induction xs arbitrary: p) simp_all

lemma seen_emit: "lcd_sights (emit e s) = lcd_sights s @ sight_of e (screen s)"
  by (simp add: lcd_sights_def emit_def sights_append screen_def)

lemma seen_bus [simp]:
  "lcd_sights (emit (I2C_Write b) s) = lcd_sights s" "lcd_sights (emit I2C_Read s) = lcd_sights s" "lcd_sights (LCD_Delay_us n s) = lcd_sights s"
  by (simp_all add: seen_emit LCD_Delay_us_def)

lemma seen_upd [simp]:
  "lcd_sights (s\<lparr>dev := b\<rparr>) = lcd_sights s" "lcd_sights (s\<lparr>port_value := w\<rparr>) = lcd_sights s" "lcd_sights (s\<lparr>currentX := x\<rparr>) = lcd_sights s"
  "lcd_sights (s\<lparr>currentY := y\<rparr>) = lcd_sights s"
  by (simp_all add: lcd_sights_def)

text \<open>Writing a text takes no pause that can be seen and touches no other pin.\<close>

lemma seen_pin [simp]: "lcd_sights (pin bus k v s) = lcd_sights s"
  by (simp add: pin_def lcd_pin_write_def Let_def)

lemma seen_cmd4bit [simp]: "lcd_sights (LCD_Cmd4bit bus c s) = lcd_sights s"
  by (simp add: LCD_Cmd4bit_def Let_def)

lemma seen_byte [simp]: "lcd_sights (LCD_Cmd bus c s) = lcd_sights s" "lcd_sights (LCD_Data bus c s) = lcd_sights s"
  by (simp_all add: LCD_Cmd_def LCD_Data_def Let_def)

lemma seen_cursor [simp]: "lcd_sights (LCD_CursorSet bus x y s) = lcd_sights s"
  by (simp add: LCD_CursorSet_def Let_def)

lemma seen_puts_loop: "lcd_sights (puts_loop bus cs s) = lcd_sights s"
  by (induction cs arbitrary: s) (simp_all add: Let_def)

lemma seen_puts [simp]: "lcd_sights (LCD_Puts bus x y cs s) = lcd_sights s"
  by (simp add: LCD_Puts_def seen_puts_loop)

definition history_of :: "app \<Rightarrow> sight list" where
  "history_of a = lcd_sights (display a)"

definition lines_of :: "app \<Rightarrow> bytes \<times> bytes" where
  "lines_of a = (line_text 0 (display a), line_text 1 (display a))"

lemma history_messages [simp]:
  "history_of (idle_message bus a) = history_of a" "history_of (credit_message bus b a) = history_of a"
  "history_of (start_message bus a) = history_of a" "history_of (connecting_message bus a) = history_of a"
  "history_of (out_of_service_message bus r a) = history_of a"
  by (simp_all add: idle_message_def credit_message_def start_message_def connecting_message_def
      out_of_service_message_def history_of_def Let_def)

lemma history_upd [simp]:
  "history_of (a\<lparr>sys_cfg := c\<rparr>) = history_of a" "history_of (a\<lparr>evt_queue := q\<rparr>) = history_of a"
  by (simp_all add: history_of_def)

section \<open>Pulses\<close>

lemma line_text_emit [simp]:
  "line_text y (emit (Pin_Write p v) s) = line_text y s" "line_text y (emit (Delay_ms n) s) = line_text y s"
  by (simp_all add: line_text_def screen_emit)

lemma act_fields [simp]:
  "sys_cfg (act e a) = sys_cfg a" "evt_queue (act e a) = evt_queue a"
  "history_of (act (Pin_Write p v) a) = history_of a @ [Pin_Level p v]"
  "history_of (act (Delay_ms n) a) = history_of a @ [Held n (lines_of a)]"
  "lines_of (act (Pin_Write p v) a) = lines_of a" "lines_of (act (Delay_ms n) a) = lines_of a"
  by (simp_all add: act_def history_of_def seen_emit lines_of_def both_lines_screen)

lemma ready_act [simp]:
  "ready (display (act (Pin_Write p v) a)) = ready (display a)" "ready (display (act (Delay_ms n) a)) = ready (display a)"
proof -
  have "ready (emit e d) = ready d" if "e = Pin_Write p v \<or> e = Delay_ms n" for e d
    using that by (auto simp: ready_def wired_def screen_emit) (auto simp: emit_def)
  then show "ready (display (act (Pin_Write p v) a)) = ready (display a)"
    "ready (display (act (Delay_ms n) a)) = ready (display a)" by (simp_all add: act_def)
qed

text \<open>What is seen of one pulse, of one credit and of a number of credits, with a screen \<open>l\<close>.\<close>

definition pulse_sights :: "int \<Rightarrow> nat \<Rightarrow> bytes \<times> bytes \<Rightarrow> sight list" where
  "pulse_sights k ms l = [Held ms l, Pin_Level k False, Held ms l]"

definition one_credit :: "int \<Rightarrow> nat \<Rightarrow> nat \<Rightarrow> bytes \<times> bytes \<Rightarrow> sight list" where
  "one_credit k ms ppc l = Pin_Level k True # concat (replicate ppc (pulse_sights k ms l)) @ [Pin_Level k True]"

definition credits_seen :: "nat \<Rightarrow> int \<Rightarrow> nat \<Rightarrow> nat \<Rightarrow> bytes \<times> bytes \<Rightarrow> sight list" where
  "credits_seen n k ms ppc l = concat (replicate n (one_credit k ms ppc l))"

lemma concat_replicate_Suc: "concat (replicate (Suc n) xs) = concat (replicate n xs) @ xs"
  by (induction n) simp_all

lemma pulse_fields [simp]:
  "sys_cfg (pulse a) = sys_cfg a" "ready (display (pulse a)) = ready (display a)" "lines_of (pulse a) = lines_of a"
  "history_of (pulse a)
     = history_of a @ pulse_sights (sys_pulse_pin (sys_cfg a)) (unat (sys_pulse_high_time (sys_cfg a))) (lines_of a)"
  by (simp_all add: pulse_def Let_def pulse_sights_def)

lemma pulses:
  "sys_cfg ((pulse ^^ n) a) = sys_cfg a \<and> ready (display ((pulse ^^ n) a)) = ready (display a)
     \<and> lines_of ((pulse ^^ n) a) = lines_of a
     \<and> history_of ((pulse ^^ n) a) = history_of a @ concat (replicate n
          (pulse_sights (sys_pulse_pin (sys_cfg a)) (unat (sys_pulse_high_time (sys_cfg a))) (lines_of a)))"
  by (induction n) (auto simp: concat_replicate_Suc simp del: replicate_Suc)

abbreviation credits_of :: "app \<Rightarrow> nat \<Rightarrow> sight list" where
  "credits_of a n \<equiv> credits_seen n (sys_pulse_pin (sys_cfg a)) (unat (sys_pulse_high_time (sys_cfg a)))
     (unat (sys_pulses_per_credit (sys_cfg a))) (lines_of a)"

lemma add_credit_fields:
  "sys_cfg (add_credit a) = sys_cfg a" "ready (display (add_credit a)) = ready (display a)"
  "lines_of (add_credit a) = lines_of a" "history_of (add_credit a) = history_of a @ credits_of a 1"
  by (simp_all add: add_credit_def Let_def pulses credits_seen_def one_credit_def)

lemma credits:
  "sys_cfg ((add_credit ^^ n) a) = sys_cfg a \<and> ready (display ((add_credit ^^ n) a)) = ready (display a)
     \<and> lines_of ((add_credit ^^ n) a) = lines_of a \<and> history_of ((add_credit ^^ n) a) = history_of a @ credits_of a n"
proof (induction n)
  case (Suc n)
  then show ?case
    by (simp add: add_credit_fields) (simp add: credits_seen_def concat_replicate_Suc del: replicate_Suc)
qed (simp add: credits_seen_def)

text \<open>The levels written to the pins, each with its pin.\<close>

fun pin_writes :: "sight list \<Rightarrow> (int \<times> bool) list" where
  "pin_writes [] = []"
| "pin_writes (Pin_Level k v # xs) = (k, v) # pin_writes xs"
| "pin_writes (Held n l # xs) = pin_writes xs"

lemma pin_writes_append [simp]: "pin_writes (xs @ ys) = pin_writes xs @ pin_writes ys"
  by (induction xs rule: pin_writes.induct) auto

definition credit_levels :: "nat \<Rightarrow> nat \<Rightarrow> bool list" where
  "credit_levels n ppc = concat (replicate n (True # replicate ppc False @ [True]))"

lemma credit_writes: "pin_writes (credits_seen n k ms ppc l) = map (Pair k) (credit_levels n ppc)"
proof -
  have "pin_writes (concat (replicate m (pulse_sights k ms l))) = replicate m (k, False)" for m
    by (induction m) (simp_all add: pulse_sights_def)
  then have "pin_writes (one_credit k ms ppc l) = map (Pair k) (True # replicate ppc False @ [True])"
    by (simp add: one_credit_def)
  then show ?thesis by (induction n) (simp_all add: credits_seen_def credit_levels_def)
qed

text \<open>Falling edges of a line.\<close>

fun falls :: "bool list \<Rightarrow> nat" where
  "falls (True # False # vs) = Suc (falls (False # vs))"
| "falls (v # vs) = falls vs"
| "falls [] = 0"

lemma falls_low: "falls (replicate n False @ vs) = falls vs"
  by (induction n) auto

lemma falls_credits: "falls (credit_levels n ppc) = (if ppc = 0 then 0 else n)"
proof (induction n)
  case 0
  then show ?case by (simp add: credit_levels_def)
next
  case (Suc n)
  have step: "credit_levels (Suc n) ppc = True # replicate ppc False @ True # credit_levels n ppc"
    by (simp add: credit_levels_def)
  have skip: "falls (True # credit_levels n k) = falls (credit_levels n k)" for k
    by (cases n) (simp_all add: credit_levels_def)
  show ?case
    unfolding step using Suc.IH
    by (cases ppc) (simp_all add: skip falls_low replicate_app_Cons_same)
qed

lemma credit_levels_rest_high: "credit_levels n k = [] \<or> last (credit_levels n k)"
proof (induction n)
  case (Suc n)
  have "credit_levels (Suc n) k = (True # replicate k False @ [True]) @ credit_levels n k"
    by (simp add: credit_levels_def)
  then show ?case using Suc.IH by (auto simp: last_append simp del: append_Cons)
qed (simp add: credit_levels_def)

lemma credit_event:
  assumes "ready (display a)" and "sys_enabled (sys_cfg a) \<noteq> 0"
  shows "shows_idle (on_credit_event bus evt a) \<and> sys_cfg (on_credit_event bus evt a) = sys_cfg a
    \<and> history_of (on_credit_event bus evt a) = history_of a @ credits_of a (unat (credit_count evt))
        @ [Held 1500 (ascii ''  Thank you!!!  '', padded (balance_text (credit_balance evt)))]"
proof -
  let ?b = "(add_credit ^^ unat (credit_count evt)) a"
  let ?m = "credit_message bus (credit_balance evt) ?b"
  let ?c = "act (Delay_ms 1500) ?m"
  note b = credits [of "unat (credit_count evt)" a]
  have "ready (display ?b)" using b assms by simp
  from credit_screen [OF this, of bus "credit_balance evt"] b
  have c: "ready (display ?c)" "sys_cfg ?c = sys_cfg a"
    and l: "lines_of ?m = (ascii ''  Thank you!!!  '', padded (balance_text (credit_balance evt)))"
    by (simp_all add: lines_of_def)
  have "history_of ?c = history_of a @ credits_of a (unat (credit_count evt))
      @ [Held 1500 (ascii ''  Thank you!!!  '', padded (balance_text (credit_balance evt)))]"
    using b l by simp
  then show ?thesis
    using idle_screen [OF c(1), of bus] c(2) assms(2) by (simp add: on_credit_event_def Let_def)
qed

text \<open>
  C21: a credit event is paid out in pulses. While the terminal is disabled the event does nothing at
  all. While it is enabled, only the pulse pin is written, and what is written there is, for each
  credit, high, one low per pulse, high: so the coin acceptor sees exactly \<open>count\<close> falling edges whatever
  \<open>pulses_per_credit\<close> is (and none when it is 0), and the line rests high. Then the idle screen is back,
  and no setting has changed.
\<close>

theorem credit_pulses:
  assumes "ready (display a)" and "a' = on_credit_event bus evt a"
    and "ppc = unat (sys_pulses_per_credit (sys_cfg a))"
  shows "if sys_enabled (sys_cfg a) = 0 then a' = a
    else (\<exists>vs. pin_writes (history_of a') = pin_writes (history_of a) @ map (Pair (sys_pulse_pin (sys_cfg a))) vs
            \<and> falls vs = (if ppc = 0 then 0 else unat (credit_count evt)) \<and> (vs = [] \<or> last vs))
      \<and> shows_idle a' \<and> sys_cfg a' = sys_cfg a"
proof (cases "sys_enabled (sys_cfg a) = 0")
  case True
  then show ?thesis using assms(2) by (simp add: on_credit_event_def)
next
  case False
  with credit_event [OF assms(1), of bus evt] falls_credits [of "unat (credit_count evt)" ppc]
    credit_levels_rest_high [of "unat (credit_count evt)" ppc]
  show ?thesis by (auto simp: assms(2,3) credit_writes)
qed

text \<open>A freshly started terminal, enabled, with three pulses per credit.\<close>

definition sample_bus :: i2c_bus where
  "sample_bus = \<lparr> bus_found = True, bus_transfer = (\<lambda>_. True) \<rparr>"

definition sample_app :: "rt_messagequeue \<Rightarrow> app" where
  "sample_app q = \<lparr> sys_cfg = \<lparr> sys_name = replicate 16 0, sys_price = 100, sys_pulses_per_credit = 3, sys_enabled = 1,
     sys_pulse_high_time = 100, sys_pulse_low_time = 100, sys_pulse_pin = 5 \<rparr>,
     display = LCD_Init sample_bus lcd_reset, evt_queue = q \<rparr>"

lemma sample_ready: "ready (display (sample_app q))"
  using init_screen [of sample_bus lcd_reset]
  by (simp add: sample_app_def sample_bus_def lcd_reset_def screen_def power_on_def)

theorem credit_pulses_witness:
  "\<forall>q. \<exists>vs. pin_writes (history_of (on_credit_event sample_bus \<lparr> credit_count = 2, credit_balance = 500 \<rparr> (sample_app q)))
      = pin_writes (history_of (sample_app q)) @ map (Pair 5) vs \<and> falls vs = 2"
proof
  fix q
  have "sys_enabled (sys_cfg (sample_app q)) = 1" "sys_pulses_per_credit (sys_cfg (sample_app q)) = 3"
    "sys_pulse_pin (sys_cfg (sample_app q)) = 5" by (simp_all add: sample_app_def)
  with credit_pulses [OF sample_ready [of q] refl refl, where bus = sample_bus
      and evt = "\<lparr> credit_count = 2, credit_balance = 500 \<rparr>"]
  show "\<exists>vs. pin_writes (history_of (on_credit_event sample_bus \<lparr> credit_count = 2, credit_balance = 500 \<rparr> (sample_app q)))
      = pin_writes (history_of (sample_app q)) @ map (Pair 5) vs \<and> falls vs = 2"
    by auto
qed

section \<open>The terminal as the customer sees it\<close>

text \<open>
  The specification: what the display says, whether the terminal takes credit, the price, the pulses of
  a credit, the name, the pin and the length of a pulse, and everything seen of it so far. The events are
  the structures the threads push. A configuration sets the price and the pulses, but not the name, and
  no event changes the pin or the length of a pulse. A credit is paid out in front of the face the
  terminal has, then its balance is shown for a second and a half.
\<close>

datatype face = Booting | Connecting | Connection_Failed | Disabled | Idle u32

record terminal =
  face :: face
  enabled :: u32
  price :: u32
  per_credit :: u32
  device_name :: bytes
  pulse_pin :: int
  pulse_ms :: u32
  history :: "sight list"

datatype event = Config config_evt_t | Credit credit_evt_t | Enable enable_evt_t | Mqtt mqtt_event_t

fun face_lines :: "face \<Rightarrow> bytes \<times> bytes" where
  "face_lines Booting = (ascii '' Booting system '', ascii ''   Please wait  '')"
| "face_lines Connecting = (ascii ''   connecting   '', ascii ''   to  server   '')"
| "face_lines Connection_Failed = (ascii '' Out of service '', ascii ''connection error'')"
| "face_lines Disabled = (ascii '' Out of service '', ascii ''disabled by ownr'')"
| "face_lines (Idle p) = (padded (price_text p), ascii ''swipe or scan QR'')"

definition at_rest :: "terminal \<Rightarrow> face" where
  "at_rest t = (if enabled t \<noteq> 0 then Idle (price t) else Disabled)"

fun terminal_step :: "event \<Rightarrow> terminal \<Rightarrow> terminal" where
  "terminal_step (Config e) t =
     (let t = t\<lparr>price := cfg_price e, per_credit := ucast (cfg_pulses_per_credit e)\<rparr>
      in if enabled t \<noteq> 0 then t\<lparr>face := at_rest t\<rparr> else t)"
| "terminal_step (Credit e) t =
     (if enabled t \<noteq> 0
      then t\<lparr>face := at_rest t, history := history t
        @ credits_seen (unat (credit_count e)) (pulse_pin t) (unat (pulse_ms t)) (unat (per_credit t)) (face_lines (face t))
        @ [Held 1500 (ascii ''  Thank you!!!  '', padded (balance_text (credit_balance e)))]\<rparr>
      else t)"
| "terminal_step (Enable e) t =
     (if enable_flag e = enabled t then t
      else let t = t\<lparr>enabled := enable_flag e\<rparr> in t\<lparr>face := at_rest t\<rparr>)"
| "terminal_step (Mqtt mqtt_event_connecting_e) t = t\<lparr>face := Connecting\<rparr>"
| "terminal_step (Mqtt mqtt_event_conn_failed_e) t = t\<lparr>face := Connection_Failed\<rparr>"
| "terminal_step (Mqtt mqtt_event_conn_success_e) t = t\<lparr>face := at_rest t\<rparr>"
| "terminal_step (Mqtt mqtt_event_undefined_e) t = t"

fun event_parts :: "event \<Rightarrow> event_type_t \<times> bytes" where
  "event_parts (Config e) = (event_type_config_e, config_bytes e)"
| "event_parts (Credit e) = (event_type_credit_e, credit_bytes e)"
| "event_parts (Enable e) = (event_type_enable_e, enable_bytes e)"
| "event_parts (Mqtt e) = (event_type_mqtt_e, mqtt_event_bytes e)"

fun event_ok :: "event \<Rightarrow> bool" where
  "event_ok (Config e) \<longleftrightarrow> length (cfg_name e) = MAX_DEVICE_NAME_LEN"
| "event_ok _ \<longleftrightarrow> True"

text \<open>The display shows a face, and the application a state of the specification.\<close>

definition showing :: "app \<Rightarrow> face \<Rightarrow> bool" where
  "showing a f \<longleftrightarrow> ready (display a) \<and> (line_text 0 (display a), line_text 1 (display a)) = face_lines f"

definition shown_by :: "app \<Rightarrow> terminal \<Rightarrow> bool" where
  "shown_by a t \<longleftrightarrow> showing a (face t) \<and> sys_enabled (sys_cfg a) = enabled t \<and> sys_price (sys_cfg a) = price t
     \<and> sys_pulses_per_credit (sys_cfg a) = per_credit t \<and> sys_name (sys_cfg a) = device_name t
     \<and> sys_pulse_pin (sys_cfg a) = pulse_pin t \<and> sys_pulse_high_time (sys_cfg a) = pulse_ms t
     \<and> length (device_name t) = MAX_DEVICE_NAME_LEN \<and> history_of a = history t"

lemma showing_two_lines:
  assumes "ready (display a)" and "face_lines f = (t, u)" and "printable t" "length t = 16" "printable u" "length u = 16"
  shows "showing (a\<lparr>display := LCD_Puts bus 0 1 u (LCD_Puts bus 0 0 t (display a))\<rparr>) f"
  using two_lines [OF assms(1), of t u bus] assms by (simp add: showing_def)

lemma messages_show:
  assumes "ready (display a)"
  shows "showing (start_message bus a) Booting" "showing (connecting_message bus a) Connecting"
    "showing (out_of_service_message bus (ascii ''connection error'') a) Connection_Failed"
    "showing (out_of_service_message bus (ascii ''disabled by ownr'') a) Disabled"
    "showing (idle_message bus a) (Idle (sys_price (sys_cfg a)))"
  unfolding start_message_def connecting_message_def out_of_service_message_def Let_def
  using idle_screen [OF assms, of bus]
  by (auto intro!: showing_two_lines assms simp: ascii_def printable_def)
     (auto simp: showing_def shows_idle_def ascii_def)

lemma messages_keep [simp]:
  "sys_cfg (start_message bus a) = sys_cfg a" "sys_cfg (connecting_message bus a) = sys_cfg a"
  "sys_cfg (out_of_service_message bus r a) = sys_cfg a" "sys_cfg (idle_message bus a) = sys_cfg a"
  "evt_queue (start_message bus a) = evt_queue a" "evt_queue (connecting_message bus a) = evt_queue a"
  "evt_queue (out_of_service_message bus r a) = evt_queue a" "evt_queue (idle_message bus a) = evt_queue a"
  "evt_queue (credit_message bus b a) = evt_queue a"
  by (simp_all add: start_message_def connecting_message_def out_of_service_message_def idle_message_def
      credit_message_def Let_def)

lemma shown_ready: "shown_by a t \<Longrightarrow> ready (display a)"
  by (simp add: shown_by_def showing_def)

lemma showing_upd [simp]:
  "showing (a\<lparr>sys_cfg := c\<rparr>) f = showing a f" "showing (a\<lparr>evt_queue := q\<rparr>) f = showing a f"
  by (simp_all add: showing_def)

lemma shown_queue [simp]: "shown_by (a\<lparr>evt_queue := q\<rparr>) t = shown_by a t"
  by (simp add: shown_by_def)

lemma enable_step:
  assumes "shown_by a t"
  shows "shown_by (on_enable_event bus e a) (terminal_step (Enable e) t)
    \<and> evt_queue (on_enable_event bus e a) = evt_queue a"
proof (cases "enable_flag e = sys_enabled (sys_cfg a)")
  case True
  with assms show ?thesis by (auto simp: on_enable_event_def shown_by_def)
next
  case False
  let ?a = "a\<lparr>sys_cfg := (sys_cfg a)\<lparr>sys_enabled := enable_flag e\<rparr>\<rparr>"
  have "ready (display ?a)" using shown_ready [OF assms] by simp
  from messages_show(4,5) [OF this, of bus] False assms show ?thesis
    by (auto simp: on_enable_event_def shown_by_def at_rest_def Let_def)
qed

lemma mqtt_step:
  assumes "shown_by a t"
  shows "shown_by (on_mqtt_event bus (mqtt_event_code e) a) (terminal_step (Mqtt e) t)
    \<and> evt_queue (on_mqtt_event bus (mqtt_event_code e) a) = evt_queue a"
  using messages_show(2-5) [OF shown_ready [OF assms], of bus] assms
  by (cases e) (auto simp: on_mqtt_event_def shown_by_def at_rest_def)

lemma credit_queue: "evt_queue (on_credit_event bus e a) = evt_queue a"
proof -
  have p: "evt_queue ((pulse ^^ n) a) = evt_queue a" for n a by (induction n) (simp_all add: pulse_def Let_def)
  have "evt_queue ((add_credit ^^ n) a) = evt_queue a" for n
    by (induction n) (simp_all add: add_credit_def Let_def p)
  then show ?thesis by (simp add: on_credit_event_def Let_def)
qed

lemma credit_step:
  assumes "shown_by a t"
  shows "shown_by (on_credit_event bus e a) (terminal_step (Credit e) t)"
proof (cases "sys_enabled (sys_cfg a) = 0")
  case True
  with assms show ?thesis by (auto simp: on_credit_event_def shown_by_def)
next
  case False
  have "lines_of a = face_lines (face t)" using assms by (simp add: shown_by_def showing_def lines_of_def)
  with credit_event [OF shown_ready [OF assms] False, of bus e] assms False show ?thesis
    by (auto simp: shown_by_def showing_def shows_idle_def at_rest_def)
qed

lemma config_step:
  assumes "shown_by a t" and "length (cfg_name e) = MAX_DEVICE_NAME_LEN"
  shows "\<exists>a'. on_config_event bus e a = Some a' \<and> shown_by a' (terminal_step (Config e) t)
    \<and> evt_queue a' = evt_queue a \<and> sys_name (sys_cfg a') = sys_name (sys_cfg a)"
proof -
  let ?a = "a\<lparr>sys_cfg := (sys_cfg a)\<lparr>sys_price := cfg_price e, sys_pulses_per_credit := ucast (cfg_pulses_per_credit e)\<rparr>\<rparr>"
  have same: "c\<lparr>sys_price := p, sys_pulses_per_credit := n, sys_name := sys_name c\<rparr>
      = c\<lparr>sys_price := p, sys_pulses_per_credit := n\<rparr>" for c p n by (cases c) simp
  have run: "on_config_event bus e a = Some (if sys_enabled (sys_cfg a) \<noteq> 0 then idle_message bus ?a else ?a)"
    using assms(2) by (simp add: on_config_event_def wr_def Let_def same)
  have "ready (display ?a)" using shown_ready [OF assms(1)] by simp
  from messages_show(5) [OF this, of bus] assms(1) show ?thesis
    unfolding run by (auto simp: shown_by_def at_rest_def Let_def)
qed

definition encodes :: "event \<Rightarrow> bytes \<Rightarrow> bool" where
  "encodes ev b \<longleftrightarrow> event_ok ev \<and> is_event (fst (event_parts ev)) (snd (event_parts ev)) b"

lemma handled:
  assumes "encodes ev b" and "shown_by a t"
  shows "\<exists>a'. on_event bus b a = Some a' \<and> shown_by a' (terminal_step ev t) \<and> evt_queue a' = evt_queue a"
proof (cases ev)
  case (Config e)
  with assms config_step [OF assms(2), of e bus] show ?thesis
    by (auto simp: encodes_def is_event_def on_event_def read_config_bytes)
next
  case (Credit e)
  with assms credit_step [OF assms(2), of bus e] show ?thesis
    by (auto simp: encodes_def is_event_def on_event_def read_credit_bytes credit_queue)
next
  case (Enable e)
  with assms enable_step [OF assms(2), of bus e] show ?thesis
    by (auto simp: encodes_def is_event_def on_event_def read_enable_bytes simp del: terminal_step.simps)
next
  case (Mqtt e)
  with assms mqtt_step [OF assms(2), of bus e] show ?thesis
    by (auto simp: encodes_def is_event_def on_event_def read_mqtt_event_bytes simp del: terminal_step.simps)
qed

lemma turn:
  assumes "shown_by a t" and "event_queue_ok (evt_queue a)" and "mq_contents (evt_queue a) = b # bs" and "encodes ev b"
  shows "\<exists>a'. app_turn bus self ws a = Some a' \<and> shown_by a' (terminal_step ev t)
    \<and> event_queue_ok (evt_queue a') \<and> mq_contents (evt_queue a') = bs"
proof -
  from read_event [OF assms(2,3), of self ws] obtain q where q:
    "event_handler_read_event self ws (evt_queue a) = Some (True, b, q)" "event_queue_ok q" "mq_contents q = bs"
    by auto
  from assms(1) have "shown_by (a\<lparr>evt_queue := q\<rparr>) t" by simp
  from handled [OF assms(4) this, of bus] q show ?thesis by (auto simp: app_turn_def)
qed

section \<open>Runs of the thread\<close>

text \<open>The specification with the events still to come, and how the application stands for it.\<close>

fun serve :: "terminal \<times> event list \<Rightarrow> (terminal \<times> event list) option" where
  "serve (t, ev # evs) = Some (terminal_step ev t, evs)"
| "serve (t, []) = None"

fun app_rel :: "app \<Rightarrow> terminal \<times> event list \<Rightarrow> bool" where
  "app_rel a (t, evs) \<longleftrightarrow> shown_by a t \<and> event_queue_ok (evt_queue a) \<and> list_all2 encodes evs (mq_contents (evt_queue a))"

interpretation app_sim: simulation app_rel "\<lambda>(bus, self, ws). app_turn bus self ws" "\<lambda>_. serve"
proof unfold_locales
  fix a :: app and s s' :: "terminal \<times> event list" and l :: "i2c_bus \<times> thread_id \<times> wakeup list"
  assume rel: "app_rel a s" and "serve s = Some s'"
  then obtain t ev evs where s: "s = (t, ev # evs)" "s' = (terminal_step ev t, evs)" by (cases s rule: serve.cases) auto
  with rel obtain b bs where c: "mq_contents (evt_queue a) = b # bs" "encodes ev b" "list_all2 encodes evs bs"
    by (auto simp: list_all2_Cons1)
  obtain bus self ws where l: "l = (bus, self, ws)" by (cases l) auto
  from turn [of a t b bs ev bus self ws] rel s c show "\<exists>a'. (case l of (bus, self, ws) \<Rightarrow> app_turn bus self ws) a = Some a' \<and> app_rel a' s'"
    by (auto simp: l)
qed

primrec app_turns :: "i2c_bus \<Rightarrow> thread_id \<Rightarrow> nat \<Rightarrow> app \<Rightarrow> app option" where
  "app_turns bus self 0 a = Some a"
| "app_turns bus self (Suc n) a = Option.bind (app_turn bus self [] a) (app_turns bus self n)"

lemma app_turns_run:
  "app_turns bus self n = run_steps (\<lambda>(bus, self, ws). app_turn bus self ws) (replicate n (bus, self, []))"
proof (induction n)
  case (Suc n)
  show ?case by (rule ext) (simp add: Suc.IH)
qed (simp add: fun_eq_iff)

lemma serve_all: "run_steps (\<lambda>_. serve) (replicate (length evs) l) (t, evs) = Some (fold terminal_step evs t, [])"
  by (induction evs arbitrary: t) simp_all

lemma turns:
  assumes "shown_by a t" and "event_queue_ok (evt_queue a)" and "list_all2 encodes evs (mq_contents (evt_queue a))"
  shows "\<exists>a'. app_turns bus self (length evs) a = Some a' \<and> shown_by a' (fold terminal_step evs t)
    \<and> event_queue_ok (evt_queue a') \<and> mq_contents (evt_queue a') = []"
  using app_sim.run_simulates [OF _ serve_all, of a t evs "(bus, self, [])"] assms by (auto simp: app_turns_run)

text \<open>The terminal as it boots.\<close>

definition boot_terminal :: "int \<Rightarrow> sight list \<Rightarrow> terminal" where
  "boot_terminal n h = \<lparr> face = Booting, enabled = 0, price = 100, per_credit = 1,
     device_name = ascii ''rt-pay'' @ replicate 10 0, pulse_pin = n, pulse_ms = 100, history = h \<rparr>"

text \<open>A thread that pushes events one after the other.\<close>

primrec push_events :: "bytes \<Rightarrow> event list \<Rightarrow> rt_messagequeue \<Rightarrow> rt_messagequeue option" where
  "push_events junk [] q = Some q"
| "push_events junk (ev # evs) q =
     Option.bind (event_handler_push_event junk (fst (event_parts ev)) (snd (event_parts ev)) q) (push_events junk evs)"

lemma parts_length: "event_ok ev \<Longrightarrow> length (snd (event_parts ev)) \<le> union_size"
  by (cases ev) (simp_all add: config_bytes_def credit_bytes_def enable_bytes_def mqtt_event_bytes_def)

lemma pushes:
  assumes "event_queue_ok q" and "length junk = event_size" and "\<forall>ev\<in>set evs. event_ok ev"
    and "list_all2 encodes old (mq_contents q)"
  shows "\<exists>q'. push_events junk evs q = Some q' \<and> event_queue_ok q'
    \<and> list_all2 encodes (old @ take (EVT_QUEUE_LEN - length old) evs) (mq_contents q')"
  using assms
proof (induction evs arbitrary: q old)
  case Nil
  then show ?case by simp
next
  case (Cons ev evs)
  let ?type = "fst (event_parts ev)" and ?data = "snd (event_parts ev)"
  have ok: "event_ok ev" "\<forall>ev\<in>set evs. event_ok ev" using Cons.prems(3) by auto
  from push_event [OF Cons.prems(1,2) parts_length [OF ok(1)], of ?type] obtain q1 b where q1:
    "event_handler_push_event junk ?type ?data q = Some q1" "event_queue_ok q1" "is_event ?type ?data b"
    "mq_contents q1 = (if length (mq_contents q) < EVT_QUEUE_LEN then mq_contents q @ [b] else mq_contents q)" by blast
  have enc: "encodes ev b" using q1(3) ok(1) by (simp add: encodes_def)
  have len: "length old = length (mq_contents q)" using Cons.prems(4) by (rule list_all2_lengthD)
  show ?case
  proof (cases "length old < EVT_QUEUE_LEN")
    case True
    then have "list_all2 encodes (old @ [ev]) (mq_contents q1)"
      using q1(4) len enc Cons.prems(4) by (simp add: list_all2_appendI)
    from Cons.IH [OF q1(2) Cons.prems(2) ok(2) this] q1(1) True show ?thesis
      by (auto simp: take_Cons' Suc_diff_Suc)
  next
    case False
    then have "list_all2 encodes old (mq_contents q1)" using q1(4) len Cons.prems(4) by simp
    from Cons.IH [OF q1(2) Cons.prems(2) ok(2) this] q1(1) False show ?thesis by simp
  qed
qed

lemma init_writes: "pin_writes (lcd_sights (LCD_Init bus s)) = pin_writes (lcd_sights s)"
proof -
  have "lcd_sights (s\<lparr>DisplayControl := d\<rparr>) = lcd_sights s" "lcd_sights (s\<lparr>DisplayMode := m\<rparr>) = lcd_sights s"
    "lcd_sights (s\<lparr>currentX := x, currentY := y, DisplayFunction := f\<rparr>) = lcd_sights s" for s d m x y f
    by (simp_all add: lcd_sights_def)
  then show ?thesis
    by (simp add: LCD_Init_def LCD_DisplayOn_def LCD_Clear_def LCD_Delay_ms_def seen_emit Let_def)
qed

lemma init_shows:
  assumes "bus_found bus"
  shows "\<exists>a. app_init bus n lcd_reset q = Some a \<and> evt_queue a = q
    \<and> (\<exists>h. pin_writes h = [] \<and> shown_by (start_message bus a) (boot_terminal n h))"
proof -
  have s: "c_strncpy (replicate MAX_DEVICE_NAME_LEN 0) (ascii ''rt-pay'') MAX_DEVICE_NAME_LEN
      = Some (ascii ''rt-pay'' @ replicate 10 0)"
    by code_simp
  define a where "a = \<lparr> sys_cfg = \<lparr> sys_name = ascii ''rt-pay'' @ replicate 10 0, sys_price = 100,
    sys_pulses_per_credit = 1, sys_enabled = 0, sys_pulse_high_time = 100, sys_pulse_low_time = 100,
    sys_pulse_pin = n \<rparr>, display = LCD_Init bus lcd_reset, evt_queue = q \<rparr>"
  have a: "app_init bus n lcd_reset q = Some a" by (simp add: app_init_def s a_def)
  have "ready (display a)"
    using init_screen [OF assms, of lcd_reset] by (simp add: a_def lcd_reset_def screen_def power_on_def)
  from messages_show(1) [OF this, of bus] have "shown_by (start_message bus a) (boot_terminal n (history_of a))"
    by (simp add: shown_by_def boot_terminal_def) (simp add: a_def ascii_def)
  moreover have "pin_writes (history_of a) = []"
    using init_writes [of bus lcd_reset] by (simp add: a_def history_of_def lcd_reset_def lcd_sights_def)
  moreover have "evt_queue a = q" by (simp add: a_def)
  ultimately show ?thesis using a by blast
qed

text \<open>
  C5: the thread is the terminal. After \<open>app_init\<close> it starts as the booting, disabled terminal with the
  default settings, and no pin has been written. And whenever the application shows a state of the specification and its queue holds the
  bytes of an event first, one turn of the thread takes this event, ends, and shows the state the
  specification goes to: the two lines of the panel read exactly as they should, the price, the pulses
  per credit and the enabled flag are the new ones, the pulses of a credit and its balance were seen, and
  the rest of the queue is untouched.
\<close>

theorem app_refines_terminal:
  assumes "bus_found bus"
  shows "(\<exists>a. app_init bus n lcd_reset q = Some a \<and> evt_queue a = q
      \<and> (\<exists>h. pin_writes h = [] \<and> shown_by (start_message bus a) (boot_terminal n h)))
    \<and> (shown_by a t \<and> event_queue_ok (evt_queue a) \<and> mq_contents (evt_queue a) = b # bs \<and> encodes ev b
      \<longrightarrow> (\<exists>a'. app_turn bus self ws a = Some a' \<and> shown_by a' (terminal_step ev t)
            \<and> event_queue_ok (evt_queue a') \<and> mq_contents (evt_queue a') = bs))"
  using init_shows [OF assms, of n q] turn [of a t b bs ev bus self ws] by blast

text \<open>The terminal with a queue in which an enable event waits.\<close>

lemma plain_queue: "\<exists>q. event_handler_init plain_heap = Some q \<and> event_queue_ok q \<and> mq_contents q = []"
proof -
  from create_plain [of event_size EVT_QUEUE_LEN] obtain q where "event_handler_init plain_heap = Some q"
    by (auto simp: event_handler_init_def)
  with init_ok [OF this plain_heap_good] show ?thesis by blast
qed

theorem app_refines_terminal_witness:
  "\<exists>q a a' h. event_handler_init plain_heap = Some q \<and> app_init sample_bus 5 lcd_reset q = Some a
    \<and> Option.bind (event_handler_push_event (replicate 40 7) event_type_enable_e (enable_bytes \<lparr> enable_flag = 1 \<rparr>) q)
        (\<lambda>q. app_turn sample_bus 1 [] ((start_message sample_bus a)\<lparr>evt_queue := q\<rparr>)) = Some a'
    \<and> shown_by a' ((boot_terminal 5 h)\<lparr>face := Idle 100, enabled := 1\<rparr>)"
proof -
  let ?ev = "Enable \<lparr> enable_flag = 1 \<rparr>"
  obtain q where q: "event_handler_init plain_heap = Some q" "event_queue_ok q" "mq_contents q = []"
    using plain_queue by blast
  from push_event [OF q(2), of "replicate 40 7" "enable_bytes \<lparr> enable_flag = 1 \<rparr>" event_type_enable_e] q(3)
  obtain q1 b where q1: "event_handler_push_event (replicate 40 7) event_type_enable_e (enable_bytes \<lparr> enable_flag = 1 \<rparr>) q
      = Some q1" "event_queue_ok q1" "is_event event_type_enable_e (enable_bytes \<lparr> enable_flag = 1 \<rparr>) b"
    "mq_contents q1 = [b]" by (auto simp: enable_bytes_def)
  have "bus_found sample_bus" by (simp add: sample_bus_def)
  note main = app_refines_terminal [OF this]
  from main obtain a h where a: "app_init sample_bus 5 lcd_reset q = Some a"
    "shown_by (start_message sample_bus a) (boot_terminal 5 h)" by blast
  have "encodes ?ev b" using q1(3) by (simp add: encodes_def)
  with main [of 5 q "(start_message sample_bus a)\<lparr>evt_queue := q1\<rparr>" _ b "[]" ?ev 1 "[]"] a(2) q1(2,4)
  have "\<exists>a'. app_turn sample_bus 1 [] ((start_message sample_bus a)\<lparr>evt_queue := q1\<rparr>) = Some a'
      \<and> shown_by a' ((boot_terminal 5 h)\<lparr>face := Idle 100, enabled := 1\<rparr>)"
    by (force simp: at_rest_def Let_def boot_terminal_def)
  with q(1) a(1) q1(1) show ?thesis by auto
qed

text \<open>
  C18: events are handled in the order they were pushed. From an empty queue, a thread can push any
  events; the first four are kept. The application then handles exactly these, one per turn, in this
  order, and every turn ends; after that the queue is empty and the thread waits for the next event.
\<close>

theorem events_in_order:
  assumes "shown_by a t" and "event_queue_ok (evt_queue a)" and "mq_contents (evt_queue a) = []"
    and "length junk = event_size" and "\<forall>ev\<in>set evs. event_ok ev"
  shows "\<exists>q a'. push_events junk evs (evt_queue a) = Some q
    \<and> app_turns bus self (length (take EVT_QUEUE_LEN evs)) (a\<lparr>evt_queue := q\<rparr>) = Some a'
    \<and> shown_by a' (fold terminal_step (take EVT_QUEUE_LEN evs) t)
    \<and> mq_contents (evt_queue a') = [] \<and> app_turn bus self [] a' = None"
proof -
  have "list_all2 encodes [] (mq_contents (evt_queue a))" using assms(3) by simp
  from pushes [OF assms(2,4,5) this] obtain q where q: "push_events junk evs (evt_queue a) = Some q"
    "event_queue_ok q" "list_all2 encodes (take EVT_QUEUE_LEN evs) (mq_contents q)" by auto
  have "shown_by (a\<lparr>evt_queue := q\<rparr>) t" "event_queue_ok (evt_queue (a\<lparr>evt_queue := q\<rparr>))"
    "list_all2 encodes (take EVT_QUEUE_LEN evs) (mq_contents (evt_queue (a\<lparr>evt_queue := q\<rparr>)))"
    using assms(1) q by simp_all
  from turns [OF this, of bus self] obtain a' where a':
    "app_turns bus self (length (take EVT_QUEUE_LEN evs)) (a\<lparr>evt_queue := q\<rparr>) = Some a'"
    "shown_by a' (fold terminal_step (take EVT_QUEUE_LEN evs) t)" "event_queue_ok (evt_queue a')"
    "mq_contents (evt_queue a') = []" by blast
  have "app_turn bus self [] a' = None" using read_blocks [OF a'(3,4)] by (simp add: app_turn_def)
  with q(1) a' show ?thesis by blast
qed

theorem events_in_order_witness:
  "\<exists>q a q' a' h. event_handler_init plain_heap = Some q \<and> app_init sample_bus 5 lcd_reset q = Some a
    \<and> push_events (replicate 40 7) [Mqtt mqtt_event_conn_success_e, Enable \<lparr> enable_flag = 1 \<rparr>,
        Config \<lparr> cfg_name = replicate 16 65, cfg_price = 250, cfg_pulses_per_credit = 2 \<rparr>] q = Some q'
    \<and> app_turns sample_bus 1 3 ((start_message sample_bus a)\<lparr>evt_queue := q'\<rparr>) = Some a'
    \<and> shown_by a' ((boot_terminal 5 h)\<lparr>face := Idle 250, enabled := 1, price := 250, per_credit := 2\<rparr>)"
proof -
  let ?evs = "[Mqtt mqtt_event_conn_success_e, Enable \<lparr> enable_flag = 1 \<rparr>,
    Config \<lparr> cfg_name = replicate 16 65, cfg_price = 250, cfg_pulses_per_credit = 2 \<rparr>]"
  obtain q where q: "event_handler_init plain_heap = Some q" "event_queue_ok q" "mq_contents q = []"
    using plain_queue by blast
  have "bus_found sample_bus" by (simp add: sample_bus_def)
  from init_shows [OF this, of 5 q] obtain a h where a: "app_init sample_bus 5 lcd_reset q = Some a" "evt_queue a = q"
    "shown_by (start_message sample_bus a) (boot_terminal 5 h)" by blast
  have "event_queue_ok (evt_queue (start_message sample_bus a))" "mq_contents (evt_queue (start_message sample_bus a)) = []"
    using q a(2) by simp_all
  from events_in_order [OF a(3) this, of "replicate 40 7" ?evs sample_bus 1] obtain q' a' where r:
    "push_events (replicate 40 7) ?evs (evt_queue (start_message sample_bus a)) = Some q'"
    "app_turns sample_bus 1 (length (take EVT_QUEUE_LEN ?evs)) ((start_message sample_bus a)\<lparr>evt_queue := q'\<rparr>) = Some a'"
    "shown_by a' (fold terminal_step (take EVT_QUEUE_LEN ?evs) (boot_terminal 5 h))"
    by (auto simp del: push_events.simps app_turns.simps)
  have "length (take EVT_QUEUE_LEN ?evs) = 3" "take EVT_QUEUE_LEN ?evs = ?evs" by simp_all
  moreover have "fold terminal_step ?evs (boot_terminal 5 h)
      = (boot_terminal 5 h)\<lparr>face := Idle 250, enabled := 1, price := 250, per_credit := 2\<rparr>"
    by (simp add: at_rest_def Let_def boot_terminal_def)
  ultimately show ?thesis using q(1) a r by (simp only: messages_keep) metis
qed

end
