(* ===== verification/Mqtt_Link_Behaviour.thy ===== *)
theory Mqtt_Link_Behaviour
  imports Mqtt_Link Jsmn_Roundtrip App_Behaviour
begin

text \<open>
  What the callbacks of the link do with a message: never more than store inside the payload and push
  one event, and, for the flat objects the server sends, the right event, which the application then
  shows.
\<close>

section \<open>Any message\<close>

text \<open>A buffer that differs only in \<open>n\<close> bytes from \<open>off\<close> on.\<close>

definition same_outside :: "nat \<Rightarrow> nat \<Rightarrow> bytes \<Rightarrow> bytes \<Rightarrow> bool" where
  "same_outside off n b b' \<longleftrightarrow> length b' = length b \<and> take off b' = take off b \<and> drop (off + n) b' = drop (off + n) b"

lemma same_outside_refl [simp]: "same_outside off n b b"
  by (simp add: same_outside_def)

lemma same_outside_trans: "same_outside off n a b \<Longrightarrow> same_outside off n b c \<Longrightarrow> same_outside off n a c"
  by (simp add: same_outside_def)

text \<open>Tokens as the tokenizer leaves them.\<close>

definition good_tokens :: "nat \<Rightarrow> nat \<Rightarrow> jsmntok_t list \<Rightarrow> bool" where
  "good_tokens len r ts \<longleftrightarrow> r \<le> length ts \<and> (\<forall>i<r. 0 \<le> tok_start (ts ! i) \<and> tok_start (ts ! i) \<le> tok_end (ts ! i)
     \<and> tok_end (ts ! i) \<le> int len \<and> (0 < tok_size (ts ! i) \<longrightarrow> i + 1 < r))"

lemma good_tokenD:
  assumes "good_tokens len r ts" and "i < r"
  shows "i < length ts" "0 \<le> tok_start (ts ! i)" "tok_start (ts ! i) \<le> int len" "0 \<le> tok_end (ts ! i)"
    "tok_end (ts ! i) \<le> int len" "0 < tok_size (ts ! i) \<Longrightarrow> i + 1 < r"
  using assms unfolding good_tokens_def by (auto dest: order_trans)

lemma key_loop_total:
  assumes ts: "good_tokens len r ts"
    and store: "\<And>key kl val vl e. P e \<Longrightarrow> fit vl \<Longrightarrow> \<exists>e'. store key kl val vl e = Some e' \<and> P e'"
    and fit: "\<forall>j<r. fit (size_of_int (tok_end (ts ! j) - tok_start (ts ! j)))"
  shows "i + n = r \<Longrightarrow> len < length m \<Longrightarrow> P e \<Longrightarrow>
    \<exists>m' e'. key_loop store ts i n m e = Some (m', e') \<and> P e' \<and> same_outside 0 (len + 1) m m'"
proof (induction n arbitrary: i m e)
  case 0
  then show ?case by simp
next
  case (Suc n)
  have i: "i < r" "i < length ts" using Suc.prems(1) ts by (auto simp: good_tokens_def)
  show ?case
  proof (cases "tok_type (ts ! i) = JSMN_STRING \<and> 0 < tok_size (ts ! i)")
    case False
    with Suc.IH [of "i + 1" m e] Suc.prems i show ?thesis by (auto simp: rd_def)
  next
    case True
    let ?v = "ts ! (i + 1)" and ?k = "ts ! i"
    have next_r: "i + 1 < r" using good_tokenD(6) [OF ts i(1)] True by simp
    note r = next_r good_tokenD(2,3) [OF ts i(1)] good_tokenD(1-5) [OF ts next_r]
    define m1 where "m1 = m[nat (tok_end ?v) := 0]"
    have "nat (tok_end ?v) < length m" using r Suc.prems(2) by simp
    then have m1: "store_nul m (tok_start ?v + (tok_end ?v - tok_start ?v)) = Some m1" "length m1 = length m"
      "same_outside 0 (len + 1) m m1"
      using r by (simp_all add: store_nul_def wr_def m1_def same_outside_def)
    have "\<exists>key val. from_ptr m1 (tok_start ?k) = Some key \<and> from_ptr m1 (tok_start ?v) = Some val"
      using r m1(2) Suc.prems(2) by (simp add: from_ptr_def)
    then obtain key val where kv: "from_ptr m1 (tok_start ?k) = Some key" "from_ptr m1 (tok_start ?v) = Some val" by blast
    from store [OF Suc.prems(3), of "size_of_int (tok_end ?v - tok_start ?v)" key "size_of_int (tok_end ?k - tok_start ?k)" val]
      fit r(1) obtain e1 where e1: "store key (size_of_int (tok_end ?k - tok_start ?k)) val
        (size_of_int (tok_end ?v - tok_start ?v)) e = Some e1" "P e1" by auto
    from Suc.IH [of "i + 1" m1 e1] Suc.prems m1 e1 obtain m' e' where
      "key_loop store ts (i + 1) n m1 e1 = Some (m', e')" "P e'" "same_outside 0 (len + 1) m1 m'" by auto
    with m1 kv e1 i r True show ?thesis
      by (auto simp: rd_def Let_def intro: same_outside_trans)
  qed
qed

text \<open>The text of the message lies in the receive buffer, with at least one byte behind it.\<close>

definition message_at :: "umqtt_pkgs_publish \<Rightarrow> nat \<Rightarrow> nat \<Rightarrow> bytes \<Rightarrow> bool" where
  "message_at msg off len buf \<longleftrightarrow> pb_payload msg = PRecv off \<and> unat (pb_payload_len msg) = len \<and> off + len < length buf"

definition stack_ok :: "stack \<Rightarrow> bool" where
  "stack_ok stk \<longleftrightarrow> length (stack_tokens stk) = MQTT_MAX_JSON_TOKENS \<and> length (stack_event stk) = event_size"

text \<open>Some token of the message is longer than a device name.\<close>

definition long_token :: "stack \<Rightarrow> umqtt_pkgs_publish \<Rightarrow> nat \<Rightarrow> bytes \<Rightarrow> bool" where
  "long_token stk msg off buf \<longleftrightarrow> (\<exists>r parser ts i. jsmn_parse jsmn_init (drop off buf) (unat (pb_payload_len msg))
       (Some (stack_tokens stk)) MQTT_MAX_JSON_TOKENS = Some (r, parser, Some ts)
     \<and> i < nat r \<and> int MAX_DEVICE_NAME_LEN < tok_end (ts ! i) - tok_start (ts ! i))"

lemma size_of_int_id: "0 \<le> i \<Longrightarrow> i < 4294967296 \<Longrightarrow> size_of_int i = nat i"
  by (simp add: size_of_int_def unat_eq_nat_uint word_of_int_inverse)

lemma json_message_total:
  assumes msg: "message_at msg off len buf" and stk: "stack_ok stk"
    and store: "\<And>key kl val vl e. P e \<Longrightarrow> fit vl \<Longrightarrow> \<exists>e'. store key kl val vl e = Some e' \<and> P e'"
    and fit: "(\<forall>n. fit n) \<or> \<not> long_token stk msg off buf \<and> (\<forall>n\<le>MAX_DEVICE_NAME_LEN. fit n)"
    and e: "P e"
  shows "\<exists>buf' r. json_message store e (stack_tokens stk) msg buf = Some (buf', r)
    \<and> same_outside off (len + 1) buf buf' \<and> (case r of None \<Rightarrow> True | Some e \<Rightarrow> P e)"
proof -
  let ?m = "drop off buf"
  have m: "payload_mem msg buf = Some ?m" "unat (pb_payload_len msg) = len" "len < length ?m" "pb_payload msg = PRecv off"
    using msg by (auto simp: message_at_def payload_mem_def ptr_mem_def)
  have "len \<le> length ?m" "MQTT_MAX_JSON_TOKENS \<le> length (stack_tokens stk)" using m(3) stk by (simp_all add: stack_ok_def)
  from parse_total [OF this] obtain r parser ts where
    p: "jsmn_parse jsmn_init ?m len (Some (stack_tokens stk)) MQTT_MAX_JSON_TOKENS = Some (r, parser, Some ts)"
    "length ts = length (stack_tokens stk)"
    and ok: "0 \<le> r \<longrightarrow> r \<le> int MQTT_MAX_JSON_TOKENS \<and> (\<forall>i<nat r. 0 \<le> tok_start (ts ! i) \<and> tok_start (ts ! i) \<le> tok_end (ts ! i)
      \<and> tok_end (ts ! i) \<le> int len \<and> (0 < tok_size (ts ! i) \<longrightarrow> i + 1 < nat r))" by blast
  show ?thesis
  proof (cases "r < 0")
    case True
    then show ?thesis using m p by (auto simp: json_message_def)
  next
    case False
    then have ts: "good_tokens len (nat r) ts" using ok p(2) stk by (auto simp: good_tokens_def stack_ok_def)
    have "fit (size_of_int (tok_end (ts ! j) - tok_start (ts ! j)))" if j: "j < nat r" for j
    proof (cases "\<forall>n. fit n")
      case False
      with fit have "\<not> long_token stk msg off buf" "\<forall>n\<le>MAX_DEVICE_NAME_LEN. fit n" by blast+
      moreover from this p j m(2) have "\<not> int MAX_DEVICE_NAME_LEN < tok_end (ts ! j) - tok_start (ts ! j)"
        by (auto simp: long_token_def)
      moreover have "0 \<le> tok_end (ts ! j) - tok_start (ts ! j)" using ts j by (simp add: good_tokens_def)
      ultimately show ?thesis by (simp add: size_of_int_id)
    qed simp
    then have "\<forall>j<nat r. fit (size_of_int (tok_end (ts ! j) - tok_start (ts ! j)))" by blast
    from key_loop_total [of len "nat r" ts P fit store, OF ts store this, of 0 "nat r" ?m e] m(3) e obtain m' e' where
      k: "key_loop store ts 0 (nat r) ?m e = Some (m', e')" "P e'" "same_outside 0 (len + 1) ?m m'" by auto
    have "same_outside off (len + 1) buf (take off buf @ m')"
      using k(3) msg by (auto simp: same_outside_def message_at_def add.commute)
    with m p k False show ?thesis by (auto simp: json_message_def payload_put_def)
  qed
qed

text \<open>Nothing is pushed, or one event of the type, which is dropped when the queue is full.\<close>

definition pushed_one :: "event_type_t \<Rightarrow> rt_messagequeue \<Rightarrow> rt_messagequeue \<Rightarrow> bool" where
  "pushed_one type q q' \<longleftrightarrow> event_queue_ok q' \<and> (mq_contents q' = mq_contents q
     \<or> (\<exists>b. mq_contents q' = mq_contents q @ [b] \<and> length b = event_size \<and> event_code b = event_type_code type))"

lemma json_event_total:
  assumes msg: "message_at msg off len buf" and stk: "stack_ok stk" and q: "event_queue_ok q"
    and store: "\<And>key kl val vl e. P e \<Longrightarrow> fit vl \<Longrightarrow> \<exists>e'. store key kl val vl e = Some e' \<and> P e'"
    and fit: "(\<forall>n. fit n) \<or> \<not> long_token stk msg off buf \<and> (\<forall>n\<le>MAX_DEVICE_NAME_LEN. fit n)"
    and e: "P e" and bytes: "\<And>e. P e \<Longrightarrow> length (to_bytes e) \<le> union_size"
  shows "\<exists>buf' q'. json_event store e type to_bytes stk msg buf q = Some (buf', q')
    \<and> same_outside off (len + 1) buf buf' \<and> pushed_one type q q'"
proof -
  from json_message_total [of msg off len buf stk P fit store, OF msg stk store fit e] obtain buf' r where
    r: "json_message store e (stack_tokens stk) msg buf = Some (buf', r)" "same_outside off (len + 1) buf buf'"
    "case r of None \<Rightarrow> True | Some e \<Rightarrow> P e" by blast
  show ?thesis
  proof (cases r)
    case None
    with r q show ?thesis by (auto simp: json_event_def pushed_one_def)
  next
    case (Some e')
    with r(3) bytes have "length (to_bytes e') \<le> union_size" by simp
    from push_event [OF q _ this, of "stack_event stk" type] stk obtain q' b where
      p: "event_handler_push_event (stack_event stk) type (to_bytes e') q = Some q'" "event_queue_ok q'"
      "is_event type (to_bytes e') b"
      "mq_contents q' = (if length (mq_contents q) < EVT_QUEUE_LEN then mq_contents q @ [b] else mq_contents q)"
      by (auto simp: stack_ok_def)
    have "pushed_one type q q'" using p(2-4) by (auto simp: pushed_one_def is_event_def)
    with r(1,2) p(1) Some show ?thesis by (auto simp: json_event_def)
  qed
qed

lemma no_store_fails:
  "\<exists>e'. enable_store key kl val vl e = Some e'" "\<exists>c'. credit_store key kl val vl c = Some c'"
  by (simp_all add: enable_store_def credit_store_def)

lemma config_store_total:
  "length (cfg_name e) = MAX_DEVICE_NAME_LEN \<Longrightarrow> vl \<le> MAX_DEVICE_NAME_LEN \<Longrightarrow>
     \<exists>e'. config_store key kl val vl e = Some e' \<and> length (cfg_name e') = MAX_DEVICE_NAME_LEN"
  by (auto simp: config_store_def c_strncpy_def blit_def)

text \<open>
  C13: no message makes a callback go astray. Whatever bytes the broker sends, if the payload is followed
  by at least one byte of the receive buffer, each callback returns; it stores only inside the payload
  and in that one byte, and pushes nothing (the text does not parse, or the queue is full) or exactly
  one event of its type. For the configuration this takes that no token is longer than the 16 bytes of
  the device name.
\<close>

theorem link_callbacks_in_bounds:
  assumes "message_at msg off len buf" and "stack_ok stk" and "event_queue_ok q"
    and "(callback, type) \<in> {(mqtt_enable_callback, event_type_enable_e), (mqtt_add_coins_callback, event_type_credit_e),
      (mqtt_config_callback, event_type_config_e)}"
    and "callback = mqtt_config_callback \<longrightarrow> \<not> long_token stk msg off buf"
  shows "\<exists>buf' q'. callback stk msg buf q = Some (buf', q') \<and> same_outside off (len + 1) buf buf' \<and> pushed_one type q q'"
proof -
  have "\<exists>buf' q'. mqtt_enable_callback stk msg buf q = Some (buf', q') \<and> same_outside off (len + 1) buf buf'
      \<and> pushed_one event_type_enable_e q q'"
    unfolding mqtt_enable_callback_def
    by (rule json_event_total [OF assms(1-3), of "\<lambda>_. True" "\<lambda>_. True"]) (simp_all add: no_store_fails enable_bytes_def)
  moreover have "\<exists>buf' q'. mqtt_add_coins_callback stk msg buf q = Some (buf', q') \<and> same_outside off (len + 1) buf buf'
      \<and> pushed_one event_type_credit_e q q'"
    unfolding mqtt_add_coins_callback_def
    by (rule json_event_total [OF assms(1-3), of "\<lambda>_. True" "\<lambda>_. True"]) (simp_all add: no_store_fails credit_bytes_def)
  moreover have "\<exists>buf' q'. mqtt_config_callback stk msg buf q = Some (buf', q') \<and> same_outside off (len + 1) buf buf'
      \<and> pushed_one event_type_config_e q q'" if "\<not> long_token stk msg off buf"
    unfolding mqtt_config_callback_def
    by (rule json_event_total [OF assms(1-3), of "\<lambda>e. length (cfg_name e) = MAX_DEVICE_NAME_LEN" "\<lambda>n. n \<le> MAX_DEVICE_NAME_LEN"])
       (use that in \<open>simp_all add: config_store_total no_config_def config_bytes_def\<close>)
  ultimately show ?thesis using assms(4,5) by blast
qed

section \<open>Flat objects\<close>

text \<open>
  The specification of a message: its pairs are taken in order, a value goes to the first field whose
  name starts with the key.
\<close>

primrec value_bytes :: "jvalue \<Rightarrow> bytes" where
  "value_bytes (JString s) = s"
| "value_bytes (JPrimitive s) = s"

definition names :: "bytes \<Rightarrow> string \<Rightarrow> bool" where
  "names k name \<longleftrightarrow> k = take (length k) (ascii name)"





lemma plain_string_nul: "plain_string s \<Longrightarrow> 0 \<notin> set s"
  by (auto simp: plain_string_def)

lemma plain_value_nul: "plain_value v \<Longrightarrow> 0 \<notin> set (value_bytes v)"
proof (cases v)
  case (JPrimitive s)
  have "\<not> primitive_char 0" by (simp add: primitive_char_def)
  moreover assume "plain_value v"
  ultimately show ?thesis using JPrimitive by (auto simp: plain_primitive_def list_all_iff)
qed (auto simp: plain_string_nul)


lemma strncmp_names:
  assumes "0 \<notin> set k" and "0 \<notin> set (ascii name)"
  shows "strncmp_eq (k @ xs) (ascii name) (length k) = names k name"
proof -
  have "0 \<notin> set (take (length k) (ascii name))" using assms(2) by (auto dest: in_set_takeD)
  with assms(1) show ?thesis by (simp add: strncmp_eq_def names_def cstr_id)
qed

lemma key_names: "0 \<notin> set (ascii name)" if "name \<in> {''name'', ''price'', ''pulses'', ''balance'', ''count'', ''enable''}"
  using that by (auto simp: ascii_def)





section \<open>The loop over the keys of a flat object\<close>

lemma size_of_length: "n < 4294967296 \<Longrightarrow> size_of_int (int n) = n"
  by (simp add: size_of_int_id)

lemma store_nul_at: "i = int (length A) \<Longrightarrow> store_nul (A @ x # B) i = Some (A @ 0 # B)"
  by (simp add: store_nul_def wr_def)

lemma from_ptr_at: "i = int (length A) \<Longrightarrow> from_ptr (A @ B) i = Some B"
  by (simp add: from_ptr_def)

text \<open>What the loop finds at a pair: the value is terminated in place, the rest of the text is as it was.\<close>

lemma pair_read:
  fixes c :: u8 and k pre :: bytes and v :: jvalue
  assumes "plain_pair (k, v)"
  defines "kt \<equiv> key_token (length pre) k 1" and "vt \<equiv> value_token (length pre + length k + 3) v"
  shows "\<exists>mid xs ys. length mid = length (pair_text (k, v)) + 1
    \<and> store_nul (pre @ pair_text (k, v) @ c # tail) (tok_end vt) = Some (pre @ mid @ tail)
    \<and> from_ptr (pre @ mid @ tail) (tok_start kt) = Some (k @ xs)
    \<and> from_ptr (pre @ mid @ tail) (tok_start vt) = Some (value_bytes v @ 0 # ys)"
proof (cases v)
  case (JString s)
  let ?K = "pre @ [0x22]" and ?V = "pre @ 0x22 # k @ [0x22, 0x3A, 0x22]"
  have "store_nul ((?V @ s) @ 0x22 # c # tail) (tok_end vt) = Some ((?V @ s) @ 0 # c # tail)"
    by (rule store_nul_at) (simp add: JString vt_def value_token_def)
  moreover have "from_ptr (?K @ k @ 0x22 # 0x3A # 0x22 # s @ 0 # c # tail) (tok_start kt)
      = Some (k @ 0x22 # 0x3A # 0x22 # s @ 0 # c # tail)"
    by (rule from_ptr_at) (simp add: kt_def key_token_def)
  moreover have "from_ptr (?V @ s @ 0 # c # tail) (tok_start vt) = Some (s @ 0 # c # tail)"
    by (rule from_ptr_at) (simp add: JString vt_def value_token_def)
  ultimately show ?thesis
    using JString
    by - (rule exI [of _ "0x22 # k @ 0x22 # 0x3A # 0x22 # s @ [0, c]"],
        rule exI [of _ "0x22 # 0x3A # 0x22 # s @ 0 # c # tail"], rule exI [of _ "c # tail"], simp)
next
  case (JPrimitive s)
  let ?K = "pre @ [0x22]" and ?V = "pre @ 0x22 # k @ [0x22, 0x3A]"
  have "store_nul ((?V @ s) @ c # tail) (tok_end vt) = Some ((?V @ s) @ 0 # tail)"
    by (rule store_nul_at) (simp add: JPrimitive vt_def value_token_def)
  moreover have "from_ptr (?K @ k @ 0x22 # 0x3A # s @ 0 # tail) (tok_start kt) = Some (k @ 0x22 # 0x3A # s @ 0 # tail)"
    by (rule from_ptr_at) (simp add: kt_def key_token_def)
  moreover have "from_ptr (?V @ s @ 0 # tail) (tok_start vt) = Some (s @ 0 # tail)"
    by (rule from_ptr_at) (simp add: JPrimitive vt_def value_token_def)
  ultimately show ?thesis
    using JPrimitive
    by - (rule exI [of _ "0x22 # k @ 0x22 # 0x3A # s @ [0]"], rule exI [of _ "0x22 # 0x3A # s @ 0 # tail"],
        rule exI [of _ tail], simp)
qed

text \<open>The store gets the key and the terminated value; if it can store, the loop goes on behind the pair.\<close>

lemma pair_store:
  assumes p: "plain_pair (k, v)"
    and t: "rd tokens i = Some (key_token (length pre) k 1)"
      "rd tokens (i + 1) = Some (value_token (length pre + length k + 3) v)"
    and small: "length (pre @ pair_text (k, v)) < 4294967296"
  shows "\<exists>mid xs ys. length mid = length (pair_text (k, v)) + 1
    \<and> key_loop store tokens i (Suc (Suc n)) (pre @ pair_text (k, v) @ c # tail) e
      = Option.bind (store (k @ xs) (length k) (value_bytes v @ 0 # ys) (length (value_bytes v)) e)
          (key_loop store tokens (i + 2) n (pre @ mid @ tail))"
proof -
  let ?a = "length pre" and ?v = "value_token (length pre + length k + 3) v"
  have len: "size_of_int (tok_end (key_token ?a k 1) - tok_start (key_token ?a k 1)) = length k"
    "size_of_int (tok_end ?v - tok_start ?v) = length (value_bytes v)"
    using small by (cases v; simp add: key_token_def value_token_def size_of_length)+
  from pair_read [OF p, of pre c tail] obtain mid xs ys where
    m: "length mid = length (pair_text (k, v)) + 1"
      "store_nul (pre @ pair_text (k, v) @ c # tail) (tok_end ?v) = Some (pre @ mid @ tail)"
      "from_ptr (pre @ mid @ tail) (tok_start (key_token ?a k 1)) = Some (k @ xs)"
      "from_ptr (pre @ mid @ tail) (tok_start ?v) = Some (value_bytes v @ 0 # ys)" by blast
  have skip: "key_loop store tokens (i + 1) (Suc n) m = key_loop store tokens (i + 2) n m" for m
    by (rule ext, use t(2) in \<open>cases v\<close>) (simp_all add: value_token_def)
  have "key_loop store tokens i (Suc (Suc n)) (pre @ pair_text (k, v) @ c # tail) e
      = Option.bind (store (k @ xs) (length k) (value_bytes v @ 0 # ys) (length (value_bytes v)) e)
          (key_loop store tokens (i + 1) (Suc n) (pre @ mid @ tail))"
    using t m(2-4) len by (simp add: key_token_def Let_def del: pair_text.simps)
  with m(1) show ?thesis unfolding skip by blast
qed




text \<open>A flat object lies in the receive buffer behind \<open>front\<close>.\<close>

definition object_at :: "umqtt_pkgs_publish \<Rightarrow> bytes \<Rightarrow> jpair list \<Rightarrow> bool" where
  "object_at msg front ps \<longleftrightarrow> list_all plain_pair ps \<and> 1 + 2 * length ps \<le> MQTT_MAX_JSON_TOKENS
     \<and> pb_payload msg = PRecv (length front) \<and> unat (pb_payload_len msg) = length (object_text ps)"










text \<open>
  A long name is stored outside the device name. If the first pair of a configuration message is a
  name of more than 16 characters, \<open>strncpy\<close> is told to store that many, which \<open>config.name\<close> has no
  room for: a fault, whatever the rest of the message.
\<close>

theorem config_name_overflow:
  assumes "object_at msg front ((k, v) # ps)" and "stack_ok stk"
    and "names k ''name''" and "MAX_DEVICE_NAME_LEN < length (value_bytes v)"
  shows "mqtt_config_callback stk msg (front @ object_text ((k, v) # ps) @ rest) q = None"
proof -
  let ?ps = "(k, v) # ps"
  let ?m = "object_text ?ps @ rest" and ?o = "object_token (int (length (object_text ?ps))) (int (length ?ps))"
  let ?ts = "?o # body_tokens 1 ?ps @ drop (1 + 2 * length ?ps) (stack_tokens stk)"
  have o: "list_all plain_pair ?ps" "1 + 2 * length ?ps \<le> MQTT_MAX_JSON_TOKENS" "MQTT_MAX_JSON_TOKENS \<le> length (stack_tokens stk)"
    using assms(1,2) by (simp_all add: object_at_def stack_ok_def)
  note parse = parse_object [OF o, of rest]
  have m: "payload_mem msg (front @ ?m) = Some ?m"
    using assms(1) by (simp add: object_at_def payload_mem_def ptr_mem_def)
  have "length (object_text ?ps) < 4294967296"
    using assms(1) unsigned_less [of "pb_payload_len msg", where 'a = nat] by (simp add: object_at_def)
  then have small: "length ([0x7B] @ pair_text (k, v)) < 4294967296" by (cases ps) (simp_all add: object_text_def)
  obtain c tail where body: "?m = [0x7B] @ pair_text (k, v) @ c # tail" by (cases ps) (simp_all add: object_text_def)
  have p: "plain_pair (k, v)" using o(1) by simp
  have "rd ?ts 1 = Some (key_token (length [0x7B :: u8]) k 1)"
    "rd ?ts (1 + 1) = Some (value_token (length [0x7B :: u8] + length k + 3) v)" by (simp_all add: rd_def)
  from pair_store [OF p this small, of config_store "2 * length ps" c tail no_config] obtain mid xs ys where
    "key_loop config_store ?ts 1 (Suc (Suc (2 * length ps))) ?m no_config
      = Option.bind (config_store (k @ xs) (length k) (value_bytes v @ 0 # ys) (length (value_bytes v)) no_config)
          (key_loop config_store ?ts (1 + 2) (2 * length ps) ([0x7B] @ mid @ tail))" unfolding body by blast
  moreover have "config_store (k @ xs) (length k) (value_bytes v @ 0 # ys) (length (value_bytes v)) no_config = None"
    using p assms(3,4) by (simp add: config_store_def strncmp_names key_names plain_string_nul plain_value_nul
        c_strncpy_def cstr_append_nul blit_def no_config_def)
  moreover have "key_loop config_store ?ts 0 (Suc (2 * length ?ps)) ?m no_config
      = key_loop config_store ?ts 1 (Suc (Suc (2 * length ps))) ?m no_config"
    by (simp add: rd_def object_token_def del: key_loop.simps(2)) (simp add: rd_def object_token_def)
  moreover have "nat (1 + 2 * int (length ?ps)) = Suc (2 * length ?ps)" by simp
  ultimately show ?thesis
    using parse m assms(1)
    by (simp add: mqtt_config_callback_def json_event_def json_message_def object_at_def del: key_loop.simps)
qed

section \<open>Examples\<close>

definition sample_stack :: stack where
  "sample_stack = \<lparr> stack_tokens = replicate 16 \<lparr> tok_type = JSMN_UNDEFINED, tok_start = 7, tok_end = 7, tok_size = 7 \<rparr>,
     stack_event = replicate 40 7 \<rparr>"

lemma sample_stack_ok: "stack_ok sample_stack"
  by (simp add: stack_ok_def sample_stack_def)

definition payload_at :: "nat \<Rightarrow> u32 \<Rightarrow> umqtt_pkgs_publish" where
  "payload_at off n = \<lparr> pb_topic_name = PNull, pb_packet_id = 0, pb_payload = PRecv off, pb_payload_len = n \<rparr>"

text \<open>A message of 16 bytes has no longer token.\<close>

lemma short_message:
  assumes msg: "message_at msg off len buf" and stk: "stack_ok stk" and "len \<le> MAX_DEVICE_NAME_LEN"
  shows "\<not> long_token stk msg off buf"
proof -
  have "len \<le> length (drop off buf)" "MQTT_MAX_JSON_TOKENS \<le> length (stack_tokens stk)" "unat (pb_payload_len msg) = len"
    using msg stk by (auto simp: message_at_def stack_ok_def)
  from parse_total [OF this(1,2)] this(3) obtain r parser ts where
    p: "jsmn_parse jsmn_init (drop off buf) (unat (pb_payload_len msg)) (Some (stack_tokens stk)) MQTT_MAX_JSON_TOKENS
      = Some (r, parser, Some ts)"
    and b: "0 \<le> r \<longrightarrow> (\<forall>i<nat r. 0 \<le> tok_start (ts ! i) \<and> tok_end (ts ! i) \<le> int len)" by auto
  have "\<not> int MAX_DEVICE_NAME_LEN < tok_end (ts ! i) - tok_start (ts ! i)" if "i < nat r" for i
  proof -
    from that b have "0 \<le> tok_start (ts ! i)" "tok_end (ts ! i) \<le> int len" by auto
    with assms(3) show ?thesis by linarith
  qed
  with p show ?thesis by (auto simp: long_token_def)
qed

theorem link_callbacks_in_bounds_witness:
  "\<exists>q buf' q'. event_handler_init plain_heap = Some q
    \<and> mqtt_config_callback sample_stack (payload_at 2 3) [1, 2, 0x7B, 0x22, 0x22, 3, 4] q = Some (buf', q')
    \<and> same_outside 2 4 [1, 2, 0x7B, 0x22, 0x22, 3, 4] buf' \<and> pushed_one event_type_config_e q q'"
proof -
  obtain q where q: "event_handler_init plain_heap = Some q" "event_queue_ok q" using plain_queue by blast
  have m: "message_at (payload_at 2 3) 2 3 [1, 2, 0x7B, 0x22, 0x22, 3, 4]" by (simp add: message_at_def payload_at_def)
  from link_callbacks_in_bounds [OF m sample_stack_ok q(2), of mqtt_config_callback event_type_config_e]
    short_message [OF m sample_stack_ok] q(1) show ?thesis by auto
qed





theorem config_name_overflow_witness:
  "\<forall>q. mqtt_config_callback sample_stack (payload_at 1 28)
     ([9] @ object_text [(ascii ''name'', JString (replicate 17 65))] @ [9, 9]) q = None"
  by (rule allI, rule config_name_overflow)
     (simp_all add: object_at_def payload_at_def object_text_def ascii_def plain_string_def sample_stack_ok names_def)

end
