(* ===== verification/Spi_Bits.thy ===== *)
theory Spi_Bits
  imports Prelude
begin

text \<open>
  The software SPI bus the reader chip hangs on: the bit-banging transfer of \<open>spi-bit-ops.c\<close>, the
  message transfer of \<open>spi_core.c\<close> and the line routines of \<open>drv_soft_spi.c\<close>. The pins are those of
  the board (\<open>rt_pin_read\<close>, \<open>rt_pin_write\<close>, \<open>rt_pin_mode\<close>, a busy wait), a parameter; the bus lock is
  left out, one thread uses the bus.
\<close>

section \<open>Pins\<close>

record 'w pins =
  rt_pin_write :: "int \<Rightarrow> bool \<Rightarrow> 'w \<Rightarrow> 'w"
  rt_pin_read :: "int \<Rightarrow> 'w \<Rightarrow> bool \<times> 'w"
  rt_pin_mode :: "int \<Rightarrow> nat \<Rightarrow> 'w \<Rightarrow> 'w"
  pin_udelay :: "u32 \<Rightarrow> 'w \<Rightarrow> 'w"

abbreviation (input) PIN_NONE :: int where "PIN_NONE \<equiv> - 1"
abbreviation (input) PIN_MODE_OUTPUT :: nat where "PIN_MODE_OUTPUT \<equiv> 0"
abbreviation (input) PIN_MODE_INPUT :: nat where "PIN_MODE_INPUT \<equiv> 1"
abbreviation (input) PIN_MODE_INPUT_PULLUP :: nat where "PIN_MODE_INPUT_PULLUP \<equiv> 2"

record soft_spi_config =
  sck_pin :: u8
  mosi_pin :: u8
  miso_pin :: u8

definition ch32_tog_sclk :: "'w pins \<Rightarrow> soft_spi_config \<Rightarrow> 'w \<Rightarrow> 'w" where
  "ch32_tog_sclk P L w =
     (let (high, w) = rt_pin_read P (uint (sck_pin L)) w in
      if high then rt_pin_write P (uint (sck_pin L)) False w else rt_pin_write P (uint (sck_pin L)) True w)"

definition ch32_set_sclk :: "'w pins \<Rightarrow> soft_spi_config \<Rightarrow> bool \<Rightarrow> 'w \<Rightarrow> 'w" where
  "ch32_set_sclk P L state w = (if state then rt_pin_write P (uint (sck_pin L)) True w else rt_pin_write P (uint (sck_pin L)) False w)"

definition ch32_set_mosi :: "'w pins \<Rightarrow> soft_spi_config \<Rightarrow> bool \<Rightarrow> 'w \<Rightarrow> 'w" where
  "ch32_set_mosi P L state w = (if state then rt_pin_write P (uint (mosi_pin L)) True w else rt_pin_write P (uint (mosi_pin L)) False w)"

definition ch32_set_miso :: "'w pins \<Rightarrow> soft_spi_config \<Rightarrow> bool \<Rightarrow> 'w \<Rightarrow> 'w" where
  "ch32_set_miso P L state w = (if state then rt_pin_write P (uint (miso_pin L)) True w else rt_pin_write P (uint (miso_pin L)) False w)"

definition ch32_get_sclk :: "'w pins \<Rightarrow> soft_spi_config \<Rightarrow> 'w \<Rightarrow> bool \<times> 'w" where
  "ch32_get_sclk P L w = rt_pin_read P (uint (sck_pin L)) w"

definition ch32_get_mosi :: "'w pins \<Rightarrow> soft_spi_config \<Rightarrow> 'w \<Rightarrow> bool \<times> 'w" where
  "ch32_get_mosi P L w = rt_pin_read P (uint (mosi_pin L)) w"

definition ch32_get_miso :: "'w pins \<Rightarrow> soft_spi_config \<Rightarrow> 'w \<Rightarrow> bool \<times> 'w" where
  "ch32_get_miso P L w = rt_pin_read P (uint (miso_pin L)) w"

definition ch32_dir_mosi :: "'w pins \<Rightarrow> soft_spi_config \<Rightarrow> bool \<Rightarrow> 'w \<Rightarrow> 'w" where
  "ch32_dir_mosi P L state w =
     (if state then rt_pin_mode P (uint (mosi_pin L)) PIN_MODE_INPUT w else rt_pin_mode P (uint (mosi_pin L)) PIN_MODE_OUTPUT w)"

definition ch32_dir_miso :: "'w pins \<Rightarrow> soft_spi_config \<Rightarrow> bool \<Rightarrow> 'w \<Rightarrow> 'w" where
  "ch32_dir_miso P L state w =
     (if state then rt_pin_mode P (uint (miso_pin L)) PIN_MODE_INPUT w else rt_pin_mode P (uint (miso_pin L)) PIN_MODE_OUTPUT w)"

section \<open>The bus\<close>

record spi_configuration =
  mode :: u8
  data_width :: u8
  max_hz :: u32

abbreviation (input) RT_SPI_CPHA :: u8 where "RT_SPI_CPHA \<equiv> 0x01"
abbreviation (input) RT_SPI_CPOL :: u8 where "RT_SPI_CPOL \<equiv> 0x02"
abbreviation (input) RT_SPI_MSB :: u8 where "RT_SPI_MSB \<equiv> 0x04"
abbreviation (input) RT_SPI_SLAVE :: u8 where "RT_SPI_SLAVE \<equiv> 0x08"
abbreviation (input) RT_SPI_NO_CS :: u8 where "RT_SPI_NO_CS \<equiv> 0x20"
abbreviation (input) RT_SPI_3WIRE :: u8 where "RT_SPI_3WIRE \<equiv> 0x40"

record spi_message =
  msg_send_buf :: "bytes option"
  msg_recv_buf :: "bytes option"
  msg_length :: nat
  cs_take :: bool
  cs_release :: bool

record spi_device =
  dev_id :: nat
  dev_config :: spi_configuration
  cs_pin :: int

text \<open>The bus object: its owner, the configuration in force and the delay of the line operations.\<close>

record spi_bus =
  bus_owner :: "nat option"
  bus_config :: spi_configuration
  delay_us :: u32

definition spi_delay :: "'w pins \<Rightarrow> spi_bus \<Rightarrow> 'w \<Rightarrow> 'w" where
  "spi_delay P o1 w = pin_udelay P (drop_bit 1 (delay_us o1 + 1)) w"

definition spi_delay2 :: "'w pins \<Rightarrow> spi_bus \<Rightarrow> 'w \<Rightarrow> 'w" where
  "spi_delay2 P o1 w = pin_udelay P (delay_us o1) w"

section \<open>Bits\<close>

text \<open>
  The loop over the bits of one item, for items of 8 and of 16 bits: \<open>n\<close> bits are left, \<open>items\<close> items
  follow. With four lines each bit goes both ways.
\<close>

definition has_flag :: "spi_bus \<Rightarrow> u8 \<Rightarrow> bool" where
  "has_flag o1 f \<longleftrightarrow> mode (bus_config o1) AND f \<noteq> 0"

definition tx_bit :: "spi_bus \<Rightarrow> 'a::len word \<Rightarrow> nat \<Rightarrow> bool" where
  "tx_bit o1 tx i =
     (if has_flag o1 RT_SPI_MSB then tx AND push_bit (LENGTH('a) - 1 - i) 1 \<noteq> 0 else tx AND push_bit i 1 \<noteq> 0)"

definition rx_shift :: "spi_bus \<Rightarrow> 'a::len word \<Rightarrow> bool \<Rightarrow> 'a word" where
  "rx_shift o1 rx v =
     (let (rx, b) = (if has_flag o1 RT_SPI_MSB then (push_bit 1 rx, 1) else (drop_bit 1 rx, push_bit (LENGTH('a) - 1) 1)) in
      if v then rx OR b else rx AND NOT b)"

definition closing_edge :: "'w pins \<Rightarrow> soft_spi_config \<Rightarrow> spi_bus \<Rightarrow> nat \<Rightarrow> bool \<Rightarrow> 'w \<Rightarrow> 'w" where
  "closing_edge P L o1 items last_bit w =
     (if \<not> has_flag o1 RT_SPI_CPHA \<or> items \<noteq> 0 \<or> \<not> last_bit then ch32_tog_sclk P L w else w)"

fun bits_4line :: "'w pins \<Rightarrow> soft_spi_config \<Rightarrow> spi_bus \<Rightarrow> nat \<Rightarrow> 'a::len word \<Rightarrow> nat \<Rightarrow> 'a word \<Rightarrow> 'w \<Rightarrow> 'a word \<times> 'w" where
  "bits_4line P L o1 items tx 0 rx w = (rx, w)"
| "bits_4line P L o1 items tx (Suc n) rx w =
     (let w = ch32_set_mosi P L (tx_bit o1 tx (LENGTH('a) - 1 - n)) w;
          w = spi_delay2 P o1 w;
          w = ch32_tog_sclk P L w;
          (v, w) = ch32_get_miso P L w;
          rx = rx_shift o1 rx v;
          w = spi_delay2 P o1 w;
          w = closing_edge P L o1 items (n = 0) w
      in bits_4line P L o1 items tx n rx w)"

text \<open>With three lines the data line is driven or read.\<close>

fun bits_out :: "'w pins \<Rightarrow> soft_spi_config \<Rightarrow> spi_bus \<Rightarrow> nat \<Rightarrow> 'a::len word \<Rightarrow> nat \<Rightarrow> 'w \<Rightarrow> 'w" where
  "bits_out P L o1 items tx 0 w = w"
| "bits_out P L o1 items tx (Suc n) w =
     (let w = ch32_set_mosi P L (tx_bit o1 tx (LENGTH('a) - 1 - n)) w;
          w = spi_delay2 P o1 w;
          w = ch32_tog_sclk P L w;
          w = spi_delay2 P o1 w;
          w = closing_edge P L o1 items (n = 0) w
      in bits_out P L o1 items tx n w)"

fun bits_in :: "'w pins \<Rightarrow> soft_spi_config \<Rightarrow> spi_bus \<Rightarrow> nat \<Rightarrow> nat \<Rightarrow> 'a::len word \<Rightarrow> 'w \<Rightarrow> 'a word \<times> 'w" where
  "bits_in P L o1 items 0 rx w = (rx, w)"
| "bits_in P L o1 items (Suc n) rx w =
     (let w = spi_delay2 P o1 w;
          w = ch32_tog_sclk P L w;
          (v, w) = ch32_get_mosi P L w;
          rx = rx_shift o1 rx v;
          w = spi_delay2 P o1 w;
          w = closing_edge P L o1 items (n = 0) w
      in bits_in P L o1 items n rx w)"

section \<open>Items\<close>

text \<open>An item to send is all ones when there is no send buffer; \<open>k\<close> counts the items done.\<close>

definition tx_item :: "'a::len word list option \<Rightarrow> nat \<Rightarrow> 'a word option" where
  "tx_item send k = (case send of None \<Rightarrow> Some (mask LENGTH('a)) | Some xs \<Rightarrow> rd xs k)"

definition rx_item :: "'a::len word list option \<Rightarrow> nat \<Rightarrow> 'a word \<Rightarrow> 'a word list option option" where
  "rx_item recv k x = (case recv of None \<Rightarrow> Some None | Some xs \<Rightarrow> map_option Some (wr xs k x))"

fun items_4line :: "'w pins \<Rightarrow> soft_spi_config \<Rightarrow> spi_bus \<Rightarrow> 'a::len word list option \<Rightarrow> nat \<Rightarrow> nat
    \<Rightarrow> 'a word list option \<Rightarrow> 'w \<Rightarrow> ('a word list option \<times> 'w) option" where
  "items_4line P L o1 send k 0 recv w = Some (recv, w)"
| "items_4line P L o1 send k (Suc items) recv w = do {
     tx \<leftarrow> tx_item send k;
     let (rx, w) = bits_4line P L o1 items tx LENGTH('a) (mask LENGTH('a)) w;
     recv \<leftarrow> rx_item recv k rx;
     items_4line P L o1 send (k + 1) items recv w }"

fun items_3line :: "'w pins \<Rightarrow> soft_spi_config \<Rightarrow> spi_bus \<Rightarrow> bool \<Rightarrow> 'a::len word list option \<Rightarrow> nat \<Rightarrow> nat
    \<Rightarrow> 'a word list option \<Rightarrow> 'w \<Rightarrow> ('a word list option \<times> 'w) option" where
  "items_3line P L o1 send_flg send k 0 recv w = Some (recv, w)"
| "items_3line P L o1 send_flg send k (Suc items) recv w = do {
     tx \<leftarrow> tx_item send k;
     let (rx, w) = (if send_flg then (tx, bits_out P L o1 items tx LENGTH('a) w)
                    else bits_in P L o1 items LENGTH('a) (mask LENGTH('a)) w);
     recv \<leftarrow> rx_item recv k rx;
     items_3line P L o1 send_flg send (k + 1) items recv w }"

text \<open>The transfers start with \<open>RT_ASSERT(length != 0)\<close>.\<close>

definition spi_xfer_4line_data8 :: "'w pins \<Rightarrow> soft_spi_config \<Rightarrow> spi_bus \<Rightarrow> bytes option \<Rightarrow> bytes option \<Rightarrow> nat \<Rightarrow> 'w
    \<Rightarrow> (bytes option \<times> 'w) option" where
  "spi_xfer_4line_data8 P L o1 send recv len w = (if len = 0 then None else items_4line P L o1 send 0 len recv w)"

definition spi_xfer_4line_data16 :: "'w pins \<Rightarrow> soft_spi_config \<Rightarrow> spi_bus \<Rightarrow> u16 list option \<Rightarrow> u16 list option \<Rightarrow> nat \<Rightarrow> 'w
    \<Rightarrow> (u16 list option \<times> 'w) option" where
  "spi_xfer_4line_data16 P L o1 send recv len w = (if len = 0 then None else items_4line P L o1 send 0 len recv w)"

definition xfer_3line :: "'w pins \<Rightarrow> soft_spi_config \<Rightarrow> spi_bus \<Rightarrow> 'a::len word list option \<Rightarrow> 'a word list option \<Rightarrow> nat \<Rightarrow> 'w
    \<Rightarrow> ('a word list option \<times> 'w) option" where
  "xfer_3line P L o1 send recv len w =
     (if len = 0 then None
      else do {
        let send_flg = (send \<noteq> None \<or> recv = None);
        let w = ch32_dir_mosi P L (\<not> send_flg) w;
        (recv, w) \<leftarrow> items_3line P L o1 send_flg send 0 len recv w;
        Some (recv, if send_flg then w else ch32_dir_mosi P L False w) })"

definition spi_xfer_3line_data8 :: "'w pins \<Rightarrow> soft_spi_config \<Rightarrow> spi_bus \<Rightarrow> bytes option \<Rightarrow> bytes option \<Rightarrow> nat \<Rightarrow> 'w
    \<Rightarrow> (bytes option \<times> 'w) option" where
  "spi_xfer_3line_data8 = xfer_3line"

definition spi_xfer_3line_data16 :: "'w pins \<Rightarrow> soft_spi_config \<Rightarrow> spi_bus \<Rightarrow> u16 list option \<Rightarrow> u16 list option \<Rightarrow> nat \<Rightarrow> 'w
    \<Rightarrow> (u16 list option \<times> 'w) option" where
  "spi_xfer_3line_data16 = xfer_3line"

section \<open>Messages\<close>

text \<open>
  The 16 bit transfers see the byte buffers as buffers of half words, low byte first; a buffer that
  does not hold \<open>len\<close> of them is left by the accesses.
\<close>

fun half_words :: "bytes \<Rightarrow> u16 list" where
  "half_words (a # b # bs) = (ucast a OR push_bit 8 (ucast b)) # half_words bs"
| "half_words bs = []"

definition half_bytes :: "u16 list \<Rightarrow> bytes" where
  "half_bytes hs = concat (map (\<lambda>h. [ucast h, ucast (drop_bit 8 h)]) hs)"

definition put_halves :: "bytes \<Rightarrow> u16 list \<Rightarrow> bytes" where
  "put_halves bs hs = half_bytes hs @ drop (2 * length hs) bs"

definition spi_bit_configure :: "'w pins \<Rightarrow> soft_spi_config \<Rightarrow> spi_configuration \<Rightarrow> spi_bus \<Rightarrow> 'w \<Rightarrow> bool \<times> spi_bus \<times> 'w" where
  "spi_bit_configure P L cfg o1 w =
     (if mode cfg AND RT_SPI_SLAVE \<noteq> 0 then (False, o1, w)
      else
        let w = ch32_set_sclk P L (mode cfg AND RT_SPI_CPOL \<noteq> 0) w;
            o1 = o1\<lparr>delay_us := (if max_hz cfg < 200000 then 1 else 0)\<rparr>
        in (True, o1\<lparr>bus_config := cfg\<rparr>, w))"

definition spi_bit_data :: "'w pins \<Rightarrow> soft_spi_config \<Rightarrow> spi_bus \<Rightarrow> spi_message \<Rightarrow> 'w \<Rightarrow> (bytes option \<times> 'w) option" where
  "spi_bit_data P L o1 m w =
     (let halves = map_option half_words;
          put = (\<lambda>r. case (msg_recv_buf m, r) of (Some bs, Some hs) \<Rightarrow> Some (put_halves bs hs) | _ \<Rightarrow> msg_recv_buf m)
      in if has_flag o1 RT_SPI_3WIRE
         then (if data_width (bus_config o1) \<le> 8
               then spi_xfer_3line_data8 P L o1 (msg_send_buf m) (msg_recv_buf m) (msg_length m) w
               else if data_width (bus_config o1) \<le> 16
               then map_option (map_prod put id) (spi_xfer_3line_data16 P L o1 (halves (msg_send_buf m)) (halves (msg_recv_buf m)) (msg_length m) w)
               else Some (msg_recv_buf m, w))
         else (if data_width (bus_config o1) \<le> 8
               then spi_xfer_4line_data8 P L o1 (msg_send_buf m) (msg_recv_buf m) (msg_length m) w
               else if data_width (bus_config o1) \<le> 16
               then map_option (map_prod put id) (spi_xfer_4line_data16 P L o1 (halves (msg_send_buf m)) (halves (msg_recv_buf m)) (msg_length m) w)
               else Some (msg_recv_buf m, w)))"

definition spi_bit_xfer :: "'w pins \<Rightarrow> soft_spi_config \<Rightarrow> spi_device \<Rightarrow> spi_bus \<Rightarrow> spi_message \<Rightarrow> 'w \<Rightarrow> (spi_message \<times> 'w) option" where
  "spi_bit_xfer P L d o1 m w = do {
     let w = (if cs_take m \<and> cs_pin d \<noteq> PIN_NONE
              then let w = spi_delay P o1 (rt_pin_write P (cs_pin d) False w) in
                   if has_flag o1 RT_SPI_CPHA then ch32_tog_sclk P L (spi_delay P o1 w) else w
              else w);
     (recv, w) \<leftarrow> spi_bit_data P L o1 m w;
     let w = (if cs_release m \<and> cs_pin d \<noteq> PIN_NONE then rt_pin_write P (cs_pin d) True (spi_delay P o1 w) else w);
     Some (m\<lparr>msg_recv_buf := recv\<rparr>, w) }"

text \<open>A transfer never fails on this bus; the messages come back with what was received.\<close>

fun messages_loop :: "'w pins \<Rightarrow> soft_spi_config \<Rightarrow> spi_device \<Rightarrow> spi_bus \<Rightarrow> spi_message list \<Rightarrow> 'w \<Rightarrow> (spi_message list \<times> 'w) option" where
  "messages_loop P L d o1 [] w = Some ([], w)"
| "messages_loop P L d o1 (m # ms) w = do {
     (m, w) \<leftarrow> spi_bit_xfer P L d o1 m w;
     (ms, w) \<leftarrow> messages_loop P L d o1 ms w;
     Some (m # ms, w) }"

definition rt_spi_transfer_message :: "'w pins \<Rightarrow> soft_spi_config \<Rightarrow> spi_device \<Rightarrow> spi_message list \<Rightarrow> spi_bus \<times> 'w
    \<Rightarrow> (spi_message list \<times> spi_bus \<times> 'w) option" where
  "rt_spi_transfer_message P L d ms s =
     (case ms of [] \<Rightarrow> Some ([], s)
      | m # _ \<Rightarrow>
        let (o1, w) = s;
            (ok, o1, w) = (if bus_owner o1 \<noteq> Some (dev_id d)
              then let (ok, o1, w) = spi_bit_configure P L (dev_config d) o1 w in
                   (if ok then (True, o1\<lparr>bus_owner := Some (dev_id d)\<rparr>, w) else (False, o1, w))
              else (True, o1, w))
        in if ok then map_option (\<lambda>(ms, w). (ms, o1, w)) (messages_loop P L d o1 ms w)
           else Some (ms, o1, w))"

definition rt_spi_bit_add_bus :: "'w pins \<Rightarrow> soft_spi_config \<Rightarrow> spi_bus \<Rightarrow> 'w \<Rightarrow> spi_bus \<times> 'w" where
  "rt_spi_bit_add_bus P L o1 w =
     (let o1 = o1\<lparr>bus_owner := None, bus_config := \<lparr>mode = RT_SPI_MSB, data_width = 8, max_hz = 1000000\<rparr>\<rparr>
      in (o1, ch32_set_sclk P L (mode (bus_config o1) AND RT_SPI_CPOL \<noteq> 0) w))"

definition ch32_spi_gpio_init :: "'w pins \<Rightarrow> soft_spi_config \<Rightarrow> 'w \<Rightarrow> 'w" where
  "ch32_spi_gpio_init P L w =
     (let w = rt_pin_mode P (uint (sck_pin L)) PIN_MODE_OUTPUT w;
          w = rt_pin_mode P (uint (miso_pin L)) PIN_MODE_INPUT w;
          w = rt_pin_mode P (uint (mosi_pin L)) PIN_MODE_OUTPUT w;
          w = rt_pin_write P (uint (miso_pin L)) True w;
          w = rt_pin_write P (uint (sck_pin L)) True w
      in rt_pin_write P (uint (mosi_pin L)) True w)"

section \<open>Bits of a byte\<close>

lemmas shift_bits = bit_or_iff bit_and_iff bit_not_iff bit_push_bit_iff bit_drop_bit_eq comp_def bit_of_bool_iff bit_1_iff

lemma shift_step:
  assumes "i < 8"
  shows "push_bit 1 (drop_bit (8 - i) (b :: u8)) OR of_bool (bit b (7 - i)) = drop_bit (7 - i) b"
proof (rule bit_eqI)
  fix n assume "possible_bit TYPE(u8) n"
  then have n: "n < 8" by simp
  have k: "0 < n \<Longrightarrow> 8 - i + (n - 1) = 7 - i + n" using assms by simp
  show "bit (push_bit 1 (drop_bit (8 - i) b) OR of_bool (bit b (7 - i))) n = bit (drop_bit (7 - i) b) n"
  proof (cases "n = 0")
    case False
    with k n show ?thesis by (simp only: shift_bits) auto
  qed (simp only: shift_bits, simp)
qed

lemma drop_eight: "drop_bit 8 (b :: u8) = 0"
  by (intro bit_eqI) (auto simp: bit_simps dest: bit_imp_le_length)

lemma push_eight: "push_bit 8 (b :: u8) = 0"
  by (intro bit_eqI) (auto simp: bit_simps)

lemma top_bit: "i < 8 \<Longrightarrow> bit (push_bit i (b :: u8)) 7 \<longleftrightarrow> bit b (7 - i)"
  by (auto simp: bit_simps)

end
