(* ===== verification/Mfrc522.thy ===== *)
theory Mfrc522
  imports Spi_Bits
begin

text \<open>
  The driver of the card reader's chip (\<open>mfrc522.c\<close>): the registers over the SPI bus, the CRC
  coprocessor, the exchange of a frame with a card and the set-up of the chip.

  A definition takes the reader: the transfer of messages on its bus, its pins and delays, the pins it
  is wired to and the timer of the power-up. \<open>None\<close> is an access outside a buffer or a failed
  assertion: a transfer of no bytes is one.
\<close>

section \<open>Registers and commands\<close>

abbreviation (input) CommandReg :: u8 where "CommandReg \<equiv> 0x02"
abbreviation (input) ComIrqReg :: u8 where "ComIrqReg \<equiv> 0x08"
abbreviation (input) DivIrqReg :: u8 where "DivIrqReg \<equiv> 0x0A"
abbreviation (input) ErrorReg :: u8 where "ErrorReg \<equiv> 0x0C"
abbreviation (input) Status2Reg :: u8 where "Status2Reg \<equiv> 0x10"
abbreviation (input) FIFODataReg :: u8 where "FIFODataReg \<equiv> 0x12"
abbreviation (input) FIFOLevelReg :: u8 where "FIFOLevelReg \<equiv> 0x14"
abbreviation (input) ControlReg :: u8 where "ControlReg \<equiv> 0x18"
abbreviation (input) BitFramingReg :: u8 where "BitFramingReg \<equiv> 0x1A"
abbreviation (input) CollReg :: u8 where "CollReg \<equiv> 0x1C"
abbreviation (input) ModeReg :: u8 where "ModeReg \<equiv> 0x22"
abbreviation (input) TxModeReg :: u8 where "TxModeReg \<equiv> 0x24"
abbreviation (input) RxModeReg :: u8 where "RxModeReg \<equiv> 0x26"
abbreviation (input) TxControlReg :: u8 where "TxControlReg \<equiv> 0x28"
abbreviation (input) TxASKReg :: u8 where "TxASKReg \<equiv> 0x2A"
abbreviation (input) CRCResultRegH :: u8 where "CRCResultRegH \<equiv> 0x42"
abbreviation (input) CRCResultRegL :: u8 where "CRCResultRegL \<equiv> 0x44"
abbreviation (input) ModWidthReg :: u8 where "ModWidthReg \<equiv> 0x48"
abbreviation (input) RFCfgReg :: u8 where "RFCfgReg \<equiv> 0x4C"
abbreviation (input) TModeReg :: u8 where "TModeReg \<equiv> 0x54"
abbreviation (input) TPrescalerReg :: u8 where "TPrescalerReg \<equiv> 0x56"
abbreviation (input) TReloadRegH :: u8 where "TReloadRegH \<equiv> 0x58"
abbreviation (input) TReloadRegL :: u8 where "TReloadRegL \<equiv> 0x5A"
abbreviation (input) AutoTestReg :: u8 where "AutoTestReg \<equiv> 0x6C"
abbreviation (input) VersionReg :: u8 where "VersionReg \<equiv> 0x6E"

abbreviation (input) PCD_Idle :: u8 where "PCD_Idle \<equiv> 0x00"
abbreviation (input) PCD_Mem :: u8 where "PCD_Mem \<equiv> 0x01"
abbreviation (input) PCD_CalcCRC :: u8 where "PCD_CalcCRC \<equiv> 0x03"
abbreviation (input) PCD_Transceive :: u8 where "PCD_Transceive \<equiv> 0x0C"
abbreviation (input) PCD_MFAuthent :: u8 where "PCD_MFAuthent \<equiv> 0x0E"
abbreviation (input) PCD_SoftReset :: u8 where "PCD_SoftReset \<equiv> 0x0F"

datatype StatusCode = STATUS_OK | STATUS_ERROR | STATUS_COLLISION | STATUS_TIMEOUT | STATUS_NO_ROOM
  | STATUS_INTERNAL_ERROR | STATUS_INVALID | STATUS_CRC_WRONG | STATUS_MIFARE_NACK

record 'w reader =
  spi_transfer :: "spi_message list \<Rightarrow> 'w \<Rightarrow> (spi_message list \<times> 'w) option"
  reader_pins :: "'w pins"
  reader_mdelay :: "nat \<Rightarrow> 'w \<Rightarrow> 'w"
  chipSelectPin :: int
  resetPowerDownPin :: int
  start_timer :: "'w \<Rightarrow> 'w"
  timer_flag :: "'w \<Rightarrow> bool \<times> 'w"
  clear_flag :: "'w \<Rightarrow> 'w"

section \<open>The bus\<close>

definition chip_select :: "'w reader \<Rightarrow> bool \<Rightarrow> 'w \<Rightarrow> 'w" where
  "chip_select R level w = rt_pin_write (reader_pins R) (chipSelectPin R) level w"

definition plain_message :: "bytes option \<Rightarrow> bytes option \<Rightarrow> nat \<Rightarrow> spi_message" where
  "plain_message s r len = \<lparr>msg_send_buf = s, msg_recv_buf = r, msg_length = len, cs_take = False, cs_release = False\<rparr>"

definition received :: "spi_message list \<Rightarrow> bytes option" where
  "received ms = (case ms of [] \<Rightarrow> None | _ \<Rightarrow> msg_recv_buf (last ms))"

definition mfrc522_spi_send :: "'w reader \<Rightarrow> bytes \<Rightarrow> nat \<Rightarrow> 'w \<Rightarrow> 'w option" where
  "mfrc522_spi_send R bs len w = map_option snd (spi_transfer R [plain_message (Some bs) None len] w)"

definition mfrc522_spi_recv :: "'w reader \<Rightarrow> bytes \<Rightarrow> nat \<Rightarrow> 'w \<Rightarrow> (bytes \<times> 'w) option" where
  "mfrc522_spi_recv R buf len w = do {
     (ms, w) \<leftarrow> spi_transfer R [plain_message None (Some buf) len] w;
     buf \<leftarrow> received ms;
     Some (buf, w) }"

definition mfrc522_spi_send_then_recv :: "'w reader \<Rightarrow> bytes \<Rightarrow> nat \<Rightarrow> bytes \<Rightarrow> nat \<Rightarrow> 'w \<Rightarrow> (bytes \<times> 'w) option" where
  "mfrc522_spi_send_then_recv R bs send_len buf recv_len w = do {
     (ms, w) \<leftarrow> spi_transfer R [plain_message (Some bs) None send_len, plain_message None (Some buf) recv_len] w;
     buf \<leftarrow> received ms;
     Some (buf, w) }"

section \<open>Registers\<close>

definition PCD_WriteReg_Byte :: "'w reader \<Rightarrow> u8 \<Rightarrow> u8 \<Rightarrow> 'w \<Rightarrow> 'w option" where
  "PCD_WriteReg_Byte R reg v w = do {
     w \<leftarrow> mfrc522_spi_send R [reg, v] 2 (chip_select R False w);
     Some (chip_select R True w) }"

definition PCD_WriteRegister :: "'w reader \<Rightarrow> u8 \<Rightarrow> u8 \<Rightarrow> bytes \<Rightarrow> 'w \<Rightarrow> 'w option" where
  "PCD_WriteRegister R reg count vals w = do {
     w \<leftarrow> mfrc522_spi_send R [reg] 1 (chip_select R False w);
     w \<leftarrow> mfrc522_spi_send R vals (unat count) w;
     Some (chip_select R True w) }"

definition PCD_ReadReg_Byte :: "'w reader \<Rightarrow> u8 \<Rightarrow> 'w \<Rightarrow> (u8 \<times> 'w) option" where
  "PCD_ReadReg_Byte R reg w = do {
     w \<leftarrow> mfrc522_spi_send R [0x80 OR reg] 1 (chip_select R False w);
     (buf, w) \<leftarrow> mfrc522_spi_recv R [0] 1 w;
     v \<leftarrow> rd buf 0;
     Some (v, chip_select R True w) }"

text \<open>A transfer of one byte into \<open>&values[i]\<close>.\<close>

definition recv_at :: "(bytes \<Rightarrow> 'w \<Rightarrow> (bytes \<times> 'w) option) \<Rightarrow> bytes \<Rightarrow> nat \<Rightarrow> 'w \<Rightarrow> (bytes \<times> 'w) option" where
  "recv_at f vals i w = do {
     old \<leftarrow> rd vals i;
     (buf, w) \<leftarrow> f [old] w;
     v \<leftarrow> rd buf 0;
     Some (vals[i := v], w) }"

function read_loop :: "'w reader \<Rightarrow> u8 \<Rightarrow> nat \<Rightarrow> nat \<Rightarrow> nat \<Rightarrow> bytes \<Rightarrow> 'w \<Rightarrow> (bytes \<times> 'w) option" where
  "read_loop R addr off index count vals w =
     (if index \<le> count
      then do {
        (vals, w) \<leftarrow> recv_at (\<lambda>b. mfrc522_spi_send_then_recv R [addr] 1 b 1) vals (off + index) w;
        read_loop R addr off (index + 1) count vals w }
      else Some (vals, w))"
  by auto
termination by (relation "measure (\<lambda>(R, addr, off, index, count, vals, w). count + 1 - index)") auto

declare read_loop.simps [simp del]

text \<open>The values lie in the object \<open>vals\<close> from \<open>off\<close> on.\<close>

definition PCD_ReadRegister :: "'w reader \<Rightarrow> u8 \<Rightarrow> u8 \<Rightarrow> bytes \<Rightarrow> nat \<Rightarrow> u8 \<Rightarrow> 'w \<Rightarrow> (bytes \<times> 'w) option" where
  "PCD_ReadRegister R reg count vals off rxAlign w =
     (if count = 0 then Some (vals, w)
      else do {
        let addr = 0x80 OR reg;
        let w = chip_select R False w;
        let count = count - 1;
        w \<leftarrow> mfrc522_spi_send R [addr] 1 w;
        (index, vals, w) \<leftarrow> (if rxAlign \<noteq> 0
          then do {
            let msk = push_bit (unat rxAlign) 0xFF;
            (buf, w) \<leftarrow> mfrc522_spi_send_then_recv R [addr] 1 [0] 1 w;
            v \<leftarrow> rd buf 0;
            old \<leftarrow> rd vals off;
            Some (1, vals[off := (old AND NOT msk) OR (v AND msk)], w) }
          else Some (0, vals, w));
        (vals, w) \<leftarrow> recv_at (\<lambda>b. mfrc522_spi_recv R b 1) vals (off + index) w;
        (vals, w) \<leftarrow> read_loop R addr off (index + 1) (unat count) vals w;
        (_, w) \<leftarrow> mfrc522_spi_recv R [0] 1 w;
        Some (vals, chip_select R True w) })"

definition PCD_SetRegisterBitMask :: "'w reader \<Rightarrow> u8 \<Rightarrow> u8 \<Rightarrow> 'w \<Rightarrow> 'w option" where
  "PCD_SetRegisterBitMask R reg msk w = do {
     (tmp, w) \<leftarrow> PCD_ReadReg_Byte R reg w;
     PCD_WriteReg_Byte R reg (tmp OR msk) w }"

definition PCD_ClearRegisterBitMask :: "'w reader \<Rightarrow> u8 \<Rightarrow> u8 \<Rightarrow> 'w \<Rightarrow> 'w option" where
  "PCD_ClearRegisterBitMask R reg msk w = do {
     (tmp, w) \<leftarrow> PCD_ReadReg_Byte R reg w;
     PCD_WriteReg_Byte R reg (tmp AND NOT msk) w }"

section \<open>The CRC coprocessor\<close>

text \<open>The result is what is written to the caller's two bytes: nothing when the coprocessor is silent.\<close>

fun crc_poll :: "'w reader \<Rightarrow> nat \<Rightarrow> 'w \<Rightarrow> (StatusCode \<times> bytes \<times> 'w) option" where
  "crc_poll R 0 w = Some (STATUS_TIMEOUT, [], w)"
| "crc_poll R (Suc i) w = do {
     (n, w) \<leftarrow> PCD_ReadReg_Byte R DivIrqReg w;
     if n AND 0x04 \<noteq> 0
     then do {
       w \<leftarrow> PCD_WriteReg_Byte R CommandReg PCD_Idle w;
       (l, w) \<leftarrow> PCD_ReadReg_Byte R CRCResultRegL w;
       (h, w) \<leftarrow> PCD_ReadReg_Byte R CRCResultRegH w;
       Some (STATUS_OK, [l, h], w) }
     else crc_poll R i w }"

definition PCD_CalculateCRC :: "'w reader \<Rightarrow> bytes \<Rightarrow> u8 \<Rightarrow> 'w \<Rightarrow> (StatusCode \<times> bytes \<times> 'w) option" where
  "PCD_CalculateCRC R data len w = do {
     w \<leftarrow> PCD_WriteReg_Byte R CommandReg PCD_Idle w;
     w \<leftarrow> PCD_WriteReg_Byte R DivIrqReg 0x04 w;
     w \<leftarrow> PCD_WriteReg_Byte R FIFOLevelReg 0x80 w;
     w \<leftarrow> PCD_WriteRegister R FIFODataReg len data w;
     w \<leftarrow> PCD_WriteReg_Byte R CommandReg PCD_CalcCRC w;
     crc_poll R 5000 w }"

section \<open>A frame\<close>

fun picc_poll :: "'w reader \<Rightarrow> u8 \<Rightarrow> nat \<Rightarrow> 'w \<Rightarrow> (bool \<times> 'w) option" where
  "picc_poll R waitIRq 0 w = Some (False, w)"
| "picc_poll R waitIRq (Suc i) w = do {
     (n, w) \<leftarrow> PCD_ReadReg_Byte R ComIrqReg w;
     if n AND waitIRq \<noteq> 0 then Some (True, w)
     else do {
       w \<leftarrow> (if n AND 0x01 \<noteq> 0 then PCD_WriteReg_Byte R ComIrqReg 0x7F w else Some w);
       picc_poll R waitIRq i w } }"

text \<open>
  The caller's buffer for the answer: the object, the place in it and \<open>*backLen\<close>; none when the caller
  gives a null pointer. The result is the status with the buffer and \<open>*validBits\<close> as they are left.
\<close>

type_synonym back_data = "(bytes \<times> nat \<times> u8) option"

definition check_crc :: "'w reader \<Rightarrow> bytes \<Rightarrow> nat \<Rightarrow> u8 \<Rightarrow> u8 \<Rightarrow> 'w \<Rightarrow> (StatusCode \<times> 'w) option" where
  "check_crc R buf off backLen vbits w =
     (if backLen = 1 \<and> vbits = 4 then Some (STATUS_MIFARE_NACK, w)
      else if backLen < 2 \<or> vbits \<noteq> 0 then Some (STATUS_CRC_WRONG, w)
      else do {
        data \<leftarrow> rd_block buf off (unat backLen);
        (status, crc, w) \<leftarrow> PCD_CalculateCRC R data (backLen - 2) w;
        if status \<noteq> STATUS_OK then Some (status, w)
        else do {
          a \<leftarrow> rd data (unat backLen - 2);
          b \<leftarrow> rd data (unat backLen - 1);
          Some (if [a, b] \<noteq> crc then STATUS_CRC_WRONG else STATUS_OK, w) } })"

definition read_answer :: "'w reader \<Rightarrow> u8 \<Rightarrow> back_data \<Rightarrow> u8 option \<Rightarrow> u8 \<Rightarrow> bool \<Rightarrow> 'w
    \<Rightarrow> (StatusCode \<times> back_data \<times> u8 option \<times> 'w) option" where
  "read_answer R errorRegValue dest validBits rxAlign checkCRC w =
     (case dest of
        None \<Rightarrow> Some (if errorRegValue AND 0x08 \<noteq> 0 then STATUS_COLLISION else STATUS_OK, dest, validBits, w)
      | Some (buf, off, backLen) \<Rightarrow> do {
          (n, w) \<leftarrow> PCD_ReadReg_Byte R FIFOLevelReg w;
          if n > backLen then Some (STATUS_NO_ROOM, dest, validBits, w)
          else do {
            (buf, w) \<leftarrow> PCD_ReadRegister R FIFODataReg n buf off rxAlign w;
            (v, w) \<leftarrow> PCD_ReadReg_Byte R ControlReg w;
            let vbits = v AND 0x07;
            let validBits = map_option (\<lambda>_. vbits) validBits;
            if errorRegValue AND 0x08 \<noteq> 0 then Some (STATUS_COLLISION, Some (buf, off, n), validBits, w)
            else if checkCRC
            then map_option (\<lambda>(status, w). (status, Some (buf, off, n), validBits, w)) (check_crc R buf off n vbits w)
            else Some (STATUS_OK, Some (buf, off, n), validBits, w) } })"

definition PCD_CommunicateWithPICC :: "'w reader \<Rightarrow> u8 \<Rightarrow> u8 \<Rightarrow> bytes \<Rightarrow> u8 \<Rightarrow> back_data \<Rightarrow> u8 option \<Rightarrow> u8 \<Rightarrow> bool \<Rightarrow> 'w
    \<Rightarrow> (StatusCode \<times> back_data \<times> u8 option \<times> 'w) option" where
  "PCD_CommunicateWithPICC R command waitIRq sendData sendLen dest validBits rxAlign checkCRC w = do {
     let txLastBits = (case validBits of Some v \<Rightarrow> v | None \<Rightarrow> 0);
     let bitFraming = push_bit 4 rxAlign + txLastBits;
     w \<leftarrow> PCD_WriteReg_Byte R CommandReg PCD_Idle w;
     w \<leftarrow> PCD_WriteReg_Byte R ComIrqReg 0x7F w;
     w \<leftarrow> PCD_WriteReg_Byte R FIFOLevelReg 0x80 w;
     w \<leftarrow> PCD_WriteRegister R FIFODataReg sendLen sendData w;
     w \<leftarrow> PCD_WriteReg_Byte R BitFramingReg bitFraming w;
     w \<leftarrow> PCD_WriteReg_Byte R CommandReg command w;
     w \<leftarrow> (if command = PCD_Transceive then PCD_SetRegisterBitMask R BitFramingReg 0x80 w else Some w);
     (finished, w) \<leftarrow> picc_poll R waitIRq 2000 w;
     if \<not> finished then Some (STATUS_TIMEOUT, dest, validBits, w)
     else do {
       (errorRegValue, w) \<leftarrow> PCD_ReadReg_Byte R ErrorReg w;
       if errorRegValue AND 0x13 \<noteq> 0 then Some (STATUS_ERROR, dest, validBits, w)
       else read_answer R errorRegValue dest validBits rxAlign checkCRC w } }"

definition PCD_TransceiveData :: "'w reader \<Rightarrow> bytes \<Rightarrow> u8 \<Rightarrow> back_data \<Rightarrow> u8 option \<Rightarrow> u8 \<Rightarrow> bool \<Rightarrow> 'w
    \<Rightarrow> (StatusCode \<times> back_data \<times> u8 option \<times> 'w) option" where
  "PCD_TransceiveData R = PCD_CommunicateWithPICC R PCD_Transceive 0x30"

section \<open>Setting the chip up\<close>

fun reset_wait :: "'w reader \<Rightarrow> nat \<Rightarrow> 'w \<Rightarrow> 'w option" where
  "reset_wait R 0 w = Some w"
| "reset_wait R (Suc n) w = do {
     (v, w) \<leftarrow> PCD_ReadReg_Byte R CommandReg (reader_mdelay R 50 w);
     if v AND 0x10 \<noteq> 0 then reset_wait R n w else Some w }"

text \<open>At most three waits.\<close>

definition PCD_Reset :: "'w reader \<Rightarrow> 'w \<Rightarrow> 'w option" where
  "PCD_Reset R w = do {
     w \<leftarrow> PCD_WriteReg_Byte R CommandReg PCD_SoftReset w;
     reset_wait R 3 w }"

definition PCD_AntennaOn :: "'w reader \<Rightarrow> 'w \<Rightarrow> 'w option" where
  "PCD_AntennaOn R w = do {
     (v, w) \<leftarrow> PCD_ReadReg_Byte R TxControlReg w;
     if v AND 0x03 \<noteq> 0x03 then PCD_WriteReg_Byte R TxControlReg (v OR 0x03) w else Some w }"

definition PCD_AntennaOff :: "'w reader \<Rightarrow> 'w \<Rightarrow> 'w option" where
  "PCD_AntennaOff R w = PCD_ClearRegisterBitMask R TxControlReg 0x03 w"

definition PCD_GetAntennaGain :: "'w reader \<Rightarrow> 'w \<Rightarrow> (u8 \<times> 'w) option" where
  "PCD_GetAntennaGain R w = do {
     (v, w) \<leftarrow> PCD_ReadReg_Byte R RFCfgReg w;
     Some (v AND 0x70, w) }"

definition PCD_SetAntennaGain :: "'w reader \<Rightarrow> u8 \<Rightarrow> 'w \<Rightarrow> 'w option" where
  "PCD_SetAntennaGain R msk w = do {
     (v, w) \<leftarrow> PCD_GetAntennaGain R w;
     if v \<noteq> msk
     then do {
       w \<leftarrow> PCD_ClearRegisterBitMask R RFCfgReg 0x70 w;
       PCD_SetRegisterBitMask R RFCfgReg (msk AND 0x70) w }
     else Some w }"

definition PCD_Init :: "'w reader \<Rightarrow> 'w \<Rightarrow> 'w option" where
  "PCD_Init R w = do {
     let P = reader_pins R;
     let rst = resetPowerDownPin R;
     let w = chip_select R True w;
     let (hardReset, w) = (if rst < 255
       then let w = rt_pin_mode P rst PIN_MODE_INPUT_PULLUP w;
                (high, w) = rt_pin_read P rst w in
            if \<not> high
            then let w = rt_pin_mode P rst PIN_MODE_OUTPUT w;
                     w = rt_pin_write P rst False w;
                     w = pin_udelay P 2 w;
                     w = rt_pin_write P rst True w
                 in (True, reader_mdelay R 50 w)
            else (False, w)
       else (False, w));
     w \<leftarrow> (if hardReset then Some w else PCD_Reset R w);
     w \<leftarrow> PCD_WriteReg_Byte R TxModeReg 0x00 w;
     w \<leftarrow> PCD_WriteReg_Byte R RxModeReg 0x00 w;
     w \<leftarrow> PCD_WriteReg_Byte R ModWidthReg 0x26 w;
     w \<leftarrow> PCD_WriteReg_Byte R TModeReg 0x80 w;
     w \<leftarrow> PCD_WriteReg_Byte R TPrescalerReg 0xA9 w;
     w \<leftarrow> PCD_WriteReg_Byte R TReloadRegH 0x03 w;
     w \<leftarrow> PCD_WriteReg_Byte R TReloadRegL 0xE8 w;
     w \<leftarrow> PCD_WriteReg_Byte R TxASKReg 0x40 w;
     w \<leftarrow> PCD_WriteReg_Byte R ModeReg 0x3D w;
     PCD_AntennaOn R w }"

definition PCD_SoftPowerDown :: "'w reader \<Rightarrow> 'w \<Rightarrow> 'w option" where
  "PCD_SoftPowerDown R w = do {
     (v, w) \<leftarrow> PCD_ReadReg_Byte R CommandReg w;
     PCD_WriteReg_Byte R CommandReg (v OR 0x10) w }"

text \<open>The wait ends when the chip is up or the timer's flag is seen; the loop itself has no bound.\<close>

partial_function (option) power_up_wait :: "'w reader \<Rightarrow> 'w \<Rightarrow> 'w option" where
  "power_up_wait R w =
     (let (flag, w) = timer_flag R w in
      if flag then Some w
      else Option.bind (PCD_ReadReg_Byte R CommandReg w)
        (\<lambda>(v, w). if v AND 0x10 = 0 then Some (clear_flag R w) else power_up_wait R w))"

definition PCD_SoftPowerUp :: "'w reader \<Rightarrow> 'w \<Rightarrow> 'w option" where
  "PCD_SoftPowerUp R w = do {
     (v, w) \<leftarrow> PCD_ReadReg_Byte R CommandReg w;
     w \<leftarrow> PCD_WriteReg_Byte R CommandReg (v AND NOT 0x10) w;
     power_up_wait R (start_timer R w) }"

end
