(* ===== verification/Picc.thy ===== *)
theory Picc
  imports Mfrc522
begin

text \<open>
  The commands to a card (\<open>mfrc522.c\<close>): the request, the selection with its anticollision loop, the
  halt, and what the reader's thread calls. The loops of the selection are functions of the state they
  change; one turn of each is a definition of its own, with what it does next.
\<close>

abbreviation (input) PICC_CMD_REQA :: u8 where "PICC_CMD_REQA \<equiv> 0x26"
abbreviation (input) PICC_CMD_WUPA :: u8 where "PICC_CMD_WUPA \<equiv> 0x52"
abbreviation (input) PICC_CMD_CT :: u8 where "PICC_CMD_CT \<equiv> 0x88"
abbreviation (input) PICC_CMD_SEL_CL1 :: u8 where "PICC_CMD_SEL_CL1 \<equiv> 0x93"
abbreviation (input) PICC_CMD_SEL_CL2 :: u8 where "PICC_CMD_SEL_CL2 \<equiv> 0x95"
abbreviation (input) PICC_CMD_SEL_CL3 :: u8 where "PICC_CMD_SEL_CL3 \<equiv> 0x97"
abbreviation (input) PICC_CMD_HLTA :: u8 where "PICC_CMD_HLTA \<equiv> 0x50"

record uid =
  uid_size :: u8
  uid_byte :: bytes
  sak :: u8

section \<open>Request and halt\<close>

definition PICC_REQA_or_WUPA :: "'w reader \<Rightarrow> u8 \<Rightarrow> bytes option \<Rightarrow> u8 \<Rightarrow> 'w \<Rightarrow> (StatusCode \<times> back_data \<times> 'w) option" where
  "PICC_REQA_or_WUPA R command bufferATQA bufferSize w =
     (case bufferATQA of
        None \<Rightarrow> Some (STATUS_NO_ROOM, None, w)
      | Some buf \<Rightarrow>
          if bufferSize < 2 then Some (STATUS_NO_ROOM, Some (buf, 0, bufferSize), w)
          else do {
            w \<leftarrow> PCD_ClearRegisterBitMask R CollReg 0x80 w;
            (status, dest, validBits, w) \<leftarrow> PCD_TransceiveData R [command] 1 (Some (buf, 0, bufferSize)) (Some 7) 0 False w;
            if status \<noteq> STATUS_OK then Some (status, dest, w)
            else (case dest of
                Some (_, _, n) \<Rightarrow> Some (if n \<noteq> 2 \<or> validBits \<noteq> Some 0 then STATUS_ERROR else STATUS_OK, dest, w)
              | None \<Rightarrow> None) })"

definition PICC_RequestA :: "'w reader \<Rightarrow> bytes option \<Rightarrow> u8 \<Rightarrow> 'w \<Rightarrow> (StatusCode \<times> back_data \<times> 'w) option" where
  "PICC_RequestA R = PICC_REQA_or_WUPA R PICC_CMD_REQA"

definition PICC_WakeupA :: "'w reader \<Rightarrow> bytes option \<Rightarrow> u8 \<Rightarrow> 'w \<Rightarrow> (StatusCode \<times> back_data \<times> 'w) option" where
  "PICC_WakeupA R = PICC_REQA_or_WUPA R PICC_CMD_WUPA"

definition PICC_HaltA :: "'w reader \<Rightarrow> 'w \<Rightarrow> (StatusCode \<times> 'w) option" where
  "PICC_HaltA R w = do {
     let buffer = [PICC_CMD_HLTA, 0];
     (result, crc, w) \<leftarrow> PCD_CalculateCRC R buffer 2 w;
     if result \<noteq> STATUS_OK then Some (result, w)
     else do {
       (result, _, _, w) \<leftarrow> PCD_TransceiveData R (buffer @ crc) 4 None None 0 False w;
       Some (if result = STATUS_TIMEOUT then STATUS_OK
             else if result = STATUS_OK then STATUS_ERROR else result, w) } }"

section \<open>Selection\<close>

datatype flow = Return StatusCode | Again | Finished

text \<open>
  The locals of a cascade level. \<open>currentLevelKnownBits\<close>, an \<open>int8_t\<close>, stays between 0 and 88; the
  response lies in \<open>buffer\<close> from \<open>responseBuffer\<close> on.
\<close>

record select =
  buffer :: bytes
  currentLevelKnownBits :: nat
  responseBuffer :: nat
  responseLength :: u8
  txLastBits :: u8

definition prepare_select :: "'w reader \<Rightarrow> select \<Rightarrow> 'w \<Rightarrow> (StatusCode \<times> select \<times> u8 \<times> 'w) option" where
  "prepare_select R s w = do {
     b \<leftarrow> wr (buffer s) 1 0x70;
     b2 \<leftarrow> rd b 2; b3 \<leftarrow> rd b 3; b4 \<leftarrow> rd b 4; b5 \<leftarrow> rd b 5;
     b \<leftarrow> wr b 6 (b2 XOR b3 XOR b4 XOR b5);
     (result, crc, w) \<leftarrow> PCD_CalculateCRC R b 7 w;
     b \<leftarrow> blit b 7 crc;
     Some (result, s\<lparr>buffer := b, txLastBits := 0, responseBuffer := 6, responseLength := 3\<rparr>, 9, w) }"

definition prepare_anticollision :: "select \<Rightarrow> (select \<times> u8) option" where
  "prepare_anticollision s = do {
     let known = currentLevelKnownBits s;
     let tx = word_of_nat (known mod 8);
     let index = 2 + known div 8;
     b \<leftarrow> wr (buffer s) 1 (word_of_nat (index * 16) + tx);
     Some (s\<lparr>buffer := b, txLastBits := tx, responseBuffer := index, responseLength := word_of_nat (9 - index)\<rparr>,
       word_of_nat (index + (if tx \<noteq> 0 then 1 else 0))) }"

text \<open>More than one card answered: the card with the bit set is chosen.\<close>

definition on_collision :: "'w reader \<Rightarrow> select \<Rightarrow> 'w \<Rightarrow> (flow \<times> select \<times> 'w) option" where
  "on_collision R s w = do {
     (valueOfCollReg, w) \<leftarrow> PCD_ReadReg_Byte R CollReg w;
     if valueOfCollReg AND 0x20 \<noteq> 0 then Some (Return STATUS_COLLISION, s, w)
     else do {
       let pos = unat (valueOfCollReg AND 0x1F);
       let collisionPos = (if pos = 0 then 32 else pos);
       if collisionPos \<le> currentLevelKnownBits s then Some (Return STATUS_INTERNAL_ERROR, s, w)
       else do {
         let count = collisionPos mod 8;
         let checkBit = (collisionPos - 1) mod 8;
         let index = 1 + collisionPos div 8 + (if count \<noteq> 0 then 1 else 0);
         old \<leftarrow> rd (buffer s) index;
         b \<leftarrow> wr (buffer s) index (old OR push_bit checkBit 1);
         Some (Again, s\<lparr>currentLevelKnownBits := collisionPos, buffer := b\<rparr>, w) } } }"

text \<open>The frame is sent, and the answer decides what comes next.\<close>

definition select_exchange :: "'w reader \<Rightarrow> select \<Rightarrow> u8 \<Rightarrow> 'w \<Rightarrow> (flow \<times> select \<times> 'w) option" where
  "select_exchange R s bufferUsed w = do {
     let rxAlign = txLastBits s;
     w \<leftarrow> PCD_WriteReg_Byte R BitFramingReg (push_bit 4 rxAlign + txLastBits s) w;
     (result, dest, validBits, w) \<leftarrow> PCD_TransceiveData R (buffer s) bufferUsed
       (Some (buffer s, responseBuffer s, responseLength s)) (Some (txLastBits s)) rxAlign False w;
     (b, _, n) \<leftarrow> dest;
     tx \<leftarrow> validBits;
     let s = s\<lparr>buffer := b, responseLength := n, txLastBits := tx\<rparr>;
     if result = STATUS_COLLISION then on_collision R s w
     else if result \<noteq> STATUS_OK then Some (Return result, s, w)
     else if currentLevelKnownBits s \<ge> 32 then Some (Finished, s, w)
     else Some (Again, s\<lparr>currentLevelKnownBits := 32\<rparr>, w) }"

text \<open>One turn of the anticollision loop.\<close>

definition select_turn :: "'w reader \<Rightarrow> select \<Rightarrow> 'w \<Rightarrow> (flow \<times> select \<times> 'w) option" where
  "select_turn R s w = do {
     (result, s, bufferUsed, w) \<leftarrow> (if currentLevelKnownBits s \<ge> 32 then prepare_select R s w
       else do { (s, n) \<leftarrow> prepare_anticollision s; Some (STATUS_OK, s, n, w) });
     if result \<noteq> STATUS_OK then Some (Return result, s, w) else select_exchange R s bufferUsed w }"

lemma select_turn_progress:
  "select_turn R s w = Some (Again, s', w') \<Longrightarrow> currentLevelKnownBits s < currentLevelKnownBits s' \<and> currentLevelKnownBits s < 32"
proof -
  have p: "prepare_select R s w = Some (r, s1, n, w1) \<Longrightarrow> currentLevelKnownBits s1 = currentLevelKnownBits s" for s1 r n w w1
    by (auto simp: prepare_select_def Let_def bind_eq_Some_conv split: prod.splits)
  have a: "prepare_anticollision s = Some (s1, n) \<Longrightarrow> currentLevelKnownBits s1 = currentLevelKnownBits s" for s1 n
    by (auto simp: prepare_anticollision_def Let_def bind_eq_Some_conv)
  have five: "unat ((v :: u8) AND 0x1F) < 32" for v :: u8
  proof -
    have "v AND 0x1F \<le> 0x1F" by (rule word_and_le1)
    then show ?thesis by (simp add: word_le_nat_alt)
  qed
  have c: "on_collision R s1 w1 = Some (Again, s2, w2) \<Longrightarrow>
      currentLevelKnownBits s1 < currentLevelKnownBits s2 \<and> currentLevelKnownBits s1 < 32" for s1 s2 w1 w2
  proof -
    assume h: "on_collision R s1 w1 = Some (Again, s2, w2)"
    then obtain v w where "PCD_ReadReg_Byte R CollReg w1 = Some (v, w)" by (auto simp: on_collision_def bind_eq_Some_conv)
    with h five [of v] show ?thesis
      by (auto simp: on_collision_def Let_def bind_eq_Some_conv split: if_splits)
  qed
  show "select_turn R s w = Some (Again, s', w') \<Longrightarrow> currentLevelKnownBits s < currentLevelKnownBits s' \<and> currentLevelKnownBits s < 32"
    by (auto simp: select_turn_def select_exchange_def Let_def bind_eq_Some_conv dest!: p a c split: if_splits)
qed

function select_loop :: "'w reader \<Rightarrow> select \<Rightarrow> 'w \<Rightarrow> (flow \<times> select \<times> 'w) option" where
  "select_loop R s w =
     (case select_turn R s w of
        Some (Again, s, w) \<Rightarrow> select_loop R s w
      | x \<Rightarrow> x)"
  by auto
termination
  by (relation "measure (\<lambda>(R, s, w). 33 - currentLevelKnownBits s)")
     (auto dest: select_turn_progress)

declare select_loop.simps [simp del]

text \<open>The known bits of a level, with its \<open>SEL\<close> byte and its first index in \<open>uidByte\<close>.\<close>

definition level_start :: "uid \<Rightarrow> u8 \<Rightarrow> nat \<Rightarrow> bytes \<Rightarrow> (bytes \<times> nat) option" where
  "level_start u validBits level b = do {
     let (sel, useCascadeTag) =
       (if level = 1 then (PICC_CMD_SEL_CL1, validBits \<noteq> 0 \<and> uid_size u > 4)
        else if level = 2 then (PICC_CMD_SEL_CL2, validBits \<noteq> 0 \<and> uid_size u > 7)
        else (PICC_CMD_SEL_CL3, False));
     let uidIndex = 3 * (level - 1);
     b \<leftarrow> wr b 0 sel;
     let known = unat validBits - 8 * uidIndex;
     let index = (if useCascadeTag then 3 else 2);
     b \<leftarrow> (if useCascadeTag then wr b 2 PICC_CMD_CT else Some b);
     let bytesToCopy = min (known div 8 + (if known mod 8 \<noteq> 0 then 1 else 0)) (if useCascadeTag then 3 else 4);
     bits \<leftarrow> rd_block (uid_byte u) uidIndex bytesToCopy;
     b \<leftarrow> blit b index bits;
     Some (b, if useCascadeTag then known + 8 else known) }"

text \<open>The bytes a level has found, and its answer: the cascade bit asks for the next level.\<close>

definition level_end :: "'w reader \<Rightarrow> uid \<Rightarrow> nat \<Rightarrow> select \<Rightarrow> 'w \<Rightarrow> (flow \<times> uid \<times> bytes \<times> 'w) option" where
  "level_end R u level s w = do {
     b2 \<leftarrow> rd (buffer s) 2;
     found \<leftarrow> (if b2 = PICC_CMD_CT then rd_block (buffer s) 3 3 else rd_block (buffer s) 2 4);
     ub \<leftarrow> blit (uid_byte u) (3 * (level - 1)) found;
     let u = u\<lparr>uid_byte := ub\<rparr>;
     if responseLength s \<noteq> 3 \<or> txLastBits s \<noteq> 0 then Some (Return STATUS_ERROR, u, buffer s, w)
     else do {
       answer \<leftarrow> rd_block (buffer s) (responseBuffer s) 3;
       (result, crc, w) \<leftarrow> PCD_CalculateCRC R answer 1 w;
       b \<leftarrow> blit (buffer s) 2 crc;
       if result \<noteq> STATUS_OK then Some (Return result, u, b, w)
       else do {
         c0 \<leftarrow> rd b 2; c1 \<leftarrow> rd b 3;
         a0 \<leftarrow> rd b (responseBuffer s); a1 \<leftarrow> rd b (responseBuffer s + 1); a2 \<leftarrow> rd b (responseBuffer s + 2);
         Some (if c0 \<noteq> a1 \<or> c1 \<noteq> a2 then (Return STATUS_CRC_WRONG, u, b, w)
               else if a0 AND 0x04 \<noteq> 0 then (Again, u, b, w)
               else (Finished, u\<lparr>sak := a0\<rparr>, b, w)) } } }"

definition select_level :: "'w reader \<Rightarrow> uid \<Rightarrow> u8 \<Rightarrow> nat \<Rightarrow> bytes \<Rightarrow> 'w \<Rightarrow> (flow \<times> uid \<times> bytes \<times> 'w) option" where
  "select_level R u validBits level b w = do {
     (b, known) \<leftarrow> level_start u validBits level b;
     (flow, s, w) \<leftarrow> select_loop R \<lparr>buffer = b, currentLevelKnownBits = known, responseBuffer = 0, responseLength = 0, txLastBits = 0\<rparr> w;
     (case flow of
        Return status \<Rightarrow> Some (Return status, u, buffer s, w)
      | _ \<Rightarrow> level_end R u level s w) }"

function cascade_loop :: "'w reader \<Rightarrow> uid \<Rightarrow> u8 \<Rightarrow> nat \<Rightarrow> bytes \<Rightarrow> 'w \<Rightarrow> (StatusCode \<times> uid \<times> 'w) option" where
  "cascade_loop R u validBits level b w =
     (if level > 3 then Some (STATUS_INTERNAL_ERROR, u, w)
      else case select_level R u validBits level b w of
        None \<Rightarrow> None
      | Some (Return status, u, b, w) \<Rightarrow> Some (status, u, w)
      | Some (Again, u, b, w) \<Rightarrow> cascade_loop R u validBits (level + 1) b w
      | Some (Finished, u, b, w) \<Rightarrow> Some (STATUS_OK, u\<lparr>uid_size := word_of_nat (3 * level + 1)\<rparr>, w))"
  by auto
termination by (relation "measure (\<lambda>(R, u, v, level, b, w). 4 - level)") auto

declare cascade_loop.simps [simp del]

definition PICC_Select :: "'w reader \<Rightarrow> uid \<Rightarrow> u8 \<Rightarrow> 'w \<Rightarrow> (StatusCode \<times> uid \<times> 'w) option" where
  "PICC_Select R u validBits w =
     (if validBits > 80 then Some (STATUS_INVALID, u, w)
      else do {
        w \<leftarrow> PCD_ClearRegisterBitMask R CollReg 0x80 w;
        cascade_loop R u validBits 1 (replicate 9 0) w })"

section \<open>What the thread calls\<close>

definition PICC_IsNewCardPresent :: "'w reader \<Rightarrow> 'w \<Rightarrow> (bool \<times> 'w) option" where
  "PICC_IsNewCardPresent R w = do {
     w \<leftarrow> PCD_WriteReg_Byte R TxModeReg 0x00 w;
     w \<leftarrow> PCD_WriteReg_Byte R RxModeReg 0x00 w;
     w \<leftarrow> PCD_WriteReg_Byte R ModWidthReg 0x26 w;
     (result, _, w) \<leftarrow> PICC_RequestA R (Some [0, 0]) 2 w;
     let w = reader_mdelay R 1 w;
     Some (result = STATUS_OK \<or> result = STATUS_COLLISION, w) }"

definition PICC_ReadCardSerial :: "'w reader \<Rightarrow> uid \<Rightarrow> 'w \<Rightarrow> (bool \<times> uid \<times> 'w) option" where
  "PICC_ReadCardSerial R u w = do {
     (result, u, w) \<leftarrow> PICC_Select R u 0 w;
     Some (result = STATUS_OK, u, w) }"

end
