(* ===== verification/Reader_Simulation.thy ===== *)
theory Reader_Simulation
  imports Picc
begin

text \<open>
  Two readers on related worlds do the same. Everything the driver does goes through the transfer of
  messages, the select line and the delay; when these answer alike on related worlds and keep them related,
  so does every function of the driver, up to the search for a card and the reading of its number.
\<close>

locale same_bus =
  fixes R :: "'w reader" and R' :: "'v reader" and rel :: "'w \<Rightarrow> 'v \<Rightarrow> bool"
  assumes same_transfer: "rel w v \<Longrightarrow> \<forall>m\<in>set ms. \<not> cs_take m \<and> \<not> cs_release m \<Longrightarrow>
      rel_option (rel_prod (=) rel) (spi_transfer R ms w) (spi_transfer R' ms v)"
    and same_select: "rel w v \<Longrightarrow> rel (chip_select R high w) (chip_select R' high v)"
    and same_delay: "rel w v \<Longrightarrow> rel (reader_mdelay R n w) (reader_mdelay R' n v)"
begin

text \<open>Results with their worlds: none, one, two or three values.\<close>

abbreviation "same0 \<equiv> rel_option rel"
abbreviation "same1 \<equiv> rel_option (rel_prod (=) rel)"
abbreviation "same2 \<equiv> rel_option (rel_prod (=) (rel_prod (=) rel))"
abbreviation "same3 \<equiv> rel_option (rel_prod (=) (rel_prod (=) (rel_prod (=) rel)))"

lemma bind0: "same0 m m' \<Longrightarrow> (\<And>w v. rel w v \<Longrightarrow> rel_option B (f w) (f' v)) \<Longrightarrow> rel_option B (Option.bind m f) (Option.bind m' f')"
  by (auto elim!: option.rel_cases)

lemma bind1: "same1 m m' \<Longrightarrow> (\<And>a w v. rel w v \<Longrightarrow> rel_option B (f (a, w)) (f' (a, v))) \<Longrightarrow>
    rel_option B (Option.bind m f) (Option.bind m' f')"
  by (auto elim!: option.rel_cases)

lemma bind2: "same2 m m' \<Longrightarrow> (\<And>a b w v. rel w v \<Longrightarrow> rel_option B (f (a, b, w)) (f' (a, b, v))) \<Longrightarrow>
    rel_option B (Option.bind m f) (Option.bind m' f')"
  by (auto elim!: option.rel_cases)

lemma bind3: "same3 m m' \<Longrightarrow> (\<And>a b c w v. rel w v \<Longrightarrow> rel_option B (f (a, b, c, w)) (f' (a, b, c, v))) \<Longrightarrow>
    rel_option B (Option.bind m f) (Option.bind m' f')"
  by (auto elim!: option.rel_cases)

lemma bind_pure: "(\<And>x. rel_option B (f x) (f' x)) \<Longrightarrow> rel_option B (Option.bind m f) (Option.bind m f')"
  by (cases m) simp_all

lemma if_same: "(c \<Longrightarrow> rel_option B x x') \<Longrightarrow> (\<not> c \<Longrightarrow> rel_option B y y') \<Longrightarrow>
    rel_option B (if c then x else y) (if c then x' else y')"
  by simp

lemma map_same: "(\<And>x y. A x y \<Longrightarrow> B (f x) (g y)) \<Longrightarrow> rel_option A m m' \<Longrightarrow> rel_option B (map_option f m) (map_option g m')"
  by (auto elim!: option.rel_cases)

lemmas same_intros = bind0 bind1 bind2 bind3 bind_pure if_same same_select same_delay

section \<open>The bus and the registers\<close>

lemma plain_unselecting [simp]: "\<not> cs_take (plain_message s r n)" "\<not> cs_release (plain_message s r n)"
  by (simp_all add: plain_message_def)

lemma same_send: "rel w v \<Longrightarrow> same0 (mfrc522_spi_send R bs n w) (mfrc522_spi_send R' bs n v)"
  unfolding mfrc522_spi_send_def by (rule map_same [OF _ same_transfer]) auto

lemma same_recv: "rel w v \<Longrightarrow> same1 (mfrc522_spi_recv R bs n w) (mfrc522_spi_recv R' bs n v)"
  unfolding mfrc522_spi_recv_def by (auto intro!: same_intros same_transfer)

lemma same_send_recv: "rel w v \<Longrightarrow> same1 (mfrc522_spi_send_then_recv R bs n buf k w) (mfrc522_spi_send_then_recv R' bs n buf k v)"
  unfolding mfrc522_spi_send_then_recv_def by (auto intro!: same_intros same_transfer)

lemma same_write: "rel w v \<Longrightarrow> same0 (PCD_WriteReg_Byte R r x w) (PCD_WriteReg_Byte R' r x v)"
  unfolding PCD_WriteReg_Byte_def by (auto intro!: same_intros same_send)

lemma same_write_bytes: "rel w v \<Longrightarrow> same0 (PCD_WriteRegister R r n bs w) (PCD_WriteRegister R' r n bs v)"
  unfolding PCD_WriteRegister_def by (auto intro!: same_intros same_send)

lemma same_read: "rel w v \<Longrightarrow> same1 (PCD_ReadReg_Byte R r w) (PCD_ReadReg_Byte R' r v)"
  unfolding PCD_ReadReg_Byte_def by (auto intro!: same_intros same_send same_recv)

lemma same_recv_at:
  "(\<And>b w v. rel w v \<Longrightarrow> same1 (f b w) (f' b v)) \<Longrightarrow> rel w v \<Longrightarrow> same1 (recv_at f vals i w) (recv_at f' vals i v)"
  unfolding recv_at_def by (auto intro!: same_intros)

lemma same_read_loop: "rel w v \<Longrightarrow> same1 (read_loop R a off i n vals w) (read_loop R' a off i n vals v)"
proof (induction "n + 1 - i" arbitrary: i vals w v)
  case 0
  then show ?case by (simp add: read_loop.simps)
next
  case (Suc k)
  have "rel w v \<Longrightarrow> same1 (read_loop R a off (Suc i) n vals w) (read_loop R' a off (Suc i) n vals v)" for vals w v
    using Suc.hyps by simp
  with Suc.prems show ?case
    unfolding read_loop.simps [of R a off i] read_loop.simps [of R' a off i]
    by (auto intro!: same_intros same_recv_at same_send_recv)
qed

lemma same_read_register: "rel w v \<Longrightarrow> same1 (PCD_ReadRegister R r n vals off al w) (PCD_ReadRegister R' r n vals off al v)"
  unfolding PCD_ReadRegister_def Let_def
  by (auto intro!: same_intros same_send same_recv same_send_recv same_recv_at same_read_loop)

lemma same_masks:
  "rel w v \<Longrightarrow> same0 (PCD_SetRegisterBitMask R r x w) (PCD_SetRegisterBitMask R' r x v)"
  "rel w v \<Longrightarrow> same0 (PCD_ClearRegisterBitMask R r x w) (PCD_ClearRegisterBitMask R' r x v)"
  unfolding PCD_SetRegisterBitMask_def PCD_ClearRegisterBitMask_def by (auto intro!: same_intros same_read same_write)

section \<open>Frames\<close>

lemma same_crc_poll: "rel w v \<Longrightarrow> same2 (crc_poll R i w) (crc_poll R' i v)"
  by (induction i arbitrary: w v) (auto intro!: same_intros same_read same_write)

lemma same_crc: "rel w v \<Longrightarrow> same2 (PCD_CalculateCRC R bs n w) (PCD_CalculateCRC R' bs n v)"
  unfolding PCD_CalculateCRC_def by (auto intro!: same_intros same_write same_write_bytes same_crc_poll)

lemma same_picc_poll: "rel w v \<Longrightarrow> same1 (picc_poll R irq i w) (picc_poll R' irq i v)"
  by (induction i arbitrary: w v) (auto intro!: same_intros same_read same_write)

lemma same_check_crc: "rel w v \<Longrightarrow> same1 (check_crc R buf off n vb w) (check_crc R' buf off n vb v)"
  unfolding check_crc_def by (auto intro!: same_intros same_crc)

lemma same_answer: "rel w v \<Longrightarrow> same3 (read_answer R e dest vb al crc w) (read_answer R' e dest vb al crc v)"
  unfolding read_answer_def Let_def
  by (cases dest) (auto intro!: same_intros same_read same_read_register map_same [OF _ same_check_crc])

lemma same_transceive:
  "rel w v \<Longrightarrow> same3 (PCD_TransceiveData R bs n dest vb al crc w) (PCD_TransceiveData R' bs n dest vb al crc v)"
  unfolding PCD_TransceiveData_def PCD_CommunicateWithPICC_def Let_def
  by (auto intro!: same_intros same_write same_write_bytes same_masks same_picc_poll same_read same_answer)

section \<open>Request and selection\<close>

lemma same_request: "rel w v \<Longrightarrow> same2 (PICC_REQA_or_WUPA R cmd buf n w) (PICC_REQA_or_WUPA R' cmd buf n v)"
  unfolding PICC_REQA_or_WUPA_def
  by (cases buf) (auto intro!: same_intros same_masks same_transceive split: option.splits)

lemma same_present: "rel w v \<Longrightarrow> same1 (PICC_IsNewCardPresent R w) (PICC_IsNewCardPresent R' v)"
  unfolding PICC_IsNewCardPresent_def PICC_RequestA_def Let_def
  by (auto intro!: same_intros same_write same_request)

lemma same_prepare: "rel w v \<Longrightarrow> same3 (prepare_select R s w) (prepare_select R' s v)"
  unfolding prepare_select_def by (auto intro!: same_intros same_crc)

lemma same_collision: "rel w v \<Longrightarrow> same2 (on_collision R s w) (on_collision R' s v)"
  unfolding on_collision_def Let_def by (auto intro!: same_intros same_read)

lemma same_exchange: "rel w v \<Longrightarrow> same2 (select_exchange R s n w) (select_exchange R' s n v)"
  unfolding select_exchange_def Let_def
  by (auto intro!: same_intros same_write same_transceive same_collision)

lemma same_turn: "rel w v \<Longrightarrow> same2 (select_turn R s w) (select_turn R' s v)"
  unfolding select_turn_def by (auto intro!: same_intros same_prepare same_exchange)

lemma same_loop: "rel w v \<Longrightarrow> same2 (select_loop R s w) (select_loop R' s v)"
proof (induction "33 - currentLevelKnownBits s" arbitrary: s w v rule: less_induct)
  case less
  from same_turn [OF less.prems, of s] show ?case
  proof (cases rule: option.rel_cases)
    case (Some x y)
    then obtain flow s' w' v' where t: "select_turn R s w = Some (flow, s', w')" "select_turn R' s v = Some (flow, s', v')" "rel w' v'"
      by (cases x; cases y) auto
    show ?thesis
    proof (cases flow)
      case Again
      with select_turn_progress t(1) have "33 - currentLevelKnownBits s' < 33 - currentLevelKnownBits s" by fastforce
      from less.hyps [OF this t(3)] t Again show ?thesis by (simp add: select_loop.simps [of R s] select_loop.simps [of R' s])
    qed (use t in \<open>simp_all add: select_loop.simps [of R s] select_loop.simps [of R' s]\<close>)
  qed (simp add: select_loop.simps [of R s] select_loop.simps [of R' s])
qed

lemma same_level_end: "rel w v \<Longrightarrow> same3 (level_end R u level s w) (level_end R' u level s v)"
  unfolding level_end_def Let_def by (auto intro!: same_intros same_crc split: if_splits)

lemma same_level: "rel w v \<Longrightarrow> same3 (select_level R u x level b w) (select_level R' u x level b v)"
  unfolding select_level_def by (auto intro!: same_intros same_loop same_level_end split: flow.split)

lemma same_cascade: "rel w v \<Longrightarrow> same2 (cascade_loop R u x level b w) (cascade_loop R' u x level b v)"
proof (induction "4 - level" arbitrary: level u b w v)
  case 0
  then show ?case by (simp add: cascade_loop.simps)
next
  case (Suc n)
  have ih: "rel w v \<Longrightarrow> same2 (cascade_loop R u x (Suc level) b w) (cascade_loop R' u x (Suc level) b v)" for u b w v
    using Suc.hyps by simp
  from same_level [OF Suc.prems, of u x level b] show ?case
    by (cases rule: option.rel_cases)
       (auto simp: cascade_loop.simps [of R u] cascade_loop.simps [of R' u] Suc.prems intro: ih split: flow.split)
qed

lemma same_select_card: "rel w v \<Longrightarrow> same2 (PICC_Select R u x w) (PICC_Select R' u x v)"
  unfolding PICC_Select_def by (auto intro!: same_intros same_masks same_cascade)

end

end
