(* ===== verification/Rc522_Chip.thy ===== *)
theory Rc522_Chip
  imports Picc
begin

text \<open>
  The reader chip and a card in front of it, as their data sheets describe them: the serial protocol
  of the chip, the registers the driver uses, the exchange of a frame, and a card that answers the
  request, the anticollision and the selection of ISO 14443-3. A frame that ends within a byte, other than a
  request, gets no answer here: the driver sends none to a card that is alone.
\<close>

section \<open>The card\<close>

datatype card_phase = Card_Idle | Card_Ready nat | Card_Active | Card_Halted

record card =
  card_serial :: bytes
  card_atqa :: "u8 \<times> u8"
  card_sak :: u8
  card_phase :: card_phase

definition serial_levels :: "bytes \<Rightarrow> nat" where
  "serial_levels s = (length s - 1) div 3"

text \<open>The four bytes of a cascade level: the cascade tag stands for \<^emph>\<open>more to come\<close>.\<close>

definition level_bytes :: "bytes \<Rightarrow> nat \<Rightarrow> bytes" where
  "level_bytes s k =
     (if k < serial_levels s then PICC_CMD_CT # take 3 (drop (3 * (k - 1)) s) else take 4 (drop (3 * (k - 1)) s))"

definition bcc :: "bytes \<Rightarrow> u8" where
  "bcc g = foldr (XOR) g 0"

definition sel_byte :: "nat \<Rightarrow> u8" where
  "sel_byte k = (if k = 1 then PICC_CMD_SEL_CL1 else if k = 2 then PICC_CMD_SEL_CL2 else PICC_CMD_SEL_CL3)"

text \<open>What the chip and the card have in common: the checksum of a frame; and the time the chip takes.\<close>

record rf_env =
  crc_a :: "bytes \<Rightarrow> u8 \<times> u8"
  latency :: nat

definition crc_bytes :: "rf_env \<Rightarrow> bytes \<Rightarrow> bytes" where
  "crc_bytes E bs = [fst (crc_a E bs), snd (crc_a E bs)]"

definition select_frame :: "rf_env \<Rightarrow> bytes \<Rightarrow> nat \<Rightarrow> bytes" where
  "select_frame E s k =
     (let f = [sel_byte k, 0x70] @ level_bytes s k @ [bcc (level_bytes s k)] in f @ crc_bytes E f)"

definition level_sak :: "card \<Rightarrow> nat \<Rightarrow> u8" where
  "level_sak d k = (if k < serial_levels (card_serial d) then 0x04 else card_sak d)"

definition card_hear :: "rf_env \<Rightarrow> bytes \<Rightarrow> u8 \<Rightarrow> card \<Rightarrow> bytes option \<times> card" where
  "card_hear E frame bits d =
     (if bits = 7
      then (if frame = [PICC_CMD_REQA] \<and> card_phase d = Card_Idle
               \<or> frame = [PICC_CMD_WUPA] \<and> (card_phase d = Card_Idle \<or> card_phase d = Card_Halted)
            then (Some [fst (card_atqa d), snd (card_atqa d)], d\<lparr>card_phase := Card_Ready 1\<rparr>)
            else if card_phase d = Card_Halted then (None, d)
            else (None, d\<lparr>card_phase := Card_Idle\<rparr>))
      else (case card_phase d of
          Card_Ready k \<Rightarrow>
            if bits = 0 \<and> frame = [sel_byte k, 0x20]
            then (Some (level_bytes (card_serial d) k @ [bcc (level_bytes (card_serial d) k)]), d)
            else if bits = 0 \<and> frame = select_frame E (card_serial d) k
            then (Some (level_sak d k # crc_bytes E [level_sak d k]),
                  d\<lparr>card_phase := (if k < serial_levels (card_serial d) then Card_Ready (k + 1) else Card_Active)\<rparr>)
            else (None, d\<lparr>card_phase := Card_Idle\<rparr>)
        | Card_Active \<Rightarrow>
            if bits = 0 \<and> frame = [PICC_CMD_HLTA, 0] @ crc_bytes E [PICC_CMD_HLTA, 0]
            then (None, d\<lparr>card_phase := Card_Halted\<rparr>)
            else (None, d\<lparr>card_phase := Card_Idle\<rparr>)
        | _ \<Rightarrow> (None, d)))"

section \<open>The chip\<close>

text \<open>
  The flags of a command and its answer are due when the chip has been asked for the flags \<open>ch_wait\<close>
  times.
\<close>

record chip =
  ch_fifo :: bytes
  ch_com :: u8
  ch_div :: u8
  ch_command :: u8
  ch_framing :: u8
  ch_control :: u8
  ch_crc :: "u8 \<times> u8"
  ch_wait :: nat
  ch_due_com :: u8
  ch_due_div :: u8
  ch_due_fifo :: bytes
  ch_regs :: "u8 \<Rightarrow> u8"
  ch_card :: "card option"

definition chip_start :: "rf_env \<Rightarrow> chip \<Rightarrow> chip" where
  "chip_start E c =
     (let (reply, d) = (case ch_card c of
            None \<Rightarrow> (None, None)
          | Some d \<Rightarrow> (let (reply, d) = card_hear E (ch_fifo c) (ch_framing c AND 0x07) d in (reply, Some d)))
      in c\<lparr>ch_fifo := [], ch_card := d, ch_wait := latency E, ch_control := 0,
           ch_due_com := (case reply of None \<Rightarrow> 0x01 | Some _ \<Rightarrow> 0x20),
           ch_due_fifo := (case reply of None \<Rightarrow> [] | Some bs \<Rightarrow> bs)\<rparr>)"

definition chip_command :: "rf_env \<Rightarrow> u8 \<Rightarrow> chip \<Rightarrow> chip" where
  "chip_command E cmd c =
     (let c = c\<lparr>ch_command := cmd, ch_due_com := 0, ch_due_div := 0, ch_due_fifo := []\<rparr> in
      if cmd = PCD_CalcCRC
      then c\<lparr>ch_crc := crc_a E (ch_fifo c), ch_fifo := [], ch_wait := latency E, ch_due_div := 0x04\<rparr>
      else c)"

definition irq_write :: "u8 \<Rightarrow> u8 \<Rightarrow> u8" where
  "irq_write v old = (if bit v 7 then old OR (v AND 0x7F) else old AND NOT v)"

definition chip_set :: "rf_env \<Rightarrow> u8 \<Rightarrow> u8 \<Rightarrow> chip \<Rightarrow> chip" where
  "chip_set E r v c =
     (if r = CommandReg then chip_command E (v AND 0x0F) c
      else if r = ComIrqReg then c\<lparr>ch_com := irq_write v (ch_com c)\<rparr>
      else if r = DivIrqReg then c\<lparr>ch_div := irq_write v (ch_div c)\<rparr>
      else if r = FIFOLevelReg then (if bit v 7 then c\<lparr>ch_fifo := []\<rparr> else c)
      else if r = FIFODataReg then c\<lparr>ch_fifo := take 64 (ch_fifo c @ [v])\<rparr>
      else if r = BitFramingReg
      then (let c = c\<lparr>ch_framing := v AND 0x7F\<rparr> in
            if bit v 7 \<and> ch_command c = PCD_Transceive then chip_start E c else c)
      else c\<lparr>ch_regs := (ch_regs c)(r := v)\<rparr>)"

definition chip_poll :: "chip \<Rightarrow> chip" where
  "chip_poll c =
     (case ch_wait c of
        Suc n \<Rightarrow> c\<lparr>ch_wait := n\<rparr>
      | 0 \<Rightarrow> c\<lparr>ch_com := ch_com c OR ch_due_com c, ch_div := ch_div c OR ch_due_div c,
               ch_fifo := ch_fifo c @ ch_due_fifo c, ch_due_com := 0, ch_due_div := 0, ch_due_fifo := []\<rparr>)"

definition chip_get :: "u8 \<Rightarrow> chip \<Rightarrow> u8 \<times> chip" where
  "chip_get r c =
     (if r = ComIrqReg then (ch_com (chip_poll c), chip_poll c)
      else if r = DivIrqReg then (ch_div (chip_poll c), chip_poll c)
      else if r = FIFOLevelReg then (word_of_nat (length (ch_fifo c)), c)
      else if r = FIFODataReg then (case ch_fifo c of [] \<Rightarrow> (0, c) | v # bs \<Rightarrow> (v, c\<lparr>ch_fifo := bs\<rparr>))
      else if r = BitFramingReg then (ch_framing c, c)
      else if r = ErrorReg then (0, c)
      else if r = ControlReg then (ch_control c, c)
      else if r = CRCResultRegL then (fst (ch_crc c), c)
      else if r = CRCResultRegH then (snd (ch_crc c), c)
      else (ch_regs c r, c))"

section \<open>The serial protocol\<close>

text \<open>
  The first byte after the chip is selected is an address. Its top bit says read or write; after an
  address to write every byte goes to that register, after one to read the next byte brings the value
  while the next address, or a zero, is taken.
\<close>

datatype spi_link = Deselected | Selected | Writing u8 | Reading u8

fun link_out :: "spi_link \<Rightarrow> u8" where
  "link_out (Reading v) = v"
| "link_out _ = 0"

definition link_read :: "u8 \<Rightarrow> chip \<Rightarrow> chip \<times> spi_link" where
  "link_read b c = (if bit b 7 then (let (v, c) = chip_get (b AND 0x7F) c in (c, Reading v)) else (c, Reading 0))"

fun link_take :: "rf_env \<Rightarrow> u8 \<Rightarrow> chip \<times> spi_link \<Rightarrow> chip \<times> spi_link" where
  "link_take E b (c, Deselected) = (c, Deselected)"
| "link_take E b (c, Selected) = (if bit b 7 then link_read b c else (c, Writing b))"
| "link_take E b (c, Writing r) = (chip_set E r b c, Writing r)"
| "link_take E b (c, Reading v) = link_read b c"

definition chip_byte :: "rf_env \<Rightarrow> u8 \<Rightarrow> chip \<times> spi_link \<Rightarrow> u8 \<times> chip \<times> spi_link" where
  "chip_byte E b s = (link_out (snd s), link_take E b s)"

definition chip_line :: "bool \<Rightarrow> chip \<times> spi_link \<Rightarrow> chip \<times> spi_link" where
  "chip_line high s = (fst s, if high then Deselected else Selected)"

text \<open>A transfer of messages over a device that exchanges bytes.\<close>

fun byte_items :: "(u8 \<Rightarrow> 's \<Rightarrow> u8 \<times> 's) \<Rightarrow> bytes option \<Rightarrow> nat \<Rightarrow> nat \<Rightarrow> bytes option \<Rightarrow> 's \<Rightarrow> (bytes option \<times> 's) option" where
  "byte_items f send k 0 recv s = Some (recv, s)"
| "byte_items f send k (Suc n) recv s = do {
     tx \<leftarrow> tx_item send k;
     let (rx, s) = f tx s;
     recv \<leftarrow> rx_item recv k rx;
     byte_items f send (k + 1) n recv s }"

fun byte_messages :: "(u8 \<Rightarrow> 's \<Rightarrow> u8 \<times> 's) \<Rightarrow> spi_message list \<Rightarrow> 's \<Rightarrow> (spi_message list \<times> 's) option" where
  "byte_messages f [] s = Some ([], s)"
| "byte_messages f (m # ms) s =
     (if msg_length m = 0 then None
      else do {
        (recv, s) \<leftarrow> byte_items f (msg_send_buf m) 0 (msg_length m) (msg_recv_buf m) s;
        (ms, s) \<leftarrow> byte_messages f ms s;
        Some (m\<lparr>msg_recv_buf := recv\<rparr> # ms, s) })"

text \<open>
  A reader that is wired to the chip: there is a place in the world for the chip, and only what the
  reader does on the bus and on the select line touches it.
\<close>

locale wired =
  fixes R :: "'w reader" and E :: rf_env
    and look :: "'w \<Rightarrow> chip \<times> spi_link" and store :: "chip \<times> spi_link \<Rightarrow> 'w \<Rightarrow> 'w"
  assumes look_store: "look (store s w) = s"
    and store_store: "store s (store t w) = store s w"
    and store_look: "store (look w) w = w"
    and wired_transfer: "\<forall>m\<in>set ms. \<not> cs_take m \<and> \<not> cs_release m \<Longrightarrow>
      spi_transfer R ms w = map_option (\<lambda>(ms, s). (ms, store s w)) (byte_messages (chip_byte E) ms (look w))"
    and wired_select: "chip_select R high w = store (chip_line high (look w)) w"
    and wired_delay: "look (reader_mdelay R n w) = look w"

section \<open>A reader at a place in a world\<close>

definition placed_pins :: "('w \<Rightarrow> chip \<times> spi_link) \<Rightarrow> (chip \<times> spi_link \<Rightarrow> 'w \<Rightarrow> 'w) \<Rightarrow> 'w pins" where
  "placed_pins look store = \<lparr>rt_pin_write = (\<lambda>p high w. if p = 0 then store (chip_line high (look w)) w else w),
     rt_pin_read = (\<lambda>p w. (True, w)), rt_pin_mode = (\<lambda>p m w. w), pin_udelay = (\<lambda>n w. w)\<rparr>"

definition placed_reader :: "rf_env \<Rightarrow> ('w \<Rightarrow> chip \<times> spi_link) \<Rightarrow> (chip \<times> spi_link \<Rightarrow> 'w \<Rightarrow> 'w) \<Rightarrow> 'w reader" where
  "placed_reader E look store = \<lparr>
     spi_transfer = (\<lambda>ms w. map_option (\<lambda>(ms, s). (ms, store s w)) (byte_messages (chip_byte E) ms (look w))),
     reader_pins = placed_pins look store, reader_mdelay = (\<lambda>n w. w), chipSelectPin = 0, resetPowerDownPin = 255,
     start_timer = id, timer_flag = Pair False, clear_flag = id\<rparr>"

lemma wired_placed:
  assumes "\<And>s w. look (store s w) = s" and "\<And>s t w. store s (store t w) = store s w" and "\<And>w. store (look w) w = w"
  shows "wired (placed_reader E look store) E look store"
  by unfold_locales (simp_all add: assms placed_reader_def placed_pins_def chip_select_def)

interpretation lone: wired "placed_reader E id (\<lambda>s _. s)" E id "\<lambda>s _. s" for E
  by (rule wired_placed) simp_all

end
