(* ===== verification/Spi_Wire.thy ===== *)
theory Spi_Wire
  imports Spi_Bits Rc522_Chip
begin

text \<open>
  The bus over the wires: a device shifts a bit in when the clock rises and the next bit out when it
  falls. What the bit-banging transfer does with such a device is an exchange of bytes.
\<close>

section \<open>A device on the wires\<close>

text \<open>
  The device offers a byte and takes one; in between it has \<open>shifted\<close> bits of the byte that comes in.
\<close>

record 'd wire_state =
  clock_high :: bool
  mosi_high :: bool
  shift_in :: u8
  shifted :: nat
  shift_out :: u8
  device :: 'd

definition clock_line :: "('d \<Rightarrow> u8) \<Rightarrow> (u8 \<Rightarrow> 'd \<Rightarrow> 'd) \<Rightarrow> bool \<Rightarrow> 'd wire_state \<Rightarrow> 'd wire_state" where
  "clock_line offer take_byte v s =
     (if v \<and> \<not> clock_high s
      then (let b = push_bit 1 (shift_in s) OR of_bool (mosi_high s) in
            if shifted s = 7 then s\<lparr>clock_high := True, shift_in := 0, shifted := 0, device := take_byte b (device s)\<rparr>
            else s\<lparr>clock_high := True, shift_in := b, shifted := shifted s + 1\<rparr>)
      else if \<not> v \<and> clock_high s
      then s\<lparr>clock_high := False, shift_out := (if shifted s = 0 then offer (device s) else push_bit 1 (shift_out s))\<rparr>
      else s)"

definition resting :: "('d \<Rightarrow> u8) \<Rightarrow> 'd wire_state \<Rightarrow> bool" where
  "resting offer s \<longleftrightarrow> \<not> clock_high s \<and> shift_in s = 0 \<and> shifted s = 0 \<and> shift_out s = offer (device s)"

text \<open>The pins of the bus are three different pins; the board's busy wait touches nothing of this.\<close>

locale spi_wires =
  fixes P :: "'w pins" and L :: soft_spi_config and offer :: "'d \<Rightarrow> u8" and take_byte :: "u8 \<Rightarrow> 'd \<Rightarrow> 'd"
    and wires :: "'w \<Rightarrow> 'd wire_state" and put :: "'d wire_state \<Rightarrow> 'w \<Rightarrow> 'w"
  assumes wires_put: "wires (put s w) = s" and put_put: "put s (put t w) = put s w" and put_wires: "put (wires w) w = w"
    and clock_pin: "rt_pin_write P (uint (sck_pin L)) v w = put (clock_line offer take_byte v (wires w)) w"
    and clock_read: "rt_pin_read P (uint (sck_pin L)) w = (clock_high (wires w), w)"
    and mosi_write: "rt_pin_write P (uint (mosi_pin L)) v w = put ((wires w)\<lparr>mosi_high := v\<rparr>) w"
    and miso_read: "rt_pin_read P (uint (miso_pin L)) w = (bit (shift_out (wires w)) 7, w)"
    and busy_wait: "pin_udelay P n w = w"

text \<open>The bus of the board: mode 0, most significant bit first, items of 8 bits, no select line of its own.\<close>

definition plain_mode :: "spi_configuration \<Rightarrow> bool" where
  "plain_mode cfg \<longleftrightarrow> mode cfg = RT_SPI_MSB OR RT_SPI_NO_CS \<and> data_width cfg = 8"

definition byte_exchange :: "('d \<Rightarrow> u8) \<Rightarrow> (u8 \<Rightarrow> 'd \<Rightarrow> 'd) \<Rightarrow> u8 \<Rightarrow> 'd \<Rightarrow> u8 \<times> 'd" where
  "byte_exchange offer take_byte b d = (offer d, take_byte b d)"

section \<open>Bits of a byte\<close>

lemma tx_bit_msb: "has_flag o1 RT_SPI_MSB \<Longrightarrow> i < 8 \<Longrightarrow> tx_bit o1 (tx :: u8) i \<longleftrightarrow> bit tx (7 - i)"
  by (simp add: tx_bit_def bit_iff_and_push_bit_not_eq_0)

lemma rx_shift_msb: "has_flag o1 RT_SPI_MSB \<Longrightarrow> rx_shift o1 (rx :: u8) v = (push_bit 1 rx AND NOT 1) OR of_bool v"
  by (intro bit_eqI) (auto simp: rx_shift_def Let_def bit_simps)

lemma bit_ones: "bit (0xFF :: u8) k \<longleftrightarrow> k < 8"
  using bit_mask_iff [where ?'a = u8, of 8 k] by (auto simp: mask_eq_exp_minus_1)

lemma rx_step:
  assumes "i < 8"
  shows "(push_bit 1 (push_bit i 0xFF OR drop_bit (8 - i) (b :: u8)) AND NOT 1) OR of_bool (bit b (7 - i))
    = push_bit (Suc i) 0xFF OR drop_bit (7 - i) b"
proof (rule bit_eqI)
  fix n assume "possible_bit TYPE(u8) n"
  then have n: "n < 8" by simp
  have k: "0 < n \<Longrightarrow> 8 - i + (n - 1) = 7 - i + n" using assms by simp
  show "bit ((push_bit 1 (push_bit i 0xFF OR drop_bit (8 - i) b) AND NOT 1) OR of_bool (bit b (7 - i))) n
      = bit (push_bit (Suc i) 0xFF OR drop_bit (7 - i) b) n"
  proof (cases "n = 0")
    case False
    with k n show ?thesis by (simp only: shift_bits bit_ones) auto
  qed (simp only: shift_bits, simp)
qed

section \<open>A byte\<close>

context spi_wires begin

lemma toggle: "ch32_tog_sclk P L w = put (clock_line offer take_byte (\<not> clock_high (wires w)) (wires w)) w"
  by (simp add: ch32_tog_sclk_def clock_read clock_pin)

lemma set_mosi: "ch32_set_mosi P L v w = put ((wires w)\<lparr>mosi_high := v\<rparr>) w"
  by (simp add: ch32_set_mosi_def mosi_write)

lemma get_miso: "ch32_get_miso P L w = (bit (shift_out (wires w)) 7, w)"
  by (simp add: ch32_get_miso_def miso_read)

text \<open>After \<open>i\<close> bits: the bits of both bytes have gone that far.\<close>

definition after_bits :: "u8 \<Rightarrow> u8 \<Rightarrow> nat \<Rightarrow> 'd wire_state \<Rightarrow> bool" where
  "after_bits tx b i s \<longleftrightarrow> \<not> clock_high s \<and> shifted s = i \<and> shift_in s = drop_bit (8 - i) tx \<and> shift_out s = push_bit i b"

lemma one_bit:
  assumes m: "has_flag o1 RT_SPI_MSB" "\<not> has_flag o1 RT_SPI_CPHA" and i: "i < 7" and s: "after_bits tx b i (wires w)"
  shows "\<exists>s'. bits_4line P L o1 k tx (8 - i) (push_bit i 0xFF OR drop_bit (8 - i) b) w
      = bits_4line P L o1 k tx (8 - Suc i) (push_bit (Suc i) 0xFF OR drop_bit (8 - Suc i) b) (put s' w)
    \<and> after_bits tx b (Suc i) s' \<and> device s' = device (wires w)"
proof -
  have n: "8 - i = Suc (7 - i)" "8 - Suc i = 7 - i" "7 - (7 - i) = i" using i by simp_all
  let ?s = "(wires w)\<lparr>mosi_high := bit tx (7 - i), shift_in := drop_bit (7 - i) tx, shifted := Suc i,
    clock_high := False, shift_out := push_bit (Suc i) b\<rparr>"
  have "push_bit 1 (push_bit i b) = push_bit (Suc i) b" by simp
  then have "bits_4line P L o1 k tx (Suc (7 - i)) (push_bit i 0xFF OR drop_bit (8 - i) b) w
      = bits_4line P L o1 k tx (7 - i) (push_bit (Suc i) 0xFF OR drop_bit (7 - i) b) (put ?s w)"
    using i s shift_step [of i tx] rx_step [of i b] top_bit [of i b] m
    by (simp add: after_bits_def spi_delay2_def busy_wait set_mosi toggle get_miso wires_put put_put clock_line_def
        closing_edge_def tx_bit_msb rx_shift_msb n Let_def del: push_bit_Suc)
  then show ?thesis using i unfolding n by (intro exI [of _ ?s]) (simp add: after_bits_def n)
qed

lemma seven_bits:
  assumes m: "has_flag o1 RT_SPI_MSB" "\<not> has_flag o1 RT_SPI_CPHA"
  shows "i \<le> 7 \<Longrightarrow> after_bits tx b 0 (wires w) \<Longrightarrow> \<exists>s'. bits_4line P L o1 k tx 8 0xFF w
      = bits_4line P L o1 k tx (8 - i) (push_bit i 0xFF OR drop_bit (8 - i) b) (put s' w)
    \<and> after_bits tx b i s' \<and> device s' = device (wires w)"
proof (induction i)
  case 0
  have "bits_4line P L o1 k tx 8 0xFF w = bits_4line P L o1 k tx (8 - 0) (push_bit 0 0xFF OR drop_bit (8 - 0) b) (put (wires w) w)"
    by (simp add: put_wires drop_eight)
  with 0 show ?case by blast
next
  case (Suc i)
  then obtain s' where s': "bits_4line P L o1 k tx 8 0xFF w
      = bits_4line P L o1 k tx (8 - i) (push_bit i 0xFF OR drop_bit (8 - i) b) (put s' w)"
    "after_bits tx b i s'" "device s' = device (wires w)" by fastforce
  with one_bit [OF m, of i tx b "put s' w" k] Suc.prems(1) show ?case by (auto simp: wires_put put_put)
qed

text \<open>All eight bits: the byte the device offered is read, the byte sent is taken, the device rests.\<close>

lemma one_byte:
  assumes m: "has_flag o1 RT_SPI_MSB" "\<not> has_flag o1 RT_SPI_CPHA" and r: "resting offer (wires w)"
  shows "\<exists>s'. bits_4line P L o1 k tx 8 0xFF w = (offer (device (wires w)), put s' w) \<and> resting offer s'
    \<and> device s' = take_byte tx (device (wires w))"
proof -
  let ?b = "offer (device (wires w))"
  have "after_bits tx ?b 0 (wires w)" using r by (simp add: after_bits_def resting_def drop_eight)
  from seven_bits [OF m le_refl this, of k] obtain s where
    s: "bits_4line P L o1 k tx 8 0xFF w = bits_4line P L o1 k tx (Suc 0) (push_bit 7 0xFF OR drop_bit 1 ?b) (put s w)"
    "after_bits tx ?b 7 s" "device s = device (wires w)" by auto
  have tx: "push_bit 1 (drop_bit 1 tx) OR of_bool (bit tx 0) = tx" using shift_step [of 7 tx] by simp
  have rx: "(push_bit 1 (push_bit 7 0xFF OR drop_bit 1 ?b) AND NOT 1) OR of_bool (bit ?b 0) = ?b"
  proof -
    have "Suc 7 = (8 :: nat)" "8 - 7 = (1 :: nat)" "7 - 7 = (0 :: nat)" by simp_all
    note e = rx_step [of 7 ?b, unfolded this push_eight]
    show ?thesis using e by simp
  qed
  have "bit (push_bit 7 ?b) 7 = bit ?b 0" using top_bit [of 7 ?b] by simp
  let ?s = "s\<lparr>mosi_high := bit tx 0, shift_in := 0, shifted := 0, device := take_byte tx (device s), clock_high := False,
    shift_out := offer (take_byte tx (device s))\<rparr>"
  have "bits_4line P L o1 k tx (Suc 0) (push_bit 7 0xFF OR drop_bit 1 ?b) (put s w) = (?b, put ?s w)"
    using s(2) tx rx \<open>bit (push_bit 7 ?b) 7 = bit ?b 0\<close> m
    by (simp add: after_bits_def spi_delay2_def busy_wait set_mosi toggle get_miso wires_put put_put clock_line_def
        closing_edge_def tx_bit_msb rx_shift_msb Let_def del: push_bit_Suc)
  with s(1,3) show ?thesis by (intro exI [of _ ?s]) (simp add: resting_def)
qed

section \<open>Messages\<close>

abbreviation "exchange \<equiv> byte_exchange offer take_byte"

lemma items_exchange:
  assumes m: "has_flag o1 RT_SPI_MSB" "\<not> has_flag o1 RT_SPI_CPHA"
  shows "resting offer (wires w) \<Longrightarrow>
   (case items_4line P L o1 send k n recv w of
      None \<Rightarrow> byte_items exchange send k n recv (device (wires w)) = None
    | Some (recv', w') \<Rightarrow> byte_items exchange send k n recv (device (wires w)) = Some (recv', device (wires w'))
        \<and> resting offer (wires w') \<and> put (wires w') w = w')"
proof (induction n arbitrary: k recv w)
  case (Suc n)
  show ?case
  proof (cases "tx_item send k")
    case (Some tx)
    from one_byte [OF m Suc.prems, of n tx] obtain s' where s': "bits_4line P L o1 n tx 8 0xFF w = (offer (device (wires w)), put s' w)"
      "resting offer s'" "device s' = take_byte tx (device (wires w))" by auto
    have ex: "exchange tx (device (wires w)) = (offer (device (wires w)), take_byte tx (device (wires w)))"
      by (simp add: byte_exchange_def)
    show ?thesis
    proof (cases "rx_item recv k (offer (device (wires w)))")
      case None
      with Some s' show ?thesis by (simp add: ex mask_eq_exp_minus_1)
    next
      case (Some r)
      with \<open>tx_item send k = Some tx\<close> s' Suc.IH [of "put s' w" "k + 1" r] show ?thesis
        by (auto simp: ex mask_eq_exp_minus_1 wires_put put_put split: option.splits)
    qed
  qed simp
qed (simp add: put_wires)

lemma messages_exchange:
  assumes m: "has_flag o1 RT_SPI_MSB" "\<not> has_flag o1 RT_SPI_CPHA" "\<not> has_flag o1 RT_SPI_3WIRE" "data_width (bus_config o1) \<le> 8"
  shows "resting offer (wires w) \<Longrightarrow> \<forall>m\<in>set ms. \<not> cs_take m \<and> \<not> cs_release m \<Longrightarrow>
   (case messages_loop P L d o1 ms w of
      None \<Rightarrow> byte_messages exchange ms (device (wires w)) = None
    | Some (ms', w') \<Rightarrow> byte_messages exchange ms (device (wires w)) = Some (ms', device (wires w'))
        \<and> resting offer (wires w') \<and> put (wires w') w = w')"
proof (induction ms arbitrary: w)
  case (Cons a ms)
  show ?case
  proof (cases "msg_length a = 0")
    case True
    with Cons.prems m show ?thesis by (simp add: spi_bit_xfer_def spi_bit_data_def spi_xfer_4line_data8_def)
  next
    case False
    then have x: "spi_bit_xfer P L d o1 a w
        = map_option (\<lambda>(r, w). (a\<lparr>msg_recv_buf := r\<rparr>, w)) (items_4line P L o1 (msg_send_buf a) 0 (msg_length a) (msg_recv_buf a) w)"
      using Cons.prems(2) m
      by (simp add: spi_bit_xfer_def spi_bit_data_def spi_xfer_4line_data8_def split: option.split bind_split)
    note i = items_exchange [OF m(1,2) Cons.prems(1), of "msg_send_buf a" 0 "msg_length a" "msg_recv_buf a"]
    show ?thesis
    proof (cases "items_4line P L o1 (msg_send_buf a) 0 (msg_length a) (msg_recv_buf a) w")
      case None
      with i x False show ?thesis by simp
    next
      case (Some rw)
      then obtain r w' where rw: "items_4line P L o1 (msg_send_buf a) 0 (msg_length a) (msg_recv_buf a) w = Some (r, w')" by fastforce
      with i have w': "byte_items exchange (msg_send_buf a) 0 (msg_length a) (msg_recv_buf a) (device (wires w)) = Some (r, device (wires w'))"
        "resting offer (wires w')" "put (wires w') w = w'" by auto
      have "put s w' = put s w" for s using w'(3) put_put [of s "wires w'" w] by simp
      with Cons.IH [OF w'(2)] Cons.prems(2) rw w' x False show ?thesis
        by (auto split: option.splits)
    qed
  qed
qed (simp add: put_wires)

lemma transfer_exchange:
  assumes cfg: "plain_mode (dev_config d)" "bus_owner o1 = Some (dev_id d) \<longrightarrow> bus_config o1 = dev_config d"
    and r: "resting offer (wires w)" and ms: "\<forall>m\<in>set ms. \<not> cs_take m \<and> \<not> cs_release m"
  shows "case rt_spi_transfer_message P L d ms (o1, w) of
      None \<Rightarrow> byte_messages exchange ms (device (wires w)) = None
    | Some (ms', o2, w') \<Rightarrow> byte_messages exchange ms (device (wires w)) = Some (ms', device (wires w'))
        \<and> resting offer (wires w') \<and> put (wires w') w = w'
        \<and> (bus_owner o2 = Some (dev_id d) \<longrightarrow> bus_config o2 = dev_config d)"
proof (cases ms)
  case Nil
  with cfg r show ?thesis by (simp add: rt_spi_transfer_message_def put_wires)
next
  case (Cons a as)
  have low: "rt_pin_write P (uint (sck_pin L)) False w = w"
    using r put_wires [of w] by (simp add: clock_pin clock_line_def resting_def)
  define o2 where "o2 = (if bus_owner o1 = Some (dev_id d) then o1
    else o1\<lparr>delay_us := (if max_hz (dev_config d) < 200000 then 1 else 0), bus_config := dev_config d, bus_owner := Some (dev_id d)\<rparr>)"
  have o2: "bus_config o2 = dev_config d" "bus_owner o2 = Some (dev_id d)" using cfg(2) by (auto simp: o2_def)
  then have m: "has_flag o2 RT_SPI_MSB" "\<not> has_flag o2 RT_SPI_CPHA" "\<not> has_flag o2 RT_SPI_3WIRE" "data_width (bus_config o2) \<le> 8"
    using cfg(1) by (simp_all add: has_flag_def plain_mode_def)
  have "rt_spi_transfer_message P L d ms (o1, w) = map_option (\<lambda>(ms, w). (ms, o2, w)) (messages_loop P L d o2 ms w)"
    using Cons cfg(1) low
    by (simp add: rt_spi_transfer_message_def spi_bit_configure_def ch32_set_sclk_def plain_mode_def o2_def Let_def)
  with messages_exchange [OF m r ms, of d] o2 show ?thesis by (auto split: option.splits)
qed

end

text \<open>The pins of the board, for a world that is nothing but the wires.\<close>

definition board_lines :: soft_spi_config where
  "board_lines = \<lparr>sck_pin = 69, mosi_pin = 67, miso_pin = 68\<rparr>"

definition wire_pins :: "('d \<Rightarrow> u8) \<Rightarrow> (u8 \<Rightarrow> 'd \<Rightarrow> 'd) \<Rightarrow> 'd wire_state pins" where
  "wire_pins offer take_byte = \<lparr>
     rt_pin_write = (\<lambda>p v s. if p = 69 then clock_line offer take_byte v s else if p = 67 then s\<lparr>mosi_high := v\<rparr> else s),
     rt_pin_read = (\<lambda>p s. (if p = 69 then clock_high s else if p = 68 then bit (shift_out s) 7 else mosi_high s, s)),
     rt_pin_mode = (\<lambda>p m s. s), pin_udelay = (\<lambda>n s. s)\<rparr>"

interpretation board: spi_wires "wire_pins offer take_byte" board_lines offer take_byte id "\<lambda>s _. s" for offer take_byte
  by unfold_locales (simp_all add: wire_pins_def board_lines_def)

section \<open>The chip on the wires\<close>

text \<open>
  C24: the software SPI bus speaks the reader chip's protocol. With the chip on the clock, MOSI and MISO
  pins, shifting a bit in on each rising and a bit out on each falling edge, \<open>rt_spi_transfer_message\<close>
  on the board's configuration gives for every list of messages exactly what the exchange of bytes with
  the chip gives: the same received buffers (or the same failed assertion for a message of no bytes),
  the same chip, and wires at rest again.
\<close>

theorem spi_bus_exchanges_bytes:
  assumes "spi_wires P L (\<lambda>s. link_out (snd s)) (link_take E) wires put"
    and "plain_mode (dev_config d)" and "bus_owner o1 = Some (dev_id d) \<longrightarrow> bus_config o1 = dev_config d"
    and "resting (\<lambda>s. link_out (snd s)) (wires w)" and "\<forall>m\<in>set ms. \<not> cs_take m \<and> \<not> cs_release m"
  shows "case rt_spi_transfer_message P L d ms (o1, w) of
      None \<Rightarrow> byte_messages (chip_byte E) ms (device (wires w)) = None
    | Some (ms', o2, w') \<Rightarrow> byte_messages (chip_byte E) ms (device (wires w)) = Some (ms', device (wires w'))
        \<and> resting (\<lambda>s. link_out (snd s)) (wires w') \<and> put (wires w') w = w'
        \<and> (bus_owner o2 = Some (dev_id d) \<longrightarrow> bus_config o2 = dev_config d)"
proof -
  have e: "byte_exchange (\<lambda>s. link_out (snd s)) (link_take E) = chip_byte E"
    by (intro ext) (simp add: byte_exchange_def chip_byte_def)
  show ?thesis using spi_wires.transfer_exchange [OF assms] unfolding e .
qed

text \<open>An address and a value on a bus nobody has used yet.\<close>

definition desk_bus :: spi_bus where
  "desk_bus = \<lparr>bus_owner = None, bus_config = \<lparr>mode = 0x04, data_width = 8, max_hz = 1000000\<rparr>, delay_us = 1\<rparr>"

definition rc522_device :: spi_device where
  "rc522_device = \<lparr>dev_id = 1, dev_config = \<lparr>mode = 0x24, data_width = 8, max_hz = 1000000\<rparr>, cs_pin = - 1\<rparr>"

theorem spi_bus_exchanges_bytes_witness:
  "\<forall>E c. \<exists>o2 s'. rt_spi_transfer_message (wire_pins (\<lambda>s. link_out (snd s)) (link_take E)) board_lines rc522_device
       [plain_message (Some [FIFODataReg, 0x5A]) None 2]
       (desk_bus, \<lparr>clock_high = False, mosi_high = True, shift_in = 0, shifted = 0, shift_out = 0, device = (c\<lparr>ch_fifo := []\<rparr>, Selected)\<rparr>)
     = Some ([plain_message (Some [FIFODataReg, 0x5A]) None 2], o2, s') \<and> device s' = (c\<lparr>ch_fifo := [0x5A]\<rparr>, Writing FIFODataReg)"
proof (intro allI, goal_cases)
  case (1 E c)
  let ?s = "\<lparr>clock_high = False, mosi_high = True, shift_in = 0, shifted = 0, shift_out = 0, device = (c\<lparr>ch_fifo := []\<rparr>, Selected)\<rparr>"
  let ?ms = "[plain_message (Some [FIFODataReg, 0x5A]) None 2]"
  have "chip_set E FIFODataReg 0x5A (c\<lparr>ch_fifo := []\<rparr>) = c\<lparr>ch_fifo := [0x5A]\<rparr>" by (simp add: chip_set_def)
  then have "byte_messages (chip_byte E) ?ms (device ?s) = Some (?ms, c\<lparr>ch_fifo := [0x5A]\<rparr>, Writing FIFODataReg)"
    by (simp add: plain_message_def numeral_2_eq_2 tx_item_def rx_item_def rd_def chip_byte_def)
  with spi_bus_exchanges_bytes [OF board.spi_wires_axioms, of rc522_device desk_bus ?s ?ms E] show ?case
    by (auto simp: plain_mode_def rc522_device_def desk_bus_def resting_def plain_message_def split: option.splits)
qed

end
