(* ===== verification/Mifare.thy ===== *)
theory Mifare
  imports Picc
begin

text \<open>
  The commands of the reader's package to a selected MIFARE card (\<open>mfrc522.c\<close>): authentication, reading and writing
  of blocks, value blocks, the access bits, and the names and types it reports; and the self test of
  the chip. What a function prints is left out.
\<close>

abbreviation (input) PICC_CMD_MF_AUTH_KEY_A :: u8 where "PICC_CMD_MF_AUTH_KEY_A \<equiv> 0x60"
abbreviation (input) PICC_CMD_MF_READ :: u8 where "PICC_CMD_MF_READ \<equiv> 0x30"
abbreviation (input) PICC_CMD_MF_WRITE :: u8 where "PICC_CMD_MF_WRITE \<equiv> 0xA0"
abbreviation (input) PICC_CMD_MF_DECREMENT :: u8 where "PICC_CMD_MF_DECREMENT \<equiv> 0xC0"
abbreviation (input) PICC_CMD_MF_INCREMENT :: u8 where "PICC_CMD_MF_INCREMENT \<equiv> 0xC1"
abbreviation (input) PICC_CMD_MF_RESTORE :: u8 where "PICC_CMD_MF_RESTORE \<equiv> 0xC2"
abbreviation (input) PICC_CMD_MF_TRANSFER :: u8 where "PICC_CMD_MF_TRANSFER \<equiv> 0xB0"
abbreviation (input) PICC_CMD_UL_WRITE :: u8 where "PICC_CMD_UL_WRITE \<equiv> 0xA2"
abbreviation (input) MF_ACK :: u8 where "MF_ACK \<equiv> 0x0A"

section \<open>Self test\<close>

definition MFRC522_firmware_referenceV0_0 :: bytes where
  "MFRC522_firmware_referenceV0_0 = [
     0x00, 0x87, 0x98, 0x0f, 0x49, 0xFF, 0x07, 0x19, 0xBF, 0x22, 0x30, 0x49, 0x59, 0x63, 0xAD, 0xCA,
     0x7F, 0xE3, 0x4E, 0x03, 0x5C, 0x4E, 0x49, 0x50, 0x47, 0x9A, 0x37, 0x61, 0xE7, 0xE2, 0xC6, 0x2E,
     0x75, 0x5A, 0xED, 0x04, 0x3D, 0x02, 0x4B, 0x78, 0x32, 0xFF, 0x58, 0x3B, 0x7C, 0xE9, 0x00, 0x94,
     0xB4, 0x4A, 0x59, 0x5B, 0xFD, 0xC9, 0x29, 0xDF, 0x35, 0x96, 0x98, 0x9E, 0x4F, 0x30, 0x32, 0x8D]"

definition MFRC522_firmware_referenceV1_0 :: bytes where
  "MFRC522_firmware_referenceV1_0 = [
     0x00, 0xC6, 0x37, 0xD5, 0x32, 0xB7, 0x57, 0x5C, 0xC2, 0xD8, 0x7C, 0x4D, 0xD9, 0x70, 0xC7, 0x73,
     0x10, 0xE6, 0xD2, 0xAA, 0x5E, 0xA1, 0x3E, 0x5A, 0x14, 0xAF, 0x30, 0x61, 0xC9, 0x70, 0xDB, 0x2E,
     0x64, 0x22, 0x72, 0xB5, 0xBD, 0x65, 0xF4, 0xEC, 0x22, 0xBC, 0xD3, 0x72, 0x35, 0xCD, 0xAA, 0x41,
     0x1F, 0xA7, 0xF3, 0x53, 0x14, 0xDE, 0x7E, 0x02, 0xD9, 0x0F, 0xB5, 0x5E, 0x25, 0x1D, 0x29, 0x79]"

definition MFRC522_firmware_referenceV2_0 :: bytes where
  "MFRC522_firmware_referenceV2_0 = [
     0x00, 0xEB, 0x66, 0xBA, 0x57, 0xBF, 0x23, 0x95, 0xD0, 0xE3, 0x0D, 0x3D, 0x27, 0x89, 0x5C, 0xDE,
     0x9D, 0x3B, 0xA7, 0x00, 0x21, 0x5B, 0x89, 0x82, 0x51, 0x3A, 0xEB, 0x02, 0x0C, 0xA5, 0x00, 0x49,
     0x7C, 0x84, 0x4D, 0xB3, 0xCC, 0xD2, 0x1B, 0x81, 0x5D, 0x48, 0x76, 0xD5, 0x71, 0x61, 0x21, 0xA9,
     0x86, 0x96, 0x83, 0x38, 0xCF, 0x9D, 0x5B, 0x6D, 0xDC, 0x15, 0xBA, 0x3E, 0x7D, 0x95, 0x3B, 0x2F]"

definition FM17522_firmware_reference :: bytes where
  "FM17522_firmware_reference = [
     0x00, 0xD6, 0x78, 0x8C, 0xE2, 0xAA, 0x0C, 0x18, 0x2A, 0xB8, 0x7A, 0x7F, 0xD3, 0x6A, 0xCF, 0x0B,
     0xB1, 0x37, 0x63, 0x4B, 0x69, 0xAE, 0x91, 0xC7, 0xC3, 0x97, 0xAE, 0x77, 0xF4, 0x37, 0xD7, 0x9B,
     0x7C, 0xF5, 0x3C, 0x11, 0x8F, 0x15, 0xC3, 0xD7, 0xC1, 0x5B, 0x00, 0x2A, 0xD0, 0x75, 0xDE, 0x9E,
     0x51, 0x64, 0xAB, 0x3E, 0xE9, 0x15, 0xB5, 0xAB, 0x56, 0x9A, 0x98, 0x82, 0x26, 0xEA, 0x2A, 0x62]"

fun self_test_wait :: "'w reader \<Rightarrow> nat \<Rightarrow> 'w \<Rightarrow> 'w option" where
  "self_test_wait R 0 w = Some w"
| "self_test_wait R (Suc i) w = do {
     (n, w) \<leftarrow> PCD_ReadReg_Byte R FIFOLevelReg w;
     if n \<ge> 64 then Some w else self_test_wait R i w }"

text \<open>The 64 bytes the chip computes are those of its version.\<close>

definition PCD_PerformSelfTest :: "'w reader \<Rightarrow> 'w \<Rightarrow> (bool \<times> 'w) option" where
  "PCD_PerformSelfTest R w = do {
     w \<leftarrow> PCD_Reset R w;
     w \<leftarrow> PCD_WriteReg_Byte R FIFOLevelReg 0x80 w;
     w \<leftarrow> PCD_WriteRegister R FIFODataReg 25 (replicate 25 0x00) w;
     w \<leftarrow> PCD_WriteReg_Byte R CommandReg PCD_Mem w;
     w \<leftarrow> PCD_WriteReg_Byte R AutoTestReg 0x09 w;
     w \<leftarrow> PCD_WriteReg_Byte R FIFODataReg 0x00 w;
     w \<leftarrow> PCD_WriteReg_Byte R CommandReg PCD_CalcCRC w;
     w \<leftarrow> self_test_wait R 255 w;
     w \<leftarrow> PCD_WriteReg_Byte R CommandReg PCD_Idle w;
     (result, w) \<leftarrow> PCD_ReadRegister R FIFODataReg 64 (replicate 64 0x00) 0 0 w;
     w \<leftarrow> PCD_WriteReg_Byte R AutoTestReg 0x00 w;
     (version, w) \<leftarrow> PCD_ReadReg_Byte R VersionReg w;
     let reference = (if version = 0x88 then Some FM17522_firmware_reference
       else if version = 0x90 then Some MFRC522_firmware_referenceV0_0
       else if version = 0x91 then Some MFRC522_firmware_referenceV1_0
       else if version = 0x92 then Some MFRC522_firmware_referenceV2_0
       else None);
     (case reference of
        None \<Rightarrow> Some (False, w)
      | Some ref \<Rightarrow>
          if result \<noteq> ref then Some (False, w)
          else do { w \<leftarrow> PCD_Init R w; Some (True, w) }) }"

section \<open>Authentication\<close>

text \<open>The last four bytes of the \<open>Uid\<close>; the index is computed as an \<open>int\<close>.\<close>

fun uid_tail :: "uid \<Rightarrow> nat \<Rightarrow> nat \<Rightarrow> bytes option" where
  "uid_tail u i 0 = Some []"
| "uid_tail u i (Suc n) = do {
     let index = int i + uint (uid_size u) - 4;
     b \<leftarrow> (if index < 0 then None else rd (uid_byte u) (nat index));
     bs \<leftarrow> uid_tail u (i + 1) n;
     Some (b # bs) }"

definition PCD_Authenticate :: "'w reader \<Rightarrow> u8 \<Rightarrow> u8 \<Rightarrow> bytes \<Rightarrow> uid \<Rightarrow> 'w \<Rightarrow> (StatusCode \<times> 'w) option" where
  "PCD_Authenticate R command blockAddr key u w = do {
     k \<leftarrow> rd_block key 0 6;
     t \<leftarrow> uid_tail u 0 4;
     (status, _, _, w) \<leftarrow> PCD_CommunicateWithPICC R PCD_MFAuthent 0x10 ([command, blockAddr] @ k @ t) 12 None None 0 False w;
     Some (status, w) }"

definition PCD_StopCrypto1 :: "'w reader \<Rightarrow> 'w \<Rightarrow> 'w option" where
  "PCD_StopCrypto1 R w = PCD_ClearRegisterBitMask R Status2Reg 0x08 w"

section \<open>Blocks\<close>

text \<open>The command and the answer share the caller's buffer.\<close>

definition MIFARE_Read :: "'w reader \<Rightarrow> u8 \<Rightarrow> bytes option \<Rightarrow> u8 \<Rightarrow> 'w \<Rightarrow> (StatusCode \<times> bytes option \<times> u8 \<times> 'w) option" where
  "MIFARE_Read R blockAddr ubuf bufferSize w =
     (case ubuf of
        None \<Rightarrow> Some (STATUS_NO_ROOM, None, bufferSize, w)
      | Some buf \<Rightarrow>
          if bufferSize < 18 then Some (STATUS_NO_ROOM, Some buf, bufferSize, w)
          else do {
            buf \<leftarrow> blit buf 0 [PICC_CMD_MF_READ, blockAddr];
            (result, crc, w) \<leftarrow> PCD_CalculateCRC R buf 2 w;
            buf \<leftarrow> blit buf 2 crc;
            if result \<noteq> STATUS_OK then Some (result, Some buf, bufferSize, w)
            else do {
              (result, dest, _, w) \<leftarrow> PCD_TransceiveData R buf 4 (Some (buf, 0, bufferSize)) None 0 True w;
              (buf, _, n) \<leftarrow> dest;
              Some (result, Some buf, n, w) } })"

definition PCD_MIFARE_Transceive :: "'w reader \<Rightarrow> bytes option \<Rightarrow> u8 \<Rightarrow> bool \<Rightarrow> 'w \<Rightarrow> (StatusCode \<times> 'w) option" where
  "PCD_MIFARE_Transceive R sendData sendLen acceptTimeout w =
     (case sendData of
        None \<Rightarrow> Some (STATUS_INVALID, w)
      | Some data \<Rightarrow>
          if sendLen > 16 then Some (STATUS_INVALID, w)
          else do {
            d \<leftarrow> rd_block data 0 (unat sendLen);
            cmd \<leftarrow> blit (replicate 18 0) 0 d;
            (result, crc, w) \<leftarrow> PCD_CalculateCRC R cmd sendLen w;
            cmd \<leftarrow> blit cmd (unat sendLen) crc;
            if result \<noteq> STATUS_OK then Some (result, w)
            else do {
              (result, dest, validBits, w) \<leftarrow> PCD_CommunicateWithPICC R PCD_Transceive 0x30 cmd (sendLen + 2)
                (Some (cmd, 0, 18)) (Some 0) 0 False w;
              (cmd, _, cmdBufferSize) \<leftarrow> dest;
              c0 \<leftarrow> rd cmd 0;
              Some (if acceptTimeout \<and> result = STATUS_TIMEOUT then STATUS_OK
                    else if result \<noteq> STATUS_OK then result
                    else if cmdBufferSize \<noteq> 1 \<or> validBits \<noteq> Some 4 then STATUS_ERROR
                    else if c0 \<noteq> MF_ACK then STATUS_MIFARE_NACK else STATUS_OK, w) } })"

definition MIFARE_Write :: "'w reader \<Rightarrow> u8 \<Rightarrow> bytes option \<Rightarrow> u8 \<Rightarrow> 'w \<Rightarrow> (StatusCode \<times> 'w) option" where
  "MIFARE_Write R blockAddr ubuf bufferSize w =
     (if ubuf = None \<or> bufferSize < 16 then Some (STATUS_INVALID, w)
      else do {
        (result, w) \<leftarrow> PCD_MIFARE_Transceive R (Some [PICC_CMD_MF_WRITE, blockAddr]) 2 False w;
        if result \<noteq> STATUS_OK then Some (result, w)
        else do {
          (result, w) \<leftarrow> PCD_MIFARE_Transceive R ubuf bufferSize False w;
          if result \<noteq> STATUS_OK then Some (result, w) else Some (STATUS_OK, w) } })"

definition MIFARE_Ultralight_Write :: "'w reader \<Rightarrow> u8 \<Rightarrow> bytes option \<Rightarrow> u8 \<Rightarrow> 'w \<Rightarrow> (StatusCode \<times> 'w) option" where
  "MIFARE_Ultralight_Write R page ubuf bufferSize w =
     (case ubuf of
        None \<Rightarrow> Some (STATUS_INVALID, w)
      | Some buf \<Rightarrow>
          if bufferSize < 4 then Some (STATUS_INVALID, w)
          else do {
            d \<leftarrow> rd_block buf 0 4;
            (result, w) \<leftarrow> PCD_MIFARE_Transceive R (Some ([PICC_CMD_UL_WRITE, page] @ d)) 6 False w;
            if result \<noteq> STATUS_OK then Some (result, w) else Some (STATUS_OK, w) })"

section \<open>Value blocks\<close>

text \<open>The four bytes of an \<open>int32_t\<close>, low byte first, as the target stores it.\<close>

definition int32_bytes :: "u32 \<Rightarrow> bytes" where
  "int32_bytes v = [ucast v, ucast (drop_bit 8 v), ucast (drop_bit 16 v), ucast (drop_bit 24 v)]"

definition MIFARE_TwoStepHelper :: "'w reader \<Rightarrow> u8 \<Rightarrow> u8 \<Rightarrow> u32 \<Rightarrow> 'w \<Rightarrow> (StatusCode \<times> 'w) option" where
  "MIFARE_TwoStepHelper R command blockAddr data w = do {
     (result, w) \<leftarrow> PCD_MIFARE_Transceive R (Some [command, blockAddr]) 2 False w;
     if result \<noteq> STATUS_OK then Some (result, w)
     else do {
       (result, w) \<leftarrow> PCD_MIFARE_Transceive R (Some (int32_bytes data)) 4 True w;
       if result \<noteq> STATUS_OK then Some (result, w) else Some (STATUS_OK, w) } }"

definition MIFARE_Decrement :: "'w reader \<Rightarrow> u8 \<Rightarrow> u32 \<Rightarrow> 'w \<Rightarrow> (StatusCode \<times> 'w) option" where
  "MIFARE_Decrement R = MIFARE_TwoStepHelper R PICC_CMD_MF_DECREMENT"

definition MIFARE_Increment :: "'w reader \<Rightarrow> u8 \<Rightarrow> u32 \<Rightarrow> 'w \<Rightarrow> (StatusCode \<times> 'w) option" where
  "MIFARE_Increment R = MIFARE_TwoStepHelper R PICC_CMD_MF_INCREMENT"

definition MIFARE_Restore :: "'w reader \<Rightarrow> u8 \<Rightarrow> 'w \<Rightarrow> (StatusCode \<times> 'w) option" where
  "MIFARE_Restore R blockAddr = MIFARE_TwoStepHelper R PICC_CMD_MF_RESTORE blockAddr 0"

definition MIFARE_Transfer :: "'w reader \<Rightarrow> u8 \<Rightarrow> 'w \<Rightarrow> (StatusCode \<times> 'w) option" where
  "MIFARE_Transfer R blockAddr w = do {
     (result, w) \<leftarrow> PCD_MIFARE_Transceive R (Some [PICC_CMD_MF_TRANSFER, blockAddr]) 2 False w;
     if result \<noteq> STATUS_OK then Some (result, w) else Some (STATUS_OK, w) }"

text \<open>The shift of the top byte into an \<open>int\<close> wraps, as the compiler makes it.\<close>

definition block_value :: "bytes \<Rightarrow> u32 option" where
  "block_value b = do {
     b0 \<leftarrow> rd b 0; b1 \<leftarrow> rd b 1; b2 \<leftarrow> rd b 2; b3 \<leftarrow> rd b 3;
     Some (push_bit 24 (ucast b3) OR push_bit 16 (ucast b2) OR push_bit 8 (ucast b1) OR ucast b0) }"

definition MIFARE_GetValue :: "'w reader \<Rightarrow> u8 \<Rightarrow> u32 \<Rightarrow> 'w \<Rightarrow> (StatusCode \<times> u32 \<times> 'w) option" where
  "MIFARE_GetValue R blockAddr v w = do {
     (status, buf, _, w) \<leftarrow> MIFARE_Read R blockAddr (Some (replicate 18 0)) 18 w;
     if status = STATUS_OK
     then do { buf \<leftarrow> buf; v \<leftarrow> block_value buf; Some (status, v, w) }
     else Some (status, v, w) }"

definition value_block :: "u32 \<Rightarrow> u8 \<Rightarrow> bytes" where
  "value_block v blockAddr =
     (let b0 = ucast (v AND 0xFF);
          b1 = ucast (drop_bit 8 (v AND 0xFF00));
          b2 = ucast (drop_bit 16 (v AND 0xFF0000));
          b3 = ucast (drop_bit 24 (v AND 0xFF000000))
      in [b0, b1, b2, b3, NOT b0, NOT b1, NOT b2, NOT b3, b0, b1, b2, b3, blockAddr, NOT blockAddr, blockAddr, NOT blockAddr])"

definition MIFARE_SetValue :: "'w reader \<Rightarrow> u8 \<Rightarrow> u32 \<Rightarrow> 'w \<Rightarrow> (StatusCode \<times> 'w) option" where
  "MIFARE_SetValue R blockAddr v w = MIFARE_Write R blockAddr (Some (value_block v blockAddr @ [0, 0])) 16 w"

definition PCD_NTAG216_AUTH :: "'w reader \<Rightarrow> bytes \<Rightarrow> bytes \<Rightarrow> 'w \<Rightarrow> (StatusCode \<times> bytes \<times> 'w) option" where
  "PCD_NTAG216_AUTH R passWord pACK w = do {
     pw \<leftarrow> rd_block passWord 0 4;
     cmd \<leftarrow> blit (replicate 18 0) 0 (0x1B # pw);
     (result, crc, w) \<leftarrow> PCD_CalculateCRC R cmd 5 w;
     cmd \<leftarrow> blit cmd 5 crc;
     if result \<noteq> STATUS_OK then Some (result, pACK, w)
     else do {
       (result, dest, _, w) \<leftarrow> PCD_CommunicateWithPICC R PCD_Transceive 0x30 cmd 7 (Some (cmd, 0, 5)) (Some 0) 0 False w;
       (cmd, _, _) \<leftarrow> dest;
       ack \<leftarrow> rd_block cmd 0 2;
       pACK \<leftarrow> blit pACK 0 ack;
       Some (result, pACK, w) } }"

section \<open>Access bits\<close>

definition MIFARE_SetAccessBits :: "bytes \<Rightarrow> u8 \<Rightarrow> u8 \<Rightarrow> u8 \<Rightarrow> u8 \<Rightarrow> bytes option" where
  "MIFARE_SetAccessBits accessBitBuffer g0 g1 g2 g3 =
     (let c1 = push_bit 1 (g3 AND 4) OR (g2 AND 4) OR drop_bit 1 (g1 AND 4) OR drop_bit 2 (g0 AND 4);
          c2 = push_bit 2 (g3 AND 2) OR push_bit 1 (g2 AND 2) OR (g1 AND 2) OR drop_bit 1 (g0 AND 2);
          c3 = push_bit 3 (g3 AND 1) OR push_bit 2 (g2 AND 1) OR push_bit 1 (g1 AND 1) OR (g0 AND 1)
      in blit accessBitBuffer 0
           [push_bit 4 (NOT c2 AND 0xF) OR (NOT c1 AND 0xF), push_bit 4 c1 OR (NOT c3 AND 0xF), push_bit 4 c3 OR c2])"

text \<open>The sector trailer as \<open>PICC_DumpMifareClassicSectorToSerial\<close> takes it apart: the groups, and whether the inverted bits differ.\<close>

definition access_groups :: "bytes \<Rightarrow> (bytes \<times> bool) option" where
  "access_groups b = do {
     b6 \<leftarrow> rd b 6; b7 \<leftarrow> rd b 7; b8 \<leftarrow> rd b 8;
     let c1 = drop_bit 4 b7;
     let c2 = b8 AND 0xF;
     let c3 = drop_bit 4 b8;
     let n1 = b6 AND 0xF;
     let n2 = drop_bit 4 b6;
     let n3 = b7 AND 0xF;
     let invertedError = (c1 \<noteq> (NOT n1 AND 0xF) \<or> c2 \<noteq> (NOT n2 AND 0xF) \<or> c3 \<noteq> (NOT n3 AND 0xF));
     Some ([push_bit 2 (c1 AND 1) OR push_bit 1 (c2 AND 1) OR (c3 AND 1),
            push_bit 1 (c1 AND 2) OR (c2 AND 2) OR drop_bit 1 (c3 AND 2),
            (c1 AND 4) OR drop_bit 1 (c2 AND 4) OR drop_bit 2 (c3 AND 4),
            drop_bit 1 (c1 AND 8) OR drop_bit 2 (c2 AND 8) OR drop_bit 3 (c3 AND 8)], invertedError) }"

section \<open>Changing the serial number\<close>

definition MIFARE_OpenUidBackdoor :: "'w reader \<Rightarrow> 'w \<Rightarrow> (bool \<times> 'w) option" where
  "MIFARE_OpenUidBackdoor R w = do {
     (_, w) \<leftarrow> PICC_HaltA R w;
     (status, dest, validBits, w) \<leftarrow> PCD_TransceiveData R [0x40] 1 (Some (replicate 32 0, 0, 32)) (Some 7) 0 False w;
     (response, _, n) \<leftarrow> dest;
     r0 \<leftarrow> rd response 0;
     if status \<noteq> STATUS_OK then Some (False, w)
     else if n \<noteq> 1 \<or> r0 \<noteq> 0x0A then Some (False, w)
     else do {
       (status, dest, _, w) \<leftarrow> PCD_TransceiveData R [0x43] 1 (Some (response, 0, n)) (Some 8) 0 False w;
       (response, _, n) \<leftarrow> dest;
       r0 \<leftarrow> rd response 0;
       Some (status = STATUS_OK \<and> \<not> (n \<noteq> 1 \<or> r0 \<noteq> 0x0A), w) } }"

definition default_key :: bytes where
  "default_key = replicate 6 0xFF"

text \<open>The selection of a card when none answers; the static \<open>uid\<close> goes in and comes out.\<close>

definition authenticate_or_select :: "'w reader \<Rightarrow> uid \<Rightarrow> 'w \<Rightarrow> (bool \<times> uid \<times> 'w) option" where
  "authenticate_or_select R u w = do {
     (status, w) \<leftarrow> PCD_Authenticate R PICC_CMD_MF_AUTH_KEY_A 1 default_key u w;
     if status = STATUS_OK then Some (True, u, w)
     else if status \<noteq> STATUS_TIMEOUT then Some (False, u, w)
     else do {
       (present, w) \<leftarrow> PICC_IsNewCardPresent R w;
       if \<not> present then Some (False, u, w)
       else do {
         (ok, u, w) \<leftarrow> PICC_ReadCardSerial R u w;
         if \<not> ok then Some (False, u, w)
         else do {
           (status, w) \<leftarrow> PCD_Authenticate R PICC_CMD_MF_AUTH_KEY_A 1 default_key u w;
           Some (status = STATUS_OK, u, w) } } } }"

definition MIFARE_SetUid :: "'w reader \<Rightarrow> bytes option \<Rightarrow> u8 \<Rightarrow> uid \<Rightarrow> 'w \<Rightarrow> (bool \<times> uid \<times> 'w) option" where
  "MIFARE_SetUid R newUid uidSize u w =
     (case newUid of
        None \<Rightarrow> Some (False, u, w)
      | Some new \<Rightarrow>
          if uidSize = 0 \<or> uidSize > 15 then Some (False, u, w)
          else do {
            (ok, u, w) \<leftarrow> authenticate_or_select R u w;
            if \<not> ok then Some (False, u, w)
            else do {
              (status, buf, _, w) \<leftarrow> MIFARE_Read R 0 (Some (replicate 18 0)) 18 w;
              if status \<noteq> STATUS_OK then Some (False, u, w)
              else do {
                block0 \<leftarrow> buf;
                bs \<leftarrow> rd_block new 0 (unat uidSize);
                block0 \<leftarrow> blit block0 0 (bs @ [foldl (XOR) 0 bs]);
                w \<leftarrow> PCD_StopCrypto1 R w;
                (opened, w) \<leftarrow> MIFARE_OpenUidBackdoor R w;
                if \<not> opened then Some (False, u, w)
                else do {
                  (status, w) \<leftarrow> MIFARE_Write R 0 (Some block0) 16 w;
                  if status \<noteq> STATUS_OK then Some (False, u, w)
                  else do {
                    (_, _, w) \<leftarrow> PICC_WakeupA R (Some [0, 0]) 2 w;
                    Some (True, u, w) } } } } })"

definition MIFARE_UnbrickUidSector :: "'w reader \<Rightarrow> 'w \<Rightarrow> (bool \<times> 'w) option" where
  "MIFARE_UnbrickUidSector R w = do {
     (_, w) \<leftarrow> MIFARE_OpenUidBackdoor R w;
     (status, w) \<leftarrow> MIFARE_Write R 0
       (Some [0x01, 0x02, 0x03, 0x04, 0x04, 0x08, 0x04, 0x00, 0x00, 0x00, 0x00, 0x00, 0x00, 0x00, 0x00, 0x00]) 16 w;
     Some (status = STATUS_OK, w) }"

section \<open>Types and names\<close>

datatype PICC_Type = PICC_TYPE_UNKNOWN | PICC_TYPE_ISO_14443_4 | PICC_TYPE_ISO_18092 | PICC_TYPE_MIFARE_MINI | PICC_TYPE_MIFARE_1K
  | PICC_TYPE_MIFARE_4K | PICC_TYPE_MIFARE_UL | PICC_TYPE_MIFARE_PLUS | PICC_TYPE_MIFARE_DESFIRE | PICC_TYPE_TNP3XXX | PICC_TYPE_NOT_COMPLETE

definition PICC_GetType :: "u8 \<Rightarrow> PICC_Type" where
  "PICC_GetType s =
     (let s = s AND 0x7F in
      if s = 0x04 then PICC_TYPE_NOT_COMPLETE
      else if s = 0x09 then PICC_TYPE_MIFARE_MINI
      else if s = 0x08 then PICC_TYPE_MIFARE_1K
      else if s = 0x18 then PICC_TYPE_MIFARE_4K
      else if s = 0x00 then PICC_TYPE_MIFARE_UL
      else if s = 0x10 \<or> s = 0x11 then PICC_TYPE_MIFARE_PLUS
      else if s = 0x01 then PICC_TYPE_TNP3XXX
      else if s = 0x20 then PICC_TYPE_ISO_14443_4
      else if s = 0x40 then PICC_TYPE_ISO_18092
      else PICC_TYPE_UNKNOWN)"

text \<open>\<open>strncpy\<close> of a text into the buffer \<open>msg\<close>; the rest of the \<open>n\<close> bytes becomes zero.\<close>

definition c_strncpy :: "bytes \<Rightarrow> bytes \<Rightarrow> nat \<Rightarrow> bytes option" where
  "c_strncpy dst src n = blit dst 0 (take n src @ replicate (n - length src) 0)"

text \<open>A \<open>switch\<close> whose cases have no \<open>break\<close>: from the case that is met on, every text is copied.\<close>

fun copy_all :: "string list \<Rightarrow> bytes \<Rightarrow> bytes option" where
  "copy_all [] b = Some b"
| "copy_all (t # ts) b = do { b \<leftarrow> c_strncpy b (ascii t) 50; copy_all ts b }"

definition switch_texts :: "('a \<times> string) list \<Rightarrow> 'a \<Rightarrow> string list \<Rightarrow> string list" where
  "switch_texts cases x rest = map snd (dropWhile (\<lambda>(c, _). c \<noteq> x) cases) @ rest"

definition GetStatusCodeName :: "StatusCode \<Rightarrow> bytes \<Rightarrow> bytes option" where
  "GetStatusCodeName code = copy_all (switch_texts
     [(STATUS_OK, ''Success.''), (STATUS_ERROR, ''Error in communication.''), (STATUS_COLLISION, ''Collision detected.''),
      (STATUS_TIMEOUT, ''Timeout in communication.''), (STATUS_NO_ROOM, ''A buffer is not big enough.''),
      (STATUS_INTERNAL_ERROR, ''Internal error in the code. Should not happen.''), (STATUS_INVALID, ''Invalid argument.''),
      (STATUS_CRC_WRONG, ''The CRC_A does not match.''), (STATUS_MIFARE_NACK, ''A MIFARE PICC responded with NAK.'')]
     code [''Unknown error''])"

definition PICC_GetTypeName :: "PICC_Type \<Rightarrow> bytes \<Rightarrow> bytes option" where
  "PICC_GetTypeName t = copy_all (switch_texts
     [(PICC_TYPE_ISO_14443_4, ''PICC compliant with ISO/IEC 14443-4''), (PICC_TYPE_ISO_18092, ''PICC compliant with ISO/IEC 18092 (NFC)''),
      (PICC_TYPE_MIFARE_MINI, ''MIFARE Mini, 320 bytes''), (PICC_TYPE_MIFARE_1K, ''MIFARE 1KB''), (PICC_TYPE_MIFARE_4K, ''MIFARE 4KB''),
      (PICC_TYPE_MIFARE_UL, ''MIFARE Ultralight or Ultralight C''), (PICC_TYPE_MIFARE_PLUS, ''MIFARE Plus''),
      (PICC_TYPE_MIFARE_DESFIRE, ''MIFARE DESFire''), (PICC_TYPE_TNP3XXX, ''MIFARE TNP3XXX''),
      (PICC_TYPE_NOT_COMPLETE, ''SAK indicates UID is not complete.'')]
     t [''Unknown type''])"

end
