(* ===== verification/Picc_Safety.thy ===== *)
theory Picc_Safety
  imports Spi_Wire Mifare
begin

text \<open>
  The selection against any chip and any cards: whatever the bus brings, it comes back, and no access
  leaves its buffers. \<open>ensures\<close> says that a step comes back with a result of which something holds; it
  goes through the steps of a function by rewriting.
\<close>

definition ensures :: "'a option \<Rightarrow> ('a \<Rightarrow> bool) \<Rightarrow> bool" where
  "ensures m P \<longleftrightarrow> (case m of None \<Rightarrow> False | Some x \<Rightarrow> P x)"

lemma ensures_simps [simp]:
  "ensures (Some x) P \<longleftrightarrow> P x" "\<not> ensures None P"
  "ensures (Option.bind m f) P \<longleftrightarrow> ensures m (\<lambda>x. ensures (f x) P)"
  "ensures (map_option g m) P \<longleftrightarrow> ensures m (\<lambda>x. P (g x))"
  by (auto simp: ensures_def split: option.split bind_split)

lemma ensures_mono: "ensures m P \<Longrightarrow> (\<And>x. P x \<Longrightarrow> Q x) \<Longrightarrow> ensures m Q"
  by (auto simp: ensures_def split: option.splits)

lemma ensures_rd: "i < length xs \<Longrightarrow> ensures (rd xs i) P \<longleftrightarrow> P (xs ! i)"
  by (simp add: rd_def)

lemma ensures_wr: "i < length xs \<Longrightarrow> ensures (wr xs i x) P \<longleftrightarrow> P (xs[i := x])"
  by (simp add: wr_def)

lemma ensures_blit: "p + length xs \<le> length b \<Longrightarrow> ensures (blit b p xs) P \<longleftrightarrow> P (take p b @ xs @ drop (p + length xs) b)"
  by (simp add: blit_def)

lemma ensures_rd_block: "off + n \<le> length xs \<Longrightarrow> ensures (rd_block xs off n) P \<longleftrightarrow> P (take n (drop off xs))"
  by (simp add: rd_block_def)

lemma ensures_blit_length:
  "length xs \<le> n \<Longrightarrow> p + n \<le> length b \<Longrightarrow> length b = m \<Longrightarrow> ensures (blit b p xs) (\<lambda>x. length x = m)"
  by (simp add: blit_def)

lemmas ensures_mem = ensures_rd ensures_wr ensures_blit ensures_rd_block

text \<open>A message a transfer can serve, and what comes back of it.\<close>

definition good_message :: "spi_message \<Rightarrow> bool" where
  "good_message m \<longleftrightarrow> 0 < msg_length m \<and> (case msg_send_buf m of None \<Rightarrow> True | Some bs \<Rightarrow> msg_length m \<le> length bs)
     \<and> (case msg_recv_buf m of None \<Rightarrow> True | Some bs \<Rightarrow> msg_length m \<le> length bs) \<and> \<not> cs_take m \<and> \<not> cs_release m"

locale any_bus =
  fixes R :: "'w reader"
  assumes answers: "ms \<noteq> [] \<Longrightarrow> \<forall>m\<in>set ms. good_message m \<Longrightarrow>
    ensures (spi_transfer R ms w) (\<lambda>(ms', w').
      map (\<lambda>m. map_option length (msg_recv_buf m)) ms' = map (\<lambda>m. map_option length (msg_recv_buf m)) ms)"
begin

lemma send_ok: "0 < n \<Longrightarrow> n \<le> length bs \<Longrightarrow> ensures (mfrc522_spi_send R bs n w) (\<lambda>_. True)"
  unfolding mfrc522_spi_send_def
  by (simp, rule ensures_mono [OF answers]) (auto simp: good_message_def plain_message_def)

lemma last_received:
  "map (\<lambda>m. map_option length (msg_recv_buf m)) ms = xs @ [Some n] \<Longrightarrow> ensures (received ms) (\<lambda>bs. length bs = n)"
proof -
  assume "map (\<lambda>m. map_option length (msg_recv_buf m)) ms = xs @ [Some n]"
  then obtain ys m where "ms = ys @ [m]" "map_option length (msg_recv_buf m) = Some n"
    by (auto simp: map_eq_append_conv eq_commute [of "Some n"])
  then show ?thesis by (cases ys) (auto simp: received_def)
qed

lemma recv_ok: "ensures (mfrc522_spi_recv R [x] 1 w) (\<lambda>(bs, _). length bs = 1)"
  unfolding mfrc522_spi_recv_def
  by (simp, rule ensures_mono [OF answers])
    (auto simp: good_message_def plain_message_def intro!: ensures_mono [OF last_received [where xs = "[]"]])

lemma send_recv_ok: "ensures (mfrc522_spi_send_then_recv R [a] 1 [x] 1 w) (\<lambda>(bs, _). length bs = 1)"
  unfolding mfrc522_spi_send_then_recv_def
  by (simp, rule ensures_mono [OF answers])
    (auto simp: good_message_def plain_message_def intro!: ensures_mono [OF last_received [where xs = "[None]"]])

lemma write_ok: "ensures (PCD_WriteReg_Byte R r v w) (\<lambda>_. True)"
  unfolding PCD_WriteReg_Byte_def by simp (rule ensures_mono [OF send_ok], simp_all)

lemma write_bytes_ok: "n \<noteq> 0 \<Longrightarrow> unat n \<le> length bs \<Longrightarrow> ensures (PCD_WriteRegister R r n bs w) (\<lambda>_. True)"
  unfolding PCD_WriteRegister_def
  by simp (rule ensures_mono [OF send_ok], simp_all, rule ensures_mono [OF send_ok], simp_all add: unat_gt_0)

lemma read_ok: "ensures (PCD_ReadReg_Byte R r w) (\<lambda>_. True)"
  unfolding PCD_ReadReg_Byte_def
  by simp (rule ensures_mono [OF send_ok], simp_all, rule ensures_mono [OF recv_ok [simplified]], auto simp: ensures_rd)

lemma recv_at_ok:
  "i < length vals \<Longrightarrow> (\<And>x w. ensures (f [x] w) (\<lambda>(bs, _). length bs = 1)) \<Longrightarrow>
   ensures (recv_at f vals i w) (\<lambda>(vals', _). length vals' = length vals)"
  unfolding recv_at_def by (simp add: ensures_rd) (rule ensures_mono, assumption, auto simp: ensures_rd)

lemma read_loop_ok:
  "off + count < length vals \<Longrightarrow> ensures (read_loop R a off index count vals w) (\<lambda>(vals', _). length vals' = length vals)"
proof (induction "count + 1 - index" arbitrary: index vals w)
  case 0
  then show ?case by (simp add: read_loop.simps)
next
  case (Suc n)
  then have i: "off + index < length vals" by auto
  have "length vs = length vals \<Longrightarrow> ensures (read_loop R a off (Suc index) count vs w) (\<lambda>(vals', _). length vals' = length vals)" for vs w
    using Suc.hyps(1) [of "Suc index" vs w] Suc.hyps(2) Suc.prems by simp
  then show ?case using i
    by (subst read_loop.simps) (auto intro!: ensures_mono [OF recv_at_ok] send_recv_ok [simplified])
qed

lemma read_register_ok:
  assumes "off + unat n \<le> length vals" and "off + 1 < length vals"
  shows "ensures (PCD_ReadRegister R r n vals off al w) (\<lambda>(vals', _). length vals' = length vals)"
proof (cases "n = 0")
  case False
  then have n: "unat (n - 1) = unat n - 1" "0 < unat n" by (simp_all add: unat_minus_one unat_gt_0)
  have loop: "length vs = length vals \<Longrightarrow> ensures (read_loop R (0x80 OR r) off i (unat (n - 1)) vs w) (\<lambda>(vals', _). length vals' = length vals)"
    for i vs w using read_loop_ok [of off "unat (n - 1)" vs] assms n by simp
  have rest: "i \<le> 1 \<Longrightarrow> length vs = length vals \<Longrightarrow>
      ensures (recv_at (\<lambda>b. mfrc522_spi_recv R b 1) vs (off + i) w) (\<lambda>x. ensures
        (case x of (vals, w) \<Rightarrow> read_loop R (0x80 OR r) off (i + 1) (unat (n - 1)) vals w \<bind>
          (\<lambda>(vals, w). mfrc522_spi_recv R [0] 1 w \<bind> (\<lambda>(_, w). Some (vals, chip_select R True w))))
        (\<lambda>(vals', _). length vals' = length vals))" for i vs w
    using assms(2)
    by (intro ensures_mono [OF recv_at_ok]) (auto intro!: recv_ok [simplified] ensures_mono [OF loop] ensures_mono [OF recv_ok [simplified]])
  show ?thesis using False assms(2)
    unfolding PCD_ReadRegister_def
    by (auto simp: Let_def ensures_rd intro!: ensures_mono [OF send_ok] ensures_mono [OF send_recv_ok [simplified]] rest [of 0, simplified] rest [of 1, simplified])
qed (simp add: PCD_ReadRegister_def)

lemma clear_ok: "ensures (PCD_ClearRegisterBitMask R r v w) (\<lambda>_. True)"
  unfolding PCD_ClearRegisterBitMask_def by (auto intro!: ensures_mono [OF read_ok] ensures_mono [OF write_ok])

lemma set_ok: "ensures (PCD_SetRegisterBitMask R r v w) (\<lambda>_. True)"
  unfolding PCD_SetRegisterBitMask_def by (auto intro!: ensures_mono [OF read_ok] ensures_mono [OF write_ok])

lemma crc_poll_ok: "ensures (crc_poll R i w) (\<lambda>(status, crc, _). length crc \<le> 2 \<and> (status = STATUS_OK \<longrightarrow> length crc = 2))"
proof (induction i arbitrary: w)
  case (Suc i)
  then show ?case
    by (auto intro!: ensures_mono [OF read_ok] ensures_mono [OF write_ok])
qed simp

lemma crc_ok:
  "n \<noteq> 0 \<Longrightarrow> unat n \<le> length bs \<Longrightarrow>
   ensures (PCD_CalculateCRC R bs n w) (\<lambda>(status, crc, _). length crc \<le> 2 \<and> (status = STATUS_OK \<longrightarrow> length crc = 2))"
  unfolding PCD_CalculateCRC_def
  by (auto intro!: ensures_mono [OF write_ok] ensures_mono [OF write_bytes_ok] ensures_mono [OF crc_poll_ok])

lemma picc_poll_ok: "ensures (picc_poll R irq i w) (\<lambda>_. True)"
proof (induction i arbitrary: w)
  case (Suc i)
  then show ?case by (auto intro!: ensures_mono [OF read_ok] ensures_mono [OF write_ok])
qed simp

text \<open>An exchange without a check of the answer, into a buffer of at least two bytes.\<close>

lemma transceive_ok:
  assumes "n \<noteq> 0" "unat n \<le> length bs" and "off + unat len \<le> length buf" "off + 1 < length buf"
  shows "ensures (PCD_TransceiveData R bs n (Some (buf, off, len)) (Some v) al False w)
    (\<lambda>(status, dest, v', _). \<exists>buf' len' v1. dest = Some (buf', off, len') \<and> length buf' = length buf \<and> v' = Some v1)"
proof -
  have r: "ensures (read_answer R e (Some (buf, off, len)) (Some v) al False w)
    (\<lambda>(status, dest, v', _). \<exists>buf' len' v1. dest = Some (buf', off, len') \<and> length buf' = length buf \<and> v' = Some v1)" for e w
    unfolding read_answer_def using assms(3,4)
    by (auto simp: Let_def word_le_nat_alt not_less intro!: ensures_mono [OF read_ok] ensures_mono [OF read_register_ok])
  show ?thesis
    unfolding PCD_TransceiveData_def PCD_CommunicateWithPICC_def
    using assms(1,2)
    by (auto simp: Let_def intro!: ensures_mono [OF write_ok] ensures_mono [OF write_bytes_ok] ensures_mono [OF set_ok]
        ensures_mono [OF picc_poll_ok] ensures_mono [OF read_ok] r [simplified])
qed

section \<open>The selection\<close>

lemma prepare_select_ok:
  "length (buffer s) = 9 \<Longrightarrow> ensures (prepare_select R s w) (\<lambda>(status, s', n, _). length (buffer s') = 9 \<and> n = 9
     \<and> currentLevelKnownBits s' = currentLevelKnownBits s \<and> responseBuffer s' = 6 \<and> responseLength s' = 3)"
  unfolding prepare_select_def
  by (auto simp: ensures_mem intro!: ensures_mono [OF crc_ok])

lemma prepare_anticollision_ok:
  assumes "length (buffer s) = 9" and "currentLevelKnownBits s < 32"
  shows "ensures (prepare_anticollision s) (\<lambda>(s', n). length (buffer s') = 9 \<and> n \<noteq> 0 \<and> unat n \<le> 9
     \<and> currentLevelKnownBits s' = currentLevelKnownBits s
     \<and> responseBuffer s' + unat (responseLength s') = 9 \<and> responseBuffer s' \<le> 5)"
proof -
  let ?i = "2 + currentLevelKnownBits s div 8"
  have i: "?i \<le> 5" using assms(2) by simp
  have "unat (word_of_nat (9 - ?i) :: u8) = 9 - ?i" by (rule unat_of_nat_u8) simp
  moreover have "unat (word_of_nat (?i + k) :: u8) = ?i + k" if "k \<le> 1" for k
    using that i by (intro unat_of_nat_u8) linarith
  from this [of 0] this [of 1] have "\<forall>k\<le>1. word_of_nat (?i + k) \<noteq> (0 :: u8) \<and> unat (word_of_nat (?i + k) :: u8) \<le> 9"
    using i by (auto simp: le_Suc_eq unat_eq_0 [symmetric] simp del: of_nat_add of_nat_Suc)
  ultimately show ?thesis using assms(1) i
    by (simp add: prepare_anticollision_def Let_def ensures_wr del: of_nat_add of_nat_Suc)
qed

lemma on_collision_ok:
  assumes "length (buffer s) = 9"
  shows "ensures (on_collision R s w) (\<lambda>(flow, s', _). length (buffer s') = 9 \<and> flow \<noteq> Finished)"
proof -
  have tail: "ensures (if v AND 0x20 \<noteq> 0 then Some (Return STATUS_COLLISION, s, w)
     else do {
       let pos = unat (v AND 0x1F);
       let collisionPos = (if pos = 0 then 32 else pos);
       if collisionPos \<le> currentLevelKnownBits s then Some (Return STATUS_INTERNAL_ERROR, s, w)
       else do {
         let count = collisionPos mod 8;
         let checkBit = (collisionPos - 1) mod 8;
         let index = 1 + collisionPos div 8 + (if count \<noteq> 0 then 1 else 0);
         old \<leftarrow> rd (buffer s) index;
         b \<leftarrow> wr (buffer s) index (old OR push_bit checkBit 1);
         Some (Again, s\<lparr>currentLevelKnownBits := collisionPos, buffer := b\<rparr>, w) } })
    (\<lambda>(flow, s', _). length (buffer s') = 9 \<and> flow \<noteq> Finished)" for v :: u8 and w
  proof -
    have "v AND 0x1F \<le> 0x1F" by (rule word_and_le1)
    then have "unat (v AND 0x1F) < 32" by (simp add: word_le_nat_alt)
    moreover from this have "unat (v AND 0x1F) div 8 < 4" by simp
    ultimately show ?thesis using assms by (auto simp: Let_def ensures_mem)
  qed
  show ?thesis
    unfolding on_collision_def
    by (simp only: ensures_simps) (rule ensures_mono [OF read_ok], simp only: split_paired_all prod.case, rule tail)
qed

text \<open>A turn keeps the buffer's length; a turn that ends the level has its answer behind the frame.\<close>

lemma select_exchange_ok:
  assumes "length (buffer s) = 9" and "n \<noteq> 0" "unat n \<le> 9" and "responseBuffer s + unat (responseLength s) \<le> 9" "responseBuffer s \<le> 7"
    and "currentLevelKnownBits s \<ge> 32 \<longrightarrow> responseBuffer s = 6"
  shows "ensures (select_exchange R s n w) (\<lambda>(flow, s', _). length (buffer s') = 9 \<and> (flow = Finished \<longrightarrow> responseBuffer s' = 6))"
  unfolding select_exchange_def
  using assms
  by (auto simp: Let_def intro!: ensures_mono [OF write_ok] ensures_mono [OF transceive_ok] ensures_mono [OF on_collision_ok])

lemma select_turn_ok:
  assumes "length (buffer s) = 9"
  shows "ensures (select_turn R s w) (\<lambda>(flow, s', _). length (buffer s') = 9 \<and> (flow = Finished \<longrightarrow> responseBuffer s' = 6))"
proof (cases "currentLevelKnownBits s \<ge> 32")
  case True
  with assms show ?thesis
    unfolding select_turn_def
    by (auto intro!: ensures_mono [OF prepare_select_ok] ensures_mono [OF select_exchange_ok])
next
  case False
  with assms show ?thesis
    unfolding select_turn_def
    by (auto intro!: ensures_mono [OF prepare_anticollision_ok] ensures_mono [OF select_exchange_ok])
qed

lemma select_loop_ok:
  "length (buffer s) = 9 \<Longrightarrow>
   ensures (select_loop R s w) (\<lambda>(flow, s', _). length (buffer s') = 9 \<and> (flow = Finished \<longrightarrow> responseBuffer s' = 6) \<and> flow \<noteq> Again)"
proof (induction "33 - currentLevelKnownBits s" arbitrary: s w rule: less_induct)
  case less
  from select_turn_ok [OF less.prems, of w] obtain flow s' w' where
    t: "select_turn R s w = Some (flow, s', w')" "length (buffer s') = 9" "flow = Finished \<longrightarrow> responseBuffer s' = 6"
    by (auto simp: ensures_def split: option.splits)
  show ?case
  proof (cases flow)
    case Again
    with select_turn_progress t(1) have "33 - currentLevelKnownBits s' < 33 - currentLevelKnownBits s" by fastforce
    from less.hyps [OF this t(2), of w'] t(1) Again show ?thesis by (simp add: select_loop.simps [of R s])
  qed (use t in \<open>simp_all add: select_loop.simps [of R s]\<close>)
qed

section \<open>The levels\<close>

lemma level_start_ok:
  assumes "length (uid_byte u) = 10" and "length b = 9" and "1 \<le> level" "level \<le> 3"
  shows "ensures (level_start u v level b) (\<lambda>(b', _). length b' = 9)"
proof -
  obtain sel ct where sel: "(if level = 1 then (PICC_CMD_SEL_CL1, v \<noteq> 0 \<and> uid_size u > 4)
        else if level = 2 then (PICC_CMD_SEL_CL2, v \<noteq> 0 \<and> uid_size u > 7) else (PICC_CMD_SEL_CL3, False)) = (sel, ct)"
    by fastforce
  have "3 * (level - 1) + min k 4 \<le> 10" "3 * (level - 1) + min k 3 \<le> 10" "min k 4 \<le> 4" "min k 3 \<le> 3" for k :: nat
    using assms(4) by linarith+
  then show ?thesis
    using assms(1,2) unfolding level_start_def sel
    by (cases ct)
      (simp_all add: Let_def ensures_rd_block ensures_wr ensures_blit_length [where n = 3] ensures_blit_length [where n = 4]
        min_le_iff_disj split del: if_split)
qed

lemma level_end_ok:
  assumes "length (uid_byte u) = 10" and "length (buffer s) = 9" and "1 \<le> level" "level \<le> 3" and "responseBuffer s = 6"
  shows "ensures (level_end R u level s w) (\<lambda>(_, u', b', _). length (uid_byte u') = 10 \<and> length b' = 9)"
proof -
  have "3 * (level - 1) + 4 \<le> 10" using assms(4) by simp
  then show ?thesis
    using assms(1,2,5) unfolding level_end_def
    by (auto simp: Let_def ensures_mem intro!: ensures_mono [OF crc_ok])
qed

lemma select_level_ok:
  assumes "length (uid_byte u) = 10" and "length b = 9" and "1 \<le> level" "level \<le> 3"
  shows "ensures (select_level R u v level b w) (\<lambda>(_, u', b', _). length (uid_byte u') = 10 \<and> length b' = 9)"
  unfolding select_level_def
  using assms
  by (auto intro!: ensures_mono [OF level_start_ok] ensures_mono [OF select_loop_ok] ensures_mono [OF level_end_ok]
      split: flow.split)

lemma cascade_loop_ok:
  "length (uid_byte u) = 10 \<Longrightarrow> length b = 9 \<Longrightarrow> 1 \<le> level \<Longrightarrow>
   ensures (cascade_loop R u v level b w) (\<lambda>(_, u', _). length (uid_byte u') = 10)"
proof (induction "4 - level" arbitrary: level u b w)
  case 0
  then show ?case by (simp add: cascade_loop.simps)
next
  case (Suc n)
  then have "level \<le> 3" by simp
  with select_level_ok [OF Suc.prems(1,2,3), of v w] obtain flow u' b' w' where
    l: "select_level R u v level b w = Some (flow, u', b', w')" "length (uid_byte u') = 10" "length b' = 9"
    by (auto simp: ensures_def split: option.splits)
  with Suc.hyps(1) [of "Suc level" u' b' w'] Suc.hyps(2) \<open>level \<le> 3\<close> show ?case
    by (simp add: cascade_loop.simps [of R u] split: flow.split)
qed

lemma select_comes_back:
  "length (uid_byte u) = 10 \<Longrightarrow> ensures (PICC_Select R u v w) (\<lambda>(_, u', _). length (uid_byte u') = 10)"
  unfolding PICC_Select_def
  by (auto intro!: ensures_mono [OF clear_ok] ensures_mono [OF cascade_loop_ok])

lemma present_comes_back: "ensures (PICC_IsNewCardPresent R w) (\<lambda>_. True)"
  unfolding PICC_IsNewCardPresent_def PICC_RequestA_def PICC_REQA_or_WUPA_def
  by (auto simp: Let_def intro!: ensures_mono [OF write_ok] ensures_mono [OF clear_ok] ensures_mono [OF transceive_ok])

section \<open>Setting the chip up\<close>

lemma reset_wait_ok: "ensures (reset_wait R n w) (\<lambda>_. True)"
proof (induction n arbitrary: w)
  case (Suc n)
  then show ?case by (auto intro!: ensures_mono [OF read_ok])
qed simp

lemma reset_ok: "ensures (PCD_Reset R w) (\<lambda>_. True)"
  unfolding PCD_Reset_def by (auto intro!: ensures_mono [OF write_ok] reset_wait_ok)

lemma set_up_ok: "ensures (PCD_Init R w) (\<lambda>_. True)"
proof -
  have on: "ensures (PCD_AntennaOn R w) (\<lambda>_. True)" for w
    unfolding PCD_AntennaOn_def by (auto intro!: ensures_mono [OF read_ok] write_ok)
  show ?thesis
    unfolding PCD_Init_def
    by (auto simp: Let_def split_def intro!: ensures_mono [OF write_ok] ensures_mono [OF reset_ok] on)
qed

lemma self_test_ok: "ensures (PCD_PerformSelfTest R w) (\<lambda>_. True)"
proof -
  have wait: "ensures (self_test_wait R n w) (\<lambda>_. True)" for n w
  proof (induction n arbitrary: w)
    case (Suc n)
    then show ?case by (auto intro!: ensures_mono [OF read_ok])
  qed simp
  show ?thesis
    unfolding PCD_PerformSelfTest_def
    by (auto simp: Let_def split: option.split intro!: ensures_mono [OF reset_ok] ensures_mono [OF write_ok] ensures_mono [OF write_bytes_ok]
        ensures_mono [OF wait] ensures_mono [OF read_register_ok] ensures_mono [OF read_ok] ensures_mono [OF set_up_ok])
qed

end

section \<open>The bus of the board\<close>

text \<open>Each transfer of bytes within its buffers comes back, whatever the pins read.\<close>

lemma items_4line_ok:
  fixes send recv :: "'a::len word list option"
  shows "(case send of None \<Rightarrow> True | Some xs \<Rightarrow> k + n \<le> length xs) \<Longrightarrow> (case recv of None \<Rightarrow> True | Some xs \<Rightarrow> k + n \<le> length xs) \<Longrightarrow>
   ensures (items_4line P L o1 send k n recv w) (\<lambda>(recv', _). map_option length recv' = map_option length recv)"
proof (induction n arbitrary: k recv w)
  case (Suc n)
  have tx: "\<exists>tx. tx_item send k = Some tx" using Suc.prems(1) by (auto simp: tx_item_def rd_def split: option.splits)
  have rx: "\<exists>r. rx_item recv k x = Some r \<and> map_option length r = map_option length recv
      \<and> (case r of None \<Rightarrow> True | Some xs \<Rightarrow> k + 1 + n \<le> length xs)" for x
    using Suc.prems(2) by (auto simp: rx_item_def wr_def split: option.splits)
  from tx obtain t where t: "tx_item send k = Some t" by blast
  obtain x w' where b: "bits_4line P L o1 n t LENGTH('a) (mask LENGTH('a)) w = (x, w')" by fastforce
  from rx [of x] obtain r where r: "rx_item recv k x = Some r" "map_option length r = map_option length recv"
    "case r of None \<Rightarrow> True | Some xs \<Rightarrow> k + 1 + n \<le> length xs" by blast
  have "case send of None \<Rightarrow> True | Some xs \<Rightarrow> k + 1 + n \<le> length xs" using Suc.prems(1) by (simp split: option.splits)
  from Suc.IH [OF this r(3), of w'] show ?case using t b r by simp
qed simp

definition soft_transfer :: "'w pins \<Rightarrow> soft_spi_config \<Rightarrow> spi_device \<Rightarrow> spi_bus \<Rightarrow> spi_message list \<Rightarrow> 'w \<Rightarrow> (spi_message list \<times> 'w) option" where
  "soft_transfer P L d o1 ms w = map_option (\<lambda>(ms, _, w). (ms, w)) (rt_spi_transfer_message P L d ms (o1, w))"

lemma soft_owned: "bus_owner o1 = Some (dev_id d) \<Longrightarrow> soft_transfer P L d o1 ms w = messages_loop P L d o1 ms w"
  by (cases ms) (simp_all add: soft_transfer_def rt_spi_transfer_message_def option.map_comp comp_def split_def option.map_ident)

text \<open>The bus as it is after its only device's first transfer.\<close>

definition byte_bus :: "spi_device \<Rightarrow> spi_bus \<Rightarrow> bool" where
  "byte_bus d o1 \<longleftrightarrow> bus_owner o1 = Some (dev_id d) \<and> data_width (bus_config o1) \<le> 8 \<and> \<not> has_flag o1 RT_SPI_3WIRE"

lemma any_bus_soft:
  assumes b: "byte_bus d o1" and R: "spi_transfer R = soft_transfer P L d o1"
  shows "any_bus R"
proof
  have "\<forall>m\<in>set ms. good_message m \<Longrightarrow> ensures (messages_loop P L d o1 ms w) (\<lambda>(ms', w').
      map (\<lambda>m. map_option length (msg_recv_buf m)) ms' = map (\<lambda>m. map_option length (msg_recv_buf m)) ms)" for ms w
  proof (induction ms arbitrary: w)
    case (Cons m ms)
    then have g: "good_message m" by simp
    then have "ensures (items_4line P L o1 (msg_send_buf m) 0 (msg_length m) (msg_recv_buf m) w)
        (\<lambda>(recv', _). map_option length recv' = map_option length (msg_recv_buf m))"
      by (intro items_4line_ok) (auto simp: good_message_def split: option.splits)
    with g b Cons show ?case
      by (auto simp: spi_bit_xfer_def spi_bit_data_def byte_bus_def spi_xfer_4line_data8_def good_message_def
          elim!: ensures_mono intro!: ensures_mono [OF Cons.IH])
  qed simp
  with b show "ensures (spi_transfer R ms w) (\<lambda>(ms', w').
      map (\<lambda>m. map_option length (msg_recv_buf m)) ms' = map (\<lambda>m. map_option length (msg_recv_buf m)) ms)"
    if "\<forall>m\<in>set ms. good_message m" for ms w
    using that by (simp add: R soft_owned byte_bus_def)
qed

text \<open>The reader on the board: the SPI lines, the select line and what the reset line is.\<close>

definition board_bus :: spi_bus where
  "board_bus = \<lparr>bus_owner = Some 1, bus_config = dev_config rc522_device, delay_us = 0\<rparr>"

definition board_reader :: "'w pins \<Rightarrow> (nat \<Rightarrow> 'w \<Rightarrow> 'w) \<Rightarrow> 'w reader" where
  "board_reader P delay = \<lparr>spi_transfer = soft_transfer P board_lines rc522_device board_bus, reader_pins = P, reader_mdelay = delay,
     chipSelectPin = 0, resetPowerDownPin = 255, start_timer = id, timer_flag = Pair False, clear_flag = id\<rparr>"

lemma board_byte_bus: "byte_bus rc522_device board_bus"
  by (simp add: byte_bus_def board_bus_def rc522_device_def has_flag_def)

interpretation board_bus: any_bus "board_reader P delay" for P :: "'w pins" and delay
  by (rule any_bus_soft [OF board_byte_bus]) (simp add: board_reader_def)

text \<open>
  C28: the search for a card comes back, whatever the wires say. On the software SPI bus, with any pins
  - a chip, a broken wire, noise - the chip is set up (\<open>PCD_Init\<close>) and tested (\<open>PCD_PerformSelfTest\<close>),
  \<open>PICC_IsNewCardPresent\<close> gives an answer, and \<open>PICC_Select\<close> gives a status
  for every start of a serial number, valid bits and all; the ten bytes of the \<open>Uid\<close> stay ten, no access leaves
  a buffer, no assertion fails, and each polling loop ends.
\<close>

theorem select_safe:
  assumes "byte_bus d o1" and "spi_transfer R = soft_transfer P L d o1" and "length (uid_byte u) = 10"
  shows "(\<exists>status u' w'. PICC_Select R u v w = Some (status, u', w') \<and> length (uid_byte u') = 10)
    \<and> (\<exists>present w'. PICC_IsNewCardPresent R w = Some (present, w'))
    \<and> (\<exists>w'. PCD_Init R w = Some w') \<and> (\<exists>passed w'. PCD_PerformSelfTest R w = Some (passed, w'))"
  using any_bus.select_comes_back [OF any_bus_soft [OF assms(1,2)] assms(3), of v w]
    any_bus.present_comes_back [OF any_bus_soft [OF assms(1,2)], of w]
    any_bus.set_up_ok [OF any_bus_soft [OF assms(1,2)], of w] any_bus.self_test_ok [OF any_bus_soft [OF assms(1,2)], of w]
  by (auto simp: ensures_def split: option.splits)

text \<open>A bus on which every line reads high.\<close>

theorem select_safe_witness:
  "\<exists>status u' w'. PICC_Select (board_reader \<lparr>rt_pin_write = (\<lambda>p v n. n + 1), rt_pin_read = (\<lambda>p n. (True, n)),
      rt_pin_mode = (\<lambda>p m n. n), pin_udelay = (\<lambda>d n. n)\<rparr> (\<lambda>t n. n)) \<lparr>uid_size = 0, uid_byte = replicate 10 0, sak = 0\<rparr> 0 (0 :: nat)
    = Some (status, u', w') \<and> length (uid_byte u') = 10"
proof -
  let ?P = "\<lparr>rt_pin_write = (\<lambda>p v n. n + 1), rt_pin_read = (\<lambda>p n. (True, n)),
      rt_pin_mode = (\<lambda>p m n. n), pin_udelay = (\<lambda>d n. n)\<rparr> :: nat pins"
  have "spi_transfer (board_reader ?P (\<lambda>t n. n)) = soft_transfer ?P board_lines rc522_device board_bus"
    by (simp only: board_reader_def reader.select_convs)
  from select_safe [OF board_byte_bus this, of "\<lparr>uid_size = 0, uid_byte = replicate 10 0, sak = 0\<rparr>" 0 0] show ?thesis
    by (simp only: uid.select_convs length_replicate simp_thms)
qed

end
