(* ===== verification/Rc522_Registers.thy ===== *)
theory Rc522_Registers
  imports Rc522_Chip
begin

text \<open>
  The driver over the chip: each access to a register is the chip's, and the CRC and the exchange of a
  frame come back with the checksum and the card's answer.
\<close>

section \<open>Bytes on the bus\<close>

lemma bit_0x80: "bit (0x80 :: u8) n \<longleftrightarrow> n = 7"
  using bit_exp_iff [where ?'a = u8, of 7 n] by auto

lemma bit_0x7F: "bit (0x7F :: u8) n \<longleftrightarrow> n < 7"
  using bit_mask_iff [where ?'a = u8, of 7 n] by (auto simp: mask_eq_exp_minus_1)

lemma address_bits: "\<not> bit (r :: u8) 7 \<Longrightarrow> (0x80 OR r) AND 0x7F = r" "bit (0x80 OR r :: u8) 7" "bit (0xFF :: u8) 7"
proof -
  assume r: "\<not> bit r 7"
  have "bit r n \<Longrightarrow> n < 7" for n
    using r bit_imp_le_length [of r n] by (cases "n = 7") auto
  then show "(0x80 OR r) AND 0x7F = r"
    by (intro bit_eqI) (auto simp: bit_and_iff bit_or_iff bit_0x80 bit_0x7F simp del: bit_numeral_word_iff)
qed (simp_all add: bit_or_iff bit_0x80)

lemma chip_byte_simps:
  "chip_byte E b (c, Selected) = (0, if bit b 7 then link_read b c else (c, Writing b))"
  "chip_byte E b (c, Writing r) = (0, chip_set E r b c, Writing r)"
  "chip_byte E b (c, Reading v) = (v, link_read b c)"
  by (simp_all add: chip_byte_def)

text \<open>Writing an address and values.\<close>

lemma items_writing:
  "n \<le> length bs - k \<Longrightarrow> k \<le> length bs \<Longrightarrow> byte_items (chip_byte E) (Some bs) k n None (c, Writing r)
     = Some (None, fold (chip_set E r) (take n (drop k bs)) c, Writing r)"
proof (induction n arbitrary: k c)
  case (Suc n)
  then have "take (Suc n) (drop k bs) = bs ! k # take n (drop (Suc k) bs)"
    by (metis Cons_nth_drop_Suc Suc_leI diff_is_0_eq le_neq_implies_less not_less_eq_eq take_Suc_Cons zero_le)
  with Suc show ?case by (simp add: tx_item_def rx_item_def rd_def chip_byte_simps)
qed simp

text \<open>An idle read, of the address all ones, is of a register that is not there.\<close>

lemma link_read_address: "\<not> bit r 7 \<Longrightarrow> link_read (0x80 OR r) c = (snd (chip_get r c), Reading (fst (chip_get r c)))"
  by (simp add: link_read_def address_bits split: prod.split)

lemma link_read_idle: "link_read 0xFF c = (c, Reading (ch_regs c 0x7F))"
  by (simp add: link_read_def chip_get_def)

context wired begin

abbreviation quiet :: "chip \<Rightarrow> 'w \<Rightarrow> 'w" where "quiet c w \<equiv> store (c, Deselected) w"

lemmas store_simps = look_store store_store

lemma plain: "\<not> cs_take (plain_message s r n)" "\<not> cs_release (plain_message s r n)" "msg_length (plain_message s r n) = n"
  "msg_send_buf (plain_message s r n) = s" "msg_recv_buf (plain_message s r n) = r"
  by (simp_all add: plain_message_def)

lemma spi_send:
  "0 < n \<Longrightarrow> mfrc522_spi_send R bs n w
     = map_option (\<lambda>(_, s). store s w) (byte_items (chip_byte E) (Some bs) 0 n None (look w))"
  by (simp add: mfrc522_spi_send_def wired_transfer plain option.map_comp)
     (auto simp: option.map_comp comp_def split: prod.splits bind_splits)

lemma spi_send1: "mfrc522_spi_send R [a] (Suc 0) w = Some (store (snd (chip_byte E a (look w))) w)"
  by (simp add: spi_send tx_item_def rx_item_def rd_def split: prod.splits)

lemma spi_recv1: "mfrc522_spi_recv R [x] (Suc 0) w
    = Some ([fst (chip_byte E 0xFF (look w))], store (snd (chip_byte E 0xFF (look w))) w)"
  by (simp add: mfrc522_spi_recv_def wired_transfer plain received_def tx_item_def rx_item_def wr_def mask_eq_exp_minus_1
      split: prod.splits)

lemma spi_send_recv1:
  "mfrc522_spi_send_then_recv R [a] (Suc 0) [x] (Suc 0) w
     = mfrc522_spi_recv R [x] (Suc 0) (store (snd (chip_byte E a (look w))) w)"
  by (simp add: mfrc522_spi_send_then_recv_def spi_recv1 wired_transfer plain received_def
      store_simps tx_item_def rx_item_def rd_def wr_def mask_eq_exp_minus_1 split: prod.splits)

lemma cs_quiet [simp]: "chip_select R False (quiet c w) = store (c, Selected) w"
  "chip_select R True (store s w) = quiet (fst s) w"
  by (simp_all add: wired_select store_simps chip_line_def)

section \<open>Registers\<close>

lemma write_byte:
  "\<not> bit r 7 \<Longrightarrow> PCD_WriteReg_Byte R r v (quiet c w) = Some (quiet (chip_set E r v c) w)"
  by (simp add: PCD_WriteReg_Byte_def spi_send store_simps numeral_2_eq_2 tx_item_def rx_item_def rd_def chip_byte_simps)

lemma write_bytes:
  assumes "\<not> bit r 7" and "n \<noteq> 0" and "unat n \<le> length bs"
  shows "PCD_WriteRegister R r n bs (quiet c w) = Some (quiet (fold (chip_set E r) (take (unat n) bs) c) w)"
proof -
  have "0 < unat n" using assms(2) by (simp add: unat_gt_0)
  with assms items_writing [of "unat n" bs 0 E c r] show ?thesis
    by (simp add: PCD_WriteRegister_def spi_send1 spi_send [of "unat n"] store_simps chip_byte_simps del: byte_items.simps)
qed

lemma read_byte:
  "\<not> bit r 7 \<Longrightarrow> PCD_ReadReg_Byte R r (quiet c w) = Some (fst (chip_get r c), quiet (snd (chip_get r c)) w)"
  by (simp add: PCD_ReadReg_Byte_def spi_send1 spi_recv1 store_simps chip_byte_simps
      link_read_address link_read_idle address_bits rd_def)

text \<open>Reading the buffer of the chip: a byte for each address.\<close>

lemma fifo_address [simp]: "ch_fifo c = v # bs \<Longrightarrow> link_read 0x92 c = (c\<lparr>ch_fifo := bs\<rparr>, Reading v)"
  by (simp add: link_read_def chip_get_def)

lemma fifo_next:
  "ch_fifo c = v # bs \<Longrightarrow> i < length vals \<Longrightarrow>
   recv_at (\<lambda>b. mfrc522_spi_send_then_recv R [0x92] (Suc 0) b (Suc 0)) vals i (store (c, Reading j) w)
     = Some (vals[i := v], store (c\<lparr>ch_fifo := bs\<rparr>, Reading (ch_regs c 0x7F)) w)"
  by (simp add: recv_at_def rd_def spi_send_recv1 spi_recv1 store_simps chip_byte_simps link_read_idle)

lemma fifo_loop:
  "ch_fifo c = bs @ rest \<Longrightarrow> index + length bs = count + 1 \<Longrightarrow> off + index + length bs \<le> length vals \<Longrightarrow>
   \<exists>j'. read_loop R 0x92 off index count vals (store (c, Reading j) w)
     = Some (take (off + index) vals @ bs @ drop (off + index + length bs) vals, store (c\<lparr>ch_fifo := rest\<rparr>, Reading j') w)"
proof (induction bs arbitrary: c index vals j)
  case Nil
  then show ?case by (auto simp: read_loop.simps)
next
  case (Cons b bs)
  let ?vals = "vals[off + index := b]"
  have "take (off + Suc index) ?vals @ bs @ drop (off + Suc index + length bs) ?vals
      = take (off + index) vals @ (b # bs) @ drop (off + index + length (b # bs)) vals"
    using Cons.prems(3) by (simp add: take_Suc_conv_app_nth)
  with Cons.IH [of "c\<lparr>ch_fifo := bs @ rest\<rparr>" "Suc index" ?vals] Cons.prems show ?case
    by (subst read_loop.simps) (simp add: fifo_next)
qed

lemma read_fifo:
  assumes f: "ch_fifo c = bs @ rest" and n: "unat n = length bs" and room: "off + length bs \<le> length vals"
  shows "PCD_ReadRegister R FIFODataReg n vals off 0 (quiet c w)
    = Some (take off vals @ bs @ drop (off + length bs) vals, quiet (c\<lparr>ch_fifo := rest\<rparr>) w)"
proof (cases bs)
  case Nil
  then have "n = 0" using n by (simp add: unat_eq_0)
  moreover have "c\<lparr>ch_fifo := rest\<rparr> = c" using f Nil by simp
  ultimately show ?thesis using Nil by (simp add: PCD_ReadRegister_def)
next
  case (Cons b bs')
  then have n0: "n \<noteq> 0" using n by auto
  then have n1: "unat (n - 1) = length bs'" using n Cons by (simp add: unat_minus_one)
  let ?vals = "vals[off := b]"
  have "take (off + 1) ?vals @ bs' @ drop (off + 1 + length bs') ?vals = take off vals @ bs @ drop (off + length bs) vals"
    using room Cons by (simp add: take_Suc_conv_app_nth)
  with fifo_loop [of "c\<lparr>ch_fifo := bs' @ rest\<rparr>" bs' rest 1 "length bs'" off ?vals "ch_regs c 0x7F" w] f Cons room n0 n1
  show ?thesis
    by (auto simp: PCD_ReadRegister_def spi_send1 spi_recv1 recv_at_def rd_def store_simps chip_byte_simps link_read_idle)
qed

text \<open>
  When the first bits belong into a byte that is there already, the driver reads the register
  once more than it keeps: the first byte of the answer is lost, the second is merged, and what an idle
  address brings lands behind it.
\<close>

lemma read_fifo_aligned:
  assumes f: "ch_fifo c = b0 # b1 # bs @ rest" and n: "unat n = length bs + 2" and a: "rxAlign \<noteq> 0"
    and room: "off + length bs + 2 \<le> length vals"
  shows "PCD_ReadRegister R FIFODataReg n vals off rxAlign (quiet c w)
    = Some (take off vals @ [(vals ! off AND NOT (push_bit (unat rxAlign) 0xFF)) OR (b1 AND push_bit (unat rxAlign) 0xFF),
        ch_regs c 0x7F] @ bs @ drop (off + length bs + 2) vals, quiet (c\<lparr>ch_fifo := rest\<rparr>) w)"
proof -
  have n0: "n \<noteq> 0" using n by auto
  then have n1: "unat (n - 1) = length bs + 1" using n by (simp add: unat_minus_one)
  let ?v = "(vals ! off AND NOT (push_bit (unat rxAlign) 0xFF)) OR (b1 AND push_bit (unat rxAlign) 0xFF)"
  let ?vals = "vals[off := ?v, Suc off := ch_regs c 0x7F]"
  have "take (off + 2) ?vals @ bs @ drop (off + 2 + length bs) ?vals
      = take off vals @ [?v, ch_regs c 0x7F] @ bs @ drop (off + length bs + 2) vals"
    using room by (simp add: take_Suc_conv_app_nth numeral_2_eq_2 add.commute add.left_commute)
  with fifo_loop [of "c\<lparr>ch_fifo := bs @ rest\<rparr>" bs rest 2 "length bs + 1" off ?vals "ch_regs c 0x7F" w] f room n0 n1 a
  show ?thesis
    by (auto simp: PCD_ReadRegister_def spi_send1 spi_recv1 spi_send_recv1 recv_at_def rd_def store_simps chip_byte_simps
        link_read_idle numeral_2_eq_2 Let_def)
qed

end

end
