(* ===== verification/Rc522_Frames.thy ===== *)
theory Rc522_Frames
  imports Rc522_Registers
begin

text \<open>
  The CRC coprocessor and the exchange of a frame, over the chip: the polls outlast the time the chip
  takes, the checksum is the chip's and the answer is the card's. Of the chip's state only the card
  matters for what follows, so the rules give that.
\<close>

definition field_hear :: "rf_env \<Rightarrow> bytes \<Rightarrow> u8 \<Rightarrow> card option \<Rightarrow> bytes option \<times> card option" where
  "field_hear E frame bits d = (case d of
       None \<Rightarrow> (None, None)
     | Some d \<Rightarrow> (fst (card_hear E frame bits d), Some (snd (card_hear E frame bits d))))"

lemma fifo_fold:
  "length (ch_fifo c) \<le> 64 \<Longrightarrow> fold (chip_set E FIFODataReg) bs c = c\<lparr>ch_fifo := take 64 (ch_fifo c @ bs)\<rparr>"
proof (induction bs arbitrary: c)
  case (Cons b bs)
  have s: "chip_set E FIFODataReg b c = c\<lparr>ch_fifo := take 64 (ch_fifo c @ [b])\<rparr>" by (simp add: chip_set_def)
  have "fold (chip_set E FIFODataReg) bs (chip_set E FIFODataReg b c)
      = (chip_set E FIFODataReg b c)\<lparr>ch_fifo := take 64 (ch_fifo (chip_set E FIFODataReg b c) @ bs)\<rparr>"
    by (rule Cons.IH) (simp add: s)
  moreover have "take 64 (take 64 (ch_fifo c @ [b]) @ bs) = take 64 (ch_fifo c @ b # bs)"
    using Cons.prems by (cases "length (ch_fifo c) = 64") auto
  ultimately show ?case by (simp add: s)
qed simp

lemma and_masks: "((x :: u8) AND NOT 4) AND 4 = 0" "(x AND NOT 0x7F) AND 0x30 = 0" "(x AND NOT 0x7F) AND 0x01 = 0"
proof -
  have "\<not> (n < 8 \<and> bit (4 :: u8) n \<and> \<not> bit (4 :: u8) n)" for n by simp
  then show "(x AND NOT 4) AND 4 = 0" by (intro bit_eqI) (auto simp: bit_simps)
  have "(NOT 0x7F :: u8) AND 0x30 = 0" "(NOT 0x7F :: u8) AND 0x01 = 0" by simp_all
  then show "(x AND NOT 0x7F) AND 0x30 = 0" "(x AND NOT 0x7F) AND 0x01 = 0"
    by (simp_all only: and.assoc and_zero_eq)
qed

lemma irq_write_0: "irq_write 0x04 x AND 0x04 = 0" "irq_write 0x7F x AND 0x30 = 0" "irq_write 0x7F x AND 0x01 = 0"
proof -
  have "\<not> bit (0x04 :: u8) 7" "\<not> bit (0x7F :: u8) 7" by simp_all
  then show "irq_write 0x04 x AND 0x04 = 0" "irq_write 0x7F x AND 0x30 = 0" "irq_write 0x7F x AND 0x01 = 0"
    by (simp_all only: irq_write_def if_False and_masks)
qed

lemma chip_start_heard:
  assumes "field_hear E (ch_fifo a) (ch_framing a AND 0x07) (ch_card a) = (reply, d)"
  shows "chip_start E a = a\<lparr>ch_fifo := [], ch_card := d, ch_wait := latency E, ch_control := 0,
     ch_due_com := (case reply of None \<Rightarrow> 0x01 | Some _ \<Rightarrow> 0x20), ch_due_fifo := (case reply of None \<Rightarrow> [] | Some r \<Rightarrow> r)\<rparr>"
proof -
  have "(case ch_card a of None \<Rightarrow> (None, None)
      | Some d \<Rightarrow> (let (reply, d) = card_hear E (ch_fifo a) (ch_framing a AND 0x07) d in (reply, Some d))) = (reply, d)"
    using assms by (simp add: field_hear_def case_prod_beta Let_def split: option.splits)
  then show ?thesis by (simp only: chip_start_def Let_def prod.case)
qed

lemma start_send:
  "ch_command a = PCD_Transceive \<Longrightarrow> v = 0 \<or> v = 7 \<Longrightarrow> chip_set E BitFramingReg (v OR 0x80) a = chip_start E (a\<lparr>ch_framing := v\<rparr>)"
  by (auto simp: chip_set_def Let_def)

context wired begin

section \<open>The checksum\<close>

lemma crc_poll_done:
  "ch_wait c < i \<Longrightarrow> ch_due_div c = 0x04 \<Longrightarrow> ch_div c AND 0x04 = 0 \<Longrightarrow>
   \<exists>c'. crc_poll R i (quiet c w) = Some (STATUS_OK, [fst (ch_crc c), snd (ch_crc c)], quiet c' w) \<and> ch_card c' = ch_card c"
proof (induction i arbitrary: c)
  case (Suc i)
  show ?case
  proof (cases "ch_wait c")
    case 0
    have "(ch_div c OR 4) AND 4 \<noteq> (0 :: u8)" by (simp add: bit.conj_disj_distrib2)
    with 0 Suc.prems show ?thesis
      by (simp add: read_byte write_byte chip_get_def chip_poll_def chip_set_def chip_command_def Let_def)
        (rule exI, rule conjI, rule refl, simp)
  next
    case (Suc n)
    with Suc.IH [of "c\<lparr>ch_wait := n\<rparr>"] Suc.prems show ?thesis
      by (simp add: read_byte chip_get_def chip_poll_def)
  qed
qed simp

lemma calculate_crc:
  assumes "n \<noteq> 0" and "unat n \<le> length bs" and "unat n \<le> 64" and "latency E < 5000"
  shows "\<exists>c'. PCD_CalculateCRC R bs n (quiet c w) = Some (STATUS_OK, crc_bytes E (take (unat n) bs), quiet c' w)
    \<and> ch_card c' = ch_card c"
proof -
  let ?start = "chip_set E FIFOLevelReg 0x80 (chip_set E DivIrqReg 0x04 (chip_set E CommandReg PCD_Idle c))"
  let ?filled = "?start\<lparr>ch_fifo := take (unat n) bs\<rparr>"
  let ?c = "chip_set E CommandReg PCD_CalcCRC ?filled"
  have "fold (chip_set E FIFODataReg) (take (unat n) bs) ?start = ?filled"
    using assms(3) fifo_fold [of ?start E "take (unat n) bs"] by (simp add: chip_set_def)
  moreover have "\<exists>c'. crc_poll R 5000 (quiet ?c w) = Some (STATUS_OK, [fst (ch_crc ?c), snd (ch_crc ?c)], quiet c' w)
      \<and> ch_card c' = ch_card ?c"
    by (rule crc_poll_done) (use assms(4) in \<open>simp_all add: chip_set_def chip_command_def Let_def irq_write_0\<close>)
  moreover have "ch_crc ?c = crc_a E (take (unat n) bs)" "ch_card ?c = ch_card c"
    by (simp_all add: chip_set_def chip_command_def Let_def)
  ultimately show ?thesis
    by (simp add: PCD_CalculateCRC_def write_byte write_bytes assms(1,2) crc_bytes_def)
qed

section \<open>The answer\<close>

lemma poll_answered:
  "ch_wait c < i \<Longrightarrow> ch_due_com c = 0x20 \<Longrightarrow> ch_com c AND 0x30 = 0 \<Longrightarrow> ch_com c AND 0x01 = 0 \<Longrightarrow>
   \<exists>c'. picc_poll R 0x30 i (quiet c w) = Some (True, quiet c' w) \<and> ch_card c' = ch_card c
     \<and> ch_fifo c' = ch_fifo c @ ch_due_fifo c \<and> ch_control c' = ch_control c"
proof (induction i arbitrary: c)
  case (Suc i)
  show ?case
  proof (cases "ch_wait c")
    case 0
    have "(ch_com c OR 0x20) AND 0x30 \<noteq> (0 :: u8)" by (simp add: bit.conj_disj_distrib2 or_eq_0_iff)
    with 0 Suc.prems show ?thesis by (simp add: read_byte chip_get_def chip_poll_def)
        (rule exI, rule conjI, rule refl, simp)
  next
    case (Suc n)
    with Suc.IH [of "c\<lparr>ch_wait := n\<rparr>"] Suc.prems show ?thesis
      by (simp add: read_byte chip_get_def chip_poll_def)
  qed
qed simp

lemma poll_silent:
  "ch_due_com c AND 0x30 = 0 \<Longrightarrow> ch_com c AND 0x30 = 0 \<Longrightarrow>
   \<exists>c'. picc_poll R 0x30 i (quiet c w) = Some (False, quiet c' w) \<and> ch_card c' = ch_card c"
proof (induction i arbitrary: c)
  case (Suc i)
  let ?c = "chip_poll c"
  have p: "ch_com ?c AND 0x30 = 0" "ch_due_com ?c AND 0x30 = 0" "ch_card ?c = ch_card c"
    using Suc.prems by (auto simp: chip_poll_def bit.conj_disj_distrib2 split: nat.split)
  let ?d = "chip_set E ComIrqReg 0x7F ?c"
  have d: "ch_com ?d AND 0x30 = 0" "ch_due_com ?d AND 0x30 = 0" "ch_card ?d = ch_card c"
    using p by (simp_all add: chip_set_def irq_write_0)
  from Suc.IH [of ?c] Suc.IH [of ?d] p d show ?case
    by (simp add: read_byte write_byte chip_get_def split del: if_split) (simp add: write_byte split: if_split)
qed auto

section \<open>A frame and its answer\<close>

text \<open>What the chip is in when the frame is out.\<close>

lemma frame_sent:
  assumes n: "n \<noteq> 0" "unat n \<le> length bs" "unat n \<le> 64" and v: "v = 0 \<or> v = 7" "vb = Some v \<or> vb = None \<and> v = 0"
    and heard: "field_hear E (take (unat n) bs) v (ch_card c) = (reply, d)"
  shows "\<exists>c1. PCD_TransceiveData R bs n dest vb 0 chk (quiet c w) = do {
       (finished, w) \<leftarrow> picc_poll R 0x30 2000 (quiet c1 w);
       if \<not> finished then Some (STATUS_TIMEOUT, dest, vb, w)
       else do {
         (errorRegValue, w) \<leftarrow> PCD_ReadReg_Byte R ErrorReg w;
         if errorRegValue AND 0x13 \<noteq> 0 then Some (STATUS_ERROR, dest, vb, w)
         else read_answer R errorRegValue dest vb 0 chk w } }
     \<and> ch_wait c1 = latency E \<and> ch_com c1 AND 0x30 = 0 \<and> ch_com c1 AND 0x01 = 0 \<and> ch_control c1 = 0 \<and> ch_fifo c1 = []
     \<and> ch_due_com c1 = (case reply of None \<Rightarrow> 0x01 | Some _ \<Rightarrow> 0x20)
     \<and> ch_due_fifo c1 = (case reply of None \<Rightarrow> [] | Some r \<Rightarrow> r) \<and> ch_card c1 = d"
proof -
  let ?start = "chip_set E FIFOLevelReg 0x80 (chip_set E ComIrqReg 0x7F (chip_set E CommandReg PCD_Idle c))"
  let ?filled = "?start\<lparr>ch_fifo := take (unat n) bs\<rparr>"
  let ?armed = "chip_set E CommandReg PCD_Transceive (chip_set E BitFramingReg v ?filled)"
  let ?sent = "chip_set E BitFramingReg (ch_framing ?armed OR 0x80) ?armed"
  have fill: "fold (chip_set E FIFODataReg) (take (unat n) bs) ?start = ?filled"
    using n(3) fifo_fold [of ?start E "take (unat n) bs"] by (simp add: chip_set_def)
  have vb: "(case vb of Some v \<Rightarrow> v | None \<Rightarrow> 0) = v" using v by auto
  have armed: "ch_command ?armed = 0x0C" "ch_framing ?armed = v" "ch_fifo ?armed = take (unat n) bs" "ch_card ?armed = ch_card c"
    "ch_com ?armed = irq_write 0x7F (ch_com c)"
    using v(1) by (auto simp: chip_set_def chip_command_def Let_def)
  have sent: "?sent = chip_start E (?armed\<lparr>ch_framing := v\<rparr>)"
    by (simp only: start_send [OF armed(1) v(1)] armed(2))
  have "v AND 0x07 = v" using v(1) by auto
  then have "field_hear E (ch_fifo (?armed\<lparr>ch_framing := v\<rparr>)) (ch_framing (?armed\<lparr>ch_framing := v\<rparr>) AND 0x07)
      (ch_card (?armed\<lparr>ch_framing := v\<rparr>)) = (reply, d)"
    by (simp add: armed heard)
  note c1 = sent [unfolded chip_start_heard [OF this], unfolded armed(2)]
  show ?thesis
    by (rule exI [of _ ?sent])
      (simp add: PCD_TransceiveData_def PCD_CommunicateWithPICC_def vb write_byte write_bytes read_byte n fill
        PCD_SetRegisterBitMask_def chip_get_def c1 armed irq_write_0 del: chip_set_def)
qed

lemma transceive_silent:
  assumes "n \<noteq> 0" "unat n \<le> length bs" "unat n \<le> 64" "v = 0 \<or> v = 7" "vb = Some v \<or> vb = None \<and> v = 0"
    and "field_hear E (take (unat n) bs) v (ch_card c) = (None, d)"
  shows "\<exists>c'. PCD_TransceiveData R bs n dest vb 0 chk (quiet c w) = Some (STATUS_TIMEOUT, dest, vb, quiet c' w) \<and> ch_card c' = d"
proof -
  from frame_sent [OF assms, of dest chk w] obtain c1 where c1: "PCD_TransceiveData R bs n dest vb 0 chk (quiet c w) = do {
       (finished, w) \<leftarrow> picc_poll R 0x30 2000 (quiet c1 w);
       if \<not> finished then Some (STATUS_TIMEOUT, dest, vb, w)
       else do {
         (errorRegValue, w) \<leftarrow> PCD_ReadReg_Byte R ErrorReg w;
         if errorRegValue AND 0x13 \<noteq> 0 then Some (STATUS_ERROR, dest, vb, w)
         else read_answer R errorRegValue dest vb 0 chk w } }"
    and "ch_com c1 AND 0x30 = 0" "ch_due_com c1 = 0x01" "ch_card c1 = d" by auto
  with poll_silent [of c1 2000 w] show ?thesis by auto
qed

lemma transceive_answered:
  assumes "n \<noteq> 0" "unat n \<le> length bs" "unat n \<le> 64" "v = 0 \<or> v = 7"
    and "field_hear E (take (unat n) bs) v (ch_card c) = (Some reply, d)" and l: "latency E < 2000"
    and room: "length reply \<le> unat len" "off + length reply \<le> length buf"
  shows "\<exists>c'. PCD_TransceiveData R bs n (Some (buf, off, len)) (Some v) 0 False (quiet c w)
      = Some (STATUS_OK, Some (take off buf @ reply @ drop (off + length reply) buf, off, word_of_nat (length reply)), Some 0, quiet c' w)
    \<and> ch_card c' = d"
proof -
  let ?dest = "Some (buf, off, len)"
  from frame_sent [OF assms(1-4) _ assms(5), of "Some v" ?dest False w]
  obtain c1 where c1: "PCD_TransceiveData R bs n ?dest (Some v) 0 False (quiet c w) = do {
       (finished, w) \<leftarrow> picc_poll R 0x30 2000 (quiet c1 w);
       if \<not> finished then Some (STATUS_TIMEOUT, ?dest, Some v, w)
       else do {
         (errorRegValue, w) \<leftarrow> PCD_ReadReg_Byte R ErrorReg w;
         if errorRegValue AND 0x13 \<noteq> 0 then Some (STATUS_ERROR, ?dest, Some v, w)
         else read_answer R errorRegValue ?dest (Some v) 0 False w } }"
    and "ch_wait c1 = latency E" "ch_com c1 AND 0x30 = 0" "ch_com c1 AND 0x01 = 0" "ch_due_com c1 = 0x20"
    and f: "ch_control c1 = 0" "ch_fifo c1 = []" "ch_due_fifo c1 = reply" "ch_card c1 = d" by auto
  with poll_answered [of c1 2000 w] l obtain c2 where c2: "picc_poll R 0x30 2000 (quiet c1 w) = Some (True, quiet c2 w)"
    "ch_card c2 = d" "ch_fifo c2 = reply" "ch_control c2 = 0" by auto
  have short: "length reply < 256" using room(1) unat_u8_less [of len] by simp
  then have u: "unat (word_of_nat (length reply) :: u8) = length reply" by (rule unat_of_nat_u8)
  with room(1) have "\<not> word_of_nat (length reply) > len" by (simp add: word_less_nat_alt)
  then show ?thesis
    using c1 c2 read_fifo [of c2 reply "[]" "word_of_nat (length reply)" off buf w] u room(2)
    by (simp add: read_byte chip_get_def read_answer_def Let_def) (rule exI, rule conjI, rule refl, simp)
qed

end

end
