(* ===== verification/Rc522_Select.thy ===== *)
theory Rc522_Select
  imports Rc522_Frames
begin

text \<open>
  The selection over the chip: a card that lies alone in the field is asked for its serial number level
  by level and ends up active, with its number in the reader's \<open>Uid\<close>.
\<close>

section \<open>Serial numbers\<close>

text \<open>
  ISO 14443-3: a serial number has 4, 7 or 10 bytes, and the first byte of the last level is not
  the cascade tag.
\<close>

definition proper_serial :: "bytes \<Rightarrow> bool" where
  "proper_serial s \<longleftrightarrow> (length s = 4 \<or> length s = 7 \<or> length s = 10) \<and> s ! (3 * (serial_levels s - 1)) \<noteq> PICC_CMD_CT"

lemma proper_levels:
  "proper_serial s \<Longrightarrow> length s = 3 * serial_levels s + 1 \<and> serial_levels s \<in> {1, 2, 3}"
  by (auto simp: proper_serial_def serial_levels_def)

lemma three_elements: "3 \<le> length xs \<Longrightarrow> \<exists>a b c r. xs = a # b # c # r"
  by (auto simp: numeral_3_eq_3 Suc_le_length_iff)

lemma four_elements: "length xs = 4 \<Longrightarrow> \<exists>a b c d. xs = [a, b, c, d]"
  by (auto simp: numeral_eq_Suc length_Suc_conv)

lemma level_bytes_inner: "k < serial_levels s \<Longrightarrow> 1 \<le> k \<Longrightarrow> length s = 3 * serial_levels s + 1 \<Longrightarrow>
    \<exists>a b c. level_bytes s k = [PICC_CMD_CT, a, b, c] \<and> take 3 (drop (3 * (k - 1)) s) = [a, b, c]"
proof -
  assume "k < serial_levels s" "1 \<le> k" "length s = 3 * serial_levels s + 1"
  then have "3 \<le> length (drop (3 * (k - 1)) s)" by simp
  then obtain a b c r where "drop (3 * (k - 1)) s = a # b # c # r" using three_elements by blast
  with \<open>k < serial_levels s\<close> show ?thesis by (simp add: level_bytes_def numeral_3_eq_3)
qed

lemma level_bytes_last: "proper_serial s \<Longrightarrow> k = serial_levels s \<Longrightarrow>
    \<exists>a b c e. level_bytes s k = [a, b, c, e] \<and> drop (3 * (k - 1)) s = [a, b, c, e] \<and> a \<noteq> PICC_CMD_CT"
proof -
  assume p: "proper_serial s" and k: "k = serial_levels s"
  note l = proper_levels [OF p]
  then have "length (drop (3 * (k - 1)) s) = 4" using k by auto
  then obtain a b c e where d: "drop (3 * (k - 1)) s = [a, b, c, e]" using four_elements by blast
  have "s ! (3 * (k - 1)) = drop (3 * (k - 1)) s ! 0" using l k by (subst nth_drop) auto
  with d p k have "a \<noteq> PICC_CMD_CT" by (simp add: proper_serial_def)
  with d k show ?thesis by (simp add: level_bytes_def)
qed

context wired begin


section \<open>A level\<close>

lemma quiet_inject [simp]: "quiet c w = quiet c' w \<longleftrightarrow> c = c'"
  by (metis look_store prod.inject)

lemma clear_coll: "\<exists>c'. PCD_ClearRegisterBitMask R CollReg m (quiet c w) = Some (quiet c' w) \<and> ch_card c' = ch_card c"
  by (simp add: PCD_ClearRegisterBitMask_def read_byte write_byte chip_get_def chip_set_def)

lemma framing_written: "ch_card (chip_set E BitFramingReg 0 c) = ch_card c"
  by (simp add: chip_set_def Let_def)

lemma hear_anticollision:
  "ch_card c = Some d \<Longrightarrow> card_phase d = Card_Ready k \<Longrightarrow>
   field_hear E [sel_byte k, 0x20] 0 (ch_card c)
     = (Some (level_bytes (card_serial d) k @ [bcc (level_bytes (card_serial d) k)]), Some d)"
  by (simp add: field_hear_def card_hear_def)

lemma hear_select:
  "ch_card c = Some d \<Longrightarrow> card_phase d = Card_Ready k \<Longrightarrow>
   field_hear E (select_frame E (card_serial d) k) 0 (ch_card c)
     = (Some (level_sak d k # crc_bytes E [level_sak d k]),
        Some (d\<lparr>card_phase := (if k < serial_levels (card_serial d) then Card_Ready (k + 1) else Card_Active)\<rparr>))"
  by (simp add: field_hear_def card_hear_def select_frame_def Let_def)

lemma turn_anticollision:
  assumes d: "ch_card c = Some d" "card_phase d = Card_Ready k" and g: "level_bytes (card_serial d) k = [g0, g1, g2, g3]"
    and s: "buffer s = [sel_byte k, b1, b2, b3, b4, b5, b6, b7, b8]" "currentLevelKnownBits s = 0" and l: "latency E < 2000"
  shows "\<exists>c'. select_turn R s (quiet c w) = Some (Again, s\<lparr>buffer := [sel_byte k, 0x20, g0, g1, g2, g3, bcc [g0, g1, g2, g3], b7, b8],
      currentLevelKnownBits := 32, responseBuffer := 2, responseLength := 5, txLastBits := 0\<rparr>, quiet c' w) \<and> ch_card c' = Some d"
proof -
  let ?b = "[sel_byte k, 0x20, b2, b3, b4, b5, b6, b7, b8]"
  have "prepare_anticollision s = Some (s\<lparr>buffer := ?b, txLastBits := 0, responseBuffer := 2, responseLength := 7\<rparr>, 2)"
    using s by (simp add: prepare_anticollision_def Let_def wr_def)
  moreover have "field_hear E (take (unat (2 :: u8)) ?b) 0 (ch_card (chip_set E BitFramingReg 0 c))
      = (Some ([g0, g1, g2, g3] @ [bcc [g0, g1, g2, g3]]), Some d)"
    using hear_anticollision [OF d] g by (simp add: framing_written)
  from transceive_answered [OF _ _ _ _ this l, of 7 2 ?b w] obtain c' where
    "PCD_TransceiveData R ?b 2 (Some (?b, 2, 7)) (Some 0) 0 False (quiet (chip_set E BitFramingReg 0 c) w)
      = Some (STATUS_OK, Some ([sel_byte k, 0x20, g0, g1, g2, g3, bcc [g0, g1, g2, g3], b7, b8], 2, 5), Some 0, quiet c' w)"
    "ch_card c' = Some d" by auto
  ultimately show ?thesis using s(2)
    by (simp add: select_turn_def select_exchange_def write_byte Let_def split del: if_split)
qed

lemma turn_select:
  assumes d: "ch_card c = Some d" "card_phase d = Card_Ready k" and g: "level_bytes (card_serial d) k = [g0, g1, g2, g3]"
    and s: "buffer s = [sel_byte k, b1, g0, g1, g2, g3, b6, b7, b8]" "currentLevelKnownBits s = 32" and l: "latency E < 2000"
  shows "\<exists>c'. select_turn R s (quiet c w)
      = Some (Finished, s\<lparr>buffer := [sel_byte k, 0x70, g0, g1, g2, g3] @ level_sak d k # crc_bytes E [level_sak d k],
          responseBuffer := 6, responseLength := 3, txLastBits := 0\<rparr>, quiet c' w)
    \<and> ch_card c' = Some (d\<lparr>card_phase := (if k < serial_levels (card_serial d) then Card_Ready (k + 1) else Card_Active)\<rparr>)"
proof -
  let ?f = "[sel_byte k, 0x70, g0, g1, g2, g3, bcc [g0, g1, g2, g3]]"
  let ?b = "?f @ crc_bytes E ?f"
  have x: "g0 XOR g1 XOR g2 XOR g3 = bcc [g0, g1, g2, g3]" by (simp add: bcc_def xor.assoc)
  from calculate_crc [of 7 "?f @ [b7, b8]" c w] l obtain c1 where
    c1: "PCD_CalculateCRC R (?f @ [b7, b8]) 7 (quiet c w) = Some (STATUS_OK, crc_bytes E ?f, quiet c1 w)" "ch_card c1 = ch_card c" by auto
  have "prepare_select R s (quiet c w)
      = Some (STATUS_OK, s\<lparr>buffer := ?b, txLastBits := 0, responseBuffer := 6, responseLength := 3\<rparr>, 9, quiet c1 w)"
    using s(1) c1(1) x by (simp add: prepare_select_def wr_def rd_def blit_def crc_bytes_def)
  moreover have "field_hear E (take (unat (9 :: u8)) ?b) 0 (ch_card (chip_set E BitFramingReg 0 c1))
      = (Some (level_sak d k # crc_bytes E [level_sak d k]),
        Some (d\<lparr>card_phase := (if k < serial_levels (card_serial d) then Card_Ready (k + 1) else Card_Active)\<rparr>))"
    using hear_select [OF d] g c1(2) by (simp add: framing_written select_frame_def Let_def crc_bytes_def)
  from transceive_answered [OF _ _ _ _ this l, of 3 6 ?b w] obtain c' where
    "PCD_TransceiveData R ?b 9 (Some (?b, 6, 3)) (Some 0) 0 False (quiet (chip_set E BitFramingReg 0 c1) w)
      = Some (STATUS_OK, Some ([sel_byte k, 0x70, g0, g1, g2, g3] @ level_sak d k # crc_bytes E [level_sak d k], 6, 3), Some 0, quiet c' w)"
    "ch_card c' = Some (d\<lparr>card_phase := (if k < serial_levels (card_serial d) then Card_Ready (k + 1) else Card_Active)\<rparr>)"
    by (auto simp: crc_bytes_def)
  ultimately show ?thesis using s(2)
    by (simp add: select_turn_def select_exchange_def write_byte Let_def split del: if_split)
qed

text \<open>A level finds its four bytes and ends with the card's answer.\<close>

lemma loop_level:
  assumes d: "ch_card c = Some d" "card_phase d = Card_Ready k" and g: "level_bytes (card_serial d) k = [g0, g1, g2, g3]"
    and s: "buffer s = [sel_byte k, b1, b2, b3, b4, b5, b6, b7, b8]" "currentLevelKnownBits s = 0" and l: "latency E < 2000"
  shows "\<exists>c' s'. select_loop R s (quiet c w) = Some (Finished, s', quiet c' w)
    \<and> buffer s' = [sel_byte k, 0x70, g0, g1, g2, g3] @ level_sak d k # crc_bytes E [level_sak d k]
    \<and> responseBuffer s' = 6 \<and> responseLength s' = 3 \<and> txLastBits s' = 0
    \<and> ch_card c' = Some (d\<lparr>card_phase := (if k < serial_levels (card_serial d) then Card_Ready (k + 1) else Card_Active)\<rparr>)"
proof -
  from turn_anticollision [OF d g s l, of w] obtain c1 s1 where t1: "select_turn R s (quiet c w) = Some (Again, s1, quiet c1 w)"
    "buffer s1 = [sel_byte k, 0x20, g0, g1, g2, g3, bcc [g0, g1, g2, g3], b7, b8]" "currentLevelKnownBits s1 = 32"
    "ch_card c1 = Some d" by auto
  from turn_select [OF t1(4) d(2) g t1(2,3) l, of w] obtain c2 s2 where t2: "select_turn R s1 (quiet c1 w) = Some (Finished, s2, quiet c2 w)"
    "buffer s2 = [sel_byte k, 0x70, g0, g1, g2, g3] @ level_sak d k # crc_bytes E [level_sak d k]"
    "responseBuffer s2 = 6" "responseLength s2 = 3" "txLastBits s2 = 0"
    "ch_card c2 = Some (d\<lparr>card_phase := (if k < serial_levels (card_serial d) then Card_Ready (k + 1) else Card_Active)\<rparr>)"
    by (auto split del: if_split)
  from t1(1) t2(1) have "select_loop R s (quiet c w) = Some (Finished, s2, quiet c2 w)"
    by (simp add: select_loop.simps [of R s] select_loop.simps [of R s1])
  with t2(2-) show ?thesis by blast
qed

lemma end_level:
  assumes s: "buffer s = [x0, x1, g0, g1, g2, g3] @ a # crc_bytes E [a]" "responseBuffer s = 6" "responseLength s = 3" "txLastBits s = 0"
    and u: "length (uid_byte u) = 10" and k: "1 \<le> k" "k \<le> 3" and l: "latency E < 5000"
  shows "\<exists>c' b. level_end R u k s (quiet c w)
      = Some (if a AND 0x04 \<noteq> 0 then Again else Finished,
          (let found = (if g0 = PICC_CMD_CT then [g1, g2, g3] else [g0, g1, g2, g3]);
               u = u\<lparr>uid_byte := take (3 * (k - 1)) (uid_byte u) @ found @ drop (3 * (k - 1) + length found) (uid_byte u)\<rparr>
           in if a AND 0x04 \<noteq> 0 then u else u\<lparr>sak := a\<rparr>), b, quiet c' w)
    \<and> length b = 9 \<and> ch_card c' = ch_card c"
proof -
  from calculate_crc [of 1 "a # crc_bytes E [a]" c w] l obtain c' where
    c': "PCD_CalculateCRC R (a # crc_bytes E [a]) 1 (quiet c w) = Some (STATUS_OK, crc_bytes E [a], quiet c' w)" "ch_card c' = ch_card c"
    by auto
  have place: "3 * (k - 1) + 4 \<le> 10" using k by simp
  show ?thesis
    by (rule exI [of _ c'])
      (use s u place c' in \<open>auto simp: level_end_def rd_def rd_block_def blit_def crc_bytes_def Let_def\<close>)
qed

lemma start_level:
  "length b = 9 \<Longrightarrow> length (uid_byte u) = 10 \<Longrightarrow> 1 \<le> k \<Longrightarrow> k \<le> 3 \<Longrightarrow> level_start u 0 k b = Some (b[0 := sel_byte k], 0)"
proof -
  assume "length b = 9" "length (uid_byte u) = 10" "1 \<le> k" "k \<le> 3"
  moreover from this have "k = 1 \<or> k = 2 \<or> k = 3" by linarith
  ultimately show ?thesis by (auto simp: level_start_def Let_def wr_def rd_block_def sel_byte_def)
qed

section \<open>All levels\<close>

text \<open>The bytes before the last level, and the last ones.\<close>

lemma inner_level:
  assumes d: "ch_card c = Some d" "card_phase d = Card_Ready k" and k: "1 \<le> k" "k < serial_levels (card_serial d)"
    and p: "proper_serial (card_serial d)" and b: "length b = 9" and u: "length (uid_byte u) = 10"
      "take (3 * (k - 1)) (uid_byte u) = take (3 * (k - 1)) (card_serial d)" and l: "latency E < 2000"
  shows "\<exists>c' b' u'. select_level R u 0 k b (quiet c w) = Some (Again, u', b', quiet c' w) \<and> length b' = 9
    \<and> length (uid_byte u') = 10 \<and> take (3 * k) (uid_byte u') = take (3 * k) (card_serial d)
    \<and> ch_card c' = Some (d\<lparr>card_phase := Card_Ready (k + 1)\<rparr>)"
proof -
  have k3: "k \<le> 3" "3 * (k - 1) + 3 \<le> 9" "3 * (k - 1) \<le> length (card_serial d)" using k proper_levels [OF p] by auto
  obtain x y z where g: "level_bytes (card_serial d) k = [PICC_CMD_CT, x, y, z]" "take 3 (drop (3 * (k - 1)) (card_serial d)) = [x, y, z]"
    using level_bytes_inner [OF k(2,1)] proper_levels [OF p] by blast
  obtain b0 b1 b2 b3 b4 b5 b6 b7 b8 where nine: "b = [b0, b1, b2, b3, b4, b5, b6, b7, b8]"
    using b by (auto simp: numeral_eq_Suc length_Suc_conv)
  let ?s = "\<lparr>buffer = b[0 := sel_byte k], currentLevelKnownBits = 0, responseBuffer = 0, responseLength = 0, txLastBits = 0\<rparr>"
  from loop_level [OF d g(1), of ?s b1 b2 b3 b4 b5 b6 b7 b8 w] l nine obtain c1 s1 where
    t: "select_loop R ?s (quiet c w) = Some (Finished, s1, quiet c1 w)"
      "buffer s1 = [sel_byte k, 0x70, PICC_CMD_CT, x, y, z] @ 0x04 # crc_bytes E [0x04]"
      "responseBuffer s1 = 6" "responseLength s1 = 3" "txLastBits s1 = 0" "ch_card c1 = Some (d\<lparr>card_phase := Card_Ready (k + 1)\<rparr>)"
    using k(2) by (auto simp: level_sak_def)
  from end_level [OF t(2-5) u(1) k(1) k3(1), of c1 w] l obtain c2 b' where
    e: "level_end R u k s1 (quiet c1 w)
      = Some (Again, u\<lparr>uid_byte := take (3 * (k - 1)) (uid_byte u) @ [x, y, z] @ drop (3 * (k - 1) + length [x, y, z]) (uid_byte u)\<rparr>, b', quiet c2 w)"
    "length b' = 9" "ch_card c2 = ch_card c1" by (auto simp: Let_def)
  have "3 * k = 3 * (k - 1) + 3" using k(1) by simp
  then have "take (3 * k) (card_serial d) = take (3 * (k - 1)) (card_serial d) @ [x, y, z]"
    using g(2) take_add [of "3 * (k - 1)" 3 "card_serial d"] by simp
  with u k3 \<open>3 * k = 3 * (k - 1) + 3\<close> have
    "take (3 * k) (take (3 * (k - 1)) (uid_byte u) @ [x, y, z] @ drop (3 * (k - 1) + length [x, y, z]) (uid_byte u)) = take (3 * k) (card_serial d)"
    by simp
  with e t(1,6) u(1) k3 show ?thesis
    by (simp add: select_level_def start_level [OF b u(1) k(1) k3(1)])
qed

lemma last_level:
  assumes d: "ch_card c = Some d" "card_phase d = Card_Ready k" and k: "k = serial_levels (card_serial d)"
    and p: "proper_serial (card_serial d)" and b: "length b = 9" and u: "length (uid_byte u) = 10"
      "take (3 * (k - 1)) (uid_byte u) = take (3 * (k - 1)) (card_serial d)" and l: "latency E < 2000"
    and sk: "card_sak d AND 0x04 = 0"
  shows "\<exists>c' b' u'. select_level R u 0 k b (quiet c w) = Some (Finished, u', b', quiet c' w)
    \<and> length (uid_byte u') = 10 \<and> take (3 * k + 1) (uid_byte u') = card_serial d \<and> sak u' = card_sak d
    \<and> ch_card c' = Some (d\<lparr>card_phase := Card_Active\<rparr>)"
proof -
  have k3: "1 \<le> k" "k \<le> 3" "3 * (k - 1) + 4 \<le> 10" "length (card_serial d) = 3 * k + 1" using k proper_levels [OF p] by auto
  obtain x0 x y z where g: "level_bytes (card_serial d) k = [x0, x, y, z]" "drop (3 * (k - 1)) (card_serial d) = [x0, x, y, z]"
    and ct: "x0 \<noteq> PICC_CMD_CT" using level_bytes_last [OF p k] by blast
  obtain b0 b1 b2 b3 b4 b5 b6 b7 b8 where nine: "b = [b0, b1, b2, b3, b4, b5, b6, b7, b8]"
    using b by (auto simp: numeral_eq_Suc length_Suc_conv)
  let ?s = "\<lparr>buffer = b[0 := sel_byte k], currentLevelKnownBits = 0, responseBuffer = 0, responseLength = 0, txLastBits = 0\<rparr>"
  from loop_level [OF d g(1), of ?s b1 b2 b3 b4 b5 b6 b7 b8 w] l nine obtain c1 s1 where
    t: "select_loop R ?s (quiet c w) = Some (Finished, s1, quiet c1 w)"
      "buffer s1 = [sel_byte k, 0x70, x0, x, y, z] @ card_sak d # crc_bytes E [card_sak d]"
      "responseBuffer s1 = 6" "responseLength s1 = 3" "txLastBits s1 = 0" "ch_card c1 = Some (d\<lparr>card_phase := Card_Active\<rparr>)"
    using k by (auto simp: level_sak_def)
  from end_level [OF t(2-5) u(1) k3(1,2), of c1 w] l sk ct obtain c2 b' where
    e: "level_end R u k s1 (quiet c1 w)
      = Some (Finished, u\<lparr>uid_byte := take (3 * (k - 1)) (uid_byte u) @ [x0, x, y, z] @ drop (3 * (k - 1) + length [x0, x, y, z]) (uid_byte u),
          sak := card_sak d\<rparr>, b', quiet c2 w)"
    "ch_card c2 = ch_card c1" by (auto simp: Let_def)
  have "card_serial d = take (3 * (k - 1)) (card_serial d) @ [x0, x, y, z]"
    using g(2) append_take_drop_id [of "3 * (k - 1)" "card_serial d"] by simp
  moreover have "3 * k + 1 = 3 * (k - 1) + 4" using k3(1) by simp
  ultimately have "take (3 * k + 1) (take (3 * (k - 1)) (uid_byte u) @ [x0, x, y, z] @ drop (3 * (k - 1) + length [x0, x, y, z]) (uid_byte u)) = card_serial d"
    using u k3 by simp
  with e t(1,6) u(1) k3 show ?thesis
    by (simp add: select_level_def start_level [OF b u(1) k3(1,2)])
qed

lemma cascade_reads:
  "ch_card c = Some d \<Longrightarrow> card_phase d = Card_Ready k \<Longrightarrow> 1 \<le> k \<Longrightarrow> k \<le> serial_levels (card_serial d) \<Longrightarrow>
   proper_serial (card_serial d) \<Longrightarrow> card_sak d AND 0x04 = 0 \<Longrightarrow> length b = 9 \<Longrightarrow> length (uid_byte u) = 10 \<Longrightarrow>
   take (3 * (k - 1)) (uid_byte u) = take (3 * (k - 1)) (card_serial d) \<Longrightarrow> latency E < 2000 \<Longrightarrow>
   \<exists>c' u'. cascade_loop R u 0 k b (quiet c w) = Some (STATUS_OK, u', quiet c' w) \<and> length (uid_byte u') = 10
     \<and> unat (uid_size u') = length (card_serial d) \<and> take (length (card_serial d)) (uid_byte u') = card_serial d
     \<and> sak u' = card_sak d \<and> ch_card c' = Some (d\<lparr>card_phase := Card_Active\<rparr>)"
proof (induction "serial_levels (card_serial d) - k" arbitrary: k c d b u)
  case 0
  then have k: "k = serial_levels (card_serial d)" and k3: "\<not> k > 3" "length (card_serial d) = 3 * k + 1" "3 * k + 1 < 256"
    using proper_levels [of "card_serial d"] by auto
  have "unat (1 + 3 * word_of_nat k :: u8) = Suc (3 * k)" using unat_of_nat_u8 [of "3 * k + 1"] k3(3) by simp
  with last_level [OF "0.prems"(1,2) k "0.prems"(5,7,8,9,10,6), of w] show ?case
    using k3 by (auto simp: cascade_loop.simps [of R u 0 k])
next
  case (Suc n)
  then have k: "k < serial_levels (card_serial d)" and k3: "\<not> k > 3" using proper_levels [of "card_serial d"] by auto
  from inner_level [OF Suc.prems(1,2,3) k Suc.prems(5,7,8,9,10), of w] obtain c1 b1 u1 where
    l: "select_level R u 0 k b (quiet c w) = Some (Again, u1, b1, quiet c1 w)" "length b1 = 9" "length (uid_byte u1) = 10"
      "take (3 * k) (uid_byte u1) = take (3 * k) (card_serial d)" "ch_card c1 = Some (d\<lparr>card_phase := Card_Ready (k + 1)\<rparr>)" by auto
  have "\<exists>c' u'. cascade_loop R u1 0 (k + 1) b1 (quiet c1 w) = Some (STATUS_OK, u', quiet c' w) \<and> length (uid_byte u') = 10
     \<and> unat (uid_size u') = length (card_serial (d\<lparr>card_phase := Card_Ready (k + 1)\<rparr>))
     \<and> take (length (card_serial (d\<lparr>card_phase := Card_Ready (k + 1)\<rparr>))) (uid_byte u') = card_serial (d\<lparr>card_phase := Card_Ready (k + 1)\<rparr>)
     \<and> sak u' = card_sak (d\<lparr>card_phase := Card_Ready (k + 1)\<rparr>)
     \<and> ch_card c' = Some (d\<lparr>card_phase := Card_Ready (k + 1), card_phase := Card_Active\<rparr>)"
    by (rule Suc.hyps(1)) (use Suc.hyps(2) Suc.prems l k in auto)
  with l(1) k3 show ?case by (simp add: cascade_loop.simps [of R u 0 k])
qed

section \<open>The functions of the thread\<close>

lemma select_reads:
  assumes "ch_card c = Some d" and "card_phase d = Card_Ready 1" and "proper_serial (card_serial d)" and "card_sak d AND 0x04 = 0"
    and "length (uid_byte u) = 10" and "latency E < 2000"
  shows "\<exists>c' u'. PICC_Select R u 0 (quiet c w) = Some (STATUS_OK, u', quiet c' w) \<and> length (uid_byte u') = 10
     \<and> unat (uid_size u') = length (card_serial d) \<and> take (length (card_serial d)) (uid_byte u') = card_serial d
     \<and> sak u' = card_sak d \<and> ch_card c' = Some (d\<lparr>card_phase := Card_Active\<rparr>)"
proof -
  from clear_coll [where m = "0x80" and c = c and w = w] obtain c1 where c1: "PCD_ClearRegisterBitMask R CollReg 0x80 (quiet c w) = Some (quiet c1 w)" "ch_card c1 = Some d"
    using assms(1) by auto
  have "1 \<le> serial_levels (card_serial d)" using proper_levels [OF assms(3)] by auto
  with cascade_reads [where c = c1 and d = d and k = 1 and b = "replicate 9 0" and u = u and w = w] c1 assms show ?thesis
    by (simp add: PICC_Select_def)
qed

lemma request:
  assumes l: "latency E < 2000"
    and that: "\<forall>reply. fst (field_hear E [PICC_CMD_REQA] 7 (ch_card c)) = Some reply \<longrightarrow> length reply = 2"
  shows "\<exists>c'. PICC_RequestA R (Some [0, 0]) 2 (quiet c w)
      = (case field_hear E [PICC_CMD_REQA] 7 (ch_card c) of
          (Some reply, d) \<Rightarrow> Some (if length reply = 2 then STATUS_OK else STATUS_ERROR, Some (reply @ drop (length reply) [0, 0], 0, word_of_nat (length reply)), quiet c' w)
        | (None, d) \<Rightarrow> Some (STATUS_TIMEOUT, Some ([0, 0], 0, 2), quiet c' w))
    \<and> ch_card c' = snd (field_hear E [PICC_CMD_REQA] 7 (ch_card c))"
proof -
  obtain c1 where c1: "PCD_ClearRegisterBitMask R CollReg 0x80 (quiet c w) = Some (quiet c1 w)" "ch_card c1 = ch_card c"
    using clear_coll [where m = "0x80" and c = c and w = w] by auto
  obtain reply d where h: "field_hear E [PICC_CMD_REQA] 7 (ch_card c) = (reply, d)" by fastforce
  show ?thesis
  proof (cases reply)
    case None
    from transceive_silent [where n = 1 and bs = "[PICC_CMD_REQA]" and v = 7 and vb = "Some 7" and c = c1 and w = w
        and dest = "Some ([0, 0], 0, 2)" and chk = False and d = d] h None c1 show ?thesis
      by (auto simp: PICC_RequestA_def PICC_REQA_or_WUPA_def)
  next
    case (Some r)
    then have "length r = 2" using that h by simp
    then obtain a b where r: "r = [a, b]" by (auto simp: numeral_2_eq_2 length_Suc_conv)
    from transceive_answered [where n = 1 and bs = "[PICC_CMD_REQA]" and v = 7 and c = c1 and w = w
        and buf = "[0, 0]" and off = 0 and len = 2 and d = d and reply = r] h Some c1 r l show ?thesis
      by (auto simp: PICC_RequestA_def PICC_REQA_or_WUPA_def)
  qed
qed

text \<open>The request finds a card that is idle. Any other card in the field, but a halted one, goes idle.\<close>

lemma card_present:
  assumes "latency E < 2000"
  shows "\<exists>c'. PICC_IsNewCardPresent R (quiet c w)
      = Some ((case ch_card c of Some d \<Rightarrow> card_phase d = Card_Idle | None \<Rightarrow> False),
          quiet c' (reader_mdelay R 1 (quiet c' w)))
    \<and> ch_card c' = (case ch_card c of None \<Rightarrow> None
        | Some d \<Rightarrow> Some (d\<lparr>card_phase := (case card_phase d of Card_Idle \<Rightarrow> Card_Ready 1 | Card_Halted \<Rightarrow> Card_Halted | _ \<Rightarrow> Card_Idle)\<rparr>))"
proof -
  let ?c = "chip_set E ModWidthReg 0x26 (chip_set E RxModeReg 0x00 (chip_set E TxModeReg 0x00 c))"
  have card: "ch_card ?c = ch_card c" by (simp add: chip_set_def)
  have settled: "reader_mdelay R 1 (quiet c' w) = quiet c' (reader_mdelay R 1 (quiet c' w))" for c'
    by (metis store_look wired_delay look_store)
  have two: "\<forall>reply. fst (field_hear E [PICC_CMD_REQA] 7 (ch_card ?c)) = Some reply \<longrightarrow> length reply = 2"
    by (simp add: field_hear_def card_hear_def split: option.split)
  from request [OF assms two, of w] obtain c' where c': "PICC_RequestA R (Some [0, 0]) 2 (quiet ?c w)
      = (case field_hear E [PICC_CMD_REQA] 7 (ch_card c) of
          (Some reply, d) \<Rightarrow> Some (if length reply = 2 then STATUS_OK else STATUS_ERROR, Some (reply @ drop (length reply) [0, 0], 0, word_of_nat (length reply)), quiet c' w)
        | (None, d) \<Rightarrow> Some (STATUS_TIMEOUT, Some ([0, 0], 0, 2), quiet c' w))"
    "ch_card c' = snd (field_hear E [PICC_CMD_REQA] 7 (ch_card c))" using card by auto
  show ?thesis
    by (rule exI [of _ c'])
      (use c' settled [of c'] in \<open>auto simp: PICC_IsNewCardPresent_def write_byte field_hear_def card_hear_def
        split: option.split card_phase.split\<close>)
qed

end

end
