(* ===== verification/Reader_On_Board.thy ===== *)
theory Reader_On_Board
  imports Reader_Simulation Picc_Safety Rc522_Select
begin

text \<open>
  The reader chip on the board: on the wires of the software SPI bus and on its select line. What the
  driver does there, bit by bit through \<open>rt_spi_transfer_message\<close>, is what it does with a chip that
  exchanges bytes; so a card is found and its number read over the wires, too.
\<close>

text \<open>The select line: a change drops the byte that is under way; the chip offers nothing yet.\<close>

definition select_line :: "bool \<Rightarrow> (chip \<times> spi_link) wire_state \<Rightarrow> (chip \<times> spi_link) wire_state" where
  "select_line v s = s\<lparr>shift_in := 0, shifted := 0, shift_out := 0, device := chip_line v (device s)\<rparr>"

text \<open>Wires at rest with the chip behind them, in a world whose other parts are \<open>x\<close>.\<close>

definition chip_at ::
    "('w \<Rightarrow> (chip \<times> spi_link) wire_state) \<Rightarrow> ('w \<Rightarrow> 'o) \<Rightarrow> 'o \<Rightarrow> 'w \<Rightarrow> chip \<times> spi_link \<Rightarrow> bool" where
  "chip_at wires obs x w v \<longleftrightarrow> resting (\<lambda>s. link_out (snd s)) (wires w) \<and> device (wires w) = v \<and> obs w = x"

text \<open>
  The reader's messages go through the software bus, whose configuration is the device's own since its
  first transfer; the chip is on the bus and on the select line; waiting touches neither. \<open>obs\<close> is
  what the pins do not reach.
\<close>

locale chip_on_board =
  fixes R :: "'w reader" and P :: "'w pins" and L :: soft_spi_config and dv :: spi_device and o1 :: spi_bus and E :: rf_env
    and wires :: "'w \<Rightarrow> (chip \<times> spi_link) wire_state" and put :: "(chip \<times> spi_link) wire_state \<Rightarrow> 'w \<Rightarrow> 'w" and obs :: "'w \<Rightarrow> 'o"
  assumes on_wires: "spi_wires P L (\<lambda>s. link_out (snd s)) (link_take E) wires put"
    and soft_bus: "spi_transfer R = soft_transfer P L dv o1" and own_pins: "reader_pins R = P"
    and owner: "bus_owner o1 = Some (dev_id dv)" and config: "bus_config o1 = dev_config dv" and plain: "plain_mode (dev_config dv)"
    and select_pin: "rt_pin_write P (chipSelectPin R) v w = put (select_line v (wires w)) w"
    and obs_put: "obs (put s w) = obs w"
    and wires_delay: "wires (reader_mdelay R n w) = wires w" and obs_delay: "obs (reader_mdelay R n w) = obs w"
begin

lemma wires_put: "wires (put s w) = s"
  using spi_wires.wires_put [OF on_wires] .

text \<open>A transfer over the wires is an exchange of bytes, and touches nothing else.\<close>

lemma board_transfer:
  assumes "chip_at wires obs x w v" and ms: "\<forall>m\<in>set ms. \<not> cs_take m \<and> \<not> cs_release m"
  shows "rel_option (rel_prod (=) (chip_at wires obs x)) (spi_transfer R ms w) (byte_messages (chip_byte E) ms v)"
proof -
  have r: "resting (\<lambda>s. link_out (snd s)) (wires w)" "device (wires w) = v" "obs w = x"
    using assms(1) by (simp_all add: chip_at_def)
  have e: "byte_exchange (\<lambda>s. link_out (snd s)) (link_take E) = chip_byte E"
    by (intro ext) (simp add: byte_exchange_def chip_byte_def)
  have t: "spi_transfer R ms w = map_option (\<lambda>(ms, _, w). (ms, w)) (rt_spi_transfer_message P L dv ms (o1, w))"
    by (simp add: soft_bus soft_transfer_def)
  have cfg: "bus_owner o1 = Some (dev_id dv) \<longrightarrow> bus_config o1 = dev_config dv" using config by simp
  note x = spi_wires.transfer_exchange [OF on_wires plain cfg r(1) ms, unfolded e r(2)]
  show ?thesis
  proof (cases "rt_spi_transfer_message P L dv ms (o1, w)")
    case None
    with x t show ?thesis by simp
  next
    case (Some y)
    obtain ms' o2 w' where y: "y = (ms', o2, w')" by (cases y)
    with x Some have w': "byte_messages (chip_byte E) ms v = Some (ms', device (wires w'))"
      "resting (\<lambda>s. link_out (snd s)) (wires w')" "put (wires w') w = w'" by simp_all
    from obs_put [of "wires w'" w] w'(3) r(3) have "obs w' = x" by simp
    with w' t Some y show ?thesis by (simp add: chip_at_def)
  qed
qed

lemma board_simulates: "same_bus R (placed_reader E id (\<lambda>s _. s)) (chip_at wires obs x)"
proof (rule same_bus.intro)
  show "rel_option (rel_prod (=) (chip_at wires obs x)) (spi_transfer R ms w) (spi_transfer (placed_reader E id (\<lambda>s _. s)) ms v)"
    if "chip_at wires obs x w v" "\<forall>m\<in>set ms. \<not> cs_take m \<and> \<not> cs_release m" for w v ms
    using board_transfer [OF that] by (simp add: placed_reader_def option.map_id)
  show "chip_at wires obs x (chip_select R high w) (chip_select (placed_reader E id (\<lambda>s _. s)) high v)"
    if "chip_at wires obs x w v" for w v high
    using that
    by (simp add: chip_at_def chip_select_def own_pins select_pin wires_put obs_put select_line_def resting_def
        placed_reader_def placed_pins_def chip_line_def)
  show "chip_at wires obs x (reader_mdelay R n w) (reader_mdelay (placed_reader E id (\<lambda>s _. s)) n v)"
    if "chip_at wires obs x w v" for w v n
    using that by (simp add: chip_at_def wires_delay obs_delay placed_reader_def)
qed

end

sublocale chip_on_board \<subseteq> same: same_bus R "placed_reader E id (\<lambda>s _. s)" "chip_at wires obs x" for x
  by (rule board_simulates)

context chip_on_board begin

lemma board_present:
  assumes "chip_at wires obs x w (ch, Deselected)" and "latency E < 2000"
  shows "\<exists>ch' w'. PICC_IsNewCardPresent R w = Some ((case ch_card ch of Some d \<Rightarrow> card_phase d = Card_Idle | None \<Rightarrow> False), w')
    \<and> chip_at wires obs x w' (ch', Deselected)
    \<and> ch_card ch' = (case ch_card ch of None \<Rightarrow> None
        | Some d \<Rightarrow> Some (d\<lparr>card_phase := (case card_phase d of Card_Idle \<Rightarrow> Card_Ready 1 | Card_Halted \<Rightarrow> Card_Halted | _ \<Rightarrow> Card_Idle)\<rparr>))"
proof -
  have d: "reader_mdelay (placed_reader E id (\<lambda>s _. s)) 1 v = v" for v by (simp add: placed_reader_def)
  from lone.card_present [OF assms(2), where c = ch] obtain ch' where
    p: "PICC_IsNewCardPresent (placed_reader E id (\<lambda>s _. s)) (ch, Deselected)
      = Some ((case ch_card ch of Some d \<Rightarrow> card_phase d = Card_Idle | None \<Rightarrow> False), (ch', Deselected))"
    and c: "ch_card ch' = (case ch_card ch of None \<Rightarrow> None
        | Some d \<Rightarrow> Some (d\<lparr>card_phase := (case card_phase d of Card_Idle \<Rightarrow> Card_Ready 1 | Card_Halted \<Rightarrow> Card_Halted | _ \<Rightarrow> Card_Idle)\<rparr>))"
    unfolding d by blast
  from same.same_present [OF assms(1)] obtain w' where
    "PICC_IsNewCardPresent R w = Some ((case ch_card ch of Some d \<Rightarrow> card_phase d = Card_Idle | None \<Rightarrow> False), w')"
    "chip_at wires obs x w' (ch', Deselected)"
    unfolding p by (auto elim!: option.rel_cases)
  with c show ?thesis by blast
qed

lemma board_select:
  assumes "chip_at wires obs x w (ch, Deselected)" and "ch_card ch = Some d" and "card_phase d = Card_Ready 1"
    and "proper_serial (card_serial d)" and "card_sak d AND 0x04 = 0" and "length (uid_byte u) = 10" and "latency E < 2000"
  shows "\<exists>u' ch' w'. PICC_Select R u 0 w = Some (STATUS_OK, u', w') \<and> length (uid_byte u') = 10
    \<and> unat (uid_size u') = length (card_serial d) \<and> take (length (card_serial d)) (uid_byte u') = card_serial d
    \<and> sak u' = card_sak d \<and> chip_at wires obs x w' (ch', Deselected) \<and> ch_card ch' = Some (d\<lparr>card_phase := Card_Active\<rparr>)"
proof -
  from lone.select_reads [OF assms(2-7)] obtain ch' u' where
    p: "PICC_Select (placed_reader E id (\<lambda>s _. s)) u 0 (ch, Deselected) = Some (STATUS_OK, u', (ch', Deselected))"
    and u': "length (uid_byte u') = 10" "unat (uid_size u') = length (card_serial d)"
      "take (length (card_serial d)) (uid_byte u') = card_serial d" "sak u' = card_sak d"
      "ch_card ch' = Some (d\<lparr>card_phase := Card_Active\<rparr>)" by blast
  from same.same_select_card [OF assms(1), of u 0] obtain w' where
    "PICC_Select R u 0 w = Some (STATUS_OK, u', w')" "chip_at wires obs x w' (ch', Deselected)"
    unfolding p by (auto elim!: option.rel_cases)
  with u' show ?thesis by blast
qed

end

section \<open>The board's pins\<close>

text \<open>
  A world with a place for the wires: the bus on the pins of \<open>board_lines\<close>, the select line on the pin of
  \<open>board_reader\<close>.
\<close>

definition board_pins :: "rf_env \<Rightarrow> ('w \<Rightarrow> (chip \<times> spi_link) wire_state) \<Rightarrow> ((chip \<times> spi_link) wire_state \<Rightarrow> 'w \<Rightarrow> 'w) \<Rightarrow> 'w pins" where
  "board_pins E wires put = \<lparr>
     rt_pin_write = (\<lambda>p v w. if p = 69 then put (clock_line (\<lambda>s. link_out (snd s)) (link_take E) v (wires w)) w
       else if p = 67 then put ((wires w)\<lparr>mosi_high := v\<rparr>) w
       else if p = 0 then put (select_line v (wires w)) w else w),
     rt_pin_read = (\<lambda>p w. (if p = 69 then clock_high (wires w) else if p = 68 then bit (shift_out (wires w)) 7 else mosi_high (wires w), w)),
     rt_pin_mode = (\<lambda>p m w. w), pin_udelay = (\<lambda>n w. w)\<rparr>"

lemma chip_on_board_pins:
  assumes "\<And>s w. wires (put s w) = s" and "\<And>s t w. put s (put t w) = put s w" and "\<And>w. put (wires w) w = w"
    and "\<And>s w. obs (put s w) = obs w"
  shows "chip_on_board (board_reader (board_pins E wires put) (\<lambda>n w. w)) (board_pins E wires put) board_lines rc522_device board_bus
    E wires put obs"
proof (rule chip_on_board.intro)
  show "spi_wires (board_pins E wires put) board_lines (\<lambda>s. link_out (snd s)) (link_take E) wires put"
    by unfold_locales (simp_all add: assms board_pins_def board_lines_def)
qed (simp_all add: assms board_reader_def board_bus_def rc522_device_def plain_mode_def board_pins_def)

interpretation on_board: chip_on_board "board_reader (board_pins E id (\<lambda>s _. s)) (\<lambda>n w. w)" "board_pins E id (\<lambda>s _. s)"
    board_lines rc522_device board_bus E id "\<lambda>s _. s" "\<lambda>_. ()" for E
  by (rule chip_on_board_pins) simp_all

end
