(* ===== verification/Card_Reader.thy ===== *)
theory Card_Reader
  imports Mqtt_Link_Behaviour Mqtt_Behaviour Reader_On_Board
begin

text \<open>
  The card reader thread (\<open>card_reader.c\<close>) and \<open>main.c\<close>. A turn asks the reader chip for a card and
  reads its serial number into the package's \<open>Uid\<close>, a static variable that stays from turn to turn.
\<close>

section \<open>The card reader\<close>

abbreviation (input) UID_BUFFER :: nat where "UID_BUFFER \<equiv> 33"

text \<open>
  The static variables of the program that the threads share: the client, the world while there is no
  client, and \<open>card_evt\<close>.
\<close>

record 'w system =
  sys_client :: "'w umqtt_client option"
  sys_world :: 'w
  card_uid :: bytes

definition world_of :: "'w system \<Rightarrow> 'w" where
  "world_of s = (case sys_client s of Some c \<Rightarrow> net c | None \<Rightarrow> sys_world s)"

definition with_world :: "'w \<Rightarrow> 'w system \<Rightarrow> 'w system" where
  "with_world w s = s\<lparr>sys_client := map_option (\<lambda>c. c\<lparr>net := w\<rparr>) (sys_client s), sys_world := w\<rparr>"

definition hex_char :: "nat \<Rightarrow> u8" where
  "hex_char n = word_of_nat (if n < 10 then 48 + n else 87 + n)"

text \<open>\<open>snprintf(dst, n, "%02x", b)\<close> with \<open>dst\<close> at offset \<open>d\<close>; it always returns 2.\<close>

definition snprintf_02x :: "bytes \<Rightarrow> nat \<Rightarrow> nat \<Rightarrow> u8 \<Rightarrow> bytes option" where
  "snprintf_02x buf d n b =
     (if n = 0 then Some buf
      else blit buf d (take (n - 1) [hex_char (unat b div 16), hex_char (unat b mod 16)] @ [0]))"

fun uid_loop :: "uid \<Rightarrow> nat \<Rightarrow> nat \<Rightarrow> nat \<Rightarrow> int \<Rightarrow> bytes \<Rightarrow> bytes option" where
  "uid_loop u i 0 dst remaining buf = Some buf"
| "uid_loop u i (Suc n) dst remaining buf =
     (if remaining > 0
      then do {
        b \<leftarrow> rd (uid_byte u) i;
        buf \<leftarrow> snprintf_02x buf dst (nat remaining) b;
        uid_loop u (i + 1) n (dst + 2) (remaining - 2) buf }
      else Some buf)"

definition card_text :: "uid \<Rightarrow> bytes \<Rightarrow> bytes option" where
  "card_text u buf = uid_loop u 0 (unat (uid_size u)) 0 (int UID_BUFFER) buf"

text \<open>What the thread does with the card it has read.\<close>

definition card_swipe :: "'w link \<Rightarrow> 'w platform \<Rightarrow> uid \<Rightarrow> 'w system \<Rightarrow> 'w system option" where
  "card_swipe lk pf u s = do {
     hexed \<leftarrow> card_text u (card_uid s);
     let s = s\<lparr>card_uid := hexed\<rparr>;
     q \<leftarrow> event_handler_push_event (stack_event (link_stack lk)) event_type_card_e hexed (queue_of lk (world_of s));
     let s = with_world (queue_put lk q (world_of s)) s;
     client \<leftarrow> mqtt_link_send (link_platform lk pf) mqtt_link_mt_card_swipe_e hexed (c_strlen hexed) (sys_client s);
     Some (s\<lparr>sys_client := client\<rparr>) }"

definition card_reader_turn :: "'w reader \<Rightarrow> 'w link \<Rightarrow> 'w platform \<Rightarrow> uid \<times> 'w system \<Rightarrow> (uid \<times> 'w system) option" where
  "card_reader_turn R lk pf st = do {
     let (u, s) = st;
     let s = with_world (p_delay pf 500 (world_of s)) s;
     (present, w) \<leftarrow> PICC_IsNewCardPresent R (world_of s);
     let s = with_world w s;
     if \<not> present then Some (u, s)
     else do {
       (ok, u, w) \<leftarrow> PICC_ReadCardSerial R u (world_of s);
       let s = with_world w s;
       if ok then map_option (Pair u) (card_swipe lk pf u s) else Some (u, s) } }"

section \<open>The main thread\<close>

text \<open>A turn of the loop of \<open>main\<close>; the flag is \<open>mqtt_link_connected\<close>.\<close>

definition main_turn :: "'w link \<Rightarrow> 'w platform \<Rightarrow> bool \<times> 'w system \<Rightarrow> (bool \<times> 'w system) option" where
  "main_turn lk pf st = do {
     let (connected, s) = st;
     (connected, s) \<leftarrow> (if connected then Some (connected, s)
       else do {
         (r, client, w) \<leftarrow> mqtt_link_connect lk pf (world_of s);
         Some (r, s\<lparr>sys_client := client, sys_world := w\<rparr>) });
     Some (connected, with_world (p_delay pf 100 (world_of s)) s) }"

section \<open>What a card gives\<close>

definition hex_text :: "bytes \<Rightarrow> bytes" where
  "hex_text bs = concat (map (\<lambda>b. [hex_char (unat b div 16), hex_char (unat b mod 16)]) bs)"

lemma length_hex_text [simp]: "length (hex_text bs) = 2 * length bs"
  by (induction bs) (simp_all add: hex_text_def)

lemma hex_text_Cons: "hex_text (b # bs) = [hex_char (unat b div 16), hex_char (unat b mod 16)] @ hex_text bs"
  by (simp add: hex_text_def)

lemma hex_char_not_nul: "n < 16 \<Longrightarrow> hex_char n \<noteq> 0"
proof -
  assume "n < 16"
  then have "unat (hex_char n) = (if n < 10 then 48 + n else 87 + n)" by (simp add: hex_char_def unat_of_nat_u8)
  then have "unat (hex_char n) \<noteq> 0" by (simp split: if_splits)
  then show ?thesis by auto
qed

lemma hex_text_no_nul: "0 \<notin> set (hex_text bs)"
proof (induction bs)
  case (Cons b bs)
  have "unat b div 16 < 16" "unat b mod 16 < 16" using unat_u8_less [of b] by (simp_all add: less_mult_imp_div_less)
  from this [THEN hex_char_not_nul] Cons.IH show ?case by (simp add: hex_text_Cons)
qed (simp add: hex_text_def)

text \<open>The loop writes the text behind what it has written so far, with its terminator.\<close>

lemma uid_loop_text:
  "length done_part = dst \<Longrightarrow> n \<le> length (drop i (uid_byte u)) \<Longrightarrow> remaining = int (length rest) \<Longrightarrow> 2 * n < length rest \<Longrightarrow> 0 < n \<Longrightarrow>
     uid_loop u i n dst remaining (done_part @ rest)
       = Some (done_part @ hex_text (take n (drop i (uid_byte u))) @ 0 # drop (2 * n + 1) rest)"
proof (induction n arbitrary: i dst remaining done_part rest)
  case (Suc n)
  let ?b = "uid_byte u ! i" and ?h = "[hex_char (unat (uid_byte u ! i) div 16), hex_char (unat (uid_byte u ! i) mod 16)]"
  have i: "i < length (uid_byte u)" using Suc.prems(2) by simp
  then have d: "drop i (uid_byte u) = ?b # drop (i + 1) (uid_byte u)" by (simp add: Cons_nth_drop_Suc)
  have "3 \<le> length rest" using Suc.prems(4) by simp
  then obtain x y z r where rest: "rest = x # y # z # r" by (auto simp: numeral_3_eq_3 Suc_le_length_iff)
  have s: "snprintf_02x (done_part @ rest) dst (nat remaining) ?b = Some ((done_part @ ?h) @ 0 # r)"
    using Suc.prems(1,3) by (simp add: snprintf_02x_def blit_def rest)
  have rem: "0 < remaining" using Suc.prems(3) by (simp add: rest)
  show ?case
  proof (cases n)
    case 0
    then show ?thesis using rem s i rest by (simp add: rd_def d hex_text_Cons) (simp add: hex_text_def)
  next
    case (Suc m)
    have "uid_loop u (i + 1) n (dst + 2) (remaining - 2) ((done_part @ ?h) @ 0 # r)
        = Some ((done_part @ ?h) @ hex_text (take n (drop (i + 1) (uid_byte u))) @ 0 # drop (2 * n + 1) (0 # r))"
      by (rule Suc.IH) (use Suc.prems Suc rest in auto)
    then show ?thesis using rem s i rest by (simp add: rd_def d hex_text_Cons)
  qed
qed simp

lemma card_text_hex:
  assumes "0 < unat (uid_size u)" and "unat (uid_size u) \<le> length (uid_byte u)" and "unat (uid_size u) \<le> 16"
    and "length buf = UID_BUFFER"
  shows "card_text u buf = Some (hex_text (take (unat (uid_size u)) (uid_byte u)) @ 0 # drop (2 * unat (uid_size u) + 1) buf)"
  using uid_loop_text [of "[]" 0 "unat (uid_size u)" 0 u 33 buf] assms by (simp add: card_text_def)

section \<open>A swipe\<close>

lemma link_lines:
  "line_contract (link_platform lk pf) = line_contract pf" "turn_after_waits (link_platform lk pf) = turn_after_waits pf"
  by (intro ext; simp add: line_contract_def recv_contract_def clock_contract_def out_contract_def turn_after_waits_def link_platform_def)+

lemma card_topic: "c_strlen (topic_of ''card-swipe'') = 26"
  by code_simp

text \<open>The message about a card: how often it is sent depends on when an acknowledgement comes.\<close>

lemma swipe_published:
  assumes lc: "line_contract pf T inp out (\<lambda>w. (left w, others w))" and wt: "turn_after_waits pf left inp out others"
    and inv: "client_inv c" and room: "64 \<le> send_size (mqtt_info c)" "send_size (mqtt_info c) < 268435456"
    and ahead: "msg_queue c = [] \<and> left (net c) < 3 \<longrightarrow> puback_ahead T inp c"
    and data: "0 < n" "n \<le> 32" "n \<le> length data"
  shows "\<exists>c'. mqtt_link_send pf mqtt_link_mt_card_swipe_e data n (Some c) = Some (Some c') \<and> others (net c') = others (net c)
    \<and> out (net c') = out (net c) @ concat (replicate (copies left c)
        (wire (sent_msg UMQTT_QOS1 (fst (get_next_packetID c)) (topic_of ''card-swipe'') (take n data) n)))"
proof -
  let ?topic = "topic_of ''card-swipe''"
  have "length (publish_body UMQTT_QOS1 0 ?topic (take n data)) = 30 + n"
    using data by (simp add: card_topic)
  then have ok: "publishable (mqtt_info c) UMQTT_QOS1 ?topic data n"
    using data room by (simp add: publishable_def card_topic umqtt_pkgs_len_def)
  obtain pid c1 where id: "next_id UMQTT_QOS1 c = (pid, c1)" by fastforce
  then have pid: "pid = fst (get_next_packetID c)" by (simp add: next_id_def)
  from publish_start [OF inv ok id, of pf 100] obtain c2 where
    p: "umqtt_publish pf UMQTT_QOS1 ?topic data n 100 c
      = republish pf 3 UMQTT_TYPE_PUBACK (rt_tick_from_millisecond 100) c2"
    and c2: "send_len c2 \<le> length (send_buf c2)" "client_inv c2"
      "take (send_len c2) (send_buf c2) = wire (sent_msg UMQTT_QOS1 pid ?topic data n)"
      "msg_queue c2 = msg_queue c" "net c2 = net c" "mqtt_info c2 = mqtt_info c" "task_handle c2 = task_handle c"
    by (auto simp: Let_def)
  have "msg_queue c2 = [] \<and> left (net c2) < 3 \<longrightarrow> puback_ahead T inp c2"
    using ahead c2 by (simp add: puback_ahead_def)
  from republish_copies [OF lc wt c2(1,2) this] obtain r c' where
    "republish pf 3 UMQTT_TYPE_PUBACK (rt_tick_from_millisecond 100) c2 = Some (r, c')" "others (net c') = others (net c2)"
    "out (net c') = out (net c2) @ concat (replicate (copies left c2) (take (send_len c2) (send_buf c2)))" by blast
  moreover have "sent_msg UMQTT_QOS1 pid ?topic (take n data) n = sent_msg UMQTT_QOS1 pid ?topic data n"
    by (simp add: sent_msg_def)
  moreover have "copies left c2 = copies left c" using c2 by (simp add: copies_def)
  ultimately show ?thesis
    unfolding mqtt_link_send_def using p c2 pid by (simp add: card_topic)
qed

text \<open>
  The reader, the line and the event queue in one world: the line and the clock leave the queue and the
  wires of the reader alone, as waiting does, and what is put in the queue is there.
\<close>

definition side_by_side ::
    "'w link \<Rightarrow> 'w platform \<Rightarrow> u32 set \<Rightarrow> ('w \<Rightarrow> 'v) \<Rightarrow> ('w \<Rightarrow> nat) \<Rightarrow> ('w \<Rightarrow> bytes) \<Rightarrow> ('w \<Rightarrow> bytes) \<Rightarrow> bool" where
  "side_by_side lk pf T wires left inp out \<longleftrightarrow>
     line_contract pf T inp out (\<lambda>w. (left w, queue_of lk w, wires w))
     \<and> turn_after_waits pf left inp out (\<lambda>w. (queue_of lk w, wires w))
     \<and> (\<forall>q w. (inp (queue_put lk q w), out (queue_put lk q w), left (queue_put lk q w), wires (queue_put lk q w)) = (inp w, out w, left w, wires w)
          \<and> queue_of lk (queue_put lk q w) = q)
     \<and> (\<forall>n w. (inp (p_delay pf n w), out (p_delay pf n w), left (p_delay pf n w), queue_of lk (p_delay pf n w), wires (p_delay pf n w))
          = (inp w, out w, left w, queue_of lk w, wires w))"

text \<open>The observers do not look at the event queue, and waiting changes nothing for them.\<close>

definition quiet_link :: "'w link \<Rightarrow> 'w platform \<Rightarrow> ('w \<Rightarrow> bytes) \<Rightarrow> bool" where
  "quiet_link lk pf out \<longleftrightarrow> (\<forall>q w n. out (queue_put lk q w) = out w \<and> out (p_delay pf n w) = out w
     \<and> queue_of lk (p_delay pf n w) = queue_of lk w)"

text \<open>The chip and its bus are not seen by the network and the queue; waiting does not move the chip.\<close>

definition quiet_reader :: "'w reader \<Rightarrow> ('w \<Rightarrow> chip \<times> spi_link) \<Rightarrow> (chip \<times> spi_link \<Rightarrow> 'w \<Rightarrow> 'w) \<Rightarrow> 'w link \<Rightarrow> 'w platform
    \<Rightarrow> ('w \<Rightarrow> bytes) \<Rightarrow> bool" where
  "quiet_reader R look store lk pf out \<longleftrightarrow> (\<forall>w n s.
     out (store s w) = out w \<and> queue_of lk (store s w) = queue_of lk w
     \<and> out (reader_mdelay R n w) = out w \<and> queue_of lk (reader_mdelay R n w) = queue_of lk w
     \<and> look (p_delay pf n w) = look w)"

lemma packet_id_net [simp]: "get_next_packetID (c\<lparr>net := w\<rparr>) = (fst (get_next_packetID c), (snd (get_next_packetID c))\<lparr>net := w\<rparr>)"
  by (simp add: get_next_packetID_def Let_def)

text \<open>A card that has been read is reported to the application and to the broker.\<close>

lemma swipe_reported:
  assumes sbs: "side_by_side lk pf T wires left inp out"
    and "0 < unat (uid_size u)" "unat (uid_size u) \<le> length (uid_byte u)" "unat (uid_size u) \<le> 16"
    and "length (card_uid s) = UID_BUFFER" and "sys_client s = Some c" and "client_inv c"
    and "64 \<le> send_size (mqtt_info c)" "send_size (mqtt_info c) < 268435456"
    and "msg_queue c = [] \<and> left (net c) < 3 \<longrightarrow> puback_ahead T inp c"
    and "event_queue_ok (queue_of lk (net c))" and "length (stack_event (link_stack lk)) = event_size"
    and "digits = hex_text (take (unat (uid_size u)) (uid_byte u))"
  shows "\<exists>s' c' b rest. card_swipe lk pf u s = Some s' \<and> sys_client s' = Some c'
    \<and> card_uid s' = digits @ 0 # rest \<and> length (card_uid s') = UID_BUFFER \<and> wires (net c') = wires (net c)
    \<and> is_event event_type_card_e (card_uid s') b \<and> event_queue_ok (queue_of lk (net c'))
    \<and> mq_contents (queue_of lk (net c')) = (if length (mq_contents (queue_of lk (net c))) < EVT_QUEUE_LEN
                         then mq_contents (queue_of lk (net c)) @ [b] else mq_contents (queue_of lk (net c)))
    \<and> out (net c') = out (net c) @ concat (replicate (copies left c)
        (wire (sent_msg UMQTT_QOS1 (fst (get_next_packetID c)) (topic_of ''card-swipe'') digits (length digits))))"
proof -
  let ?n = "unat (uid_size u)"
  define hexed where "hexed = digits @ 0 # drop (2 * ?n + 1) (card_uid s)"
  have digits: "length digits = 2 * ?n" "c_strlen hexed = 2 * ?n" "take (2 * ?n) hexed = digits"
    using assms(3,13) hex_text_no_nul [THEN cstr_append_nul] by (simp_all add: hexed_def length_cstr [symmetric] del: length_cstr)
  have hexed: "card_text u (card_uid s) = Some hexed" "length hexed = UID_BUFFER"
    using card_text_hex [OF assms(2-5)] assms(4,5,13) digits(1) by (simp_all add: hexed_def)
  from push_event [OF assms(11,12), of hexed event_type_card_e] hexed(2) obtain eq b where
    e: "event_handler_push_event (stack_event (link_stack lk)) event_type_card_e hexed (queue_of lk (net c)) = Some eq"
    "is_event event_type_card_e hexed b" "event_queue_ok eq"
    "mq_contents eq = (if length (mq_contents (queue_of lk (net c))) < EVT_QUEUE_LEN
       then mq_contents (queue_of lk (net c)) @ [b] else mq_contents (queue_of lk (net c)))" by auto
  let ?c = "c\<lparr>net := queue_put lk eq (net c)\<rparr>" and ?others = "\<lambda>w. (queue_of lk w, wires w)"
  have put: "inp (net ?c) = inp (net c)" "out (net ?c) = out (net c)" "left (net ?c) = left (net c)" "wires (net ?c) = wires (net c)"
    "queue_of lk (net ?c) = eq" using sbs by (simp_all add: side_by_side_def)
  have c: "client_inv ?c" "64 \<le> send_size (mqtt_info ?c)" "send_size (mqtt_info ?c) < 268435456"
    "msg_queue ?c = [] \<and> left (net ?c) < 3 \<longrightarrow> puback_ahead T inp ?c"
    "0 < 2 * ?n" "2 * ?n \<le> 32" "2 * ?n \<le> length hexed"
    using assms(2,4,7-10) hexed(2) put by (simp_all add: client_inv_def puback_ahead_def)
  have "line_contract (link_platform lk pf) T inp out (\<lambda>w. (left w, ?others w))" "turn_after_waits (link_platform lk pf) left inp out ?others"
    using sbs by (simp_all add: side_by_side_def link_lines)
  from swipe_published [OF this c] obtain c' where
    "mqtt_link_send (link_platform lk pf) mqtt_link_mt_card_swipe_e hexed (2 * ?n) (Some ?c) = Some (Some c')"
    "?others (net c') = ?others (net ?c)"
    "out (net c') = out (net c) @ concat (replicate (copies left c)
        (wire (sent_msg UMQTT_QOS1 (fst (get_next_packetID c)) (topic_of ''card-swipe'') digits (2 * ?n))))"
    using put by (auto simp: digits(3) copies_def)
  moreover obtain rest where "hexed = digits @ 0 # rest" by (simp add: hexed_def)
  ultimately show ?thesis
    using e hexed digits(1,2) assms(6) put by (auto simp: card_swipe_def with_world_def world_of_def)
qed

section \<open>A turn\<close>

text \<open>What a turn finds, in a world whose chip is at rest.\<close>

lemma turn_finds:
  assumes w: "wired R E look store" and l: "latency E < 2000" and qr: "quiet_reader R look store lk pf out" and ql: "quiet_link lk pf out"
    and c: "sys_client s = Some c" "look (net c) = (ch, Deselected)"
  shows "\<exists>ch' w. PICC_IsNewCardPresent R (p_delay pf 500 (net c))
      = Some ((case ch_card ch of Some d \<Rightarrow> card_phase d = Card_Idle | None \<Rightarrow> False), w) \<and> w = store (ch', Deselected) w
    \<and> look w = (ch', Deselected) \<and> out w = out (net c) \<and> queue_of lk w = queue_of lk (net c)
    \<and> ch_card ch' = (case ch_card ch of None \<Rightarrow> None
        | Some d \<Rightarrow> Some (d\<lparr>card_phase := (case card_phase d of Card_Idle \<Rightarrow> Card_Ready 1 | Card_Halted \<Rightarrow> Card_Halted | _ \<Rightarrow> Card_Idle)\<rparr>))"
proof -
  let ?w = "p_delay pf 500 (net c)"
  have at: "look ?w = (ch, Deselected)" using qr c(2) by (simp add: quiet_reader_def)
  then have "store (ch, Deselected) ?w = ?w" using wired.store_look [OF w, of ?w] by simp
  with wired.card_present [OF w l, of ch ?w] obtain ch' where p: "PICC_IsNewCardPresent R ?w
      = Some ((case ch_card ch of Some d \<Rightarrow> card_phase d = Card_Idle | None \<Rightarrow> False),
          store (ch', Deselected) (reader_mdelay R 1 (store (ch', Deselected) ?w)))"
    and card: "ch_card ch' = (case ch_card ch of None \<Rightarrow> None
        | Some d \<Rightarrow> Some (d\<lparr>card_phase := (case card_phase d of Card_Idle \<Rightarrow> Card_Ready 1 | Card_Halted \<Rightarrow> Card_Halted | _ \<Rightarrow> Card_Idle)\<rparr>))"
    by auto
  show ?thesis
    by (rule exI [of _ ch'], rule exI, intro conjI, rule p)
      (use qr ql card in \<open>simp_all add: quiet_reader_def quiet_link_def wired.look_store [OF w] wired.store_store [OF w]\<close>)
qed

text \<open>
  C8: a card is reported twice, once to the application and once to the broker. When a card with a
  proper serial number of 4, 7 or 10 bytes has come into the field of the reader, alone, a turn of the card
  reader thread finds it, selects it through all cascade levels and reads its number, bit by bit over the wires of
  the software SPI bus (\<open>rt_spi_transfer_message\<close>), and ends with the card active; \<open>card_evt\<close> holds the
  number as lower case hexadecimal digits with a terminator, nothing is stored outside it; an event with
  these bytes is in the event queue behind the others (unless it is full); and, on a connected client, what is sent is
  the QoS 1 PUBLISH packet of topic \<open>rt-pay/00000000/card-swipe\<close> with the digits as its payload, and nothing
  else: once, when an acknowledgement is in the client's queue already or the receive thread takes a PUBACK in the
  first wait, a second or third time after waits without one, and three times when none comes.
\<close>

theorem card_swipe_reported:
  assumes "chip_on_board R P L dv o1 E wires put (\<lambda>w. (inp w, out w, left w, queue_of lk w))" and "latency E < 2000"
    and "side_by_side lk pf T wires left inp out"
    and "sys_client s = Some c" and "resting (\<lambda>s. link_out (snd s)) (wires (net c))" and "device (wires (net c)) = (ch, Deselected)"
    and "ch_card ch = Some d" and "card_phase d = Card_Idle"
    and "proper_serial (card_serial d)" and "card_sak d AND 0x04 = 0" and "length (uid_byte u) = 10"
    and "length (card_uid s) = UID_BUFFER" and "client_inv c"
    and "64 \<le> send_size (mqtt_info c)" "send_size (mqtt_info c) < 268435456"
    and "msg_queue c = [] \<and> left (net c) < 3 \<longrightarrow> puback_ahead T inp c"
    and "event_queue_ok (queue_of lk (net c))" and "length (stack_event (link_stack lk)) = event_size"
    and "digits = hex_text (card_serial d)"
  shows "\<exists>u' s' c' ch' b rest. card_reader_turn R lk pf (u, s) = Some (u', s') \<and> sys_client s' = Some c'
    \<and> take (unat (uid_size u')) (uid_byte u') = card_serial d \<and> sak u' = card_sak d
    \<and> device (wires (net c')) = (ch', Deselected) \<and> ch_card ch' = Some (d\<lparr>card_phase := Card_Active\<rparr>)
    \<and> card_uid s' = digits @ 0 # rest \<and> length (card_uid s') = UID_BUFFER
    \<and> is_event event_type_card_e (card_uid s') b \<and> event_queue_ok (queue_of lk (net c'))
    \<and> mq_contents (queue_of lk (net c')) = (if length (mq_contents (queue_of lk (net c))) < EVT_QUEUE_LEN
                         then mq_contents (queue_of lk (net c)) @ [b] else mq_contents (queue_of lk (net c)))
    \<and> out (net c') = out (net c) @ concat (replicate (if msg_queue c \<noteq> [] then 1 else min 3 (left (net c) + 1))
        (wire (sent_msg UMQTT_QOS1 (fst (get_next_packetID c)) (topic_of ''card-swipe'') digits (length digits))))"
proof -
  let ?obs = "\<lambda>w. (inp w, out w, left w, queue_of lk w)"
  have "chip_at wires ?obs (?obs (net c)) (p_delay pf 500 (net c)) (ch, Deselected)"
    using assms(3,5,6) by (simp add: side_by_side_def chip_at_def)
  from chip_on_board.board_present [OF assms(1) this assms(2)] assms(7,8) obtain ch1 w1 where
    p: "PICC_IsNewCardPresent R (p_delay pf 500 (net c)) = Some (True, w1)"
    and at1: "chip_at wires ?obs (?obs (net c)) w1 (ch1, Deselected)" and r: "ch_card ch1 = Some (d\<lparr>card_phase := Card_Ready 1\<rparr>)"
    by auto
  from chip_on_board.board_select [OF assms(1) at1 r, of u] assms(2,9-11) obtain u' ch2 w2 where
    sel: "PICC_Select R u 0 w1 = Some (STATUS_OK, u', w2)" and at2: "chip_at wires ?obs (?obs (net c)) w2 (ch2, Deselected)"
    and u': "length (uid_byte u') = 10" "unat (uid_size u') = length (card_serial d)"
      "take (length (card_serial d)) (uid_byte u') = card_serial d" "sak u' = card_sak d"
    and ch2: "ch_card ch2 = Some (d\<lparr>card_phase := Card_Active\<rparr>)" by auto
  have o2: "inp w2 = inp (net c)" "out w2 = out (net c)" "left w2 = left (net c)" "queue_of lk w2 = queue_of lk (net c)"
    "device (wires w2) = (ch2, Deselected)" using at2 by (simp_all add: chip_at_def)
  let ?s = "s\<lparr>sys_client := Some (c\<lparr>net := w2\<rparr>), sys_world := w2\<rparr>"
  have turn: "card_reader_turn R lk pf (u, s) = map_option (Pair u') (card_swipe lk pf u' ?s)"
    using p sel assms(4)
    by (simp add: card_reader_turn_def with_world_def world_of_def PICC_ReadCardSerial_def)
  have n: "0 < unat (uid_size u')" "unat (uid_size u') \<le> length (uid_byte u')" "unat (uid_size u') \<le> 16"
    using u' assms(9) by (auto simp: proper_serial_def)
  define c2 where "c2 = c\<lparr>net := w2\<rparr>"
  have c2: "client_inv c2" "64 \<le> send_size (mqtt_info c2)" "send_size (mqtt_info c2) < 268435456"
    "msg_queue c2 = [] \<and> left (net c2) < 3 \<longrightarrow> puback_ahead T inp c2"
    "event_queue_ok (queue_of lk (net c2))" "length (stack_event (link_stack lk)) = event_size"
    using assms(13-18) o2 by (simp_all add: c2_def client_inv_def puback_ahead_def)
  have s2: "length (card_uid ?s) = UID_BUFFER" "sys_client ?s = Some c2" using assms(12) by (simp_all add: c2_def)
  have "digits = hex_text (take (unat (uid_size u')) (uid_byte u'))" using assms(19) u' by simp
  from swipe_reported [OF assms(3) n s2 c2 this] obtain s' c' b rest where
    sw: "card_swipe lk pf u' ?s = Some s'" "sys_client s' = Some c'" "card_uid s' = digits @ 0 # rest" "length (card_uid s') = UID_BUFFER"
      "is_event event_type_card_e (card_uid s') b" "event_queue_ok (queue_of lk (net c'))"
    and w: "wires (net c') = wires (net c2)" and mq: "mq_contents (queue_of lk (net c')) = (if length (mq_contents (queue_of lk (net c2))) < EVT_QUEUE_LEN
       then mq_contents (queue_of lk (net c2)) @ [b] else mq_contents (queue_of lk (net c2)))"
    and sent: "out (net c') = out (net c2) @ concat (replicate (copies left c2)
        (wire (sent_msg UMQTT_QOS1 (fst (get_next_packetID c2)) (topic_of ''card-swipe'') digits (length digits))))"
    by blast
  have e: "queue_of lk (net c2) = queue_of lk (net c)" "out (net c2) = out (net c)" "fst (get_next_packetID c2) = fst (get_next_packetID c)"
    "copies left c2 = (if msg_queue c \<noteq> [] then 1 else min 3 (left (net c) + 1))" "device (wires (net c2)) = (ch2, Deselected)"
    using o2 by (simp_all add: c2_def copies_def)
  from turn sw(1) have "card_reader_turn R lk pf (u, s) = Some (u', s')" by simp
  moreover have "take (unat (uid_size u')) (uid_byte u') = card_serial d" using u' by simp
  moreover have "device (wires (net c')) = (ch2, Deselected)" using w e(5) by simp
  ultimately show ?thesis using sw(2-6) mq [unfolded e] sent [unfolded e] u'(4) ch2 by blast
qed

text \<open>
  C30: a turn without a fresh card reports nothing. When no card is in the field, or only one that is halted or has
  been selected already, the turn leaves \<open>Uid\<close>, \<open>card_evt\<close>, the event queue, the client (but for its network's
  clock) and the line as they are. A selected card, which the thread never halts, falls back to idle: a card
  left lying on the reader is found, and reported, again every second turn.
\<close>

theorem no_fresh_card_no_report:
  assumes "wired R E look store" and "latency E < 2000" and "quiet_reader R look store lk pf out" and "quiet_link lk pf out"
    and "sys_client s = Some c" and "look (net c) = (ch, Deselected)"
    and "case ch_card ch of None \<Rightarrow> True | Some d \<Rightarrow> card_phase d \<noteq> Card_Idle"
  shows "\<exists>w ch'. card_reader_turn R lk pf (u, s) = Some (u, s\<lparr>sys_client := Some (c\<lparr>net := w\<rparr>), sys_world := w\<rparr>)
    \<and> out w = out (net c) \<and> queue_of lk w = queue_of lk (net c) \<and> look w = (ch', Deselected)
    \<and> (case ch_card ch of None \<Rightarrow> ch_card ch' = None
       | Some d \<Rightarrow> ch_card ch' = Some (if card_phase d = Card_Halted then d else d\<lparr>card_phase := Card_Idle\<rparr>))"
proof -
  from turn_finds [OF assms(1-6)] obtain ch' w where
    p: "PICC_IsNewCardPresent R (p_delay pf 500 (net c)) = Some ((case ch_card ch of Some d \<Rightarrow> card_phase d = Card_Idle | None \<Rightarrow> False), w)"
    and w: "look w = (ch', Deselected)" "out w = out (net c)" "queue_of lk w = queue_of lk (net c)"
    and card: "ch_card ch' = (case ch_card ch of None \<Rightarrow> None
        | Some d \<Rightarrow> Some (d\<lparr>card_phase := (case card_phase d of Card_Idle \<Rightarrow> Card_Ready 1 | Card_Halted \<Rightarrow> Card_Halted | _ \<Rightarrow> Card_Idle)\<rparr>))"
    by auto
  from p assms(7) have "PICC_IsNewCardPresent R (p_delay pf 500 (net c)) = Some (False, w)" by (auto split: option.splits)
  then have "card_reader_turn R lk pf (u, s) = Some (u, s\<lparr>sys_client := Some (c\<lparr>net := w\<rparr>), sys_world := w\<rparr>)"
    using assms(5) by (simp add: card_reader_turn_def with_world_def world_of_def)
  moreover have "case ch_card ch of None \<Rightarrow> ch_card ch' = None
       | Some d \<Rightarrow> ch_card ch' = Some (if card_phase d = Card_Halted then d else d\<lparr>card_phase := Card_Idle\<rparr>)"
    using card assms(7) by (auto split: option.splits card_phase.splits)
  ultimately show ?thesis using w by blast
qed

text \<open>The same with the chip on the board's wires.\<close>

lemma no_fresh_card_on_board:
  assumes "chip_on_board R P L dv o1 E wires put (\<lambda>w. (inp w, out w, left w, queue_of lk w))" and "latency E < 2000"
    and "side_by_side lk pf T wires left inp out" and "sys_client s = Some c"
    and "resting (\<lambda>s. link_out (snd s)) (wires (net c))" and "device (wires (net c)) = (ch, Deselected)"
    and "case ch_card ch of None \<Rightarrow> True | Some d \<Rightarrow> card_phase d \<noteq> Card_Idle"
  shows "\<exists>w ch'. card_reader_turn R lk pf (u, s) = Some (u, s\<lparr>sys_client := Some (c\<lparr>net := w\<rparr>), sys_world := w\<rparr>)
    \<and> inp w = inp (net c) \<and> out w = out (net c) \<and> queue_of lk w = queue_of lk (net c) \<and> device (wires w) = (ch', Deselected)
    \<and> (case ch_card ch of None \<Rightarrow> ch_card ch' = None
       | Some d \<Rightarrow> ch_card ch' = Some (if card_phase d = Card_Halted then d else d\<lparr>card_phase := Card_Idle\<rparr>))"
proof -
  let ?obs = "\<lambda>w. (inp w, out w, left w, queue_of lk w)"
  have "chip_at wires ?obs (?obs (net c)) (p_delay pf 500 (net c)) (ch, Deselected)"
    using assms(3,5,6) by (simp add: side_by_side_def chip_at_def)
  from chip_on_board.board_present [OF assms(1) this assms(2)] assms(7) obtain ch' w where
    p: "PICC_IsNewCardPresent R (p_delay pf 500 (net c)) = Some (False, w)"
    and w: "chip_at wires ?obs (?obs (net c)) w (ch', Deselected)"
    and card: "ch_card ch' = (case ch_card ch of None \<Rightarrow> None
        | Some d \<Rightarrow> Some (d\<lparr>card_phase := (case card_phase d of Card_Idle \<Rightarrow> Card_Ready 1 | Card_Halted \<Rightarrow> Card_Halted | _ \<Rightarrow> Card_Idle)\<rparr>))"
    by (auto split: option.splits)
  from p have "card_reader_turn R lk pf (u, s) = Some (u, s\<lparr>sys_client := Some (c\<lparr>net := w\<rparr>), sys_world := w\<rparr>)"
    using assms(4) by (simp add: card_reader_turn_def with_world_def world_of_def)
  moreover have "case ch_card ch of None \<Rightarrow> ch_card ch' = None
       | Some d \<Rightarrow> ch_card ch' = Some (if card_phase d = Card_Halted then d else d\<lparr>card_phase := Card_Idle\<rparr>)"
    using card assms(7) by (auto split: option.splits card_phase.splits)
  ultimately show ?thesis using w unfolding chip_at_def by (intro exI [of _ w] exI [of _ ch'] conjI) simp_all
qed

text \<open>
  A world with a line that takes two bytes a call, the event queue, and a card of seven bytes in front
  of a chip that is ready after three polls.
\<close>

type_synonym desk = "bytes \<times> rt_messagequeue \<times> chip \<times> spi_link"

definition line_platform :: "desk platform" where
  "line_platform =
    \<lparr> p_getaddrinfo = (\<lambda>_ _ w. ((0, Some 1), w)), p_socket = (\<lambda>_ w. (3, w)),
      p_connect = (\<lambda>_ _ w. (0, w)), p_closesocket = (\<lambda>_ w. ((0, 0), w)),
      p_send = (\<lambda>_ xs (sent, w). (Send_Count (min 2 (length xs)), (sent @ take 2 xs, w))),
      p_recv = (\<lambda>_ n w. (Recv_Data [], w)), p_malloc = (\<lambda>_ w. (True, w)),
      p_tick = (\<lambda>w. (0, w)), p_delay = (\<lambda>_ w. w), p_object_create = (\<lambda>w. (True, w)),
      p_timer_start = (\<lambda>w. (True, w)), p_callback = (\<lambda>_ _ _ b w. Some (b, w)),
      p_user_handler = (\<lambda>_ _ w. w), p_while_blocked = (\<lambda>_ w. ([], w)) \<rparr>"

definition line_link :: "desk link" where
  "line_link = \<lparr> queue_of = (\<lambda>w. fst (snd w)), queue_put = (\<lambda>q w. (fst w, q, snd (snd w))),
     link_stack = \<lparr> stack_tokens = [], stack_event = replicate 40 7 \<rparr> \<rparr>"

definition desk_card :: card where
  "desk_card = \<lparr>card_serial = [4, 0xAB, 0x0C, 0x5E, 0, 1, 2], card_atqa = (0x44, 0), card_sak = 0x20, card_phase = Card_Idle\<rparr>"

definition desk_chip :: chip where
  "desk_chip = \<lparr>ch_fifo = [], ch_com = 0, ch_div = 0, ch_command = 0, ch_framing = 0, ch_control = 0, ch_crc = (0, 0), ch_wait = 0,
     ch_due_com = 0, ch_due_div = 0, ch_due_fifo = [], ch_regs = (\<lambda>_. 0), ch_card = Some desk_card\<rparr>"

definition desk_env :: rf_env where
  "desk_env = \<lparr>crc_a = (\<lambda>bs. (foldr (+) bs 0x63, word_of_nat (length bs))), latency = 3\<rparr>"

definition desk_place :: "chip \<times> spi_link \<Rightarrow> desk \<Rightarrow> desk" where
  "desk_place s w = (fst w, fst (snd w), s)"

definition desk_reader :: "desk reader" where
  "desk_reader = placed_reader desk_env (\<lambda>w. snd (snd w)) desk_place"

interpretation desk: wired desk_reader desk_env "\<lambda>w. snd (snd w)" desk_place
  unfolding desk_reader_def by (rule wired_placed) (simp_all add: desk_place_def)

definition line_system :: "rt_messagequeue \<Rightarrow> desk system" where
  "line_system q = \<lparr> sys_client = Some ((new_client (umqtt_check_def_info link_info) [] ([], q, desk_chip, Deselected))
       \<lparr>msg_queue := [\<lparr> ack_packet_id = 1, ack_msg_type = type_code UMQTT_TYPE_PUBACK \<rparr>]\<rparr>),
     sys_world = ([], q, desk_chip, Deselected), card_uid = replicate 33 0 \<rparr>"

text \<open>
  The same card before the chip on the board's wires, and a broker whose PUBACK is taken in the second wait.
\<close>

record bench =
  bench_in :: bytes
  bench_out :: bytes
  bench_left :: nat
  bench_queue :: rt_messagequeue
  bench_wires :: "(chip \<times> spi_link) wire_state"

abbreviation put_wires :: "(chip \<times> spi_link) wire_state \<Rightarrow> bench \<Rightarrow> bench" where
  "put_wires x w \<equiv> w\<lparr>bench_wires := x\<rparr>"

definition bench_reader :: "bench reader" where
  "bench_reader = board_reader (board_pins desk_env bench_wires put_wires) (\<lambda>n w. w)"

interpretation bench: chip_on_board bench_reader "board_pins desk_env bench_wires put_wires" board_lines rc522_device board_bus desk_env
    bench_wires put_wires "\<lambda>w. (bench_in w, bench_out w, bench_left w, bench_queue w)"
  unfolding bench_reader_def by (rule chip_on_board_pins) simp_all

definition bench_platform :: "bench platform" where
  "bench_platform =
    \<lparr> p_getaddrinfo = (\<lambda>_ _ w. ((0, Some 1), w)), p_socket = (\<lambda>_ w. (3, w)),
      p_connect = (\<lambda>_ _ w. (0, w)), p_closesocket = (\<lambda>_ w. ((0, 0), w)),
      p_send = (\<lambda>_ xs w. (Send_Count (min 2 (length xs)), w\<lparr>bench_out := bench_out w @ take 2 xs\<rparr>)),
      p_recv = (\<lambda>_ n w. (Recv_Data (take n (bench_in w)), w\<lparr>bench_in := drop n (bench_in w)\<rparr>)), p_malloc = (\<lambda>_ w. (True, w)),
      p_tick = (\<lambda>w. (0, w)), p_delay = (\<lambda>_ w. w), p_object_create = (\<lambda>w. (True, w)),
      p_timer_start = (\<lambda>w. (True, w)), p_callback = (\<lambda>_ _ _ b w. Some (b, w)), p_user_handler = (\<lambda>_ _ w. w),
      p_while_blocked = (\<lambda>_ w. (if bench_left w = 0 then [Reader_Turn] else [], w\<lparr>bench_left := bench_left w - 1\<rparr>)) \<rparr>"

definition bench_link :: "bench link" where
  "bench_link = \<lparr> queue_of = bench_queue, queue_put = (\<lambda>q w. w\<lparr>bench_queue := q\<rparr>),
     link_stack = \<lparr> stack_tokens = [], stack_event = replicate 40 7 \<rparr> \<rparr>"

definition bench_world :: "rt_messagequeue \<Rightarrow> bench" where
  "bench_world q = \<lparr>bench_in = [0x40, 2, 0, 1], bench_out = [], bench_left = 1, bench_queue = q,
     bench_wires = \<lparr>clock_high = False, mosi_high = True, shift_in = 0, shifted = 0, shift_out = 0, device = (desk_chip, Deselected)\<rparr>\<rparr>"

definition bench_system :: "rt_messagequeue \<Rightarrow> bench system" where
  "bench_system q = \<lparr> sys_client = Some (new_client (umqtt_check_def_info link_info) [] (bench_world q)),
     sys_world = bench_world q, card_uid = replicate 33 0 \<rparr>"

lemma bench_side_by_side: "side_by_side bench_link bench_platform {0} bench_wires bench_left bench_in bench_out"
  by (auto simp: side_by_side_def line_contract_def recv_contract_def clock_contract_def out_contract_def turn_after_waits_def
      bench_platform_def bench_link_def min_def)

theorem card_swipe_reported_witness:
  "\<exists>q u' s' c' rest b. event_handler_init plain_heap = Some q
    \<and> card_reader_turn bench_reader bench_link bench_platform (\<lparr> uid_size = 0, uid_byte = replicate 10 0, sak = 0 \<rparr>, bench_system q) = Some (u', s')
    \<and> sys_client s' = Some c' \<and> take (unat (uid_size u')) (uid_byte u') = [4, 0xAB, 0x0C, 0x5E, 0, 1, 2]
    \<and> card_uid s' = ascii ''04ab0c5e000102'' @ 0 # rest
    \<and> is_event event_type_card_e (card_uid s') b \<and> mq_contents (bench_queue (net c')) = [b]
    \<and> bench_out (net c') = concat (replicate 2
        (wire (sent_msg UMQTT_QOS1 1 (topic_of ''card-swipe'') (ascii ''04ab0c5e000102'') 14)))"
proof -
  let ?digits = "ascii ''04ab0c5e000102''" and ?u = "\<lparr> uid_size = 0, uid_byte = replicate 10 0, sak = 0 \<rparr>"
  obtain q where q: "event_handler_init plain_heap = Some q" "event_queue_ok q" "mq_contents q = []" using plain_queue by blast
  define c where "c = new_client (umqtt_check_def_info link_info) [] (bench_world q)"
  have inv: "client_inv c" unfolding c_def by (rule new_client_inv)
  have info: "send_size (mqtt_info c) = 1024" "recv_size (mqtt_info c) = 1024" "task_handle c" "net c = bench_world q" "msg_queue c = []"
    "in_time {0} (recv_time_ms (mqtt_info c))"
    by (simp_all add: c_def new_client_def umqtt_check_def_info_def link_info_def in_time_def rt_tick_from_millisecond_def
        signed_divide_int_def signed_modulo_int_def)
  have ahead: "puback_ahead {0} bench_in c" using info by (simp add: puback_ahead_def bench_world_def)
  have id: "fst (get_next_packetID c) = 1" by (simp add: c_def new_client_def get_next_packetID_def)
  have digits: "?digits = hex_text (card_serial desk_card)" by code_simp
  have len: "length ?digits = 14" by (simp add: ascii_def)
  have card: "proper_serial (card_serial desk_card)" "card_sak desk_card AND 0x04 = 0" "card_phase desk_card = Card_Idle"
    by (simp_all add: desk_card_def proper_serial_def serial_levels_def)
  have world: "resting (\<lambda>s. link_out (snd s)) (bench_wires (net c))" "device (bench_wires (net c)) = (desk_chip, Deselected)"
    "ch_card desk_chip = Some desk_card" "bench_out (net c) = []" "bench_left (net c) = 1"
    by (simp_all add: info bench_world_def resting_def desk_chip_def)
  have lk: "queue_of bench_link = bench_queue" "length (stack_event (link_stack bench_link)) = event_size" "latency desk_env < 2000"
    "queue_of bench_link (net c) = q"
    by (simp_all add: bench_link_def desk_env_def info bench_world_def)
  have sys: "sys_client (bench_system q) = Some c" "length (card_uid (bench_system q)) = UID_BUFFER"
    by (simp_all add: bench_system_def c_def)
  have "\<exists>u' s' c' ch' b rest. card_reader_turn bench_reader bench_link bench_platform (?u, bench_system q) = Some (u', s') \<and> sys_client s' = Some c'
    \<and> take (unat (uid_size u')) (uid_byte u') = card_serial desk_card \<and> sak u' = card_sak desk_card
    \<and> device (bench_wires (net c')) = (ch', Deselected) \<and> ch_card ch' = Some (desk_card\<lparr>card_phase := Card_Active\<rparr>)
    \<and> card_uid s' = ?digits @ 0 # rest \<and> length (card_uid s') = UID_BUFFER
    \<and> is_event event_type_card_e (card_uid s') b \<and> event_queue_ok (queue_of bench_link (net c'))
    \<and> mq_contents (queue_of bench_link (net c')) = (if length (mq_contents (queue_of bench_link (net c))) < EVT_QUEUE_LEN
         then mq_contents (queue_of bench_link (net c)) @ [b] else mq_contents (queue_of bench_link (net c)))
    \<and> bench_out (net c') = bench_out (net c) @ concat (replicate (if msg_queue c \<noteq> [] then 1 else min 3 (bench_left (net c) + 1))
        (wire (sent_msg UMQTT_QOS1 (fst (get_next_packetID c)) (topic_of ''card-swipe'') ?digits (length ?digits))))"
    by (rule card_swipe_reported [OF bench.chip_on_board_axioms [folded lk(1)] lk(3) bench_side_by_side sys(1) world(1,2,3) card(3,1,2)])
       (use sys(2) inv info(1) ahead lk q(2) digits in simp_all)
  then show ?thesis
  proof (elim exE conjE, goal_cases)
    case (1 u' s' c' ch' b rest)
    show ?case
      by (rule exI [of _ q], rule exI [of _ u'], rule exI [of _ s'], rule exI [of _ c'], rule exI [of _ rest], rule exI [of _ b])
        (use 1 q(1,3) lk(1,4) id len world(4,5) info(5) in \<open>simp add: desk_card_def numeral_2_eq_2\<close>)
  qed
qed

text \<open>The same desk with the card selected already.\<close>

theorem no_fresh_card_no_report_witness:
  "\<forall>q u. \<exists>w ch'. card_reader_turn desk_reader line_link line_platform (u, (line_system q)
        \<lparr>sys_client := Some ((the (sys_client (line_system q)))\<lparr>net := ([], q, desk_chip\<lparr>ch_card := Some (desk_card\<lparr>card_phase := Card_Active\<rparr>)\<rparr>, Deselected)\<rparr>)\<rparr>)
      = Some (u, (line_system q)\<lparr>sys_client := Some ((the (sys_client (line_system q)))\<lparr>net := w\<rparr>), sys_world := w\<rparr>)
    \<and> fst w = [] \<and> snd (snd w) = (ch', Deselected) \<and> ch_card ch' = Some (desk_card\<lparr>card_phase := Card_Idle\<rparr>)"
proof (intro allI, goal_cases)
  case (1 q u)
  have quiet: "quiet_link line_link line_platform fst" by (simp add: quiet_link_def line_link_def line_platform_def)
  have reader: "quiet_reader desk_reader (\<lambda>w. snd (snd w)) desk_place line_link line_platform fst"
    by (simp add: quiet_reader_def line_link_def line_platform_def desk_reader_def placed_reader_def desk_place_def)
  show ?case
    using no_fresh_card_no_report [OF desk.wired_axioms _ reader quiet, where ch = "desk_chip\<lparr>ch_card := Some (desk_card\<lparr>card_phase := Card_Active\<rparr>)\<rparr>"
      and c = "(the (sys_client (line_system q)))\<lparr>net := ([], q, desk_chip\<lparr>ch_card := Some (desk_card\<lparr>card_phase := Card_Active\<rparr>)\<rparr>, Deselected)\<rparr>"
      and s = "(line_system q)\<lparr>sys_client := Some ((the (sys_client (line_system q)))\<lparr>net := ([], q, desk_chip\<lparr>ch_card := Some (desk_card\<lparr>card_phase := Card_Active\<rparr>)\<rparr>, Deselected)\<rparr>)\<rparr>"
      and u = u]
    by (fastforce simp: desk_env_def)
qed

end
