(* ===== verification/At_Text.thy ===== *)
theory At_Text
  imports Prelude
begin

text \<open>
  The text the AT layer prints and reads: decimal numbers (\<open>%d\<close>, \<open>%u\<close> of \<open>printf\<close> and \<open>scanf\<close>), and
  the dotted addresses of \<open>at_socket.c\<close> (\<open>ipstr_atol\<close>, \<open>ipstr_to_u32\<close>, \<open>ipaddr_to_ipstr\<close>). The
  lemmas show that what is printed is read back.
\<close>

section \<open>Decimal numbers\<close>

definition c_isdigit :: "u8 \<Rightarrow> bool" where
  "c_isdigit b \<longleftrightarrow> 48 \<le> b \<and> b \<le> 57"

definition c_isspace :: "u8 \<Rightarrow> bool" where
  "c_isspace b \<longleftrightarrow> b = 32 \<or> 9 \<le> b \<and> b \<le> 13"

definition c_isalpha :: "u8 \<Rightarrow> bool" where
  "c_isalpha b \<longleftrightarrow> 65 \<le> b \<and> b \<le> 90 \<or> 97 \<le> b \<and> b \<le> 122"

definition digits_nat :: "bytes \<Rightarrow> nat" where
  "digits_nat s = foldl (\<lambda>t b. 10 * t + (unat b - 48)) 0 s"

text \<open>
  A \<open>%d\<close> of \<open>sscanf\<close>: white space, a sign, digits; \<open>None\<close> when no digit is there. The standard leaves
  a number that does not fit the object open; the numbers met here are small.
\<close>

definition scan_int :: "bytes \<Rightarrow> (int \<times> bytes) option" where
  "scan_int s =
     (let s = dropWhile c_isspace s;
          neg = (take 1 s = [0x2D]);
          s = (if take 1 s = [0x2D] \<or> take 1 s = [0x2B] then drop 1 s else s);
          ds = takeWhile c_isdigit s in
      if ds = [] then None
      else Some ((if neg then - int (digits_nat ds) else int (digits_nat ds)), drop (length ds) s))"

section \<open>Addresses\<close>

text \<open>\<open>ipstr_atol\<close>: the arithmetic is that of \<open>uint32_t\<close>.\<close>

definition ipstr_atol :: "bytes \<Rightarrow> u32" where
  "ipstr_atol nptr =
     (let s = dropWhile c_isspace nptr;
          minus = (take 1 s = [0x2D]);
          s = (if take 1 s = [0x2D] \<or> take 1 s = [0x2B] then drop 1 s else s);
          total = foldl (\<lambda>t b. 10 * t + (ucast b - 48)) 0 (takeWhile c_isdigit s) in
      if minus then - total else total)"

text \<open>The four bytes \<open>ipBytes\<close> of \<open>ipstr_to_u32\<close>; those behind the last dot found stay 0.\<close>

fun ipstr_bytes :: "nat \<Rightarrow> bytes \<Rightarrow> bytes" where
  "ipstr_bytes 0 s = []"
| "ipstr_bytes (Suc i) s =
     ucast (ipstr_atol s) #
     (case dropWhile (\<lambda>b. b \<noteq> 0x2E) s of [] \<Rightarrow> replicate i 0 | _ # s \<Rightarrow> ipstr_bytes i s)"

definition u32_of_bytes :: "bytes \<Rightarrow> u32" where
  "u32_of_bytes bs = foldr (\<lambda>b t. ucast b + 256 * t) bs 0"

definition ipstr_to_u32 :: "bytes \<Rightarrow> u32" where
  "ipstr_to_u32 ipstr = u32_of_bytes (ipstr_bytes 4 (cstr ipstr))"

definition NIPQUAD :: "u32 \<Rightarrow> bytes" where
  "NIPQUAD addr = map (\<lambda>k. ucast (drop_bit (8 * k) addr)) [0, 1, 2, 3]"

definition ipaddr_to_ipstr :: "u32 \<Rightarrow> bytes" where
  "ipaddr_to_ipstr addr =
     (case map (\<lambda>b. decimal (unat b)) (NIPQUAD addr) of
        [a, b, c, d] \<Rightarrow> a @ [0x2E] @ b @ [0x2E] @ c @ [0x2E] @ d
      | _ \<Rightarrow> [])"

section \<open>What is printed is read back\<close>

lemma digit_byte:
  assumes "k < 10"
  shows "c_isdigit (48 + word_of_nat k)" and "unat (48 + word_of_nat k :: u8) = 48 + k"
proof -
  have "(48 + word_of_nat k :: u8) = word_of_nat (48 + k)" by simp
  then show u: "unat (48 + word_of_nat k :: u8) = 48 + k"
    using assms unat_of_nat_u8 [of "48 + k"] by (simp only: mult_1)
  then show "c_isdigit (48 + word_of_nat k)"
    using assms by (simp add: c_isdigit_def word_le_nat_alt del: of_nat_add)
qed

lemma dec_isdigit: "b \<in> set (decimal n) \<Longrightarrow> c_isdigit b"
proof (induction n rule: decimal.induct)
  case (1 n)
  then show ?case
    by (subst (asm) (2) decimal.simps) (auto simp: digit_byte split: if_splits)
qed

lemma dec_nonempty [simp]: "decimal n \<noteq> []"
  by (subst decimal.simps) simp

lemma foldl_dec:
  assumes step: "\<And>t k. k < 10 \<Longrightarrow> f t (48 + word_of_nat k :: u8) = g t k" and hom: "\<And>m k. k < 10 \<Longrightarrow> g (h m) k = h (10 * m + k)"
  shows "foldl f (h 0) (decimal n) = h n"
proof (induction n rule: decimal.induct)
  case (1 n)
  show ?case
  proof (cases "n < 10")
    case True
    then show ?thesis using hom [of n 0] by (subst decimal.simps) (simp add: step)
  next
    case False
    with 1 have "foldl f (h 0) (decimal (n div 10)) = h (n div 10)" by simp
    with False show ?thesis by (subst decimal.simps) (simp add: step hom)
  qed
qed

lemma digits_nat_dec: "digits_nat (decimal n) = n"
  unfolding digits_nat_def
  by (rule foldl_dec [where h = "\<lambda>n. n" and g = "\<lambda>t k. 10 * t + k"]) (simp_all add: digit_byte)

lemma takeWhile_dec: "\<not> c_isdigit b \<Longrightarrow> takeWhile c_isdigit (decimal n @ b # s) = decimal n"
  by (simp add: takeWhile_append dec_isdigit)

lemma digit_not: "c_isdigit b \<Longrightarrow> \<not> c_isspace b \<and> b \<noteq> 0x2D \<and> b \<noteq> 0x2B \<and> b \<noteq> 0x2E \<and> b \<noteq> 0"
  by (auto simp: c_isdigit_def c_isspace_def word_le_nat_alt)

lemma cstr_decimal: "cstr (decimal n) = decimal n"
  using dec_isdigit digit_not by (intro cstr_id) blast

lemma dec_start: "\<exists>b ds. decimal n = b # ds \<and> c_isdigit b"
  by (cases "decimal n") (use dec_isdigit [of _ n] in auto)

text \<open>A printed number in front of something that is no digit.\<close>

lemma scan_int_dec: "\<not> c_isdigit b \<Longrightarrow> scan_int (decimal n @ b # s) = Some (int n, b # s)"
proof -
  assume b: "\<not> c_isdigit b"
  obtain d ds where d: "decimal n = d # ds" "c_isdigit d" using dec_start by blast
  have t: "takeWhile c_isdigit (d # ds @ b # s) = decimal n" using takeWhile_dec [OF b, of n s] d by simp
  then show ?thesis using d digit_not [OF d(2)] digits_nat_dec [of n]
    by (simp add: scan_int_def Let_def)
qed

lemma scan_int_decimal: "scan_int (decimal n) = Some (int n, [])"
proof -
  obtain d ds where d: "decimal n = d # ds" "c_isdigit d" using dec_start by blast
  have t: "takeWhile c_isdigit ds = ds"
    using dec_isdigit [of _ n] d(1) by (subst takeWhile_eq_all_conv) simp
  show ?thesis using d digit_not [OF d(2)] digits_nat_dec [of n] by (simp add: scan_int_def Let_def t)
qed

lemma ipstr_atol_dec:
  assumes "s = [] \<or> \<not> c_isdigit (hd s)"
  shows "ipstr_atol (decimal n @ s) = word_of_nat n"
proof -
  obtain d ds where d: "decimal n = d # ds" "c_isdigit d" using dec_start by blast
  have t: "takeWhile c_isdigit (decimal n @ s) = decimal n"
    using assms by (cases s) (auto simp: takeWhile_append dec_isdigit)
  have v: "foldl (\<lambda>t b. 10 * t + (ucast b - 48)) (0 :: u32) (decimal n) = word_of_nat n"
  proof (rule foldl_dec [where h = "word_of_nat :: nat \<Rightarrow> u32" and g = "\<lambda>t k. 10 * t + word_of_nat k", simplified])
    fix t :: u32 and k :: nat
    assume k: "k < 10"
    have "(ucast (48 + word_of_nat k :: u8) :: u32) = word_of_nat (48 + k)"
      using digit_byte(2) [OF k] by (metis of_nat_unat)
    then show "10 * t + (ucast (48 + word_of_nat k :: u8) - 48) = 10 * t + word_of_nat k" by simp
  qed
  from t d digit_not [OF d(2)] v show ?thesis by (simp add: ipstr_atol_def Let_def)
qed

lemma dropWhile_dot: "dropWhile (\<lambda>b. b \<noteq> 0x2E) (decimal n @ 0x2E # s) = 0x2E # s"
  by (subst dropWhile_append3) (use dec_isdigit digit_not in \<open>auto\<close>)

lemma dropWhile_last: "dropWhile (\<lambda>b. b \<noteq> 0x2E) (decimal n) = []"
  using dec_isdigit [of _ n] digit_not by (auto simp: dropWhile_eq_Nil_conv)

lemma unat_u32_less: "unat (a :: u32) < 4294967296"
  using unsigned_less [where 'b = 32, of a] by simp

lemma byte_of_word: "(ucast (ucast (drop_bit k a :: u32) :: u8) :: u32) = word_of_nat (unat a div 2 ^ k mod 256)"
proof -
  have "unat (ucast (drop_bit k a) :: u8) = unat a div 2 ^ k mod 256"
    by (simp only: unsigned_ucast_eq unsigned_drop_bit_eq)
      (simp add: take_bit_eq_mod drop_bit_eq_div [where 'a = nat] unat_u32_less)
  then show ?thesis by (metis of_nat_unat)
qed

lemma base256:
  assumes "n < 4294967296"
  shows "n mod 256 + 256 * (n div 2 ^ 8 mod 256 + 256 * (n div 2 ^ 16 mod 256 + 256 * (n div 2 ^ 24 mod 256))) = (n :: nat)"
proof -
  have s: "x mod 256 + 256 * (x div 256) = x" for x :: nat by simp
  have d: "n div 2 ^ 16 = n div 2 ^ 8 div 256" "n div 2 ^ 24 = n div 2 ^ 16 div 256"
    by (simp_all add: div_mult2_eq [symmetric])
  from assms have t: "n div 2 ^ 24 mod 256 = n div 2 ^ 24"
    by (intro mod_less) (simp add: less_mult_imp_div_less)
  show ?thesis by (simp only: t) (simp only: d s, simp)
qed

lemma u32_of_NIPQUAD: "u32_of_bytes (NIPQUAD a) = a"
  using arg_cong [OF base256 [OF unat_u32_less], of "word_of_nat :: nat \<Rightarrow> u32" a] byte_of_word [of 0 a]
  by (simp only: of_nat_add of_nat_mult of_nat_numeral of_nat_unat ucast_id)
    (simp add: u32_of_bytes_def NIPQUAD_def byte_of_word)

text \<open>An address printed by \<open>ipaddr_to_ipstr\<close> is read back by \<open>ipstr_to_u32\<close>.\<close>

lemma ucast_word_of_nat: "(ucast (word_of_nat n :: u32) :: u8) = word_of_nat n"
  by (simp add: word_eq_iff_unsigned [where ?'a = nat] unsigned_ucast_eq unsigned_of_nat)

lemma ipstr_bytes_dec:
  "ipstr_bytes (Suc i) (decimal n @ 0x2E # s) = word_of_nat n # ipstr_bytes i s"
  "ipstr_bytes (Suc 0) (decimal n) = [word_of_nat n]"
  using ipstr_atol_dec [of "0x2E # s" n] ipstr_atol_dec [of "[]" n]
  by (simp_all add: dropWhile_dot dropWhile_last c_isdigit_def word_le_nat_alt ucast_word_of_nat)

lemma ipstr_roundtrip: "ipstr_to_u32 (ipaddr_to_ipstr a) = a"
proof -
  obtain p q r s where q: "NIPQUAD a = [p, q, r, s]" by (simp add: NIPQUAD_def)
  have z: "cstr (ipaddr_to_ipstr a) = ipaddr_to_ipstr a"
    using dec_isdigit digit_not by (intro cstr_id) (fastforce simp: ipaddr_to_ipstr_def q)
  have "ipstr_bytes 4 (ipaddr_to_ipstr a) = NIPQUAD a"
    by (simp add: ipaddr_to_ipstr_def q numeral_eq_Suc ipstr_bytes_dec del: ipstr_bytes.simps)
  with z u32_of_NIPQUAD [of a] show ?thesis by (simp add: ipstr_to_u32_def)
qed

lemma length_ipstr: "length (ipaddr_to_ipstr a) \<le> 15"
proof -
  obtain p q r s where q: "NIPQUAD a = [p, q, r, s]" by (simp add: NIPQUAD_def)
  have l: "length (decimal (unat b)) \<le> 3" for b :: u8
  proof -
    have "unat b < 256" by (rule unat_u8_less)
    then have "unat b div 10 div 10 < 10" by simp
    then show ?thesis
      by (subst decimal.simps, subst decimal.simps, subst decimal.simps) simp
  qed
  show ?thesis using l [of p] l [of q] l [of r] l [of s] by (simp add: ipaddr_to_ipstr_def q)
qed

end
