(* ===== verification/At_Client.thy ===== *)
theory At_Client
  imports At_Text
begin

text \<open>
  The AT client, \<open>at_client.c\<close> and \<open>at_utils.c\<close>: response objects, the reading of lines, the
  recognition of unsolicited result codes (URC) and the parser thread, the commands.

  The serial device is what it has yet to deliver (\<open>rx\<close>: bytes, and pauses longer than the limit of
  a read with a time limit) and what was written to it (\<open>tx\<close>). A read without a limit on a silent
  line is a run that does not come back (\<open>None\<close>). The response object of the running command is part
  of the client (\<open>response\<close>); \<open>resp\<close> says whether \<open>client->resp\<close> points to it. The functions of the
  URC table are given by a name and run by an argument \<open>call\<close>.
\<close>

section \<open>Data\<close>

datatype rx_item = Rx u8 | Rx_Idle

datatype at_status = AT_STATUS_UNINITIALIZED | AT_STATUS_INITIALIZED | AT_STATUS_CLI
datatype at_resp_status = AT_RESP_OK | AT_RESP_ERROR | AT_RESP_TIMEOUT | AT_RESP_BUFF_FULL

record 'f at_urc =
  cmd_prefix :: bytes
  cmd_suffix :: bytes
  urc_func :: "'f option"

record at_response =
  resp_buf :: bytes
  resp_buf_size :: nat
  resp_buf_len :: nat
  line_num :: nat
  line_counts :: nat
  resp_timeout :: int

record 'f at_client =
  status :: at_status
  end_sign :: u8
  recv_line_buf :: bytes
  recv_line_len :: nat
  recv_bufsz :: nat
  response :: at_response
  resp :: bool
  resp_notice :: nat
  resp_status :: at_resp_status
  urc_table :: "'f at_urc list list"
  rx :: "rx_item list"
  tx :: bytes

definition AT_RESP_END_OK :: bytes where "AT_RESP_END_OK = ascii ''OK''"
definition AT_RESP_END_ERROR :: bytes where "AT_RESP_END_ERROR = ascii ''ERROR''"
definition AT_RESP_END_FAIL :: bytes where "AT_RESP_END_FAIL = ascii ''FAIL''"
definition CRLF :: bytes where "CRLF = [13, 10]"

section \<open>Response objects\<close>

text \<open>\<open>at_create_resp\<close>: the heap grants the object and its buffer or not.\<close>

definition at_create_resp :: "bool \<Rightarrow> bool \<Rightarrow> nat \<Rightarrow> nat \<Rightarrow> int \<Rightarrow> at_response option" where
  "at_create_resp mem_obj mem_buf buf_size lines timeout =
     (if \<not> mem_obj \<or> \<not> mem_buf then None
      else Some \<lparr> resp_buf = replicate buf_size 0, resp_buf_size = buf_size, resp_buf_len = 0, line_num = lines,
        line_counts = 0, resp_timeout = timeout \<rparr>)"

text \<open>
  \<open>at_resp_set_info\<close>: \<open>garbage\<close> is what \<open>rt_realloc\<close> leaves behind the old contents. When it fails, the
  size is already changed.
\<close>

definition at_resp_set_info ::
    "bool \<Rightarrow> bytes \<Rightarrow> nat \<Rightarrow> nat \<Rightarrow> int \<Rightarrow> at_response \<Rightarrow> bool \<times> at_response" where
  "at_resp_set_info mem_ok garbage buf_size lines timeout r =
     (if resp_buf_size r \<noteq> buf_size
      then (let r = r\<lparr>resp_buf_size := buf_size\<rparr> in
        if \<not> mem_ok then (False, r)
        else (True, r\<lparr>resp_buf := take buf_size (resp_buf r @ garbage), line_num := lines, resp_timeout := timeout\<rparr>))
      else (True, r\<lparr>line_num := lines, resp_timeout := timeout\<rparr>))"

text \<open>The walk over the lines: \<open>strlen\<close> of a text that is not terminated in the buffer is not defined.\<close>

definition strlen_at :: "bytes \<Rightarrow> nat \<Rightarrow> nat option" where
  "strlen_at buf off = (if 0 \<in> set (drop off buf) then Some (c_strlen (drop off buf)) else None)"

fun resp_line_walk :: "bytes \<Rightarrow> nat \<Rightarrow> nat \<Rightarrow> nat option" where
  "resp_line_walk buf off 0 = Some off"
| "resp_line_walk buf off (Suc k) = do { l \<leftarrow> strlen_at buf off; resp_line_walk buf (off + l + 1) k }"

text \<open>\<open>at_resp_get_line\<close>: the offset of the line in the buffer; the inner option is the null pointer.\<close>

definition at_resp_get_line :: "at_response \<Rightarrow> nat \<Rightarrow> nat option option" where
  "at_resp_get_line r resp_line =
     (if line_counts r < resp_line \<or> resp_line = 0 then Some None
      else map_option Some (resp_line_walk (resp_buf r) 0 (resp_line - 1)))"

text \<open>\<open>strstr\<close>.\<close>

fun is_prefix :: "bytes \<Rightarrow> bytes \<Rightarrow> bool" where
  "is_prefix p s \<longleftrightarrow> take (length p) s = p"

fun c_strstr :: "bytes \<Rightarrow> bytes \<Rightarrow> bool" where
  "c_strstr [] p \<longleftrightarrow> p = []"
| "c_strstr (b # s) p \<longleftrightarrow> is_prefix p (b # s) \<or> c_strstr s p"

fun resp_kw_walk :: "bytes \<Rightarrow> bytes \<Rightarrow> nat \<Rightarrow> nat \<Rightarrow> nat option option" where
  "resp_kw_walk buf kw off 0 = Some None"
| "resp_kw_walk buf kw off (Suc k) = do {
     l \<leftarrow> strlen_at buf off;
     if c_strstr (cstr (drop off buf)) kw then Some (Some off) else resp_kw_walk buf kw (off + l + 1) k }"

definition at_resp_get_line_by_kw :: "at_response \<Rightarrow> bytes \<Rightarrow> nat option option" where
  "at_resp_get_line_by_kw r keyword = resp_kw_walk (resp_buf r) (cstr keyword) 0 (line_counts r)"

text \<open>\<open>scan\<close> is the \<open>vsscanf\<close> of the caller's format: the number of fields and their values.\<close>

definition at_resp_parse_line_args :: "at_response \<Rightarrow> nat \<Rightarrow> (bytes \<Rightarrow> int \<times> 'v) \<Rightarrow> (int \<times> 'v option) option" where
  "at_resp_parse_line_args r resp_line scan =
     map_option (\<lambda>p. case p of None \<Rightarrow> (- 1, None)
       | Some off \<Rightarrow> (case scan (cstr (drop off (resp_buf r))) of (k, v) \<Rightarrow> (k, Some v)))
     (at_resp_get_line r resp_line)"

definition at_resp_parse_line_args_by_kw :: "at_response \<Rightarrow> bytes \<Rightarrow> (bytes \<Rightarrow> int \<times> 'v) \<Rightarrow> (int \<times> 'v option) option" where
  "at_resp_parse_line_args_by_kw r keyword scan =
     map_option (\<lambda>p. case p of None \<Rightarrow> (- 1, None)
       | Some off \<Rightarrow> (case scan (cstr (drop off (resp_buf r))) of (k, v) \<Rightarrow> (k, Some v)))
     (at_resp_get_line_by_kw r keyword)"

section \<open>Unsolicited result codes\<close>

text \<open>
  One entry against the first \<open>bufsz\<close> bytes of the line: \<open>strncmp\<close> with a text without zero bytes is
  equality of its bytes.
\<close>

definition urc_matches :: "bytes \<Rightarrow> nat \<Rightarrow> 'f at_urc \<Rightarrow> bool" where
  "urc_matches buffer bufsz urc \<longleftrightarrow>
     (let prefix_len = length (cmd_prefix urc); suffix_len = length (cmd_suffix urc) in
      prefix_len + suffix_len \<le> bufsz \<and> take prefix_len buffer = cmd_prefix urc
      \<and> take suffix_len (drop (bufsz - suffix_len) buffer) = cmd_suffix urc)"

definition get_urc_obj :: "'f at_client \<Rightarrow> 'f at_urc option" where
  "get_urc_obj c = find (urc_matches (recv_line_buf c) (recv_line_len c)) (concat (urc_table c))"

text \<open>\<open>at_obj_set_urc_table\<close> with the answer of the heap.\<close>

definition at_obj_set_urc_table :: "bool \<Rightarrow> 'f at_urc list \<Rightarrow> 'f at_client \<Rightarrow> int \<times> 'f at_client" where
  "at_obj_set_urc_table mem_ok table c =
     (if \<not> mem_ok then (- 5, c) else (0, c\<lparr>urc_table := urc_table c @ [table]\<rparr>))"

definition at_obj_set_end_sign :: "u8 \<Rightarrow> 'f at_client \<Rightarrow> 'f at_client" where
  "at_obj_set_end_sign ch c = c\<lparr>end_sign := ch\<rparr>"

section \<open>Reading\<close>

text \<open>\<open>at_client_getchar\<close> without a time limit, which is how it is called.\<close>

fun at_client_getchar :: "rx_item list \<Rightarrow> (u8 \<times> rx_item list) option" where
  "at_client_getchar [] = None"
| "at_client_getchar (Rx b # r) = Some (b, r)"
| "at_client_getchar (Rx_Idle # r) = at_client_getchar r"

lemma getchar_length: "at_client_getchar r = Some (b, r') \<Longrightarrow> length r' < length r"
  by (induction r rule: at_client_getchar.induct) auto

text \<open>\<open>at_client_obj_recv\<close>: up to \<open>k\<close> bytes, fewer when the line falls silent.\<close>

fun obj_recv :: "rx_item list \<Rightarrow> nat \<Rightarrow> bytes \<times> rx_item list" where
  "obj_recv r 0 = ([], r)"
| "obj_recv [] (Suc k) = ([], [])"
| "obj_recv (Rx_Idle # r) (Suc k) = ([], r)"
| "obj_recv (Rx b # r) (Suc k) = (case obj_recv r k of (bs, r) \<Rightarrow> (b # bs, r))"

definition at_client_obj_recv :: "nat \<Rightarrow> 'f at_client \<Rightarrow> bytes \<times> 'f at_client" where
  "at_client_obj_recv k c = (case obj_recv (rx c) k of (bs, r) \<Rightarrow> (bs, c\<lparr>rx := r\<rparr>))"

text \<open>The loop of \<open>at_recv_readline\<close>; a line that does not fit is read to its end and dropped.\<close>

definition line_store :: "u8 \<Rightarrow> nat \<Rightarrow> 'f at_client \<Rightarrow> 'f at_client" where
  "line_store ch read_len c = c\<lparr>recv_line_buf := (recv_line_buf c)[read_len := ch], recv_line_len := read_len + 1\<rparr>"

definition line_ends :: "u8 \<Rightarrow> u8 \<Rightarrow> 'f at_client \<Rightarrow> bool" where
  "line_ends ch last_ch c \<longleftrightarrow> ch = 10 \<and> last_ch = 13 \<or> end_sign c \<noteq> 0 \<and> ch = end_sign c \<or> get_urc_obj c \<noteq> None"

function readline_loop :: "'f at_client \<Rightarrow> nat \<Rightarrow> u8 \<Rightarrow> bool \<Rightarrow> (int \<times> 'f at_client) option" where
  "readline_loop c read_len last_ch is_full =
     (case at_client_getchar (rx c) of
        None \<Rightarrow> None
      | Some (ch, r) \<Rightarrow>
          (let c = c\<lparr>rx := r\<rparr>;
               (c, read_len, is_full) = (if read_len < recv_bufsz c
                 then (line_store ch read_len c, read_len + 1, is_full) else (c, read_len, True)) in
           if line_ends ch last_ch c
           then (if is_full
             then Some (- 3, c\<lparr>recv_line_buf := replicate (recv_bufsz c) 0, recv_line_len := 0\<rparr>)
             else Some (int read_len, c))
           else readline_loop c read_len ch is_full))"
  by auto
termination
  by (relation "measure (\<lambda>(c, _). length (rx c))") (auto simp: line_store_def dest: getchar_length split: if_splits)

declare readline_loop.simps [simp del]

definition at_recv_readline :: "'f at_client \<Rightarrow> (int \<times> 'f at_client) option" where
  "at_recv_readline c =
     readline_loop (c\<lparr>recv_line_buf := replicate (recv_bufsz c) 0, recv_line_len := 0\<rparr>) 0 0 False"

section \<open>The parser thread\<close>

text \<open>
  What a line that is no URC does to the response of the running command. \<open>memcmp\<close> and \<open>strstr\<close> look
  at the line with its last byte replaced by a terminator.
\<close>

definition response_line :: "'f at_client \<Rightarrow> 'f at_client" where
  "response_line c =
     (let n = recv_line_len c;
          end_ch = recv_line_buf c ! (n - 1);
          c = c\<lparr>recv_line_buf := (recv_line_buf c)[n - 1 := 0]\<rparr>;
          r = response c;
          c = (if resp_buf_len r + n < resp_buf_size r
            then c\<lparr>response := r\<lparr>resp_buf := take (resp_buf_len r) (resp_buf r) @ take n (recv_line_buf c)
                     @ drop (resp_buf_len r + n) (resp_buf r),
                   resp_buf_len := resp_buf_len r + n, line_counts := line_counts r + 1\<rparr>\<rparr>
            else c\<lparr>resp_status := AT_RESP_BUFF_FULL\<rparr>);
          r = response c;
          finish = (\<lambda>st c. c\<lparr>resp_status := st, resp := False, resp_notice := resp_notice c + 1\<rparr>) in
      if end_sign c \<noteq> 0 \<and> end_ch = end_sign c \<and> line_num r = 0 then finish AT_RESP_OK c
      else if take 2 (recv_line_buf c) = AT_RESP_END_OK \<and> line_num r = 0 then finish AT_RESP_OK c
      else if c_strstr (cstr (recv_line_buf c)) AT_RESP_END_ERROR \<or> take 4 (recv_line_buf c) = AT_RESP_END_FAIL
      then finish AT_RESP_ERROR c
      else if line_counts r = line_num r \<and> line_num r \<noteq> 0 then finish AT_RESP_OK c
      else c)"

text \<open>One turn of \<open>client_parser\<close>; \<open>'s\<close> is the state the URC functions work on.\<close>

definition client_parser_turn ::
    "('f \<Rightarrow> bytes \<Rightarrow> nat \<Rightarrow> 'f at_client \<times> 's \<Rightarrow> ('f at_client \<times> 's) option)
      \<Rightarrow> 'f at_client \<times> 's \<Rightarrow> ('f at_client \<times> 's) option" where
  "client_parser_turn call cs = (case cs of (c, s) \<Rightarrow> do {
     (n, c) \<leftarrow> at_recv_readline c;
     if n \<le> 0 then Some (c, s)
     else (case get_urc_obj c of
         Some urc \<Rightarrow>
           (case urc_func urc of
              None \<Rightarrow> Some (c, s)
            | Some f \<Rightarrow> call f (recv_line_buf c) (recv_line_len c) (c, s))
       | None \<Rightarrow> if resp c then Some (response_line c, s) else Some (c, s)) })"

text \<open>The thread for at most \<open>n\<close> turns: it stops when the line is silent, or when \<open>until\<close> holds.\<close>

fun client_parser ::
    "('f \<Rightarrow> bytes \<Rightarrow> nat \<Rightarrow> 'f at_client \<times> 's \<Rightarrow> ('f at_client \<times> 's) option)
      \<Rightarrow> ('f at_client \<times> 's \<Rightarrow> bool) \<Rightarrow> nat \<Rightarrow> 'f at_client \<times> 's \<Rightarrow> ('f at_client \<times> 's) option" where
  "client_parser call until 0 cs = Some cs"
| "client_parser call until (Suc n) cs =
     (if until cs \<or> at_recv_readline (fst cs) = None then Some cs
      else do { cs \<leftarrow> client_parser_turn call cs; client_parser call until n cs })"

section \<open>Commands\<close>

definition AT_CMD_MAX_LEN :: nat where "AT_CMD_MAX_LEN = 128"

text \<open>
  \<open>at_vprintfln\<close>: \<open>text\<close> is the formatted command. \<open>vsnprintf\<close> keeps 125 bytes and a terminator and
  returns the full length, which is cut to 126 afterwards.
\<close>

definition at_vprintfln :: "bytes \<Rightarrow> bytes" where
  "at_vprintfln txt =
     (if txt = [] then []
      else if AT_CMD_MAX_LEN - 2 \<le> length txt then take (AT_CMD_MAX_LEN - 3) txt @ [0] @ CRLF
      else txt @ CRLF)"

text \<open>
  Writing to the device: \<open>modem\<close> is what the device and the module behind it do with the bytes, the
  number it reports and what arrives in answer. All bytes go out, as the serial driver of the board does it,
  which polls for each byte.
\<close>

type_synonym 's modem = "bytes \<Rightarrow> 's \<Rightarrow> (nat \<times> rx_item list) \<times> 's"

definition at_utils_send :: "'s modem \<Rightarrow> bytes \<Rightarrow> 'f at_client \<times> 's \<Rightarrow> nat \<times> 'f at_client \<times> 's" where
  "at_utils_send modem buf cs = (case cs of (c, s) \<Rightarrow>
     (case modem buf s of ((len, r), s) \<Rightarrow> (len, c\<lparr>tx := tx c @ buf, rx := rx c @ r\<rparr>, s)))"

definition at_client_obj_send :: "'s modem \<Rightarrow> bytes \<Rightarrow> 'f at_client \<times> 's \<Rightarrow> nat \<times> 'f at_client \<times> 's" where
  "at_client_obj_send modem buf cs = at_utils_send modem buf cs"

text \<open>
  \<open>at_obj_exec_cmd\<close>; \<open>r\<close> is the response object, \<open>None\<close> when the caller does not want one. While the
  caller waits the parser thread runs until it releases the notice; when the line falls silent
  first the wait ends with the time limit.
\<close>

definition at_obj_exec_cmd ::
    "('f \<Rightarrow> bytes \<Rightarrow> nat \<Rightarrow> 'f at_client \<times> 's \<Rightarrow> ('f at_client \<times> 's) option) \<Rightarrow> 's modem \<Rightarrow> at_response option \<Rightarrow> bytes
      \<Rightarrow> 'f at_client \<times> 's \<Rightarrow> (int \<times> 'f at_client \<times> 's) option" where
  "at_obj_exec_cmd call modem r txt cs = (case cs of (c, s) \<Rightarrow>
     if status c = AT_STATUS_CLI \<and> r \<noteq> None then Some (- 7, c, s)
     else (let c = c\<lparr>resp_status := AT_RESP_OK, resp_notice := 0\<rparr>;
               c = (case r of None \<Rightarrow> c\<lparr>resp := False\<rparr>
                    | Some r \<Rightarrow> c\<lparr>response := r\<lparr>resp_buf_len := 0, line_counts := 0\<rparr>, resp := True\<rparr>);
               (c, s) = (if txt = [] then (c, s) else snd (at_utils_send modem (at_vprintfln txt) (c, s))) in
           if r = None then Some (0, c\<lparr>resp := False\<rparr>, s)
           else do {
             (c, s) \<leftarrow> client_parser call (\<lambda>(c, s). resp_notice c \<noteq> 0) (Suc (length (rx c))) (c, s);
             Some (if resp_notice c = 0 then (- 2, c\<lparr>resp_status := AT_RESP_TIMEOUT, resp := False\<rparr>, s)
               else (let c = c\<lparr>resp_notice := resp_notice c - 1\<rparr> in
                 ((if resp_status c \<noteq> AT_RESP_OK then - 1 else 0), c\<lparr>resp := False\<rparr>, s))) }))"

text \<open>
  \<open>at_client_obj_wait_connect\<close>: \<open>ticks\<close> are the readings of the clock, \<open>limit\<close> the time in ticks. The
  loop sends \<open>AT\<close> until something answers or the time is over.
\<close>

fun wait_connect_loop ::
    "('f \<Rightarrow> bytes \<Rightarrow> nat \<Rightarrow> 'f at_client \<times> 's \<Rightarrow> ('f at_client \<times> 's) option) \<Rightarrow> 's modem \<Rightarrow> u32 \<Rightarrow> u32 \<Rightarrow> u32 list
      \<Rightarrow> 'f at_client \<times> 's \<Rightarrow> (int \<times> 'f at_client \<times> 's) option" where
  "wait_connect_loop call modem start limit [] cs = None"
| "wait_connect_loop call modem start limit (t # ts) cs =
     (if limit < t - start then Some (- 2, cs)
      else (case cs of (c, s) \<Rightarrow>
        let c = c\<lparr>response := (response c)\<lparr>resp_buf_len := 0, line_counts := 0\<rparr>\<rparr>;
            (c, s) = snd (at_utils_send modem (ascii ''AT'' @ CRLF) (c, s)) in
        do {
          (c, s) \<leftarrow> client_parser call (\<lambda>(c, s). resp_notice c \<noteq> 0) (Suc (length (rx c))) (c, s);
          if resp_notice c = 0 then wait_connect_loop call modem start limit ts (c, s)
          else Some (0, c\<lparr>resp_notice := resp_notice c - 1\<rparr>, s) }))"

definition at_client_obj_wait_connect ::
    "('f \<Rightarrow> bytes \<Rightarrow> nat \<Rightarrow> 'f at_client \<times> 's \<Rightarrow> ('f at_client \<times> 's) option) \<Rightarrow> 's modem \<Rightarrow> bool \<Rightarrow> u32 \<Rightarrow> u32 list
      \<Rightarrow> 'f at_client \<times> 's \<Rightarrow> (int \<times> 'f at_client \<times> 's) option" where
  "at_client_obj_wait_connect call modem mem_ok limit ticks cs = (case cs of (c, s) \<Rightarrow>
     (case at_create_resp mem_ok mem_ok 64 0 300 of
        None \<Rightarrow> Some (- 5, c, s)
      | Some r \<Rightarrow>
          (case ticks of
             [] \<Rightarrow> None
           | start # ticks \<Rightarrow>
               map_option (\<lambda>(ret, c, s). (ret, c\<lparr>resp := False\<rparr>, s))
                 (wait_connect_loop call modem start limit ticks (c\<lparr>response := r, resp := True, resp_notice := 0\<rparr>, s)))))"

section \<open>Creation\<close>

text \<open>
  \<open>at_client_para_init\<close>: \<open>grants\<close> are the answers of the kernel for the line buffer, the lock, the two
  semaphores and the parser thread, in this order; the first refusal clears the whole object. The
  result is the return value and the object.
\<close>

definition blank_client :: "'f at_client" where
  "blank_client = \<lparr> status = AT_STATUS_UNINITIALIZED, end_sign = 0, recv_line_buf = [], recv_line_len = 0, recv_bufsz = 0,
     response = \<lparr> resp_buf = [], resp_buf_size = 0, resp_buf_len = 0, line_num = 0, line_counts = 0, resp_timeout = 0 \<rparr>,
     resp = False, resp_notice = 0, resp_status = AT_RESP_OK, urc_table = [], rx = [], tx = [] \<rparr>"

definition at_client_para_init :: "bool list \<Rightarrow> 'f at_client \<Rightarrow> int \<times> 'f at_client" where
  "at_client_para_init grants c =
     (if False \<in> set grants then (- 5, blank_client)
      else (0, c\<lparr>status := AT_STATUS_UNINITIALIZED, recv_line_len := 0, recv_line_buf := replicate (recv_bufsz c) 0,
        resp_notice := 0, urc_table := []\<rparr>))"

text \<open>
  \<open>at_client_init\<close> of the one entry of the client table: whether the name is in use (\<open>known\<close>), the
  table is full, and the serial device is found; its opening is asserted.
\<close>

definition at_client_init :: "bool \<Rightarrow> bool \<Rightarrow> bool list \<Rightarrow> bool \<Rightarrow> nat \<Rightarrow> 'f at_client \<Rightarrow> int \<times> 'f at_client" where
  "at_client_init known full grants found bufsz c =
     (if known then (0, c)
      else if full then (- 3, c)
      else (case at_client_para_init grants (c\<lparr>recv_bufsz := bufsz\<rparr>) of (r, c) \<Rightarrow>
        if r \<noteq> 0 then (r, c) else if found then (0, c\<lparr>status := AT_STATUS_INITIALIZED\<rparr>) else (- 1, c)))"

end
