(* ===== verification/At_Socket.thy ===== *)
theory At_Socket
  imports At_Text
begin

text \<open>
  The AT socket layer, \<open>at_socket.c\<close>: the sockets of the one AT device, the list that numbers them,
  the receive list of each, and the operations the socket API calls. \<open>SAL\<close> passes the calls of the
  MQTT transport on to these functions.

  What the layer calls is a collection of operations on the world (\<open>at_ops\<close>): the operations of
  the device class, the heap, and the notices other threads deliver while the caller is blocked in a
  wait. A pointer to a socket is its index in \<open>device->sockets\<close>; \<open>socket_list\<close> are the indices in
  the order of \<open>_socket_list\<close>. A semaphore is its value, \<open>None\<close> when it was never created.
\<close>

section \<open>Data\<close>

datatype at_socket_state = AT_SOCKET_NONE | AT_SOCKET_OPEN | AT_SOCKET_LISTEN | AT_SOCKET_CONNECT | AT_SOCKET_CLOSED
datatype at_socket_type = AT_SOCKET_INVALID | AT_SOCKET_TCP | AT_SOCKET_UDP
datatype at_event_t = AT_EVENT_SEND | AT_EVENT_RECV | AT_EVENT_ERROR

definition AT_SOCKET_MAGIC :: u32 where "AT_SOCKET_MAGIC = 0xA100"

definition EIO :: int where "EIO = 5"
definition EAGAIN :: int where "EAGAIN = 11"

record at_recv_pkt =
  bfsz_totle :: nat
  bfsz_index :: nat
  pkt_buff :: bytes

record at_sock =
  sk_magic :: u32
  sk_socket :: int
  sk_type :: at_socket_type
  sk_state :: at_socket_state
  recv_notice :: "nat option"
  recv_lock :: bool
  recvpkt_list :: "at_recv_pkt list"
  recv_timeout :: int
  send_timeout :: int
  rcvevent :: u16
  sendevent :: u16
  errevent :: u16
  sk_user_data :: int

definition zero_sock :: at_sock where
  "zero_sock = \<lparr> sk_magic = 0, sk_socket = 0, sk_type = AT_SOCKET_INVALID, sk_state = AT_SOCKET_NONE,
     recv_notice = None, recv_lock = False, recvpkt_list = [], recv_timeout = 0, send_timeout = 0,
     rcvevent = 0, sendevent = 0, errevent = 0, sk_user_data = 0 \<rparr>"

record sockaddr =
  s_addr :: u32
  sin_port :: u16

record 'w at_net =
  sockets :: "at_sock list"
  socket_list :: "nat list"
  at_errno :: int
  world :: 'w

text \<open>What the callbacks of the device tell a socket of the device.\<close>

datatype at_notice = Notice_Recv nat bytes | Notice_Closed nat

record 'w at_ops =
  op_connect :: "nat \<Rightarrow> bytes \<Rightarrow> u16 \<Rightarrow> at_socket_type \<Rightarrow> 'w at_net \<Rightarrow> int \<times> 'w at_net"
  op_closesocket :: "nat \<Rightarrow> 'w at_net \<Rightarrow> int \<times> 'w at_net"
  op_send :: "nat \<Rightarrow> bytes \<Rightarrow> at_socket_type \<Rightarrow> 'w at_net \<Rightarrow> int \<times> 'w at_net"
  op_domain_resolve :: "bytes \<Rightarrow> bytes \<Rightarrow> 'w \<Rightarrow> (int \<times> bytes) \<times> 'w"
  op_at_socket :: "(at_socket_type \<Rightarrow> 'w \<Rightarrow> int \<times> 'w) option"
  op_alloc :: "'w \<Rightarrow> bool \<times> 'w"
  op_netdev :: "'w \<Rightarrow> bool \<times> 'w"
  op_local_ip :: "'w \<Rightarrow> u32"
  op_device_by_ip :: "u32 \<Rightarrow> 'w \<Rightarrow> bool"
  op_wait :: "nat \<Rightarrow> int option \<Rightarrow> 'w \<Rightarrow> at_notice list \<times> 'w"
  op_delay :: "nat \<Rightarrow> 'w \<Rightarrow> at_notice list \<times> 'w"

definition upd_sock :: "nat \<Rightarrow> (at_sock \<Rightarrow> at_sock) \<Rightarrow> 'w at_net \<Rightarrow> 'w at_net" where
  "upd_sock i f n = n\<lparr>sockets := (sockets n)[i := f (sockets n ! i)]\<rparr>"

definition on_world :: "('w \<Rightarrow> 'a \<times> 'w) \<Rightarrow> 'w at_net \<Rightarrow> 'a \<times> 'w at_net" where
  "on_world f n = (case f (world n) of (a, w) \<Rightarrow> (a, n\<lparr>world := w\<rparr>))"

section \<open>The receive list\<close>

definition at_recvpkt_put :: "bool \<Rightarrow> at_recv_pkt list \<Rightarrow> bytes \<Rightarrow> nat \<Rightarrow> int \<times> at_recv_pkt list" where
  "at_recvpkt_put mem_ok rlist ptr len =
     (if \<not> mem_ok then (- 5, rlist)
      else (0, rlist @ [\<lparr>bfsz_totle = len, bfsz_index = 0, pkt_buff = ptr\<rparr>]))"

definition at_recvpkt_all_delete :: "at_recv_pkt list \<Rightarrow> at_recv_pkt list" where
  "at_recvpkt_all_delete rlist = []"

text \<open>The node is given by its place in the list.\<close>

definition at_recvpkt_node_delete :: "at_recv_pkt list \<Rightarrow> nat \<Rightarrow> at_recv_pkt list" where
  "at_recvpkt_node_delete rlist k = take k rlist @ drop (Suc k) rlist"

text \<open>The loop of \<open>at_recvpkt_get\<close>: it is at the first node, the ones before it are deleted.\<close>

fun recvpkt_get_loop ::
    "at_recv_pkt list \<Rightarrow> bytes \<Rightarrow> nat \<Rightarrow> nat \<Rightarrow> (nat \<times> bytes \<times> at_recv_pkt list) option" where
  "recvpkt_get_loop [] mem len content_pos = Some (content_pos, mem, [])"
| "recvpkt_get_loop (pkt # rlist) mem len content_pos =
     (let page_pos = bfsz_totle pkt - bfsz_index pkt in
      if len - content_pos \<le> page_pos
      then do {
        d \<leftarrow> rd_block (pkt_buff pkt) (bfsz_index pkt) (len - content_pos);
        mem \<leftarrow> blit mem content_pos d;
        let pkt = pkt\<lparr>bfsz_index := bfsz_index pkt + (len - content_pos)\<rparr>;
        Some (len, mem, if bfsz_index pkt = bfsz_totle pkt
          then at_recvpkt_node_delete (pkt # rlist) 0 else pkt # rlist) }
      else do {
        d \<leftarrow> rd_block (pkt_buff pkt) (bfsz_index pkt) page_pos;
        mem \<leftarrow> blit mem content_pos d;
        recvpkt_get_loop rlist mem len (content_pos + page_pos) })"

definition at_recvpkt_get ::
    "at_recv_pkt list \<Rightarrow> bytes \<Rightarrow> nat \<Rightarrow> (nat \<times> bytes \<times> at_recv_pkt list) option" where
  "at_recvpkt_get rlist mem len =
     (if rlist = [] then Some (0, mem, rlist) else recvpkt_get_loop rlist mem len 0)"

section \<open>Events\<close>

fun at_do_event_changes :: "at_event_t \<Rightarrow> bool \<Rightarrow> at_sock \<Rightarrow> at_sock" where
  "at_do_event_changes AT_EVENT_SEND is_plus sock =
     (if is_plus then sock\<lparr>sendevent := 1\<rparr> else if sendevent sock \<noteq> 0 then sock\<lparr>sendevent := 0\<rparr> else sock)"
| "at_do_event_changes AT_EVENT_RECV is_plus sock =
     (if is_plus then sock\<lparr>rcvevent := rcvevent sock + 1\<rparr>
      else if rcvevent sock \<noteq> 0 then sock\<lparr>rcvevent := rcvevent sock - 1\<rparr> else sock)"
| "at_do_event_changes AT_EVENT_ERROR is_plus sock =
     (if is_plus then sock\<lparr>errevent := errevent sock + 1\<rparr>
      else if errevent sock \<noteq> 0 then sock\<lparr>errevent := errevent sock - 1\<rparr> else sock)"

fun at_do_event_clean :: "at_event_t \<Rightarrow> at_sock \<Rightarrow> at_sock" where
  "at_do_event_clean AT_EVENT_SEND sock = sock\<lparr>sendevent := 0\<rparr>"
| "at_do_event_clean AT_EVENT_RECV sock = sock\<lparr>rcvevent := 0\<rparr>"
| "at_do_event_clean AT_EVENT_ERROR sock = sock\<lparr>errevent := 0\<rparr>"

section \<open>The list of sockets\<close>

definition at_get_socket :: "'w at_net \<Rightarrow> int \<Rightarrow> nat option" where
  "at_get_socket n s =
     find (\<lambda>i. s = sk_socket (sockets n ! i) \<and> sk_magic (sockets n ! i) = AT_SOCKET_MAGIC) (socket_list n)"

text \<open>Where the walk stops: the number reached, which is also the place in the list.\<close>

fun alloc_walk :: "at_sock list \<Rightarrow> nat list \<Rightarrow> nat \<Rightarrow> nat" where
  "alloc_walk ss [] idx = idx"
| "alloc_walk ss (i # is) idx = (if sk_socket (ss ! i) \<noteq> int idx then idx else alloc_walk ss is (idx + 1))"

definition alloc_empty_socket :: "nat \<Rightarrow> 'w at_net \<Rightarrow> nat \<times> 'w at_net" where
  "alloc_empty_socket l n =
     (let idx = alloc_walk (sockets n) (socket_list n) 0 in
      (idx, n\<lparr>socket_list := take idx (socket_list n) @ [l] @ drop idx (socket_list n)\<rparr>))"

text \<open>
  An allocation that fails behind the list insertion leaves the entry marked and in the list. When
  the mutex cannot be created the semaphore is deleted again and its pointer dangles (\<open>None\<close> here).
  \<open>free_entry\<close>: the first entry of \<open>device->sockets\<close> whose \<open>magic\<close> is clear; the number of
  entries when none is.
\<close>

definition free_entry :: "at_sock list \<Rightarrow> nat" where
  "free_entry ss = length (takeWhile (\<lambda>sk. sk_magic sk \<noteq> 0) ss)"

definition alloc_socket_by_device ::
    "'w at_ops \<Rightarrow> at_socket_type \<Rightarrow> 'w at_net \<Rightarrow> nat option \<times> 'w at_net" where
  "alloc_socket_by_device ops type n =
     (case (case op_at_socket ops of
              Some f \<Rightarrow> on_world (f type) n
            | None \<Rightarrow> (int (free_entry (sockets n)), n)) of (idx, n) \<Rightarrow>
      if idx < 0 \<or> int (length (sockets n)) \<le> idx then (None, n)
      else (let i = nat idx in
        case alloc_empty_socket i n of (s, n) \<Rightarrow>
        let n = upd_sock i (\<lambda>sk. sk\<lparr>sk_socket := int s, sk_user_data := idx, sk_magic := AT_SOCKET_MAGIC,
              sk_state := AT_SOCKET_NONE, rcvevent := 0, sendevent := 0, errevent := 0, recvpkt_list := []\<rparr>) n in
        case on_world (op_alloc ops) n of (ok, n) \<Rightarrow>
          if \<not> ok then (None, upd_sock i (\<lambda>sk. sk\<lparr>recv_notice := None\<rparr>) n)
          else (let n = upd_sock i (\<lambda>sk. sk\<lparr>recv_notice := Some 0\<rparr>) n in
            case on_world (op_alloc ops) n of (ok, n) \<Rightarrow>
              if \<not> ok then (None, upd_sock i (\<lambda>sk. sk\<lparr>recv_lock := False, recv_notice := None\<rparr>) n)
              else (Some i, upd_sock i (\<lambda>sk. sk\<lparr>recv_lock := True\<rparr>) n))))"

definition alloc_socket :: "'w at_ops \<Rightarrow> at_socket_type \<Rightarrow> 'w at_net \<Rightarrow> nat option \<times> 'w at_net" where
  "alloc_socket ops type n =
     (case on_world (op_netdev ops) n of (found, n) \<Rightarrow>
        if \<not> found then (None, n) else alloc_socket_by_device ops type n)"

text \<open>\<open>at_socket\<close>: \<open>type\<close> is \<open>None\<close> for a type that is neither a stream nor a datagram socket.\<close>

definition at_socket :: "'w at_ops \<Rightarrow> at_socket_type option \<Rightarrow> 'w at_net \<Rightarrow> int \<times> 'w at_net" where
  "at_socket ops type n =
     (case type of
        None \<Rightarrow> (- 1, n)
      | Some socket_type \<Rightarrow>
          (case alloc_socket ops socket_type n of
             (None, n) \<Rightarrow> (- 1, n)
           | (Some i, n) \<Rightarrow>
               (sk_socket (sockets n ! i),
                upd_sock i (\<lambda>sk. sk\<lparr>sk_type := socket_type, sk_state := AT_SOCKET_OPEN\<rparr>) n)))"

definition free_socket :: "nat \<Rightarrow> 'w at_net \<Rightarrow> 'w at_net" where
  "free_socket i n =
     (let n = (if recvpkt_list (sockets n ! i) \<noteq> []
               then upd_sock i (\<lambda>sk. sk\<lparr>recvpkt_list := at_recvpkt_all_delete (recvpkt_list sk)\<rparr>) n else n);
          n = (case at_get_socket n (sk_socket (sockets n ! i)) of
                 None \<Rightarrow> n | Some j \<Rightarrow> n\<lparr>socket_list := remove1 j (socket_list n)\<rparr>) in
      upd_sock i (\<lambda>sk. zero_sock) n)"

section \<open>Notices from the device\<close>

definition sem_release :: "nat \<Rightarrow> nat" where
  "sem_release v = (if v < 65535 then v + 1 else v)"

text \<open>
  \<open>at_recv_notice_cb\<close> and \<open>at_closed_notice_cb\<close> on a socket of the device; without a lock or a
  semaphore the kernel's assertion fails.
\<close>

definition at_recv_notice_cb :: "'w at_ops \<Rightarrow> nat \<Rightarrow> bytes \<Rightarrow> 'w at_net \<Rightarrow> 'w at_net option" where
  "at_recv_notice_cb ops i buff n =
     (if \<not> i < length (sockets n) then None
      else let sock = sockets n ! i in
      if sk_magic sock \<noteq> AT_SOCKET_MAGIC \<or> sk_state sock = AT_SOCKET_CLOSED then Some n
      else if \<not> recv_lock sock then None
      else (case on_world (op_alloc ops) n of (mem_ok, n) \<Rightarrow>
        (case at_recvpkt_put mem_ok (recvpkt_list sock) buff (length buff) of (r, rlist) \<Rightarrow>
          if r \<noteq> 0 then Some n
          else (case recv_notice sock of
              None \<Rightarrow> None
            | Some v \<Rightarrow> Some (upd_sock i (\<lambda>sk. at_do_event_changes AT_EVENT_RECV True
                (sk\<lparr>recvpkt_list := rlist, recv_notice := Some (sem_release v)\<rparr>)) n)))))"

definition at_closed_notice_cb :: "nat \<Rightarrow> 'w at_net \<Rightarrow> 'w at_net option" where
  "at_closed_notice_cb i n =
     (if \<not> i < length (sockets n) then None
      else let sock = sockets n ! i in
      if sk_magic sock \<noteq> AT_SOCKET_MAGIC then Some n
      else (case recv_notice sock of
          None \<Rightarrow> None
        | Some v \<Rightarrow> Some (upd_sock i (\<lambda>sk. (at_do_event_changes AT_EVENT_ERROR True
              (at_do_event_changes AT_EVENT_RECV True sk))
            \<lparr>sk_state := AT_SOCKET_CLOSED, recv_notice := Some (sem_release v)\<rparr>) n)))"

fun notices :: "'w at_ops \<Rightarrow> at_notice list \<Rightarrow> 'w at_net \<Rightarrow> 'w at_net option" where
  "notices ops [] n = Some n"
| "notices ops (Notice_Recv i buff # evs) n = do { n \<leftarrow> at_recv_notice_cb ops i buff n; notices ops evs n }"
| "notices ops (Notice_Closed i # evs) n = do { n \<leftarrow> at_closed_notice_cb i n; notices ops evs n }"

section \<open>Closing\<close>

text \<open>What \<open>at_closesocket\<close> and \<open>at_shutdown\<close> do with a socket they found.\<close>

definition close_and_free :: "'w at_ops \<Rightarrow> nat \<Rightarrow> 'w at_net \<Rightarrow> int \<times> 'w at_net" where
  "close_and_free ops i n =
     (let last_state = sk_state (sockets n ! i);
          n = upd_sock i (\<lambda>sk. sk\<lparr>sk_state := AT_SOCKET_CLOSED\<rparr>) n in
      if last_state \<noteq> AT_SOCKET_CLOSED
      then (case op_closesocket ops i n of (r, n) \<Rightarrow>
        (if r \<noteq> 0 then (- 1, free_socket i n) else (0, free_socket i n)))
      else (0, free_socket i n))"

definition at_shutdown :: "'w at_ops \<Rightarrow> int \<Rightarrow> 'w at_net \<Rightarrow> int \<times> 'w at_net" where
  "at_shutdown ops s n =
     (case at_get_socket n s of None \<Rightarrow> (- 1, n) | Some i \<Rightarrow> close_and_free ops i n)"

definition at_closesocket :: "'w at_ops \<Rightarrow> int \<Rightarrow> 'w at_net \<Rightarrow> (int \<times> 'w at_net) option" where
  "at_closesocket ops s n =
     (case on_world (op_delay ops 100) n of (evs, n) \<Rightarrow> do {
        n \<leftarrow> notices ops evs n;
        Some (case at_get_socket n s of None \<Rightarrow> (- 1, n) | Some i \<Rightarrow> close_and_free ops i n) })"

section \<open>Addresses and connecting\<close>

definition HTONS_PORT :: "u16 \<Rightarrow> u16" where
  "HTONS_PORT x = push_bit 8 (x AND 0x00ff) OR drop_bit 8 (x AND 0xff00)"

definition socketaddr_to_ipaddr_port :: "sockaddr \<Rightarrow> u32 \<times> u16" where
  "socketaddr_to_ipaddr_port a = (s_addr a, HTONS_PORT (sin_port a))"

text \<open>\<open>ip_addr_cmp\<close> is true when the addresses are equal.\<close>

definition ip_addr_cmp :: "u32 \<Rightarrow> u32 \<Rightarrow> bool" where
  "ip_addr_cmp a b \<longleftrightarrow> a = b"

definition at_bind :: "'w at_ops \<Rightarrow> int \<Rightarrow> sockaddr \<Rightarrow> 'w at_net \<Rightarrow> (int \<times> 'w at_net) option" where
  "at_bind ops s addr n =
     (case at_get_socket n s of
        None \<Rightarrow> Some (- 1, n)
      | Some i \<Rightarrow>
          (let local_ipaddr = op_local_ip ops (world n); (input_ipaddr, port) = socketaddr_to_ipaddr_port addr in
           if ip_addr_cmp input_ipaddr local_ipaddr
           then (let type = sk_type (sockets n ! i) in do {
             (r, n) \<leftarrow> at_closesocket ops s n;
             if r < 0 then Some (- 1, n)
             else if \<not> op_device_by_ip ops input_ipaddr (world n) then Some (- 1, n)
             else (case alloc_socket_by_device ops type n of
                 (None, n) \<Rightarrow> Some (- 1, n)
               | (Some j, n) \<Rightarrow> Some (0, upd_sock j (\<lambda>sk. sk\<lparr>sk_type := type, sk_state := AT_SOCKET_OPEN\<rparr>) n)) })
           else Some (0, n)))"

definition at_connect :: "'w at_ops \<Rightarrow> int \<Rightarrow> sockaddr \<Rightarrow> 'w at_net \<Rightarrow> int \<times> 'w at_net" where
  "at_connect ops s addr n =
     (case at_get_socket n s of
        None \<Rightarrow> (- 1, n)
      | Some i \<Rightarrow>
          (case (if sk_state (sockets n ! i) \<noteq> AT_SOCKET_OPEN then (- 1, n)
                 else (case socketaddr_to_ipaddr_port addr of (_, remote_port) \<Rightarrow>
                   (case op_connect ops i (ipaddr_to_ipstr (s_addr addr)) remote_port (sk_type (sockets n ! i)) n of
                      (r, n) \<Rightarrow> if r < 0 then (- 1, n)
                        else (0, upd_sock i (\<lambda>sk. sk\<lparr>sk_state := AT_SOCKET_CONNECT\<rparr>) n)))) of
             (result, n) \<Rightarrow>
               (let n = (if result < 0 then upd_sock i (at_do_event_changes AT_EVENT_ERROR True) n else n) in
                (result, upd_sock i (at_do_event_changes AT_EVENT_SEND True) n))))"

text \<open>
  A datagram socket that is still open is connected by the first transfer that names an address
  (\<open>at_recvfrom\<close>, \<open>at_sendto\<close>); the result says whether to go on.
\<close>

definition udp_connect ::
    "'w at_ops \<Rightarrow> nat \<Rightarrow> sockaddr option \<Rightarrow> 'w at_net \<Rightarrow> bool \<times> 'w at_net" where
  "udp_connect ops i addr n =
     (case addr of
        Some a \<Rightarrow>
          if sk_type (sockets n ! i) = AT_SOCKET_UDP \<and> sk_state (sockets n ! i) = AT_SOCKET_OPEN
          then (case socketaddr_to_ipaddr_port a of (_, remote_port) \<Rightarrow>
            (case op_connect ops i (ipaddr_to_ipstr (s_addr a)) remote_port (sk_type (sockets n ! i)) n of
               (r, n) \<Rightarrow> if r < 0 then (False, n)
                 else (True, upd_sock i (\<lambda>sk. sk\<lparr>sk_state := AT_SOCKET_CONNECT\<rparr>) n)))
          else (True, n)
      | None \<Rightarrow> (True, n))"

section \<open>Receiving\<close>

text \<open>
  \<open>rt_sem_take\<close> of \<open>recv_notice\<close>: at once when the value is positive, otherwise after the notices
  that arrive until it is released (\<open>True\<close>) or the time is over (\<open>False\<close>); a wait without a limit
  that nothing ends is a run that does not come back.
\<close>

definition take_recv_notice ::
    "'w at_ops \<Rightarrow> nat \<Rightarrow> int option \<Rightarrow> 'w at_net \<Rightarrow> (bool \<times> 'w at_net) option" where
  "take_recv_notice ops i timeout n =
     (case recv_notice (sockets n ! i) of
        None \<Rightarrow> None
      | Some (Suc v) \<Rightarrow> Some (True, upd_sock i (\<lambda>sk. sk\<lparr>recv_notice := Some v\<rparr>) n)
      | Some 0 \<Rightarrow>
          (case on_world (op_wait ops i timeout) n of (evs, n) \<Rightarrow> do {
             n \<leftarrow> notices ops evs n;
             case recv_notice (sockets n ! i) of
               Some (Suc v) \<Rightarrow> Some (True, upd_sock i (\<lambda>sk. sk\<lparr>recv_notice := Some v\<rparr>) n)
             | Some 0 \<Rightarrow> if timeout = None then None else Some (False, n)
             | None \<Rightarrow> None }))"

text \<open>\<open>at_recvpkt_get\<close> under the lock.\<close>

definition get_locked :: "nat \<Rightarrow> bytes \<Rightarrow> nat \<Rightarrow> 'w at_net \<Rightarrow> (nat \<times> bytes \<times> 'w at_net) option" where
  "get_locked i mem len n =
     (if \<not> recv_lock (sockets n ! i) then None
      else do {
        (recv_len, mem, rlist) \<leftarrow> at_recvpkt_get (recvpkt_list (sockets n ! i)) mem len;
        Some (recv_len, mem, upd_sock i (\<lambda>sk. sk\<lparr>recvpkt_list := rlist\<rparr>) n) })"

text \<open>The part behind \<open>__exit\<close>: result, \<open>errno\<close> and the events of the socket.\<close>

definition recv_exit :: "nat \<Rightarrow> int \<Rightarrow> nat \<Rightarrow> 'w at_net \<Rightarrow> int \<times> 'w at_net" where
  "recv_exit i result recv_len n =
     (if 0 < recv_len
      then (let n = (upd_sock i (at_do_event_changes AT_EVENT_RECV False) n)\<lparr>at_errno := 0\<rparr> in
        (int recv_len,
         if recvpkt_list (sockets n ! i) \<noteq> [] then upd_sock i (at_do_event_changes AT_EVENT_RECV True) n
         else upd_sock i (at_do_event_clean AT_EVENT_RECV) n))
      else (result, upd_sock i (at_do_event_changes AT_EVENT_ERROR True) n))"

definition timeout_of :: "int \<Rightarrow> int option" where
  "timeout_of ms = (if ms = 0 then None else Some ms)"

text \<open>The wait for data: result, received length, memory. The loop around it runs once.\<close>

definition recv_blocking ::
    "'w at_ops \<Rightarrow> nat \<Rightarrow> bytes \<Rightarrow> nat \<Rightarrow> 'w at_net \<Rightarrow> (int \<times> nat \<times> bytes \<times> 'w at_net) option" where
  "recv_blocking ops i mem len n = do {
     (taken, n) \<leftarrow> take_recv_notice ops i (timeout_of (recv_timeout (sockets n ! i))) n;
     if \<not> taken then Some (- 1, 0, mem, n\<lparr>at_errno := EAGAIN\<rparr>)
     else do {
       (recv_len, mem, n) \<leftarrow> get_locked i mem len n;
       if 0 < recv_len then Some (0, recv_len, mem, n) else Some (- 1, 0, mem, n\<lparr>at_errno := EIO\<rparr>) } }"

definition at_recvfrom ::
    "'w at_ops \<Rightarrow> int \<Rightarrow> bytes option \<Rightarrow> nat \<Rightarrow> bool \<Rightarrow> sockaddr option \<Rightarrow> 'w at_net
      \<Rightarrow> (int \<times> bytes option \<times> 'w at_net) option" where
  "at_recvfrom ops s memory len dont_wait from n =
     (case memory of
        None \<Rightarrow> Some (- 1, None, n)
      | Some mem \<Rightarrow>
      if len = 0 then Some (- 1, Some mem, n)
      else (case at_get_socket n s of
          None \<Rightarrow> Some (- 1, Some mem, n)
        | Some i \<Rightarrow> do {
            (result, recv_len, mem, n) \<leftarrow>
              (case udp_connect ops i from n of (go, n) \<Rightarrow>
                if \<not> go then Some (- 1, 0, mem, n)
                else do {
                  (recv_len, mem, n) \<leftarrow> get_locked i mem len n;
                  if 0 < recv_len then Some (0, recv_len, mem, n)
                  else if sk_state (sockets n ! i) = AT_SOCKET_CLOSED then Some (0, 0, mem, n)
                  else if sk_state (sockets n ! i) \<noteq> AT_SOCKET_CONNECT \<and> sk_state (sockets n ! i) \<noteq> AT_SOCKET_OPEN
                  then Some (- 1, 0, mem, n)
                  else if dont_wait then Some (0, 0, mem, n)
                  else recv_blocking ops i mem len n });
            case recv_exit i result recv_len n of (result, n) \<Rightarrow> Some (result, Some mem, n) }))"

definition at_recv ::
    "'w at_ops \<Rightarrow> int \<Rightarrow> bytes option \<Rightarrow> nat \<Rightarrow> bool \<Rightarrow> 'w at_net \<Rightarrow> (int \<times> bytes option \<times> 'w at_net) option" where
  "at_recv ops s memory len dont_wait n = at_recvfrom ops s memory len dont_wait None n"

section \<open>Sending\<close>

definition at_sendto ::
    "'w at_ops \<Rightarrow> int \<Rightarrow> bytes option \<Rightarrow> sockaddr option \<Rightarrow> 'w at_net \<Rightarrow> int \<times> 'w at_net" where
  "at_sendto ops s buf dest n =
     (case buf of
        None \<Rightarrow> (- 1, n)
      | Some data \<Rightarrow>
      if data = [] then (- 1, n)
      else (case at_get_socket n s of
          None \<Rightarrow> (- 1, n)
        | Some i \<Rightarrow>
            (let sock = sockets n ! i;
                 transfer = (\<lambda>n. case op_send ops i data (sk_type sock) n of (len, n) \<Rightarrow>
                   if len < 0 then (- 1, 0, n) else (0, len, n)) in
             case (case sk_type sock of
                AT_SOCKET_TCP \<Rightarrow>
                  if sk_state sock = AT_SOCKET_CLOSED then (0, 0, n)
                  else if sk_state sock \<noteq> AT_SOCKET_CONNECT \<and> sk_state sock \<noteq> AT_SOCKET_OPEN then (- 1, 0, n)
                  else transfer n
              | AT_SOCKET_UDP \<Rightarrow>
                  (case udp_connect ops i dest n of (go, n) \<Rightarrow> if \<not> go then (- 1, 0, n) else transfer n)
              | AT_SOCKET_INVALID \<Rightarrow> (- 1, 0, n)) of
               (result, len, n) \<Rightarrow>
                 if (result :: int) < 0 then (result, upd_sock i (at_do_event_changes AT_EVENT_ERROR True) n)
                 else (len, n))))"

definition at_send :: "'w at_ops \<Rightarrow> int \<Rightarrow> bytes option \<Rightarrow> 'w at_net \<Rightarrow> int \<times> 'w at_net" where
  "at_send ops s buf n = at_sendto ops s buf None n"

section \<open>Updates of one socket\<close>

lemma upd_sock_simps [simp]:
  "length (sockets (upd_sock i f n)) = length (sockets n)" "socket_list (upd_sock i f n) = socket_list n"
  "at_errno (upd_sock i f n) = at_errno n" "world (upd_sock i f n) = world n"
  "i < length (sockets n) \<Longrightarrow> sockets (upd_sock i f n) ! i = f (sockets n ! i)"
  "i < length (sockets n) \<Longrightarrow> upd_sock i f (upd_sock i g n) = upd_sock i (\<lambda>sk. f (g sk)) n"
  by (auto simp: upd_sock_def)

lemma upd_other: "j \<noteq> i \<Longrightarrow> sockets (upd_sock i f n) ! j = sockets n ! j"
  by (simp add: upd_sock_def)

lemma find_cong_set: "(\<And>x. x \<in> set xs \<Longrightarrow> P x = Q x) \<Longrightarrow> find P xs = find Q xs"
  by (induction xs) auto

lemma get_socket_upd:
  assumes "\<And>sk. sk_socket (f sk) = sk_socket sk \<and> sk_magic (f sk) = sk_magic sk"
  shows "at_get_socket (upd_sock i f n) s = at_get_socket n s"
  unfolding at_get_socket_def
  by (simp, rule find_cong_set) (metis assms upd_sock_simps(1,5) upd_other list_update_beyond not_le upd_sock_def at_net.surjective at_net.update_convs(1) at_net.select_convs(1))

lemma get_socket_simps [simp]:
  "at_get_socket (n\<lparr>world := w\<rparr>) s = at_get_socket n s" "at_get_socket (n\<lparr>at_errno := e\<rparr>) s = at_get_socket n s"
  by (simp_all add: at_get_socket_def)

section \<open>A concrete device\<close>

text \<open>A device that does nothing by itself, and one open socket on it.\<close>

definition quiet_ops :: "unit at_ops" where
  "quiet_ops = \<lparr> op_connect = (\<lambda>_ _ _ _ n. (0, n)), op_closesocket = (\<lambda>_ n. (0, n)),
     op_send = (\<lambda>_ d _ n. (int (length d), n)), op_domain_resolve = (\<lambda>_ ip w. ((0, ip), w)), op_at_socket = None,
     op_alloc = (\<lambda>w. (True, w)), op_netdev = (\<lambda>w. (True, w)), op_local_ip = (\<lambda>w. 1), op_device_by_ip = (\<lambda>_ _. True),
     op_wait = (\<lambda>_ _ w. ([], w)), op_delay = (\<lambda>_ w. ([], w)) \<rparr>"

definition closed_net :: "unit at_net" where
  "closed_net = \<lparr> sockets = replicate 5 zero_sock, socket_list = [], at_errno = 0, world = () \<rparr>"

definition open_net :: "unit at_net" where
  "open_net = snd (at_connect quiet_ops 0 \<lparr>s_addr = 1, sin_port = 0x5B07\<rparr> (snd (at_socket quiet_ops (Some AT_SOCKET_TCP) closed_net)))"

lemmas net_defs = open_net_def closed_net_def quiet_ops_def at_connect_def at_socket_def alloc_socket_def
  alloc_socket_by_device_def free_entry_def alloc_empty_socket_def on_world_def upd_sock_def at_get_socket_def
  zero_sock_def AT_SOCKET_MAGIC_def socketaddr_to_ipaddr_port_def

lemma open_net_eq: "open_net = \<lparr> sockets = \<lparr> sk_magic = AT_SOCKET_MAGIC, sk_socket = 0, sk_type = AT_SOCKET_TCP,
     sk_state = AT_SOCKET_CONNECT, recv_notice = Some 0, recv_lock = True, recvpkt_list = [], recv_timeout = 0,
     send_timeout = 0, rcvevent = 0, sendevent = 1, errevent = 0, sk_user_data = 0 \<rparr> # replicate 4 zero_sock,
     socket_list = [0], at_errno = 0, world = () \<rparr>"
  by (simp add: net_defs numeral_eq_Suc)

end
