(* ===== verification/At_Names.thy ===== *)
theory At_Names
  imports At_Socket
begin

text \<open>
  The rest of the socket interface of \<open>at_socket.c\<close>: the options (\<open>at_getsockopt\<close>, \<open>at_setsockopt\<close>)
  and the names (\<open>at_gethostbyname\<close>, \<open>at_getaddrinfo\<close>), the latter with the 16 byte buffer on the
  stack that a name without letters is copied to.
\<close>

section \<open>Options\<close>

datatype sockopt_level = SOL_SOCKET | IPPROTO_TCP | SOL_OTHER
datatype sockopt = SO_RCVTIMEO | SO_SNDTIMEO | SO_OTHER

record timeval =
  tv_sec :: int
  tv_usec :: int

text \<open>A value stored in an \<open>int32_t\<close>.\<close>

definition int32 :: "int \<Rightarrow> int" where
  "int32 k = sint (word_of_int k :: u32)"

definition at_getsockopt :: "'w at_net \<Rightarrow> int \<Rightarrow> sockopt_level \<Rightarrow> sockopt \<Rightarrow> int \<times> timeval option" where
  "at_getsockopt n s level optname =
     (case at_get_socket n s of
        None \<Rightarrow> (- 1, None)
      | Some i \<Rightarrow>
          (let out = (\<lambda>timeout. let t = uint (word_of_int timeout :: u32) in
             (0, Some \<lparr>tv_sec = t div 1000, tv_usec = t mod 1000 * 1000\<rparr>)) in
           case (level, optname) of
             (SOL_SOCKET, SO_RCVTIMEO) \<Rightarrow> out (recv_timeout (sockets n ! i))
           | (SOL_SOCKET, SO_SNDTIMEO) \<Rightarrow> out (send_timeout (sockets n ! i))
           | _ \<Rightarrow> (- 1, None)))"

definition at_setsockopt ::
    "int \<Rightarrow> sockopt_level \<Rightarrow> sockopt \<Rightarrow> timeval option \<Rightarrow> 'w at_net \<Rightarrow> int \<times> 'w at_net" where
  "at_setsockopt s level optname optval n =
     (case optval of
        None \<Rightarrow> (- 1, n)
      | Some v \<Rightarrow>
          (case at_get_socket n s of
             None \<Rightarrow> (- 1, n)
           | Some i \<Rightarrow>
               (let ms = int32 (tv_sec v * 1000 + tv_usec v sdiv 1000) in
                case level of
                  SOL_SOCKET \<Rightarrow>
                    (case optname of
                       SO_RCVTIMEO \<Rightarrow> (0, upd_sock i (\<lambda>sk. sk\<lparr>recv_timeout := ms\<rparr>) n)
                     | SO_SNDTIMEO \<Rightarrow> (0, upd_sock i (\<lambda>sk. sk\<lparr>send_timeout := ms\<rparr>) n)
                     | SO_OTHER \<Rightarrow> (- 1, n))
                | IPPROTO_TCP \<Rightarrow> (0, n)
                | SOL_OTHER \<Rightarrow> (- 1, n))))"

section \<open>Names\<close>

definition DNS_MAX_NAME_LENGTH :: nat where "DNS_MAX_NAME_LENGTH = 256"

definition EAI_NONAME :: int where "EAI_NONAME = 200"
definition EAI_SERVICE :: int where "EAI_SERVICE = 201"
definition EAI_FAIL :: int where "EAI_FAIL = 202"
definition EAI_MEMORY :: int where "EAI_MEMORY = 203"
definition EAI_FAMILY :: int where "EAI_FAMILY = 204"

definition has_alpha :: "bytes \<Rightarrow> bool" where
  "has_alpha name \<longleftrightarrow> (\<exists>b\<in>set name. c_isalpha b)"

text \<open>
  The text in \<open>ipstr\<close>: asked from the module when the name has a letter (\<open>Inl\<close> its return value when
  \<open>failed\<close> says so), otherwise the name itself, copied with \<open>strncpy\<close> of its own length. The copy
  is not defined when the array is too short, and neither is reading it when the terminator is gone.
\<close>

definition host_ipstr ::
    "'w at_ops \<Rightarrow> (int \<Rightarrow> bool) \<Rightarrow> bytes \<Rightarrow> 'w at_net \<Rightarrow> ((int + bytes) \<times> 'w at_net) option" where
  "host_ipstr ops failed name n =
     (let ipstr = replicate 16 0 in
      if has_alpha name
      then (case on_world (op_domain_resolve ops name ipstr) n of ((r, ipstr), n) \<Rightarrow>
        if failed r then Some (Inl r, n)
        else if 0 \<in> set ipstr then Some (Inr ipstr, n) else None)
      else do {
        ipstr \<leftarrow> blit ipstr 0 name;
        if 0 \<in> set ipstr then Some (Inr ipstr, n) else None })"

record hostent =
  h_name :: bytes
  h_addr :: u32

definition at_gethostbyname ::
    "'w at_ops \<Rightarrow> bytes option \<Rightarrow> 'w at_net \<Rightarrow> (hostent option \<times> 'w at_net) option" where
  "at_gethostbyname ops name n =
     (case name of
        None \<Rightarrow> Some (None, n)
      | Some name \<Rightarrow>
          (case on_world (op_netdev ops) n of (found, n) \<Rightarrow>
             if \<not> found then Some (None, n)
             else do {
               (ip, n) \<leftarrow> host_ipstr ops (\<lambda>r. r < 0) (cstr name) n;
               Some (case ip of Inl _ \<Rightarrow> (None, n)
                 | Inr ipstr \<Rightarrow> (Some \<lparr>h_name = take DNS_MAX_NAME_LENGTH (cstr name),
                     h_addr = ipstr_to_u32 ipstr\<rparr>, n)) }))"

datatype ai_family = AF_UNSPEC | AF_INET | AF_AT | AF_OTHER

record addrinfo_hints =
  hint_family :: ai_family
  hint_numeric :: bool
  hint_socktype :: int
  hint_protocol :: int

record addrinfo =
  ai_addr :: u32
  ai_port :: u16
  ai_socktype :: int
  ai_protocol :: int
  ai_canonname :: "bytes option"

definition service_port :: "bytes option \<Rightarrow> int option" where
  "service_port servname =
     (case servname of
        None \<Rightarrow> Some 0
      | Some s \<Rightarrow>
          (let port_nr = (case scan_int (cstr s) of None \<Rightarrow> 0 | Some (k, _) \<Rightarrow> k) in
           if port_nr \<le> 0 \<or> 0xffff < port_nr then None else Some port_nr))"

text \<open>
  The address: \<open>inet_aton\<close> is the address parser of the netdev layer, \<open>stack\<close> is what the variable
  \<open>addr\<close> holds before anything is assigned to it.
\<close>

definition node_addr ::
    "'w at_ops \<Rightarrow> (bytes \<Rightarrow> u32 option) \<Rightarrow> u32 \<Rightarrow> bytes option \<Rightarrow> addrinfo_hints option \<Rightarrow> 'w at_net
      \<Rightarrow> ((int + u32) \<times> 'w at_net) option" where
  "node_addr ops inet_aton stack nodename hints n =
     (case nodename of
        None \<Rightarrow> Some (Inr stack, n)
      | Some name \<Rightarrow>
          if (case hints of None \<Rightarrow> False | Some h \<Rightarrow> hint_numeric h)
          then Some (case inet_aton (cstr name) of
              None \<Rightarrow> (Inl EAI_NONAME, n)
            | Some a \<Rightarrow>
                if (case hints of None \<Rightarrow> False | Some h \<Rightarrow> hint_family h \<in> {AF_AT, AF_INET})
                then (Inl EAI_NONAME, n) else (Inr a, n))
          else do {
            (ip, n) \<leftarrow> host_ipstr ops (\<lambda>r. r \<noteq> 0) (cstr name) n;
            Some (case ip of Inl _ \<Rightarrow> (Inl EAI_FAIL, n) | Inr ipstr \<Rightarrow> (Inr (ipstr_to_u32 ipstr), n)) })"

definition at_getaddrinfo ::
    "'w at_ops \<Rightarrow> (bytes \<Rightarrow> u32 option) \<Rightarrow> u32 \<Rightarrow> bytes option \<Rightarrow> bytes option \<Rightarrow> addrinfo_hints option \<Rightarrow> 'w at_net
      \<Rightarrow> ((int \<times> addrinfo option) \<times> 'w at_net) option" where
  "at_getaddrinfo ops inet_aton stack nodename servname hints n =
     (case on_world (op_netdev ops) n of (found, n) \<Rightarrow>
      if \<not> found then Some ((EAI_FAIL, None), n)
      else if nodename = None \<and> servname = None then Some ((EAI_NONAME, None), n)
      else if (case hints of None \<Rightarrow> False | Some h \<Rightarrow> hint_family h = AF_OTHER) then Some ((EAI_FAMILY, None), n)
      else (case service_port servname of
          None \<Rightarrow> Some ((EAI_SERVICE, None), n)
        | Some port_nr \<Rightarrow> do {
            (addr, n) \<leftarrow> node_addr ops inet_aton stack nodename hints n;
            case addr of
              Inl e \<Rightarrow> Some ((e, None), n)
            | Inr addr \<Rightarrow>
                if (case nodename of None \<Rightarrow> False | Some name \<Rightarrow> DNS_MAX_NAME_LENGTH < c_strlen name)
                then Some ((EAI_FAIL, None), n)
                else (case on_world (op_alloc ops) n of (ok, n) \<Rightarrow>
                  Some (if \<not> ok then ((EAI_MEMORY, None), n)
                    else ((0, Some \<lparr> ai_addr = addr, ai_port = HTONS_PORT (word_of_int port_nr),
                        ai_socktype = (case hints of None \<Rightarrow> 0 | Some h \<Rightarrow> hint_socktype h),
                        ai_protocol = (case hints of None \<Rightarrow> 0 | Some h \<Rightarrow> hint_protocol h),
                        ai_canonname = map_option cstr nodename \<rparr>), n))) }))"

section \<open>What the names give\<close>

lemma decimal_no_alpha: "b \<in> set (decimal k) \<Longrightarrow> \<not> c_isalpha b"
  using dec_isdigit by (fastforce simp: c_isdigit_def c_isalpha_def word_le_nat_alt)

lemma ipstr_bytes_ok: "b \<in> set (ipaddr_to_ipstr a) \<Longrightarrow> \<not> c_isalpha b \<and> b \<noteq> 0"
proof -
  obtain p q r s where q: "NIPQUAD a = [p, q, r, s]" by (simp add: NIPQUAD_def)
  show "b \<in> set (ipaddr_to_ipstr a) \<Longrightarrow> \<not> c_isalpha b \<and> b \<noteq> 0"
    using decimal_no_alpha dec_isdigit digit_not
    by (fastforce simp: ipaddr_to_ipstr_def q c_isalpha_def word_le_nat_alt)
qed

lemma cstr_blit_zeros:
  assumes "length s < k" and "0 \<notin> set s"
  shows "\<exists>b. blit (replicate k 0) 0 s = Some b \<and> 0 \<in> set b \<and> cstr b = s"
proof -
  have "blit (replicate k 0) 0 s = Some (s @ replicate (k - length s) 0)"
    using assms by (simp add: blit_def)
  moreover have "replicate (k - length s) (0 :: u8) = 0 # replicate (k - length s - 1) 0"
    using assms by (metis Suc_diff_1 replicate_Suc zero_less_diff)
  ultimately show ?thesis using cstr_append_nul [OF assms(2), of "replicate (k - length s - 1) 0"] by auto
qed

lemma host_ipstr_numeric:
  assumes "\<not> has_alpha name" and "0 \<notin> set name" and "length name \<le> 15"
  shows "\<exists>ip. host_ipstr ops failed name n = Some (Inr ip, n) \<and> cstr ip = name"
  using cstr_blit_zeros [of name 16] assms by (auto simp: host_ipstr_def)

lemma host_ipstr_overflow:
  assumes "\<not> has_alpha name" and "15 < length name" and "0 \<notin> set name"
  shows "host_ipstr ops failed name n = None"
  using assms by (auto simp: host_ipstr_def blit_def Let_def bind_eq_None_conv split: if_splits)

lemma ipaddr_text: "\<not> has_alpha (ipaddr_to_ipstr a)" "0 \<notin> set (ipaddr_to_ipstr a)" "cstr (ipaddr_to_ipstr a) = ipaddr_to_ipstr a"
  using ipstr_bytes_ok by (auto simp: has_alpha_def intro: cstr_id)

lemma ipstr_to_u32_cstr: "ipstr_to_u32 s = ipstr_to_u32 (cstr s)"
  by (simp add: ipstr_to_u32_def cstr_def takeWhile_idem)

lemma host_ipstr_dotted:
  "\<exists>ip. host_ipstr ops failed (ipaddr_to_ipstr a) n = Some (Inr ip, n) \<and> ipstr_to_u32 ip = a"
  using host_ipstr_numeric [OF ipaddr_text(1,2) length_ipstr, where n = n]
  by (metis ipstr_to_u32_cstr ipstr_roundtrip)

text \<open>
  \<open>at_getaddrinfo\<close> reads the dotted text of an address and the decimal text of a port back: the
  result has that address and that port in network order, and the name as it was given.
\<close>

theorem getaddrinfo_dotted:
  assumes dev: "op_netdev ops (world n) = (True, w)" and mem: "op_alloc ops w = (True, w')"
    and port: "0 < port" "port < 65536"
  shows "at_getaddrinfo ops inet_aton stack (Some (ipaddr_to_ipstr a)) (Some (decimal port)) None n
    = Some ((0, Some \<lparr> ai_addr = a, ai_port = HTONS_PORT (word_of_nat port), ai_socktype = 0, ai_protocol = 0,
        ai_canonname = Some (ipaddr_to_ipstr a) \<rparr>), n\<lparr>world := w'\<rparr>)"
proof -
  have p: "service_port (Some (decimal port)) = Some (int port)"
    using port by (simp add: service_port_def cstr_decimal scan_int_decimal)
  have l: "\<not> DNS_MAX_NAME_LENGTH < c_strlen (ipaddr_to_ipstr a)"
    using length_ipstr [of a] by (simp add: DNS_MAX_NAME_LENGTH_def c_strlen_def ipaddr_text)
  obtain ip where "host_ipstr ops (\<lambda>r. r \<noteq> 0) (ipaddr_to_ipstr a) (n\<lparr>world := w\<rparr>) = Some (Inr ip, n\<lparr>world := w\<rparr>)"
    "ipstr_to_u32 ip = a"
    using host_ipstr_dotted by blast
  then have "node_addr ops inet_aton stack (Some (ipaddr_to_ipstr a)) None (n\<lparr>world := w\<rparr>) = Some (Inr a, n\<lparr>world := w\<rparr>)"
    by (simp add: node_addr_def ipaddr_text)
  with dev mem p l show ?thesis
    by (simp add: at_getaddrinfo_def on_world_def ipaddr_text)
qed

theorem getaddrinfo_dotted_witness:
  "at_getaddrinfo quiet_ops (\<lambda>_. None) 0 (Some (ipaddr_to_ipstr 0x0100007F)) (Some (decimal 1883)) None closed_net
    = Some ((0, Some \<lparr> ai_addr = 0x0100007F, ai_port = HTONS_PORT 1883, ai_socktype = 0, ai_protocol = 0,
        ai_canonname = Some (ipaddr_to_ipstr 0x0100007F) \<rparr>), closed_net)"
  using getaddrinfo_dotted [of quiet_ops closed_net "()" "()" 1883 "\<lambda>_. None" 0 "0x0100007F"]
  by (simp add: quiet_ops_def closed_net_def)

text \<open>
  The buffer for the address text has 16 bytes and nobody checks the name: \<open>at_getaddrinfo\<close> of a
  name without letters that is longer than 15 characters (an IPv6 address, say, as \<open>umqtt\<close> passes on
  from a URI with brackets) writes or reads outside the buffer.
\<close>

theorem getaddrinfo_overflow:
  assumes "op_netdev ops (world n) = (True, w)" and "\<not> has_alpha name" and "15 < length name" and "0 \<notin> set name"
    and "service_port servname = Some port"
  shows "at_getaddrinfo ops inet_aton stack (Some name) servname None n = None"
proof -
  have "host_ipstr ops (\<lambda>r. r \<noteq> 0) (cstr name) (n\<lparr>world := w\<rparr>) = None"
    using host_ipstr_overflow [OF assms(2-4)] assms(4) by (simp add: cstr_id)
  with assms(1,5) show ?thesis by (simp add: at_getaddrinfo_def on_world_def node_addr_def)
qed

theorem getaddrinfo_overflow_witness:
  "at_getaddrinfo quiet_ops (\<lambda>_. None) 0 (Some (ascii ''2001:470:1:18::119'')) None None closed_net = None"
  by (rule getaddrinfo_overflow [of _ _ "()" _ _ 0])
    (simp_all add: quiet_ops_def closed_net_def has_alpha_def ascii_def c_isalpha_def of_char_def service_port_def word_le_nat_alt)

end
