(* ===== verification/Esp8266.thy ===== *)
theory Esp8266
  imports At_Client At_Names
begin

text \<open>
  The ESP8266 driver, \<open>at_socket_esp8266.c\<close> and the URC part of \<open>at_device_esp8266.c\<close>: the functions
  of its URC tables, which turn what the module reports into events and socket notices, and the
  socket operations, which are AT commands. There is one device, registered before its client runs.

  The functions work on the AT client and the device (\<open>esp_state\<close>); a socket is its index in
  \<open>device->sockets\<close>. \<open>ops\<close> gives the heap, \<open>modem\<close> the module behind the serial line. A wait for an event
  runs the parser thread, and ends with the time limit when the line falls silent first.
\<close>

section \<open>Data\<close>

datatype esp_urc = Urc_send_func | Urc_send_bfsz_func | Urc_close_func | Urc_recv_func
  | Urc_busy_p_func | Urc_busy_s_func | Urc_func

record 'w esp_dev =
  esp_net :: "'w at_net"
  socket_event :: u32
  cur_socket :: int
  evt_cb_recv :: bool
  evt_cb_closed :: bool
  is_init :: bool
  link_up :: bool

type_synonym 'w esp_state = "esp_urc at_client \<times> 'w esp_dev"

definition ESP8266_MODULE_SEND_MAX_SIZE :: nat where "ESP8266_MODULE_SEND_MAX_SIZE = 2048"
definition ESP8266_EVENT_SEND_OK :: u32 where "ESP8266_EVENT_SEND_OK = 2"
definition ESP8266_EVENT_SEND_FAIL :: u32 where "ESP8266_EVENT_SEND_FAIL = 32"

definition SET_EVENT :: "int \<Rightarrow> u32 \<Rightarrow> u32" where
  "SET_EVENT socket event = push_bit 16 (word_of_int (socket + 1)) OR event"

text \<open>\<open>%d\<close> of \<open>printf\<close>.\<close>

definition fmt_d :: "int \<Rightarrow> bytes" where
  "fmt_d k = (if k < 0 then 0x2D # decimal (nat (- k)) else decimal (nat k))"

section \<open>Events\<close>

definition esp8266_socket_event_send :: "u32 \<Rightarrow> 'w esp_dev \<Rightarrow> int \<times> 'w esp_dev" where
  "esp8266_socket_event_send event d =
     (if event = 0 then (- 1, d) else (0, d\<lparr>socket_event := socket_event d OR event\<rparr>))"

definition esp8266_socket_event_recv ::
    "(esp_urc \<Rightarrow> bytes \<Rightarrow> nat \<Rightarrow> 'w esp_state \<Rightarrow> 'w esp_state option) \<Rightarrow> u32 \<Rightarrow> 'w esp_state \<Rightarrow> (int \<times> 'w esp_state) option" where
  "esp8266_socket_event_recv call event cd =
     (if event = 0 then Some (- 2, cd)
      else do {
        (c, d) \<leftarrow> client_parser call (\<lambda>(c, d). socket_event d AND event \<noteq> 0) (Suc (length (rx (fst cd)))) cd;
        Some (if socket_event d AND event = 0 then (- 2, c, d)
          else (sint (socket_event d AND event), c, d\<lparr>socket_event := socket_event d AND NOT event\<rparr>)) })"

section \<open>The URC functions\<close>

text \<open>Each starts with \<open>RT_ASSERT(data && size)\<close>.\<close>

definition urc_send_func :: "bytes \<Rightarrow> nat \<Rightarrow> 'w esp_state \<Rightarrow> 'w esp_state option" where
  "urc_send_func data n cd = (case cd of (c, d) \<Rightarrow>
     if n = 0 then None
     else if c_strstr (cstr data) (ascii ''SEND OK'')
     then Some (c, snd (esp8266_socket_event_send (SET_EVENT (cur_socket d) ESP8266_EVENT_SEND_OK) d))
     else if c_strstr (cstr data) (ascii ''SEND FAIL'')
     then Some (c, snd (esp8266_socket_event_send (SET_EVENT (cur_socket d) ESP8266_EVENT_SEND_FAIL) d))
     else Some (c, d))"

text \<open>\<open>urc_send_bfsz_func\<close> stores the number in a variable that nothing reads.\<close>

definition urc_send_bfsz_func :: "bytes \<Rightarrow> nat \<Rightarrow> 'w esp_state \<Rightarrow> 'w esp_state option" where
  "urc_send_bfsz_func data n cd = (if n = 0 then None else Some cd)"

text \<open>\<open>sscanf\<close> leaves the index 0 when there is no number; a socket outside the table is not defined.\<close>

definition scan_closed :: "bytes \<Rightarrow> int" where
  "scan_closed data = (case scan_int (cstr data) of None \<Rightarrow> 0 | Some (index, _) \<Rightarrow> index)"

definition urc_close_func :: "bytes \<Rightarrow> nat \<Rightarrow> 'w esp_state \<Rightarrow> 'w esp_state option" where
  "urc_close_func data n cd = (case cd of (c, d) \<Rightarrow>
     if n = 0 then None
     else let index = scan_closed data in
       if \<not> evt_cb_closed d then Some (c, d)
       else if index < 0 then None
       else map_option (\<lambda>m. (c, d\<lparr>esp_net := m\<rparr>)) (at_closed_notice_cb (nat index) (esp_net d)))"

definition scan_ipd :: "bytes \<Rightarrow> int \<times> int" where
  "scan_ipd data =
     (if take 5 data \<noteq> ascii ''+IPD,'' then (0, 0)
      else (case scan_int (cstr (drop 5 data)) of
          None \<Rightarrow> (0, 0)
        | Some (device_socket, s) \<Rightarrow>
            if take 1 s \<noteq> [0x2C] then (device_socket, 0)
            else (case scan_int (drop 1 s) of None \<Rightarrow> (device_socket, 0) | Some (bfsz, _) \<Rightarrow> (device_socket, bfsz))))"

text \<open>The loop that throws a frame away, eight bytes at a time; \<open>left\<close> is \<open>bfsz - temp_size\<close>.\<close>

function drop_frame :: "nat \<Rightarrow> 'f at_client \<Rightarrow> 'f at_client" where
  "drop_frame left c = (if left = 0 then c else drop_frame (left - 8) (snd (at_client_obj_recv (min left 8) c)))"
  by auto
termination by (relation "measure fst") auto

declare drop_frame.simps [simp del]

text \<open>A size from which \<open>temp_size\<close> wraps around keeps the loop going for ever.\<close>

definition urc_recv_func :: "'w at_ops \<Rightarrow> bytes \<Rightarrow> nat \<Rightarrow> 'w esp_state \<Rightarrow> 'w esp_state option" where
  "urc_recv_func ops data n cd = (case cd of (c, d) \<Rightarrow>
     if n = 0 then None
     else (case scan_ipd data of (device_socket, frame) \<Rightarrow>
       let bfsz = unat (word_of_int frame :: u32) in
       if device_socket < 0 \<or> bfsz = 0 then Some (c, d)
       else (case on_world (op_alloc ops) (esp_net d) of (mem_ok, m) \<Rightarrow>
         let d = d\<lparr>esp_net := m\<rparr> in
         if \<not> mem_ok then (if 2 ^ 32 - 8 < bfsz then None else Some (drop_frame bfsz c, d))
         else (case at_client_obj_recv bfsz c of (recv_buf, c) \<Rightarrow>
           if length recv_buf \<noteq> bfsz then Some (c, d)
           else if \<not> evt_cb_recv d then Some (c, d)
           else map_option (\<lambda>m. (c, d\<lparr>esp_net := m\<rparr>)) (at_recv_notice_cb ops (nat device_socket) recv_buf m)))))"

definition urc_busy_func :: "bytes \<Rightarrow> nat \<Rightarrow> 'w esp_state \<Rightarrow> 'w esp_state option" where
  "urc_busy_func data n cd = Some cd"

definition urc_wifi_func :: "bytes \<Rightarrow> nat \<Rightarrow> 'w esp_state \<Rightarrow> 'w esp_state option" where
  "urc_wifi_func data n cd = (case cd of (c, d) \<Rightarrow>
     if n = 0 then None
     else if c_strstr (cstr data) (ascii ''WIFI CONNECTED'')
     then Some (c, if is_init d then d\<lparr>link_up := True\<rparr> else d)
     else if c_strstr (cstr data) (ascii ''WIFI DISCONNECT'')
     then Some (c, if is_init d then d\<lparr>link_up := False\<rparr> else d)
     else Some (c, d))"

fun urc_call :: "'w at_ops \<Rightarrow> esp_urc \<Rightarrow> bytes \<Rightarrow> nat \<Rightarrow> 'w esp_state \<Rightarrow> 'w esp_state option" where
  "urc_call ops Urc_send_func data n cd = urc_send_func data n cd"
| "urc_call ops Urc_send_bfsz_func data n cd = urc_send_bfsz_func data n cd"
| "urc_call ops Urc_close_func data n cd = urc_close_func data n cd"
| "urc_call ops Urc_recv_func data n cd = urc_recv_func ops data n cd"
| "urc_call ops Urc_busy_p_func data n cd = urc_busy_func data n cd"
| "urc_call ops Urc_busy_s_func data n cd = urc_busy_func data n cd"
| "urc_call ops Urc_func data n cd = urc_wifi_func data n cd"

text \<open>The tables of the sockets and of the device.\<close>

definition socket_urc_table :: "esp_urc at_urc list" where
  "socket_urc_table =
     [\<lparr> cmd_prefix = ascii ''SEND OK'', cmd_suffix = CRLF, urc_func = Some Urc_send_func \<rparr>,
      \<lparr> cmd_prefix = ascii ''SEND FAIL'', cmd_suffix = CRLF, urc_func = Some Urc_send_func \<rparr>,
      \<lparr> cmd_prefix = ascii ''Recv'', cmd_suffix = ascii ''bytes'' @ CRLF, urc_func = Some Urc_send_bfsz_func \<rparr>,
      \<lparr> cmd_prefix = [], cmd_suffix = ascii '',CLOSED'' @ CRLF, urc_func = Some Urc_close_func \<rparr>,
      \<lparr> cmd_prefix = ascii ''+IPD'', cmd_suffix = ascii '':'', urc_func = Some Urc_recv_func \<rparr>]"

definition device_urc_table :: "esp_urc at_urc list" where
  "device_urc_table =
     [\<lparr> cmd_prefix = ascii ''busy p'', cmd_suffix = CRLF, urc_func = Some Urc_busy_p_func \<rparr>,
      \<lparr> cmd_prefix = ascii ''busy s'', cmd_suffix = CRLF, urc_func = Some Urc_busy_s_func \<rparr>,
      \<lparr> cmd_prefix = ascii ''WIFI CONNECTED'', cmd_suffix = CRLF, urc_func = Some Urc_func \<rparr>,
      \<lparr> cmd_prefix = ascii ''WIFI DISCONNECT'', cmd_suffix = CRLF, urc_func = Some Urc_func \<rparr>]"

definition esp8266_socket_init :: "bool \<Rightarrow> esp_urc at_client \<Rightarrow> int \<times> esp_urc at_client" where
  "esp8266_socket_init mem_ok c = (0, snd (at_obj_set_urc_table mem_ok socket_urc_table c))"

definition esp8266_socket_set_event_cb :: "nat \<Rightarrow> bool \<Rightarrow> 'w esp_dev \<Rightarrow> 'w esp_dev" where
  "esp8266_socket_set_event_cb event cb d =
     (if event = 0 then d\<lparr>evt_cb_recv := cb\<rparr> else if event = 1 then d\<lparr>evt_cb_closed := cb\<rparr> else d)"

section \<open>The socket operations\<close>

text \<open>
  A command with the response object it fills, which the command line interface mode leaves alone.
\<close>

definition exec_resp ::
    "'w at_ops \<Rightarrow> 'w esp_dev modem \<Rightarrow> at_response \<Rightarrow> bytes \<Rightarrow> 'w esp_state \<Rightarrow> (int \<times> at_response \<times> 'w esp_state) option" where
  "exec_resp ops modem r cmd cd =
     map_option (\<lambda>(ret, c, d). (ret, (if status (fst cd) = AT_STATUS_CLI then r else response c), c, d))
       (at_obj_exec_cmd (urc_call ops) modem (Some r) cmd cd)"

definition device_socket_of :: "nat \<Rightarrow> 'w esp_dev \<Rightarrow> int" where
  "device_socket_of i d = sk_user_data (sockets (esp_net d) ! i)"

definition esp8266_socket_close ::
    "'w at_ops \<Rightarrow> 'w esp_dev modem \<Rightarrow> bool \<Rightarrow> nat \<Rightarrow> 'w esp_state \<Rightarrow> (int \<times> 'w esp_state) option" where
  "esp8266_socket_close ops modem mem_ok i cd =
     (case at_create_resp mem_ok mem_ok 64 0 300 of
        None \<Rightarrow> Some (- 5, cd)
      | Some r \<Rightarrow> do {
          (result, r, cd) \<leftarrow> exec_resp ops modem r (ascii ''AT+CIPCLOSE='' @ fmt_d (device_socket_of i (snd cd))) cd;
          let n = min 6 (resp_buf_len r);
          Some (if take n (ascii ''UNLINK'') = take n (resp_buf r) then 0 else result, cd) })"

definition connect_cmd :: "int \<Rightarrow> bytes \<Rightarrow> int \<Rightarrow> at_socket_type \<Rightarrow> bytes option" where
  "connect_cmd ds ip port type =
     (case type of
        AT_SOCKET_TCP \<Rightarrow> Some (ascii ''AT+CIPSTART='' @ fmt_d ds @ ascii '',\"TCP\",\"'' @ cstr ip @ ascii ''\",'' @ fmt_d port @ ascii '',60'')
      | AT_SOCKET_UDP \<Rightarrow> Some (ascii ''AT+CIPSTART='' @ fmt_d ds @ ascii '',\"UDP\",\"'' @ cstr ip @ ascii ''\",'' @ fmt_d port)
      | AT_SOCKET_INVALID \<Rightarrow> None)"

text \<open>\<open>mems\<close>: the heap's answers for the response objects of the two functions, \<open>retryed\<close> as in the code.\<close>

fun connect_try ::
    "'w at_ops \<Rightarrow> 'w esp_dev modem \<Rightarrow> bool \<Rightarrow> nat \<Rightarrow> bytes option \<Rightarrow> nat \<Rightarrow> at_response \<Rightarrow> 'w esp_state \<Rightarrow> (int \<times> 'w esp_state) option" where
  "connect_try ops modem mem_ok i None tries r cd = Some (- 1, cd)"
| "connect_try ops modem mem_ok i (Some cmd) tries r cd = do {
     (ret, r, cd) \<leftarrow> exec_resp ops modem r cmd cd;
     if \<not> ret < 0 then Some (0, cd)
     else (case tries of
         0 \<Rightarrow> Some (- 1, cd)
       | Suc tries \<Rightarrow> do {
           (closed, cd) \<leftarrow> esp8266_socket_close ops modem mem_ok i cd;
           if closed < 0 then Some (- 1, cd) else connect_try ops modem mem_ok i (Some cmd) tries r cd }) }"

definition esp8266_socket_connect ::
    "'w at_ops \<Rightarrow> 'w esp_dev modem \<Rightarrow> bool \<Rightarrow> bool \<Rightarrow> nat \<Rightarrow> bytes \<Rightarrow> int \<Rightarrow> at_socket_type \<Rightarrow> bool \<Rightarrow> 'w esp_state
      \<Rightarrow> (int \<times> 'w esp_state) option" where
  "esp8266_socket_connect ops modem mem_ok mem_close i ip port type is_client cd =
     (if port < 0 then None
      else (case at_create_resp mem_ok mem_ok 128 0 5000 of
          None \<Rightarrow> Some (- 5, cd)
        | Some r \<Rightarrow>
            if \<not> is_client then Some (0, cd)
            else connect_try ops modem mem_close i (connect_cmd (device_socket_of i (snd cd)) ip port type) 1 r cd))"

text \<open>The loop of \<open>esp8266_socket_send\<close>: what is left to send, what was sent, the last result.\<close>

definition send_cmd :: "int \<Rightarrow> nat \<Rightarrow> bytes" where
  "send_cmd ds cur_pkt_size = ascii ''AT+CIPSEND='' @ fmt_d ds @ [0x2C] @ decimal cur_pkt_size"

text \<open>One turn of the loop: the error it leaves with, or the result of the write.\<close>

definition send_packet ::
    "'w at_ops \<Rightarrow> 'w esp_dev modem \<Rightarrow> int \<Rightarrow> at_response \<Rightarrow> bytes \<Rightarrow> 'w esp_state
      \<Rightarrow> ((int + int) \<times> at_response \<times> 'w esp_state) option" where
  "send_packet ops modem ds r pkt cd = do {
     (ret, r, cd) \<leftarrow> exec_resp ops modem r (send_cmd ds (length pkt)) cd;
     if ret < 0 then Some (Inl (- 1), r, cd)
     else (case at_client_obj_send modem pkt cd of (len, cd) \<Rightarrow>
       if len = 0 then Some (Inl (- 1), r, cd)
       else do {
         (event, cd) \<leftarrow> esp8266_socket_event_recv (urc_call ops) (SET_EVENT ds 0) cd;
         if event < 0 then Some (Inl (- 2), r, cd)
         else do {
           (event, cd) \<leftarrow> esp8266_socket_event_recv (urc_call ops) (ESP8266_EVENT_SEND_OK OR ESP8266_EVENT_SEND_FAIL) cd;
           Some (if event < 0 then Inl (- 2)
             else if word_of_int event AND ESP8266_EVENT_SEND_FAIL \<noteq> 0 then Inl (- 1)
             else Inr (int len), r, cd) } }) }"

function esp_send_loop ::
    "'w at_ops \<Rightarrow> 'w esp_dev modem \<Rightarrow> int \<Rightarrow> at_response \<Rightarrow> bytes \<Rightarrow> nat \<Rightarrow> int \<Rightarrow> 'w esp_state \<Rightarrow> (int \<times> nat \<times> 'w esp_state) option" where
  "esp_send_loop ops modem ds r rest sent_size result cd =
     (if rest = [] then Some (result, sent_size, cd)
      else do {
        let cur_pkt_size = min (length rest) ESP8266_MODULE_SEND_MAX_SIZE;
        (res, r, cd) \<leftarrow> send_packet ops modem ds r (take cur_pkt_size rest) cd;
        case res of
          Inl err \<Rightarrow> Some (err, sent_size, cd)
        | Inr len \<Rightarrow> esp_send_loop ops modem ds r (drop cur_pkt_size rest) (sent_size + cur_pkt_size) len cd })"
  by auto
termination
  by (relation "measure (\<lambda>(_, _, _, _, rest, _). length rest)") (auto simp: ESP8266_MODULE_SEND_MAX_SIZE_def)

declare esp_send_loop.simps [simp del]

definition esp8266_socket_send ::
    "'w at_ops \<Rightarrow> 'w esp_dev modem \<Rightarrow> bool \<Rightarrow> bool \<Rightarrow> nat \<Rightarrow> bytes \<Rightarrow> 'w esp_state \<Rightarrow> (int \<times> 'w esp_state) option" where
  "esp8266_socket_send ops modem mem_ok mem_table i buff cd =
     (if buff = [] then None
      else (case at_create_resp mem_ok mem_ok 128 2 5000 of
          None \<Rightarrow> Some (- 5, cd)
        | Some r \<Rightarrow>
            (case cd of (c, d) \<Rightarrow>
              let ds = device_socket_of i d;
                  d = d\<lparr>cur_socket := ds\<rparr>;
                  c = at_obj_set_end_sign 0x3E (snd (at_obj_set_urc_table mem_table socket_urc_table c)) in
              map_option (\<lambda>(result, sent_size, c, d). (if 0 < result then int sent_size else result, at_obj_set_end_sign 0 c, d))
                (esp_send_loop ops modem ds r buff 0 0 (c, d)))))"

text \<open>
  \<open>sscanf\<close> with \<open>+CIPDOMAIN:%s\<close> into the sixteen bytes of \<open>recv_ip\<close>; the conversion has no width.
\<close>

definition scan_cipdomain :: "bytes \<Rightarrow> int \<times> bytes option" where
  "scan_cipdomain s =
     (let word = takeWhile (\<lambda>b. \<not> c_isspace b) (dropWhile c_isspace (drop 11 s)) in
      if take 11 s \<noteq> ascii ''+CIPDOMAIN:'' then (0, None)
      else if word = [] then (- 1, None) else (1, Some word))"

fun resolve_loop ::
    "'w at_ops \<Rightarrow> 'w esp_dev modem \<Rightarrow> bytes \<Rightarrow> nat \<Rightarrow> at_response \<Rightarrow> bytes \<Rightarrow> bytes \<Rightarrow> 'w esp_state \<Rightarrow> (int \<times> bytes \<times> 'w esp_state) option" where
  "resolve_loop ops modem name 0 r recv_ip ip cd = Some (0, ip, cd)"
| "resolve_loop ops modem name (Suc k) r recv_ip ip cd = do {
     (ret, r, cd) \<leftarrow> exec_resp ops modem r (ascii ''AT+CIPDOMAIN=\"'' @ cstr name @ ascii ''\"'') cd;
     if ret < 0 then Some (- 1, ip, cd)
     else do {
       (n, v) \<leftarrow> at_resp_parse_line_args_by_kw r (ascii ''+CIPDOMAIN:'') scan_cipdomain;
       recv_ip \<leftarrow> (case v of Some (Some word) \<Rightarrow> blit recv_ip 0 (word @ [0]) | _ \<Rightarrow> Some recv_ip);
       if n < 0 \<or> c_strlen recv_ip < 8 then resolve_loop ops modem name k r recv_ip ip cd
       else Some (0, take 15 (cstr recv_ip @ replicate 15 0) @ [0], cd) } }"

definition esp8266_domain_resolve ::
    "'w at_ops \<Rightarrow> 'w esp_dev modem \<Rightarrow> bool \<Rightarrow> bytes \<Rightarrow> bytes \<Rightarrow> 'w esp_state \<Rightarrow> (int \<times> bytes \<times> 'w esp_state) option" where
  "esp8266_domain_resolve ops modem mem_ok name ip cd =
     (if \<not> is_init (snd cd) then Some (- 1, ip, cd)
      else (case at_create_resp mem_ok mem_ok 128 0 20000 of
          None \<Rightarrow> Some (- 5, ip, cd)
        | Some r \<Rightarrow> resolve_loop ops modem name 5 r (replicate 16 0) ip cd))"

definition esp8266_wifi_info_set ::
    "'w at_ops \<Rightarrow> 'w esp_dev modem \<Rightarrow> bool \<Rightarrow> bytes option \<Rightarrow> bytes option \<Rightarrow> 'w esp_state \<Rightarrow> (int \<times> 'w esp_state) option" where
  "esp8266_wifi_info_set ops modem mem_ok ssid password cd =
     (case (ssid, password) of
        (Some s, Some p) \<Rightarrow>
          (case at_create_resp mem_ok mem_ok 128 0 20000 of
             None \<Rightarrow> Some (- 5, cd)
           | Some r \<Rightarrow> do {
               (ret, r, cd) \<leftarrow> exec_resp ops modem r (ascii ''AT+CWJAP=\"'' @ cstr s @ ascii ''\",\"'' @ cstr p @ ascii ''\"'') cd;
               Some (if ret \<noteq> 0 then - 1 else 0, cd) })
      | _ \<Rightarrow> Some (- 1, cd))"

end
