(* ===== verification/At_Lines.thy ===== *)
theory At_Lines
  imports At_Client
begin

text \<open>
  What the AT client makes of the bytes of the serial line: \<open>at_recv_readline\<close> cuts it at the shortest
  prefix that ends a line or is a URC, the parser collects the lines of an answer in the response
  object, and \<open>at_resp_get_line\<close> finds them there.
\<close>

section \<open>Where a line ends\<close>

definition urc_text :: "'f at_urc \<Rightarrow> bytes \<Rightarrow> bool" where
  "urc_text urc t \<longleftrightarrow> (\<exists>m. t = cmd_prefix urc @ m @ cmd_suffix urc)"

definition ends :: "'f at_client \<Rightarrow> bytes \<Rightarrow> bool" where
  "ends c t \<longleftrightarrow> (\<exists>p. t = p @ CRLF) \<or> end_sign c \<noteq> 0 \<and> t \<noteq> [] \<and> last t = end_sign c
     \<or> (\<exists>urc\<in>set (concat (urc_table c)). urc_text urc t)"

text \<open>A line: it ends, and no shorter part of it does.\<close>

definition is_line :: "'f at_client \<Rightarrow> bytes \<Rightarrow> bool" where
  "is_line c t \<longleftrightarrow> t \<noteq> [] \<and> ends c t \<and> (\<forall>k. 0 < k \<and> k < length t \<longrightarrow> \<not> ends c (take k t))"

lemma urc_matches_text:
  assumes "take (length t) buf = t" and "length t \<le> length buf"
  shows "urc_matches buf (length t) urc \<longleftrightarrow> urc_text urc t"
proof -
  obtain z where buf: "buf = t @ z" using assms by (metis append_take_drop_id)
  let ?p = "cmd_prefix urc" and ?s = "cmd_suffix urc"
  show ?thesis
  proof
    assume u: "urc_matches buf (length t) urc"
    then have l: "length ?p + length ?s \<le> length t" and p: "take (length ?p) t = ?p"
      and s: "drop (length t - length ?s) t = ?s"
      by (auto simp: urc_matches_def Let_def buf)
    have "t = take (length t - length ?s) t @ ?s" by (metis append_take_drop_id s)
    moreover have "take (length t - length ?s) t = ?p @ drop (length ?p) (take (length t - length ?s) t)"
      using l p by (metis append_take_drop_id take_take min.absorb1 le_diff_conv2 add_leD2)
    ultimately show "urc_text urc t" unfolding urc_text_def by (metis append.assoc)
  next
    assume "urc_text urc t"
    then show "urc_matches buf (length t) urc"
      by (auto simp: urc_text_def urc_matches_def Let_def buf)
  qed
qed

lemma get_urc_iff:
  fixes c :: "'f at_client"
  assumes "take (length t) (recv_line_buf c) = t" and "length t \<le> length (recv_line_buf c)" and "recv_line_len c = length t"
  shows "get_urc_obj c = find (\<lambda>urc. urc_text urc t) (concat (urc_table c))"
proof -
  have "urc_matches (recv_line_buf c) (length t) = (\<lambda>urc :: 'f at_urc. urc_text urc t)"
    by (rule ext) (rule urc_matches_text [OF assms(1,2)])
  then show ?thesis by (simp only: get_urc_obj_def assms(3))
qed

text \<open>A client that has stored \<open>t\<close> of the current line.\<close>

definition holds :: "'f at_client \<Rightarrow> bytes \<Rightarrow> bool" where
  "holds c t \<longleftrightarrow> recv_line_buf c = t @ replicate (recv_bufsz c - length t) 0 \<and> length t \<le> recv_bufsz c \<and> recv_line_len c = length t"

lemma holds_store:
  assumes "holds c t" and "length t < recv_bufsz c"
  shows "holds (line_store ch (length t) (c\<lparr>rx := r\<rparr>)) (t @ [ch])"
proof -
  have "replicate (recv_bufsz c - length t) (0 :: u8) = 0 # replicate (recv_bufsz c - Suc (length t)) 0"
    using assms(2) by (metis Suc_diff_Suc replicate_Suc)
  with assms show ?thesis by (simp add: holds_def line_store_def)
qed

lemma line_ends_iff:
  assumes "holds c (t @ [ch])" and "last_ch = (if t = [] then 0 else last t)"
  shows "line_ends ch last_ch c \<longleftrightarrow> ends c (t @ [ch])"
proof -
  have "get_urc_obj c = find (\<lambda>urc. urc_text urc (t @ [ch])) (concat (urc_table c))"
    using assms(1) by (intro get_urc_iff) (auto simp: holds_def)
  then have "get_urc_obj c \<noteq> None \<longleftrightarrow> (\<exists>urc\<in>set (concat (urc_table c)). urc_text urc (t @ [ch]))"
    by (auto simp: find_None_iff)
  moreover have "ch = 10 \<and> last_ch = 13 \<longleftrightarrow> (\<exists>p. t @ [ch] = p @ CRLF)"
    using assms(2) by (cases t rule: rev_cases) (auto simp: CRLF_def)
  ultimately show ?thesis by (auto simp: line_ends_def ends_def)
qed

lemma ends_store [simp]: "ends (line_store ch k (c\<lparr>rx := r\<rparr>)) t = ends c t" "ends (c\<lparr>rx := r\<rparr>) t = ends c t"
  "ends (c\<lparr>rx := r, recv_line_buf := b, recv_line_len := k\<rparr>) t = ends c t"
  by (simp_all add: ends_def line_store_def)

lemma readline_loop_line:
  assumes "holds c t" and "length (t @ s) \<le> recv_bufsz c" and "s \<noteq> []" and "ends c (t @ s)"
    and "\<forall>k. 0 < k \<and> k < length s \<longrightarrow> \<not> ends c (t @ take k s)" and "last_ch = (if t = [] then 0 else last t)"
    and "rx c = map Rx s @ r"
  shows "\<exists>c'. readline_loop c (length t) last_ch False = Some (int (length (t @ s)), c') \<and> holds c' (t @ s)
    \<and> c' = c\<lparr>recv_line_buf := recv_line_buf c', recv_line_len := recv_line_len c', rx := r\<rparr>"
  using assms
proof (induction s arbitrary: c t last_ch)
  case (Cons ch s)
  let ?c = "line_store ch (length t) (c\<lparr>rx := map Rx s @ r\<rparr>)"
  have lt: "length t < recv_bufsz c" using Cons.prems(2) by simp
  have h: "holds ?c (t @ [ch])" by (rule holds_store [OF Cons.prems(1) lt])
  have e: "line_ends ch last_ch ?c \<longleftrightarrow> ends c (t @ [ch])" using line_ends_iff [OF h Cons.prems(6)] by simp
  have step: "readline_loop c (length t) last_ch False =
      (if ends c (t @ [ch]) then Some (int (Suc (length t)), ?c) else readline_loop ?c (length (t @ [ch])) ch False)"
    using Cons.prems(7) lt e by (subst readline_loop.simps) (simp add: line_store_def Let_def)
  show ?case
  proof (cases "s = []")
    case True
    with step h Cons.prems(4) show ?thesis by (auto simp: line_store_def)
  next
    case False
    have "\<not> ends c (t @ [ch])" using Cons.prems(5) [rule_format, of 1] False by simp
    with step have "readline_loop c (length t) last_ch False = readline_loop ?c (length (t @ [ch])) ch False" by simp
    moreover have "\<exists>c'. readline_loop ?c (length (t @ [ch])) ch False = Some (int (length ((t @ [ch]) @ s)), c')
        \<and> holds c' ((t @ [ch]) @ s)
        \<and> c' = ?c\<lparr>recv_line_buf := recv_line_buf c', recv_line_len := recv_line_len c', rx := r\<rparr>"
    proof (rule Cons.IH [OF h])
      show "\<forall>k. 0 < k \<and> k < length s \<longrightarrow> \<not> ends ?c ((t @ [ch]) @ take k s)"
        using Cons.prems(5) by (auto dest: spec [of _ "Suc k" for k])
    qed (use Cons.prems False in \<open>simp_all add: line_store_def\<close>)
    ultimately show ?thesis by (auto simp: line_store_def)
  qed
qed simp

lemma readline_line:
  assumes "is_line c t" and "length t \<le> recv_bufsz c" and "rx c = map Rx t @ r"
  shows "\<exists>c'. at_recv_readline c = Some (int (length t), c') \<and> holds c' t
    \<and> c' = c\<lparr>recv_line_buf := recv_line_buf c', recv_line_len := recv_line_len c', rx := r\<rparr>"
proof -
  let ?c = "c\<lparr>recv_line_buf := replicate (recv_bufsz c) 0, recv_line_len := 0\<rparr>"
  have "ends ?c x = ends c x" for x by (simp add: ends_def)
  with readline_loop_line [of ?c "[]" t 0 r] assms show ?thesis
    by (auto simp: at_recv_readline_def is_line_def holds_def)
qed

text \<open>
  C20: \<open>at_recv_readline\<close> takes exactly one line from the serial line: the shortest text that ends with
  CR LF, ends with the end sign, or is a URC. It leaves the rest, and hands the text over in the
  buffer, whose remaining bytes are zero; nothing else of the client changes.
\<close>

theorem readline_shortest:
  assumes "is_line c t" and "length t \<le> recv_bufsz c" and "rx c = map Rx t @ r"
  shows "at_recv_readline c = Some (int (length t), c\<lparr>recv_line_buf := t @ replicate (recv_bufsz c - length t) 0,
    recv_line_len := length t, rx := r\<rparr>)"
proof -
  from readline_line [OF assms] obtain c' where c': "at_recv_readline c = Some (int (length t), c')" "holds c' t"
    "c' = c\<lparr>recv_line_buf := recv_line_buf c', recv_line_len := recv_line_len c', rx := r\<rparr>" by blast
  have "recv_bufsz c' = recv_bufsz (c\<lparr>recv_line_buf := recv_line_buf c', recv_line_len := recv_line_len c', rx := r\<rparr>)"
    using c'(3) by (rule arg_cong)
  with c'(2) have b: "recv_line_buf c' = t @ replicate (recv_bufsz c - length t) 0" "recv_line_len c' = length t"
    by (simp_all add: holds_def)
  have "c' = c\<lparr>recv_line_buf := t @ replicate (recv_bufsz c - length t) 0, recv_line_len := length t, rx := r\<rparr>"
    by (subst c'(3)) (simp only: b)
  with c'(1) show ?thesis by simp
qed

section \<open>Lines of an answer\<close>

lemma holds_urc: "holds c t \<Longrightarrow> get_urc_obj c = find (\<lambda>urc. urc_text urc t) (concat (urc_table c))"
  by (rule get_urc_iff) (auto simp: holds_def)

text \<open>What the response object keeps: the lines, each with its last byte as terminator.\<close>

definition keeps :: "at_response \<Rightarrow> bytes list \<Rightarrow> bool" where
  "keeps r ls \<longleftrightarrow> length (resp_buf r) = resp_buf_size r \<and> resp_buf_len r \<le> resp_buf_size r
     \<and> take (resp_buf_len r) (resp_buf r) = concat (map (\<lambda>l. l @ [0]) ls) \<and> line_counts r = length ls \<and> (\<forall>l\<in>set ls. 0 \<notin> set l)"

lemma cstr_drop: "0 \<notin> set l \<Longrightarrow> drop off buf = l @ 0 # z \<Longrightarrow> cstr (drop off buf) = l"
  by (simp add: cstr_append_nul)

lemma line_walk:
  assumes "buf = pre @ concat (map (\<lambda>l. l @ [0]) ls) @ z" and "\<forall>l\<in>set ls. 0 \<notin> set l" and "k < length ls"
  shows "\<exists>off. resp_line_walk buf (length pre) k = Some off \<and> cstr (drop off buf) = ls ! k"
  using assms
proof (induction ls arbitrary: pre k)
  case (Cons l ls)
  have d: "drop (length pre) buf = l @ 0 # concat (map (\<lambda>l. l @ [0]) ls) @ z" using Cons.prems(1) by simp
  have l: "cstr (drop (length pre) buf) = l" by (rule cstr_drop [OF _ d]) (use Cons.prems(2) in simp)
  show ?case
  proof (cases k)
    case 0
    with l show ?thesis by simp
  next
    case (Suc j)
    have "strlen_at buf (length pre) = Some (length l)" using d l by (simp add: strlen_at_def c_strlen_def)
    moreover have "buf = (pre @ l @ [0]) @ concat (map (\<lambda>l. l @ [0]) ls) @ z" using Cons.prems(1) by simp
    from Cons.IH [OF this, of j] Cons.prems(2,3) Suc obtain off where
      "resp_line_walk buf (length pre + length l + 1) j = Some off" "cstr (drop off buf) = ls ! j" by (auto simp: add.assoc)
    ultimately show ?thesis using Suc by simp
  qed
qed simp

text \<open>\<open>at_resp_get_line\<close> finds the lines of the object.\<close>

lemma get_line_keeps:
  assumes k: "keeps r ls" and i: "1 \<le> i" "i \<le> length ls"
  shows "\<exists>off. at_resp_get_line r i = Some (Some off) \<and> cstr (drop off (resp_buf r)) = ls ! (i - 1)"
proof -
  have "resp_buf r = [] @ concat (map (\<lambda>l. l @ [0]) ls) @ drop (resp_buf_len r) (resp_buf r)"
    using k append_take_drop_id [of "resp_buf_len r" "resp_buf r"] by (simp add: keeps_def)
  from line_walk [OF this, of "i - 1"] k i show ?thesis by (auto simp: at_resp_get_line_def keeps_def)
qed

text \<open>What becomes of the object with one more line.\<close>

definition add_line :: "at_response \<Rightarrow> bytes \<Rightarrow> at_response" where
  "add_line r l = (if resp_buf_len r + (length l + 1) < resp_buf_size r
     then r\<lparr>resp_buf := take (resp_buf_len r) (resp_buf r) @ (l @ [0]) @ drop (resp_buf_len r + (length l + 1)) (resp_buf r),
       resp_buf_len := resp_buf_len r + (length l + 1), line_counts := line_counts r + 1\<rparr>
     else r)"

lemma add_line_same [simp]:
  "resp_buf_size (add_line r l) = resp_buf_size r" "line_num (add_line r l) = line_num r"
  by (simp_all add: add_line_def)

lemma response_line_add: "holds c (l @ [x]) \<Longrightarrow> response (response_line c) = add_line (response c) l"
  by (auto simp: response_line_def add_line_def holds_def Let_def)

lemma keeps_add:
  assumes k: "keeps r ls" and l: "0 \<notin> set l" and fits: "resp_buf_len r + (length l + 1) < resp_buf_size r"
  shows "keeps (add_line r l) (ls @ [l])"
proof -
  have "resp_buf_len r \<le> length (resp_buf r)" using k by (simp add: keeps_def)
  then have tk: "length (take (resp_buf_len r) (resp_buf r)) = resp_buf_len r" by simp
  with k have "length (concat (map (\<lambda>l. l @ [0]) ls)) = resp_buf_len r" by (simp add: keeps_def)
  then show ?thesis using k l fits by (simp add: add_line_def keeps_def)
qed

abbreviation room :: "bytes list \<Rightarrow> nat" where
  "room ls \<equiv> sum_list (map (\<lambda>l. length l + 1) ls)"

text \<open>Lines that fit are all kept.\<close>

lemma keeps_lines:
  "keeps r ls \<Longrightarrow> \<forall>l\<in>set new. 0 \<notin> set l \<Longrightarrow> resp_buf_len r + room new < resp_buf_size r
    \<Longrightarrow> keeps (foldl add_line r new) (ls @ new)"
proof (induction new arbitrary: r ls)
  case (Cons l new)
  have "keeps (foldl add_line (add_line r l) new) ((ls @ [l]) @ new)"
    using Cons.prems by (intro Cons.IH keeps_add) (auto simp: add_line_def)
  then show ?case by simp
qed simp

text \<open>When they do not fit, at least one is missing.\<close>

lemma lines_missing:
  "line_counts (foldl add_line r new) \<le> line_counts r + length new
    \<and> (line_counts (foldl add_line r new) = line_counts r + length new \<longrightarrow>
        new = [] \<or> resp_buf_len r + room new < resp_buf_size r)"
proof (induction new arbitrary: r)
  case (Cons l new)
  from Cons.IH [of "add_line r l"] show ?case by (auto simp: add_line_def split: if_splits)
qed simp

section \<open>A command and its answer\<close>

text \<open>A line that neither ends the answer nor is a URC, and the line that ends it.\<close>

definition plain_line :: "bytes \<Rightarrow> bool" where
  "plain_line l \<longleftrightarrow> 0 \<notin> set l \<and> \<not> is_prefix AT_RESP_END_OK l \<and> \<not> is_prefix AT_RESP_END_FAIL l
     \<and> \<not> c_strstr (l @ [13]) AT_RESP_END_ERROR"

definition no_urc :: "'f at_client \<Rightarrow> bytes \<Rightarrow> bool" where
  "no_urc c t \<longleftrightarrow> (\<forall>urc\<in>set (concat (urc_table c)). \<not> urc_text urc t)"

lemma take_before:
  assumes "take (length p) (l @ x # z) = p" and "x \<notin> set p"
  shows "is_prefix p l"
proof (cases "length p \<le> length l")
  case True
  with assms show ?thesis by simp
next
  case False
  then have "x \<in> set (take (length p) (l @ x # z))" by (cases "length p - length l") auto
  with assms show ?thesis by simp
qed

lemma keyword_bytes [simp]:
  "length AT_RESP_END_OK = 2" "length AT_RESP_END_FAIL = 4" "13 \<notin> set AT_RESP_END_OK" "13 \<notin> set AT_RESP_END_FAIL"
  by code_simp+

lemma take_ok: "take 2 (l @ 13 # z) = AT_RESP_END_OK \<Longrightarrow> is_prefix AT_RESP_END_OK l"
  using take_before [of AT_RESP_END_OK l 13 z] by simp

lemma take_fail: "take 4 (l @ 13 # z) = AT_RESP_END_FAIL \<Longrightarrow> is_prefix AT_RESP_END_FAIL l"
  using take_before [of AT_RESP_END_FAIL l 13 z] by simp

definition same_setup :: "'f at_client \<Rightarrow> 'f at_client \<Rightarrow> bool" where
  "same_setup c c' \<longleftrightarrow> urc_table c' = urc_table c \<and> end_sign c' = end_sign c \<and> recv_bufsz c' = recv_bufsz c \<and> tx c' = tx c
     \<and> status c' = status c"

lemma response_line_frame:
  "same_setup c (response_line c)" "rx (response_line c) = rx c"
  by (simp_all add: response_line_def same_setup_def Let_def)

lemma same_setup_ends: "same_setup c c' \<Longrightarrow> ends c' = ends c \<and> is_line c' = is_line c \<and> no_urc c' = no_urc c"
  by (simp add: fun_eq_iff same_setup_def ends_def is_line_def no_urc_def)

lemma same_setup_trans: "same_setup a b \<Longrightarrow> same_setup b c \<Longrightarrow> same_setup a c"
  by (simp add: same_setup_def)

text \<open>A line of an answer that is collected, in the state the reader leaves.\<close>

lemma response_line_outcome:
  assumes h: "holds c (l @ CRLF)" and z: "0 \<notin> set l"
    and cfg: "end_sign c = 0" "line_num (response c) = 0" "resp c"
  shows "plain_line l \<Longrightarrow> resp (response_line c) \<and> resp_notice (response_line c) = resp_notice c
      \<and> (resp_buf_len (response c) + length l + 2 < resp_buf_size (response c) \<longrightarrow> resp_status (response_line c) = resp_status c)"
    and "is_prefix AT_RESP_END_OK l \<Longrightarrow>
      \<not> resp (response_line c) \<and> resp_notice (response_line c) = resp_notice c + 1 \<and> resp_status (response_line c) = AT_RESP_OK"
proof -
  let ?z = "0 # replicate (recv_bufsz c - length (l @ CRLF)) 0"
  define buf where "buf = (recv_line_buf c)[recv_line_len c - 1 := 0]"
  have buf: "buf = l @ 13 # ?z"
    using h unfolding buf_def by (simp add: holds_def CRLF_def list_update_append)
  have n: "recv_line_len c = Suc (Suc (length l))" using h by (simp add: holds_def CRLF_def)
  have c: "cstr buf = l @ [13]"
    using cstr_append_nul [of "l @ [13]"] z by (simp add: buf)
  note unfold = response_line_def Let_def buf_def [symmetric]
  show "plain_line l \<Longrightarrow> resp (response_line c) \<and> resp_notice (response_line c) = resp_notice c
      \<and> (resp_buf_len (response c) + length l + 2 < resp_buf_size (response c) \<longrightarrow> resp_status (response_line c) = resp_status c)"
    using cfg take_ok [of l ?z] take_fail [of l ?z] c
    unfolding unfold by (auto simp: plain_line_def buf n simp del: is_prefix.simps)
  assume "is_prefix AT_RESP_END_OK l"
  then obtain r where "l = AT_RESP_END_OK @ r" by (metis append_take_drop_id is_prefix.simps)
  then have "take 2 buf = AT_RESP_END_OK" by (simp add: buf)
  then show "\<not> resp (response_line c) \<and> resp_notice (response_line c) = resp_notice c + 1 \<and> resp_status (response_line c) = AT_RESP_OK"
    using cfg unfolding unfold by simp
qed

text \<open>The parser thread on an answer: the lines go into the response object up to the final one.\<close>

abbreviation line_wire :: "bytes list \<Rightarrow> rx_item list" where
  "line_wire ls \<equiv> map Rx (concat (map (\<lambda>l. l @ CRLF) ls))"

definition answer_line :: "'f at_client \<Rightarrow> bytes \<Rightarrow> bool" where
  "answer_line c l \<longleftrightarrow> 0 \<notin> set l \<and> is_line c (l @ CRLF) \<and> no_urc c (l @ CRLF) \<and> length l + 2 \<le> recv_bufsz c"

definition ready :: "'f at_client \<Rightarrow> bool" where
  "ready c \<longleftrightarrow> end_sign c = 0 \<and> line_num (response c) = 0 \<and> resp c \<and> resp_notice c = 0"

lemma answer_turn:
  assumes a: "answer_line c l" and r: "ready c" and rx: "rx c = map Rx (l @ CRLF) @ w"
  shows "\<exists>c'. client_parser_turn call (c, s) = Some (c', s) \<and> same_setup c c' \<and> rx c' = w
    \<and> response c' = add_line (response c) (l @ [13])
    \<and> (plain_line l \<longrightarrow> ready c')
    \<and> (is_prefix AT_RESP_END_OK l \<longrightarrow> \<not> resp c' \<and> resp_notice c' = 1 \<and> resp_status c' = AT_RESP_OK)"
proof -
  let ?t = "l @ CRLF"
  have "length ?t \<le> recv_bufsz c" "is_line c ?t" using a by (simp_all add: answer_line_def CRLF_def)
  then obtain c1 where c1: "at_recv_readline c = Some (int (length ?t), c1)" "holds c1 ?t"
    "c1 = c\<lparr>recv_line_buf := recv_line_buf c1, recv_line_len := recv_line_len c1, rx := w\<rparr>"
    using readline_line [of c ?t w] rx by auto
  have same: "same_setup c c1 \<and> rx c1 = w \<and> response c1 = response c \<and> resp c1 = resp c \<and> resp_notice c1 = resp_notice c"
    by (subst c1(3), subst (2 3 4 5) c1(3)) (simp add: same_setup_def)
  then have "no_urc c1 ?t" using a same_setup_ends [of c c1] by (simp add: answer_line_def)
  then have "get_urc_obj c1 = None" using holds_urc [OF c1(2)] by (auto simp: no_urc_def find_None_iff)
  then have turn: "client_parser_turn call (c, s) = Some (response_line c1, s)"
    using c1(1) same r by (simp add: client_parser_turn_def ready_def CRLF_def)
  have h: "holds c1 ((l @ [13]) @ [10])" using c1(2) by (simp add: CRLF_def)
  have z: "0 \<notin> set l" using a by (simp add: answer_line_def)
  have set: "end_sign c1 = 0" "line_num (response c1) = 0" "resp c1" "resp_notice c1 = 0"
    using same r by (simp_all add: ready_def same_setup_def)
  have "same_setup c (response_line c1)" "rx (response_line c1) = w"
    using same response_line_frame [of c1] by (auto intro: same_setup_trans)
  moreover have "response (response_line c1) = add_line (response c) (l @ [13])"
    using response_line_add [OF h] same by simp
  moreover have "plain_line l \<longrightarrow> ready (response_line c1)"
    using response_line_outcome(1) [OF c1(2) z set(1-3)] set response_line_frame(1) [of c1] response_line_add [OF h]
    by (simp add: ready_def same_setup_def)
  ultimately show ?thesis
    using turn response_line_outcome(2) [OF c1(2) z set(1-3)] set(4) by auto
qed

lemma answer_line_cong: "same_setup c c' \<Longrightarrow> answer_line c' = answer_line c"
  using same_setup_ends [of c c'] by (auto simp: fun_eq_iff answer_line_def same_setup_def)

lemma parser_stops: "resp_notice c \<noteq> 0 \<Longrightarrow> client_parser call (\<lambda>(c, s). resp_notice c \<noteq> 0) n (c, s) = Some (c, s)"
  by (cases n) simp_all

lemma parser_goes_on:
  assumes "resp_notice c = 0" and "client_parser_turn call (c, s) = Some (c', s')"
  shows "client_parser call (\<lambda>(c, s). resp_notice c \<noteq> 0) (Suc n) (c, s) =
    client_parser call (\<lambda>(c, s). resp_notice c \<noteq> 0) n (c', s')"
proof -
  have "at_recv_readline c \<noteq> None" using assms(2)
    by (cases "at_recv_readline c") (auto simp: client_parser_turn_def)
  with assms show ?thesis by auto
qed

lemma answer_collected:
  assumes "\<forall>l\<in>set ls. plain_line l \<and> answer_line c l" and "is_prefix AT_RESP_END_OK fin" and "answer_line c fin"
    and "ready c" and "rx c = line_wire (ls @ [fin]) @ w" and "length ls < n"
  shows "\<exists>c'. client_parser call (\<lambda>(c, s). resp_notice c \<noteq> 0) n (c, s) = Some (c', s) \<and> same_setup c c' \<and> rx c' = w
    \<and> resp_notice c' = 1 \<and> resp_status c' = AT_RESP_OK \<and> response c' = foldl add_line (response c) (map (\<lambda>l. l @ [13]) (ls @ [fin]))"
  using assms
proof (induction ls arbitrary: c n)
  case Nil
  from Nil.prems(5) have "rx c = map Rx (fin @ CRLF) @ w" by simp
  from answer_turn [OF Nil.prems(3,4) this, of call s] obtain c' where
    c': "client_parser_turn call (c, s) = Some (c', s)" "same_setup c c'" "rx c' = w"
      "response c' = add_line (response c) (fin @ [13])" "resp_notice c' = 1" "resp_status c' = AT_RESP_OK"
    using Nil.prems(2) by (elim exE conjE) simp
  obtain m where n: "n = Suc m" using Nil.prems(6) by (cases n) auto
  have z: "resp_notice c = 0" using Nil.prems(4) by (simp add: ready_def)
  show ?case
    unfolding n parser_goes_on [OF z c'(1)] using c' parser_stops [of c' call m s] by simp
next
  case (Cons l ls)
  from Cons.prems(5) have rx: "rx c = map Rx (l @ CRLF) @ line_wire (ls @ [fin]) @ w" by simp
  have "answer_line c l" "plain_line l" using Cons.prems(1) by simp_all
  from answer_turn [OF this(1) Cons.prems(4) rx, of call s] this(2) obtain c1 where
    c1: "client_parser_turn call (c, s) = Some (c1, s)" "same_setup c c1" "rx c1 = line_wire (ls @ [fin]) @ w"
      "response c1 = add_line (response c) (l @ [13])" "ready c1" by (elim exE conjE) blast
  obtain m where n: "n = Suc m" using Cons.prems(6) by (cases n) auto
  have "\<exists>c'. client_parser call (\<lambda>(c, s). resp_notice c \<noteq> 0) m (c1, s) = Some (c', s) \<and> same_setup c1 c' \<and> rx c' = w
    \<and> resp_notice c' = 1 \<and> resp_status c' = AT_RESP_OK \<and> response c' = foldl add_line (response c1) (map (\<lambda>l. l @ [13]) (ls @ [fin]))"
    by (rule Cons.IH [OF _ Cons.prems(2) _ c1(5,3)])
      (use Cons.prems answer_line_cong [OF c1(2)] n in simp_all)
  moreover have z: "resp_notice c = 0" using Cons.prems(4) by (simp add: ready_def)
  ultimately show ?case
    unfolding n parser_goes_on [OF z c1(1)] using c1(2,4) by (auto intro: same_setup_trans)
qed

text \<open>The whole command, whether its answer fits or not.\<close>

lemma exec_cmd_answer:
  assumes cfg: "status c \<noteq> AT_STATUS_CLI" "end_sign c = 0" "rx c = []" "line_num r = 0" "txt \<noteq> []"
    and answer: "modem (at_vprintfln txt) s = ((len, line_wire (ls @ [fin]) @ w), s')"
    and lines: "\<forall>l\<in>set ls. plain_line l \<and> answer_line c l" "is_prefix AT_RESP_END_OK fin" "answer_line c fin"
  shows "\<exists>c'. at_obj_exec_cmd call modem (Some r) txt (c, s) = Some (0, c', s') \<and> rx c' = w \<and> tx c' = tx c @ at_vprintfln txt
    \<and> resp_status c' = AT_RESP_OK
    \<and> response c' = foldl add_line (r\<lparr>resp_buf_len := 0, line_counts := 0\<rparr>) (map (\<lambda>l. l @ [13]) (ls @ [fin]))"
proof -
  let ?c = "c\<lparr>resp_status := AT_RESP_OK, resp_notice := 0, response := r\<lparr>resp_buf_len := 0, line_counts := 0\<rparr>, resp := True,
    tx := tx c @ at_vprintfln txt, rx := line_wire (ls @ [fin]) @ w\<rparr>"
  have "answer_line ?c = answer_line c"
    by (auto simp: fun_eq_iff answer_line_def is_line_def ends_def no_urc_def)
  moreover have "length ls < Suc (length (rx ?c))" by (induction ls) (simp_all add: CRLF_def)
  ultimately obtain c' where c': "client_parser call (\<lambda>(c, s). resp_notice c \<noteq> 0) (Suc (length (rx ?c))) (?c, s') = Some (c', s')"
    "same_setup ?c c'" "rx c' = w" "resp_notice c' = 1" "resp_status c' = AT_RESP_OK"
    "response c' = foldl add_line (response ?c) (map (\<lambda>l. l @ [13]) (ls @ [fin]))"
    using answer_collected [of ls ?c fin w "Suc (length (rx ?c))" call s'] cfg lines by (auto simp: ready_def)
  have "at_obj_exec_cmd call modem (Some r) txt (c, s) =
      Some (0, c'\<lparr>resp_notice := 0, resp := False\<rparr>, s')"
    using cfg answer c'(1,4,5) by (simp add: at_obj_exec_cmd_def at_utils_send_def Let_def del: client_parser.simps)
  with c'(2-6) show ?thesis by (simp add: same_setup_def)
qed

abbreviation stored :: "bytes list \<Rightarrow> bytes list" where
  "stored ls \<equiv> map (\<lambda>l. l @ [13]) ls"

text \<open>
  C17: a command that waits for no particular number of lines and for no end sign, and whose answer consists of
  lines and a final OK line, returns 0, whatever the modem appends after it. The lines are those that neither
  start with OK or FAIL nor have an ERROR in them, fit the receive buffer and complete no URC. When the
  response buffer is large enough for all of them, \<open>at_resp_get_line\<close> then finds every line of the answer
  under its number. The lines keep their carriage return: only the line feed is replaced.
\<close>

theorem exec_cmd_collects:
  assumes "status c \<noteq> AT_STATUS_CLI" and "end_sign c = 0" and "rx c = []" and "line_num r = 0" and "txt \<noteq> []"
    and "modem (at_vprintfln txt) s = ((len, line_wire (ls @ [fin]) @ w), s')"
    and "\<forall>l\<in>set ls. plain_line l \<and> answer_line c l" and "is_prefix AT_RESP_END_OK fin" and "answer_line c fin"
    and "length (resp_buf r) = resp_buf_size r" and "room (stored (ls @ [fin])) < resp_buf_size r"
  shows "\<exists>c'. at_obj_exec_cmd call modem (Some r) txt (c, s) = Some (0, c', s')
    \<and> rx c' = w \<and> tx c' = tx c @ at_vprintfln txt \<and> line_counts (response c') = length ls + 1
    \<and> (\<forall>i\<in>{1..length ls + 1}. \<exists>off. at_resp_get_line (response c') i = Some (Some off)
          \<and> cstr (drop off (resp_buf (response c'))) = (ls @ [fin]) ! (i - 1) @ [13])"
proof -
  from exec_cmd_answer [where modem = modem and c = c and s = s and ls = ls and fin = fin and w = w and call = call, OF assms(1-9)] obtain c' where
    c': "at_obj_exec_cmd call modem (Some r) txt (c, s) = Some (0, c', s')" "rx c' = w" "tx c' = tx c @ at_vprintfln txt"
      "response c' = foldl add_line (r\<lparr>resp_buf_len := 0, line_counts := 0\<rparr>) (stored (ls @ [fin]))" by blast
  have z: "\<forall>l\<in>set (stored (ls @ [fin])). 0 \<notin> set l" using assms(7,9) by (auto simp: plain_line_def answer_line_def)
  have k: "keeps (response c') ([] @ stored (ls @ [fin]))"
    unfolding c'(4) by (rule keeps_lines [OF _ z]) (use assms(10,11) in \<open>simp_all add: keeps_def\<close>)
  then have "line_counts (response c') = length ls + 1" by (simp add: keeps_def)
  moreover have "\<exists>off. at_resp_get_line (response c') i = Some (Some off)
      \<and> cstr (drop off (resp_buf (response c'))) = (ls @ [fin]) ! (i - 1) @ [13]" if "i \<in> {1..length ls + 1}" for i
  proof -
    have "([] @ stored (ls @ [fin])) ! (i - 1) = (ls @ [fin]) ! (i - 1) @ [13]"
      unfolding append_Nil by (rule nth_map) (use that in auto)
    with get_line_keeps [OF k, of i] that show ?thesis by (simp del: map_append)
  qed
  ultimately show ?thesis using c'(1-3) by blast
qed

text \<open>
  When the answer does not fit the response buffer a line of it is dropped and the parser notes the
  overflow, but the final OK overwrites the note: the command still returns 0, and only the missing last
  line tells.
\<close>

theorem exec_cmd_overflow:
  assumes "status c \<noteq> AT_STATUS_CLI" and "end_sign c = 0" and "rx c = []" and "line_num r = 0" and "txt \<noteq> []"
    and "modem (at_vprintfln txt) s = ((len, line_wire (ls @ [fin]) @ w), s')"
    and "\<forall>l\<in>set ls. plain_line l \<and> answer_line c l" and "is_prefix AT_RESP_END_OK fin" and "answer_line c fin"
    and "resp_buf_size r \<le> room (stored (ls @ [fin]))"
  shows "\<exists>c'. at_obj_exec_cmd call modem (Some r) txt (c, s) = Some (0, c', s')
    \<and> resp_status c' = AT_RESP_OK \<and> at_resp_get_line (response c') (length ls + 1) = Some None"
proof -
  from exec_cmd_answer [where modem = modem and c = c and s = s and ls = ls and fin = fin and w = w and call = call, OF assms(1-9)] obtain c' where
    c': "at_obj_exec_cmd call modem (Some r) txt (c, s) = Some (0, c', s')" "resp_status c' = AT_RESP_OK"
      "response c' = foldl add_line (r\<lparr>resp_buf_len := 0, line_counts := 0\<rparr>) (stored (ls @ [fin]))" by blast
  have "line_counts (response c') < length ls + 1"
    using lines_missing [of "r\<lparr>resp_buf_len := 0, line_counts := 0\<rparr>" "stored (ls @ [fin])"] assms(10)
    unfolding c'(3) by (auto simp del: foldl_append map_append)
  with c'(1,2) show ?thesis by (auto simp: at_resp_get_line_def)
qed

section \<open>On a concrete line\<close>

lemma is_line_crlf:
  assumes "10 \<notin> set l" and "urc_table c = []" and "end_sign c = 0"
  shows "is_line c (l @ CRLF)"
proof -
  have "\<not> ends c (take k (l @ CRLF))" if k: "k < length l + 2" for k
  proof
    assume "ends c (take k (l @ CRLF))"
    then obtain p where "take k (l @ CRLF) = p @ CRLF" using assms by (auto simp: ends_def)
    then have "10 \<in> set (take k (l @ CRLF))" by (simp only:) (simp add: CRLF_def)
    moreover have "take k (l @ CRLF) = take k (l @ [13])" using k by (cases "k \<le> length l") (auto simp: CRLF_def le_Suc_eq not_le less_Suc_eq)
    ultimately show False using assms(1) by (auto dest: in_set_takeD)
  qed
  moreover have "ends c (l @ CRLF)" by (auto simp: ends_def)
  ultimately show ?thesis by (simp add: is_line_def CRLF_def)
qed

definition plain_client :: "unit at_client" where
  "plain_client = blank_client\<lparr>status := AT_STATUS_INITIALIZED, recv_bufsz := 32\<rparr>"

definition small_resp :: "nat \<Rightarrow> at_response" where
  "small_resp k = \<lparr> resp_buf = replicate k 0, resp_buf_size = k, resp_buf_len = 0, line_num = 0, line_counts = 0, resp_timeout = 300 \<rparr>"

definition sample_modem :: "unit modem" where
  "sample_modem bs s = ((length bs, line_wire [ascii ''+CWMODE:1'', ascii ''OK'']), s)"

lemma plain_answer_line:
  assumes "10 \<notin> set l" and "0 \<notin> set l" and "length l \<le> 30"
  shows "answer_line plain_client l"
  using assms is_line_crlf [OF assms(1), of plain_client]
  by (simp add: answer_line_def no_urc_def plain_client_def blank_client_def)

lemma sample_lines:
  "answer_line plain_client (ascii ''+CWMODE:1'')" "answer_line plain_client (ascii ''OK'')"
  "plain_line (ascii ''+CWMODE:1'')" "is_prefix AT_RESP_END_OK (ascii ''OK'')"
proof -
  show "answer_line plain_client (ascii ''+CWMODE:1'')" by (rule plain_answer_line) code_simp+
  show "answer_line plain_client (ascii ''OK'')" by (rule plain_answer_line) code_simp+
  show "plain_line (ascii ''+CWMODE:1'')" "is_prefix AT_RESP_END_OK (ascii ''OK'')" by code_simp+
qed

lemma readline_shortest_witness:
  "at_recv_readline (plain_client\<lparr>rx := map Rx (ascii ''OK'' @ CRLF)\<rparr>) =
    Some (4, plain_client\<lparr>rx := [], recv_line_buf := ascii ''OK'' @ CRLF @ replicate 28 0, recv_line_len := 4\<rparr>)"
  using readline_shortest [of "plain_client\<lparr>rx := map Rx (ascii ''OK'' @ CRLF)\<rparr>" "ascii ''OK'' @ CRLF" "[]"]
    is_line_crlf [of "ascii ''OK''" "plain_client\<lparr>rx := map Rx (ascii ''OK'' @ CRLF)\<rparr>"]
  by (simp add: plain_client_def blank_client_def CRLF_def ascii_def of_char_def)

lemma exec_cmd_collects_witness:
  "\<exists>c'. at_obj_exec_cmd (\<lambda>_ _ _ _. None) sample_modem (Some (small_resp 32)) (ascii ''AT+CWMODE?'') (plain_client, ()) = Some (0, c', ())
    \<and> rx c' = [] \<and> tx c' = ascii ''AT+CWMODE?'' @ CRLF \<and> line_counts (response c') = 2
    \<and> (\<forall>i\<in>{1..2}. \<exists>off. at_resp_get_line (response c') i = Some (Some off)
          \<and> cstr (drop off (resp_buf (response c'))) = [ascii ''+CWMODE:1'', ascii ''OK''] ! (i - 1) @ [13])"
proof -
  let ?txt = "ascii ''AT+CWMODE?''"
  have v: "at_vprintfln ?txt = ?txt @ CRLF" by code_simp
  have a: "sample_modem (at_vprintfln ?txt) () =
      ((12, line_wire ([ascii ''+CWMODE:1''] @ [ascii ''OK'']) @ []), ())"
    unfolding sample_modem_def v by (simp add: CRLF_def ascii_def)
  have c: "status plain_client \<noteq> AT_STATUS_CLI" "end_sign plain_client = 0" "rx plain_client = []" "tx plain_client = []"
    by (simp_all add: plain_client_def blank_client_def)
  show ?thesis
    using exec_cmd_collects [where call = "\<lambda>_ _ _ _. None" and modem = sample_modem and ls = "[ascii ''+CWMODE:1'']" and w = "[]"
        and r = "small_resp 32", OF c(1-3) _ _ a _ sample_lines(4,2)]
      sample_lines c(4) v
    by (simp add: small_resp_def numeral_2_eq_2 ascii_def)
qed

lemma exec_cmd_overflow_witness:
  "\<exists>c'. at_obj_exec_cmd (\<lambda>_ _ _ _. None) sample_modem (Some (small_resp 8)) (ascii ''AT+CWMODE?'') (plain_client, ()) = Some (0, c', ())
    \<and> resp_status c' = AT_RESP_OK \<and> at_resp_get_line (response c') 2 = Some None"
proof -
  let ?txt = "ascii ''AT+CWMODE?''"
  have v: "at_vprintfln ?txt = ?txt @ CRLF" by code_simp
  have a: "sample_modem (at_vprintfln ?txt) () =
      ((12, line_wire ([ascii ''+CWMODE:1''] @ [ascii ''OK'']) @ []), ())"
    unfolding sample_modem_def v by (simp add: CRLF_def ascii_def)
  have c: "status plain_client \<noteq> AT_STATUS_CLI" "end_sign plain_client = 0" "rx plain_client = []"
    by (simp_all add: plain_client_def blank_client_def)
  show ?thesis
    using exec_cmd_overflow [where call = "\<lambda>_ _ _ _. None" and modem = sample_modem and ls = "[ascii ''+CWMODE:1'']" and w = "[]"
        and r = "small_resp 8", OF c(1-3) _ _ a _ sample_lines(4,2)]
      sample_lines
    by (simp add: small_resp_def numeral_2_eq_2 ascii_def)
qed

end
