(* ===== verification/At_Stream.thy ===== *)
theory At_Stream
  imports At_Names
begin

text \<open>
  The AT socket as a byte stream: the receive list (\<open>at_recvpkt_get\<close>), \<open>at_recv\<close> on a connected
  socket, the stream it implements, and what becomes of it when a notice is left over.
\<close>

section \<open>The receive list is a byte stream\<close>

definition pkt_ok :: "at_recv_pkt \<Rightarrow> bool" where
  "pkt_ok p \<longleftrightarrow> bfsz_totle p = length (pkt_buff p) \<and> bfsz_index p \<le> length (pkt_buff p)"

definition unread :: "at_recv_pkt list \<Rightarrow> bytes" where
  "unread rlist = concat (map (\<lambda>p. drop (bfsz_index p) (pkt_buff p)) rlist)"

lemma unread_simps [simp]:
  "unread [] = []" "unread (p # ps) = drop (bfsz_index p) (pkt_buff p) @ unread ps" "unread (ps @ qs) = unread ps @ unread qs"
  by (simp_all add: unread_def)

lemma blit_at:
  "pos + length d \<le> length mem \<Longrightarrow> blit mem pos d = Some (take pos mem @ d @ drop (pos + length d) mem)"
  by (simp add: blit_def)

lemma get_loop_stream:
  assumes "\<forall>p\<in>set rlist. pkt_ok p" and "pos < len" and "len \<le> length mem"
  shows "\<exists>rlist'. recvpkt_get_loop rlist mem len pos
      = Some (pos + min (len - pos) (length (unread rlist)),
          take pos mem @ take (len - pos) (unread rlist) @ drop (pos + min (len - pos) (length (unread rlist))) mem, rlist')
    \<and> unread rlist' = drop (len - pos) (unread rlist) \<and> (\<forall>p\<in>set rlist'. pkt_ok p)"
  using assms
proof (induction rlist arbitrary: pos mem)
  case (Cons p rlist)
  let ?d = "drop (bfsz_index p) (pkt_buff p)"
  have p: "bfsz_totle p = length (pkt_buff p)" "bfsz_index p \<le> length (pkt_buff p)"
    using Cons.prems(1) by (simp_all add: pkt_ok_def)
  show ?case
  proof (cases "len - pos \<le> length ?d")
    case True
    have rd: "rd_block (pkt_buff p) (bfsz_index p) (len - pos) = Some (take (len - pos) ?d)"
      using True p Cons.prems(2) by (simp add: rd_block_def)
    have bl: "blit mem pos (take (len - pos) ?d) = Some (take pos mem @ take (len - pos) ?d @ drop len mem)"
      using True Cons.prems(2,3) by (subst blit_at) (simp_all add: min_absorb2)
    have dd: "drop (bfsz_index p + (len - pos)) (pkt_buff p) = drop (len - pos) ?d" by (simp add: add.commute)
    have e: "pos + min (len - pos) (length (unread (p # rlist))) = len" using True Cons.prems(2) by simp
    show ?thesis
      using True p Cons.prems rd bl dd
      by (simp only: recvpkt_get_loop.simps e)
        (auto simp: Let_def pkt_ok_def at_recvpkt_node_delete_def min_absorb1)
  next
    case False
    have rd: "rd_block (pkt_buff p) (bfsz_index p) (length ?d) = Some ?d"
      using p by (simp add: rd_block_def)
    let ?mem = "take pos mem @ ?d @ drop (pos + length ?d) mem"
    have bl: "blit mem pos ?d = Some ?mem"
      using False Cons.prems(2,3) by (subst blit_at) simp_all
    have len: "pos + length ?d < len" "len \<le> length ?mem" using False Cons.prems by simp_all
    have ok: "\<forall>p\<in>set rlist. pkt_ok p" using Cons.prems(1) by simp
    from Cons.IH [OF ok len] obtain rlist' where r: "recvpkt_get_loop rlist ?mem len (pos + length ?d)
      = Some (pos + length ?d + min (len - (pos + length ?d)) (length (unread rlist)),
          take (pos + length ?d) ?mem @ take (len - (pos + length ?d)) (unread rlist)
            @ drop (pos + length ?d + min (len - (pos + length ?d)) (length (unread rlist))) ?mem, rlist')"
      "unread rlist' = drop (len - (pos + length ?d)) (unread rlist)" "\<forall>p\<in>set rlist'. pkt_ok p" by blast
    have t: "take (pos + length ?d) ?mem = take pos mem @ ?d" using False Cons.prems(2,3) by simp
    have dr: "drop (pos + length ?d + k) ?mem = drop (pos + length ?d + k) mem" for k
      using False Cons.prems(2,3) by (simp add: ac_simps)
    have "recvpkt_get_loop (p # rlist) mem len pos = recvpkt_get_loop rlist ?mem len (pos + length ?d)"
      using False p rd bl by (simp add: Let_def)
    with r False Cons.prems(2) show ?thesis
      by (simp only: r(1) t dr) (auto simp: min_def add.assoc)
  qed
qed simp

lemma get_stream:
  assumes "\<forall>p\<in>set rlist. pkt_ok p" and "0 < len" and "len \<le> length mem"
  shows "\<exists>rlist'. at_recvpkt_get rlist mem len
      = Some (min len (length (unread rlist)),
          take len (unread rlist) @ drop (min len (length (unread rlist))) mem, rlist')
    \<and> unread rlist' = drop len (unread rlist) \<and> (\<forall>p\<in>set rlist'. pkt_ok p)"
  using get_loop_stream [OF assms] by (auto simp: at_recvpkt_get_def)

section \<open>Changes of the events\<close>

text \<open>Changes of the event counters only.\<close>

definition only_events :: "(at_sock \<Rightarrow> at_sock) \<Rightarrow> bool" where
  "only_events f \<longleftrightarrow> (\<forall>sk. sk_magic (f sk) = sk_magic sk \<and> sk_socket (f sk) = sk_socket sk \<and> sk_type (f sk) = sk_type sk
     \<and> sk_state (f sk) = sk_state sk \<and> recv_notice (f sk) = recv_notice sk \<and> recv_lock (f sk) = recv_lock sk
     \<and> recvpkt_list (f sk) = recvpkt_list sk \<and> recv_timeout (f sk) = recv_timeout sk
     \<and> send_timeout (f sk) = send_timeout sk \<and> sk_user_data (f sk) = sk_user_data sk)"

lemma only_events_ops: "only_events (at_do_event_changes e b)" "only_events (at_do_event_clean e)"
  "only_events f \<Longrightarrow> only_events g \<Longrightarrow> only_events (\<lambda>sk. f (g sk))"
  by (cases e; simp add: only_events_def)+

lemma recv_exit_events:
  assumes "i < length (sockets n)"
  shows "\<exists>f. only_events f \<and> recv_exit i r k n
    = ((if 0 < k then int k else r), (upd_sock i f n)\<lparr>at_errno := if 0 < k then 0 else at_errno n\<rparr>)"
proof (cases "0 < k")
  case True
  let ?g = "at_do_event_changes AT_EVENT_RECV False"
  let ?f = "if recvpkt_list (?g (sockets n ! i)) \<noteq> [] then at_do_event_changes AT_EVENT_RECV True else at_do_event_clean AT_EVENT_RECV"
  have "upd_sock i ?f ((upd_sock i ?g n)\<lparr>at_errno := 0\<rparr>) = (upd_sock i (\<lambda>sk. ?f (?g sk)) n)\<lparr>at_errno := 0\<rparr>"
    using assms by (simp add: upd_sock_def)
  then have "recv_exit i r k n = (int k, (upd_sock i (\<lambda>sk. ?f (?g sk)) n)\<lparr>at_errno := 0\<rparr>)"
    using True assms by (simp add: recv_exit_def Let_def split: if_splits)
  moreover have "only_events ?f"
    by (simp add: only_events_ops del: at_do_event_changes.simps at_do_event_clean.simps)
  then have "only_events (\<lambda>sk. ?f (?g sk))" by (rule only_events_ops(3) [OF _ only_events_ops(1)])
  ultimately show ?thesis using True by auto
next
  case False
  then show ?thesis using only_events_ops(1)
    by (intro exI [of _ "at_do_event_changes AT_EVENT_ERROR True"]) (simp add: recv_exit_def upd_sock_def)
qed

section \<open>Receiving on a connected socket\<close>

definition connected :: "'w at_net \<Rightarrow> int \<Rightarrow> nat \<Rightarrow> bool" where
  "connected n s i \<longleftrightarrow> at_get_socket n s = Some i \<and> i < length (sockets n) \<and> sk_magic (sockets n ! i) = AT_SOCKET_MAGIC
     \<and> recv_lock (sockets n ! i) \<and> recv_notice (sockets n ! i) \<noteq> None \<and> (\<forall>p\<in>set (recvpkt_list (sockets n ! i)). pkt_ok p)"

abbreviation received :: "'w at_net \<Rightarrow> nat \<Rightarrow> bytes" where
  "received n i \<equiv> unread (recvpkt_list (sockets n ! i))"

lemma connected_events:
  assumes "connected n s i" and "only_events f"
  shows "connected ((upd_sock i f n)\<lparr>at_errno := e\<rparr>) s i"
    and "received ((upd_sock i f n)\<lparr>at_errno := e\<rparr>) i = received n i"
    and "sk_state (sockets ((upd_sock i f n)\<lparr>at_errno := e\<rparr>) ! i) = sk_state (sockets n ! i)"
    and "recv_notice (sockets ((upd_sock i f n)\<lparr>at_errno := e\<rparr>) ! i) = recv_notice (sockets n ! i)"
  using assms get_socket_upd [of f i n s] by (simp_all add: connected_def only_events_def)

lemma get_locked_connected:
  assumes "connected n s i" and "0 < len" and "len \<le> length mem"
  shows "\<exists>n'. get_locked i mem len n = Some (min len (length (received n i)),
      take len (received n i) @ drop (min len (length (received n i))) mem, n')
    \<and> connected n' s i \<and> received n' i = drop len (received n i) \<and> world n' = world n
    \<and> sk_state (sockets n' ! i) = sk_state (sockets n ! i) \<and> recv_notice (sockets n' ! i) = recv_notice (sockets n ! i)
    \<and> at_errno n' = at_errno n"
proof -
  have ok: "\<forall>p\<in>set (recvpkt_list (sockets n ! i)). pkt_ok p" and c: "recv_lock (sockets n ! i)" "i < length (sockets n)"
    using assms(1) by (simp_all add: connected_def)
  from get_stream [OF ok assms(2,3)] obtain rl where rl: "at_recvpkt_get (recvpkt_list (sockets n ! i)) mem len
      = Some (min len (length (received n i)), take len (received n i) @ drop (min len (length (received n i))) mem, rl)"
    "unread rl = drop len (received n i)" "\<forall>p\<in>set rl. pkt_ok p" by blast
  let ?n = "upd_sock i (\<lambda>sk. sk\<lparr>recvpkt_list := rl\<rparr>) n"
  have "connected ?n s i"
    using assms(1) rl(3) by (simp add: connected_def get_socket_upd)
  with rl c show ?thesis by (auto simp: get_locked_def)
qed

text \<open>Data that has arrived is given at once.\<close>

lemma recv_data:
  assumes c: "connected n s i" and len: "0 < len" "len \<le> length mem" and ne: "received n i \<noteq> []"
  shows "\<exists>n'. at_recv ops s (Some mem) len dw n = Some (int (min len (length (received n i))),
      Some (take len (received n i) @ drop (min len (length (received n i))) mem), n')
    \<and> connected n' s i \<and> received n' i = drop len (received n i) \<and> world n' = world n
    \<and> sk_state (sockets n' ! i) = sk_state (sockets n ! i) \<and> recv_notice (sockets n' ! i) = recv_notice (sockets n ! i)"
proof -
  from get_locked_connected [OF c len] obtain n1 where n1: "get_locked i mem len n = Some (min len (length (received n i)),
      take len (received n i) @ drop (min len (length (received n i))) mem, n1)"
    "connected n1 s i" "received n1 i = drop len (received n i)" "world n1 = world n"
    "sk_state (sockets n1 ! i) = sk_state (sockets n ! i)" "recv_notice (sockets n1 ! i) = recv_notice (sockets n ! i)" by blast
  have k: "0 < min len (length (received n i))" using len ne by simp
  have "i < length (sockets n1)" using n1(2) by (simp add: connected_def)
  from recv_exit_events [OF this, of 0 "min len (length (received n i))"] k obtain f where f: "only_events f"
    "recv_exit i 0 (min len (length (received n i))) n1 = (int (min len (length (received n i))), (upd_sock i f n1)\<lparr>at_errno := 0\<rparr>)"
    by (auto simp only: if_True)
  have g: "at_get_socket n s = Some i" using c by (simp add: connected_def)
  have "at_recv ops s (Some mem) len dw n = Some (int (min len (length (received n i))),
      Some (take len (received n i) @ drop (min len (length (received n i))) mem), (upd_sock i f n1)\<lparr>at_errno := 0\<rparr>)"
    using len k g n1(1) f(2) by (simp add: at_recv_def at_recvfrom_def udp_connect_def)
  with connected_events [OF n1(2) f(1)] n1 show ?thesis by auto
qed

text \<open>Without data: 0 from a closed connection, and an error when a notice is left over.\<close>

lemma recv_nothing:
  assumes c: "connected n s i" and len: "0 < len" "len \<le> length mem" and e: "received n i = []"
    and r: "sk_state (sockets n ! i) = AT_SOCKET_CLOSED \<and> r = 0
      \<or> sk_state (sockets n ! i) = AT_SOCKET_CONNECT \<and> \<not> dw \<and> recv_notice (sockets n ! i) = Some (Suc v) \<and> r = - 1"
  shows "\<exists>n'. at_recv ops s (Some mem) len dw n = Some (r, Some mem, n')
    \<and> connected n' s i \<and> received n' i = [] \<and> world n' = world n \<and> sk_state (sockets n' ! i) = sk_state (sockets n ! i)
    \<and> (r = - 1 \<longrightarrow> at_errno n' = EIO)"
proof -
  from get_locked_connected [OF c len] e obtain n1 where n1: "get_locked i mem len n = Some (0, mem, n1)"
    "connected n1 s i" "received n1 i = []" "world n1 = world n"
    "sk_state (sockets n1 ! i) = sk_state (sockets n ! i)" "recv_notice (sockets n1 ! i) = recv_notice (sockets n ! i)" by auto
  have g: "at_get_socket n s = Some i" using c by (simp add: connected_def)
  show ?thesis
  proof (cases "sk_state (sockets n ! i) = AT_SOCKET_CLOSED")
    case True
    have "i < length (sockets n1)" using n1(2) by (simp add: connected_def)
    from recv_exit_events [OF this, of 0 0] obtain f where f: "only_events f"
      "recv_exit i 0 0 n1 = (0, (upd_sock i f n1)\<lparr>at_errno := at_errno n1\<rparr>)" by auto
    have "at_recv ops s (Some mem) len dw n = Some (0, Some mem, (upd_sock i f n1)\<lparr>at_errno := at_errno n1\<rparr>)"
      using len g n1 f(2) True by (simp add: at_recv_def at_recvfrom_def udp_connect_def)
    with connected_events [OF n1(2) f(1)] n1 r True show ?thesis by auto
  next
    case False
    with r have r: "sk_state (sockets n ! i) = AT_SOCKET_CONNECT" "\<not> dw" "recv_notice (sockets n ! i) = Some (Suc v)" "r = - 1"
      by simp_all
    let ?n2 = "upd_sock i (\<lambda>sk. sk\<lparr>recv_notice := Some v\<rparr>) n1"
    have t: "take_recv_notice ops i timeout n1 = Some (True, ?n2)" for timeout
      using n1(6) r(3) by (simp add: take_recv_notice_def)
    have c2: "connected ?n2 s i" "received ?n2 i = []" "sk_state (sockets ?n2 ! i) = AT_SOCKET_CONNECT"
      using n1 r(1) get_socket_upd [of "\<lambda>sk. sk\<lparr>recv_notice := Some v\<rparr>" i n1 s] by (simp_all add: connected_def)
    from get_locked_connected [OF c2(1) len] c2 obtain n3 where n3: "get_locked i mem len ?n2 = Some (0, mem, n3)"
      "connected n3 s i" "received n3 i = []" "world n3 = world n1" "sk_state (sockets n3 ! i) = AT_SOCKET_CONNECT" by auto
    let ?n4 = "n3\<lparr>at_errno := EIO\<rparr>"
    have c4: "connected ?n4 s i" using n3(2) by (simp add: connected_def)
    then have "i < length (sockets ?n4)" by (simp add: connected_def)
    from recv_exit_events [OF this, of "- 1" 0] obtain f where f: "only_events f"
      "recv_exit i (- 1) 0 ?n4 = (- 1, (upd_sock i f ?n4)\<lparr>at_errno := EIO\<rparr>)" by auto
    have "at_recv ops s (Some mem) len dw n = Some (- 1, Some mem, (upd_sock i f ?n4)\<lparr>at_errno := EIO\<rparr>)"
      using len g n1 n3 f(2) r t by (simp add: at_recv_def at_recvfrom_def udp_connect_def recv_blocking_def)
    with connected_events [OF c4 f(1), of EIO] n1 n3 r show ?thesis by auto
  qed
qed

section \<open>Notices\<close>

lemma notice_recv:
  assumes c: "connected n s i" and st: "sk_state (sockets n ! i) \<noteq> AT_SOCKET_CLOSED"
    and mem: "op_alloc ops (world n) = (True, w)"
  shows "\<exists>n'. at_recv_notice_cb ops i buff n = Some n' \<and> connected n' s i \<and> received n' i = received n i @ buff
    \<and> sk_state (sockets n' ! i) = sk_state (sockets n ! i) \<and> world n' = w
    \<and> recv_notice (sockets n' ! i) = map_option sem_release (recv_notice (sockets n ! i))
    \<and> recv_timeout (sockets n' ! i) = recv_timeout (sockets n ! i)"
proof -
  let ?sk = "sockets n ! i"
  from c obtain v where v: "recv_notice ?sk = Some v" "sk_magic ?sk = AT_SOCKET_MAGIC" "recv_lock ?sk" "i < length (sockets n)"
    by (auto simp: connected_def)
  let ?f = "\<lambda>sk. at_do_event_changes AT_EVENT_RECV True (sk\<lparr>recvpkt_list := recvpkt_list ?sk @
      [\<lparr>bfsz_totle = length buff, bfsz_index = 0, pkt_buff = buff\<rparr>], recv_notice := Some (sem_release v)\<rparr>)"
  have "at_recv_notice_cb ops i buff n = Some (upd_sock i ?f (n\<lparr>world := w\<rparr>))"
    using v st mem by (simp add: at_recv_notice_cb_def on_world_def at_recvpkt_put_def)
  moreover have "at_get_socket (upd_sock i ?f (n\<lparr>world := w\<rparr>)) s = Some i"
    using get_socket_upd [of ?f i "n\<lparr>world := w\<rparr>" s] c by (simp add: connected_def)
  ultimately show ?thesis using v c by (simp add: connected_def pkt_ok_def)
qed

lemma notice_closed:
  assumes c: "connected n s i"
  shows "\<exists>n'. at_closed_notice_cb i n = Some n' \<and> connected n' s i \<and> received n' i = received n i
    \<and> sk_state (sockets n' ! i) = AT_SOCKET_CLOSED \<and> world n' = world n
    \<and> recv_notice (sockets n' ! i) = map_option sem_release (recv_notice (sockets n ! i))
    \<and> recv_timeout (sockets n' ! i) = recv_timeout (sockets n ! i)"
proof -
  let ?sk = "sockets n ! i"
  from c obtain v where v: "recv_notice ?sk = Some v" "sk_magic ?sk = AT_SOCKET_MAGIC" "i < length (sockets n)"
    by (auto simp: connected_def)
  let ?f = "\<lambda>sk. (at_do_event_changes AT_EVENT_ERROR True (at_do_event_changes AT_EVENT_RECV True sk))
      \<lparr>sk_state := AT_SOCKET_CLOSED, recv_notice := Some (sem_release v)\<rparr>"
  have "at_closed_notice_cb i n = Some (upd_sock i ?f n)"
    using v by (simp add: at_closed_notice_cb_def)
  with get_socket_upd [of ?f i n s] v c show ?thesis by (simp add: connected_def)
qed

section \<open>The stream a socket implements\<close>

text \<open>
  The specification. What comes from the peer is a segment or its close; a receive call names the bytes
  it asks for and what arrives should it wait. The state is what is unread, whether the peer has closed,
  how many notices are left over, and, to say what is lost, all that arrived before the close.
\<close>

datatype arrival = Segment bytes | Hang_Up

datatype stream_op = Event arrival | Recv_Call nat "arrival list"

record stream =
  pending :: bytes
  hung_up :: bool
  left_over :: nat
  arrived :: bytes

type_synonym recv_log = "(int \<times> bytes) list"

fun arrive :: "arrival \<Rightarrow> stream \<Rightarrow> stream" where
  "arrive (Segment bs) st =
     (if hung_up st then st
      else st\<lparr>pending := pending st @ bs, left_over := sem_release (left_over st), arrived := arrived st @ bs\<rparr>)"
| "arrive Hang_Up st = st\<lparr>hung_up := True, left_over := sem_release (left_over st)\<rparr>"

definition stream_take :: "nat \<Rightarrow> stream \<Rightarrow> (int \<times> bytes) \<times> stream" where
  "stream_take k st = ((int (min k (length (pending st))), take k (pending st)), st\<lparr>pending := drop k (pending st)\<rparr>)"

text \<open>
  What is there is given at once. Without data, a closed stream gives 0. An open one needs a notice: one
  that is left over, or one of those that arrive while the call waits; without any it blocks (\<open>None\<close>), or
  gives -1 when the time is limited. The notice is taken, and then there is data, or the call gives -1.
\<close>

definition stream_recv :: "bool \<Rightarrow> nat \<Rightarrow> arrival list \<Rightarrow> stream \<Rightarrow> ((int \<times> bytes) \<times> stream) option" where
  "stream_recv limited k evs st =
     (if k = 0 then Some ((- 1, []), st)
      else if pending st \<noteq> [] then Some (stream_take k st)
      else if hung_up st then Some ((0, []), st)
      else let st = (if left_over st = 0 then fold arrive evs st else st) in
      if left_over st = 0 then (if limited then Some ((- 1, []), st) else None)
      else let st = st\<lparr>left_over := left_over st - 1\<rparr> in
      Some (if pending st \<noteq> [] then stream_take k st else ((- 1, []), st)))"

fun stream_step :: "bool \<Rightarrow> stream_op \<Rightarrow> stream \<times> recv_log \<Rightarrow> (stream \<times> recv_log) option" where
  "stream_step limited (Event e) (st, log) = Some (arrive e st, log)"
| "stream_step limited (Recv_Call k evs) (st, log) =
     map_option (\<lambda>(r, st). (st, log @ [r])) (stream_recv limited k evs st)"

section \<open>The socket as a stream\<close>

fun notice_of :: "nat \<Rightarrow> arrival \<Rightarrow> at_notice" where
  "notice_of i (Segment bs) = Notice_Recv i bs"
| "notice_of i Hang_Up = Notice_Closed i"

definition recv_call :: "'w at_ops \<Rightarrow> int \<Rightarrow> nat \<Rightarrow> 'w at_net \<Rightarrow> ((int \<times> bytes) \<times> 'w at_net) option" where
  "recv_call ops s k n =
     (case at_recv ops s (Some (replicate k 0)) k False n of
        Some (r, Some mem, n) \<Rightarrow> Some ((r, take (nat r) mem), n) | _ \<Rightarrow> None)"

lemma recv_call_data:
  assumes "connected n s i" and "0 < k" and "received n i \<noteq> []"
  shows "\<exists>n'. recv_call ops s k n = Some ((int (min k (length (received n i))), take k (received n i)), n')
    \<and> connected n' s i \<and> received n' i = drop k (received n i) \<and> sk_state (sockets n' ! i) = sk_state (sockets n ! i)
    \<and> recv_notice (sockets n' ! i) = recv_notice (sockets n ! i) \<and> world n' = world n"
  using recv_data [OF assms(1,2) _ assms(3), of "replicate k 0" ops False] by (auto simp: recv_call_def min_def)

text \<open>The device during a call: should the call wait, these notices arrive.\<close>

definition meanwhile :: "nat \<Rightarrow> arrival list \<Rightarrow> 'w at_ops \<Rightarrow> 'w at_ops" where
  "meanwhile i evs ops = ops\<lparr>op_wait := (\<lambda>_ _ w. (map (notice_of i) evs, w))\<rparr>"

fun at_step :: "'w at_ops \<Rightarrow> int \<Rightarrow> nat \<Rightarrow> stream_op \<Rightarrow> 'w at_net \<times> recv_log \<Rightarrow> ('w at_net \<times> recv_log) option" where
  "at_step ops s i (Event e) (n, log) = map_option (\<lambda>n. (n, log)) (notices ops [notice_of i e] n)"
| "at_step ops s i (Recv_Call k evs) (n, log) =
     map_option (\<lambda>(r, n). (n, log @ [r])) (recv_call (meanwhile i evs ops) s k n)"

definition mem_ok :: "'w at_ops \<Rightarrow> bool" where
  "mem_ok ops \<longleftrightarrow> (\<forall>w. fst (op_alloc ops w))"

definition stream_at :: "int \<Rightarrow> nat \<Rightarrow> bool \<Rightarrow> 'w at_net \<Rightarrow> stream \<Rightarrow> bool" where
  "stream_at s i limited n st \<longleftrightarrow> connected n s i \<and> received n i = pending st
     \<and> sk_state (sockets n ! i) = (if hung_up st then AT_SOCKET_CLOSED else AT_SOCKET_CONNECT)
     \<and> recv_notice (sockets n ! i) = Some (left_over st) \<and> (limited \<longleftrightarrow> recv_timeout (sockets n ! i) \<noteq> 0)"

lemma stream_atD:
  assumes "stream_at s i limited n st"
  shows "at_get_socket n s = Some i" "i < length (sockets n)" "connected n s i" "received n i = pending st"
    "sk_state (sockets n ! i) = (if hung_up st then AT_SOCKET_CLOSED else AT_SOCKET_CONNECT)"
    "recv_notice (sockets n ! i) = Some (left_over st)" "timeout_of (recv_timeout (sockets n ! i)) = None \<longleftrightarrow> \<not> limited"
  using assms by (auto simp: stream_at_def connected_def timeout_of_def)

lemma stream_same: "pending st = [] \<Longrightarrow> st\<lparr>pending := []\<rparr> = st" "left_over st = 0 \<Longrightarrow> st\<lparr>left_over := 0\<rparr> = st"
  by (cases st; simp)+

lemma stream_at_errno [simp]: "stream_at s i limited (n\<lparr>at_errno := e\<rparr>) st = stream_at s i limited n st"
  by (simp add: stream_at_def connected_def)

lemma stream_at_notice_taken:
  "stream_at s i limited n st \<Longrightarrow> stream_at s i limited (upd_sock i (\<lambda>sk. sk\<lparr>recv_notice := Some v\<rparr>) n) (st\<lparr>left_over := v\<rparr>)"
  using get_socket_upd [of "\<lambda>sk. sk\<lparr>recv_notice := Some v\<rparr>" i n s] by (simp add: stream_at_def connected_def)

lemma stream_at_locked:
  assumes at: "stream_at s i limited n st" and len: "0 < k" "k \<le> length mem"
  shows "\<exists>n'. get_locked i mem k n = Some (min k (length (pending st)),
      take k (pending st) @ drop (min k (length (pending st))) mem, n')
    \<and> stream_at s i limited n' (st\<lparr>pending := drop k (pending st)\<rparr>)"
proof -
  have ok: "\<forall>p\<in>set (recvpkt_list (sockets n ! i)). pkt_ok p" and l: "recv_lock (sockets n ! i)"
    using at by (simp_all add: stream_at_def connected_def)
  from get_stream [OF ok len] stream_atD(4) [OF at] obtain rl where rl:
    "at_recvpkt_get (recvpkt_list (sockets n ! i)) mem k = Some (min k (length (pending st)),
      take k (pending st) @ drop (min k (length (pending st))) mem, rl)"
    "unread rl = drop k (pending st)" "\<forall>p\<in>set rl. pkt_ok p" by auto
  have "stream_at s i limited (upd_sock i (\<lambda>sk. sk\<lparr>recvpkt_list := rl\<rparr>) n) (st\<lparr>pending := drop k (pending st)\<rparr>)"
    using at rl(2,3) get_socket_upd [of "\<lambda>sk. sk\<lparr>recvpkt_list := rl\<rparr>" i n s] by (simp add: stream_at_def connected_def)
  with rl(1) l show ?thesis by (simp add: get_locked_def)
qed

lemma stream_at_exit:
  assumes "stream_at s i limited n st"
  shows "\<exists>n'. recv_exit i r k n = ((if 0 < k then int k else r), n') \<and> stream_at s i limited n' st"
proof -
  from recv_exit_events [OF stream_atD(2) [OF assms], of r k] obtain f where f: "only_events f"
    "recv_exit i r k n = ((if 0 < k then int k else r), (upd_sock i f n)\<lparr>at_errno := if 0 < k then 0 else at_errno n\<rparr>)" by blast
  have "stream_at s i limited (upd_sock i f n) st"
    using assms f(1) get_socket_upd [of f i n s] by (simp add: stream_at_def connected_def only_events_def)
  with f(2) show ?thesis by simp
qed

lemma stream_at_arrive:
  assumes at: "stream_at s i limited n st" and mem: "mem_ok ops"
  shows "\<exists>n'. notices ops (notice_of i e # ns) n = notices ops ns n' \<and> stream_at s i limited n' (arrive e st)"
proof (cases e)
  case (Segment bs)
  show ?thesis
  proof (cases "hung_up st")
    case True
    then have "at_recv_notice_cb ops i bs n = Some n"
      using at by (simp add: at_recv_notice_cb_def stream_at_def connected_def)
    with at True Segment show ?thesis by auto
  next
    case False
    obtain w where w: "op_alloc ops (world n) = (True, w)" using mem unfolding mem_ok_def by (metis prod.collapse)
    have "sk_state (sockets n ! i) \<noteq> AT_SOCKET_CLOSED" using at False by (simp add: stream_at_def)
    from notice_recv [OF stream_atD(3) [OF at] this w, of bs] at False obtain n' where
      "at_recv_notice_cb ops i bs n = Some n'" "stream_at s i limited n' (arrive e st)"
      by (auto simp: stream_at_def Segment)
    with Segment show ?thesis by auto
  qed
next
  case Hang_Up
  from notice_closed [OF stream_atD(3) [OF at]] at obtain n' where
    "at_closed_notice_cb i n = Some n'" "stream_at s i limited n' (arrive e st)" by (auto simp: stream_at_def Hang_Up)
  with Hang_Up show ?thesis by auto
qed

lemma stream_at_arrivals:
  "stream_at s i limited n st \<Longrightarrow> mem_ok ops \<Longrightarrow>
     \<exists>n'. notices ops (map (notice_of i) evs) n = Some n' \<and> stream_at s i limited n' (fold arrive evs st)"
proof (induction evs arbitrary: n st)
  case (Cons e evs)
  from stream_at_arrive [OF Cons.prems, of e "map (notice_of i) evs"] obtain n1 where n1:
    "notices ops (map (notice_of i) (e # evs)) n = notices ops (map (notice_of i) evs) n1"
    "stream_at s i limited n1 (arrive e st)" by auto
  from Cons.IH [OF n1(2) Cons.prems(2)] n1(1) show ?case by auto
qed simp

text \<open>The wait: with or without a notice left over.\<close>

lemma notices_meanwhile: "notices (meanwhile i evs ops) ns n = notices ops ns n"
proof (induction ns arbitrary: n)
  case (Cons e ns)
  have "op_alloc (meanwhile i evs ops) = op_alloc ops" by (simp add: meanwhile_def)
  then have "at_recv_notice_cb (meanwhile i evs ops) j bs n = at_recv_notice_cb ops j bs n" for j bs
    unfolding at_recv_notice_cb_def by (simp only:)
  moreover have "notices (meanwhile i evs ops) ns = notices ops ns" by (rule ext) (rule Cons.IH)
  ultimately show ?case by (cases e) simp_all
qed simp

lemma stream_at_wait:
  assumes at: "stream_at s i limited n st" and mem: "mem_ok ops"
    and st': "st' = (if left_over st = 0 then fold arrive evs st else st)"
  shows "take_recv_notice (meanwhile i evs ops) i (timeout_of (recv_timeout (sockets n ! i))) n = None \<and> left_over st' = 0 \<and> \<not> limited
    \<or> (\<exists>n'. take_recv_notice (meanwhile i evs ops) i (timeout_of (recv_timeout (sockets n ! i))) n = Some (left_over st' \<noteq> 0, n')
        \<and> (left_over st' = 0 \<longrightarrow> limited) \<and> stream_at s i limited n' (st'\<lparr>left_over := left_over st' - 1\<rparr>))"
proof (cases "left_over st")
  case (Suc v)
  then have "take_recv_notice (meanwhile i evs ops) i (timeout_of (recv_timeout (sockets n ! i))) n
      = Some (True, upd_sock i (\<lambda>sk. sk\<lparr>recv_notice := Some v\<rparr>) n)"
    using stream_atD(6) [OF at] by (simp add: take_recv_notice_def)
  with stream_at_notice_taken [OF at, of v] Suc st' show ?thesis by simp
next
  case 0
  have w: "on_world (op_wait (meanwhile i evs ops) i timeout) n = (map (notice_of i) evs, n)" for timeout
    by (cases n) (simp add: on_world_def meanwhile_def)
  from stream_at_arrivals [OF at mem, of evs] 0 st' obtain n1 where n1:
    "notices ops (map (notice_of i) evs) n = Some n1" "stream_at s i limited n1 st'" by auto
  show ?thesis
  proof (cases "left_over st'")
    case (Suc v)
    with n1 0 stream_atD(6) [OF at] stream_atD(6) [OF n1(2)] w stream_at_notice_taken [OF n1(2), of v]
    show ?thesis by (simp add: take_recv_notice_def notices_meanwhile)
  next
    case None: 0
    then have "stream_at s i limited n1 (st'\<lparr>left_over := left_over st' - 1\<rparr>)" using n1(2) by (simp add: stream_same)
    with n1(1) 0 None stream_atD(6) [OF at] stream_atD(6) [OF n1(2)] stream_atD(7) [OF at] w show ?thesis
      by (auto simp add: take_recv_notice_def notices_meanwhile)
  qed
qed

text \<open>One receive call.\<close>

lemma recv_call_stream:
  assumes at: "stream_at s i limited n st" and mem: "mem_ok ops"
  shows "case stream_recv limited k evs st of
      None \<Rightarrow> recv_call (meanwhile i evs ops) s k n = None
    | Some (r, st') \<Rightarrow> \<exists>n'. recv_call (meanwhile i evs ops) s k n = Some (r, n') \<and> stream_at s i limited n' st'"
proof (cases "k = 0")
  case True
  with at show ?thesis by (auto simp: stream_recv_def recv_call_def at_recv_def at_recvfrom_def)
next
  case False
  let ?ops = "meanwhile i evs ops" and ?mem = "replicate k (0 :: u8)"
  note g = stream_atD(1) [OF at]
  have k: "0 < k" "k \<le> length ?mem" using False by simp_all
  have len: "k \<le> length (take k (pending u) @ drop (min k (length (pending u))) ?mem)" for u by simp
  from stream_at_locked [OF at k] obtain n1 where n1: "get_locked i ?mem k n = Some (min k (length (pending st)),
      take k (pending st) @ drop (min k (length (pending st))) ?mem, n1)"
    "stream_at s i limited n1 (st\<lparr>pending := drop k (pending st)\<rparr>)" by blast
  consider (data) "pending st \<noteq> []" | (closed) "pending st = []" "hung_up st" | (live) "pending st = []" "\<not> hung_up st"
    by blast
  then show ?thesis
  proof cases
    case data
    then have p: "0 < min k (length (pending st))" using k by simp
    from stream_at_exit [OF n1(2), of 0 "min k (length (pending st))"] p obtain n2 where n2:
      "recv_exit i 0 (min k (length (pending st))) n1 = (int (min k (length (pending st))), n2)"
      "stream_at s i limited n2 (st\<lparr>pending := drop k (pending st)\<rparr>)" by auto
    have "recv_call ?ops s k n = Some ((int (min k (length (pending st))), take k (pending st)), n2)"
      using p k g n1(1) n2(1) by (simp add: recv_call_def at_recv_def at_recvfrom_def udp_connect_def min_def)
    with n2(2) data False show ?thesis by (simp add: stream_recv_def stream_take_def)
  next
    case closed
    then have n1': "get_locked i ?mem k n = Some (0, ?mem, n1)" "stream_at s i limited n1 st" using n1 by (simp_all add: stream_same)
    from stream_at_exit [OF n1'(2), of 0 0] obtain n2 where n2: "recv_exit i 0 0 n1 = (0, n2)" "stream_at s i limited n2 st" by auto
    have "sk_state (sockets n1 ! i) = AT_SOCKET_CLOSED" using stream_atD(5) [OF n1'(2)] closed by simp
    then have "recv_call ?ops s k n = Some ((0, []), n2)"
      using k g n1'(1) n2(1) by (simp add: recv_call_def at_recv_def at_recvfrom_def udp_connect_def)
    with n2(2) closed False show ?thesis by (simp add: stream_recv_def)
  next
    case live
    then have n1': "get_locked i ?mem k n = Some (0, ?mem, n1)" "stream_at s i limited n1 st" using n1 by (simp_all add: stream_same)
    define st1 where "st1 = (if left_over st = 0 then fold arrive evs st else st)"
    have state: "sk_state (sockets n1 ! i) = AT_SOCKET_CONNECT" using stream_atD(5) [OF n1'(2)] live by simp
    have call: "recv_call ?ops s k n = map_option (\<lambda>(r, mem, n). ((r, take (nat r) mem), n))
      (do { (result, recv_len, mem, n) \<leftarrow> recv_blocking ?ops i ?mem k n1;
            case recv_exit i result recv_len n of (result, n) \<Rightarrow> Some (result, mem, n) })"
      using k g n1'(1) state
      by (auto simp: recv_call_def at_recv_def at_recvfrom_def udp_connect_def split: option.split bind_split prod.splits)
    have recv: "stream_recv limited k evs st = (if left_over st1 = 0 then (if limited then Some ((- 1, []), st1) else None)
        else let st = st1\<lparr>left_over := left_over st1 - 1\<rparr> in
        Some (if pending st \<noteq> [] then stream_take k st else ((- 1, []), st)))"
      using live False by (simp add: stream_recv_def st1_def Let_def)
    let ?taken = "take_recv_notice ?ops i (timeout_of (recv_timeout (sockets n1 ! i))) n1"
      and ?st2 = "st1\<lparr>left_over := left_over st1 - 1\<rparr>"
    from stream_at_wait [OF n1'(2) mem st1_def] consider (blocks) "?taken = None" "left_over st1 = 0" "\<not> limited"
      | (late) n2 where "?taken = Some (False, n2)" "left_over st1 = 0" "limited" "stream_at s i limited n2 st1"
      | (taken) n2 where "?taken = Some (True, n2)" "left_over st1 \<noteq> 0" "stream_at s i limited n2 ?st2"
      by (cases "left_over st1 = 0") (auto simp: stream_same)
    then show ?thesis
    proof cases
      case blocks
      then show ?thesis unfolding call recv by (simp add: recv_blocking_def)
    next
      case late
      then have "stream_at s i limited (n2\<lparr>at_errno := EAGAIN\<rparr>) st1" by simp
      from stream_at_exit [OF this, of "- 1" 0] late show ?thesis unfolding call recv by (auto simp: recv_blocking_def)
    next
      case taken
      from stream_at_locked [OF taken(3) k] obtain n3 where n3: "get_locked i ?mem k n2 = Some (min k (length (pending ?st2)),
          take k (pending ?st2) @ drop (min k (length (pending ?st2))) ?mem, n3)"
        "stream_at s i limited n3 (?st2\<lparr>pending := drop k (pending ?st2)\<rparr>)" by blast
      show ?thesis
      proof (cases "pending st1 = []")
        case True
        then have "?st2\<lparr>pending := drop k (pending ?st2)\<rparr> = ?st2" by (cases st1) simp
        then have "stream_at s i limited (n3\<lparr>at_errno := EIO\<rparr>) ?st2" using n3(2) by (simp only: stream_at_errno)
        from stream_at_exit [OF this, of "- 1" 0] taken n3(1) True show ?thesis
          unfolding call recv by (auto simp: recv_blocking_def Let_def)
      next
        case False
        then have p: "0 < min k (length (pending st1))" using k by simp
        from stream_at_exit [OF n3(2), of 0 "min k (length (pending st1))"] p obtain n4 where
          "recv_exit i 0 (min k (length (pending st1))) n3 = (int (min k (length (pending st1))), n4)"
          "stream_at s i limited n4 (?st2\<lparr>pending := drop k (pending ?st2)\<rparr>)" by auto
        with taken n3(1) False p show ?thesis
          unfolding call recv by (simp add: recv_blocking_def Let_def stream_take_def min_def)
      qed
    qed
  qed
qed

fun stream_rel :: "'w at_ops \<Rightarrow> int \<Rightarrow> nat \<Rightarrow> bool \<Rightarrow> 'w at_net \<times> recv_log \<Rightarrow> stream \<times> recv_log \<Rightarrow> bool" where
  "stream_rel ops s i limited (n, log) (st, log') \<longleftrightarrow> mem_ok ops \<and> stream_at s i limited n st \<and> log = log'"

interpretation at_stream: exact_simulation "stream_rel ops s i limited" "at_step ops s i" "stream_step limited"
  for ops s i limited
proof (unfold_locales, goal_cases)
  case (1 c a l a')
  obtain n log st where c: "c = (n, log)" "a = (st, log)" and r: "mem_ok ops" "stream_at s i limited n st"
    using 1(1) by (cases c; cases a) auto
  show ?case
  proof (cases l)
    case (Event e)
    from stream_at_arrive [OF r(2,1), where e = e and ns = "[]"] 1(2) c r Event show ?thesis by auto
  next
    case (Recv_Call k evs)
    from recv_call_stream [OF r(2,1), where k = k and evs = evs] 1(2) c r Recv_Call show ?thesis by (auto split: option.splits)
  qed
next
  case (2 c a l)
  obtain n log st where c: "c = (n, log)" "a = (st, log)" and r: "mem_ok ops" "stream_at s i limited n st"
    using 2(1) by (cases c; cases a) auto
  show ?case
  proof (cases l)
    case (Event e)
    with 2(2) c show ?thesis by simp
  next
    case (Recv_Call k evs)
    from recv_call_stream [OF r(2,1), where k = k and evs = evs] 2(2) c Recv_Call show ?thesis by (auto split: option.splits)
  qed
qed

text \<open>Nothing that arrived is lost, doubled or reordered.\<close>

definition conserved :: "stream \<times> recv_log \<Rightarrow> bool" where
  "conserved c \<longleftrightarrow> (case c of (st, log) \<Rightarrow> concat (map snd log) @ pending st = arrived st)"

lemma arrive_conserved: "conserved (st, log) \<Longrightarrow> conserved (arrive e st, log)"
  by (cases e) (simp_all add: conserved_def)

lemma arrivals_conserved: "conserved (st, log) \<Longrightarrow> conserved (fold arrive evs st, log)"
  by (induction evs arbitrary: st) (simp_all add: arrive_conserved del: arrive.simps)

lemma take_conserved:
  "conserved (st, log) \<Longrightarrow> stream_take k st = (r, st') \<Longrightarrow> conserved (st', log @ [r])"
  by (auto simp: stream_take_def conserved_def)

lemma recv_conserved:
  assumes c: "conserved (st, log)" and r: "stream_recv limited k evs st = Some (r, st')"
  shows "conserved (st', log @ [r])"
proof -
  let ?w = "if left_over st = 0 then fold arrive evs st else st"
  have w: "conserved (?w, log)" using c arrivals_conserved by simp
  have keep: "conserved (u, log @ [(x, [])])" "conserved (u\<lparr>left_over := v\<rparr>, log)" if "conserved (u, log)" for u x v
    using that by (simp_all add: conserved_def)
  show ?thesis
    using r c w unfolding stream_recv_def Let_def
    by (auto split: if_splits intro: keep take_conserved dest: sym)
qed

lemma step_conserved: "conserved c \<Longrightarrow> stream_step limited l c = Some c' \<Longrightarrow> conserved c'"
  by (cases l; cases c) (auto simp: arrive_conserved recv_conserved simp del: arrive.simps)

lemma run_conserved: "conserved c \<Longrightarrow> run_steps (stream_step limited) ls c = Some c' \<Longrightarrow> conserved c'"
proof (induction ls arbitrary: c)
  case (Cons l ls)
  from Cons.prems(2) obtain c1 where "stream_step limited l c = Some c1" "run_steps (stream_step limited) ls c1 = Some c'"
    by (auto simp: bind_eq_Some_conv)
  with Cons.IH step_conserved [OF Cons.prems(1)] show ?case by blast
qed simp

text \<open>
  C4: a connected AT socket is a byte stream, as long as the heap has memory for the segments. Whatever the order of arriving segments, the peer's close
  and \<open>at_recv\<close> calls, and whatever arrives while a call waits, the calls return exactly what the
  specification of the stream says, each of them; and where it says that a call blocks for ever, the call
  does not come back. So a call gives as much as was asked for or is there, 0 once the peer has closed and
  all is read, and -1 when it finds a notice left over without data. What the calls have given and what is
  still unread together are what arrived before the close, in order.
\<close>

theorem at_socket_is_stream:
  assumes c: "connected n s i" and conn: "sk_state (sockets n ! i) = AT_SOCKET_CONNECT"
    and v: "recv_notice (sockets n ! i) = Some v" and mem: "mem_ok ops"
    and st: "st = \<lparr> pending = received n i, hung_up = False, left_over = v, arrived = received n i \<rparr>"
    and limited: "limited \<longleftrightarrow> recv_timeout (sockets n ! i) \<noteq> 0"
  shows "case run_steps (stream_step limited) es (st, []) of
      None \<Rightarrow> run_steps (at_step ops s i) es (n, []) = None
    | Some (st', log) \<Rightarrow> (\<exists>n'. run_steps (at_step ops s i) es (n, []) = Some (n', log) \<and> received n' i = pending st')
        \<and> concat (map snd log) @ pending st' = arrived st'"
proof -
  have "stream_rel ops s i limited (n, []) (st, [])"
    using c conn v mem st limited by (simp add: stream_at_def)
  note run = at_stream.run_exact [OF this, of es]
  have "conserved (st, [])" by (simp add: conserved_def st)
  from run_conserved [OF this, of limited es] run show ?thesis
    by (auto simp: conserved_def stream_at_def split: option.splits)
qed

lemma open_net_connected: "connected open_net 0 0" "received open_net 0 = []" "mem_ok quiet_ops"
    "sk_state (sockets open_net ! 0) = AT_SOCKET_CONNECT" "recv_notice (sockets open_net ! 0) = Some 0"
    "recv_timeout (sockets open_net ! 0) = 0"
  by (simp_all add: connected_def open_net_eq at_get_socket_def mem_ok_def quiet_ops_def)

definition sample_calls :: "stream_op list" where
  "sample_calls = [Recv_Call 2 [Segment [1, 2, 3]], Event (Segment [4]), Recv_Call 5 [], Recv_Call 1 [],
     Recv_Call 1 [Segment [5, 6], Hang_Up], Recv_Call 3 [], Recv_Call 1 []]"

theorem at_socket_is_stream_witness:
  "(\<exists>n'. run_steps (at_step quiet_ops 0 0) sample_calls (open_net, [])
      = Some (n', [(2, [1, 2]), (2, [3, 4]), (- 1, []), (1, [5]), (1, [6]), (0, [])]))
    \<and> run_steps (at_step quiet_ops 0 0) [Recv_Call 2 []] (open_net, []) = None"
proof -
  let ?st = "\<lparr> pending = received open_net 0, hung_up = False, left_over = 0, arrived = received open_net 0 \<rparr>"
  have limit: "False \<longleftrightarrow> recv_timeout (sockets open_net ! 0) \<noteq> 0" using open_net_connected(6) by simp
  note main = at_socket_is_stream [OF open_net_connected(1,4,5,3) refl limit]
  have "run_steps (stream_step False) sample_calls (?st, [])
      = Some (\<lparr> pending = [], hung_up = True, left_over = 1, arrived = [1, 2, 3, 4, 5, 6] \<rparr>,
          [(2, [1, 2]), (2, [3, 4]), (- 1, []), (1, [5]), (1, [6]), (0, [])])"
    unfolding open_net_connected(2) sample_calls_def
    by (simp add: stream_recv_def stream_take_def sem_release_def Let_def)
  from main [of sample_calls, unfolded this] have
    "\<exists>n'. run_steps (at_step quiet_ops 0 0) sample_calls (open_net, [])
      = Some (n', [(2, [1, 2]), (2, [3, 4]), (- 1, []), (1, [5]), (1, [6]), (0, [])])" by auto
  moreover have "run_steps (stream_step False) [Recv_Call 2 []] (?st, []) = None"
    unfolding open_net_connected(2) by (simp add: stream_recv_def)
  from main [of "[Recv_Call 2 []]", unfolded this] have "run_steps (at_step quiet_ops 0 0) [Recv_Call 2 []] (open_net, []) = None"
    by (simp only: option.case)
  ultimately show ?thesis by (rule conjI)
qed

text \<open>
  A segment that arrives while nobody waits leaves its notice behind, because the data is taken
  on the way past the semaphore; the next \<open>at_recv\<close>, on the empty list of a connection that is open,
  does not wait for data but comes back at once with -1 and \<open>EIO\<close>.
\<close>

theorem stale_notice:
  assumes c: "connected n s i" and st: "sk_state (sockets n ! i) = AT_SOCKET_CONNECT" and e: "received n i = []"
    and v: "recv_notice (sockets n ! i) = Some 0" and mem: "mem_ok ops"
    and bs: "bs \<noteq> []" "length bs \<le> k" and k': "0 < k'"
  shows "\<exists>n1 n2 n3. at_recv_notice_cb ops i bs n = Some n1
    \<and> recv_call ops s k n1 = Some ((int (length bs), bs), n2) \<and> sk_state (sockets n2 ! i) = AT_SOCKET_CONNECT
    \<and> recv_call ops s k' n2 = Some ((- 1, []), n3) \<and> at_errno n3 = EIO \<and> world n3 = world n2"
proof -
  obtain w where w: "op_alloc ops (world n) = (True, w)"
    using mem unfolding mem_ok_def by (metis prod.collapse)
  from notice_recv [OF c _ w, of bs] st e v obtain n1 where n1: "at_recv_notice_cb ops i bs n = Some n1" "connected n1 s i"
    "received n1 i = bs" "sk_state (sockets n1 ! i) = AT_SOCKET_CONNECT" "recv_notice (sockets n1 ! i) = Some (Suc 0)"
    by (auto simp: sem_release_def)
  from bs have k: "0 < k" by (cases bs) auto
  from recv_call_data [OF n1(2) k, of ops] n1 bs obtain n2 where n2: "recv_call ops s k n1 = Some ((int (length bs), bs), n2)"
    "connected n2 s i" "received n2 i = []" "sk_state (sockets n2 ! i) = AT_SOCKET_CONNECT"
    "recv_notice (sockets n2 ! i) = Some (Suc 0)" by auto
  from recv_nothing [OF n2(2) k', of "replicate k' 0" "- 1" False 0 ops] n2 obtain n3 where
    "at_recv ops s (Some (replicate k' 0)) k' False n2 = Some (- 1, Some (replicate k' 0), n3)" "world n3 = world n2" "at_errno n3 = EIO"
    by auto
  with n1 n2 show ?thesis by (auto simp: recv_call_def)
qed

theorem stale_notice_witness:
  "\<exists>n1 n2 n3. at_recv_notice_cb quiet_ops 0 [7] open_net = Some n1 \<and> recv_call quiet_ops 0 4 n1 = Some ((1, [7]), n2)
    \<and> recv_call quiet_ops 0 1 n2 = Some ((- 1, []), n3) \<and> at_errno n3 = EIO"
  using stale_notice [OF open_net_connected(1,4,2,5,3), of "[7]" 4 1] by auto

end
