(* ===== verification/Esp8266_Frames.thy ===== *)
theory Esp8266_Frames
  imports Esp8266 At_Lines At_Stream
begin

text \<open>
  The ESP8266 driver at work: the frames the module sends reach the receive lists of their sockets, and
  what the driver writes for a send.
\<close>

section \<open>What the parser thread leaves alone\<close>

lemma same_setup_refl [simp]: "same_setup c c"
  by (simp add: same_setup_def)

lemma same_setup_rx [simp]: "same_setup c (c\<lparr>rx := r\<rparr>)"
  by (simp add: same_setup_def)

lemma obj_recv_setup: "at_client_obj_recv k c = (bs, c') \<Longrightarrow> same_setup c c'"
  by (auto simp: at_client_obj_recv_def split: prod.splits)

lemma drop_frame_setup: "same_setup c (drop_frame k c)"
proof (induction k c rule: drop_frame.induct)
  case (1 k c)
  obtain bs c1 where "at_client_obj_recv (min k 8) c = (bs, c1)" by fastforce
  with 1 obj_recv_setup [OF this] show ?case
    by (subst drop_frame.simps) (auto intro: same_setup_trans)
qed

lemma urc_call_setup:
  assumes "urc_call ops f data n (c, d) = Some (c', d')"
  shows "same_setup c c'"
proof (cases f)
  case Urc_recv_func
  with assms show ?thesis
    by (auto simp: urc_recv_func_def Let_def intro: obj_recv_setup drop_frame_setup split: prod.splits if_splits option.splits)
qed (use assms in \<open>auto simp: urc_send_func_def urc_send_bfsz_func_def urc_close_func_def urc_busy_func_def urc_wifi_func_def Let_def
  split: if_splits option.splits\<close>)

lemma readline_loop_setup: "readline_loop c n l f = Some (k, c') \<Longrightarrow> same_setup c c'"
proof (induction c n l f rule: readline_loop.induct)
  case (1 c n l f)
  from "1.prems" obtain ch r where g: "at_client_getchar (rx c) = Some (ch, r)"
    by (subst (asm) readline_loop.simps) (auto split: option.splits)
  let ?s = "if n < recv_bufsz c then (line_store ch n (c\<lparr>rx := r\<rparr>), n + 1, f) else (c\<lparr>rx := r\<rparr>, n, True)"
  obtain c1 n1 f1 where s: "?s = (c1, n1, f1)" by (cases ?s) auto
  then have s1: "same_setup c c1" by (auto simp: same_setup_def line_store_def split: if_splits)
  have "readline_loop c n l f = (if line_ends ch l c1
      then (if f1 then Some (- 3, c1\<lparr>recv_line_buf := replicate (recv_bufsz c1) 0, recv_line_len := 0\<rparr>) else Some (int n1, c1))
      else readline_loop c1 n1 ch f1)"
    using g s by (subst readline_loop.simps) (auto simp: Let_def split: if_splits)
  with "1.prems" s1 "1.IH" [OF g refl refl] s show ?case
    by (auto intro: same_setup_trans simp: same_setup_def split: if_splits)
qed

lemma readline_setup: "at_recv_readline c = Some (k, c') \<Longrightarrow> same_setup c c'"
  unfolding at_recv_readline_def by (drule readline_loop_setup) (simp add: same_setup_def)

lemma turn_setup:
  assumes "client_parser_turn (urc_call ops) (c, d) = Some (c', d')"
  shows "same_setup c c'"
proof -
  from assms obtain k c1 where r: "at_recv_readline c = Some (k, c1)"
    by (auto simp: client_parser_turn_def bind_eq_Some_conv)
  with assms have "same_setup c1 c'"
    by (auto simp: client_parser_turn_def response_line_frame intro: urc_call_setup split: if_splits option.splits)
  with readline_setup [OF r] show ?thesis by (rule same_setup_trans)
qed

lemma parser_setup: "client_parser (urc_call ops) until n (c, d) = Some (c', d') \<Longrightarrow> same_setup c c'"
proof (induction n arbitrary: c d)
  case (Suc n)
  show ?case
  proof (cases "until (c, d) \<or> at_recv_readline c = None")
    case False
    with Suc.prems obtain c1 d1 where "client_parser_turn (urc_call ops) (c, d) = Some (c1, d1)"
      "client_parser (urc_call ops) until n (c1, d1) = Some (c', d')" by (auto simp: bind_eq_Some_conv)
    then show ?thesis by (blast intro: Suc.IH turn_setup same_setup_trans)
  qed (use Suc.prems in auto)
qed simp

section \<open>Sending\<close>

text \<open>The set-up without what was written.\<close>

definition same_tables :: "'f at_client \<Rightarrow> 'f at_client \<Rightarrow> bool" where
  "same_tables c c' \<longleftrightarrow> urc_table c' = urc_table c \<and> end_sign c' = end_sign c \<and> recv_bufsz c' = recv_bufsz c
     \<and> status c' = status c"

lemma same_tables_trans: "same_tables a b \<Longrightarrow> same_tables b c \<Longrightarrow> same_tables a c"
  by (simp add: same_tables_def)

lemma exec_resp_writes:
  assumes "exec_resp ops modem r cmd (c, d) = Some (ret, r', c', d')" and "cmd \<noteq> []"
  shows "same_tables c c' \<and> (\<not> ret < 0 \<longrightarrow> tx c' = tx c @ at_vprintfln cmd)"
proof (cases "status c = AT_STATUS_CLI")
  case True
  with assms show ?thesis by (auto simp: exec_resp_def at_obj_exec_cmd_def same_tables_def)
next
  case False
  let ?c0 = "c\<lparr>resp_status := AT_RESP_OK, resp_notice := 0, response := r\<lparr>resp_buf_len := 0, line_counts := 0\<rparr>, resp := True\<rparr>"
  obtain len q d0 where m: "modem (at_vprintfln cmd) d = ((len, q), d0)" by (metis prod.exhaust)
  let ?c1 = "?c0\<lparr>tx := tx c @ at_vprintfln cmd, rx := rx c @ q\<rparr>"
  from assms False m obtain c2 d2 where
    p: "client_parser (urc_call ops) (\<lambda>(c, s). resp_notice c \<noteq> 0) (Suc (length (rx ?c1))) (?c1, d0) = Some (c2, d2)"
    and c': "c' = (if resp_notice c2 = 0 then c2\<lparr>resp_status := AT_RESP_TIMEOUT, resp := False\<rparr>
      else c2\<lparr>resp_notice := resp_notice c2 - 1, resp := False\<rparr>)"
    by (auto simp: exec_resp_def at_obj_exec_cmd_def at_utils_send_def Let_def bind_eq_Some_conv simp del: client_parser.simps
      split: if_splits)
  from parser_setup [OF p] show ?thesis by (auto simp: c' same_setup_def same_tables_def)
qed

lemma obj_send_writes:
  "at_client_obj_send modem bs (c, d) = (len, c', d') \<Longrightarrow> same_tables c c' \<and> tx c' = tx c @ bs"
  by (auto simp: at_client_obj_send_def at_utils_send_def same_tables_def split: prod.splits)

lemma event_recv_setup:
  "esp8266_socket_event_recv (urc_call ops) event (c, d) = Some (r, c', d') \<Longrightarrow> same_setup c c'"
  by (auto simp: esp8266_socket_event_recv_def bind_eq_Some_conv simp del: client_parser.simps
    split: if_splits dest: parser_setup)

text \<open>The pieces a text is sent in, and what goes over the serial line for each.\<close>

function chunks :: "bytes \<Rightarrow> bytes list" where
  "chunks bs = (if bs = [] then [] else take ESP8266_MODULE_SEND_MAX_SIZE bs # chunks (drop ESP8266_MODULE_SEND_MAX_SIZE bs))"
  by auto
termination by (relation "measure length") (auto simp: ESP8266_MODULE_SEND_MAX_SIZE_def)

declare chunks.simps [simp del]

lemma chunks_ok: "concat (chunks bs) = bs \<and> (\<forall>ch\<in>set (chunks bs). ch \<noteq> [] \<and> length ch \<le> 2048)"
proof (induction bs rule: chunks.induct)
  case (1 bs)
  then show ?case by (subst (1 2) chunks.simps) (auto simp: ESP8266_MODULE_SEND_MAX_SIZE_def)
qed

definition chunk_wire :: "int \<Rightarrow> bytes \<Rightarrow> bytes" where
  "chunk_wire ds ch = send_cmd ds (length ch) @ CRLF @ ch"

lemma length_decimal: "n < 10 ^ k \<Longrightarrow> 0 < k \<Longrightarrow> length (decimal n) \<le> k"
proof (induction n arbitrary: k rule: decimal.induct)
  case (1 n)
  show ?case
  proof (cases "n < 10")
    case True
    with "1.prems"(2) show ?thesis by (subst decimal.simps) simp
  next
    case False
    with "1.prems" obtain j where k: "k = Suc j" "0 < j" by (cases k; cases "k - 1") auto
    then have "n div 10 < 10 ^ j" using "1.prems"(1) by (simp add: less_mult_imp_div_less mult.commute)
    with "1.IH" [of j] False k show ?thesis by (subst decimal.simps) simp
  qed
qed

lemma send_cmd_line:
  assumes "0 \<le> ds" and "ds < 10" and "k \<le> 2048"
  shows "at_vprintfln (send_cmd ds k) = send_cmd ds k @ CRLF" "send_cmd ds k \<noteq> []"
proof -
  have "length (fmt_d ds) \<le> 1" "length (decimal k) \<le> 4"
    using length_decimal [of "nat ds" 1] length_decimal [of k 4] assms by (auto simp: fmt_d_def)
  then show "at_vprintfln (send_cmd ds k) = send_cmd ds k @ CRLF" "send_cmd ds k \<noteq> []"
    by (simp_all add: at_vprintfln_def send_cmd_def AT_CMD_MAX_LEN_def ascii_def)
qed

lemma send_packet_writes:
  assumes "send_packet ops modem ds r pkt (c, d) = Some (res, r', c', d')" and "0 \<le> ds" "ds < 10" and "length pkt \<le> 2048"
  shows "same_tables c c' \<and> (\<forall>len. res = Inr len \<longrightarrow> tx c' = tx c @ chunk_wire ds pkt)"
proof -
  note cmd = send_cmd_line [OF assms(2-4)]
  from assms(1) obtain ret r1 c1 d1 where
    e: "exec_resp ops modem r (send_cmd ds (length pkt)) (c, d) = Some (ret, r1, c1, d1)"
    by (auto simp: send_packet_def bind_eq_Some_conv)
  note w1 = exec_resp_writes [OF e cmd(2), unfolded cmd(1)]
  obtain len c2 d2 where o: "at_client_obj_send modem pkt (c1, d1) = (len, c2, d2)" by (metis prod.exhaust)
  note w2 = obj_send_writes [OF o]
  show ?thesis
  proof (cases "ret < 0 \<or> len = 0")
    case True
    with assms(1) e o w1 w2 show ?thesis by (auto simp: send_packet_def intro: same_tables_trans split: if_splits)
  next
    case False
    with assms(1) e o have
      m: "do { (event, cd) \<leftarrow> esp8266_socket_event_recv (urc_call ops) (SET_EVENT ds 0) (c2, d2);
         if event < 0 then Some (Inl (- 2), r1, cd)
         else do {
           (event, cd) \<leftarrow> esp8266_socket_event_recv (urc_call ops) (ESP8266_EVENT_SEND_OK OR ESP8266_EVENT_SEND_FAIL) cd;
           Some (if event < 0 then Inl (- 2)
             else if word_of_int event AND ESP8266_EVENT_SEND_FAIL \<noteq> 0 then Inl (- 1)
             else Inr (int len), r1, cd) } } = Some (res, r', c', d')"
      by (simp add: send_packet_def)
    then have "same_setup c2 c'"
      by (auto simp: bind_eq_Some_conv dest!: event_recv_setup intro: same_setup_trans split: if_splits)
    with w1 w2 False show ?thesis by (auto simp: same_tables_def same_setup_def chunk_wire_def)
  qed
qed

lemma esp_send_loop_writes:
  assumes "esp_send_loop ops modem ds r rest sent result (c, d) = Some (result', sent', c', d')" and "0 \<le> ds" "ds < 10"
  shows "same_tables c c' \<and> (0 < result' \<longrightarrow>
    sent' = sent + length rest \<and> tx c' = tx c @ concat (map (chunk_wire ds) (chunks rest)))"
  using assms
proof (induction "length rest" arbitrary: rest r sent result c d rule: less_induct)
  case less
  show ?case
  proof (cases "rest = []")
    case True
    with less.prems(1) show ?thesis by (subst (asm) esp_send_loop.simps, subst chunks.simps) (auto simp: same_tables_def)
  next
    case False
    let ?k = "min (length rest) ESP8266_MODULE_SEND_MAX_SIZE"
    from less.prems(1) False obtain res r1 c1 d1 where
      p: "send_packet ops modem ds r (take ?k rest) (c, d) = Some (res, r1, c1, d1)" and
      l: "(case res of Inl err \<Rightarrow> Some (err, sent, c1, d1)
        | Inr len \<Rightarrow> esp_send_loop ops modem ds r1 (drop ?k rest) (sent + ?k) len (c1, d1)) = Some (result', sent', c', d')"
      by (subst (asm) esp_send_loop.simps) (auto simp: Let_def bind_eq_Some_conv)
    have "length (take ?k rest) \<le> 2048" by (simp add: ESP8266_MODULE_SEND_MAX_SIZE_def)
    note w = send_packet_writes [OF p less.prems(2,3) this]
    show ?thesis
    proof (cases res)
      case (Inl err)
      moreover have "\<not> 0 < err" using p Inl by (auto simp: send_packet_def bind_eq_Some_conv split: if_splits prod.splits)
      ultimately show ?thesis using l w by auto
    next
      case (Inr len)
      have "length (drop ?k rest) < length rest" using False by (simp add: ESP8266_MODULE_SEND_MAX_SIZE_def)
      moreover have "esp_send_loop ops modem ds r1 (drop ?k rest) (sent + ?k) len (c1, d1) = Some (result', sent', c', d')"
        using l Inr by simp
      ultimately have "same_tables c1 c' \<and> (0 < result' \<longrightarrow> sent' = sent + ?k + length (drop ?k rest)
          \<and> tx c' = tx c1 @ concat (map (chunk_wire ds) (chunks (drop ?k rest))))"
        using less.hyps less.prems(2,3) by blast
      with Inr w have "same_tables c c' \<and> (0 < result' \<longrightarrow> sent' = sent + length rest
        \<and> tx c' = tx c @ chunk_wire ds (take ?k rest) @ concat (map (chunk_wire ds) (chunks (drop ?k rest))))"
        by (auto intro: same_tables_trans)
      moreover have "chunks rest = take ?k rest # chunks (drop ?k rest)"
        using False by (subst chunks.simps) (simp add: min_def)
      ultimately show ?thesis by (simp only: list.map concat.simps append_assoc) blast
    qed
  qed
qed

text \<open>
  C14: A send that reports success reports the whole length, never a part of it, and what went over the
  serial line is, for each piece of at most 2048 bytes in turn, the command with the piece's length and
  then the piece; the pieces together are the data.
\<close>

theorem esp_send_transmits:
  assumes "esp8266_socket_send ops modem mem_r mem_table i buff (c, d) = Some (k, c', d')" and "0 < k"
    and "0 \<le> device_socket_of i d" and "device_socket_of i d < 10"
  shows "k = int (length buff)
    \<and> tx c' = tx c @ concat (map (\<lambda>ch. send_cmd (device_socket_of i d) (length ch) @ CRLF @ ch) (chunks buff))
    \<and> concat (chunks buff) = buff \<and> (\<forall>ch\<in>set (chunks buff). ch \<noteq> [] \<and> length ch \<le> 2048)"
proof -
  let ?ds = "device_socket_of i d"
  let ?d = "d\<lparr>cur_socket := ?ds\<rparr>"
  let ?c = "at_obj_set_end_sign 0x3E (snd (at_obj_set_urc_table mem_table socket_urc_table c))"
  from assms(1,2) obtain r result sent c1 where
    l: "esp_send_loop ops modem ?ds r buff 0 0 (?c, ?d) = Some (result, sent, c1, d')" and
    k: "k = (if 0 < result then int sent else result)" "c' = at_obj_set_end_sign 0 c1"
    by (auto simp: esp8266_socket_send_def Let_def split: if_splits option.splits)
  have "tx ?c = tx c" by (simp add: at_obj_set_end_sign_def at_obj_set_urc_table_def)
  with esp_send_loop_writes [OF l assms(3,4)] k assms(2) chunks_ok [of buff] show ?thesis
    by (auto simp: at_obj_set_end_sign_def chunk_wire_def [abs_def] split: if_splits)
qed

text \<open>
  Every call of the send operation appends another copy of the socket URC table to the client's
  tables, whatever becomes of the data; nothing ever takes one away.
\<close>

theorem esp_send_grows_tables:
  assumes "esp8266_socket_send ops modem True True i buff (c, d) = Some (k, c', d')"
    and "0 \<le> device_socket_of i d" and "device_socket_of i d < 10"
  shows "urc_table c' = urc_table c @ [socket_urc_table]"
proof -
  let ?ds = "device_socket_of i d"
  let ?d = "d\<lparr>cur_socket := ?ds\<rparr>"
  let ?c = "at_obj_set_end_sign 0x3E (snd (at_obj_set_urc_table True socket_urc_table c))"
  from assms(1) obtain r result sent c1 where
    l: "esp_send_loop ops modem ?ds r buff 0 0 (?c, ?d) = Some (result, sent, c1, d')" and
    k: "c' = at_obj_set_end_sign 0 c1"
    by (auto simp: esp8266_socket_send_def at_create_resp_def Let_def split: if_splits)
  with esp_send_loop_writes [OF l assms(2,3)] show ?thesis
    by (auto simp: at_obj_set_end_sign_def same_tables_def at_obj_set_urc_table_def)
qed

section \<open>A concrete module\<close>

definition esp_client :: "esp_urc at_client" where
  "esp_client = blank_client\<lparr>status := AT_STATUS_INITIALIZED, recv_bufsz := 32, urc_table := [device_urc_table, socket_urc_table]\<rparr>"

definition esp_device :: "unit esp_dev" where
  "esp_device = \<lparr> esp_net = open_net, socket_event = 0, cur_socket = 0, evt_cb_recv = True, evt_cb_closed = True,
     is_init = True, link_up = True \<rparr>"

definition echo_modem :: "unit esp_dev modem" where
  "echo_modem bs d = ((length bs, map Rx (if take 3 bs = ascii ''AT+'' then CRLF @ ascii ''OK'' @ CRLF @ ascii ''>''
     else ascii ''Recv 3 bytes'' @ CRLF @ ascii ''SEND OK'' @ CRLF)), d)"

lemma esp_send_runs: "map_option fst (esp8266_socket_send quiet_ops echo_modem True True 0 [1, 2, 3] (esp_client, esp_device)) = Some 3"
  by code_simp

lemma esp_send_transmits_witness:
  "\<exists>c' d'. esp8266_socket_send quiet_ops echo_modem True True 0 [1, 2, 3] (esp_client, esp_device) = Some (3, c', d')
    \<and> tx c' = ascii ''AT+CIPSEND=0,3'' @ CRLF @ [1, 2, 3]"
proof -
  from esp_send_runs obtain c' d' where
    r: "esp8266_socket_send quiet_ops echo_modem True True 0 [1, 2, 3] (esp_client, esp_device) = Some (3, c', d')" by auto
  have ds: "device_socket_of 0 esp_device = 0" by (simp add: device_socket_of_def esp_device_def open_net_eq)
  have "chunks [1, 2, 3] = [[1, 2, 3]]" by code_simp
  moreover have "send_cmd 0 3 = ascii ''AT+CIPSEND=0,3''" by code_simp
  ultimately show ?thesis
    using esp_send_transmits [OF r] r ds by (simp add: esp_client_def blank_client_def numeral_3_eq_3)
qed

lemma esp_send_grows_tables_witness:
  "\<exists>k c' d'. esp8266_socket_send quiet_ops echo_modem True True 0 [1, 2, 3] (esp_client, esp_device) = Some (k, c', d')
    \<and> urc_table c' = [device_urc_table, socket_urc_table, socket_urc_table]"
proof -
  from esp_send_runs obtain c' d' where
    r: "esp8266_socket_send quiet_ops echo_modem True True 0 [1, 2, 3] (esp_client, esp_device) = Some (3, c', d')" by auto
  have "device_socket_of 0 esp_device = 0" by (simp add: device_socket_of_def esp_device_def open_net_eq)
  with esp_send_grows_tables [OF r] r show ?thesis by (simp add: esp_client_def)
qed

end
