(* ===== verification/Esp8266_Receive.thy ===== *)
theory Esp8266_Receive
  imports Esp8266_Frames
begin

text \<open>
  Receiving with the ESP8266: the data frames of the module, \<open>+IPD,<socket>,<length>:<data>\<close>, on the
  serial line end up in the receive lists of their sockets.
\<close>

section \<open>A notice and the other sockets\<close>

definition listens :: "'w at_net \<Rightarrow> int \<Rightarrow> nat \<Rightarrow> bool" where
  "listens n s i \<longleftrightarrow> connected n s i \<and> sk_state (sockets n ! i) \<noteq> AT_SOCKET_CLOSED"

lemma listens_world [simp]: "listens (n\<lparr>world := w\<rparr>) s i = listens n s i"
  by (simp add: listens_def connected_def)

lemma notice_others:
  assumes "at_recv_notice_cb ops i bs n = Some n'" and "j \<noteq> i"
  shows "sockets n' ! j = sockets n ! j" and "listens n' s j = listens n s j"
proof -
  obtain m w where a: "op_alloc ops (world n) = (m, w)" by fastforce
  define f where "f v = (\<lambda>sk. at_do_event_changes AT_EVENT_RECV True (sk\<lparr>recvpkt_list := recvpkt_list (sockets n ! i) @
    [\<lparr>bfsz_totle = length bs, bfsz_index = 0, pkt_buff = bs\<rparr>], recv_notice := Some (sem_release v)\<rparr>))" for v
  from assms(1) a have n': "n' = n \<or> n' = n\<lparr>world := w\<rparr> \<or> (\<exists>v. n' = upd_sock i (f v) (n\<lparr>world := w\<rparr>))"
    by (auto simp: at_recv_notice_cb_def Let_def on_world_def at_recvpkt_put_def f_def split: if_splits option.splits)
  then show same: "sockets n' ! j = sockets n ! j" using assms(2) by (auto simp: upd_other)
  have "at_get_socket (upd_sock i (f v) (n\<lparr>world := w\<rparr>)) s = at_get_socket n s" for v
    using get_socket_upd [of "f v" i "n\<lparr>world := w\<rparr>" s] by (simp add: f_def)
  with n' have "at_get_socket n' s = at_get_socket n s" "length (sockets n') = length (sockets n)" by auto
  with same show "listens n' s j = listens n s j" by (simp add: listens_def connected_def)
qed

lemma notice_listens:
  assumes "listens n s i" and "mem_ok ops"
  shows "\<exists>n'. at_recv_notice_cb ops i bs n = Some n' \<and> listens n' s i \<and> received n' i = received n i @ bs"
proof -
  obtain w where "op_alloc ops (world n) = (True, w)" using assms(2) unfolding mem_ok_def by (metis prod.collapse)
  from notice_recv [OF _ _ this, of s i bs] assms(1) show ?thesis by (auto simp: listens_def)
qed

section \<open>The header of a frame is a line\<close>

definition ipd_header :: "nat \<Rightarrow> nat \<Rightarrow> bytes" where
  "ipd_header i n = ascii ''+IPD,'' @ decimal i @ [0x2C] @ decimal n @ [0x3A]"

definition esp_tables :: "esp_urc at_client \<Rightarrow> bool" where
  "esp_tables c \<longleftrightarrow> (\<exists>k. urc_table c = device_urc_table # replicate (Suc k) socket_urc_table)
     \<and> (end_sign c = 0 \<or> end_sign c = 0x3E) \<and> 18 \<le> recv_bufsz c"

abbreviation ipd_urc :: "esp_urc at_urc" where
  "ipd_urc \<equiv> \<lparr> cmd_prefix = ascii ''+IPD'', cmd_suffix = ascii '':'', urc_func = Some Urc_recv_func \<rparr>"

lemma ascii_simps [simp]: "ascii [] = []" "ascii (x # s) = of_char x # ascii s" "ascii (s @ t) = ascii s @ ascii t"
  by (simp_all add: ascii_def)

lemma urc_entry_end:
  assumes "urc \<in> set device_urc_table \<union> set socket_urc_table" and "urc_text urc t"
  shows "t \<noteq> [] \<and> (last t = 10 \<or> last t = 58 \<and> urc = ipd_urc)"
  using assms by (auto simp: device_urc_table_def socket_urc_table_def urc_text_def CRLF_def of_char_def)

lemma urc_tables_end:
  assumes "esp_tables c" and "urc \<in> set (concat (urc_table c))" and "urc_text urc t"
  shows "t \<noteq> [] \<and> (last t = 10 \<or> last t = 58)"
proof -
  have "urc \<in> set device_urc_table \<union> set socket_urc_table" using assms(1,2) by (auto simp: esp_tables_def)
  from urc_entry_end [OF this assms(3)] show ?thesis by blast
qed

lemma find_ipd:
  assumes "esp_tables c" and "t = ascii ''+IPD'' @ m @ [58]"
  shows "find (\<lambda>urc. urc_text urc t) (concat (urc_table c)) = Some ipd_urc"
proof -
  have no: "\<not> urc_text urc t" if "urc \<in> set device_urc_table \<union> set socket_urc_table" "urc \<noteq> ipd_urc" for urc
    using urc_entry_end [OF that(1), of t] that(2) assms(2) by auto
  have "urc_text ipd_urc t" using assms(2) by (auto simp: urc_text_def of_char_def)
  moreover have "find P (a @ b) = (case find P a of None \<Rightarrow> find P b | Some x \<Rightarrow> Some x)" for P and a b :: "esp_urc at_urc list"
    by (induction a) auto
  moreover have not_device: "ipd_urc \<notin> set device_urc_table" by (simp add: device_urc_table_def)
  have "find (\<lambda>urc. urc_text urc t) device_urc_table = None"
    using no not_device by (auto simp only: find_None_iff)
  moreover have "find (\<lambda>urc. urc_text urc t) socket_urc_table = Some ipd_urc"
    using no [of "socket_urc_table ! k" for k] \<open>urc_text ipd_urc t\<close>
    by (simp add: socket_urc_table_def no)
  ultimately show ?thesis using assms(1) by (auto simp: esp_tables_def)
qed

lemma decimal_bytes: "b \<in> set (decimal n) \<Longrightarrow> b \<noteq> 0 \<and> b \<noteq> 10 \<and> b \<noteq> 58 \<and> b \<noteq> 0x3E \<and> b \<noteq> 0x2C"
  using dec_isdigit [of b n] by (auto simp: c_isdigit_def)

lemma header_line:
  assumes "esp_tables c"
  shows "is_line c (ipd_header i n)"
proof -
  let ?b = "ascii ''+IPD,'' @ decimal i @ [0x2C] @ decimal n"
  have h: "ipd_header i n = ?b @ [58]" by (simp add: ipd_header_def)
  have plain: "b \<noteq> 0 \<and> b \<noteq> 10 \<and> b \<noteq> 58 \<and> b \<noteq> 0x3E" if "b \<in> set ?b" for b
    using that decimal_bytes [of b i] decimal_bytes [of b n] by (auto simp: of_char_def)
  have "\<not> ends c (take k (?b @ [58]))" if k: "0 < k" "k < length (?b @ [58])" for k
  proof
    assume e: "ends c (take k (?b @ [58]))"
    have t: "take k (?b @ [58]) = take k ?b" unfolding take_append [of k ?b] using k by (simp del: append_assoc)
    have "take k ?b \<noteq> []" using k by simp
    then have "last (take k ?b) \<in> set ?b" by (meson last_in_set in_set_takeD)
    from plain [OF this] have l: "last (take k ?b) \<noteq> 10" "last (take k ?b) \<noteq> 58" "last (take k ?b) \<noteq> 0x3E" "last (take k ?b) \<noteq> 0"
      by simp_all
    from e [unfolded t ends_def] urc_tables_end [OF assms] assms l show False
      by (auto simp: esp_tables_def CRLF_def)
  qed
  moreover have "ends c (?b @ [58])"
  proof -
    have "ipd_urc \<in> set (concat (urc_table c))" using assms by (auto simp: esp_tables_def socket_urc_table_def)
    moreover have "urc_text ipd_urc (?b @ [58])" by (auto simp: urc_text_def of_char_def)
    ultimately show ?thesis unfolding ends_def by blast
  qed
  ultimately show ?thesis unfolding is_line_def h by blast
qed

section \<open>One frame\<close>

lemma obj_recv_data: "obj_recv (map Rx bs @ w) (length bs) = (bs, w)"
  by (induction bs) simp_all

lemma header_length: "i < 10 \<Longrightarrow> n < 2 ^ 32 \<Longrightarrow> length (ipd_header i n) \<le> 18"
  using length_decimal [of i 1] length_decimal [of n 10] by (simp add: ipd_header_def)

lemma scan_header:
  assumes "take (length (ipd_header i n)) buf = ipd_header i n" and "drop (length (ipd_header i n)) buf = replicate k 0"
  shows "scan_ipd buf = (int i, int n)"
proof -
  have buf: "buf = ipd_header i n @ replicate k 0" by (metis append_take_drop_id assms)
  let ?t = "decimal i @ 0x2C # decimal n @ [0x3A]"
  have z: "0 \<notin> set ?t" using decimal_bytes by fastforce
  have "cstr (drop 5 buf) = ?t"
  proof (cases k)
    case 0
    with z show ?thesis by (simp add: buf ipd_header_def of_char_def cstr_id)
  next
    case (Suc j)
    with cstr_append_nul [OF z, of "replicate j 0"] show ?thesis by (simp add: buf ipd_header_def of_char_def)
  qed
  moreover have "take 5 buf = ascii ''+IPD,''" by (simp add: buf ipd_header_def of_char_def)
  moreover have "scan_int ?t = Some (int i, 0x2C # decimal n @ [0x3A])"
    by (rule scan_int_dec) (simp add: c_isdigit_def)
  moreover have "scan_int (decimal n @ [0x3A]) = Some (int n, [0x3A])"
    by (rule scan_int_dec) (simp add: c_isdigit_def)
  ultimately show ?thesis by (simp add: scan_ipd_def)
qed

text \<open>The parser thread on a frame at the head of the line.\<close>

lemma frame_turn:
  assumes c: "esp_tables c" and d: "evt_cb_recv d" "mem_ok ops" "listens (esp_net d) s i" and i: "i < 10"
    and p: "p \<noteq> []" "length p < 2 ^ 32" and rx: "rx c = map Rx (ipd_header i (length p) @ p) @ w"
  shows "\<exists>c' d'. client_parser_turn (urc_call ops) (c, d) = Some (c', d') \<and> rx c' = w \<and> esp_tables c' \<and> evt_cb_recv d'
    \<and> (\<forall>s j. listens (esp_net d) s j \<longrightarrow> listens (esp_net d') s j
        \<and> received (esp_net d') j = received (esp_net d) j @ (if j = i then p else []))"
proof -
  let ?h = "ipd_header i (length p)"
  have "length ?h \<le> recv_bufsz c" using header_length [OF i p(2)] c by (simp add: esp_tables_def)
  with readline_line [OF header_line [OF c], of i "length p" "map Rx p @ w"] rx obtain c1 where
    r: "at_recv_readline c = Some (int (length ?h), c1)" "holds c1 ?h"
      "c1 = c\<lparr>recv_line_buf := recv_line_buf c1, recv_line_len := recv_line_len c1, rx := map Rx p @ w\<rparr>" by auto
  have rx1: "rx c1 = map Rx p @ w" by (subst r(3)) simp
  have t1: "esp_tables c1" using c readline_setup [OF r(1)] by (simp add: esp_tables_def same_setup_def)
  have u: "get_urc_obj c1 = Some ipd_urc"
    using holds_urc [OF r(2)] find_ipd [OF t1, of ?h "0x2C # decimal i @ [0x2C] @ decimal (length p)"]
    by (simp add: ipd_header_def)
  let ?c = "c1\<lparr>rx := w\<rparr>"
  have n: "recv_line_len c1 \<noteq> 0" "0 < length ?h" using r(2) by (simp_all add: holds_def ipd_header_def)
  have sc: "scan_ipd (recv_line_buf c1) = (int i, int (length p))"
    using r(2) scan_header [of i "length p" "recv_line_buf c1" "recv_bufsz c1 - length ?h"] by (simp add: holds_def)
  have k: "unat (word_of_int (int (length p)) :: u32) = length p"
    using p(2) by (simp add: unsigned_of_nat take_bit_nat_eq_self)
  obtain m where a: "op_alloc ops (world (esp_net d)) = (True, m)" using d(2) unfolding mem_ok_def by (metis prod.collapse)
  let ?n = "(esp_net d)\<lparr>world := m\<rparr>"
  have "listens ?n s i" using d(3) by simp
  from notice_listens [OF this d(2), of p] obtain n' where n': "at_recv_notice_cb ops i p ?n = Some n'"
    "listens n' s i" "received n' i = received (esp_net d) i @ p" by auto
  have "client_parser_turn (urc_call ops) (c, d) = Some (?c, d\<lparr>esp_net := n'\<rparr>)"
    using r(1) u n sc k a p(1) d(1) n'(1)
    by (simp add: client_parser_turn_def urc_recv_func_def on_world_def Let_def at_client_obj_recv_def rx1 obj_recv_data)
  moreover have "listens n' s' j \<and> received n' j = received (esp_net d) j @ (if j = i then p else [])"
    if l: "listens (esp_net d) s' j" for s' j
  proof (cases "j = i")
    case True
    from notice_listens [OF _ d(2), of ?n s' i p] l n'(1,3) True show ?thesis by auto
  next
    case False
    with notice_others [OF n'(1) False] l show ?thesis by simp
  qed
  ultimately show ?thesis using t1 d(1) by (auto simp: esp_tables_def)
qed

section \<open>A sequence of frames\<close>

definition frame_wire :: "(nat \<times> bytes) list \<Rightarrow> bytes" where
  "frame_wire fs = concat (map (\<lambda>(i, p). ipd_header i (length p) @ p) fs)"

definition data_for :: "nat \<Rightarrow> (nat \<times> bytes) list \<Rightarrow> bytes" where
  "data_for i fs = concat (map snd (filter (\<lambda>f. fst f = i) fs))"

definition good_frame :: "'w at_net \<Rightarrow> nat \<times> bytes \<Rightarrow> bool" where
  "good_frame n f \<longleftrightarrow> fst f < 10 \<and> snd f \<noteq> [] \<and> length (snd f) < 2 ^ 32 \<and> (\<exists>s. listens n s (fst f))"

lemma frames_turns:
  assumes "esp_tables c" and "evt_cb_recv d" "mem_ok ops" and "\<forall>f\<in>set fs. good_frame (esp_net d) f"
    and "rx c = map Rx (frame_wire fs) @ w"
  shows "\<exists>c' d'. client_parser (urc_call ops) (\<lambda>_. False) (length fs) (c, d) = Some (c', d') \<and> rx c' = w
    \<and> esp_tables c' \<and> evt_cb_recv d'
    \<and> (\<forall>s j. listens (esp_net d) s j \<longrightarrow> listens (esp_net d') s j
        \<and> received (esp_net d') j = received (esp_net d) j @ data_for j fs)"
  using assms
proof (induction fs arbitrary: c d)
  case (Cons f fs)
  obtain i p where f: "f = (i, p)" by (cases f)
  from Cons.prems(4) f obtain s where g: "i < 10" "p \<noteq> []" "length p < 2 ^ 32" "listens (esp_net d) s i"
    by (auto simp: good_frame_def)
  have "rx c = map Rx (ipd_header i (length p) @ p) @ map Rx (frame_wire fs) @ w"
    using Cons.prems(5) by (simp add: frame_wire_def f)
  from frame_turn [OF Cons.prems(1-3) g(4,1-3) this] obtain c1 d1 where
    t: "client_parser_turn (urc_call ops) (c, d) = Some (c1, d1)" "rx c1 = map Rx (frame_wire fs) @ w" "esp_tables c1" "evt_cb_recv d1"
    and l: "\<And>s j. listens (esp_net d) s j \<Longrightarrow> listens (esp_net d1) s j
        \<and> received (esp_net d1) j = received (esp_net d) j @ (if j = i then p else [])" by blast
  have "good_frame (esp_net d) g \<Longrightarrow> good_frame (esp_net d1) g" for g using l by (auto simp: good_frame_def)
  with Cons.prems(4) have "\<forall>f\<in>set fs. good_frame (esp_net d1) f" by simp
  from Cons.IH [OF t(3,4) Cons.prems(3) this t(2)] obtain c' d' where
    r: "client_parser (urc_call ops) (\<lambda>_. False) (length fs) (c1, d1) = Some (c', d')" "rx c' = w" "esp_tables c'" "evt_cb_recv d'"
    and l': "\<And>s j. listens (esp_net d1) s j \<Longrightarrow> listens (esp_net d') s j
        \<and> received (esp_net d') j = received (esp_net d1) j @ data_for j fs" by blast
  have "at_recv_readline c \<noteq> None"
    using t(1) by (cases "at_recv_readline c") (auto simp: client_parser_turn_def)
  then have "client_parser (urc_call ops) (\<lambda>_. False) (length (f # fs)) (c, d) = Some (c', d')"
    using t(1) r(1) by auto
  moreover have "listens (esp_net d') s j \<and> received (esp_net d') j = received (esp_net d) j @ data_for j (f # fs)"
    if "listens (esp_net d) s j" for s j
    using l [OF that] l' [of s j] by (auto simp: data_for_def f)
  ultimately show ?case using r(2-4) by blast
qed (auto simp: frame_wire_def data_for_def)

text \<open>
  C7: Whatever frames for whatever sockets the module sends one after another, one turn of the parser
  thread per frame takes them off the serial line, leaves what follows, and appends to the receive
  list of every listening socket exactly the data of its own frames, in order.
\<close>

theorem frames_delivered:
  assumes "esp_tables c" and "evt_cb_recv d" and "mem_ok ops" and "\<forall>f\<in>set fs. good_frame (esp_net d) f"
    and "rx c = map Rx (frame_wire fs) @ w" and "listens (esp_net d) s i"
  shows "\<exists>c' d'. client_parser (urc_call ops) (\<lambda>_. False) (length fs) (c, d) = Some (c', d') \<and> rx c' = w
    \<and> listens (esp_net d') s i \<and> received (esp_net d') i = received (esp_net d) i @ data_for i fs"
  using frames_turns [OF assms(1-5)] assms(6) by blast

lemma esp_device_listens: "listens (esp_net esp_device) 0 0" "evt_cb_recv esp_device" "received (esp_net esp_device) 0 = []"
  using open_net_connected by (simp_all add: listens_def esp_device_def)

lemma esp_client_tables: "esp_tables (esp_client\<lparr>rx := r\<rparr>)"
  by (auto simp: esp_tables_def esp_client_def blank_client_def intro: exI [of _ 0])

lemma frames_delivered_witness:
  "\<exists>c' d'. client_parser (urc_call quiet_ops) (\<lambda>_. False) 2
      (esp_client\<lparr>rx := map Rx (ascii ''+IPD,0,2:'' @ [7, 8] @ ascii ''+IPD,0,1:'' @ [9])\<rparr>, esp_device) = Some (c', d')
    \<and> rx c' = [] \<and> received (esp_net d') 0 = [7, 8, 9]"
proof -
  let ?fs = "[(0, [7, 8]), (0, [9])]"
  have w: "frame_wire ?fs = ascii ''+IPD,0,2:'' @ [7, 8] @ ascii ''+IPD,0,1:'' @ [9]"
    by (simp add: frame_wire_def ipd_header_def decimal.simps)
  have "\<forall>f\<in>set ?fs. good_frame (esp_net esp_device) f"
    using esp_device_listens(1) by (auto simp: good_frame_def)
  from frames_delivered [where fs = ?fs and w = "[]", OF esp_client_tables [of "map Rx (frame_wire ?fs)"]
      esp_device_listens(2) open_net_connected(3) this _ esp_device_listens(1)]
  show ?thesis
    by (simp add: w esp_device_listens(3) data_for_def numeral_2_eq_2 del: client_parser.simps ascii_simps) blast
qed

end
