(* ===== verification/Mqtt_Over_At.thy ===== *)
theory Mqtt_Over_At
  imports Mqtt_Session Esp8266_Receive
begin

text \<open>
  The MQTT client on top of the AT socket and the ESP8266 driver: what the module sends over the
  serial line reaches the callbacks of the subscriptions, and a notice the socket has left over
  makes the client give up a connection that is fine.
\<close>

section \<open>A platform whose recv is at_recv\<close>

text \<open>
  The AT layer is the part \<open>netof\<close> of the platform's world; socket \<open>s\<close> is entry \<open>i\<close> of the device. What
  SAL makes of the call is its result and \<open>errno\<close>. The other observers do not look at this part.
\<close>

definition recv_via_at ::
    "'v platform \<Rightarrow> 'w at_ops \<Rightarrow> int \<Rightarrow> ('v \<Rightarrow> 'w at_net) \<Rightarrow> ('w at_net \<Rightarrow> 'v \<Rightarrow> 'v) \<Rightarrow> bool" where
  "recv_via_at pf ops s netof put \<longleftrightarrow> (\<forall>sk k w r d n'. recv_call ops s k (netof w) = Some ((r, d), n') \<longrightarrow>
     p_recv pf sk k w = (if r < 0 then Recv_Error (at_errno n') else Recv_Data d, put n' w))"

definition net_part ::
    "('v \<Rightarrow> 'w at_net) \<Rightarrow> ('w at_net \<Rightarrow> 'v \<Rightarrow> 'v) \<Rightarrow> ('v \<Rightarrow> bytes) \<Rightarrow> ('v \<Rightarrow> seen_msg list) \<Rightarrow> bool" where
  "net_part netof put out seen \<longleftrightarrow> (\<forall>n w. netof (put n w) = n \<and> out (put n w) = out w \<and> seen (put n w) = seen w)"

text \<open>The bytes that wait in the socket.\<close>

definition at_inp :: "int \<Rightarrow> nat \<Rightarrow> ('v \<Rightarrow> 'w at_net) \<Rightarrow> 'v \<Rightarrow> bytes" where
  "at_inp s i netof w = (if connected (netof w) s i then received (netof w) i else [])"

lemma at_recv_contract:
  assumes r: "recv_via_at pf ops s netof put" and p: "net_part netof put out seen"
  shows "recv_contract pf (at_inp s i netof) out seen"
  unfolding recv_contract_def
proof (intro allI impI)
  fix sk :: int and k :: nat and w
  assume k: "0 < k" and ne: "at_inp s i netof w \<noteq> []"
  then have c: "connected (netof w) s i" "received (netof w) i \<noteq> []" "at_inp s i netof w = received (netof w) i"
    by (auto simp: at_inp_def split: if_splits)
  from recv_call_data [OF c(1) k c(2), of ops] obtain n' where
    n': "recv_call ops s k (netof w) = Some ((int (min k (length (received (netof w) i))), take k (received (netof w) i)), n')"
      "connected n' s i" "received n' i = drop k (received (netof w) i)" by blast
  have "p_recv pf sk k w = (Recv_Data (take k (received (netof w) i)), put n' w)"
    using r n'(1) unfolding recv_via_at_def by fastforce
  moreover have "at_inp s i netof (put n' w) = drop k (received (netof w) i)" "out (put n' w) = out w" "seen (put n' w) = seen w"
    using p n'(2,3) by (simp_all add: net_part_def at_inp_def)
  moreover have "take k (received (netof w) i) \<noteq> []" using k c(2) by simp
  ultimately show "\<exists>d w'. p_recv pf sk k w = (Recv_Data d, w') \<and> d \<noteq> [] \<and> length d \<le> k
      \<and> at_inp s i netof w = d @ at_inp s i netof w' \<and> out w' = out w \<and> seen w' = seen w"
    using c(3) by auto
qed

section \<open>From the serial line to the callbacks\<close>

text \<open>The parser thread works on the device, whose network part is the one the client's calls work on.\<close>

definition at_backed ::
    "'v platform \<Rightarrow> 'w at_ops \<Rightarrow> int \<Rightarrow> nat \<Rightarrow> ('v \<Rightarrow> 'w at_net) \<Rightarrow> ('w at_net \<Rightarrow> 'v \<Rightarrow> 'v) \<Rightarrow> u32 set
      \<Rightarrow> ('v \<Rightarrow> bytes) \<Rightarrow> ('v \<Rightarrow> seen_msg list) \<Rightarrow> bool" where
  "at_backed pf ops s i netof put T out seen \<longleftrightarrow> recv_via_at pf ops s netof put \<and> net_part netof put out seen
     \<and> clock_contract pf T (at_inp s i netof) out seen \<and> out_contract pf (at_inp s i netof) out seen
     \<and> callback_contract pf (at_inp s i netof) out seen"

lemma at_backed_well_behaved:
  "at_backed pf ops s i netof put T out seen \<Longrightarrow> well_behaved pf T (at_inp s i netof) out seen"
  unfolding at_backed_def well_behaved_def by (blast intro: at_recv_contract)

text \<open>
  C1: The receive path end to end. The module sends frames for any sockets; those of the client's socket
  together carry the bytes of any number of QoS 0 and QoS 1 messages, cut into frames in any way. After
  the parser thread has taken the frames off the serial line, as many turns of the client's receive
  thread as there are messages call exactly the matching callbacks with topic and payload, in order,
  and answer each QoS 1 message.
\<close>

theorem serial_line_to_callbacks:
  assumes pf: "at_backed pf ops s i netof put T out seen" "in_time T (recv_time_ms (mqtt_info c))" "mem_ok ops"
    and c: "client_inv c" "\<forall>m\<in>set ms. wire_ok (mqtt_info c) m" "4 \<le> send_size (mqtt_info c)"
    and sock: "listens (netof (net c)) s i" "received (netof (net c)) i = []"
    and esp: "esp_net d = netof (net c)" "esp_tables ac" "evt_cb_recv d"
    and line: "rx ac = map Rx (frame_wire fs) @ w" "\<forall>f\<in>set fs. good_frame (esp_net d) f"
    and data: "data_for i fs = concat (map wire ms) @ rest"
  shows "\<exists>ac' d' c'. client_parser (urc_call ops) (\<lambda>_. False) (length fs) (ac, d) = Some (ac', d') \<and> rx ac' = w
    \<and> umqtt_thread (length ms) pf (c\<lparr>net := put (esp_net d') (net c)\<rparr>) = Some c'
    \<and> seen (net c') = seen (net c) @ concat (map (calls_for (sub_recv_list c)) ms)
    \<and> out (net c') = out (net c) @ concat (map answer_for ms) \<and> at_inp s i netof (net c') = rest"
proof -
  from frames_turns [OF esp(2,3) pf(3) line(2,1)] sock esp(1) obtain ac' d' where
    d': "client_parser (urc_call ops) (\<lambda>_. False) (length fs) (ac, d) = Some (ac', d')" "rx ac' = w"
      "listens (esp_net d') s i" "received (esp_net d') i = data_for i fs" by force
  let ?c = "c\<lparr>net := put (esp_net d') (net c)\<rparr>"
  have part: "netof (put n v) = n" "out (put n v) = out v" "seen (put n v) = seen v" for n v
    using pf(1) by (simp_all add: at_backed_def net_part_def)
  have i: "at_inp s i netof (net ?c) = concat (map wire ms) @ rest"
    using d'(3,4) data part by (simp add: at_inp_def listens_def)
  have inv: "client_inv ?c" using c(1) by (simp add: client_inv_def)
  from messages_read [OF at_backed_well_behaved [OF pf(1)] _ inv _ _ i] pf(2) c obtain c' where
    "umqtt_thread (length ms) pf ?c = Some c'" "at_inp s i netof (net c') = rest"
    "seen (net c') = seen (net ?c) @ concat (map (calls_for (sub_recv_list ?c)) ms)"
    "out (net c') = out (net ?c) @ concat (map answer_for ms)" by auto
  then show ?thesis using d'(1,2) part by auto
qed

section \<open>A notice that is left over\<close>

lemma recv_call_stale:
  assumes "connected n s i" and "0 < k" and "received n i = []" and "sk_state (sockets n ! i) = AT_SOCKET_CONNECT"
    and "recv_notice (sockets n ! i) = Some (Suc v)"
  shows "\<exists>n'. recv_call ops s k n = Some ((- 1, []), n') \<and> sk_state (sockets n' ! i) = AT_SOCKET_CONNECT \<and> at_errno n' = EIO"
proof -
  from recv_nothing [OF assms(1,2) _ assms(3), of "replicate k 0" "- 1" False v ops] assms(4,5) obtain n' where
    "at_recv ops s (Some (replicate k 0)) k False n = Some (- 1, Some (replicate k 0), n')"
    "sk_state (sockets n' ! i) = AT_SOCKET_CONNECT" "at_errno n' = EIO" by auto
  then show ?thesis by (simp add: recv_call_def)
qed

text \<open>
  C38: A notice the socket has left over makes the client's receive thread take an open connection for
  closed: the first read of the next packet fails at once, which is handled as the end of the
  connection (\<open>UMQTT_FIN_ACK\<close>), and the turn closes the socket and connects anew.
\<close>

theorem leftover_notice_disconnects:
  assumes pf: "recv_via_at pf ops s netof put" "net_part netof put out seen"
    and n: "connected (netof (net c)) s i" "received (netof (net c)) i = []"
      "sk_state (sockets (netof (net c)) ! i) = AT_SOCKET_CONNECT" "recv_notice (sockets (netof (net c)) ! i) = Some (Suc v)"
  shows "\<exists>n'. sk_state (sockets n' ! i) = AT_SOCKET_CONNECT
    \<and> umqtt_handle_readpacket pf c = Some (UMQTT_FIN_ACK, c\<lparr>net := put n' (net c)\<rparr>)
    \<and> umqtt_thread_turn pf c = (let c = c\<lparr>net := put n' (net c), uplink_timer := map_option (\<lambda>_. False) (uplink_timer c)\<rparr>;
          c = trans_disconnect pf c in do {
        (r, c) \<leftarrow> umqtt_connect pf True (c\<lparr>net := p_delay pf 5000 (net c)\<rparr>);
        if r = UMQTT_RECONNECT_FAILED then Some (False, c\<lparr>task_handle := False\<rparr>) else Some (True, c) })"
proof -
  from recv_call_stale [OF n(1) _ n(2-4), of 1 ops] obtain n' where
    n': "recv_call ops s 1 (netof (net c)) = Some ((- 1, []), n')" "sk_state (sockets n' ! i) = AT_SOCKET_CONNECT" by auto
  then have "p_recv pf (sock c) 1 (net c) = (Recv_Error (at_errno n'), put n' (net c))"
    using pf(1) unfolding recv_via_at_def by fastforce
  then have h: "umqtt_handle_readpacket pf c = Some (UMQTT_FIN_ACK, c\<lparr>net := put n' (net c)\<rparr>)"
    by (simp add: umqtt_handle_readpacket_def umqtt_trans_recv_def)
  then show ?thesis
    using n'(2) by (intro exI [of _ n']) (simp add: umqtt_thread_turn_def Let_def)
qed

section \<open>A concrete platform\<close>

type_synonym at_lab = "unit at_net \<times> bytes \<times> seen_msg list"

definition at_lab_put :: "unit at_net \<Rightarrow> at_lab \<Rightarrow> at_lab" where
  "at_lab_put n w = (n, snd w)"

definition at_lab_platform :: "at_lab platform" where
  "at_lab_platform =
    \<lparr> p_getaddrinfo = (\<lambda>_ _ w. ((0, Some 1), w)), p_socket = (\<lambda>_ w. (3, w)),
      p_connect = (\<lambda>_ _ w. (0, w)), p_closesocket = (\<lambda>_ w. ((0, 0), w)),
      p_send = (\<lambda>_ xs (n, p, s). (Send_Count (length xs), (n, p @ xs, s))),
      p_recv = (\<lambda>_ k (n, w). (case recv_call quiet_ops 0 k n of
          Some ((r, d), n) \<Rightarrow> (if r < 0 then Recv_Error (at_errno n) else Recv_Data d, (n, w))
        | None \<Rightarrow> (Recv_Error EAGAIN, (n, w)))),
      p_malloc = (\<lambda>_ w. (True, w)),
      p_tick = (\<lambda>w. (0, w)), p_delay = (\<lambda>_ w. w), p_object_create = (\<lambda>w. (True, w)),
      p_timer_start = (\<lambda>w. (True, w)),
      p_callback = (\<lambda>k tnl m b (i, p, s).
        (case (received_topic b (zero_msg\<lparr>u_head := tnl, u_publish := m\<rparr>),
               received_payload b (zero_msg\<lparr>u_head := tnl, u_publish := m\<rparr>)) of
           (Some t, Some pl) \<Rightarrow> Some (b, (i, p, s @ [(k, t, pl)]))
         | _ \<Rightarrow> None)),
      p_user_handler = (\<lambda>_ _ w. w), p_while_blocked = (\<lambda>_ w. ([], w)) \<rparr>"

lemma at_lab_backed: "at_backed at_lab_platform quiet_ops 0 0 fst at_lab_put {0} (\<lambda>w. fst (snd w)) (\<lambda>w. snd (snd w))"
proof -
  have "recv_via_at at_lab_platform quiet_ops 0 fst at_lab_put"
    by (auto simp: recv_via_at_def at_lab_platform_def at_lab_put_def)
  moreover have "net_part fst at_lab_put (\<lambda>w. fst (snd w)) (\<lambda>w. snd (snd w))"
    by (simp add: net_part_def at_lab_put_def)
  ultimately show ?thesis
    by (auto simp: at_backed_def clock_contract_def out_contract_def callback_contract_def at_lab_platform_def at_inp_def
      split: prod.split)
qed

definition at_lab_client :: "unit at_net \<Rightarrow> at_lab umqtt_client" where
  "at_lab_client n = (new_client (umqtt_check_def_info sample_info)
     [\<lparr> st_topicfilter = Some (ascii ''a/+''), st_callback = Some 1, st_qos = 1 \<rparr>,
      \<lparr> st_topicfilter = Some (ascii ''a/b''), st_callback = Some 2, st_qos = 1 \<rparr>] (n, [], []))"

lemma at_lab_client_inv: "client_inv (at_lab_client n)"
  by (simp add: at_lab_client_def new_client_inv)

lemma at_lab_client_fields [simp]:
  "net (at_lab_client n) = (n, [], [])" "mqtt_info (at_lab_client n) = mqtt_info (lab_client [])"
  "sub_recv_list (at_lab_client n) = sub_recv_list (lab_client xs)"
  by (simp_all add: at_lab_client_def lab_client_def new_client_def)

lemma leftover_notice_disconnects_witness:
  "\<exists>n n'. recv_notice (sockets n ! 0) = Some 1
    \<and> umqtt_handle_readpacket at_lab_platform (at_lab_client n) = Some (UMQTT_FIN_ACK, (at_lab_client n)\<lparr>net := (n', [], [])\<rparr>)"
proof -
  let ?n = "upd_sock 0 (\<lambda>sk. sk\<lparr>recv_notice := Some 1\<rparr>) open_net"
  have "connected ?n 0 0" "received ?n 0 = []" "sk_state (sockets ?n ! 0) = AT_SOCKET_CONNECT"
    "recv_notice (sockets ?n ! 0) = Some (Suc 0)"
    by (simp_all add: connected_def open_net_eq at_get_socket_def upd_sock_def)
  then obtain n' where "umqtt_handle_readpacket at_lab_platform (at_lab_client ?n) =
      Some (UMQTT_FIN_ACK, (at_lab_client ?n)\<lparr>net := at_lab_put n' (net (at_lab_client ?n))\<rparr>)"
    using leftover_notice_disconnects [of at_lab_platform quiet_ops 0 fst at_lab_put "\<lambda>w. fst (snd w)" "\<lambda>w. snd (snd w)"
        "at_lab_client ?n" 0 0] at_lab_backed
    by (auto simp: at_backed_def)
  moreover have "recv_notice (sockets ?n ! 0) = Some 1" by (simp add: open_net_eq)
  ultimately show ?thesis by (intro exI [of _ ?n] exI [of _ n']) (simp add: at_lab_put_def)
qed

lemma serial_line_to_callbacks_witness:
  "\<exists>fs ac' d' c'. data_for 0 fs = concat (map wire two_messages) @ [5]
    \<and> client_parser (urc_call quiet_ops) (\<lambda>_. False) 2 (esp_client\<lparr>rx := map Rx (frame_wire fs)\<rparr>, esp_device) = Some (ac', d')
    \<and> umqtt_thread 2 at_lab_platform ((at_lab_client open_net)\<lparr>net := (esp_net d', [], [])\<rparr>) = Some c'
    \<and> snd (snd (net c')) = [(1, ascii ''a/b'', [1, 2]), (2, ascii ''a/b'', [1, 2]), (1, ascii ''a/c'', [3])]"
proof -
  let ?data = "concat (map wire two_messages) @ [5]"
  let ?fs = "[(0, take 3 ?data), (0, drop 3 ?data)]"
  have len: "length ?data = 20" by code_simp
  have ne: "take 3 ?data \<noteq> []" "drop 3 ?data \<noteq> []"
    unfolding length_greater_0_conv [symmetric] length_take length_drop len by simp_all
  have ok: "\<forall>m\<in>set two_messages. wire_ok (mqtt_info (at_lab_client open_net)) m"
    by (simp add: two_messages_def wire_ok_def wire_def packet_def publish_body_def c_strlen_def
        cstr_def ascii_def rl_bytes.simps)
  have good: "\<forall>f\<in>set ?fs. good_frame (esp_net esp_device) f"
    using esp_device_listens(1) len ne by (auto simp: good_frame_def)
  have data: "data_for 0 ?fs = ?data" by (simp add: data_for_def del: take_append drop_append)
  have net: "esp_net esp_device = fst (net (at_lab_client open_net))" by (simp add: esp_device_def)
  have l: "listens open_net 0 0" "received open_net 0 = []" using esp_device_listens(1,3) by (simp_all add: esp_device_def)
  from serial_line_to_callbacks [where w = "[]", OF at_lab_backed _ open_net_connected(3) at_lab_client_inv ok _ _ _ net
      esp_client_tables [of "map Rx (frame_wire ?fs)"] esp_device_listens(2) _ good data] l
  obtain ac' d' c' where
    h: "client_parser (urc_call quiet_ops) (\<lambda>_. False) (length ?fs) (esp_client\<lparr>rx := map Rx (frame_wire ?fs)\<rparr>, esp_device) = Some (ac', d')"
    "umqtt_thread (length two_messages) at_lab_platform ((at_lab_client open_net)\<lparr>net := at_lab_put (esp_net d') (net (at_lab_client open_net))\<rparr>) = Some c'"
    "snd (snd (net c')) = concat (map (calls_for (sub_recv_list (at_lab_client open_net))) two_messages)"
    using lab_in_time by (auto simp: net [symmetric] simp del: client_parser.simps)
  have n: "length ?fs = 2" "length two_messages = 2" by (simp_all add: two_messages_def)
  have "snd (snd (net c')) = [(1, ascii ''a/b'', [1, 2]), (2, ascii ''a/b'', [1, 2]), (1, ascii ''a/c'', [3])]"
    using h(3) two_messages_calls [of "[]"] by (simp only: at_lab_client_fields(3) [of open_net "[]"])
  moreover have "umqtt_thread 2 at_lab_platform ((at_lab_client open_net)\<lparr>net := (esp_net d', [], [])\<rparr>) = Some c'"
    using h(2) by (simp only: n at_lab_put_def at_lab_client_fields(1) snd_conv)
  ultimately show ?thesis using h(1) [unfolded n] data by blast
qed

end
