(* ===== verification/At_Table.thy ===== *)
theory At_Table
  imports At_Stream
begin

text \<open>
  The numbers of the AT sockets: the table kept by \<open>alloc_empty_socket\<close> and \<open>free_socket\<close>, its
  invariant under every operation of the socket interface, the number a new socket gets, and what a
  failed allocation and \<open>at_bind\<close> leave.
\<close>

section \<open>The table\<close>

type_synonym table = "nat list \<times> (u32 \<times> int) list"

definition tab :: "'w at_net \<Rightarrow> table" where
  "tab n = (socket_list n, map (\<lambda>sk. (sk_magic sk, sk_socket sk)) (sockets n))"

definition numbers :: "table \<Rightarrow> int list" where
  "numbers t = (case t of (l, es) \<Rightarrow> map (\<lambda>i. snd (es ! i)) l)"

definition table_ok :: "table \<Rightarrow> bool" where
  "table_ok t \<longleftrightarrow> (case t of (l, es) \<Rightarrow>
     (\<forall>i\<in>set l. i < length es \<and> fst (es ! i) = AT_SOCKET_MAGIC) \<and> (\<forall>i<length es. fst (es ! i) \<noteq> 0 \<longrightarrow> i \<in> set l)
     \<and> sorted_wrt (<) (numbers t) \<and> (\<forall>s\<in>set (numbers t). 0 \<le> s))"

lemma sorted_wrt_less_distinct: "sorted_wrt (<) (xs :: int list) \<Longrightarrow> distinct xs"
  by (induction xs) auto

lemma numbers_tab: "table_ok (tab n) \<Longrightarrow> numbers (tab n) = map (\<lambda>i. sk_socket (sockets n ! i)) (socket_list n)"
  by (auto simp: numbers_def tab_def table_ok_def)

lemma table_distinct: "table_ok t \<Longrightarrow> distinct (fst t)"
  using sorted_wrt_less_distinct [of "numbers t"]
  by (cases t) (auto simp: table_ok_def numbers_def distinct_map)

text \<open>A number names one entry.\<close>

lemma get_socket_iff:
  assumes "table_ok (tab n)"
  shows "at_get_socket n s = Some i \<longleftrightarrow> i \<in> set (socket_list n) \<and> sk_socket (sockets n ! i) = s"
proof -
  have m: "\<forall>i\<in>set (socket_list n). sk_magic (sockets n ! i) = AT_SOCKET_MAGIC"
    using assms by (auto simp: table_ok_def tab_def)
  have d: "distinct (map (\<lambda>i. sk_socket (sockets n ! i)) (socket_list n))"
    using assms numbers_tab [OF assms] sorted_wrt_less_distinct by (auto simp: table_ok_def)
  have "find P xs = Some i \<longleftrightarrow> i \<in> set xs \<and> P i" if "\<forall>i\<in>set xs. \<forall>j\<in>set xs. P i \<longrightarrow> P j \<longrightarrow> i = j" for xs and P :: "nat \<Rightarrow> bool"
    using that by (induction xs) auto
  from this [of "socket_list n" "\<lambda>i. s = sk_socket (sockets n ! i) \<and> sk_magic (sockets n ! i) = AT_SOCKET_MAGIC"]
  moreover have "\<forall>i\<in>set (socket_list n). \<forall>j\<in>set (socket_list n). sk_socket (sockets n ! i) = sk_socket (sockets n ! j) \<longrightarrow> i = j"
    using d by (auto simp: distinct_map inj_on_def)
  ultimately show ?thesis using m unfolding at_get_socket_def by blast
qed

lemma get_socket_None:
  assumes "table_ok (tab n)"
  shows "at_get_socket n s = None \<longleftrightarrow> s \<notin> set (numbers (tab n))"
proof -
  have "at_get_socket n s \<noteq> None \<longleftrightarrow> (\<exists>i\<in>set (socket_list n). sk_socket (sockets n ! i) = s)"
    using get_socket_iff [OF assms] by (metis not_None_eq)
  then show ?thesis by (auto simp: numbers_tab [OF assms])
qed

lemma get_socket_bound: "table_ok (tab n) \<Longrightarrow> at_get_socket n s = Some i \<Longrightarrow> i < length (sockets n)"
  by (auto simp: get_socket_iff) (auto simp: table_ok_def tab_def)

section \<open>A new entry\<close>

lemma alloc_walk_props:
  assumes "sorted_wrt (<) (map (\<lambda>i. sk_socket (ss ! i)) l)" and "\<forall>i\<in>set l. int k \<le> sk_socket (ss ! i)"
  shows "\<exists>m\<le>length l. alloc_walk ss l k = k + m \<and> (\<forall>j<m. sk_socket (ss ! (l ! j)) = int (k + j))
    \<and> (\<forall>i\<in>set (drop m l). int (k + m) < sk_socket (ss ! i))"
  using assms
proof (induction l arbitrary: k)
  case (Cons i l)
  show ?case
  proof (cases "sk_socket (ss ! i) = int k")
    case True
    then have "\<forall>i\<in>set l. int (k + 1) \<le> sk_socket (ss ! i)" using Cons.prems(1) by auto
    with Cons.IH [of "k + 1"] Cons.prems(1) obtain m where "m \<le> length l" "alloc_walk ss l (k + 1) = k + 1 + m"
      "\<forall>j<m. sk_socket (ss ! (l ! j)) = int (k + 1 + j)" "\<forall>i\<in>set (drop m l). int (k + 1 + m) < sk_socket (ss ! i)" by auto
    with True show ?thesis
      by (intro exI [of _ "Suc m"]) (auto simp: nth_Cons less_Suc_eq_0_disj split: nat.splits)
  next
    case False
    with Cons.prems show ?thesis by (intro exI [of _ 0]) (fastforce split: if_splits)
  qed
qed simp

text \<open>Insertion of entry \<open>i\<close> under the number the walk reached.\<close>

lemma table_insert:
  assumes t: "table_ok (tab n)" and i: "i < length (sockets n)" "sk_magic (sockets n ! i) = 0"
    and idx: "alloc_walk (sockets n) (socket_list n) 0 = idx"
    and l': "l' = take idx (socket_list n) @ [i] @ drop idx (socket_list n)"
    and es': "es' = (snd (tab n))[i := (AT_SOCKET_MAGIC, int idx)]"
  shows "table_ok (l', es')" and "int idx \<notin> set (numbers (tab n))" and "\<forall>s. 0 \<le> s \<and> s < int idx \<longrightarrow> s \<in> set (numbers (tab n))"
    and "set (numbers (l', es')) = insert (int idx) (set (numbers (tab n)))" and "i \<notin> set (socket_list n)"
proof -
  let ?l = "socket_list n" and ?ss = "sockets n" and ?num = "\<lambda>j. sk_socket (sockets n ! j)"
  have ni: "i \<notin> set ?l" using t i by (auto simp: table_ok_def tab_def AT_SOCKET_MAGIC_def)
  then show "i \<notin> set (socket_list n)" .
  have s: "sorted_wrt (<) (map ?num ?l)" "\<forall>j\<in>set ?l. 0 \<le> ?num j"
    using t numbers_tab [OF t] by (auto simp: table_ok_def)
  from alloc_walk_props [OF s(1), of 0] s(2) idx have w: "idx \<le> length ?l"
    "\<forall>j<idx. ?num (?l ! j) = int j" "\<forall>j\<in>set (drop idx ?l). int idx < ?num j" by auto
  have lo: "\<forall>j\<in>set (take idx ?l). ?num j < int idx" using w by (auto simp: in_set_conv_nth)
  have split: "set ?l = set (take idx ?l) \<union> set (drop idx ?l)" by (metis append_take_drop_id set_append)
  have num: "numbers (tab n) = map ?num ?l" by (rule numbers_tab [OF t])
  have cases: "j \<in> set (take idx ?l) \<or> j \<in> set (drop idx ?l)" if "j \<in> set ?l" for j using that split by blast
  show "int idx \<notin> set (numbers (tab n))"
    unfolding num set_map by (rule notI, elim imageE) (use cases lo w(3) in fastforce)
  show "\<forall>s. 0 \<le> s \<and> s < int idx \<longrightarrow> s \<in> set (numbers (tab n))"
  proof (intro allI impI)
    fix s assume b: "0 \<le> s \<and> s < int idx"
    then have "?num (?l ! nat s) = s" "nat s < length ?l" using w by auto
    then show "s \<in> set (numbers (tab n))" unfolding num set_map by (intro image_eqI [of _ _ "?l ! nat s"]) simp_all
  qed
  have mem: "\<forall>j\<in>set ?l. j < length ?ss" using t by (auto simp: table_ok_def tab_def)
  have num': "snd (es' ! j) = (if j = i then int idx else ?num j)" if "j < length ?ss" for j
    using that i by (simp add: es' tab_def nth_list_update)
  have nums': "numbers (l', es') = map ?num (take idx ?l) @ [int idx] @ map ?num (drop idx ?l)"
    using ni mem split i num' by (auto simp: numbers_def l')
  then show "set (numbers (l', es')) = insert (int idx) (set (numbers (tab n)))"
    using split by (auto simp: num)
  have "sorted_wrt (<) (map ?num (take idx ?l) @ map ?num (drop idx ?l))" using s(1) by (metis append_take_drop_id map_append)
  then have "sorted_wrt (<) (numbers (l', es'))"
    using lo w(3) by (auto simp: nums' sorted_wrt_append)
  moreover have "\<forall>s\<in>set (numbers (l', es')). 0 \<le> s" using s(2) split by (auto simp: nums')
  moreover have "\<forall>j\<in>set ?l. j < length ?ss \<and> sk_magic (?ss ! j) = AT_SOCKET_MAGIC" using t by (auto simp: table_ok_def tab_def)
  then have "\<forall>j\<in>set l'. j < length es' \<and> fst (es' ! j) = AT_SOCKET_MAGIC"
    using i split by (auto simp: l' es' tab_def nth_list_update)
  moreover have "\<forall>j<length es'. fst (es' ! j) \<noteq> 0 \<longrightarrow> j \<in> set l'"
    using t i split by (auto simp: l' es' tab_def table_ok_def nth_list_update)
  ultimately show "table_ok (l', es')" by (simp add: table_ok_def)
qed

text \<open>Removal of an entry that is in the list.\<close>

lemma table_remove:
  assumes t: "table_ok (l, es)" and i: "i \<in> set l"
  shows "table_ok (remove1 i l, es[i := (0, 0)])"
    and "set (numbers (remove1 i l, es[i := (0, 0)])) = set (numbers (l, es)) - {snd (es ! i)}"
proof -
  have d: "distinct l" using table_distinct [OF t] by simp
  have n: "numbers (remove1 i l, es[i := (0, 0)]) = map (\<lambda>j. snd (es ! j)) (remove1 i l)"
    using d by (auto simp: numbers_def)
  have t': "\<forall>j\<in>set l. j < length es \<and> fst (es ! j) = AT_SOCKET_MAGIC" "\<forall>j<length es. fst (es ! j) \<noteq> 0 \<longrightarrow> j \<in> set l"
    "sorted_wrt (<) (map (\<lambda>j. snd (es ! j)) l)" "\<forall>j\<in>set l. 0 \<le> snd (es ! j)"
    using t by (simp_all add: table_ok_def numbers_def)
  have "sorted_wrt (<) (map f (remove1 i l))" if "sorted_wrt (<) (map f l)" for f :: "nat \<Rightarrow> int"
    using that by (induction l) (auto dest: notin_set_remove1)
  note r = this [OF t'(3)]
  have "fst (es[i := (0, 0)] ! j) = (if j = i then 0 else fst (es ! j))" if "j < length es" for j
    using that by (simp add: nth_list_update)
  with r show "table_ok (remove1 i l, es[i := (0, 0)])"
    using t' d unfolding table_ok_def prod.case n by (auto simp: nth_list_update set_remove1_eq split: if_splits)
  have "inj_on (\<lambda>j. snd (es ! j)) (set l)"
    using sorted_wrt_less_distinct [OF t'(3)] by (simp add: distinct_map)
  then show "set (numbers (remove1 i l, es[i := (0, 0)])) = set (numbers (l, es)) - {snd (es ! i)}"
    using i d by (auto simp: n numbers_def inj_on_def)
qed

section \<open>Operations that leave the table alone\<close>

lemma tab_upd:
  assumes "\<And>sk. sk_socket (f sk) = sk_socket sk \<and> sk_magic (f sk) = sk_magic sk"
  shows "tab (upd_sock i f n) = tab n"
  unfolding tab_def upd_sock_def using assms
  by (cases "i < length (sockets n)") (auto intro!: nth_equalityI simp: nth_list_update)

lemma tab_simps [simp]: "tab (n\<lparr>world := w\<rparr>) = tab n" "tab (n\<lparr>at_errno := e\<rparr>) = tab n"
  by (simp_all add: tab_def)

lemma tab_on_world: "on_world f n = (a, n') \<Longrightarrow> tab n' = tab n"
  by (auto simp: on_world_def split: prod.splits)

lemma tab_events [simp]: "tab (upd_sock i (at_do_event_changes e b) n) = tab n" "tab (upd_sock i (at_do_event_clean e) n) = tab n"
  by (rule tab_upd, cases e, simp_all)+

lemma tab_recv_notice: "at_recv_notice_cb ops i buff n = Some n' \<Longrightarrow> tab n' = tab n"
  by (auto simp: at_recv_notice_cb_def Let_def at_recvpkt_put_def tab_upd dest: tab_on_world split: if_splits prod.splits option.splits)

lemma tab_closed_notice: "at_closed_notice_cb i n = Some n' \<Longrightarrow> tab n' = tab n"
  by (auto simp: at_closed_notice_cb_def Let_def tab_upd split: if_splits option.splits)

lemma tab_notices: "notices ops evs n = Some n' \<Longrightarrow> tab n' = tab n"
  by (induction ops evs n rule: notices.induct)
    (auto simp: bind_eq_Some_conv dest: tab_recv_notice tab_closed_notice)

lemma tab_take_notice:
  assumes "take_recv_notice ops i timeout n = Some (b, n')"
  shows "tab n' = tab n"
proof (cases "recv_notice (sockets n ! i)")
  case None
  with assms show ?thesis by (simp add: take_recv_notice_def)
next
  case (Some k)
  show ?thesis
  proof (cases k)
    case (Suc v)
    with assms Some show ?thesis by (auto simp: take_recv_notice_def tab_upd)
  next
    case 0
    obtain evs n1 where w: "on_world (op_wait ops i timeout) n = (evs, n1)" by fastforce
    with assms Some 0 obtain n2 k' where n2: "notices ops evs n1 = Some n2" "recv_notice (sockets n2 ! i) = Some k'"
      by (auto simp: take_recv_notice_def bind_eq_Some_conv split: option.splits)
    then have "tab n2 = tab n" using tab_notices tab_on_world [OF w] by metis
    with assms Some 0 w n2 show ?thesis
      by (cases k') (auto simp: take_recv_notice_def tab_upd split: if_splits)
  qed
qed

lemma tab_get_locked: "get_locked i mem len n = Some (k, mem', n') \<Longrightarrow> tab n' = tab n"
  by (auto simp: get_locked_def tab_upd bind_eq_Some_conv split: if_splits)

lemma tab_recv_exit: "recv_exit i r k n = (r', n') \<Longrightarrow> tab n' = tab n"
  by (auto simp: recv_exit_def Let_def split: if_splits)

lemma tab_recv_blocking: "recv_blocking ops i mem len n = Some (r, k, mem', n') \<Longrightarrow> tab n' = tab n"
  by (auto simp: recv_blocking_def bind_eq_Some_conv dest!: tab_take_notice tab_get_locked split: if_splits)

text \<open>The operations of the device do not open or close other sockets.\<close>

definition keeps_table :: "'w at_ops \<Rightarrow> bool" where
  "keeps_table ops \<longleftrightarrow> (\<forall>i ip port ty n. tab (snd (op_connect ops i ip port ty n)) = tab n)
     \<and> (\<forall>i n. tab (snd (op_closesocket ops i n)) = tab n) \<and> (\<forall>i d ty n. tab (snd (op_send ops i d ty n)) = tab n)
     \<and> op_at_socket ops = None"

lemma keeps_tableD:
  assumes "keeps_table ops"
  shows "op_connect ops i ip port ty n = (r, n') \<Longrightarrow> tab n' = tab n"
    and "op_closesocket ops i n = (r, n') \<Longrightarrow> tab n' = tab n" and "op_send ops i d ty n = (r, n') \<Longrightarrow> tab n' = tab n"
  using assms unfolding keeps_table_def by (metis snd_conv)+

lemma tab_udp_connect:
  assumes "keeps_table ops"
  shows "udp_connect ops i a n = (go, n') \<Longrightarrow> tab n' = tab n"
  by (auto simp: udp_connect_def tab_upd dest!: keeps_tableD(1) [OF assms] split: option.splits prod.splits if_splits)

lemma tab_recvfrom:
  assumes "keeps_table ops" and "at_recvfrom ops s memory len dw from n = Some (r, m, n')"
  shows "tab n' = tab n"
  using assms(2)
  by (auto simp: at_recvfrom_def bind_eq_Some_conv
      dest!: tab_udp_connect [OF assms(1)] tab_get_locked tab_recv_exit tab_recv_blocking
      split: option.splits if_splits prod.splits)

lemma tab_sendto:
  assumes "keeps_table ops" and "at_sendto ops s buf dest n = (r, n')"
  shows "tab n' = tab n"
  using assms(2)
  by (auto simp: at_sendto_def Let_def dest!: tab_udp_connect [OF assms(1)] keeps_tableD(3) [OF assms(1)]
      split: option.splits if_splits prod.splits at_socket_type.splits)

lemma tab_connect:
  assumes "keeps_table ops" and "at_connect ops s addr n = (r, n')"
  shows "tab n' = tab n"
  using assms(2)
  by (auto simp: at_connect_def Let_def tab_upd dest!: keeps_tableD(1) [OF assms(1)] split: option.splits if_splits prod.splits)

section \<open>Opening\<close>

lemma free_entry_free: "free_entry ss < length ss \<Longrightarrow> sk_magic (ss ! free_entry ss) = 0"
  unfolding free_entry_def using nth_length_takeWhile by fastforce

text \<open>
  An allocation finds the array full, or enters the first free entry into the list; the entry is the
  result when both kernel objects could be created.
\<close>

lemma alloc_table:
  assumes t: "table_ok (tab n)" and op: "op_at_socket ops = None" and a: "alloc_socket_by_device ops ty n = (r, n')"
  defines "i \<equiv> free_entry (sockets n)" and "idx \<equiv> alloc_walk (sockets n) (socket_list n) 0"
  shows "i < length (sockets n) \<and> tab n' = (take idx (socket_list n) @ [i] @ drop idx (socket_list n),
        (snd (tab n))[i := (AT_SOCKET_MAGIC, int idx)]) \<and> sk_state (sockets n' ! i) = AT_SOCKET_NONE \<and> (r = None \<or> r = Some i \<and> recv_lock (sockets n' ! i)
          \<and> recvpkt_list (sockets n' ! i) = [] \<and> recv_notice (sockets n' ! i) = Some 0)
      \<or> length (sockets n) \<le> i \<and> r = None \<and> n' = n"
proof (cases "i < length (sockets n)")
  case False
  with a op show ?thesis by (simp add: alloc_socket_by_device_def i_def)
next
  case True
  let ?f = "\<lambda>sk. sk\<lparr>sk_socket := int idx, sk_user_data := int i, sk_magic := AT_SOCKET_MAGIC,
      sk_state := AT_SOCKET_NONE, rcvevent := 0, sendevent := 0, errevent := 0, recvpkt_list := []\<rparr>"
  let ?n = "upd_sock i ?f (n\<lparr>socket_list := take idx (socket_list n) @ [i] @ drop idx (socket_list n)\<rparr>)"
  have tab: "tab ?n = (take idx (socket_list n) @ [i] @ drop idx (socket_list n), (snd (tab n))[i := (AT_SOCKET_MAGIC, int idx)])"
    using True by (simp add: tab_def upd_sock_def map_update)
  obtain ok1 n1 where n1: "on_world (op_alloc ops) ?n = (ok1, n1)" by fastforce
  let ?n2 = "upd_sock i (\<lambda>sk. sk\<lparr>recv_notice := Some 0\<rparr>) n1"
  obtain ok2 n2 where n2: "on_world (op_alloc ops) ?n2 = (ok2, n2)" by fastforce
  have r: "(r, n') = (if \<not> ok1 then (None, upd_sock i (\<lambda>sk. sk\<lparr>recv_notice := None\<rparr>) n1)
      else if \<not> ok2 then (None, upd_sock i (\<lambda>sk. sk\<lparr>recv_lock := False, recv_notice := None\<rparr>) n2)
      else (Some i, upd_sock i (\<lambda>sk. sk\<lparr>recv_lock := True\<rparr>) n2))"
    using a op True n1 n2
    by (cases ok1; cases ok2)
      (simp_all add: alloc_socket_by_device_def alloc_empty_socket_def Let_def i_def [symmetric] idx_def [symmetric])
  have "tab n1 = tab ?n" using tab_on_world [OF n1] .
  moreover have "tab n2 = tab n1" using tab_on_world [OF n2] by (simp add: tab_upd)
  ultimately have "tab n' = tab ?n" using r by (auto simp: tab_upd split: if_splits)
  moreover have "sockets n1 = sockets ?n" "sockets n2 = sockets ?n2"
    using n1 n2 by (auto simp: on_world_def split: prod.splits)
  ultimately show ?thesis using True tab r by (auto simp: upd_sock_def split: if_splits)
qed

lemma alloc_keeps:
  assumes "table_ok (tab n)" and "op_at_socket ops = None" and "alloc_socket_by_device ops ty n = (r, n')"
  shows "table_ok (tab n')"
  using alloc_table [OF assms] table_insert(1) [OF assms(1) _ free_entry_free refl refl refl] assms(1) by auto

lemma alloc_socket_cases:
  assumes "alloc_socket ops ty n = (r, n')"
  obtains n1 where "on_world (op_netdev ops) n = (False, n1)" "r = None" "n' = n1"
  | n1 where "on_world (op_netdev ops) n = (True, n1)" "alloc_socket_by_device ops ty n1 = (r, n')"
  using assms by (auto simp: alloc_socket_def split: prod.splits if_splits)

lemma on_world_sockets: "on_world f n = (a, n') \<Longrightarrow> sockets n' = sockets n \<and> socket_list n' = socket_list n"
  by (auto simp: on_world_def split: prod.splits)

lemma open_keeps:
  assumes t: "table_ok (tab n)" and op: "op_at_socket ops = None"
  shows "table_ok (tab (snd (at_socket ops ty n)))"
proof (cases ty)
  case (Some ty)
  obtain r n' where a: "alloc_socket ops ty n = (r, n')" by fastforce
  from this have "table_ok (tab n')"
    by (rule alloc_socket_cases) (use t tab_on_world alloc_keeps [OF _ op] in metis)+
  with a Some show ?thesis by (cases r) (simp_all add: at_socket_def tab_upd)
qed (simp add: at_socket_def t)

lemma at_socket_facts:
  assumes t: "table_ok (tab n)" and op: "op_at_socket ops = None" and ok: "at_socket ops ty n = (s, n')" "0 \<le> s"
  shows "table_ok (tab n')" and "s \<notin> set (numbers (tab n))" and "\<forall>k. 0 \<le> k \<and> k < s \<longrightarrow> k \<in> set (numbers (tab n))"
    and "\<forall>k. k \<noteq> s \<longrightarrow> at_get_socket n' k = at_get_socket n k"
    and "\<exists>i. connected n' s i \<and> received n' i = [] \<and> recv_notice (sockets n' ! i) = Some 0
        \<and> sk_state (sockets n' ! i) = AT_SOCKET_OPEN"
proof -
  from ok obtain ty' r n1 where a: "ty = Some ty'" "alloc_socket ops ty' n = (r, n1)"
    by (auto simp: at_socket_def split: option.splits prod.splits)
  with ok obtain i where r: "r = Some i" by (cases r) (auto simp: at_socket_def)
  from a(2) r obtain n0 where n0: "on_world (op_netdev ops) n = (True, n0)" "alloc_socket_by_device ops ty' n0 = (Some i, n1)"
    by (auto elim: alloc_socket_cases)
  have same: "sockets n0 = sockets n" "socket_list n0 = socket_list n" "tab n0 = tab n"
    using on_world_sockets [OF n0(1)] tab_on_world [OF n0(1)] by auto
  let ?idx = "alloc_walk (sockets n) (socket_list n) 0"
  from alloc_table [OF _ op n0(2)] t same have al: "i = free_entry (sockets n)" "i < length (sockets n)"
    "tab n1 = (take ?idx (socket_list n) @ [i] @ drop ?idx (socket_list n), (snd (tab n))[i := (AT_SOCKET_MAGIC, int ?idx)])"
    "recv_lock (sockets n1 ! i)" "recvpkt_list (sockets n1 ! i) = []" "recv_notice (sockets n1 ! i) = Some 0" by auto
  note ins = table_insert [OF t al(2) free_entry_free [of "sockets n", folded al(1), OF al(2)] refl refl refl, folded al(3)]
  let ?f = "\<lambda>sk. sk\<lparr>sk_type := ty', sk_state := AT_SOCKET_OPEN\<rparr>"
  have n': "n' = upd_sock i ?f n1" "s = sk_socket (sockets n1 ! i)" using ok(1) a r by (auto simp: at_socket_def)
  have len: "length (sockets n1) = length (sockets n)" using arg_cong [OF al(3), of "\<lambda>t. length (snd t)"] by (simp add: tab_def)
  have ent: "snd (tab n1) ! i = (AT_SOCKET_MAGIC, int ?idx)" using al(2,3) by (simp add: tab_def)
  then have s: "s = int ?idx" "sk_magic (sockets n1 ! i) = AT_SOCKET_MAGIC" using n'(2) al(2) len by (auto simp: tab_def)
  have tab': "tab n' = tab n1" by (simp add: n'(1) tab_upd)
  show t': "table_ok (tab n')" using ins(1) al(3) tab' by simp
  show "s \<notin> set (numbers (tab n))" "\<forall>k. 0 \<le> k \<and> k < s \<longrightarrow> k \<in> set (numbers (tab n))" using ins(2,3) s(1) by auto
  have l1: "set (socket_list n1) = insert i (set (socket_list n))"
    using arg_cong [OF al(3), of fst] by (simp add: tab_def) (metis append_take_drop_id set_append Un_insert_right)
  have get: "at_get_socket n' k = at_get_socket n1 k" for k using get_socket_upd [of ?f i n1 k] by (simp add: n'(1))
  show "\<forall>k. k \<noteq> s \<longrightarrow> at_get_socket n' k = at_get_socket n k"
  proof (intro allI impI)
    fix k assume k: "k \<noteq> s"
    have "sk_socket (sockets n1 ! j) = sk_socket (sockets n ! j)" if "j \<noteq> i" "j < length (sockets n)" for j
      using arg_cong [OF al(3), of "\<lambda>t. snd (snd t ! j)"] that len by (simp add: tab_def)
    moreover have "j < length (sockets n)" if "j \<in> set (socket_list n)" for j
      using t that by (auto simp: table_ok_def tab_def)
    ultimately have "at_get_socket n1 k = Some j \<longleftrightarrow> at_get_socket n k = Some j" for j
      unfolding get_socket_iff [OF t] get_socket_iff [OF t' [unfolded tab']] l1
      using k n'(2) ins(5) by (cases "j = i") auto
    then show "at_get_socket n' k = at_get_socket n k" unfolding get by (metis not_Some_eq)
  qed
  have "at_get_socket n' s = Some i"
    unfolding get using get_socket_iff [OF t' [unfolded tab'], of s i] n'(2) l1 by simp
  then show "\<exists>i. connected n' s i \<and> received n' i = [] \<and> recv_notice (sockets n' ! i) = Some 0
      \<and> sk_state (sockets n' ! i) = AT_SOCKET_OPEN"
    using al(2,4-6) len s(2) by (intro exI [of _ i]) (simp add: connected_def n'(1))
qed

text \<open>
  \<open>at_socket\<close> numbers sockets like a POSIX system does descriptors: the number is the smallest one
  not in use, the table stays strictly ordered, no other number changes its socket, and the new one
  names an open socket with an empty receive list and no notice pending.
\<close>

theorem at_socket_number:
  assumes "table_ok (tab n)" and "op_at_socket ops = None" and "at_socket ops ty n = (s, n')" and "0 \<le> s"
  shows "table_ok (tab n') \<and> s \<notin> set (numbers (tab n)) \<and> (\<forall>k. 0 \<le> k \<and> k < s \<longrightarrow> k \<in> set (numbers (tab n)))
    \<and> (\<forall>k. k \<noteq> s \<longrightarrow> at_get_socket n' k = at_get_socket n k)
    \<and> (\<exists>i. connected n' s i \<and> received n' i = [] \<and> recv_notice (sockets n' ! i) = Some 0
        \<and> sk_state (sockets n' ! i) = AT_SOCKET_OPEN)"
  by (intro conjI at_socket_facts [OF assms])

lemma closed_table: "table_ok (tab closed_net)"
  by (simp add: table_ok_def tab_def closed_net_def numbers_def zero_sock_def)

theorem at_socket_number_witness:
  "\<exists>i. connected (snd (at_socket quiet_ops (Some AT_SOCKET_TCP) closed_net)) 0 i"
proof -
  have "at_socket quiet_ops (Some AT_SOCKET_TCP) closed_net = (0, snd (at_socket quiet_ops (Some AT_SOCKET_TCP) closed_net))"
    by (simp add: net_defs numeral_eq_Suc)
  from at_socket_number [OF closed_table _ this] show ?thesis by (auto simp: quiet_ops_def)
qed

section \<open>Closing\<close>

lemma free_table:
  assumes t: "table_ok (tab n)" and i: "i \<in> set (socket_list n)"
  shows "tab (free_socket i n) = (remove1 i (socket_list n), (snd (tab n))[i := (0, 0)])"
proof -
  let ?n = "if recvpkt_list (sockets n ! i) \<noteq> []
      then upd_sock i (\<lambda>sk. sk\<lparr>recvpkt_list := at_recvpkt_all_delete (recvpkt_list sk)\<rparr>) n else n"
  have tab: "tab ?n = tab n" by (simp add: tab_upd)
  have l: "socket_list ?n = socket_list n" by simp
  have ent: "at_get_socket ?n (sk_socket (sockets ?n ! i)) = Some i"
    using get_socket_iff [of ?n "sk_socket (sockets ?n ! i)" i] t i by (simp only: tab l simp_thms)
  have "free_socket i n = upd_sock i (\<lambda>sk. zero_sock) (?n\<lparr>socket_list := remove1 i (socket_list n)\<rparr>)"
    using ent by (simp only: free_socket_def Let_def l option.case)
  moreover have "tab (upd_sock i (\<lambda>sk. zero_sock) (m\<lparr>socket_list := l\<rparr>)) = (l, (snd (tab m))[i := (0, 0)])" for m :: "'a at_net" and l
    by (simp add: tab_def upd_sock_def map_update zero_sock_def)
  ultimately show ?thesis using tab by simp
qed

lemma free_keeps:
  assumes "table_ok (tab n)" and "i \<in> set (socket_list n)"
  shows "table_ok (tab (free_socket i n))"
    and "set (numbers (tab (free_socket i n))) = set (numbers (tab n)) - {sk_socket (sockets n ! i)}"
proof -
  have "tab n = (socket_list n, snd (tab n))" by (simp add: tab_def)
  moreover have "snd (snd (tab n) ! i) = sk_socket (sockets n ! i)"
    using assms by (auto simp: table_ok_def tab_def)
  ultimately show "table_ok (tab (free_socket i n))"
    "set (numbers (tab (free_socket i n))) = set (numbers (tab n)) - {sk_socket (sockets n ! i)}"
    using table_remove [of "socket_list n" "snd (tab n)" i] assms by (simp_all add: free_table)
qed

text \<open>Closing gives the number back, whatever the module answers.\<close>

lemma close_and_free_table:
  assumes t: "table_ok (tab n)" and k: "keeps_table ops" and g: "at_get_socket n s = Some i"
    and c: "close_and_free ops i n = (r, n')"
  shows "table_ok (tab n')" and "set (numbers (tab n')) = set (numbers (tab n)) - {s}"
proof -
  let ?n = "upd_sock i (\<lambda>sk. sk\<lparr>sk_state := AT_SOCKET_CLOSED\<rparr>) n"
  have tab: "tab ?n = tab n" by (simp add: tab_upd)
  obtain n1 where n1: "n' = free_socket i n1" "tab n1 = tab n"
    using c keeps_tableD(2) [OF k, of i ?n] tab
    by (cases "op_closesocket ops i ?n") (auto simp: close_and_free_def Let_def split: if_splits)
  have i: "i \<in> set (socket_list n)" "sk_socket (sockets n ! i) = s" "i < length (sockets n)"
    using g get_socket_iff [OF t] get_socket_bound [OF t g] by auto
  have "socket_list n1 = socket_list n" "sk_socket (sockets n1 ! i) = s"
    using arg_cong [OF n1(2), of fst] arg_cong [OF n1(2), of "\<lambda>t. snd (snd t ! i)"] arg_cong [OF n1(2), of "\<lambda>t. length (snd t)"] i
    by (simp_all add: tab_def)
  with free_keeps [of n1 i] t i(1) show "table_ok (tab n')" "set (numbers (tab n')) = set (numbers (tab n)) - {s}"
    by (simp_all add: n1)
qed

lemma shutdown_keeps:
  assumes "table_ok (tab n)" and "keeps_table ops" and "at_shutdown ops s n = (r, n')"
  shows "table_ok (tab n')" and "set (numbers (tab n')) = set (numbers (tab n)) - {s}"
  using assms close_and_free_table [OF assms(1,2)] get_socket_None [OF assms(1), of s]
  by (auto simp: at_shutdown_def split: option.splits)

lemma closesocket_keeps:
  assumes t: "table_ok (tab n)" and k: "keeps_table ops" and c: "at_closesocket ops s n = Some (r, n')"
  shows "table_ok (tab n')" and "set (numbers (tab n')) = set (numbers (tab n)) - {s}"
proof -
  from c obtain evs n1 n2 where n: "on_world (op_delay ops 100) n = (evs, n1)" "notices ops evs n1 = Some n2"
    "at_shutdown ops s n2 = (r, n')"
    by (auto simp: at_closesocket_def at_shutdown_def bind_eq_Some_conv split: prod.splits)
  have "tab n2 = tab n" using tab_notices [OF n(2)] tab_on_world [OF n(1)] by simp
  with shutdown_keeps [OF _ k n(3)] t show "table_ok (tab n')" "set (numbers (tab n')) = set (numbers (tab n)) - {s}" by simp_all
qed

lemma bind_keeps:
  assumes t: "table_ok (tab n)" and k: "keeps_table ops" and b: "at_bind ops s addr n = Some (r, n')"
  shows "table_ok (tab n')"
proof (cases "at_closesocket ops s n")
  case None
  with t b show ?thesis by (auto simp: at_bind_def Let_def split: option.splits prod.splits if_splits)
next
  case (Some c)
  obtain r1 n1 where c: "c = (r1, n1)" by fastforce
  with closesocket_keeps(1) [OF t k] Some have "table_ok (tab n1)" by blast
  have "op_at_socket ops = None" using k by (simp add: keeps_table_def)
  from alloc_keeps [OF \<open>table_ok (tab n1)\<close> this]
  have "alloc_socket_by_device ops ty n1 = (j, n2) \<Longrightarrow> table_ok (tab n2)" for ty j n2 .
  with t b Some c \<open>table_ok (tab n1)\<close> show ?thesis
    by (auto simp: at_bind_def Let_def tab_upd split: option.splits prod.splits if_splits)
qed

section \<open>Every call keeps the table\<close>

datatype sock_call =
    Socket_Call "at_socket_type option" | Bind_Call int sockaddr | Connect_Call int sockaddr | Shutdown_Call int
  | Close_Call int | Recvfrom_Call int "bytes option" nat bool "sockaddr option"
  | Sendto_Call int "bytes option" "sockaddr option" | Setsockopt_Call int sockopt_level sockopt "timeval option"
  | Notice_Call at_notice

fun sock_step :: "'w at_ops \<Rightarrow> sock_call \<Rightarrow> 'w at_net \<Rightarrow> 'w at_net option" where
  "sock_step ops (Socket_Call ty) n = Some (snd (at_socket ops ty n))"
| "sock_step ops (Bind_Call s a) n = map_option snd (at_bind ops s a n)"
| "sock_step ops (Connect_Call s a) n = Some (snd (at_connect ops s a n))"
| "sock_step ops (Shutdown_Call s) n = Some (snd (at_shutdown ops s n))"
| "sock_step ops (Close_Call s) n = map_option snd (at_closesocket ops s n)"
| "sock_step ops (Recvfrom_Call s m k dw from) n = map_option (\<lambda>(_, _, n). n) (at_recvfrom ops s m k dw from n)"
| "sock_step ops (Sendto_Call s d a) n = Some (snd (at_sendto ops s d a n))"
| "sock_step ops (Setsockopt_Call s l opt v) n = Some (snd (at_setsockopt s l opt v n))"
| "sock_step ops (Notice_Call e) n = notices ops [e] n"

lemma setsockopt_table: "tab (snd (at_setsockopt s l opt v n)) = tab n"
  by (auto simp: at_setsockopt_def Let_def tab_upd split: option.splits sockopt_level.splits sockopt.splits)

interpretation at_table: step_invariant "sock_step ops" "\<lambda>n. keeps_table ops \<and> table_ok (tab n)" for ops
proof (unfold_locales, goal_cases)
  case (1 c n n')
  then have k: "keeps_table ops" and t: "table_ok (tab n)" by simp_all
  have op: "op_at_socket ops = None" using k by (simp add: keeps_table_def)
  have "table_ok (tab n')"
  proof (cases c)
    case (Socket_Call ty)
    with 1 open_keeps [OF t op, of ty] show ?thesis by simp
  next
    case (Bind_Call s a)
    with 1 bind_keeps [OF t k] show ?thesis by auto
  next
    case (Connect_Call s a)
    with 1 tab_connect [OF k] t show ?thesis by (cases "at_connect ops s a n") auto
  next
    case (Shutdown_Call s)
    with 1 shutdown_keeps(1) [OF t k] show ?thesis by (cases "at_shutdown ops s n") auto
  next
    case (Close_Call s)
    with 1 closesocket_keeps(1) [OF t k] show ?thesis by auto
  next
    case (Recvfrom_Call s m l dw src)
    with 1 tab_recvfrom [OF k] t show ?thesis by fastforce
  next
    case (Sendto_Call s d a)
    with 1 tab_sendto [OF k] t show ?thesis by (cases "at_sendto ops s d a n") auto
  next
    case (Setsockopt_Call s l opt v)
    with 1 setsockopt_table [of s l opt v n] t show ?thesis by auto
  next
    case (Notice_Call e)
    with 1 tab_notices [of ops "[e]" n n'] t show ?thesis by simp
  qed
  with k show ?case by simp
qed

text \<open>
  C11: in every state the socket interface can reach from one with an ordered table, by any sequence of
  its calls and of notices from the device, the open sockets have pairwise different numbers, each
  finds its own entry, and an entry is marked exactly when it is in the list.
\<close>

theorem socket_table_invariant:
  assumes "keeps_table ops" and "table_ok (tab n)" and "run_steps (sock_step ops) calls n = Some n'"
  shows "distinct (numbers (tab n')) \<and> (\<forall>s\<in>set (numbers (tab n')). 0 \<le> s)
    \<and> (\<forall>i\<in>set (socket_list n'). at_get_socket n' (sk_socket (sockets n' ! i)) = Some i)
    \<and> (\<forall>i<length (sockets n'). sk_magic (sockets n' ! i) \<noteq> 0 \<longleftrightarrow> i \<in> set (socket_list n'))"
proof -
  have t: "table_ok (tab n')" using at_table.run_keeps [OF assms(3)] assms(1,2) by simp
  moreover from t have "\<forall>i\<in>set (socket_list n'). at_get_socket n' (sk_socket (sockets n' ! i)) = Some i"
    by (simp add: get_socket_iff)
  moreover from t have "distinct (numbers (tab n'))" "\<forall>s\<in>set (numbers (tab n')). 0 \<le> s"
    using sorted_wrt_less_distinct by (auto simp: table_ok_def split: prod.splits)
  moreover from t have "\<forall>i<length (sockets n'). sk_magic (sockets n' ! i) \<noteq> 0 \<longleftrightarrow> i \<in> set (socket_list n')"
    by (auto simp: table_ok_def tab_def AT_SOCKET_MAGIC_def)
  ultimately show ?thesis by simp
qed

lemma quiet_keeps_table: "keeps_table quiet_ops"
  by (simp add: keeps_table_def quiet_ops_def)

theorem socket_table_invariant_witness:
  "\<exists>n'. run_steps (sock_step quiet_ops) [Socket_Call (Some AT_SOCKET_TCP), Socket_Call (Some AT_SOCKET_UDP), Shutdown_Call 0]
      closed_net = Some n' \<and> distinct (numbers (tab n'))"
  using socket_table_invariant [OF quiet_keeps_table closed_table,
      of "[Socket_Call (Some AT_SOCKET_TCP), Socket_Call (Some AT_SOCKET_UDP), Shutdown_Call 0]"] by simp

section \<open>What goes wrong\<close>

text \<open>
  An \<open>at_socket\<close> that finds no memory for its kernel objects returns -1 but keeps the entry of the
  device marked and listed: one entry fewer is free, and nobody knows the number to close it.
\<close>

definition free_count :: "'w at_net \<Rightarrow> nat" where
  "free_count n = length (filter (\<lambda>sk. sk_magic sk = 0) (sockets n))"

lemma length_filter_update:
  "i < length xs \<Longrightarrow> P (xs ! i) \<Longrightarrow> \<not> P y \<Longrightarrow> Suc (length (filter P (xs[i := y]))) = length (filter P xs)"
  by (induction xs arbitrary: i) (auto split: nat.splits)

theorem failed_socket_leaks:
  assumes t: "table_ok (tab n)" and op: "op_at_socket ops = None" and nd: "op_netdev ops (world n) = (True, w)"
    and mem: "op_alloc ops w = (False, w')" and free: "free_entry (sockets n) < length (sockets n)"
  shows "\<exists>n'. at_socket ops (Some ty) n = (- 1, n') \<and> Suc (free_count n') = free_count n
    \<and> length (numbers (tab n')) = Suc (length (numbers (tab n)))"
proof -
  let ?i = "free_entry (sockets n)" and ?n = "n\<lparr>world := w\<rparr>"
  obtain r n' where a: "alloc_socket_by_device ops ty ?n = (r, n')" by fastforce
  have r: "r = None" using a op mem free
    by (auto simp: alloc_socket_by_device_def alloc_empty_socket_def Let_def on_world_def)
  from alloc_table [OF _ op a] t free have tab: "tab n' = (take (alloc_walk (sockets n) (socket_list n) 0) (socket_list n) @ [?i]
      @ drop (alloc_walk (sockets n) (socket_list n) 0) (socket_list n),
      (snd (tab n))[?i := (AT_SOCKET_MAGIC, int (alloc_walk (sockets n) (socket_list n) 0))])" by simp
  have c: "free_count m = length (filter (\<lambda>e. fst e = 0) (snd (tab m)))" for m :: "'a at_net"
    by (simp add: free_count_def tab_def filter_map o_def)
  have "Suc (free_count n') = free_count n"
    using free free_entry_free [OF free] length_filter_update [of ?i "snd (tab n)" "\<lambda>e. fst e = 0"]
    by (simp add: c tab AT_SOCKET_MAGIC_def) (simp add: tab_def)
  moreover have "length (numbers (tab n')) = Suc (length (numbers (tab n)))"
    by (simp add: tab numbers_def split: prod.split) (simp add: tab_def)
  ultimately show ?thesis using a r nd by (simp add: at_socket_def alloc_socket_def on_world_def)
qed

theorem failed_socket_leaks_witness:
  "\<exists>n'. at_socket (quiet_ops\<lparr>op_alloc := \<lambda>w. (False, w)\<rparr>) (Some AT_SOCKET_TCP) closed_net = (- 1, n') \<and> Suc (free_count n') = 5"
  using failed_socket_leaks [OF closed_table, of "quiet_ops\<lparr>op_alloc := \<lambda>w. (False, w)\<rparr>" "()" "()" AT_SOCKET_TCP]
  by (auto simp: quiet_ops_def closed_net_def free_entry_def free_count_def zero_sock_def numeral_eq_Suc)

text \<open>
  \<open>at_bind\<close> takes the result of \<open>ip_addr_cmp\<close> the wrong way round: an address that is not the
  device's own is accepted without any effect, and binding to the device's own address closes the
  socket.
\<close>

lemma alloc_not_connected:
  assumes t: "table_ok (tab n)" and op: "op_at_socket ops = None" and a: "alloc_socket_by_device ops ty n = (r, n')"
    and s: "at_get_socket n s = None" and g: "at_get_socket n' s = Some j"
  shows "sk_state (sockets n' ! j) = AT_SOCKET_NONE \<and> j < length (sockets n') \<and> (r = None \<or> r = Some j)"
proof -
  let ?i = "free_entry (sockets n)" and ?idx = "alloc_walk (sockets n) (socket_list n) 0"
  from alloc_table [OF t op a] s g have al: "?i < length (sockets n)"
    "tab n' = (take ?idx (socket_list n) @ [?i] @ drop ?idx (socket_list n), (snd (tab n))[?i := (AT_SOCKET_MAGIC, int ?idx)])"
    "sk_state (sockets n' ! ?i) = AT_SOCKET_NONE" "r = None \<or> r = Some ?i" by auto
  have t': "table_ok (tab n')" by (rule alloc_keeps [OF t op a])
  have len: "length (sockets n') = length (sockets n)" using arg_cong [OF al(2), of "\<lambda>t. length (snd t)"] by (simp add: tab_def)
  have l: "set (socket_list n') = insert ?i (set (socket_list n))"
    using arg_cong [OF al(2), of fst] by (simp add: tab_def) (metis append_take_drop_id set_append Un_insert_right)
  have "j = ?i"
  proof (rule ccontr)
    assume j: "j \<noteq> ?i"
    with g l have m: "j \<in> set (socket_list n)" "sk_socket (sockets n' ! j) = s" by (auto simp: get_socket_iff [OF t'])
    then have "j < length (sockets n)" using t by (auto simp: table_ok_def tab_def)
    then have "sk_socket (sockets n' ! j) = sk_socket (sockets n ! j)"
      using arg_cong [OF al(2), of "\<lambda>t. snd (snd t ! j)"] j len by (simp add: tab_def)
    with m have "at_get_socket n s = Some j" by (simp add: get_socket_iff [OF t])
    with s show False by simp
  qed
  with al len show ?thesis by simp
qed

theorem bind_inverted:
  assumes t: "table_ok (tab n)" and k: "keeps_table ops" and g: "at_get_socket n s = Some i"
    and d: "op_delay ops 100 (world n) = ([], w)"
  shows "(s_addr addr \<noteq> op_local_ip ops (world n) \<longrightarrow> at_bind ops s addr n = Some (0, n))
    \<and> (s_addr addr = op_local_ip ops (world n) \<longrightarrow>
        (\<exists>r n'. at_bind ops s addr n = Some (r, n')
          \<and> (\<forall>j. at_get_socket n' s = Some j \<longrightarrow> sk_state (sockets n' ! j) \<noteq> AT_SOCKET_CONNECT)))"
proof (intro conjI impI)
  assume "s_addr addr \<noteq> op_local_ip ops (world n)"
  then show "at_bind ops s addr n = Some (0, n)"
    using g by (simp add: at_bind_def ip_addr_cmp_def socketaddr_to_ipaddr_port_def)
next
  assume ip: "s_addr addr = op_local_ip ops (world n)"
  obtain r n1 where c: "at_closesocket ops s n = Some (r, n1)"
    using d by (auto simp: at_closesocket_def on_world_def split: option.splits) (metis surj_pair)
  from closesocket_keeps [OF t k c] have n1: "table_ok (tab n1)" "at_get_socket n1 s = None" by (simp_all add: get_socket_None)
  obtain r2 n2 where a: "alloc_socket_by_device ops (sk_type (sockets n ! i)) n1 = (r2, n2)" by fastforce
  have op: "op_at_socket ops = None" using k by (simp add: keeps_table_def)
  note al = alloc_not_connected [OF n1(1) op a n1(2)]
  show "\<exists>r n'. at_bind ops s addr n = Some (r, n')
      \<and> (\<forall>j. at_get_socket n' s = Some j \<longrightarrow> sk_state (sockets n' ! j) \<noteq> AT_SOCKET_CONNECT)"
  proof (cases "r < 0 \<or> \<not> op_device_by_ip ops (s_addr addr) (world n1)")
    case True
    then have "at_bind ops s addr n = Some (- 1, n1)"
      using g ip c by (auto simp: at_bind_def Let_def ip_addr_cmp_def socketaddr_to_ipaddr_port_def)
    with n1(2) show ?thesis by auto
  next
    case False
    let ?f = "\<lambda>sk. sk\<lparr>sk_type := sk_type (sockets n ! i), sk_state := AT_SOCKET_OPEN\<rparr>"
    have "at_bind ops s addr n = (case r2 of None \<Rightarrow> Some (- 1, n2) | Some j \<Rightarrow> Some (0, upd_sock j ?f n2))"
      using False g ip c a by (auto simp: at_bind_def Let_def ip_addr_cmp_def socketaddr_to_ipaddr_port_def split: option.split)
    with al show ?thesis by (cases r2) (auto simp: get_socket_upd)
  qed
qed

lemma open_table: "table_ok (tab open_net)"
  by (simp add: table_ok_def tab_def open_net_eq numbers_def zero_sock_def nth_Cons split: nat.split)

theorem bind_inverted_witness:
  "at_bind quiet_ops 0 \<lparr>s_addr = 2, sin_port = 0\<rparr> open_net = Some (0, open_net)
   \<and> (\<exists>r n'. at_bind quiet_ops 0 \<lparr>s_addr = 1, sin_port = 0\<rparr> open_net = Some (r, n'))"
  using bind_inverted [OF open_table quiet_keeps_table, of 0 0 "()" "\<lparr>s_addr = 2, sin_port = 0\<rparr>"]
    bind_inverted [OF open_table quiet_keeps_table, of 0 0 "()" "\<lparr>s_addr = 1, sin_port = 0\<rparr>"] open_net_connected(1)
  by (auto simp: quiet_ops_def open_net_eq connected_def)

end
