(* ===== verification/Esp8266_Errors.thy ===== *)
theory Esp8266_Errors
  imports Esp8266_Receive
begin

text \<open>
  What the ESP8266 driver reports when the module does not do its part: a close that nobody answers,
  and a name that is not resolved, are both reported as success.
\<close>

section \<open>A silent module\<close>

lemma readline_silent: "rx c = [] \<Longrightarrow> at_recv_readline c = None"
  by (simp add: at_recv_readline_def readline_loop.simps)

text \<open>
  When the module does not answer the close command at all, the command ends with a timeout, but
  the close reports success: the comparison with UNLINK is over as many bytes as the answer has,
  which is none.
\<close>

theorem esp_close_unanswered:
  assumes "status c \<noteq> AT_STATUS_CLI" and "rx c = []"
    and "modem (at_vprintfln (ascii ''AT+CIPCLOSE='' @ fmt_d (device_socket_of i d))) d = ((len, []), d')"
  shows "\<exists>c'. esp8266_socket_close ops modem True i (c, d) = Some (0, c', d') \<and> resp_status c' = AT_RESP_TIMEOUT"
proof -
  have "ascii ''AT+CIPCLOSE='' @ fmt_d (device_socket_of i d) \<noteq> []" by simp
  with assms show ?thesis
    by (simp add: esp8266_socket_close_def at_create_resp_def exec_resp_def at_obj_exec_cmd_def at_utils_send_def
      readline_silent Let_def)
qed

definition mute_modem :: "unit esp_dev modem" where
  "mute_modem bs d = ((length bs, []), d)"

lemma esp_close_unanswered_witness:
  "\<exists>c'. esp8266_socket_close quiet_ops mute_modem True 0 (esp_client, esp_device) = Some (0, c', esp_device)
    \<and> resp_status c' = AT_RESP_TIMEOUT"
  using esp_close_unanswered [of esp_client mute_modem 0 esp_device _ esp_device quiet_ops]
  by (simp add: esp_client_def blank_client_def mute_modem_def)

section \<open>A name without an address\<close>

lemma is_line_esp:
  assumes c: "esp_tables c" "end_sign c = 0" and l: "10 \<notin> set l" "58 \<notin> set l"
  shows "is_line c (l @ CRLF)"
proof -
  have "\<not> ends c (take k (l @ CRLF))" if k: "0 < k" "k < length (l @ CRLF)" for k
  proof
    assume e: "ends c (take k (l @ CRLF))"
    have t: "take k (l @ CRLF) = take k (l @ [13])" using k(2) unfolding CRLF_def by (cases "k \<le> length l") (auto simp: le_Suc_eq not_le less_Suc_eq)
    have "take k (l @ [13]) \<noteq> []" using k(1) by simp
    then have "last (take k (l @ [13])) \<in> set (l @ [13])" by (meson last_in_set in_set_takeD)
    then have n: "last (take k (l @ [13])) \<noteq> 10" "last (take k (l @ [13])) \<noteq> 58" using l by auto
    from e [unfolded t ends_def] urc_tables_end [OF c(1)] c(2) n show False by (auto simp: CRLF_def)
  qed
  moreover have "ends c (l @ CRLF)" by (auto simp: ends_def)
  ultimately show ?thesis by (simp add: is_line_def CRLF_def)
qed

lemma ok_line:
  assumes c: "esp_tables c" "end_sign c = 0"
  shows "answer_line c (ascii ''OK'')"
proof -
  have "\<not> urc_text urc (ascii ''OK'' @ CRLF)" if "urc \<in> set device_urc_table \<union> set socket_urc_table" for urc
    using that urc_matches_text [of "ascii ''OK'' @ CRLF" "ascii ''OK'' @ CRLF" urc]
    by (auto simp: device_urc_table_def socket_urc_table_def urc_matches_def CRLF_def of_char_def)
  then have "no_urc c (ascii ''OK'' @ CRLF)" using c(1) by (auto simp: no_urc_def esp_tables_def)
  moreover have "is_line c (ascii ''OK'' @ CRLF)" by (rule is_line_esp [OF c]) (simp_all add: of_char_def)
  ultimately show ?thesis using c(1) by (simp add: answer_line_def esp_tables_def of_char_def)
qed

text \<open>A command that is answered with OK only.\<close>

definition idle :: "esp_urc at_client \<Rightarrow> bool" where
  "idle c \<longleftrightarrow> esp_tables c \<and> end_sign c = 0 \<and> status c \<noteq> AT_STATUS_CLI \<and> rx c = []"

definition roomy :: "at_response \<Rightarrow> bool" where
  "roomy r \<longleftrightarrow> length (resp_buf r) = resp_buf_size r \<and> 4 < resp_buf_size r \<and> line_num r = 0"

lemma exec_only_ok:
  assumes c: "idle c" and r: "roomy r" and cmd: "cmd \<noteq> []"
    and m: "modem (at_vprintfln cmd) d = ((len, line_wire [ascii ''OK'']), d)"
  shows "\<exists>r' c'. exec_resp ops modem r cmd (c, d) = Some (0, r', c', d) \<and> idle c' \<and> roomy r' \<and> keeps r' [ascii ''OK'' @ [13]]"
proof -
  have "modem (at_vprintfln cmd) d = ((len, line_wire ([] @ [ascii ''OK'']) @ []), d)" using m by simp
  from exec_cmd_answer [where ls = "[]" and fin = "ascii ''OK''" and w = "[]" and modem = modem and s = d and c = c and r = r,
      OF _ _ _ _ cmd this, of "urc_call ops"] c r ok_line [of c] sample_lines(4)
  obtain c' where c': "at_obj_exec_cmd (urc_call ops) modem (Some r) cmd (c, d) = Some (0, c', d)" "rx c' = []"
    "response c' = add_line (r\<lparr>resp_buf_len := 0, line_counts := 0\<rparr>) (ascii ''OK'' @ [13])"
    by (auto simp: idle_def roomy_def simp del: ascii_simps)
  have e: "exec_resp ops modem r cmd (c, d) = Some (0, response c', c', d)"
    using c'(1) c by (simp add: exec_resp_def idle_def)
  have "same_tables c c'" using exec_resp_writes [OF e cmd] by simp
  then have "idle c'" using c c'(2) by (auto simp: idle_def esp_tables_def same_tables_def)
  moreover have "keeps (response c') ([] @ [ascii ''OK'' @ [13]])"
    unfolding c'(3) using r by (intro keeps_add) (simp_all add: keeps_def roomy_def of_char_def)
  then have k: "keeps (response c') [ascii ''OK'' @ [13]]" by simp
  then have "roomy (response c')" using r c'(3) by (simp add: roomy_def keeps_def)
  ultimately show ?thesis using e k by blast
qed

lemma ok_no_address:
  assumes "keeps r [ascii ''OK'' @ [13]]"
  shows "at_resp_parse_line_args_by_kw r (ascii ''+CIPDOMAIN:'') scan_cipdomain = Some (- 1, None)"
proof -
  let ?z = "drop (resp_buf_len r) (resp_buf r)"
  have b: "resp_buf r = (ascii ''OK'' @ [13]) @ 0 # ?z" and n: "line_counts r = 1"
    using assms append_take_drop_id [of "resp_buf_len r" "resp_buf r"] by (simp_all add: keeps_def)
  have "0 \<notin> set (ascii ''OK'' @ [13])" by code_simp
  then have "cstr (resp_buf r) = ascii ''OK'' @ [13]" by (subst b) (rule cstr_append_nul)
  moreover have "0 \<in> set (resp_buf r)" by (subst b) simp
  moreover have "\<not> c_strstr (ascii ''OK'' @ [13]) (cstr (ascii ''+CIPDOMAIN:''))" by code_simp
  ultimately show ?thesis
    by (simp add: at_resp_parse_line_args_by_kw_def at_resp_get_line_by_kw_def n strlen_at_def del: ascii_simps)
qed

lemma resolve_loop_nothing:
  assumes "idle c" and "roomy r" and "c_strlen recv_ip < 8"
    and "modem (at_vprintfln (ascii ''AT+CIPDOMAIN=\"'' @ cstr name @ ascii ''\"'')) d = ((len, line_wire [ascii ''OK'']), d)"
  shows "\<exists>c'. resolve_loop ops modem name k r recv_ip ip (c, d) = Some (0, ip, c', d)"
  using assms(1,2)
proof (induction k arbitrary: r c)
  case (Suc k)
  have "ascii ''AT+CIPDOMAIN=\"'' @ cstr name @ ascii ''\"'' \<noteq> []" by simp
  from exec_only_ok [where modem = modem and d = d, OF Suc.prems this assms(4), of ops] obtain r' c' where
    e: "exec_resp ops modem r (ascii ''AT+CIPDOMAIN=\"'' @ cstr name @ ascii ''\"'') (c, d) = Some (0, r', c', d)"
      "idle c'" "roomy r'" "keeps r' [ascii ''OK'' @ [13]]" by blast
  from Suc.IH [OF e(2,3)] show ?case using e(1) ok_no_address [OF e(4)] by (simp del: ascii_simps)
qed simp

text \<open>
  When the module answers each of the five queries with OK but no address, the resolution returns
  success and leaves the caller's address as it was.
\<close>

theorem esp_resolve_without_address:
  assumes "is_init d" and "idle c"
    and "modem (at_vprintfln (ascii ''AT+CIPDOMAIN=\"'' @ cstr name @ ascii ''\"'')) d = ((len, line_wire [ascii ''OK'']), d)"
  shows "\<exists>c'. esp8266_domain_resolve ops modem True name ip (c, d) = Some (0, ip, c', d)"
proof -
  obtain r where r: "at_create_resp True True 128 0 20000 = Some r" "roomy r"
    by (simp add: at_create_resp_def roomy_def)
  have "c_strlen (replicate 16 0) < 8" by (simp add: c_strlen_def cstr_def)
  from resolve_loop_nothing [where modem = modem and d = d and name = name, OF assms(2) r(2) this assms(3), of ops 5 ip] show ?thesis
    using assms(1) r(1) by (simp add: esp8266_domain_resolve_def)
qed

definition ok_modem :: "unit esp_dev modem" where
  "ok_modem bs d = ((length bs, line_wire [ascii ''OK'']), d)"

lemma esp_resolve_without_address_witness:
  "\<exists>c'. esp8266_domain_resolve quiet_ops ok_modem True (ascii ''broker'') (replicate 16 0) (esp_client, esp_device)
    = Some (0, replicate 16 0, c', esp_device)"
proof (rule esp_resolve_without_address)
  show "is_init esp_device" by (simp add: esp_device_def)
  have "esp_client = esp_client\<lparr>rx := []\<rparr>" by (simp add: esp_client_def blank_client_def)
  with esp_client_tables [of "[]"] show "idle esp_client" by (simp add: idle_def) (simp add: esp_client_def blank_client_def)
qed (simp only: ok_modem_def)

end
