(* ===== verification/Mifare_Blocks.thy ===== *)
theory Mifare_Blocks
  imports Mifare
begin

text \<open>
  What the MIFARE routines write they read back: the access bits of a sector and the number in a value
  block. The names of codes and types, on the other hand, are all the same.
\<close>

section \<open>Words by their bits\<close>

lemma three_bits: "(g :: u8) < 8 \<Longrightarrow> 3 \<le> n \<Longrightarrow> \<not> bit g n"
proof -
  assume g: "g < 8" and n: "3 \<le> n"
  have "take_bit 3 g = g" using mod_word_less [OF g] by (simp add: take_bit_eq_mod)
  then have "bit g n = bit (take_bit 3 g) n" by simp
  then show "\<not> bit g n" using n by (simp add: bit_take_bit_iff)
qed

lemmas word_bits = bit_or_iff bit_and_iff bit_not_iff bit_push_bit_iff bit_drop_bit_eq comp_def


lemma bit_small: "bit (1 :: u8) n \<longleftrightarrow> n = 0" "bit (2 :: u8) n \<longleftrightarrow> n = 1" "bit (4 :: u8) n \<longleftrightarrow> n = 2" "bit (8 :: u8) n \<longleftrightarrow> n = 3"
  using bit_exp_iff [where ?'a = u8, of 0 n] bit_exp_iff [where ?'a = u8, of 1 n] bit_exp_iff [where ?'a = u8, of 2 n]
    bit_exp_iff [where ?'a = u8, of 3 n]
  by auto

lemma bit_nibble_mask: "bit (0xF :: u8) n \<longleftrightarrow> n < 4"
  using bit_mask_iff [where ?'a = u8, of 4 n] by (auto simp: mask_eq_exp_minus_1)

section \<open>Access bits\<close>

text \<open>Bit \<open>j\<close> of a nibble is the nibble's bit of group \<open>j\<close>.\<close>

definition group_nibble :: "nat \<Rightarrow> u8 \<Rightarrow> u8 \<Rightarrow> u8 \<Rightarrow> u8 \<Rightarrow> u8" where
  "group_nibble k g0 g1 g2 g3 = push_bit 3 (of_bool (bit g3 k)) OR push_bit 2 (of_bool (bit g2 k)) OR push_bit 1 (of_bool (bit g1 k)) OR of_bool (bit g0 k)"

lemma bit_nibble: "bit (group_nibble k g0 g1 g2 g3) n
    \<longleftrightarrow> (n = 0 \<and> bit g0 k \<or> n = 1 \<and> bit g1 k \<or> n = 2 \<and> bit g2 k \<or> n = 3 \<and> bit g3 k)"
  unfolding group_nibble_def word_bits bit_of_bool_iff by auto

lemma set_nibbles:
  "push_bit 1 (g3 AND 4) OR (g2 AND 4) OR drop_bit 1 (g1 AND 4) OR drop_bit 2 (g0 AND 4) = group_nibble 2 g0 g1 g2 g3"
  "push_bit 2 (g3 AND 2) OR push_bit 1 (g2 AND 2) OR (g1 AND 2) OR drop_bit 1 (g0 AND 2) = group_nibble 1 g0 g1 g2 g3"
  "push_bit 3 (g3 AND 1) OR push_bit 2 (g2 AND 1) OR push_bit 1 (g1 AND 1) OR (g0 AND 1) = group_nibble 0 g0 g1 g2 g3"
  by (rule bit_eqI; unfold word_bits bit_nibble bit_small; auto simp: numeral_2_eq_2 numeral_3_eq_3)+

definition nibble :: "u8 \<Rightarrow> bool" where
  "nibble x \<longleftrightarrow> (\<forall>n\<ge>4. \<not> bit x n)"

lemma nibbleD: "nibble x \<Longrightarrow> bit x n \<Longrightarrow> n < 4"
  using not_less by (auto simp: nibble_def)

lemma unpack_nibbles:
  assumes "nibble x" and "nibble y"
  shows "drop_bit 4 (push_bit 4 x OR y) = x" "(push_bit 4 x OR y) AND 0xF = y"
proof -
  show "drop_bit 4 (push_bit 4 x OR y) = x"
    by (rule bit_eqI, unfold word_bits) (auto dest: nibbleD [OF assms(1)] nibbleD [OF assms(2)])
  show "(push_bit 4 x OR y) AND 0xF = y"
    by (rule bit_eqI, unfold word_bits bit_nibble_mask) (auto dest: nibbleD [OF assms(1)] nibbleD [OF assms(2)])
qed

lemma not_nibble: "nibble x \<Longrightarrow> NOT (NOT x AND 0xF) AND 0xF = x"
  by (rule bit_eqI, unfold word_bits bit_nibble_mask) (auto dest: nibbleD)

lemma nibble_high: "nibble (group_nibble k g0 g1 g2 g3)" "nibble (NOT x AND 0xF)"
  by (auto simp: nibble_def bit_nibble bit_and_iff bit_nibble_mask simp del: bit_numeral_word_iff)

lemma group_back:
  assumes "g0 < 8" "g1 < 8" "g2 < 8" "g3 < 8"
  defines "c1 \<equiv> group_nibble 2 g0 g1 g2 g3" and "c2 \<equiv> group_nibble 1 g0 g1 g2 g3" and "c3 \<equiv> group_nibble 0 g0 g1 g2 g3"
  shows "push_bit 2 (c1 AND 1) OR push_bit 1 (c2 AND 1) OR (c3 AND 1) = g0"
    "push_bit 1 (c1 AND 2) OR (c2 AND 2) OR drop_bit 1 (c3 AND 2) = g1"
    "(c1 AND 4) OR drop_bit 1 (c2 AND 4) OR drop_bit 2 (c3 AND 4) = g2"
    "drop_bit 1 (c1 AND 8) OR drop_bit 2 (c2 AND 8) OR drop_bit 3 (c3 AND 8) = g3"
proof -
  have n: "n = 0 \<or> n = 1 \<or> n = 2 \<or> 3 \<le> n" for n :: nat by linarith
  have eq: "a = b" if "bit a 0 = bit b 0" "bit a 1 = bit b 1" "bit a 2 = bit b 2" "\<And>n. 3 \<le> n \<Longrightarrow> \<not> bit a n" "\<And>n. 3 \<le> n \<Longrightarrow> \<not> bit b n"
    for a b :: u8 using that n by (metis bit_word_eqI)
  note high = three_bits [OF assms(1)] three_bits [OF assms(2)] three_bits [OF assms(3)] three_bits [OF assms(4)]
  show "push_bit 2 (c1 AND 1) OR push_bit 1 (c2 AND 1) OR (c3 AND 1) = g0"
    by (rule eq; (unfold word_bits bit_nibble bit_small c1_def c2_def c3_def)?; auto simp: high)
  show "push_bit 1 (c1 AND 2) OR (c2 AND 2) OR drop_bit 1 (c3 AND 2) = g1"
    by (rule eq; (unfold word_bits bit_nibble bit_small c1_def c2_def c3_def)?; auto simp: high)
  show "(c1 AND 4) OR drop_bit 1 (c2 AND 4) OR drop_bit 2 (c3 AND 4) = g2"
    by (rule eq; (unfold word_bits bit_nibble bit_small c1_def c2_def c3_def)?; auto simp: high)
  show "drop_bit 1 (c1 AND 8) OR drop_bit 2 (c2 AND 8) OR drop_bit 3 (c3 AND 8) = g3"
    by (rule eq; (unfold word_bits bit_nibble bit_small c1_def c2_def c3_def)?; auto simp: high)
qed

text \<open>
  C29: the access bits of a sector come back. For four groups of three bits, the three bytes
  \<open>MIFARE_SetAccessBits\<close> computes, put in their place in the sector trailer, are taken apart by the reading of a
  trailer to the same four groups, with no error in the inverted bits.
\<close>

theorem access_bits_roundtrip:
  assumes "g0 < 8" "g1 < 8" "g2 < 8" "g3 < 8" and "length old = 3" and "9 \<le> length trailer"
  shows "\<exists>bits. MIFARE_SetAccessBits old g0 g1 g2 g3 = Some bits \<and> length bits = 3
    \<and> access_groups (take 6 trailer @ bits @ drop 9 trailer) = Some ([g0, g1, g2, g3], False)"
proof -
  let ?c1 = "group_nibble 2 g0 g1 g2 g3" and ?c2 = "group_nibble 1 g0 g1 g2 g3" and ?c3 = "group_nibble 0 g0 g1 g2 g3"
  let ?b6 = "push_bit 4 (NOT ?c2 AND 0xF) OR (NOT ?c1 AND 0xF)" and ?b7 = "push_bit 4 ?c1 OR (NOT ?c3 AND 0xF)" and ?b8 = "push_bit 4 ?c3 OR ?c2"
  have s: "MIFARE_SetAccessBits old g0 g1 g2 g3 = Some [?b6, ?b7, ?b8]"
    unfolding MIFARE_SetAccessBits_def set_nibbles Let_def using assms(5) by (simp add: blit_def)
  have at: "rd (take 6 trailer @ [?b6, ?b7, ?b8] @ drop 9 trailer) 6 = Some ?b6" "rd (take 6 trailer @ [?b6, ?b7, ?b8] @ drop 9 trailer) 7 = Some ?b7"
    "rd (take 6 trailer @ [?b6, ?b7, ?b8] @ drop 9 trailer) 8 = Some ?b8"
    using assms(6) by (simp_all add: rd_def nth_append del: push_bit_Suc)
  note u = unpack_nibbles [OF nibble_high(1) nibble_high(1)] unpack_nibbles [OF nibble_high(1) nibble_high(2)] unpack_nibbles [OF nibble_high(2) nibble_high(2)]
  have "access_groups (take 6 trailer @ [?b6, ?b7, ?b8] @ drop 9 trailer) = Some ([g0, g1, g2, g3], False)"
    unfolding access_groups_def at Option.bind.bind_lunit Let_def u not_nibble [OF nibble_high(1)] group_back [OF assms(1-4)] by simp
  with s show ?thesis by simp
qed

theorem access_bits_roundtrip_witness:
  "\<exists>bits. MIFARE_SetAccessBits [0, 0, 0] 1 6 0 4 = Some bits \<and> access_groups (replicate 6 0xFF @ bits @ replicate 7 0xFF) = Some ([1, 6, 0, 4], False)"
  using access_bits_roundtrip [of 1 6 0 4 "[0, 0, 0]" "replicate 16 0xFF"] by auto

section \<open>Value blocks\<close>

lemma split_u32: "push_bit 24 (ucast (ucast (drop_bit 24 (v AND 0xFF000000)) :: u8)) OR push_bit 16 (ucast (ucast (drop_bit 16 (v AND 0xFF0000)) :: u8))
    OR push_bit 8 (ucast (ucast (drop_bit 8 (v AND 0xFF00)) :: u8)) OR ucast (ucast (v AND 0xFF) :: u8) = (v :: u32)" (is "?l = v")
proof -
  have m: "0xFF000000 = push_bit 24 (mask 8 :: u32)" "0xFF0000 = push_bit 16 (mask 8 :: u32)" "0xFF00 = push_bit 8 (mask 8 :: u32)" "0xFF = (mask 8 :: u32)"
    by (simp_all add: mask_eq_exp_minus_1)
  have "bit ?l n \<longleftrightarrow> bit v n" if n: "n < 32" for n
  proof -
    consider "n < 8" | "8 \<le> n" "n < 16" | "16 \<le> n" "n < 24" | "24 \<le> n" by linarith
    then show ?thesis
      unfolding m word_bits bit_unsigned_iff bit_mask_iff by cases (use n in auto)
  qed
  then show ?thesis by (intro bit_word_eqI) auto
qed

text \<open>
  The number in a value block comes back. \<open>MIFARE_SetValue\<close> builds the 16 bytes of the block from
  the number, all 32 bits of it, negative numbers included; \<open>MIFARE_GetValue\<close>'s decoding of them gives the
  number again; and the block has the redundancy the card demands: the number three times, once inverted, and the
  address four times, twice inverted.
\<close>

theorem value_block_roundtrip:
  "block_value (value_block v a) = Some v \<and> length (value_block v a) = 16
   \<and> take 4 (drop 4 (value_block v a)) = map (NOT) (take 4 (value_block v a))
   \<and> take 4 (drop 8 (value_block v a)) = take 4 (value_block v a) \<and> drop 12 (value_block v a) = [a, NOT a, a, NOT a]"
  using split_u32 [of v] by (simp add: value_block_def block_value_def rd_def Let_def)

section \<open>Names\<close>

lemma copy_all_last: "length b = 51 \<Longrightarrow> \<forall>t\<in>set ts. length t < 50 \<Longrightarrow> length t < 50 \<Longrightarrow>
    \<exists>b'. copy_all (ts @ [t]) b = Some b' \<and> length b' = 51 \<and> (\<exists>r. b' = ascii t @ 0 # r)"
proof (induction ts arbitrary: b)
  case Nil
  let ?n = "50 - length t"
  have "replicate ?n (0 :: u8) = 0 # replicate (?n - 1) 0" using Nil.prems(3) by (metis Suc_diff_1 replicate_Suc zero_less_diff)
  with Nil.prems show ?case by (simp add: c_strncpy_def blit_def ascii_def)
next
  case (Cons a ts)
  let ?b = "take 50 (ascii a) @ replicate (50 - length a) 0 @ drop 50 b"
  have "c_strncpy b (ascii a) 50 = Some ?b" "length ?b = 51" using Cons.prems by (simp_all add: c_strncpy_def blit_def ascii_def)
  with Cons.IH [of ?b] Cons.prems show ?case by simp
qed

lemma switch_last:
  assumes "length msg = 51" and "\<forall>c\<in>set cases. length (snd c) < 50" and "length u < 50" and "0 \<notin> set (ascii u)"
  shows "\<exists>m. copy_all (switch_texts cases x [u]) msg = Some m \<and> cstr m = ascii u"
proof -
  have "\<forall>t\<in>set (map snd (dropWhile (\<lambda>(c, _). c \<noteq> x) cases)). length t < 50"
    using assms(2) by (auto dest!: set_dropWhileD)
  from copy_all_last [OF assms(1) this assms(3)] show ?thesis
    using cstr_append_nul [OF assms(4)] by (auto simp: switch_texts_def)
qed

text \<open>
  The name of a status code says nothing. Since the cases of the \<open>switch\<close> in \<open>GetStatusCodeName\<close> do not
  end, the last text overwrites the one that was meant: for every code, success included, the buffer
  holds \<open>Unknown error\<close>; in the same way \<open>PICC_GetTypeName\<close> says \<open>Unknown type\<close> for every type.
\<close>

theorem names_say_nothing:
  assumes "length msg = 51"
  shows "\<exists>m1 m2. GetStatusCodeName code msg = Some m1 \<and> cstr m1 = ascii ''Unknown error''
    \<and> PICC_GetTypeName t msg = Some m2 \<and> cstr m2 = ascii ''Unknown type''"
proof -
  have "0 \<notin> set (ascii ''Unknown error'')" "0 \<notin> set (ascii ''Unknown type'')" by code_simp+
  then show ?thesis
    using switch_last [OF assms, where u = "''Unknown error''" and x = code] switch_last [OF assms, where u = "''Unknown type''" and x = t]
    unfolding GetStatusCodeName_def PICC_GetTypeName_def by simp
qed

theorem names_say_nothing_witness:
  "\<exists>m1 m2. GetStatusCodeName STATUS_OK (replicate 51 0x20) = Some m1 \<and> cstr m1 = ascii ''Unknown error''
    \<and> PICC_GetTypeName PICC_TYPE_MIFARE_1K (replicate 51 0x20) = Some m2 \<and> cstr m2 = ascii ''Unknown type''"
  by (rule names_say_nothing) simp

end
