(* ===== verification/Rc522_Errors.thy ===== *)
theory Rc522_Errors
  imports Rc522_Select Picc_Safety Mifare
begin

text \<open>
  Where the driver of the reader's chip does not do what it says: the reading of an answer that starts
  within a byte, and the check of an answer that is nothing but its checksum.
\<close>

section \<open>An answer that starts within a byte\<close>

text \<open>
  C37: the byte-aligned part of an answer that starts within a byte is read one byte late. When some bits of a
  byte are known already (\<open>rxAlign\<close>), the first byte of the answer should be merged into that byte and the
  others follow it; the driver has the chip send the register once more before it looks: the first byte
  is lost, the bits merged are the second byte's, and the byte behind it is what the chip sends
  for address \<open>0x7F\<close>. So a collision that is not at the end of a byte cannot be resolved.
\<close>

theorem aligned_read_loses_byte:
  assumes "wired R E look store" and "look w = (c, Deselected)" and "ch_fifo c = b0 # b1 # bs @ rest" and "unat n = length bs + 2"
    and "rxAlign \<noteq> 0" and "off + length bs + 2 \<le> length vals"
  shows "PCD_ReadRegister R FIFODataReg n vals off rxAlign w
    = Some (take off vals @ [(vals ! off AND NOT (push_bit (unat rxAlign) 0xFF)) OR (b1 AND push_bit (unat rxAlign) 0xFF),
        ch_regs c 0x7F] @ bs @ drop (off + length bs + 2) vals, store (c\<lparr>ch_fifo := rest\<rparr>, Deselected) w)"
proof -
  have "store (c, Deselected) w = w" using wired.store_look [OF assms(1), of w] assms(2) by simp
  with wired.read_fifo_aligned [OF assms(1,3-6), of w] show ?thesis by simp
qed

text \<open>Three bits are known; the answer's bytes are 0xA8, 0x55 and 0x66.\<close>

definition aligned_chip :: chip where
  "aligned_chip = \<lparr>ch_fifo = [0xA8, 0x55, 0x66], ch_com = 0, ch_div = 0, ch_command = 0, ch_framing = 0, ch_control = 0, ch_crc = (0, 0),
     ch_wait = 0, ch_due_com = 0, ch_due_div = 0, ch_due_fifo = [], ch_regs = (\<lambda>_. 0), ch_card = None\<rparr>"

theorem aligned_read_loses_byte_witness:
  "\<forall>E. PCD_ReadRegister (placed_reader E id (\<lambda>s _. s)) FIFODataReg 3 [0x93, 0x05, 0, 0] 1 3 (aligned_chip, Deselected)
    = Some ([0x93, (0x05 AND NOT 0xF8) OR (0x55 AND 0xF8), 0, 0x66], (aligned_chip\<lparr>ch_fifo := []\<rparr>, Deselected))"
  using aligned_read_loses_byte [OF lone.wired_axioms, of "(aligned_chip, Deselected)" aligned_chip "0xA8" "0x55" "[0x66]" "[]" 3 3 1 "[0x93, 0x05, 0, 0]"]
  by (simp add: aligned_chip_def)

section \<open>An answer of two bytes\<close>

lemma empty_message: "byte_bus d o1 \<Longrightarrow> spi_transfer R = soft_transfer P L d o1 \<Longrightarrow> mfrc522_spi_send R bs 0 w = None"
  by (simp add: mfrc522_spi_send_def soft_owned byte_bus_def plain_message_def spi_bit_xfer_def spi_bit_data_def spi_xfer_4line_data8_def)

lemma empty_write: "byte_bus d o1 \<Longrightarrow> spi_transfer R = soft_transfer P L d o1 \<Longrightarrow> PCD_WriteRegister R r 0 bs w = None"
  by (simp add: PCD_WriteRegister_def empty_message bind_eq_None_conv)

text \<open>
  An answer of two whole bytes stops the system where its checksum is to be checked. The checksum is
  computed over all but the last two bytes; over none of them, the transfer of no bytes to the coprocessor fails
  the bus driver's assertion. A card, or noise, that answers a request of a block with two bytes does it.
\<close>

theorem two_byte_answer_asserts:
  assumes "byte_bus d o1" and "spi_transfer R = soft_transfer P L d o1"
  shows "check_crc R buf off 2 0 w = None"
proof -
  have "PCD_CalculateCRC R data 0 w = None" for data w
    by (simp add: PCD_CalculateCRC_def empty_write [OF assms] bind_eq_None_conv)
  then show ?thesis by (simp add: check_crc_def bind_eq_None_conv)
qed

theorem two_byte_answer_asserts_witness:
  "\<forall>P delay w. check_crc (board_reader P delay) [0x12, 0x34] 0 2 0 w = None"
  by (intro allI, rule two_byte_answer_asserts [OF board_byte_bus]) (simp add: board_reader_def)

end
