(* ===== verification/I2c_Bits.thy ===== *)
theory I2c_Bits
  imports Spi_Bits
begin

text \<open>
  The software I2C bus the display hangs on: the bit-banging master of \<open>i2c-bit-ops.c\<close>, the transfers of
  \<open>i2c_core.c\<close> and \<open>i2c_dev.c\<close> and the line routines of \<open>drv_soft_i2c.c\<close>. The pins are a parameter, as
  for the SPI bus, and so is the tick. The lock of the bus is left out, one thread uses it. The wait
  for the clock line has no bound of its own; \<open>None\<close> is a wait that does not end, too.
\<close>

section \<open>The lines\<close>

record 'w i2c_pins = "'w pins" +
  tick_now :: "'w \<Rightarrow> u32 \<times> 'w"

record soft_i2c_config =
  scl_pin :: u8
  sda_pin :: u8

abbreviation (input) PIN_MODE_OUTPUT_OD :: nat where "PIN_MODE_OUTPUT_OD \<equiv> 4"

definition ch32_set_sda :: "'w i2c_pins \<Rightarrow> soft_i2c_config \<Rightarrow> bool \<Rightarrow> 'w \<Rightarrow> 'w" where
  "ch32_set_sda P L state w = (if state then rt_pin_write P (uint (sda_pin L)) True w else rt_pin_write P (uint (sda_pin L)) False w)"

definition ch32_set_scl :: "'w i2c_pins \<Rightarrow> soft_i2c_config \<Rightarrow> bool \<Rightarrow> 'w \<Rightarrow> 'w" where
  "ch32_set_scl P L state w = (if state then rt_pin_write P (uint (scl_pin L)) True w else rt_pin_write P (uint (scl_pin L)) False w)"

definition ch32_get_sda :: "'w i2c_pins \<Rightarrow> soft_i2c_config \<Rightarrow> 'w \<Rightarrow> bool \<times> 'w" where
  "ch32_get_sda P L w = rt_pin_read P (uint (sda_pin L)) w"

definition ch32_get_scl :: "'w i2c_pins \<Rightarrow> soft_i2c_config \<Rightarrow> 'w \<Rightarrow> bool \<times> 'w" where
  "ch32_get_scl P L w = rt_pin_read P (uint (scl_pin L)) w"

definition ch32_i2c_gpio_init :: "'w i2c_pins \<Rightarrow> soft_i2c_config \<Rightarrow> 'w \<Rightarrow> 'w" where
  "ch32_i2c_gpio_init P L w =
     (let w = rt_pin_mode P (uint (scl_pin L)) PIN_MODE_OUTPUT_OD w;
          w = rt_pin_mode P (uint (sda_pin L)) PIN_MODE_OUTPUT_OD w;
          w = rt_pin_write P (uint (scl_pin L)) True w
      in rt_pin_write P (uint (sda_pin L)) True w)"

text \<open>Up to nine clocks for a device that holds the data line; the result says whether it is free.\<close>

fun unlock_clocks :: "'w i2c_pins \<Rightarrow> soft_i2c_config \<Rightarrow> nat \<Rightarrow> 'w \<Rightarrow> 'w" where
  "unlock_clocks P L 0 w = w"
| "unlock_clocks P L (Suc n) w =
     (let w = rt_pin_write P (uint (scl_pin L)) True w;
          w = pin_udelay P 100 w;
          w = rt_pin_write P (uint (scl_pin L)) False w;
          w = pin_udelay P 100 w
      in unlock_clocks P L n w)"

definition ch32_i2c_bus_unlock :: "'w i2c_pins \<Rightarrow> soft_i2c_config \<Rightarrow> 'w \<Rightarrow> int \<times> 'w" where
  "ch32_i2c_bus_unlock P L w =
     (let (high, w) = rt_pin_read P (uint (sda_pin L)) w;
          w = (if \<not> high then unlock_clocks P L 9 w else w);
          (high, w) = rt_pin_read P (uint (sda_pin L)) w
      in (if \<not> high then - 1 else 0, w))"

section \<open>Conditions and bits\<close>

record i2c_bus_device =
  bus_flags :: u16
  bus_timeout :: u32
  retries :: u32
  ops_delay_us :: u32
  ops_timeout :: u32

abbreviation (input) I2C_ETIMEOUT :: int where "I2C_ETIMEOUT \<equiv> 2"
abbreviation (input) I2C_EIO :: int where "I2C_EIO \<equiv> 8"
abbreviation (input) I2C_EINVAL :: int where "I2C_EINVAL \<equiv> 10"

definition i2c_delay :: "'w i2c_pins \<Rightarrow> i2c_bus_device \<Rightarrow> 'w \<Rightarrow> 'w" where
  "i2c_delay P B w = pin_udelay P (drop_bit 1 (ops_delay_us B + 1)) w"

definition i2c_delay2 :: "'w i2c_pins \<Rightarrow> i2c_bus_device \<Rightarrow> 'w \<Rightarrow> 'w" where
  "i2c_delay2 P B w = pin_udelay P (ops_delay_us B) w"

text \<open>A device may hold the clock line down; the wait is for at most \<open>timeout\<close> ticks.\<close>

partial_function (option) scl_wait :: "'w i2c_pins \<Rightarrow> soft_i2c_config \<Rightarrow> i2c_bus_device \<Rightarrow> u32 \<Rightarrow> 'w \<Rightarrow> (bool \<times> 'w) option" where
  "scl_wait P L B start w =
     (let (high, w) = ch32_get_scl P L w in
      if high then Some (True, w)
      else let (now, w) = tick_now P w in
           if now - start > ops_timeout B then Some (False, w)
           else scl_wait P L B start (i2c_delay P B w))"

definition SCL_H :: "'w i2c_pins \<Rightarrow> soft_i2c_config \<Rightarrow> i2c_bus_device \<Rightarrow> 'w \<Rightarrow> (int \<times> 'w) option" where
  "SCL_H P L B w =
     (let w = ch32_set_scl P L True w;
          (start, w) = tick_now P w
      in do {
        (ok, w) \<leftarrow> scl_wait P L B start w;
        Some (if ok then (0, i2c_delay P B w) else (- I2C_ETIMEOUT, w)) })"

definition i2c_start :: "'w i2c_pins \<Rightarrow> soft_i2c_config \<Rightarrow> i2c_bus_device \<Rightarrow> 'w \<Rightarrow> 'w" where
  "i2c_start P L B w = ch32_set_scl P L False (i2c_delay P B (ch32_set_sda P L False w))"

definition i2c_restart :: "'w i2c_pins \<Rightarrow> soft_i2c_config \<Rightarrow> i2c_bus_device \<Rightarrow> 'w \<Rightarrow> 'w option" where
  "i2c_restart P L B w = do {
     (_, w) \<leftarrow> SCL_H P L B (ch32_set_sda P L True w);
     let w = ch32_set_sda P L False (i2c_delay P B w);
     Some (ch32_set_scl P L False (i2c_delay P B w)) }"

definition i2c_stop :: "'w i2c_pins \<Rightarrow> soft_i2c_config \<Rightarrow> i2c_bus_device \<Rightarrow> 'w \<Rightarrow> 'w option" where
  "i2c_stop P L B w = do {
     (_, w) \<leftarrow> SCL_H P L B (i2c_delay P B (ch32_set_sda P L False w));
     let w = ch32_set_sda P L True (i2c_delay P B w);
     Some (i2c_delay2 P B w) }"

text \<open>1 is an acknowledgement, 0 none, a negative number a clock line that stays low.\<close>

definition i2c_waitack :: "'w i2c_pins \<Rightarrow> soft_i2c_config \<Rightarrow> i2c_bus_device \<Rightarrow> 'w \<Rightarrow> (int \<times> 'w) option" where
  "i2c_waitack P L B w = do {
     (r, w) \<leftarrow> SCL_H P L B (i2c_delay P B (ch32_set_sda P L True w));
     if r < 0 then Some (- I2C_ETIMEOUT, w)
     else
       let (high, w) = ch32_get_sda P L w
       in Some (of_bool (\<not> high), ch32_set_scl P L False w) }"

fun write_bits :: "'w i2c_pins \<Rightarrow> soft_i2c_config \<Rightarrow> i2c_bus_device \<Rightarrow> u8 \<Rightarrow> nat \<Rightarrow> 'w \<Rightarrow> (bool \<times> 'w) option" where
  "write_bits P L B data 0 w = Some (True, w)"
| "write_bits P L B data (Suc i) w = do {
     let w = ch32_set_scl P L False w;
     let w = ch32_set_sda P L (drop_bit i data AND 1 \<noteq> 0) w;
     (r, w) \<leftarrow> SCL_H P L B (i2c_delay P B w);
     if r < 0 then Some (False, w) else write_bits P L B data i w }"

definition i2c_writeb :: "'w i2c_pins \<Rightarrow> soft_i2c_config \<Rightarrow> i2c_bus_device \<Rightarrow> u8 \<Rightarrow> 'w \<Rightarrow> (int \<times> 'w) option" where
  "i2c_writeb P L B data w = do {
     (ok, w) \<leftarrow> write_bits P L B data 8 w;
     if \<not> ok then Some (- I2C_ETIMEOUT, w)
     else i2c_waitack P L B (i2c_delay P B (ch32_set_scl P L False w)) }"

fun read_bits :: "'w i2c_pins \<Rightarrow> soft_i2c_config \<Rightarrow> i2c_bus_device \<Rightarrow> nat \<Rightarrow> u8 \<Rightarrow> 'w \<Rightarrow> (int \<times> 'w) option" where
  "read_bits P L B 0 data w = Some (uint data, w)"
| "read_bits P L B (Suc i) data w = do {
     let data = push_bit 1 data;
     (r, w) \<leftarrow> SCL_H P L B w;
     if r < 0 then Some (- I2C_ETIMEOUT, w)
     else
       let (high, w) = ch32_get_sda P L w;
           data = (if high then data OR 1 else data);
           w = ch32_set_scl P L False w
       in read_bits P L B i data (i2c_delay2 P B w) }"

definition i2c_readb :: "'w i2c_pins \<Rightarrow> soft_i2c_config \<Rightarrow> i2c_bus_device \<Rightarrow> 'w \<Rightarrow> (int \<times> 'w) option" where
  "i2c_readb P L B w = read_bits P L B 8 0 (i2c_delay P B (ch32_set_sda P L True w))"

section \<open>Messages\<close>

record i2c_msg =
  i2c_addr :: u16
  i2c_flags :: u16
  i2c_len :: u16
  i2c_buf :: bytes

abbreviation (input) RT_I2C_RD :: u16 where "RT_I2C_RD \<equiv> 0x0001"
abbreviation (input) RT_I2C_ADDR_10BIT :: u16 where "RT_I2C_ADDR_10BIT \<equiv> 0x0004"
abbreviation (input) RT_I2C_NO_START :: u16 where "RT_I2C_NO_START \<equiv> 0x0010"
abbreviation (input) RT_I2C_IGNORE_NACK :: u16 where "RT_I2C_IGNORE_NACK \<equiv> 0x0020"
abbreviation (input) RT_I2C_NO_READ_ACK :: u16 where "RT_I2C_NO_READ_ACK \<equiv> 0x0040"
abbreviation (input) RT_I2C_NO_STOP :: u16 where "RT_I2C_NO_STOP \<equiv> 0x0080"

definition i2c_flag :: "i2c_msg \<Rightarrow> u16 \<Rightarrow> bool" where
  "i2c_flag m f \<longleftrightarrow> i2c_flags m AND f \<noteq> 0"

text \<open>\<open>k\<close> bytes are done, \<open>count\<close> are left.\<close>

fun send_bytes_loop :: "'w i2c_pins \<Rightarrow> soft_i2c_config \<Rightarrow> i2c_bus_device \<Rightarrow> bool \<Rightarrow> bytes \<Rightarrow> nat \<Rightarrow> nat \<Rightarrow> 'w \<Rightarrow> (int \<times> 'w) option" where
  "send_bytes_loop P L B ignore_nack buf k 0 w = Some (int k, w)"
| "send_bytes_loop P L B ignore_nack buf k (Suc count) w = do {
     b \<leftarrow> rd buf k;
     (ret, w) \<leftarrow> i2c_writeb P L B b w;
     if ret > 0 \<or> (ignore_nack \<and> ret = 0) then send_bytes_loop P L B ignore_nack buf (k + 1) count w
     else if ret = 0 then Some (0, w)
     else Some (ret, w) }"

definition i2c_send_bytes :: "'w i2c_pins \<Rightarrow> soft_i2c_config \<Rightarrow> i2c_bus_device \<Rightarrow> i2c_msg \<Rightarrow> 'w \<Rightarrow> (int \<times> 'w) option" where
  "i2c_send_bytes P L B m w = send_bytes_loop P L B (i2c_flag m RT_I2C_IGNORE_NACK) (i2c_buf m) 0 (unat (i2c_len m)) w"

definition i2c_send_ack_or_nack :: "'w i2c_pins \<Rightarrow> soft_i2c_config \<Rightarrow> i2c_bus_device \<Rightarrow> bool \<Rightarrow> 'w \<Rightarrow> (int \<times> 'w) option" where
  "i2c_send_ack_or_nack P L B ack w = do {
     let w = (if ack then ch32_set_sda P L False w else w);
     (r, w) \<leftarrow> SCL_H P L B (i2c_delay P B w);
     Some (if r < 0 then (- I2C_ETIMEOUT, w) else (0, ch32_set_scl P L False w)) }"

fun recv_bytes_loop :: "'w i2c_pins \<Rightarrow> soft_i2c_config \<Rightarrow> i2c_bus_device \<Rightarrow> bool \<Rightarrow> bytes \<Rightarrow> nat \<Rightarrow> nat \<Rightarrow> 'w \<Rightarrow> (int \<times> bytes \<times> 'w) option" where
  "recv_bytes_loop P L B no_ack buf k 0 w = Some (int k, buf, w)"
| "recv_bytes_loop P L B no_ack buf k (Suc count) w = do {
     (val, w) \<leftarrow> i2c_readb P L B w;
     if val < 0 then Some (int k, buf, w)
     else do {
       buf \<leftarrow> wr buf k (word_of_int val);
       (val, w) \<leftarrow> (if no_ack then Some (0, w) else i2c_send_ack_or_nack P L B (count \<noteq> 0) w);
       if val < 0 then Some (val, buf, w) else recv_bytes_loop P L B no_ack buf (k + 1) count w } }"

definition i2c_recv_bytes :: "'w i2c_pins \<Rightarrow> soft_i2c_config \<Rightarrow> i2c_bus_device \<Rightarrow> i2c_msg \<Rightarrow> 'w \<Rightarrow> (int \<times> bytes \<times> 'w) option" where
  "i2c_recv_bytes P L B m w = recv_bytes_loop P L B (i2c_flag m RT_I2C_NO_READ_ACK) (i2c_buf m) 0 (unat (i2c_len m)) w"

section \<open>Addresses\<close>

text \<open>The attempts that are left after this one.\<close>

fun send_address_loop :: "'w i2c_pins \<Rightarrow> soft_i2c_config \<Rightarrow> i2c_bus_device \<Rightarrow> u8 \<Rightarrow> nat \<Rightarrow> 'w \<Rightarrow> (int \<times> 'w) option" where
  "send_address_loop P L B addr 0 w = i2c_writeb P L B addr w"
| "send_address_loop P L B addr (Suc n) w = do {
     (ret, w) \<leftarrow> i2c_writeb P L B addr w;
     if ret = 1 then Some (ret, w)
     else do {
       w \<leftarrow> i2c_stop P L B w;
       send_address_loop P L B addr n (i2c_start P L B (i2c_delay2 P B w)) } }"

definition i2c_send_address :: "'w i2c_pins \<Rightarrow> soft_i2c_config \<Rightarrow> i2c_bus_device \<Rightarrow> u8 \<Rightarrow> int \<Rightarrow> 'w \<Rightarrow> (int \<times> 'w) option" where
  "i2c_send_address P L B addr tries w =
     (if tries < 0 then Some (0, w) else send_address_loop P L B addr (nat tries) w)"

definition i2c_bit_send_address :: "'w i2c_pins \<Rightarrow> soft_i2c_config \<Rightarrow> i2c_bus_device \<Rightarrow> i2c_msg \<Rightarrow> 'w \<Rightarrow> (int \<times> 'w) option" where
  "i2c_bit_send_address P L B m w =
     (let ignore_nack = i2c_flag m RT_I2C_IGNORE_NACK;
          tries = (if ignore_nack then 0 else sint (retries B))
      in if i2c_flag m RT_I2C_ADDR_10BIT
         then do {
           let addr1 = 0xF0 OR (ucast (drop_bit 7 (i2c_addr m)) AND 0x06);
           let addr2 = ucast (i2c_addr m AND 0xFF);
           (ret, w) \<leftarrow> i2c_send_address P L B addr1 tries w;
           if ret \<noteq> 1 \<and> \<not> ignore_nack then Some (- I2C_EIO, w)
           else do {
             (ret, w) \<leftarrow> i2c_writeb P L B addr2 w;
             if ret \<noteq> 1 \<and> \<not> ignore_nack then Some (- I2C_EIO, w)
             else if i2c_flag m RT_I2C_RD
             then do {
               w \<leftarrow> i2c_restart P L B w;
               (ret, w) \<leftarrow> i2c_send_address P L B (addr1 OR 0x01) tries w;
               Some (if ret \<noteq> 1 \<and> \<not> ignore_nack then - I2C_EIO else 0, w) }
             else Some (0, w) } }
         else do {
           let addr1 = ucast (push_bit 1 (i2c_addr m));
           let addr1 = (if i2c_flag m RT_I2C_RD then addr1 OR 1 else addr1);
           (ret, w) \<leftarrow> i2c_send_address P L B addr1 tries w;
           Some (if ret \<noteq> 1 \<and> \<not> ignore_nack then - I2C_EIO else 0, w) })"

section \<open>A transfer\<close>

text \<open>One message: the error that ends the transfer, if any, and the message as it is left.\<close>

definition xfer_message :: "'w i2c_pins \<Rightarrow> soft_i2c_config \<Rightarrow> i2c_bus_device \<Rightarrow> bool \<Rightarrow> i2c_msg \<Rightarrow> 'w \<Rightarrow> (int option \<times> i2c_msg \<times> 'w) option" where
  "xfer_message P L B first m w = do {
     (ret, w) \<leftarrow> (if i2c_flag m RT_I2C_NO_START then Some (0, w)
       else do {
         w \<leftarrow> (if first then Some (i2c_start P L B w) else i2c_restart P L B w);
         i2c_bit_send_address P L B m w });
     if ret \<noteq> 0 \<and> \<not> i2c_flag m RT_I2C_IGNORE_NACK then Some (Some ret, m, w)
     else if i2c_flag m RT_I2C_RD
     then do {
       (ret, buf, w) \<leftarrow> i2c_recv_bytes P L B m w;
       Some (if ret < uint (i2c_len m) then Some (if ret \<ge> 0 then - I2C_EIO else ret) else None, m\<lparr>i2c_buf := buf\<rparr>, w) }
     else do {
       (ret, w) \<leftarrow> i2c_send_bytes P L B m w;
       Some (if ret < uint (i2c_len m) then Some (if ret \<ge> 0 then - 1 else ret) else None, m, w) } }"

text \<open>The result, the messages, whether the last one that was handled asks for no stop, and \<open>i\<close> counts.\<close>

fun xfer_loop :: "'w i2c_pins \<Rightarrow> soft_i2c_config \<Rightarrow> i2c_bus_device \<Rightarrow> nat \<Rightarrow> bool \<Rightarrow> i2c_msg list \<Rightarrow> 'w \<Rightarrow> (int \<times> i2c_msg list \<times> bool \<times> 'w) option" where
  "xfer_loop P L B i no_stop [] w = Some (int i, [], no_stop, w)"
| "xfer_loop P L B i no_stop (m # ms) w = do {
     (failed, m, w) \<leftarrow> xfer_message P L B (i = 0) m w;
     (case failed of
        Some ret \<Rightarrow> Some (ret, m # ms, i2c_flag m RT_I2C_NO_STOP, w)
      | None \<Rightarrow> do {
          (ret, ms, no_stop, w) \<leftarrow> xfer_loop P L B (i + 1) (i2c_flag m RT_I2C_NO_STOP) ms w;
          Some (ret, m # ms, no_stop, w) }) }"

definition i2c_bit_xfer :: "'w i2c_pins \<Rightarrow> soft_i2c_config \<Rightarrow> i2c_bus_device \<Rightarrow> i2c_msg list \<Rightarrow> 'w \<Rightarrow> (int \<times> i2c_msg list \<times> 'w) option" where
  "i2c_bit_xfer P L B msgs w =
     (if msgs = [] then Some (0, [], w)
      else do {
        (ret, msgs, no_stop, w) \<leftarrow> xfer_loop P L B 0 False msgs w;
        w \<leftarrow> (if no_stop then Some w else i2c_stop P L B w);
        Some (ret, msgs, w) })"

definition rt_i2c_transfer :: "'w i2c_pins \<Rightarrow> soft_i2c_config \<Rightarrow> i2c_bus_device \<Rightarrow> i2c_msg list \<Rightarrow> 'w \<Rightarrow> (int \<times> i2c_msg list \<times> 'w) option" where
  "rt_i2c_transfer = i2c_bit_xfer"

definition rt_i2c_master_send :: "'w i2c_pins \<Rightarrow> soft_i2c_config \<Rightarrow> i2c_bus_device \<Rightarrow> u16 \<Rightarrow> u16 \<Rightarrow> bytes \<Rightarrow> u32 \<Rightarrow> 'w \<Rightarrow> (int \<times> 'w) option" where
  "rt_i2c_master_send P L B addr flags buf count w = do {
     (ret, _, w) \<leftarrow> rt_i2c_transfer P L B [\<lparr>i2c_addr = addr, i2c_flags = flags, i2c_len = ucast count, i2c_buf = buf\<rparr>] w;
     Some (if ret = 1 then sint count else ret, w) }"

definition rt_i2c_master_recv :: "'w i2c_pins \<Rightarrow> soft_i2c_config \<Rightarrow> i2c_bus_device \<Rightarrow> u16 \<Rightarrow> u16 \<Rightarrow> bytes \<Rightarrow> u32 \<Rightarrow> 'w
    \<Rightarrow> (int \<times> bytes \<times> 'w) option" where
  "rt_i2c_master_recv P L B addr flags buf count w = do {
     (ret, ms, w) \<leftarrow> rt_i2c_transfer P L B [\<lparr>i2c_addr = addr, i2c_flags = flags OR RT_I2C_RD, i2c_len = ucast count, i2c_buf = buf\<rparr>] w;
     m \<leftarrow> rd ms 0;
     Some (if ret = 1 then sint count else ret, i2c_buf m, w) }"

text \<open>The device interface: the position holds the address and the flags.\<close>

definition i2c_bus_device_read :: "'w i2c_pins \<Rightarrow> soft_i2c_config \<Rightarrow> i2c_bus_device \<Rightarrow> u32 \<Rightarrow> bytes \<Rightarrow> u32 \<Rightarrow> 'w \<Rightarrow> (int \<times> bytes \<times> 'w) option" where
  "i2c_bus_device_read P L B pos buf count w =
     rt_i2c_master_recv P L B (ucast (pos AND 0xFFFF)) (ucast (drop_bit 16 pos AND 0xFFFF)) buf count w"

definition i2c_bus_device_write :: "'w i2c_pins \<Rightarrow> soft_i2c_config \<Rightarrow> i2c_bus_device \<Rightarrow> u32 \<Rightarrow> bytes \<Rightarrow> u32 \<Rightarrow> 'w \<Rightarrow> (int \<times> 'w) option" where
  "i2c_bus_device_write P L B pos buf count w =
     rt_i2c_master_send P L B (ucast (pos AND 0xFFFF)) (ucast (drop_bit 16 pos AND 0xFFFF)) buf count w"

text \<open>This bus has no control operation of its own, so a clock cannot be set.\<close>

definition rt_i2c_control :: "u32 \<Rightarrow> int" where
  "rt_i2c_control arg = - I2C_EINVAL"

datatype i2c_ctrl = CTRL_10BIT | CTRL_TIMEOUT u32 | CTRL_RW "i2c_msg list" | CTRL_CLK u32 | CTRL_OTHER

definition i2c_bus_device_control :: "'w i2c_pins \<Rightarrow> soft_i2c_config \<Rightarrow> i2c_ctrl \<Rightarrow> i2c_bus_device \<Rightarrow> 'w
    \<Rightarrow> (int \<times> i2c_msg list \<times> i2c_bus_device \<times> 'w) option" where
  "i2c_bus_device_control P L cmd B w =
     (case cmd of
        CTRL_10BIT \<Rightarrow> Some (0, [], B\<lparr>bus_flags := bus_flags B OR RT_I2C_ADDR_10BIT\<rparr>, w)
      | CTRL_TIMEOUT t \<Rightarrow> Some (0, [], B\<lparr>bus_timeout := t\<rparr>, w)
      | CTRL_RW msgs \<Rightarrow> do {
          (ret, msgs, w) \<leftarrow> rt_i2c_transfer P L B msgs w;
          Some (if ret < 0 then - I2C_EIO else 0, msgs, B, w) }
      | CTRL_CLK c \<Rightarrow> Some (if rt_i2c_control c < 0 then - I2C_EIO else 0, [], B, w)
      | CTRL_OTHER \<Rightarrow> Some (0, [], B, w))"

definition rt_i2c_bus_device_register :: "i2c_bus_device \<Rightarrow> i2c_bus_device" where
  "rt_i2c_bus_device_register B = (if bus_timeout B = 0 then B\<lparr>bus_timeout := 1000\<rparr> else B)"

text \<open>The bus after \<open>rt_hw_i2c_init\<close>: the statics are zero, the operations have their default values.\<close>

definition rt_hw_i2c_init :: "'w i2c_pins \<Rightarrow> soft_i2c_config \<Rightarrow> 'w \<Rightarrow> i2c_bus_device \<times> 'w" where
  "rt_hw_i2c_init P L w =
     (let w = ch32_i2c_gpio_init P L w;
          B = rt_i2c_bus_device_register \<lparr>bus_flags = 0, bus_timeout = 0, retries = 0, ops_delay_us = 1, ops_timeout = 100\<rparr>;
          (_, w) = ch32_i2c_bus_unlock P L w
      in (B, w))"

end
