(* ===== verification/I2c_Wire.thy ===== *)
theory I2c_Wire
  imports I2c_Bits
begin

text \<open>
  The I2C bus over its two wires: a device that sees the clock and data lines move, takes the bytes
  written to its address and gives bytes to a reader. Both sides only pull lines down; this device never
  holds the clock. What the bit-banging master does with it is an exchange of whole messages.
\<close>

section \<open>A device on the wires\<close>

text \<open>
  Between a start and a stop the device is \<open>Getting\<close> a byte, its address first, of which \<open>n\<close> bits are
  in; it pulls the data line down when it is \<open>Acking\<close> (and knows whether it is to be read); \<open>Giving\<close> a
  byte of which \<open>n\<close> bits are out; \<open>Awaiting\<close> the reader's answer, or it has been \<open>Answered\<close>.
\<close>

datatype phase = Quiet | Getting bool nat u8 | Acking bool | Giving nat u8 | Awaiting | Answered bool

record 'd i2c_wire =
  scl_high :: bool
  sda_out :: bool
  phase :: phase
  slave :: 'd

fun pulls_low :: "phase \<Rightarrow> bool" where
  "pulls_low (Acking _) \<longleftrightarrow> True"
| "pulls_low (Giving n v) \<longleftrightarrow> \<not> bit v (7 - n)"
| "pulls_low _ \<longleftrightarrow> False"

definition sda_level :: "'d i2c_wire \<Rightarrow> bool" where
  "sda_level s \<longleftrightarrow> sda_out s \<and> \<not> pulls_low (phase s)"

record 'd i2c_slave =
  own_address :: u8
  take_byte :: "u8 \<Rightarrow> 'd \<Rightarrow> 'd"
  give_byte :: "'d \<Rightarrow> u8 \<times> 'd"

definition sda_line :: "bool \<Rightarrow> 'd i2c_wire \<Rightarrow> 'd i2c_wire" where
  "sda_line v s =
     (let s' = s\<lparr>sda_out := v\<rparr> in
      if scl_high s \<and> sda_level s \<and> \<not> sda_level s' then s'\<lparr>phase := Getting True 0 0\<rparr>
      else if scl_high s \<and> \<not> sda_level s \<and> sda_level s' then s'\<lparr>phase := Quiet\<rparr>
      else s')"

fun on_rise :: "bool \<Rightarrow> phase \<Rightarrow> phase" where
  "on_rise level (Getting f n b) = Getting f (n + 1) (push_bit 1 b OR of_bool level)"
| "on_rise level Awaiting = Answered (\<not> level)"
| "on_rise level p = p"

definition give :: "'d i2c_slave \<Rightarrow> 'd \<Rightarrow> phase \<times> 'd" where
  "give D d = (let (b, d) = give_byte D d in (Giving 0 b, d))"

fun on_fall :: "'d i2c_slave \<Rightarrow> phase \<Rightarrow> 'd \<Rightarrow> phase \<times> 'd" where
  "on_fall D (Getting f n b) d =
     (if n < 8 then (Getting f n b, d)
      else if f then (if drop_bit 1 b = own_address D then Acking (bit b 0) else Quiet, d)
      else (Acking False, take_byte D b d))"
| "on_fall D (Acking r) d = (if r then give D d else (Getting False 0 0, d))"
| "on_fall D (Giving n v) d = (if n < 7 then Giving (n + 1) v else Awaiting, d)"
| "on_fall D (Answered ack) d = (if ack then give D d else (Quiet, d))"
| "on_fall D p d = (p, d)"

definition scl_line :: "'d i2c_slave \<Rightarrow> bool \<Rightarrow> 'd i2c_wire \<Rightarrow> 'd i2c_wire" where
  "scl_line D v s =
     (if v \<and> \<not> scl_high s then s\<lparr>scl_high := True, phase := on_rise (sda_level s) (phase s)\<rparr>
      else if \<not> v \<and> scl_high s
      then s\<lparr>scl_high := False, phase := fst (on_fall D (phase s) (slave s)), slave := snd (on_fall D (phase s) (slave s))\<rparr>
      else s)"

definition bus_idle :: "'d i2c_wire \<Rightarrow> bool" where
  "bus_idle s \<longleftrightarrow> scl_high s \<and> sda_out s \<and> phase s = Quiet"

text \<open>What whole messages do to the device; a message to another address ends the transfer.\<close>

definition to_slave :: "'d i2c_slave \<Rightarrow> i2c_msg \<Rightarrow> bool" where
  "to_slave D m \<longleftrightarrow> i2c_addr m = ucast (own_address D)"

fun gives :: "'d i2c_slave \<Rightarrow> nat \<Rightarrow> 'd \<Rightarrow> bytes \<times> 'd" where
  "gives D 0 d = ([], d)"
| "gives D (Suc n) d = (let (b, d) = give_byte D d; (bs, d) = gives D n d in (b # bs, d))"

definition serve :: "'d i2c_slave \<Rightarrow> i2c_msg \<Rightarrow> 'd \<Rightarrow> i2c_msg \<times> 'd" where
  "serve D m d =
     (if i2c_flag m RT_I2C_RD
      then (let (bs, d) = gives D (unat (i2c_len m)) d in (m\<lparr>i2c_buf := bs @ drop (unat (i2c_len m)) (i2c_buf m)\<rparr>, d))
      else (m, fold (take_byte D) (take (unat (i2c_len m)) (i2c_buf m)) d))"

fun serve_all :: "'d i2c_slave \<Rightarrow> nat \<Rightarrow> i2c_msg list \<Rightarrow> 'd \<Rightarrow> int \<times> i2c_msg list \<times> 'd" where
  "serve_all D i [] d = (int i, [], d)"
| "serve_all D i (m # ms) d =
     (if to_slave D m
      then (let (m, d) = serve D m d; (r, ms, d) = serve_all D (i + 1) ms d in (r, m # ms, d))
      else (- I2C_EIO, m # ms, d))"

text \<open>A message with a 7 bit address, a start and a stop of its own and no exceptions; a read has bytes to read.\<close>

definition plain_msg :: "i2c_msg \<Rightarrow> bool" where
  "plain_msg m \<longleftrightarrow> i2c_addr m < 128 \<and> (i2c_flags m = 0 \<or> i2c_flags m = RT_I2C_RD \<and> i2c_len m \<noteq> 0)
     \<and> unat (i2c_len m) \<le> length (i2c_buf m)"

locale i2c_wires =
  fixes P :: "'w i2c_pins" and L :: soft_i2c_config and D :: "'d i2c_slave"
    and wires :: "'w \<Rightarrow> 'd i2c_wire" and put :: "'d i2c_wire \<Rightarrow> 'w \<Rightarrow> 'w"
  assumes wires_put: "wires (put s w) = s" and put_put: "put s (put t w) = put s w" and put_wires: "put (wires w) w = w"
    and scl_write: "rt_pin_write P (uint (scl_pin L)) v w = put (scl_line D v (wires w)) w"
    and scl_read: "rt_pin_read P (uint (scl_pin L)) w = (scl_high (wires w), w)"
    and sda_write: "rt_pin_write P (uint (sda_pin L)) v w = put (sda_line v (wires w)) w"
    and sda_read: "rt_pin_read P (uint (sda_pin L)) w = (sda_level (wires w), w)"
    and open_drain: "rt_pin_mode P p PIN_MODE_OUTPUT_OD w = w"
    and busy_wait: "pin_udelay P n w = w"
    and tick: "snd (tick_now P w) = w"
    and short_address: "own_address D < 128"

section \<open>Lines\<close>

lemma shift_bit: "i < 8 \<Longrightarrow> push_bit 1 (drop_bit (Suc i) (b :: u8)) OR of_bool (bit b i) = drop_bit i b"
proof -
  assume "i < 8"
  then have "8 - (7 - i) = Suc i" "7 - (7 - i) = i" "7 - i < 8" by auto
  with shift_step [of "7 - i" b] show ?thesis by simp
qed

lemma low_bit: "(drop_bit i b :: u8) AND 1 \<noteq> 0 \<longleftrightarrow> bit b i"
  by (simp add: and_one_eq bit_iff_odd_drop_bit odd_iff_mod_2_eq_one)

lemma lowest_bit: "(b :: u8) AND 1 \<noteq> 0 \<longleftrightarrow> bit b 0"
  using low_bit [of 0 b] by simp

lemma seven_bit_address:
  assumes "a < (128 :: u16)"
  shows "drop_bit 1 (ucast (push_bit 1 a) :: u8) = ucast a" "drop_bit 1 (ucast (push_bit 1 a) OR 1 :: u8) = ucast a"
    "\<not> bit (ucast (push_bit 1 a) :: u8) 0" "bit (ucast (push_bit 1 a) OR 1 :: u8) 0"
proof -
  have "take_bit 7 a = a" using assms by (simp add: word_unat_eq_iff unsigned_take_bit_eq take_bit_nat_eq_self word_less_nat_alt)
  then have "bit a n \<Longrightarrow> n < 7" for n by (metis bit_take_bit_iff)
  then show "drop_bit 1 (ucast (push_bit 1 a) :: u8) = ucast a" "drop_bit 1 (ucast (push_bit 1 a) OR 1 :: u8) = ucast a"
    by (auto intro!: bit_eqI simp: bit_simps bit_double_iff mult.commute [of a 2])
qed (simp_all add: bit_simps bit_double_iff mult.commute [of a 2])

lemma same_address:
  assumes "a < (128 :: u16)" and "b < (128 :: u8)"
  shows "ucast a = b \<longleftrightarrow> a = ucast b"
  using assms by (auto simp: word_unat_eq_iff word_less_nat_alt unsigned_ucast_eq take_bit_nat_eq_self)

context i2c_wires begin

abbreviation "sda v w \<equiv> put (sda_line v (wires w)) w"
abbreviation "scl v w \<equiv> put (scl_line D v (wires w)) w"

lemma lines:
  "ch32_set_sda P L v w = sda v w" "ch32_set_scl P L v w = scl v w"
  "ch32_get_sda P L w = (sda_level (wires w), w)" "ch32_get_scl P L w = (scl_high (wires w), w)"
  "i2c_delay P B w = w" "i2c_delay2 P B w = w"
  by (simp_all add: ch32_set_sda_def ch32_set_scl_def ch32_get_sda_def ch32_get_scl_def scl_write scl_read sda_write sda_read
      i2c_delay_def i2c_delay2_def busy_wait)

lemma clock_up: "SCL_H P L B w = Some (0, scl True w)"
proof -
  have "scl_high (scl_line D True (wires w))" by (simp add: scl_line_def)
  then have "scl_wait P L B start (scl True w) = Some (True, scl True w)" for start
    by (subst scl_wait.simps) (simp add: lines wires_put)
  moreover have "snd (tick_now P (scl True w)) = scl True w" by (rule tick)
  ultimately show ?thesis by (simp add: SCL_H_def lines split_def)
qed

lemma start_line: "i2c_start P L B w = scl False (sda False w)"
  by (simp add: i2c_start_def lines)

lemma restart_line: "i2c_restart P L B w = Some (scl False (sda False (scl True (sda True w))))"
  by (simp add: i2c_restart_def lines clock_up Let_def)

lemma stop_line: "i2c_stop P L B w = Some (sda True (scl True (sda False w)))"
  by (simp add: i2c_stop_def lines clock_up)

text \<open>Where the lines are: the wires themselves, since nothing else moves.\<close>

definition at :: "'d i2c_wire \<Rightarrow> 'w \<Rightarrow> 'w" where
  "at s w = put s w"

lemma at_simps [simp]: "wires (at s w) = s" "put t (at s w) = at t w" "at t (at s w) = at t w"
  by (simp_all add: at_def wires_put put_put)

lemma at_wires: "at (wires w) w = w"
  by (simp add: at_def put_wires)

section \<open>Bytes\<close>

lemma one_bit:
  assumes "k < 8" and "\<not> scl_high s \<or> k > 0" and "phase s = Getting f k b" and "i < 8"
  shows "write_bits P L B data (Suc i) (at s w)
    = write_bits P L B data i (at (s\<lparr>scl_high := True, sda_out := bit data i, phase := Getting f (k + 1) (push_bit 1 b OR of_bool (bit data i))\<rparr>) w)"
  using assms
  by (cases s; cases "scl_high s")
    (simp_all add: lines clock_up low_bit Let_def scl_line_def sda_line_def sda_level_def)

lemma bits_written:
  assumes "\<not> scl_high s" and "phase s = Getting f 0 0"
  shows "i \<le> 8 \<Longrightarrow> \<exists>u. write_bits P L B data 8 (at s w)
    = write_bits P L B data (8 - i) (at (s\<lparr>scl_high := i > 0, sda_out := u, phase := Getting f i (drop_bit (8 - i) data)\<rparr>) w)"
proof (induction i)
  case 0
  have "s\<lparr>scl_high := False, sda_out := sda_out s, phase := Getting f 0 (drop_bit 8 data)\<rparr> = s" using assms by (simp add: drop_eight)
  then have "write_bits P L B data 8 (at s w)
      = write_bits P L B data (8 - 0) (at (s\<lparr>scl_high := 0 < (0 :: nat), sda_out := sda_out s, phase := Getting f 0 (drop_bit (8 - 0) data)\<rparr>) w)" by simp
  then show ?case by blast
next
  case (Suc i)
  then obtain u where u: "write_bits P L B data 8 (at s w)
      = write_bits P L B data (8 - i) (at (s\<lparr>scl_high := i > 0, sda_out := u, phase := Getting f i (drop_bit (8 - i) data)\<rparr>) w)" by auto
  have n: "8 - i = Suc (7 - i)" "8 - Suc i = 7 - i" "7 - i < 8" "i < 8" using Suc.prems by auto
  show ?case
    unfolding u n(1,2)
    by (subst one_bit) (use n shift_bit [of "7 - i" data] in \<open>auto intro!: exI [of _ "bit data (7 - i)"]\<close>)
qed

text \<open>A byte on the wires: the device has it and answers.\<close>

lemma byte_written:
  assumes s: "\<not> scl_high s" "phase s = Getting f 0 0"
  shows "i2c_writeb P L B data (at s w)
    = (if f \<and> drop_bit 1 data \<noteq> own_address D
       then Some (0, at (s\<lparr>sda_out := True, phase := Quiet\<rparr>) w)
       else if f \<and> bit data 0 then Some (1, at (s\<lparr>sda_out := True, phase := fst (give D (slave s)), slave := snd (give D (slave s))\<rparr>) w)
       else Some (1, at (s\<lparr>sda_out := True, phase := Getting False 0 0, slave := (if f then slave s else take_byte D data (slave s))\<rparr>) w))"
proof -
  from bits_written [OF s, of 8 B data w] obtain u where "write_bits P L B data 8 (at s w)
      = Some (True, at (s\<lparr>scl_high := True, sda_out := u, phase := Getting f 8 data\<rparr>) w)" by auto
  then show ?thesis
    using s by (cases s; cases f)
      (simp_all add: i2c_writeb_def i2c_waitack_def lines clock_up Let_def scl_line_def sda_line_def sda_level_def)
qed


text \<open>A device that is not addressed does not answer.\<close>

lemma quiet_bits:
  "phase s = Quiet \<Longrightarrow> write_bits P L B data (Suc i) (at s w)
    = Some (True, at (s\<lparr>scl_high := True, sda_out := bit data 0\<rparr>) w)"
proof (induction i arbitrary: s)
  case 0
  then show ?case by (cases s; cases "scl_high s") (simp_all add: lines clock_up lowest_bit Let_def scl_line_def sda_line_def sda_level_def)
next
  case (Suc i)
  have "write_bits P L B data (Suc (Suc i)) (at s w)
      = write_bits P L B data (Suc i) (at (s\<lparr>scl_high := True, sda_out := bit data (Suc i)\<rparr>) w)"
    using Suc.prems
    by (cases s; cases "scl_high s")
      (simp_all add: write_bits.simps(2) [of _ _ _ _ "Suc i"] lines clock_up low_bit Let_def scl_line_def sda_line_def sda_level_def
        del: write_bits.simps(2))
  with Suc show ?case by simp
qed

lemma quiet_byte: "phase s = Quiet \<Longrightarrow> i2c_writeb P L B data (at s w) = Some (0, at (s\<lparr>scl_high := False, sda_out := True\<rparr>) w)"
  using quiet_bits [of s B data 7 w]
  by (cases s) (simp add: i2c_writeb_def i2c_waitack_def lines clock_up Let_def scl_line_def sda_line_def sda_level_def)

text \<open>A byte from the device, and the reader's answer.\<close>

lemma bit_in:
  assumes "\<not> scl_high s" "sda_out s" "phase s = Giving k v" "k < 8"
  shows "read_bits P L B (Suc i) data (at s w)
    = read_bits P L B i (push_bit 1 data OR of_bool (bit v (7 - k))) (at (s\<lparr>phase := (if k < 7 then Giving (k + 1) v else Awaiting)\<rparr>) w)"
  using assms by (cases s) (simp add: lines clock_up Let_def scl_line_def sda_level_def)

lemma bits_in:
  assumes s: "\<not> scl_high s" "sda_out s" "phase s = Giving 0 v"
  shows "i \<le> 8 \<Longrightarrow> read_bits P L B 8 0 (at s w)
    = read_bits P L B (8 - i) (drop_bit (8 - i) v) (at (s\<lparr>phase := (if i < 8 then Giving i v else Awaiting)\<rparr>) w)"
proof (induction i)
  case 0
  have "s\<lparr>phase := Giving 0 v\<rparr> = s" using s by simp
  then show ?case by (simp add: drop_eight)
next
  case (Suc i)
  have n: "8 - i = Suc (7 - i)" "8 - Suc i = 7 - i" "i < 8" "Suc i < 8 \<longleftrightarrow> i < 7" using Suc.prems by auto
  have "read_bits P L B 8 0 (at s w) = read_bits P L B (Suc (7 - i)) (drop_bit (8 - i) v) (at (s\<lparr>phase := Giving i v\<rparr>) w)"
    using Suc n by simp
  also have "\<dots> = read_bits P L B (7 - i) (push_bit 1 (drop_bit (8 - i) v) OR of_bool (bit v (7 - i)))
      (at (s\<lparr>phase := (if i < 7 then Giving (Suc i) v else Awaiting)\<rparr>) w)"
    using s n by (subst bit_in) auto
  also have "push_bit 1 (drop_bit (8 - i) v) OR of_bool (bit v (7 - i)) = drop_bit (7 - i) v" using n shift_bit [of "7 - i" v] by simp
  finally show ?case unfolding n(2,4) .
qed

lemma byte_read:
  assumes "\<not> scl_high s" "phase s = Giving 0 v"
  shows "i2c_readb P L B (at s w) = Some (uint v, at (s\<lparr>sda_out := True, phase := Awaiting\<rparr>) w)"
proof -
  have "sda_line True s = s\<lparr>sda_out := True\<rparr>" using assms by (simp add: sda_line_def)
  moreover have "read_bits P L B 8 0 (at (s\<lparr>sda_out := True\<rparr>) w) = Some (uint v, at (s\<lparr>sda_out := True, phase := Awaiting\<rparr>) w)"
    using bits_in [of "s\<lparr>sda_out := True\<rparr>" v 8 B w] assms by simp
  ultimately show ?thesis by (simp add: i2c_readb_def lines)
qed

lemma answered:
  assumes "\<not> scl_high s" "phase s = Awaiting" "sda_out s"
  shows "i2c_send_ack_or_nack P L B ack (at s w)
    = Some (0, at (if ack then s\<lparr>sda_out := False, phase := fst (give D (slave s)), slave := snd (give D (slave s))\<rparr>
        else s\<lparr>phase := Quiet\<rparr>) w)"
  using assms by (cases s) (simp add: i2c_send_ack_or_nack_def lines clock_up Let_def scl_line_def sda_line_def sda_level_def)

section \<open>Messages\<close>

lemma bytes_out:
  "\<not> scl_high s \<Longrightarrow> sda_out s \<Longrightarrow> phase s = Getting False 0 0 \<Longrightarrow> k + n \<le> length buf \<Longrightarrow>
   send_bytes_loop P L B ig buf k n (at s w) = Some (int (k + n), at (s\<lparr>slave := fold (take_byte D) (take n (drop k buf)) (slave s)\<rparr>) w)"
proof (induction n arbitrary: k s)
  case (Suc n)
  have b: "rd buf k = Some (buf ! k)" "take (Suc n) (drop k buf) = buf ! k # take n (drop (Suc k) buf)"
    using Suc.prems by (simp_all add: rd_def take_Suc_conv_app_nth Cons_nth_drop_Suc [symmetric])
  have "i2c_writeb P L B (buf ! k) (at s w) = Some (1, at (s\<lparr>slave := take_byte D (buf ! k) (slave s)\<rparr>) w)"
    using Suc.prems by (cases s) (simp add: byte_written)
  with Suc.prems b Suc.IH [of "s\<lparr>slave := take_byte D (buf ! k) (slave s)\<rparr>" "k + 1"] show ?case by simp
qed simp

lemma bytes_in:
  "\<not> scl_high s \<Longrightarrow> phase s = Giving 0 v \<Longrightarrow> k + Suc n \<le> length buf \<Longrightarrow>
   recv_bytes_loop P L B False buf k (Suc n) (at s w)
   = Some (int (k + Suc n), take k buf @ v # fst (gives D n (slave s)) @ drop (k + Suc n) buf,
       at (s\<lparr>sda_out := True, phase := Quiet, slave := snd (gives D n (slave s))\<rparr>) w)"
proof (induction n arbitrary: k s v buf)
  case 0
  then have "buf[k := v] = take k buf @ v # drop (Suc k) buf" by (simp add: upd_conv_take_nth_drop)
  with 0 show ?case by (cases s) (simp add: byte_read answered wr_def)
next
  case (Suc n)
  let ?s = "s\<lparr>sda_out := False, phase := fst (give D (slave s)), slave := snd (give D (slave s))\<rparr>"
  obtain b d where g: "give_byte D (slave s) = (b, d)" by fastforce
  have "buf[k := v] = take k buf @ v # drop (Suc k) buf" using Suc.prems by (simp add: upd_conv_take_nth_drop)
  then have l: "take (Suc k) (buf[k := v]) = take k buf @ [v]" "drop (Suc k + Suc n) (buf[k := v]) = drop (k + Suc (Suc n)) buf"
    using Suc.prems by (simp_all add: take_Suc_conv_app_nth add.commute)
  have "recv_bytes_loop P L B False buf k (Suc (Suc n)) (at s w) = recv_bytes_loop P L B False (buf[k := v]) (Suc k) (Suc n) (at ?s w)"
    using Suc.prems by (subst recv_bytes_loop.simps(2)) (simp add: byte_read answered wr_def del: recv_bytes_loop.simps)
  with Suc.IH [of ?s b "Suc k" "buf[k := v]"] Suc.prems g l show ?case
    by (cases s) (simp add: give_def split_def Let_def del: recv_bytes_loop.simps)
qed

text \<open>An address: whether the device answers, however often it is sent.\<close>

lemma address_again:
  assumes "\<not> scl_high s"
  shows "do {
      w \<leftarrow> i2c_stop P L B (at (s\<lparr>sda_out := True, phase := Quiet\<rparr>) w);
      Some (i2c_start P L B (i2c_delay2 P B w)) } = Some (at (s\<lparr>sda_out := False, phase := Getting True 0 0\<rparr>) w)"
  using assms by (cases s) (simp add: stop_line start_line lines scl_line_def sda_line_def sda_level_def)

lemma address_sent:
  "\<not> scl_high s \<Longrightarrow> phase s = Getting True 0 0 \<Longrightarrow> send_address_loop P L B b n (at s w)
   = (if drop_bit 1 b \<noteq> own_address D then Some (0, at (s\<lparr>sda_out := True, phase := Quiet\<rparr>) w)
      else if bit b 0 then Some (1, at (s\<lparr>sda_out := True, phase := fst (give D (slave s)), slave := snd (give D (slave s))\<rparr>) w)
      else Some (1, at (s\<lparr>sda_out := True, phase := Getting False 0 0\<rparr>) w))"
proof (induction n arbitrary: s)
  case 0
  then show ?case by (cases s) (simp add: byte_written)
next
  case (Suc n)
  show ?case
  proof (cases "drop_bit 1 b = own_address D")
    case True
    with Suc.prems show ?thesis by (cases s) (simp add: byte_written)
  next
    case False
    with Suc.prems Suc.IH [of "s\<lparr>sda_out := False, phase := Getting True 0 0\<rparr>"] address_again [OF Suc.prems(1), of B w]
    show ?thesis by (auto simp: byte_written split: bind_splits)
  qed
qed

definition between :: "'d i2c_wire \<Rightarrow> bool" where
  "between s \<longleftrightarrow> \<not> scl_high s \<and> sda_out s \<and> (phase s = Quiet \<or> phase s = Getting False 0 0)"

lemma opened:
  assumes "if first then bus_idle s else between s"
  shows "(if first then Some (i2c_start P L B (at s w)) else i2c_restart P L B (at s w))
    = Some (at (s\<lparr>scl_high := False, sda_out := False, phase := Getting True 0 0\<rparr>) w)"
  using assms
  by (cases s) (auto simp: bus_idle_def between_def start_line restart_line lines scl_line_def sda_line_def sda_level_def split: if_splits)

lemma stopped: "between s \<Longrightarrow> i2c_stop P L B (at s w) = Some (at (s\<lparr>scl_high := True, sda_out := True, phase := Quiet\<rparr>) w)"
  by (cases s) (auto simp: between_def stop_line lines scl_line_def sda_line_def sda_level_def)

lemma addressed:
  assumes m: "plain_msg m" and r: "0 \<le> sint (retries B)" and s: "\<not> scl_high s" "phase s = Getting True 0 0"
  shows "i2c_bit_send_address P L B m (at s w)
    = (if \<not> to_slave D m then Some (- I2C_EIO, at (s\<lparr>sda_out := True, phase := Quiet\<rparr>) w)
       else if i2c_flag m RT_I2C_RD then Some (0, at (s\<lparr>sda_out := True, phase := fst (give D (slave s)), slave := snd (give D (slave s))\<rparr>) w)
       else Some (0, at (s\<lparr>sda_out := True, phase := Getting False 0 0\<rparr>) w))"
proof -
  have a: "i2c_addr m < 128" using m by (simp add: plain_msg_def)
  have f: "\<not> i2c_flag m RT_I2C_IGNORE_NACK" "\<not> i2c_flag m RT_I2C_ADDR_10BIT" using m by (auto simp: plain_msg_def i2c_flag_def)
  have t: "to_slave D m \<longleftrightarrow> ucast (i2c_addr m) = own_address D" using same_address [OF a short_address] by (simp add: to_slave_def)
  show ?thesis
    using f r t seven_bit_address [OF a] address_sent [OF s]
    by (auto simp: i2c_bit_send_address_def i2c_send_address_def Let_def)
qed

lemma message_served:
  assumes m: "plain_msg m" and r: "0 \<le> sint (retries B)" and s: "if first then bus_idle s else between s"
  shows "\<exists>s'. xfer_message P L B first m (at s w)
      = Some (if to_slave D m then None else Some (- I2C_EIO), if to_slave D m then fst (serve D m (slave s)) else m, at s' w)
    \<and> between s' \<and> slave s' = (if to_slave D m then snd (serve D m (slave s)) else slave s)"
proof -
  have f: "\<not> i2c_flag m RT_I2C_NO_START" "\<not> i2c_flag m RT_I2C_IGNORE_NACK" "\<not> i2c_flag m RT_I2C_NO_READ_ACK"
    using m by (auto simp: plain_msg_def i2c_flag_def)
  let ?s = "s\<lparr>scl_high := False, sda_out := False, phase := Getting True 0 0\<rparr>"
  note a = addressed [OF m r, of ?s w]
  note start = opened [OF s, of B w]
  consider "\<not> to_slave D m" | "to_slave D m" "\<not> i2c_flag m RT_I2C_RD" | "to_slave D m" "i2c_flag m RT_I2C_RD" by blast
  then show ?thesis
  proof cases
    case 1
    with a start f show ?thesis by (cases first) (auto simp: xfer_message_def between_def)
  next
    case 2
    let ?t = "s\<lparr>scl_high := False, sda_out := True, phase := Getting False 0 0\<rparr>"
    have "0 + unat (i2c_len m) \<le> length (i2c_buf m)" using m by (simp add: plain_msg_def)
    note b = bytes_out [OF _ _ _ this, of ?t B False w]
    from 2 a start f b show ?thesis
      by (cases first) (auto simp: xfer_message_def i2c_send_bytes_def serve_def between_def)
  next
    case 3
    let ?t = "s\<lparr>scl_high := False, sda_out := True, phase := fst (give D (slave s)), slave := snd (give D (slave s))\<rparr>"
    obtain n where n: "unat (i2c_len m) = Suc n" using m 3(2)
      by (cases "unat (i2c_len m)") (auto simp: plain_msg_def i2c_flag_def unat_eq_0)
    have l: "0 + Suc n \<le> length (i2c_buf m)" and u: "uint (i2c_len m) = 1 + int n"
      using m n by (simp_all add: plain_msg_def uint_nat)
    have "phase ?t = Giving 0 (fst (give_byte D (slave s)))" by (simp add: give_def split_def Let_def)
    note b = bytes_in [OF _ this l, of B w]
    from 3 a start f b n u show ?thesis
      by (cases first) (auto simp: xfer_message_def i2c_recv_bytes_def serve_def between_def give_def split_def Let_def simp flip: uint_nat
          simp del: recv_bytes_loop.simps)
  qed
qed

lemma served_flags: "i2c_flag (fst (serve D m d)) f \<longleftrightarrow> i2c_flag m f"
  by (simp add: serve_def i2c_flag_def split_def Let_def)

lemma loop_served:
  "0 \<le> sint (retries B) \<Longrightarrow> \<forall>m\<in>set ms. plain_msg m \<Longrightarrow> (if i = 0 then ms \<noteq> [] \<and> bus_idle s else between s) \<Longrightarrow>
   \<exists>s'. xfer_loop P L B i False ms (at s w)
      = Some (fst (serve_all D i ms (slave s)), fst (snd (serve_all D i ms (slave s))), False, at s' w)
    \<and> between s' \<and> slave s' = snd (snd (serve_all D i ms (slave s)))"
proof (induction ms arbitrary: i s)
  case (Cons m ms)
  have "if i = 0 then bus_idle s else between s" using Cons.prems(3) by (auto split: if_splits)
  with message_served [of m B "i = 0" s w] Cons.prems(1,2) obtain s' where
    s': "xfer_message P L B (i = 0) m (at s w)
      = Some (if to_slave D m then None else Some (- I2C_EIO), if to_slave D m then fst (serve D m (slave s)) else m, at s' w)"
    "between s'" "slave s' = (if to_slave D m then snd (serve D m (slave s)) else slave s)" by auto
  have f: "\<not> i2c_flag m RT_I2C_NO_STOP" using Cons.prems(2) by (auto simp: plain_msg_def i2c_flag_def)
  show ?case
  proof (cases "to_slave D m")
    case True
    with Cons.IH [of "i + 1" s'] Cons.prems s' f show ?thesis
      by (auto simp: served_flags split_def Let_def)
  next
    case False
    with s' f show ?thesis by auto
  qed
qed (auto split: if_splits)

lemma transfer_served:
  assumes r: "0 \<le> sint (retries B)" and m: "\<forall>m\<in>set ms. plain_msg m" and idle: "bus_idle (wires w)"
  shows "rt_i2c_transfer P L B ms w
    = (case serve_all D 0 ms (slave (wires w)) of (n, ms, d) \<Rightarrow> Some (n, ms, put ((wires w)\<lparr>slave := d\<rparr>) w))"
proof (cases "ms = []")
  case True
  then show ?thesis by (simp add: rt_i2c_transfer_def i2c_bit_xfer_def put_wires)
next
  case False
  let ?r = "serve_all D 0 ms (slave (wires w))"
  from loop_served [OF r m, of 0 "wires w" w] False idle obtain s' where
    s': "xfer_loop P L B 0 False ms w = Some (fst ?r, fst (snd ?r), False, at s' w)" "between s'" "slave s' = snd (snd ?r)"
    by (auto simp: at_wires)
  have "s'\<lparr>scl_high := True, sda_out := True, phase := Quiet\<rparr> = (wires w)\<lparr>slave := snd (snd ?r)\<rparr>"
    using idle s'(3) by (cases s'; cases "wires w") (simp add: bus_idle_def)
  with False s' stopped [OF s'(2), of B w] show ?thesis
    by (simp add: rt_i2c_transfer_def i2c_bit_xfer_def at_def split_def)
qed

section \<open>A device that holds the data line\<close>

text \<open>Nine clocks free the line, and leave the clock down.\<close>

lemma one_clock: "unlock_clocks P L (Suc k) (at s w) = unlock_clocks P L k (at (scl_line D False (scl_line D True s)) w)"
  by (simp add: scl_write busy_wait Let_def)

lemma clock_moves:
  "phase s = Giving n v \<Longrightarrow> scl_line D False (scl_line D True s) = s\<lparr>scl_high := False, phase := (if n < 7 then Giving (n + 1) v else Awaiting)\<rparr>"
  "\<not> scl_high s \<Longrightarrow> sda_out s \<Longrightarrow> phase s = Awaiting \<Longrightarrow> scl_line D False (scl_line D True s) = s\<lparr>phase := Quiet\<rparr>"
  "\<not> scl_high s \<Longrightarrow> phase s = Quiet \<Longrightarrow> scl_line D False (scl_line D True s) = s"
  by (cases s; auto simp: scl_line_def sda_level_def)+

lemma clocks_out:
  "scl_high s \<Longrightarrow> sda_out s \<Longrightarrow> phase s = Giving n v \<Longrightarrow> n < 8 \<Longrightarrow>
   unlock_clocks P L 9 (at s w) = at (s\<lparr>scl_high := False, phase := Quiet\<rparr>) w"
proof -
  assume s: "scl_high s" "sda_out s" "phase s = Giving n v" "n < 8"
  then have "n \<in> {0, 1, 2, 3, 4, 5, 6, 7}" by auto
  then show ?thesis
    using s by (cases s) (elim insertE; simp add: numeral_eq_Suc one_clock clock_moves del: unlock_clocks.simps(2))
qed

lemma unlocked:
  assumes "scl_high s" "sda_out s" "phase s = Giving n v" "n < 8" "\<not> bit v (7 - n)"
  shows "ch32_i2c_bus_unlock P L (ch32_i2c_gpio_init P L (at s w)) = (0, at (s\<lparr>scl_high := False, phase := Quiet\<rparr>) w)"
proof -
  have "scl_line D True s = s" "sda_line True s = s" using assms by (cases s; simp add: scl_line_def sda_line_def sda_level_def)+
  then have "ch32_i2c_gpio_init P L (at s w) = at s w" by (simp add: ch32_i2c_gpio_init_def open_drain scl_write sda_write Let_def)
  with assms show ?thesis by (simp add: ch32_i2c_bus_unlock_def sda_read clocks_out sda_level_def)
qed

text \<open>A transfer with the clock down has no start, and so no device answers.\<close>

lemma no_start:
  assumes s: "\<not> scl_high s" "sda_out s" "phase s = Quiet" and m: "plain_msg m" and r: "retries B = 0"
  shows "rt_i2c_transfer P L B (m # ms) (at s w) = Some (- I2C_EIO, m # ms, at (s\<lparr>scl_high := True\<rparr>) w)"
proof -
  have f: "\<not> i2c_flag m RT_I2C_NO_START" "\<not> i2c_flag m RT_I2C_IGNORE_NACK" "\<not> i2c_flag m RT_I2C_ADDR_10BIT" "\<not> i2c_flag m RT_I2C_NO_STOP"
    using m by (auto simp: plain_msg_def i2c_flag_def)
  have start: "i2c_start P L B (at s w) = at (s\<lparr>sda_out := False\<rparr>) w"
    using s by (cases s) (simp add: start_line scl_line_def sda_line_def)
  have quiet: "i2c_writeb P L B b (at (s\<lparr>sda_out := False\<rparr>) w) = Some (0, at s w)" for b
    using s by (cases s) (simp add: quiet_byte)
  have stop: "i2c_stop P L B (at s w) = Some (at (s\<lparr>scl_high := True\<rparr>) w)"
    using s by (cases s) (simp add: stop_line scl_line_def sda_line_def sda_level_def)
  show ?thesis
    using f start quiet stop r
    by (simp add: rt_i2c_transfer_def i2c_bit_xfer_def xfer_message_def i2c_bit_send_address_def i2c_send_address_def Let_def)
qed

end

end
