(* ===== verification/I2c_Display.thy ===== *)
theory I2c_Display
  imports I2c_Wire Lcd_Panel
begin

text \<open>
  What hangs on the I2C bus of the board: the expander of the display. The effects of the display driver
  as transfers on the bus, the shell command \<open>i2c_scan.c\<close>, and the bus that is set up while a device
  holds the data line.
\<close>

section \<open>The display on the bus\<close>

abbreviation (input) LCD_I2C_ADD :: u16 where "LCD_I2C_ADD \<equiv> 0x3F"

text \<open>The two messages of \<open>lcd_pin_write\<close>; the byte read goes to \<open>read_value\<close>, which nothing looks at.\<close>

definition lcd_write_msg :: "u8 \<Rightarrow> i2c_msg" where
  "lcd_write_msg port = \<lparr>i2c_addr = LCD_I2C_ADD, i2c_flags = 0, i2c_len = 1, i2c_buf = [port]\<rparr>"

definition lcd_read_msg :: "u8 \<Rightarrow> i2c_msg" where
  "lcd_read_msg value = \<lparr>i2c_addr = LCD_I2C_ADD, i2c_flags = RT_I2C_RD, i2c_len = 1, i2c_buf = [value]\<rparr>"

text \<open>An effect of the driver on the bus, and whether the driver goes on.\<close>

fun bus_effect :: "'w i2c_pins \<Rightarrow> soft_i2c_config \<Rightarrow> i2c_bus_device \<Rightarrow> effect \<Rightarrow> 'w \<Rightarrow> (bool \<times> 'w) option" where
  "bus_effect P L B (I2C_Write b) w = do {
     (ret, _, w) \<leftarrow> rt_i2c_transfer P L B [lcd_write_msg b] w;
     Some (ret = 1, w) }"
| "bus_effect P L B I2C_Read w = do {
     (ret, _, w) \<leftarrow> rt_i2c_transfer P L B [lcd_read_msg 0xFF] w;
     Some (ret = 1, w) }"
| "bus_effect P L B _ w = Some (True, w)"

fun run_trace :: "'w i2c_pins \<Rightarrow> soft_i2c_config \<Rightarrow> i2c_bus_device \<Rightarrow> effect list \<Rightarrow> 'w \<Rightarrow> (bool \<times> 'w) option" where
  "run_trace P L B [] w = Some (True, w)"
| "run_trace P L B (e # es) w = do {
     (ok, w) \<leftarrow> bus_effect P L B e w;
     if ok then run_trace P L B es w else Some (False, w) }"

text \<open>The expander: a byte written to it goes to the panel's lines, a read gives them back.\<close>

definition expander :: "panel i2c_slave" where
  "expander = \<lparr>own_address = 0x3F, take_byte = (\<lambda>b. panel_step (I2C_Write b)), give_byte = (\<lambda>p. (lines_in p, p))\<rparr>"

section \<open>The scan\<close>

definition hex_digit :: "nat \<Rightarrow> char" where
  "hex_digit n = ''0123456789ABCDEF'' ! (n mod 16)"

definition hex2 :: "nat \<Rightarrow> string" where
  "hex2 i = [hex_digit (i div 16), hex_digit i]"

abbreviation (input) line_end :: string where "line_end \<equiv> [CHR 0x0A]"

fun i2c_scan_loop :: "'w i2c_pins \<Rightarrow> soft_i2c_config \<Rightarrow> i2c_bus_device \<Rightarrow> nat \<Rightarrow> nat \<Rightarrow> 'w \<Rightarrow> (string \<times> 'w) option" where
  "i2c_scan_loop P L B i 0 w = Some ([], w)"
| "i2c_scan_loop P L B i (Suc n) w = do {
     let row = (if i mod 16 = 0 then line_end @ hex2 i else []);
     (ret, _, w) \<leftarrow> rt_i2c_transfer P L B [\<lparr>i2c_addr = word_of_nat i, i2c_flags = 0, i2c_len = 0, i2c_buf = []\<rparr>] w;
     let cell = (if ret = 1 then '' '' @ hex2 i else '' --'');
     (rest, w) \<leftarrow> i2c_scan_loop P L B (i + 1) n w;
     Some (row @ cell @ rest, w) }"

text \<open>The result of the command, and what it prints; \<open>devices\<close> are the buses that are found.\<close>

definition i2c_scan :: "'w i2c_pins \<Rightarrow> soft_i2c_config \<Rightarrow> (string \<Rightarrow> i2c_bus_device option) \<Rightarrow> string list \<Rightarrow> 'w \<Rightarrow> (int \<times> string \<times> 'w) option" where
  "i2c_scan P L devices argv w =
     (if length argv \<noteq> 2 then Some (- 1, ''usage: i2c_scan bus'' @ line_end, w)
      else (case devices (argv ! 1) of
          None \<Rightarrow> Some (- 1, ''can'' @ [CHR 0x27] @ ''t open bus ['' @ argv ! 1 @ '']'' @ line_end, w)
        | Some B \<Rightarrow> do {
            let title = ''scanning bus '' @ argv ! 1 @ line_end;
            let columns = ''   00 01 02 03 04 05 06 07 08 09 0A 0B 0C 0D 0E 0F'';
            (table, w) \<leftarrow> i2c_scan_loop P L B 0 128 w;
            Some (0, title @ columns @ table @ line_end, w) }))"

section \<open>The bus of the board\<close>

text \<open>The pins of the board, in a world that is nothing but the wires.\<close>

definition i2c1_lines :: soft_i2c_config where
  "i2c1_lines = \<lparr>scl_pin = 24, sda_pin = 25\<rparr>"

definition wire_lines :: "'d i2c_slave \<Rightarrow> 'd i2c_wire i2c_pins" where
  "wire_lines D = \<lparr>
     rt_pin_write = (\<lambda>p v s. if p = 24 then scl_line D v s else if p = 25 then sda_line v s else s),
     rt_pin_read = (\<lambda>p s. (if p = 24 then scl_high s else sda_level s, s)),
     rt_pin_mode = (\<lambda>p m s. s), pin_udelay = (\<lambda>n s. s), tick_now = (\<lambda>s. (0, s))\<rparr>"

lemma wires_of_board: "own_address D < 128 \<Longrightarrow> i2c_wires (wire_lines D) i2c1_lines D id (\<lambda>s _. s)"
  by unfold_locales (simp_all add: wire_lines_def i2c1_lines_def)

interpretation display: i2c_wires "wire_lines expander" i2c1_lines expander id "\<lambda>s _. s"
  by (rule wires_of_board) (simp add: expander_def)

definition idle_wires :: "'d \<Rightarrow> 'd i2c_wire" where
  "idle_wires d = \<lparr>scl_high = True, sda_out = True, phase = Quiet, slave = d\<rparr>"

definition i2c1_bus :: i2c_bus_device where
  "i2c1_bus = \<lparr>bus_flags = 0, bus_timeout = 1000, retries = 0, ops_delay_us = 1, ops_timeout = 100\<rparr>"

lemma bus_set_up:
  "rt_hw_i2c_init P L w = (i2c1_bus, snd (ch32_i2c_bus_unlock P L (ch32_i2c_gpio_init P L w)))"
  by (simp add: rt_hw_i2c_init_def rt_i2c_bus_device_register_def i2c1_bus_def split_def Let_def)

section \<open>Transfers\<close>

text \<open>
  C25: the software I2C bus serves whole messages. With a device on the two wires, which sees starts,
  stops, bits and acknowledgements as the standard has them, \<open>rt_i2c_transfer\<close> from an idle bus gives
  for every list of plain messages, whatever their number, directions and lengths, what the device
  gives for whole messages: its bytes in the buffers of the reads, the bytes of the writes taken in
  order, the number of messages as result, or an error at the first message for another address; and
  the bus is idle again with nothing but the device changed.
\<close>

theorem i2c_bus_serves:
  assumes "i2c_wires P L D wires put" and "0 \<le> sint (retries B)" and "\<forall>m\<in>set ms. plain_msg m" and "bus_idle (wires w)"
  shows "rt_i2c_transfer P L B ms w
    = (case serve_all D 0 ms (slave (wires w)) of (n, ms, d) \<Rightarrow> Some (n, ms, put ((wires w)\<lparr>slave := d\<rparr>) w))"
  by (rule i2c_wires.transfer_served [OF assms])

text \<open>A write, a read in the same transfer, and a message for nobody.\<close>

theorem i2c_bus_serves_witness:
  "\<forall>p. rt_i2c_transfer (wire_lines expander) i2c1_lines i2c1_bus [lcd_write_msg 0xF7, lcd_read_msg 0, (lcd_write_msg 1)\<lparr>i2c_addr := 0x27\<rparr>]
      (idle_wires p)
    = Some (- I2C_EIO, [lcd_write_msg 0xF7, lcd_read_msg 0xF7, (lcd_write_msg 1)\<lparr>i2c_addr := 0x27\<rparr>],
        idle_wires (panel_step (I2C_Write 0xF7) p))"
proof (intro allI, goal_cases)
  case (1 p)
  have l: "lines_in (panel_step (I2C_Write 0xF7) p) = 0xF7" by (simp add: latch_lines)
  have "rt_i2c_transfer (wire_lines expander) i2c1_lines i2c1_bus [lcd_write_msg 0xF7, lcd_read_msg 0, (lcd_write_msg 1)\<lparr>i2c_addr := 0x27\<rparr>]
      (idle_wires p) = (case serve_all expander 0 [lcd_write_msg 0xF7, lcd_read_msg 0, (lcd_write_msg 1)\<lparr>i2c_addr := 0x27\<rparr>] (slave (id (idle_wires p))) of
        (n, ms, d) \<Rightarrow> Some (n, ms, (id (idle_wires p))\<lparr>slave := d\<rparr>))"
    by (rule i2c_bus_serves [OF display.i2c_wires_axioms])
      (simp_all add: i2c1_bus_def plain_msg_def lcd_write_msg_def lcd_read_msg_def bus_idle_def idle_wires_def)
  with l show ?case
    by (simp add: to_slave_def serve_def i2c_flag_def lcd_write_msg_def lcd_read_msg_def expander_def idle_wires_def
        del: panel_step.simps)
qed

text \<open>What the display driver asks of the bus, message by message.\<close>

lemma one_effect:
  assumes "i2c_wires P L expander wires put" and "0 \<le> sint (retries B)" and "bus_idle (wires w)"
  shows "bus_effect P L B e w = Some (True, put ((wires w)\<lparr>slave := panel_step e (slave (wires w))\<rparr>) w)"
proof -
  have t: "\<forall>m\<in>set ms. plain_msg m \<Longrightarrow> rt_i2c_transfer P L B ms w
      = (case serve_all expander 0 ms (slave (wires w)) of (n, ms, d) \<Rightarrow> Some (n, ms, put ((wires w)\<lparr>slave := d\<rparr>) w))" for ms
    using i2c_wires.transfer_served [OF assms(1,2) _ assms(3)] by blast
  have same: "put (wires w) w = w" by (rule i2c_wires.put_wires [OF assms(1)])
  show ?thesis
  proof (cases e)
    case (I2C_Write b)
    then show ?thesis using t [of "[lcd_write_msg b]"]
      by (simp add: plain_msg_def lcd_write_msg_def to_slave_def serve_def i2c_flag_def expander_def del: panel_step.simps(1))
  next
    case I2C_Read
    then show ?thesis using t [of "[lcd_read_msg 0xFF]"]
      by (simp add: plain_msg_def lcd_read_msg_def to_slave_def serve_def i2c_flag_def expander_def)
  qed (simp_all add: same)
qed

text \<open>
  C26: the display hears its driver. Whatever the display driver has done since the start, its
  transfers put on the I2C wires one after the other all succeed, and the panel behind the expander
  comes to show exactly the screen of the driver's trace.
\<close>

theorem display_on_the_bus:
  assumes "i2c_wires P L expander wires put" and "0 \<le> sint (retries B)" and "bus_idle (wires w)" and "slave (wires w) = power_on"
  shows "run_trace P L B (trace s) w = Some (True, put ((wires w)\<lparr>slave := screen s\<rparr>) w)"
proof -
  have "bus_idle (wires w) \<Longrightarrow> run_trace P L B es w = Some (True, put ((wires w)\<lparr>slave := fold panel_step es (slave (wires w))\<rparr>) w)" for es
  proof (induction es arbitrary: w)
    case Nil
    then show ?case using i2c_wires.put_wires [OF assms(1)] by simp
  next
    case (Cons e es)
    note one = one_effect [OF assms(1,2) Cons.prems, of e]
    note laws = i2c_wires.wires_put [OF assms(1)] i2c_wires.put_put [OF assms(1)]
    from Cons.IH [of "put ((wires w)\<lparr>slave := panel_step e (slave (wires w))\<rparr>) w"] Cons.prems show ?case
      by (simp add: one laws bus_idle_def)
  qed
  with assms(3,4) show ?thesis by (simp add: screen_def)
qed

text \<open>The first text on the board's wires.\<close>

theorem display_on_the_bus_witness:
  "\<exists>p. run_trace (wire_lines expander) i2c1_lines i2c1_bus
      (trace (LCD_Puts \<lparr>bus_found = True, bus_transfer = (\<lambda>_. True)\<rparr> 0 1 (ascii ''ok'')
        (LCD_Init \<lparr>bus_found = True, bus_transfer = (\<lambda>_. True)\<rparr> lcd_reset))) (idle_wires power_on) = Some (True, idle_wires p)
    \<and> map (\<lambda>i. ddram p (0x40 + i)) [0..<16] = ascii ''ok'' @ replicate 14 32"
proof -
  let ?bus = "\<lparr>bus_found = True, bus_transfer = (\<lambda>_. True)\<rparr>"
  let ?s = "LCD_Puts ?bus 0 1 (ascii ''ok'') (LCD_Init ?bus lcd_reset)"
  have init: "ready (LCD_Init ?bus lcd_reset)" "\<forall>y. line_text y (LCD_Init ?bus lcd_reset) = replicate 16 32"
    using init_screen [of ?bus lcd_reset] by (auto simp: lcd_reset_def screen_def power_on_def)
  have "printable (ascii ''ok'')" "length (ascii ''ok'') = 2" by (simp_all add: ascii_def printable_def)
  with init puts_line [of "LCD_Init ?bus lcd_reset" 1 "ascii ''ok''" ?bus] have "line_text 1 ?s = ascii ''ok'' @ replicate 14 32" by simp
  moreover have "run_trace (wire_lines expander) i2c1_lines i2c1_bus (trace ?s) (idle_wires power_on) = Some (True, idle_wires (screen ?s))"
    by (subst display_on_the_bus [OF display.i2c_wires_axioms]) (simp_all add: i2c1_bus_def bus_idle_def idle_wires_def)
  ultimately show ?thesis by (intro exI [of _ "screen ?s"]) (simp add: line_text_def)
qed

section \<open>The scan and the board's start\<close>

definition scan_cell :: "nat \<Rightarrow> nat \<Rightarrow> string" where
  "scan_cell a i = (if i mod 16 = 0 then line_end @ hex2 i else []) @ (if i = a then '' '' @ hex2 i else '' --'')"

lemma scan_loop_finds:
  assumes "i2c_wires P L D wires put" and "0 \<le> sint (retries B)" and "bus_idle (wires w)"
  shows "i + n \<le> 128 \<Longrightarrow> i2c_scan_loop P L B i n w = Some (concat (map (scan_cell (unat (own_address D))) [i..<i + n]), w)"
proof (induction n arbitrary: i)
  case (Suc n)
  let ?m = "\<lparr>i2c_addr = word_of_nat i, i2c_flags = 0, i2c_len = 0, i2c_buf = []\<rparr> :: i2c_msg"
  have a: "word_of_nat i < (128 :: u16)" "own_address D < 128"
    using Suc.prems i2c_wires.short_address [OF assms(1)] by (simp_all add: word_less_nat_alt unat_of_nat)
  have t: "to_slave D ?m \<longleftrightarrow> i = unat (own_address D)"
    using same_address [OF a] a Suc.prems by (auto simp: to_slave_def word_unat_eq_iff unsigned_ucast_eq take_bit_nat_eq_self word_less_nat_alt unat_of_nat)
  have "put ((wires w)\<lparr>slave := slave (wires w)\<rparr>) w = w" using i2c_wires.put_wires [OF assms(1)] by simp
  with i2c_wires.transfer_served [OF assms(1,2) _ assms(3), of "[?m]"] a
  have "\<exists>ms. rt_i2c_transfer P L B [?m] w = Some (if i = unat (own_address D) then 1 else - I2C_EIO, ms, w)"
    by (auto simp: t plain_msg_def serve_def i2c_flag_def)
  with Suc show ?case by (auto simp: scan_cell_def upt_conv_Cons simp del: upt_Suc)
qed simp

text \<open>
  The scan finds the device. With one device on the wires of a found bus, \<open>i2c_scan\<close> prints the
  table of the 128 addresses with the number at the device's address and dashes at every other, and
  leaves the device and the bus as they were.
\<close>

theorem i2c_scan_finds_device:
  assumes "i2c_wires P L D wires put" and "devices name = Some B" and "0 \<le> sint (retries B)" and "bus_idle (wires w)"
  shows "i2c_scan P L devices [''i2c_scan'', name] w
    = Some (0, ''scanning bus '' @ name @ line_end @ ''   00 01 02 03 04 05 06 07 08 09 0A 0B 0C 0D 0E 0F''
        @ concat (map (scan_cell (unat (own_address D))) [0..<128]) @ line_end, w)"
  using scan_loop_finds [OF assms(1,3,4), of 0 128] assms(2) by (simp add: i2c_scan_def)

theorem i2c_scan_finds_device_witness:
  "\<forall>p. i2c_scan (wire_lines expander) i2c1_lines [''i2c1'' \<mapsto> i2c1_bus] [''i2c_scan'', ''i2c1''] (idle_wires p)
    = Some (0, ''scanning bus '' @ ''i2c1'' @ line_end @ ''   00 01 02 03 04 05 06 07 08 09 0A 0B 0C 0D 0E 0F''
        @ concat (map (scan_cell 63) [0..<128]) @ line_end, idle_wires p)"
  using i2c_scan_finds_device [OF display.i2c_wires_axioms, of "[''i2c1'' \<mapsto> i2c1_bus]" "''i2c1''" i2c1_bus]
  by (simp add: i2c1_bus_def bus_idle_def idle_wires_def expander_def)

text \<open>
  Freeing the bus costs its first transfer. When the board starts while a device holds the data
  line in the middle of a byte it gives, \<open>rt_hw_i2c_init\<close> clocks it out, but leaves the clock down: the
  first transfer has no start on the wires, whatever device it is for, and fails; after it the bus is
  idle, and the next transfer is served.
\<close>

theorem unlock_loses_first_transfer:
  assumes "i2c_wires P L D wires put" and "wires w = \<lparr>scl_high = True, sda_out = True, phase = Giving n v, slave = d\<rparr>"
    and "n < 8" and "\<not> bit v (7 - n)" and "plain_msg m" and "\<forall>m\<in>set ns. plain_msg m"
  shows "\<exists>B w1 w2. rt_hw_i2c_init P L w = (B, w1) \<and> rt_i2c_transfer P L B (m # ms) w1 = Some (- I2C_EIO, m # ms, w2)
    \<and> rt_i2c_transfer P L B ns w2 = (case serve_all D 0 ns d of (k, ns, d) \<Rightarrow> Some (k, ns, put (idle_wires d) w2))"
proof -
  note at = i2c_wires.at_simps [OF assms(1)] i2c_wires.at_wires [OF assms(1)]
  let ?low = "(wires w)\<lparr>scl_high := False, phase := Quiet\<rparr>"
  have same: "i2c_wires.at put \<lparr>scl_high = True, sda_out = True, phase = Giving n v, slave = d\<rparr> w = w"
    using i2c_wires.at_wires [OF assms(1), of w] assms(2) by simp
  have free: "rt_hw_i2c_init P L w = (i2c1_bus, i2c_wires.at put ?low w)"
    using i2c_wires.unlocked [OF assms(1), of "wires w" n v w] assms(2-4) by (simp add: bus_set_up same)
  have "retries i2c1_bus = 0" by (simp add: i2c1_bus_def)
  with i2c_wires.no_start [OF assms(1) _ _ _ assms(5), of ?low i2c1_bus ms w] assms(2)
  have lost: "rt_i2c_transfer P L i2c1_bus (m # ms) (i2c_wires.at put ?low w) = Some (- I2C_EIO, m # ms, i2c_wires.at put (idle_wires d) w)"
    by (simp add: idle_wires_def)
  have served: "rt_i2c_transfer P L i2c1_bus ns (i2c_wires.at put (idle_wires d) w)
      = (case serve_all D 0 ns d of (k, ns, e) \<Rightarrow> Some (k, ns, put (idle_wires e) (i2c_wires.at put (idle_wires d) w)))"
    by (subst i2c_wires.transfer_served [OF assms(1) _ assms(6)]) (simp_all add: at i2c1_bus_def bus_idle_def idle_wires_def)
  show ?thesis by (intro exI conjI, rule free, rule lost, rule served)
qed

text \<open>The display's expander was being read when the board was reset.\<close>

theorem unlock_loses_first_transfer_witness:
  "\<forall>p. \<exists>B w1 w2. rt_hw_i2c_init (wire_lines expander) i2c1_lines \<lparr>scl_high = True, sda_out = True, phase = Giving 3 0, slave = p\<rparr> = (B, w1)
    \<and> rt_i2c_transfer (wire_lines expander) i2c1_lines B [lcd_write_msg 0xF7] w1 = Some (- I2C_EIO, [lcd_write_msg 0xF7], w2)
    \<and> rt_i2c_transfer (wire_lines expander) i2c1_lines B [lcd_write_msg 0xF7] w2
        = Some (1, [lcd_write_msg 0xF7], idle_wires (panel_step (I2C_Write 0xF7) p))"
proof (intro allI, goal_cases)
  case (1 p)
  have m: "plain_msg (lcd_write_msg 0xF7)" by (simp add: plain_msg_def lcd_write_msg_def)
  have "serve_all expander 0 [lcd_write_msg 0xF7] p = (1, [lcd_write_msg 0xF7], panel_step (I2C_Write 0xF7) p)"
    by (simp add: to_slave_def serve_def i2c_flag_def lcd_write_msg_def expander_def del: panel_step.simps)
  with unlock_loses_first_transfer [OF display.i2c_wires_axioms, of _ 3 0 p "lcd_write_msg 0xF7" "[lcd_write_msg 0xF7]" "[]"] m
  show ?case by simp
qed

end
