(* ===== verification/I2c_Time.thy ===== *)
theory I2c_Time
  imports I2c_Display
begin

text \<open>
  Every transfer on the software I2C bus ends, whatever the lines do: the only loop without a bound of
  its own is the wait for the clock line, and it looks at the tick.
\<close>

section \<open>Computations that return\<close>

definition returns :: "'a option \<Rightarrow> ('a \<Rightarrow> bool) \<Rightarrow> bool" where
  "returns x Q \<longleftrightarrow> (\<exists>y. x = Some y \<and> Q y)"

lemma returns_Some [simp]: "returns (Some y) Q \<longleftrightarrow> Q y"
  by (simp add: returns_def)

lemma returns_bind: "returns x R \<Longrightarrow> (\<And>y. R y \<Longrightarrow> returns (f y) Q) \<Longrightarrow> returns (Option.bind x f) Q"
  by (auto simp: returns_def)

lemma returns_weaken: "returns x R \<Longrightarrow> (\<And>y. R y \<Longrightarrow> Q y) \<Longrightarrow> returns x Q"
  by (auto simp: returns_def)

text \<open>A message that keeps what it is: its address, flags and length, and the length of its buffer.\<close>

definition shape :: "i2c_msg \<Rightarrow> u16 \<times> u16 \<times> u16 \<times> nat" where
  "shape m = (i2c_addr m, i2c_flags m, i2c_len m, length (i2c_buf m))"

definition has_room :: "i2c_msg \<Rightarrow> bool" where
  "has_room m \<longleftrightarrow> unat (i2c_len m) \<le> length (i2c_buf m)"

section \<open>Time\<close>

text \<open>
  Time goes on by microseconds, in a busy wait by one at least; a tick is a thousand of them. Nothing
  takes longer than the longest busy wait, 2 to the 32 microseconds.
\<close>

abbreviation (input) longest :: nat where "longest \<equiv> 10000000000"

locale timed_lines =
  fixes P :: "'w i2c_pins" and time :: "'w \<Rightarrow> nat"
  assumes read_time: "time w \<le> time (snd (rt_pin_read P p w))" "time (snd (rt_pin_read P p w)) \<le> time w + longest"
    and tick_time: "time w \<le> time (snd (tick_now P w))" "time (snd (tick_now P w)) \<le> time w + longest"
    and wait_time: "time w < time (pin_udelay P n w)" "time (pin_udelay P n w) \<le> time w + longest"
    and tick: "fst (tick_now P w) = word_of_nat (time w div 1000)"

context timed_lines begin

lemma elapsed:
  assumes "s \<le> t" and "t < s + 4294967296"
  shows "(word_of_nat t - word_of_nat s :: u32) > n \<longleftrightarrow> t - s > unat n"
proof -
  have "(word_of_nat t - word_of_nat s :: u32) = word_of_nat (t - s)" using assms(1) by (simp add: of_nat_diff)
  moreover have "unat (word_of_nat (t - s) :: u32) = t - s" using assms(2) by (simp add: unat_of_nat)
  ultimately show ?thesis by (simp add: word_less_nat_alt)
qed

lemma wait_ends:
  assumes "unat (ops_timeout B) < 2 ^ 31"
  shows "1000 * s \<le> time w \<Longrightarrow> time w \<le> 1000 * (s + unat (ops_timeout B) + 1) + 2 * longest
    \<Longrightarrow> returns (scl_wait P L B (word_of_nat s) w) (\<lambda>(ok, w). ok \<longrightarrow> (\<exists>w. fst (ch32_get_scl P L w)))"
proof (induction "1000 * (s + unat (ops_timeout B) + 1) - time w" arbitrary: w rule: less_induct)
  case less
  let ?n = "unat (ops_timeout B)"
  have short: "?n < 2147483648" using assms by simp
  define w1 where "w1 = snd (ch32_get_scl P L w)"
  define w2 where "w2 = snd (tick_now P w1)"
  define w3 where "w3 = i2c_delay P B w2"
  have t1: "time w \<le> time w1" "time w1 \<le> time w + longest" using read_time by (simp_all add: w1_def ch32_get_scl_def)
  have t2: "time w1 \<le> time w2" "time w2 \<le> time w1 + longest" using tick_time by (simp_all add: w2_def)
  have t3: "time w2 < time w3" "time w3 \<le> time w2 + longest" using wait_time by (simp_all add: w3_def i2c_delay_def)
  have "time w1 < (s + 4294967296) * 1000" using less.prems(2) t1 short unfolding distrib_left distrib_right by linarith
  then have s: "s \<le> time w1 div 1000" "time w1 div 1000 < s + 4294967296"
    using less.prems(1) t1 by (auto simp: less_mult_imp_div_less less_eq_div_iff_mult_less_eq mult.commute)
  have now: "fst (tick_now P w1) - word_of_nat s > ops_timeout B \<longleftrightarrow> time w1 div 1000 - s > ?n"
    unfolding tick by (rule elapsed [OF s])
  have body: "scl_wait P L B (word_of_nat s) w
      = (if fst (ch32_get_scl P L w) then Some (True, w1)
         else if time w1 div 1000 - s > ?n then Some (False, w2) else scl_wait P L B (word_of_nat s) w3)"
    by (subst scl_wait.simps) (simp add: split_def w1_def w2_def w3_def now [unfolded w1_def] Let_def)
  show ?case
  proof (cases "time w1 div 1000 - s > ?n")
    case True
    then show ?thesis by (auto simp: body)
  next
    case False
    then have "time w1 div 1000 < s + ?n + 1" by simp
    then have "time w1 < 1000 * (s + ?n + 1)" by (simp add: div_less_iff_less_mult mult.commute)
    with t1 t2 t3 less.prems have "1000 * (s + ?n + 1) - time w3 < 1000 * (s + ?n + 1) - time w" "1000 * s \<le> time w3"
      "time w3 \<le> 1000 * (s + ?n + 1) + 2 * longest" by linarith+
    from less.hyps [OF this] False show ?thesis by (auto simp: body)
  qed
qed

section \<open>Whatever the lines do\<close>

lemma clock_ends:
  assumes "unat (ops_timeout B) < 2 ^ 31"
  shows "returns (SCL_H P L B w) (\<lambda>(r, w). r = 0 \<and> (\<exists>w. fst (ch32_get_scl P L w)) \<or> r = - I2C_ETIMEOUT)"
proof -
  let ?w = "ch32_set_scl P L True w"
  let ?s = "time ?w div 1000"
  have "1000 * ?s \<le> time (snd (tick_now P ?w))" using tick_time(1) [of ?w] by simp
  moreover have "time ?w \<le> 1000 * (?s + 1)" by simp
  then have "time (snd (tick_now P ?w)) \<le> 1000 * (?s + unat (ops_timeout B) + 1) + 2 * longest" using tick_time(2) [of ?w] by simp
  ultimately have "returns (scl_wait P L B (word_of_nat ?s) (snd (tick_now P ?w))) (\<lambda>(ok, w). ok \<longrightarrow> (\<exists>w. fst (ch32_get_scl P L w)))" by (rule wait_ends [OF assms])
  then have "returns (scl_wait P L B (fst (tick_now P ?w)) (snd (tick_now P ?w))) (\<lambda>(ok, w). ok \<longrightarrow> (\<exists>w. fst (ch32_get_scl P L w)))" unfolding tick .
  then show ?thesis by (auto simp: SCL_H_def split_def Let_def intro!: returns_bind)
qed

end

text \<open>A bus on such lines, whose wait for the clock ends before the tick runs around.\<close>

locale timed_bus = timed_lines +
  fixes L :: soft_i2c_config and B :: i2c_bus_device
  assumes short: "unat (ops_timeout B) < 2 ^ 31"

context timed_bus begin

lemma clock: "returns (SCL_H P L B w) (\<lambda>(r, w). r = 0 \<or> r = - I2C_ETIMEOUT)"
  by (rule returns_weaken [OF clock_ends [OF short, of L]]) auto

lemma stop_ends: "returns (i2c_stop P L B w) (\<lambda>_. True)"
  unfolding i2c_stop_def by (rule returns_bind [OF clock]) (simp add: Let_def split_def)

lemma restart_ends: "returns (i2c_restart P L B w) (\<lambda>_. True)"
  unfolding i2c_restart_def by (rule returns_bind [OF clock]) (simp add: Let_def split_def)

definition answer :: "int \<times> 'w \<Rightarrow> bool" where
  "answer = (\<lambda>(r, w). r = 1 \<or> r = 0 \<or> r = - I2C_ETIMEOUT)"

lemma waitack_ends: "returns (i2c_waitack P L B w) answer"
  unfolding i2c_waitack_def by (rule returns_bind [OF clock]) (auto simp: Let_def split_def answer_def)

lemma write_bits_ends: "returns (write_bits P L B data i w) (\<lambda>_. True)"
proof (induction i arbitrary: w)
  case (Suc i)
  then show ?case unfolding write_bits.simps(2) Let_def by (intro returns_bind [OF clock]) (auto split: prod.split)
qed simp

lemma writeb_ends: "returns (i2c_writeb P L B data w) answer"
  unfolding i2c_writeb_def by (rule returns_bind [OF write_bits_ends]) (auto simp: waitack_ends, simp add: answer_def)

lemma read_bits_ends: "returns (read_bits P L B i data w) (\<lambda>_. True)"
proof (induction i arbitrary: data w)
  case (Suc i)
  then show ?case unfolding read_bits.simps(2) Let_def by (intro returns_bind [OF clock]) (auto simp: split_def)
qed simp

lemma readb_ends: "returns (i2c_readb P L B w) (\<lambda>_. True)"
  unfolding i2c_readb_def by (rule read_bits_ends)

lemma send_bytes_ends: "k + n \<le> length buf \<Longrightarrow> returns (send_bytes_loop P L B ig buf k n w) (\<lambda>_. True)"
proof (induction n arbitrary: k w)
  case (Suc n)
  then have "rd buf k = Some (buf ! k)" by (simp add: rd_def)
  with Suc show ?case by (auto simp: split_def intro!: returns_bind [OF writeb_ends])
qed simp

lemma ack_ends: "returns (i2c_send_ack_or_nack P L B a w) (\<lambda>_. True)"
  unfolding i2c_send_ack_or_nack_def Let_def by (rule returns_bind [OF clock]) (auto simp: split_def)

lemma recv_bytes_ends: "k + n \<le> length buf \<Longrightarrow> returns (recv_bytes_loop P L B no buf k n w) (\<lambda>(r, buf', w'). length buf' = length buf)"
proof (induction n arbitrary: k buf w)
  case (Suc n)
  have b: "wr buf k x = Some (buf[k := x])" for x using Suc.prems by (simp add: wr_def)
  show ?case
    unfolding recv_bytes_loop.simps(2)
  proof (rule returns_bind [OF readb_ends], clarify)
    fix v w'
    have "returns (recv_bytes_loop P L B no (buf[k := x]) (k + 1) n w) (\<lambda>(r, buf', w'). length buf' = length buf)" for x w
      using Suc.IH [of "k + 1" "buf[k := x]"] Suc.prems by simp
    then show "returns (if v < 0 then Some (int k, buf, w')
        else do {
          buf \<leftarrow> wr buf k (word_of_int v);
          (val, w) \<leftarrow> (if no then Some (0, w') else i2c_send_ack_or_nack P L B (n \<noteq> 0) w');
          if val < 0 then Some (val, buf, w) else recv_bytes_loop P L B no buf (k + 1) n w }) (\<lambda>(r, buf', w'). length buf' = length buf)"
      by (cases no) (auto simp: b split_def intro!: returns_bind [OF ack_ends])
  qed
qed simp

lemma address_loop_ends: "returns (send_address_loop P L B a n w) (\<lambda>_. True)"
proof (induction n arbitrary: w)
  case 0
  then show ?case by simp (rule returns_weaken [OF writeb_ends], simp)
next
  case (Suc n)
  then show ?case by (auto simp: split_def intro!: returns_bind [OF writeb_ends] returns_bind [OF stop_ends])
qed

lemma send_address_ends: "returns (i2c_send_address P L B a n w) (\<lambda>_. True)"
  by (simp add: i2c_send_address_def address_loop_ends)

lemma bit_address_ends: "returns (i2c_bit_send_address P L B m w) (\<lambda>(r, w). r = 0 \<or> r = - I2C_EIO)"
  by (auto simp: i2c_bit_send_address_def Let_def split_def
      intro!: returns_bind [OF send_address_ends] returns_bind [OF writeb_ends] returns_bind [OF restart_ends])

lemma message_ends:
  assumes "has_room m"
  shows "returns (xfer_message P L B first m w) (\<lambda>(failed, m', w). shape m' = shape m \<and> (\<forall>r. failed = Some r \<longrightarrow> r < 0))"
proof -
  have n: "0 + unat (i2c_len m) \<le> length (i2c_buf m)" using assms by (simp add: has_room_def)
  have start: "returns (if i2c_flag m RT_I2C_NO_START then Some (0, w)
       else do {
         w \<leftarrow> (if first then Some (i2c_start P L B w) else i2c_restart P L B w);
         i2c_bit_send_address P L B m w }) (\<lambda>(r, w). r = 0 \<or> r = - I2C_EIO)"
    by (auto intro!: returns_bind [OF restart_ends] bit_address_ends)
  show ?thesis
    unfolding xfer_message_def i2c_recv_bytes_def i2c_send_bytes_def
    by (rule returns_bind [OF start])
      (auto simp: shape_def split_def intro!: returns_bind [OF recv_bytes_ends [OF n]] returns_bind [OF send_bytes_ends [OF n]])
qed

lemma loop_ends:
  "\<forall>m\<in>set ms. has_room m \<Longrightarrow> returns (xfer_loop P L B i no_stop ms w)
    (\<lambda>(r, ms', no_stop, w). map shape ms' = map shape ms \<and> (r = int (i + length ms) \<or> r < 0))"
proof (induction ms arbitrary: i no_stop w)
  case (Cons m ms)
  from Cons.prems have m: "has_room m" by simp
  show ?case
    unfolding xfer_loop.simps(2)
  proof (rule returns_bind [OF message_ends [OF m]], clarify)
    fix failed :: "int option" and m' w'
    assume "shape m' = shape m" "\<forall>r. failed = Some r \<longrightarrow> r < 0"
    with Cons.prems show "returns (case failed of
        Some ret \<Rightarrow> Some (ret, m' # ms, i2c_flag m' RT_I2C_NO_STOP, w')
      | None \<Rightarrow> do {
          (ret, ms, no_stop, w) \<leftarrow> xfer_loop P L B (i + 1) (i2c_flag m' RT_I2C_NO_STOP) ms w';
          Some (ret, m' # ms, no_stop, w) }) (\<lambda>(r, ms', no_stop, w). map shape ms' = map shape (m # ms) \<and> (r = int (i + length (m # ms)) \<or> r < 0))"
      by (cases failed) (auto simp: split_def intro!: returns_bind [OF Cons.IH])
  qed
qed simp

lemma transfer_ends:
  "\<forall>m\<in>set ms. has_room m \<Longrightarrow> returns (rt_i2c_transfer P L B ms w)
    (\<lambda>(r, ms', w). map shape ms' = map shape ms \<and> (r = int (length ms) \<or> r < 0))"
  by (auto simp: rt_i2c_transfer_def i2c_bit_xfer_def split_def intro!: returns_bind [OF loop_ends] returns_bind [OF stop_ends])

text \<open>A clock line that never comes up.\<close>

lemma held_clock: "\<forall>w. \<not> fst (rt_pin_read P (uint (scl_pin L)) w) \<Longrightarrow> returns (SCL_H P L B w) (\<lambda>(r, w). r = - I2C_ETIMEOUT)"
  by (rule returns_weaken [OF clock_ends [OF short, of L]]) (auto simp: ch32_get_scl_def)

lemma held_byte:
  assumes "\<forall>w. \<not> fst (rt_pin_read P (uint (scl_pin L)) w)"
  shows "returns (i2c_writeb P L B data w) (\<lambda>(r, w). r = - I2C_ETIMEOUT)"
proof -
  have "returns (write_bits P L B data (Suc 7) w) (\<lambda>(ok, w). \<not> ok)"
    unfolding write_bits.simps(2) Let_def by (rule returns_bind [OF held_clock [OF assms]]) auto
  then have "returns (write_bits P L B data 8 w) (\<lambda>(ok, w). \<not> ok)" by simp
  then show ?thesis unfolding i2c_writeb_def by (rule returns_bind) auto
qed

lemma held_address:
  assumes "\<forall>w. \<not> fst (rt_pin_read P (uint (scl_pin L)) w)"
  shows "returns (send_address_loop P L B a n w) (\<lambda>(r, w). r = - I2C_ETIMEOUT)"
proof (induction n arbitrary: w)
  case 0
  then show ?case using held_byte [OF assms] by simp
next
  case (Suc n)
  then show ?case by (auto intro!: returns_bind [OF held_byte [OF assms]] returns_bind [OF stop_ends])
qed

lemma held_transfer:
  assumes low: "\<forall>w. \<not> fst (rt_pin_read P (uint (scl_pin L)) w)" and m: "plain_msg m"
  shows "returns (rt_i2c_transfer P L B (m # ms) w) (\<lambda>(r, ms', w). r = - I2C_EIO)"
proof -
  have f: "\<not> i2c_flag m RT_I2C_NO_START" "\<not> i2c_flag m RT_I2C_IGNORE_NACK" "\<not> i2c_flag m RT_I2C_ADDR_10BIT"
    using m by (auto simp: plain_msg_def i2c_flag_def)
  have "returns (i2c_send_address P L B a n w) (\<lambda>(r, w). r \<noteq> 1)" for a n w
    unfolding i2c_send_address_def by (auto intro: returns_weaken [OF held_address [OF low]])
  then have a: "returns (i2c_bit_send_address P L B m w) (\<lambda>(r, w). r = - I2C_EIO)" for w
    using f by (auto simp: i2c_bit_send_address_def Let_def intro!: returns_bind)
  have "returns (xfer_message P L B True m w) (\<lambda>(failed, m, w). failed = Some (- I2C_EIO))"
    unfolding xfer_message_def using f by (auto intro!: returns_bind [OF a])
  then have "returns (xfer_loop P L B 0 False (m # ms) w) (\<lambda>(r, ms', no_stop, w). r = - I2C_EIO)"
    unfolding xfer_loop.simps(2) by (auto intro!: returns_bind)
  then show ?thesis
    by (auto simp: rt_i2c_transfer_def i2c_bit_xfer_def simp del: xfer_loop.simps intro!: returns_bind [OF stop_ends] elim!: returns_bind)
qed

end

section \<open>Transfers end\<close>

text \<open>The board's pins with a clock that runs, and a device that may hold the clock line for good.\<close>

definition clocked_lines :: "bool \<Rightarrow> 'd i2c_slave \<Rightarrow> ('d i2c_wire \<times> nat) i2c_pins" where
  "clocked_lines held D = \<lparr>
     rt_pin_write = (\<lambda>p v (s, t). (if p = 24 then scl_line D v s else if p = 25 then sda_line v s else s, t)),
     rt_pin_read = (\<lambda>p (s, t). (if p = 24 then scl_high s \<and> \<not> held else sda_level s, (s, t))),
     rt_pin_mode = (\<lambda>p m w. w), pin_udelay = (\<lambda>n (s, t). (s, t + unat n + 1)), tick_now = (\<lambda>(s, t). (word_of_nat (t div 1000), (s, t)))\<rparr>"

lemma clocked: "timed_lines (clocked_lines held D) snd"
proof
  fix n :: u32 and w :: "'a i2c_wire \<times> nat"
  have "unat n < 4294967296" using unsigned_less [of n] by simp
  then show "snd (pin_udelay (clocked_lines held D) n w) \<le> snd w + longest" by (simp add: clocked_lines_def split_def)
qed (simp_all add: clocked_lines_def split_def)

interpretation running: timed_bus "clocked_lines held D" snd i2c1_lines i2c1_bus for held D
  unfolding timed_bus_def timed_bus_axioms_def using clocked by (simp add: i2c1_bus_def)

text \<open>
  C27: an I2C transfer ends. Whatever the lines do and whatever is on the bus, as long as time goes on,
  \<open>rt_i2c_transfer\<close> returns for every list of messages with room for their bytes, with any flags and
  addresses and any number of retries: with the number of messages or with an error, and with messages of the same shape,
  nothing stored outside their buffers. When the clock line is held down for good, the result is the
  error.
\<close>

theorem i2c_transfer_ends:
  assumes "timed_lines P time" and "unat (ops_timeout B) < 2 ^ 31" and "\<forall>m\<in>set ms. has_room m"
  shows "\<exists>r ms' w'. rt_i2c_transfer P L B ms w = Some (r, ms', w') \<and> map shape ms' = map shape ms
    \<and> (r = int (length ms) \<or> r < 0)
    \<and> ((\<forall>w. \<not> fst (rt_pin_read P (uint (scl_pin L)) w)) \<and> ms \<noteq> [] \<and> plain_msg (hd ms) \<longrightarrow> r = - I2C_EIO)"
proof -
  have b: "timed_bus P time B" using assms(1,2) by (simp add: timed_bus_def timed_bus_axioms_def)
  from timed_bus.transfer_ends [OF b assms(3), of L w] obtain r ms' w' where
    r: "rt_i2c_transfer P L B ms w = Some (r, ms', w')" "map shape ms' = map shape ms" "r = int (length ms) \<or> r < 0"
    by (auto simp: returns_def)
  have "(\<forall>w. \<not> fst (rt_pin_read P (uint (scl_pin L)) w)) \<and> ms \<noteq> [] \<and> plain_msg (hd ms) \<Longrightarrow> r = - I2C_EIO"
    using timed_bus.held_transfer [OF b, of L "hd ms" "tl ms" w] r(1) by (auto simp: returns_def)
  with r show ?thesis by blast
qed

theorem i2c_transfer_ends_witness:
  "\<forall>s t. \<exists>ms w. rt_i2c_transfer (clocked_lines True expander) i2c1_lines i2c1_bus [lcd_write_msg 0xF7] (s, t) = Some (- I2C_EIO, ms, w)"
proof (intro allI, goal_cases)
  case (1 s t)
  have m: "plain_msg (lcd_write_msg 0xF7)" by (simp add: plain_msg_def lcd_write_msg_def)
  then have "\<forall>m\<in>set [lcd_write_msg 0xF7]. has_room m" by (simp add: plain_msg_def has_room_def)
  with i2c_transfer_ends [OF clocked, of i2c1_bus "[lcd_write_msg 0xF7]" True expander i2c1_lines "(s, t)"] m show ?case
    by (auto simp: i2c1_bus_def clocked_lines_def i2c1_lines_def split_def)
qed

end
