(* ===== verification/Delays.thy ===== *)
theory Delays
  imports Prelude
begin

text \<open>
  The busy waits of the board, which read the counter of the system timer: \<open>ch32_udelay\<close> of the software
  buses (\<open>drv_soft_i2c.c\<close> and \<open>drv_soft_spi.c\<close> have the same one) and \<open>rt_hw_us_delay\<close>
  (\<open>drv_common.c\<close>), which the display and the reader chip's driver use. The readings are a sequence;
  the result is the number of readings taken, \<open>None\<close> a wait that never ends.
\<close>

section \<open>The two waits\<close>

type_synonym u64 = "64 word"

abbreviation (input) RT_TICK_PER_SECOND :: u32 where "RT_TICK_PER_SECOND \<equiv> 1000"

partial_function (option) udelay_loop :: "(nat \<Rightarrow> u64) \<Rightarrow> u32 \<Rightarrow> u32 \<Rightarrow> u32 \<Rightarrow> u32 \<Rightarrow> nat \<Rightarrow> nat option" where
  "udelay_loop cnt reload ticks told tcnt n =
     (let tnow = ucast (cnt n) in
      if tnow \<noteq> told
      then (let tcnt = (if tnow > told then tcnt + (tnow - told) else tcnt + (reload - told + tnow)) in
            if tcnt \<ge> ticks then Some (n + 1) else udelay_loop cnt reload ticks tnow tcnt (n + 1))
      else udelay_loop cnt reload ticks told tcnt (n + 1))"

definition ch32_udelay :: "(nat \<Rightarrow> u64) \<Rightarrow> u64 \<Rightarrow> u32 \<Rightarrow> nat option" where
  "ch32_udelay cnt cmp us =
     (let reload = ucast cmp;
          ticks = us * reload div (1000000 div RT_TICK_PER_SECOND);
          told = ucast (cnt 0)
      in udelay_loop cnt reload ticks told 0 1)"

partial_function (option) us_delay_loop :: "(nat \<Rightarrow> u64) \<Rightarrow> u64 \<Rightarrow> u64 \<Rightarrow> u64 \<Rightarrow> nat \<Rightarrow> nat option" where
  "us_delay_loop cnt reload total_delay_ticks start n =
     (let now = cnt n;
          delta = (if start > now then start - now else reload + start - now)
      in if delta < total_delay_ticks then us_delay_loop cnt reload total_delay_ticks start (n + 1) else Some (n + 1))"

definition rt_hw_us_delay :: "(nat \<Rightarrow> u64) \<Rightarrow> u64 \<Rightarrow> u32 \<Rightarrow> u32 \<Rightarrow> nat option" where
  "rt_hw_us_delay cnt cmp SystemCoreClock us =
     (let start = cnt 0;
          us_ticks = ucast (SystemCoreClock div 8000000);
          total_delay_ticks = ucast us * us_ticks
      in us_delay_loop cnt cmp total_delay_ticks start 1)"

section \<open>A counter that counts up\<close>

text \<open>
  The timer is set up to count (\<open>CTLR = 0xF\<close>: up, from 0 to \<open>CMP\<close> and again from 0). \<open>c n\<close> is the number
  of its steps until the reading \<open>n\<close>; between two readings there is a step at least and no whole round.
\<close>

definition counts_up :: "(nat \<Rightarrow> nat) \<Rightarrow> nat \<Rightarrow> (nat \<Rightarrow> u64) \<Rightarrow> bool" where
  "counts_up c r cnt \<longleftrightarrow> (\<forall>n. cnt n = word_of_nat (c n mod (r + 1)) \<and> c n < c (n + 1) \<and> c (n + 1) \<le> c n + r)"

text \<open>One reading, in numbers: what it adds is what has passed, less one when the counter went round.\<close>

lemma round_step:
  assumes "c < c'" and "c' \<le> c + (r :: nat)"
  shows "if c' mod (r + 1) > c mod (r + 1) then c' mod (r + 1) - c mod (r + 1) = c' - c
    else c' mod (r + 1) < c mod (r + 1) \<and> r - c mod (r + 1) + c' mod (r + 1) = c' - c - 1"
proof -
  define q where "q = c div (r + 1)"
  define m where "m = c mod (r + 1)"
  have c: "c = q * (r + 1) + m" "m \<le> r"
    unfolding q_def m_def by (simp only: div_mult_mod_eq, simp add: less_Suc_eq_le [symmetric])
  define d where "d = c' - c"
  have d: "c' = c + d" "0 < d" "d \<le> r" using assms by (auto simp: d_def)
  show ?thesis
  proof (cases "m + d \<le> r")
    case True
    have "c' mod (r + 1) = (q * (r + 1) + (m + d)) mod (r + 1)" by (simp only: d(1) c(1) add.assoc)
    also have "\<dots> = (m + d) mod (r + 1)" by (rule mod_mult_self3)
    also have "\<dots> = m + d" using True by simp
    finally have "c' mod (r + 1) = m + d" .
    with d show ?thesis unfolding m_def [symmetric] by simp
  next
    case False
    then obtain e where e: "m + d = (r + 1) + e" using le_Suc_ex [of "r + 1" "m + d"] by auto
    have "e < m" "e < r + 1" using e c d by auto
    have "q * (r + 1) + (m + d) = (q + 1) * (r + 1) + e" using e by simp
    then have "c' mod (r + 1) = ((q + 1) * (r + 1) + e) mod (r + 1)" by (simp only: d(1) c(1) add.assoc)
    also have "\<dots> = e mod (r + 1)" by (rule mod_mult_self3)
    also have "\<dots> = e" using \<open>e < r + 1\<close> by simp
    finally have "c' mod (r + 1) = e" .
    with \<open>e < m\<close> e c(2) d show ?thesis unfolding m_def [symmetric] by simp
  qed
qed

lemma unat_small: "n < 2 ^ 32 \<Longrightarrow> unat (word_of_nat n :: u32) = n"
  by (simp add: unat_of_nat)

lemma mod_round: "c mod (r + 1) \<le> (r :: nat)"
  by (simp add: less_Suc_eq_le [symmetric])

lemma reading: "counts_up c r cnt \<Longrightarrow> r < 2 ^ 31 \<Longrightarrow> ucast (cnt n) = (word_of_nat (c n mod (r + 1)) :: u32)"
proof -
  assume "counts_up c r cnt" "r < 2 ^ 31"
  moreover from this have "c n mod (r + 1) < 2 ^ 64" by (intro le_less_trans [OF mod_round]) simp
  ultimately show ?thesis by (simp add: counts_up_def unsigned_of_nat take_bit_nat_eq_self)
qed

lemma udelay_loop_ends:
  assumes up: "counts_up c r cnt" and r: "r < 2 ^ 31" "unat reload = r" "0 < r" and t: "unat ticks < 2 ^ 31"
  shows "unat tcnt \<le> c n - c 0 \<Longrightarrow> unat tcnt \<le> unat ticks \<Longrightarrow>
    \<exists>m. udelay_loop cnt reload ticks (word_of_nat (c n mod (r + 1))) tcnt (n + 1) = Some (m + 1) \<and> n < m \<and> unat ticks \<le> c m - c 0"
proof (induction "2 * (unat ticks - unat tcnt) + of_bool (c n mod (r + 1) = r)" arbitrary: n tcnt rule: less_induct)
  case less
  have c: "c n < c (n + 1)" "c (n + 1) \<le> c n + r" using up by (auto simp: counts_up_def)
  have mono: "c 0 \<le> c k" for k using up by (induction k) (auto simp: counts_up_def intro: order_trans less_imp_le)
  define told where "told = c n mod (r + 1)"
  define tnow where "tnow = c (n + 1) mod (r + 1)"
  have le: "told \<le> r" "tnow \<le> r" unfolding told_def tnow_def by (rule mod_round)+
  with r(1) have small: "told < 2 ^ 32" "tnow < 2 ^ 32" "told \<le> r" "tnow \<le> r" by auto
  note step = round_step [OF c, folded told_def tnow_def]
  define got where "got = (if tnow > told then tnow - told else r - told + tnow)"
  have got: "got \<le> c (n + 1) - c n" "got \<le> r" "got = 0 \<Longrightarrow> told = r \<and> tnow = 0"
    using step c small by (auto simp: got_def split: if_splits)
  define tcnt' where "tcnt' = tcnt + word_of_nat got"
  have u: "unat tcnt' = unat tcnt + got"
    unfolding tcnt'_def using less.prems(2) t got(2) r(1) by (simp add: unat_word_ariths unat_of_nat)
  have body: "udelay_loop cnt reload ticks (word_of_nat told) tcnt (n + 1)
      = (if tcnt' \<ge> ticks then Some (n + 1 + 1) else udelay_loop cnt reload ticks (word_of_nat tnow) tcnt' (n + 1 + 1))"
  proof -
    have w: "word_of_nat tnow \<noteq> (word_of_nat told :: u32) \<longleftrightarrow> tnow \<noteq> told" "word_of_nat tnow > (word_of_nat told :: u32) \<longleftrightarrow> tnow > told"
      using small by (simp_all add: word_unat_eq_iff word_less_nat_alt unat_small)
    have "tnow \<noteq> told" using step c by (auto split: if_splits)
    moreover have "(if tnow > told then tcnt + (word_of_nat tnow - word_of_nat told) else tcnt + (reload - word_of_nat told + word_of_nat tnow))
        = tcnt'"
      using small(3) r(2) by (auto simp: got_def tcnt'_def of_nat_diff)
    moreover have "ucast (cnt (n + 1)) = (word_of_nat tnow :: u32)" unfolding tnow_def by (rule reading [OF up r(1)])
    ultimately show ?thesis by (subst udelay_loop.simps) (simp only: w Let_def simp_thms if_True)
  qed
  show ?case
  proof (cases "tcnt' \<ge> ticks")
    case True
    then have "unat ticks \<le> c (n + 1) - c 0"
      using u got(1) less.prems(1) c mono [of n] by (simp add: word_le_nat_alt)
    with True body show ?thesis by (auto simp: told_def)
  next
    case False
    then have f: "unat tcnt + got < unat ticks" using u by (simp add: word_le_nat_alt)
    have "2 * (unat ticks - unat tcnt') + of_bool (c (n + 1) mod (r + 1) = r) < 2 * (unat ticks - unat tcnt) + of_bool (c n mod (r + 1) = r)"
      using f got(3) r(3) unfolding u told_def [symmetric] tnow_def [symmetric] by (cases "got = 0") auto
    moreover have "unat tcnt' \<le> c (n + 1) - c 0" using u got(1) less.prems(1) c mono [of n] by simp
    moreover have "unat tcnt' \<le> unat ticks" using f u by simp
    ultimately obtain m where "udelay_loop cnt reload ticks (word_of_nat tnow) tcnt' (n + 1 + 1) = Some (m + 1)" "n + 1 < m" "unat ticks \<le> c m - c 0"
      using less.hyps [of tcnt' "n + 1"] unfolding tnow_def by blast
    with False body show ?thesis by (auto simp: told_def)
  qed
qed

text \<open>
  C39: the buses' busy wait ends, and not too early. With the timer counting up from 0 to \<open>CMP\<close> and read
  at least once in a round, \<open>ch32_udelay\<close> returns after finitely many readings, and when it does the
  timer has made at least \<open>us * CMP / 1000\<close> steps, the steps of \<open>us\<close> microseconds, as long as this
  product fits 32 bits.
\<close>

theorem udelay_waits:
  assumes "counts_up c r cnt" and "0 < r" and "r < 2 ^ 31" and "unat us * r < 2 ^ 32" and "cmp = word_of_nat r"
  shows "\<exists>m>0. ch32_udelay cnt cmp us = Some (m + 1) \<and> unat us * r div 1000 \<le> c m - c 0"
proof -
  have r: "unat (ucast cmp :: u32) = r" using assms(3,5) by (simp add: unsigned_of_nat take_bit_nat_eq_self unsigned_ucast_eq)
  have t: "unat (us * ucast cmp div (1000000 div RT_TICK_PER_SECOND)) = unat us * r div 1000"
    using assms(4) r by (simp add: unat_div unat_word_ariths)
  have s: "unat (us * ucast cmp div (1000000 div RT_TICK_PER_SECOND)) < 2 ^ 31" unfolding t using assms(4) by simp
  have "ucast (cnt 0) = (word_of_nat (c 0 mod (r + 1)) :: u32)" by (rule reading [OF assms(1,3)])
  with udelay_loop_ends [OF assms(1,3) r assms(2) s, of 0 0] show ?thesis
    unfolding ch32_udelay_def t by (auto simp: Let_def)
qed

text \<open>The board's round of 144000 steps, looked at every 50 steps, and the 100 microseconds of the unlocking.\<close>

theorem udelay_waits_witness:
  "\<exists>m. ch32_udelay (\<lambda>n. word_of_nat (50 * n mod 144000)) 143999 100 = Some (m + 1) \<and> 14399 \<le> 50 * m"
proof -
  have "counts_up (\<lambda>n. 50 * n) 143999 (\<lambda>n. word_of_nat (50 * n mod 144000))" by (simp add: counts_up_def)
  from udelay_waits [OF this, of 100 143999] show ?thesis by auto
qed

section \<open>The wait that looks the other way\<close>

lemma delta_in_round:
  assumes "start \<le> reload" and "now \<le> (reload :: u64)"
  shows "(if start > now then start - now else reload + start - now) \<le> reload"
proof (cases "start > now")
  case True
  then have "unat (start - now) = unat start - unat now" by (simp add: unat_sub)
  with True assms(1) show ?thesis by (simp add: word_le_nat_alt)
next
  case False
  then have "unat (now - start) = unat now - unat start" by (simp add: unat_sub)
  with assms(2) have "now - start \<le> reload" by (simp add: word_le_nat_alt)
  then have "reload - (now - start) \<le> reload" by (simp add: unat_sub word_le_nat_alt)
  then have "reload + start - now \<le> reload" by (simp add: diff_diff_eq2)
  with False show ?thesis by simp
qed

lemma us_delay_hangs:
  assumes "\<forall>n. cnt n \<le> reload" and "reload < total_ticks" and "start \<le> reload"
  shows "us_delay_loop cnt reload total_ticks start n = None"
proof -
  define Q where "Q = (\<lambda>(cnt :: nat \<Rightarrow> u64) (reload :: u64) (total_ticks :: u64) (start :: u64) (n :: nat) (y :: nat).
    \<not> ((\<forall>n. cnt n \<le> reload) \<and> reload < total_ticks \<and> start \<le> reload))"
  have "Q cnt reload total_ticks start n y" if "us_delay_loop cnt reload total_ticks start n = Some y" for y
    using that
  proof (rule us_delay_loop.raw_induct [where P = Q, rotated])
    fix loop cnt reload total_ticks start n y
    assume IH: "\<And>cnt reload total_ticks start n y. loop cnt reload total_ticks start n = Some y \<Longrightarrow> Q cnt reload total_ticks start n y"
      and body: "(let now = cnt n; delta = if now < start then start - now else reload + start - now
        in if delta < total_ticks then loop cnt reload total_ticks start (n + 1) else Some (n + 1)) = Some y"
    have "(if cnt n < start then start - cnt n else reload + start - cnt n) < total_ticks"
      if "(\<forall>n. cnt n \<le> reload) \<and> reload < total_ticks \<and> start \<le> reload"
      using that by (meson delta_in_round le_less_trans)
    with IH [of cnt reload total_ticks start "n + 1" y] body show "Q cnt reload total_ticks start n y"
      unfolding Q_def Let_def by fastforce
  qed
  with assms show ?thesis unfolding Q_def by (cases "us_delay_loop cnt reload total_ticks start n") auto
qed

text \<open>
  C40: \<open>rt_hw_us_delay\<close> takes the timer for one that counts down. With the timer counting up as it does,
  the first look at it ends the wait whatever time was asked for, as long as the counter has not gone
  round in between and the wait is shorter than what is left of a round; and a wait longer than a round
  (8000 microseconds on the board) never ends, in whichever direction the timer counts.
\<close>

theorem us_delay_looks_the_other_way:
  assumes "asked = ucast us * ucast (SystemCoreClock div 8000000)"
  shows "(cnt 0 \<le> cnt 1 \<and> cnt 1 - cnt 0 \<le> cmp \<and> asked \<le> cmp - (cnt 1 - cnt 0) \<longrightarrow> rt_hw_us_delay cnt cmp SystemCoreClock us = Some 2)
    \<and> ((\<forall>n. cnt n \<le> cmp) \<and> asked > cmp \<longrightarrow> rt_hw_us_delay cnt cmp SystemCoreClock us = None)"
proof (intro conjI impI)
  assume a: "cnt 0 \<le> cnt 1 \<and> cnt 1 - cnt 0 \<le> cmp \<and> asked \<le> cmp - (cnt 1 - cnt 0)"
  then have "asked \<le> cmp + cnt 0 - cnt 1" by (simp add: diff_diff_eq2)
  with a have "\<not> (if cnt 0 > cnt 1 then cnt 0 - cnt 1 else cmp + cnt 0 - cnt 1) < asked" by auto
  then show "rt_hw_us_delay cnt cmp SystemCoreClock us = Some 2"
    unfolding rt_hw_us_delay_def Let_def assms by (subst us_delay_loop.simps) (simp only: Let_def if_False one_add_one)
next
  assume "(\<forall>n. cnt n \<le> cmp) \<and> asked > cmp"
  then show "rt_hw_us_delay cnt cmp SystemCoreClock us = None"
    unfolding rt_hw_us_delay_def Let_def assms by (intro us_delay_hangs) auto
qed

text \<open>The 100 microseconds of the display's enable pulse last two readings, 50 steps of the timer; 8000 microseconds never end.\<close>

theorem us_delay_looks_the_other_way_witness:
  "rt_hw_us_delay (\<lambda>n. word_of_nat (50 * n mod 144000)) 143999 144000000 100 = Some 2
    \<and> rt_hw_us_delay (\<lambda>n. word_of_nat (50 * n mod 144000)) 143999 144000000 8000 = None"
proof -
  have "word_of_nat (50 * n mod 144000) \<le> (143999 :: u64)" for n
  proof -
    have "50 * n mod 144000 \<le> 143999" using mod_less_divisor [of 144000 "50 * n"] by linarith
    then show ?thesis by (simp add: word_le_nat_alt unat_of_nat)
  qed
  with us_delay_looks_the_other_way [OF refl, of "\<lambda>n. word_of_nat (50 * n mod 144000)" 143999 100 144000000]
    us_delay_looks_the_other_way [OF refl, of "\<lambda>n. word_of_nat (50 * n mod 144000)" 143999 8000 144000000]
  show ?thesis by simp
qed

end
