(* ===== verification/Spec2Isabelle.thy ===== *)
theory Spec2Isabelle
  imports Mqtt_Connect Mqtt_Behaviour Card_Reader Mqtt_Over_At At_Table Esp8266_Errors Mifare_Blocks Rc522_Errors I2c_Time Delays
begin

text \<open>
  Verification development for rt-pay, the firmware of a payment terminal (RT-Thread on a CH32V307,
  a 32 bit RISC-V microcontroller). The terminal shows a price on a 16x2 display, reads RFID cards,
  talks JSON over MQTT to its server, and pays credit out to a vending machine as pulses on a pin.

  \<^bold>\<open>The program and how its parts interact.\<close> \<open>main.c\<close> makes the event queue, the display and the
  threads, then connects the MQTT link. The MQTT client (package \<open>umqtt-latest\<close>) has a receive thread
  and a timer; it calls the callbacks of \<open>mqtt_link.c\<close> for the messages of three topics. A callback
  tokenizes the payload (\<open>jsmn.c\<close>) in the client's receive buffer and pushes an event
  (\<open>event_handler.c\<close>) on a kernel message queue (\<open>ipc.c\<close>). The application thread (\<open>app.c\<close>) reads the
  events one by one, changes its settings, writes the pulse pin and the display (\<open>lcd.c\<close>), which hangs on an I2C
  bus made of two pins (\<open>i2c-bit-ops.c\<close>, \<open>i2c_core.c\<close>, \<open>drv_soft_i2c.c\<close>). The card
  reader thread (\<open>card_reader.c\<close>) asks the reader chip for a card (package \<open>rc522-latest\<close>), over an SPI
  bus made of four pins (\<open>spi-bit-ops.c\<close>, \<open>drv_soft_spi.c\<close>), and pushes an event and publishes a message
  for each card. The sockets of the MQTT client are those of the AT layer (\<open>at_socket.c\<close>): an ESP8266 module on a serial line, whose
  driver (\<open>at_socket_esp8266.c\<close>) turns sends into AT commands through the AT client (\<open>at_client.c\<close>), and
  whose reports the AT client's parser thread hands to the driver's URC functions, which put arriving
  data into the receive lists of the sockets.

  \<^bold>\<open>Theories\<close>, in the order of their imports:

  \<^item> \<open>Prelude\<close>: machine words, bounds-checked memory, C strings, the locales \<open>step_invariant\<close> (an
    invariant of labelled steps), \<open>simulation\<close> and \<open>exact_simulation\<close> (steps that follow a specification, and
    do not come back where it does not) and \<open>bounded_fifo\<close> (what the users of a queue rely on).
  \<^item> \<open>Mqtt_Types\<close> (\<open>umqtt.h\<close>, \<open>umqtt_internal.h\<close>, \<open>umqtt_cfg.h\<close>): packets, settings, error codes. The
    union of packet structures is a record whose members share only their first half word
    (\<open>u_head\<close>). \<open>Mqtt_Wire\<close> (\<open>umqtt_internal.c\<close>): bytes, integers, strings, the length field.
    \<open>Mqtt_Encode\<close>, \<open>Mqtt_Decode\<close> (\<open>umqtt_pkgs_encode.c\<close>, \<open>umqtt_pkgs_decode.c\<close>): every serialiser and
    parser over a byte array, with the packets they must give as a specification, and
    exactly which messages and packets make them leave their buffers.
  \<^item> \<open>Mqtt_Topic\<close> (\<open>topicname_is_matched\<close>): the matcher against level-wise matching of the standard.
  \<^item> \<open>Mqtt_Transport\<close> (\<open>umqtt_transport.c\<close>): addresses, connecting, the send loop. Sockets, clock, heap,
    kernel objects and callbacks are the record \<open>platform\<close>, a parameter of the model.
  \<^item> \<open>Mqtt_Client\<close> (\<open>umqtt.c\<close> below its interface): \<open>struct umqtt_client\<close> as a record, packet ids, QoS 2
    lists, delivery, the reader, connecting, the timer. \<open>Mqtt_Api\<close>: the public operations; a wait for an
    acknowledgement interleaves reader turns and timer ticks.
  \<^item> \<open>Mqtt_Invariant\<close>, \<open>Mqtt_Session\<close>, \<open>Mqtt_Connect\<close>, \<open>Mqtt_Publish\<close>, \<open>Mqtt_Behaviour\<close>: the client's
    invariant through every operation; delivery of a stream of messages; connecting and reconnecting;
    publishing; QoS 2, subscriptions and keep-alive, and how often a QoS 1 message is sent while it waits
    for its PUBACK (\<open>republish_copies\<close>).
  \<^item> \<open>Jsmn\<close> (\<open>jsmn.c\<close>, \<open>jsmn.h\<close>): the tokenizer. \<open>Jsmn_Safety\<close>: on any text. \<open>Jsmn_Roundtrip\<close>: flat objects.
  \<^item> \<open>Msg_Queue\<close> (\<open>ipc.c\<close>): the kernel message queue on its pool of linked nodes, cut into the sections
    between which interrupts are enabled. \<open>Msg_Queue_Fifo\<close>: the invariant, the refinement of a bounded
    FIFO queue by any interleaving of the sections, and the interpretation \<open>kq\<close> of \<open>bounded_fifo\<close>.
  \<^item> \<open>Event_Queue\<close> (\<open>event.h\<close>, \<open>event_handler.c\<close>): events as the bytes of \<open>event_t\<close>; its lemmas rest on \<open>kq\<close>.
  \<^item> \<open>Lcd\<close> (\<open>lcd.c\<close>): the display driver as a trace of pin writes and delays. \<open>Lcd_Panel\<close>: the HD44780
    controller that reads the trace, and what it shows.
  \<^item> \<open>App\<close> (\<open>app.c\<close>): settings, messages, handlers, pulses, the loop. \<open>App_Behaviour\<close>: the terminal as the
    customer sees it (\<open>terminal_step\<close>): the panel, the settings, and the history of pin levels and of screens
    held for a while, refined by the thread.
  \<^item> \<open>Mqtt_Link\<close> (\<open>mqtt_link.c\<close>): the callbacks (their loop, which the source has three times, once),
    connecting, sending. \<open>Mqtt_Link_Behaviour\<close>: the callbacks on any message, and from a message of the
    server to the display. \<open>Card_Reader\<close> (\<open>card_reader.c\<close>, \<open>main.c\<close>): from a card in the field to the
    broker.
  \<^item> \<open>Spi_Bits\<close> (\<open>spi-bit-ops.c\<close>, \<open>rt_spi_transfer_message\<close>, \<open>drv_soft_spi.c\<close>): bits, items and messages on
    pins, which are the record \<open>pins\<close>. \<open>Spi_Wire\<close>: a device that shifts bits on the wires (locale
    \<open>spi_wires\<close>), and that the bus exchanges bytes with it.
  \<^item> \<open>I2c_Bits\<close> (\<open>i2c-bit-ops.c\<close>, \<open>i2c_core.c\<close>, \<open>i2c_dev.c\<close>, \<open>drv_soft_i2c.c\<close>): starts, stops, bits, bytes,
    addresses, messages and transfers on two lines, whose pins and tick are the record \<open>i2c_pins\<close>; the wait
    for the clock line is a \<open>partial_function\<close>. \<open>I2c_Wire\<close>: a device on the wires as the I2C standard has it
    (locale \<open>i2c_wires\<close>), and that the bus serves whole messages. \<open>I2c_Display\<close>: the display driver's effects
    as transfers to the panel (\<open>lcd_pin_write\<close>), the shell command \<open>i2c_scan.c\<close>, the start with a device that holds
    the data line. \<open>I2c_Time\<close> (locales \<open>timed_lines\<close>, \<open>timed_bus\<close>): every transfer ends, whatever the lines do.
  \<^item> \<open>Delays\<close> (\<open>ch32_udelay\<close> of \<open>drv_soft_i2c.c\<close> and \<open>drv_soft_spi.c\<close>, \<open>rt_hw_us_delay\<close> of \<open>drv_common.c\<close>): the busy
    waits over the readings of the system timer.
  \<^item> \<open>Mfrc522\<close>, \<open>Picc\<close>, \<open>Mifare\<close> (\<open>mfrc522.c\<close>): the driver of the reader chip, the selection of a card, and
    the commands to a selected one. The chip and a card by their data sheets are \<open>Rc522_Chip\<close> (locale
    \<open>wired\<close>: a reader with the chip at a place in its world); \<open>Rc522_Registers\<close>, \<open>Rc522_Frames\<close>,
    \<open>Rc522_Select\<close>: registers, frames and the selection over it. \<open>Picc_Safety\<close> (locale \<open>any_bus\<close>): the driver over
    any bus that comes back, the board's among them, with any chip. \<open>Mifare_Blocks\<close>: access bits, value
    blocks, names. \<open>Reader_Simulation\<close> (locale \<open>same_bus\<close>): the driver does the same on two busses that answer
    alike; \<open>Reader_On_Board\<close> (locale \<open>chip_on_board\<close>): so what is proved of a chip that exchanges bytes holds of the
    chip on the wires of the software SPI bus. \<open>Rc522_Errors\<close>: where the driver goes wrong.

  \<^item> \<open>At_Text\<close>: decimal numbers and dotted addresses as they are printed and scanned. \<open>At_Socket\<close>,
    \<open>At_Names\<close> (\<open>at_socket.c\<close>): the device's sockets, the list that numbers them, receive lists, notices
    from the device, blocking receive, names and options. The operations of the device class, the heap
    and what arrives during a wait are the record \<open>at_ops\<close>. \<open>At_Stream\<close>: the socket as a byte stream
    (\<open>exact_simulation\<close> \<open>at_stream\<close>), waits and what arrives during them included, and the notice that is left over. \<open>At_Table\<close>: the table of sockets
    (\<open>step_invariant\<close> \<open>at_table\<close>) and how entries get lost.
  \<^item> \<open>At_Client\<close> (\<open>at_client.c\<close>, \<open>at_utils.c\<close>): response objects, lines, URC tables, the parser thread,
    commands. The serial line is what it has yet to deliver and what was written. \<open>At_Lines\<close>: where a
    line ends, and what a command finds of its answer.
  \<^item> \<open>Esp8266\<close> (\<open>at_socket_esp8266.c\<close>, the URC functions of \<open>at_device_esp8266.c\<close>): events, URC functions,
    the socket operations. \<open>Esp8266_Frames\<close>: what a send puts on the line. \<open>Esp8266_Receive\<close>: data frames
    reach the receive lists. \<open>Esp8266_Errors\<close>: failures that are reported as success.
  \<^item> \<open>Mqtt_Over_At\<close>: the MQTT client on \<open>at_recv\<close>, from the serial line to the callbacks, and the
    reconnection a left-over notice causes.

  \<^bold>\<open>Conventions.\<close> A definition has the name of the function it models; a loop has its function's name or
  role and \<open>_loop\<close>. An access outside an object, a null dereference and a failed assertion are \<open>None\<close>;
  so is a run that does not come back (\<open>partial_function (option)\<close>), where a definition says so. Error
  codes are ordinary values. State is passed explicitly, and records are the structures of the source.

  \<^bold>\<open>Bounds and fuel.\<close> Loops are structural or have a measure; the receive and send loops and the PUBREL
  loop, which may not end, are \<open>partial_function\<close>s, and the properties about them say that they end (or
  that they do not). The polls of the reader chip have the bounds of the source, 2000 and 5000 turns, and
  the properties say that the chip needs fewer; the anticollision loop ends since each turn knows more
  bits than the last. The reset of a message queue is bounded by the size of its pool, which no chain
  of messages exceeds. A wait is given the list of its wake-ups; a list that is used up is a wait that
  does not end. A wait of the AT client runs the parser thread, with one turn more than there are bytes on
  the line as fuel: every turn takes at least one byte, and an empty line stops it.

  \<^bold>\<open>What the lemmas show.\<close> Memory safety of the packet encoders and parsers, the tokenizer and the
  callbacks; round trips of PUBLISH packets and of flat JSON objects; the message queue and the
  application thread as refinements of a FIFO queue and of the terminal; delivery of MQTT messages,
  the way of a message from the serial line to the callback and to the display, and of a card from
  the field to the wire; the SPI bus as an exchange of bytes, and the reader over any bus; the I2C bus as
  whole messages to a device, the display behind it, and the end of every transfer; the sockets
  as byte streams and their table; and the behaviours that go wrong (\<open>findings\<close> of the manifest): QoS 2, reconnection, long
  names, pulses, left-over notices, overflowing answers, unanswered commands, answers that start within a
  byte, the first transfer on an I2C bus that was freed, delays that do not wait.

  \<^bold>\<open>Not modelled.\<close> Scheduling: threads are run in turns, but for the queue, whose sections interleave
  in any order, and for the waits of the client. The other services of RT-Thread (scheduler, timers,
  heap, semaphores, mailboxes), the file systems, network stacks, device drivers, the hardware
  abstraction layer, SAL, the network interface part of the Wi-Fi driver and the other modem drivers are
  third-party code the program only calls; what it relies on is a parameter or a hypothesis. Of the SPI
  core the other kinds of transfer, which the reader's package replaces by its own, and the attachment of
  devices are left out, and of that package the functions that print a card; of both buses the lock, since one
  thread uses each. The busy waits are parameters of the buses; \<open>Delays\<close> has them on the timer. Log output, thread creation and
  the shell commands other than the bus scan have no part in the behaviour. Static initialisation, detaching and deleting a
  message queue are not used by the program.
\<close>

end
